(* ===== verification/Prelude.thy ===== *)
theory Prelude
  imports "HOL-Library.Word" "HOL-Library.Char_ord" "HOL-Library.List_Lexorder"
begin

section \<open>Shared types, results and containers\<close>

text \<open>
  What every component of the development uses: the machine types, the result type
  of code that can fail, the ordered map that stands for std::map, and the generic
  lemmas on lists, words and decimal printing the components share.
\<close>

unbundle bit_operations_syntax

named_theorems fault_simps "unfolding rules of the result type"

subsection \<open>Machine types\<close>

type_synonym byte = "8 word"
type_synonym bytes = "byte list"
type_synonym u16 = "16 word"
type_synonym u32 = "32 word"
type_synonym u64 = "64 word"

text \<open>A signed 32-bit int stored into an int variable: two's complement.\<close>

definition wrap32 :: "int \<Rightarrow> int" where
  "wrap32 i = sint (word_of_int i :: u32)"

lemma wrap32_id: "- (2 ^ 31) \<le> i \<Longrightarrow> i < 2 ^ 31 \<Longrightarrow> wrap32 i = i"
  by (simp add: wrap32_def int_word_sint)

lemma wrap32_range: "- (2 ^ 31) \<le> wrap32 i \<and> wrap32 i < 2 ^ 31"
  using sint_range_size [of "word_of_int i :: u32"] by (simp add: wrap32_def word_size)

subsection \<open>Results of code that can fail\<close>

text \<open>
  \<open>Inl\<close> is an execution that leaves the defined behaviour of the C++ program (an
  access out of bounds, a shift by too many bits, a null pointer) or throws.
\<close>

datatype fault =
    OutOfBounds
  | BadShift
  | NullPointer
  | NotANumber
  | Uninitialised
  | Thrown string

type_synonym 'a result = "fault + 'a"

fun bindR :: "'a result \<Rightarrow> ('a \<Rightarrow> 'b result) \<Rightarrow> 'b result" where
  "bindR (Inl e) f = Inl e"
| "bindR (Inr x) f = f x"

fun isOk :: "'a result \<Rightarrow> bool" where
  "isOk (Inl e) = False"
| "isOk (Inr x) = True"

declare bindR.simps [fault_simps]

lemma bindR_Inr_iff [simp]: "bindR r f = Inr y \<longleftrightarrow> (\<exists>x. r = Inr x \<and> f x = Inr y)"
  by (cases r) auto

lemma bindR_Inl_iff: "bindR r f = Inl e \<longleftrightarrow> r = Inl e \<or> (\<exists>x. r = Inr x \<and> f x = Inl e)"
  by (cases r) auto

lemma bindR_assoc: "bindR (bindR r f) g = bindR r (\<lambda>x. bindR (f x) g)"
  by (cases r) auto

lemma bindR_cong: "r = s \<Longrightarrow> (\<And>x. s = Inr x \<Longrightarrow> f x = g x) \<Longrightarrow> bindR r f = bindR s g"
  by (cases s) auto

lemma isOk_iff: "isOk r \<longleftrightarrow> (\<exists>x. r = Inr x)"
  by (cases r) auto

text \<open>
  Results of code that may also run out of the fuel of its model, which is \<open>Inr None\<close>.
\<close>

definition bindF :: "'a option result \<Rightarrow> ('a \<Rightarrow> 'b option result) \<Rightarrow> 'b option result" where
  "bindF r f = bindR r (\<lambda>x. case x of None \<Rightarrow> Inr None | Some a \<Rightarrow> f a)"

lemma bindF_simps [simp, fault_simps]:
  "bindF (Inl e) f = Inl e" "bindF (Inr None) f = Inr None" "bindF (Inr (Some x)) f = f x"
  by (simp_all add: bindF_def)

lemma bindF_Some_iff [simp]:
  "bindF r f = Inr (Some y) \<longleftrightarrow> (\<exists>x. r = Inr (Some x) \<and> f x = Inr (Some y))"
  by (cases r; cases "projr r") (auto split: option.splits)

lemma bindF_assoc: "bindF (bindF r f) g = bindF r (\<lambda>x. bindF (f x) g)"
  by (cases r; cases "projr r") auto

lemma bindF_cong: "r = s \<Longrightarrow> (\<And>x. s = Inr (Some x) \<Longrightarrow> f x = g x) \<Longrightarrow> bindF r f = bindF s g"
  by (cases s; cases "projr s") auto

text \<open>A loop that appends what each of its rounds yields.\<close>

fun collect :: "('a \<Rightarrow> 'b list option result) \<Rightarrow> 'a list \<Rightarrow> 'b list option result" where
  "collect f [] = Inr (Some [])"
| "collect f (x # xs) = bindF (f x) (\<lambda>ys. bindF (collect f xs) (\<lambda>zs. Inr (Some (ys @ zs))))"

lemma collect_ok:
  "(\<And>x. x \<in> set xs \<Longrightarrow> \<exists>ys. f x = Inr (Some ys)) \<Longrightarrow> \<exists>zs. collect f xs = Inr (Some zs)"
proof (induction xs)
  case (Cons x xs)
  obtain ys where "f x = Inr (Some ys)" using Cons.prems [of x] by auto
  moreover obtain zs where "collect f xs = Inr (Some zs)" using Cons.IH Cons.prems by auto
  ultimately show ?case by simp
qed simp

lemma collect_elem:
  "collect f xs = Inr (Some zs) \<Longrightarrow> x \<in> set xs \<Longrightarrow> \<exists>ys. f x = Inr (Some ys) \<and> set ys \<subseteq> set zs"
  by (induction xs arbitrary: zs) fastforce+

lemma collect_source:
  "collect f xs = Inr (Some zs) \<Longrightarrow> z \<in> set zs \<Longrightarrow> \<exists>x ys. x \<in> set xs \<and> f x = Inr (Some ys) \<and> z \<in> set ys"
  by (induction xs arbitrary: zs) fastforce+

lemma collect_map:
  "(\<And>x. x \<in> set xs \<Longrightarrow> f x = Inr (Some (g x))) \<Longrightarrow> collect f xs = Inr (Some (concat (map g xs)))"
  by (induction xs) auto

lemma collect_cong: "xs = ys \<Longrightarrow> (\<And>x. x \<in> set ys \<Longrightarrow> f x = g x) \<Longrightarrow> collect f xs = collect g ys"
  by (induction ys arbitrary: xs) auto

text \<open>Reading an array of known length at an index.\<close>

definition elem_at :: "'a list \<Rightarrow> nat \<Rightarrow> 'a result" where
  "elem_at xs i = (if i < length xs then Inr (xs ! i) else Inl OutOfBounds)"

lemma elem_at_Inr_iff [simp]: "elem_at xs i = Inr x \<longleftrightarrow> i < length xs \<and> xs ! i = x"
  by (auto simp: elem_at_def)

lemma elem_at_append [simp]: "elem_at (pre @ x # rest) (length pre) = Inr x"
  by (simp add: elem_at_def)

subsection \<open>std::map as a sorted association list\<close>

text \<open>
  Iterating a std::map visits its keys in increasing order, so the model keeps the
  entries as a list sorted by key. Assigning through the subscript operator is
  \<open>smap_put\<close>, find is \<open>map_of\<close>.
\<close>

type_synonym ('k, 'v) smap = "('k \<times> 'v) list"

fun smap_put :: "'k::linorder \<Rightarrow> 'v \<Rightarrow> ('k, 'v) smap \<Rightarrow> ('k, 'v) smap" where
  "smap_put k v [] = [(k, v)]"
| "smap_put k v ((a, b) # m) =
     (if k < a then (k, v) # (a, b) # m
      else if k = a then (k, v) # m
      else (a, b) # smap_put k v m)"

definition smap_ok :: "('k::linorder, 'v) smap \<Rightarrow> bool" where
  "smap_ok m = sorted_wrt (<) (map fst m)"

text \<open>The promise the clients of std::map rely on.\<close>

locale ordered_map =
  fixes put :: "'k::linorder \<Rightarrow> 'v \<Rightarrow> 'm \<Rightarrow> 'm"
    and get :: "'m \<Rightarrow> 'k \<Rightarrow> 'v option"
    and keys :: "'m \<Rightarrow> 'k list"
    and ok :: "'m \<Rightarrow> bool"
  assumes get_put: "get (put k v m) = (get m)(k \<mapsto> v)"
    and keys_put: "ok m \<Longrightarrow> set (keys (put k v m)) = insert k (set (keys m))"
    and ok_put: "ok m \<Longrightarrow> ok (put k v m)"
    and keys_sorted: "ok m \<Longrightarrow> sorted_wrt (<) (keys m)"
    and keys_dom: "ok m \<Longrightarrow> set (keys m) = dom (get m)"
begin

lemma put_same: "get (put k v m) k = Some v"
  by (simp add: get_put)

lemma put_other: "k \<noteq> j \<Longrightarrow> get (put k v m) j = get m j"
  by (simp add: get_put)

lemma keys_distinct: "ok m \<Longrightarrow> distinct (keys m)"
  using keys_sorted strict_sorted_iff by blast

lemma get_put_put: "k \<noteq> j \<Longrightarrow> get (put k v (put j w m)) = get (put j w (put k v m))"
  by (simp add: get_put fun_upd_twist)

lemma get_fold_put:
  "get (fold (\<lambda>(k, v). put k v) kvs m) = get m ++ map_of (rev kvs)"
  by (induction kvs arbitrary: m) (auto simp: get_put fun_eq_iff map_add_def split: option.splits)

lemma ok_fold_put: "ok m \<Longrightarrow> ok (fold (\<lambda>(k, v). put k v) kvs m)"
  by (induction kvs arbitrary: m) (auto simp: ok_put)

end

lemma map_of_smap_put: "map_of (smap_put k v m) = (map_of m)(k \<mapsto> v)"
  by (induction k v m rule: smap_put.induct) (auto simp: fun_eq_iff)

lemma set_keys_smap_put: "set (map fst (smap_put k v m)) = insert k (set (map fst m))"
  by (induction k v m rule: smap_put.induct) auto

lemma sorted_keys_smap_put:
  "sorted_wrt (<) (map fst m) \<Longrightarrow> sorted_wrt (<) (map fst (smap_put k v m))"
proof (induction k v m rule: smap_put.induct)
  case (2 k v a b m)
  have "set (map fst (smap_put k v m)) = insert k (set (map fst m))"
    by (rule set_keys_smap_put)
  with 2 show ?case by (auto simp del: set_map)
qed simp

interpretation smap: ordered_map smap_put map_of "map fst" smap_ok
proof unfold_locales
  fix k :: "'k::linorder" and v :: 'v and m :: "('k, 'v) smap"
  show "map_of (smap_put k v m) = (map_of m)(k \<mapsto> v)"
    by (rule map_of_smap_put)
  show "set (map fst (smap_put k v m)) = insert k (set (map fst m))" if "smap_ok m"
    by (rule set_keys_smap_put)
  show "smap_ok (smap_put k v m)" if "smap_ok m"
    using that by (simp add: smap_ok_def sorted_keys_smap_put)
  show "sorted_wrt (<) (map fst m)" if "smap_ok m"
    using that by (simp add: smap_ok_def)
  show "set (map fst m) = dom (map_of m)" if "smap_ok m"
    by (simp add: dom_map_of_conv_image_fst)
qed

lemma smap_ok_Nil [simp, intro]: "smap_ok []"
  by (simp add: smap_ok_def)


subsection \<open>Decimal numbers as text\<close>

definition digit :: "nat \<Rightarrow> char" where
  "digit d = char_of (48 + d)"

fun dec_str :: "nat \<Rightarrow> string" where
  "dec_str n = (if n < 10 then [digit n] else dec_str (n div 10) @ [digit (n mod 10)])"

declare dec_str.simps [simp del]

definition int_str :: "int \<Rightarrow> string" where
  "int_str i = (if i < 0 then CHR ''-'' # dec_str (nat (- i)) else dec_str (nat i))"

definition is_digit :: "char \<Rightarrow> bool" where
  "is_digit c = ((48 :: nat) \<le> of_char c \<and> of_char c \<le> (57 :: nat))"

definition digit_val :: "char \<Rightarrow> nat" where
  "digit_val c = of_char c - 48"

definition digits_val :: "string \<Rightarrow> nat" where
  "digits_val ds = foldl (\<lambda>n c. 10 * n + digit_val c) 0 ds"

lemma digit_facts [simp]: "d < 10 \<Longrightarrow> is_digit (digit d)" "d < 10 \<Longrightarrow> digit_val (digit d) = d"
  by (simp_all add: is_digit_def digit_val_def digit_def)

lemma dec_str_digits: "\<forall>c \<in> set (dec_str n). is_digit c"
  by (induction n rule: dec_str.induct) (subst dec_str.simps, simp)

lemma dec_str_nonempty [simp]: "dec_str n \<noteq> []"
  by (subst dec_str.simps) simp

lemma digits_val_append [simp]: "digits_val (ds @ [c]) = 10 * digits_val ds + digit_val c"
  by (simp add: digits_val_def)

lemma digits_val_dec_str [simp]: "digits_val (dec_str n) = n"
proof (induction n rule: dec_str.induct)
  case (1 n)
  show ?case
  proof (cases "n < 10")
    case True
    then show ?thesis by (subst dec_str.simps) (simp add: digits_val_def)
  next
    case False
    with 1 show ?thesis by (subst dec_str.simps) simp
  qed
qed

lemma dec_str_inj [simp]: "dec_str m = dec_str n \<longleftrightarrow> m = n"
  using digits_val_dec_str by metis

subsection \<open>Hexadecimal numbers and padding\<close>

definition hex_digit :: "nat \<Rightarrow> char" where
  "hex_digit d = (if d < 10 then char_of (48 + d) else char_of (87 + d))"

fun hex_num :: "nat \<Rightarrow> string" where
  "hex_num n = (if n < 16 then [hex_digit n] else hex_num (n div 16) @ [hex_digit (n mod 16)])"

declare hex_num.simps [simp del]

definition pad_left :: "nat \<Rightarrow> char \<Rightarrow> string \<Rightarrow> string" where
  "pad_left w fill s = replicate (w - length s) fill @ s"

definition pad_right :: "nat \<Rightarrow> char \<Rightarrow> string \<Rightarrow> string" where
  "pad_right w fill s = s @ replicate (w - length s) fill"

text \<open>White space as isspace of the C locale has it.\<close>

definition is_space :: "char \<Rightarrow> bool" where
  "is_space c = (c \<in> {CHR '' '', CHR 0x09, CHR 0x0A, CHR 0x0B, CHR 0x0C, CHR 0x0D})"

lemma digit_not_space: "is_digit c \<Longrightarrow> \<not> is_space c"
  by (auto simp: is_digit_def is_space_def)

lemma dropWhile_none: "xs = [] \<or> \<not> P (hd xs) \<Longrightarrow> dropWhile P xs = xs"
  by (cases xs) auto

lemma list_all_update: "list_all P xs \<Longrightarrow> P x \<Longrightarrow> list_all P (xs[i := x])"
  by (auto simp: list_all_iff dest!: set_update_subset_insert [THEN subsetD])

end
