(* ===== verification/HuffTree.thy ===== *)
theory HuffTree
  imports Prelude "HOL-Library.Multiset" "HOL-Library.Sublist"
begin

section \<open>Huffman trees and code maps\<close>

text \<open>
  huff/node.h, leafnode.h, internalnode.h and the first half of huff/huffcode.cpp: the
  code tree, its construction from symbol frequencies or from a code map, the code map
  generated from a tree, and the search for the leaf of a code. A Node pointer is a
  tree, a null pointer is \<open>None\<close>; leaf flags are bits 1 (end of file) and 2 (escape).
\<close>

unbundle bit_operations_syntax

subsection \<open>Nodes\<close>

datatype node =
    LeafNode int byte byte          \<comment> \<open>f, c, flags\<close>
  | InternalNode int node node      \<comment> \<open>f, left, right\<close>

fun node_f :: "node \<Rightarrow> int" where
  "node_f (LeafNode f c flags) = f"
| "node_f (InternalNode f l r) = f"

text \<open>The InternalNode constructor adds the int weights of its children.\<close>

definition new_internal :: "node \<Rightarrow> node \<Rightarrow> node" where
  "new_internal c0 c1 = InternalNode (wrap32 (node_f c0 + node_f c1)) c0 c1"

type_synonym huffcode = "bool list"
type_synonym codemap = "(byte, huffcode) smap"

subsection \<open>Frequencies\<close>

fun count_data :: "u64 list \<Rightarrow> bytes \<Rightarrow> u64 list result" where
  "count_data frequencies [] = Inr frequencies"
| "count_data frequencies (b # data) =
     (if unat b < length frequencies
      then count_data (frequencies[unat b := frequencies ! unat b + 1]) data
      else Inl OutOfBounds)"

definition buildFrequencies :: "nat \<Rightarrow> bytes \<Rightarrow> u64 list result" where
  "buildFrequencies symbols_size data = count_data (replicate symbols_size 0) data"

subsection \<open>The priority queue\<close>

text \<open>
  std::priority_queue with NodeCmp keeps a node of least weight on top. The standard
  leaves the order of equal weights open; this queue keeps them in order of arrival.
  The lemmas on the construction are proved in the locale \<open>node_queue\<close>, from the
  contract of the standard alone.
\<close>

fun pq_push :: "node \<Rightarrow> node list \<Rightarrow> node list" where
  "pq_push x [] = [x]"
| "pq_push x (y # ys) = (if node_f x < node_f y then x # y # ys else y # pq_push x ys)"

definition pq_top :: "node list \<Rightarrow> node" where
  "pq_top q = hd q"

definition pq_pop :: "node list \<Rightarrow> node list" where
  "pq_pop q = tl q"

text \<open>
  \<open>while (trees.size() > 1)\<close>: two nodes are popped, joined and pushed back. Each round
  shortens the queue by one, so its length is fuel enough.
\<close>

fun merge_trees :: "('q \<Rightarrow> nat) \<Rightarrow> ('q \<Rightarrow> node) \<Rightarrow> ('q \<Rightarrow> 'q) \<Rightarrow> (node \<Rightarrow> 'q \<Rightarrow> 'q)
    \<Rightarrow> (node \<Rightarrow> node \<Rightarrow> node) \<Rightarrow> nat \<Rightarrow> 'q \<Rightarrow> 'q" where
  "merge_trees cnt front pop push join 0 q = q"
| "merge_trees cnt front pop push join (Suc n) q =
     (if 1 < cnt q then
        (let childR = front q; q1 = pop q; childL = front q1; q2 = pop q1
         in merge_trees cnt front pop push join n (push (join childR childL) q2))
      else q)"

definition merge_queue :: "(node \<Rightarrow> node \<Rightarrow> node) \<Rightarrow> node list \<Rightarrow> node option" where
  "merge_queue join trees =
     (if length trees = 0 then None
      else Some (pq_top (merge_trees length pq_top pq_pop pq_push join (length trees) trees)))"

subsection \<open>Building a tree\<close>

fun push_leaves :: "nat \<Rightarrow> u64 list \<Rightarrow> node list \<Rightarrow> node list" where
  "push_leaves i [] trees = trees"
| "push_leaves i (f # fs) trees =
     push_leaves (Suc i) fs
       (if f \<noteq> 0 then pq_push (LeafNode (wrap32 (uint f)) (of_nat i) 0) trees else trees)"

definition buildTree :: "u64 list \<Rightarrow> node option" where
  "buildTree frequencies =
     merge_queue (\<lambda>childR childL. new_internal childR childL) (push_leaves 0 frequencies [])"

fun push_codes :: "int \<Rightarrow> codemap \<Rightarrow> node list \<Rightarrow> node list" where
  "push_codes f [] trees = trees"
| "push_codes f ((c, code) # codes) trees =
     push_codes (f - 1) codes (pq_push (LeafNode f c 0) trees)"

definition buildTreeFromCodes :: "codemap \<Rightarrow> node option" where
  "buildTreeFromCodes codes =
     merge_queue (\<lambda>childR childL. new_internal childL childR)
       (push_codes (int (length codes) + 1) codes [])"

subsection \<open>Codes of a tree\<close>

fun gen_codes :: "codemap \<Rightarrow> node \<Rightarrow> huffcode \<Rightarrow> codemap" where
  "gen_codes outCodes (LeafNode f c flags) pre = smap_put c pre outCodes"
| "gen_codes outCodes (InternalNode f l r) pre =
     gen_codes (gen_codes outCodes l (pre @ [False])) r (pre @ [True])"

definition generateCodes :: "codemap \<Rightarrow> node option \<Rightarrow> huffcode \<Rightarrow> codemap" where
  "generateCodes outCodes nd pre =
     (case nd of None \<Rightarrow> outCodes | Some t \<Rightarrow> gen_codes outCodes t pre)"

fun max_depth0 :: "int \<Rightarrow> node \<Rightarrow> int" where
  "max_depth0 depth (LeafNode f c flags) = depth + 1"
| "max_depth0 depth (InternalNode f left right) =
     (let d = depth + 1; l = max_depth0 d left; r = max_depth0 d right
      in if l > r then l else r)"

definition get_tree_max_depth :: "node option \<Rightarrow> int" where
  "get_tree_max_depth nd = (case nd of None \<Rightarrow> 0 | Some t \<Rightarrow> max_depth0 0 t)"

definition getHuffCode :: "string \<Rightarrow> huffcode" where
  "getHuffCode t = map (\<lambda>ch. ch = CHR ''1'') t"

text \<open>
  find_code follows the bits from the root; at a leaf the remaining bits are read but
  move nowhere.
\<close>

fun walk :: "node \<Rightarrow> huffcode \<Rightarrow> node" where
  "walk n [] = n"
| "walk (InternalNode f l r) (b # bs) = walk (if \<not> b then l else r) bs"
| "walk (LeafNode f c flags) (b # bs) = walk (LeafNode f c flags) bs"

definition find_code :: "node option \<Rightarrow> huffcode \<Rightarrow> node option" where
  "find_code root code =
     (case root of
        None \<Rightarrow> None
      | Some t \<Rightarrow> (case walk t code of LeafNode f c flags \<Rightarrow> Some (LeafNode f c flags)
                                   | InternalNode f l r \<Rightarrow> None))"

text \<open>Changing the flags of the leaf a code leads to, in place.\<close>

fun upd_flags :: "(byte \<Rightarrow> byte) \<Rightarrow> node \<Rightarrow> huffcode \<Rightarrow> node" where
  "upd_flags g (LeafNode f c flags) bs = LeafNode f c (g flags)"
| "upd_flags g (InternalNode f l r) [] = InternalNode f l r"
| "upd_flags g (InternalNode f l r) (b # bs) =
     (if \<not> b then InternalNode f (upd_flags g l bs) r
      else InternalNode f l (upd_flags g r bs))"

definition set_code_flag :: "node option \<Rightarrow> huffcode \<Rightarrow> byte \<Rightarrow> bool \<times> node option" where
  "set_code_flag root code v =
     (case find_code root code of
        None \<Rightarrow> (False, root)
      | Some lf \<Rightarrow> (True, map_option (\<lambda>t. upd_flags (\<lambda>flags. flags OR v) t code) root))"

definition clear_code_flag :: "node option \<Rightarrow> huffcode \<Rightarrow> bool \<times> node option" where
  "clear_code_flag root code =
     (case find_code root code of
        None \<Rightarrow> (False, root)
      | Some lf \<Rightarrow> (True, map_option (\<lambda>t. upd_flags (\<lambda>flags. 0) t code) root))"

subsection \<open>Leaves\<close>

fun leaf_chars :: "node \<Rightarrow> byte list" where
  "leaf_chars (LeafNode f c flags) = [c]"
| "leaf_chars (InternalNode f l r) = leaf_chars l @ leaf_chars r"

fun inner_nodes :: "node \<Rightarrow> nat" where
  "inner_nodes (LeafNode f c flags) = 0"
| "inner_nodes (InternalNode f l r) = Suc (inner_nodes l + inner_nodes r)"

definition is_inner :: "node \<Rightarrow> bool" where
  "is_inner n = (\<exists>f l r. n = InternalNode f l r)"

lemma leaf_chars_nonempty [simp]: "leaf_chars n \<noteq> []"
  by (induction n) auto

lemma leaf_chars_new_internal [simp]: "leaf_chars (new_internal a b) = leaf_chars a @ leaf_chars b"
  by (simp add: new_internal_def)

lemma leaf_chars_upd_flags [simp]: "leaf_chars (upd_flags g t bs) = leaf_chars t"
  by (induction g t bs rule: upd_flags.induct) auto

lemma inner_iff_chars: "is_inner n \<longleftrightarrow> 2 \<le> length (leaf_chars n)"
proof (cases n)
  case (InternalNode f l r)
  have "0 < length (leaf_chars l)" "0 < length (leaf_chars r)" by auto
  then have "2 \<le> length (leaf_chars l) + length (leaf_chars r)" by linarith
  then show ?thesis by (simp add: InternalNode is_inner_def)
qed (simp add: is_inner_def)

subsection \<open>Building from any queue that keeps the contract\<close>

locale node_queue =
  fixes cnt :: "'q \<Rightarrow> nat"
    and front :: "'q \<Rightarrow> node"
    and pop :: "'q \<Rightarrow> 'q"
    and push :: "node \<Rightarrow> 'q \<Rightarrow> 'q"
    and items :: "'q \<Rightarrow> node multiset"
    and qok :: "'q \<Rightarrow> bool"
  assumes cnt_items: "qok q \<Longrightarrow> cnt q = size (items q)"
    and items_push: "qok q \<Longrightarrow> items (push x q) = add_mset x (items q)"
    and qok_push: "qok q \<Longrightarrow> qok (push x q)"
    and front_items: "qok q \<Longrightarrow> items q \<noteq> {#} \<Longrightarrow> front q \<in># items q"
    and front_least: "qok q \<Longrightarrow> y \<in># items q \<Longrightarrow> node_f (front q) \<le> node_f y"
    and items_pop: "qok q \<Longrightarrow> items q \<noteq> {#} \<Longrightarrow> items (pop q) = items q - {#front q#}"
    and qok_pop: "qok q \<Longrightarrow> items q \<noteq> {#} \<Longrightarrow> qok (pop q)"
begin

definition chars :: "'q \<Rightarrow> byte multiset" where
  "chars q = \<Sum>\<^sub># (image_mset (mset \<circ> leaf_chars) (items q))"

lemma two_fronts:
  assumes ok: "qok q" and two: "1 < cnt q"
  shows "items q = add_mset (front q) (add_mset (front (pop q)) (items (pop (pop q))))"
    and "qok (pop (pop q))"
proof -
  from ok two have ne: "items q \<noteq> {#}" by (auto simp: cnt_items)
  note fq = front_items [OF ok ne] and pq = items_pop [OF ok ne] and okp = qok_pop [OF ok ne]
  have "size (items (pop q)) = size (items q) - 1"
    using fq by (simp add: pq size_Diff_singleton)
  with ok two have ne2: "items (pop q) \<noteq> {#}" by (auto simp: cnt_items)
  note fp = front_items [OF okp ne2] and pp = items_pop [OF okp ne2]
  show "qok (pop (pop q))" by (rule qok_pop [OF okp ne2])
  show "items q = add_mset (front q) (add_mset (front (pop q)) (items (pop (pop q))))"
    by (metis fq fp insert_DiffM pp pq)
qed

lemma merge_step:
  assumes ok: "qok q" and two: "1 < cnt q"
    and join: "\<And>a b. mset (leaf_chars (join a b)) = mset (leaf_chars a) + mset (leaf_chars b)"
  defines "q' \<equiv> push (join (front q) (front (pop q))) (pop (pop q))"
  shows "qok q'" and "cnt q' = cnt q - 1" and "chars q' = chars q"
proof -
  note i = two_fronts(1) [OF ok two] and okpp = two_fronts(2) [OF ok two]
  show "qok q'" using okpp by (simp add: q'_def qok_push)
  have i': "items q' = add_mset (join (front q) (front (pop q))) (items (pop (pop q)))"
    using okpp by (simp add: q'_def items_push)
  show "cnt q' = cnt q - 1"
    using ok \<open>qok q'\<close> by (simp add: cnt_items i' i)
  show "chars q' = chars q"
    by (simp add: chars_def i' i join ac_simps)
qed

text \<open>A predicate the join keeps holds of all nodes of the merged queue.\<close>

lemma merge_trees_all:
  assumes join: "\<And>a b. P a \<Longrightarrow> P b \<Longrightarrow> P (join a b)"
    and "qok q" and "\<forall>t \<in># items q. P t"
  shows "\<forall>t \<in># items (merge_trees cnt front pop push join n q). P t"
  using assms(2,3)
proof (induction n arbitrary: q)
  case (Suc n)
  show ?case
  proof (cases "1 < cnt q")
    case True
    note i = two_fronts(1) [OF Suc.prems(1) True] and okpp = two_fronts(2) [OF Suc.prems(1) True]
    have "\<forall>t \<in># items (push (join (front q) (front (pop q))) (pop (pop q))). P t"
      using Suc.prems(2) unfolding i by (auto simp: items_push [OF okpp] join)
    from Suc.IH [OF qok_push [OF okpp] this] True show ?thesis by (simp add: Let_def)
  qed (use Suc.prems in auto)
qed auto

lemma merge_trees_inv:
  assumes join: "\<And>a b. mset (leaf_chars (join a b)) = mset (leaf_chars a) + mset (leaf_chars b)"
    and "qok q" and "cnt q \<le> Suc n"
  shows "qok (merge_trees cnt front pop push join n q)
    \<and> cnt (merge_trees cnt front pop push join n q) = min 1 (cnt q)
    \<and> chars (merge_trees cnt front pop push join n q) = chars q"
  using assms(2,3)
proof (induction n arbitrary: q)
  case (Suc n)
  show ?case
  proof (cases "1 < cnt q")
    case True
    note st = merge_step [OF Suc.prems(1) True, of join, OF join]
    show ?thesis
      using Suc.IH [OF st(1)] Suc.prems(2) True by (simp add: st Let_def)
  qed (use Suc.prems in auto)
qed auto

lemma merged_front:
  assumes join: "\<And>a b. mset (leaf_chars (join a b)) = mset (leaf_chars a) + mset (leaf_chars b)"
    and ok: "qok q" and some: "0 < cnt q"
  shows "mset (leaf_chars (front (merge_trees cnt front pop push join (cnt q) q))) = chars q"
proof -
  let ?q = "merge_trees cnt front pop push join (cnt q) q"
  note inv = merge_trees_inv [OF join ok, of "cnt q"]
  from inv some have "size (items ?q) = 1" by (auto simp: cnt_items min_def)
  then obtain t where t: "items ?q = {#t#}" by (metis size_1_singleton_mset)
  with front_items [of ?q] inv have "front ?q = t" by auto
  with inv t show ?thesis by (simp add: chars_def)
qed

end

lemma mset_pq_push: "mset (pq_push x q) = add_mset x (mset q)"
  by (induction x q rule: pq_push.induct) auto

lemma sorted_pq_push: "sorted_wrt (\<lambda>a b. node_f a \<le> node_f b) q \<Longrightarrow>
    sorted_wrt (\<lambda>a b. node_f a \<le> node_f b) (pq_push x q)"
proof (induction x q rule: pq_push.induct)
  case (2 x y ys)
  have "set (pq_push x ys) = insert x (set ys)"
    using mset_pq_push [of x ys] by (metis set_mset_add_mset_insert set_mset_mset)
  with 2 show ?case by auto
qed simp

definition pq_ok :: "node list \<Rightarrow> bool" where
  "pq_ok q = sorted_wrt (\<lambda>a b. node_f a \<le> node_f b) q"

interpretation pq: node_queue length pq_top pq_pop pq_push mset pq_ok
proof unfold_locales
  fix q :: "node list" and x y
  assume ok: "pq_ok q"
  show "length q = size (mset q)" by simp
  show "mset (pq_push x q) = add_mset x (mset q)" by (rule mset_pq_push)
  show "pq_ok (pq_push x q)" using ok by (simp add: pq_ok_def sorted_pq_push)
  show "node_f (pq_top q) \<le> node_f y" if "y \<in># mset q"
    using that ok by (cases q) (auto simp: pq_top_def pq_ok_def)
  assume ne: "mset q \<noteq> {#}"
  then show "pq_top q \<in># mset q" by (cases q) (auto simp: pq_top_def)
  show "mset (pq_pop q) = mset q - {#pq_top q#}"
    using ne by (cases q) (auto simp: pq_top_def pq_pop_def)
  show "pq_ok (pq_pop q)"
    using ok by (cases q) (auto simp: pq_pop_def pq_ok_def)
qed

subsection \<open>Leaves of the trees the program builds\<close>

lemma pq_ok_Nil [simp]: "pq_ok []"
  by (simp add: pq_ok_def)

lemma merge_queue_None: "merge_queue join trees = None \<longleftrightarrow> trees = []"
  by (simp add: merge_queue_def)

lemma merge_queue_chars:
  assumes join: "\<And>a b. mset (leaf_chars (join a b)) = mset (leaf_chars a) + mset (leaf_chars b)"
    and "pq_ok trees" and "merge_queue join trees = Some t"
  shows "mset (leaf_chars t) = pq.chars trees"
  using pq.merged_front [of join trees] assms by (auto simp: merge_queue_def split: if_splits)

lemma chars_pq_push: "pq_ok q \<Longrightarrow> pq.chars (pq_push x q) = mset (leaf_chars x) + pq.chars q"
  by (simp add: pq.chars_def mset_pq_push)

text \<open>The symbols with a frequency, from index \<open>i\<close> on.\<close>

fun used_symbols :: "nat \<Rightarrow> u64 list \<Rightarrow> byte list" where
  "used_symbols i [] = []"
| "used_symbols i (f # fs) = (if f \<noteq> 0 then [of_nat i] else []) @ used_symbols (Suc i) fs"

lemma push_leaves_ok: "pq_ok trees \<Longrightarrow> pq_ok (push_leaves i fs trees)
    \<and> pq.chars (push_leaves i fs trees) = pq.chars trees + mset (used_symbols i fs)"
  by (induction i fs trees rule: push_leaves.induct) (auto simp: pq.qok_push chars_pq_push)

lemma push_codes_ok: "pq_ok trees \<Longrightarrow> pq_ok (push_codes f codes trees)
    \<and> pq.chars (push_codes f codes trees) = pq.chars trees + mset (map fst codes)"
  by (induction f codes trees rule: push_codes.induct) (auto simp: pq.qok_push chars_pq_push)

lemma chars_Nil [simp]: "pq.chars [] = {#}"
  by (simp add: pq.chars_def)

lemma chars_empty_iff: "pq.chars q = {#} \<longleftrightarrow> q = []"
  by (auto simp: pq.chars_def)

lemma buildTree_chars: "buildTree fs = Some t \<Longrightarrow> mset (leaf_chars t) = mset (used_symbols 0 fs)"
  using merge_queue_chars [of "\<lambda>r l. new_internal r l" "push_leaves 0 fs []" t] push_leaves_ok [of "[]" 0 fs]
  by (simp add: buildTree_def)

lemma buildTree_None_iff: "buildTree fs = None \<longleftrightarrow> used_symbols 0 fs = []"
  using push_leaves_ok [of "[]" 0 fs] chars_empty_iff [of "push_leaves 0 fs []"]
  by (simp add: buildTree_def merge_queue_None)

lemma buildTreeFromCodes_chars:
  "buildTreeFromCodes codes = Some t \<Longrightarrow> mset (leaf_chars t) = mset (map fst codes)"
  using merge_queue_chars [of "\<lambda>r l. new_internal l r" "push_codes (int (length codes) + 1) codes []" t]
    push_codes_ok [of "[]" _ codes]
  by (simp add: buildTreeFromCodes_def add.commute)

lemma set_used_symbols:
  "set (used_symbols i fs) = {of_nat (i + k) | k. k < length fs \<and> fs ! k \<noteq> 0}"
proof (induction i fs rule: used_symbols.induct)
  case (2 i f fs)
  have "{of_nat (i + k) | k. k < length (f # fs) \<and> (f # fs) ! k \<noteq> 0}
      = (if f \<noteq> 0 then {of_nat i :: byte} else {})
        \<union> {of_nat (Suc i + k) | k. k < length fs \<and> fs ! k \<noteq> 0}" (is "?L = ?R")
  proof
    show "?L \<subseteq> ?R"
    proof
      fix c assume "c \<in> ?L"
      then obtain k where "c = of_nat (i + k)" "k < length (f # fs)" "(f # fs) ! k \<noteq> 0" by blast
      then show "c \<in> ?R" by (cases k) auto
    qed
    show "?R \<subseteq> ?L"
    proof
      fix c assume "c \<in> ?R"
      then consider "f \<noteq> 0" "c = of_nat (i + 0)"
        | k where "c = of_nat (i + Suc k)" "k < length fs" "fs ! k \<noteq> 0"
        by (auto split: if_splits)
      then show "c \<in> ?L"
      proof cases
        case 1
        then show ?thesis by force
      next
        case 2
        then show ?thesis by (intro CollectI exI [of _ "Suc k"]) simp
      qed
    qed
  qed
  with 2 show ?case by simp
qed simp

lemma of_nat_byte_inj: "i < 256 \<Longrightarrow> j < 256 \<Longrightarrow> (of_nat i :: byte) = of_nat j \<longleftrightarrow> i = j"
  by (simp add: word_of_nat_eq_iff take_bit_nat_eq_self)

lemma distinct_used_symbols: "i + length fs \<le> 256 \<Longrightarrow> distinct (used_symbols i fs)"
proof (induction i fs rule: used_symbols.induct)
  case (2 i f fs)
  then have "of_nat i \<notin> set (used_symbols (Suc i) fs)"
    by (auto simp: set_used_symbols of_nat_byte_inj simp flip: of_nat_Suc of_nat_add)
  with 2 show ?case by simp
qed simp

lemma buildTree_distinct:
  assumes "buildTree fs = Some t" and "length fs \<le> 256"
  shows "distinct (leaf_chars t)"
  using buildTree_chars [OF assms(1)] distinct_used_symbols [of 0 fs] assms(2)
    mset_eq_imp_distinct_iff [of "leaf_chars t" "used_symbols 0 fs"] by simp

subsection \<open>The code of a symbol in a tree\<close>

fun code_of :: "node \<Rightarrow> byte \<Rightarrow> huffcode option" where
  "code_of (LeafNode f c flags) d = (if d = c then Some [] else None)"
| "code_of (InternalNode f l r) d =
     (case code_of l d of
        Some p \<Rightarrow> Some (False # p)
      | None \<Rightarrow> map_option (Cons True) (code_of r d))"

lemma code_of_None_iff: "code_of t d = None \<longleftrightarrow> d \<notin> set (leaf_chars t)"
  by (induction t) (auto split: option.splits)

lemma code_of_Some: "d \<in> set (leaf_chars t) \<Longrightarrow> \<exists>p. code_of t d = Some p"
  using code_of_None_iff [of t d] by auto

lemma walk_code_of:
  "code_of t d = Some p \<Longrightarrow> \<exists>f flags. walk t (p @ bs) = LeafNode f d flags"
proof (induction t d arbitrary: p rule: code_of.induct)
  case (1 f c flags d)
  then have "p = []" "d = c" by (auto split: if_splits)
  moreover have "walk (LeafNode f c flags) bs = LeafNode f c flags" by (induction bs) auto
  ultimately show ?case by simp
qed (auto split: option.splits)

text \<open>Distinct symbols have codes of which none is a prefix of another.\<close>

lemma code_of_prefix_free:
  assumes "code_of t c = Some p" and "code_of t d = Some (p @ bs)"
  shows "c = d"
  using walk_code_of [OF assms(1), of bs] walk_code_of [OF assms(2), of "[]"] by auto

lemma map_of_gen_codes:
  assumes "distinct (leaf_chars t)"
  shows "map_of (gen_codes m t pre) d =
    (case code_of t d of Some p \<Rightarrow> Some (pre @ p) | None \<Rightarrow> map_of m d)"
  using assms
proof (induction m t pre rule: gen_codes.induct)
  case (1 m f c flags pre)
  then show ?case by (simp add: smap.get_put)
next
  case (2 m f l r pre)
  have "code_of l d = None \<or> code_of r d = None"
    using "2.prems" by (auto simp: code_of_None_iff)
  with 2 show ?case by (auto split: option.splits)
qed

lemma generateCodes_code_of:
  "distinct (leaf_chars t) \<Longrightarrow> map_of (generateCodes [] (Some t) []) = code_of t"
  by (rule ext) (simp add: generateCodes_def map_of_gen_codes split: option.splits)

lemma code_length_depth: "code_of t c = Some p \<Longrightarrow> d + int (length p) + 1 \<le> max_depth0 d t"
proof (induction t c arbitrary: p d rule: code_of.induct)
  case (2 f l r c)
  from "2.prems" consider q where "code_of l c = Some q" "p = False # q"
    | q where "code_of r c = Some q" "p = True # q" by (auto split: option.splits)
  then show ?case
  proof cases
    case 1
    with "2.IH"(1) [OF 1(1), of "d + 1"] show ?thesis by (simp add: Let_def)
  next
    case 2
    moreover have "code_of l c = None" using "2.prems" 2 by (auto split: option.splits)
    ultimately show ?thesis using "2.IH"(2) [OF _ 2(1), of "d + 1"] by (simp add: Let_def)
  qed
qed (auto split: if_splits)

subsection \<open>Flags\<close>

fun flag_of :: "node \<Rightarrow> byte \<Rightarrow> byte option" where
  "flag_of (LeafNode f c flags) d = (if d = c then Some flags else None)"
| "flag_of (InternalNode f l r) d =
     (case flag_of l d of Some v \<Rightarrow> Some v | None \<Rightarrow> flag_of r d)"

lemma flag_of_None_iff: "flag_of t d = None \<longleftrightarrow> code_of t d = None"
  by (induction t d rule: flag_of.induct) (auto split: option.splits)

lemma walk_flag_of:
  "code_of t d = Some p \<Longrightarrow> \<exists>f v. walk t (p @ bs) = LeafNode f d v \<and> flag_of t d = Some v"
proof (induction t d arbitrary: p rule: flag_of.induct)
  case (1 f c flags d)
  then have "p = []" "d = c" by (auto split: if_splits)
  moreover have "walk (LeafNode f c flags) bs = LeafNode f c flags" by (induction bs) auto
  ultimately show ?case by simp
next
  case (2 f l r d)
  from "2.prems" consider q where "code_of l d = Some q" "p = False # q"
    | q where "code_of l d = None" "code_of r d = Some q" "p = True # q"
    by (auto split: option.splits)
  then show ?case
  proof cases
    case 1
    with "2.IH"(1) [OF 1(1)] show ?thesis by auto
  next
    case 2
    then have "flag_of l d = None" by (simp add: flag_of_None_iff)
    with 2 "2.IH"(2) [OF _ 2(2)] show ?thesis by auto
  qed
qed

lemma code_of_upd_flags [simp]: "code_of (upd_flags g t bs) d = code_of t d"
  by (induction g t bs rule: upd_flags.induct) (auto split: option.splits)

lemma flag_of_upd_flags:
  assumes "distinct (leaf_chars t)" and "code_of t c = Some p"
  shows "flag_of (upd_flags g t p) d = (if d = c then map_option g (flag_of t d) else flag_of t d)"
  using assms
proof (induction g t p arbitrary: c rule: upd_flags.induct)
  case (3 g f l r b bs)
  have lr: "code_of l x = None \<or> code_of r x = None" for x
    using "3.prems"(1) by (auto simp: code_of_None_iff)
  show ?case
  proof (cases "b")
    case False
    with "3.prems"(2) have c: "code_of l c = Some bs" by (auto split: option.splits)
    with lr [of c] have "flag_of r c = None" by (simp add: flag_of_None_iff)
    with "3.IH"(1) [OF _ _ c] "3.prems"(1) False show ?thesis
      by (auto split: option.splits)
  next
    case True
    with "3.prems"(2) have c: "code_of r c = Some bs" "code_of l c = None" by (auto split: option.splits)
    then have "flag_of l c = None" by (simp add: flag_of_None_iff)
    with "3.IH"(2) [OF _ _ c(1)] "3.prems"(1) True show ?thesis
      by (auto split: option.splits)
  qed
qed (auto split: if_splits option.splits)

lemma set_code_flag_of:
  assumes "code_of t c = Some p"
  shows "set_code_flag (Some t) p v = (True, Some (upd_flags (\<lambda>flags. flags OR v) t p))"
  using walk_code_of [OF assms, of "[]"] by (auto simp: set_code_flag_def find_code_def)

text \<open>A tree is fresh when no leaf has a flag; the builders make fresh trees.\<close>

fun fresh :: "node \<Rightarrow> bool" where
  "fresh (LeafNode f c flags) = (flags = 0)"
| "fresh (InternalNode f l r) = (fresh l \<and> fresh r)"

lemma fresh_flag_of: "fresh t \<Longrightarrow> flag_of t d = (if d \<in> set (leaf_chars t) then Some 0 else None)"
  by (induction t) (auto split: option.splits)

lemma fresh_new_internal [simp]: "fresh (new_internal a b) = (fresh a \<and> fresh b)"
  by (simp add: new_internal_def)

lemma merge_queue_all:
  assumes join: "\<And>a b. P a \<Longrightarrow> P b \<Longrightarrow> P (join a b)"
    and jc: "\<And>a b. mset (leaf_chars (join a b)) = mset (leaf_chars a) + mset (leaf_chars b)"
    and ok: "pq_ok trees" and all: "\<forall>t \<in> set trees. P t" and t: "merge_queue join trees = Some t"
  shows "P t"
proof -
  define q where "q = merge_trees length pq_top pq_pop pq_push join (length trees) trees"
  have tq: "t = pq_top q" and ne: "0 < length trees"
    using t by (auto simp: merge_queue_def q_def split: if_splits)
  have inv: "pq_ok q \<and> length q = min 1 (length trees)"
    using pq.merge_trees_inv [of join, OF jc ok, of "length trees"] by (simp add: q_def)
  then have "mset q \<noteq> {#}" using ne by (cases q) (auto simp: min_def split: if_splits)
  then have "pq_top q \<in> set q" using pq.front_items [of q] inv by simp
  moreover have "\<forall>t \<in> set q. P t"
    using pq.merge_trees_all [of P join, OF join ok, of "length trees"] all by (simp add: q_def)
  ultimately show ?thesis by (simp add: tq)
qed

lemma push_leaves_all:
  "(\<And>f c. P (LeafNode f c 0)) \<Longrightarrow> \<forall>t \<in> set trees. P t \<Longrightarrow> \<forall>t \<in> set (push_leaves i fs trees). P t"
proof (induction i fs trees rule: push_leaves.induct)
  case (2 i f fs trees)
  have "\<forall>t \<in># mset (pq_push (LeafNode (wrap32 (uint f)) (of_nat i) 0) trees). P t"
    using 2 by (simp add: mset_pq_push)
  with 2 show ?case by simp
qed simp

lemma push_codes_all:
  "(\<And>f c. P (LeafNode f c 0)) \<Longrightarrow> \<forall>t \<in> set trees. P t \<Longrightarrow> \<forall>t \<in> set (push_codes f codes trees). P t"
proof (induction f codes trees rule: push_codes.induct)
  case (2 f c code codes trees)
  have "\<forall>t \<in># mset (pq_push (LeafNode f c 0) trees). P t"
    using 2 by (simp add: mset_pq_push)
  with 2 show ?case by simp
qed simp

lemma buildTree_fresh:
  assumes "buildTree fs = Some t"
  shows "fresh t"
proof (rule merge_queue_all [where join = "\<lambda>r l. new_internal r l" and trees = "push_leaves 0 fs []"])
  show "\<forall>t \<in> set (push_leaves 0 fs []). fresh t" by (rule push_leaves_all) simp_all
  show "pq_ok (push_leaves 0 fs [])" using push_leaves_ok [of "[]" 0 fs] by simp
qed (use assms in \<open>simp_all add: buildTree_def\<close>)

lemma buildTreeFromCodes_fresh:
  assumes "buildTreeFromCodes codes = Some t"
  shows "fresh t"
proof (rule merge_queue_all [where join = "\<lambda>r l. new_internal l r"
      and trees = "push_codes (int (length codes) + 1) codes []"])
  show "\<forall>t \<in> set (push_codes (int (length codes) + 1) codes []). fresh t"
    by (rule push_codes_all) simp_all
  show "pq_ok (push_codes (int (length codes) + 1) codes [])"
    using push_codes_ok [of "[]" _ codes] by simp
qed (use assms in \<open>simp_all add: buildTreeFromCodes_def\<close>)

lemma depth_reached: "\<exists>c p. code_of t c = Some p \<and> d + int (length p) + 1 = max_depth0 d t" if "distinct (leaf_chars t)"
  using that
proof (induction d t rule: max_depth0.induct)
  case (1 d f c flags)
  then show ?case by (intro exI [of _ c] exI [of _ "[]"]) simp
next
  case (2 d f l r)
  from 2(1) [OF refl] 2(3) obtain c p where l: "code_of l c = Some p" "d + 1 + int (length p) + 1 = max_depth0 (d + 1) l" by auto
  from 2(2) [OF refl refl] 2(3) obtain c' p' where r: "code_of r c' = Some p'" "d + 1 + int (length p') + 1 = max_depth0 (d + 1) r" by auto
  show ?case
  proof (cases "max_depth0 (d + 1) l > max_depth0 (d + 1) r")
    case True
    with l show ?thesis by (intro exI [of _ c] exI [of _ "False # p"]) (simp add: Let_def)
  next
    case False
    have "code_of l c' = None"
      using r(1) 2(3) code_of_None_iff [of l c'] code_of_None_iff [of r c'] by auto
    with False r show ?thesis by (intro exI [of _ c'] exI [of _ "True # p'"]) (simp add: Let_def)
  qed
qed

lemma push_codes_keys: "map fst cs = map fst ds \<Longrightarrow> push_codes f cs q = push_codes f ds q"
proof (induction f cs q arbitrary: ds rule: push_codes.induct)
  case (2 f c code codes trees)
  then obtain code' ds' where "ds = (c, code') # ds'" by (cases ds) auto
  with 2 show ?case by simp
qed simp

lemma codes_of_keys: "map fst cs = map fst ds \<Longrightarrow> buildTreeFromCodes cs = buildTreeFromCodes ds"
  using push_codes_keys [of cs ds] map_eq_imp_length_eq [of fst cs fst ds]
  by (simp add: buildTreeFromCodes_def)

subsection \<open>Properties\<close>

text \<open>
  The leaves of the tree that buildTree makes are exactly the symbols with a non-zero
  frequency, each once; there is no tree exactly when all frequencies are zero.
\<close>

theorem buildTree_leaves:
  assumes "length fs \<le> 256"
  shows "case buildTree fs of
      None \<Rightarrow> \<forall>k < length fs. fs ! k = 0
    | Some t \<Rightarrow> distinct (leaf_chars t)
        \<and> set (leaf_chars t) = {of_nat k | k. k < length fs \<and> fs ! k \<noteq> 0}"
proof (cases "buildTree fs")
  case None
  then have "set (used_symbols 0 fs) = {}" by (simp add: buildTree_None_iff)
  with None show ?thesis by (auto simp: set_used_symbols)
next
  case (Some t)
  have "set (leaf_chars t) = set (used_symbols 0 fs)"
    by (rule mset_eq_setD [OF buildTree_chars [OF Some]])
  with buildTree_distinct [OF Some assms] Some show ?thesis by (simp add: set_used_symbols)
qed

theorem buildTree_leaves_witness:
  "case buildTree [0, 3, 0, 5] of None \<Rightarrow> False
   | Some t \<Rightarrow> distinct (leaf_chars t) \<and> set (leaf_chars t) = {of_nat k | k. k < 4 \<and> [0, 3, 0, 5 :: u64] ! k \<noteq> 0}"
proof -
  have "buildTree [0, 3, 0, 5] = Some (InternalNode 8 (LeafNode 3 1 0) (LeafNode 5 3 0))" by code_simp
  with buildTree_leaves [of "[0, 3, 0, 5]"] show ?thesis by (simp add: eval_nat_numeral)
qed

text \<open>
  C30: GenerateCodes gives every leaf of a tree with distinct symbols one code; following
  the code from the root leads back to the leaf of the symbol, and no code is a prefix of
  the code of another symbol.
\<close>

theorem generateCodes_prefix_code:
  assumes "distinct (leaf_chars t)" and "codes = generateCodes [] (Some t) []"
  shows "dom (map_of codes) = set (leaf_chars t)
    \<and> (\<forall>c p. map_of codes c = Some p \<longrightarrow> (\<exists>f v. find_code (Some t) p = Some (LeafNode f c v)))
    \<and> (\<forall>c d p q. map_of codes c = Some p \<and> map_of codes d = Some (p @ q) \<longrightarrow> c = d)"
proof -
  have m: "map_of codes = code_of t" using assms generateCodes_code_of by simp
  have "dom (code_of t) = set (leaf_chars t)" by (simp add: dom_def code_of_None_iff)
  moreover have "\<exists>f v. find_code (Some t) p = Some (LeafNode f c v)" if "code_of t c = Some p" for c p
    using walk_code_of [OF that, of "[]"] by (auto simp: find_code_def)
  moreover have "c = d" if "code_of t c = Some p" "code_of t d = Some (p @ q)" for c d p q
    using code_of_prefix_free [OF that] .
  ultimately show ?thesis unfolding m by blast
qed

theorem generateCodes_prefix_code_witness:
  "dom (map_of (generateCodes [] (Some (InternalNode 8 (LeafNode 3 1 0) (LeafNode 5 3 0))) [])) = {1, 3}"
  using generateCodes_prefix_code [of "InternalNode 8 (LeafNode 3 1 0) (LeafNode 5 3 0)", OF _ refl]
  by simp

text \<open>
  Get_tree_max_depth is one more than the length of the longest code: no code is
  longer, and some code is that long.
\<close>

theorem max_depth_is_longest_code:
  assumes "distinct (leaf_chars t)"
  shows "(\<forall>c p. code_of t c = Some p \<longrightarrow> int (length p) + 1 \<le> get_tree_max_depth (Some t))
    \<and> (\<exists>c p. code_of t c = Some p \<and> int (length p) + 1 = get_tree_max_depth (Some t))"
  using code_length_depth [of t _ _ 0] depth_reached [OF assms, of 0]
  by (simp add: get_tree_max_depth_def)

theorem max_depth_is_longest_code_witness:
  "\<exists>c p. code_of (InternalNode 8 (LeafNode 3 1 0) (LeafNode 5 3 0)) c = Some p
     \<and> int (length p) + 1 = get_tree_max_depth (Some (InternalNode 8 (LeafNode 3 1 0) (LeafNode 5 3 0)))"
  using max_depth_is_longest_code [of "InternalNode 8 (LeafNode 3 1 0) (LeafNode 5 3 0)"] by simp

text \<open>
  BuildTreeFromCodes, documented to convert a code map to its tree, looks at the
  symbols of the map only: maps with the same symbols give the same tree, and the codes
  generated from the tree need not be those of the map.
\<close>

theorem buildTreeFromCodes_ignores_codes:
  "(\<forall>cs ds. map fst cs = map fst ds \<longrightarrow> buildTreeFromCodes cs = buildTreeFromCodes ds)
   \<and> generateCodes [] (buildTreeFromCodes [(1, [True]), (2, [False])]) []
       \<noteq> [(1, [True]), (2, [False])]"
proof
  show "\<forall>cs ds. map fst cs = map fst ds \<longrightarrow> buildTreeFromCodes cs = buildTreeFromCodes ds"
    using codes_of_keys by blast
  show "generateCodes [] (buildTreeFromCodes [(1, [True]), (2, [False])]) []
       \<noteq> [(1, [True]), (2, [False])]"
    by code_simp
qed

end
