(* ===== verification/BitStream.thy ===== *)
theory BitStream
  imports Prelude
begin

section \<open>Bit streams\<close>

text \<open>
  obitstream and ibitstream of third_party/bitstream/bitstream.cpp: a one-byte buffer
  and a bit counter in front of a byte stream, least significant bit first. The stream
  itself is the list of bytes written so far, or still to be read, with its end-of-file
  flag.
\<close>

unbundle bit_operations_syntax

definition byte_bits :: "byte \<Rightarrow> bool list" where
  "byte_bits b = map (bit b) [0..<8]"

definition bits_of_bytes :: "bytes \<Rightarrow> bool list" where
  "bits_of_bytes bs = concat (map byte_bits bs)"

lemma length_byte_bits [simp]: "length (byte_bits b) = 8"
  by (simp add: byte_bits_def)

lemma nth_byte_bits: "i < 8 \<Longrightarrow> byte_bits b ! i = bit b i"
  by (simp add: byte_bits_def)

lemma bits_of_bytes_simps [simp]:
  "bits_of_bytes [] = []"
  "bits_of_bytes (b # bs) = byte_bits b @ bits_of_bytes bs"
  "bits_of_bytes (xs @ ys) = bits_of_bytes xs @ bits_of_bytes ys"
  by (simp_all add: bits_of_bytes_def)

lemma length_bits_of_bytes [simp]: "length (bits_of_bytes bs) = 8 * length bs"
  by (induction bs) auto

subsection \<open>Writing\<close>

record obitstream =
  ob_buffer :: byte
  ob_count :: nat
  ob_strm :: bytes

definition new_buffer :: "obitstream \<Rightarrow> obitstream" where
  "new_buffer s = s\<lparr>ob_buffer := 0, ob_count := 0\<rparr>"

definition ob_flush :: "obitstream \<Rightarrow> obitstream" where
  "ob_flush s =
     (if ob_count s \<noteq> 0 then new_buffer (s\<lparr>ob_strm := ob_strm s @ [ob_buffer s]\<rparr>) else s)"

definition ob_open :: "bytes \<Rightarrow> obitstream" where
  "ob_open strm = \<lparr>ob_buffer = 0, ob_count = 0, ob_strm = strm\<rparr>"

definition is_filled :: "obitstream \<Rightarrow> bool" where
  "is_filled s = (8 \<le> ob_count s)"

definition write_bit :: "obitstream \<Rightarrow> bool \<Rightarrow> obitstream" where
  "write_bit s b =
     s\<lparr>ob_buffer := (if b then ob_buffer s OR push_bit (ob_count s) 1
                    else ob_buffer s AND NOT (push_bit (ob_count s) 1)),
       ob_count := ob_count s + 1\<rparr>"

definition ob_write :: "obitstream \<Rightarrow> bool \<Rightarrow> obitstream" where
  "ob_write s b = write_bit (if is_filled s then ob_flush s else s) b"

text \<open>\<open>write(const std::vector<bool> &)\<close>\<close>

fun ob_write_bits :: "obitstream \<Rightarrow> bool list \<Rightarrow> obitstream" where
  "ob_write_bits s [] = s"
| "ob_write_bits s (b # bs) = ob_write_bits (ob_write s b) bs"

text \<open>
  \<open>write(int value, int bits)\<close>: \<open>1 << i\<close> shifts an int, so more than 31 bits is an
  error; a count that is not positive writes nothing.
\<close>

definition ob_write_int :: "obitstream \<Rightarrow> byte \<Rightarrow> int \<Rightarrow> obitstream result" where
  "ob_write_int s v n =
     (if 31 < n then Inl BadShift
      else Inr (ob_write_bits s (map (\<lambda>i. (ucast v AND push_bit i 1 :: u32) \<noteq> 0) [0..<nat n])))"

subsection \<open>Reading\<close>

text \<open>
  read_buffer has no return statement on the path that read a byte, although its result
  is tested. \<open>ib_ret\<close> is the value the caller finds there: true is what the comment in
  the source promises, and the properties that rely on it say so. At the end of the
  stream the byte buffer keeps its old value, and before the first byte it is
  uninitialised: \<open>ib_buffer\<close> of a fresh stream is a parameter.
\<close>

record ibitstream =
  ib_buffer :: byte
  ib_count :: nat
  ib_strm :: bytes
  ib_eof :: bool
  ib_ret :: bool

definition ib_open :: "bool \<Rightarrow> byte \<Rightarrow> bytes \<Rightarrow> ibitstream" where
  "ib_open ret junk strm =
     \<lparr>ib_buffer = junk, ib_count = 8, ib_strm = strm, ib_eof = False, ib_ret = ret\<rparr>"

definition read_buffer :: "ibitstream \<Rightarrow> bool \<times> ibitstream" where
  "read_buffer s =
     (if ib_eof s then (False, s)
      else (ib_ret s,
            (case ib_strm s of
               [] \<Rightarrow> s\<lparr>ib_eof := True, ib_count := 0\<rparr>
             | b # rest \<Rightarrow> s\<lparr>ib_buffer := b, ib_strm := rest, ib_count := 0\<rparr>)))"

definition has_bit :: "ibitstream \<Rightarrow> bool" where
  "has_bit s = (ib_count s < 8)"

definition take_bit1 :: "ibitstream \<Rightarrow> int \<times> ibitstream" where
  "take_bit1 s =
     ((if ib_buffer s AND push_bit (ib_count s) 1 \<noteq> 0 then 1 else 0),
      s\<lparr>ib_count := ib_count s + 1\<rparr>)"

definition ib_read :: "ibitstream \<Rightarrow> int \<times> ibitstream" where
  "ib_read s =
     (if has_bit s then take_bit1 s
      else (case read_buffer s of
              (False, s') \<Rightarrow> (- 1, s')
            | (True, s') \<Rightarrow> take_bit1 s'))"

fun read8_from :: "nat \<Rightarrow> nat \<Rightarrow> ibitstream \<Rightarrow> byte \<Rightarrow> byte \<times> ibitstream" where
  "read8_from i 0 s r = (r, s)"
| "read8_from i (Suc n) s r =
     (case ib_read s of (b, s') \<Rightarrow>
        read8_from (Suc i) n s' (if b = 1 then r OR push_bit i 1 else r))"

definition ib_read8 :: "ibitstream \<Rightarrow> byte \<times> ibitstream" where
  "ib_read8 s = read8_from 0 8 s 0"

subsection \<open>What a bit sink and a bit source promise\<close>

locale bit_sink =
  fixes put :: "'s \<Rightarrow> bool \<Rightarrow> 's"
    and written :: "'s \<Rightarrow> bool list"
    and sink_ok :: "'s \<Rightarrow> bool"
  assumes sink_ok_put: "sink_ok s \<Longrightarrow> sink_ok (put s b)"
    and written_put: "sink_ok s \<Longrightarrow> written (put s b) = written s @ [b]"
begin

lemma put_all: "sink_ok s \<Longrightarrow>
    sink_ok (foldl put s bs) \<and> written (foldl put s bs) = written s @ bs"
  by (induction bs arbitrary: s) (auto simp: sink_ok_put written_put)

end

locale bit_source =
  fixes get :: "'s \<Rightarrow> int \<times> 's"
    and pending :: "'s \<Rightarrow> bool list"
    and source_ok :: "'s \<Rightarrow> bool"
  assumes get_bit: "source_ok s \<Longrightarrow> pending s = b # bs \<Longrightarrow>
      fst (get s) = of_bool b \<and> source_ok (snd (get s)) \<and> pending (snd (get s)) = bs"
begin

lemma get_cases:
  assumes "source_ok s" and "pending s = b # bs"
  obtains s' where "get s = (of_bool b, s')" and "source_ok s'" and "pending s' = bs"
  using get_bit [OF assms] by (metis prod.collapse)

end

subsection \<open>The output stream is a bit sink\<close>

definition ob_written :: "obitstream \<Rightarrow> bool list" where
  "ob_written s = bits_of_bytes (ob_strm s) @ take (ob_count s) (byte_bits (ob_buffer s))"

definition ob_ok :: "obitstream \<Rightarrow> bool" where
  "ob_ok s = (ob_count s \<le> 8 \<and> (\<forall>i \<in> {ob_count s..<8}. \<not> bit (ob_buffer s) i))"

lemma and_pow_nonzero: "(w AND 2 ^ i = 0) = (\<not> bit w i)" for w :: "'a::len word"
  by (rule and_exp_eq_0_iff_not_bit)

lemma take_bit_8_byte [simp]: "take_bit 8 b = b" for b :: byte
  by (rule bit_eqI) (auto simp: bit_simps dest: bit_imp_le_length)

lemma write_bit_low:
  "i < ob_count s \<Longrightarrow> bit (ob_buffer (write_bit s b)) i = bit (ob_buffer s) i"
  by (auto simp: write_bit_def bit_simps dest: bit_imp_le_length)

lemma write_bit_new: "ob_count s < 8 \<Longrightarrow> bit (ob_buffer (write_bit s b)) (ob_count s) = b"
  by (auto simp: write_bit_def bit_simps)

lemma write_bit_high:
  "ob_count s < i \<Longrightarrow> i < 8 \<Longrightarrow> bit (ob_buffer (write_bit s b)) i = bit (ob_buffer s) i"
  by (auto simp: write_bit_def bit_simps)

lemma write_bit_count [simp]:
  "ob_count (write_bit s b) = Suc (ob_count s)" "ob_strm (write_bit s b) = ob_strm s"
  by (simp_all add: write_bit_def)

lemma ob_written_write_bit:
  assumes "ob_count s < 8"
  shows "ob_written (write_bit s b) = ob_written s @ [b]"
proof -
  have "take (Suc (ob_count s)) (byte_bits (ob_buffer (write_bit s b)))
      = take (ob_count s) (byte_bits (ob_buffer s)) @ [b]"
    by (rule nth_equalityI)
       (use assms in \<open>auto simp: nth_append nth_byte_bits write_bit_low write_bit_new less_Suc_eq\<close>)
  then show ?thesis by (simp add: ob_written_def)
qed

lemma ob_ok_write_bit: "ob_ok s \<Longrightarrow> ob_count s < 8 \<Longrightarrow> ob_ok (write_bit s b)"
  by (auto simp: ob_ok_def write_bit_high)

lemma ob_flush_full:
  assumes "ob_ok s" and "is_filled s"
  shows "ob_ok (ob_flush s) \<and> ob_count (ob_flush s) = 0 \<and> ob_written (ob_flush s) = ob_written s"
  using assms by (auto simp: ob_ok_def is_filled_def ob_flush_def new_buffer_def ob_written_def)

interpretation obs: bit_sink ob_write ob_written ob_ok
proof unfold_locales
  fix s b
  assume ok: "ob_ok s"
  have "ob_ok (ob_write s b) \<and> ob_written (ob_write s b) = ob_written s @ [b]"
  proof (cases "is_filled s")
    case True
    with ob_flush_full [OF ok] show ?thesis
      by (simp add: ob_write_def ob_ok_write_bit ob_written_write_bit)
  next
    case False
    with ok show ?thesis
      by (simp add: ob_write_def ob_ok_write_bit ob_written_write_bit is_filled_def)
  qed
  then show "ob_ok (ob_write s b)" and "ob_written (ob_write s b) = ob_written s @ [b]"
    by auto
qed

lemma ob_write_bits_foldl: "ob_write_bits s bs = foldl ob_write s bs"
  by (induction s bs rule: ob_write_bits.induct) auto

lemma ob_write_bits_sink:
  "ob_ok s \<Longrightarrow> ob_ok (ob_write_bits s bs) \<and> ob_written (ob_write_bits s bs) = ob_written s @ bs"
  by (simp add: ob_write_bits_foldl obs.put_all)

lemma ob_write_int_8: "ob_write_int s v 8 = Inr (ob_write_bits s (byte_bits v))"
proof -
  have "map (\<lambda>i. (ucast v AND push_bit i 1 :: u32) \<noteq> 0) [0..<nat 8] = byte_bits v"
    by (auto simp: byte_bits_def and_pow_nonzero bit_simps)
  then show ?thesis by (simp only: ob_write_int_def) simp
qed

lemma ob_open_ok [simp]: "ob_ok (ob_open strm)" "ob_written (ob_open strm) = bits_of_bytes strm"
  by (auto simp: ob_ok_def ob_open_def ob_written_def)

text \<open>Closing the stream pads the last byte with zero bits.\<close>

definition pad_bits :: "nat \<Rightarrow> bool list" where
  "pad_bits n = replicate ((8 - n mod 8) mod 8) False"

lemma ob_flush_written:
  assumes ok: "ob_ok s"
  shows "bits_of_bytes (ob_strm (ob_flush s)) = ob_written s @ pad_bits (length (ob_written s))"
proof (cases "ob_count s = 0")
  case True
  then show ?thesis by (simp add: ob_flush_def ob_written_def pad_bits_def)
next
  case False
  let ?c = "ob_count s"
  from ok have c8: "?c \<le> 8" by (simp add: ob_ok_def)
  have "byte_bits (ob_buffer s) = take ?c (byte_bits (ob_buffer s)) @ replicate (8 - ?c) False"
    by (rule nth_equalityI) (use ok c8 in \<open>auto simp: ob_ok_def nth_append nth_byte_bits\<close>)
  moreover have "(8 - length (ob_written s) mod 8) mod 8 = 8 - ?c"
    using False c8 by (cases "?c = 8") (auto simp: ob_written_def min_def)
  ultimately show ?thesis
    using False by (simp add: ob_flush_def new_buffer_def ob_written_def pad_bits_def)
qed

subsection \<open>The input stream is a bit source\<close>

definition ib_pending :: "ibitstream \<Rightarrow> bool list" where
  "ib_pending s = drop (ib_count s) (byte_bits (ib_buffer s)) @ bits_of_bytes (ib_strm s)"

definition ib_ok :: "ibitstream \<Rightarrow> bool" where
  "ib_ok s = (ib_count s \<le> 8 \<and> ib_ret s \<and> (ib_eof s \<longrightarrow> ib_strm s = []))"

lemma take_bit1_pending:
  assumes "ib_ok s" and "ib_count s < 8"
  shows "fst (take_bit1 s) = of_bool (bit (ib_buffer s) (ib_count s))
    \<and> ib_ok (snd (take_bit1 s))
    \<and> ib_pending s = bit (ib_buffer s) (ib_count s) # ib_pending (snd (take_bit1 s))"
  using assms
  by (auto simp: take_bit1_def and_pow_nonzero ib_ok_def ib_pending_def nth_byte_bits
      simp flip: Cons_nth_drop_Suc)

lemma read_buffer_pending:
  assumes "ib_ok s" and "\<not> ib_count s < 8" and "ib_pending s \<noteq> []"
  shows "\<exists>s'. read_buffer s = (True, s') \<and> ib_ok s' \<and> ib_count s' = 0 \<and> ib_pending s' = ib_pending s"
  using assms
  by (cases "ib_strm s") (auto simp: read_buffer_def ib_ok_def ib_pending_def)

lemma ib_read_pending:
  assumes "ib_ok s" and "ib_pending s = b # bs"
  shows "fst (ib_read s) = of_bool b \<and> ib_ok (snd (ib_read s)) \<and> ib_pending (snd (ib_read s)) = bs"
proof (cases "has_bit s")
  case True
  with take_bit1_pending [of s] assms show ?thesis
    by (auto simp: ib_read_def has_bit_def)
next
  case False
  with read_buffer_pending [of s] assms obtain s'
    where s': "read_buffer s = (True, s')" "ib_ok s'" "ib_count s' = 0" "ib_pending s' = b # bs"
    by (auto simp: has_bit_def)
  with take_bit1_pending [of s'] False show ?thesis
    by (auto simp: ib_read_def)
qed

interpretation ibs: bit_source ib_read ib_pending ib_ok
  by unfold_locales (rule ib_read_pending)

lemma read8_from_pending:
  assumes "ib_ok s" and "ib_pending s = map (bit b) [i..<i + n] @ bs" and "i + n \<le> 8"
    and "r = take_bit i b"
  shows "\<exists>s'. read8_from i n s r = (take_bit (i + n) b, s') \<and> ib_ok s' \<and> ib_pending s' = bs"
  using assms
proof (induction n arbitrary: i s r)
  case (Suc n)
  have "ib_pending s = bit b i # (map (bit b) [Suc i..<Suc i + n] @ bs)"
    using Suc.prems(2) by (simp add: upt_conv_Cons del: upt_Suc)
  then obtain s' where s': "ib_read s = (of_bool (bit b i), s')" "ib_ok s'"
      "ib_pending s' = map (bit b) [Suc i..<Suc i + n] @ bs"
    by (rule ibs.get_cases [OF Suc.prems(1)])
  have "(if of_bool (bit b i) = (1 :: int) then r OR push_bit i 1 else r) = take_bit (Suc i) b"
    using Suc.prems(3,4) by (auto intro!: bit_eqI simp: bit_simps less_Suc_eq)
  with Suc.IH [OF s'(2,3)] Suc.prems(3) s'(1) show ?case by auto
qed auto

lemma ib_read8_pending:
  assumes "ib_ok s" and "ib_pending s = byte_bits b @ bs"
  shows "\<exists>s'. ib_read8 s = (b, s') \<and> ib_ok s' \<and> ib_pending s' = bs"
  using read8_from_pending [of s b 0 8 bs 0] assms
  by (simp add: ib_read8_def byte_bits_def del: upt_Suc)

lemma ib_open_ok [simp]: "ib_ok (ib_open True junk strm)"
    "ib_pending (ib_open True junk strm) = bits_of_bytes strm"
  by (simp_all add: ib_ok_def ib_open_def ib_pending_def)

subsection \<open>Reading several bits, and the end of the stream\<close>

fun ib_read_bits :: "nat \<Rightarrow> ibitstream \<Rightarrow> int list \<times> ibitstream" where
  "ib_read_bits 0 s = ([], s)"
| "ib_read_bits (Suc n) s =
     (case ib_read s of (b, s') \<Rightarrow> (case ib_read_bits n s' of (bs, s'') \<Rightarrow> (b # bs, s'')))"

lemma ib_read_bits_pending:
  "ib_ok s \<Longrightarrow> ib_pending s = bs @ rest \<Longrightarrow>
     \<exists>s'. ib_read_bits (length bs) s = (map of_bool bs, s') \<and> ib_ok s' \<and> ib_pending s' = rest"
proof (induction bs arbitrary: s)
  case (Cons b bs)
  from Cons.prems obtain s' where "ib_read s = (of_bool b, s')" "ib_ok s'" "ib_pending s' = bs @ rest"
    by (auto elim: ibs.get_cases)
  with Cons.IH [of s'] show ?case by auto
qed simp

lemma ib_read_exhausted: "ib_eof s \<Longrightarrow> \<not> ib_count s < 8 \<Longrightarrow> ib_read s = (- 1, s)"
  by (simp add: ib_read_def has_bit_def read_buffer_def)

lemma ib_read_stale:
  assumes "ib_eof s" and "ib_count s + n = 8"
  shows "\<exists>s'. ib_read_bits n s = (map of_bool (drop (ib_count s) (byte_bits (ib_buffer s))), s')
    \<and> ib_eof s' \<and> ib_count s' = 8"
  using assms
proof (induction n arbitrary: s)
  case (Suc n)
  let ?s = "s\<lparr>ib_count := Suc (ib_count s)\<rparr>"
  have "ib_read s = (of_bool (bit (ib_buffer s) (ib_count s)), ?s)"
    using Suc.prems by (simp add: ib_read_def has_bit_def take_bit1_def and_pow_nonzero)
  moreover have "drop (ib_count s) (byte_bits (ib_buffer s))
      = bit (ib_buffer s) (ib_count s) # drop (Suc (ib_count s)) (byte_bits (ib_buffer s))"
    using Suc.prems by (simp add: nth_byte_bits flip: Cons_nth_drop_Suc)
  ultimately show ?case using Suc.IH [of ?s] Suc.prems by auto
qed simp

lemma ib_read_bits_add:
  "ib_read_bits (m + n) s =
     (case ib_read_bits m s of (xs, s') \<Rightarrow>
       (case ib_read_bits n s' of (ys, s'') \<Rightarrow> (xs @ ys, s'')))"
  by (induction m arbitrary: s) (auto split: prod.splits)

subsection \<open>Properties\<close>

text \<open>
  Bits written through obitstream and flushed are read back in order by ibitstream
  (given that read_buffer reports success).
\<close>

theorem bitstream_roundtrip:
  "fst (ib_read_bits (length bs)
          (ib_open True junk (ob_strm (ob_flush (ob_write_bits (ob_open []) bs)))))
     = map of_bool bs"
proof -
  let ?strm = "ob_strm (ob_flush (ob_write_bits (ob_open []) bs))"
  have "bits_of_bytes ?strm = bs @ pad_bits (length bs)"
    using ob_flush_written [of "ob_write_bits (ob_open []) bs"] ob_write_bits_sink [of "ob_open []" bs]
    by simp
  then have "ib_pending (ib_open True junk ?strm) = bs @ pad_bits (length bs)" by simp
  from ib_read_bits_pending [OF _ this] show ?thesis by auto
qed

text \<open>
  The end of the input is noticed one byte late: a reader that has used up the last
  byte delivers the eight bits of that byte a second time, and only then reports -1.
\<close>

theorem bitstream_end_is_late:
  assumes "ib_ret s" and "ib_strm s = []" and "\<not> ib_eof s" and "ib_count s = 8"
  shows "fst (ib_read_bits 9 s) = map of_bool (byte_bits (ib_buffer s)) @ [- 1]"
proof -
  let ?s = "s\<lparr>ib_eof := True, ib_count := 0\<rparr>"
  have "ib_read s = ib_read ?s"
    using assms by (simp add: ib_read_def has_bit_def read_buffer_def)
  then have "ib_read_bits 9 s = ib_read_bits (8 + 1) ?s"
    by (simp add: numeral_eq_Suc)
  moreover obtain s' where "ib_read_bits 8 ?s = (map of_bool (byte_bits (ib_buffer s)), s')"
      and "ib_eof s'" and "ib_count s' = 8"
    using ib_read_stale [of ?s 8] by auto
  ultimately show ?thesis
    by (simp only: ib_read_bits_add) (simp add: ib_read_exhausted)
qed

theorem bitstream_end_is_late_witness:
  "fst (ib_read_bits 9 \<lparr>ib_buffer = 5, ib_count = 8, ib_strm = [], ib_eof = False, ib_ret = True\<rparr>)
     = [1, 0, 1, 0, 0, 0, 0, 0, - 1]"
proof -
  let ?s = "\<lparr>ib_buffer = 5, ib_count = 8, ib_strm = [], ib_eof = False, ib_ret = True\<rparr>"
  have "map of_bool (byte_bits 5) = [1, 0, 1, 0, 0, 0, 0, 0 :: int]" by code_simp
  then show ?thesis using bitstream_end_is_late [of ?s] by simp
qed

end
