(* ===== verification/Varint.thy ===== *)
theory Varint
  imports Prelude
begin

section \<open>Variable-length integers\<close>

text \<open>
  The length descriptor of compressed packets: third_party/bitstream/varint.h and the
  static members read_varint, get_varint and write_varint of bitstream.cpp, all at the
  instance uint64_t the program uses. Buffers are byte lists; a read or write past
  their end is \<open>OutOfBounds\<close>. The decoder shifts an int, so a shift by 32 or more bits,
  or one whose result does not fit 32 bits, is \<open>BadShift\<close>; a result with bit 31 set
  becomes a negative int and is sign-extended when it is combined with the 64-bit
  accumulator.
\<close>

unbundle bit_operations_syntax

subsection \<open>Encoding and decoding\<close>

function encodeVarint :: "u64 \<Rightarrow> bytes" where
  "encodeVarint v =
     (if 127 < v
      then (ucast (v AND 127) OR 128) # encodeVarint (drop_bit 7 v)
      else [ucast v AND 127])"
  by pat_completeness auto
termination
proof (relation "measure unat", simp)
  fix v :: u64
  assume "127 < v"
  then have "127 < unat v" by (simp add: word_less_nat_alt)
  then show "(drop_bit 7 v, v) \<in> measure unat"
    by (simp add: unat_drop_bit_eq drop_bit_eq_div [where 'a = nat])
qed

declare encodeVarint.simps [simp del]

text \<open>\<open>(input[i] & 127) << (7 * i)\<close>: an int shifted left, then widened to 64 bits.\<close>

definition shl7 :: "byte \<Rightarrow> nat \<Rightarrow> u64 result" where
  "shl7 b i =
     (let x = uint (b AND 127) * 2 ^ (7 * i)
      in if 32 \<le> 7 * i \<or> 2 ^ 32 \<le> x then Inl BadShift
         else Inr (scast (word_of_int x :: u32)))"

fun decode_from :: "bytes \<Rightarrow> nat \<Rightarrow> nat \<Rightarrow> u64 \<Rightarrow> u64 result" where
  "decode_from input i 0 ret = Inr ret"
| "decode_from input i (Suc n) ret =
     bindR (elem_at input i) (\<lambda>b. bindR (shl7 b i) (\<lambda>x.
       if b AND 128 = 0 then Inr (ret OR x)
       else decode_from input (Suc i) n (ret OR x)))"

definition decodeVarint :: "bytes \<Rightarrow> nat \<Rightarrow> u64 result" where
  "decodeVarint input inputSize = decode_from input 0 inputSize 0"

fun is_all_from :: "bytes \<Rightarrow> nat \<Rightarrow> nat \<Rightarrow> bool result" where
  "is_all_from input i 0 = Inr False"
| "is_all_from input i (Suc n) =
     bindR (elem_at input i) (\<lambda>b.
       if b AND 128 = 0 then Inr True else is_all_from input (Suc i) n)"

definition is_varint_all_bytes :: "bytes \<Rightarrow> nat \<Rightarrow> bool result" where
  "is_varint_all_bytes input inputSize = is_all_from input 0 inputSize"

subsection \<open>Buffers and streams\<close>

text \<open>
  get_varint: the loop tries the sizes 1 to 8; \<open>k\<close> is the number of rounds left. A
  size of 8 counts as incomplete, so at most seven bytes are accepted.
\<close>

fun get_size :: "bytes \<Rightarrow> nat \<Rightarrow> nat \<Rightarrow> nat result" where
  "get_size data sz 0 = Inr sz"
| "get_size data sz (Suc k) =
     bindR (is_varint_all_bytes data (Suc sz)) (\<lambda>all.
       if all then Inr (Suc sz) else get_size data (Suc sz) k)"

definition get_varint :: "bytes \<Rightarrow> (u64 \<times> nat) result" where
  "get_varint data =
     bindR (get_size data 0 8) (\<lambda>sz.
       let n = (if 8 \<le> sz then 0 else sz)
       in if 0 < n then bindR (decodeVarint data n) (\<lambda>v. Inr (v, n))
          else Inr (0, 0))"

text \<open>
  read_varint reads a stream byte by byte into a local buffer \<open>buf\<close>. At the end of the
  stream the buffer element stays uninitialised and is read all the same.
\<close>

fun read_size :: "bytes \<Rightarrow> bytes \<Rightarrow> nat \<Rightarrow> (bytes \<times> bytes) result" where
  "read_size buf strm 0 = Inr (buf, strm)"
| "read_size buf strm (Suc k) =
     (case strm of
        [] \<Rightarrow> Inl Uninitialised
      | b # rest \<Rightarrow>
          (let buf' = buf @ [b]
           in bindR (is_varint_all_bytes buf' (length buf')) (\<lambda>all.
                if all then Inr (buf', rest) else read_size buf' rest k)))"

definition read_varint :: "bytes \<Rightarrow> (u64 \<times> bytes) result" where
  "read_varint strm =
     bindR (read_size [] strm 8) (\<lambda>(buf, rest).
       if 8 \<le> length buf then Inr (0, rest)
       else bindR (decodeVarint buf (length buf)) (\<lambda>v. Inr (v, rest)))"

text \<open>write_varint encodes into a local array of four bytes.\<close>

definition write_varint :: "bytes \<Rightarrow> u64 \<Rightarrow> (bytes \<times> nat) result" where
  "write_varint strm v =
     (let buf = encodeVarint v
      in if 4 < length buf then Inl OutOfBounds
         else Inr (strm @ buf, length buf))"

subsection \<open>Shape of the encoding\<close>

lemma encode_small: "v \<le> 127 \<Longrightarrow> encodeVarint v = [ucast v AND 127]"
  by (subst encodeVarint.simps) (simp add: leD)

lemma encode_big:
  "127 < v \<Longrightarrow>
     encodeVarint v = (ucast (v AND 127) OR 128) # encodeVarint (drop_bit 7 v)"
  by (subst encodeVarint.simps) simp

lemma encode_nonempty [simp]: "encodeVarint v \<noteq> []"
  by (subst encodeVarint.simps) simp

lemma and127_eq: "w AND 127 = take_bit 7 w" for w :: "'a::len word"
  by (simp add: take_bit_eq_mask mask_eq_exp_minus_1)

lemma le127_iff: "v \<le> 127 \<longleftrightarrow> drop_bit 7 v = 0" for v :: u64
  by (simp add: word_le_nat_alt word_unat_eq_iff unat_drop_bit_eq drop_bit_eq_div [where 'a = nat]
      div_eq_0_iff) linarith

lemma unat_drop7: "unat (drop_bit 7 v) = unat v div 128" for v :: u64
  by (simp add: unat_drop_bit_eq drop_bit_eq_div [where 'a = nat])

lemma low7_continue: "((ucast (v AND 127) :: byte) OR 128) AND 128 \<noteq> 0" for v :: u64
proof
  assume "((ucast (v AND 127) :: byte) OR 128) AND 128 = 0"
  then have "bit (((ucast (v AND 127) :: byte) OR 128) AND 128) 7 = bit (0 :: byte) 7"
    by simp
  then show False by (simp add: bit_simps bit_numeral_rec)
qed

lemma last_stops: "((ucast v :: byte) AND 127) AND 128 = 0" for v :: u64
  by (simp add: and.assoc)

lemma low7_and: "((ucast (v AND 127) :: byte) OR 128) AND 127 = ucast v AND 127" for v :: u64
  by (rule bit_eqI) (auto simp: and127_eq bit_simps)

text \<open>Every byte but the last carries the continuation flag, and the last does not.\<close>

lemma encode_flags:
  "(\<forall>b \<in> set (butlast (encodeVarint v)). b AND 128 \<noteq> 0) \<and> last (encodeVarint v) AND 128 = 0"
proof (induction v rule: encodeVarint.induct)
  case (1 v)
  show ?case
  proof (cases "127 < v")
    case True
    with 1 show ?thesis by (auto simp: encode_big low7_continue)
  next
    case False
    then show ?thesis by (simp add: encode_small last_stops)
  qed
qed

subsection \<open>Length of the encoding\<close>

lemma encode_length_le:
  "0 < k \<Longrightarrow> unat v < 128 ^ k \<longleftrightarrow> length (encodeVarint v) \<le> k"
proof (induction v arbitrary: k rule: encodeVarint.induct)
  case (1 v)
  show ?case
  proof (cases "127 < v")
    case True
    then have big: "127 < unat v" by (simp add: word_less_nat_alt)
    show ?thesis
    proof (cases "k = 1")
      case True
      with big \<open>127 < v\<close> show ?thesis by (simp add: encode_big)
    next
      case False
      with "1.prems" obtain m where k: "k = Suc m" and m: "0 < m"
        by (cases k) auto
      have "unat v < 128 ^ k \<longleftrightarrow> unat (drop_bit 7 v) < 128 ^ m"
        by (simp add: k unat_drop7 div_less_iff_less_mult mult.commute)
      with "1.IH" [OF True m] True show ?thesis by (simp add: encode_big k)
    qed
  next
    case False
    then have le: "v \<le> 127" by simp
    then have "unat v < 128 ^ 1" by (simp add: word_le_nat_alt)
    also have "(128 :: nat) ^ 1 \<le> 128 ^ k" using "1.prems" by (intro power_increasing) auto
    finally show ?thesis using le "1.prems" by (simp add: encode_small)
  qed
qed

lemma encode_length_bound: "length (encodeVarint v) \<le> 10"
  using encode_length_le [of 10 v] unsigned_less [of v, where 'a = nat] by simp

subsection \<open>Reading an encoding back\<close>

lemma small_index:
  fixes m i :: nat
  assumes "m * 2 ^ (7 * i) < 2 ^ 31" and "0 < m"
  shows "i < 5"
proof (rule ccontr)
  assume "\<not> i < 5"
  then have "(2 :: nat) ^ 31 \<le> 2 ^ (7 * i)" by (intro power_increasing) auto
  then have "1 * 2 ^ 31 \<le> m * 2 ^ (7 * i)" using assms(2) by (intro mult_le_mono) auto
  with assms(1) show False by simp
qed

lemma shl7_small:
  assumes small: "unat (b AND 127) * 2 ^ (7 * i) < 2 ^ 31" and i5: "i < 5"
  shows "shl7 b i = Inr (push_bit (7 * i) (ucast (b AND 127)))"
proof -
  obtain N where N: "N = unat (b AND 127) * 2 ^ (7 * i)" by blast
  have x: "uint (b AND 127) * 2 ^ (7 * i) = int N" by (simp add: N)
  from small have lt: "N < 2 ^ 31" by (simp add: N)
  have "sint (word_of_int (int N) :: u32) = int N"
    using lt int_word_sint [of "int N", where 'a = 32] by simp
  then have "scast (word_of_int (int N) :: u32) = (word_of_int (int N) :: u64)"
    by (metis of_int_sint)
  also have "\<dots> = push_bit (7 * i) (ucast (b AND 127))"
    by (simp add: push_bit_eq_mult N)
  finally show ?thesis using lt i5 by (simp add: shl7_def x)
qed

lemma low7_ucast: "ucast (((ucast (v AND 127) :: byte) OR 128) AND 127) = v AND 127" for v :: u64
  by (rule bit_eqI) (auto simp: and127_eq bit_simps)

lemma unat_last7: "unat (ucast v AND 127 :: byte) = unat v mod 128" for v :: u64
  by (simp add: and127_eq unsigned_take_bit_eq take_bit_eq_mod [where 'a = nat] unsigned_ucast_eq
      mod_mod_cancel)

lemma unat_low7: "unat (((ucast (v AND 127) :: byte) OR 128) AND 127) = unat v mod 128" for v :: u64
  by (simp only: low7_and unat_last7)

lemma split7: "v = (v AND 127) OR push_bit 7 (drop_bit 7 v)" for v :: u64
proof (rule bit_eqI)
  fix n
  show "bit v n = bit ((v AND 127) OR push_bit 7 (drop_bit 7 v)) n"
    by (cases "n < 7") (auto simp: and127_eq bit_simps dest: bit_imp_le_length)
qed

lemma ucast_le127: "ucast (ucast v AND 127 :: byte) = v" if "v \<le> 127" for v :: u64
proof -
  from that have "drop_bit 7 v = 0" by (simp only: le127_iff)
  with split7 [of v] have "v AND 127 = v" by simp
  moreover have "ucast (ucast v AND 127 :: byte) = v AND 127"
    by (rule bit_eqI) (auto simp: and127_eq bit_simps)
  ultimately show ?thesis by simp
qed

lemma decode_from_encode:
  assumes "unat v * 2 ^ (7 * length pre) < 2 ^ 31" and "v \<noteq> 0 \<or> length pre < 5"
  shows "decode_from (pre @ encodeVarint v @ rest) (length pre) (length (encodeVarint v)) ret
           = Inr (ret OR push_bit (7 * length pre) v)"
  using assms
proof (induction v arbitrary: pre ret rule: encodeVarint.induct)
  case (1 v)
  have i5: "length pre < 5"
    using "1.prems" small_index [of "unat v" "length pre"] unat_gt_0 [of v] by auto
  show ?case
  proof (cases "127 < v")
    case True
    let ?b = "(ucast (v AND 127) :: byte) OR 128"
    have "unat (drop_bit 7 v) * 2 ^ (7 * length (pre @ [?b]))
        = unat v div 128 * 128 * 2 ^ (7 * length pre)"
      by (simp add: unat_drop7 power_add)
    also have "\<dots> \<le> unat v * 2 ^ (7 * length pre)"
      by (intro mult_le_mono1) simp
    also note "1.prems"(1)
    finally have tl: "unat (drop_bit 7 v) * 2 ^ (7 * length (pre @ [?b])) < 2 ^ 31" .
    have nz: "drop_bit 7 v \<noteq> 0" using True le127_iff [of v] by (metis leD)
    have "unat v mod 128 * 2 ^ (7 * length pre) \<le> unat v * 2 ^ (7 * length pre)"
      by (intro mult_le_mono1) simp
    also note "1.prems"(1)
    finally have lo: "unat (?b AND 127) * 2 ^ (7 * length pre) < 2 ^ 31" by (simp only: unat_low7)
    with i5 have sh: "shl7 ?b (length pre) = Inr (push_bit (7 * length pre) (v AND 127))"
      by (simp only: shl7_small low7_ucast)
    let ?tail = "encodeVarint (drop_bit 7 v)" and ?ret = "ret OR push_bit (7 * length pre) (v AND 127)"
    have "decode_from (pre @ encodeVarint v @ rest) (length pre) (length (encodeVarint v)) ret
        = decode_from (pre @ ?b # ?tail @ rest) (length pre) (Suc (length ?tail)) ret"
      by (simp only: encode_big [OF True] append_Cons length_Cons)
    also have "\<dots> = decode_from ((pre @ [?b]) @ ?tail @ rest) (length (pre @ [?b])) (length ?tail) ?ret"
      by (simp only: decode_from.simps elem_at_append bindR.simps sh low7_continue if_False
          append_assoc append_Cons append_Nil length_append_singleton)
    also have "\<dots> = Inr (?ret OR push_bit (7 * length (pre @ [?b])) (drop_bit 7 v))"
      by (rule "1.IH" [OF True tl]) (use nz in simp)
    also have "\<dots> = Inr (ret OR push_bit (7 * length pre) v)"
      by (subst (3) split7) (simp add: push_bit_or or.assoc add.commute)
    finally show ?thesis .
  next
    case False
    then have le: "v \<le> 127" by simp
    have "shl7 (ucast v AND 127) (length pre) = Inr (push_bit (7 * length pre) v)"
      using shl7_small [of "ucast v AND 127" "length pre"] i5 "1.prems"(1) le
      by (simp add: and.assoc unat_last7 word_le_nat_alt ucast_le127)
    then show ?thesis using le by (simp add: encode_small last_stops)
  qed
qed

lemma decode_encode:
  assumes "unat v < 2 ^ 31"
  shows "decodeVarint (encodeVarint v @ rest) (length (encodeVarint v)) = Inr v"
  using decode_from_encode [of v "[]" rest 0] assms by (simp add: decodeVarint_def)

subsection \<open>Where an encoding ends\<close>

lemma is_all_from_flags:
  assumes "\<forall>b \<in> set bs. b AND 128 \<noteq> 0"
  shows "is_all_from (pre @ bs @ rest) (length pre) (length bs) = Inr False"
    and "stop AND 128 = 0 \<Longrightarrow>
      is_all_from (pre @ bs @ stop # rest) (length pre) (Suc (length bs)) = Inr True"
  using assms
proof (induction bs arbitrary: pre)
  case (Cons b bs)
  { case 1 then show ?case using Cons.IH(1) [of "pre @ [b]"] by simp }
  { case 2 then show ?case using Cons.IH(2) [of "pre @ [b]"] by simp }
qed simp_all

lemma is_all_encode:
  "k < length (encodeVarint v) \<Longrightarrow> is_varint_all_bytes (encodeVarint v @ rest) k = Inr False"
  "is_varint_all_bytes (encodeVarint v @ rest) (length (encodeVarint v)) = Inr True"
proof -
  let ?e = "encodeVarint v"
  have join: "butlast ?e @ last ?e # rest = ?e @ rest"
    using append_butlast_last_id [of ?e] by (metis append.assoc append_Cons append_Nil encode_nonempty)
  show "is_varint_all_bytes (?e @ rest) (length ?e) = Inr True"
    using is_all_from_flags(2) [of "butlast ?e" "last ?e" "[]" rest] encode_flags [of v] join
    by (simp add: is_varint_all_bytes_def)
  assume k: "k < length ?e"
  then have "take k ?e = take k (butlast ?e)" by (simp add: butlast_conv_take)
  then have fl: "\<forall>b \<in> set (take k ?e). b AND 128 \<noteq> 0"
    using encode_flags [of v] by (auto dest: in_set_takeD)
  have "take k ?e @ drop k ?e @ rest = ?e @ rest"
    by (metis append.assoc append_take_drop_id)
  with is_all_from_flags(1) [OF fl, of "[]" "drop k ?e @ rest"] k
  show "is_varint_all_bytes (?e @ rest) k = Inr False"
    by (simp add: is_varint_all_bytes_def)
qed

lemma get_size_encode:
  assumes "sz < length (encodeVarint v)" and "length (encodeVarint v) \<le> sz + k"
  shows "get_size (encodeVarint v @ rest) sz k = Inr (length (encodeVarint v))"
  using assms
proof (induction k arbitrary: sz)
  case (Suc k)
  show ?case
  proof (cases "Suc sz = length (encodeVarint v)")
    case True
    then show ?thesis using is_all_encode(2) [of v rest] by simp
  next
    case False
    with Suc show ?thesis by (simp add: is_all_encode(1))
  qed
qed simp

lemma get_varint_encode:
  assumes "unat v < 2 ^ 31"
  shows "get_varint (encodeVarint v @ rest) = Inr (v, length (encodeVarint v))"
proof -
  have "length (encodeVarint v) \<le> 5" using encode_length_le [of 5 v] assms by simp
  moreover have "get_size (encodeVarint v @ rest) 0 8 = Inr (length (encodeVarint v))"
    by (rule get_size_encode) (use calculation in auto)
  ultimately show ?thesis
    using decode_encode [OF assms] by (simp add: get_varint_def Let_def)
qed

lemma write_varint_iff: "isOk (write_varint strm v) \<longleftrightarrow> unat v < 2 ^ 28"
  using encode_length_le [of 4 v] by (auto simp: write_varint_def Let_def not_less)

lemma write_varint_ok:
  "unat v < 2 ^ 28 \<Longrightarrow> write_varint strm v = Inr (strm @ encodeVarint v, length (encodeVarint v))"
  using encode_length_le [of 4 v] by (auto simp: write_varint_def Let_def not_less)


lemma is_all_from_append:
  "i + n \<le> length xs \<Longrightarrow> is_all_from (xs @ ys) i n = is_all_from xs i n"
  by (induction xs i n rule: is_all_from.induct) (auto simp: elem_at_def nth_append)

lemma is_varint_append:
  "n \<le> length xs \<Longrightarrow> is_varint_all_bytes (xs @ ys) n = is_varint_all_bytes xs n"
  by (simp add: is_varint_all_bytes_def is_all_from_append)

lemma read_size_encode:
  assumes "encodeVarint v = buf @ rest'" and "rest' \<noteq> []" and "length rest' \<le> k"
  shows "read_size buf (rest' @ rest) k = Inr (encodeVarint v, rest)"
  using assms
proof (induction k arbitrary: buf rest')
  case (Suc k)
  from Suc.prems(2) obtain b tl where r: "rest' = b # tl" by (cases rest') auto
  have e: "encodeVarint v = (buf @ [b]) @ tl" using Suc.prems(1) r by simp
  show ?case
  proof (cases "tl = []")
    case True
    with e r is_all_encode(2) [of v "[]"] show ?thesis by simp
  next
    case False
    have "is_varint_all_bytes (encodeVarint v @ []) (length (buf @ [b])) = Inr False"
      by (rule is_all_encode(1)) (use e False in simp)
    then have "is_varint_all_bytes (buf @ [b]) (length (buf @ [b])) = Inr False"
      by (metis is_varint_append e append_Nil2 order_refl)
    with Suc.IH [OF e False] Suc.prems(3) r show ?thesis by (simp add: Let_def)
  qed
qed simp

lemma read_varint_encode:
  assumes "unat v < 2 ^ 31"
  shows "read_varint (encodeVarint v @ rest) = Inr (v, rest)"
proof -
  have len: "length (encodeVarint v) \<le> 5" using encode_length_le [of 5 v] assms by simp
  then have "read_size [] (encodeVarint v @ rest) 8 = Inr (encodeVarint v, rest)"
    by (intro read_size_encode) auto
  with len decode_encode [OF assms, of "[]"] show ?thesis by (simp add: read_varint_def)
qed

subsection \<open>Properties\<close>

text \<open>
  A length descriptor below 2^31 that the encoder wrote in front of other data is read
  back by both readers: get_varint finds the value and the number of bytes it took in
  memory, read_varint takes exactly these bytes off a stream.
\<close>

theorem varint_roundtrip:
  assumes "unat v < 2 ^ 31"
  shows "get_varint (encodeVarint v @ rest) = Inr (v, length (encodeVarint v))
    \<and> read_varint (encodeVarint v @ rest) = Inr (v, rest)"
  using assms by (simp add: get_varint_encode read_varint_encode)

theorem varint_roundtrip_witness:
  "encodeVarint 300 = [172, 2]
   \<and> get_varint ([172, 2] @ [7]) = Inr (300, 2) \<and> read_varint ([172, 2] @ [7]) = Inr (300, [7])"
proof -
  have e: "encodeVarint 300 = [172, 2]" by code_simp
  show ?thesis using varint_roundtrip [of 300 "[7]"] by (simp add: e)
qed

text \<open>
  Write_varint stays inside its four-byte local array exactly for the values below
  2^28; from there on it writes past the end of the array.
\<close>

theorem write_varint_fits: "isOk (write_varint strm v) = (unat v < 2 ^ 28)"
  by (rule write_varint_iff)

text \<open>
  The decoder is right only below 2^31: the encoding of 2^31 is read as a
  sign-extended 64-bit number, and that of 2^32 shifts bits out of an int.
\<close>

theorem varint_decode_limit:
  "decodeVarint (encodeVarint (2 ^ 31)) 5 = Inr 0xFFFFFFFF80000000
   \<and> decodeVarint (encodeVarint (2 ^ 32)) 5 = Inl BadShift"
  by code_simp

end
