(* ===== verification/HuffCodec.thy ===== *)
theory HuffCodec
  imports HuffTree BitStream Varint
begin

section \<open>Compressing and decompressing a packet\<close>

text \<open>
  The second half of huff/huffcode.cpp (compress_buffer, compress_buffer_calc_only,
  compress, decompress_stream, decompress_buffer, decompress, decompress2, checkTags) and
  huff/devdecoder.cpp. Output streams are the bytes written so far, \<open>None\<close> where the
  pointer is null; buffers are byte lists, shorter than 2^31 bytes.
\<close>

unbundle bit_operations_syntax

type_synonym codensize = "huffcode \<times> int"

subsection \<open>Choosing an escape code\<close>

text \<open>
  bitsRequired takes a pointer and shifts the byte it points to: the result is the
  number of shifts and what is left of the byte.
\<close>

function bits_loop :: "byte \<Rightarrow> nat \<Rightarrow> nat \<times> byte" where
  "bits_loop v r =
     (let v' = drop_bit 1 v in if v' \<noteq> 0 then bits_loop v' (r + 1) else (r, v'))"
  by pat_completeness auto
termination
proof (relation "measure (\<lambda>(v, r). unat v)", simp)
  fix v v' :: byte and r :: nat
  assume v': "v' = drop_bit 1 v" "v' \<noteq> 0"
  then have "unat v' = unat v div 2"
    by (simp add: unat_drop_bit_eq drop_bit_eq_div [where 'a = nat])
  moreover have "unat v' \<noteq> 0" using v'(2) by (simp add: unat_eq_0)
  ultimately show "((v', r + 1), v, r) \<in> measure (\<lambda>(v, r). unat v)" by simp
qed

declare bits_loop.simps [simp del]

definition bitsRequired :: "byte \<Rightarrow> nat \<times> byte" where
  "bitsRequired v = bits_loop v 0"

fun findHuffCodeNSize :: "codensize list \<Rightarrow> huffcode \<Rightarrow> codensize option" where
  "findHuffCodeNSize [] v = None"
| "findHuffCodeNSize (e # es) v = (if fst e = v then Some e else findHuffCodeNSize es v)"

text \<open>
  The shortest escape code with room for the byte: \<open>dmin\<close> starts as the size of a
  pointer, 8 on the 64-bit targets of the program.
\<close>

fun shortest_from :: "codensize list \<Rightarrow> int \<Rightarrow> int \<Rightarrow> codensize option \<Rightarrow> codensize option" where
  "shortest_from [] sz dmin best = best"
| "shortest_from (e # es) sz dmin best =
     (let d = snd e - sz
      in if d < 0 then shortest_from es sz dmin best
         else if d < dmin then shortest_from es sz d (Some e)
         else shortest_from es sz dmin best)"

definition findShortestHuffCodeNSize :: "codensize list \<Rightarrow> byte \<Rightarrow> codensize option \<times> byte" where
  "findShortestHuffCodeNSize es v =
     (let (sz, v') = bitsRequired v in (shortest_from es (int sz) 8 None, v'))"

subsection \<open>Compressing a buffer\<close>

text \<open>
  The loop over the bytes. The result is the number of bits, or \<open>None\<close> when a byte has
  no code; the output stream; and the input buffer, which bitsRequired may have changed.
\<close>

fun compress_loop :: "codemap \<Rightarrow> codensize list \<Rightarrow> bytes \<Rightarrow> u64 \<Rightarrow> obitstream \<Rightarrow> bytes
    \<Rightarrow> (u64 option \<times> obitstream \<times> bytes) result" where
  "compress_loop codes es [] r strm seen = Inr (Some r, strm, seen)"
| "compress_loop codes es (b # data) r strm seen =
     (case map_of codes b of
        None \<Rightarrow>
          (case findShortestHuffCodeNSize es b of
             (None, b') \<Rightarrow> Inr (None, strm, seen @ b' # data)
           | (Some hcs, b') \<Rightarrow>
               bindR (ob_write_int (ob_write_bits strm (fst hcs)) b' (snd hcs)) (\<lambda>strm'.
                 compress_loop codes es data
                   (r + of_nat (length (fst hcs)) + of_int (snd hcs)) strm' (seen @ [b'])))
      | Some code \<Rightarrow>
          (case findHuffCodeNSize es code of
             Some hcs \<Rightarrow>
               bindR (ob_write_int (ob_write_bits strm (fst hcs)) b (snd hcs)) (\<lambda>strm'.
                 compress_loop codes es data
                   (r + of_nat (length (fst hcs)) + of_int (snd hcs)) strm' (seen @ [b]))
           | None \<Rightarrow>
               compress_loop codes es data (r + of_nat (length code))
                 (ob_write_bits strm code) (seen @ [b])))"

definition compress_buffer :: "bytes \<Rightarrow> codemap \<Rightarrow> codensize list \<Rightarrow> huffcode option \<Rightarrow> bytes
    \<Rightarrow> (u64 \<times> bytes \<times> bytes) result" where
  "compress_buffer retval codes es eof_code data =
     bindR (compress_loop codes es data 0 (ob_open retval) []) (\<lambda>(r, strm, data').
       case r of
         None \<Rightarrow> Inr (- 1, ob_strm (ob_flush strm), data')
       | Some n \<Rightarrow>
           (case eof_code of
              Some code \<Rightarrow>
                Inr (n + of_nat (length code), ob_strm (ob_flush (ob_write_bits strm code)), data')
            | None \<Rightarrow> Inr (n, ob_strm (ob_flush strm), data')))"

fun calc_loop :: "codemap \<Rightarrow> codensize list \<Rightarrow> bytes \<Rightarrow> u64 \<Rightarrow> bytes \<Rightarrow> u64 option \<times> bytes" where
  "calc_loop codes es [] r seen = (Some r, seen)"
| "calc_loop codes es (b # data) r seen =
     (case map_of codes b of
        None \<Rightarrow>
          (case findShortestHuffCodeNSize es b of
             (None, b') \<Rightarrow> (None, seen @ b' # data)
           | (Some hcs, b') \<Rightarrow>
               calc_loop codes es data
                 (r + of_nat (length (fst hcs)) + of_int (snd hcs)) (seen @ [b']))
      | Some code \<Rightarrow>
          (case findHuffCodeNSize es code of
             Some hcs \<Rightarrow> calc_loop codes es data (r + of_nat (length (fst hcs)) + 8) (seen @ [b])
           | None \<Rightarrow> calc_loop codes es data (r + of_nat (length code)) (seen @ [b])))"

definition compress_buffer_calc_only ::
    "codemap \<Rightarrow> codensize list \<Rightarrow> huffcode option \<Rightarrow> bytes \<Rightarrow> u64 \<times> bytes" where
  "compress_buffer_calc_only codes es eof_code data =
     (case calc_loop codes es data 0 [] of
        (None, data') \<Rightarrow> (- 1, data')
      | (Some n, data') \<Rightarrow>
          (case eof_code of
             Some code \<Rightarrow> (n + of_nat (length code), data')
           | None \<Rightarrow> (n, data')))"

subsection \<open>The compressed packet\<close>

definition write_header :: "bytes \<Rightarrow> u64 \<Rightarrow> (bytes \<times> nat) result" where
  "write_header retval sz = write_varint retval sz"

definition read_header :: "bytes \<Rightarrow> (u64 \<times> bytes) result" where
  "read_header strm = read_varint strm"

definition packet_header :: "bytes option \<Rightarrow> huffcode option \<Rightarrow> u64 \<Rightarrow> (bytes option \<times> nat) result" where
  "packet_header retval eof_code sz =
     (case eof_code of
        Some code \<Rightarrow> Inr (retval, 0)
      | None \<Rightarrow>
          (case retval of
             Some strm \<Rightarrow> bindR (write_header strm sz) (\<lambda>(strm', n). Inr (Some strm', n))
           | None \<Rightarrow>
               (if 4 < length (encodeVarint sz) then Inl OutOfBounds
                else Inr (None, length (encodeVarint sz)))))"

definition compress :: "bytes option \<Rightarrow> codemap \<Rightarrow> codensize list \<Rightarrow> huffcode option \<Rightarrow> int \<Rightarrow> bytes
    \<Rightarrow> (u64 \<times> bytes option \<times> bytes) result" where
  "compress retval codes es eof_code compression_offset data =
     bindR (packet_header retval eof_code (of_nat (length data))) (\<lambda>(out, r).
       let k = nat compression_offset
       in if length data < k then Inl OutOfBounds
          else
            (case out of
               Some strm \<Rightarrow>
                 bindR (compress_buffer (strm @ take k data) codes es eof_code (drop k data))
                   (\<lambda>(n, strm', data').
                     Inr (of_nat r + of_nat k + n, Some strm', take k data @ data'))
             | None \<Rightarrow>
                 (case compress_buffer_calc_only codes es eof_code (drop k data) of
                    (n, data') \<Rightarrow> Inr (of_nat r + of_nat k + n, None, take k data @ data'))))"

subsection \<open>The bit-table decoder of mode 2\<close>

text \<open>
  dec_hafman of huff/devdecoder.cpp. A symbol found in the table is followed by the
  statement \<open>return 1\<close>, so whatever comes after it in the loop body is never reached
  and is not part of the model. \<open>len\<close> and the buffer index are 32-bit unsigned.
\<close>

definition tabl_len :: "nat list" where
  "tabl_len = [1, 4, 5, 6, 7, 7, 5, 5, 4, 2]"

definition tabl_haf_revers :: "u32 list" where
  "tabl_haf_revers = [0x01, 0x04, 0x0C, 0x30, 0x10, 0x50, 0x00, 0x1C, 0x08, 0x02]"

definition tab_mask :: "u32 list" where
  "tab_mask = [0x01, 0x03, 0x07, 0x0F, 0x1F, 0x3F, 0x7F, 0xFF]"

fun search_symbol :: "nat \<Rightarrow> u32 \<Rightarrow> (u32 \<times> nat) list \<Rightarrow> nat" where
  "search_symbol j symbol [] = 0"
| "search_symbol j symbol ((code, len) # tab) =
     (if symbol = code \<and> symbol \<noteq> 0 then len
      else if symbol = code \<and> symbol = 0 \<and> j = 6 then len
      else search_symbol j symbol tab)"

fun search_masks :: "nat \<Rightarrow> u32 \<Rightarrow> u32 list \<Rightarrow> bool" where
  "search_masks j bitbuf [] = False"
| "search_masks j bitbuf (m # masks) =
     (if search_symbol j (bitbuf AND m) (zip tabl_haf_revers tabl_len) = 0
      then search_masks (Suc j) bitbuf masks
      else True)"

definition dec_hafman :: "bytes \<Rightarrow> u32 \<Rightarrow> (bytes \<times> u32) result" where
  "dec_hafman buff_in len =
     bindR (elem_at buff_in 0) (\<lambda>s0.
     bindR (elem_at buff_in 1) (\<lambda>s1.
     bindR (elem_at buff_in 2) (\<lambda>b0.
     bindR (elem_at buff_in 3) (\<lambda>b1.
       let buff_out = [s0, s1];
           bitbuf = ucast b0 OR (ucast b1 * 0x100 :: u32)
       in if 4 < len - 4
          then Inr (buff_out, if search_masks 0 bitbuf tab_mask then 1 else 0)
          else Inr (buff_out, 2)))))"

subsection \<open>Decompressing a stream\<close>

text \<open>
  The state of the loop: the current node (\<open>None\<close> is the null pointer, also after the
  end of the input), the bit stream, the output and the number of decoded symbols.
\<close>

record decode_state =
  ds_node :: "node option"
  ds_strm :: ibitstream
  ds_out :: "bytes option"
  ds_r :: nat

definition move :: "int \<Rightarrow> node option \<Rightarrow> node option" where
  "move bt n =
     (case n of
        None \<Rightarrow> None
      | Some nd \<Rightarrow>
          (if bt = - 1 then None
           else
             (case nd of
                LeafNode f c flags \<Rightarrow> Some nd
              | InternalNode f l r \<Rightarrow>
                  (if bt = 0 then Some l else if bt = 1 then Some r else Some nd))))"

text \<open>
  What a round of \<open>while (true)\<close> does once it has arrived at a leaf; the flag says
  that the loop is left.
\<close>

definition decode_leaf :: "node option \<Rightarrow> bool \<Rightarrow> nat \<Rightarrow> byte \<Rightarrow> byte \<Rightarrow> decode_state \<Rightarrow> bool \<times> decode_state" where
  "decode_leaf root has_eof decompressed_size c flags s =
     (let s1 = s\<lparr>ds_r := ds_r s + 1\<rparr>
      in if \<not> has_eof \<and> decompressed_size \<le> ds_r s1 then (True, s1)
         else if flags AND 1 \<noteq> 0 then (True, s1)
         else if flags AND 2 \<noteq> 0 then
           (let (escaped_byte, strm) = ib_read8 (ds_strm s1)
            in (False, s1\<lparr>ds_node := root, ds_strm := strm,
                          ds_out := map_option (\<lambda>o'. o' @ [escaped_byte]) (ds_out s1)\<rparr>))
         else (False, s1\<lparr>ds_node := root, ds_out := map_option (\<lambda>o'. o' @ [c]) (ds_out s1)\<rparr>))"

definition decode_step :: "node option \<Rightarrow> bool \<Rightarrow> nat \<Rightarrow> decode_state \<Rightarrow> bool \<times> decode_state" where
  "decode_step root has_eof decompressed_size s =
     (let (bt, strm) = ib_read (ds_strm s);
          n = move bt (ds_node s);
          s1 = s\<lparr>ds_node := n, ds_strm := strm\<rparr>
      in case n of
           Some (LeafNode f c flags) \<Rightarrow> decode_leaf root has_eof decompressed_size c flags s1
         | _ \<Rightarrow> (False, s1))"

fun decode_loop :: "node option \<Rightarrow> bool \<Rightarrow> nat \<Rightarrow> nat \<Rightarrow> decode_state \<Rightarrow> decode_state option" where
  "decode_loop root has_eof decompressed_size 0 s = None"
| "decode_loop root has_eof decompressed_size (Suc fuel) s =
     (case decode_step root has_eof decompressed_size s of
        (True, s') \<Rightarrow> Some s'
      | (False, s') \<Rightarrow> decode_loop root has_eof decompressed_size fuel s')"

fun set_escape_flags :: "codensize list \<Rightarrow> node option \<Rightarrow> node option" where
  "set_escape_flags [] root = root"
| "set_escape_flags (e # es) root =
     set_escape_flags es (if length (fst e) \<noteq> 0 then snd (set_code_flag root (fst e) 2) else root)"

definition set_flags :: "codensize list \<Rightarrow> huffcode option \<Rightarrow> node option \<Rightarrow> node option" where
  "set_flags es eof_code root =
     (let root' = set_escape_flags es root
      in case eof_code of None \<Rightarrow> root' | Some code \<Rightarrow> snd (set_code_flag root' code 1))"

text \<open>
  Mode 2 first hands the whole input to dec_hafman, prefixed by two bytes, and then goes
  on with the input used up. The result is the number of symbols, the output and the
  tree with its flags; \<open>None\<close> is a loop that has not ended with this fuel.
\<close>

definition decompress_stream :: "nat \<Rightarrow> bool \<Rightarrow> byte \<Rightarrow> int \<Rightarrow> bytes option \<Rightarrow> node option
    \<Rightarrow> codensize list \<Rightarrow> huffcode option \<Rightarrow> bytes \<Rightarrow> nat
    \<Rightarrow> (nat \<times> bytes option \<times> node option) option result" where
  "decompress_stream fuel ret junk mode retval root es eof_code input decompressed_size =
     bindR
       (if mode = 2
        then bindR (dec_hafman ([0x31, 0x32] @ input @ [0]) (of_nat (decompressed_size + 2)))
               (\<lambda>(b_out, sz).
                 if 2 < sz then
                   (case retval of
                      None \<Rightarrow> Inl NullPointer
                    | Some strm \<Rightarrow> Inr (Some (strm @ take (unat sz - 2) b_out), []))
                 else Inr (retval, []))
        else Inr (retval, input))
       (\<lambda>(out, rest).
         let root' = set_flags es eof_code root
         in Inr (map_option (\<lambda>s. (ds_r s, ds_out s, root'))
                  (decode_loop root' (eof_code \<noteq> None) decompressed_size fuel
                    \<lparr>ds_node = root', ds_strm = ib_open ret junk rest, ds_out = out, ds_r = 0\<rparr>)))"

text \<open>decompress_buffer copies the bytes of the buffer into a string stream.\<close>

definition decompress_buffer :: "nat \<Rightarrow> bool \<Rightarrow> byte \<Rightarrow> int \<Rightarrow> bytes option \<Rightarrow> node option
    \<Rightarrow> codensize list \<Rightarrow> huffcode option \<Rightarrow> bytes \<Rightarrow> nat
    \<Rightarrow> (nat \<times> bytes option \<times> node option) option result" where
  "decompress_buffer fuel ret junk mode retval root es eof_code data decompressed_size =
     decompress_stream fuel ret junk mode retval root es eof_code data decompressed_size"

definition original_size :: "int \<Rightarrow> huffcode option \<Rightarrow> bytes \<Rightarrow> (u64 \<times> nat) result" where
  "original_size force_size eof_code data =
     (if 0 < force_size then Inr (of_int force_size, 0)
      else case eof_code of
             Some code \<Rightarrow> Inr (0, 0)
           | None \<Rightarrow> get_varint data)"

definition decompress :: "nat \<Rightarrow> bool \<Rightarrow> byte \<Rightarrow> int \<Rightarrow> bytes option \<Rightarrow> node option
    \<Rightarrow> codensize list \<Rightarrow> huffcode option \<Rightarrow> int \<Rightarrow> int \<Rightarrow> bytes
    \<Rightarrow> (nat \<times> bytes option \<times> node option) option result" where
  "decompress fuel ret junk mode retval root es eof_code force_size compression_offset data =
     bindR (original_size force_size eof_code data) (\<lambda>(sz, length_descriptor_size).
       let p = drop length_descriptor_size data; k = nat compression_offset
       in if length data < length_descriptor_size + k
          then (case retval of
                  None \<Rightarrow> Inl (Thrown ''length_error'')
                | Some strm \<Rightarrow> Inl OutOfBounds)
          else bindR
                 (decompress_buffer fuel ret junk mode
                   (map_option (\<lambda>strm. strm @ take k p) retval)
                   root es eof_code (drop k p) (unat sz))
                 (\<lambda>res. Inr (map_option (\<lambda>(r, out, root'). (k + r, out, root')) res)))"

definition decompress2 :: "nat \<Rightarrow> bool \<Rightarrow> byte \<Rightarrow> int \<Rightarrow> bytes option \<Rightarrow> codemap
    \<Rightarrow> codensize list \<Rightarrow> huffcode option \<Rightarrow> int \<Rightarrow> int \<Rightarrow> bytes
    \<Rightarrow> (nat \<times> bytes option \<times> node option) option result" where
  "decompress2 fuel ret junk mode retval codes es eof_code force_size compression_offset data =
     decompress fuel ret junk mode retval (buildTreeFromCodes codes) es eof_code force_size
       compression_offset data"

fun checkTags :: "bytes \<Rightarrow> (int \<times> int) list \<Rightarrow> bool" where
  "checkTags data [] = True"
| "checkTags data ((idx, v) # tags) =
     (if idx < 0 \<or> int (length data) \<le> idx then False
      else if v \<noteq> uint (data ! nat idx) then False
      else checkTags data tags)"

subsection \<open>What the compressor writes\<close>

lemma findHuffCodeNSize_Some: "findHuffCodeNSize es v = Some hcs \<Longrightarrow> hcs \<in> set es \<and> fst hcs = v"
  by (induction es v rule: findHuffCodeNSize.induct) (auto split: if_splits)

lemma findHuffCodeNSize_None: "findHuffCodeNSize es v = None \<longleftrightarrow> v \<notin> fst ` set es"
  by (induction es v rule: findHuffCodeNSize.induct) auto

text \<open>The bits of one byte that has a code, with escape codes for full bytes.\<close>

definition symbol_bits :: "codemap \<Rightarrow> codensize list \<Rightarrow> byte \<Rightarrow> bool list" where
  "symbol_bits codes es b =
     (case map_of codes b of
        None \<Rightarrow> []
      | Some code \<Rightarrow> code @ (if code \<in> fst ` set es then byte_bits b else []))"

definition data_bits :: "codemap \<Rightarrow> codensize list \<Rightarrow> bytes \<Rightarrow> bool list" where
  "data_bits codes es data = concat (map (symbol_bits codes es) data)"

lemma data_bits_simps [simp]:
  "data_bits codes es [] = []"
  "data_bits codes es (b # data) = symbol_bits codes es b @ data_bits codes es data"
  by (simp_all add: data_bits_def)

definition full_bytes :: "codensize list \<Rightarrow> bool" where
  "full_bytes es = (\<forall>e \<in> set es. snd e = 8)"

lemma compress_loop_bits:
  assumes "\<forall>b \<in> set data. b \<in> dom (map_of codes)" and "full_bytes es" and "ob_ok strm"
  shows "\<exists>strm'. compress_loop codes es data r strm seen
        = Inr (Some (r + of_nat (length (data_bits codes es data))), strm', seen @ data)
      \<and> ob_ok strm' \<and> ob_written strm' = ob_written strm @ data_bits codes es data"
  using assms
proof (induction codes es data r strm seen rule: compress_loop.induct)
  case (2 codes es b data r strm seen)
  then obtain code where code: "map_of codes b = Some code" by auto
  show ?case
  proof (cases "findHuffCodeNSize es code")
    case None
    note st = ob_write_bits_sink [OF "2.prems"(3), of code]
    from None have "code \<notin> fst ` set es" by (simp add: findHuffCodeNSize_None)
    with "2.IH"(2) [OF code None] "2.prems" st code None show ?thesis
      by (auto simp: symbol_bits_def ac_simps)
  next
    case (Some hcs)
    with findHuffCodeNSize_Some [OF Some] "2.prems"(2) have h: "fst hcs = code" "snd hcs = 8" "code \<in> fst ` set es"
      by (auto simp: full_bytes_def)
    let ?s1 = "ob_write_bits strm code" 
    note st = ob_write_bits_sink [OF "2.prems"(3), of code]
    then have st2: "ob_ok (ob_write_bits ?s1 (byte_bits b))"
       "ob_written (ob_write_bits ?s1 (byte_bits b)) = ob_written strm @ code @ byte_bits b"
      using ob_write_bits_sink [of ?s1 "byte_bits b"] by auto
    from "2.IH"(3) [OF code Some, of "ob_write_bits ?s1 (byte_bits b)"] "2.prems" st2 code Some h show ?thesis
      by (auto simp: symbol_bits_def ob_write_int_8 ac_simps)
  qed
qed auto

definition eof_bits :: "huffcode option \<Rightarrow> bool list" where
  "eof_bits eof_code = (case eof_code of None \<Rightarrow> [] | Some code \<Rightarrow> code)"

definition packed_bits :: "codemap \<Rightarrow> codensize list \<Rightarrow> huffcode option \<Rightarrow> bytes \<Rightarrow> bool list" where
  "packed_bits codes es eof_code data = data_bits codes es data @ eof_bits eof_code"

lemma compress_buffer_bits:
  assumes "\<forall>b \<in> set data. b \<in> dom (map_of codes)" and "full_bytes es"
    and bs: "bs = packed_bits codes es eof_code data"
  shows "\<exists>packed. compress_buffer strm codes es eof_code data = Inr (of_nat (length bs), packed, data)
    \<and> bits_of_bytes packed = bits_of_bytes strm @ bs @ pad_bits (length bs)"
proof -
  from compress_loop_bits [OF assms(1,2), of "ob_open strm" 0 "[]"]
  obtain s where s: "compress_loop codes es data 0 (ob_open strm) []
        = Inr (Some (of_nat (length (data_bits codes es data))), s, data)"
      "ob_ok s" "ob_written s = bits_of_bytes strm @ data_bits codes es data"
    by auto
  let ?s = "ob_write_bits s (eof_bits eof_code)"
  from ob_write_bits_sink [OF s(2), of "eof_bits eof_code"] s(3)
  have ok: "ob_ok ?s" and w: "ob_written ?s = bits_of_bytes strm @ bs"
    by (auto simp: bs packed_bits_def)
  have "length (bits_of_bytes strm @ bs) mod 8 = length bs mod 8"
    by (simp add: length_bits_of_bytes)
  with ob_flush_written [OF ok] w have "bits_of_bytes (ob_strm (ob_flush ?s))
      = bits_of_bytes strm @ bs @ pad_bits (length bs)"
    by (simp add: pad_bits_def)
  moreover have "compress_buffer strm codes es eof_code data
      = Inr (of_nat (length bs), ob_strm (ob_flush ?s), data)"
    using s(1) by (cases eof_code) (simp_all add: compress_buffer_def bs packed_bits_def eof_bits_def)
  ultimately show ?thesis by blast
qed

lemma shortest_from_in: "shortest_from es sz dmin best = Some hcs \<Longrightarrow> hcs \<in> set es \<or> best = Some hcs"
  by (induction es sz dmin best rule: shortest_from.induct) (auto simp: Let_def split: if_splits)

lemma findShortest_in: "findShortestHuffCodeNSize es b = (Some hcs, b') \<Longrightarrow> hcs \<in> set es"
  using shortest_from_in [of es _ 8 None hcs]
  by (auto simp: findShortestHuffCodeNSize_def split: prod.splits)

lemma calc_loop_compress:
  assumes "full_bytes es"
  shows "\<exists>strm'. compress_loop codes es data r strm seen
    = Inr (fst (calc_loop codes es data r seen), strm', snd (calc_loop codes es data r seen))"
  using assms
proof (induction codes es data r strm seen rule: compress_loop.induct)
  case (2 codes es b data r strm seen)
  show ?case
  proof (cases "map_of codes b")
    case None
    obtain h b' where fs: "findShortestHuffCodeNSize es b = (h, b')" by fastforce
    show ?thesis
    proof (cases h)
      case (Some hcs)
      with findShortest_in fs "2.prems" have "snd hcs = 8" by (auto simp: full_bytes_def)
      with "2.IH"(1) [OF None fs [symmetric] Some] "2.prems" None fs Some show ?thesis
        by (auto simp: ob_write_int_8)
    qed (use None fs in simp)
  next
    case code: (Some code)
    show ?thesis
    proof (cases "findHuffCodeNSize es code")
      case None
      with "2.IH"(2) [OF code None] "2.prems" code show ?thesis by auto
    next
      case (Some hcs)
      with findHuffCodeNSize_Some "2.prems" have "snd hcs = 8" by (auto simp: full_bytes_def)
      with "2.IH"(3) [OF code Some] "2.prems" code Some show ?thesis
        by (auto simp: ob_write_int_8)
    qed
  qed
qed auto

lemma calc_only_compress:
  assumes "full_bytes es"
  shows "\<exists>strm'. compress_buffer strm codes es eof_code data
    = Inr (fst (compress_buffer_calc_only codes es eof_code data), strm',
           snd (compress_buffer_calc_only codes es eof_code data))"
proof -
  obtain r d where c: "calc_loop codes es data 0 [] = (r, d)" by fastforce
  with calc_loop_compress [OF assms, of codes data 0 "ob_open strm" "[]"] obtain s
    where "compress_loop codes es data 0 (ob_open strm) [] = Inr (r, s, d)" by auto
  with c show ?thesis
    by (auto simp: compress_buffer_def compress_buffer_calc_only_def split: option.splits)
qed
subsection \<open>Flags of the tree while decoding\<close>

definition codes_in :: "codensize list \<Rightarrow> node \<Rightarrow> bool" where
  "codes_in es t = (\<forall>e \<in> set es. fst e \<noteq> [] \<and> (\<exists>c. code_of t c = Some (fst e)))"

definition mark :: "codensize list \<Rightarrow> huffcode option \<Rightarrow> huffcode \<Rightarrow> byte" where
  "mark es eof_code p = (if p \<in> fst ` set es then 2 else 0) OR (if eof_code = Some p then 1 else 0)"

text \<open>The tree \<open>t'\<close> is \<open>t\<close> with the flags of the escape codes and of the end code set.\<close>

definition marked :: "node \<Rightarrow> codensize list \<Rightarrow> huffcode option \<Rightarrow> node \<Rightarrow> bool" where
  "marked t es eof_code t' =
     (distinct (leaf_chars t') \<and> code_of t' = code_of t
      \<and> (\<forall>d p. code_of t d = Some p \<longrightarrow> flag_of t' d = Some (mark es eof_code p)))"

lemma code_of_inj: "code_of t c = Some p \<Longrightarrow> code_of t d = Some p \<Longrightarrow> c = d"
  using code_of_prefix_free [of t c p d "[]"] by simp

lemma set_flag_marked:
  assumes d: "distinct (leaf_chars t)" and m: "\<And>d p. code_of t d = Some p \<Longrightarrow> flag_of t d = Some (m p)"
    and c: "code_of t c = Some p"
  shows "\<exists>t'. set_code_flag (Some t) p v = (True, Some t') \<and> distinct (leaf_chars t') \<and> code_of t' = code_of t
    \<and> (\<forall>d q. code_of t d = Some q \<longrightarrow> flag_of t' d = Some (if q = p then m q OR v else m q))"
proof -
  have "flag_of (upd_flags (\<lambda>flags. flags OR v) t p) e = Some (if q = p then m q OR v else m q)"
    if "code_of t e = Some q" for e q
    using that m [OF that] c by (auto simp: flag_of_upd_flags [OF d c] dest: code_of_inj)
  then show ?thesis using d by (auto simp: set_code_flag_of [OF c])
qed

lemma set_escape_flags_marked:
  assumes "distinct (leaf_chars t)" and "codes_in es t"
    and "\<And>d p. code_of t d = Some p \<Longrightarrow> flag_of t d = Some (mark es0 None p)"
  shows "\<exists>t'. set_escape_flags es (Some t) = Some t' \<and> marked t (es0 @ es) None t'"
  using assms
proof (induction es arbitrary: es0 t)
  case Nil
  then show ?case by (auto simp: marked_def)
next
  case (Cons e es)
  then obtain c where c: "code_of t c = Some (fst e)" and ne: "fst e \<noteq> []" by (auto simp: codes_in_def)
  from set_flag_marked [where m = "mark es0 None" and v = 2, OF Cons.prems(1,3) c] obtain t1
    where t1: "set_code_flag (Some t) (fst e) 2 = (True, Some t1)" "distinct (leaf_chars t1)"
      "code_of t1 = code_of t"
      "\<forall>d q. code_of t d = Some q \<longrightarrow>
        flag_of t1 d = Some (if q = fst e then mark es0 None q OR 2 else mark es0 None q)" by blast
  have "(if q = fst e then mark es0 None q OR 2 else mark es0 None q) = mark (es0 @ [e]) None q" for q
    by (auto simp: mark_def)
  with t1(3,4) have "\<And>d p. code_of t1 d = Some p \<Longrightarrow> flag_of t1 d = Some (mark (es0 @ [e]) None p)" by simp
  moreover have "codes_in es t1" using Cons.prems(2) t1(3) by (auto simp: codes_in_def)
  ultimately obtain t' where "set_escape_flags es (Some t1) = Some t'"
      "marked t1 ((es0 @ [e]) @ es) None t'"
    using Cons.IH [OF t1(2)] by blast
  with t1 ne show ?case by (auto simp: marked_def)
qed

lemma set_flags_marked:
  assumes d: "distinct (leaf_chars t)" and fr: "fresh t" and es: "codes_in es t"
    and eof: "\<And>p. eof_code = Some p \<Longrightarrow> \<exists>c. code_of t c = Some p"
  shows "\<exists>t'. set_flags es eof_code (Some t) = Some t' \<and> marked t es eof_code t'"
proof -
  have "flag_of t d = Some (mark [] None p)" if "code_of t d = Some p" for d p
    using that code_of_None_iff [of t d] by (auto simp: fresh_flag_of [OF fr] mark_def)
  from set_escape_flags_marked [OF d es this] obtain t1
    where t1: "set_escape_flags es (Some t) = Some t1" "marked t es None t1" by auto
  show ?thesis
  proof (cases eof_code)
    case None
    with t1 show ?thesis by (simp add: set_flags_def)
  next
    case (Some p)
    with eof obtain c where c: "code_of t1 c = Some p" using t1(2) by (auto simp: marked_def)
    from t1(2) have m: "distinct (leaf_chars t1)" "\<And>d q. code_of t1 d = Some q \<Longrightarrow> flag_of t1 d = Some (mark es None q)"
      by (auto simp: marked_def)
    from set_flag_marked [where m = "mark es None" and v = 1, OF m c] obtain t'
      where t': "set_code_flag (Some t1) p 1 = (True, Some t')" "distinct (leaf_chars t')"
        "code_of t' = code_of t1"
        "\<forall>d q. code_of t1 d = Some q \<longrightarrow>
          flag_of t' d = Some (if q = p then mark es None q OR 1 else mark es None q)" by blast
    have "(if q = p then mark es None q OR 1 else mark es None q) = mark es (Some p) q" for q
      by (auto simp: mark_def)
    with t' t1 Some show ?thesis by (auto simp: set_flags_def marked_def)
  qed
qed

subsection \<open>Decoding one symbol\<close>

definition go_on :: "node option \<Rightarrow> bool \<Rightarrow> nat \<Rightarrow> nat \<Rightarrow> bool \<times> decode_state \<Rightarrow> decode_state option" where
  "go_on root has_eof dsize fuel r =
     (if fst r then Some (snd r) else decode_loop root has_eof dsize fuel (snd r))"

lemma decode_loop_Suc:
  "decode_loop root has_eof dsize (Suc fuel) s
    = go_on root has_eof dsize fuel (decode_step root has_eof dsize s)"
  by (auto simp: go_on_def split: prod.splits bool.splits)

declare decode_loop.simps(2) [simp del]

lemma decode_path:
  assumes "code_of n c = Some p" and "p \<noteq> []" and "ds_node s = Some n"
    and "ib_ok (ds_strm s)" and "ib_pending (ds_strm s) = p @ rest"
  shows "\<exists>strm' f v. flag_of n c = Some v \<and> ib_ok strm' \<and> ib_pending strm' = rest
    \<and> (\<forall>fuel. decode_loop root has_eof dsize (length p + fuel) s
         = go_on root has_eof dsize fuel
             (decode_leaf root has_eof dsize c v (s\<lparr>ds_node := Some (LeafNode f c v), ds_strm := strm'\<rparr>)))"
  using assms
proof (induction p arbitrary: n s)
  case (Cons b p)
  then obtain f l r where n: "n = InternalNode f l r" by (cases n) (auto split: if_splits)
  define m where "m = (if b then r else l)"
  have m: "code_of m c = Some p" "flag_of n c = flag_of m c"
    using Cons.prems(1) n flag_of_None_iff [of l c] by (auto simp: m_def split: option.splits)
  from Cons.prems(5) have "ib_pending (ds_strm s) = b # (p @ rest)" by simp
  then obtain st where st: "ib_read (ds_strm s) = (of_bool b, st)" "ib_ok st" "ib_pending st = p @ rest"
    by (rule ibs.get_cases [OF Cons.prems(4)])
  have mv: "move (of_bool b) (ds_node s) = Some m"
    by (cases b) (simp_all add: move_def Cons.prems(3) n m_def)
  let ?s = "s\<lparr>ds_node := Some m, ds_strm := st\<rparr>"
  show ?case
  proof (cases p)
    case Nil
    with m(1) obtain f' v where lf: "m = LeafNode f' c v"
      by (cases m) (auto split: if_splits option.splits)
    then have "decode_step root has_eof dsize s = decode_leaf root has_eof dsize c v ?s"
      using st mv by (simp add: decode_step_def)
    with lf st m Nil show ?thesis by (auto simp: decode_loop_Suc)
  next
    case p: (Cons b' p')
    with m(1) obtain f' l' r' where "m = InternalNode f' l' r'"
      by (cases m) (auto split: if_splits)
    then have step: "decode_step root has_eof dsize s = (False, ?s)"
      using st mv by (simp add: decode_step_def)
    have "p \<noteq> []" using p by simp
    from Cons.IH [OF m(1) this, of ?s] st obtain strm' f v
      where "flag_of m c = Some v" "ib_ok strm'" "ib_pending strm' = rest"
        "\<forall>fuel. decode_loop root has_eof dsize (length p + fuel) ?s
          = go_on root has_eof dsize fuel
              (decode_leaf root has_eof dsize c v (?s\<lparr>ds_node := Some (LeafNode f c v), ds_strm := strm'\<rparr>))"
      by auto
    with m(2) show ?thesis by (auto simp: decode_loop_Suc step go_on_def)
  qed
qed simp

subsection \<open>Decoding the data\<close>

lemma mark_flags:
  "mark es eof_code p AND 1 \<noteq> 0 \<longleftrightarrow> eof_code = Some p"
  "mark es eof_code p AND 2 \<noteq> 0 \<longleftrightarrow> p \<in> fst ` set es"
  by (auto simp: mark_def)

definition codes_of :: "node \<Rightarrow> codemap \<Rightarrow> bool" where
  "codes_of t codes = (map_of codes = code_of t)"

definition encodable :: "node \<Rightarrow> huffcode option \<Rightarrow> byte \<Rightarrow> bool" where
  "encodable t eof_code b = (b \<in> set (leaf_chars t) \<and> code_of t b \<noteq> eof_code)"

lemma inner_code_nonempty: "is_inner t \<Longrightarrow> code_of t c = Some p \<Longrightarrow> p \<noteq> []"
  by (auto simp: is_inner_def split: option.splits)

lemma decode_data:
  assumes m: "marked t es eof_code t'" and inner: "is_inner t" and codes: "codes_of t codes"
  shows "\<lbrakk>ds_node s = Some t'; ib_ok (ds_strm s);
      ib_pending (ds_strm s) = data_bits codes es data @ rest; \<forall>b \<in> set data. encodable t eof_code b;
      has_eof \<or> ds_r s + length data < dsize\<rbrakk>
    \<Longrightarrow> \<exists>n s'. (\<forall>fuel. decode_loop (Some t') has_eof dsize (n + fuel) s
              = decode_loop (Some t') has_eof dsize fuel s')
        \<and> n \<le> length (data_bits codes es data) \<and> ds_node s' = Some t' \<and> ib_ok (ds_strm s')
        \<and> ib_pending (ds_strm s') = rest \<and> ds_r s' = ds_r s + length data
        \<and> ds_out s' = map_option (\<lambda>o'. o' @ data) (ds_out s)"
proof (induction data arbitrary: s)
  case Nil
  then show ?case by (intro exI [of _ 0] exI [of _ s]) (auto simp: option.map_ident)
next
  case (Cons b data)
  from Cons.prems(4) obtain p where p: "code_of t b = Some p" and np: "eof_code \<noteq> Some p"
    using code_of_Some [of b t] by (auto simp: encodable_def)
  from m p have p': "code_of t' b = Some p" and fl: "flag_of t' b = Some (mark es eof_code p)"
    by (auto simp: marked_def)
  from codes p have cb: "map_of codes b = Some p" by (simp add: codes_of_def)
  let ?tail = "(if p \<in> fst ` set es then byte_bits b else []) @ data_bits codes es data @ rest"
  from Cons.prems(3) cb have pend: "ib_pending (ds_strm s) = p @ ?tail" by (simp add: symbol_bits_def)
  from decode_path [where root = "Some t'" and has_eof = has_eof and dsize = dsize,
      OF p' inner_code_nonempty [OF inner p] Cons.prems(1,2) pend] fl
  obtain st f where st: "ib_ok st" "ib_pending st = ?tail"
    "\<forall>fuel. decode_loop (Some t') has_eof dsize (length p + fuel) s
       = go_on (Some t') has_eof dsize fuel (decode_leaf (Some t') has_eof dsize b (mark es eof_code p)
           (s\<lparr>ds_node := Some (LeafNode f b (mark es eof_code p)), ds_strm := st\<rparr>))"
    by auto
  obtain st' where st': "ib_ok st'" "ib_pending st' = data_bits codes es data @ rest"
    and esc: "p \<in> fst ` set es \<Longrightarrow> ib_read8 st = (b, st')" and nesc: "p \<notin> fst ` set es \<Longrightarrow> st' = st"
    using st ib_read8_pending [of st b] by (cases "p \<in> fst ` set es") auto
  define s1 where "s1 = s\<lparr>ds_node := Some t', ds_strm := st', ds_r := ds_r s + 1,
      ds_out := map_option (\<lambda>o'. o' @ [b]) (ds_out s)\<rparr>"
  have "decode_leaf (Some t') has_eof dsize b (mark es eof_code p)
      (s\<lparr>ds_node := Some (LeafNode f b (mark es eof_code p)), ds_strm := st\<rparr>) = (False, s1)"
    using Cons.prems(5) np esc nesc mark_flags [of es eof_code p]
    by (auto simp: decode_leaf_def Let_def s1_def)
  with st(3) have one: "\<forall>fuel. decode_loop (Some t') has_eof dsize (length p + fuel) s
      = decode_loop (Some t') has_eof dsize fuel s1"
    by (simp add: go_on_def)
  from Cons.IH [of s1] Cons.prems(4,5) st' obtain n s'
    where n: "\<forall>fuel. decode_loop (Some t') has_eof dsize (n + fuel) s1
        = decode_loop (Some t') has_eof dsize fuel s'"
      "n \<le> length (data_bits codes es data)" "ds_node s' = Some t'" "ib_ok (ds_strm s')"
      "ib_pending (ds_strm s') = rest" "ds_r s' = ds_r s1 + length data"
      "ds_out s' = map_option (\<lambda>o'. o' @ data) (ds_out s1)"
    by (auto simp: s1_def)
  from one n(1) have "\<forall>fuel. decode_loop (Some t') has_eof dsize (length p + n + fuel) s
      = decode_loop (Some t') has_eof dsize fuel s'"
    by (metis add.assoc)
  moreover have "length p + n \<le> length (data_bits codes es (b # data))"
    using n(2) cb by (simp add: symbol_bits_def)
  ultimately show ?case
    using n by (intro exI [of _ "length p + n"] exI [of _ s']) (auto simp: s1_def option.map_comp comp_def)
qed

lemma decode_loop_mono:
  "decode_loop root has_eof dsize n s = Some r \<Longrightarrow> decode_loop root has_eof dsize (n + k) s = Some r"
  by (induction n arbitrary: s) (auto simp: decode_loop_Suc go_on_def)

text \<open>
  After the data, the code of a symbol at which the loop stops: the end symbol, or any
  symbol when the size is reached.
\<close>

lemma decode_data_stop:
  assumes m: "marked t es eof_code t'" and inner: "is_inner t" and codes: "codes_of t codes"
    and s: "ds_node s = Some t'" "ib_ok (ds_strm s)"
      "ib_pending (ds_strm s) = data_bits codes es data @ p @ rest"
    and enc: "\<forall>b \<in> set data. encodable t eof_code b" and p: "code_of t c = Some p"
    and go: "has_eof \<or> ds_r s + length data < dsize"
    and stop: "has_eof \<and> eof_code = Some p \<or> \<not> has_eof \<and> dsize = ds_r s + length data + 1"
    and fuel: "length (data_bits codes es data) + length p \<le> fuel"
  shows "\<exists>s'. decode_loop (Some t') has_eof dsize fuel s = Some s'
    \<and> ds_r s' = ds_r s + length data + 1 \<and> ds_out s' = map_option (\<lambda>o'. o' @ data) (ds_out s)"
proof -
  from decode_data [OF m inner codes s enc go] obtain n s1
    where n: "\<forall>fuel. decode_loop (Some t') has_eof dsize (n + fuel) s
        = decode_loop (Some t') has_eof dsize fuel s1"
      "n \<le> length (data_bits codes es data)" "ds_node s1 = Some t'" "ib_ok (ds_strm s1)"
      "ib_pending (ds_strm s1) = p @ rest" "ds_r s1 = ds_r s + length data"
      "ds_out s1 = map_option (\<lambda>o'. o' @ data) (ds_out s)"
    by blast
  from m p have p': "code_of t' c = Some p" and fl: "flag_of t' c = Some (mark es eof_code p)"
    by (auto simp: marked_def)
  from decode_path [where root = "Some t'" and has_eof = has_eof and dsize = dsize,
      OF p' inner_code_nonempty [OF inner p] n(3,4,5)] fl
  obtain st f where st: "\<forall>fuel. decode_loop (Some t') has_eof dsize (length p + fuel) s1
       = go_on (Some t') has_eof dsize fuel (decode_leaf (Some t') has_eof dsize c (mark es eof_code p)
           (s1\<lparr>ds_node := Some (LeafNode f c (mark es eof_code p)), ds_strm := st\<rparr>))"
    by auto
  define s2 where "s2 = s1\<lparr>ds_node := Some (LeafNode f c (mark es eof_code p)), ds_strm := st,
      ds_r := ds_r s1 + 1\<rparr>"
  have "decode_leaf (Some t') has_eof dsize c (mark es eof_code p)
      (s1\<lparr>ds_node := Some (LeafNode f c (mark es eof_code p)), ds_strm := st\<rparr>) = (True, s2)"
    using stop n(6) mark_flags [of es eof_code p] by (auto simp: decode_leaf_def Let_def s2_def)
  with st have "\<forall>fuel. decode_loop (Some t') has_eof dsize (length p + fuel) s1 = Some s2"
    by (simp add: go_on_def)
  with n(1) have "decode_loop (Some t') has_eof dsize (n + (length p + 0)) s = Some s2" by metis
  from decode_loop_mono [OF this, of "fuel - (n + length p)"] n(2) fuel
  have "decode_loop (Some t') has_eof dsize fuel s = Some s2" by simp
  with n(6,7) show ?thesis by (simp add: s2_def)
qed

subsection \<open>Whole packets\<close>

lemma byte_bits_inj: "byte_bits a = byte_bits b \<Longrightarrow> a = b"
proof (rule bit_eqI)
  fix i
  assume e: "byte_bits a = byte_bits b"
  show "bit a i = bit b i"
  proof (cases "i < 8")
    case True
    with e nth_byte_bits [of i a] nth_byte_bits [of i b] show ?thesis by simp
  qed (auto dest: bit_imp_le_length)
qed

lemma bits_of_bytes_split:
  "bits_of_bytes xs = bits_of_bytes as @ cs \<Longrightarrow> \<exists>bs. xs = as @ bs \<and> bits_of_bytes bs = cs"
proof (induction as arbitrary: xs)
  case (Cons a as)
  then obtain x xs' where xs: "xs = x # xs'" by (cases xs) (auto simp: byte_bits_def)
  with Cons.prems have "byte_bits x = byte_bits a" "bits_of_bytes xs' = bits_of_bytes as @ cs" by auto
  with Cons.IH [of xs'] xs byte_bits_inj show ?case by auto
qed simp

lemma compress_buffer_tail:
  assumes "\<forall>b \<in> set data. b \<in> dom (map_of codes)" and "full_bytes es"
    and bs: "bs = packed_bits codes es eof_code data"
  shows "\<exists>packed. compress_buffer strm codes es eof_code data
      = Inr (of_nat (length bs), strm @ packed, data)
    \<and> bits_of_bytes packed = bs @ pad_bits (length bs)"
  using compress_buffer_bits [OF assms, of strm] bits_of_bytes_split by fastforce

text \<open>What a tree needs to serve as the code of a packet.\<close>

definition coder :: "node \<Rightarrow> codemap \<Rightarrow> codensize list \<Rightarrow> huffcode option \<Rightarrow> bool" where
  "coder t codes es eof_code =
     (distinct (leaf_chars t) \<and> fresh t \<and> is_inner t \<and> codes_of t codes \<and> full_bytes es
      \<and> codes_in es t \<and> (\<forall>p. eof_code = Some p \<longrightarrow> (\<exists>c. code_of t c = Some p)))"

lemma encodable_dom: "codes_of t codes \<Longrightarrow> encodable t eof_code b \<Longrightarrow> b \<in> dom (map_of codes)"
  using code_of_Some [of b t] by (auto simp: codes_of_def encodable_def)

lemma codec_eof:
  assumes cd: "coder t codes es (Some ec)" and off: "nat off \<le> length data"
    and enc: "\<forall>b \<in> set (drop (nat off) data). encodable t (Some ec) b" and mode: "mode \<noteq> 2"
  shows "\<exists>n packed root'. compress (Some []) codes es (Some ec) off data = Inr (n, Some packed, data)
    \<and> (\<forall>fuel \<ge> 8 * length packed.
         decompress fuel True junk mode (Some []) (Some t) es (Some ec) force off packed
           = Inr (Some (length data + 1, Some data, root')))"
proof -
  let ?k = "nat off"
  define bs where "bs = packed_bits codes es (Some ec) (drop ?k data)"
  from cd have parts: "distinct (leaf_chars t)" "fresh t" "is_inner t" "codes_of t codes"
      "full_bytes es" "codes_in es t"
    by (auto simp: coder_def)
  from cd obtain e where e: "code_of t e = Some ec" by (auto simp: coder_def)
  from set_flags_marked [OF parts(1,2,6), of "Some ec"] e obtain t'
    where t': "set_flags es (Some ec) (Some t) = Some t'" "marked t es (Some ec) t'" by auto
  from enc parts(4) have "\<forall>b \<in> set (drop ?k data). b \<in> dom (map_of codes)"
    using encodable_dom by blast
  from compress_buffer_tail [OF this parts(5) bs_def, of "take ?k data"] obtain tail
    where c: "compress_buffer (take ?k data) codes es (Some ec) (drop ?k data)
        = Inr (of_nat (length bs), take ?k data @ tail, drop ?k data)"
      and tl: "bits_of_bytes tail = bs @ pad_bits (length bs)" by blast
  let ?s = "\<lparr>ds_node = Some t', ds_strm = ib_open True junk tail, ds_out = Some (take ?k data), ds_r = 0\<rparr>"
  have len: "length (bits_of_bytes tail) = length bs + length (pad_bits (length bs))" by (simp add: tl)
  have loop: "\<exists>s'. decode_loop (Some t') True dsize fuel ?s = Some s'
      \<and> ds_r s' = length (drop ?k data) + 1 \<and> ds_out s' = Some (take ?k data @ drop ?k data)"
    if fuel: "8 * length tail \<le> fuel" for fuel dsize
  proof -
    have le: "length (data_bits codes es (drop ?k data)) + length ec \<le> fuel"
      using len fuel by (simp add: bs_def packed_bits_def eof_bits_def)
    from decode_data_stop [OF t'(2) parts(3,4), where s = ?s and p = ec and c = e and has_eof = True
        and data = "drop ?k data" and dsize = dsize and fuel = fuel and rest = "pad_bits (length bs)"]
    show ?thesis using tl enc e le by (simp add: bs_def packed_bits_def eof_bits_def)
  qed
  have "compress (Some []) codes es (Some ec) off data
      = Inr (of_nat ?k + of_nat (length bs), Some (take ?k data @ tail), data)"
    using c off by (simp add: compress_def packet_header_def Let_def)
  moreover have "decompress fuel True junk mode (Some []) (Some t) es (Some ec) force off (take ?k data @ tail)
      = Inr (Some (length data + 1, Some data, Some t'))"
    if "8 * length (take ?k data @ tail) \<le> fuel" for fuel
  proof -
    from that have le: "8 * length tail \<le> fuel" by simp
    define sz :: u64 where "sz = (if 0 < force then of_int force else 0)"
    have "original_size force (Some ec) (take ?k data @ tail) = Inr (sz, 0)"
      by (simp add: original_size_def sz_def)
    moreover from loop [OF le, of "unat sz"] obtain s' where
      "decode_loop (Some t') True (unat sz) fuel ?s = Some s'"
      "ds_r s' = length (drop ?k data) + 1" "ds_out s' = Some data" by auto
    ultimately show ?thesis
      using off mode t'(1)
      by (simp add: decompress_def decompress_buffer_def decompress_stream_def Let_def)
  qed
  ultimately show ?thesis by blast
qed

text \<open>With a length descriptor the loop stops at the last symbol, before it is written.\<close>

lemma codec_length:
  assumes cd: "coder t codes es None" and ne: "data \<noteq> []" and len28: "length data < 2 ^ 28"
    and enc: "\<forall>b \<in> set data. encodable t None b" and mode: "mode \<noteq> 2"
  shows "\<exists>n packed root'. compress (Some []) codes es None 0 data = Inr (n, Some packed, data)
    \<and> (\<forall>fuel \<ge> 8 * length packed.
         decompress fuel True junk mode (Some []) (Some t) es None 0 0 packed
           = Inr (Some (length data, Some (butlast data), root')))"
proof -
  let ?v = "of_nat (length data) :: u64"
  define bs where "bs = packed_bits codes es None data"
  from cd have parts: "distinct (leaf_chars t)" "fresh t" "is_inner t" "codes_of t codes"
      "full_bytes es" "codes_in es t"
    by (auto simp: coder_def)
  from set_flags_marked [OF parts(1,2,6), of None] obtain t'
    where t': "set_flags es None (Some t) = Some t'" "marked t es None t'" by auto
  from enc parts(4) have "\<forall>b \<in> set data. b \<in> dom (map_of codes)"
    using encodable_dom by blast
  from compress_buffer_tail [OF this parts(5) bs_def, of "encodeVarint ?v"] obtain tail
    where c: "compress_buffer (encodeVarint ?v) codes es None data
        = Inr (of_nat (length bs), encodeVarint ?v @ tail, data)"
      and tl: "bits_of_bytes tail = bs @ pad_bits (length bs)" by blast
  have v: "unat ?v = length data" using len28 by (simp add: unat_of_nat take_bit_nat_eq_self)
  have head: "write_header [] ?v = Inr (encodeVarint ?v, length (encodeVarint ?v))"
    using write_varint_ok [of ?v "[]"] v len28 by (simp add: write_header_def)
  define x d where "x = last data" and "d = butlast data"
  have data: "data = d @ [x]" using ne by (simp add: x_def d_def)
  from enc data obtain p where p: "code_of t x = Some p"
    using code_of_Some [of x t] by (auto simp: encodable_def)
  with parts(4) have mp: "map_of codes x = Some p" by (simp add: codes_of_def)
  let ?more = "(if p \<in> fst ` set es then byte_bits x else []) @ pad_bits (length bs)"
  have bs: "bits_of_bytes tail = data_bits codes es d @ p @ ?more"
    using tl mp by (simp add: bs_def packed_bits_def eof_bits_def data data_bits_def symbol_bits_def)
  have "length (bits_of_bytes tail) = 8 * length tail" by simp
  then have len: "length (data_bits codes es d) + length p \<le> 8 * length tail" unfolding bs by simp
  let ?s = "\<lparr>ds_node = Some t', ds_strm = ib_open True junk tail, ds_out = Some [], ds_r = 0\<rparr>"
  have loop: "\<exists>s'. decode_loop (Some t') False (length data) fuel ?s = Some s'
      \<and> ds_r s' = length data \<and> ds_out s' = Some d"
    if "8 * length tail \<le> fuel" for fuel
  proof -
    from decode_data_stop [OF t'(2) parts(3,4), where s = ?s and p = p and c = x and has_eof = False
        and data = d and dsize = "length data" and fuel = fuel and rest = ?more]
    show ?thesis using bs enc p len that by (simp add: data)
  qed
  have "compress (Some []) codes es None 0 data
      = Inr (of_nat (length (encodeVarint ?v)) + of_nat (length bs), Some (encodeVarint ?v @ tail), data)"
    using c by (simp add: compress_def packet_header_def head)
  moreover have "decompress fuel True junk mode (Some []) (Some t) es None 0 0 (encodeVarint ?v @ tail)
      = Inr (Some (length data, Some d, Some t'))"
    if "8 * length (encodeVarint ?v @ tail) \<le> fuel" for fuel
  proof -
    from that have le: "8 * length tail \<le> fuel" by simp
    have "original_size 0 None (encodeVarint ?v @ tail) = Inr (?v, length (encodeVarint ?v))"
      using get_varint_encode [of ?v tail] v len28 by (simp add: original_size_def)
    with loop [OF le] mode t'(1) show ?thesis
      by (auto simp: decompress_def decompress_buffer_def decompress_stream_def Let_def v)
  qed
  ultimately show ?thesis unfolding d_def by blast
qed

subsection \<open>When the loop does not end\<close>

lemma decode_stuck: "ds_node s = None \<Longrightarrow> decode_loop root has_eof dsize fuel s = None"
proof (induction fuel arbitrary: s)
  case (Suc fuel)
  then show ?case
    by (auto simp: decode_loop_Suc decode_step_def move_def go_on_def split: prod.splits)
qed simp

text \<open>How many more bits the stream can deliver.\<close>

definition bits_left :: "ibitstream \<Rightarrow> nat" where
  "bits_left s = (8 - ib_count s) + (if ib_eof s then 0 else 8 * length (ib_strm s) + 8)"

definition ib_wf :: "ibitstream \<Rightarrow> bool" where
  "ib_wf s = (ib_count s \<le> 8)"

lemma ib_read_left:
  assumes "ib_wf s" and "ib_read s = (b, s')"
  shows "ib_wf s' \<and> bits_left s' \<le> bits_left s \<and> (b = - 1 \<or> bits_left s' < bits_left s)"
  using assms
  by (cases "ib_strm s")
     (auto simp: ib_read_def has_bit_def read_buffer_def take_bit1_def bits_left_def ib_wf_def
        split: if_splits prod.splits bool.splits)

lemma read8_left:
  "ib_wf s \<Longrightarrow> read8_from i n s r = (v, s') \<Longrightarrow> ib_wf s' \<and> bits_left s' \<le> bits_left s"
proof (induction i n s r rule: read8_from.induct)
  case (2 i n s r)
  obtain b s1 where b: "ib_read s = (b, s1)" by fastforce
  from ib_read_left [OF "2.prems"(1) this] have s1: "ib_wf s1" "bits_left s1 \<le> bits_left s" by auto
  have "read8_from (Suc i) n s1 (if b = 1 then r OR push_bit i 1 else r) = (v, s')"
    using "2.prems"(2) b by simp
  from "2.IH" [OF b [symmetric] s1(1) this] s1(2) show ?case by simp
qed simp

lemma decode_leaf_left:
  assumes "ib_wf (ds_strm s)" and "decode_leaf root has_eof dsize c v s = (stop, s')"
  shows "ib_wf (ds_strm s') \<and> bits_left (ds_strm s') \<le> bits_left (ds_strm s)"
  using assms read8_left [of "ds_strm s" 0 8 0]
  by (auto simp: decode_leaf_def Let_def ib_read8_def split: if_splits prod.splits)

lemma decode_step_left:
  assumes "ib_wf (ds_strm s)" and "decode_step root has_eof dsize s = (False, s')"
  shows "ds_node s' = None
    \<or> ib_wf (ds_strm s') \<and> bits_left (ds_strm s') < bits_left (ds_strm s)"
proof -
  obtain b st where b: "ib_read (ds_strm s) = (b, st)" by fastforce
  note left = ib_read_left [OF assms(1) b]
  show ?thesis
  proof (cases "move b (ds_node s)")
    case None
    with b assms(2) show ?thesis by (auto simp: decode_step_def)
  next
    case (Some n)
    then have lt: "bits_left st < bits_left (ds_strm s)"
      using left by (auto simp: move_def split: option.splits)
    show ?thesis
    proof (cases n)
      case (LeafNode f c v)
      with assms(2) b Some have
        "decode_leaf root has_eof dsize c v (s\<lparr>ds_node := Some n, ds_strm := st\<rparr>) = (False, s')"
        by (simp add: decode_step_def)
      from decode_leaf_left [OF _ this] left lt show ?thesis by auto
    qed (use assms(2) b Some left lt in \<open>auto simp: decode_step_def\<close>)
  qed
qed

text \<open>Every round that does not lose the tree reads a bit, so few rounds decide.\<close>

lemma decode_loop_bound:
  assumes "ib_wf (ds_strm s)" and "bits_left (ds_strm s) < n"
    and "decode_loop root has_eof dsize n s = None"
  shows "decode_loop root has_eof dsize fuel s = None"
  using assms
proof (induction n arbitrary: s fuel)
  case (Suc n)
  show ?case
  proof (cases fuel)
    case fuel: (Suc m)
    obtain s' where st: "decode_step root has_eof dsize s = (False, s')"
        and lp: "decode_loop root has_eof dsize n s' = None"
      using Suc.prems(3)
      by (cases "decode_step root has_eof dsize s") (auto simp: decode_loop_Suc go_on_def split: if_splits)
    from decode_step_left [OF Suc.prems(1) st] have "decode_loop root has_eof dsize m s' = None"
    proof
      assume "ib_wf (ds_strm s') \<and> bits_left (ds_strm s') < bits_left (ds_strm s)"
      with Suc.prems(2) show ?thesis by (intro Suc.IH [OF _ _ lp]) auto
    qed (rule decode_stuck)
    with st show ?thesis by (simp add: fuel decode_loop_Suc go_on_def)
  qed simp
qed simp

lemma ib_open_left: "ib_wf (ib_open ret junk strm)" "bits_left (ib_open ret junk strm) = 8 * length strm + 8"
  by (simp_all add: ib_wf_def ib_open_def bits_left_def)

lemma decompress_stream_bound:
  assumes none: "decompress_stream n ret junk mode retval root es eof_code input dsize = Inr None"
    and n: "8 * length input + 8 < n"
  shows "decompress_stream fuel ret junk mode retval root es eof_code input dsize = Inr None"
proof -
  define start where "start = (if mode = 2
        then bindR (dec_hafman ([0x31, 0x32] @ input @ [0]) (of_nat (dsize + 2)))
               (\<lambda>(b_out, sz).
                 if 2 < sz then
                   (case retval of
                      None \<Rightarrow> Inl NullPointer
                    | Some strm \<Rightarrow> Inr (Some (strm @ take (unat sz - 2) b_out), []))
                 else Inr (retval, []))
        else Inr (retval, input))"
  have eq: "decompress_stream m ret junk mode retval root es eof_code input dsize
    = bindR start (\<lambda>(out, rest).
         let root' = set_flags es eof_code root
         in Inr (map_option (\<lambda>s. (ds_r s, ds_out s, root'))
                  (decode_loop root' (eof_code \<noteq> None) dsize m
                    \<lparr>ds_node = root', ds_strm = ib_open ret junk rest, ds_out = out, ds_r = 0\<rparr>)))" for m
    by (simp only: decompress_stream_def start_def)
  from none obtain out rest where st: "start = Inr (out, rest)" by (auto simp: eq)
  then have "length rest \<le> length input"
    by (auto simp: start_def split: if_splits option.splits prod.splits)
  with none n st show ?thesis
    by (auto simp: eq Let_def ib_open_left intro!: decode_loop_bound [where n = n])
qed

lemma decompress_bound:
  assumes none: "decompress n ret junk mode retval root es eof_code force off data = Inr None"
    and n: "8 * length data + 8 < n"
  shows "decompress fuel ret junk mode retval root es eof_code force off data = Inr None"
proof -
  obtain sz l where sz: "original_size force eof_code data = Inr (sz, l)"
    using none by (auto simp: decompress_def)
  have "8 * length (drop (nat off) (drop l data)) + 8 < n" using n by simp
  from decompress_stream_bound [OF _ this] none sz show ?thesis
    by (auto simp: decompress_def decompress_buffer_def Let_def split: if_splits option.splits)
qed

lemma set_escape_flags_None: "set_escape_flags es None = None"
  by (induction es) (auto simp: set_code_flag_def find_code_def)

lemma decompress_no_tree:
  assumes "decompress fuel ret junk mode retval None es eof_code force off data = Inr r"
  shows "r = None"
proof -
  have "set_flags es eof_code None = None"
    by (auto simp: set_flags_def set_escape_flags_None set_code_flag_def find_code_def split: option.splits)
  then have "decompress_stream fuel ret junk mode out None es eof_code input dsize = Inr q \<Longrightarrow> q = None"
    for out input dsize q
    by (auto simp: decompress_stream_def decode_stuck)
  with assms show ?thesis
    by (auto simp: decompress_def decompress_buffer_def Let_def split: if_splits option.splits)
qed

text \<open>Without the success report of read_buffer no bit ever arrives.\<close>

lemma decode_no_report:
  assumes "\<not> ib_ret (ds_strm s)" and "\<not> ib_count (ds_strm s) < 8"
  shows "decode_loop root has_eof dsize fuel s = None"
proof (cases fuel)
  case (Suc n)
  have "fst (ib_read (ds_strm s)) = - 1"
    using assms by (auto simp: ib_read_def has_bit_def read_buffer_def split: list.splits)
  then have "decode_step root has_eof dsize s = (False, s\<lparr>ds_node := None, ds_strm := snd (ib_read (ds_strm s))\<rparr>)"
    by (auto simp: decode_step_def move_def split: prod.splits option.splits)
  with Suc show ?thesis by (simp add: decode_loop_Suc go_on_def decode_stuck)
qed simp

subsection \<open>The bit-table decoder\<close>

lemma dec_hafman_result: "dec_hafman buff len = Inr (out, n) \<Longrightarrow> n \<le> 2 \<and> length out = 2"
  by (auto simp: dec_hafman_def Let_def split: if_splits)

subsection \<open>Bytes without a code\<close>

lemma unat_half: "unat (drop_bit (Suc 0) v) = unat v div 2" for v :: byte
  by (simp add: unat_drop_bit_eq drop_bit_eq_div [where 'a = nat])

lemma bits_loop_log: "2 ^ k \<le> unat v \<Longrightarrow> unat v < 2 ^ Suc k \<Longrightarrow> bits_loop v r = (r + k, 0)"
proof (induction k arbitrary: v r)
  case 0
  then have "unat (drop_bit (Suc 0) v) = 0" by (simp add: unat_half)
  then have "drop_bit (Suc 0) v = 0" by (simp add: unat_eq_0)
  then show ?case by (subst bits_loop.simps) simp
next
  case (Suc k)
  have "2 ^ k \<le> unat (drop_bit (Suc 0) v)" "unat (drop_bit (Suc 0) v) < 2 ^ Suc k"
    using Suc.prems by (simp_all add: unat_half)
  moreover then have "drop_bit (Suc 0) v \<noteq> 0" by auto
  ultimately show ?case using Suc.IH [of "drop_bit (Suc 0) v" "r + 1"] by (subst bits_loop.simps) simp
qed

lemma bits_loop_zero: "snd (bits_loop v r) = 0"
  by (induction v r rule: bits_loop.induct) (subst bits_loop.simps, simp add: Let_def)

lemma byte_log: "v \<noteq> 0 \<Longrightarrow> \<exists>k \<le> 7. 2 ^ k \<le> unat v \<and> unat v < 2 ^ Suc k" for v :: byte
proof -
  assume "v \<noteq> 0"
  then have "0 < unat v" by (simp add: unat_gt_0)
  from ex_power_ivl1 [of 2 "unat v"] this obtain k where k: "2 ^ k \<le> unat v" "unat v < 2 ^ (k + 1)" by auto
  have "unat v < 2 ^ 8" using unsigned_less [of v, where 'a = nat] by simp
  with k(1) have "(2::nat) ^ k < 2 ^ 8" by linarith
  then have "k < 8" by (rule power_less_imp_less_exp [rotated]) simp
  then have "k \<le> 7" by simp
  with k show ?thesis by auto
qed

lemma bitsRequired_small:
  assumes "unat v \<le> 1"
  shows "bitsRequired v = (0, 0)"
proof (cases "v = 0")
  case False
  then have "0 < unat v" by (simp add: unat_gt_0)
  with assms bits_loop_log [of 0 v 0] show ?thesis by (simp add: bitsRequired_def)
qed (simp add: bitsRequired_def bits_loop.simps [of 0])

lemma bitsRequired_big: "2 \<le> unat v \<Longrightarrow> \<exists>k. 1 \<le> k \<and> k \<le> 7 \<and> bitsRequired v = (k, 0)"
proof -
  assume two: "2 \<le> unat v"
  then have "v \<noteq> 0" by auto
  then obtain k where k: "k \<le> 7" "2 ^ k \<le> unat v" "unat v < 2 ^ Suc k" using byte_log by blast
  with two have "1 \<le> k" by (cases k) auto
  with k bits_loop_log [of k v 0] show ?thesis by (auto simp: bitsRequired_def)
qed

lemma byte_bits_0 [simp]: "byte_bits 0 = replicate 8 False"
  by code_simp

lemma compress_unmapped:
  assumes "map_of codes b = None"
  shows "if unat b < 2 then compress_buffer strm codes [(esc, 8)] eof_code [b] = Inr (- 1, strm, [0])
    else \<exists>packed. compress_buffer strm codes [(esc, 8)] eof_code [b]
          = Inr (of_nat (length esc) + 8 + of_nat (length (eof_bits eof_code)), packed, [0])
        \<and> (\<exists>n. bits_of_bytes packed = bits_of_bytes strm @ esc @ replicate 8 False @ eof_bits eof_code
            @ replicate n False)"
proof (cases "unat b < 2")
  case True
  then show ?thesis using assms bitsRequired_small [of b]
    by (simp add: compress_buffer_def findShortestHuffCodeNSize_def ob_flush_def ob_open_def)
next
  case False
  then obtain k where "1 \<le> k" "k \<le> 7" "bitsRequired b = (k, 0)" using bitsRequired_big [of b] by auto
  then have fs: "findShortestHuffCodeNSize [(esc, 8)] b = (Some (esc, 8), 0)"
    by (simp add: findShortestHuffCodeNSize_def)
  let ?s = "ob_write_bits (ob_write_bits (ob_write_bits (ob_open strm) esc) (byte_bits 0)) (eof_bits eof_code)"
  have ok: "ob_ok ?s" and w: "ob_written ?s = bits_of_bytes strm @ esc @ replicate 8 False @ eof_bits eof_code"
    by (simp_all add: ob_write_bits_sink)
  have "compress_buffer strm codes [(esc, 8)] eof_code [b]
    = Inr (of_nat (length esc) + 8 + of_nat (length (eof_bits eof_code)), ob_strm (ob_flush ?s), [0])"
    using assms fs
    by (cases eof_code) (simp_all add: compress_buffer_def ob_write_int_8 eof_bits_def)
  moreover from ob_flush_written [OF ok] w
  have "\<exists>n. bits_of_bytes (ob_strm (ob_flush ?s)) = bits_of_bytes strm @ esc @ replicate 8 False
      @ eof_bits eof_code @ replicate n False"
    by (auto simp: pad_bits_def)
  ultimately show ?thesis using False by auto
qed


subsection \<open>Properties\<close>

text \<open>
  C23: A packet compressed with an end symbol is decompressed to the same bytes: for a
  tree built from frequencies, the codes generated from it, eight-bit escape codes and
  any compression offset inside the packet, the compressor succeeds without changing its
  input, and the bit-by-bit decoder returns the whole packet (the count includes the end
  symbol) with as many rounds as the packet has bits. The decoder reads bits only where
  read_buffer, which has no return statement behind the read, happens to return true; the
  \<open>True\<close> among the arguments of the decoder is this value.
\<close>

theorem huffman_roundtrip_eof:
  assumes "buildTree frequencies = Some t" and "length frequencies \<le> 256" and "is_inner t"
    and "codes = generateCodes [] (Some t) []"
    and "full_bytes es" and "codes_in es t" and "code_of t e = Some eof_code"
    and "nat offset \<le> length data"
    and "\<forall>b \<in> set (drop (nat offset) data). b \<in> set (leaf_chars t) \<and> b \<noteq> e" and "mode \<noteq> 2"
  shows "\<exists>n packed root'.
    compress (Some []) codes es (Some eof_code) offset data = Inr (n, Some packed, data)
    \<and> (\<forall>fuel \<ge> 8 * length packed.
         decompress fuel True junk mode (Some []) (Some t) es (Some eof_code) force_size offset packed
           = Inr (Some (length data + 1, Some data, root')))"
proof (rule codec_eof)
  have d: "distinct (leaf_chars t)" using assms(1,2) by (rule buildTree_distinct)
  show "coder t codes es (Some eof_code)"
    using d buildTree_fresh [OF assms(1)] generateCodes_code_of [OF d] assms(3-7)
    by (auto simp: coder_def codes_of_def)
  show "\<forall>b \<in> set (drop (nat offset) data). encodable t (Some eof_code) b"
    using assms(7,9) by (auto simp: encodable_def dest: code_of_inj)
qed (use assms in auto)

theorem huffman_roundtrip_eof_witness:
  "\<exists>n packed root'.
    compress (Some []) (generateCodes [] (Some (InternalNode 4 (LeafNode 2 2 0)
        (InternalNode 2 (LeafNode 1 0 0) (LeafNode 1 1 0)))) []) [([True, True], 8)] (Some [False]) 1 [9, 0, 1, 0]
      = Inr (n, Some packed, [9, 0, 1, 0])
    \<and> decompress (8 * length packed) True 0 0 (Some []) (Some (InternalNode 4 (LeafNode 2 2 0)
        (InternalNode 2 (LeafNode 1 0 0) (LeafNode 1 1 0)))) [([True, True], 8)] (Some [False]) 0 1 packed
           = Inr (Some (5, Some [9, 0, 1, 0], root'))"
proof -
  let ?t = "InternalNode 4 (LeafNode 2 2 0) (InternalNode 2 (LeafNode 1 0 0) (LeafNode 1 1 0))"
  have t: "buildTree [1, 1, 2] = Some ?t" by code_simp
  have es: "full_bytes [([True, True], 8)]" "codes_in [([True, True], 8)] ?t" "code_of ?t 2 = Some [False]"
    by (auto simp: full_bytes_def codes_in_def intro!: exI [of _ 1])
  have "\<forall>b \<in> set (drop (nat 1) [9, 0, 1, 0 :: byte]). b \<in> set (leaf_chars ?t) \<and> b \<noteq> 2" by simp
  from huffman_roundtrip_eof [OF t _ _ refl es _ this, where mode = 0 and junk = 0 and force_size = 0]
  show ?thesis by (auto simp: is_inner_def)
qed

text \<open>
  With a length descriptor instead of an end symbol the last byte of every packet is
  lost: the decoder counts the last symbol and leaves the loop before writing it.
\<close>

theorem huffman_length_mode_loses_last_byte:
  assumes "buildTree frequencies = Some t" and "length frequencies \<le> 256" and "is_inner t"
    and "codes = generateCodes [] (Some t) []" and "full_bytes es" and "codes_in es t"
    and "data \<noteq> []" and "length data < 2 ^ 28" and "set data \<subseteq> set (leaf_chars t)" and "mode \<noteq> 2"
  shows "\<exists>n packed root'.
    compress (Some []) codes es None 0 data = Inr (n, Some packed, data)
    \<and> (\<forall>fuel \<ge> 8 * length packed.
         decompress fuel True junk mode (Some []) (Some t) es None 0 0 packed
           = Inr (Some (length data, Some (butlast data), root')))"
proof (rule codec_length)
  have d: "distinct (leaf_chars t)" using assms(1,2) by (rule buildTree_distinct)
  show "coder t codes es None"
    using d buildTree_fresh [OF assms(1)] generateCodes_code_of [OF d] assms(3-6)
    by (auto simp: coder_def codes_of_def)
  show "\<forall>b \<in> set data. encodable t None b"
    using assms(9) code_of_None_iff [of t] by (auto simp: encodable_def)
qed (use assms in auto)

theorem huffman_length_mode_loses_last_byte_witness:
  "\<exists>n packed root'.
    compress (Some []) [(0, [False]), (1, [True])] [] None 0 [0, 1, 1] = Inr (n, Some packed, [0, 1, 1])
    \<and> decompress (8 * length packed) True 0 0 (Some [])
        (Some (InternalNode 4 (LeafNode 1 0 0) (LeafNode 3 1 0))) [] None 0 0 packed
      = Inr (Some (3, Some [0, 1], root'))"
proof -
  let ?t = "InternalNode 4 (LeafNode 1 0 0) (LeafNode 3 1 0)"
  have t: "buildTree [1, 3] = Some ?t" by code_simp
  have c: "[(0, [False]), (1, [True])] = generateCodes [] (Some ?t) []" by code_simp
  from huffman_length_mode_loses_last_byte [OF t _ _ c, where es = "[]" and data = "[0, 1, 1]" and mode = 0
      and junk = 0]
  show ?thesis by (auto simp: is_inner_def full_bytes_def codes_in_def)
qed

text \<open>
  The size that compress_buffer_calc_only predicts is the size compress_buffer
  returns, and both leave the input in the same state, when all escape codes are for
  full bytes; compress_buffer then never leaves defined behaviour.
\<close>

theorem calc_only_agrees:
  assumes "full_bytes es"
  shows "\<exists>packed. compress_buffer strm codes es eof_code data
    = Inr (fst (compress_buffer_calc_only codes es eof_code data), packed,
           snd (compress_buffer_calc_only codes es eof_code data))"
  using assms by (rule calc_only_compress)

theorem calc_only_agrees_witness:
  "\<exists>packed. compress_buffer [] [(0, [False]), (1, [True])] [([True], 8)] None [0, 1, 7]
    = Inr (fst (compress_buffer_calc_only [(0, [False]), (1, [True])] [([True], 8)] None [0, 1, 7]), packed,
           snd (compress_buffer_calc_only [(0, [False]), (1, [True])] [([True], 8)] None [0, 1, 7]))"
  by (rule calc_only_agrees) (simp add: full_bytes_def)

text \<open>
  A byte that has no code is lost. bitsRequired shifts the byte itself down to zero,
  so behind the escape code eight zero bits are written and the input buffer is
  overwritten; the bytes 0 and 1 find no escape code at all and make the call fail.
\<close>

theorem unmapped_byte_is_lost:
  assumes "map_of codes b = None"
  shows "if unat b < 2 then compress_buffer strm codes [(esc, 8)] eof_code [b] = Inr (- 1, strm, [0])
    else \<exists>packed. compress_buffer strm codes [(esc, 8)] eof_code [b]
          = Inr (of_nat (length esc) + 8 + of_nat (length (eof_bits eof_code)), packed, [0])
        \<and> (\<exists>n. bits_of_bytes packed = bits_of_bytes strm @ esc @ replicate 8 False @ eof_bits eof_code
            @ replicate n False)"
  using assms by (rule compress_unmapped)

theorem unmapped_byte_is_lost_witness:
  "compress_buffer [] [] [([True], 8)] None [1] = Inr (- 1, [], [0])
   \<and> (\<exists>packed. compress_buffer [] [] [([True], 8)] None [200] = Inr (9, packed, [0]))"
proof -
  have u: "unat (1 :: byte) < 2" "\<not> unat (200 :: byte) < 2" by simp_all
  from unmapped_byte_is_lost [of "[]" 1 "[]" "[True]" None] unmapped_byte_is_lost [of "[]" 200 "[]" "[True]" None] u
  show ?thesis by (auto simp: eof_bits_def)
qed

text \<open>
  C34: Decompression is decided by the number of bits of the packet: a run that has not
  come back after eight rounds per byte and eight more never comes back.
\<close>

theorem decompress_returns_early_or_never:
  assumes "decompress n ret junk mode retval root es eof_code force_size offset data = Inr None"
    and "8 * length data + 8 < n"
  shows "\<forall>fuel. decompress fuel ret junk mode retval root es eof_code force_size offset data = Inr None"
  using decompress_bound [OF assms] by blast

theorem decompress_returns_early_or_never_witness:
  "\<forall>fuel. decompress fuel True 0 0 (Some []) (Some (InternalNode 4 (LeafNode 1 0 0) (LeafNode 3 1 0)))
     [] (Some [False, False]) 0 0 [255] = Inr None"
proof -
  have "decompress 17 True 0 0 (Some []) (Some (InternalNode 4 (LeafNode 1 0 0) (LeafNode 3 1 0)))
     [] (Some [False, False]) 0 0 [255] = Inr None"
    by code_simp
  from decompress_returns_early_or_never [OF this] show ?thesis by simp
qed

text \<open>
  Without a tree, as decompress2 has with an empty code map, decompression never
  comes back, whatever the packet.
\<close>

theorem decompress_without_tree_hangs:
  assumes "decompress2 fuel ret junk mode retval [] es eof_code force_size offset data = Inr r"
  shows "r = None"
proof -
  have "buildTreeFromCodes [] = None" by (simp add: buildTreeFromCodes_def merge_queue_def)
  with assms show ?thesis by (auto simp: decompress2_def intro: decompress_no_tree)
qed

theorem decompress_without_tree_hangs_witness:
  "decompress2 20 True 0 0 (Some []) [] [] (Some [True]) 0 0 [1] = Inr None"
proof -
  have "\<exists>r. decompress2 20 True 0 0 (Some []) [] [] (Some [True]) 0 0 [1] = Inr r"
    by (simp add: decompress2_def decompress_def original_size_def decompress_buffer_def
        decompress_stream_def Let_def)
  then show ?thesis using decompress_without_tree_hangs by blast
qed

text \<open>
  The table decoder of mode 2 copies its two leading bytes and never decodes a
  symbol: its result is at most 2, so decompress_stream writes nothing for it.
\<close>

theorem dec_hafman_decodes_nothing:
  assumes "dec_hafman buff_in len = Inr (buff_out, n)"
  shows "n \<le> 2 \<and> buff_out = take 2 buff_in"
proof -
  from assms have "2 \<le> length buff_in" "buff_out = [buff_in ! 0, buff_in ! 1]"
    by (auto simp: dec_hafman_def Let_def split: if_splits)
  then have "buff_out = take 2 buff_in" by (cases buff_in; cases "tl buff_in") auto
  with dec_hafman_result [OF assms] show ?thesis by simp
qed

theorem dec_hafman_decodes_nothing_witness:
  "dec_hafman [0x31, 0x32, 7, 9, 0] 100 = Inr ([0x31, 0x32], 1) \<and> (1 :: u32) \<le> 2"
proof -
  have "dec_hafman [0x31, 0x32, 7, 9, 0] 100 = Inr ([0x31, 0x32], 1)" by code_simp
  with dec_hafman_decodes_nothing [OF this] show ?thesis by simp
qed

text \<open>
  CheckTags accepts a packet exactly when every tag names an index inside the packet
  and the byte there is the tag's value.
\<close>

theorem checkTags_iff:
  "checkTags data tags \<longleftrightarrow> list_all (\<lambda>(idx, v). 0 \<le> idx \<and> idx < int (length data)
     \<and> v = uint (data ! nat idx)) tags"
  by (induction data tags rule: checkTags.induct) auto

end
