(* ===== verification/Ascii.thy ===== *)
theory Ascii
  imports Prelude
begin

section \<open>Text utilities: hexadecimal, base64, splitting, trimming\<close>

text \<open>
  bin2ascii.h and utilstring.cpp. A std::string of raw data is a byte list, one of text a
  \<open>string\<close>. Plain char is signed, as on the targets of the program.
\<close>

unbundle bit_operations_syntax

subsection \<open>bin2ascii.h: hexadecimal\<close>

text \<open>The lookup table of hex2bin: 0x80 marks what is no hexadecimal digit.\<close>

definition hex_lookup :: "char \<Rightarrow> byte" where
  "hex_lookup c =
     (let n = of_char c :: nat
      in if 0x30 \<le> n \<and> n \<le> 0x39 then of_nat (n - 0x30)
         else if 0x41 \<le> n \<and> n \<le> 0x46 then of_nat (n - 0x37)
         else if 0x61 \<le> n \<and> n \<le> 0x66 then of_nat (n - 0x57)
         else 0x80)"

fun hex2bin_from :: "string \<Rightarrow> bytes result" where
  "hex2bin_from (c0 # c1 # s) =
     (let hi = hex_lookup c0; lo = hex_lookup c1
      in if 0x80 AND (hi OR lo) \<noteq> 0
         then Inl (Thrown (''Invalid hex data: '' @ take 6 (c0 # c1 # s)))
         else bindR (hex2bin_from s) (\<lambda>r. Inr ((push_bit 4 hi OR lo) # r)))"
| "hex2bin_from s = Inr []"

definition hex2bin :: "string \<Rightarrow> bytes result" where
  "hex2bin s =
     (if length s mod 2 \<noteq> 0 then Inl (Thrown ''Odd hex data size'') else hex2bin_from s)"

definition hex_chars :: string where
  "hex_chars = ''0123456789abcdef'' @ [CHR 0x00]"

text \<open>\<open>s[i] >> 4\<close> shifts a signed char: the upper half keeps the sign.\<close>

fun bin2hex :: "bytes \<Rightarrow> string result" where
  "bin2hex [] = Inr []"
| "bin2hex (b # s) =
     bindR (elem_at hex_chars (unat (signed_drop_bit 4 b))) (\<lambda>c0.
     bindR (elem_at hex_chars (unat (b AND 0xf))) (\<lambda>c1.
     bindR (bin2hex s) (\<lambda>r. Inr (c0 # c1 # r))))"

subsection \<open>bin2ascii.h: base64\<close>

definition b64_chars :: string where
  "b64_chars = ''ABCDEFGHIJKLMNOPQRSTUVWXYZabcdefghijklmnopqrstuvwxyz0123456789+/''"

definition b64_char :: "u32 \<Rightarrow> nat \<Rightarrow> char" where
  "b64_char n k = b64_chars ! unat (ucast (drop_bit k n) AND 0x3f :: byte)"

fun b64_groups :: "bytes \<Rightarrow> string" where
  "b64_groups [] = []"
| "b64_groups [a] = (let n = push_bit 16 (ucast a) in [b64_char n 18, b64_char n 12])"
| "b64_groups [a, b] =
     (let n = push_bit 16 (ucast a) OR push_bit 8 (ucast b)
      in [b64_char n 18, b64_char n 12, b64_char n 6])"
| "b64_groups (a # b # c # s) =
     (let n = push_bit 16 (ucast a) OR push_bit 8 (ucast b) OR ucast c
      in [b64_char n 18, b64_char n 12, b64_char n 6, b64_char n 0] @ b64_groups s)"

definition b64_encode :: "bytes \<Rightarrow> string" where
  "b64_encode s = b64_groups s @ replicate ((3 - length s mod 3) mod 3) CHR ''=''"

text \<open>The lookup table of b64_decode: the padding character counts as zero.\<close>

definition b64_lookup :: "char \<Rightarrow> byte" where
  "b64_lookup c =
     (let n = of_char c :: nat
      in if n = 0x2b then 0x3e
         else if n = 0x2f then 0x3f
         else if 0x30 \<le> n \<and> n \<le> 0x39 then of_nat (n + 4)
         else if n = 0x3d then 0
         else if 0x41 \<le> n \<and> n \<le> 0x5a then of_nat (n - 0x41)
         else if 0x61 \<le> n \<and> n \<le> 0x7a then of_nat (n - 0x47)
         else 0x80)"

fun b64_decode_from :: "string \<Rightarrow> bytes result" where
  "b64_decode_from (c0 # c1 # c2 # c3 # s) =
     (let n0 = b64_lookup c0; n1 = b64_lookup c1; n2 = b64_lookup c2; n3 = b64_lookup c3
      in if 0x80 AND (n0 OR n1 OR n2 OR n3) \<noteq> 0
         then Inl (Thrown (''Invalid hex data: '' @ [c0, c1, c2, c3]))
         else
           (let n = push_bit 18 (ucast n0) OR push_bit 12 (ucast n1) OR push_bit 6 (ucast n2)
                  OR ucast n3 :: u32
            in bindR (b64_decode_from s) (\<lambda>r.
                 Inr ([ucast (drop_bit 16 n AND 0xff)]
                   @ (if c2 \<noteq> CHR ''='' then [ucast (drop_bit 8 n AND 0xff)] else [])
                   @ (if c3 \<noteq> CHR ''='' then [ucast (n AND 0xff)] else [])
                   @ r))))"
| "b64_decode_from s = Inr []"

definition b64_decode :: "string \<Rightarrow> bytes result" where
  "b64_decode s =
     (if s = [] then Inr []
      else if length s mod 4 \<noteq> 0 then Inl (Thrown ''Invalid base64 data size'')
      else b64_decode_from s)"

subsection \<open>utilstring.cpp: hexadecimal\<close>

definition hexString :: "bytes \<Rightarrow> string" where
  "hexString data = concat (map (\<lambda>b. pad_left 2 CHR ''0'' (hex_num (unat b))) data)"

text \<open>
  strtol with base 16 on the two characters of a pair: white space, a sign, digits. Two
  characters have no room for digits behind a 0x prefix, and none for an overflow.
\<close>

definition hex_val :: "char \<Rightarrow> int option" where
  "hex_val c = (let v = hex_lookup c in if v = 0x80 then None else Some (uint v))"

fun hex_digits :: "int \<Rightarrow> string \<Rightarrow> int" where
  "hex_digits v [] = v"
| "hex_digits v (c # cs) = (case hex_val c of None \<Rightarrow> v | Some d \<Rightarrow> hex_digits (16 * v + d) cs)"

definition strtol16 :: "string \<Rightarrow> int" where
  "strtol16 s =
     (case dropWhile is_space s of
        c # cs \<Rightarrow>
          (if c = CHR ''-'' then - hex_digits 0 cs
           else if c = CHR ''+'' then hex_digits 0 cs
           else hex_digits 0 (c # cs))
      | [] \<Rightarrow> 0)"

fun readHex :: "string \<Rightarrow> bytes" where
  "readHex (c0 # c1 # s) = of_int (strtol16 [c0, c1]) # readHex s"
| "readHex s = []"

definition hex2string :: "string \<Rightarrow> bytes" where
  "hex2string hex = readHex hex"

text \<open>stringFromHex fills a string of the expected length from index \<open>i\<close> on.\<close>

fun fill_hex :: "bytes \<Rightarrow> nat \<Rightarrow> string \<Rightarrow> bytes result" where
  "fill_hex r i (c0 # c1 # s) =
     (if i < length r then fill_hex (r[i := of_int (strtol16 [c0, c1])]) (i + 1) s else Inl OutOfBounds)"
| "fill_hex r i s = Inr r"

definition stringFromHex :: "string \<Rightarrow> bytes result" where
  "stringFromHex hex = fill_hex (replicate (length hex div 2) 0) 0 hex"

subsection \<open>utilstring.cpp: text\<close>

definition ltrim :: "string \<Rightarrow> string" where
  "ltrim s = dropWhile is_space s"

definition rtrim :: "string \<Rightarrow> string" where
  "rtrim s = rev (dropWhile is_space (rev s))"

definition trim :: "string \<Rightarrow> string" where
  "trim s = ltrim (rtrim s)"

text \<open>The first position of a text in another one, as std::string::find.\<close>

fun str_find :: "string \<Rightarrow> string \<Rightarrow> nat option" where
  "str_find from [] = (if from = [] then Some 0 else None)"
| "str_find from (c # s) =
     (if take (length from) (c # s) = from then Some 0 else map_option Suc (str_find from s))"

definition replace :: "string \<Rightarrow> string \<Rightarrow> string \<Rightarrow> string" where
  "replace str from to =
     (case str_find from str of
        None \<Rightarrow> str
      | Some start_pos \<Rightarrow> take start_pos str @ to @ drop (start_pos + length from) str)"

text \<open>std::getline with a delimiter until the stream fails.\<close>

fun split_from :: "char \<Rightarrow> string \<Rightarrow> string \<Rightarrow> string list" where
  "split_from delim item [] = (if item = [] then [] else [item])"
| "split_from delim item (c # cs) =
     (if c = delim then item # split_from delim [] cs else split_from delim (item @ [c]) cs)"

definition split :: "string \<Rightarrow> char \<Rightarrow> string list" where
  "split s delim = split_from delim [] s"

definition spaces :: "char \<Rightarrow> int \<Rightarrow> string" where
  "spaces ch count = replicate (nat count) ch"

definition arg2String :: "string list \<Rightarrow> string" where
  "arg2String argv = concat (map (\<lambda>a. a @ '' '') argv)"

definition isNumber :: "string \<Rightarrow> bool" where
  "isNumber s = (s \<noteq> [] \<and> list_all (\<lambda>c. is_digit c \<or> c = CHR ''.'' \<or> c = CHR ''-'') s)"

subsection \<open>What a codec of bytes promises\<close>

locale byte_codec =
  fixes enc :: "bytes \<Rightarrow> string result"
    and dec :: "string \<Rightarrow> bytes result"
    and domain :: "bytes \<Rightarrow> bool"
  assumes enc_ok: "domain b \<Longrightarrow> isOk (enc b)"
    and dec_enc: "domain b \<Longrightarrow> enc b = Inr s \<Longrightarrow> dec s = Inr b"
begin

lemma roundtrip: "domain b \<Longrightarrow> bindR (enc b) dec = Inr b"
  using enc_ok [of b] dec_enc [of b] by (auto simp: isOk_iff)

lemma enc_inj: "domain a \<Longrightarrow> domain b \<Longrightarrow> enc a = enc b \<Longrightarrow> a = b"
  by (metis roundtrip sum.inject(2))

end

lemma split_from_field:
  "delim \<notin> set body \<Longrightarrow> split_from delim acc (body @ delim # rest) = (acc @ body) # split_from delim [] rest"
  by (induction body arbitrary: acc) auto

subsection \<open>All bytes, by evaluation\<close>

lemma byte_list:
  assumes "list_all P (map of_nat [0..<256])"
  shows "P (b :: byte)"
proof -
  have b: "of_nat (unat b) = b" "unat b < 256" using unsigned_less [of b, where 'a = nat] by simp_all
  from assms have "\<forall>n < 256. P (of_nat n)" by (auto simp: list_all_iff simp del: upt_Suc)
  with b(2) have "P (of_nat (unat b))" by blast
  then show "P b" by (simp only: b(1))
qed

definition hex_pair_ok :: "byte \<Rightarrow> bool" where
  "hex_pair_ok b =
     (unat b < 128 \<longrightarrow>
       (case (elem_at hex_chars (unat (signed_drop_bit 4 b)), elem_at hex_chars (unat (b AND 0xf))) of
          (Inr c0, Inr c1) \<Rightarrow> 0x80 AND (hex_lookup c0 OR hex_lookup c1) = 0
            \<and> push_bit 4 (hex_lookup c0) OR hex_lookup c1 = b
        | _ \<Rightarrow> False))"

lemma hex_pair: "hex_pair_ok b"
proof (rule byte_list [of hex_pair_ok])
  show "list_all hex_pair_ok (map of_nat [0..<256])" by code_simp
qed

definition hex_neg_ok :: "byte \<Rightarrow> bool" where
  "hex_neg_ok b = (128 \<le> unat b \<longrightarrow> \<not> isOk (elem_at hex_chars (unat (signed_drop_bit 4 b))))"

lemma hex_neg: "hex_neg_ok b"
proof (rule byte_list [of hex_neg_ok])
  show "list_all hex_neg_ok (map of_nat [0..<256])" by code_simp
qed

definition hex_digit_ok :: "nat \<Rightarrow> bool" where
  "hex_digit_ok d = (hex_val (hex_digit d) = Some (int d) \<and> \<not> is_space (hex_digit d)
     \<and> hex_digit d \<noteq> CHR ''-'' \<and> hex_digit d \<noteq> CHR ''+'')"

lemma hex_digit_val: "d < 16 \<Longrightarrow> hex_digit_ok d"
proof -
  have "list_all hex_digit_ok [0..<16]" by code_simp
  then show "d < 16 \<Longrightarrow> hex_digit_ok d" by (auto simp: list_all_iff)
qed

lemma hex_two:
  assumes "n < 256"
  shows "pad_left 2 CHR ''0'' (hex_num n) = [hex_digit (n div 16), hex_digit (n mod 16)]"
proof -
  have "hex_digit 0 = CHR ''0''" by code_simp
  with assms show ?thesis by (subst hex_num.simps, subst hex_num.simps) (auto simp: pad_left_def)
qed

lemma hexString_pair:
  "\<exists>c0 c1. pad_left 2 CHR ''0'' (hex_num (unat b)) = [c0, c1] \<and> strtol16 [c0, c1] = uint b" for b :: byte
proof -
  have b: "unat b < 256" using unsigned_less [of b, where 'a = nat] by simp
  then have "hex_digit_ok (unat b div 16)" "hex_digit_ok (unat b mod 16)"
    by (auto intro!: hex_digit_val)
  then have "strtol16 [hex_digit (unat b div 16), hex_digit (unat b mod 16)]
      = 16 * int (unat b div 16) + int (unat b mod 16)"
    by (simp add: hex_digit_ok_def strtol16_def)
  also have "\<dots> = int (unat b)" by (simp add: zdiv_int zmod_int)
  finally show ?thesis using hex_two [OF b] by simp
qed

definition b64_pair_ok :: "byte \<Rightarrow> bool" where
  "b64_pair_ok b = (b64_lookup (b64_chars ! unat (b AND 0x3f)) = b AND 0x3f
     \<and> b64_chars ! unat (b AND 0x3f) \<noteq> CHR ''='')"

lemma b64_pair: "b64_pair_ok b"
proof (rule byte_list [of b64_pair_ok])
  show "list_all b64_pair_ok (map of_nat [0..<256])" by code_simp
qed

subsection \<open>The codecs keep the contract\<close>

lemma hex2bin_bin2hex:
  "list_all (\<lambda>b. unat b < 128) data \<Longrightarrow> \<exists>s. bin2hex data = Inr s \<and> hex2bin_from s = Inr data \<and> length s = 2 * length data"
proof (induction data)
  case (Cons b data)
  then obtain s where s: "bin2hex data = Inr s" "hex2bin_from s = Inr data" "length s = 2 * length data" by auto
  from hex_pair [of b] Cons.prems obtain c0 c1 where
    c: "elem_at hex_chars (unat (signed_drop_bit 4 b)) = Inr c0" "elem_at hex_chars (unat (b AND 0xf)) = Inr c1"
      "0x80 AND (hex_lookup c0 OR hex_lookup c1) = 0" "push_bit 4 (hex_lookup c0) OR hex_lookup c1 = b"
    by (auto simp: hex_pair_ok_def simp del: elem_at_Inr_iff split: sum.splits)
  then have "bin2hex (b # data) = Inr (c0 # c1 # s)" using s(1) by (simp del: elem_at_Inr_iff)
  with c s show ?case by (auto simp: Let_def)
qed simp

lemma bin2hex_iff: "isOk (bin2hex data) \<longleftrightarrow> list_all (\<lambda>b. unat b < 128) data"
proof
  show "isOk (bin2hex data) \<Longrightarrow> list_all (\<lambda>b. unat b < 128) data"
  proof (induction data)
    case (Cons b data)
    then have "isOk (elem_at hex_chars (unat (signed_drop_bit 4 b)))" "isOk (bin2hex data)"
      by (auto simp: isOk_iff)
    with hex_neg [of b] Cons.IH show ?case by (auto simp: hex_neg_ok_def)
  qed simp
  show "list_all (\<lambda>b. unat b < 128) data \<Longrightarrow> isOk (bin2hex data)"
    using hex2bin_bin2hex [of data] by (auto simp: isOk_iff)
qed

interpretation hex_codec: byte_codec bin2hex hex2bin "list_all (\<lambda>b. unat b < 128)"
proof unfold_locales
  fix b :: bytes and s
  assume ok: "list_all (\<lambda>b. unat b < 128) b"
  then show "isOk (bin2hex b)" by (simp add: bin2hex_iff)
  show "hex2bin s = Inr b" if "bin2hex b = Inr s"
    using hex2bin_bin2hex [OF ok] that by (auto simp: hex2bin_def)
qed

lemma readHex_hexString: "readHex (hexString data) = data"
proof (induction data)
  case (Cons b data)
  with hexString_pair [of b] show ?case by (auto simp: hexString_def)
qed (simp add: hexString_def)

interpretation hexString_codec: byte_codec "\<lambda>b. Inr (hexString b)" "\<lambda>s. Inr (hex2string s)" "\<lambda>b. True"
  by unfold_locales (auto simp: hex2string_def readHex_hexString)

lemma fill_hex_readHex:
  "i + length s div 2 = length r \<Longrightarrow> fill_hex r i s = Inr (take i r @ readHex s)"
proof (induction r i s rule: fill_hex.induct)
  case (1 r i c0 c1 s)
  then show ?case by (simp add: take_Suc_conv_app_nth)
qed auto

lemma stringFromHex_eq: "stringFromHex s = Inr (hex2string s)"
  by (simp add: stringFromHex_def hex2string_def fill_hex_readHex)

lemma and63: "w AND 63 = take_bit 6 w" for w :: "'a::len word"
  by (simp add: take_bit_eq_mask mask_eq_exp_minus_1)

lemma and255: "w AND 255 = take_bit 8 w" for w :: "'a::len word"
  by (simp add: take_bit_eq_mask mask_eq_exp_minus_1)

definition sixbits :: "u32 \<Rightarrow> nat \<Rightarrow> byte" where
  "sixbits n k = ucast (drop_bit k n) AND 0x3f"

lemma bit_sixbits: "bit (sixbits n k) i \<longleftrightarrow> i < 6 \<and> bit n (k + i)"
  by (auto simp: sixbits_def and63 bit_simps ac_simps dest: bit_imp_le_length)

lemma lookup_char: "b64_lookup (b64_char n k) = sixbits n k" "b64_char n k \<noteq> CHR ''=''"
  using b64_pair [of "ucast (drop_bit k n)"] by (simp_all add: b64_pair_ok_def b64_char_def sixbits_def)

lemma lookup_pad: "b64_lookup CHR ''='' = 0"
  by code_simp

lemma sixbits_high: "\<not> bit (sixbits n k) 7"
  by (simp add: bit_sixbits)

lemma no_mark: "0x80 AND w = 0 \<longleftrightarrow> \<not> bit w 7" for w :: byte
proof -
  have "(0x80 :: byte) = 2 ^ 7" by simp
  then show ?thesis using and_exp_eq_0_iff_not_bit [of w 7] by (simp add: and.commute)
qed

definition join4 :: "byte \<Rightarrow> byte \<Rightarrow> byte \<Rightarrow> byte \<Rightarrow> u32" where
  "join4 n0 n1 n2 n3 = push_bit 18 (ucast n0) OR push_bit 12 (ucast n1) OR push_bit 6 (ucast n2) OR ucast n3"

lemma bit_join4:
  assumes "\<And>k. bit n0 k \<Longrightarrow> k < 6" "\<And>k. bit n1 k \<Longrightarrow> k < 6" "\<And>k. bit n2 k \<Longrightarrow> k < 6" "\<And>k. bit n3 k \<Longrightarrow> k < 6"
  shows "bit (join4 n0 n1 n2 n3) i \<longleftrightarrow>
    (if i < 6 then bit n3 i else if i < 12 then bit n2 (i - 6) else if i < 18 then bit n1 (i - 12)
     else i < 24 \<and> bit n0 (i - 18))"
  using assms(1) [of "i - 18"] assms(2) [of "i - 12"] assms(3) [of "i - 6"] assms(4) [of i]
  by (auto simp: join4_def bit_simps)

lemma join_sixbits:
  assumes "\<And>i. bit n i \<Longrightarrow> i < 24"
  shows "join4 (sixbits n 18) (sixbits n 12) (sixbits n 6) (sixbits n 0) = n"
proof (rule bit_eqI)
  fix i
  show "bit (join4 (sixbits n 18) (sixbits n 12) (sixbits n 6) (sixbits n 0)) i = bit n i"
    by (subst bit_join4) (use assms [of i] in \<open>auto simp: bit_sixbits\<close>)
qed

lemma b64_three:
  fixes a b c :: byte
  defines "n \<equiv> push_bit 16 (ucast a) OR push_bit 8 (ucast b) OR ucast c :: u32"
  shows "join4 (sixbits n 18) (sixbits n 12) (sixbits n 6) (sixbits n 0) = n"
    and "ucast (drop_bit 16 n AND 0xff) = a" and "ucast (drop_bit 8 n AND 0xff) = b"
    and "ucast (n AND 0xff) = c"
proof -
  have "i < 24" if "bit n i" for i
    using that by (auto simp: n_def bit_simps dest: bit_imp_le_length)
  then show "join4 (sixbits n 18) (sixbits n 12) (sixbits n 6) (sixbits n 0) = n"
    by (rule join_sixbits)
  show "ucast (drop_bit 16 n AND 0xff) = a"
    by (rule bit_eqI) (auto simp: n_def and255 bit_simps dest: bit_imp_le_length)
  show "ucast (drop_bit 8 n AND 0xff) = b"
    by (rule bit_eqI) (auto simp: n_def and255 bit_simps dest: bit_imp_le_length)
  show "ucast (n AND 0xff) = c"
    by (rule bit_eqI) (auto simp: n_def and255 bit_simps dest: bit_imp_le_length)
qed


lemma sixbits_low0: "(\<And>i. i < 6 \<Longrightarrow> \<not> bit n (k + i)) \<Longrightarrow> sixbits n k = 0"
  by (rule bit_eqI) (auto simp: bit_sixbits)

lemma b64_two:
  fixes a b :: byte
  defines "n \<equiv> push_bit 16 (ucast a) OR push_bit 8 (ucast b) :: u32"
  shows "join4 (sixbits n 18) (sixbits n 12) (sixbits n 6) 0 = n"
    and "ucast (drop_bit 16 n AND 0xff) = a" and "ucast (drop_bit 8 n AND 0xff) = b"
proof -
  note t = b64_three [of a b 0]
  have "sixbits n 0 = 0" by (rule sixbits_low0) (auto simp: n_def bit_simps)
  with t show "join4 (sixbits n 18) (sixbits n 12) (sixbits n 6) 0 = n"
      "ucast (drop_bit 16 n AND 0xff) = a" "ucast (drop_bit 8 n AND 0xff) = b"
    by (simp_all add: n_def)
qed

lemma b64_one:
  fixes a :: byte
  defines "n \<equiv> push_bit 16 (ucast a) :: u32"
  shows "join4 (sixbits n 18) (sixbits n 12) 0 0 = n" and "ucast (drop_bit 16 n AND 0xff) = a"
proof -
  note t = b64_two [of a 0]
  have "sixbits n 6 = 0" by (rule sixbits_low0) (auto simp: n_def bit_simps)
  with t show "join4 (sixbits n 18) (sixbits n 12) 0 0 = n" "ucast (drop_bit 16 n AND 0xff) = a"
    by (simp_all add: n_def)
qed

lemma mark_or: "0x80 AND (n0 OR n1 OR n2 OR n3) = 0 \<longleftrightarrow> \<not> bit n0 7 \<and> \<not> bit n1 7 \<and> \<not> bit n2 7 \<and> \<not> bit n3 7"
  for n0 n1 n2 n3 :: byte
  by (auto simp: no_mark bit_simps)

lemma b64_decode_step:
  assumes "\<not> bit (b64_lookup c0) 7" "\<not> bit (b64_lookup c1) 7" "\<not> bit (b64_lookup c2) 7" "\<not> bit (b64_lookup c3) 7"
    and "n = join4 (b64_lookup c0) (b64_lookup c1) (b64_lookup c2) (b64_lookup c3)"
  shows "b64_decode_from (c0 # c1 # c2 # c3 # s) = bindR (b64_decode_from s) (\<lambda>r.
      Inr ([ucast (drop_bit 16 n AND 0xff)]
        @ (if c2 \<noteq> CHR ''='' then [ucast (drop_bit 8 n AND 0xff)] else [])
        @ (if c3 \<noteq> CHR ''='' then [ucast (n AND 0xff)] else []) @ r))"
  using assms(1-4) mark_or [of "b64_lookup c0" "b64_lookup c1" "b64_lookup c2" "b64_lookup c3"]
  by (simp add: assms(5) join4_def Let_def)

lemma b64_encode_3:
  "b64_encode (a # b # c # s) =
     (let n = push_bit 16 (ucast a) OR push_bit 8 (ucast b) OR ucast c
      in b64_char n 18 # b64_char n 12 # b64_char n 6 # b64_char n 0 # b64_encode s)"
proof -
  have "length (a # b # c # s) mod 3 = length s mod 3" by (simp add: Suc3_eq_add_3)
  then show ?thesis unfolding b64_encode_def b64_groups.simps Let_def by simp
qed

lemma b64_tail:
  assumes "b64_decode_from t = Inr s" and m: "m = join4 (sixbits n 18) (sixbits n 12) (sixbits n 6) (sixbits n 0)"
  shows "b64_decode_from (b64_char n 18 # b64_char n 12 # b64_char n 6 # b64_char n 0 # t)
      = Inr (ucast (drop_bit 16 m AND 0xff) # ucast (drop_bit 8 m AND 0xff) # ucast (m AND 0xff) # s)"
  using b64_decode_step [of "b64_char n 18" "b64_char n 12" "b64_char n 6" "b64_char n 0" m t] m assms(1)
  by (simp add: lookup_char sixbits_high)

lemma b64_tail2:
  "b64_decode_from [b64_char n 18, b64_char n 12, b64_char n 6, CHR ''='']
      = Inr [ucast (drop_bit 16 m AND 0xff), ucast (drop_bit 8 m AND 0xff)]"
    if "m = join4 (sixbits n 18) (sixbits n 12) (sixbits n 6) 0"
  using b64_decode_step [of "b64_char n 18" "b64_char n 12" "b64_char n 6" "CHR ''=''" m "[]"] that
  by (simp add: lookup_char lookup_pad sixbits_high)

lemma b64_tail1:
  "b64_decode_from [b64_char n 18, b64_char n 12, CHR ''='', CHR ''='']
      = Inr [ucast (drop_bit 16 m AND 0xff)]"
    if "m = join4 (sixbits n 18) (sixbits n 12) 0 0"
  using b64_decode_step [of "b64_char n 18" "b64_char n 12" "CHR ''=''" "CHR ''=''" m "[]"] that
  by (simp add: lookup_char lookup_pad sixbits_high)

lemma b64_round: "b64_decode_from (b64_encode s) = Inr s"
proof (induction s rule: b64_groups.induct)
  case 1
  then show ?case by (simp add: b64_encode_def)
next
  case (2 a)
  have "b64_encode [a] = [b64_char (push_bit 16 (ucast a)) 18, b64_char (push_bit 16 (ucast a)) 12, CHR ''='', CHR ''='']"
    by (simp add: b64_encode_def numeral_2_eq_2 Let_def)
  then show ?case
    by (simp only: b64_tail1 [OF b64_one(1) [symmetric]] b64_one(2))
next
  case (3 a b)
  let ?n = "push_bit 16 (ucast a) OR push_bit 8 (ucast b) :: u32"
  have "b64_encode [a, b] = [b64_char ?n 18, b64_char ?n 12, b64_char ?n 6, CHR ''='']"
    by (simp add: b64_encode_def Let_def)
  then show ?case
    by (simp only: b64_tail2 [OF b64_two(1) [symmetric]] b64_two(2,3))
next
  case (4 a b c s)
  show ?case
    unfolding b64_encode_3 Let_def
    by (simp only: b64_tail [OF "4.IH" b64_three(1) [symmetric]] b64_three(2,3,4))
qed

lemma b64_length: "length (b64_encode s) mod 4 = 0"
proof (induction s rule: b64_groups.induct)
  case (4 a b c s)
  then show ?case by (simp add: b64_encode_3 Let_def mod_Suc)
qed (simp_all add: b64_encode_def Let_def numeral_2_eq_2)

interpretation b64_codec: byte_codec "\<lambda>b. Inr (b64_encode b)" b64_decode "\<lambda>b. True"
proof unfold_locales
  fix b s
  show "isOk (Inr (b64_encode b))" by simp
  show "b64_decode s = Inr b" if "Inr (b64_encode b) = (Inr s :: string result)"
  proof -
    from that have s: "s = b64_encode b" by simp
    have "b = []" if "b64_encode b = []"
      using that by (cases b rule: b64_groups.cases) (auto simp: b64_encode_def Let_def)
    with b64_round [of b] b64_length [of b] show ?thesis by (auto simp: s b64_decode_def b64_encode_def)
  qed
qed

subsection \<open>Trimming and splitting\<close>

lemma ltrim_idem: "ltrim (ltrim s) = ltrim s"
  by (simp add: ltrim_def dropWhile_idem)

lemma rtrim_last: "rtrim s = [] \<or> \<not> is_space (last (rtrim s))"
  using hd_dropWhile [of is_space "rev s"] by (auto simp: rtrim_def last_rev)

lemma trim_ends:
  "trim s = [] \<or> \<not> is_space (hd (trim s)) \<and> \<not> is_space (last (trim s))"
proof (cases "trim s = []")
  case False
  then have ne: "dropWhile is_space (rtrim s) \<noteq> []" by (simp add: trim_def ltrim_def)
  then have "\<not> is_space (hd (trim s))" using hd_dropWhile [of is_space "rtrim s"] by (simp add: trim_def ltrim_def)
  moreover have "last (dropWhile is_space (rtrim s)) = last (rtrim s)"
    using ne by (metis last_appendR takeWhile_dropWhile_id)
  then have "\<not> is_space (last (trim s))"
    using rtrim_last [of s] ne by (auto simp: trim_def ltrim_def)
  ultimately show ?thesis by simp
qed simp

text \<open>Joining with a delimiter between the items.\<close>

fun join_with :: "char \<Rightarrow> string list \<Rightarrow> string" where
  "join_with delim [] = []"
| "join_with delim [s] = s"
| "join_with delim (s # t # ss) = s @ delim # join_with delim (t # ss)"

lemma split_from_end: "delim \<notin> set body \<Longrightarrow> split_from delim acc body = (if acc @ body = [] then [] else [acc @ body])"
  by (induction body arbitrary: acc) auto

lemma split_join:
  "\<lbrakk>list_all (\<lambda>s. delim \<notin> set s) items; items \<noteq> []; last items \<noteq> []\<rbrakk>
    \<Longrightarrow> split (join_with delim items) delim = items"
  unfolding split_def
  by (induction delim items rule: join_with.induct) (auto simp: split_from_end split_from_field)

subsection \<open>Properties\<close>

text \<open>
  Base64: b64_decode returns, for every text b64_encode makes, the bytes it was made
  of.
\<close>

theorem b64_roundtrip: "b64_decode (b64_encode data) = Inr data"
  using b64_codec.roundtrip [of data] by simp

text \<open>
  bin2hex is defined exactly for data below 0x80, because it shifts a signed char;
  there hex2bin undoes it.
\<close>

theorem bin2hex_roundtrip:
  "isOk (bin2hex data) = list_all (\<lambda>b. unat b < 128) data
   \<and> (list_all (\<lambda>b. unat b < 128) data \<longrightarrow> bindR (bin2hex data) hex2bin = Inr data)"
  using bin2hex_iff hex_codec.roundtrip by blast

theorem bin2hex_roundtrip_witness:
  "bindR (bin2hex [0x4f, 0x10]) hex2bin = Inr [0x4f, 0x10] \<and> \<not> isOk (bin2hex [0x80])"
  using bin2hex_roundtrip [of "[0x4f, 0x10]"] bin2hex_roundtrip [of "[0x80]"] by simp

text \<open>
  The hexadecimal functions of utilstring: hex2string and stringFromHex both undo
  hexString for all bytes, and they agree on every input, which stringFromHex reads
  without leaving the string it fills.
\<close>

theorem hexString_roundtrip:
  "hex2string (hexString data) = data \<and> stringFromHex (hexString data) = Inr data
   \<and> stringFromHex s = Inr (hex2string s)"
  using hexString_codec.roundtrip [of data] by (simp add: stringFromHex_eq)

end
