(* ===== verification/HuffText.thy ===== *)
theory HuffText
  imports HuffTree Ascii
begin

section \<open>Frequency tables as text\<close>

text \<open>
  loadFrequencies, printFrequencies and the stream loaders of huff/huffcode.cpp. A
  stream is the text that is left to read; std::getline and the extraction of int64_t
  values are modelled as the C++ library defines them for the C locale.
\<close>

unbundle bit_operations_syntax

subsection \<open>Reading\<close>

text \<open>The lines std::getline delivers until the stream fails.\<close>

definition getlines :: "string \<Rightarrow> string list" where
  "getlines strm = split strm CHR 0x0A"

text \<open>One extraction of an int64_t; \<open>None\<close> sets the fail bit.\<close>

definition read_sign :: "string \<Rightarrow> bool \<times> string" where
  "read_sign s =
     (case s of
        c # cs \<Rightarrow> (if c = CHR ''-'' then (True, cs) else if c = CHR ''+'' then (False, cs) else (False, s))
      | [] \<Rightarrow> (False, s))"

definition read_int64 :: "string \<Rightarrow> (int \<times> string) option" where
  "read_int64 s =
     (case read_sign (dropWhile is_space s) of
        (neg, s1) \<Rightarrow>
          (let ds = takeWhile is_digit s1;
               v = (if neg then - int (digits_val ds) else int (digits_val ds))
           in if ds = [] \<or> v < - (2 ^ 63) \<or> 2 ^ 63 \<le> v then None
              else Some (v, dropWhile is_digit s1)))"

text \<open>
  std::istream_iterator copies values until an extraction fails; each takes at least one
  character, so the length of the line is fuel enough.
\<close>

fun int64s :: "nat \<Rightarrow> string \<Rightarrow> int list" where
  "int64s 0 s = []"
| "int64s (Suc n) s =
     (case read_int64 s of None \<Rightarrow> [] | Some (v, rest) \<Rightarrow> v # int64s n rest)"

fun load_lines :: "string list \<Rightarrow> u64 list \<Rightarrow> nat \<Rightarrow> u64 list \<times> nat" where
  "load_lines [] frequencies r = (frequencies, r)"
| "load_lines (line # ls) frequencies r =
     (case int64s (length line) line of
        i0 # i1 # more \<Rightarrow>
          (if 0 \<le> i0 \<and> i0 < int (length frequencies)
           then load_lines ls (frequencies[nat i0 := of_int i1]) (r + 1)
           else (frequencies, r))
      | _ \<Rightarrow> load_lines ls frequencies r)"

definition loadFrequencies :: "nat \<Rightarrow> string \<Rightarrow> u64 list \<times> nat" where
  "loadFrequencies symbols_size strm = load_lines (getlines strm) (replicate symbols_size 0) 0"

definition loadHuffmanCodeTreeFromFrequencyStream :: "string \<Rightarrow> node option" where
  "loadHuffmanCodeTreeFromFrequencyStream strm = buildTree (fst (loadFrequencies 256 strm))"

text \<open>
  defaultHuffmanCodeTree builds from a local array it never fills: \<open>garbage\<close> stands for
  its 256 indeterminate values.
\<close>

definition defaultHuffmanCodeTree :: "u64 list \<Rightarrow> node option" where
  "defaultHuffmanCodeTree garbage = buildTree (take 256 garbage)"

definition defaultHuffmanCodeMap :: "u64 list \<Rightarrow> codemap" where
  "defaultHuffmanCodeMap garbage = generateCodes [] (defaultHuffmanCodeTree garbage) []"

text \<open>
  loadCodeMap: tabulators become spaces, runs of spaces one space; the first two parts of a line
  are a symbol, read with strtod and converted to 64 bits, and its code.
\<close>

fun unique_spaces :: "string \<Rightarrow> string" where
  "unique_spaces (a # b # cs) =
     (if a = b \<and> a = CHR '' '' then unique_spaces (b # cs) else a # unique_spaces (b # cs))"
| "unique_spaces cs = cs"

fun load_codes :: "(string \<Rightarrow> u64) \<Rightarrow> string list \<Rightarrow> codemap \<Rightarrow> nat \<Rightarrow> codemap \<times> nat" where
  "load_codes strtod [] codes r = (codes, r)"
| "load_codes strtod (line # ls) codes r =
     (case split (unique_spaces (map (\<lambda>c. if c = CHR 0x09 then CHR '' '' else c) line)) (CHR '' '') of
        t0 # t1 # more \<Rightarrow>
          (if strtod t0 \<le> 255 then load_codes strtod ls (smap_put (ucast (strtod t0)) (getHuffCode t1) codes) (r + 1)
           else (codes, r))
      | _ \<Rightarrow> load_codes strtod ls codes r)"

definition loadCodeMap :: "(string \<Rightarrow> u64) \<Rightarrow> string \<Rightarrow> codemap \<times> nat" where
  "loadCodeMap strtod strm = load_codes strtod (getlines strm) [] 0"

definition loadHuffmanCodeTreeFromCodeStream :: "(string \<Rightarrow> u64) \<Rightarrow> string \<Rightarrow> node option" where
  "loadHuffmanCodeTreeFromCodeStream strtod strm = buildTreeFromCodes (fst (loadCodeMap strtod strm))"

subsection \<open>Writing\<close>

definition frequency_line :: "nat \<Rightarrow> u64 \<Rightarrow> string" where
  "frequency_line i f =
     pad_right 3 CHR '' '' (dec_str i) @ [CHR 0x09] @ dec_str (unat f) @ [CHR 0x09] @ ''0x''
       @ pad_left 2 CHR ''0'' (hex_num i)"

fun print_from :: "nat \<Rightarrow> u64 list \<Rightarrow> bool \<Rightarrow> string" where
  "print_from i [] include_zeroes = []"
| "print_from i (f # fs) include_zeroes =
     (if include_zeroes \<or> f \<noteq> 0 then frequency_line i f @ [CHR 0x0A] else [])
       @ print_from (Suc i) fs include_zeroes"

definition printFrequencies :: "string \<Rightarrow> u64 list \<Rightarrow> bool \<Rightarrow> string" where
  "printFrequencies strm frequencies include_zeroes = strm @ print_from 0 frequencies include_zeroes"

subsection \<open>A printed line is read back\<close>

lemma read_sign_digit: "is_digit c \<Longrightarrow> read_sign (c # cs) = (False, c # cs)"
  by (auto simp: read_sign_def is_digit_def)

lemma read_int64_dec:
  assumes "n < 2 ^ 63" and "\<forall>c \<in> set ws. is_space c" and "rest = [] \<or> \<not> is_digit (hd rest)"
  shows "read_int64 (ws @ dec_str n @ rest) = Some (int n, rest)"
proof -
  obtain c cs where d: "dec_str n = c # cs" by (cases "dec_str n") auto
  have c: "is_digit c" "\<not> is_space c"
    using dec_str_digits [of n] d digit_not_space by auto
  have w: "dropWhile is_space (ws @ dec_str n @ rest) = dec_str n @ rest"
    using assms(2) c by (subst dropWhile_append2) (auto simp: d)
  have ds: "\<forall>x \<in> set (dec_str n). is_digit x" by (rule dec_str_digits)
  have t: "takeWhile is_digit (dec_str n @ rest) = dec_str n"
    using assms(3) ds by (cases rest) (auto simp: takeWhile_append2)
  have r: "dropWhile is_digit (dec_str n @ rest) = rest"
    using assms(3) ds by (cases rest) (auto simp: dropWhile_append2)
  have s: "read_sign (dec_str n @ rest) = (False, dec_str n @ rest)"
    using c by (simp add: d read_sign_digit)
  show ?thesis using assms(1) by (simp add: read_int64_def w s t r)
qed

lemma tab_space: "is_space CHR 0x09" "is_space CHR '' ''" "\<not> is_digit CHR 0x09" "\<not> is_digit CHR '' ''"
    "\<not> is_digit CHR 0x0A"
  by (simp_all add: is_space_def is_digit_def)

lemma int64s_line:
  assumes "i < 2 ^ 63" and "unat f < 2 ^ 63"
  shows "\<exists>more. int64s (length (frequency_line i f)) (frequency_line i f) = int i # int (unat f) # more"
proof -
  let ?r2 = "[CHR 0x09] @ ''0x'' @ pad_left 2 CHR ''0'' (hex_num i)"
  let ?r1 = "replicate (3 - length (dec_str i)) CHR '' '' @ [CHR 0x09] @ dec_str (unat f) @ ?r2"
  have line: "frequency_line i f = dec_str i @ ?r1" by (simp add: frequency_line_def pad_right_def)
  have "hd ?r1 \<in> {CHR '' '', CHR 0x09}" by (cases "3 - length (dec_str i)") auto
  then have e1: "read_int64 (frequency_line i f) = Some (int i, ?r1)"
    using read_int64_dec [of i "[]" ?r1] assms(1) tab_space by (auto simp: line)
  have e2: "read_int64 ?r1 = Some (int (unat f), ?r2)"
    using read_int64_dec [of "unat f" "replicate (3 - length (dec_str i)) CHR '' '' @ [CHR 0x09]" ?r2]
      assms(2) tab_space by auto
  have "2 \<le> length (frequency_line i f)" by (simp add: line)
  then obtain k where "length (frequency_line i f) = Suc (Suc k)"
    by (metis add_2_eq_Suc le_Suc_ex)
  with e1 e2 show ?thesis by auto
qed

lemma hex_num_no_newline: "CHR 0x0A \<notin> set (hex_num n)"
proof (induction n rule: hex_num.induct)
  case (1 n)
  have "CHR 0x0A \<noteq> hex_digit d" if "d < 16" for d
  proof
    assume "CHR 0x0A = hex_digit d"
    then have "(of_char (hex_digit d) :: nat) = of_char (CHR 0x0A)" by simp
    with that show False by (auto simp: hex_digit_def split: if_splits)
  qed
  with 1 show ?case by (subst hex_num.simps) auto
qed

lemma frequency_line_no_newline: "CHR 0x0A \<notin> set (frequency_line i f)"
  using dec_str_digits [of i] dec_str_digits [of "unat f"] hex_num_no_newline [of i] tab_space(5)
  by (auto simp: frequency_line_def pad_left_def pad_right_def)

lemma load_print_from:
  assumes "i + length fs \<le> length acc" and "length acc < 2 ^ 63" and "\<forall>f \<in> set fs. unat f < 2 ^ 63"
    and "\<forall>k < length fs. acc ! (i + k) = 0"
  shows "\<exists>r'. load_lines (split_from CHR 0x0A [] (print_from i fs z)) acc r
    = (take i acc @ fs @ drop (i + length fs) acc, r')"
  using assms
proof (induction i fs z arbitrary: acc r rule: print_from.induct)
  case (2 i f fs z)
  have upd: "take i acc @ (f # fs) @ drop (i + length (f # fs)) acc
      = take (Suc i) (acc[i := f]) @ fs @ drop (Suc i + length fs) (acc[i := f])"
    using "2.prems"(1) by (simp add: take_Suc_conv_app_nth)
  have prems: "Suc i + length fs \<le> length (acc[i := f])" "length (acc[i := f]) < 2 ^ 63"
      "\<forall>f \<in> set fs. unat f < 2 ^ 63" "\<forall>k < length fs. acc[i := f] ! (Suc i + k) = 0"
    using "2.prems" by (auto dest: spec [of _ "Suc _"])
  show ?case
  proof (cases "z \<or> f \<noteq> 0")
    case True
    have "i < 2 ^ 63" "unat f < 2 ^ 63" "i < length acc" using "2.prems" by auto
    moreover obtain more where "int64s (length (frequency_line i f)) (frequency_line i f)
        = int i # int (unat f) # more"
      using int64s_line [OF calculation(1,2)] by blast
    ultimately have "load_lines (split_from CHR 0x0A [] (print_from i (f # fs) z)) acc r
        = load_lines (split_from CHR 0x0A [] (print_from (Suc i) fs z)) (acc[i := f]) (r + 1)"
      using True by (simp add: split_from_field [OF frequency_line_no_newline])
    with "2.IH" [OF prems, of "r + 1"] show ?thesis unfolding upd by simp
  next
    case False
    then have "acc[i := f] = acc" using "2.prems"(1,4) by (auto simp: list_update_same_conv)
    with "2.IH" [OF prems, of r] False show ?thesis unfolding upd by simp
  qed
qed simp

subsection \<open>Properties\<close>

text \<open>
  A frequency table printed by printFrequencies, with or without its zero entries, is
  read back by loadFrequencies as the same table.
\<close>

theorem frequencies_print_load:
  assumes "\<forall>f \<in> set frequencies. unat f < 2 ^ 63" and "length frequencies \<le> 256"
  shows "fst (loadFrequencies (length frequencies) (printFrequencies [] frequencies include_zeroes))
    = frequencies"
  using load_print_from [of 0 frequencies "replicate (length frequencies) 0" include_zeroes 0] assms
  by (auto simp: loadFrequencies_def getlines_def split_def printFrequencies_def)

theorem frequencies_print_load_witness:
  "fst (loadFrequencies 3 (printFrequencies [] [7, 0, 12] False)) = [7, 0, 12]"
  using frequencies_print_load [of "[7, 0, 12]" False] by (simp add: numeral_3_eq_3)

end
