(* ===== verification/HuffClasses.thy ===== *)
theory HuffClasses
  imports HuffCodec HuffText
begin

section \<open>The encoder and decoder classes\<close>

text \<open>
  huff/huffmanmodifiedencoder.cpp and huff/huffmanmodifieddecoder.cpp. The pointer to the
  end code is \<open>None\<close> as long as no constructor or setter has given it a value, \<open>Some None\<close>
  when it is null. Buffers that are written into are byte lists of fixed length. The C++
  dialect is gnu++11, as CMakeLists.txt sets it.
\<close>

unbundle bit_operations_syntax

subsection \<open>The decoder\<close>

record decoder =
  d_mode :: int
  d_valid_packet_sizes :: "nat list"
  d_root :: "node option"
  d_escapes :: "codensize list"
  d_eof :: "huffcode option option"
  d_force_size :: "int option"

definition decoder_new :: "u64 list \<Rightarrow> decoder" where
  "decoder_new garbage =
     \<lparr>d_mode = 1, d_valid_packet_sizes = [], d_root = defaultHuffmanCodeTree garbage,
      d_escapes = [], d_eof = None, d_force_size = None\<rparr>"

definition d_setMode :: "int \<Rightarrow> decoder \<Rightarrow> decoder" where
  "d_setMode v d = d\<lparr>d_mode := v\<rparr>"

definition d_setEscapeCode :: "string \<Rightarrow> int \<Rightarrow> decoder \<Rightarrow> decoder" where
  "d_setEscapeCode escape_code bits d =
     d\<lparr>d_escapes := d_escapes d @ [(getHuffCode escape_code, bits)]\<rparr>"

definition d_setEOFCode :: "string \<Rightarrow> decoder \<Rightarrow> decoder" where
  "d_setEOFCode escape_code d =
     d\<lparr>d_eof := Some (if escape_code = [] then None else Some (getHuffCode escape_code))\<rparr>"

definition d_setForceSize :: "int \<Rightarrow> decoder \<Rightarrow> decoder" where
  "d_setForceSize v d = d\<lparr>d_force_size := Some v\<rparr>"

definition d_setTreeFromFrequencies :: "u64 list \<Rightarrow> decoder \<Rightarrow> decoder" where
  "d_setTreeFromFrequencies frequencies d = d\<lparr>d_root := buildTree frequencies\<rparr>"

definition d_setTreeFromFrequenciesStream :: "string \<Rightarrow> decoder \<Rightarrow> decoder" where
  "d_setTreeFromFrequenciesStream strm d =
     d\<lparr>d_root := loadHuffmanCodeTreeFromFrequencyStream strm\<rparr>"

definition d_setTreeFromCodesStream :: "(string \<Rightarrow> u64) \<Rightarrow> string \<Rightarrow> decoder \<Rightarrow> decoder" where
  "d_setTreeFromCodesStream strtod strm d = d\<lparr>d_root := loadHuffmanCodeTreeFromCodeStream strtod strm\<rparr>"

definition d_setValidPacketSizes :: "nat list \<Rightarrow> decoder \<Rightarrow> decoder" where
  "d_setValidPacketSizes v d = d\<lparr>d_valid_packet_sizes := v\<rparr>"

text \<open>
  unpack: the size, the output stream and the decoder, whose tree has new flags. The
  size_t offset becomes an int parameter of decompress.
\<close>

definition unpack :: "nat \<Rightarrow> bool \<Rightarrow> byte \<Rightarrow> decoder \<Rightarrow> bytes option \<Rightarrow> bytes \<Rightarrow> nat
    \<Rightarrow> (nat \<times> bytes option \<times> decoder) option result" where
  "unpack fuel ret junk d retval src offset =
     (if d_mode d = 0
      then (case retval of
              None \<Rightarrow> Inl NullPointer
            | Some strm \<Rightarrow> Inr (Some (length src, Some (strm @ src), d)))
      else
        (case d_eof d of
           None \<Rightarrow> Inl Uninitialised
         | Some eof_code \<Rightarrow>
             (case d_force_size d of
                None \<Rightarrow> Inl Uninitialised
              | Some force_size \<Rightarrow>
                  bindR (decompress fuel ret junk (d_mode d) retval (d_root d) (d_escapes d) eof_code
                           force_size (wrap32 (int offset)) src)
                    (\<lambda>res. Inr (map_option (\<lambda>(sz, out, root). (sz, out, d\<lparr>d_root := root\<rparr>)) res)))))"

text \<open>
  memmove of \<open>sz\<close> bytes of the text \<open>s\<close>, which has a terminating zero byte, to index
  \<open>offset\<close> of a buffer.
\<close>

definition copy_out :: "bytes \<Rightarrow> nat \<Rightarrow> bytes \<Rightarrow> nat \<Rightarrow> bytes result" where
  "copy_out dest offset s sz =
     (if sz = 0 then Inr dest
      else if length s + 1 < sz \<or> length dest < offset + sz then Inl OutOfBounds
      else Inr (take offset dest @ take sz (s @ [0]) @ drop (offset + sz) dest))"

definition decode_buffer2buffer :: "nat \<Rightarrow> bool \<Rightarrow> byte \<Rightarrow> decoder \<Rightarrow> bytes option \<Rightarrow> nat
    \<Rightarrow> bytes option \<Rightarrow> nat \<Rightarrow> nat \<Rightarrow> (nat \<times> bytes option \<times> decoder) option result" where
  "decode_buffer2buffer fuel ret junk d dest dest_size data size0 offset =
     (if d_mode d = 0 then Inr (Some (size0, dest, d))
      else
        (case data of
           None \<Rightarrow> Inr (Some (0, dest, d))
         | Some src \<Rightarrow>
             (if size0 < offset \<or> length src < size0 then Inl OutOfBounds
              else
                bindR (unpack fuel ret junk d (Some []) (drop offset (take size0 src)) offset) (\<lambda>res.
                  case res of
                    None \<Rightarrow> Inr None
                  | Some (sz, ss, d') \<Rightarrow>
                      (if 0 < sz then
                         (let sz' = (if dest_size < sz then dest_size else sz)
                          in if d_valid_packet_sizes d' \<noteq> []
                                \<and> sz' + offset \<in> set (d_valid_packet_sizes d')
                             then Inr (Some (size0, dest, d'))
                             else
                               (case dest of
                                  None \<Rightarrow> Inr (Some (sz' + offset, None, d'))
                                | Some buf \<Rightarrow>
                                    bindR (copy_out buf offset (case_option [] id ss) sz')
                                      (\<lambda>buf'. Inr (Some (sz' + offset, Some buf', d')))))
                       else Inr (Some (sz + offset, dest, d')))))))"

text \<open>
  The constructor \<open>std::string r('\0', sz)\<close> makes \<open>'\0'\<close>, that is no, copies of the character
  \<open>sz\<close>: the string is empty and its buffer has the terminating zero only.
\<close>

definition decode_buffer2string :: "nat \<Rightarrow> bool \<Rightarrow> byte \<Rightarrow> decoder \<Rightarrow> bytes \<Rightarrow> nat
    \<Rightarrow> (bytes \<times> decoder) option result" where
  "decode_buffer2string fuel ret junk d v offset =
     bindR (decode_buffer2buffer fuel ret junk d None 0 (Some v) (length v) offset) (\<lambda>res.
       case res of
         None \<Rightarrow> Inr None
       | Some (sz, none, d1) \<Rightarrow>
           (if sz = 0 then Inr (Some ([], d1))
            else
              bindR (decode_buffer2buffer fuel ret junk d1 (Some [0]) sz (Some v) (length v) offset) (\<lambda>res'.
                case res' of
                  None \<Rightarrow> Inr None
                | Some (sz', buf, d2) \<Rightarrow> Inr (Some ([], d2)))))"

definition decode_string2string :: "nat \<Rightarrow> bool \<Rightarrow> byte \<Rightarrow> decoder \<Rightarrow> bytes \<Rightarrow> nat
    \<Rightarrow> (bytes \<times> decoder) option result" where
  "decode_string2string fuel ret junk d v offset = decode_buffer2string fuel ret junk d v offset"

subsection \<open>The encoder\<close>

record encoder =
  e_mode :: int
  e_code_map :: codemap
  e_escapes :: "codensize list"
  e_eof :: "huffcode option option"

definition encoder_new :: "u64 list \<Rightarrow> encoder" where
  "encoder_new garbage =
     \<lparr>e_mode = 1, e_code_map = defaultHuffmanCodeMap garbage, e_escapes = [], e_eof = None\<rparr>"

definition e_setMode :: "int \<Rightarrow> encoder \<Rightarrow> encoder" where
  "e_setMode v e = e\<lparr>e_mode := v\<rparr>"

definition e_setCodeMapByMode :: "int \<Rightarrow> encoder \<Rightarrow> encoder" where
  "e_setCodeMapByMode v e = e\<lparr>e_mode := v\<rparr>"

definition e_setEscapeCode :: "string \<Rightarrow> int \<Rightarrow> encoder \<Rightarrow> encoder" where
  "e_setEscapeCode escape_code bits e =
     e\<lparr>e_escapes := e_escapes e @ [(getHuffCode escape_code, bits)]\<rparr>"

definition e_setEOFCode :: "string \<Rightarrow> encoder \<Rightarrow> encoder" where
  "e_setEOFCode escape_code e =
     e\<lparr>e_eof := Some (if escape_code = [] then None else Some (getHuffCode escape_code))\<rparr>"

definition e_setCodeMapFromFrequencies :: "u64 list \<Rightarrow> encoder \<Rightarrow> encoder" where
  "e_setCodeMapFromFrequencies frequencies e =
     e\<lparr>e_code_map := generateCodes [] (buildTree frequencies) []\<rparr>"

definition e_setCodeMapFromFrequenciesStream :: "string \<Rightarrow> encoder \<Rightarrow> encoder" where
  "e_setCodeMapFromFrequenciesStream strm e =
     e_setCodeMapFromFrequencies (fst (loadFrequencies 256 strm)) e"

text \<open>pack: the size it reports, the output stream, and the input buffer afterwards.\<close>

definition pack :: "encoder \<Rightarrow> bytes option \<Rightarrow> bytes \<Rightarrow> nat \<Rightarrow> (u64 \<times> bytes option \<times> bytes) result" where
  "pack e retval src offset =
     (if e_mode e \<noteq> 1
      then (case retval of
              None \<Rightarrow> Inl NullPointer
            | Some strm \<Rightarrow> Inr (of_nat (length src), Some (strm @ src), src))
      else
        (case e_eof e of
           None \<Rightarrow> Inl Uninitialised
         | Some eof_code \<Rightarrow>
             compress retval (e_code_map e) (e_escapes e) eof_code (wrap32 (int offset)) src))"

definition encode_buffer2buffer :: "encoder \<Rightarrow> bytes option \<Rightarrow> nat \<Rightarrow> bytes option \<Rightarrow> nat
    \<Rightarrow> (u64 \<times> bytes option \<times> bytes option) result" where
  "encode_buffer2buffer e dest dest_size data offset =
     (case data of
        None \<Rightarrow> Inr (0, dest, None)
      | Some src \<Rightarrow>
          (if e_mode e = 0
           then (case dest of
                   None \<Rightarrow> Inr (of_nat (length src), None, data)
                 | Some buf \<Rightarrow>
                     bindR (copy_out buf offset src (min (length src) dest_size)) (\<lambda>buf'.
                       Inr (of_nat (length src), Some buf', data)))
           else if length src < offset then Inl OutOfBounds
           else
             bindR (pack e (Some []) (drop offset src) offset) (\<lambda>(sz, ss, src').
               let data' = Some (take offset src @ src')
               in if 0 < sz then
                    (case dest of
                       None \<Rightarrow> Inr (sz + of_nat offset, None, data')
                     | Some buf \<Rightarrow>
                         (let sz' = (if of_nat dest_size < sz then of_nat dest_size else sz)
                          in bindR (copy_out buf offset (case_option [] id ss) (unat sz')) (\<lambda>buf'.
                               Inr (sz' + of_nat offset, Some buf', data'))))
                  else Inr (sz + of_nat offset, dest, data'))))"

definition encode_string2string :: "encoder \<Rightarrow> bytes \<Rightarrow> nat \<Rightarrow> (bytes \<times> bytes) result" where
  "encode_string2string e v offset =
     bindR (encode_buffer2buffer e None 0 (Some v) offset) (\<lambda>(sz, none, v1).
       if sz = 0 then Inr ([], case_option v id v1)
       else
         bindR (encode_buffer2buffer e (Some [0]) (unat sz) v1 offset) (\<lambda>(sz', buf, v2).
           Inr ([], case_option v id v2)))"


subsection \<open>Both classes set up from one frequency table\<close>

definition encoder_for :: "u64 list \<Rightarrow> string \<Rightarrow> string \<Rightarrow> u64 list \<Rightarrow> encoder" where
  "encoder_for garbage esc eof frequencies =
     e_setEOFCode eof (e_setEscapeCode esc 8 (e_setCodeMapFromFrequencies frequencies (encoder_new garbage)))"

definition decoder_for :: "u64 list \<Rightarrow> string \<Rightarrow> string \<Rightarrow> u64 list \<Rightarrow> decoder" where
  "decoder_for garbage esc eof frequencies =
     d_setForceSize 0 (d_setEOFCode eof (d_setEscapeCode esc 8
       (d_setTreeFromFrequencies frequencies (decoder_new garbage))))"

lemma getHuffCode_Nil [simp]: "getHuffCode t = [] \<longleftrightarrow> t = []"
  by (simp add: getHuffCode_def)

lemma encoder_for_sel:
  "eof \<noteq> [] \<Longrightarrow> e_mode (encoder_for g esc eof fs) = 1 \<and> e_eof (encoder_for g esc eof fs) = Some (Some (getHuffCode eof))
    \<and> e_escapes (encoder_for g esc eof fs) = [(getHuffCode esc, 8)]
    \<and> e_code_map (encoder_for g esc eof fs) = generateCodes [] (buildTree fs) []"
  by (simp add: encoder_for_def encoder_new_def e_setEOFCode_def e_setEscapeCode_def
      e_setCodeMapFromFrequencies_def)

lemma decoder_for_sel:
  "eof \<noteq> [] \<Longrightarrow> d_mode (decoder_for g esc eof fs) = 1 \<and> d_eof (decoder_for g esc eof fs) = Some (Some (getHuffCode eof))
    \<and> d_escapes (decoder_for g esc eof fs) = [(getHuffCode esc, 8)]
    \<and> d_root (decoder_for g esc eof fs) = buildTree fs \<and> d_force_size (decoder_for g esc eof fs) = Some 0"
  by (simp add: decoder_for_def decoder_new_def d_setEOFCode_def d_setEscapeCode_def
      d_setTreeFromFrequencies_def d_setForceSize_def)

lemma coder_for:
  assumes "buildTree fs = Some t" and "length fs \<le> 256" and "is_inner t"
    and "code_of t x = Some (getHuffCode esc)" and "code_of t e = Some (getHuffCode eof)"
  shows "coder t (generateCodes [] (buildTree fs) []) [(getHuffCode esc, 8)] (Some (getHuffCode eof))
    \<and> eof \<noteq> [] \<and> esc \<noteq> []"
proof -
  have d: "distinct (leaf_chars t)" using assms(1,2) by (rule buildTree_distinct)
  from inner_code_nonempty [OF assms(3) assms(4)] inner_code_nonempty [OF assms(3) assms(5)]
  show ?thesis
    using d buildTree_fresh [OF assms(1)] generateCodes_code_of [OF d] assms
    by (auto simp: coder_def codes_of_def full_bytes_def codes_in_def)
qed

lemma no_string:
  assumes "decode_buffer2string fuel ret junk d v offset = Inr (Some (s, d'))"
  shows "s = []"
proof -
  from assms obtain sz out d1 where "decode_buffer2buffer fuel ret junk d None 0 (Some v) (length v) offset
      = Inr (Some (sz, out, d1))"
    by (auto simp: decode_buffer2string_def split: option.splits)
  with assms show ?thesis
    by (cases "sz = 0") (auto simp: decode_buffer2string_def split: option.splits)
qed

text \<open>What encode_buffer2buffer copies: as many bytes as the packet has bits.\<close>

lemma copy_out_short: "length s + 1 < sz \<Longrightarrow> copy_out dest offset s sz = Inl OutOfBounds"
  by (simp add: copy_out_def)

subsection \<open>Properties\<close>

text \<open>
  C24: An encoder and a decoder set up through their setters from one frequency table, one
  eight-bit escape code and one end code understand each other: what pack writes unpack
  turns back into the packet, for every offset inside the packet, where read_buffer, which has no
  return statement behind the read, happens to return true (the \<open>True\<close> among the arguments).
\<close>

theorem pack_unpack:
  assumes "buildTree frequencies = Some t" and "length frequencies \<le> 256" and "is_inner t"
    and "code_of t x = Some (getHuffCode esc)" and "code_of t e = Some (getHuffCode eof)"
    and "offset \<le> length data" and "offset < 2 ^ 31"
    and "\<forall>b \<in> set (drop offset data). b \<in> set (leaf_chars t) \<and> b \<noteq> e"
  shows "\<exists>n packed d'.
    pack (encoder_for garbage esc eof frequencies) (Some []) data offset = Inr (n, Some packed, data)
    \<and> (\<forall>fuel \<ge> 8 * length packed.
         unpack fuel True junk (decoder_for garbage' esc eof frequencies) (Some []) packed offset
           = Inr (Some (length data + 1, Some data, d')))"
proof -
  from coder_for [OF assms(1-5)] have cd: "coder t (generateCodes [] (buildTree frequencies) [])
      [(getHuffCode esc, 8)] (Some (getHuffCode eof))" and ne: "eof \<noteq> []" by auto
  have w: "wrap32 (int offset) = int offset" using assms(7) by (simp add: wrap32_id)
  have enc: "\<forall>b \<in> set (drop (nat (int offset)) data). encodable t (Some (getHuffCode eof)) b"
    using assms(5,8) by (auto simp: encodable_def dest: code_of_inj)
  have off: "nat (int offset) \<le> length data" using assms(6) by simp
  obtain n packed root' where
    "compress (Some []) (generateCodes [] (buildTree frequencies) []) [(getHuffCode esc, 8)]
       (Some (getHuffCode eof)) (int offset) data = Inr (n, Some packed, data)"
    "\<forall>fuel \<ge> 8 * length packed.
       decompress fuel True junk 1 (Some []) (Some t) [(getHuffCode esc, 8)] (Some (getHuffCode eof)) 0
         (int offset) packed = Inr (Some (length data + 1, Some data, root'))"
    using codec_eof [OF cd off enc, where mode = 1 and force = 0 and junk = junk] by auto
  with w encoder_for_sel [OF ne, of garbage esc frequencies]
    decoder_for_sel [OF ne, of garbage' esc frequencies] assms(1)
  show ?thesis by (auto simp: pack_def unpack_def)
qed

theorem pack_unpack_witness:
  "\<exists>n packed d'. pack (encoder_for [] ''11'' ''0'' [1, 1, 2]) (Some []) [5, 0, 1] 1 = Inr (n, Some packed, [5, 0, 1])
    \<and> unpack (8 * length packed) True 0 (decoder_for [] ''11'' ''0'' [1, 1, 2]) (Some []) packed 1
        = Inr (Some (4, Some [5, 0, 1], d'))"
proof -
  let ?t = "InternalNode 4 (LeafNode 2 2 0) (InternalNode 2 (LeafNode 1 0 0) (LeafNode 1 1 0))"
  have t: "buildTree [1, 1, 2] = Some ?t" by code_simp
  have c: "code_of ?t 1 = Some (getHuffCode ''11'')" "code_of ?t 2 = Some (getHuffCode ''0'')"
    by (simp_all add: getHuffCode_def)
  from pack_unpack [OF t _ _ c, where offset = 1 and data = "[5, 0, 1]" and garbage = "[]"
      and garbage' = "[]" and junk = 0]
  show ?thesis by (auto simp: is_inner_def)
qed

text \<open>
  The function decode_string2string never returns a decoded text: whenever it comes back, its
  result is the empty string, in every mode, for every input.
\<close>

theorem decode_string_is_empty:
  assumes "decode_string2string fuel ret junk d v offset = Inr (Some (s, d'))"
  shows "s = []"
  using assms no_string by (simp add: decode_string2string_def)

theorem decode_string_is_empty_witness:
  "\<exists>s d'. decode_string2string 100 True 0 (decoder_for [] ''11'' ''0'' [1, 1, 2])
        [0b0001, 0] 0 = Inr (Some (s, d')) \<and> s = []"
proof -
  have "\<exists>s d'. decode_string2string 100 True 0 (decoder_for [] ''11'' ''0'' [1, 1, 2])
        [0b0001, 0] 0 = Inr (Some (s, d'))"
  proof -
    have "case decode_string2string 100 True 0 (decoder_for [] ''11'' ''0'' [1, 1, 2]) [0b0001, 0] 0 of
        Inr (Some (s, d')) \<Rightarrow> True | _ \<Rightarrow> False"
      by code_simp
    then show ?thesis by (auto split: sum.splits option.splits prod.splits)
  qed
  with decode_string_is_empty show ?thesis by blast
qed

text \<open>
  The list of valid packet sizes works the wrong way round: a decoded packet whose
  size is in the list is dropped and the call reports the compressed size, the
  destination unchanged.
\<close>

theorem valid_size_is_not_decoded:
  assumes "d_mode d \<noteq> 0" and "offset \<le> length src"
    and "unpack fuel ret junk d (Some []) (drop offset src) offset = Inr (Some (sz, ss, d'))"
    and "0 < sz" and "sz \<le> dest_size" and "sz + offset \<in> set (d_valid_packet_sizes d')"
  shows "decode_buffer2buffer fuel ret junk d dest dest_size (Some src) (length src) offset
    = Inr (Some (length src, dest, d'))"
  using assms by (auto simp: decode_buffer2buffer_def Let_def)

theorem valid_size_is_not_decoded_witness:
  "\<exists>d'. decode_buffer2buffer 100 True 0
      (d_setValidPacketSizes [2] (decoder_for [] ''11'' ''0'' [1, 1, 2])) (Some [7, 7, 7, 7]) 4
      (Some [0b00001]) 1 0 = Inr (Some (1, Some [7, 7, 7, 7], d'))"
proof -
  let ?d = "d_setValidPacketSizes [2] (decoder_for [] ''11'' ''0'' [1, 1, 2])"
  let ?d' = "\<lparr>d_mode = 1, d_valid_packet_sizes = [2],
      d_root = Some (InternalNode 4 (LeafNode 2 2 1) (InternalNode 2 (LeafNode 1 0 0) (LeafNode 1 1 2))),
      d_escapes = [([True, True], 8)], d_eof = Some (Some [False]), d_force_size = Some 0\<rparr>"
  have "unpack 100 True 0 ?d (Some []) (drop 0 [0b00001]) 0 = Inr (Some (2, Some [0], ?d'))"
    by code_simp
  moreover have "d_mode ?d \<noteq> 0" by code_simp
  ultimately show ?thesis
    using valid_size_is_not_decoded [of ?d 0 "[0b00001]" 100 True 0 2 "Some [0]" ?d' 4] by auto
qed

text \<open>
  The function encode_buffer2buffer takes the number of bits that compress reports for a number of
  bytes: with room for the result in the destination it reads past the end of the packed
  bytes as soon as the packet has three bits.
\<close>

theorem encode_buffer_reads_past_end:
  assumes "buildTree frequencies = Some t" and "length frequencies \<le> 256" and "is_inner t"
    and "code_of t x = Some (getHuffCode esc)" and "code_of t e = Some (getHuffCode eof)"
    and "\<forall>b \<in> set data. b \<in> set (leaf_chars t) \<and> b \<noteq> e"
    and "bits = length (packed_bits (generateCodes [] (Some t) []) [(getHuffCode esc, 8)]
           (Some (getHuffCode eof)) data)"
    and "3 \<le> bits" and "bits < 2 ^ 64" and "bits \<le> dest_size" and "dest_size < 2 ^ 64"
  shows "encode_buffer2buffer (encoder_for garbage esc eof frequencies) (Some dest) dest_size (Some data) 0
    = Inl OutOfBounds"
proof -
  from coder_for [OF assms(1-5)] have cd: "coder t (generateCodes [] (Some t) [])
      [(getHuffCode esc, 8)] (Some (getHuffCode eof))" and ne: "eof \<noteq> []" using assms(1) by auto
  have "\<forall>b \<in> set data. b \<in> dom (map_of (generateCodes [] (Some t) []))"
    using cd assms(6) code_of_Some by (auto simp: coder_def codes_of_def)
  from compress_buffer_tail [OF this _ refl, of "[(getHuffCode esc, 8)]" "[]" "Some (getHuffCode eof)"]
  obtain packed
    where c: "compress_buffer [] (generateCodes [] (Some t) []) [(getHuffCode esc, 8)]
          (Some (getHuffCode eof)) data = Inr (of_nat bits, packed, data)"
      and p: "bits_of_bytes packed = packed_bits (generateCodes [] (Some t) []) [(getHuffCode esc, 8)]
          (Some (getHuffCode eof)) data @ pad_bits bits"
    using assms(7) by (auto simp: full_bytes_def)
  have "length (bits_of_bytes packed) = bits + length (pad_bits bits)" unfolding p using assms(7) by simp
  then have len: "8 * length packed = bits + (8 - bits mod 8) mod 8" by (simp add: pad_bits_def)
  then have "8 * length packed \<le> bits + 7" by linarith
  then have short: "length packed + 1 < bits" using assms(8) by linarith
  have u: "unat (of_nat bits :: u64) = bits" "unat (of_nat dest_size :: u64) = dest_size"
    using assms(9,11) by (simp_all add: unat_of_nat take_bit_nat_eq_self)
  then have gt: "(0 :: u64) < of_nat bits" "\<not> (of_nat dest_size :: u64) < of_nat bits"
    using assms(8,10) by (simp_all add: word_less_nat_alt)
  have "pack (encoder_for garbage esc eof frequencies) (Some []) data 0
      = Inr (of_nat bits, Some packed, data)"
    using c encoder_for_sel [OF ne, of garbage esc frequencies] assms(1)
    by (simp add: pack_def compress_def packet_header_def wrap32_def Let_def)
  then show ?thesis
    using gt u short encoder_for_sel [OF ne, of garbage esc frequencies]
    by (simp add: encode_buffer2buffer_def Let_def copy_out_short)
qed

theorem encode_buffer_reads_past_end_witness:
  "encode_buffer2buffer (encoder_for [] ''11'' ''0'' [1, 1, 2]) (Some [0, 0, 0, 0, 0, 0]) 6 (Some [0, 0]) 0
    = Inl OutOfBounds"
proof -
  let ?t = "InternalNode 4 (LeafNode 2 2 0) (InternalNode 2 (LeafNode 1 0 0) (LeafNode 1 1 0))"
  have t: "buildTree [1, 1, 2] = Some ?t" by code_simp
  have c: "code_of ?t 1 = Some (getHuffCode ''11'')" "code_of ?t 2 = Some (getHuffCode ''0'')"
    by (simp_all add: getHuffCode_def)
  have l: "5 = length (packed_bits (generateCodes [] (Some ?t) []) [(getHuffCode ''11'', 8)]
           (Some (getHuffCode ''0'')) [0, 0])"
    by code_simp
  from encode_buffer_reads_past_end [OF t _ _ c _ l, where dest_size = 6]
  show ?thesis by (simp add: is_inner_def)
qed

end
