(* ===== verification/PacketField.thy ===== *)
theory PacketField
  imports Prelude
begin

section \<open>Fields of binary packets\<close>

text \<open>
  extractField, extractFieldUInt/Int/Double, setFieldString/Int/UInt/Double and
  getPacketSize of utilprotobuf.cpp, with the messages Field, Variable and Packet of
  proto/pkt2.proto. A packet is the byte list of a std::string shorter than 2^31. Numbers
  are the 64 bits of their C++ object on a little-endian host, signed or not; doubles are
  their 64 bits, and the conversions between float and double are parameters.
\<close>

unbundle bit_operations_syntax

subsection \<open>Metadata\<close>

datatype input_type = INPUT_NONE | INPUT_MESSAGE | INPUT_DOUBLE | INPUT_INT | INPUT_UINT
  | INPUT_BYTES | INPUT_CHAR | INPUT_STRING

datatype endian = ENDIAN_NO_MATTER | ENDIAN_LITTLE_ENDIAN | ENDIAN_BIG_ENDIAN

record field =
  f_name :: string
  f_type :: input_type
  f_endian :: endian
  f_offset :: u32
  f_size :: u32
  f_tag :: u64

record packet_options =
  pk_name :: string
  pk_id :: u64
  pk_fields :: "field list"

definition endian_need_swap :: "endian \<Rightarrow> bool" where
  "endian_need_swap v = (v \<noteq> ENDIAN_NO_MATTER \<and> v \<noteq> ENDIAN_LITTLE_ENDIAN)"

subsection \<open>Bytes of integers\<close>

fun le_val :: "bytes \<Rightarrow> u64" where
  "le_val [] = 0"
| "le_val (b # bs) = ucast b OR push_bit 8 (le_val bs)"

definition le_bytes :: "u64 \<Rightarrow> bytes" where
  "le_bytes v = map (\<lambda>i. ucast (drop_bit (8 * i) v)) [0..<8]"

text \<open>Reading \<open>n\<close> bytes at the start of a string.\<close>

definition load :: "nat \<Rightarrow> bytes \<Rightarrow> u64 result" where
  "load n r = (if length r < n then Inl OutOfBounds else Inr (le_val (take n r)))"

subsection \<open>Extracting\<close>

text \<open>std::string::substr: the position may be the end, the count is cut.\<close>

definition substr :: "'a list \<Rightarrow> nat \<Rightarrow> nat \<Rightarrow> 'a list result" where
  "substr s pos n =
     (if length s < pos then Inl (Thrown ''out_of_range'') else Inr (take n (drop pos s)))"

definition extractField :: "bytes \<Rightarrow> field \<Rightarrow> bytes result" where
  "extractField packet f =
     (if (of_nat (length packet) :: u32) < f_offset f + f_size f
      then Inr (replicate (unat (f_size f)) 0)
      else
        bindR (substr packet (unat (f_offset f)) (unat (f_size f))) (\<lambda>r.
          if 1 < f_size f \<and> endian_need_swap (f_endian f)
          then (if length r < unat (f_size f) then Inl OutOfBounds else Inr (rev r))
          else Inr r))"

text \<open>
  The number of bytes the default cases and the setters move: the size as an int is
  compared with the unsigned sizeof, so a size from 2^31 on counts as large.
\<close>

definition move_size :: "field \<Rightarrow> nat" where
  "move_size f = (if unat (f_size f) < 8 then unat (f_size f) else 8)"

definition extractFieldUInt :: "bytes \<Rightarrow> field \<Rightarrow> u64 result" where
  "extractFieldUInt packet f =
     bindR (extractField packet f) (\<lambda>r.
       let sz = f_size f
       in if sz = 0 then Inr 0
          else if sz = 1 then load 1 r
          else if sz = 2 then load 2 r
          else if sz = 4 then load 4 r
          else if sz = 8 then load 8 r
          else load (move_size f) r)"

definition extractFieldInt :: "bytes \<Rightarrow> field \<Rightarrow> u64 result" where
  "extractFieldInt packet f =
     bindR (extractField packet f) (\<lambda>r.
       let sz = f_size f
       in if sz = 0 then Inr 0
          else if sz = 1 then bindR (load 1 r) (\<lambda>v. Inr (signed_take_bit 7 v))
          else if sz = 2 then bindR (load 2 r) (\<lambda>v. Inr (signed_take_bit 15 v))
          else if sz = 4 then bindR (load 4 r) (\<lambda>v. Inr (signed_take_bit 31 v))
          else if sz = 8 then load 8 r
          else load (move_size f) r)"

definition extractFieldDouble :: "(u32 \<Rightarrow> u64) \<Rightarrow> bytes \<Rightarrow> field \<Rightarrow> u64 result" where
  "extractFieldDouble float_to_double packet f =
     bindR (extractField packet f) (\<lambda>r.
       if f_size f = 4 then bindR (load 4 r) (\<lambda>v. Inr (float_to_double (ucast v)))
       else if f_size f = 8 then load 8 r
       else Inr 0)"

subsection \<open>Setting\<close>

text \<open>memmove of \<open>bs\<close> to position \<open>pos\<close> of the packet.\<close>

definition poke :: "bytes \<Rightarrow> nat \<Rightarrow> bytes \<Rightarrow> bytes result" where
  "poke packet pos bs =
     (if length packet < pos + length bs then Inl OutOfBounds
      else Inr (take pos packet @ bs @ drop (pos + length bs) packet))"

text \<open>
  std::reverse over the first \<open>size\<close> bytes of the eight-byte local value, when the size
  as an int is more than one.
\<close>

definition swapped :: "field \<Rightarrow> bytes \<Rightarrow> bytes result" where
  "swapped f v =
     (if 1 < sint (f_size f) \<and> endian_need_swap (f_endian f)
      then (if length v < unat (f_size f) then Inl OutOfBounds
            else Inr (rev (take (unat (f_size f)) v) @ drop (unat (f_size f)) v))
      else Inr v)"

text \<open>
  setFieldString copies \<open>&value\<close>, the bytes of the std::string object itself and not of
  its text: they are the parameter \<open>value_object\<close>.
\<close>

definition setFieldString :: "bytes \<Rightarrow> field \<Rightarrow> bytes \<Rightarrow> bytes result" where
  "setFieldString packet f value_object =
     (if f_size f = 0 then Inr packet
      else if length value_object < unat (f_size f) then Inl OutOfBounds
      else poke packet (unat (f_offset f)) (take (unat (f_size f)) value_object))"

definition setFieldUInt :: "bytes \<Rightarrow> field \<Rightarrow> u64 \<Rightarrow> bytes result" where
  "setFieldUInt packet f v =
     (if f_size f = 0 then Inr packet
      else bindR (swapped f (le_bytes v)) (\<lambda>bs.
             poke packet (unat (f_offset f)) (take (move_size f) bs)))"

definition setFieldInt :: "bytes \<Rightarrow> field \<Rightarrow> u64 \<Rightarrow> bytes result" where
  "setFieldInt packet f v =
     (if f_size f = 0 then Inr packet
      else bindR (swapped f (le_bytes v)) (\<lambda>bs.
             poke packet (unat (f_offset f)) (take (move_size f) bs)))"

definition setFieldDouble :: "(u64 \<Rightarrow> u32) \<Rightarrow> bytes \<Rightarrow> field \<Rightarrow> u64 \<Rightarrow> bytes result" where
  "setFieldDouble double_to_float packet f v =
     (if f_size f = 0 then Inr packet
      else bindR (swapped f (le_bytes v)) (\<lambda>bs.
             if f_size f = 4
             then poke packet (unat (f_offset f)) (take 4 (le_bytes (ucast (double_to_float (le_val bs)))))
             else poke packet (unat (f_offset f)) (take (move_size f) bs)))"

subsection \<open>The size of a packet\<close>

fun packet_size_from :: "field list \<Rightarrow> u64 \<Rightarrow> u64" where
  "packet_size_from [] r = r"
| "packet_size_from (f # fs) r =
     (let c = ucast (f_offset f + f_size f) in packet_size_from fs (if c > r then c else r))"

definition getPacketSize :: "packet_options \<Rightarrow> u64" where
  "getPacketSize packet = packet_size_from (pk_fields packet) 0"

subsection \<open>What a store of numbers in fields promises\<close>

definition apart :: "field \<Rightarrow> field \<Rightarrow> bool" where
  "apart f g = (unat (f_offset f) + unat (f_size f) \<le> unat (f_offset g)
     \<or> unat (f_offset g) + unat (f_size g) \<le> unat (f_offset f))"

text \<open>Setting several fields one after the other.\<close>

fun set_all :: "(bytes \<Rightarrow> field \<Rightarrow> u64 \<Rightarrow> bytes result) \<Rightarrow> bytes \<Rightarrow> (field \<times> u64) list \<Rightarrow> bytes result" where
  "set_all put packet [] = Inr packet"
| "set_all put packet ((f, v) # fvs) = bindR (put packet f v) (\<lambda>packet'. set_all put packet' fvs)"

locale field_store =
  fixes get :: "bytes \<Rightarrow> field \<Rightarrow> u64 result"
    and put :: "bytes \<Rightarrow> field \<Rightarrow> u64 \<Rightarrow> bytes result"
    and norm :: "field \<Rightarrow> u64 \<Rightarrow> u64"
    and fits :: "nat \<Rightarrow> field \<Rightarrow> bool"
  assumes put_ok: "fits (length p) f \<Longrightarrow> \<exists>p'. put p f v = Inr p' \<and> length p' = length p"
    and get_put: "fits (length p) f \<Longrightarrow> put p f v = Inr p' \<Longrightarrow> get p' f = Inr (norm f v)"
    and get_put_apart: "fits (length p) f \<Longrightarrow> fits (length p) g \<Longrightarrow> apart f g \<Longrightarrow> put p f v = Inr p'
      \<Longrightarrow> get p' g = get p g"
begin

lemma get_set_all_apart:
  "\<lbrakk>list_all (\<lambda>(f, v). fits (length p) f \<and> apart f g) fvs; fits (length p) g\<rbrakk>
    \<Longrightarrow> \<exists>p'. set_all put p fvs = Inr p' \<and> length p' = length p \<and> get p' g = get p g"
proof (induction fvs arbitrary: p)
  case (Cons fv fvs)
  obtain f v where fv: "fv = (f, v)" by fastforce
  with Cons.prems put_ok obtain p1 where p1: "put p f v = Inr p1" "length p1 = length p" by fastforce
  with Cons.prems fv have "get p1 g = get p g" by (auto intro: get_put_apart)
  moreover from Cons.IH [of p1] Cons.prems p1 obtain p' where
    "set_all put p1 fvs = Inr p'" "length p' = length p1" "get p' g = get p1 g" by auto
  ultimately show ?case using fv p1 by auto
qed simp

text \<open>Fields that lie apart keep their values through later writes.\<close>

lemma get_set_all:
  assumes "list_all (\<lambda>(f, v). fits (length p) f) fvs" and "sorted_wrt (\<lambda>(f, v) (g, w). apart g f) fvs"
  shows "\<exists>p'. set_all put p fvs = Inr p' \<and> length p' = length p
    \<and> list_all (\<lambda>(f, v). get p' f = Inr (norm f v)) fvs"
  using assms
proof (induction fvs arbitrary: p)
  case (Cons fv fvs)
  obtain f v where fv: "fv = (f, v)" by fastforce
  with Cons.prems put_ok obtain p1 where p1: "put p f v = Inr p1" "length p1 = length p" by fastforce
  with Cons.IH [of p1] Cons.prems obtain p' where
    p': "set_all put p1 fvs = Inr p'" "length p' = length p1" "list_all (\<lambda>(f, v). get p' f = Inr (norm f v)) fvs"
    by auto
  have "list_all (\<lambda>(g, w). fits (length p1) g \<and> apart g f) fvs"
    using Cons.prems fv p1 by (auto simp: list_all_iff)
  from get_set_all_apart [OF this] Cons.prems p1 fv p'(1) have "get p' f = get p1 f" by auto
  also have "\<dots> = Inr (norm f v)" using get_put [OF _ p1(1)] Cons.prems fv by auto
  finally show ?case using fv p1 p' by auto
qed simp

end

subsection \<open>Bytes of a value\<close>

lemma length_le_bytes [simp]: "length (le_bytes v) = 8"
  by (simp add: le_bytes_def)

lemma bit_le_bytes: "k < 8 \<Longrightarrow> bit (le_bytes v ! k) j \<longleftrightarrow> j < 8 \<and> bit v (8 * k + j)"
  by (auto simp: le_bytes_def bit_simps dest: bit_imp_le_length)

lemma bit_le_val: "bit (le_val bs) i \<longleftrightarrow> i < 64 \<and> i div 8 < length bs \<and> bit (bs ! (i div 8)) (i mod 8)"
proof (induction bs arbitrary: i)
  case (Cons b bs)
  show ?case
  proof (cases "i < 8")
    case True
    then show ?thesis by (auto simp: bit_simps)
  next
    case False
    then obtain j where j: "i = j + 8" by (metis add.commute le_Suc_ex not_less)
    have "\<not> bit b i" using False by (auto dest: bit_imp_le_length)
    then have "bit (le_val (b # bs)) i \<longleftrightarrow> i < 64 \<and> bit (le_val bs) j"
      by (auto simp: bit_simps j)
    moreover have "(j + 8) div 8 = Suc (j div 8)" by simp
    ultimately show ?thesis using Cons.IH [of j] by (auto simp: j)
  qed
qed simp

lemma le_val_le_bytes: "n \<le> 8 \<Longrightarrow> le_val (take n (le_bytes v)) = take_bit (8 * n) v"
proof (rule bit_eqI)
  fix i
  assume n: "n \<le> 8" and i: "possible_bit TYPE(64 word) i"
  have "8 * (i div 8) + i mod 8 = i" by simp
  moreover have "i div 8 < n \<longleftrightarrow> i < 8 * n" by auto
  ultimately show "bit (le_val (take n (le_bytes v))) i = bit (take_bit (8 * n) v) i"
    using n i by (auto simp: bit_le_val bit_le_bytes bit_simps)
qed

subsection \<open>Writing and reading a slice\<close>

definition in_packet :: "nat \<Rightarrow> field \<Rightarrow> bool" where
  "in_packet n f = (0 < f_size f \<and> unat (f_size f) \<le> 8 \<and> unat (f_offset f) + unat (f_size f) \<le> n \<and> n < 2 ^ 31)"

lemma poke_slice:
  "poke p pos bs = Inr p' \<Longrightarrow> take (length bs) (drop pos p') = bs \<and> length p' = length p"
  by (auto simp: poke_def split: if_splits)

lemma poke_other:
  assumes p': "poke p pos bs = Inr p'" and "pos + length bs \<le> a \<or> a + n \<le> pos"
  shows "take n (drop a p') = take n (drop a p)"
proof -
  have eq: "p' = take pos p @ bs @ drop (pos + length bs) p" and len: "pos + length bs \<le> length p"
    using p' by (auto simp: poke_def split: if_splits)
  from assms(2) show ?thesis
  proof
    assume "pos + length bs \<le> a"
    then have "drop a p' = drop a p" using len by (simp add: eq)
    then show ?thesis by simp
  next
    assume a: "a + n \<le> pos"
    then have "take n (drop a p') = take n (drop a (take pos p))" using len by (simp add: eq)
    also have "\<dots> = take n (drop a p)" using a by (simp add: drop_take)
    finally show ?thesis .
  qed
qed

lemma extractField_in:
  assumes "in_packet (length p) f"
  shows "extractField p f = Inr
    ((if 1 < f_size f \<and> endian_need_swap (f_endian f) then rev else id)
       (take (unat (f_size f)) (drop (unat (f_offset f)) p)))"
proof -
  have "unat (f_offset f) + unat (f_size f) < 2 ^ 32" using assms by (simp add: in_packet_def)
  then have s: "unat (f_offset f + f_size f) = unat (f_offset f) + unat (f_size f)"
    by (simp add: unat_word_ariths)
  have l: "unat (of_nat (length p) :: u32) = length p"
    using assms by (simp add: in_packet_def unat_of_nat take_bit_nat_eq_self)
  have "\<not> (of_nat (length p) :: u32) < f_offset f + f_size f"
    using assms by (simp add: word_less_nat_alt s l in_packet_def)
  moreover have "length (take (unat (f_size f)) (drop (unat (f_offset f)) p)) = unat (f_size f)"
    "unat (f_offset f) \<le> length p"
    using assms by (auto simp: in_packet_def)
  ultimately show ?thesis by (simp add: extractField_def substr_def del: length_take length_drop)
qed

lemma in_packet_words:
  assumes "in_packet n f"
  shows "1 < sint (f_size f) \<longleftrightarrow> 1 < f_size f" and "move_size f = unat (f_size f)" and "f_size f \<noteq> 0"
proof -
  have u: "unat (f_size f) \<le> 8" using assms by (simp add: in_packet_def)
  then have "int (unat (f_size f)) \<le> 8" by linarith
  then have "uint (f_size f) \<le> 8" by (simp only: uint_nat)
  then have hi: "uint (f_size f) < 2 ^ 31" by simp
  have "- (2 ^ 31) \<le> (0 :: int)" by simp
  also have "0 \<le> uint (f_size f)" by simp
  finally have "- (2 ^ 31) \<le> uint (f_size f)" .
  then have "sint (f_size f) = uint (f_size f)"
    using hi signed_take_bit_int_eq_self [of 31 "uint (f_size f)"] by (simp add: sint_uint)
  then show "1 < sint (f_size f) \<longleftrightarrow> 1 < f_size f" by (simp add: word_less_def)
  show "move_size f = unat (f_size f)" "f_size f \<noteq> 0"
    using assms by (auto simp: move_size_def in_packet_def)
qed


definition stored :: "field \<Rightarrow> u64 \<Rightarrow> bytes" where
  "stored f v = (if 1 < f_size f \<and> endian_need_swap (f_endian f) then rev else id)
     (take (unat (f_size f)) (le_bytes v))"

lemma length_stored [simp]: "in_packet n f \<Longrightarrow> length (stored f v) = unat (f_size f)"
  by (auto simp: stored_def in_packet_def)

lemma setFieldUInt_in:
  "in_packet (length p) f \<Longrightarrow> setFieldUInt p f v = poke p (unat (f_offset f)) (stored f v)"
  using in_packet_words [of "length p" f]
  by (auto simp: setFieldUInt_def swapped_def stored_def in_packet_def)

lemma setFieldInt_eq: "setFieldInt p f v = setFieldUInt p f v"
  by (simp add: setFieldInt_def setFieldUInt_def)

lemma poke_in: "in_packet (length p) f \<Longrightarrow> isOk (poke p (unat (f_offset f)) (stored f v))"
  by (simp add: poke_def in_packet_def stored_def)

lemma setFieldUInt_ok:
  assumes "in_packet (length p) f"
  shows "\<exists>p'. setFieldUInt p f v = Inr p' \<and> length p' = length p"
  using poke_in [OF assms, of v] poke_slice [of p "unat (f_offset f)" "stored f v"]
  by (auto simp: setFieldUInt_in [OF assms] isOk_iff)

lemma extract_stored:
  assumes f: "in_packet (length p) f" and put: "setFieldUInt p f v = Inr p'"
  shows "extractField p' f = Inr (take (unat (f_size f)) (le_bytes v))"
proof -
  from put have pk: "poke p (unat (f_offset f)) (stored f v) = Inr p'" by (simp add: setFieldUInt_in [OF f])
  from poke_slice [OF pk] f have "take (unat (f_size f)) (drop (unat (f_offset f)) p') = stored f v"
      and l: "length p' = length p" by auto
  moreover have "in_packet (length p') f" using f l by simp
  ultimately show ?thesis by (simp add: extractField_in stored_def)
qed

lemma extract_apart:
  assumes f: "in_packet (length p) f" and g: "in_packet (length p) g" and ap: "apart f g"
    and put: "setFieldUInt p f v = Inr p'"
  shows "extractField p' g = extractField p g"
proof -
  from put have pk: "poke p (unat (f_offset f)) (stored f v) = Inr p'" by (simp add: setFieldUInt_in [OF f])
  have l: "length p' = length p" using poke_slice [OF pk] by simp
  have "take (unat (f_size g)) (drop (unat (f_offset g)) p') = take (unat (f_size g)) (drop (unat (f_offset g)) p)"
    by (rule poke_other [OF pk]) (use ap f in \<open>auto simp: apart_def\<close>)
  with g l show ?thesis by (simp add: extractField_in)
qed

text \<open>The value that comes back: cut to the field, signed for the sizes of the int types.\<close>

definition norm_uint :: "field \<Rightarrow> u64 \<Rightarrow> u64" where
  "norm_uint f v = take_bit (8 * unat (f_size f)) v"

definition norm_int :: "field \<Rightarrow> u64 \<Rightarrow> u64" where
  "norm_int f v =
     (if f_size f = 1 \<or> f_size f = 2 \<or> f_size f = 4 then signed_take_bit (8 * unat (f_size f) - 1) v
      else take_bit (8 * unat (f_size f)) v)"

lemma load_stored:
  "in_packet n f \<Longrightarrow> load (unat (f_size f)) (take (unat (f_size f)) (le_bytes v)) = Inr (norm_uint f v)"
  by (auto simp: load_def in_packet_def le_val_le_bytes norm_uint_def)

lemma load_cases:
  assumes "in_packet n f"
  shows "(let sz = f_size f in if sz = 0 then Inr 0 else if sz = 1 then load 1 r else if sz = 2 then load 2 r
     else if sz = 4 then load 4 r else if sz = 8 then load 8 r else load (move_size f) r) = load (unat (f_size f)) r"
  using in_packet_words(2,3) [OF assms] by (auto simp: Let_def)

lemma extractFieldUInt_stored:
  assumes f: "in_packet (length p) f" and put: "setFieldUInt p f v = Inr p'"
  shows "extractFieldUInt p' f = Inr (norm_uint f v)"
  unfolding extractFieldUInt_def load_cases [OF f]
  by (simp add: extract_stored [OF f put] load_stored [OF f])

lemma signed_of_take: "signed_take_bit k (take_bit (Suc k) w) = signed_take_bit k w" for w :: u64
  by (rule bit_eqI) (auto simp: bit_simps min_def)

lemma extractFieldInt_stored:
  assumes f: "in_packet (length p) f" and put: "setFieldUInt p f v = Inr p'"
  shows "extractFieldInt p' f = Inr (norm_int f v)"
proof -
  note ld = load_stored [OF f, of v] and ex = extract_stored [OF f put]
  consider "f_size f = 1" | "f_size f = 2" | "f_size f = 4"
    | "f_size f \<noteq> 1 \<and> f_size f \<noteq> 2 \<and> f_size f \<noteq> 4" by blast
  then show ?thesis
  proof cases
    case 4
    with in_packet_words(2,3) [OF f] ld ex show ?thesis
      by (auto simp: extractFieldInt_def norm_int_def norm_uint_def Let_def)
  qed (use ld ex signed_of_take [of 7 v] signed_of_take [of 15 v] signed_of_take [of 31 v]
       in \<open>auto simp: extractFieldInt_def norm_int_def norm_uint_def Let_def\<close>)
qed

lemma extractFieldInt_cong: "extractField p f = extractField q f \<Longrightarrow> extractFieldInt p f = extractFieldInt q f"
  by (simp add: extractFieldInt_def)

lemma extractFieldUInt_cong: "extractField p f = extractField q f \<Longrightarrow> extractFieldUInt p f = extractFieldUInt q f"
  by (simp add: extractFieldUInt_def)

interpretation uint_store: field_store extractFieldUInt setFieldUInt norm_uint in_packet
  by unfold_locales (auto intro: setFieldUInt_ok extractFieldUInt_stored extractFieldUInt_cong extract_apart)

interpretation int_store: field_store extractFieldInt setFieldInt norm_int in_packet
  by unfold_locales (auto simp: setFieldInt_eq intro: setFieldUInt_ok extractFieldInt_stored
      extractFieldInt_cong extract_apart)

lemma setFieldDouble_8: "f_size f = 8 \<Longrightarrow> setFieldDouble d2f p f v = setFieldUInt p f v"
  by (auto simp: setFieldDouble_def setFieldUInt_def)

lemma extractFieldDouble_8: "f_size f = 8 \<Longrightarrow> extractFieldDouble f2d p f = extractFieldUInt p f"
  by (auto simp: extractFieldDouble_def extractFieldUInt_def)

interpretation double_store: field_store "extractFieldDouble f2d" "setFieldDouble d2f" norm_uint
  "\<lambda>n f. in_packet n f \<and> f_size f = 8"
  by unfold_locales (auto simp: setFieldDouble_8 extractFieldDouble_8
      intro: uint_store.put_ok uint_store.get_put uint_store.get_put_apart)

lemma packet_size_from_ge: "r \<le> packet_size_from fs r"
proof (induction fs arbitrary: r)
  case (Cons f fs)
  let ?c = "ucast (f_offset f + f_size f) :: u64"
  show ?case using Cons [of ?c] Cons [of r] by (auto simp: Let_def)
qed simp

lemma packet_size_from_fields: "f \<in> set fs \<Longrightarrow> ucast (f_offset f + f_size f) \<le> packet_size_from fs r"
proof (induction fs arbitrary: r)
  case (Cons g fs)
  show ?case
  proof (cases "f = g")
    case True
    then show ?thesis
      using packet_size_from_ge [of "ucast (f_offset f + f_size f)" fs] packet_size_from_ge [of r fs]
      by (auto simp: Let_def)
  qed (use Cons in \<open>auto simp: Let_def\<close>)
qed simp

lemma packet_size_from_attained:
  "packet_size_from fs r = r \<or> (\<exists>f \<in> set fs. packet_size_from fs r = ucast (f_offset f + f_size f))"
proof (induction fs arbitrary: r)
  case (Cons g fs)
  from Cons [of r] Cons [of "ucast (f_offset g + f_size g)"] show ?case by (auto simp: Let_def)
qed simp

subsection \<open>Properties\<close>

text \<open>
  C25: Numbers written one after the other into fields of a packet that lie apart, in any
  byte order, are all read back, cut to the size of their field; the packet keeps its
  length.
\<close>

theorem fields_roundtrip:
  assumes "list_all (\<lambda>(f, v). in_packet (length packet) f) fvs"
    and "sorted_wrt (\<lambda>(f, v) (g, w). apart g f) fvs"
  shows "\<exists>packet'. set_all setFieldUInt packet fvs = Inr packet' \<and> length packet' = length packet
    \<and> list_all (\<lambda>(f, v). extractFieldUInt packet' f = Inr (take_bit (8 * unat (f_size f)) v)) fvs"
  using uint_store.get_set_all [OF assms] by (simp add: norm_uint_def)

definition example_field :: "u32 \<Rightarrow> u32 \<Rightarrow> endian \<Rightarrow> u64 \<Rightarrow> field" where
  "example_field off sz en tg = \<lparr>f_name = ''f'', f_type = INPUT_UINT, f_endian = en, f_offset = off, f_size = sz, f_tag = tg\<rparr>"

theorem fields_roundtrip_witness:
  "\<exists>packet'. set_all setFieldUInt [0, 0, 0, 0, 0]
       [(example_field 1 3 ENDIAN_BIG_ENDIAN 0, 0x123456), (example_field 0 1 ENDIAN_NO_MATTER 0, 7)] = Inr packet'
     \<and> extractFieldUInt packet' (example_field 1 3 ENDIAN_BIG_ENDIAN 0) = Inr 0x123456"
proof -
  have t: "take_bit 24 (0x123456 :: u64) = 0x123456" by code_simp
  show ?thesis
    using fields_roundtrip [of "[0, 0, 0, 0, 0]"
        "[(example_field 1 3 ENDIAN_BIG_ENDIAN 0, 0x123456), (example_field 0 1 ENDIAN_NO_MATTER 0, 7)]"]
    by (auto simp: in_packet_def apart_def example_field_def t)
qed

text \<open>
  Signed values come back sign-extended from fields of 1, 2, 4 and 8 bytes, and as
  non-negative numbers from fields of 3, 5, 6 and 7 bytes.
\<close>

theorem int_field_sign:
  assumes "in_packet (length packet) f"
  shows "bindR (setFieldInt packet f v) (\<lambda>packet'. extractFieldInt packet' f) = Inr
    (if f_size f = 1 then signed_take_bit 7 v
     else if f_size f = 2 then signed_take_bit 15 v
     else if f_size f = 4 then signed_take_bit 31 v
     else take_bit (8 * unat (f_size f)) v)"
proof -
  obtain p' where p': "setFieldInt packet f v = Inr p'" using int_store.put_ok [OF assms] by blast
  then show ?thesis
    using int_store.get_put [OF assms p'] by (auto simp: norm_int_def)
qed

theorem int_field_sign_witness:
  "bindR (setFieldInt [0, 0, 0] (example_field 0 3 ENDIAN_BIG_ENDIAN 0) (- 1))
     (\<lambda>p. extractFieldInt p (example_field 0 3 ENDIAN_BIG_ENDIAN 0)) = Inr 0xFFFFFF
   \<and> bindR (setFieldInt [0, 0, 0] (example_field 1 2 ENDIAN_BIG_ENDIAN 0) (- 1))
     (\<lambda>p. extractFieldInt p (example_field 1 2 ENDIAN_BIG_ENDIAN 0)) = Inr (- 1)"
proof -
  have t: "take_bit 24 (- 1 :: u64) = 0xFFFFFF" "signed_take_bit 15 (- 1 :: u64) = - 1" by code_simp+
  show ?thesis
    using int_field_sign [of "[0, 0, 0]" "example_field 0 3 ENDIAN_BIG_ENDIAN 0" "- 1"]
      int_field_sign [of "[0, 0, 0]" "example_field 1 2 ENDIAN_BIG_ENDIAN 0" "- 1"] t
    by (simp add: in_packet_def example_field_def)
qed

text \<open>
  GetPacketSize is the largest end of a field, the 32-bit sum of its offset and size,
  and zero for a packet without fields.
\<close>

theorem packet_size_is_max:
  "(\<forall>f \<in> set (pk_fields packet). ucast (f_offset f + f_size f) \<le> getPacketSize packet)
   \<and> (getPacketSize packet = 0
       \<or> (\<exists>f \<in> set (pk_fields packet). getPacketSize packet = ucast (f_offset f + f_size f)))"
  using packet_size_from_fields packet_size_from_attained by (simp add: getPacketSize_def)

theorem packet_size_is_max_witness:
  "ucast (f_offset (example_field 3 2 ENDIAN_NO_MATTER 0) + f_size (example_field 3 2 ENDIAN_NO_MATTER 0))
    \<le> getPacketSize \<lparr>pk_name = ''p'', pk_id = 1, pk_fields = [example_field 3 2 ENDIAN_NO_MATTER 0]\<rparr>"
  using packet_size_is_max [of "\<lparr>pk_name = ''p'', pk_id = 1, pk_fields = [example_field 3 2 ENDIAN_NO_MATTER 0]\<rparr>"]
  by auto

text \<open>
  A big-endian float field does not hold the number that is written: setFieldDouble
  turns the bytes of the double round before it converts it to a float, so 1.0 is read
  back as the float with the bits 0x0000803F.
\<close>

theorem float_field_big_endian:
  assumes "double_to_float 0x3FF0000000000000 = 0x3F800000"
  shows "bindR (setFieldDouble double_to_float [0, 0, 0, 0] (example_field 0 4 ENDIAN_BIG_ENDIAN 0) 0x3FF0000000000000)
      (\<lambda>p. extractFieldDouble float_to_double p (example_field 0 4 ENDIAN_BIG_ENDIAN 0))
    = Inr (float_to_double 0x0000803F)"
proof -
  let ?f = "example_field 0 4 ENDIAN_BIG_ENDIAN 0"
  have s: "swapped ?f (le_bytes 0x3FF0000000000000) = Inr (le_bytes 0x3FF0000000000000)" by code_simp
  have v: "le_val (le_bytes 0x3FF0000000000000) = 0x3FF0000000000000" by code_simp
  have b: "take 4 (le_bytes (ucast (0x3F800000 :: u32))) = [0, 0, 0x80, 0x3F]" by code_simp
  have e: "extractField [0, 0, 0x80, 0x3F] ?f = Inr [0x3F, 0x80, 0, 0]" by code_simp
  have l: "le_val [0x3F, 0x80, 0, 0] = 0x803F" by code_simp
  have f: "f_size ?f = 4" "f_offset ?f = 0" by (simp_all add: example_field_def)
  have "setFieldDouble double_to_float [0, 0, 0, 0] ?f 0x3FF0000000000000 = Inr [0, 0, 0x80, 0x3F]"
    using assms s v b f by (simp add: setFieldDouble_def poke_def)
  then show ?thesis using e l f by (simp add: extractFieldDouble_def load_def)
qed

theorem float_field_big_endian_witness:
  "bindR (setFieldDouble (\<lambda>d. if d = 0 then 0 else 0x3F800000) [0, 0, 0, 0] (example_field 0 4 ENDIAN_BIG_ENDIAN 0)
        0x3FF0000000000000)
      (\<lambda>p. extractFieldDouble ucast p (example_field 0 4 ENDIAN_BIG_ENDIAN 0))
    = Inr 0x0000803F"
  using float_field_big_endian [of "\<lambda>d. if d = 0 then 0 else 0x3F800000" ucast] by simp

end
