(* ===== verification/NanoPacket.thy ===== *)
theory NanoPacket
  imports PacketField
begin

section \<open>The packet of the message queue\<close>

text \<open>
  input-packet.cpp: a buffer with a header byte, two socket addresses and the payload. The
  sizes are those of Linux: sockaddr_storage has 128 bytes, sockaddr 16.
\<close>

unbundle bit_operations_syntax

definition header_size :: nat where "header_size = 1"
definition storage_size :: nat where "storage_size = 128"
definition sockaddr_size :: nat where "sockaddr_size = 16"

record input_packet =
  ip_buffer :: bytes
  ip_size :: u64
  ip_length :: int
  ip_max_data_size :: int
  ip_allocated :: bool

text \<open>
  The allocating constructor clears the buffer before it looks whether malloc gave one.
\<close>

definition packet_alloc :: "bool \<Rightarrow> byte \<Rightarrow> u64 \<Rightarrow> input_packet result" where
  "packet_alloc malloc_ok typ adata_size =
     (let max = sint (ucast adata_size :: u32);
          size = of_nat header_size + 2 * of_nat storage_size + of_int max :: u64
      in if \<not> malloc_ok then Inl NullPointer
         else if size = 0 then Inl OutOfBounds
         else Inr \<lparr>ip_buffer = typ # replicate (unat size - 1) 0, ip_size = size, ip_length = 0,
                   ip_max_data_size = max, ip_allocated = True\<rparr>)"

definition packet_wrap :: "bytes \<Rightarrow> input_packet" where
  "packet_wrap data =
     (let size = of_nat (length data) :: u64;
          length = sint (ucast (size - of_nat header_size - 2 * of_nat storage_size) :: u32)
      in \<lparr>ip_buffer = data, ip_size = size, ip_length = length, ip_max_data_size = length,
          ip_allocated = False\<rparr>)"

text \<open>
  The cast binds before the sum in \<open>(struct sockaddr_storage *) buffer + sizeof(..)\<close>, so
  the sum counts whole sockaddr_storage objects.
\<close>

definition socket_addr_src :: nat where
  "socket_addr_src = storage_size * header_size"

definition socket_addr_dst :: nat where
  "socket_addr_dst = storage_size * (header_size + storage_size)"

definition set_socket_addr_src :: "bytes \<Rightarrow> input_packet \<Rightarrow> input_packet result" where
  "set_socket_addr_src ai_addr p =
     bindR (poke (ip_buffer p) socket_addr_src (take sockaddr_size ai_addr)) (\<lambda>b. Inr (p\<lparr>ip_buffer := b\<rparr>))"

definition set_socket_addr_dst :: "bytes \<Rightarrow> input_packet \<Rightarrow> input_packet result" where
  "set_socket_addr_dst ai_addr p =
     bindR (poke (ip_buffer p) socket_addr_dst (take sockaddr_size ai_addr)) (\<lambda>b. Inr (p\<lparr>ip_buffer := b\<rparr>))"

definition data_offset :: nat where
  "data_offset = header_size + storage_size + storage_size"

definition payload :: "input_packet \<Rightarrow> bytes" where
  "payload p = drop data_offset (ip_buffer p)"

definition setLength :: "int \<Rightarrow> input_packet \<Rightarrow> input_packet" where
  "setLength v p =
     p\<lparr>ip_length := v, ip_size := of_int v + of_nat header_size + 2 * of_nat storage_size\<rparr>"

text \<open>An int that becomes a size: a negative one is large.\<close>

definition size_t :: "int \<Rightarrow> nat" where
  "size_t i = unat (of_int i :: u64)"

definition getPayloadSize :: "int \<Rightarrow> int" where
  "getPayloadSize full_packet_size =
     sint (ucast (of_int full_packet_size - of_nat header_size - 2 * of_nat storage_size :: u64) :: u32)"

lemmas layout = header_size_def storage_size_def sockaddr_size_def socket_addr_src_def
  socket_addr_dst_def data_offset_def

lemma sint_small:
  fixes n :: u64
  assumes "unat n < 2 ^ 31"
  shows "sint (ucast n :: u32) = int (unat n)"
proof -
  have "(ucast n :: u32) = word_of_int (int (unat n))" by simp
  then have "sint (ucast n :: u32) = wrap32 (int (unat n))" unfolding wrap32_def by (rule arg_cong)
  also have "\<dots> = int (unat n)"   proof (rule wrap32_id)
    show "- (2 ^ 31) \<le> int (unat n)" by (rule order_trans [of _ 0]) simp_all
    have "int (unat n) < int (2 ^ 31)" using assms by (simp only: of_nat_less_iff)
    then show "int (unat n) < 2 ^ 31" by (simp only: of_nat_power of_nat_numeral)
  qed
  finally show ?thesis .
qed

lemma packet_size:
  assumes "unat (n :: u64) < 2 ^ 31"
  shows "unat (of_nat header_size + 2 * of_nat storage_size + of_int (int (unat n)) :: u64) = 257 + unat n"
proof -
  have "(of_nat header_size + 2 * of_nat storage_size + of_int (int (unat n)) :: u64) = of_nat (257 + unat n)"
    by (simp add: layout)
  then show ?thesis using assms by (simp only: unat_of_nat) (simp add: take_bit_nat_eq_self)
qed

lemma packet_alloc_ok:
  assumes "unat n < 2 ^ 31"
  obtains p where "packet_alloc True typ n = Inr p" "length (ip_buffer p) = 257 + unat n"
proof -
  let ?size = "of_nat header_size + 2 * of_nat storage_size + of_int (int (unat n)) :: u64"
  have "?size \<noteq> 0" using packet_size [OF assms] by (metis add_is_0 unat_0 zero_neq_numeral)
  then show thesis using packet_size [OF assms] that
    by (simp add: packet_alloc_def sint_small [OF assms] Let_def)
qed

lemma packet_alloc_length:
  assumes "unat n < 2 ^ 31" and "packet_alloc True typ n = Inr p"
  shows "length (ip_buffer p) = 257 + unat n"
  using packet_alloc_ok [OF assms(1)] assms(2) by (metis Inr_inject)

lemma set_dst:
  assumes len: "length ai_addr = sockaddr_size"
  shows "if length (ip_buffer p) < 16528 then set_socket_addr_dst ai_addr p = Inl OutOfBounds
    else \<exists>p'. set_socket_addr_dst ai_addr p = Inr p' \<and> take 16 (drop 16255 (payload p')) = ai_addr"
proof (cases "length (ip_buffer p) < 16528")
  case True
  then show ?thesis using len by (simp add: set_socket_addr_dst_def poke_def layout)
next
  case False
  then obtain b where b: "poke (ip_buffer p) 16512 ai_addr = Inr b"
    using len by (simp add: poke_def layout)
  have "take 16 (drop 16512 b) = ai_addr" using poke_slice [OF b] len by (simp add: layout)
  moreover have "set_socket_addr_dst ai_addr p = Inr (p\<lparr>ip_buffer := b\<rparr>)"
    using b len by (simp add: set_socket_addr_dst_def layout)
  ultimately show ?thesis using False by (simp add: payload_def layout)
qed

lemma set_src:
  assumes len: "length ai_addr = sockaddr_size" and room: "257 \<le> length (ip_buffer p)"
  shows "\<exists>p'. set_socket_addr_src ai_addr p = Inr p' \<and> payload p' = payload p
    \<and> take 16 (drop socket_addr_src (ip_buffer p')) = ai_addr"
proof -
  obtain b where b: "poke (ip_buffer p) 128 ai_addr = Inr b"
    using assms by (simp add: poke_def layout)
  have "take (length b) (drop 257 b) = take (length b) (drop 257 (ip_buffer p))"
    by (rule poke_other [OF b]) (use len in \<open>simp add: layout\<close>)
  then have "drop 257 b = drop 257 (ip_buffer p)" using poke_slice [OF b] by simp
  moreover have "take 16 (drop 128 b) = ai_addr" using poke_slice [OF b] len by (simp add: layout)
  moreover have "set_socket_addr_src ai_addr p = Inr (p\<lparr>ip_buffer := b\<rparr>)"
    using b len by (simp add: set_socket_addr_src_def layout)
  ultimately show ?thesis by (simp add: payload_def layout)
qed

lemma payload_size_of:
  assumes "257 \<le> n" "n < 2 ^ 31"
  shows "getPayloadSize (int n) = int n - 257"
proof -
  have e: "(of_int (int n) - of_nat header_size - 2 * of_nat storage_size :: u64) = of_nat (n - 257)"
    using assms(1) by (simp add: layout of_nat_diff)
  have u: "unat (of_nat (n - 257) :: u64) = n - 257"
    using assms(2) by (simp only: unat_of_nat) (simp add: take_bit_nat_eq_self)
  then have "sint (ucast (of_nat (n - 257) :: u64) :: u32) = int (n - 257)"
    using sint_small [of "of_nat (n - 257)"] assms(2) by (simp only: u)
  then show ?thesis unfolding getPayloadSize_def e using assms(1) by simp
qed

lemma payload_wrap: "payload (packet_wrap buf) = drop 257 buf"
  by (simp add: payload_def packet_wrap_def data_offset_def layout Let_def)

subsection \<open>Properties\<close>

text \<open>
  The source address is written inside the address part and leaves the payload alone,
  but the place of the destination address is not in the buffer at all: writing it leaves
  the buffer unless the packet has room for 16271 bytes of data, and then it overwrites
  the data from byte 16255 on.
\<close>

theorem destination_address_misplaced:
  assumes "unat data_size < 2 ^ 31" and "packet_alloc True typ data_size = Inr p"
    and "length ai_addr = sockaddr_size"
  shows "(\<exists>p'. set_socket_addr_src ai_addr p = Inr p' \<and> payload p' = payload p)
    \<and> (if unat data_size < 16271 then set_socket_addr_dst ai_addr p = Inl OutOfBounds
       else \<exists>p'. set_socket_addr_dst ai_addr p = Inr p' \<and> take 16 (drop 16255 (payload p')) = ai_addr)"
  using packet_alloc_length [OF assms(1,2)] set_src [OF assms(3), of p] set_dst [OF assms(3), of p]
  by (auto split: if_splits)

theorem destination_address_misplaced_witness:
  "\<exists>p. packet_alloc True 80 4 = Inr p \<and> set_socket_addr_dst (replicate 16 7) p = Inl OutOfBounds"
proof -
  obtain p where p: "packet_alloc True 80 4 = Inr p"
    by (simp add: packet_alloc_def layout)
  have "unat (4 :: u64) < 2 ^ 31" "length (replicate 16 (7 :: byte)) = sockaddr_size" by (simp_all add: layout)
  from destination_address_misplaced [OF this(1) p this(2)] p show ?thesis by simp
qed

end
