(* ===== verification/JsValue.thy ===== *)
theory JsValue
  imports Complex_Main Prelude
begin

section \<open>Javascript values\<close>

text \<open>
  The values the program exchanges with the Javascript engine, a third-party library: a
  number is a double, of which the sign of zero is left out, and an object is the list of
  its own properties in the order in which they were added. The types of the calls
  duk_push_int and duk_push_uint are 32 bits wide.
\<close>

unbundle bit_operations_syntax

datatype jnum =
    NotANum
  | Infinite bool                       \<comment> \<open>the flag is the sign, \<open>True\<close> for minus\<close>
  | Finite rat

datatype jsval =
    JUndefined
  | JNull
  | JBool bool
  | JNum jnum
  | JStr string
  | JArr "jsval option list"            \<comment> \<open>\<open>None\<close> is a hole\<close>
  | JObj "(string \<times> jsval) list"

text \<open>A C string ends at the first zero character.\<close>

definition c_string :: "string \<Rightarrow> string" where
  "c_string s = takeWhile (\<lambda>c. c \<noteq> CHR 0x00) s"

text \<open>The number a 64-bit IEEE 754 pattern stands for.\<close>

definition mantissa :: "u64 \<Rightarrow> nat" where
  "mantissa w = unat (w AND (2 ^ 52 - 1))"

definition exponent :: "u64 \<Rightarrow> nat" where
  "exponent w = unat (drop_bit 52 w AND 0x7FF)"

definition number_of_double :: "u64 \<Rightarrow> jnum" where
  "number_of_double w =
     (let sign = (if bit w 63 then -1 else 1 :: rat);
          m = mantissa w; e = exponent w
      in if e = 0x7FF then (if m = 0 then Infinite (bit w 63) else NotANum)
         else if e = 0 then Finite (sign * of_nat m / 2 ^ 1074)
         else if e < 1075 then Finite (sign * of_nat (2 ^ 52 + m) / 2 ^ (1075 - e))
         else Finite (sign * of_nat (2 ^ 52 + m) * 2 ^ (e - 1075)))"

definition js_int :: "int \<Rightarrow> jsval" where
  "js_int i = JNum (Finite (of_int i))"

text \<open>duk_push_int and duk_push_uint of a 64-bit integer: the argument is cut to 32 bits.\<close>

definition push_int :: "u64 \<Rightarrow> jsval" where
  "push_int v = js_int (sint (ucast v :: u32))"

definition push_uint :: "u64 \<Rightarrow> jsval" where
  "push_uint v = js_int (uint (ucast v :: u32))"

text \<open>Text as bytes, and a byte string passed as a C string.\<close>

definition text_of_bytes :: "bytes \<Rightarrow> string" where
  "text_of_bytes bs = map (\<lambda>b. char_of (unat b)) bs"

definition bytes_of_text :: "string \<Rightarrow> bytes" where
  "bytes_of_text s = map (\<lambda>c. of_nat (of_char c)) s"

definition push_string :: "bytes \<Rightarrow> jsval" where
  "push_string bs = JStr (c_string (text_of_bytes bs))"

text \<open>duk_put_prop_string: an existing property keeps its place.\<close>

fun put_prop :: "string \<Rightarrow> jsval \<Rightarrow> (string \<times> jsval) list \<Rightarrow> (string \<times> jsval) list" where
  "put_prop k v [] = [(k, v)]"
| "put_prop k v ((a, b) # m) = (if k = a then (a, v) # m else (a, b) # put_prop k v m)"

lemma map_of_put_prop: "map_of (put_prop k v m) = (map_of m)(k \<mapsto> v)"
  by (induction m) (auto simp: fun_eq_iff)

lemma keys_put_prop:
  "map fst (put_prop k v m) = (if k \<in> fst ` set m then map fst m else map fst m @ [k])"
  by (induction m) (auto simp: rev_image_eqI)

lemma distinct_put_prop: "distinct (map fst m) \<Longrightarrow> distinct (map fst (put_prop k v m))"
  by (auto simp: keys_put_prop)

lemma text_of_bytes_of_text [simp]: "text_of_bytes (bytes_of_text s) = s"
proof -
  have "char_of (unat (of_nat (of_char c) :: byte)) = c" for c :: char
    by (simp add: unat_of_nat take_bit_nat_eq_self)
  then show ?thesis
    by (simp add: text_of_bytes_def bytes_of_text_def map_idI)
qed

lemma bytes_of_text_of_bytes [simp]: "bytes_of_text (text_of_bytes bs) = bs"
proof -
  have "(of_nat (of_char (char_of (unat b) :: char)) :: byte) = b" for b :: byte
    using unsigned_less [of b, where ?'a = nat] by simp
  then show ?thesis
    by (simp add: text_of_bytes_def bytes_of_text_def map_idI)
qed

lemma sint_ucast32: "sint (ucast v :: u32) = signed_take_bit 31 (sint (v :: u64))"
  by (rule bit_eqI) (auto simp: bit_simps min_def)

lemma push_int_small: "- (2 ^ 31) \<le> sint v \<Longrightarrow> sint v < 2 ^ 31 \<Longrightarrow> push_int v = js_int (sint v)"
  unfolding push_int_def sint_ucast32 by (simp add: signed_take_bit_int_eq_self)

lemma push_uint_small: "v < 2 ^ 32 \<Longrightarrow> push_uint v = js_int (uint v)"
  by (simp add: push_uint_def unsigned_ucast_eq word_less_def take_bit_int_eq_self)

end
