(* ===== verification/SupervisorConfig.thy ===== *)
theory SupervisorConfig
  imports JsValue
begin

section \<open>Configuration of the supervisor\<close>

text \<open>
  The Cfg classes of pkt2-impl.cpp, their command lines, and
  ProcessDescriptors::load_config, which reads them from the global object of the
  Javascript engine. The engine is third-party code: the values of the global object after
  the script has run are a parameter. What duktape documents of its accessors is modelled:
  duk_get_string of a value that is no string is null, duk_get_number of a value that is
  no number is NaN, and property access on undefined or null throws, which ends in the
  fatal handler. Properties with accessor functions are left out.
\<close>

subsection \<open>Accessors of the engine\<close>

definition get_prop :: "jsval \<Rightarrow> string \<Rightarrow> jsval option result" where
  "get_prop v k =
     (case v of
        JUndefined \<Rightarrow> Inl (Thrown ''TypeError'')
      | JNull \<Rightarrow> Inl (Thrown ''TypeError'')
      | JObj m \<Rightarrow> Inr (map_of m k)
      | _ \<Rightarrow> Inr None)"

text \<open>Assigning duk_get_string to a std::string, duk_get_number to an int.\<close>

definition get_string :: "jsval \<Rightarrow> string result" where
  "get_string v = (case v of JStr s \<Rightarrow> Inr (c_string s) | _ \<Rightarrow> Inl NullPointer)"

definition trunc_num :: "rat \<Rightarrow> int" where
  "trunc_num q = (if 0 \<le> q then \<lfloor>q\<rfloor> else \<lceil>q\<rceil>)"

definition to_int :: "jnum \<Rightarrow> int result" where
  "to_int n =
     (case n of
        Finite q \<Rightarrow>
          (if - (2 ^ 31) \<le> trunc_num q \<and> trunc_num q < 2 ^ 31 then Inr (trunc_num q) else Inl NotANumber)
      | _ \<Rightarrow> Inl NotANumber)"

definition get_number :: "jsval \<Rightarrow> int result" where
  "get_number v = (case v of JNum n \<Rightarrow> to_int n | _ \<Rightarrow> Inl NotANumber)"

text \<open>duk_get_int clamps, and is 0 for NaN and for what is no number.\<close>

definition get_int :: "jsval \<Rightarrow> int result" where
  "get_int v =
     (case v of
        JNum (Finite q) \<Rightarrow> Inr (max (- (2 ^ 31)) (min (2 ^ 31 - 1) (trunc_num q)))
      | JNum (Infinite negative) \<Rightarrow> Inr (if negative then - (2 ^ 31) else 2 ^ 31 - 1)
      | _ \<Rightarrow> Inr 0)"

definition get_boolean :: "jsval \<Rightarrow> bool result" where
  "get_boolean v = (case v of JBool b \<Rightarrow> Inr b | _ \<Rightarrow> Inr False)"

text \<open>\<open>if (duk_get_prop_string(..)) field = duk_get_..(..)\<close>.\<close>

definition load_prop :: "(jsval \<Rightarrow> 'a result) \<Rightarrow> jsval \<Rightarrow> string \<Rightarrow> 'a \<Rightarrow> 'a result" where
  "load_prop conv v k old =
     bindR (get_prop v k) (\<lambda>p. case p of None \<Rightarrow> Inr old | Some x \<Rightarrow> conv x)"

text \<open>The loops over arrays: of values inside an entry, and of the entries themselves.\<close>

fun load_values :: "(jsval \<Rightarrow> 'a result) \<Rightarrow> jsval option list \<Rightarrow> 'a list result" where
  "load_values conv [] = Inr []"
| "load_values conv (None # xs) = load_values conv xs"
| "load_values conv (Some v # xs) =
     bindR (conv v) (\<lambda>a. bindR (load_values conv xs) (\<lambda>as. Inr (a # as)))"

definition load_list :: "(jsval \<Rightarrow> 'a result) \<Rightarrow> jsval \<Rightarrow> string \<Rightarrow> 'a list result" where
  "load_list conv v k =
     bindR (get_prop v k) (\<lambda>p. case p of Some (JArr xs) \<Rightarrow> load_values conv xs | _ \<Rightarrow> Inr [])"

fun load_entries :: "(jsval \<Rightarrow> 'c result) \<Rightarrow> 'c \<Rightarrow> jsval option list \<Rightarrow> 'c list result" where
  "load_entries load_one def [] = Inr []"
| "load_entries load_one def (x # xs) =
     bindR (case x of None \<Rightarrow> Inr def | Some v \<Rightarrow> load_one v) (\<lambda>c.
     bindR (load_entries load_one def xs) (\<lambda>cs. Inr (c # cs)))"

definition load_array :: "(jsval \<Rightarrow> 'c result) \<Rightarrow> 'c \<Rightarrow> jsval \<Rightarrow> string \<Rightarrow> 'c list result" where
  "load_array load_one def v k =
     bindR (get_prop v k) (\<lambda>p.
       case p of Some (JArr xs) \<Rightarrow> load_entries load_one def xs | _ \<Rightarrow> Inr [])"

subsection \<open>Common settings\<close>

record cfg_common =
  cc_proto_path :: string
  cc_bus_in :: string
  cc_bus_out :: string
  cc_max_file_descriptors :: int
  cc_max_buffer_size :: int
  cc_verbosity :: int

definition cfg_common_new :: cfg_common where
  "cfg_common_new =
     \<lparr>cc_proto_path = ''proto'', cc_bus_in = ''ipc:///tmp/packet.pkt2'',
      cc_bus_out = ''ipc:///tmp/message.pkt2'', cc_max_file_descriptors = 0,
      cc_max_buffer_size = 0, cc_verbosity = 0\<rparr>"

text \<open>\<open>if (duk_is_string(..)) field = duk_get_string(..)\<close>, and the same for numbers.\<close>

definition common_string :: "jsval \<Rightarrow> string \<Rightarrow> string \<Rightarrow> string result" where
  "common_string g k old =
     bindR (get_prop g k) (\<lambda>p. case p of Some (JStr s) \<Rightarrow> Inr (c_string s) | _ \<Rightarrow> Inr old)"

definition common_number :: "jsval \<Rightarrow> string \<Rightarrow> int \<Rightarrow> int result" where
  "common_number g k old =
     bindR (get_prop g k) (\<lambda>p. case p of Some (JNum n) \<Rightarrow> to_int n | _ \<Rightarrow> Inr old)"

definition load_common :: "jsval \<Rightarrow> cfg_common \<Rightarrow> cfg_common result" where
  "load_common g c =
     bindR (common_string g ''proto_path'' (cc_proto_path c)) (\<lambda>proto_path.
     bindR (common_string g ''bus_in'' (cc_bus_in c)) (\<lambda>bus_in.
     bindR (common_string g ''bus_out'' (cc_bus_out c)) (\<lambda>bus_out.
     bindR (common_number g ''max_file_descriptors'' (cc_max_file_descriptors c)) (\<lambda>max_fd.
     bindR (common_number g ''max_buffer_size'' (cc_max_buffer_size c)) (\<lambda>max_buf.
     bindR (common_number g ''verbosity'' (cc_verbosity c)) (\<lambda>verbosity.
       Inr \<lparr>cc_proto_path = proto_path, cc_bus_in = bus_in, cc_bus_out = bus_out,
            cc_max_file_descriptors = max_fd, cc_max_buffer_size = max_buf,
            cc_verbosity = verbosity\<rparr>))))))"

subsection \<open>Pieces of the command lines\<close>

text \<open>PUSH_BACK_ARG_STR and PUSH_BACK_ARG_NUM.\<close>

definition arg_str :: "string \<Rightarrow> string \<Rightarrow> string list" where
  "arg_str a s = [a, s]"

definition arg_num :: "string \<Rightarrow> int \<Rightarrow> string list" where
  "arg_num a v = [a, int_str v]"

definition opt :: "bool \<Rightarrow> string list \<Rightarrow> string list" where
  "opt b xs = (if b then xs else [])"

definition arg_verbosity :: "cfg_common \<Rightarrow> string list" where
  "arg_verbosity c = opt (0 < cc_verbosity c) [''-'' @ replicate (nat (cc_verbosity c)) CHR ''v'']"

definition arg_bus_in :: "string \<Rightarrow> cfg_common \<Rightarrow> string list" where
  "arg_bus_in a c = opt (cc_bus_in c \<noteq> ''ipc:///tmp/packet.pkt2'') (arg_str a (cc_bus_in c))"

definition arg_bus_out :: "string \<Rightarrow> cfg_common \<Rightarrow> string list" where
  "arg_bus_out a c = opt (cc_bus_out c \<noteq> ''ipc:///tmp/message.pkt2'') (arg_str a (cc_bus_out c))"

definition arg_maxfd :: "cfg_common \<Rightarrow> string list" where
  "arg_maxfd c = opt (cc_max_file_descriptors c \<noteq> 0) (arg_num ''--maxfd'' (cc_max_file_descriptors c))"

definition arg_buffer :: "cfg_common \<Rightarrow> string list" where
  "arg_buffer c = opt (cc_max_buffer_size c \<noteq> 4096) (arg_num ''-b'' (cc_max_buffer_size c))"

definition arg_buffer_set :: "cfg_common \<Rightarrow> string list" where
  "arg_buffer_set c = opt (cc_max_buffer_size c \<noteq> 0) (arg_buffer c)"

definition arg_proto :: "cfg_common \<Rightarrow> string list" where
  "arg_proto c = opt (cc_proto_path c \<noteq> ''proto'') (arg_str ''-p'' (cc_proto_path c))"

definition arg_proto_set :: "cfg_common \<Rightarrow> string list" where
  "arg_proto_set c = opt (cc_proto_path c \<noteq> []) (arg_proto c)"

definition if_common :: "cfg_common option \<Rightarrow> (cfg_common \<Rightarrow> string list) \<Rightarrow> string list" where
  "if_common common f = (case common of None \<Rightarrow> [] | Some c \<Rightarrow> f c)"

subsection \<open>The process classes\<close>

definition DEF_SERVER_KEY :: string where
  "DEF_SERVER_KEY = ''AAAAITL4VBA:APA91bGQwuvaQTt8klgebh8QO1eSU7o5itF0QGnp7kCWJNgMwe8WM3bMh6eGDkeyMbvUAmE2MqtB1My3f0-mHM6MQE1gOjMB0eiAW1Xaqds0hYETRNzqAe0iRh5v-PcxmxrHQeJh6Nuj''"

text \<open>The output addresses of a repeater and of a script.\<close>

definition arg_outs :: "string list \<Rightarrow> string list" where
  "arg_outs outs =
     opt (\<not> (outs = [''tcp://0.0.0.0:50000''])) (concat (map (arg_str ''-o'') outs))"

text \<open>A TCP listener.\<close>

record cfg_tcp =
  tcp_ip :: string
  tcp_port :: int
  tcp_compression_type :: int
  tcp_escape_code :: string
  tcp_compression_offset :: int
  tcp_frequence_file :: string
  tcp_codemap_file :: string
  tcp_valid_sizes :: "int list"

definition cfg_tcp_new :: cfg_tcp where
  "cfg_tcp_new =
     \<lparr>tcp_ip = ''0.0.0.0'', tcp_port = 50052, tcp_compression_type = 0, tcp_escape_code = [],
      tcp_compression_offset = 0, tcp_frequence_file = [], tcp_codemap_file = [],
      tcp_valid_sizes = []\<rparr>"

definition tcp_args :: "cfg_common option \<Rightarrow> cfg_tcp \<Rightarrow> string list" where
  "tcp_args common c =
     opt (tcp_ip c \<noteq> ''0.0.0.0'') (arg_str ''-i'' (tcp_ip c))
   @ opt (tcp_port c \<noteq> 50052) (arg_num ''-l'' (tcp_port c))
   @ opt (tcp_compression_type c \<noteq> 0) (arg_num ''-c'' (tcp_compression_type c))
   @ opt (tcp_escape_code c = []) (arg_str ''-e'' (tcp_escape_code c))
   @ opt (tcp_compression_offset c \<noteq> 0) (arg_num ''-s'' (tcp_compression_offset c))
   @ opt (tcp_frequence_file c \<noteq> []) (arg_str ''-f'' (tcp_frequence_file c))
   @ opt (tcp_codemap_file c \<noteq> []) (arg_str ''-m'' (tcp_codemap_file c))
   @ concat (map (arg_num ''-p'') (tcp_valid_sizes c))
   @ if_common common (\<lambda>m.
          arg_verbosity m @ arg_bus_in ''-o'' m @ arg_maxfd m @ arg_buffer_set m)"

definition load_tcp :: "jsval \<Rightarrow> cfg_tcp result" where
  "load_tcp v =
     bindR (load_prop get_string v ''ip'' (tcp_ip cfg_tcp_new)) (\<lambda>ip.
     bindR (load_prop get_number v ''port'' (tcp_port cfg_tcp_new)) (\<lambda>port.
     bindR (load_prop get_number v ''compression_type'' (tcp_compression_type cfg_tcp_new)) (\<lambda>compression_type.
     bindR (load_prop get_string v ''escape_code'' (tcp_escape_code cfg_tcp_new)) (\<lambda>escape_code.
     bindR (load_prop get_number v ''compression_offset'' (tcp_compression_offset cfg_tcp_new)) (\<lambda>compression_offset.
     bindR (load_prop get_string v ''frequence_file'' (tcp_frequence_file cfg_tcp_new)) (\<lambda>frequence_file.
     bindR (load_prop get_string v ''codemap_file'' (tcp_codemap_file cfg_tcp_new)) (\<lambda>codemap_file.
     bindR (load_list get_number v ''valid_sizes'') (\<lambda>valid_sizes.
       Inr \<lparr>tcp_ip = ip, tcp_port = port, tcp_compression_type = compression_type,
            tcp_escape_code = escape_code, tcp_compression_offset = compression_offset,
            tcp_frequence_file = frequence_file, tcp_codemap_file = codemap_file,
            tcp_valid_sizes = valid_sizes\<rparr>))))))))"

text \<open>An MQTT listener.\<close>

record cfg_mqtt =
  mqtt_client :: string
  mqtt_broker :: string
  mqtt_topic :: string
  mqtt_port :: int
  mqtt_qos :: int
  mqtt_keep_alive :: int

definition cfg_mqtt_new :: cfg_mqtt where
  "cfg_mqtt_new =
     \<lparr>mqtt_client = [], mqtt_broker = ''tcp://localhost'', mqtt_topic = [], mqtt_port = 1883,
      mqtt_qos = 1, mqtt_keep_alive = 20\<rparr>"

definition mqtt_args :: "cfg_common option \<Rightarrow> cfg_mqtt \<Rightarrow> string list" where
  "mqtt_args common c =
     arg_str ''-c'' (mqtt_client c)
   @ arg_str ''-a'' (mqtt_broker c)
   @ arg_str ''-t'' (mqtt_topic c)
   @ arg_num ''-p'' (mqtt_port c)
   @ arg_num ''-q'' (mqtt_qos c)
   @ if_common common (\<lambda>m. arg_verbosity m @ arg_bus_in ''-o'' m @ arg_maxfd m)"

definition load_mqtt :: "jsval \<Rightarrow> cfg_mqtt result" where
  "load_mqtt v =
     bindR (load_prop get_string v ''client'' (mqtt_client cfg_mqtt_new)) (\<lambda>client.
     bindR (load_prop get_string v ''topic'' (mqtt_topic cfg_mqtt_new)) (\<lambda>topic.
     bindR (load_prop get_string v ''broker'' (mqtt_broker cfg_mqtt_new)) (\<lambda>broker.
     bindR (load_prop get_number v ''port'' (mqtt_port cfg_mqtt_new)) (\<lambda>port.
     bindR (load_prop get_number v ''qos'' (mqtt_qos cfg_mqtt_new)) (\<lambda>qos.
     bindR (load_prop get_number v ''keep-alive'' (mqtt_keep_alive cfg_mqtt_new)) (\<lambda>keep_alive.
       Inr \<lparr>mqtt_client = client, mqtt_broker = broker, mqtt_topic = topic, mqtt_port = port,
            mqtt_qos = qos, mqtt_keep_alive = keep_alive\<rparr>))))))"

text \<open>A listener on a file or a device.\<close>

record cfg_file =
  file_file :: string
  file_mode :: int

definition cfg_file_new :: cfg_file where
  "cfg_file_new =
     \<lparr>file_file = [], file_mode = 0\<rparr>"

definition file_args :: "cfg_common option \<Rightarrow> cfg_file \<Rightarrow> string list" where
  "file_args common c =
     arg_str ''-i'' (file_file c)
   @ arg_num ''-t'' (file_mode c)
   @ if_common common (\<lambda>m. arg_verbosity m @ arg_bus_in ''-o'' m @ arg_maxfd m)"

definition load_file :: "jsval \<Rightarrow> cfg_file result" where
  "load_file v =
     bindR (load_prop get_string v ''file'' (file_file cfg_file_new)) (\<lambda>file.
     bindR (load_prop get_int v ''mode'' (file_mode cfg_file_new)) (\<lambda>mode.
       Inr \<lparr>file_file = file, file_mode = mode\<rparr>))"

text \<open>A packet parser.\<close>

record cfg_p2m =
  p2m_force_message :: string
  p2m_sizes :: "int list"

definition cfg_p2m_new :: cfg_p2m where
  "cfg_p2m_new =
     \<lparr>p2m_force_message = [], p2m_sizes = []\<rparr>"

definition p2m_args :: "cfg_common option \<Rightarrow> cfg_p2m \<Rightarrow> string list" where
  "p2m_args common c =
     opt (p2m_force_message c \<noteq> []) (arg_str ''--message'' (p2m_force_message c))
   @ concat (map (arg_num ''-a'') (p2m_sizes c))
   @ if_common common (\<lambda>m.
          arg_verbosity m @ arg_bus_in ''-i'' m @ arg_bus_out ''-o'' m @ arg_proto_set m
        @ arg_buffer_set m @ arg_maxfd m)"

definition load_p2m :: "jsval \<Rightarrow> cfg_p2m result" where
  "load_p2m v =
     bindR (load_prop get_string v ''force-message'' (p2m_force_message cfg_p2m_new)) (\<lambda>force_message.
     bindR (load_list get_number v ''sizes'') (\<lambda>sizes.
       Inr \<lparr>p2m_force_message = force_message, p2m_sizes = sizes\<rparr>))"

text \<open>A writer of text lines.\<close>

record cfg_wfile =
  wfile_mode :: int
  wfile_file :: string
  wfile_messages :: "string list"

definition cfg_wfile_new :: cfg_wfile where
  "cfg_wfile_new =
     \<lparr>wfile_mode = 0, wfile_file = [], wfile_messages = []\<rparr>"

definition wfile_args :: "cfg_common option \<Rightarrow> cfg_wfile \<Rightarrow> string list" where
  "wfile_args common c =
     arg_str ''-o'' (wfile_file c)
   @ arg_num ''--format'' (wfile_mode c)
   @ concat (map (arg_str ''-a'') (wfile_messages c))
   @ if_common common (\<lambda>m. arg_verbosity m @ arg_bus_out ''-i'' m @ arg_proto m)"

definition load_wfile :: "jsval \<Rightarrow> cfg_wfile result" where
  "load_wfile v =
     bindR (load_prop get_string v ''file'' (wfile_file cfg_wfile_new)) (\<lambda>file.
     bindR (load_prop get_number v ''mode'' (wfile_mode cfg_wfile_new)) (\<lambda>mode.
     bindR (load_list get_string v ''messages'') (\<lambda>messages.
       Inr \<lparr>wfile_mode = mode, wfile_file = file, wfile_messages = messages\<rparr>)))"

text \<open>A writer into LMDB.\<close>

record cfg_lmdb =
  lmdb_dbpath :: string
  lmdb_messages :: "string list"

definition cfg_lmdb_new :: cfg_lmdb where
  "cfg_lmdb_new =
     \<lparr>lmdb_dbpath = [], lmdb_messages = []\<rparr>"

definition lmdb_args :: "cfg_common option \<Rightarrow> cfg_lmdb \<Rightarrow> string list" where
  "lmdb_args common c =
     arg_str ''--dbpath'' (lmdb_dbpath c)
   @ concat (map (arg_str ''-a'') (lmdb_messages c))
   @ if_common common (\<lambda>m.
          arg_verbosity m @ arg_bus_out ''-i'' m @ arg_proto_set m @ arg_buffer m)"

definition load_lmdb :: "jsval \<Rightarrow> cfg_lmdb result" where
  "load_lmdb v =
     bindR (load_prop get_string v ''dbpath'' (lmdb_dbpath cfg_lmdb_new)) (\<lambda>dbpath.
     bindR (load_list get_string v ''messages'') (\<lambda>messages.
       Inr \<lparr>lmdb_dbpath = dbpath, lmdb_messages = messages\<rparr>))"

text \<open>A writer into PostgreSQL.\<close>

record cfg_pq =
  pq_user :: string
  pq_password :: string
  pq_scheme :: string
  pq_host :: string
  pq_port :: int
  pq_messages :: "string list"

definition cfg_pq_new :: cfg_pq where
  "cfg_pq_new =
     \<lparr>pq_user = [], pq_password = [], pq_scheme = [], pq_host = ''localhost'', pq_port = 5432,
      pq_messages = []\<rparr>"

definition pq_args :: "cfg_common option \<Rightarrow> cfg_pq \<Rightarrow> string list" where
  "pq_args common c =
     arg_str ''--user'' (pq_user c)
   @ arg_str ''--password'' (pq_password c)
   @ arg_str ''--database'' (pq_scheme c)
   @ arg_str ''--host'' (pq_host c)
   @ opt (pq_port c \<noteq> 5432) (arg_num ''--port'' (pq_port c))
   @ concat (map (arg_str ''-a'') (pq_messages c))
   @ if_common common (\<lambda>m.
          arg_verbosity m @ arg_bus_out ''-i'' m @ arg_proto_set m @ arg_buffer m)"

definition load_pq :: "jsval \<Rightarrow> cfg_pq result" where
  "load_pq v =
     bindR (load_prop get_string v ''user'' (pq_user cfg_pq_new)) (\<lambda>user.
     bindR (load_prop get_string v ''password'' (pq_password cfg_pq_new)) (\<lambda>password.
     bindR (load_prop get_string v ''scheme'' (pq_scheme cfg_pq_new)) (\<lambda>scheme.
     bindR (load_prop get_string v ''host'' (pq_host cfg_pq_new)) (\<lambda>host.
     bindR (load_prop get_number v ''port'' (pq_port cfg_pq_new)) (\<lambda>port.
     bindR (load_list get_string v ''messages'') (\<lambda>messages.
       Inr \<lparr>pq_user = user, pq_password = password, pq_scheme = scheme, pq_host = host,
            pq_port = port, pq_messages = messages\<rparr>))))))"

text \<open>A Firebase notifier. The macro of a string argument is two statements, so each \<open>if\<close>
  guards only the name of the option.\<close>

record cfg_fcm =
  fcm_user :: string
  fcm_password :: string
  fcm_scheme :: string
  fcm_host :: string
  fcm_port :: int
  fcm_messages :: "string list"
  fcm_imei :: string
  fcm_key :: string

definition cfg_fcm_new :: cfg_fcm where
  "cfg_fcm_new =
     \<lparr>fcm_user = [], fcm_password = [], fcm_scheme = [], fcm_host = ''localhost'',
      fcm_port = 5432, fcm_messages = [], fcm_imei = [], fcm_key = []\<rparr>"

definition fcm_args :: "cfg_common option \<Rightarrow> cfg_fcm \<Rightarrow> string list" where
  "fcm_args common c =
     opt (fcm_key c \<noteq> [] \<and> fcm_key c \<noteq> DEF_SERVER_KEY) [''--key'']
   @ [fcm_key c]
   @ opt (fcm_imei c \<noteq> [] \<and> fcm_imei c = ''imei'') [''--imei'']
   @ [fcm_imei c]
   @ arg_str ''--user'' (fcm_user c)
   @ arg_str ''--password'' (fcm_password c)
   @ arg_str ''--database'' (fcm_scheme c)
   @ arg_str ''--host'' (fcm_host c)
   @ opt (fcm_port c \<noteq> 5432) (arg_num ''--port'' (fcm_port c))
   @ concat (map (arg_str ''-a'') (fcm_messages c))
   @ if_common common (\<lambda>m.
          arg_verbosity m @ arg_bus_out ''-i'' m @ arg_proto_set m @ arg_buffer m)"

definition load_fcm :: "jsval \<Rightarrow> cfg_fcm result" where
  "load_fcm v =
     bindR (load_prop get_string v ''key'' (fcm_key cfg_fcm_new)) (\<lambda>key.
     bindR (load_prop get_string v ''imei'' (fcm_imei cfg_fcm_new)) (\<lambda>imei.
     bindR (load_prop get_string v ''user'' (fcm_user cfg_fcm_new)) (\<lambda>user.
     bindR (load_prop get_string v ''password'' (fcm_password cfg_fcm_new)) (\<lambda>password.
     bindR (load_prop get_string v ''scheme'' (fcm_scheme cfg_fcm_new)) (\<lambda>scheme.
     bindR (load_prop get_string v ''host'' (fcm_host cfg_fcm_new)) (\<lambda>host.
     bindR (load_prop get_number v ''port'' (fcm_port cfg_fcm_new)) (\<lambda>port.
     bindR (load_list get_string v ''messages'') (\<lambda>messages.
       Inr \<lparr>fcm_user = user, fcm_password = password, fcm_scheme = scheme, fcm_host = host,
            fcm_port = port, fcm_messages = messages, fcm_imei = imei,
            fcm_key = key\<rparr>))))))))"

text \<open>A writer into Google Sheets.\<close>

record cfg_sheets =
  sheets_json_service_file_name :: string
  sheets_bearer_file_name :: string
  sheets_email :: string
  sheets_spreadsheet :: string
  sheets_sheet :: string
  sheets_messages :: "string list"

definition cfg_sheets_new :: cfg_sheets where
  "cfg_sheets_new =
     \<lparr>sheets_json_service_file_name = [], sheets_bearer_file_name = ''.token-bearer.txt'',
      sheets_email = [], sheets_spreadsheet = [], sheets_sheet = [], sheets_messages = []\<rparr>"

definition sheets_args :: "cfg_common option \<Rightarrow> cfg_sheets \<Rightarrow> string list" where
  "sheets_args common c =
     arg_str ''-g'' (sheets_json_service_file_name c)
   @ arg_str ''-B'' (sheets_bearer_file_name c)
   @ arg_str ''-e'' (sheets_email c)
   @ arg_str ''-s'' (sheets_spreadsheet c)
   @ arg_str ''-t'' (sheets_sheet c)
   @ concat (map (arg_str ''-a'') (sheets_messages c))
   @ if_common common (\<lambda>m.
          arg_verbosity m @ arg_bus_out ''-i'' m @ arg_proto_set m @ arg_buffer m)"

definition load_sheets :: "jsval \<Rightarrow> cfg_sheets result" where
  "load_sheets v =
     bindR (load_prop get_string v ''json_service_file_name'' (sheets_json_service_file_name cfg_sheets_new)) (\<lambda>json_service_file_name.
     bindR (load_prop get_string v ''bearer_file_name'' (sheets_bearer_file_name cfg_sheets_new)) (\<lambda>bearer_file_name.
     bindR (load_prop get_string v ''email'' (sheets_email cfg_sheets_new)) (\<lambda>email.
     bindR (load_prop get_string v ''spreadsheet'' (sheets_spreadsheet cfg_sheets_new)) (\<lambda>spreadsheet.
     bindR (load_prop get_string v ''sheet'' (sheets_sheet cfg_sheets_new)) (\<lambda>sheet.
     bindR (load_list get_string v ''messages'') (\<lambda>messages.
       Inr \<lparr>sheets_json_service_file_name = json_service_file_name,
            sheets_bearer_file_name = bearer_file_name, sheets_email = email,
            sheets_spreadsheet = spreadsheet, sheets_sheet = sheet,
            sheets_messages = messages\<rparr>))))))"

text \<open>A repeater.\<close>

record cfg_rep =
  rep_url_in :: string
  rep_bind :: bool
  rep_url_outs :: "string list"

definition cfg_rep_new :: cfg_rep where
  "cfg_rep_new =
     \<lparr>rep_url_in = [], rep_bind = False, rep_url_outs = []\<rparr>"

definition rep_args :: "cfg_common option \<Rightarrow> cfg_rep \<Rightarrow> string list" where
  "rep_args common c =
     opt (rep_url_in c \<noteq> ''ipc:///tmp/control.pkt2'') (arg_str ''-i'' (rep_url_in c))
   @ opt (rep_bind c) [''-s'']
   @ arg_outs (rep_url_outs c)
   @ if_common common (\<lambda>m. arg_verbosity m @ arg_buffer m)"

definition load_rep :: "jsval \<Rightarrow> cfg_rep result" where
  "load_rep v =
     bindR (load_prop get_string v ''in'' (rep_url_in cfg_rep_new)) (\<lambda>url_in.
     bindR (load_prop get_boolean v ''bind'' (rep_bind cfg_rep_new)) (\<lambda>bind.
     bindR (load_list get_string v ''outs'') (\<lambda>url_outs.
       Inr \<lparr>rep_url_in = url_in, rep_bind = bind, rep_url_outs = url_outs\<rparr>)))"

text \<open>A script runner, which load_config never reads.\<close>

record cfg_script =
  script_url_in :: string
  script_command :: string
  script_url_outs :: "string list"

definition cfg_script_new :: cfg_script where
  "cfg_script_new =
     \<lparr>script_url_in = [], script_command = [], script_url_outs = []\<rparr>"

definition script_args :: "cfg_common option \<Rightarrow> cfg_script \<Rightarrow> string list" where
  "script_args common c =
     opt (script_command c \<noteq> []) (arg_str ''-c'' (script_command c))
   @ opt (script_url_in c \<noteq> ''ipc:///tmp/control.pkt2'') (arg_str ''-i'' (script_url_in c))
   @ arg_outs (script_url_outs c)
   @ if_common common (\<lambda>m. arg_verbosity m @ arg_buffer m)"

subsection \<open>The configuration\<close>

record config =
  cfgCommon :: cfg_common
  cfgListenerTcp :: "cfg_tcp list"
  cfgListenerMqtt :: "cfg_mqtt list"
  cfgListenerFile :: "cfg_file list"
  cfgPacket2Message :: "cfg_p2m list"
  cfgWriteFile :: "cfg_wfile list"
  cfgWriteLmdb :: "cfg_lmdb list"
  cfgWritePq :: "cfg_pq list"
  cfgWriteFcm :: "cfg_fcm list"
  cfgWriteGoogleSheets :: "cfg_sheets list"
  cfgRepeators :: "cfg_rep list"
  cfgScripts :: "cfg_script list"

text \<open>
  The vectors are cleared by load() before load_config; the common settings are those of
  the object, so a reload starts from the previous ones.
\<close>

definition load_config :: "jsval \<Rightarrow> cfg_common \<Rightarrow> config result" where
  "load_config g common0 =
     bindR (load_common g common0) (\<lambda>common.
     bindR (load_array load_tcp cfg_tcp_new g ''tcp_listeners'') (\<lambda>tcps.
     bindR (load_array load_mqtt cfg_mqtt_new g ''mqtt_listeners'') (\<lambda>mqtts.
     bindR (load_array load_file cfg_file_new g ''file_listeners'') (\<lambda>files.
     bindR (load_array load_p2m cfg_p2m_new g ''packet2message'') (\<lambda>p2ms.
     bindR (load_array load_wfile cfg_wfile_new g ''write_file'') (\<lambda>wfiles.
     bindR (load_array load_lmdb cfg_lmdb_new g ''write_lmdb'') (\<lambda>lmdbs.
     bindR (load_array load_pq cfg_pq_new g ''write_pq'') (\<lambda>pqs.
     bindR (load_array load_fcm cfg_fcm_new g ''write_fcm'') (\<lambda>fcms.
     bindR (load_array load_sheets cfg_sheets_new g ''write_google_sheets'') (\<lambda>sheetss.
     bindR (load_array load_rep cfg_rep_new g ''repeators'') (\<lambda>reps.
       Inr \<lparr>cfgCommon = common, cfgListenerTcp = tcps,
            cfgListenerMqtt = mqtts,
            cfgListenerFile = files,
            cfgPacket2Message = p2ms,
            cfgWriteFile = wfiles,
            cfgWriteLmdb = lmdbs,
            cfgWritePq = pqs,
            cfgWriteFcm = fcms,
            cfgWriteGoogleSheets = sheetss,
            cfgRepeators = reps,
            cfgScripts = []\<rparr>)))))))))))"

subsection \<open>Writing a configuration down as a script would\<close>

text \<open>
  The values a configuration script has to assign for a given configuration: the
  specification load_config is compared with. Texts without a zero character and
  32-bit numbers are the ones that can be written.
\<close>

definition js_num :: "int \<Rightarrow> jsval" where
  "js_num i = JNum (Finite (of_int i))"

definition js_nums :: "int list \<Rightarrow> jsval" where
  "js_nums is = JArr (map (\<lambda>i. Some (js_num i)) is)"

definition js_texts :: "string list \<Rightarrow> jsval" where
  "js_texts ts = JArr (map (\<lambda>t. Some (JStr t)) ts)"

definition text_ok :: "string \<Rightarrow> bool" where
  "text_ok s = list_all (\<lambda>c. c \<noteq> CHR 0x00) s"

definition int_ok :: "int \<Rightarrow> bool" where
  "int_ok i = (- (2 ^ 31) \<le> i \<and> i < 2 ^ 31)"

lemma c_string_ok: "text_ok s \<Longrightarrow> c_string s = s"
  by (simp add: c_string_def text_ok_def takeWhile_eq_all_conv list_all_iff)

lemma trunc_of_int: "trunc_num (of_int i) = i"
  by (simp add: trunc_num_def)

lemma get_string_ok: "text_ok s \<Longrightarrow> get_string (JStr s) = Inr s"
  by (simp add: get_string_def c_string_ok)

lemma get_number_ok: "int_ok i \<Longrightarrow> get_number (js_num i) = Inr i"
  by (simp add: get_number_def js_num_def to_int_def trunc_of_int int_ok_def)

lemma get_int_ok: "int_ok i \<Longrightarrow> get_int (js_num i) = Inr i"
  by (simp add: get_int_def js_num_def trunc_of_int int_ok_def)

lemma get_boolean_ok: "get_boolean (JBool b) = Inr b"
  by (simp add: get_boolean_def)

lemma load_prop_obj: "map_of m k = Some x \<Longrightarrow> load_prop conv (JObj m) k old = conv x"
  by (simp add: load_prop_def get_prop_def)

lemma load_values_ok:
  "(\<And>x. x \<in> set xs \<Longrightarrow> conv (enc x) = Inr x) \<Longrightarrow>
   load_values conv (map (\<lambda>x. Some (enc x)) xs) = Inr xs"
  by (induction xs) auto

lemma load_list_nums:
  "map_of m k = Some (js_nums is) \<Longrightarrow> list_all int_ok is \<Longrightarrow>
   load_list get_number (JObj m) k = Inr is"
  by (simp add: load_list_def get_prop_def js_nums_def load_values_ok get_number_ok list_all_iff)

lemma load_list_texts:
  "map_of m k = Some (js_texts ts) \<Longrightarrow> list_all text_ok ts \<Longrightarrow>
   load_list get_string (JObj m) k = Inr ts"
  by (simp add: load_list_def get_prop_def js_texts_def load_values_ok get_string_ok list_all_iff)

lemma load_entries_ok:
  "(\<And>x. x \<in> set xs \<Longrightarrow> one (enc x) = Inr x) \<Longrightarrow>
   load_entries one def (map (\<lambda>x. Some (enc x)) xs) = Inr xs"
  by (induction xs) auto

lemma load_array_ok:
  "map_of m k = Some (JArr (map (\<lambda>x. Some (enc x)) xs)) \<Longrightarrow> list_all good xs \<Longrightarrow>
   (\<And>x. good x \<Longrightarrow> one (enc x) = Inr x) \<Longrightarrow>
   load_array one def (JObj m) k = Inr xs"
  by (simp add: load_array_def get_prop_def load_entries_ok list_all_iff)

lemmas load_ok = load_prop_obj get_string_ok get_number_ok get_int_ok get_boolean_ok
  load_list_nums load_list_texts

definition js_tcp :: "cfg_tcp \<Rightarrow> jsval" where
  "js_tcp c =
     JObj [(''ip'', JStr (tcp_ip c)),
           (''port'', js_num (tcp_port c)),
           (''compression_type'', js_num (tcp_compression_type c)),
           (''escape_code'', JStr (tcp_escape_code c)),
           (''compression_offset'', js_num (tcp_compression_offset c)),
           (''frequence_file'', JStr (tcp_frequence_file c)),
           (''codemap_file'', JStr (tcp_codemap_file c)),
           (''valid_sizes'', js_nums (tcp_valid_sizes c))]"

definition tcp_ok :: "cfg_tcp \<Rightarrow> bool" where
  "tcp_ok c =
     (text_ok (tcp_ip c) \<and>
      int_ok (tcp_port c) \<and>
      int_ok (tcp_compression_type c) \<and>
      text_ok (tcp_escape_code c) \<and>
      int_ok (tcp_compression_offset c) \<and>
      text_ok (tcp_frequence_file c) \<and>
      text_ok (tcp_codemap_file c) \<and>
      list_all int_ok (tcp_valid_sizes c))"

lemma load_js_tcp: "tcp_ok c \<Longrightarrow> load_tcp (js_tcp c) = Inr c"
  by (simp add: load_tcp_def js_tcp_def tcp_ok_def load_ok)

definition js_mqtt :: "cfg_mqtt \<Rightarrow> jsval" where
  "js_mqtt c =
     JObj [(''client'', JStr (mqtt_client c)),
           (''broker'', JStr (mqtt_broker c)),
           (''topic'', JStr (mqtt_topic c)),
           (''port'', js_num (mqtt_port c)),
           (''qos'', js_num (mqtt_qos c)),
           (''keep-alive'', js_num (mqtt_keep_alive c))]"

definition mqtt_ok :: "cfg_mqtt \<Rightarrow> bool" where
  "mqtt_ok c =
     (text_ok (mqtt_client c) \<and>
      text_ok (mqtt_broker c) \<and>
      text_ok (mqtt_topic c) \<and>
      int_ok (mqtt_port c) \<and>
      int_ok (mqtt_qos c) \<and>
      int_ok (mqtt_keep_alive c))"

lemma load_js_mqtt: "mqtt_ok c \<Longrightarrow> load_mqtt (js_mqtt c) = Inr c"
  by (simp add: load_mqtt_def js_mqtt_def mqtt_ok_def load_ok)

definition js_file :: "cfg_file \<Rightarrow> jsval" where
  "js_file c =
     JObj [(''file'', JStr (file_file c)),
           (''mode'', js_num (file_mode c))]"

definition file_ok :: "cfg_file \<Rightarrow> bool" where
  "file_ok c =
     (text_ok (file_file c) \<and>
      int_ok (file_mode c))"

lemma load_js_file: "file_ok c \<Longrightarrow> load_file (js_file c) = Inr c"
  by (simp add: load_file_def js_file_def file_ok_def load_ok)

definition js_p2m :: "cfg_p2m \<Rightarrow> jsval" where
  "js_p2m c =
     JObj [(''force-message'', JStr (p2m_force_message c)),
           (''sizes'', js_nums (p2m_sizes c))]"

definition p2m_ok :: "cfg_p2m \<Rightarrow> bool" where
  "p2m_ok c =
     (text_ok (p2m_force_message c) \<and>
      list_all int_ok (p2m_sizes c))"

lemma load_js_p2m: "p2m_ok c \<Longrightarrow> load_p2m (js_p2m c) = Inr c"
  by (simp add: load_p2m_def js_p2m_def p2m_ok_def load_ok)

definition js_wfile :: "cfg_wfile \<Rightarrow> jsval" where
  "js_wfile c =
     JObj [(''mode'', js_num (wfile_mode c)),
           (''file'', JStr (wfile_file c)),
           (''messages'', js_texts (wfile_messages c))]"

definition wfile_ok :: "cfg_wfile \<Rightarrow> bool" where
  "wfile_ok c =
     (int_ok (wfile_mode c) \<and>
      text_ok (wfile_file c) \<and>
      list_all text_ok (wfile_messages c))"

lemma load_js_wfile: "wfile_ok c \<Longrightarrow> load_wfile (js_wfile c) = Inr c"
  by (simp add: load_wfile_def js_wfile_def wfile_ok_def load_ok)

definition js_lmdb :: "cfg_lmdb \<Rightarrow> jsval" where
  "js_lmdb c =
     JObj [(''dbpath'', JStr (lmdb_dbpath c)),
           (''messages'', js_texts (lmdb_messages c))]"

definition lmdb_ok :: "cfg_lmdb \<Rightarrow> bool" where
  "lmdb_ok c =
     (text_ok (lmdb_dbpath c) \<and>
      list_all text_ok (lmdb_messages c))"

lemma load_js_lmdb: "lmdb_ok c \<Longrightarrow> load_lmdb (js_lmdb c) = Inr c"
  by (simp add: load_lmdb_def js_lmdb_def lmdb_ok_def load_ok)

definition js_pq :: "cfg_pq \<Rightarrow> jsval" where
  "js_pq c =
     JObj [(''user'', JStr (pq_user c)),
           (''password'', JStr (pq_password c)),
           (''scheme'', JStr (pq_scheme c)),
           (''host'', JStr (pq_host c)),
           (''port'', js_num (pq_port c)),
           (''messages'', js_texts (pq_messages c))]"

definition pq_ok :: "cfg_pq \<Rightarrow> bool" where
  "pq_ok c =
     (text_ok (pq_user c) \<and>
      text_ok (pq_password c) \<and>
      text_ok (pq_scheme c) \<and>
      text_ok (pq_host c) \<and>
      int_ok (pq_port c) \<and>
      list_all text_ok (pq_messages c))"

lemma load_js_pq: "pq_ok c \<Longrightarrow> load_pq (js_pq c) = Inr c"
  by (simp add: load_pq_def js_pq_def pq_ok_def load_ok)

definition js_fcm :: "cfg_fcm \<Rightarrow> jsval" where
  "js_fcm c =
     JObj [(''user'', JStr (fcm_user c)),
           (''password'', JStr (fcm_password c)),
           (''scheme'', JStr (fcm_scheme c)),
           (''host'', JStr (fcm_host c)),
           (''port'', js_num (fcm_port c)),
           (''messages'', js_texts (fcm_messages c)),
           (''imei'', JStr (fcm_imei c)),
           (''key'', JStr (fcm_key c))]"

definition fcm_ok :: "cfg_fcm \<Rightarrow> bool" where
  "fcm_ok c =
     (text_ok (fcm_user c) \<and>
      text_ok (fcm_password c) \<and>
      text_ok (fcm_scheme c) \<and>
      text_ok (fcm_host c) \<and>
      int_ok (fcm_port c) \<and>
      list_all text_ok (fcm_messages c) \<and>
      text_ok (fcm_imei c) \<and>
      text_ok (fcm_key c))"

lemma load_js_fcm: "fcm_ok c \<Longrightarrow> load_fcm (js_fcm c) = Inr c"
  by (simp add: load_fcm_def js_fcm_def fcm_ok_def load_ok)

definition js_sheets :: "cfg_sheets \<Rightarrow> jsval" where
  "js_sheets c =
     JObj [(''json_service_file_name'', JStr (sheets_json_service_file_name c)),
           (''bearer_file_name'', JStr (sheets_bearer_file_name c)),
           (''email'', JStr (sheets_email c)),
           (''spreadsheet'', JStr (sheets_spreadsheet c)),
           (''sheet'', JStr (sheets_sheet c)),
           (''messages'', js_texts (sheets_messages c))]"

definition sheets_ok :: "cfg_sheets \<Rightarrow> bool" where
  "sheets_ok c =
     (text_ok (sheets_json_service_file_name c) \<and>
      text_ok (sheets_bearer_file_name c) \<and>
      text_ok (sheets_email c) \<and>
      text_ok (sheets_spreadsheet c) \<and>
      text_ok (sheets_sheet c) \<and>
      list_all text_ok (sheets_messages c))"

lemma load_js_sheets: "sheets_ok c \<Longrightarrow> load_sheets (js_sheets c) = Inr c"
  by (simp add: load_sheets_def js_sheets_def sheets_ok_def load_ok)

definition js_rep :: "cfg_rep \<Rightarrow> jsval" where
  "js_rep c =
     JObj [(''in'', JStr (rep_url_in c)),
           (''bind'', JBool (rep_bind c)),
           (''outs'', js_texts (rep_url_outs c))]"

definition rep_ok :: "cfg_rep \<Rightarrow> bool" where
  "rep_ok c =
     (text_ok (rep_url_in c) \<and>
      list_all text_ok (rep_url_outs c))"

lemma load_js_rep: "rep_ok c \<Longrightarrow> load_rep (js_rep c) = Inr c"
  by (simp add: load_rep_def js_rep_def rep_ok_def load_ok)

definition js_array :: "('c \<Rightarrow> jsval) \<Rightarrow> 'c list \<Rightarrow> jsval" where
  "js_array enc cs = JArr (map (\<lambda>c. Some (enc c)) cs)"

definition js_config :: "config \<Rightarrow> jsval" where
  "js_config c =
     JObj [(''proto_path'', JStr (cc_proto_path (cfgCommon c))),
           (''bus_in'', JStr (cc_bus_in (cfgCommon c))),
           (''bus_out'', JStr (cc_bus_out (cfgCommon c))),
           (''max_file_descriptors'', js_num (cc_max_file_descriptors (cfgCommon c))),
           (''max_buffer_size'', js_num (cc_max_buffer_size (cfgCommon c))),
           (''verbosity'', js_num (cc_verbosity (cfgCommon c))),
           (''tcp_listeners'', js_array js_tcp (cfgListenerTcp c)),
           (''mqtt_listeners'', js_array js_mqtt (cfgListenerMqtt c)),
           (''file_listeners'', js_array js_file (cfgListenerFile c)),
           (''packet2message'', js_array js_p2m (cfgPacket2Message c)),
           (''write_file'', js_array js_wfile (cfgWriteFile c)),
           (''write_lmdb'', js_array js_lmdb (cfgWriteLmdb c)),
           (''write_pq'', js_array js_pq (cfgWritePq c)),
           (''write_fcm'', js_array js_fcm (cfgWriteFcm c)),
           (''write_google_sheets'', js_array js_sheets (cfgWriteGoogleSheets c)),
           (''repeators'', js_array js_rep (cfgRepeators c))]"

definition config_ok :: "config \<Rightarrow> bool" where
  "config_ok c =
     (text_ok (cc_proto_path (cfgCommon c)) \<and> text_ok (cc_bus_in (cfgCommon c)) \<and>
      text_ok (cc_bus_out (cfgCommon c)) \<and> int_ok (cc_max_file_descriptors (cfgCommon c)) \<and>
      int_ok (cc_max_buffer_size (cfgCommon c)) \<and> int_ok (cc_verbosity (cfgCommon c)) \<and>
      list_all tcp_ok (cfgListenerTcp c) \<and>
      list_all mqtt_ok (cfgListenerMqtt c) \<and>
      list_all file_ok (cfgListenerFile c) \<and>
      list_all p2m_ok (cfgPacket2Message c) \<and>
      list_all wfile_ok (cfgWriteFile c) \<and>
      list_all lmdb_ok (cfgWriteLmdb c) \<and>
      list_all pq_ok (cfgWritePq c) \<and>
      list_all fcm_ok (cfgWriteFcm c) \<and>
      list_all sheets_ok (cfgWriteGoogleSheets c) \<and>
      list_all rep_ok (cfgRepeators c))"

lemma common_string_ok:
  "map_of m k = Some (JStr s) \<Longrightarrow> text_ok s \<Longrightarrow> common_string (JObj m) k old = Inr s"
  by (simp add: common_string_def get_prop_def c_string_ok)

lemma common_number_ok:
  "map_of m k = Some (js_num i) \<Longrightarrow> int_ok i \<Longrightarrow> common_number (JObj m) k old = Inr i"
  by (simp add: common_number_def get_prop_def js_num_def to_int_def trunc_of_int int_ok_def)

lemma load_js_common: "config_ok c \<Longrightarrow> load_common (js_config c) old = Inr (cfgCommon c)"
  by (simp add: load_common_def js_config_def config_ok_def common_string_ok common_number_ok)

lemma load_js_array_tcp:
  "config_ok c \<Longrightarrow> load_array load_tcp d (js_config c) ''tcp_listeners'' = Inr (cfgListenerTcp c)"
  unfolding js_config_def
  by (rule load_array_ok [where good = tcp_ok and enc = js_tcp])
     (simp_all add: js_array_def config_ok_def load_js_tcp)

lemma load_js_array_mqtt:
  "config_ok c \<Longrightarrow> load_array load_mqtt d (js_config c) ''mqtt_listeners'' = Inr (cfgListenerMqtt c)"
  unfolding js_config_def
  by (rule load_array_ok [where good = mqtt_ok and enc = js_mqtt])
     (simp_all add: js_array_def config_ok_def load_js_mqtt)

lemma load_js_array_file:
  "config_ok c \<Longrightarrow> load_array load_file d (js_config c) ''file_listeners'' = Inr (cfgListenerFile c)"
  unfolding js_config_def
  by (rule load_array_ok [where good = file_ok and enc = js_file])
     (simp_all add: js_array_def config_ok_def load_js_file)

lemma load_js_array_p2m:
  "config_ok c \<Longrightarrow> load_array load_p2m d (js_config c) ''packet2message'' = Inr (cfgPacket2Message c)"
  unfolding js_config_def
  by (rule load_array_ok [where good = p2m_ok and enc = js_p2m])
     (simp_all add: js_array_def config_ok_def load_js_p2m)

lemma load_js_array_wfile:
  "config_ok c \<Longrightarrow> load_array load_wfile d (js_config c) ''write_file'' = Inr (cfgWriteFile c)"
  unfolding js_config_def
  by (rule load_array_ok [where good = wfile_ok and enc = js_wfile])
     (simp_all add: js_array_def config_ok_def load_js_wfile)

lemma load_js_array_lmdb:
  "config_ok c \<Longrightarrow> load_array load_lmdb d (js_config c) ''write_lmdb'' = Inr (cfgWriteLmdb c)"
  unfolding js_config_def
  by (rule load_array_ok [where good = lmdb_ok and enc = js_lmdb])
     (simp_all add: js_array_def config_ok_def load_js_lmdb)

lemma load_js_array_pq:
  "config_ok c \<Longrightarrow> load_array load_pq d (js_config c) ''write_pq'' = Inr (cfgWritePq c)"
  unfolding js_config_def
  by (rule load_array_ok [where good = pq_ok and enc = js_pq])
     (simp_all add: js_array_def config_ok_def load_js_pq)

lemma load_js_array_fcm:
  "config_ok c \<Longrightarrow> load_array load_fcm d (js_config c) ''write_fcm'' = Inr (cfgWriteFcm c)"
  unfolding js_config_def
  by (rule load_array_ok [where good = fcm_ok and enc = js_fcm])
     (simp_all add: js_array_def config_ok_def load_js_fcm)

lemma load_js_array_sheets:
  "config_ok c \<Longrightarrow> load_array load_sheets d (js_config c) ''write_google_sheets'' = Inr (cfgWriteGoogleSheets c)"
  unfolding js_config_def
  by (rule load_array_ok [where good = sheets_ok and enc = js_sheets])
     (simp_all add: js_array_def config_ok_def load_js_sheets)

lemma load_js_array_rep:
  "config_ok c \<Longrightarrow> load_array load_rep d (js_config c) ''repeators'' = Inr (cfgRepeators c)"
  unfolding js_config_def
  by (rule load_array_ok [where good = rep_ok and enc = js_rep])
     (simp_all add: js_array_def config_ok_def load_js_rep)

lemmas load_js_arrays =
  load_js_array_tcp load_js_array_mqtt load_js_array_file load_js_array_p2m load_js_array_wfile
  load_js_array_lmdb load_js_array_pq load_js_array_fcm load_js_array_sheets load_js_array_rep

subsection \<open>What load_config and the command lines promise\<close>

text \<open>
  C26: A script that assigns every setting of a configuration has exactly that configuration
  loaded, whatever the settings were before: each key is read into its own field, every
  array entry in order; only the script runners are never read.
\<close>

theorem load_config_roundtrip:
  assumes "config_ok c"
  shows "load_config (js_config c) old = Inr (c\<lparr>cfgScripts := []\<rparr>)"
  using assms by (simp add: load_config_def load_js_common load_js_arrays)

subsection \<open>Reading a command line back\<close>

text \<open>
  The reading of a command line made of an option name and its value, with some switches
  that take none: the specification the command lines are compared with.
\<close>

fun option_values :: "(string \<Rightarrow> bool) \<Rightarrow> string \<Rightarrow> string list \<Rightarrow> string list" where
  "option_values sw k (a # b # xs) =
     (if sw a then option_values sw k (b # xs)
      else if a = k then b # option_values sw k xs
      else option_values sw k xs)"
| "option_values sw k [a] = []"
| "option_values sw k [] = []"

definition is_verbose :: "string \<Rightarrow> bool" where
  "is_verbose a = (take 2 a = ''-v'')"

definition first_or :: "'a \<Rightarrow> 'a list \<Rightarrow> 'a" where
  "first_or d xs = (case xs of [] \<Rightarrow> d | x # _ \<Rightarrow> x)"

definition int_of_text :: "string \<Rightarrow> int" where
  "int_of_text s =
     (case s of
        [] \<Rightarrow> 0
      | c # cs \<Rightarrow> if c = CHR ''-'' then - int (digits_val cs) else int (digits_val s))"

lemma int_of_text_int_str [simp]: "int_of_text (int_str i) = i"
proof (cases "i < 0")
  case True
  then show ?thesis by (simp add: int_of_text_def int_str_def)
next
  case False
  obtain c cs where d: "dec_str (nat i) = c # cs"
    using dec_str_nonempty by (cases "dec_str (nat i)") auto
  moreover have "is_digit c"
    using dec_str_digits [of "nat i"] d by simp
  ultimately show ?thesis
    using False digits_val_dec_str [of "nat i"]
    by (auto simp: int_of_text_def int_str_def is_digit_def)
qed

lemma option_values_skip:
  "sw t \<Longrightarrow> option_values sw k (opt b [t] @ xs) = option_values sw k xs"
  by (cases xs) (simp_all add: opt_def)

lemma option_values_opt:
  "\<not> sw a \<Longrightarrow>
   option_values sw k (opt b [a, v] @ xs) = opt (b \<and> a = k) [v] @ option_values sw k xs"
  by (auto simp: opt_def)

lemma option_values_concat:
  "\<not> sw a \<Longrightarrow>
   option_values sw k (concat (map (\<lambda>y. [a, f y]) ys) @ xs) =
     (if a = k then map f ys else []) @ option_values sw k xs"
  by (induction ys) auto

lemma option_values_end: "option_values sw k (xs @ []) = option_values sw k xs"
  by simp

lemma verbose_token: "0 < n \<Longrightarrow> is_verbose (CHR ''-'' # replicate (nat n) CHR ''v'')"
  by (cases "nat n") (auto simp: is_verbose_def numeral_2_eq_2)

lemma option_values_verbosity:
  assumes "\<And>a. is_verbose a \<Longrightarrow> sw a"
  shows "option_values sw k (arg_verbosity m @ xs) = option_values sw k xs"
proof (cases "0 < cc_verbosity m")
  case True
  then have "sw (CHR ''-'' # replicate (nat (cc_verbosity m)) CHR ''v'')"
    by (intro assms verbose_token)
  then show ?thesis by (simp add: arg_verbosity_def option_values_skip)
qed (simp add: arg_verbosity_def opt_def)

definition tcp_of_args :: "string list \<Rightarrow> cfg_tcp" where
  "tcp_of_args xs =
     (let value_of = \<lambda>k d. first_or d (option_values is_verbose k xs);
          number_of = \<lambda>k d. first_or d (map int_of_text (option_values is_verbose k xs))
      in \<lparr>tcp_ip = value_of ''-i'' ''0.0.0.0'', tcp_port = number_of ''-l'' 50052,
          tcp_compression_type = number_of ''-c'' 0, tcp_escape_code = value_of ''-e'' [],
          tcp_compression_offset = number_of ''-s'' 0, tcp_frequence_file = value_of ''-f'' [],
          tcp_codemap_file = value_of ''-m'' [],
          tcp_valid_sizes = map int_of_text (option_values is_verbose ''-p'' xs)\<rparr>)"

definition mqtt_of_args :: "string list \<Rightarrow> cfg_mqtt" where
  "mqtt_of_args xs =
     (let value_of = \<lambda>k d. first_or d (option_values is_verbose k xs);
          number_of = \<lambda>k d. first_or d (map int_of_text (option_values is_verbose k xs))
      in \<lparr>mqtt_client = value_of ''-c'' [], mqtt_broker = value_of ''-a'' ''tcp://localhost'',
          mqtt_topic = value_of ''-t'' [], mqtt_port = number_of ''-p'' 1883,
          mqtt_qos = number_of ''-q'' 1, mqtt_keep_alive = number_of ''-k'' 20\<rparr>)"

definition p2m_of_args :: "string list \<Rightarrow> cfg_p2m" where
  "p2m_of_args xs =
     \<lparr>p2m_force_message = first_or [] (option_values is_verbose ''--message'' xs),
      p2m_sizes = map int_of_text (option_values is_verbose ''-a'' xs)\<rparr>"

definition pq_of_args :: "string list \<Rightarrow> cfg_pq" where
  "pq_of_args xs =
     (let value_of = \<lambda>k d. first_or d (option_values is_verbose k xs);
          number_of = \<lambda>k d. first_or d (map int_of_text (option_values is_verbose k xs))
      in \<lparr>pq_user = value_of ''--user'' [], pq_password = value_of ''--password'' [],
          pq_scheme = value_of ''--database'' [], pq_host = value_of ''--host'' ''localhost'',
          pq_port = number_of ''--port'' 5432,
          pq_messages = option_values is_verbose ''-a'' xs\<rparr>)"

fun switch_set :: "(string \<Rightarrow> bool) \<Rightarrow> string \<Rightarrow> string list \<Rightarrow> bool" where
  "switch_set sw k (a # b # xs) =
     (if sw a then a = k \<or> switch_set sw k (b # xs) else switch_set sw k xs)"
| "switch_set sw k [a] = (sw a \<and> a = k)"
| "switch_set sw k [] = False"

definition rep_of_args :: "string list \<Rightarrow> cfg_rep" where
  "rep_of_args xs =
     (let sw = \<lambda>a. is_verbose a \<or> a = ''-s'' in
      \<lparr>rep_url_in = first_or ''ipc:///tmp/control.pkt2'' (option_values sw ''-i'' xs),
       rep_bind = switch_set sw ''-s'' xs,
       rep_url_outs =
         (case option_values sw ''-o'' xs of
            [] \<Rightarrow> [''tcp://0.0.0.0:50000''] | outs \<Rightarrow> outs)\<rparr>)"

lemma not_verbose: "take 2 a \<noteq> ''-v'' \<Longrightarrow> \<not> is_verbose a"
  by (simp add: is_verbose_def)

lemma option_values_str:
  "\<not> sw a \<Longrightarrow> option_values sw k (arg_str a v @ xs) = opt (a = k) [v] @ option_values sw k xs"
  by (simp add: opt_def arg_str_def)

lemma option_values_num:
  "\<not> sw a \<Longrightarrow>
   option_values sw k (arg_num a v @ xs) = opt (a = k) [int_str v] @ option_values sw k xs"
  by (simp add: opt_def arg_num_def)

lemma option_values_opt_str:
  "\<not> sw a \<Longrightarrow>
   option_values sw k (opt b (arg_str a v) @ xs) = opt (b \<and> a = k) [v] @ option_values sw k xs"
  by (simp add: option_values_opt arg_str_def)

lemma option_values_opt_num:
  "\<not> sw a \<Longrightarrow>
   option_values sw k (opt b (arg_num a v) @ xs) =
     opt (b \<and> a = k) [int_str v] @ option_values sw k xs"
  by (simp add: option_values_opt arg_num_def)

lemma option_values_strs:
  "\<not> sw a \<Longrightarrow>
   option_values sw k (concat (map (arg_str a) ys) @ xs) =
     (if a = k then ys else []) @ option_values sw k xs"
  by (induction ys) (auto simp: arg_str_def)

lemma option_values_nums:
  "\<not> sw a \<Longrightarrow>
   option_values sw k (concat (map (arg_num a) ys) @ xs) =
     (if a = k then map int_str ys else []) @ option_values sw k xs"
  by (induction ys) (auto simp: arg_num_def)

lemmas option_values_simps =
  option_values_str option_values_num option_values_opt_str option_values_opt_num
  option_values_strs option_values_nums not_verbose

lemma opt_False [simp]: "opt False xs = []"
  by (simp add: opt_def)

lemma opt_True [simp]: "opt True xs = xs"
  by (simp add: opt_def)

text \<open>The settings all processes share do not disturb the options of a process.\<close>

lemma option_values_bus:
  "k \<noteq> a \<Longrightarrow> \<not> sw a \<Longrightarrow> option_values sw k (arg_bus_in a m @ xs) = option_values sw k xs"
  "k \<noteq> a \<Longrightarrow> \<not> sw a \<Longrightarrow> option_values sw k (arg_bus_out a m @ xs) = option_values sw k xs"
  by (simp_all add: arg_bus_in_def arg_bus_out_def option_values_simps)

lemma option_values_sizes:
  "k \<noteq> ''--maxfd'' \<Longrightarrow> \<not> sw ''--maxfd'' \<Longrightarrow>
   option_values sw k (arg_maxfd m @ xs) = option_values sw k xs"
  "k \<noteq> ''-b'' \<Longrightarrow> \<not> sw ''-b'' \<Longrightarrow> option_values sw k (arg_buffer m @ xs) = option_values sw k xs"
  "k \<noteq> ''-b'' \<Longrightarrow> \<not> sw ''-b'' \<Longrightarrow>
   option_values sw k (arg_buffer_set m @ xs) = option_values sw k xs"
  by (simp_all add: arg_maxfd_def arg_buffer_set_def arg_buffer_def opt_def arg_num_def)

lemma option_values_proto:
  "k \<noteq> ''-p'' \<Longrightarrow> \<not> sw ''-p'' \<Longrightarrow>
   option_values sw k (arg_proto_set m @ xs) = option_values sw k xs"
  by (simp_all add: arg_proto_set_def arg_proto_def opt_def arg_str_def)

lemmas option_values_common = option_values_bus option_values_sizes option_values_proto
  option_values_sizes [where xs = "[]", simplified]
  option_values_verbosity

lemma option_values_tails:
  "k \<notin> {''-o'', ''--maxfd'', ''-b''} \<Longrightarrow>
   option_values is_verbose k (if_common common (\<lambda>m.
     arg_verbosity m @ arg_bus_in ''-o'' m @ arg_maxfd m @ arg_buffer_set m)) = []"
  "k \<notin> {''-o'', ''--maxfd''} \<Longrightarrow>
   option_values is_verbose k (if_common common (\<lambda>m.
     arg_verbosity m @ arg_bus_in ''-o'' m @ arg_maxfd m)) = []"
  "k \<notin> {''-i'', ''-o'', ''--maxfd'', ''-b'', ''-p''} \<Longrightarrow>
   option_values is_verbose k (if_common common (\<lambda>m.
     arg_verbosity m @ arg_bus_in ''-i'' m @ arg_bus_out ''-o'' m @ arg_proto_set m
     @ arg_buffer_set m @ arg_maxfd m)) = []"
  "k \<notin> {''-i'', ''-b'', ''-p''} \<Longrightarrow>
   option_values is_verbose k (if_common common (\<lambda>m.
     arg_verbosity m @ arg_bus_out ''-i'' m @ arg_proto_set m @ arg_buffer m)) = []"
  "(\<And>a. is_verbose a \<Longrightarrow> sw a) \<Longrightarrow> k \<noteq> ''-b'' \<Longrightarrow> \<not> sw ''-b'' \<Longrightarrow>
   option_values sw k (if_common common (\<lambda>m. arg_verbosity m @ arg_buffer m)) = []"
  by (cases common; simp add: if_common_def option_values_common not_verbose)+

lemma int_of_text_o_int_str [simp]: "int_of_text \<circ> int_str = id"
  by (simp add: fun_eq_iff)

lemma tcp_line: "tcp_of_args (tcp_args common c) = c\<lparr>tcp_escape_code := []\<rparr>"
  by (simp add: tcp_of_args_def tcp_args_def option_values_simps option_values_tails Let_def)
     (cases c, simp add: opt_def first_or_def)

lemma mqtt_line: "mqtt_of_args (mqtt_args common c) = c\<lparr>mqtt_keep_alive := 20\<rparr>"
  by (simp add: mqtt_of_args_def mqtt_args_def option_values_simps option_values_tails Let_def)
     (cases c, simp add: opt_def first_or_def)

lemma p2m_line: "p2m_of_args (p2m_args common c) = c"
  by (simp add: p2m_of_args_def p2m_args_def option_values_simps option_values_tails Let_def)
     (cases c, simp add: opt_def first_or_def)

lemma pq_line: "pq_of_args (pq_args common c) = c"
  by (simp add: pq_of_args_def pq_args_def option_values_simps option_values_tails Let_def)
     (cases c, simp add: opt_def first_or_def)

lemma switch_set_Cons: "sw a \<Longrightarrow> switch_set sw k (a # xs) \<longleftrightarrow> a = k \<or> switch_set sw k xs"
  by (cases xs) auto

lemma switch_set_opt_str:
  "\<not> sw a \<Longrightarrow> switch_set sw k (opt b (arg_str a v) @ xs) = switch_set sw k xs"
  by (simp add: opt_def arg_str_def)

lemma switch_set_strs:
  "\<not> sw a \<Longrightarrow> switch_set sw k (concat (map (arg_str a) ys) @ xs) = switch_set sw k xs"
  by (induction ys) (auto simp: arg_str_def)

lemma switch_set_tail:
  "\<not> is_verbose k \<Longrightarrow> (\<And>a. is_verbose a \<Longrightarrow> sw a) \<Longrightarrow> \<not> sw ''-b'' \<Longrightarrow>
   \<not> switch_set sw k (if_common common (\<lambda>m. arg_verbosity m @ arg_buffer m))"
  by (cases common)
     (auto simp: if_common_def arg_verbosity_def arg_buffer_def opt_def arg_num_def
       switch_set_Cons verbose_token)

lemma rep_line:
  "rep_of_args (rep_args common c) =
     c\<lparr>rep_url_outs := if rep_url_outs c = [] then [''tcp://0.0.0.0:50000''] else rep_url_outs c\<rparr>"
proof -
  define sw where "sw = (\<lambda>a. is_verbose a \<or> a = ''-s'')"
  let ?tail = "if_common common (\<lambda>m. arg_verbosity m @ arg_buffer m)"
  have sw: "\<not> sw ''-i''" "\<not> sw ''-o''" "\<not> sw ''-b''" "\<not> is_verbose ''-s''" "sw ''-s''"
    by (simp_all add: sw_def is_verbose_def)
  have verbose: "is_verbose a \<Longrightarrow> sw a" for a
    by (simp add: sw_def)
  have bind: "switch_set sw ''-s'' (opt b [''-s''] @ xs) \<longleftrightarrow> b \<or> switch_set sw ''-s'' xs" for b xs
    by (simp add: opt_def switch_set_Cons sw)
  have skip: "option_values sw k (opt b [''-s''] @ xs) = option_values sw k xs" for k b xs
    by (rule option_values_skip) (rule sw)
  have tail: "option_values sw k ?tail = []" if "k \<noteq> ''-b''" for k
    using that by (intro option_values_tails) (use sw verbose in auto)
  have notail: "\<not> switch_set sw ''-s'' ?tail"
    by (rule switch_set_tail) (use sw verbose in auto)
  have outs: "option_values sw k (arg_outs outs @ ?tail) =
      (if k = ''-o'' \<and> outs \<noteq> [''tcp://0.0.0.0:50000''] then outs else [])"
    if "k \<noteq> ''-b''" for k outs
    using that sw tail [OF that] option_values_strs [of sw "''-o''" k outs ?tail]
    by (auto simp: arg_outs_def opt_def)
  have noouts: "switch_set sw ''-s'' (arg_outs outs @ ?tail) = False" for outs
    using sw notail switch_set_strs [of sw "''-o''" "''-s''" outs ?tail]
    by (auto simp: arg_outs_def opt_def)
  have "option_values sw ''-i'' (rep_args common c) =
      opt (rep_url_in c \<noteq> ''ipc:///tmp/control.pkt2'') [rep_url_in c]"
    unfolding rep_args_def by (simp add: option_values_opt_str skip sw outs)
  moreover have "option_values sw ''-o'' (rep_args common c) =
      (if rep_url_outs c \<noteq> [''tcp://0.0.0.0:50000''] then rep_url_outs c else [])"
    unfolding rep_args_def by (simp add: option_values_opt_str skip sw outs)
  moreover have "switch_set sw ''-s'' (rep_args common c) = rep_bind c"
    unfolding rep_args_def by (simp add: switch_set_opt_str bind sw noouts)
  ultimately show ?thesis
    by (cases c) (auto simp: rep_of_args_def Let_def sw_def [symmetric] first_or_def opt_def split: list.split)
qed

text \<open>
  A process that reads its command line gets the settings of its configuration back,
  whatever the common settings are, with three exceptions of the code: the escape code of
  a TCP listener is passed only when it is empty, the keep-alive time of an MQTT listener
  is never passed, and a repeater without outputs gets the default one.
\<close>

theorem command_lines_carry_settings:
  "tcp_of_args (tcp_args common tcp) = tcp\<lparr>tcp_escape_code := []\<rparr> \<and>
   mqtt_of_args (mqtt_args common mqtt) = mqtt\<lparr>mqtt_keep_alive := 20\<rparr> \<and>
   p2m_of_args (p2m_args common p2m) = p2m \<and>
   pq_of_args (pq_args common pq) = pq \<and>
   rep_of_args (rep_args common rep) =
     rep\<lparr>rep_url_outs :=
       if rep_url_outs rep = [] then [''tcp://0.0.0.0:50000''] else rep_url_outs rep\<rparr>"
  by (simp only: tcp_line mqtt_line p2m_line pq_line rep_line simp_thms)

text \<open>
  The command line of a Firebase notifier with the default server key and any device
  number but the text imei starts with the bare key and the bare number, without the
  names of their options.
\<close>

theorem fcm_line_positional:
  assumes "fcm_key c = [] \<or> fcm_key c = DEF_SERVER_KEY" and "fcm_imei c \<noteq> ''imei''"
  shows "take 2 (fcm_args common c) = [fcm_key c, fcm_imei c]"
  using assms by (auto simp: fcm_args_def numeral_2_eq_2)

theorem fcm_line_positional_witness:
  "take 2 (fcm_args None (cfg_fcm_new\<lparr>fcm_imei := ''353''\<rparr>)) = [[], ''353'']"
  using fcm_line_positional [of "cfg_fcm_new\<lparr>fcm_imei := ''353''\<rparr>" None]
  by (simp add: cfg_fcm_new_def)

text \<open>
  A listener whose address is present in the script and is no text makes load_config
  assign a null pointer to a std::string.
\<close>

theorem load_tcp_wrong_type:
  assumes "map_of m ''ip'' = Some v" and "\<And>s. v \<noteq> JStr s"
  shows "load_tcp (JObj m) = Inl NullPointer"
  using assms by (cases v) (auto simp: load_tcp_def load_prop_obj get_string_def)

theorem load_tcp_wrong_type_witness:
  "load_tcp (JObj [(''ip'', JNum (Finite 7))]) = Inl NullPointer"
  by (rule load_tcp_wrong_type [of _ "JNum (Finite 7)"]) simp_all

theorem load_config_roundtrip_witness:
  "load_config
     (js_config
        \<lparr>cfgCommon = cfg_common_new, cfgListenerTcp = [cfg_tcp_new\<lparr>tcp_valid_sizes := [12, 81]\<rparr>],
         cfgListenerMqtt = [], cfgListenerFile = [], cfgPacket2Message = [], cfgWriteFile = [],
         cfgWriteLmdb = [cfg_lmdb_new\<lparr>lmdb_messages := [''a.b'']\<rparr>], cfgWritePq = [],
         cfgWriteFcm = [], cfgWriteGoogleSheets = [], cfgRepeators = [], cfgScripts = []\<rparr>)
     cfg_common_new
   = Inr
        \<lparr>cfgCommon = cfg_common_new, cfgListenerTcp = [cfg_tcp_new\<lparr>tcp_valid_sizes := [12, 81]\<rparr>],
         cfgListenerMqtt = [], cfgListenerFile = [], cfgPacket2Message = [], cfgWriteFile = [],
         cfgWriteLmdb = [cfg_lmdb_new\<lparr>lmdb_messages := [''a.b'']\<rparr>], cfgWritePq = [],
         cfgWriteFcm = [], cfgWriteGoogleSheets = [], cfgRepeators = [], cfgScripts = []\<rparr>"
  by (subst load_config_roundtrip)
     (simp_all add: config_ok_def tcp_ok_def lmdb_ok_def cfg_tcp_new_def cfg_lmdb_new_def
       cfg_common_new_def text_ok_def int_ok_def)

end
