(* ===== verification/Supervisor.thy ===== *)
theory Supervisor
  imports SupervisorConfig
begin

section \<open>The supervisor of the processes\<close>

text \<open>
  pkt2-impl.cpp and pkt2.cpp: the program that starts a process for every entry of its
  configuration, restarts the ones that died, and stops or reloads on a signal. The main
  thread is a machine whose counter names the place in pkt2() it is at; the results of the
  calls of the operating system and of the Javascript engine are inputs of its steps;
  signals, the end of a child and the kill sent by a child that cannot execute its program
  are steps of their own, taken between two steps of the main thread.
\<close>

subsection \<open>Processes\<close>

definition ERR_OK :: int where "ERR_OK = 0"
definition ERRCODE_NO_CONFIG :: int where "ERRCODE_NO_CONFIG = - 27"
definition ERRCODE_FORK :: int where "ERRCODE_FORK = - 57"
definition ERRCODE_CONFIG :: int where "ERRCODE_CONFIG = - 59"
definition SIGINT :: int where "SIGINT = 2"

text \<open>What fork and the execv of the child do.\<close>

datatype forked =
    ForkFailed
  | Forked int bool                    \<comment> \<open>process identifier, whether execv succeeds\<close>

text \<open>
  The processes as the supervisor can observe them: those with a non-empty cmdline under
  /proc, every child started with its argv, the kill calls in their order, and whether some
  child failed to execute its program and is going to send SIGKILL to its process group.
\<close>

record os =
  running :: "int list"
  children :: "(int \<times> string list) list"
  sent :: "(int \<times> int) list"
  doomed :: bool

definition start_program ::
  "string \<Rightarrow> string \<Rightarrow> string list \<Rightarrow> forked \<Rightarrow> os \<Rightarrow> int \<times> int \<times> os" where
  "start_program path cmd args f w =
     (case f of
        ForkFailed \<Rightarrow> (ERRCODE_FORK, -1, w)
      | Forked p executes \<Rightarrow>
          (0, p, w\<lparr>running := p # running w,
                   children := (p, (path @ ''/'' @ cmd) # args) # children w,
                   doomed := doomed w \<or> \<not> executes\<rparr>))"

definition stop_process :: "int \<Rightarrow> os \<Rightarrow> os" where
  "stop_process p w = (if p \<noteq> 0 then w\<lparr>sent := sent w @ [(p, SIGINT)]\<rparr> else w)"

definition is_process_running :: "int \<Rightarrow> os \<Rightarrow> bool" where
  "is_process_running p w = (p = 0 \<or> list_ex (\<lambda>q. q = p) (running w))"

record process_descriptor =
  pid :: int
  pd_path :: string
  pd_cmd :: string
  pd_args :: "string list"
  start_count :: int
  last_start :: int

definition process_descriptor_new ::
  "string \<Rightarrow> string \<Rightarrow> string list \<Rightarrow> process_descriptor" where
  "process_descriptor_new a_path a_cmd a_args =
     \<lparr>pid = 0, pd_path = a_path, pd_cmd = a_cmd, pd_args = a_args, start_count = 0,
      last_start = 0\<rparr>"

definition pd_start ::
  "process_descriptor \<Rightarrow> forked \<Rightarrow> int \<Rightarrow> os \<Rightarrow> process_descriptor \<times> os" where
  "pd_start d f now w =
     (let (r, p, w') = start_program (pd_path d) (pd_cmd d) (pd_args d) f w;
          d' = d\<lparr>pid := p\<rparr>
      in (if r = 0 then d'\<lparr>start_count := start_count d' + 1, last_start := now\<rparr> else d', w'))"

definition is_running :: "process_descriptor \<Rightarrow> os \<Rightarrow> bool" where
  "is_running d w = (pid d \<noteq> 0 \<and> is_process_running (pid d) w)"

definition init_descriptors :: "string \<Rightarrow> config \<Rightarrow> process_descriptor list" where
  "init_descriptors path c =
     (let common = Some (cfgCommon c) in
        map (\<lambda>x. process_descriptor_new path ''tcpreceiver'' (tcp_args common x)) (cfgListenerTcp c)
      @ map (\<lambda>x. process_descriptor_new path ''mqtt-receiver'' (mqtt_args common x)) (cfgListenerMqtt c)
      @ map (\<lambda>x. process_descriptor_new path ''freceiver'' (file_args common x)) (cfgListenerFile c)
      @ map (\<lambda>x. process_descriptor_new path ''pkt2receiver'' (p2m_args common x)) (cfgPacket2Message c)
      @ map (\<lambda>x. process_descriptor_new path ''handlerline'' (wfile_args common x)) (cfgWriteFile c)
      @ map (\<lambda>x. process_descriptor_new path ''handlerlmdb'' (lmdb_args common x)) (cfgWriteLmdb c)
      @ map (\<lambda>x. process_descriptor_new path ''handlerpq'' (pq_args common x)) (cfgWritePq c)
      @ map (\<lambda>x. process_descriptor_new path ''handlerfcm'' (fcm_args common x)) (cfgWriteFcm c)
      @ map (\<lambda>x. process_descriptor_new path ''handler-google-sheets'' (sheets_args common x))
          (cfgWriteGoogleSheets c)
      @ map (\<lambda>x. process_descriptor_new path ''repeator'' (rep_args common x)) (cfgRepeators c)
      @ map (\<lambda>x. process_descriptor_new path ''script'' (script_args common x)) (cfgScripts c))"

subsection \<open>The main thread\<close>

datatype pc =
    AtLoad
  | Starting nat
  | AtReset                            \<comment> \<open>before \<open>stop_request = 0\<close>\<close>
  | AtTest                             \<comment> \<open>the condition of the while loop\<close>
  | Checking nat
  | Stopping nat
  | AtDecide                           \<comment> \<open>\<open>if (stop_request == 2) goto START\<close>\<close>
  | Returned int                       \<comment> \<open>back in run()\<close>
  | Exited
  | Killed                             \<comment> \<open>by SIGKILL to the process group\<close>
  | Crashed fault

record supervisor =
  at_pc :: pc
  path :: string
  common :: cfg_common
  descriptors :: "process_descriptor list"
  stop_request :: int
  world :: os

text \<open>What the outside answers during one step.\<close>

record reply =
  eval_result :: int                   \<comment> \<open>duk_peval_string of the configuration\<close>
  global_object :: jsval
  fork_result :: forked
  now :: int

definition load_step :: "reply \<Rightarrow> supervisor \<Rightarrow> supervisor" where
  "load_step r s =
     (case load_config (global_object r) (common s) of
        Inl e \<Rightarrow> s\<lparr>at_pc := Crashed e\<rparr>
      | Inr c \<Rightarrow>
          (if eval_result r \<noteq> ERR_OK
           then s\<lparr>at_pc := Returned ERRCODE_CONFIG, common := cfgCommon c\<rparr>
           else s\<lparr>at_pc := Starting 0, common := cfgCommon c,
                  descriptors := init_descriptors (path s) c\<rparr>))"

definition start_nth :: "nat \<Rightarrow> reply \<Rightarrow> supervisor \<Rightarrow> supervisor" where
  "start_nth i r s =
     (let (d, w) = pd_start (descriptors s ! i) (fork_result r) (now r) (world s)
      in s\<lparr>descriptors := (descriptors s)[i := d], world := w\<rparr>)"

definition start_step :: "nat \<Rightarrow> reply \<Rightarrow> supervisor \<Rightarrow> supervisor" where
  "start_step i r s =
     (if i < length (descriptors s) then (start_nth i r s)\<lparr>at_pc := Starting (i + 1)\<rparr>
      else s\<lparr>at_pc := AtReset\<rparr>)"

definition check_step :: "nat \<Rightarrow> reply \<Rightarrow> supervisor \<Rightarrow> supervisor" where
  "check_step i r s =
     (if i < length (descriptors s) then
        (if is_running (descriptors s ! i) (world s) then s else start_nth i r s)
          \<lparr>at_pc := Checking (i + 1)\<rparr>
      else s\<lparr>at_pc := AtTest\<rparr>)"

definition stop_step :: "nat \<Rightarrow> supervisor \<Rightarrow> supervisor" where
  "stop_step i s =
     (if i < length (descriptors s) then
        s\<lparr>at_pc := Stopping (i + 1), world := stop_process (pid (descriptors s ! i)) (world s)\<rparr>
      else s\<lparr>at_pc := AtDecide\<rparr>)"

text \<open>run() of pkt2.cpp: the loop around pkt2(), which makes a new ProcessDescriptors.\<close>

definition run_step :: "int \<Rightarrow> supervisor \<Rightarrow> supervisor" where
  "run_step reslt s =
     (if reslt = ERRCODE_CONFIG then s\<lparr>at_pc := Exited\<rparr>
      else if stop_request s = 0
      then s\<lparr>at_pc := AtLoad, common := cfg_common_new, descriptors := []\<rparr>
      else s\<lparr>at_pc := Exited\<rparr>)"

definition main_step :: "reply \<Rightarrow> supervisor \<Rightarrow> supervisor" where
  "main_step r s =
     (case at_pc s of
        AtLoad \<Rightarrow> load_step r s
      | Starting i \<Rightarrow> start_step i r s
      | AtReset \<Rightarrow> s\<lparr>at_pc := AtTest, stop_request := 0\<rparr>
      | AtTest \<Rightarrow> (if stop_request s = 0 then s\<lparr>at_pc := Checking 0\<rparr> else s\<lparr>at_pc := Stopping 0\<rparr>)
      | Checking i \<Rightarrow> check_step i r s
      | Stopping i \<Rightarrow> stop_step i s
      | AtDecide \<Rightarrow>
          (if stop_request s = 2 then s\<lparr>at_pc := AtLoad\<rparr> else s\<lparr>at_pc := Returned ERR_OK\<rparr>)
      | Returned reslt \<Rightarrow> run_step reslt s
      | Exited \<Rightarrow> s
      | Killed \<Rightarrow> s
      | Crashed e \<Rightarrow> s)"

definition supervisor_new :: "string \<Rightarrow> supervisor" where
  "supervisor_new p =
     \<lparr>at_pc = AtLoad, path = p, common = cfg_common_new, descriptors = [], stop_request = 0,
      world = \<lparr>running = [], children = [], sent = [], doomed = False\<rparr>\<rparr>"

text \<open>stop() and reload(), which the signal handler calls with the configuration.\<close>

definition request :: "int \<Rightarrow> supervisor option \<Rightarrow> int \<times> supervisor option" where
  "request n config =
     (case config of
        None \<Rightarrow> (ERRCODE_NO_CONFIG, None)
      | Some s \<Rightarrow> (ERR_OK, Some (s\<lparr>stop_request := n\<rparr>)))"

datatype signal = SigTerm | SigInt | SigHup | SigChld

definition signalHandler :: "signal \<Rightarrow> supervisor option \<Rightarrow> supervisor option" where
  "signalHandler g config =
     (case g of
        SigTerm \<Rightarrow> snd (request 1 config)
      | SigInt \<Rightarrow> snd (request 1 config)
      | SigHup \<Rightarrow> snd (request 2 config)
      | SigChld \<Rightarrow> config)"

fun main_steps :: "reply list \<Rightarrow> supervisor \<Rightarrow> supervisor" where
  "main_steps [] s = s"
| "main_steps (r # rs) s = main_steps rs (main_step r s)"

subsection \<open>Everything that can happen\<close>

text \<open>
  One event: a step of the main thread, a signal, the end of a child, or the SIGKILL of a
  child that failed to execute. fork returns a positive identifier that is not in use;
  \<open>P\<close> restricts the replies further.
\<close>

definition reply_ok :: "reply \<Rightarrow> supervisor \<Rightarrow> bool" where
  "reply_ok r s =
     (case fork_result r of
        ForkFailed \<Rightarrow> True
      | Forked p executes \<Rightarrow> 0 < p \<and> \<not> list_ex (\<lambda>q. q = p) (running (world s)))"

inductive step :: "(reply \<Rightarrow> bool) \<Rightarrow> supervisor \<Rightarrow> supervisor \<Rightarrow> bool" for P where
  main: "P r \<Longrightarrow> reply_ok r s \<Longrightarrow> step P s (main_step r s)"
| handler: "signalHandler g (Some s) = Some s' \<Longrightarrow> step P s s'"
| child_ends: "step P s (s\<lparr>world := (world s)\<lparr>running := removeAll q (running (world s))\<rparr>\<rparr>)"
| group_kill: "doomed (world s) \<Longrightarrow>
    step P s (s\<lparr>at_pc := Killed, world := (world s)\<lparr>running := []\<rparr>\<rparr>)"

inductive reachable :: "(reply \<Rightarrow> bool) \<Rightarrow> supervisor \<Rightarrow> bool" for P where
  start: "reachable P (supervisor_new p)"
| more: "reachable P s \<Longrightarrow> step P s s' \<Longrightarrow> reachable P s'"

inductive_cases stepE: "step P s s'"

lemma handler_cases:
  "signalHandler g (Some s) = Some s' \<Longrightarrow> s' = s \<or> (\<exists>n. (n = 1 \<or> n = 2) \<and> s' = s\<lparr>stop_request := n\<rparr>)"
  by (cases g) (auto simp: signalHandler_def request_def)

subsection \<open>Only children are signalled\<close>

text \<open>The identifiers in use are those of children, 0 before a start and -1 after a failed fork.\<close>

definition child :: "supervisor \<Rightarrow> int \<Rightarrow> bool" where
  "child s p = (p \<in> fst ` set (children (world s)))"

definition own_pid :: "bool \<Rightarrow> supervisor \<Rightarrow> int \<Rightarrow> bool" where
  "own_pid failed s p = (p = 0 \<or> failed \<and> p = -1 \<or> child s p)"

definition pids_ok :: "bool \<Rightarrow> supervisor \<Rightarrow> bool" where
  "pids_ok failed s =
     (list_all (\<lambda>d. own_pid failed s (pid d)) (descriptors s) \<and>
      list_all (\<lambda>(p, g). g = SIGINT \<and> p \<noteq> 0 \<and> own_pid failed s p) (sent (world s)))"

lemma init_pids: "d \<in> set (init_descriptors q c) \<Longrightarrow> pid d = 0"
  by (auto simp: init_descriptors_def process_descriptor_new_def Let_def)

lemma start_nth_failed:
  "fork_result r = ForkFailed \<Longrightarrow>
   start_nth i r s = s\<lparr>descriptors := (descriptors s)[i := (descriptors s ! i)\<lparr>pid := -1\<rparr>]\<rparr>"
  by (simp add: start_nth_def pd_start_def start_program_def Let_def ERRCODE_FORK_def)

lemma start_nth_forked:
  "fork_result r = Forked p e \<Longrightarrow>
   start_nth i r s =
     s\<lparr>descriptors := (descriptors s)[i := (descriptors s ! i)
          \<lparr>pid := p, start_count := start_count (descriptors s ! i) + 1, last_start := now r\<rparr>],
       world := (world s)
          \<lparr>running := p # running (world s),
           children := (p, (pd_path (descriptors s ! i) @ ''/'' @ pd_cmd (descriptors s ! i))
                             # pd_args (descriptors s ! i)) # children (world s),
           doomed := doomed (world s) \<or> \<not> e\<rparr>\<rparr>"
  by (simp add: start_nth_def pd_start_def start_program_def Let_def)

lemma pids_okI:
  assumes "pids_ok failed s"
    and "list_all (\<lambda>d. own_pid failed s' (pid d)) (descriptors s')"
    and "sent (world s') = sent (world s)"
    and "\<And>p. child s p \<Longrightarrow> child s' p"
  shows "pids_ok failed s'"
  using assms by (auto simp: pids_ok_def own_pid_def list_all_iff)

lemma own_pid_mono:
  assumes "pids_ok failed s" and "\<And>p. child s p \<Longrightarrow> child s' p"
  shows "list_all (\<lambda>d. own_pid failed s' (pid d)) (descriptors s)"
  using assms by (auto simp: pids_ok_def own_pid_def list_all_iff)

lemma pids_ok_start_nth:
  assumes "pids_ok failed s" and "\<not> failed \<Longrightarrow> fork_result r \<noteq> ForkFailed"
  shows "pids_ok failed (start_nth i r s)"
proof (cases "fork_result r")
  case ForkFailed
  have grow: "child s p \<Longrightarrow> child (start_nth i r s) p" for p
    by (simp add: start_nth_failed ForkFailed child_def)
  have "descriptors (start_nth i r s) = (descriptors s)[i := (descriptors s ! i)\<lparr>pid := -1\<rparr>]"
    by (simp add: start_nth_failed ForkFailed)
  moreover have "own_pid failed (start_nth i r s) (-1)"
    using assms(2) ForkFailed by (auto simp: own_pid_def)
  ultimately show ?thesis
    using pids_okI [OF assms(1) _ _ grow] own_pid_mono [OF assms(1) grow]
    by (simp add: list_all_update start_nth_failed ForkFailed)
next
  case (Forked q e)
  have grow: "child s p \<Longrightarrow> child (start_nth i r s) p" for p
    by (auto simp: start_nth_forked Forked child_def)
  have "own_pid failed (start_nth i r s) q"
    by (simp add: own_pid_def start_nth_forked Forked child_def)
  then show ?thesis
    using own_pid_mono [OF assms(1) grow]
    by (intro pids_okI [OF assms(1) _ _ grow])
       (simp_all add: start_nth_forked Forked list_all_update)
qed

lemma pids_ok_main_step:
  assumes "pids_ok failed s" and "\<not> failed \<Longrightarrow> fork_result r \<noteq> ForkFailed"
  shows "pids_ok failed (main_step r s)"
proof -
  have pc: "pids_ok failed (s'\<lparr>at_pc := x\<rparr>) = pids_ok failed s'" for s' x
    by (simp add: pids_ok_def own_pid_def child_def)
  show ?thesis
  proof (cases "at_pc s")
    case AtLoad
    then show ?thesis
      using assms(1) init_pids
      by (auto simp: main_step_def load_step_def pids_ok_def own_pid_def child_def list_all_iff
          split: sum.split)
  next
    case (Starting i)
    then show ?thesis
      using pids_ok_start_nth [OF assms, of i] assms(1)
      by (auto simp: main_step_def start_step_def pc)
  next
    case (Checking i)
    then show ?thesis
      using pids_ok_start_nth [OF assms, of i] assms(1)
      by (auto simp: main_step_def check_step_def pc)
  next
    case (Stopping i)
    then show ?thesis
      using assms(1)
      by (auto simp: main_step_def stop_step_def stop_process_def pids_ok_def own_pid_def
          child_def list_all_iff)
  qed (use assms(1) in \<open>auto simp: main_step_def run_step_def pids_ok_def own_pid_def child_def\<close>)
qed

lemma pids_ok_reachable:
  assumes "reachable P s" and "\<And>r. P r \<Longrightarrow> \<not> failed \<Longrightarrow> fork_result r \<noteq> ForkFailed"
  shows "pids_ok failed s"
  using assms(1)
proof induction
  case (start p)
  then show ?case by (simp add: supervisor_new_def pids_ok_def)
next
  case (more s s')
  from more(2) show ?case
  proof (cases rule: step.cases)
    case (main r)
    then show ?thesis using pids_ok_main_step more(3) assms(2) by auto
  next
    case (handler g)
    then show ?thesis
      using more(3) handler_cases by (fastforce simp: pids_ok_def own_pid_def child_def)
  qed (use more(3) in \<open>auto simp: pids_ok_def own_pid_def child_def\<close>)
qed

subsection \<open>A stop request before the loop is lost\<close>

definition before_loop :: "pc \<Rightarrow> bool" where
  "before_loop x = (case x of Starting _ \<Rightarrow> True | AtReset \<Rightarrow> True | _ \<Rightarrow> False)"

definition supervising :: "supervisor \<Rightarrow> bool" where
  "supervising s =
     (case at_pc s of
        Starting _ \<Rightarrow> True
      | AtReset \<Rightarrow> True
      | AtTest \<Rightarrow> stop_request s = 0
      | Checking _ \<Rightarrow> stop_request s = 0
      | _ \<Rightarrow> False)"

lemma start_nth_keeps [simp]:
  "stop_request (start_nth i r s) = stop_request s" "at_pc (start_nth i r s) = at_pc s"
  "length (descriptors (start_nth i r s)) = length (descriptors s)"
  "common (start_nth i r s) = common s" "path (start_nth i r s) = path s"
  by (cases "fork_result r"; simp add: start_nth_failed start_nth_forked)+

lemma supervising_main_step: "supervising s \<Longrightarrow> supervising (main_step r s)"
  by (auto simp: supervising_def main_step_def start_step_def check_step_def split: pc.splits)

lemma supervising_main_steps: "supervising s \<Longrightarrow> supervising (main_steps rs s)"
  by (induction rs arbitrary: s) (simp_all add: supervising_main_step)

subsection \<open>A stop request in the loop is honoured\<close>

lemma main_steps_append: "main_steps (xs @ ys) s = main_steps ys (main_steps xs s)"
  by (induction xs arbitrary: s) simp_all

definition nonzero_pids :: "process_descriptor list \<Rightarrow> int list" where
  "nonzero_pids ds = filter (\<lambda>p. p \<noteq> 0) (map pid ds)"

lemma stop_steps:
  assumes "at_pc s = Stopping i" and "length rs = length (descriptors s) - i"
  shows "main_steps rs s =
     s\<lparr>at_pc := Stopping (i + length rs),
       world := (world s)\<lparr>sent := sent (world s) @
         map (\<lambda>p. (p, SIGINT)) (nonzero_pids (drop i (descriptors s)))\<rparr>\<rparr>"
  using assms
proof (induction rs arbitrary: s i)
  case Nil
  then show ?case by (cases s) (simp add: nonzero_pids_def)
next
  case (Cons r rs)
  then have i: "i < length (descriptors s)" by simp
  have "main_step r s = s\<lparr>at_pc := Stopping (i + 1),
      world := stop_process (pid (descriptors s ! i)) (world s)\<rparr>"
    using Cons.prems(1) i by (simp add: main_step_def stop_step_def)
  then show ?case
    using Cons.IH [of "main_step r s" "i + 1"] Cons.prems(2) Cons_nth_drop_Suc [OF i, symmetric]
    by (simp add: stop_process_def nonzero_pids_def)
qed

lemma main_steps_stay: "at_pc s = Exited \<Longrightarrow> main_steps rs s = s"
  by (induction rs) (simp_all add: main_step_def)

lemma main_steps_ge:
  assumes "n \<le> length rs"
  obtains xs ys where "rs = xs @ ys" "length xs = n"
  using assms that [of "take n rs" "drop n rs"] by simp

lemma stop_from_test:
  assumes "at_pc s = AtTest" and "stop_request s \<noteq> 0"
    and "length rs = length (descriptors s) + 2"
  shows "main_steps rs s =
     s\<lparr>at_pc := AtDecide,
       world := (world s)\<lparr>sent := sent (world s) @
         map (\<lambda>p. (p, SIGINT)) (nonzero_pids (descriptors s))\<rparr>\<rparr>"
proof -
  obtain r xs q where rs: "rs = r # xs @ [q]" and len: "length xs = length (descriptors s)"
    using assms(3)
    by (metis (no_types, opaque_lifting) Nil_is_append_conv add_2_eq_Suc' append_butlast_last_id
        length_Suc_conv length_append_singleton list.size(3) nat.inject nat.simps(3))
  have "main_step r s = s\<lparr>at_pc := Stopping 0\<rparr>"
    using assms by (simp add: main_step_def)
  then show ?thesis
    using stop_steps [of "main_step r s" 0 xs] len
    by (simp add: rs main_steps_append main_step_def stop_step_def)
qed

lemma check_end:
  assumes "at_pc s = Checking i" and "length rs = Suc (length (descriptors s) - i)"
  shows "at_pc (main_steps rs s) = AtTest \<and>
     stop_request (main_steps rs s) = stop_request s \<and>
     sent (world (main_steps rs s)) = sent (world s) \<and>
     length (descriptors (main_steps rs s)) = length (descriptors s)"
  using assms
proof (induction rs arbitrary: s i)
  case (Cons r rs)
  have sent: "sent (world (start_nth i r s)) = sent (world s)"
    by (cases "fork_result r") (simp_all add: start_nth_failed start_nth_forked)
  show ?case
  proof (cases "i < length (descriptors s)")
    case True
    then have "at_pc (main_step r s) = Checking (i + 1)"
      "stop_request (main_step r s) = stop_request s"
      "sent (world (main_step r s)) = sent (world s)"
      "length (descriptors (main_step r s)) = length (descriptors s)"
      using Cons.prems(1) sent by (auto simp: main_step_def check_step_def)
    then show ?thesis
      using Cons.IH [of "main_step r s" "i + 1"] Cons.prems(2) True by simp
  next
    case False
    then show ?thesis using Cons.prems by (simp add: main_step_def check_step_def)
  qed
qed simp

lemma leave_decide:
  assumes "at_pc s = AtDecide" and "stop_request s = 1"
  shows "main_steps [r, q] s = s\<lparr>at_pc := Exited\<rparr>"
  using assms by (simp add: main_step_def run_step_def ERR_OK_def ERRCODE_CONFIG_def)

lemma stop_from_checking:
  assumes "at_pc s = Checking i" and "stop_request s = 1"
    and "2 * length (descriptors s) + 5 \<le> length rs"
  shows "at_pc (main_steps rs s) = Exited \<and>
     sent (world (main_steps rs s)) = sent (world s) @
       map (\<lambda>p. (p, SIGINT)) (nonzero_pids (descriptors (main_steps rs s)))"
proof -
  let ?n = "length (descriptors s)"
  have "Suc (?n - i) \<le> length rs" using assms(3) by linarith
  then obtain xs rs1 where xs: "rs = xs @ rs1" "length xs = Suc (?n - i)"
    by (rule main_steps_ge)
  then have "?n + 2 \<le> length rs1" using assms(3) by simp
  then obtain ys rs2 where ys: "rs1 = ys @ rs2" "length ys = ?n + 2"
    by (rule main_steps_ge)
  then have "2 \<le> length rs2" using assms(3) xs by simp
  then obtain zs rs3 where zs: "rs2 = zs @ rs3" "length zs = 2"
    by (rule main_steps_ge)
  then obtain r q where rq: "zs = [r, q]"
    by (cases zs; cases "tl zs") auto
  define t where "t = main_steps xs s"
  have t: "at_pc t = AtTest" "stop_request t = 1" "sent (world t) = sent (world s)"
    "length (descriptors t) = ?n"
    using check_end [OF assms(1) xs(2)] assms(2) by (auto simp: t_def)
  then have u: "main_steps ys t = t\<lparr>at_pc := AtDecide,
       world := (world t)\<lparr>sent := sent (world t) @
         map (\<lambda>p. (p, SIGINT)) (nonzero_pids (descriptors t))\<rparr>\<rparr>" (is "_ = ?u")
    using stop_from_test [of t ys] ys(2) by simp
  have "main_steps rs s = main_steps rs3 (main_steps [r, q] ?u)"
    using xs ys zs rq u by (simp only: main_steps_append t_def [symmetric])
  also have "\<dots> = ?u\<lparr>at_pc := Exited\<rparr>"
    using leave_decide [of ?u r q] t main_steps_stay [of "?u\<lparr>at_pc := Exited\<rparr>" rs3] by simp
  finally show ?thesis using t by simp
qed

lemma check_steps:
  assumes "at_pc s = Checking i" and "length rs = length (descriptors s) - i"
    and "\<forall>r \<in> set rs. \<exists>p e. fork_result r = Forked p e \<and> 0 < p"
  shows "at_pc (main_steps rs s) = Checking (i + length rs) \<and>
     length (descriptors (main_steps rs s)) = length (descriptors s) \<and>
     set (running (world s)) \<subseteq> set (running (world (main_steps rs s))) \<and>
     (\<forall>j < length (descriptors s).
        (j < i \<or> is_running (descriptors s ! j) (world s) \<longrightarrow>
           descriptors (main_steps rs s) ! j = descriptors s ! j) \<and>
        (i \<le> j \<longrightarrow> is_running (descriptors (main_steps rs s) ! j) (world (main_steps rs s))))"
  using assms
proof (induction rs arbitrary: s i)
  case (Cons r rs)
  then have i: "i < length (descriptors s)" by simp
  obtain p e where f: "fork_result r = Forked p e" "0 < p"
    using Cons.prems(3) by auto
  let ?t = "main_step r s"
  have t: "at_pc ?t = Checking (i + 1)" "length (descriptors ?t) = length (descriptors s)"
    "set (running (world s)) \<subseteq> set (running (world ?t))"
    using Cons.prems(1) i f
    by (auto simp: main_step_def check_step_def start_nth_forked)
  have ti: "is_running (descriptors ?t ! i) (world ?t)"
    using Cons.prems(1) i f
    by (auto simp: main_step_def check_step_def start_nth_forked is_running_def
        is_process_running_def)
  have keep: "descriptors ?t ! j = descriptors s ! j"
    if "j \<noteq> i \<or> is_running (descriptors s ! j) (world s)" for j
    using Cons.prems(1) i f that
    by (auto simp: main_step_def check_step_def start_nth_forked)
  have mono: "is_running d (world ?t)" if "is_running d (world s)" for d
    using that t(3) by (auto simp: is_running_def is_process_running_def list_ex_iff)
  let ?u = "main_steps rs ?t"
  have IH: "at_pc ?u = Checking (i + 1 + length rs) \<and>
     length (descriptors ?u) = length (descriptors ?t) \<and>
     set (running (world ?t)) \<subseteq> set (running (world ?u)) \<and>
     (\<forall>j < length (descriptors ?t).
        (j < i + 1 \<or> is_running (descriptors ?t ! j) (world ?t) \<longrightarrow>
           descriptors ?u ! j = descriptors ?t ! j) \<and>
        (i + 1 \<le> j \<longrightarrow> is_running (descriptors ?u ! j) (world ?u)))"
    using Cons.IH [of ?t "i + 1"] Cons.prems t by simp
  have ui: "is_running (descriptors ?u ! i) (world ?u)"
    using IH ti i t(2) by (auto simp: is_running_def is_process_running_def list_ex_iff)
  have "(j < i \<or> is_running (descriptors s ! j) (world s) \<longrightarrow>
           descriptors ?u ! j = descriptors s ! j) \<and>
        (i \<le> j \<longrightarrow> is_running (descriptors ?u ! j) (world ?u))"
    if j: "j < length (descriptors s)" for j
  proof (cases "j = i")
    case True
    then show ?thesis using IH ui keep j t(2) by auto
  next
    case False
    have "descriptors ?t ! j = descriptors s ! j" using keep False by simp
    then show ?thesis using IH False j t(2) mono by (metis Suc_eq_plus1 less_SucI not_less_eq_eq le_antisym)
  qed
  then show ?case using IH t by auto
qed simp

subsection \<open>What the supervisor promises\<close>

text \<open>
  C27: As long as no fork fails, whatever the configuration, the signals, the ends of
  children and their order, every kill of the supervisor is a SIGINT to a process it
  started itself.
\<close>

theorem only_children_are_signalled:
  assumes "reachable P s" and "\<And>r. P r \<Longrightarrow> fork_result r \<noteq> ForkFailed"
  shows "list_all (\<lambda>(p, g). g = SIGINT \<and> p \<in> fst ` set (children (world s))) (sent (world s))"
  using pids_ok_reachable [OF assms(1), of False] assms(2)
  by (auto simp: pids_ok_def own_pid_def child_def list_all_iff)

lemma reachable_main_steps:
  assumes "reachable P s" and "list_all P rs"
    and "\<And>n. n < length rs \<Longrightarrow> reply_ok (rs ! n) (main_steps (take n rs) s)"
  shows "reachable P (main_steps rs s)"
  using assms
proof (induction rs arbitrary: s)
  case (Cons r rs)
  have "reply_ok r s" using Cons.prems(3) [of 0] by simp
  then have "reachable P (main_step r s)"
    using Cons.prems(1,2) by (auto intro: reachable.more step.main)
  then show ?case
    using Cons.IH [of "main_step r s"] Cons.prems(2) Cons.prems(3) [of "Suc _"] by simp
qed simp

text \<open>A configuration with one repeater, and the run that loads, starts and checks it.\<close>

definition example_reply :: "forked \<Rightarrow> reply" where
  "example_reply f =
     \<lparr>eval_result = 0, global_object = JObj [(''repeators'', JArr [Some (JObj [])])],
      fork_result = f, now = 5\<rparr>"

definition example_replies :: "forked \<Rightarrow> reply list" where
  "example_replies f =
     (let other = example_reply (Forked 9 True) in [other, example_reply f, other, other])"

definition example_run :: "forked \<Rightarrow> supervisor" where
  "example_run f = main_steps (example_replies f) (supervisor_new ''/pkt2'')"

definition example_stopped :: "forked \<Rightarrow> supervisor" where
  "example_stopped f =
     main_steps (replicate 3 (example_reply (Forked 9 True))) ((example_run f)\<lparr>stop_request := 1\<rparr>)"

lemma example_stopped_sent:
  "sent (world (example_stopped ForkFailed)) = [(-1, SIGINT)]"
  "sent (world (example_stopped (Forked 7 True))) = [(7, SIGINT)]"
  "map fst (children (world (example_stopped (Forked 7 True)))) = [7]"
  by code_simp+

lemma example_replies_ok:
  "list_all (\<lambda>n. reply_ok (example_replies f ! n)
     (main_steps (take n (example_replies f)) (supervisor_new ''/pkt2''))) [0, 1, 2, 3]
   \<and> list_all (\<lambda>n. reply_ok (replicate 3 (example_reply (Forked 9 True)) ! n)
     (main_steps (take n (replicate 3 (example_reply (Forked 9 True))))
       ((example_run f)\<lparr>stop_request := 1\<rparr>))) [0, 1, 2]"
  if "f = ForkFailed \<or> f = Forked 7 True"
  using that
proof
  assume "f = ForkFailed"
  then show ?thesis by (simp only:) code_simp
next
  assume "f = Forked 7 True"
  then show ?thesis by (simp only:) code_simp
qed

lemma reachable_example:
  assumes "f = ForkFailed \<or> f = Forked 7 True"
    and "P (example_reply f)" and "P (example_reply (Forked 9 True))"
  shows "reachable P (example_stopped f)"
proof -
  have n4: "n < 4 \<Longrightarrow> n \<in> set [0, 1, 2, 3]" for n :: nat by auto
  have n3: "n < 3 \<Longrightarrow> n \<in> set [0, 1, 2]" for n :: nat by auto
  have "reachable P (example_run f)"
    unfolding example_run_def
  proof (rule reachable_main_steps)
    show "reachable P (supervisor_new ''/pkt2'')" by (rule reachable.start)
    show "list_all P (example_replies f)"
      using assms(2,3) by (simp add: example_replies_def Let_def)
    show "reply_ok (example_replies f ! n)
        (main_steps (take n (example_replies f)) (supervisor_new ''/pkt2''))"
      if "n < length (example_replies f)" for n
      using example_replies_ok [OF assms(1)] n4 [of n] that
      by (auto simp: list_all_iff example_replies_def Let_def)
  qed
  moreover have "signalHandler SigTerm (Some (example_run f)) =
      Some ((example_run f)\<lparr>stop_request := 1\<rparr>)"
    by (simp add: signalHandler_def request_def)
  ultimately have stop: "reachable P ((example_run f)\<lparr>stop_request := 1\<rparr>)"
    by (blast intro: reachable.more step.handler)
  show ?thesis
    unfolding example_stopped_def
  proof (rule reachable_main_steps)
    show "reachable P ((example_run f)\<lparr>stop_request := 1\<rparr>)" by (rule stop)
    show "list_all P (replicate 3 (example_reply (Forked 9 True)))"
      using assms(3) by (simp add: list_all_iff)
    show "reply_ok (replicate 3 (example_reply (Forked 9 True)) ! n)
        (main_steps (take n (replicate 3 (example_reply (Forked 9 True))))
          ((example_run f)\<lparr>stop_request := 1\<rparr>))"
      if "n < length (replicate 3 (example_reply (Forked 9 True)))" for n
      using example_replies_ok [OF assms(1)] n3 [of n] that unfolding list_all_iff by auto
  qed
qed

theorem only_children_are_signalled_witness:
  "list_all (\<lambda>(p, g). g = SIGINT \<and>
       p \<in> fst ` set (children (world (example_stopped (Forked 7 True)))))
     (sent (world (example_stopped (Forked 7 True))))
   \<and> sent (world (example_stopped (Forked 7 True))) = [(7, SIGINT)]"
proof
  show "list_all (\<lambda>(p, g). g = SIGINT \<and>
       p \<in> fst ` set (children (world (example_stopped (Forked 7 True)))))
     (sent (world (example_stopped (Forked 7 True))))"
    by (rule only_children_are_signalled [where P = "\<lambda>r. fork_result r \<noteq> ForkFailed"])
       (auto intro!: reachable_example simp: example_reply_def)
qed (rule example_stopped_sent)

text \<open>
  After a fork that fails the descriptor keeps the process identifier -1, and a stop
  before the next check sends SIGINT to the process -1, which is every process the
  supervisor may signal.
\<close>

theorem failed_fork_signals_everything:
  "\<exists>s. reachable (\<lambda>_. True) s \<and> (-1, SIGINT) \<in> set (sent (world s))"
  using reachable_example [of ForkFailed "\<lambda>_. True"] example_stopped_sent(1)
  by (intro exI [of _ "example_stopped ForkFailed"]) simp

text \<open>
  C29: One pass of check(), with no event in between and forks that succeed, returns to the
  loop with every process running, and leaves the descriptors of the processes that ran
  alone.
\<close>

theorem check_restarts_dead:
  assumes "at_pc s = Checking 0" and "length rs = length (descriptors s)"
    and "\<forall>r \<in> set rs. \<exists>p e. fork_result r = Forked p e \<and> 0 < p"
  shows "at_pc (main_steps (rs @ [r]) s) = AtTest \<and>
     (\<forall>j < length (descriptors s).
        is_running (descriptors (main_steps (rs @ [r]) s) ! j) (world (main_steps (rs @ [r]) s)) \<and>
        (is_running (descriptors s ! j) (world s) \<longrightarrow>
           descriptors (main_steps (rs @ [r]) s) ! j = descriptors s ! j))"
proof -
  have "main_steps (rs @ [r]) s = (main_steps rs s)\<lparr>at_pc := AtTest\<rparr>"
    using check_steps [of s 0 rs] assms by (simp add: main_steps_append main_step_def check_step_def)
  then show ?thesis
    using check_steps [of s 0 rs] assms by simp
qed

text \<open>A supervisor of two processes of which the second has died.\<close>

definition example_dead :: supervisor where
  "example_dead =
     (supervisor_new ''/pkt2'')
       \<lparr>at_pc := Checking 0,
        descriptors := map (\<lambda>p. (process_descriptor_new ''/pkt2'' ''repeator'' [])\<lparr>pid := p\<rparr>) [7, 8],
        world := \<lparr>running = [7], children = [(8, []), (7, [])], sent = [], doomed = False\<rparr>\<rparr>"

theorem check_restarts_dead_witness:
  "map pid (descriptors (main_steps (replicate 2 (example_reply (Forked 9 True)) @
      [example_reply (Forked 9 True)]) example_dead)) = [7, 9]
   \<and> at_pc (main_steps (replicate 2 (example_reply (Forked 9 True)) @
      [example_reply (Forked 9 True)]) example_dead) = AtTest"
proof
  have "\<forall>r \<in> set (replicate 2 (example_reply (Forked 9 True))).
      \<exists>p e. fork_result r = Forked p e \<and> 0 < p"
    by (auto simp: example_reply_def intro: exI [of _ True])
  moreover have "at_pc example_dead = Checking 0" "length (descriptors example_dead) = 2"
    by (simp_all add: example_dead_def)
  ultimately show "at_pc (main_steps (replicate 2 (example_reply (Forked 9 True)) @
      [example_reply (Forked 9 True)]) example_dead) = AtTest"
    by (intro check_restarts_dead [THEN conjunct1]) simp_all
qed code_simp

text \<open>
  A stop request that arrives after the configuration was read and before the loop is
  overwritten by \<open>stop_request = 0\<close>: whatever the outside answers to the following steps,
  the supervisor keeps starting or checking its processes and signals none of them.
\<close>

theorem early_stop_request_is_lost:
  assumes "before_loop (at_pc s)" and "signalHandler g (Some s) = Some s'"
  shows "supervising (main_steps rs s')"
proof (rule supervising_main_steps)
  show "supervising s'"
    using assms handler_cases [OF assms(2)]
    by (auto simp: before_loop_def supervising_def split: pc.splits)
qed

theorem early_stop_request_is_lost_witness:
  "supervising (main_steps (example_replies (Forked 7 True))
     ((supervisor_new ''/pkt2'')\<lparr>at_pc := AtReset, stop_request := 1\<rparr>))"
  by (rule early_stop_request_is_lost
        [of "(supervisor_new ''/pkt2'')\<lparr>at_pc := AtReset\<rparr>" SigTerm])
     (simp_all add: before_loop_def signalHandler_def request_def)

text \<open>
  C28: A stop request that arrives during the loop is honoured within a bounded number of
  steps: the supervisor leaves, after a SIGINT to every process it has, in their order.
\<close>

theorem stop_request_is_honoured:
  assumes "at_pc s = Checking i" and "g = SigTerm \<or> g = SigInt"
    and "signalHandler g (Some s) = Some s'"
    and "2 * length (descriptors s) + 5 \<le> length rs"
  shows "at_pc (main_steps rs s') = Exited \<and>
     sent (world (main_steps rs s')) = sent (world s) @
       map (\<lambda>p. (p, SIGINT)) (nonzero_pids (descriptors (main_steps rs s')))"
proof -
  have "s' = s\<lparr>stop_request := 1\<rparr>"
    using assms(2,3) by (auto simp: signalHandler_def request_def)
  then show ?thesis
    using stop_from_checking [of s' i rs] assms by simp
qed

theorem stop_request_is_honoured_witness:
  "at_pc (main_steps (replicate 9 (example_reply (Forked 9 True)))
     (example_dead\<lparr>stop_request := 1\<rparr>)) = Exited"
  using stop_request_is_honoured [of example_dead 0 SigTerm "example_dead\<lparr>stop_request := 1\<rparr>"
      "replicate 9 (example_reply (Forked 9 True))"]
  by (simp add: example_dead_def signalHandler_def request_def)

text \<open>
  A reload with a configuration that the engine rejects ends the supervisor: every
  process has been signalled before, none is started again, and pkt2() returns to a run()
  that leaves its loop.
\<close>

theorem broken_reload_exits:
  assumes "at_pc s = AtTest" and "stop_request s = 2" and "length rs = length (descriptors s) + 3"
    and "load_config (global_object r) (common s) = Inr c" and "eval_result r \<noteq> ERR_OK"
  shows "main_steps (rs @ [r, q]) s =
     s\<lparr>at_pc := Exited, common := cfgCommon c,
       world := (world s)\<lparr>sent := sent (world s) @
         map (\<lambda>p. (p, SIGINT)) (nonzero_pids (descriptors s))\<rparr>\<rparr>"
proof -
  obtain xs x where rs: "rs = xs @ [x]" "length xs = length (descriptors s) + 2"
    using assms(3) main_steps_ge [of "length (descriptors s) + 2" rs]
    by (metis Suc_eq_plus1 add_Suc_right length_append_singleton length_Suc_conv_rev
        nat.inject numeral_2_eq_2 numeral_3_eq_3)
  show ?thesis
    using stop_from_test [of s xs] assms rs(2)
    by (simp add: rs(1) main_steps_append main_step_def load_step_def run_step_def ERR_OK_def
        ERRCODE_CONFIG_def)
qed

theorem broken_reload_exits_witness:
  "at_pc (main_steps (replicate 5 (example_reply (Forked 9 True)) @
      [(example_reply (Forked 9 True))\<lparr>eval_result := 1\<rparr>, example_reply (Forked 9 True)])
     (example_dead\<lparr>at_pc := AtTest, stop_request := 2\<rparr>)) = Exited"
proof -
  let ?r = "(example_reply (Forked 9 True))\<lparr>eval_result := 1\<rparr>"
  have "isOk (load_config (global_object ?r) cfg_common_new)"
    by code_simp
  then obtain c where "load_config (global_object ?r) cfg_common_new = Inr c"
    by (auto simp: isOk_iff)
  then show ?thesis
    by (subst broken_reload_exits [of _ "replicate 5 (example_reply (Forked 9 True))" ?r c])
       (simp_all add: example_dead_def supervisor_new_def ERR_OK_def)
qed

text \<open>
  One program that cannot be executed is enough to kill the supervisor and every
  process it started: the child that fails to execute sends SIGKILL to the identifier 0,
  its process group.
\<close>

theorem missing_program_kills_all:
  assumes "at_pc s = Starting i" and "i < length (descriptors s)"
    and "fork_result r = Forked p False"
  shows "\<exists>t. step P (main_step r s) t \<and> at_pc t = Killed \<and> running (world t) = []"
proof -
  have "doomed (world (main_step r s))"
    using assms by (simp add: main_step_def start_step_def start_nth_forked [OF assms(3)])
  then show ?thesis
    using step.group_kill by (intro exI conjI) auto
qed

theorem missing_program_kills_all_witness:
  "\<exists>t. step (\<lambda>_. True) (main_step (example_reply (Forked 7 False))
       (example_dead\<lparr>at_pc := Starting 0\<rparr>)) t \<and> at_pc t = Killed \<and> running (world t) = []"
  by (rule missing_program_kills_all [of _ 0 _ 7]) (simp_all add: example_dead_def example_reply_def)

end
