(* ===== verification/PacketVar.thy ===== *)
theory PacketVar
  imports PacketField Ascii JsValue
begin

section \<open>Packet metadata, tags and the options cache\<close>

text \<open>
  pkt2packetvariable.cpp, pkt2optionscache.cpp and the lookups of
  protobuf-declarations.cpp. Descriptors of Protobuf messages are records of what the code
  reads of them; \<open>hash\<close> is std::hash of a string. A constructor that follows a null
  descriptor faults.
\<close>

unbundle bit_operations_syntax

subsection \<open>Descriptors\<close>

datatype cpp_type = CPPTYPE_INT32 | CPPTYPE_INT64 | CPPTYPE_UINT32 | CPPTYPE_UINT64
  | CPPTYPE_DOUBLE | CPPTYPE_FLOAT | CPPTYPE_BOOL | CPPTYPE_ENUM | CPPTYPE_STRING | CPPTYPE_MESSAGE

record variable =
  v_field :: string
  v_short_name :: string
  v_full_name :: string
  v_get :: string
  v_set :: string
  v_format :: "string list"
  v_index :: u32
  v_sql_string :: bool

record field_desc =
  fd_name :: string
  fd_full_name :: string
  fd_number :: int
  fd_type :: cpp_type
  fd_bytes :: bool                    \<comment> \<open>type() is TYPE_BYTES\<close>
  fd_repeated :: bool
  fd_message :: string                \<comment> \<open>full name of the message type\<close>
  fd_variable :: variable

record descriptor =
  md_full_name :: string
  md_packet :: "packet_options option"
  md_fields :: "field_desc list"

type_synonym declarations = "(string, descriptor) smap"

definition getMessageDescriptor :: "declarations \<Rightarrow> string \<Rightarrow> descriptor option" where
  "getMessageDescriptor pd name = map_of pd name"

definition getMessageCount :: "declarations \<Rightarrow> nat" where
  "getMessageCount pd = length pd"

text \<open>The loop of parseProtoFile that files the top-level messages of a package.\<close>

fun file_messages :: "string \<Rightarrow> (string \<times> descriptor) list \<Rightarrow> declarations \<Rightarrow> declarations" where
  "file_messages package [] pd = pd"
| "file_messages package ((name, md) # ms) pd =
     file_messages package ms (smap_put (package @ ''.'' @ name) md pd)"

subsection \<open>Pkt2PacketVariable\<close>

record packet_variable =
  pv_fieldNumbers :: "(int, int) smap"
  pv_status :: int
  pv_message_type :: string
  pv_packet :: packet_options
  pv_packet_size :: u64
  pv_variables :: "(string \<times> variable) list"
  pv_keyIndexes :: "u64 list"

definition no_packet :: packet_options where
  "no_packet = \<lparr>pk_name = [], pk_id = 0, pk_fields = []\<rparr>"

definition packet_variable_default :: packet_variable where
  "packet_variable_default =
     \<lparr>pv_fieldNumbers = [], pv_status = 0, pv_message_type = [], pv_packet = no_packet,
      pv_packet_size = 0, pv_variables = [], pv_keyIndexes = []\<rparr>"

text \<open>The subscript operator of std::map inserts a value-initialised entry.\<close>

definition smap_subscript :: "'k::linorder \<Rightarrow> 'v \<Rightarrow> ('k, 'v) smap \<Rightarrow> 'v \<times> ('k, 'v) smap" where
  "smap_subscript k d m = (case map_of m k of Some v \<Rightarrow> (v, m) | None \<Rightarrow> (d, smap_put k d m))"

definition smap_insert :: "'k::linorder \<Rightarrow> 'v \<Rightarrow> ('k, 'v) smap \<Rightarrow> ('k, 'v) smap" where
  "smap_insert k v m = (case map_of m k of Some w \<Rightarrow> m | None \<Rightarrow> smap_put k v m)"

definition options_packet :: "(string \<Rightarrow> u64) \<Rightarrow> descriptor \<Rightarrow> packet_options" where
  "options_packet hash md =
     (case md_packet md of
        None \<Rightarrow> no_packet
      | Some p \<Rightarrow> (if pk_id p = 0 then p\<lparr>pk_id := hash (pk_name p)\<rparr> else p))"

text \<open>The loop over the fields, from vector index \<open>f\<close>.\<close>

fun field_loop :: "field_desc list \<Rightarrow> int \<Rightarrow> (string \<times> variable) list \<Rightarrow> (int, int) smap \<Rightarrow> (int, int) smap
    \<Rightarrow> (string \<times> variable) list \<times> (int, int) smap \<times> (int, int) smap" where
  "field_loop [] f vs nums idx = (vs, nums, idx)"
| "field_loop (fd # fds) f vs nums idx =
     (let index = sint (v_index (fd_variable fd))
      in field_loop fds (f + 1) (vs @ [(fd_name fd, fd_variable fd)])
           (smap_insert (fd_number fd) f nums)
           (if index \<noteq> 0 then smap_put index f idx else idx))"

text \<open>
  \<open>for (int i = 1; i <= indexVariable.size(); i++)\<close>, where reading a missing index inserts
  it and so makes the map grow.
\<close>

fun key_loop :: "nat \<Rightarrow> int \<Rightarrow> (int, int) smap \<Rightarrow> u64 list \<Rightarrow> u64 list option" where
  "key_loop 0 i idx ks = None"
| "key_loop (Suc n) i idx ks =
     (if i \<le> int (length idx)
      then (case smap_subscript i 0 idx of (v, idx') \<Rightarrow> key_loop n (i + 1) idx' (ks @ [of_int v]))
      else Some ks)"

definition ERRCODE_MESSAGE_TYPE_NOT_FOUND :: int where
  "ERRCODE_MESSAGE_TYPE_NOT_FOUND = - 32"

text \<open>
  The constructor. When the type is unknown it only sets the status before it follows the
  null pointer. \<open>None\<close> is a loop that has not ended with this fuel.
\<close>

definition packet_variable_new :: "nat \<Rightarrow> (string \<Rightarrow> u64) \<Rightarrow> declarations \<Rightarrow> string
    \<Rightarrow> packet_variable option result" where
  "packet_variable_new fuel hash pd message_type =
     (case getMessageDescriptor pd message_type of
        None \<Rightarrow> Inl NullPointer
      | Some md \<Rightarrow>
          (let packet = options_packet hash md
           in case field_loop (md_fields md) 0 [] [] [] of
                (vs, nums, idx) \<Rightarrow>
                  Inr (map_option
                    (\<lambda>ks. \<lparr>pv_fieldNumbers = nums, pv_status = 0, pv_message_type = message_type,
                           pv_packet = packet, pv_packet_size = getPacketSize packet,
                           pv_variables = vs, pv_keyIndexes = ks\<rparr>)
                    (key_loop fuel 1 idx [pk_id packet]))))"

definition getVariableByFieldNumber :: "packet_variable \<Rightarrow> int \<Rightarrow> (string \<times> variable) option" where
  "getVariableByFieldNumber pv field_number =
     (case map_of (pv_fieldNumbers pv) field_number of
        None \<Rightarrow> None
      | Some i \<Rightarrow> Some (pv_variables pv ! nat i))"

subsection \<open>Tags\<close>

definition tag_value :: "field \<Rightarrow> u64" where
  "tag_value f = (if f_tag f = 0xFFFFFFFFFFFFFFFF then 0 else f_tag f)"

fun tags_hold :: "bytes \<Rightarrow> field list \<Rightarrow> bool result" where
  "tags_hold data [] = Inr True"
| "tags_hold data (f # fs) =
     (if f_tag f = 0 then tags_hold data fs
      else bindR (extractFieldUInt data f) (\<lambda>v.
             if v \<noteq> tag_value f then Inr False else tags_hold data fs))"

definition pv_validTags :: "packet_variable \<Rightarrow> bytes \<Rightarrow> bool result" where
  "pv_validTags pv data =
     (if length data = 0 \<or> of_nat (length data) \<noteq> pv_packet_size pv then Inr False
      else tags_hold data (pk_fields (pv_packet pv)))"

fun write_tags :: "bytes \<Rightarrow> field list \<Rightarrow> bytes result" where
  "write_tags data [] = Inr data"
| "write_tags data (f # fs) =
     (if f_tag f = 0 then write_tags data fs
      else bindR (setFieldUInt data f (tag_value f)) (\<lambda>data'. write_tags data' fs))"

definition setTags :: "packet_variable \<Rightarrow> bytes \<Rightarrow> (bool \<times> bytes) result" where
  "setTags pv data =
     (if of_nat (length data) < pv_packet_size pv then Inr (False, data)
      else bindR (write_tags data (pk_fields (pv_packet pv))) (\<lambda>data'. Inr (True, data')))"

definition getEmptyPacket :: "packet_variable \<Rightarrow> bytes result" where
  "getEmptyPacket pv =
     bindR (setTags pv (replicate (unat (pv_packet_size pv)) 0)) (\<lambda>(ok, r). Inr r)"

subsection \<open>Pkt2OptionsCache\<close>

record cache =
  oc_variables :: "(string, packet_variable) smap"
  oc_declarations :: declarations

fun add_all :: "nat \<Rightarrow> (string \<Rightarrow> u64) \<Rightarrow> declarations \<Rightarrow> string list
    \<Rightarrow> (string, packet_variable) smap \<Rightarrow> (string, packet_variable) smap option result" where
  "add_all fuel hash pd [] m = Inr (Some m)"
| "add_all fuel hash pd (name # names) m =
     bindR (packet_variable_new fuel hash pd name) (\<lambda>r.
       case r of
         None \<Rightarrow> Inr None
       | Some pv \<Rightarrow> add_all fuel hash pd names (smap_put name pv m))"

definition addDeclarations :: "nat \<Rightarrow> (string \<Rightarrow> u64) \<Rightarrow> declarations \<Rightarrow> cache \<Rightarrow> cache option result" where
  "addDeclarations fuel hash pd c =
     bindR (add_all fuel hash pd (map fst pd) (oc_variables c)) (\<lambda>r.
       Inr (map_option (\<lambda>m. c\<lparr>oc_variables := m\<rparr>) r))"

definition cache_new :: "nat \<Rightarrow> (string \<Rightarrow> u64) \<Rightarrow> declarations \<Rightarrow> cache option result" where
  "cache_new fuel hash pd = addDeclarations fuel hash pd \<lparr>oc_variables = [], oc_declarations = pd\<rparr>"

text \<open>getPacketVariable reads through the end iterator when the type is unknown.\<close>

definition getPacketVariable :: "cache \<Rightarrow> string \<Rightarrow> (bool \<times> packet_variable) result" where
  "getPacketVariable c message_type =
     (case map_of (oc_variables c) message_type of
        Some pv \<Rightarrow> Inr (True, pv)
      | None \<Rightarrow> Inl OutOfBounds)"

text \<open>The loop over the fields of a message, left at the first \<open>return false\<close>.\<close>

fun all_fields :: "('f \<Rightarrow> bool option result) \<Rightarrow> 'f list \<Rightarrow> bool option result" where
  "all_fields check [] = Inr (Some True)"
| "all_fields check (f # fs) =
     bindR (check f) (\<lambda>r. if r = Some True then all_fields check fs else Inr r)"

definition zone_name :: "variable \<Rightarrow> string" where
  "zone_name v =
     (case str_find ''field.'' (v_get v) of
        None \<Rightarrow> v_get v
      | Some pos \<Rightarrow> drop (pos + 6) (v_get v))"

text \<open>
  One round of the loop of validTags: \<open>again\<close> is the recursive call, which gets the full
  name of the field where the name of its message type is meant.
\<close>

definition nested_valid :: "(string \<Rightarrow> packet_variable \<Rightarrow> bytes \<Rightarrow> bool option result)
    \<Rightarrow> cache \<Rightarrow> packet_variable \<Rightarrow> bytes \<Rightarrow> field_desc \<Rightarrow> bool option result" where
  "nested_valid again c var packet fd =
     (if fd_type fd \<noteq> CPPTYPE_MESSAGE then Inr (Some True)
      else
        (case getVariableByFieldNumber var (fd_number fd) of
           None \<Rightarrow> Inr (Some True)
         | Some fnv \<Rightarrow>
             (case find (\<lambda>f. f_name f = zone_name (snd fnv)) (pk_fields (pv_packet var)) of
                None \<Rightarrow> Inr (Some True)
              | Some z \<Rightarrow>
                  bindR (substr packet (unat (f_offset z)) (unat (f_size z))) (\<lambda>subpacket.
                    case map_of (oc_variables c) (fd_message fd) of
                      None \<Rightarrow> Inr (Some True)
                    | Some pv \<Rightarrow> again (fd_full_name fd) pv subpacket))))"

primrec validTags :: "nat \<Rightarrow> cache \<Rightarrow> string \<Rightarrow> packet_variable \<Rightarrow> bytes \<Rightarrow> bool option result" where
  "validTags 0 c = (\<lambda>message_type var packet. Inr None)"
| "validTags (Suc n) c = (\<lambda>message_type var packet.
     bindR (pv_validTags var packet) (\<lambda>ok.
       if \<not> ok then Inr (Some False)
       else
         (case getMessageDescriptor (oc_declarations c) message_type of
            None \<Rightarrow> Inr (Some True)
          | Some m \<Rightarrow> all_fields (nested_valid (validTags n c) c var packet) (md_fields m))))"

fun find_first :: "nat \<Rightarrow> cache \<Rightarrow> bytes \<Rightarrow> (string \<times> packet_variable) list \<Rightarrow> string option option result" where
  "find_first fuel c packet [] = Inr (Some None)"
| "find_first fuel c packet ((name, pv) # m) =
     bindR (validTags fuel c name pv packet) (\<lambda>r.
       case r of
         None \<Rightarrow> Inr None
       | Some ok \<Rightarrow> (if ok then Inr (Some (Some name)) else find_first fuel c packet m))"

text \<open>
  find1: found or not, the entry, and the cache. When nothing fits it looks up the empty
  name through the subscript operator, which leaves an empty entry behind.
\<close>

definition find1 :: "nat \<Rightarrow> cache \<Rightarrow> bytes \<Rightarrow> (bool \<times> packet_variable \<times> cache) option result" where
  "find1 fuel c packet =
     bindR (find_first fuel c packet (oc_variables c)) (\<lambda>r.
       Inr (map_option (\<lambda>name.
         case smap_subscript (case name of None \<Rightarrow> [] | Some t \<Rightarrow> t) packet_variable_default (oc_variables c) of
           (pv, m) \<Rightarrow> (name \<noteq> None, pv, c\<lparr>oc_variables := m\<rparr>)) r))"

datatype output_type = OUTPUT_NONE | OUTPUT_DOUBLE | OUTPUT_FLOAT | OUTPUT_INT64 | OUTPUT_UINT64
  | OUTPUT_INT32 | OUTPUT_FIXED64 | OUTPUT_FIXED32 | OUTPUT_BOOL | OUTPUT_STRING | OUTPUT_GROUP
  | OUTPUT_MESSAGE | OUTPUT_BYTES | OUTPUT_UINT32 | OUTPUT_ENUM | OUTPUT_SFIXED32
  | OUTPUT_SFIXED64 | OUTPUT_SINT32 | OUTPUT_SINT64

definition size_of :: "output_type \<Rightarrow> int" where
  "size_of t =
     (if t \<in> {OUTPUT_DOUBLE, OUTPUT_INT64, OUTPUT_UINT64, OUTPUT_FIXED64, OUTPUT_SFIXED64, OUTPUT_SINT64}
      then 8
      else if t \<in> {OUTPUT_FLOAT, OUTPUT_INT32, OUTPUT_FIXED32, OUTPUT_SFIXED32, OUTPUT_UINT32, OUTPUT_SINT32}
      then 4
      else if t \<in> {OUTPUT_BOOL, OUTPUT_ENUM} then 1
      else 0)"

fun index_loop :: "packet_variable \<Rightarrow> string \<Rightarrow> int \<Rightarrow> u64 list \<Rightarrow> int result" where
  "index_loop pv field_type i [] = Inr 0"
| "index_loop pv field_type i (k # ks) =
     bindR (elem_at (pv_variables pv) (unat k)) (\<lambda>v.
       if field_type = fst v then Inr i else index_loop pv field_type (i + 1) ks)"

definition getIndex :: "cache \<Rightarrow> string \<Rightarrow> string \<Rightarrow> int result" where
  "getIndex c message_type field_type =
     (case map_of (oc_variables c) message_type of
        None \<Rightarrow> Inr 0
      | Some pv \<Rightarrow> index_loop pv field_type 1 (tl (pv_keyIndexes pv)))"

definition getMessageId :: "cache \<Rightarrow> string \<Rightarrow> u64 \<times> cache" where
  "getMessageId c message_type =
     (case smap_subscript message_type packet_variable_default (oc_variables c) of
        (pv, m) \<Rightarrow> ((case pv_keyIndexes pv of [] \<Rightarrow> 0 | k # ks \<Rightarrow> k), c\<lparr>oc_variables := m\<rparr>))"

subsection \<open>Keys\<close>

text \<open>A value of a message field, as reflection returns it.\<close>

datatype field_value =
    V_double u64 | V_float u32 | V_int64 u64 | V_uint64 u64 | V_int32 u32 | V_uint32 u32
  | V_bool bool | V_string bytes | V_enum u32 | V_message

definition le_bytes32 :: "u32 \<Rightarrow> bytes" where
  "le_bytes32 v = take 4 (le_bytes (ucast v))"

text \<open>What PUSH_KEY and the cases of getKey copy, and by how much they advance.\<close>

definition key_bytes :: "field_desc \<Rightarrow> field_value \<Rightarrow> bytes \<times> nat" where
  "key_bytes fd v =
     (case v of
        V_double w \<Rightarrow> (le_bytes w, 8)
      | V_float w \<Rightarrow> (le_bytes32 w, 4)
      | V_int64 w \<Rightarrow> (le_bytes w, 8)
      | V_uint64 w \<Rightarrow> (le_bytes w, 8)
      | V_int32 w \<Rightarrow> (le_bytes32 w, 4)
      | V_uint32 w \<Rightarrow> (le_bytes32 w, 4)
      | V_bool b \<Rightarrow> ([of_bool b], 1)
      | V_string s \<Rightarrow>
          (let t = (if fd_bytes fd then bytes_of_text (b64_encode s) else s) in (t, length t))
      | V_enum w \<Rightarrow> (le_bytes32 w, 0)
      | V_message \<Rightarrow> ([], 0))"

fun key_fields :: "(string \<times> variable) list \<Rightarrow> field_desc list \<Rightarrow> (nat \<Rightarrow> field_value) \<Rightarrow> bytes \<Rightarrow> nat \<Rightarrow> u64 list \<Rightarrow> (nat \<times> bytes) result" where
  "key_fields vs fds message buffer r [] = Inr (r, buffer)"
| "key_fields vs fds message buffer r (k # ks) =
     bindR (elem_at vs (unat k)) (\<lambda>v.
     bindR (elem_at fds (unat k)) (\<lambda>fd.
       case key_bytes fd (message (unat k)) of
         (bs, n) \<Rightarrow>
           bindR (poke buffer r bs) (\<lambda>buffer'. key_fields vs fds message buffer' (r + n) ks)))"

text \<open>
  getKey writes into a buffer of \<open>max_size\<close> bytes, which it never looks at. \<open>fds\<close> are the
  fields of the message's descriptor, \<open>message\<close> gives the value of a field.
\<close>

definition getKey :: "cache \<Rightarrow> string \<Rightarrow> bytes \<Rightarrow> field_desc list \<Rightarrow> (nat \<Rightarrow> field_value)
    \<Rightarrow> (nat \<times> bytes \<times> cache) result" where
  "getKey c message_type buffer fds message =
     (case smap_subscript message_type packet_variable_default (oc_variables c) of
        (pv, m) \<Rightarrow>
          (case pv_keyIndexes pv of
             [] \<Rightarrow> Inr (0, buffer, c\<lparr>oc_variables := m\<rparr>)
           | k # ks \<Rightarrow>
               bindR (poke buffer 0 (le_bytes k)) (\<lambda>buffer'.
               bindR (key_fields (pv_variables pv) fds message buffer' 8 ks) (\<lambda>(r, buffer'').
                 Inr (r, buffer'', c\<lparr>oc_variables := m\<rparr>)))))"

subsection \<open>Tags as writes to fields\<close>

definition tag_writes :: "field list \<Rightarrow> (field \<times> u64) list" where
  "tag_writes fs = map (\<lambda>f. (f, tag_value f)) (filter (\<lambda>f. f_tag f \<noteq> 0) fs)"

lemma write_tags_set_all: "write_tags data fs = set_all setFieldUInt data (tag_writes fs)"
  by (induction data fs rule: write_tags.induct) (auto simp: tag_writes_def)

lemma tags_hold_iff:
  "list_all (\<lambda>(f, v). extractFieldUInt data f = Inr v) (tag_writes fs) \<Longrightarrow> tags_hold data fs = Inr True"
  by (induction data fs rule: tags_hold.induct) (auto simp: tag_writes_def)

text \<open>Tag fields that lie inside the packet, apart from each other, with tags that fit.\<close>

definition tags_ok :: "packet_variable \<Rightarrow> bool" where
  "tags_ok pv =
     (list_all (\<lambda>(f, v). in_packet (unat (pv_packet_size pv)) f \<and> take_bit (8 * unat (f_size f)) v = v)
        (tag_writes (pk_fields (pv_packet pv)))
      \<and> sorted_wrt (\<lambda>(f, v) (g, w). apart g f) (tag_writes (pk_fields (pv_packet pv)))
      \<and> 0 < pv_packet_size pv)"

lemma set_valid_tags:
  assumes ok: "tags_ok pv" and len: "length data = unat (pv_packet_size pv)"
  shows "\<exists>data'. setTags pv data = Inr (True, data') \<and> pv_validTags pv data' = Inr True
    \<and> length data' = length data"
proof -
  let ?w = "tag_writes (pk_fields (pv_packet pv))"
  from uint_store.get_set_all [of data ?w] ok len obtain p where
    p: "set_all setFieldUInt data ?w = Inr p" "length p = length data"
      "list_all (\<lambda>(f, v). extractFieldUInt p f = Inr (norm_uint f v)) ?w"
    by (auto simp: tags_ok_def list_all_iff)
  with ok have "list_all (\<lambda>(f, v). extractFieldUInt p f = Inr v) ?w"
    by (fastforce simp: tags_ok_def list_all_iff norm_uint_def)
  then have "tags_hold p (pk_fields (pv_packet pv)) = Inr True" by (rule tags_hold_iff)
  moreover have "0 < length p" using p(2) len ok by (simp add: tags_ok_def unat_gt_0 word_gt_0)
  then have "p \<noteq> []" by blast
  ultimately show ?thesis
    using p len by (simp add: setTags_def write_tags_set_all pv_validTags_def)
qed

subsection \<open>The key indexes\<close>

lemma smap_length: "smap_ok m \<Longrightarrow> length m = card (dom (map_of m))"
  using smap.keys_distinct [of m] smap.keys_dom [of m] distinct_card [of "map fst m"] by simp

lemma subscript_dom: "dom (map_of (snd (smap_subscript k d m))) = insert k (dom (map_of m))"
  by (auto simp: smap_subscript_def smap.get_put split: option.splits)

lemma subscript_ok: "smap_ok m \<Longrightarrow> smap_ok (snd (smap_subscript k d m))"
  by (auto simp: smap_subscript_def smap.ok_put split: option.splits)

definition index_of :: "(int, int) smap \<Rightarrow> int \<Rightarrow> int" where
  "index_of idx i = (case map_of idx i of None \<Rightarrow> 0 | Some v \<Rightarrow> v)"

lemma subscript_fst: "fst (smap_subscript k 0 m) = index_of m k"
  by (simp add: smap_subscript_def index_of_def split: option.splits)

lemma subscript_index: "index_of (snd (smap_subscript k 0 m)) i = index_of m i"
  by (auto simp: smap_subscript_def index_of_def smap.get_put split: option.splits)

lemma key_loop_result:
  assumes "smap_ok idx" and "dom (map_of idx) \<subseteq> {1..int M}" and "{1..<i} \<subseteq> dom (map_of idx)"
    and "M = 0 \<or> int M \<in> dom (map_of idx)" and "1 \<le> i" and "i \<le> int M + 1" and "nat (int M + 1 - i) < n"
  shows "key_loop n i idx ks = Some (ks @ map (\<lambda>k. of_int (index_of idx k)) [i..int M])"
  using assms
proof (induction n arbitrary: i idx ks)
  case (Suc n)
  note len = smap_length [OF Suc.prems(1)]
  have fin: "finite (dom (map_of idx))" by (simp add: finite_dom_map_of)
  show ?case
  proof (cases "i \<le> int M")
    case True
    have "card (insert (int M) {1..<i}) \<le> card (dom (map_of idx))"
      by (rule card_mono [OF fin]) (use Suc.prems True in auto)
    moreover have "card (insert (int M) {1..<i}) = nat i" using True Suc.prems(5) by simp
    ultimately have le: "i \<le> int (length idx)" using len by linarith
    let ?idx = "snd (smap_subscript i 0 idx)"
    have "key_loop n (i + 1) ?idx (ks @ [of_int (index_of idx i)])
        = Some ((ks @ [of_int (index_of idx i)]) @ map (\<lambda>k. of_int (index_of ?idx k)) [i + 1..int M])"
    proof (rule Suc.IH)
      show "dom (map_of ?idx) \<subseteq> {1..int M}" using Suc.prems(2,5) True by (auto simp: subscript_dom)
      have "{1..<i + 1} = insert i {1..<i}" using Suc.prems(5) by auto
      then show "{1..<i + 1} \<subseteq> dom (map_of ?idx)" using Suc.prems(3) by (auto simp: subscript_dom)
    qed (use Suc.prems True in \<open>auto simp: subscript_dom intro: subscript_ok\<close>)
    moreover have "[i..int M] = i # [i + 1..int M]" using True by (simp add: upto_rec1)
    ultimately show ?thesis
      using le subscript_fst [of i idx] subscript_index [of i idx]
      by (cases "smap_subscript i 0 idx") simp
  next
    case False
    with Suc.prems have i: "i = int M + 1" by simp
    have "card (dom (map_of idx)) \<le> card {1..int M}" by (rule card_mono) (use Suc.prems in auto)
    then show ?thesis using i len by simp
  qed
qed simp

lemma key_loop_forever:
  assumes "smap_ok idx" and "{1..<i} \<subseteq> dom (map_of idx)" and "1 \<le> i" and "k \<le> 0" and "k \<in> dom (map_of idx)"
  shows "key_loop n i idx ks = None"
  using assms
proof (induction n arbitrary: i idx ks)
  case (Suc n)
  have fin: "finite (dom (map_of idx))" by (simp add: finite_dom_map_of)
  have "card (insert k {1..<i}) \<le> card (dom (map_of idx))"
    by (rule card_mono [OF fin]) (use Suc.prems in auto)
  moreover have "card (insert k {1..<i}) = nat i" using Suc.prems(3,4) by simp
  ultimately have le: "i \<le> int (length idx)" using smap_length [OF Suc.prems(1)] by linarith
  have "{1..<i + 1} = insert i {1..<i}" using Suc.prems(3) by auto
  with Suc.prems have "key_loop n (i + 1) (snd (smap_subscript i 0 idx)) ks' = None" for ks'
    by (intro Suc.IH) (auto simp: subscript_dom intro: subscript_ok)
  with le show ?case by (auto split: prod.splits)
qed simp


lemma field_loop_index:
  "smap_ok idx \<Longrightarrow> \<forall>fd \<in> set fds. 0 \<le> sint (v_index (fd_variable fd)) \<Longrightarrow> dom (map_of idx) \<subseteq> {1..} \<Longrightarrow>
    smap_ok (snd (snd (field_loop fds f vs nums idx))) \<and> dom (map_of (snd (snd (field_loop fds f vs nums idx)))) \<subseteq> {1..}"
proof (induction fds arbitrary: f vs nums idx)
  case (Cons fd fds)
  let ?i = "sint (v_index (fd_variable fd))"
  have "smap_ok (if ?i \<noteq> 0 then smap_put ?i f idx else idx)"
      "dom (map_of (if ?i \<noteq> 0 then smap_put ?i f idx else idx)) \<subseteq> {1..}"
    using Cons.prems by (auto simp: smap.ok_put smap.get_put)
  with Cons.IH [of "if ?i \<noteq> 0 then smap_put ?i f idx else idx" "f + 1"] Cons.prems show ?case
    by (simp add: Let_def)
qed simp

lemma field_loop_keeps: "k \<in> dom (map_of idx) \<Longrightarrow> k \<in> dom (map_of (snd (snd (field_loop fds f vs nums idx))))"
  by (induction fds arbitrary: f vs nums idx) (auto simp: Let_def smap.get_put)

lemma field_loop_adds:
  "fd \<in> set fds \<Longrightarrow> sint (v_index (fd_variable fd)) \<noteq> 0 \<Longrightarrow>
     sint (v_index (fd_variable fd)) \<in> dom (map_of (snd (snd (field_loop fds f vs nums idx))))"
proof (induction fds arbitrary: f vs nums idx)
  case (Cons a fds)
  show ?case
  proof (cases "fd \<in> set fds")
    case True
    with Cons.IH Cons.prems show ?thesis by (simp only: field_loop.simps Let_def) blast
  next
    case False
    then have "fd = a" using Cons.prems by simp
    then show ?thesis using Cons.prems
      by (simp only: field_loop.simps Let_def) (rule field_loop_keeps, simp add: smap.get_put)
  qed
qed simp

lemma field_loop_ok: "smap_ok idx \<Longrightarrow> smap_ok (snd (snd (field_loop fds f vs nums idx)))"
  by (induction fds arbitrary: f vs nums idx) (auto simp: Let_def smap.ok_put)

text \<open>With indexes from 1 the constructor ends; the largest index and two rounds are fuel enough.\<close>

lemma packet_variable_new_keys:
  assumes md: "getMessageDescriptor pd t = Some md"
    and pos: "\<forall>fd \<in> set (md_fields md). 0 \<le> sint (v_index (fd_variable fd))"
    and idx: "idx = snd (snd (field_loop (md_fields md) 0 [] [] []))"
    and M: "int M = Max (insert 0 (dom (map_of idx)))" and fuel: "M + 1 < fuel"
  shows "\<exists>pv. packet_variable_new fuel hash pd t = Inr (Some pv)
    \<and> pv_keyIndexes pv = pk_id (pv_packet pv) # map (\<lambda>i. of_int (index_of idx i)) [1..int M]"
proof -
  have ok: "smap_ok idx" "dom (map_of idx) \<subseteq> {1..}"
    using field_loop_index [OF _ pos, of "[]"] by (auto simp: idx)
  have fin: "finite (insert 0 (dom (map_of idx)))" by (simp add: finite_dom_map_of)
  have up: "k \<le> int M" if "k \<in> dom (map_of idx)" for k unfolding M by (rule Max_ge [OF fin]) (use that in simp)
  have "int M \<in> insert 0 (dom (map_of idx))" unfolding M by (rule Max_in [OF fin]) simp
  then have top: "M = 0 \<or> int M \<in> dom (map_of idx)" by auto
  have "key_loop fuel 1 idx [pk_id (options_packet hash md)]
      = Some ([pk_id (options_packet hash md)] @ map (\<lambda>k. of_int (index_of idx k)) [1..int M])"
  proof (rule key_loop_result [OF ok(1) _ _ top])
    show "dom (map_of idx) \<subseteq> {1..int M}" using ok(2) up by (meson atLeastAtMost_iff atLeast_iff subset_eq)
  qed (use fuel in auto)
  with md show ?thesis
    by (auto simp: packet_variable_new_def Let_def idx split: prod.splits)
qed

lemma packet_variable_new_forever:
  assumes md: "getMessageDescriptor pd t = Some md"
    and fd: "fd \<in> set (md_fields md)" "sint (v_index (fd_variable fd)) < 0"
  shows "packet_variable_new fuel hash pd t = Inr None"
proof -
  let ?idx = "snd (snd (field_loop (md_fields md) 0 [] [] []))"
  have "key_loop fuel 1 ?idx ks = None" for ks
  proof (rule key_loop_forever)
    show "sint (v_index (fd_variable fd)) \<in> dom (map_of ?idx)" by (rule field_loop_adds) (use fd in auto)
    show "smap_ok ?idx" by (rule field_loop_ok) simp
  qed (use fd in auto)
  with md show ?thesis by (auto simp: packet_variable_new_def Let_def split: prod.splits)
qed

subsection \<open>Checking nested messages\<close>

lemma all_fields_cong: "(\<And>f. f \<in> set fs \<Longrightarrow> a f = b f) \<Longrightarrow> all_fields a fs = all_fields b fs"
proof (induction fs)
  case (Cons f fs)
  then have "all_fields a fs = all_fields b fs" by simp
  with Cons.prems show ?case by (auto intro!: bindR_cong)
qed simp

lemma nested_valid_cong:
  "again (fd_full_name fd) = again' (fd_full_name fd) \<Longrightarrow> nested_valid again c var packet fd = nested_valid again' c var packet fd"
  by (auto simp: nested_valid_def intro!: bindR_cong split: option.splits)

lemma valid_tags_one_level:
  assumes m: "getMessageDescriptor (oc_declarations c) t = Some m"
    and names: "\<forall>fd \<in> set (md_fields m). getMessageDescriptor (oc_declarations c) (fd_full_name fd) = None"
  shows "validTags (Suc (Suc n)) c t var packet =
    bindR (pv_validTags var packet) (\<lambda>ok.
      if \<not> ok then Inr (Some False)
      else all_fields (nested_valid (\<lambda>name pv sub. bindR (pv_validTags pv sub) (\<lambda>b. Inr (Some b))) c var packet) (md_fields m))"
proof -
  have "all_fields (nested_valid (validTags (Suc n) c) c var packet) (md_fields m)
    = all_fields (nested_valid (\<lambda>name pv sub. bindR (pv_validTags pv sub) (\<lambda>b. Inr (Some b))) c var packet) (md_fields m)"
  proof (rule all_fields_cong)
    fix fd assume "fd \<in> set (md_fields m)"
    with names have "validTags (Suc n) c (fd_full_name fd) = (\<lambda>pv sub. bindR (pv_validTags pv sub) (\<lambda>b. Inr (Some b)))"
      by (intro ext) (auto intro!: bindR_cong)
    then show "nested_valid (validTags (Suc n) c) c var packet fd
      = nested_valid (\<lambda>name pv sub. bindR (pv_validTags pv sub) (\<lambda>b. Inr (Some b))) c var packet fd"
      by (rule nested_valid_cong)
  qed
  then show ?thesis using m
    by (subst validTags.simps(2)) (auto intro!: bindR_cong simp del: validTags.simps)
qed


subsection \<open>Properties\<close>

text \<open>
  C31: A packet gets the tags that are asked of it: getEmptyPacket makes, for metadata
  whose tag fields lie in the packet, apart and with tags that fit, a packet of the
  declared size that validTags accepts.
\<close>

theorem empty_packet_is_valid:
  assumes "tags_ok pv"
  shows "\<exists>packet. getEmptyPacket pv = Inr packet \<and> length packet = unat (pv_packet_size pv)
    \<and> pv_validTags pv packet = Inr True"
proof -
  have "length (replicate (unat (pv_packet_size pv)) (0 :: byte)) = unat (pv_packet_size pv)" by simp
  from set_valid_tags [OF assms this] show ?thesis by (auto simp: getEmptyPacket_def)
qed

definition tagged_example :: packet_variable where
  "tagged_example = packet_variable_default\<lparr>pv_packet_size := 4,
     pv_packet := no_packet\<lparr>pk_fields := [example_field 0 1 ENDIAN_NO_MATTER 8,
        example_field 2 2 ENDIAN_BIG_ENDIAN 0xFFFFFFFFFFFFFFFF, example_field 1 1 ENDIAN_NO_MATTER 0]\<rparr>\<rparr>"

theorem empty_packet_is_valid_witness:
  "\<exists>packet. getEmptyPacket tagged_example = Inr packet \<and> length packet = 4"
proof -
  have s: "unat (pv_packet_size tagged_example) = 4" by (simp add: tagged_example_def)
  have w: "tag_writes (pk_fields (pv_packet tagged_example))
      = [(example_field 0 1 ENDIAN_NO_MATTER 8, 8), (example_field 2 2 ENDIAN_BIG_ENDIAN 0xFFFFFFFFFFFFFFFF, 0)]"
    by (simp add: tagged_example_def tag_writes_def example_field_def tag_value_def)
  have t: "take_bit 8 (8 :: u64) = 8" by code_simp
  have "tags_ok tagged_example"
    by (simp add: tags_ok_def w s t) (simp add: example_field_def in_packet_def apart_def tagged_example_def)
  from empty_packet_is_valid [OF this] s show ?thesis by auto
qed

text \<open>
  The key of a message lists, behind the message identifier, for each index from 1 to
  the largest one the position of the variable with this index, and 0 where an index is
  missing: the loop reads the map it runs over, and reading inserts.
\<close>

theorem key_indexes_of_packet:
  assumes "getMessageDescriptor pd t = Some md"
    and "\<forall>fd \<in> set (md_fields md). 0 \<le> sint (v_index (fd_variable fd))"
    and "idx = snd (snd (field_loop (md_fields md) 0 [] [] []))"
    and "int M = Max (insert 0 (dom (map_of idx)))" and "M + 1 < fuel"
  shows "\<exists>pv. packet_variable_new fuel hash pd t = Inr (Some pv)
    \<and> pv_keyIndexes pv = pk_id (pv_packet pv) # map (\<lambda>i. of_int (index_of idx i)) [1..int M]"
  using assms by (rule packet_variable_new_keys)

definition indexed_field :: "string \<Rightarrow> u32 \<Rightarrow> field_desc" where
  "indexed_field name i = \<lparr>fd_name = name, fd_full_name = name, fd_number = 1, fd_type = CPPTYPE_INT32,
     fd_bytes = False, fd_repeated = False, fd_message = [],
     fd_variable = \<lparr>v_field = [], v_short_name = [], v_full_name = [], v_get = [], v_set = [], v_format = [], v_index = i, v_sql_string = False\<rparr>\<rparr>"

theorem key_indexes_of_packet_witness:
  "\<exists>pv. packet_variable_new 9 (\<lambda>s. 7) [(''m'', \<lparr>md_full_name = ''m'', md_packet = None,
       md_fields = [indexed_field ''a'' 0, indexed_field ''b'' 3, indexed_field ''c'' 1]\<rparr>)] ''m'' = Inr (Some pv)
     \<and> pv_keyIndexes pv = [pk_id (pv_packet pv), 2, 0, 1]"
proof -
  let ?md = "\<lparr>md_full_name = ''m'', md_packet = None,
       md_fields = [indexed_field ''a'' 0, indexed_field ''b'' 3, indexed_field ''c'' 1]\<rparr>"
  have d: "getMessageDescriptor [(''m'', ?md)] ''m'' = Some ?md" by (simp add: getMessageDescriptor_def)
  have pos: "\<forall>fd \<in> set (md_fields ?md). 0 \<le> sint (v_index (fd_variable fd))" by (simp add: indexed_field_def)
  have i: "[(1, 2), (3, 1)] = snd (snd (field_loop (md_fields ?md) 0 [] [] []))" by code_simp
  have "dom (map_of [(1 :: int, 2 :: int), (3, 1)]) = {1, 3}" by auto
  then have M: "int 3 = Max (insert 0 (dom (map_of [(1 :: int, 2 :: int), (3, 1)])))" by simp
  have ks: "map (\<lambda>i. of_int (index_of [(1, 2), (3, 1)] i)) [1..int 3] = [2, 0, 1 :: u64]" by code_simp
  from key_indexes_of_packet [OF d pos i M, of 9 "\<lambda>s. 7"] show ?thesis unfolding ks by simp
qed

text \<open>
  An index from 2^31 on is negative as an int; then the constructor's loop over the
  growing map never ends.
\<close>

theorem negative_index_hangs:
  assumes "getMessageDescriptor pd t = Some md"
    and "fd \<in> set (md_fields md)" and "sint (v_index (fd_variable fd)) < 0"
  shows "packet_variable_new fuel hash pd t = Inr None"
  using assms by (rule packet_variable_new_forever)

theorem negative_index_hangs_witness:
  "packet_variable_new 1000 (\<lambda>s. 7) [(''m'', \<lparr>md_full_name = ''m'', md_packet = None,
       md_fields = [indexed_field ''a'' 0xFFFFFFFF]\<rparr>)] ''m'' = Inr None"
proof (rule negative_index_hangs)
  show "getMessageDescriptor [(''m'', \<lparr>md_full_name = ''m'', md_packet = None,
      md_fields = [indexed_field ''a'' 0xFFFFFFFF]\<rparr>)] ''m''
    = Some \<lparr>md_full_name = ''m'', md_packet = None, md_fields = [indexed_field ''a'' 0xFFFFFFFF]\<rparr>"
    by (simp add: getMessageDescriptor_def)
  show "sint (v_index (fd_variable (indexed_field ''a'' 0xFFFFFFFF))) < 0"
    by (simp add: indexed_field_def)
qed simp

text \<open>
  The check of nested messages goes one level deep: because the recursive call gets
  the name of the field and not of its message type, it finds no descriptor, checks the
  tags of the nested packet and leaves out the messages nested in it.
\<close>

theorem nested_tags_one_level:
  assumes "getMessageDescriptor (oc_declarations c) t = Some m"
    and "\<forall>fd \<in> set (md_fields m). getMessageDescriptor (oc_declarations c) (fd_full_name fd) = None"
  shows "validTags (Suc (Suc n)) c t var packet =
    bindR (pv_validTags var packet) (\<lambda>ok.
      if \<not> ok then Inr (Some False)
      else all_fields (nested_valid (\<lambda>name pv sub. bindR (pv_validTags pv sub) (\<lambda>b. Inr (Some b))) c var packet)
             (md_fields m))"
  using assms by (rule valid_tags_one_level)

theorem nested_tags_one_level_witness:
  "validTags 2 \<lparr>oc_variables = [], oc_declarations = [(''m'', \<lparr>md_full_name = ''m'', md_packet = None,
       md_fields = [indexed_field ''a'' 1]\<rparr>)]\<rparr> ''m'' tagged_example [8, 1, 0, 0] = Inr (Some True)"
proof -
  let ?c = "\<lparr>oc_variables = [], oc_declarations = [(''m'', \<lparr>md_full_name = ''m'', md_packet = None,
       md_fields = [indexed_field ''a'' 1]\<rparr>)]\<rparr>"
  have d: "getMessageDescriptor (oc_declarations ?c) ''m'' = Some \<lparr>md_full_name = ''m'', md_packet = None,
       md_fields = [indexed_field ''a'' 1]\<rparr>" by (simp add: getMessageDescriptor_def)
  have n: "getMessageDescriptor (oc_declarations ?c) (fd_full_name (indexed_field ''a'' 1)) = None"
    by (simp add: getMessageDescriptor_def indexed_field_def)
  have v: "pv_validTags tagged_example [8, 1, 0, 0] = Inr True" by code_simp
  show ?thesis
    using nested_tags_one_level [OF d, of 0 tagged_example "[8, 1, 0, 0]"] n v
    by (simp add: numeral_2_eq_2 nested_valid_def indexed_field_def del: validTags.simps)
qed

text \<open>
  A look-up that finds nothing leaves an entry with an empty name in the cache; every
  other entry stays.
\<close>

theorem find1_miss_inserts:
  assumes "find1 fuel c packet = Inr (Some (False, pv, c'))"
  shows "map_of (oc_variables c') = (map_of (oc_variables c))([] \<mapsto> pv)
    \<and> (map_of (oc_variables c) [] = None \<longrightarrow> pv = packet_variable_default)"
  using assms
  by (auto simp: find1_def smap_subscript_def smap.get_put split: option.splits prod.splits)

theorem find1_miss_inserts_witness:
  "\<exists>c'. find1 3 \<lparr>oc_variables = [], oc_declarations = []\<rparr> [1] = Inr (Some (False, packet_variable_default, c'))
    \<and> map_of (oc_variables c') [] = Some packet_variable_default"
proof -
  let ?c = "\<lparr>oc_variables = [], oc_declarations = []\<rparr>"
  have "find1 3 ?c [1] = Inr (Some (False, packet_variable_default, ?c\<lparr>oc_variables := [([], packet_variable_default)]\<rparr>))"
    by (simp add: find1_def smap_subscript_def)
  from find1_miss_inserts [OF this] this show ?thesis by auto
qed

end
