(* ===== verification/Message.thy ===== *)
theory Message
  imports PacketVar
begin

section \<open>Protobuf messages\<close>

text \<open>
  The messages of the protobuf library as its reflection interface shows them, for the
  proto3 files of the repository: a message has a type, whose descriptor the pool of
  declarations gives, and for every field of the descriptor a slot. A slot of a singular
  field holds at most one value, a slot of a repeated field any number. Reading a singular
  field that is not set gives the default of its type, and a scalar field is reported as
  present when its value is not the default.
\<close>

datatype pb_value =
    PDouble u64
  | PFloat u32
  | PInt64 u64
  | PUInt64 u64
  | PInt32 u32
  | PUInt32 u32
  | PBool bool
  | PString bytes
  | PEnum u32
  | PMessage pb_message
and pb_message = PbMessage (pm_type: string) (pm_slots: "pb_value list list")

type_synonym pool = "string \<Rightarrow> descriptor option"

text \<open>A new message of a type: every slot is empty.\<close>

definition new_message :: "pool \<Rightarrow> string \<Rightarrow> pb_message" where
  "new_message pool t =
     PbMessage t (case pool t of None \<Rightarrow> [] | Some md \<Rightarrow> replicate (length (md_fields md)) [])"

definition default_value :: "pool \<Rightarrow> field_desc \<Rightarrow> pb_value" where
  "default_value pool fd =
     (case fd_type fd of
        CPPTYPE_DOUBLE \<Rightarrow> PDouble 0
      | CPPTYPE_FLOAT \<Rightarrow> PFloat 0
      | CPPTYPE_INT64 \<Rightarrow> PInt64 0
      | CPPTYPE_UINT64 \<Rightarrow> PUInt64 0
      | CPPTYPE_INT32 \<Rightarrow> PInt32 0
      | CPPTYPE_UINT32 \<Rightarrow> PUInt32 0
      | CPPTYPE_BOOL \<Rightarrow> PBool False
      | CPPTYPE_STRING \<Rightarrow> PString []
      | CPPTYPE_ENUM \<Rightarrow> PEnum 0
      | CPPTYPE_MESSAGE \<Rightarrow> PMessage (new_message pool (fd_message fd)))"

text \<open>Reflection: the value of a singular field, and HasField.\<close>

definition get_value :: "pool \<Rightarrow> field_desc \<Rightarrow> pb_value list \<Rightarrow> pb_value" where
  "get_value pool fd slot = (case slot of [] \<Rightarrow> default_value pool fd | v # _ \<Rightarrow> v)"

definition has_field :: "pool \<Rightarrow> field_desc \<Rightarrow> pb_value list \<Rightarrow> bool" where
  "has_field pool fd slot =
     (case slot of
        [] \<Rightarrow> False
      | v # _ \<Rightarrow> (case v of PMessage m \<Rightarrow> True | _ \<Rightarrow> v \<noteq> default_value pool fd))"

text \<open>The values of a field as the loops over it see them.\<close>

definition field_values :: "pool \<Rightarrow> field_desc \<Rightarrow> pb_value list \<Rightarrow> pb_value list" where
  "field_values pool fd slot = (if fd_repeated fd then slot else [get_value pool fd slot])"

definition value_type :: "pb_value \<Rightarrow> cpp_type" where
  "value_type v =
     (case v of
        PDouble _ \<Rightarrow> CPPTYPE_DOUBLE
      | PFloat _ \<Rightarrow> CPPTYPE_FLOAT
      | PInt64 _ \<Rightarrow> CPPTYPE_INT64
      | PUInt64 _ \<Rightarrow> CPPTYPE_UINT64
      | PInt32 _ \<Rightarrow> CPPTYPE_INT32
      | PUInt32 _ \<Rightarrow> CPPTYPE_UINT32
      | PBool _ \<Rightarrow> CPPTYPE_BOOL
      | PString _ \<Rightarrow> CPPTYPE_STRING
      | PEnum _ \<Rightarrow> CPPTYPE_ENUM
      | PMessage _ \<Rightarrow> CPPTYPE_MESSAGE)"

subsection \<open>Well-typed messages\<close>

fun slots_ok :: "(field_desc \<Rightarrow> pb_value \<Rightarrow> bool) \<Rightarrow> field_desc list \<Rightarrow> pb_value list list \<Rightarrow> bool" where
  "slots_ok ok [] [] = True"
| "slots_ok ok (fd # fds) (vs # slots) =
     ((fd_repeated fd \<or> length vs \<le> 1) \<and> list_all (ok fd) vs \<and> slots_ok ok fds slots)"
| "slots_ok ok _ _ = False"

text \<open>
  A message is well typed, to a depth of \<open>n\<close> nested messages, when its type is declared and
  each slot holds values of the type of its field.
\<close>

primrec wt_message :: "nat \<Rightarrow> pool \<Rightarrow> pb_message \<Rightarrow> bool" where
  "wt_message 0 pool = (\<lambda>m. False)"
| "wt_message (Suc n) pool = (\<lambda>m.
     case pool (pm_type m) of
       None \<Rightarrow> False
     | Some md \<Rightarrow>
         slots_ok (\<lambda>fd v. value_type v = fd_type fd \<and>
             (case v of
                PMessage m' \<Rightarrow> pm_type m' = fd_message fd \<and> wt_message n pool m'
              | _ \<Rightarrow> True))
           (md_fields md) (pm_slots m))"

definition wt_value :: "nat \<Rightarrow> pool \<Rightarrow> field_desc \<Rightarrow> pb_value \<Rightarrow> bool" where
  "wt_value n pool fd v =
     (value_type v = fd_type fd \<and>
      (case v of PMessage m \<Rightarrow> pm_type m = fd_message fd \<and> wt_message n pool m | _ \<Rightarrow> True))"

lemma wt_message_Suc:
  "wt_message (Suc n) pool m =
     (case pool (pm_type m) of
        None \<Rightarrow> False
      | Some md \<Rightarrow> slots_ok (wt_value n pool) (md_fields md) (pm_slots m))"
proof -
  have eq: "(\<lambda>fd v. value_type v = fd_type fd \<and>
             (case v of
                PMessage m' \<Rightarrow> pm_type m' = fd_message fd \<and> wt_message n pool m'
              | _ \<Rightarrow> True)) = wt_value n pool"
    by (intro ext) (simp add: wt_value_def)
  show ?thesis unfolding wt_message.simps(2) eq ..
qed

declare wt_message.simps(2) [simp del]

lemma slots_ok_mono:
  "slots_ok P fds slots \<Longrightarrow> (\<And>fd v. fd \<in> set fds \<Longrightarrow> P fd v \<Longrightarrow> Q fd v) \<Longrightarrow> slots_ok Q fds slots"
  by (induction P fds slots rule: slots_ok.induct) (auto simp: list_all_iff)

lemma slots_ok_length: "slots_ok P fds slots \<Longrightarrow> length slots = length fds"
  by (induction P fds slots rule: slots_ok.induct) auto

lemma wt_value_scalar: "fd_type fd \<noteq> CPPTYPE_MESSAGE \<Longrightarrow> wt_value n pool fd v = (value_type v = fd_type fd)"
  by (cases v) (auto simp: wt_value_def value_type_def)

lemma wt_message_mono: "wt_message n pool m \<Longrightarrow> n \<le> k \<Longrightarrow> wt_message k pool m"
proof (induction n arbitrary: m k)
  case (Suc n)
  then obtain j where k: "k = Suc j" "n \<le> j" by (cases k) auto
  have "slots_ok (wt_value j pool) fds slots" if "slots_ok (wt_value n pool) fds slots" for fds slots
    using that by (rule slots_ok_mono)
      (use Suc.IH k(2) in \<open>auto simp: wt_value_def split: pb_value.splits\<close>)
  then show ?case
    using Suc.prems(1) unfolding k(1) wt_message_Suc by (auto split: option.splits)
qed simp

text \<open>
  Declarations in which no message type contains itself: a rank of the types that goes down
  along the fields. Then every default message is well typed to the depth of its rank.
\<close>

definition ranked :: "pool \<Rightarrow> (string \<Rightarrow> nat) \<Rightarrow> bool" where
  "ranked pool rank =
     (\<forall>t md. pool t = Some md \<longrightarrow>
        list_all (\<lambda>fd. fd_type fd = CPPTYPE_MESSAGE \<longrightarrow>
          pool (fd_message fd) \<noteq> None \<and> rank (fd_message fd) < rank t) (md_fields md))"

lemma ranked_field:
  "ranked pool rank \<Longrightarrow> pool t = Some md \<Longrightarrow> fd \<in> set (md_fields md) \<Longrightarrow>
   fd_type fd = CPPTYPE_MESSAGE \<Longrightarrow>
   (\<exists>md'. pool (fd_message fd) = Some md') \<and> rank (fd_message fd) < rank t"
  unfolding ranked_def list_all_iff by blast

lemma slots_ok_empty: "slots_ok P fds (replicate (length fds) [])"
  by (induction fds) auto

lemma wt_new_message: "pool t = Some md \<Longrightarrow> wt_message (Suc n) pool (new_message pool t)"
  by (simp add: wt_message_Suc new_message_def slots_ok_empty)

lemma value_type_default [simp]: "value_type (default_value pool fd) = fd_type fd"
  by (simp add: value_type_def default_value_def split: cpp_type.split)

lemma wt_get_value:
  assumes "list_all (wt_value n pool fd) slot" and "0 < n"
    and "fd_type fd = CPPTYPE_MESSAGE \<Longrightarrow> \<exists>md. pool (fd_message fd) = Some md"
  shows "wt_value n pool fd (get_value pool fd slot)"
proof (cases slot)
  case Nil
  obtain k where n: "n = Suc k" using assms(2) gr0_conv_Suc by blast
  show ?thesis
  proof (cases "fd_type fd = CPPTYPE_MESSAGE")
    case True
    then obtain md where "pool (fd_message fd) = Some md" using assms(3) by blast
    then have "wt_message n pool (new_message pool (fd_message fd))"
      unfolding n by (rule wt_new_message)
    then show ?thesis
      using True Nil by (simp add: get_value_def wt_value_def default_value_def value_type_def new_message_def)
  next
    case False
    then show ?thesis using Nil by (simp add: get_value_def wt_value_scalar)
  qed
qed (use assms(1) in \<open>simp add: get_value_def\<close>)

subsection \<open>Slots\<close>

lemma slots_ok_zip:
  "slots_ok P fds slots \<Longrightarrow> (fd, slot) \<in> set (zip fds slots) \<Longrightarrow>
   fd \<in> set fds \<and> list_all (P fd) slot \<and> (fd_repeated fd \<or> length slot \<le> 1)"
  by (induction P fds slots rule: slots_ok.induct) auto

text \<open>The values a field shows are well typed, defaults included.\<close>

lemma wt_value_mono: "wt_value n pool fd v \<Longrightarrow> n \<le> k \<Longrightarrow> wt_value k pool fd v"
  by (cases v) (auto simp: wt_value_def intro: wt_message_mono)

lemma wt_field_values:
  assumes "ranked pool rank" and "pool t = Some md" and "fd \<in> set (md_fields md)"
    and "list_all (wt_value n pool fd) slot" and "v \<in> set (field_values pool fd slot)"
  shows "wt_value (Suc n) pool fd v"
proof -
  have up: "list_all (wt_value (Suc n) pool fd) slot"
    using assms(4) wt_value_mono [of n pool fd _ "Suc n"] by (simp add: list_all_iff)
  show ?thesis
  proof (cases "fd_repeated fd")
    case True
    then show ?thesis using assms(5) up by (simp add: field_values_def list_all_iff)
  next
    case False
    then have "v = get_value pool fd slot" using assms(5) by (simp add: field_values_def)
    then show ?thesis
      using wt_get_value [OF up] ranked_field [OF assms(1-3)] by blast
  qed
qed

text \<open>Without recursive types a message is at most as deep as the rank of its type.\<close>

lemma wt_message_rank:
  assumes "ranked pool rank"
  shows "wt_message d pool m \<Longrightarrow> wt_message (Suc (rank (pm_type m))) pool m"
proof (induction d arbitrary: m)
  case (Suc d)
  obtain md where md: "pool (pm_type m) = Some md" "slots_ok (wt_value d pool) (md_fields md) (pm_slots m)"
    using Suc.prems by (auto simp: wt_message_Suc split: option.splits)
  have "wt_value (rank (pm_type m)) pool fd v" if fd: "fd \<in> set (md_fields md)" and v: "wt_value d pool fd v" for fd v
  proof (cases "\<exists>m'. v = PMessage m'")
    case True
    then obtain m' where m': "v = PMessage m'" by blast
    with v have wt: "fd_type fd = CPPTYPE_MESSAGE" "pm_type m' = fd_message fd" "wt_message d pool m'"
      by (auto simp: wt_value_def value_type_def)
    then have "rank (pm_type m') < rank (pm_type m)"
      using ranked_field [OF assms md(1) fd] by simp
    then have "wt_message (rank (pm_type m)) pool m'"
      using Suc.IH [OF wt(3)] wt_message_mono by (metis Suc_leI)
    then show ?thesis using m' wt by (simp add: wt_value_def value_type_def)
  next
    case False
    then show ?thesis using v by (cases v) (auto simp: wt_value_def)
  qed
  then have "slots_ok (wt_value (rank (pm_type m)) pool) (md_fields md) (pm_slots m)"
    using md(2) slots_ok_mono by blast
  then show ?case using md(1) by (simp add: wt_message_Suc)
qed simp

subsection \<open>An example\<close>

text \<open>A type with a number, a nested message and a repeated text, and the nested type.\<close>

definition no_variable :: variable where
  "no_variable =
     \<lparr>v_field = [], v_short_name = [], v_full_name = [], v_get = [], v_set = [], v_format = [],
      v_index = 0, v_sql_string = False\<rparr>"

definition example_field_desc :: "int \<Rightarrow> string \<Rightarrow> cpp_type \<Rightarrow> string \<Rightarrow> bool \<Rightarrow> field_desc" where
  "example_field_desc number name ty msg repeated =
     \<lparr>fd_name = name, fd_full_name = ''t.'' @ name, fd_number = number, fd_type = ty, fd_bytes = False,
      fd_repeated = repeated, fd_message = msg, fd_variable = no_variable\<rparr>"

definition example_declarations :: declarations where
  "example_declarations =
     [(''t'', \<lparr>md_full_name = ''t'', md_packet = None,
               md_fields = [example_field_desc 1 ''a'' CPPTYPE_INT32 [] False,
                            example_field_desc 2 ''n'' CPPTYPE_MESSAGE ''u'' False,
                            example_field_desc 3 ''s'' CPPTYPE_STRING [] True]\<rparr>),
      (''u'', \<lparr>md_full_name = ''u'', md_packet = None,
               md_fields = [example_field_desc 1 ''x'' CPPTYPE_UINT64 [] False]\<rparr>)]"

definition example_pool :: pool where
  "example_pool = getMessageDescriptor example_declarations"

definition example_rank :: "string \<Rightarrow> nat" where
  "example_rank t = (if t = ''t'' then 1 else 0)"

definition example_message :: pb_message where
  "example_message = PbMessage ''t''
     [[PInt32 (- 5)], [PMessage (PbMessage ''u'' [[PUInt64 7]])], [PString [65, 66], PString []]]"

lemma example_ranked: "ranked example_pool example_rank"
  by (auto simp: ranked_def example_pool_def getMessageDescriptor_def example_declarations_def
      example_field_desc_def example_rank_def split: if_splits)

lemma example_message_wt: "wt_message 2 example_pool example_message"
  by (simp add: numeral_2_eq_2 wt_message_Suc wt_value_def example_message_def example_pool_def
      getMessageDescriptor_def example_declarations_def example_field_desc_def value_type_def)

end
