(* ===== verification/JsContext.thy ===== *)
theory JsContext
  imports Message
begin

section \<open>The Javascript context of a packet\<close>

text \<open>
  javascript-context.cpp: the global object an expression of the declarations sees. \<open>field\<close>
  holds the fields of the packet, with an object for every embedded message, \<open>src\<close> and
  \<open>dst\<close> the socket addresses, \<open>time\<close> the time.
\<close>

unbundle bit_operations_syntax

text \<open>
  What the program takes from libraries: the text that the standard library prints for a
  double and a float with ten digits, the conversions between the two types, reading a
  double (strtod), the bytes of a std::string object, and of the Javascript engine a new
  heap, setting a property of the global object, and evaluating an expression, which gives
  whether it failed, the text of the result and the new state.
\<close>

record 'e runtime =
  show_double :: "u64 \<Rightarrow> string"
  show_float :: "u32 \<Rightarrow> string"
  float_to_double :: "u32 \<Rightarrow> u64"
  double_to_float :: "u64 \<Rightarrow> u32"
  strtod :: "string \<Rightarrow> u64"
  string_object :: "string \<Rightarrow> bytes"
  new_heap :: 'e
  put_global :: "string \<Rightarrow> jsval \<Rightarrow> 'e \<Rightarrow> 'e"
  eval :: "string \<Rightarrow> 'e \<Rightarrow> (bool \<times> string) \<times> 'e"

definition peval :: "'e runtime \<Rightarrow> string \<Rightarrow> 'e \<Rightarrow> (bool \<times> string) \<times> 'e" where
  "peval rt expr e = eval rt (c_string expr) e"

subsection \<open>Fields\<close>

text \<open>Reading a const std::string by index: the position after the end is a zero.\<close>

definition byte_at :: "bytes \<Rightarrow> int \<Rightarrow> byte result" where
  "byte_at packet i =
     (if i < 0 then Inl OutOfBounds
      else if nat i < length packet then Inr (packet ! nat i)
      else if nat i = length packet then Inr 0
      else Inl OutOfBounds)"

fun push_bytes :: "bytes \<Rightarrow> int list \<Rightarrow> jsval option list result" where
  "push_bytes packet [] = Inr []"
| "push_bytes packet (i # is) =
     bindR (byte_at packet i) (\<lambda>b. bindR (push_bytes packet is) (\<lambda>vs. Inr (Some (js_int (sint b)) # vs)))"

definition put_field :: "field \<Rightarrow> jsval \<Rightarrow> (string \<times> jsval) list \<Rightarrow> (string \<times> jsval) list" where
  "put_field f v obj = put_prop (c_string (f_name f)) v obj"

definition pushField :: "(u32 \<Rightarrow> u64) \<Rightarrow> bytes \<Rightarrow> field \<Rightarrow> (string \<times> jsval) list \<Rightarrow> (string \<times> jsval) list result" where
  "pushField f2d packet f obj =
     (case f_type f of
        INPUT_MESSAGE \<Rightarrow> Inr obj
      | INPUT_NONE \<Rightarrow> Inr (put_field f (JBool False) obj)
      | INPUT_CHAR \<Rightarrow>
          bindR (substr packet (unat (f_offset f)) (unat (f_size f))) (\<lambda>s. Inr (put_field f (push_string s) obj))
      | INPUT_STRING \<Rightarrow>
          bindR (substr packet (unat (f_offset f)) (unat (f_size f))) (\<lambda>s. Inr (put_field f (push_string s) obj))
      | INPUT_DOUBLE \<Rightarrow>
          bindR (extractFieldDouble f2d packet f) (\<lambda>d. Inr (put_field f (JNum (number_of_double d)) obj))
      | INPUT_BYTES \<Rightarrow>
          bindR (push_bytes packet [sint (f_offset f) .. sint (f_offset f + f_size f) - 1]) (\<lambda>vs.
            Inr (put_field f (JArr vs) obj))
      | INPUT_INT \<Rightarrow> bindR (extractFieldInt packet f) (\<lambda>v. Inr (put_field f (push_uint v) obj))
      | INPUT_UINT \<Rightarrow> bindR (extractFieldUInt packet f) (\<lambda>v. Inr (put_field f (push_uint v) obj)))"

fun push_fields :: "(u32 \<Rightarrow> u64) \<Rightarrow> bytes \<Rightarrow> field list \<Rightarrow> (string \<times> jsval) list \<Rightarrow> (string \<times> jsval) list result" where
  "push_fields f2d packet [] obj = Inr obj"
| "push_fields f2d packet (f # fs) obj = bindR (pushField f2d packet f obj) (push_fields f2d packet fs)"

subsection \<open>Embedded messages\<close>

fun field_index :: "string \<Rightarrow> int \<Rightarrow> field list \<Rightarrow> int" where
  "field_index zone j [] = - 1"
| "field_index zone j (f # fs) = (if f_name f = zone then j else field_index zone (j + 1) fs)"

definition findFieldNumber :: "packet_variable \<Rightarrow> field_desc \<Rightarrow> int" where
  "findFieldNumber pv fd =
     (case getVariableByFieldNumber pv (fd_number fd) of
        None \<Rightarrow> - 1
      | Some fnv \<Rightarrow> field_index (zone_name (snd fnv)) 0 (pk_fields (pv_packet pv)))"

text \<open>One embedded message: \<open>again\<close> is the recursive call.\<close>

definition pushNested :: "(packet_variable \<Rightarrow> bytes \<Rightarrow> (string \<times> jsval) list option result)
    \<Rightarrow> cache \<Rightarrow> packet_variable \<Rightarrow> bytes \<Rightarrow> field_desc \<Rightarrow> (string \<times> jsval) list
    \<Rightarrow> (string \<times> jsval) list option result" where
  "pushNested again c pv packet fd obj =
     (if fd_type fd \<noteq> CPPTYPE_MESSAGE then Inr (Some obj)
      else bindR (getPacketVariable c (fd_message fd)) (\<lambda>(found, packet_var).
        let z = findFieldNumber pv fd
        in if z < 0 then Inr (Some obj)
           else
             (let fld = pk_fields (pv_packet pv) ! nat z;
                  field_packet = (if unat (f_offset fld) < length packet
                                  then take (unat (f_size fld)) (drop (unat (f_offset fld)) packet) else [])
              in bindF (again packet_var field_packet) (\<lambda>o'.
                   Inr (Some (put_prop (c_string (fd_name fd)) (JObj o') obj))))))"

fun push_nested_all :: "(field_desc \<Rightarrow> 'o \<Rightarrow> 'o option result) \<Rightarrow> field_desc list \<Rightarrow> 'o \<Rightarrow> 'o option result" where
  "push_nested_all step [] obj = Inr (Some obj)"
| "push_nested_all step (fd # fds) obj = bindF (step fd obj) (push_nested_all step fds)"

text \<open>Packets nested deeper than the fuel are \<open>None\<close>.\<close>

primrec pushMessage :: "nat \<Rightarrow> (u32 \<Rightarrow> u64) \<Rightarrow> cache \<Rightarrow> packet_variable \<Rightarrow> bytes
    \<Rightarrow> (string \<times> jsval) list option result" where
  "pushMessage 0 f2d c = (\<lambda>pv packet. Inr None)"
| "pushMessage (Suc n) f2d c = (\<lambda>pv packet.
     bindR (push_fields f2d packet (pk_fields (pv_packet pv)) []) (\<lambda>obj.
       case getMessageDescriptor (oc_declarations c) (pv_message_type pv) of
         None \<Rightarrow> Inl NullPointer
       | Some md \<Rightarrow> push_nested_all (pushNested (pushMessage n f2d c) c pv packet) (md_fields md) obj))"

subsection \<open>Socket addresses\<close>

text \<open>An address as the code reads it; \<open>ip_text\<close> is what inet_ntop makes of it.\<close>

datatype sockaddr =
    SockaddrIn (sin_addr: u32) (sin_port: u16) (ip_text: string)
  | SockaddrIn6 (sin_port: u16) (ip_text: string)
  | SockaddrOther

definition putSocketAddress :: "'e runtime \<Rightarrow> string \<Rightarrow> sockaddr option \<Rightarrow> 'e \<Rightarrow> 'e" where
  "putSocketAddress rt objectName socket_addr e =
     (let (ip4, port, ip) =
        (case socket_addr of
           None \<Rightarrow> (0 :: u32, 0 :: u16, [])
         | Some (SockaddrIn a p t) \<Rightarrow> (a, p, t)
         | Some (SockaddrIn6 p t) \<Rightarrow> (0, p, t)
         | Some SockaddrOther \<Rightarrow> (0, 0, []))
      in put_global rt (c_string objectName)
           (JObj (put_prop ''ip'' (JStr (c_string ip))
             (put_prop ''port'' (js_int (uint port)) (put_prop ''ip4'' (js_int (uint ip4)) [])))) e)"

subsection \<open>The constructors\<close>

definition js_time :: "'e runtime \<Rightarrow> u64 \<Rightarrow> 'e" where
  "js_time rt t = put_global rt ''time'' (push_uint t) (new_heap rt)"

definition js_context_default :: "'e runtime \<Rightarrow> u64 \<Rightarrow> 'e" where
  "js_context_default rt t = js_time rt t"

definition js_context_packet :: "nat \<Rightarrow> 'e runtime \<Rightarrow> u64 \<Rightarrow> cache \<Rightarrow> packet_variable \<Rightarrow> bytes \<Rightarrow> 'e option result" where
  "js_context_packet n rt t c pv packet =
     bindF (pushMessage n (float_to_double rt) c pv packet) (\<lambda>obj.
       Inr (Some (put_global rt ''field'' (JObj obj) (js_time rt t))))"

definition js_context_sockets :: "nat \<Rightarrow> 'e runtime \<Rightarrow> u64 \<Rightarrow> cache \<Rightarrow> packet_variable
    \<Rightarrow> sockaddr option \<Rightarrow> sockaddr option \<Rightarrow> bytes \<Rightarrow> 'e option result" where
  "js_context_sockets n rt t c pv socket_src socket_dst packet =
     bindF (pushMessage n (float_to_double rt) c pv packet) (\<lambda>obj.
       Inr (Some (put_global rt ''field'' (JObj obj)
         (putSocketAddress rt ''dst'' socket_dst (putSocketAddress rt ''src'' socket_src (js_time rt t))))))"

subsection \<open>What the field object holds\<close>

text \<open>The value a field gets; a field of an embedded message gets none here.\<close>

definition field_js :: "(u32 \<Rightarrow> u64) \<Rightarrow> bytes \<Rightarrow> field \<Rightarrow> jsval option result" where
  "field_js f2d packet f =
     (case f_type f of
        INPUT_MESSAGE \<Rightarrow> Inr None
      | INPUT_NONE \<Rightarrow> Inr (Some (JBool False))
      | INPUT_DOUBLE \<Rightarrow> bindR (extractFieldDouble f2d packet f) (\<lambda>d. Inr (Some (JNum (number_of_double d))))
      | INPUT_BYTES \<Rightarrow>
          bindR (push_bytes packet [sint (f_offset f) .. sint (f_offset f + f_size f) - 1]) (\<lambda>vs. Inr (Some (JArr vs)))
      | INPUT_INT \<Rightarrow> bindR (extractFieldInt packet f) (\<lambda>v. Inr (Some (push_uint v)))
      | INPUT_UINT \<Rightarrow> bindR (extractFieldUInt packet f) (\<lambda>v. Inr (Some (push_uint v)))
      | _ \<Rightarrow> bindR (substr packet (unat (f_offset f)) (unat (f_size f))) (\<lambda>s. Inr (Some (push_string s))))"

lemma pushField_js:
  "pushField f2d packet f obj =
     bindR (field_js f2d packet f) (\<lambda>r. Inr (case r of None \<Rightarrow> obj | Some v \<Rightarrow> put_field f v obj))"
  by (cases "f_type f") (simp_all add: pushField_def field_js_def bindR_assoc)

definition js_name :: "field \<Rightarrow> string" where
  "js_name f = c_string (f_name f)"

lemma push_fields_other:
  "push_fields f2d packet fs obj = Inr obj' \<Longrightarrow> name \<notin> js_name ` set fs \<Longrightarrow> map_of obj' name = map_of obj name"
  by (induction fs arbitrary: obj)
     (fastforce simp: pushField_js put_field_def map_of_put_prop js_name_def split: option.splits)+

lemma push_fields_get:
  "push_fields f2d packet fs obj = Inr obj' \<Longrightarrow> distinct (map js_name fs) \<Longrightarrow> f \<in> set fs \<Longrightarrow>
   \<exists>r. field_js f2d packet f = Inr r \<and> (r \<noteq> None \<longrightarrow> map_of obj' (js_name f) = r)"
proof (induction fs arbitrary: obj)
  case (Cons g fs)
  obtain r where r: "field_js f2d packet g = Inr r"
    and rest: "push_fields f2d packet fs (case r of None \<Rightarrow> obj | Some v \<Rightarrow> put_field g v obj) = Inr obj'"
    using Cons.prems(1) by (auto simp: pushField_js)
  show ?case
  proof (cases "f = g")
    case True
    have "map_of obj' (js_name g) = map_of (case r of None \<Rightarrow> obj | Some v \<Rightarrow> put_field g v obj) (js_name g)"
      using push_fields_other [OF rest] Cons.prems(2) by simp
    then show ?thesis
      using r True by (auto simp: put_field_def map_of_put_prop js_name_def split: option.splits)
  qed (use Cons.IH [OF rest] Cons.prems in auto)
qed simp

lemma push_fields_ok:
  "(\<And>f. f \<in> set fs \<Longrightarrow> isOk (field_js f2d packet f)) \<Longrightarrow> \<exists>obj'. push_fields f2d packet fs obj = Inr obj'"
proof (induction fs arbitrary: obj)
  case (Cons f fs)
  then obtain r where "field_js f2d packet f = Inr r" by (auto simp: isOk_iff)
  then show ?case using Cons by (simp add: pushField_js)
qed simp

text \<open>Embedded messages leave the properties of other names alone.\<close>

lemma push_nested_all_none:
  "list_all (\<lambda>fd. fd_type fd \<noteq> CPPTYPE_MESSAGE) fds \<Longrightarrow>
   push_nested_all (pushNested again c pv packet) fds obj = Inr (Some obj)"
  by (induction fds) (simp_all add: pushNested_def)

text \<open>A signed field is pushed as an unsigned number: a script never sees a negative one.\<close>

theorem context_number_not_negative:
  assumes "f_type f = INPUT_INT" and "field_js f2d packet f = Inr (Some v)"
  shows "\<exists>i. v = js_int i \<and> 0 \<le> i \<and> i < 2 ^ 32"
proof -
  obtain w where "v = push_uint w" using assms by (auto simp: field_js_def)
  then show ?thesis
    using unsigned_less [of "ucast w :: u32", where ?'a = int] by (auto simp: push_uint_def)
qed

subsection \<open>An engine for examples\<close>

text \<open>
  An engine that evaluates an expression \<open>object.property\<close>, and nothing else.
\<close>

fun js_text :: "jsval \<Rightarrow> string" where
  "js_text (JNum (Finite r)) = int_str \<lfloor>r\<rfloor>"
| "js_text (JStr s) = s"
| "js_text (JBool b) = (if b then ''true'' else ''false'')"
| "js_text v = ''undefined''"

definition path_eval :: "string \<Rightarrow> (string \<times> jsval) list \<Rightarrow> (bool \<times> string) \<times> (string \<times> jsval) list" where
  "path_eval expr e =
     ((case map_of e (takeWhile (\<lambda>c. c \<noteq> CHR ''.'') expr) of
         Some (JObj obj) \<Rightarrow>
           (case map_of obj (drop 1 (dropWhile (\<lambda>c. c \<noteq> CHR ''.'') expr)) of
              None \<Rightarrow> (False, ''undefined'')
            | Some v \<Rightarrow> (False, js_text v))
       | _ \<Rightarrow> (True, ''TypeError'')), e)"

definition path_runtime :: "((string \<times> jsval) list) runtime" where
  "path_runtime =
     \<lparr>show_double = \<lambda>w. dec_str (unat w), show_float = \<lambda>w. dec_str (unat w), float_to_double = ucast,
      double_to_float = ucast, strtod = \<lambda>s. of_nat (digits_val s), string_object = bytes_of_text,
      new_heap = [], put_global = put_prop, eval = path_eval\<rparr>"

end
