(* ===== verification/Decompose.thy ===== *)
theory Decompose
  imports JsContext
begin

section \<open>Decomposing messages\<close>

text \<open>
  MessageDecomposer of messagedecomposer.cpp: the walk over the fields of a message that
  calls ondecompose for every value, and the text of a value. A callback gets the message
  type, the field, the value and the index of the field in the key; the walk is the list of
  these calls, in their order. Messages nested deeper than the fuel are \<open>None\<close>: a default
  message of a type that contains itself is nested without end.
\<close>

definition ERRCODE_DECOMPOSE_NO_MESSAGE_DESCRIPTOR :: int where
  "ERRCODE_DECOMPOSE_NO_MESSAGE_DESCRIPTOR = - 33"

definition ERRCODE_DECOMPOSE_NO_FIELD_DESCRIPTOR :: int where
  "ERRCODE_DECOMPOSE_NO_FIELD_DESCRIPTOR = - 34"

definition ERRCODE_NO_CALLBACK :: int where
  "ERRCODE_NO_CALLBACK = - 37"

record event =
  ev_message :: string
  ev_field :: field_desc
  ev_value :: pb_value
  ev_index :: int

subsection \<open>The walk\<close>

text \<open>The value a callback gets: bytes fields are coded as base64.\<close>

definition passed :: "field_desc \<Rightarrow> pb_value \<Rightarrow> pb_value" where
  "passed fd v =
     (case v of
        PString s \<Rightarrow> (if fd_bytes fd then PString (bytes_of_text (b64_encode s)) else v)
      | _ \<Rightarrow> v)"

text \<open>One value: nested messages are decomposed, and their result code is dropped.\<close>

definition decompose_value :: "(pb_message \<Rightarrow> (int \<times> event list) option result)
    \<Rightarrow> string \<Rightarrow> field_desc \<Rightarrow> int \<Rightarrow> pb_value \<Rightarrow> event list option result" where
  "decompose_value again t fd index v =
     (case v of
        PMessage m \<Rightarrow> bindF (again m) (\<lambda>(r, evs). Inr (Some evs))
      | _ \<Rightarrow> Inr (Some [\<lparr>ev_message = t, ev_field = fd, ev_value = passed fd v, ev_index = index\<rparr>]))"

definition key_index :: "cache option \<Rightarrow> string \<Rightarrow> field_desc \<Rightarrow> int result" where
  "key_index options t fd =
     (case options of None \<Rightarrow> Inr 0 | Some c \<Rightarrow> getIndex c t (fd_name fd))"

definition decomposeField :: "(pb_message \<Rightarrow> (int \<times> event list) option result)
    \<Rightarrow> cache option \<Rightarrow> pool \<Rightarrow> descriptor \<Rightarrow> field_desc \<Rightarrow> pb_value list \<Rightarrow> event list option result" where
  "decomposeField again options pool md fd slot =
     bindR (key_index options (md_full_name md) fd) (\<lambda>index.
       collect (decompose_value again (md_full_name md) fd index) (field_values pool fd slot))"

primrec decomposeMessage :: "nat \<Rightarrow> cache option \<Rightarrow> pool \<Rightarrow> pb_message \<Rightarrow> (int \<times> event list) option result" where
  "decomposeMessage 0 options pool = (\<lambda>m. Inr None)"
| "decomposeMessage (Suc n) options pool = (\<lambda>m.
     case pool (pm_type m) of
       None \<Rightarrow> Inr (Some (ERRCODE_DECOMPOSE_NO_MESSAGE_DESCRIPTOR, []))
     | Some md \<Rightarrow>
         bindF (collect (\<lambda>(fd, slot). decomposeField (decomposeMessage n options pool) options pool md fd slot)
                  (zip (md_fields md) (pm_slots m)))
           (\<lambda>evs. Inr (Some (0, evs))))"

definition decompose :: "nat \<Rightarrow> cache option \<Rightarrow> pool \<Rightarrow> bool \<Rightarrow> pb_message \<Rightarrow> (int \<times> event list) option result" where
  "decompose n options pool ondecompose m =
     (if \<not> ondecompose then Inr (Some (ERRCODE_NO_CALLBACK, []))
      else bindF (decomposeMessage n options pool m) (\<lambda>(r, evs). Inr (Some (0, evs))))"

subsection \<open>The text of a value\<close>

definition plain_text :: "'e runtime \<Rightarrow> pb_value \<Rightarrow> string" where
  "plain_text rt v =
     (case v of
        PDouble w \<Rightarrow> show_double rt w
      | PFloat w \<Rightarrow> show_float rt w
      | PInt64 w \<Rightarrow> int_str (sint w)
      | PUInt64 w \<Rightarrow> dec_str (unat w)
      | PInt32 w \<Rightarrow> int_str (sint w)
      | PUInt32 w \<Rightarrow> dec_str (unat w)
      | PBool b \<Rightarrow> (if b then ''1'' else ''0'')
      | PEnum w \<Rightarrow> int_str (sint w)
      | PString s \<Rightarrow> text_of_bytes s
      | PMessage m \<Rightarrow> [])"

definition format_value :: "'e runtime \<Rightarrow> cache \<Rightarrow> string \<Rightarrow> field_desc \<Rightarrow> string \<Rightarrow> nat \<Rightarrow> 'e \<Rightarrow> (string \<times> 'e) result" where
  "format_value rt c t fd s format_number e =
     bindR (getPacketVariable c t) (\<lambda>(found, v).
       case getVariableByFieldNumber v (fd_number fd) of
         None \<Rightarrow> Inr (s, e)
       | Some f \<Rightarrow>
           (if format_number < length (v_format (snd f))
            then (case peval rt (v_format (snd f) ! format_number) e of
                    ((failed, r), e') \<Rightarrow> Inr (r, e'))
            else Inr (s, e)))"

definition toString :: "'e runtime \<Rightarrow> cache \<Rightarrow> event \<Rightarrow> int \<Rightarrow> 'e \<Rightarrow> (string \<times> 'e) result" where
  "toString rt c ev format_number e =
     (if 0 \<le> format_number
      then format_value rt c (ev_message ev) (ev_field ev) (plain_text rt (ev_value ev)) (nat format_number) e
      else Inr (plain_text rt (ev_value ev), e))"

subsection \<open>The walk ends\<close>

definition indexes_ok :: "cache option \<Rightarrow> bool" where
  "indexes_ok options =
     (case options of
        None \<Rightarrow> True
      | Some c \<Rightarrow>
          list_all (\<lambda>(t, pv). list_all (\<lambda>k. unat k < length (pv_variables pv)) (tl (pv_keyIndexes pv)))
            (oc_variables c))"

lemma index_loop_ok:
  "list_all (\<lambda>k. unat k < length (pv_variables pv)) ks \<Longrightarrow> \<exists>i. index_loop pv f i0 ks = Inr i"
  by (induction pv f i0 ks rule: index_loop.induct) (auto simp: elem_at_def)

lemma key_index_ok: "indexes_ok options \<Longrightarrow> \<exists>i. key_index options t fd = Inr i"
proof (cases options)
  case (Some c)
  assume ok: "indexes_ok options"
  show ?thesis
  proof (cases "map_of (oc_variables c) t")
    case (Some pv)
    from map_of_SomeD [OF this] have "list_all (\<lambda>k. unat k < length (pv_variables pv)) (tl (pv_keyIndexes pv))"
      using ok \<open>options = Some c\<close> by (fastforce simp: indexes_ok_def list_all_iff)
    from index_loop_ok [OF this] show ?thesis
      using Some \<open>options = Some c\<close> by (simp add: key_index_def getIndex_def)
  qed (simp add: Some key_index_def getIndex_def)
qed (simp add: key_index_def)

lemma decomposeField_ok:
  assumes "indexes_ok options"
    and "\<And>m. PMessage m \<in> set (field_values pool fd slot) \<Longrightarrow> \<exists>r. again m = Inr (Some r)"
  shows "\<exists>evs. decomposeField again options pool md fd slot = Inr (Some evs)"
proof -
  obtain index where index: "key_index options (md_full_name md) fd = Inr index"
    using key_index_ok [OF assms(1)] by blast
  have "\<exists>evs. decompose_value again (md_full_name md) fd index v = Inr (Some evs)"
    if "v \<in> set (field_values pool fd slot)" for v
    using assms(2) that by (cases v) (fastforce simp: decompose_value_def)+
  then show ?thesis
    by (simp add: decomposeField_def index collect_ok)
qed

lemma decomposeMessage_ends:
  assumes "ranked pool rank" and "indexes_ok options"
  shows "wt_message d pool m \<Longrightarrow> rank (pm_type m) < n \<Longrightarrow>
    \<exists>evs. decomposeMessage n options pool m = Inr (Some (0, evs))"
proof (induction n arbitrary: d m)
  case (Suc n)
  then obtain k where d: "d = Suc k" by (cases d) auto
  obtain md where md: "pool (pm_type m) = Some md" "slots_ok (wt_value k pool) (md_fields md) (pm_slots m)"
    using Suc.prems(1) unfolding d wt_message_Suc by (auto split: option.splits)
  have "\<exists>evs. decomposeField (decomposeMessage n options pool) options pool md fd slot = Inr (Some evs)"
    if fs: "(fd, slot) \<in> set (zip (md_fields md) (pm_slots m))" for fd slot
  proof (rule decomposeField_ok [OF assms(2)])
    fix m' assume m': "PMessage m' \<in> set (field_values pool fd slot)"
    have fd: "fd \<in> set (md_fields md)" "list_all (wt_value k pool fd) slot"
      using slots_ok_zip [OF md(2) fs] by auto
    have wt: "wt_value (Suc k) pool fd (PMessage m')"
      using wt_field_values [OF assms(1) md(1) fd m'] .
    then have "fd_type fd = CPPTYPE_MESSAGE" "pm_type m' = fd_message fd" "wt_message (Suc k) pool m'"
      by (simp_all add: wt_value_def value_type_def)
    then show "\<exists>r. decomposeMessage n options pool m' = Inr (Some r)"
      using ranked_field [OF assms(1) md(1) fd(1)] Suc.IH [of "Suc k" m'] Suc.prems(2) by auto
  qed
  then have "\<exists>evs. collect (\<lambda>(fd, slot). decomposeField (decomposeMessage n options pool) options pool md fd slot)
      (zip (md_fields md) (pm_slots m)) = Inr (Some evs)"
    by (intro collect_ok) auto
  then show ?case using md(1) by auto
qed simp

subsection \<open>Key indexes stay inside the metadata\<close>

text \<open>The values of the index map are positions of fields.\<close>

lemma field_loop_range:
  "field_loop fds f vs nums idx = (vs', nums', idx') \<Longrightarrow> f = int (length vs) \<Longrightarrow>
   (\<forall>v \<in> ran (map_of idx). 0 \<le> v \<and> v < f) \<Longrightarrow>
   length vs' = length vs + length fds \<and> (\<forall>v \<in> ran (map_of idx'). 0 \<le> v \<and> v < int (length vs'))"
proof (induction fds f vs nums idx rule: field_loop.induct)
  case (2 fd fds f vs nums idx)
  let ?i = "sint (v_index (fd_variable fd))"
  let ?idx = "if ?i \<noteq> 0 then smap_put ?i f idx else idx"
  have "\<forall>v \<in> ran (map_of ?idx). 0 \<le> v \<and> v < f + 1"
    using "2.prems"(2,3) by (auto simp: smap.get_put ran_def split: if_splits)
  then show ?case using 2 by (auto simp: Let_def)
qed auto

lemma key_loop_range:
  "key_loop n i idx ks = Some ks' \<Longrightarrow> (\<forall>v \<in> ran (map_of idx). 0 \<le> v \<and> v < int N) \<Longrightarrow> N < 2 ^ 64 \<Longrightarrow>
   (idx \<noteq> [] \<Longrightarrow> 0 < N) \<Longrightarrow> 0 < i \<Longrightarrow>
   \<exists>new. ks' = ks @ new \<and> list_all (\<lambda>k. unat k < N) new"
proof (induction n i idx ks rule: key_loop.induct)
  case (2 n i idx ks)
  show ?case
  proof (cases "i \<le> int (length idx)")
    case True
    obtain v idx' where v: "smap_subscript i 0 idx = (v, idx')" by fastforce
    from True \<open>0 < i\<close> have "idx \<noteq> []" by auto
    with 2 have N: "0 < N" by simp
    have r: "0 \<le> v" "v < int N"
      using v 2(3) N by (auto simp: smap_subscript_def ran_def split: option.splits)
    have r': "\<forall>v \<in> ran (map_of idx'). 0 \<le> v \<and> v < int N"
      using v 2(3) N by (fastforce simp: smap_subscript_def smap.get_put ran_def split: option.splits if_splits)
    obtain new where "ks' = (ks @ [of_int v]) @ new" "list_all (\<lambda>k. unat k < N) new"
      using 2(1) [OF True v [symmetric]] 2(2) True v r' N \<open>N < 2 ^ 64\<close> \<open>0 < i\<close> by auto
    moreover have "unat (of_int v :: u64) < N"
    proof -
      obtain k where "v = int k" "k < N" using r zero_le_imp_eq_int by auto
      then show ?thesis using \<open>N < 2 ^ 64\<close> by (simp add: unat_of_nat take_bit_nat_eq_self)
    qed
    ultimately show ?thesis by simp
  qed (use 2 in auto)
qed simp

definition keys_ok :: "packet_variable \<Rightarrow> bool" where
  "keys_ok pv = list_all (\<lambda>k. unat k < length (pv_variables pv)) (tl (pv_keyIndexes pv))"

lemma packet_variable_new_keys_ok:
  assumes "packet_variable_new fuel hash pd t = Inr (Some pv)"
    and "\<And>md. getMessageDescriptor pd t = Some md \<Longrightarrow> length (md_fields md) < 2 ^ 64"
  shows "keys_ok pv"
proof -
  obtain md where md: "getMessageDescriptor pd t = Some md"
    using assms(1) by (auto simp: packet_variable_new_def split: option.splits)
  obtain vs nums idx where l: "field_loop (md_fields md) 0 [] [] [] = (vs, nums, idx)"
    by (metis prod_cases3)
  obtain ks where ks: "key_loop fuel 1 idx [pk_id (options_packet hash md)] = Some ks"
    and pv: "pv_variables pv = vs" "pv_keyIndexes pv = ks"
    using assms(1) md l by (auto simp: packet_variable_new_def Let_def)
  have range: "length vs = length (md_fields md)" "\<forall>v \<in> ran (map_of idx). 0 \<le> v \<and> v < int (length vs)"
    using field_loop_range [OF l] by auto
  have "0 < length vs" if "idx \<noteq> []"
  proof (cases idx)
    case (Cons kv m)
    then have "snd kv \<in> ran (map_of idx)" by (cases kv) (auto simp: ran_def)
    then show ?thesis using range(2) by fastforce
  qed (use that in simp)
  then show ?thesis
    using key_loop_range [OF ks range(2)] assms(2) [OF md] range(1)
    by (auto simp: keys_ok_def pv)
qed

lemma add_all_keys_ok:
  assumes "\<And>t md. getMessageDescriptor pd t = Some md \<Longrightarrow> length (md_fields md) < 2 ^ 64"
  shows "add_all fuel hash pd names m = Inr (Some m') \<Longrightarrow> \<forall>(t, pv) \<in> set m. keys_ok pv \<Longrightarrow>
    \<forall>(t, pv) \<in> set m'. keys_ok pv"
proof (induction names arbitrary: m)
  case (Cons name names)
  have put: "set (smap_put k v m) \<subseteq> insert (k, v) (set m)" for k v and m :: "(string, packet_variable) smap"
    by (induction k v m rule: smap_put.induct) auto
  obtain pv where pv: "packet_variable_new fuel hash pd name = Inr (Some pv)"
    "add_all fuel hash pd names (smap_put name pv m) = Inr (Some m')"
    using Cons.prems(1) by (auto split: option.splits)
  have "keys_ok pv" using packet_variable_new_keys_ok [OF pv(1)] assms by blast
  then have "\<forall>(t, pv) \<in> set (smap_put name pv m). keys_ok pv"
    using put [of name pv m] Cons.prems(2) by auto
  then show ?case using Cons.IH pv by auto
qed simp

lemma cache_new_indexes_ok:
  assumes "cache_new fuel hash pd = Inr (Some c)"
    and "\<And>t md. getMessageDescriptor pd t = Some md \<Longrightarrow> length (md_fields md) < 2 ^ 64"
  shows "indexes_ok (Some c)"
proof -
  obtain m where m: "add_all fuel hash pd (map fst pd) [] = Inr (Some m)" "oc_variables c = m"
    using assms(1) by (auto simp: cache_new_def addDeclarations_def)
  have "\<forall>(t, pv) \<in> set m. keys_ok pv"
    using add_all_keys_ok [OF assms(2) m(1)] by auto
  then show ?thesis
    by (simp add: indexes_ok_def m(2) keys_ok_def list_all_iff)
qed

subsection \<open>Types of the values\<close>

definition event_ok :: "pool \<Rightarrow> event \<Rightarrow> bool" where
  "event_ok pool ev =
     (value_type (ev_value ev) = fd_type (ev_field ev) \<and> fd_type (ev_field ev) \<noteq> CPPTYPE_MESSAGE \<and>
      (\<exists>t md. pool t = Some md \<and> ev_message ev = md_full_name md \<and> ev_field ev \<in> set (md_fields md)))"

lemma value_type_passed [simp]: "value_type (passed fd v) = value_type v"
  by (cases v) (simp_all add: passed_def value_type_def)

lemma decomposeMessage_typed:
  assumes "ranked pool rank"
  shows "wt_message d pool m \<Longrightarrow> decomposeMessage n options pool m = Inr (Some (r, evs)) \<Longrightarrow>
    ev \<in> set evs \<Longrightarrow> event_ok pool ev"
proof (induction n arbitrary: d m r evs)
  case (Suc n)
  then obtain k where d: "d = Suc k" by (cases d) auto
  obtain md where md: "pool (pm_type m) = Some md" "slots_ok (wt_value k pool) (md_fields md) (pm_slots m)"
    using Suc.prems(1) unfolding d wt_message_Suc by (auto split: option.splits)
  let ?one = "decomposeField (decomposeMessage n options pool) options pool md"
  obtain fd slot ys where fs: "(fd, slot) \<in> set (zip (md_fields md) (pm_slots m))"
    "?one fd slot = Inr (Some ys)" "ev \<in> set ys"
    using Suc.prems(2,3) md(1) by (auto dest: collect_source)
  then obtain index v zs where v: "v \<in> set (field_values pool fd slot)" "ev \<in> set zs"
    "decompose_value (decomposeMessage n options pool) (md_full_name md) fd index v = Inr (Some zs)"
    by (auto simp: decomposeField_def dest!: collect_source)
  have fd: "fd \<in> set (md_fields md)" "list_all (wt_value k pool fd) slot"
    using slots_ok_zip [OF md(2) fs(1)] by auto
  have wt: "wt_value (Suc k) pool fd v"
    using wt_field_values [OF assms md(1) fd v(1)] .
  show ?case
  proof (cases "\<exists>m'. v = PMessage m'")
    case True
    then obtain m' where m': "v = PMessage m'" by blast
    with wt have "wt_message (Suc k) pool m'" by (simp add: wt_value_def)
    moreover obtain r' where "decomposeMessage n options pool m' = Inr (Some (r', zs))"
      using v(3) m' by (auto simp: decompose_value_def)
    ultimately show ?thesis using Suc.IH v(2) by blast
  next
    case False
    then have ev: "ev = \<lparr>ev_message = md_full_name md, ev_field = fd, ev_value = passed fd v, ev_index = index\<rparr>"
      using v(2,3) by (cases v) (auto simp: decompose_value_def)
    have "value_type v \<noteq> CPPTYPE_MESSAGE"
      using False by (cases v) (auto simp: value_type_def)
    then show ?thesis
      using wt fd(1) md(1) by (auto simp: ev event_ok_def wt_value_def)
  qed
qed simp

subsection \<open>Types that contain themselves\<close>

lemma collect_not_Some:
  "x \<in> set xs \<Longrightarrow> (\<And>ys. f x \<noteq> Inr (Some ys)) \<Longrightarrow> collect f xs \<noteq> Inr (Some zs)"
  using collect_elem by metis

lemma decomposeMessage_recursive:
  assumes "pool t = Some md" and "fd \<in> set (md_fields md)" and "fd_type fd = CPPTYPE_MESSAGE"
    and "fd_message fd = t" and "\<not> fd_repeated fd"
  shows "wt_message (Suc d) pool m \<Longrightarrow> pm_type m = t \<Longrightarrow> decomposeMessage n options pool m \<noteq> Inr (Some r)"
proof (induction n arbitrary: m r d)
  case (Suc n)
  have slots: "slots_ok (wt_value d pool) (md_fields md) (pm_slots m)"
    using Suc.prems assms(1) by (simp add: wt_message_Suc)
  then obtain slot where slot: "(fd, slot) \<in> set (zip (md_fields md) (pm_slots m))"
    using assms(2) slots_ok_length [OF slots] by (metis in_set_impl_in_set_zip1)
  have "list_all (wt_value (Suc d) pool fd) slot"
    using slots_ok_zip [OF slots slot] wt_value_mono [of d pool fd _ "Suc d"] by (simp add: list_all_iff)
  then have wt: "wt_value (Suc d) pool fd (get_value pool fd slot)"
    using assms(1,4) by (intro wt_get_value) auto
  then obtain m' where m': "get_value pool fd slot = PMessage m'"
    using assms(3) by (cases "get_value pool fd slot") (auto simp: wt_value_def value_type_def)
  then have "wt_message (Suc d) pool m'" "pm_type m' = t"
    using wt assms(4) by (simp_all add: wt_value_def)
  then have again: "decomposeMessage n options pool m' \<noteq> Inr (Some x)" for x
    using Suc.IH by blast
  have one: "decompose_value (decomposeMessage n options pool) t' fd index (PMessage m') \<noteq> Inr (Some ys)"
    for t' index ys
    using again unfolding decompose_value_def by (auto simp del: not_Some_eq)
  have field: "decomposeField (decomposeMessage n options pool) options pool md fd slot \<noteq> Inr (Some ys)" for ys
    using assms(5) one by (auto simp: decomposeField_def field_values_def m')
  have "collect (\<lambda>(fd, slot). decomposeField (decomposeMessage n options pool) options pool md fd slot)
      (zip (md_fields md) (pm_slots m)) \<noteq> Inr (Some ys)" for ys
    by (rule collect_not_Some [OF slot]) (simp add: field)
  then show ?case using assms(1) Suc.prems(2) by simp
qed simp

subsection \<open>What the walk promises\<close>

text \<open>
  C17: For declarations in which no type contains itself and an options cache made from
  declarations, decomposing a well-typed message ends with success, and every value passed
  to the callback has the type of its field, which is a field of the named message type.
\<close>

theorem decompose_total_and_typed:
  assumes "ranked pool rank" and "wt_message d pool m"
    and "cache_new fuel hash pd = Inr (Some c)"
    and "\<And>t md. getMessageDescriptor pd t = Some md \<Longrightarrow> length (md_fields md) < 2 ^ 64"
  shows "\<exists>evs. decompose (Suc (rank (pm_type m))) (Some c) pool True m = Inr (Some (0, evs)) \<and>
    list_all (event_ok pool) evs"
proof -
  have "indexes_ok (Some c)"
    using cache_new_indexes_ok [OF assms(3)] assms(4) by blast
  then obtain evs where "decomposeMessage (Suc (rank (pm_type m))) (Some c) pool m = Inr (Some (0, evs))"
    using decomposeMessage_ends [OF assms(1) _ assms(2)] by blast
  with decomposeMessage_typed [OF assms(1,2) this] show ?thesis
    by (auto simp: decompose_def list_all_iff)
qed

lemma example_cache: "\<exists>c. cache_new 9 (\<lambda>s. 7) example_declarations = Inr (Some c)"
proof -
  have "case cache_new 9 (\<lambda>s. 7) example_declarations of Inr (Some c) \<Rightarrow> True | _ \<Rightarrow> False"
    by code_simp
  then show ?thesis by (auto split: sum.splits option.splits)
qed

theorem decompose_total_and_typed_witness:
  "\<exists>c evs. cache_new 9 (\<lambda>s. 7) example_declarations = Inr (Some c) \<and>
    decompose 2 (Some c) example_pool True example_message = Inr (Some (0, evs)) \<and>
    list_all (event_ok example_pool) evs"
proof -
  obtain c where c: "cache_new 9 (\<lambda>s. 7) example_declarations = Inr (Some c)"
    using example_cache by blast
  have small: "length (md_fields md) < 2 ^ 64"
    if "getMessageDescriptor example_declarations t = Some md" for t md
    using that by (auto simp: getMessageDescriptor_def example_declarations_def split: if_splits)
  have "Suc (example_rank (pm_type example_message)) = 2"
    by (simp add: example_rank_def example_message_def)
  with decompose_total_and_typed [OF example_ranked example_message_wt c small] c
  show ?thesis by auto
qed

text \<open>
  A message of a type that has a singular field of its own type is never decomposed to
  the end: an unset field is read as a default message, which has that field again.
\<close>

theorem recursive_type_never_ends:
  assumes "pool t = Some md" and "fd \<in> set (md_fields md)" and "fd_type fd = CPPTYPE_MESSAGE"
    and "fd_message fd = t" and "\<not> fd_repeated fd" and "wt_message (Suc d) pool m" and "pm_type m = t"
  shows "decompose n options pool True m \<noteq> Inr (Some r)"
  using decomposeMessage_recursive [OF assms] by (auto simp: decompose_def)

theorem recursive_type_never_ends_witness:
  "decompose 100 None (\<lambda>s. Some \<lparr>md_full_name = s, md_packet = None,
       md_fields = [example_field_desc 1 ''next'' CPPTYPE_MESSAGE ''t'' False]\<rparr>) True
     (PbMessage ''t'' [[]]) \<noteq> Inr (Some (0, []))"
  by (rule recursive_type_never_ends [where d = 0 and t = "''t''"])
     (auto simp: example_field_desc_def wt_message_Suc)

end
