(* ===== verification/TextNumber.thy ===== *)
theory TextNumber
  imports Prelude
begin

section \<open>Numbers read from text\<close>

text \<open>
  strtol, strtoll, strtoul and strtoull of the standard library with base 10 and 64-bit
  longs, as messagecomposer.cpp and messagedecomposer.cpp use them, and the conversions of
  messagecomposer.cpp built on them.
\<close>

unbundle bit_operations_syntax

definition sign_of :: "string \<Rightarrow> bool \<times> string" where
  "sign_of s =
     (case dropWhile is_space s of
        [] \<Rightarrow> (False, [])
      | c # cs \<Rightarrow> (if c = CHR ''-'' then (True, cs) else if c = CHR ''+'' then (False, cs) else (False, c # cs)))"

definition strtoll :: "string \<Rightarrow> u64" where
  "strtoll s =
     (case sign_of s of
        (neg, rest) \<Rightarrow>
          (let n = digits_val (takeWhile is_digit rest);
               i = (if neg then - int n else int n)
           in of_int (max (- (2 ^ 63)) (min (2 ^ 63 - 1) i))))"

text \<open>A minus sign is applied to the unsigned value; what is too large becomes the maximum.\<close>

definition strtoull :: "string \<Rightarrow> u64" where
  "strtoull s =
     (case sign_of s of
        (neg, rest) \<Rightarrow>
          (let n = digits_val (takeWhile is_digit rest)
           in if 2 ^ 64 \<le> n then - 1 else if neg then - of_nat n else of_nat n))"

definition parse_int64_t :: "string \<Rightarrow> u64" where
  "parse_int64_t v = strtoll v"

definition parse_uint64_t :: "string \<Rightarrow> u64" where
  "parse_uint64_t v = strtoull v"

definition parse_int32_t :: "string \<Rightarrow> u32" where
  "parse_int32_t v = ucast (strtoll v)"

definition parse_uint32_t :: "string \<Rightarrow> u32" where
  "parse_uint32_t v = ucast (strtoull v)"

definition parse_bool :: "string \<Rightarrow> bool" where
  "parse_bool v =
     (v \<noteq> [] \<and> hd v \<noteq> CHR ''0'' \<and> hd v \<noteq> CHR ''f'' \<and> hd v \<noteq> CHR ''F'')"

subsection \<open>Printed numbers are read back\<close>

lemma takeWhile_dec_str: "takeWhile is_digit (dec_str n) = dec_str n"
  using dec_str_digits by (simp add: takeWhile_eq_all_conv)

lemma hd_dec_str: "is_digit (hd (dec_str n))"
  using dec_str_digits [of n] by (simp add: list.set_sel)

lemma sign_of_dec_str: "sign_of (dec_str n) = (False, dec_str n)"
proof (cases "dec_str n")
  case (Cons c cs)
  then have c: "is_digit c" using hd_dec_str [of n] by simp
  then have "c \<noteq> CHR ''-''" "c \<noteq> CHR ''+''" by (auto simp: is_digit_def)
  then show ?thesis using c digit_not_space [of c] by (simp add: sign_of_def Cons)
qed simp

lemma sign_of_int_str: "sign_of (int_str i) = (i < 0, dec_str (nat \<bar>i\<bar>))"
proof (cases "i < 0")
  case True
  have "\<not> is_space (CHR ''-'')" by code_simp
  then show ?thesis using True by (simp add: sign_of_def int_str_def)
qed (simp add: int_str_def sign_of_dec_str)

lemma strtoll_int_str:
  assumes "- (2 ^ 63) \<le> i" and "i < 2 ^ 63"
  shows "strtoll (int_str i) = of_int i"
  using assms by (simp add: strtoll_def sign_of_int_str takeWhile_dec_str Let_def)

lemma strtoull_dec_str: "n < 2 ^ 64 \<Longrightarrow> strtoull (dec_str n) = of_nat n"
  by (simp add: strtoull_def sign_of_dec_str takeWhile_dec_str)

lemma sint_range64: "- (2 ^ 63) \<le> sint w \<and> sint w < 2 ^ 63" for w :: u64
  using sint_range_size [of w] by (simp add: word_size)

lemma sint_range32: "- (2 ^ 63) \<le> sint w \<and> sint w < 2 ^ 63" for w :: u32
  using sint_range_size [of w] by (simp add: word_size)

lemma parse_printed [simp]:
  "parse_int64_t (int_str (sint (i64 :: u64))) = i64"
  "parse_uint64_t (dec_str (unat (u :: u64))) = u"
  "parse_int32_t (int_str (sint (i32 :: u32))) = i32"
  "parse_uint32_t (dec_str (unat (v :: u32))) = v"
proof -
  show "parse_int64_t (int_str (sint i64)) = i64"
    using sint_range64 [of i64] by (simp add: parse_int64_t_def strtoll_int_str)
  show "parse_uint64_t (dec_str (unat u)) = u"
    using unsigned_less [of u, where ?'a = nat] by (simp add: parse_uint64_t_def strtoull_dec_str)
  have "(ucast (of_int (sint i32) :: u64) :: u32) = i32"
    by (rule bit_word_eqI) (simp add: bit_simps)
  then show "parse_int32_t (int_str (sint i32)) = i32"
    using sint_range32 [of i32] by (simp add: parse_int32_t_def strtoll_int_str)
  have "unat v < 2 ^ 64" using unsigned_less [of v, where ?'a = nat] by simp
  moreover have "(ucast (of_nat (unat v) :: u64) :: u32) = v"
    by (rule bit_word_eqI) (simp add: bit_simps)
  ultimately show "parse_uint32_t (dec_str (unat v)) = v"
    by (simp add: parse_uint32_t_def strtoull_dec_str)
qed

lemma parse_bool_printed [simp]: "parse_bool (if b then ''1'' else ''0'') = b"
  by (simp add: parse_bool_def)

end
