(* ===== verification/Compose.thy ===== *)
theory Compose
  imports Decompose TextNumber
begin

section \<open>Composing messages\<close>

text \<open>
  MessageComposer of messagecomposer.cpp, which asks a callback for the text of every field
  of a new message and sets the field to it, and its use by packet2message.cpp, whose
  callback evaluates the \<open>get\<close> expression of the field in the Javascript context of a
  packet.
\<close>

unbundle bit_operations_syntax

definition MAX_FLD_ALLOWED :: nat where
  "MAX_FLD_ALLOWED = 3000"

text \<open>
  The callbacks, over an environment. The field callback gets the message type, the type
  and number of the field, whether it is repeated, the index and the text so far, and
  returns whether there is more and the text.
\<close>

record 'v callbacks =
  cb_field :: "string \<Rightarrow> cpp_type \<Rightarrow> int \<Rightarrow> bool \<Rightarrow> int \<Rightarrow> string \<Rightarrow> 'v \<Rightarrow> (bool \<times> string \<times> 'v) result"
  cb_begin :: "field_desc option \<Rightarrow> 'v \<Rightarrow> 'v"
  cb_end :: "'v \<Rightarrow> 'v result"

text \<open>The default constructor leaves the callbacks null; setCallbacks replaces all three.\<close>

definition composer_default :: "'v callbacks option" where
  "composer_default = None"

definition setCallbacks :: "'v callbacks \<Rightarrow> 'v callbacks option \<Rightarrow> 'v callbacks option" where
  "setCallbacks cb old = Some cb"

subsection \<open>Fields\<close>

text \<open>
  The parsers of messagecomposer.cpp for the types that have one; \<open>atof\<close> and the conversion
  to float are those of the standard library. The text of a bytes field is coded first.
\<close>

definition parse_double :: "(string \<Rightarrow> u64) \<Rightarrow> string \<Rightarrow> u64" where
  "parse_double atof v = atof (c_string v)"

definition parse_float :: "(string \<Rightarrow> u64) \<Rightarrow> (u64 \<Rightarrow> u32) \<Rightarrow> string \<Rightarrow> u32" where
  "parse_float atof d2f v = d2f (atof (c_string v))"

definition set_text :: "'e runtime \<Rightarrow> field_desc \<Rightarrow> string \<Rightarrow> string \<times> pb_value" where
  "set_text rt fd val =
     (case fd_type fd of
        CPPTYPE_DOUBLE \<Rightarrow> (val, PDouble (parse_double (strtod rt) val))
      | CPPTYPE_FLOAT \<Rightarrow> (val, PFloat (parse_float (strtod rt) (double_to_float rt) val))
      | CPPTYPE_INT64 \<Rightarrow> (val, PInt64 (parse_int64_t val))
      | CPPTYPE_UINT64 \<Rightarrow> (val, PUInt64 (parse_uint64_t val))
      | CPPTYPE_INT32 \<Rightarrow> (val, PInt32 (parse_int32_t val))
      | CPPTYPE_UINT32 \<Rightarrow> (val, PUInt32 (parse_uint32_t val))
      | CPPTYPE_BOOL \<Rightarrow> (val, PBool (parse_bool val))
      | CPPTYPE_ENUM \<Rightarrow> (val, PEnum (parse_int32_t val))
      | _ \<Rightarrow> (let val' = (if fd_bytes fd then b64_encode (bytes_of_text val) else val)
              in (val', PString (bytes_of_text val'))))"

text \<open>
  The loops over a repeated field. Those of text and enum fields are left after
  MAX_FLD_ALLOWED + 1 elements, the others run as long as the callback says so: \<open>None\<close> is
  such a loop that has not ended with this fuel.
\<close>

fun add_loop :: "nat \<Rightarrow> bool \<Rightarrow> (int \<Rightarrow> string \<Rightarrow> 'v \<Rightarrow> (bool \<times> string \<times> 'v) result) \<Rightarrow> (string \<Rightarrow> string \<times> pb_value)
    \<Rightarrow> int \<Rightarrow> string \<Rightarrow> 'v \<Rightarrow> pb_value list \<Rightarrow> (pb_value list \<times> 'v) option result" where
  "add_loop 0 limited call conv i val env slot = (if limited then Inr (Some (slot, env)) else Inr None)"
| "add_loop (Suc k) limited call conv i val env slot =
     bindR (call i val env) (\<lambda>(more, val', env').
       if \<not> more then Inr (Some (slot, env'))
       else (case conv val' of
               (val'', x) \<Rightarrow> add_loop k limited call conv (i + 1) val'' env' (slot @ [x])))"

text \<open>The loop over a repeated message field composes the one element it has added again and again.\<close>

fun message_loop :: "nat \<Rightarrow> (pb_message \<Rightarrow> int \<Rightarrow> 'v \<Rightarrow> (bool \<times> pb_message \<times> 'v) option result)
    \<Rightarrow> int \<Rightarrow> pb_message \<Rightarrow> 'v \<Rightarrow> (pb_message \<times> 'v) option result" where
  "message_loop 0 again i m env = Inr (Some (m, env))"
| "message_loop (Suc k) again i m env =
     bindF (again m i env) (\<lambda>(more, m', env').
       if \<not> more then Inr (Some (m', env')) else message_loop k again (i + 1) m' env')"

definition composeField :: "nat \<Rightarrow> 'e runtime
    \<Rightarrow> (field_desc \<Rightarrow> pb_message \<Rightarrow> bool \<Rightarrow> int \<Rightarrow> 'v \<Rightarrow> (bool \<times> pb_message \<times> 'v) option result)
    \<Rightarrow> 'v callbacks \<Rightarrow> cache option \<Rightarrow> pool \<Rightarrow> string \<Rightarrow> field_desc \<Rightarrow> pb_value list \<Rightarrow> 'v
    \<Rightarrow> (pb_value list \<times> 'v) option result" where
  "composeField n rt again cb options pool t fd slot env =
     bindR (case options of None \<Rightarrow> Inr 0 | Some c \<Rightarrow> getIndex c t (fd_name fd)) (\<lambda>index.
       if fd_type fd = CPPTYPE_MESSAGE
       then (if fd_repeated fd
             then bindF (message_loop (MAX_FLD_ALLOWED + 1) (\<lambda>m i. again fd m True i) 0
                    (new_message pool (fd_message fd)) env)
                    (\<lambda>(m, env'). Inr (Some (slot @ [PMessage m], env')))
             else bindF (again fd
                      (case get_value pool fd slot of PMessage m \<Rightarrow> m | _ \<Rightarrow> new_message pool (fd_message fd)) False 0 env)
                    (\<lambda>(more, m, env'). Inr (Some ([PMessage m], env'))))
       else (let call = cb_field cb t (fd_type fd) (fd_number fd) (fd_repeated fd);
                 limited = (fd_type fd \<in> {CPPTYPE_STRING, CPPTYPE_ENUM})
             in if fd_repeated fd
                then add_loop (if limited then MAX_FLD_ALLOWED + 1 else n) limited call (set_text rt fd) 0 [] env slot
                else bindR (call 0 [] env) (\<lambda>(more, val, env').
                       Inr (Some ([snd (set_text rt fd val)], env')))))"

fun compose_fields :: "(field_desc \<Rightarrow> pb_value list \<Rightarrow> 'v \<Rightarrow> (pb_value list \<times> 'v) option result)
    \<Rightarrow> (field_desc \<times> pb_value list) list \<Rightarrow> 'v \<Rightarrow> (pb_value list list \<times> 'v) option result" where
  "compose_fields one [] env = Inr (Some ([], env))"
| "compose_fields one ((fd, slot) # rest) env =
     bindF (one fd slot env) (\<lambda>(slot', env').
     bindF (compose_fields one rest env') (\<lambda>(slots, env''). Inr (Some (slot' # slots, env''))))"

text \<open>
  A message: the begin callback, its fields, the end callback. Without a descriptor it
  returns before the end callback.
\<close>

primrec compose :: "nat \<Rightarrow> 'e runtime \<Rightarrow> 'v callbacks \<Rightarrow> cache option \<Rightarrow> pool
    \<Rightarrow> field_desc option \<Rightarrow> pb_message \<Rightarrow> bool \<Rightarrow> int \<Rightarrow> 'v \<Rightarrow> (bool \<times> pb_message \<times> 'v) option result" where
  "compose 0 rt cb options pool = (\<lambda>field m repeated index env. Inr None)"
| "compose (Suc n) rt cb options pool = (\<lambda>field m repeated index env.
     let env1 = cb_begin cb field env
     in case pool (pm_type m) of
          None \<Rightarrow> Inr (Some (False, m, env1))
        | Some md \<Rightarrow>
            bindF (compose_fields
                (\<lambda>fd. composeField (Suc n) rt (\<lambda>fd. compose n rt cb options pool (Some fd)) cb options pool (md_full_name md) fd)
                (zip (md_fields md) (pm_slots m)) env1)
              (\<lambda>(slots, env2). bindR (cb_end cb env2) (\<lambda>env3.
                 Inr (Some (repeated, PbMessage (pm_type m) slots, env3)))))"

definition composer_new :: "nat \<Rightarrow> 'e runtime \<Rightarrow> 'v callbacks \<Rightarrow> cache option \<Rightarrow> pool \<Rightarrow> pb_message \<Rightarrow> 'v
    \<Rightarrow> (pb_message \<times> 'v) option result" where
  "composer_new n rt cb options pool m env =
     bindF (compose n rt cb options pool None m False 0 env) (\<lambda>(more, m', env'). Inr (Some (m', env')))"

subsection \<open>The environment of a packet\<close>

record 'e parse_env =
  pe_packet :: bytes
  pe_options_cache :: cache
  pe_root :: "packet_variable option"
  pe_context :: "'e option"
  pe_fieldnames :: "string list"
  pe_tableAliases :: "(string, string) smap option"
  pe_fieldAliases :: "(string, string) smap option"
  pe_properties :: "(string, string) smap option"

definition parse_env_new :: "nat \<Rightarrow> 'e runtime \<Rightarrow> u64 \<Rightarrow> sockaddr option \<Rightarrow> sockaddr option \<Rightarrow> bytes \<Rightarrow> cache \<Rightarrow> string
    \<Rightarrow> (string, string) smap option \<Rightarrow> (string, string) smap option \<Rightarrow> (string, string) smap option
    \<Rightarrow> 'e parse_env option result" where
  "parse_env_new n rt t socket_src socket_dst packet optionscache force_message tableAliases fieldAliases properties =
     bindF (if force_message = [] then find1 n optionscache packet
            else bindR (getPacketVariable optionscache force_message) (\<lambda>(found, pv).
                   Inr (Some (found, pv, optionscache)))) (\<lambda>(found, pv, c).
       let env = (\<lambda>rootv js. \<lparr>pe_packet = packet, pe_options_cache = c, pe_root = rootv, pe_context = js,
                    pe_fieldnames = [], pe_tableAliases = tableAliases, pe_fieldAliases = fieldAliases,
                    pe_properties = properties\<rparr>)
       in if found
          then bindF (js_context_sockets n rt t c pv socket_src socket_dst packet) (\<lambda>e.
                 Inr (Some (env (Some pv) (Some e))))
          else Inr (Some (env None None)))"

definition getFullFieldName :: "'e parse_env \<Rightarrow> string" where
  "getFullFieldName env = join_with (CHR ''.'') (pe_fieldnames env)"

definition pushFieldName :: "string \<Rightarrow> 'e parse_env \<Rightarrow> 'e parse_env" where
  "pushFieldName field_name env = env\<lparr>pe_fieldnames := pe_fieldnames env @ [field_name]\<rparr>"

definition popFieldName :: "'e parse_env \<Rightarrow> 'e parse_env result" where
  "popFieldName env =
     (if pe_fieldnames env = [] then Inl OutOfBounds
      else Inr (env\<lparr>pe_fieldnames := butlast (pe_fieldnames env)\<rparr>))"

definition extractVariable :: "'e runtime \<Rightarrow> 'e \<Rightarrow> variable \<Rightarrow> string \<times> 'e" where
  "extractVariable rt e v =
     (case peval rt (v_get v) e of ((failed, r), e') \<Rightarrow> (if failed then [] else r, e'))"

text \<open>The field callback returns false whatever it finds.\<close>

definition oncomposefield :: "'e runtime \<Rightarrow> string \<Rightarrow> cpp_type \<Rightarrow> int \<Rightarrow> bool \<Rightarrow> int \<Rightarrow> string \<Rightarrow> 'e parse_env
    \<Rightarrow> (bool \<times> string \<times> 'e parse_env) result" where
  "oncomposefield rt t field_type field_number repeated index retval env =
     bindR (getPacketVariable (pe_options_cache env) t) (\<lambda>(found, pv).
       case getVariableByFieldNumber pv field_number of
         None \<Rightarrow> Inl NullPointer
       | Some v \<Rightarrow>
           (case pe_context env of
              None \<Rightarrow> Inl NullPointer
            | Some e \<Rightarrow>
                (case peval rt (v_get (snd v)) e of
                   ((failed, r), e') \<Rightarrow>
                     Inr (False, if failed then retval else r, env\<lparr>pe_context := Some e'\<rparr>))))"

definition onmessagebegin :: "field_desc option \<Rightarrow> 'e parse_env \<Rightarrow> 'e parse_env" where
  "onmessagebegin field env = pushFieldName (case field of None \<Rightarrow> [] | Some fd \<Rightarrow> fd_name fd) env"

definition onmessageend :: "'e parse_env \<Rightarrow> 'e parse_env result" where
  "onmessageend env = popFieldName env"

definition packet_callbacks :: "'e runtime \<Rightarrow> 'e parse_env callbacks" where
  "packet_callbacks rt =
     \<lparr>cb_field = oncomposefield rt, cb_begin = onmessagebegin, cb_end = onmessageend\<rparr>"

definition getMessageByName :: "pool \<Rightarrow> string \<Rightarrow> pb_message option" where
  "getMessageByName pool messageType =
     (case pool messageType of None \<Rightarrow> None | Some md \<Rightarrow> Some (new_message pool messageType))"

definition parsePacket :: "nat \<Rightarrow> 'e runtime \<Rightarrow> cache option \<Rightarrow> pool \<Rightarrow> 'e parse_env
    \<Rightarrow> (pb_message option \<times> 'e parse_env) option result" where
  "parsePacket n rt options pool env =
     (case pe_root env of
        None \<Rightarrow> Inr (Some (None, env))
      | Some pv \<Rightarrow>
          (case getMessageByName pool (pv_message_type pv) of
             None \<Rightarrow> Inr (Some (None, env))
           | Some m \<Rightarrow>
               bindF (composer_new n rt (packet_callbacks rt) options pool m env) (\<lambda>(m', env').
                 Inr (Some (Some m', env')))))"

subsection \<open>What the composer asks of its callbacks\<close>

lemma add_loop_stop:
  "call i val env = Inr (False, val', env') \<Longrightarrow> 0 < k \<Longrightarrow>
   add_loop k limited call conv i val env slot = Inr (Some (slot, env'))"
  by (cases k) auto

lemma value_type_set_text: "fd_type fd \<noteq> CPPTYPE_MESSAGE \<Longrightarrow> value_type (snd (set_text rt fd val)) = fd_type fd"
  by (cases "fd_type fd") (simp_all add: set_text_def value_type_def Let_def)

text \<open>
  The contract: in an environment of nesting depth \<open>k\<close> the field callback answers for every
  known field that there is nothing more, and keeps the depth; the begin callback goes one
  level down and the end callback one level up.
\<close>

locale field_source =
  fixes cb :: "'v callbacks"
    and good :: "nat \<Rightarrow> 'v \<Rightarrow> bool"
    and known :: "string \<Rightarrow> int \<Rightarrow> bool"
  assumes field_answer: "good k env \<Longrightarrow> known t number \<Longrightarrow>
      \<exists>val env'. cb_field cb t ty number repeated i s env = Inr (False, val, env') \<and> good k env'"
    and begin_deeper: "good k env \<Longrightarrow> good (Suc k) (cb_begin cb field env)"
    and end_higher: "good (Suc k) env \<Longrightarrow> \<exists>env'. cb_end cb env = Inr env' \<and> good k env'"
begin

definition knows_fields :: "pool \<Rightarrow> bool" where
  "knows_fields pool =
     (\<forall>t md. pool t = Some md \<longrightarrow>
        list_all (\<lambda>fd. fd_type fd \<noteq> CPPTYPE_MESSAGE \<longrightarrow> known (md_full_name md) (fd_number fd)) (md_fields md))"

text \<open>What a call of compose for a nested message promises.\<close>

definition nested_ok :: "pool \<Rightarrow> (string \<Rightarrow> nat) \<Rightarrow> nat
    \<Rightarrow> (field_desc \<Rightarrow> pb_message \<Rightarrow> bool \<Rightarrow> int \<Rightarrow> 'v \<Rightarrow> (bool \<times> pb_message \<times> 'v) option result) \<Rightarrow> bool" where
  "nested_ok pool rank n again =
     (\<forall>fd m repeated i env k. wt_message (Suc (rank (pm_type m))) pool m \<longrightarrow> rank (pm_type m) < n \<longrightarrow> good k env \<longrightarrow>
        (\<exists>m' env'. again fd m repeated i env = Inr (Some (repeated, m', env')) \<and>
           wt_message (Suc (rank (pm_type m))) pool m' \<and> pm_type m' = pm_type m \<and> good k env'))"

lemma message_loop_ok:
  assumes "nested_ok pool rank n again"
  shows "wt_message (Suc (rank (pm_type m))) pool m \<Longrightarrow> rank (pm_type m) < n \<Longrightarrow> good k env \<Longrightarrow>
    \<exists>m' env'. message_loop j (\<lambda>m i. again fd m True i) i m env = Inr (Some (m', env')) \<and>
      wt_message (Suc (rank (pm_type m))) pool m' \<and> pm_type m' = pm_type m \<and> good k env'"
proof (induction j arbitrary: i m env)
  case (Suc j)
  obtain m1 env1 where one: "again fd m True i env = Inr (Some (True, m1, env1))"
    "wt_message (Suc (rank (pm_type m))) pool m1" "pm_type m1 = pm_type m" "good k env1"
    using assms Suc.prems unfolding nested_ok_def by blast
  then obtain m2 env2 where "message_loop j (\<lambda>m i. again fd m True i) (i + 1) m1 env1 = Inr (Some (m2, env2))"
    "wt_message (Suc (rank (pm_type m))) pool m2" "pm_type m2 = pm_type m" "good k env2"
    using Suc.IH [of m1 env1 "i + 1"] Suc.prems(2) by auto
  then show ?case using one by auto
qed auto

lemma composeField_ok:
  assumes "ranked pool rank" and "pool t = Some md" and "fd \<in> set (md_fields md)"
    and "nested_ok pool rank (rank t) again" and "knows_fields pool" and "good k env"
    and "list_all (wt_value (rank t) pool fd) slot" and "fd_repeated fd \<or> length slot \<le> 1"
    and "\<exists>i. (case options of None \<Rightarrow> Inr 0 | Some c \<Rightarrow> getIndex c (md_full_name md) (fd_name fd)) = Inr i"
  shows "\<exists>slot' env'. composeField (Suc n) rt again cb options pool (md_full_name md) fd slot env = Inr (Some (slot', env')) \<and>
    list_all (wt_value (rank t) pool fd) slot' \<and> (fd_repeated fd \<or> length slot' \<le> 1) \<and> good k env'"
proof (cases "fd_type fd = CPPTYPE_MESSAGE")
  case True
  obtain md' where md': "pool (fd_message fd) = Some md'" and less: "rank (fd_message fd) < rank t"
    using ranked_field [OF assms(1-3) True] by blast
  have new: "wt_message (Suc (rank (fd_message fd))) pool (new_message pool (fd_message fd))"
    by (rule wt_new_message [where md = md']) (use md' in simp)
  have type_new: "pm_type (new_message pool (fd_message fd)) = fd_message fd"
    by (simp add: new_message_def)
  have up: "wt_value (rank t) pool fd (PMessage m')"
    if "wt_message (Suc (rank (fd_message fd))) pool m'" "pm_type m' = fd_message fd" for m'
    using that wt_message_mono [OF that(1)] less True by (simp add: wt_value_def value_type_def)
  show ?thesis
  proof (cases "fd_repeated fd")
    case rep: True
    obtain m' env' where "message_loop (MAX_FLD_ALLOWED + 1) (\<lambda>m i. again fd m True i) 0
        (new_message pool (fd_message fd)) env = Inr (Some (m', env'))"
      "wt_message (Suc (rank (fd_message fd))) pool m'" "pm_type m' = fd_message fd" "good k env'"
      using message_loop_ok [where m = "new_message pool (fd_message fd)" and k = k and env = env and fd = fd
          and j = "MAX_FLD_ALLOWED + 1" and i = 0, OF assms(4)] new type_new less assms(6)
      by (auto simp del: message_loop.simps)
    then show ?thesis using True rep up assms(7,9) by (auto simp: composeField_def simp del: message_loop.simps)
  next
    case False
    define m where "m = (case get_value pool fd slot of PMessage m \<Rightarrow> m | _ \<Rightarrow> new_message pool (fd_message fd))"
    have "wt_value (rank t) pool fd (get_value pool fd slot)"
      using wt_get_value [OF assms(7)] less md' by simp
    then have "wt_message (rank t) pool m" "pm_type m = fd_message fd"
      using True unfolding m_def wt_value_def value_type_def by (auto split: pb_value.splits)
    then have m: "wt_message (Suc (rank (pm_type m))) pool m" "pm_type m = fd_message fd"
      using wt_message_rank [OF assms(1)] by blast+
    then obtain m' env' where "again fd m False 0 env = Inr (Some (False, m', env'))"
      "wt_message (Suc (rank (fd_message fd))) pool m'" "pm_type m' = fd_message fd" "good k env'"
      using assms(4,6) less unfolding nested_ok_def by metis
    then show ?thesis using True False up assms(9) by (auto simp: composeField_def m_def)
  qed
next
  case False
  have known: "known (md_full_name md) (fd_number fd)"
    using assms(2,3,5) False by (auto simp: knows_fields_def list_all_iff)
  obtain val env' where call: "cb_field cb (md_full_name md) (fd_type fd) (fd_number fd) (fd_repeated fd) 0 [] env
      = Inr (False, val, env')" "good k env'"
    using field_answer [OF assms(6) known] by blast
  show ?thesis
  proof (cases "fd_repeated fd")
    case True
    then have "composeField (Suc n) rt again cb options pool (md_full_name md) fd slot env = Inr (Some (slot, env'))"
      using False assms(9) call(1) by (auto simp: composeField_def MAX_FLD_ALLOWED_def Let_def add_loop_stop)
    then show ?thesis using True assms(7) call(2) by blast
  next
    case single: False
    then have "composeField (Suc n) rt again cb options pool (md_full_name md) fd slot env =
        Inr (Some ([snd (set_text rt fd val)], env'))"
      using False assms(9) call(1) by (auto simp: composeField_def Let_def)
    then show ?thesis
      using False call(2) value_type_set_text [OF False, of rt val] by (simp add: wt_value_scalar)
  qed
qed

lemma compose_fields_ok:
  assumes "\<And>fd slot env. (fd, slot) \<in> set (zip fds slots) \<Longrightarrow> good k env \<Longrightarrow>
    \<exists>slot' env'. one fd slot env = Inr (Some (slot', env')) \<and> list_all (P fd) slot' \<and>
      (fd_repeated fd \<or> length slot' \<le> 1) \<and> good k env'"
    and "length slots = length fds" and "good k env"
  shows "\<exists>slots' env'. compose_fields one (zip fds slots) env = Inr (Some (slots', env')) \<and>
    slots_ok P fds slots' \<and> good k env'"
  using assms
proof (induction fds arbitrary: slots env)
  case (Cons fd fds)
  obtain slot rest where slots: "slots = slot # rest" using Cons.prems(2) by (cases slots) auto
  obtain slot' env1 where one: "one fd slot env = Inr (Some (slot', env1))" "list_all (P fd) slot'"
    "fd_repeated fd \<or> length slot' \<le> 1" "good k env1"
    using Cons.prems(1) [of fd slot env] Cons.prems(3) slots by auto
  obtain slots' env' where "compose_fields one (zip fds rest) env1 = Inr (Some (slots', env'))"
    "slots_ok P fds slots'" "good k env'"
    using Cons.IH [of rest env1] Cons.prems(1,2) slots one(4) by auto
  then show ?case using one slots by (intro exI [of _ "slot' # slots'"] exI [of _ env']) auto
qed simp

text \<open>Composing ends, and leaves a message well typed and the environment at its depth.\<close>

lemma compose_ok:
  assumes "ranked pool rank" and "knows_fields pool"
    and "\<And>t f. \<exists>i. (case options of None \<Rightarrow> Inr 0 | Some c \<Rightarrow> getIndex c t f) = Inr i"
  shows "nested_ok pool rank n (\<lambda>field. compose n rt cb options pool (h field))"
proof (induction n arbitrary: h)
  case (Suc n)
  show ?case unfolding nested_ok_def
  proof (intro allI impI)
    fix field m repeated i env k
    assume m: "wt_message (Suc (rank (pm_type m))) pool m" "rank (pm_type m) < Suc n" "good k env"
    then obtain md where md: "pool (pm_type m) = Some md"
      "slots_ok (wt_value (rank (pm_type m)) pool) (md_fields md) (pm_slots m)"
      by (auto simp: wt_message_Suc split: option.splits)
    have nested: "nested_ok pool rank (rank (pm_type m)) (\<lambda>fd. compose n rt cb options pool (Some fd))"
    proof -
      have "nested_ok pool rank n (\<lambda>fd. compose n rt cb options pool (Some fd))" by (rule Suc.IH)
      then show ?thesis using m(2) unfolding nested_ok_def by (meson less_Suc_eq_le less_le_trans)
    qed
    let ?one = "\<lambda>fd. composeField (Suc n) rt (\<lambda>fd. compose n rt cb options pool (Some fd)) cb options pool (md_full_name md) fd"
    have step: "\<exists>slot' env'. ?one fd slot e = Inr (Some (slot', env')) \<and>
        list_all (wt_value (rank (pm_type m)) pool fd) slot' \<and> (fd_repeated fd \<or> length slot' \<le> 1) \<and> good (Suc k) env'"
      if fs: "(fd, slot) \<in> set (zip (md_fields md) (pm_slots m))" and e: "good (Suc k) e" for fd slot e
    proof -
      have "fd \<in> set (md_fields md)" "list_all (wt_value (rank (pm_type m)) pool fd) slot"
        "fd_repeated fd \<or> length slot \<le> 1"
        using slots_ok_zip [OF md(2) fs] by auto
      then show ?thesis
        using composeField_ok [OF assms(1) md(1) _ nested assms(2) e] assms(3) by blast
    qed
    obtain slots env2 where slots:
      "compose_fields ?one (zip (md_fields md) (pm_slots m)) (cb_begin cb (h field) env) = Inr (Some (slots, env2))"
      "slots_ok (wt_value (rank (pm_type m)) pool) (md_fields md) slots" "good (Suc k) env2"
      using compose_fields_ok [where one = ?one and fds = "md_fields md" and slots = "pm_slots m"
          and P = "wt_value (rank (pm_type m)) pool" and k = "Suc k", OF step slots_ok_length [OF md(2)]
          begin_deeper [OF m(3)]] by blast
    obtain env3 where env3: "cb_end cb env2 = Inr env3" "good k env3" using end_higher [OF slots(3)] by blast
    have "compose (Suc n) rt cb options pool (h field) m repeated i env =
        Inr (Some (repeated, PbMessage (pm_type m) slots, env3))"
      using md(1) slots(1) env3(1) by simp
    moreover have "wt_message (Suc (rank (pm_type m))) pool (PbMessage (pm_type m) slots)"
      using md(1) slots(2) by (simp add: wt_message_Suc)
    ultimately show "\<exists>m' env'. compose (Suc n) rt cb options pool (h field) m repeated i env = Inr (Some (repeated, m', env')) \<and>
        wt_message (Suc (rank (pm_type m))) pool m' \<and> pm_type m' = pm_type m \<and> good k env'"
      using env3(2) by auto
  qed
qed (simp add: nested_ok_def)

end

subsection \<open>The metadata of a message type\<close>

lemma field_loop_lookup:
  "field_loop fds f vs nums idx = (vs', nums', idx') \<Longrightarrow> distinct (map fd_number fds) \<Longrightarrow>
   (\<forall>fd \<in> set fds. map_of nums (fd_number fd) = None) \<Longrightarrow>
   vs' = vs @ map (\<lambda>fd. (fd_name fd, fd_variable fd)) fds \<and>
   (\<forall>i < length fds. map_of nums' (fd_number (fds ! i)) = Some (f + int i)) \<and>
   (\<forall>k. k \<notin> fd_number ` set fds \<longrightarrow> map_of nums' k = map_of nums k)"
proof (induction fds f vs nums idx rule: field_loop.induct)
  case (2 fd fds f vs nums idx)
  let ?idx = "if sint (v_index (fd_variable fd)) \<noteq> 0 then smap_put (sint (v_index (fd_variable fd))) f idx else idx"
  have put: "map_of (smap_insert (fd_number fd) f nums) = (map_of nums)(fd_number fd \<mapsto> f)"
    using "2.prems"(3) by (simp add: smap_insert_def smap.get_put map_of_smap_put)
  have step: "field_loop fds (f + 1) (vs @ [(fd_name fd, fd_variable fd)]) (smap_insert (fd_number fd) f nums) ?idx
      = (vs', nums', idx')"
    using "2.prems"(1) by (simp add: Let_def)
  have other: "\<forall>g \<in> set fds. map_of (smap_insert (fd_number fd) f nums) (fd_number g) = None"
    using "2.prems"(2,3) by (auto simp: put image_iff)
  have ih: "vs' = (vs @ [(fd_name fd, fd_variable fd)]) @ map (\<lambda>fd. (fd_name fd, fd_variable fd)) fds"
    "\<forall>i < length fds. map_of nums' (fd_number (fds ! i)) = Some (f + 1 + int i)"
    "\<forall>k. k \<notin> fd_number ` set fds \<longrightarrow> map_of nums' k = map_of (smap_insert (fd_number fd) f nums) k"
    using "2.IH" [OF refl step _ other] "2.prems"(2) by auto
  have "map_of nums' (fd_number ((fd # fds) ! i)) = Some (f + int i)" if "i < length (fd # fds)" for i
    using ih(2,3) "2.prems"(2) that by (cases i) (auto simp: put)
  then show ?case using ih by (auto simp: put)
qed simp

lemma packet_variable_new_lookup:
  assumes "packet_variable_new fuel hash pd t = Inr (Some pv)" and "getMessageDescriptor pd t = Some md"
    and "distinct (map fd_number (md_fields md))" and "fd \<in> set (md_fields md)"
  shows "getVariableByFieldNumber pv (fd_number fd) = Some (fd_name fd, fd_variable fd)"
proof -
  obtain vs nums idx where l: "field_loop (md_fields md) 0 [] [] [] = (vs, nums, idx)" by (metis prod_cases3)
  then have pv: "pv_variables pv = vs" "pv_fieldNumbers pv = nums"
    using assms(1,2) by (auto simp: packet_variable_new_def Let_def)
  obtain i where i: "i < length (md_fields md)" "md_fields md ! i = fd"
    using assms(4) by (auto simp: in_set_conv_nth)
  have "vs = map (\<lambda>fd. (fd_name fd, fd_variable fd)) (md_fields md)" "map_of nums (fd_number fd) = Some (int i)"
    using field_loop_lookup [OF l assms(3)] i by auto
  then show ?thesis using i by (simp add: getVariableByFieldNumber_def pv)
qed

lemma add_all_lookup:
  "add_all fuel hash pd names m = Inr (Some m') \<Longrightarrow> t \<in> set names \<or>
     (\<exists>pv. map_of m t = Some pv \<and> packet_variable_new fuel hash pd t = Inr (Some pv)) \<Longrightarrow>
   \<exists>pv. map_of m' t = Some pv \<and> packet_variable_new fuel hash pd t = Inr (Some pv)"
proof (induction names arbitrary: m)
  case (Cons name names)
  obtain pv where pv: "packet_variable_new fuel hash pd name = Inr (Some pv)"
    "add_all fuel hash pd names (smap_put name pv m) = Inr (Some m')"
    using Cons.prems(1) by (auto split: option.splits)
  have "t \<in> set names \<or> (\<exists>q. map_of (smap_put name pv m) t = Some q \<and> packet_variable_new fuel hash pd t = Inr (Some q))"
    using Cons.prems(2) pv(1) by (auto simp: map_of_smap_put)
  then show ?case by (rule Cons.IH [OF pv(2)])
qed simp

lemma cache_new_lookup:
  assumes "cache_new fuel hash pd = Inr (Some c)" and "getMessageDescriptor pd t = Some md"
  shows "\<exists>pv. map_of (oc_variables c) t = Some pv \<and> packet_variable_new fuel hash pd t = Inr (Some pv)"
proof -
  obtain m where m: "add_all fuel hash pd (map fst pd) [] = Inr (Some m)" "oc_variables c = m"
    using assms(1) by (auto simp: cache_new_def addDeclarations_def)
  have "t \<in> set (map fst pd)"
    using assms(2) by (force simp: getMessageDescriptor_def dest: map_of_SomeD)
  then show ?thesis using add_all_lookup [OF m(1)] m(2) by blast
qed

subsection \<open>The callbacks of a packet\<close>

definition env_good :: "cache \<Rightarrow> nat \<Rightarrow> 'e parse_env \<Rightarrow> bool" where
  "env_good c k env = (pe_context env \<noteq> None \<and> length (pe_fieldnames env) = k \<and> pe_options_cache env = c)"

definition env_knows :: "cache \<Rightarrow> string \<Rightarrow> int \<Rightarrow> bool" where
  "env_knows c t number =
     (case map_of (oc_variables c) t of
        None \<Rightarrow> False
      | Some pv \<Rightarrow> getVariableByFieldNumber pv number \<noteq> None)"

lemma oncomposefield_answer:
  assumes "env_good c k env" and "env_knows c t number"
  shows "\<exists>val env'. oncomposefield rt t ty number repeated i s env = Inr (False, val, env') \<and> env_good c k env'"
proof -
  obtain pv v where "map_of (oc_variables c) t = Some pv" "getVariableByFieldNumber pv number = Some v"
    using assms(2) by (auto simp: env_knows_def split: option.splits)
  moreover obtain e where "pe_context env = Some e" using assms(1) by (auto simp: env_good_def)
  ultimately show ?thesis
    using assms(1) by (auto simp: oncomposefield_def getPacketVariable_def env_good_def split: prod.split)
qed

interpretation packet_source: field_source "packet_callbacks rt" "env_good c" "env_knows c"
proof unfold_locales
  show "\<exists>val env'. cb_field (packet_callbacks rt) t ty number repeated i s env = Inr (False, val, env') \<and> env_good c k env'"
    if "env_good c k env" "env_knows c t number" for k env t ty number repeated i s
    using oncomposefield_answer [OF that] by (simp add: packet_callbacks_def)
  show "env_good c (Suc k) (cb_begin (packet_callbacks rt) field env)" if "env_good c k env" for k env field
    using that by (simp add: packet_callbacks_def onmessagebegin_def pushFieldName_def env_good_def)
  show "\<exists>env'. cb_end (packet_callbacks rt) env = Inr env' \<and> env_good c k env'" if "env_good c (Suc k) env" for k env
    using that by (auto simp: packet_callbacks_def onmessageend_def popFieldName_def env_good_def)
qed

definition declarations_ok :: "declarations \<Rightarrow> bool" where
  "declarations_ok pd =
     list_all (\<lambda>(t, md). md_full_name md = t \<and> distinct (map fd_number (md_fields md)) \<and>
       length (md_fields md) < 2 ^ 64) pd"

lemma declarations_okD:
  "declarations_ok pd \<Longrightarrow> getMessageDescriptor pd t = Some md \<Longrightarrow>
   md_full_name md = t \<and> distinct (map fd_number (md_fields md)) \<and> length (md_fields md) < 2 ^ 64"
  by (auto simp: declarations_ok_def getMessageDescriptor_def list_all_iff dest!: map_of_SomeD)

lemma cache_knows_fields:
  assumes "cache_new fuel hash pd = Inr (Some c)" and "declarations_ok pd"
  shows "packet_source.knows_fields c (getMessageDescriptor pd)"
proof -
  have "env_knows c (md_full_name md) (fd_number fd)"
    if md: "getMessageDescriptor pd t = Some md" and fd: "fd \<in> set (md_fields md)" for t md fd
  proof -
    have ok: "md_full_name md = t" "distinct (map fd_number (md_fields md))"
      using declarations_okD [OF assms(2) md] by auto
    obtain pv where "map_of (oc_variables c) t = Some pv" "packet_variable_new fuel hash pd t = Inr (Some pv)"
      using cache_new_lookup [OF assms(1) md] by blast
    then show ?thesis
      using packet_variable_new_lookup [OF _ md ok(2) fd] by (simp add: env_knows_def ok(1))
  qed
  then show ?thesis by (simp add: packet_source.knows_fields_def list_all_iff)
qed

text \<open>A decimal text of a value, parsed as the composer does, is the value.\<close>

lemma set_plain_text:
  assumes "value_type v = fd_type fd" and "fd_type fd \<notin> {CPPTYPE_DOUBLE, CPPTYPE_FLOAT, CPPTYPE_MESSAGE}"
    and "\<not> fd_bytes fd"
  shows "snd (set_text rt fd (plain_text rt v)) = v"
proof -
  have bool: "parse_bool (plain_text rt (PBool b)) = b" for b
    by (simp add: plain_text_def)
  show ?thesis
    using assms by (cases v) (auto simp: set_text_def value_type_def plain_text_def bool [simplified plain_text_def])
qed

subsection \<open>Properties\<close>

text \<open>
  C5: With declarations in which no type contains itself and the options cache made of them,
  parsePacket returns a message of the packet's type that is well typed, whatever the
  expressions evaluate to, and every name pushed for a nested message is popped again.
\<close>

theorem parsePacket_total_and_typed:
  assumes "ranked (getMessageDescriptor pd) rank" and "declarations_ok pd"
    and "cache_new fuel hash pd = Inr (Some c)" and "env_good c 0 env"
    and "pe_root env = Some pv" and "getMessageDescriptor pd (pv_message_type pv) = Some md"
  shows "\<exists>m env'. parsePacket (Suc (rank (pv_message_type pv))) rt (Some c) (getMessageDescriptor pd) env =
      Inr (Some (Some m, env')) \<and> pm_type m = pv_message_type pv \<and>
    wt_message (Suc (rank (pv_message_type pv))) (getMessageDescriptor pd) m \<and> pe_fieldnames env' = []"
proof -
  let ?pool = "getMessageDescriptor pd" and ?t = "pv_message_type pv"
  have small: "length (md_fields md) < 2 ^ 64" if "?pool t = Some md" for t md
    using declarations_okD [OF assms(2) that] by blast
  have index: "\<exists>i. (case Some c of None \<Rightarrow> Inr 0 | Some c \<Rightarrow> getIndex c t f) = Inr i" for t f
    using key_index_ok [where t = t and fd = "example_field_desc 0 f CPPTYPE_BOOL [] False",
        OF cache_new_indexes_ok [OF assms(3) small]]
    by (simp add: key_index_def example_field_desc_def)
  have all: "packet_source.nested_ok c ?pool rank (Suc (rank ?t))
      (\<lambda>field. compose (Suc (rank ?t)) rt (packet_callbacks rt) (Some c) ?pool None)"
    by (rule packet_source.compose_ok [OF assms(1) cache_knows_fields [OF assms(3,2)] index])
  have type_new: "pm_type (new_message ?pool ?t) = ?t" by (simp add: new_message_def)
  have "wt_message (Suc (rank ?t)) ?pool (new_message ?pool ?t)"
    by (rule wt_new_message [where md = md]) (rule assms(6))
  then obtain m env' where
    "compose (Suc (rank ?t)) rt (packet_callbacks rt) (Some c) ?pool None (new_message ?pool ?t) False 0 env =
      Inr (Some (False, m, env'))" "pm_type m = ?t" "wt_message (Suc (rank ?t)) ?pool m" "env_good c 0 env'"
    using all assms(4) type_new unfolding packet_source.nested_ok_def by (metis lessI)
  then show ?thesis
    using assms(5,6) by (auto simp: parsePacket_def getMessageByName_def composer_new_def env_good_def
        simp del: compose.simps)
qed

definition example_env :: "cache \<Rightarrow> ((string \<times> jsval) list) parse_env" where
  "example_env c =
     \<lparr>pe_packet = [], pe_options_cache = c, pe_root = Some (packet_variable_default\<lparr>pv_message_type := ''t''\<rparr>),
      pe_context = Some [], pe_fieldnames = [], pe_tableAliases = None, pe_fieldAliases = None,
      pe_properties = None\<rparr>"

theorem parsePacket_total_and_typed_witness:
  "\<exists>c m env'. cache_new 9 (\<lambda>s. 7) example_declarations = Inr (Some c) \<and>
    parsePacket 2 path_runtime (Some c) (getMessageDescriptor example_declarations) (example_env c) =
      Inr (Some (Some m, env')) \<and> wt_message 2 (getMessageDescriptor example_declarations) m"
proof -
  obtain c where c: "cache_new 9 (\<lambda>s. 7) example_declarations = Inr (Some c)"
    using example_cache by blast
  have ok: "declarations_ok example_declarations"
    by (simp add: declarations_ok_def example_declarations_def example_field_desc_def)
  have ranked: "ranked (getMessageDescriptor example_declarations) example_rank"
    using example_ranked by (simp add: example_pool_def)
  have env: "env_good c 0 (example_env c)"
    "pe_root (example_env c) = Some (packet_variable_default\<lparr>pv_message_type := ''t''\<rparr>)"
    by (simp_all add: env_good_def example_env_def)
  have two: "Suc (example_rank (pv_message_type (packet_variable_default\<lparr>pv_message_type := ''t''\<rparr>))) = 2"
    by (simp add: example_rank_def)
  obtain md where "getMessageDescriptor example_declarations (pv_message_type (packet_variable_default\<lparr>pv_message_type := ''t''\<rparr>)) = Some md"
    by (simp add: getMessageDescriptor_def example_declarations_def)
  from parsePacket_total_and_typed [OF ranked ok c env this, of path_runtime, unfolded two]
  show ?thesis using c by blast
qed

text \<open>
  Composing undoes decomposing: the text toString makes of an integer, truth value, enum
  or text field is parsed to the same value.
\<close>

theorem compose_undoes_text:
  assumes "value_type v = fd_type fd" and "fd_type fd \<notin> {CPPTYPE_DOUBLE, CPPTYPE_FLOAT, CPPTYPE_MESSAGE}"
    and "\<not> fd_bytes fd" and "format_number < 0"
  shows "toString rt c \<lparr>ev_message = t, ev_field = fd, ev_value = passed fd v, ev_index = i\<rparr> format_number e =
      Inr (plain_text rt v, e) \<and>
    snd (set_text rt fd (plain_text rt v)) = v"
  using assms set_plain_text [OF assms(1-3)] by (cases v) (simp_all add: toString_def passed_def)

theorem compose_undoes_text_witness:
  "snd (set_text path_runtime (example_field_desc 1 ''a'' CPPTYPE_INT32 [] False) (plain_text path_runtime (PInt32 (- 5)))) =
     PInt32 (- 5)"
  using compose_undoes_text [of "PInt32 (- 5)" "example_field_desc 1 ''a'' CPPTYPE_INT32 [] False" "- 1"
      path_runtime "\<lparr>oc_variables = [], oc_declarations = []\<rparr>" "''t''" 0 "[]"]
  by (simp add: value_type_def example_field_desc_def)

subsection \<open>What composing loses\<close>

text \<open>The text of a bytes field is base64 already, and is coded once more.\<close>

theorem bytes_coded_twice:
  "fd_bytes fd \<Longrightarrow> fd_type fd = CPPTYPE_STRING \<Longrightarrow>
   snd (set_text rt fd (plain_text rt (passed fd (PString s)))) =
     PString (bytes_of_text (b64_encode (bytes_of_text (b64_encode s))))"
  by (simp add: set_text_def passed_def plain_text_def Let_def)

text \<open>The field callback never says that there is more: a repeated field stays empty.\<close>

theorem repeated_field_stays_empty:
  assumes "fd_repeated fd" and "fd_type fd \<noteq> CPPTYPE_MESSAGE" and "env_good c k env" and "env_knows c t (fd_number fd)"
  shows "\<exists>env'. composeField (Suc n) rt again (packet_callbacks rt) None pool t fd [] env = Inr (Some ([], env'))"
proof -
  obtain val env' where "oncomposefield rt t (fd_type fd) (fd_number fd) True 0 [] env = Inr (False, val, env')"
    using oncomposefield_answer [OF assms(3,4)] by blast
  then show ?thesis
    using assms(1,2)
    by (auto simp: composeField_def packet_callbacks_def Let_def MAX_FLD_ALLOWED_def add_loop_stop)
qed

text \<open>The one element of a repeated message field is composed 3001 times.\<close>

theorem repeated_message_composed_again:
  "message_loop (MAX_FLD_ALLOWED + 1) (\<lambda>m i n. Inr (Some (True, m, n + 1))) 0 m (0 :: int) = Inr (Some (m, 3001))"
proof -
  have "message_loop k (\<lambda>m i n. Inr (Some (True, m, n + 1))) i m j = Inr (Some (m, j + int k))" for k i and j :: int
    by (induction k arbitrary: i j) auto
  then show ?thesis by (simp add: MAX_FLD_ALLOWED_def del: message_loop.simps)
qed

end
