(* ===== verification/FieldsBack.thy ===== *)
theory FieldsBack
  imports Decompose TextNumber
begin

section \<open>From values back to the packet\<close>

text \<open>
  The static functions of messagedecomposer.cpp that write a packet: a value is assigned to
  a property of \<open>value\<close>, the \<open>set\<close> expression of its variable computes properties of
  \<open>field\<close>, and the fields of the packet are set to these properties.
\<close>

unbundle bit_operations_syntax

definition setJsValue :: "'e runtime \<Rightarrow> field_desc \<Rightarrow> string \<Rightarrow> 'e \<Rightarrow> 'e" where
  "setJsValue rt fd val e =
     (case peval rt (''value.'' @ fd_name fd @ '' = '' @ val) e of
        ((failed, r), e1) \<Rightarrow>
          if failed
          then snd (peval rt (''value.'' @ fd_name fd @ '' = '' @ [CHR 0x22] @ val @ [CHR 0x22]) e1)
          else e1)"

definition getJsField :: "'e runtime \<Rightarrow> string \<Rightarrow> 'e \<Rightarrow> string \<times> 'e" where
  "getJsField rt field_name e =
     (case peval rt (''field.'' @ field_name) e of ((failed, r), e') \<Rightarrow> (r, e'))"

definition setFieldsByVariable :: "'e runtime \<Rightarrow> cache \<Rightarrow> string \<Rightarrow> field_desc \<Rightarrow> string \<Rightarrow> 'e \<Rightarrow> 'e result" where
  "setFieldsByVariable rt c t fd val e =
     bindR (getPacketVariable c t) (\<lambda>(found, v).
       case getVariableByFieldNumber v (fd_number fd) of
         None \<Rightarrow> Inr e
       | Some f \<Rightarrow> Inr (snd (peval rt (v_set (snd f)) (setJsValue rt fd val e))))"

text \<open>The loop of INPUT_BYTES reads the bytes and changes nothing.\<close>

definition reflect_field :: "'e runtime \<Rightarrow> bytes \<Rightarrow> field \<Rightarrow> 'e \<Rightarrow> (bytes \<times> 'e) result" where
  "reflect_field rt packet f e =
     (case getJsField rt (f_name f) e of
        (vs, e') \<Rightarrow>
          bindR (case f_type f of
              INPUT_MESSAGE \<Rightarrow> Inr packet
            | INPUT_NONE \<Rightarrow> Inr packet
            | INPUT_CHAR \<Rightarrow> setFieldString packet f (string_object rt vs)
            | INPUT_STRING \<Rightarrow> setFieldString packet f (string_object rt vs)
            | INPUT_DOUBLE \<Rightarrow> setFieldDouble (double_to_float rt) packet f (strtod rt (c_string vs))
            | INPUT_BYTES \<Rightarrow> Inr packet
            | INPUT_INT \<Rightarrow> setFieldInt packet f (strtoll (c_string vs))
            | INPUT_UINT \<Rightarrow> setFieldUInt packet f (strtoull (c_string vs)))
            (\<lambda>r. Inr (r, e')))"

fun reflect_fields :: "'e runtime \<Rightarrow> field list \<Rightarrow> bytes \<Rightarrow> 'e \<Rightarrow> (bytes \<times> 'e) result" where
  "reflect_fields rt [] r e = Inr (r, e)"
| "reflect_fields rt (f # fs) r e = bindR (reflect_field rt r f e) (\<lambda>(r', e'). reflect_fields rt fs r' e')"

text \<open>One embedded message: its part of the packet is cut out, changed and put back.\<close>

definition reflect_nested :: "(packet_variable \<Rightarrow> bytes \<Rightarrow> 'e \<Rightarrow> (bytes \<times> 'e) option result)
    \<Rightarrow> cache \<Rightarrow> packet_variable \<Rightarrow> field_desc \<Rightarrow> bytes \<times> 'e \<Rightarrow> (bytes \<times> 'e) option result" where
  "reflect_nested again c pv fd re =
     (case re of (r, e) \<Rightarrow>
        if fd_type fd \<noteq> CPPTYPE_MESSAGE then Inr (Some (r, e))
        else bindR (getPacketVariable c (fd_message fd)) (\<lambda>(found, packet_var).
          let z = findFieldNumber pv fd
          in if z < 0 then Inr (Some (r, e))
             else
               (let fld = pk_fields (pv_packet pv) ! nat z;
                    stop = unat (f_offset fld + f_size fld)
                in bindR (substr r (unat (f_offset fld)) (unat (f_size fld))) (\<lambda>part.
                   bindF (again packet_var part e) (\<lambda>(field_packet, e').
                   bindR (substr r 0 (unat (f_offset fld))) (\<lambda>before.
                   bindR (substr r stop (length r)) (\<lambda>after.
                     Inr (Some (before @ field_packet @ after, e')))))))))"

primrec reflect_packet :: "nat \<Rightarrow> 'e runtime \<Rightarrow> cache \<Rightarrow> packet_variable \<Rightarrow> bytes \<Rightarrow> 'e \<Rightarrow> (bytes \<times> 'e) option result" where
  "reflect_packet 0 rt c = (\<lambda>pv packet e. Inr None)"
| "reflect_packet (Suc n) rt c = (\<lambda>pv packet e.
     bindR (reflect_fields rt (pk_fields (pv_packet pv)) packet e) (\<lambda>re.
       case getMessageDescriptor (oc_declarations c) (pv_message_type pv) of
         None \<Rightarrow> Inl NullPointer
       | Some md \<Rightarrow> push_nested_all (reflect_nested (reflect_packet n rt c) c pv) (md_fields md) re))"

subsection \<open>A packet and its field object\<close>

text \<open>
  What an engine documents of a property access: for a name that is an identifier, reading
  an integer property of \<open>field\<close> gives its decimal text and leaves the heap as it is.
\<close>

definition is_letter :: "char \<Rightarrow> bool" where
  "is_letter c = (let n = of_char c :: nat in 65 \<le> n \<and> n < 91 \<or> 97 \<le> n \<and> n < 123)"

definition plain_name :: "string \<Rightarrow> bool" where
  "plain_name s =
     (s \<noteq> [] \<and> \<not> is_digit (hd s) \<and>
      list_all (\<lambda>c. is_letter c \<or> c = CHR ''_'' \<or> is_digit c) s)"

definition reads_fields :: "'e runtime \<Rightarrow> bool" where
  "reads_fields rt =
     (\<forall>obj e name i. plain_name name \<longrightarrow> map_of obj name = Some (js_int i) \<longrightarrow> \<bar>i\<bar> < 2 ^ 53 \<longrightarrow>
        eval rt (''field.'' @ name) (put_global rt ''field'' (JObj obj) e) =
          ((False, int_str i), put_global rt ''field'' (JObj obj) e))"

lemma c_string_id: "CHR 0x00 \<notin> set s \<Longrightarrow> c_string s = s"
  by (auto simp: c_string_def takeWhile_eq_all_conv)

lemma plain_name_c_string:
  assumes "plain_name s"
  shows "c_string s = s" and "c_string (''field.'' @ s) = ''field.'' @ s"
proof -
  have "CHR 0x00 \<notin> set s"
    using assms by (auto simp: plain_name_def list_all_iff is_digit_def is_letter_def less_eq_char_def)
  then show "c_string s = s" "c_string (''field.'' @ s) = ''field.'' @ s"
    by (simp_all add: c_string_id)
qed

lemma getJsField_int:
  assumes "reads_fields rt" and "plain_name name" and "map_of obj name = Some (js_int i)" and "\<bar>i\<bar> < 2 ^ 53"
  shows "getJsField rt name (put_global rt ''field'' (JObj obj) e) =
    (int_str i, put_global rt ''field'' (JObj obj) e)"
  using assms plain_name_c_string(2) [OF assms(2)]
  unfolding reads_fields_def getJsField_def peval_def by simp

lemma push_uint_int: "\<exists>i. push_uint v = js_int i \<and> 0 \<le> i \<and> i < 2 ^ 32 \<and> i = int (unat (ucast v :: u32))"
  using unsigned_less [of "ucast v :: u32", where ?'a = int]
  by (simp add: push_uint_def)

lemma int_str_nat: "int_str (int n) = dec_str n"
  by (simp add: int_str_def)

lemma int_str_uint: "int_str (uint w) = dec_str (unat w)"
  by (simp add: int_str_def)

lemma dec_str_no_zero: "c_string (dec_str n) = dec_str n"
proof (rule c_string_id)
  show "CHR 0x00 \<notin> set (dec_str n)"
    using dec_str_digits [of n] by (auto simp: is_digit_def)
qed

text \<open>The bytes a number field of at most four bytes gets are the low bytes of the value.\<close>

lemma le_bytes_take_bit: "n \<le> 4 \<Longrightarrow> take n (le_bytes (take_bit 32 v)) = take n (le_bytes v)"
proof (rule nth_equalityI)
  fix i
  assume "n \<le> 4" and i: "i < length (take n (le_bytes (take_bit 32 v)))"
  then have "i < n" "i < 4" by simp_all
  then have "le_bytes (take_bit 32 v) ! i = le_bytes v ! i"
    by (intro bit_word_eqI) (auto simp: bit_le_bytes bit_simps)
  then show "take n (le_bytes (take_bit 32 v)) ! i = take n (le_bytes v) ! i"
    using \<open>i < n\<close> by simp
qed simp

definition number_field :: "nat \<Rightarrow> field \<Rightarrow> bool" where
  "number_field n f =
     (in_packet n f \<and> unat (f_size f) \<le> 4 \<and> f_type f \<in> {INPUT_UINT, INPUT_INT} \<and> plain_name (f_name f))"

lemma setFieldUInt_cut:
  assumes "number_field (length p) f"
  shows "setFieldUInt p f (take_bit 32 v) = setFieldUInt p f v"
  using assms setFieldUInt_in [of p f] by (simp add: number_field_def stored_def le_bytes_take_bit)

lemma of_nat_ucast32: "(of_nat (unat (ucast v :: u32)) :: u64) = take_bit 32 v"
proof -
  have "of_nat (unat (ucast v :: u32)) = (ucast (ucast v :: u32) :: u64)" by simp
  also have "\<dots> = take_bit 32 v" by (rule bit_word_eqI) (auto simp: bit_simps)
  finally show ?thesis .
qed

text \<open>The number that is written into a field: the one its property was made of.\<close>

definition field_number :: "bytes \<Rightarrow> field \<Rightarrow> u64" where
  "field_number p f =
     (case (if f_type f = INPUT_INT then extractFieldInt p f else extractFieldUInt p f) of
        Inr v \<Rightarrow> v | Inl e \<Rightarrow> 0)"

lemma extract_parts:
  assumes "in_packet (length p) f"
  obtains r where "extractField p f = Inr r" and "length r = unat (f_size f)"
  using extractField_in [OF assms] assms by (auto simp: in_packet_def)

lemma extract_numbers_ok:
  assumes "in_packet (length p) f"
  shows "isOk (extractFieldUInt p f)" and "isOk (extractFieldInt p f)"
proof -
  obtain r where r: "extractField p f = Inr r" and len: "length r = unat (f_size f)"
    using extract_parts [OF assms] .
  have ld: "load (unat (f_size f)) r = Inr (le_val r)" using len by (simp add: load_def)
  show "isOk (extractFieldUInt p f)"
    unfolding extractFieldUInt_def load_cases [OF assms] by (simp add: r ld)
  show "isOk (extractFieldInt p f)"
    using ld in_packet_words(2,3) [OF assms]
    by (cases "f_size f = 1"; cases "f_size f = 2"; cases "f_size f = 4"; cases "f_size f = 8")
       (simp_all add: extractFieldInt_def Let_def r)
qed

lemma field_number_js:
  assumes "number_field (length p) f"
  shows "field_js f2d p f = Inr (Some (js_int (uint (ucast (field_number p f) :: u32))))"
proof -
  have "in_packet (length p) f" using assms by (simp add: number_field_def)
  then obtain v w where "extractFieldUInt p f = Inr v" "extractFieldInt p f = Inr w"
    using extract_numbers_ok unfolding isOk_iff by blast
  then show ?thesis
    using assms by (auto simp: number_field_def field_js_def field_number_def push_uint_def)
qed

text \<open>Writing the fields back is writing these numbers, one field after the other.\<close>

lemma reflect_field_number:
  assumes "reads_fields rt" and "number_field (length p) f" and "number_field (length q) f"
    and "map_of obj (js_name f) = Some (js_int (uint (ucast (field_number p f) :: u32)))"
    and "e = put_global rt ''field'' (JObj obj) e0"
  shows "reflect_field rt q f e = bindR (setFieldUInt q f (field_number p f)) (\<lambda>r. Inr (r, e))"
proof -
  define w where "w = (ucast (field_number p f) :: u32)"
  have name: "js_name f = f_name f"
    using assms(2) plain_name_c_string(1) by (simp add: js_name_def number_field_def)
  have i: "uint w < 2 ^ 32" "0 \<le> uint w" using unsigned_less [of w, where ?'a = int] by simp_all
  have low: "- (2 ^ 63) \<le> uint w" using i(2) by (rule order_trans [rotated]) simp
  have n: "unat w < 2 ^ 64" using unsigned_less [of w, where ?'a = nat] by simp
  have "getJsField rt (f_name f) e = (dec_str (unat w), e)"
    using getJsField_int [OF assms(1), of "f_name f" obj "uint w" e0] assms(2,4,5) name i
    by (simp add: number_field_def int_str_uint w_def [symmetric])
  moreover have "strtoull (dec_str (unat w)) = take_bit 32 (field_number p f)"
    using strtoull_dec_str [OF n] of_nat_ucast32 [of "field_number p f"] by (simp add: w_def)
  moreover have "strtoll (dec_str (unat w)) = take_bit 32 (field_number p f)"
    using strtoll_int_str [OF low] i of_nat_ucast32 [of "field_number p f"]
    by (simp add: int_str_uint w_def)
  ultimately show ?thesis
    using assms(2) setFieldUInt_cut [OF assms(3), of "field_number p f"]
    by (auto simp: reflect_field_def number_field_def dec_str_no_zero setFieldInt_eq)
qed

lemma reflect_fields_numbers:
  assumes "reads_fields rt" and "e = put_global rt ''field'' (JObj obj) e0"
  shows "\<lbrakk>\<forall>f \<in> set fs. number_field (length p) f \<and>
      map_of obj (js_name f) = Some (js_int (uint (ucast (field_number p f) :: u32))); length q = length p\<rbrakk>
    \<Longrightarrow> reflect_fields rt fs q e =
      bindR (set_all setFieldUInt q (map (\<lambda>f. (f, field_number p f)) fs)) (\<lambda>r. Inr (r, e))"
proof (induction fs arbitrary: q)
  case (Cons f fs)
  have f: "number_field (length q) f" "in_packet (length q) f"
    using Cons.prems by (auto simp: number_field_def)
  obtain q' where q': "setFieldUInt q f (field_number p f) = Inr q'" "length q' = length q"
    using setFieldUInt_ok [OF f(2)] by blast
  have "reflect_field rt q f e = Inr (q', e)"
    using reflect_field_number [OF assms(1) _ f(1) _ assms(2), of p] Cons.prems q'(1) by simp
  then show ?case using Cons.IH [of q'] Cons.prems q' by simp
qed simp

lemma norm_field_number:
  assumes "number_field (length p) f"
  shows "extractFieldUInt p f = Inr (norm_uint f (field_number p f))"
proof -
  have f: "in_packet (length p) f" using assms by (simp add: number_field_def)
  obtain r where r: "extractField p f = Inr r" and len: "length r = unat (f_size f)"
    using extract_parts [OF f] .
  have ld: "load (unat (f_size f)) r = Inr (le_val r)" using len by (simp add: load_def)
  have u: "extractFieldUInt p f = Inr (le_val r)"
    unfolding extractFieldUInt_def load_cases [OF f] by (simp add: r ld)
  have low: "take_bit (8 * unat (f_size f)) (le_val r) = le_val r"
    using len by (intro bit_word_eqI) (auto simp: bit_simps bit_le_val div_less_iff_less_mult)
  show ?thesis
  proof (cases "f_type f = INPUT_INT")
    case True
    have "extractFieldInt p f = Inr (if f_size f = 1 then signed_take_bit 7 (le_val r)
        else if f_size f = 2 then signed_take_bit 15 (le_val r)
        else if f_size f = 4 then signed_take_bit 31 (le_val r) else le_val r)"
      using ld in_packet_words(2,3) [OF f]
      by (cases "f_size f = 1"; cases "f_size f = 2"; cases "f_size f = 4"; cases "f_size f = 8")
         (simp_all add: extractFieldInt_def Let_def r)
    moreover have "take_bit 8 (signed_take_bit 7 w) = take_bit 8 w"
      "take_bit 16 (signed_take_bit 15 w) = take_bit 16 w" "take_bit 32 (signed_take_bit 31 w) = take_bit 32 w"
      for w :: u64 by (simp_all add: take_bit_signed_take_bit)
    ultimately have "take_bit (8 * unat (f_size f)) (field_number p f) = take_bit (8 * unat (f_size f)) (le_val r)"
      using True by (auto simp: field_number_def)
    then show ?thesis by (simp add: u norm_uint_def low)
  qed (simp add: u norm_uint_def low field_number_def)
qed

subsection \<open>Properties\<close>

text \<open>
  C4: Take a packet whose fields are numbers of at most four bytes, signed or not, in any
  byte order, that lie apart, with identifiers as names, and the Javascript context made of
  it. Writing any other packet of the same length back from this context succeeds and gives
  every field the value it has in the first packet.
\<close>

theorem packet_rebuilt_from_context:
  assumes "reads_fields rt"
    and "getMessageDescriptor (oc_declarations c) (pv_message_type pv) = Some md"
    and "list_all (\<lambda>fd. fd_type fd \<noteq> CPPTYPE_MESSAGE) (md_fields md)"
    and "list_all (number_field (length packet)) (pk_fields (pv_packet pv))"
    and "distinct (map f_name (pk_fields (pv_packet pv)))"
    and "sorted_wrt (\<lambda>f g. apart g f) (pk_fields (pv_packet pv))"
    and "length other = length packet"
  shows "\<exists>e rebuilt. js_context_packet (Suc n) rt t c pv packet = Inr (Some e) \<and>
    reflect_packet (Suc k) rt c pv other e = Inr (Some (rebuilt, e)) \<and>
    list_all (\<lambda>f. extractFieldUInt rebuilt f = extractFieldUInt packet f) (pk_fields (pv_packet pv))"
proof -
  let ?fs = "pk_fields (pv_packet pv)" and ?f2d = "float_to_double rt"
  have num: "number_field (length packet) f" if "f \<in> set ?fs" for f
    using assms(4) that by (simp add: list_all_iff)
  obtain obj where obj: "push_fields ?f2d packet ?fs [] = Inr obj"
    using push_fields_ok [of ?fs ?f2d packet "[]"] field_number_js [OF num] by auto
  have "map js_name ?fs = map f_name ?fs"
    using num plain_name_c_string(1) by (auto simp: js_name_def number_field_def)
  then have names: "distinct (map js_name ?fs)" using assms(5) by (simp only:)
  have props: "map_of obj (js_name f) = Some (js_int (uint (ucast (field_number packet f) :: u32)))"
    if "f \<in> set ?fs" for f
    using push_fields_get [OF obj names that] field_number_js [OF num [OF that], of ?f2d] by auto
  define e where "e = put_global rt ''field'' (JObj obj) (js_time rt t)"
  have made: "js_context_packet (Suc n) rt t c pv packet = Inr (Some e)"
    using assms(2,3) by (simp add: js_context_packet_def obj push_nested_all_none e_def)
  have fvs: "list_all (\<lambda>(f, v). in_packet (length other) f) (map (\<lambda>f. (f, field_number packet f)) ?fs)"
    using num assms(7) by (auto simp: list_all_iff number_field_def)
  have "sorted_wrt (\<lambda>(f, v) (g, w). apart g f) (map (\<lambda>f. (f, field_number packet f)) ?fs)"
    using assms(6) by (simp add: sorted_wrt_map)
  from uint_store.get_set_all [OF fvs this] obtain rebuilt where
    r: "set_all setFieldUInt other (map (\<lambda>f. (f, field_number packet f)) ?fs) = Inr rebuilt"
    "list_all (\<lambda>f. extractFieldUInt rebuilt f = Inr (norm_uint f (field_number packet f))) ?fs"
    by (auto simp: list_all_iff)
  have "reflect_fields rt ?fs other e = Inr (rebuilt, e)"
    using reflect_fields_numbers [OF assms(1) e_def, of ?fs packet other] num props assms(7) r(1) by simp
  moreover have "push_nested_all (reflect_nested again c pv) (md_fields md) re = Inr (Some re)" for again re
  proof -
    have "push_nested_all (reflect_nested again c pv) fds re = Inr (Some re)"
      if "list_all (\<lambda>fd. fd_type fd \<noteq> CPPTYPE_MESSAGE) fds" for fds
      using that by (induction fds) (simp_all add: reflect_nested_def split: prod.splits)
    then show ?thesis using assms(3) .
  qed
  ultimately have "reflect_packet (Suc k) rt c pv other e = Inr (Some (rebuilt, e))"
    using assms(2) by simp
  then show ?thesis
    using made r(2) norm_field_number [OF num] by (auto simp: list_all_iff)
qed

lemma path_reads_fields: "reads_fields path_runtime"
  by (simp add: reads_fields_def path_runtime_def path_eval_def map_of_put_prop js_int_def)

definition example_packet_fields :: "field list" where
  "example_packet_fields =
     [\<lparr>f_name = ''a'', f_type = INPUT_UINT, f_endian = ENDIAN_BIG_ENDIAN, f_offset = 0, f_size = 2, f_tag = 0\<rparr>,
      \<lparr>f_name = ''b'', f_type = INPUT_INT, f_endian = ENDIAN_LITTLE_ENDIAN, f_offset = 2, f_size = 1, f_tag = 0\<rparr>]"

definition example_pv :: packet_variable where
  "example_pv = packet_variable_default
     \<lparr>pv_message_type := ''t'', pv_packet := \<lparr>pk_name = ''t'', pk_id = 0, pk_fields = example_packet_fields\<rparr>\<rparr>"

definition example_md :: descriptor where
  "example_md = \<lparr>md_full_name = ''t'', md_packet = None, md_fields = []\<rparr>"

definition small_cache :: cache where
  "small_cache = \<lparr>oc_variables = [], oc_declarations = [(''t'', example_md)]\<rparr>"

theorem packet_rebuilt_from_context_witness:
  "\<exists>e rebuilt. js_context_packet 1 path_runtime 0 small_cache example_pv [1, 2, 0xFF] = Inr (Some e) \<and>
    reflect_packet 1 path_runtime small_cache example_pv [0, 0, 0] e = Inr (Some (rebuilt, e)) \<and>
    list_all (\<lambda>f. extractFieldUInt rebuilt f = extractFieldUInt [1, 2, 0xFF] f) example_packet_fields"
proof -
  have pv: "pk_fields (pv_packet example_pv) = example_packet_fields" "pv_message_type example_pv = ''t''"
    by (simp_all add: example_pv_def)
  have ok: "list_all (number_field (Suc (Suc (Suc 0)))) example_packet_fields" "distinct (map f_name example_packet_fields)"
    "sorted_wrt (\<lambda>f g. apart g f) example_packet_fields"
    by (simp_all add: example_packet_fields_def number_field_def in_packet_def plain_name_def is_letter_def apart_def
        is_digit_def less_eq_char_def)
  show ?thesis
    using packet_rebuilt_from_context [OF path_reads_fields, of small_cache example_pv example_md
        "[1, 2, 0xFF]" "[0, 0, 0]" 0 0 0] ok
    by (simp add: pv small_cache_def getMessageDescriptor_def example_md_def)
qed

end
