(* ===== verification/JsMessage.thy ===== *)
theory JsMessage
  imports Decompose
begin

section \<open>The message as a Javascript object\<close>

text \<open>
  The part of messagedecomposer.cpp that puts a message into the global property \<open>value\<close>
  of a Javascript context, for the format expressions, and the two constructors.
\<close>

unbundle bit_operations_syntax

text \<open>
  The call for one value. Integers of 64 bits are cut to 32 by the engine's interface; the
  text of a string ends at its first zero.
\<close>

definition js_scalar :: "(u32 \<Rightarrow> u64) \<Rightarrow> field_desc \<Rightarrow> pb_value \<Rightarrow> jsval" where
  "js_scalar f2d fd v =
     (case v of
        PDouble w \<Rightarrow> JNum (number_of_double w)
      | PFloat w \<Rightarrow> JNum (number_of_double (f2d w))
      | PInt64 w \<Rightarrow> push_int w
      | PUInt64 w \<Rightarrow> push_uint w
      | PInt32 w \<Rightarrow> js_int (sint w)
      | PUInt32 w \<Rightarrow> js_int (uint w)
      | PBool b \<Rightarrow> JBool b
      | PString s \<Rightarrow> push_string (if fd_bytes fd then bytes_of_text (b64_encode s) else s)
      | PEnum w \<Rightarrow> js_int (sint w)
      | PMessage m \<Rightarrow> JUndefined)"

fun js_elements :: "(pb_message \<Rightarrow> jsval option result) \<Rightarrow> (u32 \<Rightarrow> u64) \<Rightarrow> field_desc \<Rightarrow> pb_value list
    \<Rightarrow> jsval option list option result" where
  "js_elements again f2d fd [] = Inr (Some [])"
| "js_elements again f2d fd (v # vs) =
     bindF (case v of PMessage m \<Rightarrow> again m | _ \<Rightarrow> Inr (Some (js_scalar f2d fd v))) (\<lambda>x.
     bindF (js_elements again f2d fd vs) (\<lambda>xs. Inr (Some (Some x # xs))))"

text \<open>
  The loop over a repeated enum field compares nothing: once there is an element it goes on
  behind the last one.
\<close>

definition addJavascriptField :: "(pb_message \<Rightarrow> jsval option result) \<Rightarrow> (u32 \<Rightarrow> u64) \<Rightarrow> pool
    \<Rightarrow> field_desc \<Rightarrow> pb_value list \<Rightarrow> (string \<times> jsval) list \<Rightarrow> (string \<times> jsval) list option result" where
  "addJavascriptField again f2d pool fd slot obj =
     bindF
       (if fd_repeated fd
        then (if fd_type fd = CPPTYPE_ENUM \<and> slot \<noteq> [] then Inl OutOfBounds
              else bindF (js_elements again f2d fd slot) (\<lambda>xs. Inr (Some (JArr xs))))
        else (case get_value pool fd slot of
                PMessage m \<Rightarrow> again m
              | v \<Rightarrow> Inr (Some (js_scalar f2d fd v))))
       (\<lambda>x. Inr (Some (put_prop (c_string (fd_name fd)) x obj)))"

definition addJavascriptFieldDefault :: "(pb_message \<Rightarrow> jsval option result) \<Rightarrow> (u32 \<Rightarrow> u64) \<Rightarrow> pool
    \<Rightarrow> field_desc \<Rightarrow> pb_value list \<Rightarrow> (string \<times> jsval) list \<Rightarrow> (string \<times> jsval) list option result" where
  "addJavascriptFieldDefault again f2d pool fd slot obj = addJavascriptField again f2d pool fd slot obj"

text \<open>In a proto3 file a field that is not repeated is optional.\<close>

fun js_fields :: "(pb_message \<Rightarrow> jsval option result) \<Rightarrow> (u32 \<Rightarrow> u64) \<Rightarrow> pool
    \<Rightarrow> (field_desc \<times> pb_value list) list \<Rightarrow> (string \<times> jsval) list \<Rightarrow> (string \<times> jsval) list option result" where
  "js_fields again f2d pool [] obj = Inr (Some obj)"
| "js_fields again f2d pool ((fd, slot) # rest) obj =
     bindF
       (if \<not> fd_repeated fd \<and> \<not> has_field pool fd slot
        then addJavascriptFieldDefault again f2d pool fd slot obj
        else addJavascriptField again f2d pool fd slot obj)
       (js_fields again f2d pool rest)"

text \<open>Without a descriptor nothing is pushed, and the engine fails on the next call.\<close>

primrec addJavascriptMessage :: "nat \<Rightarrow> (u32 \<Rightarrow> u64) \<Rightarrow> pool \<Rightarrow> pb_message \<Rightarrow> jsval option result" where
  "addJavascriptMessage 0 f2d pool = (\<lambda>m. Inr None)"
| "addJavascriptMessage (Suc n) f2d pool = (\<lambda>m.
     case pool (pm_type m) of
       None \<Rightarrow> Inl (Thrown ''invalid stack index'')
     | Some md \<Rightarrow>
         bindF (js_fields (addJavascriptMessage n f2d pool) f2d pool (zip (md_fields md) (pm_slots m)) [])
           (\<lambda>obj. Inr (Some (JObj obj))))"

subsection \<open>The constructors\<close>

text \<open>
  A decomposer in a given context, or in a new one when there is none. The result is the
  context and what decompose returns.
\<close>

definition decomposer_in_context :: "nat \<Rightarrow> 'e runtime \<Rightarrow> u64 \<Rightarrow> 'e option \<Rightarrow> cache option \<Rightarrow> pool \<Rightarrow> bool
    \<Rightarrow> pb_message \<Rightarrow> ('e \<times> int \<times> event list) option result" where
  "decomposer_in_context n rt t acontext options pool ondecompose m =
     (let e = (case acontext of Some e \<Rightarrow> e | None \<Rightarrow> js_context_default rt t)
      in bindF (addJavascriptMessage n (float_to_double rt) pool m) (\<lambda>v.
         bindF (decompose n options pool ondecompose m) (\<lambda>(r, evs).
           Inr (Some (put_global rt ''value'' v e, r, evs)))))"

definition decomposer_of_type :: "nat \<Rightarrow> (string \<Rightarrow> u64) \<Rightarrow> 'e runtime \<Rightarrow> u64 \<Rightarrow> string \<Rightarrow> cache \<Rightarrow> pool \<Rightarrow> bool
    \<Rightarrow> pb_message \<Rightarrow> ('e \<times> int \<times> event list) option result" where
  "decomposer_of_type n hash rt t messagetypename c pool ondecompose m =
     bindF (packet_variable_new n hash (oc_declarations c) messagetypename) (\<lambda>root.
     bindR (getEmptyPacket root) (\<lambda>packet.
     bindF (js_context_packet n rt t c root packet) (\<lambda>e.
     bindF (addJavascriptMessage n (float_to_double rt) pool m) (\<lambda>v.
     bindF (decompose n (Some c) pool ondecompose m) (\<lambda>(r, evs).
       Inr (Some (put_global rt ''value'' v e, r, evs)))))))"

subsection \<open>What the object holds\<close>

definition no_enum_lists :: "pool \<Rightarrow> bool" where
  "no_enum_lists pool =
     (\<forall>t md. pool t = Some md \<longrightarrow>
        list_all (\<lambda>fd. fd_repeated fd \<longrightarrow> fd_type fd \<noteq> CPPTYPE_ENUM) (md_fields md))"

definition js_key :: "field_desc \<Rightarrow> string" where
  "js_key fd = c_string (fd_name fd)"

definition js_names_differ :: "pool \<Rightarrow> bool" where
  "js_names_differ pool = (\<forall>t md. pool t = Some md \<longrightarrow> distinct (map js_key (md_fields md)))"

lemma js_elements_ok:
  "(\<And>m. PMessage m \<in> set vs \<Longrightarrow> \<exists>v. again m = Inr (Some v)) \<Longrightarrow> \<exists>xs. js_elements again f2d fd vs = Inr (Some xs)"
proof (induction vs)
  case (Cons v vs)
  then have "\<exists>xs. js_elements again f2d fd vs = Inr (Some xs)" by simp
  moreover have "\<exists>x. (case v of PMessage m \<Rightarrow> again m | _ \<Rightarrow> Inr (Some (js_scalar f2d fd v))) = Inr (Some x)"
    using Cons.prems by (cases v) auto
  ultimately show ?case by auto
qed simp

lemma addJavascriptField_ok:
  assumes "fd_repeated fd \<Longrightarrow> fd_type fd \<noteq> CPPTYPE_ENUM"
    and "\<And>m. PMessage m \<in> set (field_values pool fd slot) \<Longrightarrow> \<exists>v. again m = Inr (Some v)"
  shows "\<exists>x. addJavascriptField again f2d pool fd slot obj = Inr (Some (put_prop (c_string (fd_name fd)) x obj)) \<and>
    (\<not> fd_repeated fd \<longrightarrow> (\<forall>m. get_value pool fd slot \<noteq> PMessage m) \<longrightarrow> x = js_scalar f2d fd (get_value pool fd slot))"
proof (cases "fd_repeated fd")
  case True
  then obtain xs where "js_elements again f2d fd slot = Inr (Some xs)"
    using js_elements_ok [of slot again f2d fd] assms(2) by (auto simp: field_values_def)
  then show ?thesis
    using True assms(1) by (intro exI [of _ "JArr xs"]) (simp add: addJavascriptField_def)
next
  case False
  have "\<exists>v. again m = Inr (Some v)" if "get_value pool fd slot = PMessage m" for m
    using assms(2) [of m] that False by (simp add: field_values_def)
  then show ?thesis
    using False by (cases "get_value pool fd slot") (fastforce simp: addJavascriptField_def)+
qed

lemma js_fields_ok:
  assumes "\<And>fd slot obj. (fd, slot) \<in> set fss \<Longrightarrow>
    \<exists>x. addJavascriptField again f2d pool fd slot obj = Inr (Some (put_prop (js_key fd) x obj)) \<and> P fd slot x"
    and "distinct (map (js_key \<circ> fst) fss)" and "\<And>fd slot. (fd, slot) \<in> set fss \<Longrightarrow> js_key fd \<notin> fst ` set obj"
  shows "\<exists>obj'. js_fields again f2d pool fss obj = Inr (Some (obj @ obj')) \<and>
    list_all2 (\<lambda>(fd, slot) (k, x). k = js_key fd \<and> P fd slot x) fss obj'"
  using assms
proof (induction fss arbitrary: obj)
  case (Cons p fss)
  obtain fd slot where p: "p = (fd, slot)" by fastforce
  obtain x where x: "addJavascriptField again f2d pool fd slot obj = Inr (Some (put_prop (js_key fd) x obj))"
    "P fd slot x" using Cons.prems(1) [of fd slot obj] p by auto
  have new: "put_prop (js_key fd) x obj = obj @ [(js_key fd, x)]"
  proof -
    have "k \<notin> fst ` set m \<Longrightarrow> put_prop k x m = m @ [(k, x)]" for k and m :: "(string \<times> jsval) list"
      by (induction m) auto
    moreover have "js_key fd \<notin> fst ` set obj" using Cons.prems(3) [of fd slot] p by simp
    ultimately show ?thesis by blast
  qed
  have "js_key g \<notin> fst ` set (obj @ [(js_key fd, x)])" if "(g, s) \<in> set fss" for g s
  proof -
    have "(fd, slot) \<notin> set fss" "js_key g \<noteq> js_key fd" "js_key g \<notin> fst ` set obj"
      using Cons.prems(2) Cons.prems(3) [of g s] that p by (force simp: rev_image_eqI)+
    then show ?thesis by auto
  qed
  then obtain obj' where "js_fields again f2d pool fss (obj @ [(js_key fd, x)]) = Inr (Some ((obj @ [(js_key fd, x)]) @ obj'))"
    "list_all2 (\<lambda>(fd, slot) (k, x). k = js_key fd \<and> P fd slot x) fss obj'"
    using Cons.IH [of "obj @ [(js_key fd, x)]"] Cons.prems(1,2) by (auto simp: p)
  then have "js_fields again f2d pool (p # fss) obj = Inr (Some (obj @ ((js_key fd, x) # obj')))"
    by (simp add: p x new addJavascriptFieldDefault_def)
  moreover have "list_all2 (\<lambda>(fd, slot) (k, x). k = js_key fd \<and> P fd slot x) (p # fss) ((js_key fd, x) # obj')"
    using x(2) \<open>list_all2 _ fss obj'\<close> by (simp add: p)
  ultimately show ?case by blast
qed simp

text \<open>What the properties of an object have to do with the fields.\<close>

definition mirrors :: "(u32 \<Rightarrow> u64) \<Rightarrow> pool \<Rightarrow> field_desc \<times> pb_value list \<Rightarrow> string \<times> jsval \<Rightarrow> bool" where
  "mirrors f2d pool = (\<lambda>(fd, slot) (k, x). k = js_key fd \<and>
     (\<not> fd_repeated fd \<longrightarrow> (\<forall>m. get_value pool fd slot \<noteq> PMessage m) \<longrightarrow> x = js_scalar f2d fd (get_value pool fd slot)))"

lemma addJavascriptMessage_mirrors:
  assumes "ranked pool rank" and "no_enum_lists pool"
    and "js_names_differ pool"
  shows "wt_message d pool m \<Longrightarrow> rank (pm_type m) < n \<Longrightarrow> pool (pm_type m) = Some md \<Longrightarrow>
    \<exists>obj. addJavascriptMessage n f2d pool m = Inr (Some (JObj obj)) \<and>
      list_all2 (mirrors f2d pool) (zip (md_fields md) (pm_slots m)) obj"
proof (induction n arbitrary: d m md)
  case (Suc n)
  then obtain k where d: "d = Suc k" by (cases d) auto
  let ?fss = "zip (md_fields md) (pm_slots m)"
  define P where "P = (\<lambda>fd slot x. \<not> fd_repeated fd \<longrightarrow> (\<forall>m. get_value pool fd slot \<noteq> PMessage m) \<longrightarrow>
    x = js_scalar f2d fd (get_value pool fd slot))"
  have slots: "slots_ok (wt_value k pool) (md_fields md) (pm_slots m)"
    using Suc.prems(1,3) unfolding d wt_message_Suc by simp
  have step: "\<exists>x. addJavascriptField (addJavascriptMessage n f2d pool) f2d pool fd slot obj =
      Inr (Some (put_prop (js_key fd) x obj)) \<and> P fd slot x"
    if fs: "(fd, slot) \<in> set ?fss" for fd slot obj
  proof -
    have fd: "fd \<in> set (md_fields md)" "list_all (wt_value k pool fd) slot"
      using slots_ok_zip [OF slots fs] by auto
    have "\<exists>v. addJavascriptMessage n f2d pool m' = Inr (Some v)"
      if m': "PMessage m' \<in> set (field_values pool fd slot)" for m'
    proof -
      have "wt_value (Suc k) pool fd (PMessage m')"
        using wt_field_values [OF assms(1) Suc.prems(3) fd m'] .
      then have wt: "fd_type fd = CPPTYPE_MESSAGE" "pm_type m' = fd_message fd" "wt_message (Suc k) pool m'"
        by (simp_all add: wt_value_def value_type_def)
      then obtain md' where "pool (pm_type m') = Some md'"
        by (auto simp: wt_message_Suc split: option.splits)
      then show ?thesis
        using Suc.IH [OF wt(3)] ranked_field [OF assms(1) Suc.prems(3) fd(1)] wt(1,2) Suc.prems(2) by auto
    qed
    moreover have "fd_repeated fd \<Longrightarrow> fd_type fd \<noteq> CPPTYPE_ENUM"
      using assms(2) Suc.prems(3) fd(1) by (auto simp: no_enum_lists_def list_all_iff)
    ultimately show ?thesis
      using addJavascriptField_ok [of fd pool slot] unfolding P_def js_key_def by blast
  qed
  have "map (js_key \<circ> fst) ?fss = map js_key (map fst ?fss)" by simp
  also have "\<dots> = map js_key (md_fields md)"
    using slots_ok_length [OF slots] by (simp only: map_fst_zip)
  finally have "distinct (map (js_key \<circ> fst) ?fss)" using assms(3) Suc.prems(3) by (simp add: js_names_differ_def)
  from js_fields_ok [of ?fss _ f2d pool P "[]", OF step this] obtain obj where
    "js_fields (addJavascriptMessage n f2d pool) f2d pool ?fss [] = Inr (Some obj)"
    "list_all2 (\<lambda>(fd, slot) (k, x). k = js_key fd \<and> P fd slot x) ?fss obj" by auto
  moreover have "(\<lambda>(fd, slot) (k, x). k = js_key fd \<and> P fd slot x) = mirrors f2d pool"
    by (simp add: fun_eq_iff mirrors_def P_def)
  ultimately show ?case using Suc.prems(3) by simp
qed simp

subsection \<open>Properties\<close>

text \<open>
  In declarations without recursive types and repeated enum fields, and with different
  names for the fields of a type, every well-typed message becomes an object: it has one
  property for each field, in their order, and the property of a singular field that is no
  message is the number, text or truth value of the field, where integers of 64 bits are
  right if they fit into 32 bits.
\<close>

theorem message_object_mirrors_fields:
  assumes "ranked pool rank" and "no_enum_lists pool"
    and "js_names_differ pool"
    and "wt_message d pool m" and "pool (pm_type m) = Some md"
  shows "\<exists>obj. addJavascriptMessage (Suc (rank (pm_type m))) f2d pool m = Inr (Some (JObj obj)) \<and>
    map fst obj = map js_key (md_fields md) \<and>
    (\<forall>i < length obj. \<forall>w. \<not> fd_repeated (md_fields md ! i) \<longrightarrow>
       get_value pool (md_fields md ! i) (pm_slots m ! i) = PInt64 w \<longrightarrow> - (2 ^ 31) \<le> sint w \<longrightarrow> sint w < 2 ^ 31 \<longrightarrow>
       snd (obj ! i) = js_int (sint w)) \<and>
    (\<forall>i < length obj. \<not> fd_repeated (md_fields md ! i) \<longrightarrow>
       (\<forall>m'. get_value pool (md_fields md ! i) (pm_slots m ! i) \<noteq> PMessage m') \<longrightarrow>
       snd (obj ! i) = js_scalar f2d (md_fields md ! i) (get_value pool (md_fields md ! i) (pm_slots m ! i)))"
proof -
  let ?fss = "zip (md_fields md) (pm_slots m)"
  obtain k where d: "d = Suc k" using assms(4) by (cases d) auto
  have len: "length (pm_slots m) = length (md_fields md)"
    using assms(4,5) slots_ok_length unfolding d wt_message_Suc by fastforce
  obtain obj where obj: "addJavascriptMessage (Suc (rank (pm_type m))) f2d pool m = Inr (Some (JObj obj))"
    "list_all2 (mirrors f2d pool) ?fss obj"
    using addJavascriptMessage_mirrors [OF assms(1-3) assms(4) lessI assms(5)] by blast
  have length: "length obj = length (md_fields md)"
    using list_all2_lengthD [OF obj(2)] len by simp
  have elem: "fst (obj ! i) = js_key (md_fields md ! i) \<and>
      (\<not> fd_repeated (md_fields md ! i) \<longrightarrow>
       (\<forall>m'. get_value pool (md_fields md ! i) (pm_slots m ! i) \<noteq> PMessage m') \<longrightarrow>
       snd (obj ! i) = js_scalar f2d (md_fields md ! i) (get_value pool (md_fields md ! i) (pm_slots m ! i)))"
    if "i < length obj" for i
    using list_all2_nthD2 [OF obj(2) that] that len length by (auto simp: mirrors_def split: prod.splits)
  then have "map fst obj = map js_key (md_fields md)"
    using length by (intro nth_equalityI) simp_all
  then show ?thesis
    using obj(1) elem by (auto simp: js_scalar_def push_int_small)
qed

theorem message_object_mirrors_fields_witness:
  "\<exists>obj. addJavascriptMessage 2 ucast example_pool example_message = Inr (Some (JObj obj)) \<and>
    map fst obj = map js_key (md_fields (the (example_pool (pm_type example_message))))"
proof -
  have all: "list_all (\<lambda>(t, md). distinct (map js_key (md_fields md)) \<and>
      list_all (\<lambda>fd. fd_repeated fd \<longrightarrow> fd_type fd \<noteq> CPPTYPE_ENUM) (md_fields md)) example_declarations"
    by code_simp
  have "(t, md) \<in> set example_declarations" if "example_pool t = Some md" for t md
    using that by (auto simp: example_pool_def getMessageDescriptor_def dest: map_of_SomeD)
  with all have names: "js_names_differ example_pool" "no_enum_lists example_pool"
    unfolding js_names_differ_def no_enum_lists_def list_all_iff by blast+
  have two: "Suc (example_rank (pm_type example_message)) = 2"
    by (simp add: example_rank_def example_message_def)
  obtain md where md: "example_pool (pm_type example_message) = Some md"
    using example_message_wt by (auto simp: numeral_2_eq_2 wt_message_Suc split: option.splits)
  show ?thesis
    using message_object_mirrors_fields [OF example_ranked names(2,1) example_message_wt md, of ucast, unfolded two] md
    by (auto simp del: addJavascriptMessage.simps)
qed

text \<open>A 64-bit integer that does not fit is cut.\<close>

theorem wide_integer_cut: "js_scalar f2d fd (PInt64 (2 ^ 32)) = js_int 0"
  by (simp add: js_scalar_def push_int_def)

text \<open>A repeated enum field that is not empty is read behind its end.\<close>

theorem enum_list_out_of_bounds:
  "fd_repeated fd \<Longrightarrow> fd_type fd = CPPTYPE_ENUM \<Longrightarrow> slot \<noteq> [] \<Longrightarrow>
   addJavascriptField again f2d pool fd slot obj = Inl OutOfBounds"
  by (simp add: addJavascriptField_def)

end
