(* ===== verification/SqlText.thy ===== *)
theory SqlText
  imports Message
begin

section \<open>Names and values as text\<close>

text \<open>
  fieldnamevalueindexstrings.cpp: the list of field names and values of a decomposed
  message, and the SQL statements, CSV and tab delimited lines and JSON objects it is
  printed as; getStatementSQLCreate of protobuf-declarations.cpp. Aliases and properties
  are std::map, a null pointer is \<open>None\<close>.
\<close>

type_synonym names = "(string, string) smap"

subsection \<open>Separated lists\<close>

text \<open>
  The loops that print a separator when the counter of printed items is not zero, and pass
  over the items that have an empty alias.
\<close>

fun listed :: "string \<Rightarrow> ('a \<Rightarrow> string option) \<Rightarrow> 'a list \<Rightarrow> nat \<Rightarrow> string \<times> nat" where
  "listed sep item [] n = ([], n)"
| "listed sep item (x # xs) n =
     (case item x of
        None \<Rightarrow> listed sep item xs n
      | Some s \<Rightarrow>
          (case listed sep item xs (n + 1) of
             (rest, k) \<Rightarrow> ((if n \<noteq> 0 then sep else []) @ s @ rest, k)))"

text \<open>What these loops make: the items with the separator between them.\<close>

fun sep_by :: "string \<Rightarrow> string list \<Rightarrow> string" where
  "sep_by sep [] = []"
| "sep_by sep [s] = s"
| "sep_by sep (s # t # ss) = s @ sep @ sep_by sep (t # ss)"

lemma sep_by_Cons: "sep_by sep (s # ss) = s @ concat (map (\<lambda>t. sep @ t) ss)"
  by (induction ss arbitrary: s) auto

lemma listed_count: "snd (listed sep item xs n) = n + length (List.map_filter item xs)"
  by (induction sep item xs n rule: listed.induct)
     (auto simp: List.map_filter_simps split: option.splits prod.splits)

lemma listed_later:
  "n \<noteq> 0 \<Longrightarrow> fst (listed sep item xs n) = concat (map (\<lambda>s. sep @ s) (List.map_filter item xs))"
  by (induction sep item xs n rule: listed.induct)
     (auto simp: List.map_filter_simps split: option.splits prod.splits)

lemma listed_first: "fst (listed sep item xs 0) = sep_by sep (List.map_filter item xs)"
proof (induction xs)
  case (Cons x xs)
  then show ?case
    using listed_later [of 1 sep item xs]
    by (auto simp: List.map_filter_simps sep_by_Cons split: option.splits prod.splits)
qed (simp add: List.map_filter_simps)

lemma sep_by_two:
  "sep_by sep (xs @ ys) = sep_by sep xs @ (if xs \<noteq> [] \<and> ys \<noteq> [] then sep else []) @ sep_by sep ys"
  by (cases xs; cases ys) (auto simp: sep_by_Cons)

lemma listed_second:
  "fst (listed sep item xs n) =
     (if n \<noteq> 0 \<and> List.map_filter item xs \<noteq> [] then sep else []) @ sep_by sep (List.map_filter item xs)"
proof (cases "n = 0")
  case False
  then show ?thesis
    by (cases "List.map_filter item xs") (simp_all add: listed_later sep_by_Cons)
qed (simp add: listed_first)

lemma map_filter_all: "List.map_filter (\<lambda>x. Some (f x)) xs = map f xs"
  by (simp add: List.map_filter_def comp_def)

subsection \<open>FieldNameValueString and FieldNameValueIndexStrings\<close>

record name_value =
  nv_index :: int
  nv_field_type :: cpp_type
  nv_field :: string
  nv_value :: string
  nv_sql_string :: bool

record index_strings =
  is_table :: string
  is_index2values :: "u64 list"
  is_string_quote :: string
  is_quote :: string
  is_values :: "name_value list"

definition squote :: string where "squote = [CHR 0x27]"
definition dquote :: string where "dquote = [CHR 0x22]"
definition endl :: string where "endl = [CHR 0x0A]"

definition name_value_new :: "int \<Rightarrow> cpp_type \<Rightarrow> bool \<Rightarrow> string \<Rightarrow> string \<Rightarrow> name_value" where
  "name_value_new idx fieldtype sqlstring fld val =
     \<lparr>nv_index = idx, nv_field_type = fieldtype, nv_field = fld, nv_value = val, nv_sql_string = sqlstring\<rparr>"

definition name_value_copy :: "name_value \<Rightarrow> name_value" where
  "name_value_copy v =
     \<lparr>nv_index = nv_index v, nv_field_type = nv_field_type v, nv_field = nv_field v,
      nv_value = nv_value v, nv_sql_string = nv_sql_string v\<rparr>"

definition index_strings_default :: index_strings where
  "index_strings_default =
     \<lparr>is_table = [], is_index2values = [], is_string_quote = squote, is_quote = dquote, is_values = []\<rparr>"

text \<open>The constructors that ask the cache for the message id, which can add an entry to it.\<close>

definition index_strings_quoted :: "cache \<Rightarrow> string \<Rightarrow> string \<Rightarrow> string \<Rightarrow> index_strings \<times> cache" where
  "index_strings_quoted c message_name astring_quote aquote =
     (case getMessageId c message_name of
        (mid, c') \<Rightarrow>
          (\<lparr>is_table = message_name, is_index2values = [mid], is_string_quote = astring_quote,
            is_quote = aquote, is_values = []\<rparr>, c'))"

definition index_strings_new :: "cache \<Rightarrow> string \<Rightarrow> index_strings \<times> cache" where
  "index_strings_new c message_name =
     (case getMessageId c message_name of
        (mid, c') \<Rightarrow>
          (\<lparr>is_table = message_name, is_index2values = [mid], is_string_quote = squote,
            is_quote = dquote, is_values = []\<rparr>, c'))"

definition index_strings_copy :: "index_strings \<Rightarrow> index_strings" where
  "index_strings_copy v =
     \<lparr>is_table = is_table v, is_index2values = is_index2values v,
      is_string_quote = is_string_quote v, is_quote = is_quote v, is_values = is_values v\<rparr>"

text \<open>The assignment operator returns a copy and leaves its left side as it is.\<close>

definition index_strings_assign :: "index_strings \<Rightarrow> index_strings \<Rightarrow> index_strings \<times> index_strings" where
  "index_strings_assign this v = (this, index_strings_copy v)"

definition is_add :: "field_desc \<Rightarrow> string \<Rightarrow> int \<Rightarrow> bool \<Rightarrow> index_strings \<Rightarrow> index_strings" where
  "is_add fd val index allow_quotes s =
     (let i2v = is_index2values s;
          i2v' = (if 0 < index
                  then (let grown = (if int (length i2v) \<le> index
                                     then i2v @ replicate (nat index + 1 - length i2v) 0 else i2v)
                        in grown[nat index := of_nat (length (is_values s))])
                  else i2v);
          sql = (if allow_quotes then v_sql_string (fd_variable fd) else False)
      in s\<lparr>is_index2values := i2v',
           is_values := is_values s @ [name_value_new index (fd_type fd) sql (fd_full_name fd) val]\<rparr>)"

definition findAlias :: "names option \<Rightarrow> string \<Rightarrow> string" where
  "findAlias aliases name =
     (case aliases of
        None \<Rightarrow> name
      | Some m \<Rightarrow> (case map_of m name of Some a \<Rightarrow> a | None \<Rightarrow> name))"

subsection \<open>SQL\<close>

definition SQL_POSTGRESQL :: int where "SQL_POSTGRESQL = 0"
definition SQL_MYSQL :: int where "SQL_MYSQL = 1"
definition SQL_FIREBIRD :: int where "SQL_FIREBIRD = 2"
definition SQL_SQLITE :: int where "SQL_SQLITE = 3"

definition PROPERTY_INT_TIME :: string where "PROPERTY_INT_TIME = ''received''"

text \<open>The numbers of the enumeration, which the code compares.\<close>

fun cpp_number :: "cpp_type \<Rightarrow> nat" where
  "cpp_number CPPTYPE_INT32 = 1"
| "cpp_number CPPTYPE_INT64 = 2"
| "cpp_number CPPTYPE_UINT32 = 3"
| "cpp_number CPPTYPE_UINT64 = 4"
| "cpp_number CPPTYPE_DOUBLE = 5"
| "cpp_number CPPTYPE_FLOAT = 6"
| "cpp_number CPPTYPE_BOOL = 7"
| "cpp_number CPPTYPE_ENUM = 8"
| "cpp_number CPPTYPE_STRING = 9"
| "cpp_number CPPTYPE_MESSAGE = 10"

definition sql_quote :: "int \<Rightarrow> string" where
  "sql_quote sqlDialect = (if sqlDialect = SQL_MYSQL then ''`'' else dquote)"

definition quoted :: "string \<Rightarrow> string \<Rightarrow> string" where
  "quoted q s = q @ s @ q"

definition column_name :: "names option \<Rightarrow> string \<Rightarrow> name_value \<Rightarrow> string option" where
  "column_name fieldAliases q v =
     (let fieldName = findAlias fieldAliases (nv_field v)
      in if fieldName = [] then None else Some (quoted q fieldName))"

definition value_literal :: "string \<Rightarrow> name_value \<Rightarrow> string" where
  "value_literal q v =
     (if cpp_number CPPTYPE_STRING \<le> cpp_number (nv_field_type v) \<or> \<not> isNumber (nv_value v)
      then quoted q (nv_value v) else nv_value v)"

definition column_value :: "names option \<Rightarrow> string \<Rightarrow> name_value \<Rightarrow> string option" where
  "column_value fieldAliases q v =
     (if findAlias fieldAliases (nv_field v) = [] then None else Some (value_literal q v))"

definition property_literal :: "string \<Rightarrow> string \<times> string \<Rightarrow> string" where
  "property_literal q p =
     (if fst p = PROPERTY_INT_TIME \<and> isNumber (snd p) then snd p else quoted q (snd p))"

definition prop_list :: "names option \<Rightarrow> names" where
  "prop_list properties = (case properties of None \<Rightarrow> [] | Some m \<Rightarrow> m)"

definition toStringInsert :: "index_strings \<Rightarrow> names option \<Rightarrow> names option \<Rightarrow> names option \<Rightarrow> int
    \<Rightarrow> string list \<Rightarrow> string list" where
  "toStringInsert s tableAliases fieldAliases properties sqlDialect stmts =
     (let tableName = findAlias tableAliases (is_table s);
          q = sql_quote sqlDialect;
          names = listed '', '' (column_name fieldAliases q) (is_values s) 0;
          pnames = listed '', '' (\<lambda>p. Some (quoted q (fst p))) (prop_list properties) (snd names);
          vals = listed '', '' (column_value fieldAliases (is_string_quote s)) (is_values s) 0;
          pvals = listed '', '' (\<lambda>p. Some (property_literal (is_string_quote s) p))
                    (prop_list properties) (snd vals)
      in if tableName = [] then stmts
         else if snd pnames = 0 then stmts
         else stmts @
           [''INSERT INTO '' @ q @ replace tableName ''.'' ''_'' @ q @ ''('' @ fst names @ fst pnames
              @ '') VALUES ('' @ fst vals @ fst pvals @ '');'' @ endl])"

definition getSqlDialectTypeName :: "cpp_type \<Rightarrow> int \<Rightarrow> string" where
  "getSqlDialectTypeName fieldType sqldialect =
     (if sqldialect = SQL_SQLITE then
        (case fieldType of
           CPPTYPE_INT32 \<Rightarrow> ''integer'' | CPPTYPE_INT64 \<Rightarrow> ''integer''
         | CPPTYPE_UINT32 \<Rightarrow> ''integer'' | CPPTYPE_UINT64 \<Rightarrow> ''integer''
         | CPPTYPE_FLOAT \<Rightarrow> ''double'' | CPPTYPE_DOUBLE \<Rightarrow> ''double''
         | CPPTYPE_BOOL \<Rightarrow> ''integer'' | CPPTYPE_ENUM \<Rightarrow> ''integer''
         | _ \<Rightarrow> ''TEXT'')
      else if sqldialect = SQL_MYSQL then
        (case fieldType of
           CPPTYPE_INT32 \<Rightarrow> ''int'' | CPPTYPE_INT64 \<Rightarrow> ''bigint''
         | CPPTYPE_UINT32 \<Rightarrow> ''int unsigned'' | CPPTYPE_UINT64 \<Rightarrow> ''bigint unsigned''
         | CPPTYPE_FLOAT \<Rightarrow> ''float'' | CPPTYPE_DOUBLE \<Rightarrow> ''double''
         | CPPTYPE_BOOL \<Rightarrow> ''int'' | CPPTYPE_ENUM \<Rightarrow> ''int''
         | _ \<Rightarrow> ''TEXT'')
      else if sqldialect = SQL_POSTGRESQL then
        (case fieldType of
           CPPTYPE_INT32 \<Rightarrow> ''integer'' | CPPTYPE_INT64 \<Rightarrow> ''bigint''
         | CPPTYPE_UINT32 \<Rightarrow> ''bigint'' | CPPTYPE_UINT64 \<Rightarrow> ''numeric(20)''
         | CPPTYPE_FLOAT \<Rightarrow> ''float'' | CPPTYPE_DOUBLE \<Rightarrow> ''double precision''
         | CPPTYPE_BOOL \<Rightarrow> ''integer'' | CPPTYPE_ENUM \<Rightarrow> ''integer''
         | _ \<Rightarrow> ''TEXT'')
      else if sqldialect = SQL_FIREBIRD then
        (case fieldType of
           CPPTYPE_INT32 \<Rightarrow> ''integer'' | CPPTYPE_INT64 \<Rightarrow> ''bigint''
         | CPPTYPE_UINT32 \<Rightarrow> ''bigint'' | CPPTYPE_UINT64 \<Rightarrow> ''bigint''
         | CPPTYPE_FLOAT \<Rightarrow> ''float'' | CPPTYPE_DOUBLE \<Rightarrow> ''double precision''
         | CPPTYPE_BOOL \<Rightarrow> ''integer'' | CPPTYPE_ENUM \<Rightarrow> ''integer''
         | _ \<Rightarrow> ''BLOB sub_type 1'')
      else [])"

definition column_definition :: "names option \<Rightarrow> string \<Rightarrow> int \<Rightarrow> name_value \<Rightarrow> string option" where
  "column_definition fieldAliases q sqldialect v =
     (let fieldName = findAlias fieldAliases (nv_field v)
      in if fieldName = [] then None
         else Some (quoted q fieldName @ '' '' @ getSqlDialectTypeName (nv_field_type v) sqldialect))"

definition property_definition :: "string \<Rightarrow> int \<Rightarrow> string \<times> string \<Rightarrow> string option" where
  "property_definition q sqldialect p =
     (if snd p = [] then None
      else Some (quoted q (snd p) @ '' ''
             @ getSqlDialectTypeName (if fst p = PROPERTY_INT_TIME then CPPTYPE_UINT32 else CPPTYPE_STRING)
                 sqldialect))"

definition toCreateSQLTableFields :: "index_strings \<Rightarrow> string \<Rightarrow> int \<Rightarrow> names option \<Rightarrow> names option \<Rightarrow> string" where
  "toCreateSQLTableFields s tableName sqldialect fieldAliases properties =
     (let q = sql_quote sqldialect;
          cols = listed '', '' (column_definition fieldAliases q sqldialect) (is_values s) 0;
          start = ''CREATE TABLE '' @ q @ replace tableName ''.'' ''_'' @ q @ ''(''
      in if snd cols = 0 then start
         else start @ fst cols
           @ fst (listed '', '' (property_definition q sqldialect) (prop_list properties) (snd cols))
           @ '');'')"

definition sql2tableNumeric :: string where "sql2tableNumeric = ''num''"
definition sql2tableString :: string where "sql2tableString = ''str''"

definition sql2names :: "string list" where
  "sql2names = [''message'', ''time'', ''device'', ''field'', ''value'']"

definition value2_literal :: "string \<Rightarrow> name_value \<Rightarrow> string" where
  "value2_literal q v =
     (if cpp_number CPPTYPE_STRING \<le> cpp_number (nv_field_type v) \<or> \<not> isNumber (nv_value v) \<or> nv_sql_string v
      then quoted q (nv_value v) else nv_value v)"

text \<open>The two loops over the key, each item with a comma after it.\<close>

fun key_names :: "nat \<Rightarrow> nat \<Rightarrow> string result" where
  "key_names i 0 = Inr []"
| "key_names i (Suc n) =
     bindR (elem_at sql2names i) (\<lambda>a. bindR (key_names (i + 1) n) (\<lambda>b. Inr (a @ '','' @ b)))"

fun key_values :: "index_strings \<Rightarrow> u64 list \<Rightarrow> string result" where
  "key_values s [] = Inr []"
| "key_values s (k # ks) =
     bindR (elem_at (is_values s) (unat k)) (\<lambda>v.
     bindR (key_values s ks) (\<lambda>b. Inr (value2_literal (is_string_quote s) v @ '','' @ b)))"

text \<open>The statements of the fields from position \<open>i\<close>.\<close>

fun insert2_loop :: "index_strings \<Rightarrow> names option \<Rightarrow> string \<Rightarrow> string \<Rightarrow> nat \<Rightarrow> name_value list \<Rightarrow> string list" where
  "insert2_loop s fieldAliases q prefix i [] = []"
| "insert2_loop s fieldAliases q prefix i (v # vs) =
     (let fieldName = findAlias fieldAliases (nv_field v);
          rest = insert2_loop s fieldAliases q prefix (i + 1) vs;
          text = cpp_number CPPTYPE_STRING \<le> cpp_number (nv_field_type v)
                   \<or> \<not> isNumber (nv_value v) \<or> nv_sql_string v
      in if fieldName = [] then rest
         else if of_nat i \<in> set (is_index2values s) then rest
         else if text
         then (''INSERT INTO '' @ q @ sql2tableString @ q @ ''('' @ sql2names ! 0 @ '','' @ prefix
                @ '','' @ squote @ fieldName @ squote @ '','' @ is_string_quote s @ nv_value v
                @ is_string_quote s @ '');'' @ endl) # rest
         else (''INSERT INTO '' @ q @ sql2tableNumeric @ q @ ''('' @ sql2names ! 0 @ '','' @ prefix
                @ '','' @ squote @ fieldName @ squote @ '','' @ nv_value v @ '');'' @ endl) # rest)"

definition toStringInsert2 :: "index_strings \<Rightarrow> names option \<Rightarrow> names option \<Rightarrow> names option \<Rightarrow> int
    \<Rightarrow> string list \<Rightarrow> string list result" where
  "toStringInsert2 s tableAliases fieldAliases properties sqlDialect stmts =
     bindR (key_names 1 (length (is_index2values s) - 1)) (\<lambda>ns.
     bindR (elem_at (is_index2values s) 0) (\<lambda>mid.
     bindR (key_values s (tl (is_index2values s))) (\<lambda>vs.
       let ssprefix = ns @ sql2names ! 3 @ '','' @ sql2names ! 4 @ '') VALUES ('' @ dec_str (unat mid) @ '','' @ vs;
           prefix = take (length ssprefix - 1) ssprefix
       in Inr (stmts @ insert2_loop s fieldAliases (sql_quote sqlDialect) prefix 0 (is_values s)))))"

definition create_type :: "cpp_type \<Rightarrow> string" where
  "create_type t =
     (case t of
        CPPTYPE_STRING \<Rightarrow> ''VARCHAR(32)''
      | CPPTYPE_DOUBLE \<Rightarrow> ''FLOAT''
      | CPPTYPE_FLOAT \<Rightarrow> ''FLOAT''
      | _ \<Rightarrow> ''INTEGER'')"

definition getStatementSQLCreate :: "string list \<Rightarrow> int \<Rightarrow> descriptor option \<Rightarrow> int \<times> string list" where
  "getStatementSQLCreate retval mode message_descriptor =
     (case message_descriptor of
        None \<Rightarrow> (- 33, retval)
      | Some md \<Rightarrow>
          (0, retval @
             [''CREATE TABLE '' @ dquote @ replace (md_full_name md) ''.'' ''_'' @ dquote @ ''(''
                @ concat (map (\<lambda>field. fd_name field @ '' '' @ create_type (fd_type field) @ '', '') (md_fields md))
                @ ''id bigint);'']))"

definition getStatementSQLCreate_name :: "declarations \<Rightarrow> string list \<Rightarrow> int \<Rightarrow> string \<Rightarrow> int \<times> string list" where
  "getStatementSQLCreate_name pd retval mode message_name =
     getStatementSQLCreate retval mode (getMessageDescriptor pd message_name)"

definition getStatementSQLCreate_all :: "declarations \<Rightarrow> string list \<Rightarrow> int \<Rightarrow> int \<times> string list" where
  "getStatementSQLCreate_all pd retval mode =
     (0, fold (\<lambda>(name, md) r. snd (getStatementSQLCreate r mode (Some md))) pd retval)"

subsection \<open>Lines and JSON\<close>

text \<open>
  The values of a line are separated by position, so the table and the values are always
  printed; the properties follow, with a separator when there are values.
\<close>

definition line_text :: "string \<Rightarrow> index_strings \<Rightarrow> names option \<Rightarrow> names option \<Rightarrow> string" where
  "line_text sep s tableAliases properties =
     (let tableName = findAlias tableAliases (is_table s)
      in if tableName = [] then []
         else is_quote s @ tableName @ is_quote s @ sep
           @ fst (listed sep (\<lambda>v. Some (nv_value v)) (is_values s) 0)
           @ fst (listed sep (\<lambda>p. Some (snd p)) (prop_list properties) (length (is_values s)))
           @ endl)"

definition toStringCSV :: "index_strings \<Rightarrow> names option \<Rightarrow> names option \<Rightarrow> names option \<Rightarrow> string" where
  "toStringCSV s tableAliases fieldAliases properties = line_text '', '' s tableAliases properties"

definition toStringTab :: "index_strings \<Rightarrow> names option \<Rightarrow> names option \<Rightarrow> names option \<Rightarrow> string" where
  "toStringTab s tableAliases fieldAliases properties = line_text [CHR 0x09] s tableAliases properties"

definition json_member :: "names option \<Rightarrow> name_value \<Rightarrow> string option" where
  "json_member fieldAliases v =
     (let fieldName = findAlias fieldAliases (nv_field v)
      in if fieldName = [] then None
         else Some (quoted dquote fieldName @ '': ''
                @ (if nv_field_type v = CPPTYPE_STRING \<or> \<not> isNumber (nv_value v)
                   then quoted dquote (nv_value v) else nv_value v)))"

definition toStringJSON :: "index_strings \<Rightarrow> names option \<Rightarrow> names option \<Rightarrow> names option \<Rightarrow> string" where
  "toStringJSON s tableAliases fieldAliases properties =
     (let tableName = findAlias tableAliases (is_table s);
          members = listed '', '' (json_member fieldAliases) (is_values s) 0
      in if tableName = [] then []
         else ''{'' @ quoted dquote tableName @ '':{'' @ fst members
           @ fst (listed '', '' (\<lambda>p. Some (quoted dquote (fst p) @ '': '' @ quoted dquote (snd p)))
                    (prop_list properties) (snd members))
           @ ''}}'' @ endl)"

text \<open>
  The search for a field whose name ends with a suffix. It counts from the length of the
  value, and substr throws when that is beyond the name.
\<close>

fun find_suffix :: "string \<Rightarrow> name_value list \<Rightarrow> string result" where
  "find_suffix suffix [] = Inr []"
| "find_suffix suffix (v # vs) =
     (let l = length (nv_value v); n = length suffix
      in if l < n then find_suffix suffix vs
         else if length (nv_field v) < l - n then Inl (Thrown ''out_of_range'')
         else if take l (drop (l - n) (nv_field v)) = suffix then Inr (nv_value v)
         else find_suffix suffix vs)"

definition findByLastName :: "index_strings \<Rightarrow> string \<Rightarrow> string result" where
  "findByLastName s name_suffix = find_suffix name_suffix (is_values s)"

subsection \<open>The row of an INSERT statement\<close>

text \<open>
  The abstract view: a row is a list of column names with their literals. The statement
  prints the names and the literals in this order.
\<close>

definition insert_row :: "index_strings \<Rightarrow> names option \<Rightarrow> names option \<Rightarrow> (string \<times> string) list" where
  "insert_row s fieldAliases properties =
     map (\<lambda>v. (findAlias fieldAliases (nv_field v), value_literal (is_string_quote s) v))
       (filter (\<lambda>v. findAlias fieldAliases (nv_field v) \<noteq> []) (is_values s))
     @ map (\<lambda>p. (fst p, property_literal (is_string_quote s) p)) (prop_list properties)"

definition insert_text :: "string \<Rightarrow> string \<Rightarrow> (string \<times> string) list \<Rightarrow> string" where
  "insert_text q tableName row =
     ''INSERT INTO '' @ quoted q (replace tableName ''.'' ''_'') @ ''(''
       @ sep_by '', '' (map (quoted q \<circ> fst) row) @ '') VALUES ('' @ sep_by '', '' (map snd row) @ '');'' @ endl"

lemma map_filter_column_name:
  "List.map_filter (column_name fieldAliases q) vs =
     map (\<lambda>v. quoted q (findAlias fieldAliases (nv_field v)))
       (filter (\<lambda>v. findAlias fieldAliases (nv_field v) \<noteq> []) vs)"
  by (induction vs) (simp_all add: List.map_filter_simps column_name_def Let_def)

lemma map_filter_column_value:
  "List.map_filter (column_value fieldAliases q) vs =
     map (value_literal q) (filter (\<lambda>v. findAlias fieldAliases (nv_field v) \<noteq> []) vs)"
  by (induction vs) (simp_all add: List.map_filter_simps column_value_def)

lemma map_filter_column_definition:
  "List.map_filter (column_definition fieldAliases q d) vs =
     map (\<lambda>v. quoted q (findAlias fieldAliases (nv_field v)) @ '' '' @ getSqlDialectTypeName (nv_field_type v) d)
       (filter (\<lambda>v. findAlias fieldAliases (nv_field v) \<noteq> []) vs)"
  by (induction vs) (simp_all add: List.map_filter_simps column_definition_def Let_def)

text \<open>Two loops in a row print one separated list.\<close>

lemma listed_two:
  "fst (listed sep f xs 0) @ fst (listed sep g ys (snd (listed sep f xs 0))) =
     sep_by sep (List.map_filter f xs @ List.map_filter g ys)"
  by (simp add: listed_first listed_second listed_count sep_by_two)

lemma listed_two_rest:
  "fst (listed sep f xs 0) @ fst (listed sep g ys (snd (listed sep f xs 0))) @ rest =
     sep_by sep (List.map_filter f xs @ List.map_filter g ys) @ rest"
  by (simp add: listed_two flip: append_assoc)

subsection \<open>Reading a list of literals\<close>

text \<open>
  A reader of the literals of a statement: a comma outside apostrophes ends a literal, and
  the blank after it is skipped.
\<close>

fun read_literals :: "bool \<Rightarrow> string \<Rightarrow> string \<Rightarrow> string list" where
  "read_literals inside acc [] = [acc]"
| "read_literals inside acc (c # cs) =
     (if c = CHR 0x27 then read_literals (\<not> inside) (acc @ [c]) cs
      else if c = CHR '','' \<and> \<not> inside
      then (case cs of [] \<Rightarrow> [acc, []] | d # ds \<Rightarrow> acc # read_literals False [] ds)
      else read_literals inside (acc @ [c]) cs)"

lemma read_inside:
  "CHR 0x27 \<notin> set s \<Longrightarrow> read_literals True acc (s @ rest) = read_literals True (acc @ s) rest"
  by (induction s arbitrary: acc) auto

lemma read_outside:
  "CHR 0x27 \<notin> set s \<Longrightarrow> CHR '','' \<notin> set s \<Longrightarrow> read_literals False acc (s @ rest) = read_literals False (acc @ s) rest"
  by (induction s arbitrary: acc) auto

definition sql_literal :: "string \<Rightarrow> bool" where
  "sql_literal s =
     ((CHR 0x27 \<notin> set s \<and> CHR '','' \<notin> set s) \<or> (\<exists>t. s = quoted squote t \<and> CHR 0x27 \<notin> set t))"

lemma read_literal: "sql_literal s \<Longrightarrow> read_literals False [] (s @ rest) = read_literals False s rest"
  by (auto simp: sql_literal_def read_outside quoted_def squote_def read_inside)

lemma read_sep_by:
  "list_all sql_literal ss \<Longrightarrow> ss \<noteq> [] \<Longrightarrow> read_literals False [] (sep_by '', '' ss) = ss"
proof (induction "'', ''" ss rule: sep_by.induct)
  case (2 s)
  then show ?case using read_literal [of s "[]"] by simp
next
  case (3 s t ss)
  then show ?case using read_literal [of s "'', '' @ sep_by '', '' (t # ss)"] by simp
qed simp

lemma isNumber_literal: "isNumber s \<Longrightarrow> CHR 0x27 \<notin> set s \<and> CHR '','' \<notin> set s"
  by (auto simp: isNumber_def list_all_iff is_digit_def)

lemma value_literal_ok: "CHR 0x27 \<notin> set (nv_value v) \<Longrightarrow> sql_literal (value_literal squote v)"
  using isNumber_literal [of "nv_value v"] by (auto simp: value_literal_def sql_literal_def)

lemma property_literal_ok: "CHR 0x27 \<notin> set (snd p) \<Longrightarrow> sql_literal (property_literal squote p)"
  using isNumber_literal [of "snd p"] by (auto simp: property_literal_def sql_literal_def)

lemma insert_row_literals:
  assumes "is_string_quote s = squote"
    and "\<forall>v \<in> set (is_values s). CHR 0x27 \<notin> set (nv_value v)"
    and "\<forall>p \<in> set (prop_list properties). CHR 0x27 \<notin> set (snd p)"
  shows "list_all sql_literal (map snd (insert_row s fieldAliases properties))"
  using assms by (auto simp: insert_row_def list_all_iff intro: value_literal_ok property_literal_ok)

lemma toStringInsert_row:
  "toStringInsert s tableAliases fieldAliases properties d stmts =
     (let tableName = findAlias tableAliases (is_table s); row = insert_row s fieldAliases properties
      in if tableName = [] \<or> row = [] then stmts else stmts @ [insert_text (sql_quote d) tableName row])"
proof -
  define vs where "vs = filter (\<lambda>v. findAlias fieldAliases (nv_field v) \<noteq> []) (is_values s)"
  have row: "insert_row s fieldAliases properties = [] \<longleftrightarrow> vs = [] \<and> prop_list properties = []"
    by (simp add: insert_row_def vs_def)
  show ?thesis
    unfolding toStringInsert_def Let_def listed_two_rest
    unfolding listed_count row
    by (simp add: map_filter_column_name map_filter_column_value map_filter_all insert_text_def
        insert_row_def quoted_def comp_def flip: vs_def)
qed

text \<open>The value a literal stands for.\<close>

definition literal_value :: "string \<Rightarrow> string" where
  "literal_value l = (if take 1 l = squote then butlast (tl l) else l)"

lemma literal_value_value: "CHR 0x27 \<notin> set (nv_value v) \<Longrightarrow> literal_value (value_literal squote v) = nv_value v"
  by (cases "nv_value v") (auto simp: literal_value_def value_literal_def quoted_def squote_def)

lemma literal_value_property: "CHR 0x27 \<notin> set (snd p) \<Longrightarrow> literal_value (property_literal squote p) = snd p"
  by (cases "snd p") (auto simp: literal_value_def property_literal_def quoted_def squote_def)

lemma insert_row_values:
  assumes "is_string_quote s = squote"
    and "\<forall>v \<in> set (is_values s). CHR 0x27 \<notin> set (nv_value v)"
    and "\<forall>p \<in> set (prop_list properties). CHR 0x27 \<notin> set (snd p)"
  shows "map literal_value (map snd (insert_row s fieldAliases properties)) =
     map nv_value (filter (\<lambda>v. findAlias fieldAliases (nv_field v) \<noteq> []) (is_values s))
       @ map snd (prop_list properties)"
  using assms by (auto simp: insert_row_def literal_value_value literal_value_property)

subsection \<open>The statements of the second SQL mode\<close>

lemma sep_by_butlast: "xs \<noteq> [] \<Longrightarrow> sep_by sep xs @ sep = concat (map (\<lambda>a. a @ sep) xs)"
  by (induction sep xs rule: sep_by.induct) auto

definition insert2_columns :: "nat \<Rightarrow> string list" where
  "insert2_columns n = take (n + 1) sql2names @ [''field'', ''value'']"

definition insert2_literals :: "index_strings \<Rightarrow> names option \<Rightarrow> name_value \<Rightarrow> string list" where
  "insert2_literals s fieldAliases v =
     dec_str (unat (hd (is_index2values s)))
       # map (\<lambda>k. value2_literal (is_string_quote s) (is_values s ! unat k)) (tl (is_index2values s))
       @ [quoted squote (findAlias fieldAliases (nv_field v)), value2_literal (is_string_quote s) v]"

definition insert2_text :: "string \<Rightarrow> index_strings \<Rightarrow> names option \<Rightarrow> name_value \<Rightarrow> string" where
  "insert2_text q s fieldAliases v =
     ''INSERT INTO '' @ quoted q
       (if value2_literal (is_string_quote s) v = quoted (is_string_quote s) (nv_value v) then sql2tableString
        else sql2tableNumeric)
       @ ''('' @ sep_by '','' (insert2_columns (length (is_index2values s) - 1)) @ '') VALUES (''
       @ sep_by '','' (insert2_literals s fieldAliases v) @ '');'' @ endl"

text \<open>The values that get a statement: those with a name that are no part of the key.\<close>

definition insert2_values :: "index_strings \<Rightarrow> names option \<Rightarrow> name_value list" where
  "insert2_values s fieldAliases =
     map snd (filter (\<lambda>(i, v). findAlias fieldAliases (nv_field v) \<noteq> [] \<and> of_nat i \<notin> set (is_index2values s))
       (enumerate 0 (is_values s)))"

lemma key_names_eq:
  "i + n \<le> length sql2names \<Longrightarrow> key_names i n = Inr (concat (map (\<lambda>a. a @ '','') (take n (drop i sql2names))))"
proof (induction n arbitrary: i)
  case (Suc n)
  then have "drop i sql2names = sql2names ! i # drop (Suc i) sql2names"
    by (intro Cons_nth_drop_Suc [symmetric]) simp
  then show ?case using Suc.IH [of "i + 1"] Suc.prems by (simp add: elem_at_def)
qed simp

lemma key_values_eq:
  "\<forall>k \<in> set ks. unat k < length (is_values s) \<Longrightarrow>
   key_values s ks = Inr (concat (map (\<lambda>k. value2_literal (is_string_quote s) (is_values s ! unat k) @ '','') ks))"
  by (induction ks) (simp_all add: elem_at_def)

lemma value2_literal_text:
  assumes "q \<noteq> []"
  shows "value2_literal q v = quoted q (nv_value v) \<longleftrightarrow>
    cpp_number CPPTYPE_STRING \<le> cpp_number (nv_field_type v) \<or> \<not> isNumber (nv_value v) \<or> nv_sql_string v"
proof -
  have "length (nv_value v) < length (quoted q (nv_value v))"
    using assms by (simp add: quoted_def)
  then have "nv_value v \<noteq> quoted q (nv_value v)" by (metis less_irrefl)
  then show ?thesis by (simp add: value2_literal_def)
qed

lemma concat_commas: "xs \<noteq> [] \<Longrightarrow> concat (map (\<lambda>a. a @ '','') xs) = sep_by '','' xs @ '',''"
  using sep_by_butlast [of xs "'',''"] by simp

lemma sep_by_append: "xs \<noteq> [] \<Longrightarrow> ys \<noteq> [] \<Longrightarrow> sep_by sep (xs @ ys) = sep_by sep xs @ sep @ sep_by sep ys"
  by (simp add: sep_by_two)

lemma insert2_loop_eq:
  assumes "is_string_quote s \<noteq> []"
    and "\<And>v. v \<in> set vs \<Longrightarrow>
      ''message,'' @ prefix @ '','' @ squote @ findAlias fieldAliases (nv_field v) @ squote @ '',''
        @ value2_literal (is_string_quote s) v =
      sep_by '','' (insert2_columns (length (is_index2values s) - 1)) @ '') VALUES (''
        @ sep_by '','' (insert2_literals s fieldAliases v)"
  shows "insert2_loop s fieldAliases q prefix i vs =
    map (insert2_text q s fieldAliases)
      (map snd (filter (\<lambda>(i, v). findAlias fieldAliases (nv_field v) \<noteq> [] \<and> of_nat i \<notin> set (is_index2values s))
        (enumerate i vs)))"
  using assms(2)
proof (induction vs arbitrary: i)
  case (Cons v vs)
  define head where "head = ''INSERT INTO '' @ quoted q
       (if cpp_number CPPTYPE_STRING \<le> cpp_number (nv_field_type v) \<or> \<not> isNumber (nv_value v)
          \<or> nv_sql_string v then sql2tableString else sql2tableNumeric) @ ''(''"
  have body: "insert2_text q s fieldAliases v =
      head @ ''message,'' @ prefix @ '','' @ squote @ findAlias fieldAliases (nv_field v) @ squote @ '',''
        @ value2_literal (is_string_quote s) v @ '');'' @ endl"
    using arg_cong [OF Cons.prems [of v], of "\<lambda>t. head @ t @ '');'' @ endl"]
    by (simp add: insert2_text_def head_def value2_literal_text [OF assms(1)])
  show ?case
    using Cons.IH [of "i + 1"] Cons.prems
    by (simp add: body head_def Let_def sql2names_def value2_literal_def quoted_def)
qed simp

lemma insert2_prefix:
  assumes "length ks \<le> 4"
  shows "''message,'' @ concat (map (\<lambda>a. a @ '','') (take (length ks) (drop 1 sql2names)))
      @ ''field,value'' = sep_by '','' (insert2_columns (length ks))"
proof -
  define ns where "ns = concat (map (\<lambda>a. a @ '','') (take (length ks) (drop 1 sql2names)))"
  define cols where "cols = take (length ks + 1) sql2names"
  have cols: "cols \<noteq> []" by (simp add: cols_def sql2names_def)
  have "''message,'' @ ns = concat (map (\<lambda>a. a @ '','') cols)"
    by (simp add: ns_def cols_def sql2names_def)
  also have "\<dots> = sep_by '','' cols @ '',''"
    using concat_commas [OF cols] .
  finally have "(''message,'' @ ns) @ ''field,value'' = sep_by '','' cols @ '',field,value''"
    by (simp only: append_assoc append_Cons append_Nil)
  then show ?thesis
    using cols unfolding insert2_columns_def ns_def [symmetric] cols_def [symmetric]
    by (simp add: sep_by_append)
qed

lemma toStringInsert2_rows:
  assumes "is_index2values s = mid # ks" and "length ks \<le> 4"
    and "\<forall>k \<in> set ks. unat k < length (is_values s)" and "is_string_quote s \<noteq> []"
  shows "toStringInsert2 s tableAliases fieldAliases properties d stmts =
    Inr (stmts @ map (insert2_text (sql_quote d) s fieldAliases) (insert2_values s fieldAliases))"
proof -
  let ?q = "is_string_quote s"
  define ns where "ns = concat (map (\<lambda>a. a @ '','') (take (length ks) (drop 1 sql2names)))"
  define lits where "lits = dec_str (unat mid) # map (\<lambda>k. value2_literal ?q (is_values s ! unat k)) ks"
  define vs where "vs = concat (map (\<lambda>k. value2_literal ?q (is_values s ! unat k) @ '','') ks)"
  have lits: "dec_str (unat mid) @ CHR '','' # vs = sep_by '','' lits @ '',''"
    using concat_commas [of lits] by (simp add: lits_def vs_def comp_def)
  have keys: "key_names 1 (length ks) = Inr ns" "key_values s ks = Inr vs"
    using key_names_eq [of 1 "length ks"] key_values_eq [of ks s] assms(2,3)
    by (simp_all add: ns_def vs_def sql2names_def)
  define prefix where "prefix = ns @ ''field,value) VALUES ('' @ sep_by '','' lits"
  have cut: "take (length t - 1) t = prefix"
    if "t = ns @ ''field,value) VALUES ('' @ dec_str (unat mid) @ '','' @ vs" for t
  proof -
    have "t = prefix @ '',''" using that by (simp add: lits prefix_def)
    then show ?thesis by simp
  qed
  have "''message,'' @ prefix @ '','' @ squote @ findAlias fieldAliases (nv_field v) @ squote @ '',''
      @ value2_literal ?q v = sep_by '','' (insert2_columns (length (is_index2values s) - 1))
      @ '') VALUES ('' @ sep_by '','' (insert2_literals s fieldAliases v)" for v
  proof -
    define name where "name = quoted squote (findAlias fieldAliases (nv_field v))"
    define val where "val = value2_literal ?q v"
    have "insert2_literals s fieldAliases v = lits @ [name, val]"
      by (simp add: insert2_literals_def lits_def assms(1) name_def val_def)
    moreover have "lits \<noteq> []" by (simp add: lits_def)
    ultimately have row: "sep_by '','' (insert2_literals s fieldAliases v) = sep_by '','' lits @ '','' @ name @ '','' @ val"
      by (simp add: sep_by_append)
    have cols: "sep_by '','' (insert2_columns (length ks)) = ''message,'' @ ns @ ''field,value''"
      using insert2_prefix [OF assms(2)] by (simp add: ns_def)
    show ?thesis
      unfolding row prefix_def val_def [symmetric] assms(1) list.size(4) add_diff_cancel_right' cols
      by (simp add: name_def quoted_def cols)
  qed
  then have "insert2_loop s fieldAliases (sql_quote d) prefix 0 (is_values s) =
      map (insert2_text (sql_quote d) s fieldAliases) (insert2_values s fieldAliases)"
    using insert2_loop_eq [OF assms(4), of "is_values s" prefix] by (simp add: insert2_values_def)
  moreover have "take (length t - 1) t = prefix"
    if "t = ns @ sql2names ! 3 @ '','' @ sql2names ! 4 @ '') VALUES ('' @ dec_str (unat mid) @ '','' @ vs" for t
    using cut [of t] that by (simp add: sql2names_def)
  ultimately show ?thesis
    by (simp add: toStringInsert2_def assms(1) keys [unfolded One_nat_def] elem_at_def Let_def)
qed

subsection \<open>Keys point at values\<close>

definition keys_in_values :: "index_strings \<Rightarrow> bool" where
  "keys_in_values s =
     (is_index2values s \<noteq> [] \<and> list_all (\<lambda>k. unat k < length (is_values s)) (tl (is_index2values s)))"

lemma index_strings_new_keys:
  "keys_in_values (fst (index_strings_new c t))" "keys_in_values (fst (index_strings_quoted c t q q'))"
  by (simp_all add: keys_in_values_def index_strings_new_def index_strings_quoted_def split: prod.splits)

text \<open>The gap that add leaves before a key is filled with position 0, which has a value by then.\<close>

lemma is_add_keys:
  assumes "keys_in_values s" and "length (is_values s) < 2 ^ 64"
  shows "keys_in_values (is_add fd val index allow_quotes s)"
proof (cases "0 < index")
  case True
  obtain mid ks where i2v: "is_index2values s = mid # ks"
    using assms(1) by (cases "is_index2values s") (auto simp: keys_in_values_def)
  let ?n = "length (is_values s)"
  let ?P = "\<lambda>k :: u64. unat k < Suc ?n"
  obtain i where i: "nat index = Suc i" using True by (cases "nat index") auto
  define pad where "pad = replicate (Suc i - length ks) (0 :: u64)"
  have "unat (of_nat ?n :: u64) = ?n"
    using assms(2) by (simp add: unat_of_nat take_bit_nat_eq_self)
  moreover have "list_all ?P (ks @ pad)" "list_all ?P ks"
    using assms(1) by (auto simp: keys_in_values_def i2v list_all_iff pad_def)
  ultimately show ?thesis
    using list_all_update [of ?P ks "of_nat ?n" i] list_all_update [of ?P "ks @ pad" "of_nat ?n" i]
    by (simp add: keys_in_values_def is_add_def Let_def i2v pad_def True i)
next
  case False
  then show ?thesis
    using assms(1) by (auto simp: keys_in_values_def is_add_def list_all_iff)
qed

lemma is_add_sizes:
  "length (is_values (is_add fd val index aq s)) = Suc (length (is_values s))"
  "length (is_index2values (is_add fd val index aq s)) \<le> max (length (is_index2values s)) (Suc (nat index))"
  "is_string_quote (is_add fd val index aq s) = is_string_quote s"
  "is_table (is_add fd val index aq s) = is_table s"
  "is_quote (is_add fd val index aq s) = is_quote s"
  by (auto simp: is_add_def Let_def)

definition add_all_values :: "(field_desc \<times> string \<times> int) list \<Rightarrow> index_strings \<Rightarrow> index_strings" where
  "add_all_values adds s = fold (\<lambda>(fd, val, index). is_add fd val index False) adds s"

lemma add_all_values_props:
  assumes "keys_in_values s" and "length (is_values s) + length adds < 2 ^ 64"
    and "list_all (\<lambda>(fd, val, index). index \<le> 2) adds" and "length (is_index2values s) \<le> 3"
  shows "keys_in_values (add_all_values adds s)"
    and "length (is_index2values (add_all_values adds s)) \<le> 3"
    and "is_string_quote (add_all_values adds s) = is_string_quote s"
proof -
  have "keys_in_values (add_all_values adds s) \<and> length (is_index2values (add_all_values adds s)) \<le> 3
      \<and> is_string_quote (add_all_values adds s) = is_string_quote s"
    using assms
  proof (induction adds arbitrary: s)
    case (Cons a adds)
    obtain fd val index where a: "a = (fd, val, index)" by (cases a) auto
    let ?s = "is_add fd val index False s"
    have "nat index \<le> 2" using Cons.prems(3) by (simp add: a nat_le_iff)
    then have "length (is_index2values ?s) \<le> 3"
      using is_add_sizes(2) [of fd val index False s] Cons.prems(4) by linarith
    moreover have "keys_in_values ?s"
      by (rule is_add_keys [OF Cons.prems(1)]) (use Cons.prems(2) in simp)
    ultimately show ?case
      using Cons.IH [of ?s] Cons.prems is_add_sizes(1,3) [of fd val index False s]
      by (simp add: a add_all_values_def)
  qed (simp add: add_all_values_def)
  then show "keys_in_values (add_all_values adds s)"
    and "length (is_index2values (add_all_values adds s)) \<le> 3"
    and "is_string_quote (add_all_values adds s) = is_string_quote s" by auto
qed

text \<open>The values of the list are the added ones, in their order.\<close>

lemma add_all_values_values:
  "is_values (add_all_values adds s) =
     is_values s @ map (\<lambda>(fd, val, index). name_value_new index (fd_type fd) False (fd_full_name fd) val) adds"
  by (induction adds arbitrary: s) (auto simp: add_all_values_def is_add_def Let_def split: prod.splits)

text \<open>
  The statement has one column for every named value and every property, and as many
  literals; a reader of the literals gets the values back when none has an apostrophe.
\<close>

lemma insert_literals:
  assumes "is_string_quote s = squote" and "findAlias tableAliases (is_table s) \<noteq> []"
    and "insert_row s fieldAliases properties \<noteq> []"
    and "\<forall>v \<in> set (is_values s). CHR 0x27 \<notin> set (nv_value v)"
    and "\<forall>p \<in> set (prop_list properties). CHR 0x27 \<notin> set (snd p)"
  shows "\<exists>literals.
    toStringInsert s tableAliases fieldAliases properties d [] =
      [''INSERT INTO '' @ quoted (sql_quote d) (replace (findAlias tableAliases (is_table s)) ''.'' ''_'') @ ''(''
         @ sep_by '', '' (map (quoted (sql_quote d) \<circ> fst) (insert_row s fieldAliases properties))
         @ '') VALUES ('' @ literals @ '');'' @ endl] \<and>
    map literal_value (read_literals False [] literals) =
      map nv_value (filter (\<lambda>v. findAlias fieldAliases (nv_field v) \<noteq> []) (is_values s))
        @ map snd (prop_list properties)"
proof -
  have "read_literals False [] (sep_by '', '' (map snd (insert_row s fieldAliases properties))) =
      map snd (insert_row s fieldAliases properties)"
    using insert_row_literals [OF assms(1,4,5)] assms(3) by (intro read_sep_by) auto
  then show ?thesis
    using assms(2,3) insert_row_values [OF assms(1,4,5)]
    by (auto simp: toStringInsert_row insert_text_def Let_def)
qed

subsection \<open>Properties\<close>

definition example_strings :: index_strings where
  "example_strings =
     \<lparr>is_table = ''t.Packet'', is_index2values = [7, 0], is_string_quote = squote, is_quote = dquote,
      is_values = [name_value_new 1 CPPTYPE_UINT32 False ''t.Packet.time'' ''42'',
                   name_value_new 0 CPPTYPE_STRING False ''t.Packet.name'' ''a, b'']\<rparr>"

text \<open>
  Filled with values whose key positions are at most 2, the second SQL mode never reads
  out of bounds: it writes one statement for every named value that is no part of the key,
  and each statement has different columns, as many as literals.
\<close>

theorem insert2_statements:
  assumes "list_all (\<lambda>(fd, val, index). index \<le> 2) adds" and "length adds < 2 ^ 64"
    and "s = add_all_values adds (fst (index_strings_new c t))"
  shows "toStringInsert2 s tableAliases fieldAliases properties d stmts =
      Inr (stmts @ map (insert2_text (sql_quote d) s fieldAliases) (insert2_values s fieldAliases)) \<and>
    distinct (insert2_columns (length (is_index2values s) - 1)) \<and>
    length (insert2_columns (length (is_index2values s) - 1)) = length (insert2_literals s fieldAliases v)"
proof -
  let ?s0 = "fst (index_strings_new c t)"
  have s0: "length (is_index2values ?s0) \<le> 3" "is_values ?s0 = []" "is_string_quote ?s0 = squote"
    by (simp_all add: index_strings_new_def split: prod.splits)
  note s = add_all_values_props [OF index_strings_new_keys(1) [of c t] _ assms(1) s0(1), folded assms(3)]
  have keys: "keys_in_values s" "length (is_index2values s) \<le> 3" "is_string_quote s = squote"
    using s s0 assms(2) by auto
  then obtain mid ks where i2v: "is_index2values s = mid # ks" "length ks \<le> 2"
    by (cases "is_index2values s") (auto simp: keys_in_values_def)
  have "length ks = 0 \<or> length ks = 1 \<or> length ks = 2" using i2v(2) by arith
  then have "distinct (insert2_columns (length ks))"
    "length (insert2_columns (length ks)) = length (insert2_literals s fieldAliases v)"
    by (auto simp: insert2_columns_def sql2names_def insert2_literals_def i2v)
  moreover have "toStringInsert2 s tableAliases fieldAliases properties d stmts =
      Inr (stmts @ map (insert2_text (sql_quote d) s fieldAliases) (insert2_values s fieldAliases))"
    using keys i2v by (intro toStringInsert2_rows) (auto simp: keys_in_values_def list_all_iff squote_def)
  ultimately show ?thesis using i2v by simp
qed

definition no_cache :: cache where
  "no_cache = \<lparr>oc_variables = [], oc_declarations = []\<rparr>"

definition example_adds :: "(field_desc \<times> string \<times> int) list" where
  "example_adds =
     [(example_field_desc 1 ''a'' CPPTYPE_UINT32 [] False, ''5'', 0),
      (example_field_desc 2 ''time'' CPPTYPE_UINT32 [] False, ''42'', 1),
      (example_field_desc 3 ''name'' CPPTYPE_STRING [] False, ''x'', 0)]"

theorem insert2_statements_witness:
  "(let s = add_all_values example_adds (fst (index_strings_new no_cache ''t''))
    in toStringInsert2 s None None None 1 [] =
         Inr (map (insert2_text (sql_quote 1) s None) (insert2_values s None)) \<and>
       distinct (insert2_columns (length (is_index2values s) - 1)))"
  using insert2_statements [of example_adds _ no_cache "''t''" None None None 1 "[]"]
  by (simp add: Let_def example_adds_def)

subsection \<open>What the statements do not keep\<close>

text \<open>A value with an apostrophe ends its literal: it can bring literals of its own.\<close>

theorem literal_injection:
  assumes "nv_value v = a @ squote @ '', '' @ squote @ b" and "CHR 0x27 \<notin> set a" and "CHR 0x27 \<notin> set b"
  shows "read_literals False [] (value_literal squote v) = [quoted squote a, quoted squote b]"
proof -
  have "\<not> isNumber (nv_value v)"
    by (auto simp: assms(1) isNumber_def list_all_iff is_digit_def squote_def)
  then have "value_literal squote v = quoted squote a @ '', '' @ quoted squote b"
    by (simp add: value_literal_def assms(1) quoted_def)
  moreover have "sql_literal (quoted squote a)" "sql_literal (quoted squote b)"
    using assms(2,3) by (auto simp: sql_literal_def)
  ultimately show ?thesis
    using read_literal [of "quoted squote a" "'', '' @ quoted squote b"] read_literal [of "quoted squote b" "[]"]
    by simp
qed

text \<open>The position of a value is compared with the message id as if that were a position.\<close>

theorem message_id_hides_value:
  "insert2_values \<lparr>is_table = t, is_index2values = [0], is_string_quote = q, is_quote = q', is_values = [v]\<rparr> fieldAliases = []"
  by (simp add: insert2_values_def)

text \<open>Five key fields are more than there are names for them.\<close>

theorem five_keys_fault:
  "6 \<le> length (is_index2values s) \<Longrightarrow> toStringInsert2 s tableAliases fieldAliases properties d stmts = Inl OutOfBounds"
proof -
  assume "6 \<le> length (is_index2values s)"
  then have "length (is_index2values s) - 1 = Suc (Suc (Suc (Suc (Suc (length (is_index2values s) - 6)))))"
    by arith
  then show ?thesis
    by (simp add: toStringInsert2_def elem_at_def sql2names_def)
qed

text \<open>findByLastName looks at the length of the value: short values are never found.\<close>

theorem short_value_not_found:
  "\<forall>v \<in> set (is_values s). length (nv_value v) < length suffix \<Longrightarrow> findByLastName s suffix = Inr []"
proof -
  have "\<forall>v \<in> set vs. length (nv_value v) < length suffix \<Longrightarrow> find_suffix suffix vs = Inr []" for vs
    by (induction vs) (simp_all add: Let_def)
  then show "\<forall>v \<in> set (is_values s). length (nv_value v) < length suffix \<Longrightarrow> findByLastName s suffix = Inr []"
    by (simp add: findByLastName_def)
qed

text \<open>
  CREATE TABLE and INSERT name the same columns in the same order when there are no
  properties. A property is a column with its value as the name in the one, with its key as
  the name in the other.
\<close>

theorem create_matches_insert:
  assumes "filter (\<lambda>v. findAlias fieldAliases (nv_field v) \<noteq> []) (is_values s) \<noteq> []"
  shows "\<exists>types. length types = length (insert_row s fieldAliases None) \<and>
    toCreateSQLTableFields s tableName d fieldAliases properties =
      ''CREATE TABLE '' @ quoted (sql_quote d) (replace tableName ''.'' ''_'') @ ''(''
        @ sep_by '', '' (map2 (\<lambda>n t. quoted (sql_quote d) n @ '' '' @ t)
                           (map fst (insert_row s fieldAliases None)) types
             @ List.map_filter (property_definition (sql_quote d) d) (prop_list properties))
        @ '');''"
proof -
  define vs where "vs = filter (\<lambda>v. findAlias fieldAliases (nv_field v) \<noteq> []) (is_values s)"
  define types where "types = map (\<lambda>v. getSqlDialectTypeName (nv_field_type v) d) vs"
  have cols: "List.map_filter (column_definition fieldAliases (sql_quote d) d) (is_values s) =
      map2 (\<lambda>n t. quoted (sql_quote d) n @ '' '' @ t) (map fst (insert_row s fieldAliases None)) types"
    unfolding map_filter_column_definition vs_def [symmetric] types_def
    by (simp add: insert_row_def prop_list_def zip_map1 zip_map2 zip_same_conv_map comp_def flip: vs_def)
  have "vs \<noteq> []" using assms by (simp add: vs_def)
  then have "snd (listed '', '' (column_definition fieldAliases (sql_quote d) d) (is_values s) 0) \<noteq> 0"
    unfolding listed_count map_filter_column_definition vs_def [symmetric] by simp
  then have "toCreateSQLTableFields s tableName d fieldAliases properties =
      ''CREATE TABLE '' @ quoted (sql_quote d) (replace tableName ''.'' ''_'') @ ''(''
        @ sep_by '', '' (List.map_filter (column_definition fieldAliases (sql_quote d) d) (is_values s)
             @ List.map_filter (property_definition (sql_quote d) d) (prop_list properties)) @ '');''"
    unfolding toCreateSQLTableFields_def Let_def listed_two_rest by (simp add: quoted_def)
  moreover have "length types = length (insert_row s fieldAliases None)"
    by (simp add: types_def insert_row_def prop_list_def flip: vs_def)
  ultimately show ?thesis unfolding cols by blast
qed

text \<open>Without a named value the CREATE statement is left open.\<close>

theorem create_unterminated:
  "\<forall>v \<in> set (is_values s). findAlias fieldAliases (nv_field v) = [] \<Longrightarrow>
   toCreateSQLTableFields s tableName d fieldAliases properties =
     ''CREATE TABLE '' @ quoted (sql_quote d) (replace tableName ''.'' ''_'') @ ''(''"
  by (simp add: toCreateSQLTableFields_def Let_def listed_count map_filter_column_definition quoted_def
      flip: filter_empty_conv)

lemma sep_by_char: "sep_by [c] ss = join_with c ss"
  by (induction "[c]" ss rule: sep_by.induct) auto

lemma sep_by_ending: "ss \<noteq> [] \<Longrightarrow> sep_by sep ss @ e = sep_by sep (butlast ss @ [last ss @ e])"
  by (induction sep ss rule: sep_by.induct) (auto simp: sep_by_Cons)

definition line_values :: "index_strings \<Rightarrow> names option \<Rightarrow> string list" where
  "line_values s properties = map nv_value (is_values s) @ map snd (prop_list properties)"

lemma line_text_eq:
  assumes "findAlias tableAliases (is_table s) \<noteq> []" and "line_values s properties \<noteq> []"
  shows "line_text sep s tableAliases properties =
    sep_by sep (quoted (is_quote s) (findAlias tableAliases (is_table s)) # line_values s properties) @ endl"
proof -
  have "snd (listed sep (\<lambda>v. Some (nv_value v)) (is_values s) 0) = length (is_values s)"
    by (simp add: listed_count map_filter_all)
  then show ?thesis
    using assms listed_two_rest [of sep "\<lambda>v. Some (nv_value v)" "is_values s" "\<lambda>p. Some (snd p)" "prop_list properties" endl]
    by (cases "line_values s properties")
       (auto simp: line_text_def Let_def map_filter_all line_values_def quoted_def)
qed

text \<open>
  A tab delimited line is read back by splitting it at the tabs: the quoted table name
  and the values with the properties after them, the last with the end of the line.
\<close>

theorem tab_line_reads_back:
  assumes "findAlias tableAliases (is_table s) \<noteq> []" and "line_values s properties \<noteq> []"
    and "CHR 0x09 \<notin> set (is_quote s) \<union> set (findAlias tableAliases (is_table s))"
    and "list_all (\<lambda>v. CHR 0x09 \<notin> set v) (line_values s properties)"
  shows "split (toStringTab s tableAliases fieldAliases properties) (CHR 0x09) =
    quoted (is_quote s) (findAlias tableAliases (is_table s))
      # butlast (line_values s properties) @ [last (line_values s properties) @ endl]"
proof -
  let ?items = "quoted (is_quote s) (findAlias tableAliases (is_table s))
      # butlast (line_values s properties) @ [last (line_values s properties) @ endl]"
  have "toStringTab s tableAliases fieldAliases properties = join_with (CHR 0x09) ?items"
    using assms(2) sep_by_ending [of "quoted (is_quote s) (findAlias tableAliases (is_table s))
      # line_values s properties" "[CHR 0x09]" endl]
    by (simp add: toStringTab_def line_text_eq [OF assms(1,2)] sep_by_char)
  moreover have "list_all (\<lambda>v. CHR 0x09 \<notin> set v) ?items"
    using assms(2-4) by (auto simp: list_all_iff quoted_def endl_def dest: in_set_butlastD)
  ultimately show ?thesis
    using split_join [of "CHR 0x09" ?items] by (simp add: endl_def)
qed

theorem tab_line_reads_back_witness:
  "split (toStringTab example_strings None None None) (CHR 0x09) =
     [quoted dquote ''t.Packet'', ''42'', ''a, b'' @ endl]"
  using tab_line_reads_back [of None example_strings None None]
  by (simp add: example_strings_def name_value_new_def findAlias_def line_values_def prop_list_def dquote_def)

end
