(* ===== verification/MessageFormat.thy ===== *)
theory MessageFormat
  imports JsMessage SqlText
begin

section \<open>Printing messages\<close>

text \<open>
  messageformat.cpp: every output mode decomposes the message, files the text of each value
  in a FieldNameValueIndexStrings, and prints that. The output stream is the text that is
  appended to it; the results also hold the options cache, to which a new message type is
  added. DebugString and SerializeAsString of the protobuf library are parameters.
\<close>

text \<open>The static variable format_number.\<close>

definition format_number_initial :: int where
  "format_number_initial = 0"

definition set_format_number :: "int \<Rightarrow> int \<Rightarrow> int" where
  "set_format_number val format_number = val"

definition addFieldValueString :: "'e runtime \<Rightarrow> cache \<Rightarrow> int \<Rightarrow> event \<Rightarrow> index_strings \<times> 'e \<Rightarrow> (index_strings \<times> 'e) result" where
  "addFieldValueString rt c format_number ev =
     (\<lambda>(vals, e). bindR (toString rt c ev format_number e) (\<lambda>(s, e').
        Inr (is_add (ev_field ev) s (ev_index ev) False vals, e')))"

fun add_events :: "'e runtime \<Rightarrow> cache \<Rightarrow> int \<Rightarrow> event list \<Rightarrow> index_strings \<times> 'e \<Rightarrow> (index_strings \<times> 'e) result" where
  "add_events rt c format_number [] ve = Inr ve"
| "add_events rt c format_number (ev # evs) ve =
     bindR (addFieldValueString rt c format_number ev ve) (add_events rt c format_number evs)"

text \<open>
  The settings of a run: the fuel, std::hash, the runtime, the time, the format number and
  the pool of message types.
\<close>

record 'e settings =
  st_fuel :: nat
  st_hash :: "string \<Rightarrow> u64"
  st_runtime :: "'e runtime"
  st_time :: u64
  st_format_number :: int
  st_pool :: pool

text \<open>The constructor of the decomposer fills the list through its callback.\<close>

definition fill_values :: "'e settings \<Rightarrow> cache \<Rightarrow> string \<Rightarrow> pb_message \<Rightarrow> index_strings \<Rightarrow> index_strings option result" where
  "fill_values st c t m vals =
     bindF (decomposer_of_type (st_fuel st) (st_hash st) (st_runtime st) (st_time st) t c (st_pool st) True m)
       (\<lambda>(e, r, evs). bindR (add_events (st_runtime st) c (st_format_number st) evs (vals, e)) (\<lambda>(vals', e').
          Inr (Some vals')))"

definition put_values :: "'e settings \<Rightarrow> index_strings \<times> cache \<Rightarrow> string \<Rightarrow> pb_message
    \<Rightarrow> (index_strings \<Rightarrow> string result) \<Rightarrow> (int \<times> string \<times> cache) option result" where
  "put_values st new t m print =
     (case new of (vals, c) \<Rightarrow>
        bindF (fill_values st c t m vals) (\<lambda>vals'. bindR (print vals') (\<lambda>text. Inr (Some (0, text, c)))))"

definition put_debug :: "(pb_message \<Rightarrow> string) \<Rightarrow> pb_message \<Rightarrow> int \<times> string" where
  "put_debug DebugString m = (0, DebugString m @ endl)"

definition put_json :: "'e settings \<Rightarrow> cache \<Rightarrow> string \<Rightarrow> pb_message \<Rightarrow> names option \<Rightarrow> names option \<Rightarrow> names option
    \<Rightarrow> (int \<times> string \<times> cache) option result" where
  "put_json st c t m tableAliases fieldAliases properties =
     put_values st (index_strings_new c t) t m (\<lambda>vals. Inr (toStringJSON vals tableAliases fieldAliases properties))"

definition put_sql :: "'e settings \<Rightarrow> cache \<Rightarrow> string \<Rightarrow> pb_message \<Rightarrow> names option \<Rightarrow> names option \<Rightarrow> names option
    \<Rightarrow> int \<Rightarrow> (int \<times> string \<times> cache) option result" where
  "put_sql st c t m tableAliases fieldAliases properties sqlDialect =
     put_values st (index_strings_new c t) t m (\<lambda>vals.
       Inr (concat (toStringInsert vals tableAliases fieldAliases properties sqlDialect [])))"

definition put_sql2 :: "'e settings \<Rightarrow> cache \<Rightarrow> string \<Rightarrow> pb_message \<Rightarrow> names option \<Rightarrow> names option \<Rightarrow> names option
    \<Rightarrow> int \<Rightarrow> (int \<times> string \<times> cache) option result" where
  "put_sql2 st c t m tableAliases fieldAliases properties sqlDialect =
     put_values st (index_strings_new c t) t m (\<lambda>vals.
       bindR (toStringInsert2 vals tableAliases fieldAliases properties sqlDialect []) (\<lambda>stmts. Inr (concat stmts)))"

text \<open>The message is a new one of the type, if there is such a type.\<close>

definition create_sql :: "'e settings \<Rightarrow> cache \<Rightarrow> string \<Rightarrow> int \<Rightarrow> names option \<Rightarrow> names option \<Rightarrow> names option
    \<Rightarrow> (int \<times> string \<times> cache) option result" where
  "create_sql st c t sqldialect tableAliases fieldAliases properties =
     (let tableName = findAlias tableAliases t
      in if tableName = [] then Inr (Some (0, [], c))
         else
           (case st_pool st t of
              None \<Rightarrow> Inr (Some (0, [], c))
            | Some md \<Rightarrow>
                put_values st (index_strings_new c t) t (new_message (st_pool st) t) (\<lambda>vals.
                  Inr (toCreateSQLTableFields vals tableName sqldialect fieldAliases properties))))"

definition create_sql2 :: "cache \<Rightarrow> string \<Rightarrow> int \<Rightarrow> names option \<Rightarrow> names option \<Rightarrow> names option \<Rightarrow> int \<times> string \<times> cache" where
  "create_sql2 c t sqldialect tableAliases fieldAliases properties =
     (let tableName = findAlias tableAliases t
      in if tableName = [] then (0, [], c)
         else (0, ''CREATE TABLE '' @ quoted dquote (replace tableName ''.'' ''_'') @ '' ();'', c))"

definition put_protobuf_text :: "(pb_message \<Rightarrow> string) \<Rightarrow> pb_message \<Rightarrow> int \<times> string" where
  "put_protobuf_text SerializeAsString m = (0, SerializeAsString m)"

definition put_csv :: "'e settings \<Rightarrow> cache \<Rightarrow> string \<Rightarrow> pb_message \<Rightarrow> names option \<Rightarrow> names option \<Rightarrow> names option
    \<Rightarrow> (int \<times> string \<times> cache) option result" where
  "put_csv st c t m tableAliases fieldAliases properties =
     put_values st (index_strings_quoted c t dquote dquote) t m (\<lambda>vals.
       Inr (toStringCSV vals tableAliases fieldAliases properties))"

definition put_tab :: "'e settings \<Rightarrow> cache \<Rightarrow> string \<Rightarrow> pb_message \<Rightarrow> names option \<Rightarrow> names option \<Rightarrow> names option
    \<Rightarrow> (int \<times> string \<times> cache) option result" where
  "put_tab st c t m tableAliases fieldAliases properties =
     put_values st (index_strings_new c t) t m (\<lambda>vals.
       Inr (toStringTab vals tableAliases fieldAliases properties))"

text \<open>An unknown type faults in the look-up, before its result is tested.\<close>

definition getFieldNames :: "cache \<Rightarrow> string \<Rightarrow> string list \<Rightarrow> (string \<times> string list) result" where
  "getFieldNames c messageTypeName retval =
     bindR (getPacketVariable c messageTypeName) (\<lambda>(found, v).
       if \<not> found then Inl NullPointer
       else Inr (pv_message_type v,
                 retval @ map (\<lambda>it. pv_message_type v @ ''.'' @ fst it) (pv_variables v)))"

subsection \<open>Without format expressions\<close>

definition event_text :: "'e runtime \<Rightarrow> event \<Rightarrow> field_desc \<times> string \<times> int" where
  "event_text rt ev = (ev_field ev, plain_text rt (ev_value ev), ev_index ev)"

lemma add_events_plain:
  "format_number < 0 \<Longrightarrow>
   add_events rt c format_number evs (vals, e) = Inr (add_all_values (map (event_text rt) evs) vals, e)"
  by (induction evs arbitrary: vals)
     (simp_all add: addFieldValueString_def toString_def add_all_values_def event_text_def)

lemma fill_values_plain:
  assumes "st_format_number st < 0"
    and "decomposer_of_type (st_fuel st) (st_hash st) (st_runtime st) (st_time st) t c (st_pool st) True m =
      Inr (Some (e, r, evs))"
  shows "fill_values st c t m vals = Inr (Some (add_all_values (map (event_text (st_runtime st)) evs) vals))"
  using assms by (simp add: fill_values_def add_events_plain)

lemma add_all_values_keeps:
  "is_table (add_all_values adds s) = is_table s \<and> is_string_quote (add_all_values adds s) = is_string_quote s"
  by (induction adds arbitrary: s) (auto simp: add_all_values_def is_add_sizes split: prod.splits)

definition event_named :: "names option \<Rightarrow> event \<Rightarrow> bool" where
  "event_named fieldAliases ev = (findAlias fieldAliases (fd_full_name (ev_field ev)) \<noteq> [])"

lemma filled_values:
  assumes "is_values s = []"
  shows "map nv_value (filter (\<lambda>v. findAlias fieldAliases (nv_field v) \<noteq> [])
      (is_values (add_all_values (map (event_text rt) evs) s))) =
    map (\<lambda>ev. plain_text rt (ev_value ev)) (filter (event_named fieldAliases) evs)"
  using assms
  by (induction evs) (simp_all add: add_all_values_values name_value_new_def event_text_def event_named_def)

subsection \<open>Properties\<close>

text \<open>
  C9: Printed as an INSERT statement without format expressions, a message that can be
  decomposed is one statement whose literals, read back, are the texts of the values the
  walk over the message finds, in its order, followed by the properties, when no text has
  an apostrophe.
\<close>

theorem put_sql_prints_walk:
  assumes "st_format_number st < 0" and "index_strings_new c t = (vals, c')"
    and "decomposer_of_type (st_fuel st) (st_hash st) (st_runtime st) (st_time st) t c' (st_pool st) True m =
      Inr (Some (e, r, evs))"
    and "findAlias tableAliases t \<noteq> []"
    and "filter (event_named fieldAliases) evs \<noteq> [] \<or> prop_list properties \<noteq> []"
    and "list_all (\<lambda>ev. CHR 0x27 \<notin> set (plain_text (st_runtime st) (ev_value ev))) evs"
    and "\<forall>p \<in> set (prop_list properties). CHR 0x27 \<notin> set (snd p)"
  shows "\<exists>columns literals.
    put_sql st c t m tableAliases fieldAliases properties d =
      Inr (Some (0, ''INSERT INTO '' @ quoted (sql_quote d) (replace (findAlias tableAliases t) ''.'' ''_'') @ ''(''
         @ sep_by '', '' (map (quoted (sql_quote d)) columns) @ '') VALUES ('' @ literals @ '');'' @ endl, c')) \<and>
    columns = map (\<lambda>ev. findAlias fieldAliases (fd_full_name (ev_field ev))) (filter (event_named fieldAliases) evs)
      @ map fst (prop_list properties) \<and>
    map literal_value (read_literals False [] literals) =
      map (\<lambda>ev. plain_text (st_runtime st) (ev_value ev)) (filter (event_named fieldAliases) evs)
        @ map snd (prop_list properties)"
proof -
  let ?rt = "st_runtime st"
  define s where "s = add_all_values (map (event_text ?rt) evs) vals"
  have vals: "is_values vals = []" "is_table vals = t" "is_string_quote vals = squote"
    using assms(2) by (auto simp: index_strings_new_def split: prod.splits)
  have s: "is_table s = t" "is_string_quote s = squote"
    using add_all_values_keeps [of "map (event_text ?rt) evs" vals] vals by (simp_all add: s_def)
  have found: "is_values s =
      map (\<lambda>ev. name_value_new (ev_index ev) (fd_type (ev_field ev)) False (fd_full_name (ev_field ev))
        (plain_text ?rt (ev_value ev))) evs"
    by (simp add: s_def add_all_values_values vals event_text_def)
  have columns: "map fst (insert_row s fieldAliases properties) =
      map (\<lambda>ev. findAlias fieldAliases (fd_full_name (ev_field ev))) (filter (event_named fieldAliases) evs)
        @ map fst (prop_list properties)"
    by (simp add: insert_row_def found filter_map comp_def name_value_new_def event_named_def [abs_def])
  have row: "insert_row s fieldAliases properties \<noteq> []"
  proof
    assume "insert_row s fieldAliases properties = []"
    with columns have "filter (event_named fieldAliases) evs = [] \<and> prop_list properties = []" by simp
    with assms(5) show False by simp
  qed
  have quotes: "\<forall>v \<in> set (is_values s). CHR 0x27 \<notin> set (nv_value v)"
    using assms(6) by (auto simp: found name_value_new_def list_all_iff)
  have table: "findAlias tableAliases (is_table s) \<noteq> []" using assms(4) by (simp add: s)
  obtain literals where lit:
    "toStringInsert s tableAliases fieldAliases properties d [] =
      [''INSERT INTO '' @ quoted (sql_quote d) (replace (findAlias tableAliases t) ''.'' ''_'') @ ''(''
         @ sep_by '', '' (map (quoted (sql_quote d)) (map fst (insert_row s fieldAliases properties)))
         @ '') VALUES ('' @ literals @ '');'' @ endl]"
    "map literal_value (read_literals False [] literals) =
      map nv_value (filter (\<lambda>v. findAlias fieldAliases (nv_field v) \<noteq> []) (is_values s))
        @ map snd (prop_list properties)"
    using insert_literals [OF s(2) table row quotes assms(7)] by (auto simp: s(1))
  have "put_sql st c t m tableAliases fieldAliases properties d =
      Inr (Some (0, concat (toStringInsert s tableAliases fieldAliases properties d []), c'))"
    using fill_values_plain [OF assms(1,3), of vals] by (simp add: put_sql_def put_values_def assms(2) s_def)
  then show ?thesis
    using lit filled_values [OF vals(1), of fieldAliases ?rt evs, folded s_def] columns
    by (intro exI [of _ "map fst (insert_row s fieldAliases properties)"] exI [of _ literals]) simp
qed

definition example_cache_value :: cache where
  "example_cache_value =
     (case cache_new 9 (\<lambda>s. 7) example_declarations of Inr (Some c) \<Rightarrow> c | _ \<Rightarrow> no_cache)"

definition example_settings :: "((string \<times> jsval) list) settings" where
  "example_settings =
     \<lparr>st_fuel = 9, st_hash = \<lambda>s. 7, st_runtime = path_runtime, st_time = 0, st_format_number = - 1,
      st_pool = example_pool\<rparr>"

definition example_walk :: "((string \<times> jsval) list \<times> int \<times> event list) option result" where
  "example_walk =
     decomposer_of_type 9 (\<lambda>s. 7) path_runtime 0 ''t'' (snd (index_strings_new example_cache_value ''t''))
       example_pool True example_message"

lemma example_walk_events:
  "case example_walk of
     Inr (Some (e, r, evs)) \<Rightarrow> map (\<lambda>ev. plain_text path_runtime (ev_value ev)) evs = [''-5'', ''7'', ''AB'', []]
   | _ \<Rightarrow> False"
  by code_simp

theorem put_sql_prints_walk_witness:
  "\<exists>columns literals c'.
    put_sql example_settings example_cache_value ''t'' example_message None None None SQL_SQLITE =
      Inr (Some (0, ''INSERT INTO '' @ quoted (sql_quote SQL_SQLITE) (replace ''t'' ''.'' ''_'') @ ''(''
         @ sep_by '', '' (map (quoted (sql_quote SQL_SQLITE)) columns) @ '') VALUES ('' @ literals @ '');'' @ endl, c')) \<and>
    map literal_value (read_literals False [] literals) = [''-5'', ''7'', ''AB'', []]"
proof -
  obtain vals c' where new: "index_strings_new example_cache_value ''t'' = (vals, c')" by fastforce
  obtain e r evs where run: "example_walk = Inr (Some (e, r, evs))"
    and texts: "map (\<lambda>ev. plain_text path_runtime (ev_value ev)) evs = [''-5'', ''7'', ''AB'', []]"
    using example_walk_events by (auto split: sum.splits option.splits)
  have all: "filter (event_named None) evs = evs"
  proof -
    have "case example_walk of Inr (Some (e, r, evs)) \<Rightarrow> list_all (event_named None) evs | _ \<Rightarrow> False"
      by code_simp
    then have "list_all (event_named None) evs" unfolding run by simp
    then show ?thesis by (simp add: list_all_iff filter_id_conv)
  qed
  have quotes: "list_all (\<lambda>ev. CHR 0x27 \<notin> set (plain_text (st_runtime example_settings) (ev_value ev))) evs"
  proof -
    have "list_all (\<lambda>s. CHR 0x27 \<notin> set s) (map (\<lambda>ev. plain_text path_runtime (ev_value ev)) evs)"
      unfolding texts by simp
    then show ?thesis by (simp add: list_all_iff example_settings_def)
  qed
  have "evs \<noteq> []" using texts by auto
  then have some: "filter (event_named None) evs \<noteq> [] \<or> prop_list None \<noteq> []" using all by simp
  have table: "findAlias None ''t'' = ''t''" by (simp add: findAlias_def)
  have rest: "st_format_number example_settings < 0" "\<forall>p \<in> set (prop_list None). CHR 0x27 \<notin> set (snd p)"
    "findAlias None ''t'' \<noteq> []" "st_runtime example_settings = path_runtime"
    by (simp_all add: example_settings_def prop_list_def table)
  have made: "decomposer_of_type (st_fuel example_settings) (st_hash example_settings) (st_runtime example_settings)
      (st_time example_settings) ''t'' c' (st_pool example_settings) True example_message = Inr (Some (e, r, evs))"
    using run new by (simp add: example_settings_def example_walk_def)
  note stated = put_sql_prints_walk [OF rest(1) new made rest(3) some quotes rest(2),
      of SQL_SQLITE, unfolded all rest(4) texts table]
  show ?thesis
    using stated by (elim exE conjE) (intro exI conjI, assumption, simp add: prop_list_def)
qed

end
