(* ===== verification/Pipeline.thy ===== *)
theory Pipeline
  imports Compose FieldsBack MessageFormat
begin

section \<open>From packets to messages\<close>

text \<open>
  How the components work together: a packet is put into a Javascript context, and the
  expressions of the declarations read the fields of the message from there.
\<close>

text \<open>A message field that takes its value from a number field of the packet.\<close>

definition takes_number :: "field list \<Rightarrow> field_desc \<Rightarrow> bool" where
  "takes_number fs fd =
     (fd_type fd = CPPTYPE_UINT32 \<and> \<not> fd_repeated fd \<and>
      list_ex (\<lambda>f. f_type f = INPUT_UINT \<and> v_get (fd_variable fd) = ''field.'' @ f_name f) fs)"

definition source_field :: "field list \<Rightarrow> field_desc \<Rightarrow> field" where
  "source_field fs fd =
     (case find (\<lambda>f. f_type f = INPUT_UINT \<and> v_get (fd_variable fd) = ''field.'' @ f_name f) fs of
        Some f \<Rightarrow> f
      | None \<Rightarrow> \<lparr>f_name = [], f_type = INPUT_NONE, f_endian = ENDIAN_NO_MATTER, f_offset = 0, f_size = 0, f_tag = 0\<rparr>)"

lemma source_field_props:
  assumes "takes_number fs fd"
  shows "source_field fs fd \<in> set fs" and "f_type (source_field fs fd) = INPUT_UINT"
    and "v_get (fd_variable fd) = ''field.'' @ f_name (source_field fs fd)"
proof -
  let ?P = "\<lambda>f. f_type f = INPUT_UINT \<and> v_get (fd_variable fd) = ''field.'' @ f_name f"
  have "find ?P fs \<noteq> None"
    using assms unfolding takes_number_def list_ex_iff find_None_iff by blast
  then obtain f where f: "find ?P fs = Some f" by blast
  then have "source_field fs fd = f" by (simp add: source_field_def)
  moreover have "f \<in> set fs" "?P f" using f by (auto simp: find_Some_iff)
  ultimately show "source_field fs fd \<in> set fs" "f_type (source_field fs fd) = INPUT_UINT"
    "v_get (fd_variable fd) = ''field.'' @ f_name (source_field fs fd)" by simp_all
qed

text \<open>Asked for such a field, the callback answers with the decimal text of the number.\<close>

lemma oncomposefield_number:
  assumes "reads_fields rt" and "pe_context env = Some (put_global rt ''field'' (JObj obj) e0)"
    and "map_of (oc_variables (pe_options_cache env)) t = Some pv"
    and "getVariableByFieldNumber pv (fd_number fd) = Some (fd_name fd, fd_variable fd)"
    and "v_get (fd_variable fd) = ''field.'' @ f_name f" and "number_field (length packet) f"
    and "map_of obj (js_name f) = Some (js_int (uint (ucast (field_number packet f) :: u32)))"
  shows "oncomposefield rt t ty (fd_number fd) repeated i s env =
    Inr (False, dec_str (unat (ucast (field_number packet f) :: u32)), env)"
proof -
  define w where "w = (ucast (field_number packet f) :: u32)"
  have name: "plain_name (f_name f)" using assms(6) by (simp add: number_field_def)
  then have "js_name f = f_name f" by (simp add: js_name_def plain_name_c_string)
  then have "map_of obj (f_name f) = Some (js_int (uint w))" using assms(7) by (simp add: w_def)
  moreover have "\<bar>uint w\<bar> < 2 ^ 53" using unsigned_less [of w, where ?'a = int] by simp
  ultimately have "eval rt (''field.'' @ f_name f) (put_global rt ''field'' (JObj obj) e0) =
      ((False, int_str (uint w)), put_global rt ''field'' (JObj obj) e0)"
    using assms(1) name unfolding reads_fields_def by blast
  then have "peval rt (v_get (fd_variable fd)) (put_global rt ''field'' (JObj obj) e0) =
      ((False, dec_str (unat w)), put_global rt ''field'' (JObj obj) e0)"
    using plain_name_c_string(2) [OF name] by (simp add: peval_def assms(5) int_str_uint)
  then show ?thesis
    using assms(2-4) by (simp add: oncomposefield_def getPacketVariable_def w_def)
qed

lemma parse_uint32_of_word: "parse_uint32_t (dec_str (unat (w :: u32))) = w"
  by simp

text \<open>Composing a flat message, field by field.\<close>

lemma compose_flat_fields:
  assumes "\<And>fd. fd \<in> set fds \<Longrightarrow> one fd [] env = Inr (Some ([val fd], env))"
  shows "compose_fields one (zip fds (replicate (length fds) [])) env = Inr (Some (map (\<lambda>fd. [val fd]) fds, env))"
  using assms by (induction fds) simp_all

lemma composeField_number:
  assumes "fd_type fd = CPPTYPE_UINT32" and "\<not> fd_repeated fd"
    and "\<exists>i. getIndex c t (fd_name fd) = Inr i"
    and "oncomposefield rt t CPPTYPE_UINT32 (fd_number fd) False 0 [] env = Inr (False, dec_str (unat (w :: u32)), env)"
  shows "composeField n rt again (packet_callbacks rt) (Some c) pool t fd [] env = Inr (Some ([PUInt32 w], env))"
  using assms by (auto simp: composeField_def packet_callbacks_def Let_def set_text_def)

text \<open>The environment of a packet, and the message that its numbers make.\<close>

definition packet_env :: "names option \<times> names option \<times> names option \<Rightarrow> cache \<Rightarrow> bytes \<Rightarrow> packet_variable \<Rightarrow> 'e
    \<Rightarrow> 'e parse_env" where
  "packet_env al c packet pv e =
     \<lparr>pe_packet = packet, pe_options_cache = c, pe_root = Some pv, pe_context = Some e,
      pe_fieldnames = [], pe_tableAliases = fst al, pe_fieldAliases = fst (snd al), pe_properties = snd (snd al)\<rparr>"

definition number_value :: "bytes \<Rightarrow> field list \<Rightarrow> field_desc \<Rightarrow> pb_value" where
  "number_value packet fs fd = PUInt32 (ucast (field_number packet (source_field fs fd)))"

definition has_numbers :: "bytes \<Rightarrow> (string \<times> jsval) list \<Rightarrow> field list \<Rightarrow> bool" where
  "has_numbers packet obj fs =
     list_all (\<lambda>f. number_field (length packet) f \<and>
       map_of obj (js_name f) = Some (js_int (uint (ucast (field_number packet f) :: u32)))) fs"

lemma cached_type:
  assumes "cache_new fuel hash pd = Inr (Some c)" and "getMessageDescriptor pd t = Some md"
    and "map_of (oc_variables c) t = Some pv"
  shows "packet_variable_new fuel hash pd t = Inr (Some pv)" and "pv_message_type pv = t" and "oc_declarations c = pd"
proof -
  show pv: "packet_variable_new fuel hash pd t = Inr (Some pv)" and "oc_declarations c = pd"
    using assms(1,3) cache_new_lookup [OF assms(1,2)] by (auto simp: cache_new_def addDeclarations_def)
  show "pv_message_type pv = t"
    using pv assms(2) by (auto simp: packet_variable_new_def Let_def split: prod.splits)
qed

text \<open>Building the environment puts every number of the packet into the field object.\<close>

lemma environment_has_numbers:
  assumes "cache_new fuel hash pd = Inr (Some c)" and "getMessageDescriptor pd t = Some md"
    and "map_of (oc_variables c) t = Some pv" and "t \<noteq> []"
    and "list_all (number_field (length packet)) (pk_fields (pv_packet pv))"
    and "distinct (map f_name (pk_fields (pv_packet pv)))"
    and "list_all (\<lambda>fd. fd_type fd \<noteq> CPPTYPE_MESSAGE) (md_fields md)"
  obtains obj e0 where "has_numbers packet obj (pk_fields (pv_packet pv))"
    and "parse_env_new (Suc n) rt now src dst packet c t (fst al) (fst (snd al)) (snd (snd al)) =
      Inr (Some (packet_env al c packet pv (put_global rt ''field'' (JObj obj) e0)))"
proof -
  let ?fs = "pk_fields (pv_packet pv)" and ?f2d = "float_to_double rt"
  have num: "number_field (length packet) f" if "f \<in> set ?fs" for f
    using assms(5) that by (simp add: list_all_iff)
  obtain obj where obj: "push_fields ?f2d packet ?fs [] = Inr obj"
    using push_fields_ok [of ?fs ?f2d packet "[]"] field_number_js [OF num] by auto
  have "map js_name ?fs = map f_name ?fs"
    using num plain_name_c_string(1) by (auto simp: js_name_def number_field_def)
  then have names: "distinct (map js_name ?fs)" using assms(6) by (simp only:)
  have numbers: "has_numbers packet obj ?fs"
    using push_fields_get [OF obj names] field_number_js [OF num, of _ ?f2d] num
    by (auto simp: has_numbers_def list_all_iff)
  define e0 where "e0 = putSocketAddress rt ''dst'' dst (putSocketAddress rt ''src'' src (js_time rt now))"
  have "js_context_sockets (Suc n) rt now c pv src dst packet = Inr (Some (put_global rt ''field'' (JObj obj) e0))"
    using assms(2,7) cached_type [OF assms(1-3)]
    by (simp add: js_context_sockets_def obj push_nested_all_none e0_def)
  then have "parse_env_new (Suc n) rt now src dst packet c t (fst al) (fst (snd al)) (snd (snd al)) =
      Inr (Some (packet_env al c packet pv (put_global rt ''field'' (JObj obj) e0)))"
    using assms(3,4) by (simp add: parse_env_new_def getPacketVariable_def packet_env_def Let_def)
  with numbers show thesis by (rule that)
qed

text \<open>In such an environment every field of the message is set to its number.\<close>

lemma field_gets_number:
  assumes "reads_fields rt" and "declarations_ok pd" and "cache_new fuel hash pd = Inr (Some c)"
    and "getMessageDescriptor pd t = Some md" and "map_of (oc_variables c) t = Some pv"
    and "has_numbers packet obj fs" and "fs = pk_fields (pv_packet pv)"
    and "takes_number fs fd" and "fd \<in> set (md_fields md)"
    and "env = onmessagebegin None (packet_env al c packet pv (put_global rt ''field'' (JObj obj) e0))"
  shows "composeField (Suc k) rt again (packet_callbacks rt) (Some c) (getMessageDescriptor pd) t fd [] env =
    Inr (Some ([number_value packet fs fd], env))"
proof -
  let ?f = "source_field fs fd"
  note src = source_field_props [OF assms(8)]
  have num: "number_field (length packet) ?f" "map_of obj (js_name ?f) = Some (js_int (uint (ucast (field_number packet ?f) :: u32)))"
    using assms(6) src(1) by (auto simp: has_numbers_def list_all_iff)
  have small: "length (md_fields md') < 2 ^ 64" if "getMessageDescriptor pd s = Some md'" for s md'
    using declarations_okD [OF assms(2) that] by blast
  have index: "\<exists>i. getIndex c t f = Inr i" for f
    using key_index_ok [where t = t and fd = "example_field_desc 0 f CPPTYPE_BOOL [] False",
        OF cache_new_indexes_ok [OF assms(3) small]]
    by (simp add: key_index_def example_field_desc_def)
  have "getVariableByFieldNumber pv (fd_number fd) = Some (fd_name fd, fd_variable fd)"
    using packet_variable_new_lookup [OF cached_type(1) [OF assms(3-5)] assms(4) _ assms(9)]
      declarations_okD [OF assms(2,4)] by blast
  then have "oncomposefield rt t CPPTYPE_UINT32 (fd_number fd) False 0 [] env =
      Inr (False, dec_str (unat (ucast (field_number packet ?f) :: u32)), env)"
    using oncomposefield_number [where env = env and obj = obj and ?e0.0 = e0 and f = ?f and fd = fd
        and packet = packet and pv = pv and t = t, OF assms(1)]
      num src(3) assms(5)
    by (simp add: assms(10) packet_env_def onmessagebegin_def pushFieldName_def)
  then show ?thesis
    using composeField_number [where env = env and fd = fd and t = t, OF _ _ index] assms(8)
    by (simp add: number_value_def takes_number_def)
qed

lemma compose_numbers:
  assumes "getMessageDescriptor pd t = Some md" and "md_full_name md = t"
    and "env = packet_env al c packet pv e"
    and field: "\<And>fd again. fd \<in> set (md_fields md) \<Longrightarrow>
      composeField (Suc k) rt again (packet_callbacks rt) (Some c) (getMessageDescriptor pd) t fd [] (onmessagebegin None env) =
        Inr (Some ([val fd], onmessagebegin None env))"
  shows "compose (Suc k) rt (packet_callbacks rt) (Some c) (getMessageDescriptor pd) None
      (new_message (getMessageDescriptor pd) t) False 0 env =
    Inr (Some (False, PbMessage t (map (\<lambda>fd. [val fd]) (md_fields md)), env))"
proof -
  let ?pool = "getMessageDescriptor pd" and ?env1 = "onmessagebegin None env"
  have new: "pm_slots (new_message ?pool t) = replicate (length (md_fields md)) []" "pm_type (new_message ?pool t) = t"
    using assms(1) by (simp_all add: new_message_def)
  have "onmessageend ?env1 = Inr env"
    by (simp add: onmessageend_def popFieldName_def assms(3) packet_env_def onmessagebegin_def pushFieldName_def)
  moreover have "compose_fields (composeField (Suc k) rt again (packet_callbacks rt) (Some c) ?pool t)
      (zip (md_fields md) (replicate (length (md_fields md)) [])) ?env1 =
      Inr (Some (map (\<lambda>fd. [val fd]) (md_fields md), ?env1))" for again
    by (rule compose_flat_fields) (rule field)
  ultimately show ?thesis
    using assms(1,2) by (simp add: new packet_callbacks_def)
qed

lemma number_value_extracted:
  assumes "number_field (length packet) (source_field fs fd)" and "f_type (source_field fs fd) = INPUT_UINT"
  shows "\<exists>v. extractFieldUInt packet (source_field fs fd) = Inr v \<and> number_value packet fs fd = PUInt32 (ucast v)"
proof -
  have "in_packet (length packet) (source_field fs fd)" using assms(1) by (simp add: number_field_def)
  then obtain v where "extractFieldUInt packet (source_field fs fd) = Inr v"
    using extract_numbers_ok(1) unfolding isOk_iff by blast
  then show ?thesis using assms(2) by (simp add: number_value_def field_number_def)
qed

text \<open>The message does not depend on the addresses, and parsing leaves the environment as it is.\<close>

lemma numbers_parsed:
  assumes "reads_fields rt" and "declarations_ok pd" and "cache_new fuel hash pd = Inr (Some c)"
    and "getMessageDescriptor pd t = Some md" and "t \<noteq> []" and "map_of (oc_variables c) t = Some pv"
    and "list_all (number_field (length packet)) (pk_fields (pv_packet pv))"
    and "distinct (map f_name (pk_fields (pv_packet pv)))"
    and "list_all (takes_number (pk_fields (pv_packet pv))) (md_fields md)"
    and "m = PbMessage t (map (\<lambda>fd. [number_value packet (pk_fields (pv_packet pv)) fd]) (md_fields md))"
  shows "\<exists>env. parse_env_new (Suc n) rt now src dst packet c t (fst al) (fst (snd al)) (snd (snd al)) = Inr (Some env) \<and>
      pe_root env = Some pv \<and> pe_options_cache env = c \<and>
      parsePacket (Suc k) rt (Some c) (getMessageDescriptor pd) env = Inr (Some (Some m, env))"
    and "list_all2 (\<lambda>fd slot. \<exists>v. extractFieldUInt packet (source_field (pk_fields (pv_packet pv)) fd) = Inr v \<and>
        slot = [PUInt32 (ucast v)]) (md_fields md) (pm_slots m)"
proof -
  let ?fs = "pk_fields (pv_packet pv)" and ?pool = "getMessageDescriptor pd"
  have takes: "takes_number ?fs fd" if "fd \<in> set (md_fields md)" for fd
    using assms(9) that by (simp add: list_all_iff)
  have "list_all (\<lambda>fd. fd_type fd \<noteq> CPPTYPE_MESSAGE) (md_fields md)"
    using takes by (auto simp: list_all_iff takes_number_def)
  from environment_has_numbers [OF assms(3,4,6,5,7,8) this]
  obtain obj e0 where obj: "has_numbers packet obj ?fs"
    "parse_env_new (Suc n) rt now src dst packet c t (fst al) (fst (snd al)) (snd (snd al)) =
      Inr (Some (packet_env al c packet pv (put_global rt ''field'' (JObj obj) e0)))"
    by blast
  define env where "env = packet_env al c packet pv (put_global rt ''field'' (JObj obj) e0)"
  have "md_full_name md = t" using declarations_okD [OF assms(2,4)] by blast
  from compose_numbers [OF assms(4) this env_def]
  have "compose (Suc k) rt (packet_callbacks rt) (Some c) ?pool None (new_message ?pool t) False 0 env =
      Inr (Some (False, m, env))"
    using field_gets_number [OF assms(1-4,6) obj(1) refl takes] unfolding assms(10) env_def by blast
  then have "parsePacket (Suc k) rt (Some c) ?pool env = Inr (Some (Some m, env))"
    using assms(4) cached_type(2) [OF assms(3,4,6)]
    by (simp add: parsePacket_def env_def packet_env_def getMessageByName_def composer_new_def del: compose.simps)
  then show "\<exists>env. parse_env_new (Suc n) rt now src dst packet c t (fst al) (fst (snd al)) (snd (snd al)) = Inr (Some env) \<and>
      pe_root env = Some pv \<and> pe_options_cache env = c \<and>
      parsePacket (Suc k) rt (Some c) ?pool env = Inr (Some (Some m, env))"
    using obj(2) by (intro exI [of _ env]) (simp add: env_def packet_env_def)
  show "list_all2 (\<lambda>fd slot. \<exists>v. extractFieldUInt packet (source_field ?fs fd) = Inr v \<and>
        slot = [PUInt32 (ucast v)]) (md_fields md) (pm_slots m)"
    using number_value_extracted source_field_props [OF takes] assms(7)
    by (simp add: assms(10) list_all2_conv_all_nth list_all_iff)
qed

subsection \<open>Properties\<close>

text \<open>
  C3: Let the fields of a message type be 32-bit numbers that are read from unsigned fields
  of a packet of at most four bytes, by expressions \<open>field.name\<close>. For every packet the
  environment of the packet is built and parsePacket returns the message whose fields are
  the numbers in the packet, in the order of the declaration.
\<close>

theorem packet_numbers_reach_message:
  assumes "reads_fields rt" and "declarations_ok pd" and "cache_new fuel hash pd = Inr (Some c)"
    and "getMessageDescriptor pd t = Some md" and "t \<noteq> []" and "map_of (oc_variables c) t = Some pv"
    and "list_all (number_field (length packet)) (pk_fields (pv_packet pv))"
    and "distinct (map f_name (pk_fields (pv_packet pv)))"
    and "list_all (takes_number (pk_fields (pv_packet pv))) (md_fields md)"
  shows "\<exists>env m env'. parse_env_new (Suc n) rt now src dst packet c t None None None = Inr (Some env) \<and>
    parsePacket (Suc k) rt (Some c) (getMessageDescriptor pd) env = Inr (Some (Some m, env')) \<and>
    pm_type m = t \<and>
    list_all2 (\<lambda>fd slot. \<exists>v. extractFieldUInt packet (source_field (pk_fields (pv_packet pv)) fd) = Inr v \<and>
        slot = [PUInt32 (ucast v)]) (md_fields md) (pm_slots m)"
  using numbers_parsed(1) [OF assms refl, where al = "(None, None, None)"] numbers_parsed(2) [OF assms refl]
  by fastforce

definition sensor_field :: "int \<Rightarrow> string \<Rightarrow> field_desc" where
  "sensor_field number name =
     (example_field_desc number name CPPTYPE_UINT32 [] False)
       \<lparr>fd_variable := no_variable\<lparr>v_get := ''field.'' @ name\<rparr>\<rparr>"

definition sensor_fields :: "field list" where
  "sensor_fields =
     [\<lparr>f_name = ''a'', f_type = INPUT_UINT, f_endian = ENDIAN_BIG_ENDIAN, f_offset = 0, f_size = 2, f_tag = 0\<rparr>,
      \<lparr>f_name = ''b'', f_type = INPUT_UINT, f_endian = ENDIAN_LITTLE_ENDIAN, f_offset = 2, f_size = 1, f_tag = 0\<rparr>]"

definition sensor_declarations :: declarations where
  "sensor_declarations =
     [(''s'', \<lparr>md_full_name = ''s'', md_packet = Some \<lparr>pk_name = ''s'', pk_id = 1, pk_fields = sensor_fields\<rparr>,
               md_fields = [sensor_field 2 ''b'', sensor_field 1 ''a'']\<rparr>)]"

definition sensor_md :: descriptor where
  "sensor_md = snd (hd sensor_declarations)"

theorem packet_numbers_reach_message_witness:
  "\<exists>c env m env'. parse_env_new 1 path_runtime 0 None None [1, 2, 3] c ''s'' None None None = Inr (Some env) \<and>
    parsePacket 1 path_runtime (Some c) (getMessageDescriptor sensor_declarations) env = Inr (Some (Some m, env')) \<and>
    pm_type m = ''s''"
proof -
  have "case cache_new 9 (\<lambda>s. 7) sensor_declarations of
      Inr (Some c) \<Rightarrow> (case map_of (oc_variables c) ''s'' of
        Some pv \<Rightarrow> pk_fields (pv_packet pv) = sensor_fields
      | None \<Rightarrow> False)
    | _ \<Rightarrow> False"
    by code_simp
  then obtain c pv where c: "cache_new 9 (\<lambda>s. 7) sensor_declarations = Inr (Some c)"
    "map_of (oc_variables c) ''s'' = Some pv" and fs: "pk_fields (pv_packet pv) = sensor_fields"
    by (auto split: sum.splits option.splits)
  have fields: "list_all (number_field (length [1, 2, 3 :: byte])) (pk_fields (pv_packet pv))"
    "distinct (map f_name (pk_fields (pv_packet pv)))"
    by (simp_all add: fs sensor_fields_def number_field_def in_packet_def plain_name_def is_letter_def is_digit_def less_eq_char_def)
  have "list_all (takes_number sensor_fields) (md_fields sensor_md)"
    by code_simp
  then have takes: "list_all (takes_number (pk_fields (pv_packet pv))) (md_fields sensor_md)"
    by (simp add: fs)
  have ok: "declarations_ok sensor_declarations"
    by (simp add: declarations_ok_def sensor_declarations_def sensor_field_def example_field_desc_def)
  have md: "getMessageDescriptor sensor_declarations ''s'' = Some sensor_md"
    by (simp add: getMessageDescriptor_def sensor_declarations_def sensor_md_def)
  show ?thesis
    using packet_numbers_reach_message [OF path_reads_fields ok c(1) md _ c(2) fields takes, of 0 0 None None 0]
    unfolding One_nat_def by blast
qed

end
