(* ===== verification/PbJson.thy ===== *)
theory PbJson
  imports JsContext
begin

section \<open>Messages as JSON\<close>

text \<open>
  pbjson.cpp: a message as a value of the rapidjson library and back. An integer of that
  library keeps the ranges it fits into, which the accessors assert; an assertion that fails
  is a fault. Writing a value as text and parsing a text belong to the library and are
  parameters, as are the conversions between float and double.
\<close>

unbundle bit_operations_syntax

definition ERR_INVALID_ARG :: int where "ERR_INVALID_ARG = - 1"
definition ERR_INVALID_PB :: int where "ERR_INVALID_PB = - 2"
definition ERR_INVALID_JSON :: int where "ERR_INVALID_JSON = - 4"

datatype json =
    RNull
  | RBool bool
  | RInt int
  | RDouble u64
  | RString bytes
  | RArray "json list"
  | RObject "(string \<times> json) list"

text \<open>
  The values of an enum type by number and by name; the double nearest to an integer.
\<close>

record json_library =
  enum_number :: "field_desc \<Rightarrow> u32 \<Rightarrow> bool"
  enum_name :: "field_desc \<Rightarrow> bytes \<Rightarrow> u32 option"
  widen :: "u32 \<Rightarrow> u64"
  narrow :: "u64 \<Rightarrow> u32"
  double_of_int :: "int \<Rightarrow> u64"

subsection \<open>To JSON\<close>

text \<open>
  A single 64-bit unsigned value is cast to a signed one, an element of a list is not.
\<close>

fun scalar2json :: "json_library \<Rightarrow> field_desc \<Rightarrow> pb_value \<Rightarrow> json" where
  "scalar2json lib fd (PDouble w) = RDouble w"
| "scalar2json lib fd (PFloat w) = RDouble (widen lib w)"
| "scalar2json lib fd (PInt64 w) = RInt (sint w)"
| "scalar2json lib fd (PUInt64 w) = RInt (if fd_repeated fd then uint w else sint w)"
| "scalar2json lib fd (PInt32 w) = RInt (sint w)"
| "scalar2json lib fd (PUInt32 w) = RInt (uint w)"
| "scalar2json lib fd (PBool b) = RBool b"
| "scalar2json lib fd (PString s) = RString (if fd_bytes fd then bytes_of_text (b64_encode s) else s)"
| "scalar2json lib fd (PEnum w) = RInt (sint w)"
| "scalar2json lib fd (PMessage m) = RNull"

text \<open>
  parse_msg gives no value for a message without descriptor, and a nested one of this kind
  is dereferenced. A singular field that is not present is not printed, so field2json sees
  an empty slot for repeated fields only.
\<close>

fun parse_msg :: "json_library \<Rightarrow> pool \<Rightarrow> pb_message \<Rightarrow> json option result"
  and parse_fields :: "json_library \<Rightarrow> pool \<Rightarrow> field_desc list \<Rightarrow> pb_value list list \<Rightarrow> (string \<times> json) list result"
  and field2json :: "json_library \<Rightarrow> pool \<Rightarrow> field_desc \<Rightarrow> pb_value list \<Rightarrow> json result"
  and values2json :: "json_library \<Rightarrow> pool \<Rightarrow> field_desc \<Rightarrow> pb_value list \<Rightarrow> json list result"
  and value2json :: "json_library \<Rightarrow> pool \<Rightarrow> field_desc \<Rightarrow> pb_value \<Rightarrow> json result" where
  "parse_msg lib pool (PbMessage t slots) =
     (case pool t of
        None \<Rightarrow> Inr None
      | Some md \<Rightarrow> bindR (parse_fields lib pool (md_fields md) slots) (\<lambda>ms. Inr (Some (RObject ms))))"
| "parse_fields lib pool (fd # fds) (slot # slots) =
     (if \<not> fd_repeated fd \<and> \<not> has_field pool fd slot then parse_fields lib pool fds slots
      else bindR (field2json lib pool fd slot) (\<lambda>j.
           bindR (parse_fields lib pool fds slots) (\<lambda>ms. Inr ((fd_name fd, j) # ms))))"
| "parse_fields lib pool [] slots = Inr []"
| "parse_fields lib pool (fd # fds) [] = Inr []"
| "field2json lib pool fd [] = Inr (RArray [])"
| "field2json lib pool fd (v # vs) =
     (if fd_repeated fd then bindR (values2json lib pool fd (v # vs)) (\<lambda>js. Inr (RArray js))
      else value2json lib pool fd v)"
| "values2json lib pool fd [] = Inr []"
| "values2json lib pool fd (v # vs) =
     bindR (value2json lib pool fd v) (\<lambda>j. bindR (values2json lib pool fd vs) (\<lambda>js. Inr (j # js)))"
| "value2json lib pool fd (PMessage m) =
     bindR (parse_msg lib pool m) (\<lambda>r. case r of None \<Rightarrow> Inl NullPointer | Some j \<Rightarrow> Inr j)"
| "value2json lib pool fd v = Inr (scalar2json lib fd v)"

subsection \<open>From JSON\<close>

definition get_int :: "int \<Rightarrow> int \<Rightarrow> int \<Rightarrow> int result" where
  "get_int lo hi i = (if lo \<le> i \<and> i < hi then Inr i else Inl (Thrown ''RAPIDJSON_ASSERT''))"

text \<open>The number of a JSON value, within the bounds of the accessor, or an error text.\<close>

definition json_int :: "int \<Rightarrow> int \<Rightarrow> (int \<Rightarrow> pb_value) \<Rightarrow> json \<Rightarrow> (string + pb_value) result" where
  "json_int lo hi mk j =
     (case j of
        RInt i \<Rightarrow> bindR (get_int lo hi i) (\<lambda>i. Inr (Inr (mk i)))
      | RDouble w \<Rightarrow> Inl (Thrown ''RAPIDJSON_ASSERT'')
      | _ \<Rightarrow> Inr (Inl ''Not a number''))"

definition json_double :: "json_library \<Rightarrow> (u64 \<Rightarrow> pb_value) \<Rightarrow> json \<Rightarrow> (string + pb_value) result" where
  "json_double lib mk j =
     (case j of
        RInt i \<Rightarrow> Inr (Inr (mk (double_of_int lib i)))
      | RDouble w \<Rightarrow> Inr (Inr (mk w))
      | _ \<Rightarrow> Inr (Inl ''Not a number''))"

definition json_enum :: "json_library \<Rightarrow> field_desc \<Rightarrow> json \<Rightarrow> (string + pb_value) result" where
  "json_enum lib fd j =
     (case j of
        RInt i \<Rightarrow> bindR (get_int (- (2 ^ 31)) (2 ^ 31) i) (\<lambda>i.
          Inr (if enum_number lib fd (of_int i) then Inr (PEnum (of_int i)) else Inl ''Enum value not found''))
      | RDouble w \<Rightarrow> Inl (Thrown ''RAPIDJSON_ASSERT'')
      | RString s \<Rightarrow>
          (case enum_name lib fd (takeWhile (\<lambda>b. b \<noteq> 0) s) of
             Some w \<Rightarrow> Inr (Inr (PEnum w))
           | None \<Rightarrow> Inr (Inl ''Enum value not found''))
      | _ \<Rightarrow> Inr (Inl ''Not an integer or string''))"

definition scalar_of_json :: "json_library \<Rightarrow> field_desc \<Rightarrow> json \<Rightarrow> (string + pb_value) result" where
  "scalar_of_json lib fd j =
     (case fd_type fd of
        CPPTYPE_INT32 \<Rightarrow> json_int (- (2 ^ 31)) (2 ^ 31) (\<lambda>i. PInt32 (of_int i)) j
      | CPPTYPE_UINT32 \<Rightarrow> json_int 0 (2 ^ 32) (\<lambda>i. PUInt32 (of_int i)) j
      | CPPTYPE_INT64 \<Rightarrow> json_int (- (2 ^ 63)) (2 ^ 63) (\<lambda>i. PInt64 (of_int i)) j
      | CPPTYPE_UINT64 \<Rightarrow> json_int 0 (2 ^ 64) (\<lambda>i. PUInt64 (of_int i)) j
      | CPPTYPE_DOUBLE \<Rightarrow> json_double lib PDouble j
      | CPPTYPE_FLOAT \<Rightarrow> json_double lib (\<lambda>w. PFloat (narrow lib w)) j
      | CPPTYPE_BOOL \<Rightarrow> (case j of RBool b \<Rightarrow> Inr (Inr (PBool b)) | _ \<Rightarrow> Inr (Inl ''Not a bool''))
      | CPPTYPE_ENUM \<Rightarrow> json_enum lib fd j
      | CPPTYPE_STRING \<Rightarrow>
          (case j of
             RString s \<Rightarrow>
               (if fd_bytes fd then bindR (b64_decode (text_of_bytes s)) (\<lambda>b. Inr (Inr (PString b)))
                else Inr (Inr (PString s)))
           | _ \<Rightarrow> Inr (Inl ''Not a string''))
      | CPPTYPE_MESSAGE \<Rightarrow> Inr (Inl []))"

text \<open>The position of a field with a name, a C string. There are no extensions in proto3.\<close>

fun field_position :: "string \<Rightarrow> field_desc list \<Rightarrow> nat option" where
  "field_position name [] = None"
| "field_position name (fd # fds) = (if fd_name fd = name then Some 0 else map_option Suc (field_position name fds))"

definition slot_put :: "nat \<Rightarrow> pb_value list \<Rightarrow> pb_message \<Rightarrow> pb_message" where
  "slot_put i slot m = PbMessage (pm_type m) ((pm_slots m)[i := slot])"

definition slot_add :: "field_desc \<Rightarrow> nat \<Rightarrow> pb_value \<Rightarrow> pb_message \<Rightarrow> pb_message" where
  "slot_add fd i v m = slot_put i (if fd_repeated fd then pm_slots m ! i @ [v] else [v]) m"

text \<open>The message that a JSON object is parsed into: a new element, or the one that is there.\<close>

definition sub_message :: "pool \<Rightarrow> field_desc \<Rightarrow> nat \<Rightarrow> pb_message \<Rightarrow> pb_message" where
  "sub_message pool fd i m =
     (if fd_repeated fd then new_message pool (fd_message fd)
      else (case get_value pool fd (pm_slots m ! i) of
              PMessage mf \<Rightarrow> mf | _ \<Rightarrow> new_message pool (fd_message fd)))"

text \<open>
  The result code, the error text and the message as far as it was filled. A repeated
  field takes the elements of an array, a null clears the field, an unknown name is passed
  over.
\<close>

lemma json_members_size: "size_list (\<lambda>p. size (snd p)) ms \<le> size_list (size_prod (\<lambda>x. 0) size) ms"
  by (induction ms) auto

function parse_json :: "json_library \<Rightarrow> pool \<Rightarrow> json \<Rightarrow> pb_message \<Rightarrow> string \<Rightarrow> (int \<times> string \<times> pb_message) result"
  and parse_members :: "json_library \<Rightarrow> pool \<Rightarrow> field_desc list \<Rightarrow> (string \<times> json) list \<Rightarrow> pb_message \<Rightarrow> string
    \<Rightarrow> (int \<times> string \<times> pb_message) result"
  and parse_elements :: "json_library \<Rightarrow> pool \<Rightarrow> field_desc \<Rightarrow> nat \<Rightarrow> json list \<Rightarrow> pb_message \<Rightarrow> string
    \<Rightarrow> (int \<times> string \<times> pb_message) result"
  and json2field :: "json_library \<Rightarrow> pool \<Rightarrow> field_desc \<Rightarrow> nat \<Rightarrow> json \<Rightarrow> pb_message \<Rightarrow> string
    \<Rightarrow> (int \<times> string \<times> pb_message) result" where
  "parse_json lib pool j m err =
     (case j of
        RObject ms \<Rightarrow>
          (case pool (pm_type m) of
             None \<Rightarrow> Inr (ERR_INVALID_PB, ''invalid pb object'', m)
           | Some md \<Rightarrow> parse_members lib pool (md_fields md) ms m err)
      | _ \<Rightarrow> Inr (ERR_INVALID_ARG, err, m))"
| "parse_members lib pool fds ms m err =
     (case ms of
        [] \<Rightarrow> Inr (0, err, m)
      | p # ms' \<Rightarrow>
          (case field_position (c_string (fst p)) fds of
             None \<Rightarrow> parse_members lib pool fds ms' m err
           | Some i \<Rightarrow>
               if snd p = RNull then parse_members lib pool fds ms' (slot_put i [] m) err
               else
                 bindR (if fd_repeated (fds ! i)
                        then (case snd p of
                                RArray js \<Rightarrow> parse_elements lib pool (fds ! i) i js m err
                              | _ \<Rightarrow> Inr (ERR_INVALID_JSON, ''Not array'', m))
                        else json2field lib pool (fds ! i) i (snd p) m err)
                   (\<lambda>r. if fst r \<noteq> 0 then Inr r
                        else parse_members lib pool fds ms' (snd (snd r)) (fst (snd r)))))"
| "parse_elements lib pool fd i js m err =
     (case js of
        [] \<Rightarrow> Inr (0, err, m)
      | j # js' \<Rightarrow>
          bindR (json2field lib pool fd i j m err)
            (\<lambda>r. if fst r \<noteq> 0 then Inr r
                 else parse_elements lib pool fd i js' (snd (snd r)) (fst (snd r))))"
| "json2field lib pool fd i j m err =
     (if fd_type fd = CPPTYPE_MESSAGE
      then bindR (parse_json lib pool j (sub_message pool fd i m) err)
             (\<lambda>r. Inr (fst r, fst (snd r), slot_add fd i (PMessage (snd (snd r))) m))
      else bindR (scalar_of_json lib fd j) (\<lambda>r.
             case r of
               Inl cause \<Rightarrow> Inr (ERR_INVALID_JSON, cause, m)
             | Inr v \<Rightarrow> Inr (0, err, slot_add fd i v m)))"
  by pat_completeness auto

termination
  by (relation "measure (case_sum
        (case_sum (\<lambda>(lib, pool, j, m, err). 2 * size j)
                  (\<lambda>(lib, pool, fds, ms, m, err). 2 * size_list (\<lambda>p. size (snd p)) ms))
        (case_sum (\<lambda>(lib, pool, fd, i, js, m, err). 2 * size_list size js)
                  (\<lambda>(lib, pool, fd, i, j, m, err). 2 * size j + 1)))")
     (auto simp: less_Suc_eq_le json_members_size intro!: le_SucI)

declare parse_json.simps [simp del] parse_members.simps [simp del] parse_elements.simps [simp del]
  json2field.simps [simp del]

subsection \<open>The interface\<close>

text \<open>What the rapidjson library does with text: the writer, and the parser with its error text.\<close>

definition json2string :: "(json \<Rightarrow> string) \<Rightarrow> json \<Rightarrow> string \<Rightarrow> string" where
  "json2string writer j str = str @ writer j"

definition pb2json :: "json_library \<Rightarrow> (json \<Rightarrow> string) \<Rightarrow> pool \<Rightarrow> pb_message \<Rightarrow> string \<Rightarrow> string result" where
  "pb2json lib writer pool m str =
     bindR (parse_msg lib pool m) (\<lambda>r.
       case r of None \<Rightarrow> Inl NullPointer | Some j \<Rightarrow> Inr (json2string writer j str))"

definition pb2jsonobject :: "json_library \<Rightarrow> pool \<Rightarrow> pb_message \<Rightarrow> json option result" where
  "pb2jsonobject lib pool m = parse_msg lib pool m"

definition jsonobject2pb :: "json_library \<Rightarrow> pool \<Rightarrow> json \<Rightarrow> pb_message \<Rightarrow> string \<Rightarrow> (int \<times> string \<times> pb_message) result" where
  "jsonobject2pb lib pool j m err = parse_json lib pool j m err"

definition json2pb :: "json_library \<Rightarrow> (string \<Rightarrow> string + json) \<Rightarrow> pool \<Rightarrow> string \<Rightarrow> pb_message \<Rightarrow> string
    \<Rightarrow> (int \<times> string \<times> pb_message) result" where
  "json2pb lib parser pool s m err =
     (case parser (c_string s) of
        Inl cause \<Rightarrow> Inr (ERR_INVALID_ARG, err @ cause, m)
      | Inr d \<Rightarrow> jsonobject2pb lib pool d m err)"

text \<open>ProtobufDeclarations::decode, for a message type of the pool.\<close>

definition decode_json :: "json_library \<Rightarrow> (string \<Rightarrow> string + json) \<Rightarrow> pool \<Rightarrow> string \<Rightarrow> string
    \<Rightarrow> pb_message option result" where
  "decode_json lib parser pool message_name s =
     (case pool message_name of
        None \<Rightarrow> Inr None
      | Some md \<Rightarrow>
          bindR (json2pb lib parser pool s (new_message pool message_name) []) (\<lambda>(ret, err, m).
            Inr (if ret \<noteq> 0 then None else Some m)))"

end
