(* ===== verification/PbJsonRound.thy ===== *)
theory PbJsonRound
  imports PbJson TextNumber
begin

section \<open>Messages survive JSON\<close>

text \<open>
  What pbjson.cpp promises: a message comes back from its JSON value, and no JSON value
  makes a message ill typed.
\<close>

subsection \<open>A message survives the round trip\<close>

text \<open>
  What a value has to satisfy: a single unsigned 64-bit number fits the signed type it is
  cast to, an enum number is declared, a float is not changed by way of a double. A slot of
  a singular field holds its value only if it is not the default, as in the wire format.
\<close>

definition value_survives :: "json_library \<Rightarrow> field_desc \<Rightarrow> pb_value \<Rightarrow> bool" where
  "value_survives lib fd v =
     (case v of
        PFloat w \<Rightarrow> narrow lib (widen lib w) = w
      | PUInt64 w \<Rightarrow> fd_repeated fd \<or> \<not> bit w 63
      | PEnum w \<Rightarrow> enum_number lib fd w
      | _ \<Rightarrow> True)"

definition slot_plain :: "pool \<Rightarrow> (field_desc \<Rightarrow> pb_value \<Rightarrow> bool) \<Rightarrow> field_desc \<Rightarrow> pb_value list \<Rightarrow> bool" where
  "slot_plain pool ok fd slot =
     ((fd_repeated fd \<or> slot = [] \<or> length slot = 1 \<and> has_field pool fd slot) \<and> list_all (ok fd) slot)"

definition names_plain :: "field_desc list \<Rightarrow> bool" where
  "names_plain fds = (distinct (map fd_name fds) \<and> list_all (\<lambda>fd. c_string (fd_name fd) = fd_name fd) fds)"

primrec json_ready :: "nat \<Rightarrow> json_library \<Rightarrow> pool \<Rightarrow> pb_message \<Rightarrow> bool" where
  "json_ready 0 lib pool = (\<lambda>m. False)"
| "json_ready (Suc n) lib pool = (\<lambda>m.
     case pool (pm_type m) of
       None \<Rightarrow> False
     | Some md \<Rightarrow>
         names_plain (md_fields md) \<and>
         list_all2 (slot_plain pool (\<lambda>fd v. value_type v = fd_type fd \<and>
             (case v of
                PMessage m' \<Rightarrow> pm_type m' = fd_message fd \<and> json_ready n lib pool m'
              | _ \<Rightarrow> value_survives lib fd v)))
           (md_fields md) (pm_slots m))"

definition value_ready :: "nat \<Rightarrow> json_library \<Rightarrow> pool \<Rightarrow> field_desc \<Rightarrow> pb_value \<Rightarrow> bool" where
  "value_ready n lib pool fd v =
     (value_type v = fd_type fd \<and>
      (case v of
         PMessage m' \<Rightarrow> pm_type m' = fd_message fd \<and> json_ready n lib pool m'
       | _ \<Rightarrow> value_survives lib fd v))"

lemma json_ready_Suc:
  "json_ready (Suc n) lib pool m =
     (case pool (pm_type m) of
        None \<Rightarrow> False
      | Some md \<Rightarrow> names_plain (md_fields md) \<and>
          list_all2 (slot_plain pool (value_ready n lib pool)) (md_fields md) (pm_slots m))"
  unfolding json_ready.simps value_ready_def [abs_def] ..

declare json_ready.simps(2) [simp del]

lemma sint_bounds: "- (2 ^ 31) \<le> sint (w :: u32)" "sint (w :: u32) < 2 ^ 31"
  using sint_range_size [of w] by (simp_all add: word_size)

lemma uint_bounds: "uint (w :: u32) < 2 ^ 32" "uint (x :: u64) < 2 ^ 64"
  using uint_range_size [of w] uint_range_size [of x] by (auto simp: word_size)

lemma sint_small64: "\<not> bit w 63 \<Longrightarrow> sint (w :: u64) = uint w"
  by (rule bit_eqI) (auto simp: bit_sint_iff bit_uint_iff min_def not_less dest: bit_imp_le_length)

lemma scalar_round:
  assumes "value_type v = fd_type fd" and "fd_type fd \<noteq> CPPTYPE_MESSAGE" and "value_survives lib fd v"
  shows "scalar_of_json lib fd (scalar2json lib fd v) = Inr (Inr v)"
    and "scalar2json lib fd v \<noteq> RNull" "value2json lib pool fd v = Inr (scalar2json lib fd v)"
proof -
  show "scalar_of_json lib fd (scalar2json lib fd v) = Inr (Inr v)"
  proof (cases v)
    case (PInt32 w)
    then show ?thesis using assms(1) sint_bounds [of w] 
      by (simp add: value_type_def scalar_of_json_def json_int_def get_int_def)
  next
    case (PInt64 w)
    then show ?thesis using assms(1) sint_range64 [of w] 
      by (simp add: value_type_def scalar_of_json_def json_int_def get_int_def)
  next
    case (PUInt32 w)
    then show ?thesis using assms(1) uint_bounds(1) [of w] 
      by (simp add: value_type_def scalar_of_json_def json_int_def get_int_def)
  next
    case (PUInt64 w)
    then show ?thesis using assms(1,3) uint_bounds(2) [of w] sint_small64 [of w]
      by (auto simp: value_type_def scalar_of_json_def json_int_def get_int_def value_survives_def)
  next
    case (PEnum w)
    then show ?thesis using assms(1,3) sint_bounds [of w] 
      by (simp add: value_type_def scalar_of_json_def json_enum_def get_int_def value_survives_def)
  next
    case (PString b)
    then show ?thesis using assms(1) b64_codec.roundtrip [of b] 
      by (simp add: value_type_def scalar_of_json_def)
  qed (use assms in \<open>simp_all add: value_type_def scalar_of_json_def json_double_def value_survives_def\<close>)
  show "scalar2json lib fd v \<noteq> RNull" "value2json lib pool fd v = Inr (scalar2json lib fd v)"
    using assms by (cases v; simp add: value_type_def)+
qed

lemma parse_elements_simps [simp]:
  "parse_elements lib pool fd i [] m err = Inr (0, err, m)"
  "parse_elements lib pool fd i (j # js) m err =
     bindR (json2field lib pool fd i j m err)
       (\<lambda>r. if fst r \<noteq> 0 then Inr r else parse_elements lib pool fd i js (snd (snd r)) (fst (snd r)))"
  by (simp_all add: parse_elements.simps [of lib pool fd i "[]"] parse_elements.simps [of lib pool fd i "j # js"])

lemma parse_members_Nil [simp]: "parse_members lib pool fds [] m err = Inr (0, err, m)"
  by (simp add: parse_members.simps [of lib pool fds "[]"])

lemma parse_members_Cons:
  "parse_members lib pool fds (p # ms) m err =
     (case field_position (c_string (fst p)) fds of
        None \<Rightarrow> parse_members lib pool fds ms m err
      | Some i \<Rightarrow>
          if snd p = RNull then parse_members lib pool fds ms (slot_put i [] m) err
          else
            bindR (if fd_repeated (fds ! i)
                   then (case snd p of
                           RArray js \<Rightarrow> parse_elements lib pool (fds ! i) i js m err
                         | _ \<Rightarrow> Inr (ERR_INVALID_JSON, ''Not array'', m))
                   else json2field lib pool (fds ! i) i (snd p) m err)
              (\<lambda>r. if fst r \<noteq> 0 then Inr r
                   else parse_members lib pool fds ms (snd (snd r)) (fst (snd r))))"
  by (simp add: parse_members.simps [of lib pool fds "p # ms"])

text \<open>One value, set into a slot that can take it.\<close>

definition returns :: "json_library \<Rightarrow> pool \<Rightarrow> pb_message \<Rightarrow> bool" where
  "returns lib pool m =
     (\<exists>ms. parse_msg lib pool m = Inr (Some (RObject ms)) \<and>
        (\<forall>err. parse_json lib pool (RObject ms) (new_message pool (pm_type m)) err = Inr (0, err, m)))"

lemma value_round:
  assumes ready: "value_ready n lib pool fd v" and IH: "\<And>m. json_ready n lib pool m \<Longrightarrow> returns lib pool m"
  obtains j where "value2json lib pool fd v = Inr j" and "j \<noteq> RNull"
    and "\<And>m i err. fd_repeated fd \<or> pm_slots m ! i = [] \<Longrightarrow>
      json2field lib pool fd i j m err = Inr (0, err, slot_add fd i v m)"
proof (cases "fd_type fd = CPPTYPE_MESSAGE")
  case True
  then obtain m' where m': "v = PMessage m'" "pm_type m' = fd_message fd" "json_ready n lib pool m'"
    using ready by (cases v) (auto simp: value_ready_def value_type_def)
  then obtain ms where ms: "parse_msg lib pool m' = Inr (Some (RObject ms))"
    "\<And>err. parse_json lib pool (RObject ms) (new_message pool (fd_message fd)) err = Inr (0, err, m')"
    using IH [of m'] by (auto simp: returns_def)
  have sub: "sub_message pool fd i m = new_message pool (fd_message fd)"
    if "fd_repeated fd \<or> pm_slots m ! i = []" for m i
    using that True by (auto simp: sub_message_def get_value_def default_value_def)
  show thesis
    by (rule that [of "RObject ms"])
       (simp_all add: m' ms sub True json2field.simps [of lib pool fd])
next
  case False
  then have "value_survives lib fd v" "value_type v = fd_type fd"
    using ready by (cases v; simp add: value_ready_def value_type_def value_survives_def)+
  note round = scalar_round [OF this(2) False this(1)]
  show thesis
    by (rule that [of "scalar2json lib fd v"])
       (simp_all add: round False json2field.simps [of lib pool fd])
qed

text \<open>The values of a repeated field, added one after the other.\<close>

lemma values_round:
  assumes "list_all (value_ready n lib pool fd) vs" and IH: "\<And>m. json_ready n lib pool m \<Longrightarrow> returns lib pool m"
    and "fd_repeated fd"
  shows "\<exists>js. values2json lib pool fd vs = Inr js \<and>
    (\<forall>m i err. i < length (pm_slots m) \<longrightarrow> parse_elements lib pool fd i js m err =
       Inr (0, err, slot_put i (pm_slots m ! i @ vs) m))"
  using assms(1)
proof (induction vs)
  case Nil
  then show ?case by (simp add: slot_put_def)
next
  case (Cons v vs)
  then obtain js where js: "values2json lib pool fd vs = Inr js"
    "\<And>m i err. i < length (pm_slots m) \<Longrightarrow> parse_elements lib pool fd i js m err =
       Inr (0, err, slot_put i (pm_slots m ! i @ vs) m)"
    by auto
  obtain j where j: "value2json lib pool fd v = Inr j"
    "\<And>m i err. json2field lib pool fd i j m err = Inr (0, err, slot_add fd i v m)"
    using Cons.prems value_round [OF _ IH] assms(3) by (metis list.pred_inject(2))
  show ?case
    by (intro exI [of _ "j # js"])
       (simp add: j js slot_add_def slot_put_def assms(3))
qed

lemma field_position_pre:
  "name \<notin> fd_name ` set pre \<Longrightarrow> fd_name fd = name \<Longrightarrow> field_position name (pre @ fd # fds) = Some (length pre)"
  by (induction pre) auto

text \<open>The slots from some field on: the ones before are filled, the others are still empty.\<close>

lemma fields_round:
  assumes IH: "\<And>m. json_ready n lib pool m \<Longrightarrow> returns lib pool m"
    and "list_all2 (slot_plain pool (value_ready n lib pool)) fds slots"
    and "names_plain (pre @ fds)" and "length done = length pre"
  shows "\<exists>ms. parse_fields lib pool fds slots = Inr ms \<and>
    (\<forall>err. parse_members lib pool (pre @ fds) ms (PbMessage t (done @ replicate (length fds) [])) err =
       Inr (0, err, PbMessage t (done @ slots)))"
  using assms(2-)
proof (induction fds slots arbitrary: pre "done" rule: list_all2_induct)
  case Nil
  then show ?case by simp
next
  case (Cons fd fds slot slots)
  have next_fields: "\<exists>ms. parse_fields lib pool fds slots = Inr ms \<and>
      (\<forall>err. parse_members lib pool (pre @ fd # fds) ms (PbMessage t (done @ slot # replicate (length fds) [])) err =
         Inr (0, err, PbMessage t (done @ slot # slots)))"
    using Cons.IH [of "pre @ [fd]" "done @ [slot]"] Cons.prems by simp
  then obtain ms where ms: "parse_fields lib pool fds slots = Inr ms"
    "\<And>err. parse_members lib pool (pre @ fd # fds) ms (PbMessage t (done @ slot # replicate (length fds) [])) err =
         Inr (0, err, PbMessage t (done @ slot # slots))"
    by blast
  have plain: "fd_repeated fd \<or> slot = [] \<or> length slot = 1 \<and> has_field pool fd slot"
    "list_all (value_ready n lib pool fd) slot"
    using Cons.hyps(1) by (auto simp: slot_plain_def)
  have pos: "field_position (c_string (fd_name fd)) (pre @ fd # fds) = Some (length pre)"
    using Cons.prems(1) by (auto simp: names_plain_def intro: field_position_pre)
  show ?case
  proof (cases "\<not> fd_repeated fd \<and> slot = []")
    case True
    then show ?thesis using ms by (simp add: has_field_def)
  next
    case False
    let ?m = "PbMessage t (done @ [] # replicate (length fds) [])"
    have put: "slot_put (length pre) s ?m = PbMessage t (done @ s # replicate (length fds) [])" for s
      using Cons.prems(2) by (simp add: slot_put_def list_update_append)
    have empty: "pm_slots ?m ! length pre = []" "length pre < length (pm_slots ?m)"
      using Cons.prems(2) by (simp_all add: nth_append)
    obtain j where j: "field2json lib pool fd slot = Inr j"
      "\<And>err. parse_members lib pool (pre @ fd # fds) ((fd_name fd, j) # ms) ?m err =
         Inr (0, err, PbMessage t (done @ slot # slots))"
    proof (cases "fd_repeated fd")
      case True
      obtain js where js: "values2json lib pool fd slot = Inr js"
        "\<And>m i err. i < length (pm_slots m) \<Longrightarrow> parse_elements lib pool fd i js m err =
           Inr (0, err, slot_put i (pm_slots m ! i @ slot) m)"
        using values_round [OF plain(2) IH True] by blast
      have "field2json lib pool fd slot = Inr (RArray js)"
        using js(1) True by (cases slot) auto
      then show thesis
        by (rule that)
           (simp add: parse_members_Cons pos True js(2) [OF empty(2)] empty(1) put ms del: pb_message.sel)
    next
      case single: False
      then obtain v where v: "slot = [v]" "value_ready n lib pool fd v"
        using False plain by (auto simp: length_Suc_conv)
      obtain j where j: "value2json lib pool fd v = Inr j" "j \<noteq> RNull"
        "\<And>m i err. fd_repeated fd \<or> pm_slots m ! i = [] \<Longrightarrow>
          json2field lib pool fd i j m err = Inr (0, err, slot_add fd i v m)"
        by (rule value_round [OF v(2) IH]) blast+
      have "json2field lib pool fd (length pre) j ?m err = Inr (0, err, PbMessage t (done @ [v] # replicate (length fds) []))" for err
        using j(3) empty(1) single put by (simp add: slot_add_def del: pb_message.sel)
      then show thesis
        by (intro that [of j])
           (simp_all add: v single j(1,2) parse_members_Cons pos ms [unfolded v(1)])
    qed
    then show ?thesis using False plain ms by (auto simp: has_field_def)
  qed
qed

lemma json_ready_returns: "json_ready n lib pool m \<Longrightarrow> returns lib pool m"
proof (induction n arbitrary: m)
  case (Suc n)
  obtain t slots where m: "m = PbMessage t slots" by (cases m)
  obtain md where md: "pool t = Some md" "names_plain (md_fields md)"
    "list_all2 (slot_plain pool (value_ready n lib pool)) (md_fields md) slots"
    using Suc.prems by (auto simp: json_ready_Suc m split: option.splits)
  obtain ms where ms: "parse_fields lib pool (md_fields md) slots = Inr ms"
    "\<And>err. parse_members lib pool (md_fields md) ms (PbMessage t (replicate (length (md_fields md)) [])) err =
       Inr (0, err, PbMessage t slots)"
    using fields_round [OF Suc.IH md(3), of "[]" "[]" t] md(2) by auto
  show ?case
    unfolding returns_def
    by (intro exI [of _ ms])
       (simp add: m md(1) ms new_message_def parse_json.simps [of lib pool "RObject _"])
qed simp

subsection \<open>No value makes a message ill typed\<close>

definition typed :: "pool \<Rightarrow> (string \<Rightarrow> nat) \<Rightarrow> pb_message \<Rightarrow> bool" where
  "typed pool rank m = wt_message (Suc (rank (pm_type m))) pool m"

lemma slots_ok_list_all2:
  "slots_ok P fds slots =
     list_all2 (\<lambda>fd vs. (fd_repeated fd \<or> length vs \<le> 1) \<and> list_all (P fd) vs) fds slots"
  by (induction P fds slots rule: slots_ok.induct) auto

lemma typed_slot:
  assumes "typed pool rank m" and "pool (pm_type m) = Some md" and "i < length (md_fields md)"
    and "fd_repeated (md_fields md ! i) \<or> length slot \<le> 1"
    and "list_all (wt_value (rank (pm_type m)) pool (md_fields md ! i)) slot"
  shows "typed pool rank (slot_put i slot m)"
proof -
  have "list_all2 (\<lambda>fd vs. (fd_repeated fd \<or> length vs \<le> 1) \<and> list_all (wt_value (rank (pm_type m)) pool fd) vs)
      ((md_fields md)[i := md_fields md ! i]) ((pm_slots m)[i := slot])"
    using assms by (intro list_all2_update_cong) (auto simp: typed_def wt_message_Suc slots_ok_list_all2)
  then show ?thesis
    using assms(2) by (simp add: typed_def wt_message_Suc slots_ok_list_all2 slot_put_def)
qed

lemma typed_slot_values:
  assumes "typed pool rank m" and "pool (pm_type m) = Some md" and "i < length (md_fields md)"
  shows "list_all (wt_value (rank (pm_type m)) pool (md_fields md ! i)) (pm_slots m ! i)"
  using assms by (auto simp: typed_def wt_message_Suc slots_ok_list_all2 dest: list_all2_nthD)

lemma typed_add:
  assumes "typed pool rank m" and "pool (pm_type m) = Some md" and "i < length (md_fields md)"
    and "wt_value (rank (pm_type m)) pool (md_fields md ! i) v"
  shows "typed pool rank (slot_add (md_fields md ! i) i v m)"
  unfolding slot_add_def
  by (rule typed_slot [OF assms(1-3)]) (use assms typed_slot_values [OF assms(1-3)] in auto)

lemma pm_type_slot [simp]: "pm_type (slot_put i slot m) = pm_type m" "pm_type (slot_add fd i v m) = pm_type m"
  by (simp_all add: slot_put_def slot_add_def)

lemma scalar_of_json_type:
  "scalar_of_json lib fd j = Inr (Inr v) \<Longrightarrow> value_type v = fd_type fd"
  by (auto simp: scalar_of_json_def json_int_def json_double_def json_enum_def value_type_def
      split: cpp_type.splits json.splits if_splits option.splits)

lemma sub_message_typed:
  assumes "typed pool rank m" and "ranked pool rank" and "pool (pm_type m) = Some md"
    and "i < length (md_fields md)" and "fd_type (md_fields md ! i) = CPPTYPE_MESSAGE"
  shows "typed pool rank (sub_message pool (md_fields md ! i) i m)"
    and "pm_type (sub_message pool (md_fields md ! i) i m) = fd_message (md_fields md ! i)"
proof -
  let ?fd = "md_fields md ! i"
  obtain md' where md': "pool (fd_message ?fd) = Some md'"
    using ranked_field [OF assms(2,3) _ assms(5)] assms(4) by auto
  then have new: "typed pool rank (new_message pool (fd_message ?fd))" "pm_type (new_message pool (fd_message ?fd)) = fd_message ?fd"
    using wt_new_message [of pool "fd_message ?fd"] by (auto simp: typed_def new_message_def)
  have "typed pool rank m' \<and> pm_type m' = fd_message ?fd" if "pm_slots m ! i = PMessage m' # rest" for m' rest
    using typed_slot_values [OF assms(1,3,4)] that wt_message_rank [OF assms(2), of _ m']
    by (auto simp: wt_value_def typed_def)
  then show "typed pool rank (sub_message pool ?fd i m)" "pm_type (sub_message pool ?fd i m) = fd_message ?fd"
    using new assms(5) by (auto simp: sub_message_def get_value_def default_value_def split: list.splits pb_value.splits)
qed

definition kept :: "pool \<Rightarrow> (string \<Rightarrow> nat) \<Rightarrow> string \<Rightarrow> (int \<times> string \<times> pb_message) result \<Rightarrow> bool" where
  "kept pool rank t r =
     (\<forall>ret err m. r = Inr (ret, err, m) \<longrightarrow>
        typed pool rank m \<and> pm_type m = t \<and> ret \<in> {0, ERR_INVALID_ARG, ERR_INVALID_JSON})"

lemma kept_simps [simp]:
  "kept pool rank t (Inl e)"
  "kept pool rank t (Inr (ret, err, m)) =
     (typed pool rank m \<and> pm_type m = t \<and> ret \<in> {0, ERR_INVALID_ARG, ERR_INVALID_JSON})"
  by (auto simp: kept_def)

lemma kept_bind:
  assumes "kept pool rank t r"
    and "\<And>ret err m. typed pool rank m \<Longrightarrow> pm_type m = t \<Longrightarrow> ret \<in> {0, ERR_INVALID_ARG, ERR_INVALID_JSON} \<Longrightarrow>
      r = Inr (ret, err, m) \<Longrightarrow> kept pool rank u (f (ret, err, m))"
  shows "kept pool rank u (bindR r f)"
proof (cases r)
  case (Inr x)
  then show ?thesis using assms by (cases x) simp
qed simp

lemma field_position_Some:
  "field_position name fds = Some i \<Longrightarrow> i < length fds \<and> fd_name (fds ! i) = name"
  by (induction fds arbitrary: i) (auto split: if_splits)

lemma parse_json_kept:
  "typed pool rank m \<and> ranked pool rank \<longrightarrow> kept pool rank (pm_type m) (parse_json lib pool j m err)"
  "typed pool rank m \<and> ranked pool rank \<and> (\<exists>md. pool (pm_type m) = Some md \<and> fds = md_fields md) \<longrightarrow>
     kept pool rank (pm_type m) (parse_members lib pool fds ms m err)"
  "typed pool rank m \<and> ranked pool rank \<and>
     (\<exists>md. pool (pm_type m) = Some md \<and> i < length (md_fields md) \<and> fd = md_fields md ! i) \<longrightarrow>
     kept pool rank (pm_type m) (parse_elements lib pool fd i js m err)"
  "typed pool rank m \<and> ranked pool rank \<and>
     (\<exists>md. pool (pm_type m) = Some md \<and> i < length (md_fields md) \<and> fd = md_fields md ! i) \<longrightarrow>
     kept pool rank (pm_type m) (json2field lib pool fd i j m err)"
proof (induction lib pool j m err and lib pool fds ms m err and lib pool fd i js m err and lib pool fd i j m err
    rule: parse_json_parse_members_parse_elements_json2field.induct)
  case (1 lib pool j m err)
  show ?case
  proof (intro impI)
    assume m: "typed pool rank m \<and> ranked pool rank"
    then obtain md where md: "pool (pm_type m) = Some md"
      by (auto simp: typed_def wt_message_Suc split: option.splits)
    show "kept pool rank (pm_type m) (parse_json lib pool j m err)"
      using 1 m md by (auto simp: parse_json.simps [of lib pool j] split: json.split)
  qed
next
  case (2 lib pool fds ms m err)
  show ?case
  proof (intro impI, elim conjE exE)
    fix md assume m: "typed pool rank m" "ranked pool rank" "pool (pm_type m) = Some md" "fds = md_fields md"
    show "kept pool rank (pm_type m) (parse_members lib pool fds ms m err)"
    proof (cases ms)
      case (Cons p ms')
      show ?thesis
      proof (cases "field_position (c_string (fst p)) fds")
        case None
        then show ?thesis
          using 2(1) [OF Cons None] m Cons by (simp add: parse_members_Cons)
      next
        case (Some i)
        then have i: "i < length (md_fields md)" using field_position_Some m(4) by blast
        note i = i [folded m(4)]
        show ?thesis
        proof (cases "snd p = RNull")
          case True
          then show ?thesis
            using 2(2) [OF Cons Some True] m i typed_slot [OF m(1,3), of i "[]"]
            by (simp add: Cons parse_members_Cons Some [unfolded m(4)] True)
        next
          case False
          let ?r = "if fd_repeated (fds ! i)
                   then (case snd p of
                           RArray js \<Rightarrow> parse_elements lib pool (fds ! i) i js m err
                         | _ \<Rightarrow> Inr (ERR_INVALID_JSON, ''Not array'', m))
                   else json2field lib pool (fds ! i) i (snd p) m err"
          have md: "\<exists>md. pool (pm_type m) = Some md \<and> i < length (md_fields md) \<and> fds ! i = md_fields md ! i"
            using m i by auto
          have one: "kept pool rank (pm_type m) ?r"
            using 2(3,4) [OF Cons Some False] m(1,2) md by (auto split: json.split)
          have rest: "kept pool rank (pm_type m) (parse_members lib pool fds ms' m' err')"
            if "?r = Inr (0, err', m')" "typed pool rank m'" "pm_type m' = pm_type m" for err' m'
            using 2(5) [OF Cons Some False, of "(0, err', m')"] that m by auto
          show ?thesis
            unfolding Cons parse_members_Cons Some option.case if_not_P [OF False]
            by (rule kept_bind [OF one]) (use rest in auto)
        qed
      qed
    qed (use m in simp)
  qed
next
  case (3 lib pool fd i js m err)
  show ?case
  proof (intro impI, elim conjE exE)
    fix md assume m: "typed pool rank m" "ranked pool rank" "pool (pm_type m) = Some md"
      "i < length (md_fields md)" "fd = md_fields md ! i"
    show "kept pool rank (pm_type m) (parse_elements lib pool fd i js m err)"
    proof (cases js)
      case (Cons j js')
      have one: "kept pool rank (pm_type m) (json2field lib pool fd i j m err)"
        using 3(1) [OF Cons] m by blast
      have rest: "kept pool rank (pm_type m) (parse_elements lib pool fd i js' m' err')"
        if "typed pool rank m'" "pm_type m' = pm_type m" for err' m'
        using 3(2) [OF Cons, of "(0, err', m')"] that m by auto
      show ?thesis
        unfolding Cons parse_elements_simps
        by (rule kept_bind [OF one]) (use rest in auto)
    qed (use m in simp)
  qed
next
  case (4 lib pool fd i j m err)
  show ?case
  proof (intro impI, elim conjE exE)
    fix md assume m: "typed pool rank m" "ranked pool rank" "pool (pm_type m) = Some md"
      "i < length (md_fields md)" "fd = md_fields md ! i"
    show "kept pool rank (pm_type m) (json2field lib pool fd i j m err)"
    proof (cases "fd_type fd = CPPTYPE_MESSAGE")
      case True
      note sub = sub_message_typed [OF m(1-4) True [unfolded m(5)], folded m(5)]
      have one: "kept pool rank (fd_message fd) (parse_json lib pool j (sub_message pool fd i m) err)"
        using 4 True m sub by simp
      have "kept pool rank (pm_type m) (bindR (parse_json lib pool j (sub_message pool fd i m) err)
             (\<lambda>r. Inr (fst r, fst (snd r), slot_add fd i (PMessage (snd (snd r))) m)))"
      proof (rule kept_bind [OF one])
        fix ret err' mf
        assume mf: "typed pool rank mf" "pm_type mf = fd_message fd" "ret \<in> {0, ERR_INVALID_ARG, ERR_INVALID_JSON}"
        have "rank (fd_message fd) < rank (pm_type m)"
          using ranked_field [OF m(2,3) _ True] m(4,5) by auto
        then have "wt_value (rank (pm_type m)) pool fd (PMessage mf)"
          using mf wt_message_mono [of "Suc (rank (fd_message fd))" pool mf "rank (pm_type m)"] True
          by (simp add: wt_value_def value_type_def typed_def)
        then show "kept pool rank (pm_type m) (Inr (fst (ret, err', mf), fst (snd (ret, err', mf)),
            slot_add fd i (PMessage (snd (snd (ret, err', mf)))) m))"
          using typed_add [OF m(1,3,4)] mf(3) m(5) by simp
      qed
      then show ?thesis using True by (simp add: json2field.simps [of lib pool fd])
    next
      case False
      have "typed pool rank (slot_add fd i v m)" if "scalar_of_json lib fd j = Inr (Inr v)" for v
        using typed_add [OF m(1,3,4)] scalar_of_json_type [OF that] wt_value_scalar [OF False] m(5) by simp
      then show ?thesis
        using False m(1)
        by (cases "scalar_of_json lib fd j") (auto simp: json2field.simps [of lib pool fd] split: sum.split)
    qed
  qed
qed

subsection \<open>The properties\<close>

text \<open>
  C15: A message that is printed as a JSON value by pb2jsonobject is given back, field by
  field and at every depth of nesting, when jsonobject2pb reads the value into a new
  message of the type: lists keep their order, byte strings go through Base64, and the
  result is 0 with the error text as it was. The message is to hold no single unsigned
  64-bit number above the signed range, only declared enum numbers and no explicit default.
\<close>

theorem json_round_trip:
  assumes "json_ready n lib pool m"
  shows "\<exists>j. pb2jsonobject lib pool m = Inr (Some j) \<and>
    jsonobject2pb lib pool j (new_message pool (pm_type m)) err = Inr (0, err, m)"
  using json_ready_returns [OF assms] by (auto simp: returns_def pb2jsonobject_def jsonobject2pb_def)

definition plain_library :: json_library where
  "plain_library =
     \<lparr>enum_number = \<lambda>fd w. w < 4, enum_name = \<lambda>fd s. None, widen = ucast, narrow = ucast, double_of_int = of_int\<rparr>"

theorem json_round_trip_witness:
  "\<exists>j. pb2jsonobject plain_library example_pool example_message = Inr (Some j) \<and>
    jsonobject2pb plain_library example_pool j (new_message example_pool ''t'') ''e'' = Inr (0, ''e'', example_message)"
proof -
  have "json_ready 2 plain_library example_pool example_message" by code_simp
  from json_round_trip [OF this, of "''e''"] show ?thesis by (simp add: example_message_def)
qed

text \<open>
  C16: Whatever JSON value is read into a well-typed message, and however far the reading
  comes before an error, the message stays well typed and of its type, and the result is 0
  or the code of a bad argument or a bad value.
\<close>

theorem json_input_keeps_types:
  assumes "ranked pool rank" and "wt_message (Suc (rank (pm_type m))) pool m"
    and "jsonobject2pb lib pool j m err = Inr (ret, err', m')"
  shows "wt_message (Suc (rank (pm_type m))) pool m' \<and> pm_type m' = pm_type m \<and>
    ret \<in> {0, ERR_INVALID_ARG, ERR_INVALID_JSON}"
  using parse_json_kept(1) [of pool rank m lib j err] assms by (auto simp: typed_def jsonobject2pb_def)

text \<open>A list that ends in a value of the wrong kind: what was read before it stays.\<close>

definition broken_json :: json where
  "broken_json = RObject [(''a'', RInt 7), (''s'', RArray [RString [65], RInt 1])]"

theorem json_input_keeps_types_witness:
  "jsonobject2pb plain_library example_pool broken_json (new_message example_pool ''t'') [] =
     Inr (ERR_INVALID_JSON, ''Not a string'', PbMessage ''t'' [[PInt32 7], [], [PString [65]]]) \<and>
   wt_message 2 example_pool (PbMessage ''t'' [[PInt32 7], [], [PString [65]]])"
proof -
  have run: "jsonobject2pb plain_library example_pool broken_json (new_message example_pool ''t'') [] =
     Inr (ERR_INVALID_JSON, ''Not a string'', PbMessage ''t'' [[PInt32 7], [], [PString [65]]])"
    by code_simp
  have "wt_message (Suc (example_rank (pm_type (new_message example_pool ''t'')))) example_pool
      (new_message example_pool ''t'')"
    by code_simp
  from json_input_keeps_types [OF example_ranked this run] run show ?thesis
    by (simp add: new_message_def example_rank_def numeral_2_eq_2)
qed

text \<open>
  A single unsigned number of 64 bits with the highest bit set is written as a negative
  one, which the reader, asked for an unsigned number, does not accept; in a list it is
  written as it is.
\<close>

theorem big_single_number_asserts:
  "bit w 63 \<Longrightarrow> \<not> fd_repeated fd \<Longrightarrow> fd_type fd = CPPTYPE_UINT64 \<Longrightarrow>
   scalar_of_json lib fd (scalar2json lib fd (PUInt64 w)) = Inl (Thrown ''RAPIDJSON_ASSERT'')"
  by (auto simp: scalar_of_json_def json_int_def get_int_def not_le bit_last_iff [where 'a = 64, simplified])

end
