(* ===== verification/CodeGenerator.thy ===== *)
theory CodeGenerator
  imports Message
begin

section \<open>The code generator\<close>

text \<open>
  pkt2_code_generator.cpp, a plug-in of the protobuf compiler: for a .proto file it writes
  the CREATE TABLE statements of the messages, and for every message a C structure of its
  packet and the function that reads the message from the structure. The descriptors of the
  protobuf library are records of what the generator reads of them; a message type is named
  by its full name. The text of floating point numbers, the order std::sort leaves elements
  with equal keys in and the current time are parameters.
\<close>

definition nl :: string where
  "nl = [CHR 0x0A]"

datatype proto = PROTO_NONE | PROTO_TCP | PROTO_UDP | PROTO_OTHER u32

record address =
  ad_proto :: proto
  ad_address :: string
  ad_port :: u32

record packet_decl = packet_options +
  pd_short_name :: string
  pd_full_name :: string
  pd_source :: "address list"
  pd_destination :: "address list"

text \<open>
  A field: what a field descriptor has, whether it is required, its explicit default, the
  numbers of its enum type and the name in its variable option.
\<close>

record gen_field = field_desc +
  gf_required :: bool
  gf_default :: "pb_value option"
  gf_enum :: "int list"
  gf_lowercase :: string
  gf_variable_name :: string

record gen_message =
  gm_full_name :: string
  gm_name :: string
  gm_packet :: packet_decl
  gm_fields :: "gen_field list"

record gen_file =
  fl_name :: string
  fl_dependencies :: "string list"
  fl_messages :: "gen_message list"

type_synonym gen_pool = "string \<Rightarrow> gen_message option"

text \<open>The text of a double and of a float on a stream.\<close>

type_synonym float_texts = "(u64 \<Rightarrow> string) \<times> (u32 \<Rightarrow> string)"

text \<open>A loop that appends the texts of its rounds.\<close>

fun gather :: "('a \<Rightarrow> 'b list result) \<Rightarrow> 'a list \<Rightarrow> 'b list result" where
  "gather f [] = Inr []"
| "gather f (x # xs) = bindR (f x) (\<lambda>s. bindR (gather f xs) (\<lambda>t. Inr (s @ t)))"

lemma gather_map: "(\<And>x. x \<in> set xs \<Longrightarrow> f x = Inr (g x)) \<Longrightarrow> gather f xs = Inr (concat (map g xs))"
  by (induction xs) auto

subsection \<open>Words of expressions\<close>

text \<open>
  The regular expressions of the generator, for a search text without special characters.
  A word boundary lies between a word character and a character that is none, or an end.
\<close>

definition is_word :: "char \<Rightarrow> bool" where
  "is_word c = (let n = of_char c :: nat in 48 \<le> n \<and> n < 58 \<or> 65 \<le> n \<and> n < 91 \<or> n = 95 \<or> 97 \<le> n \<and> n < 123)"

definition boundary :: "char option \<Rightarrow> string \<Rightarrow> bool" where
  "boundary prev s =
     ((case prev of None \<Rightarrow> False | Some c \<Rightarrow> is_word c) \<noteq> (case s of [] \<Rightarrow> False | c # _ \<Rightarrow> is_word c))"

definition last_char :: "char option \<Rightarrow> string \<Rightarrow> char option" where
  "last_char prev s = (if s = [] then prev else Some (last s))"

fun find_word_from :: "string \<Rightarrow> char option \<Rightarrow> string \<Rightarrow> bool" where
  "find_word_from search prev [] = (search = [] \<and> boundary prev [])"
| "find_word_from search prev (c # s) =
     (boundary prev (c # s) \<and> take (length search) (c # s) = search \<and>
      boundary (last_char prev search) (drop (length search) (c # s))
      \<or> find_word_from search (Some c) s)"

definition findWord :: "string \<Rightarrow> string \<Rightarrow> bool" where
  "findWord subject search = find_word_from search None subject"

text \<open>The characters at which the replaced part of an expression ends.\<close>

definition stops :: "char \<Rightarrow> bool" where
  "stops c = (c \<in> {CHR ''('', CHR '')'', CHR '','', CHR ''.'', CHR '' ''})"

lemma replaced_shorter:
  assumes "take (length search) s = search" and "search @ takeWhile P (drop (length search) s) = m" and "m \<noteq> []"
  shows "length (drop (length m) s) < length s"
proof -
  have "s \<noteq> []" using assms by (cases s) auto
  then show ?thesis using assms(3) by (simp add: diff_less)
qed

text \<open>An empty match is followed by the next character as it is.\<close>

function replace_from :: "string \<Rightarrow> string \<Rightarrow> char option \<Rightarrow> string \<Rightarrow> string" where
  "replace_from search rep prev s =
     (if boundary prev s \<and> take (length search) s = search
      then let m = search @ takeWhile (\<lambda>c. \<not> stops c) (drop (length search) s)
           in if m = []
              then rep @ (if s = [] then [] else hd s # replace_from search rep (Some (hd s)) (tl s))
              else rep @ replace_from search rep (Some (last m)) (drop (length m) s)
      else if s = [] then [] else hd s # replace_from search rep (Some (hd s)) (tl s))"
  by pat_completeness auto

termination
proof (relation "measure (\<lambda>(search, rep, prev, s). length s)", goal_cases)
  case (3 search rep prev s m)
  then have "length (drop (length m) s) < length s"
    by (intro replaced_shorter [of search s "\<lambda>c. \<not> stops c"]) auto
  then show ?case by simp
qed (simp_all add: neq_Nil_conv)

declare replace_from.simps [simp del]

definition replaceWords :: "string \<Rightarrow> string \<Rightarrow> string \<Rightarrow> string" where
  "replaceWords subject search rep = replace_from search rep None subject"

definition src_field :: "string \<Rightarrow> string" where
  "src_field f = ''src->'' @ f"

definition replacePacketFieldNames :: "string \<Rightarrow> packet_decl \<Rightarrow> string" where
  "replacePacketFieldNames subject packet =
     foldl (\<lambda>s f. replaceWords s (f_name f) (src_field (f_name f))) subject (pk_fields packet)"

subsection \<open>The packet as a C structure\<close>

definition getProtoName :: "proto \<Rightarrow> string" where
  "getProtoName p =
     (case p of PROTO_NONE \<Rightarrow> ''none'' | PROTO_TCP \<Rightarrow> ''tcp'' | PROTO_UDP \<Rightarrow> ''udp'' | PROTO_OTHER n \<Rightarrow> ''-'')"

definition getPacketInputTypeString :: "input_type \<Rightarrow> int \<Rightarrow> string" where
  "getPacketInputTypeString ty sz =
     (case ty of
        INPUT_NONE \<Rightarrow> []
      | INPUT_DOUBLE \<Rightarrow> (if sz = 4 then ''float'' else if sz = 8 then ''double'' else [])
      | INPUT_INT \<Rightarrow>
          (if sz = 1 then ''int8_t'' else if sz = 2 then ''int16_t''
           else if sz = 4 then ''int32_t'' else if sz = 8 then ''int64_t'' else [])
      | INPUT_UINT \<Rightarrow>
          (if sz = 1 then ''uint8_t'' else if sz = 2 then ''uint16_t''
           else if sz = 4 then ''uint32_t'' else if sz = 8 then ''uint64_t'' else [])
      | INPUT_BYTES \<Rightarrow> ''unsigned char['' @ int_str sz @ '']''
      | INPUT_CHAR \<Rightarrow> ''char['' @ int_str sz @ '']''
      | INPUT_STRING \<Rightarrow> ''char['' @ int_str sz @ '']''
      | INPUT_MESSAGE \<Rightarrow> ''-'')"

definition field_type_name :: "field \<Rightarrow> string" where
  "field_type_name f = getPacketInputTypeString (f_type f) (sint (f_size f))"

text \<open>The offset is an int of the pairs that are sorted by their second component.\<close>

type_synonym pair_sorter = "(nat \<times> int) list \<Rightarrow> (nat \<times> int) list"

definition sortPacketFieldsIndex :: "pair_sorter \<Rightarrow> field list \<Rightarrow> nat list" where
  "sortPacketFieldsIndex sorter fs =
     (let idxOfs = sorter (zip [0..<length fs] (map (\<lambda>f. sint (f_offset f)) fs))
      in map fst idxOfs)"

definition address_text :: "address \<Rightarrow> string" where
  "address_text a =
     getProtoName (ad_proto a) @ '':'' @ ad_address a @ '':'' @ dec_str (unat (ad_port a)) @ '' ''"

text \<open>
  A row of the table in the comment: the bytes of the packet as columns, then the offset,
  the size, the type and the name. The width of the last gap is computed without a sign and
  passed as an int.
\<close>

definition field_row :: "field \<Rightarrow> string" where
  "field_row f =
     spaces CHR '' '' (sint (f_offset f)) @ spaces CHR ''|'' (sint (f_size f)) @
     spaces CHR '' '' (sint (40 - f_offset f - f_size f)) @
     pad_left 7 CHR '' '' (dec_str (unat (f_offset f))) @ '' '' @
     pad_left 7 CHR '' '' (dec_str (unat (f_size f))) @ '' '' @
     pad_right 20 CHR '' '' (field_type_name f) @ '' '' @ f_name f @ '' '' @ nl"

definition member_line :: "field \<Rightarrow> string" where
  "member_line f = ''    '' @ pad_right 18 CHR '' '' (field_type_name f) @ '' '' @ f_name f @ '';'' @ nl"

definition fields_in_order :: "pair_sorter \<Rightarrow> packet_decl \<Rightarrow> field list result" where
  "fields_in_order sorter packet =
     gather (\<lambda>f. bindR (elem_at (sortPacketFieldsIndex sorter (pk_fields packet)) f) (\<lambda>i.
               bindR (elem_at (pk_fields packet) i) (\<lambda>fld. Inr [fld])))
       [0..<length (pk_fields packet)]"

definition packet_comment :: "packet_decl \<Rightarrow> field list \<Rightarrow> string" where
  "packet_comment packet fs =
     ''/*'' @ nl @ '' * Input packet: '' @ nl @
     '' * Name:  '' @ pk_name packet @ nl @
     '' * Full:  '' @ pd_full_name packet @ nl @
     '' * Short: '' @ pd_short_name packet @ nl @
     '' * Source(s): '' @ concat (map address_text (pd_source packet)) @ nl @
     '' * Destination(s): '' @ concat (map address_text (pd_destination packet)) @ nl @
     ''Packet fields:'' @ nl @
     spaces CHR '' '' 41 @ ''Offset   Bytes Type                 Name'' @ nl @
     concat (map field_row fs) @ ''*/'' @ nl @ nl"

definition struct_text :: "packet_decl \<Rightarrow> field list \<Rightarrow> string" where
  "struct_text packet fs =
     ''typedef struct '' @ pk_name packet @ '' {'' @ nl @ concat (map member_line fs) @
     ''} '' @ pk_name packet @ '';'' @ nl @ nl"

definition CLAUSE_INCLUDES :: string where
  "CLAUSE_INCLUDES = ''#include \"pkt2util.h\"''"

definition messageOptionsToInputPacketStructDeclaration :: "pair_sorter \<Rightarrow> gen_message \<Rightarrow> string result" where
  "messageOptionsToInputPacketStructDeclaration sorter m =
     bindR (fields_in_order sorter (gm_packet m)) (\<lambda>fs.
       Inr (packet_comment (gm_packet m) fs @ CLAUSE_INCLUDES @ nl @ nl @
            struct_text (gm_packet m) fs @ nl))"

subsection \<open>The reader of the structure\<close>

definition CLAUSE_RETURN_VALUE :: string where
  "CLAUSE_RETURN_VALUE = ''RETURN_VALUE''"

text \<open>The statement that sets a field that is not a message.\<close>

definition reader_statement :: "packet_decl \<Rightarrow> string \<Rightarrow> gen_field \<Rightarrow> string" where
  "reader_statement packet pre fd =
     (let f = v_get (fd_variable fd)
      in if findWord f CLAUSE_RETURN_VALUE
         then ''    '' @ replaceWords f CLAUSE_RETURN_VALUE (pre @ ''->set_'' @ gf_variable_name fd @ ''('') @ nl
         else pre @ ''->set_'' @ gf_variable_name fd @ ''('' @ replacePacketFieldNames f packet @ '');'' @ nl)"

text \<open>
  A message field is read member by member; the packet stays the one of the outermost
  message. A type that contains itself is followed without end, and the fuel runs out.
\<close>

primrec fieldOptionsToInputPacketReader ::
    "nat \<Rightarrow> gen_pool \<Rightarrow> packet_decl \<Rightarrow> string \<Rightarrow> gen_field \<Rightarrow> string option result" where
  "fieldOptionsToInputPacketReader 0 pool packet = (\<lambda>pre fd. Inr None)"
| "fieldOptionsToInputPacketReader (Suc n) pool packet = (\<lambda>pre fd.
     if fd_type fd = CPPTYPE_MESSAGE
     then (case pool (fd_message fd) of
             None \<Rightarrow> Inl NullPointer
           | Some v \<Rightarrow>
               collect (fieldOptionsToInputPacketReader n pool packet (pre @ ''->mutable_'' @ gm_name v))
                 (gm_fields v))
     else Inr (Some (reader_statement packet pre fd)))"

definition messageOptionsToInputPacketReader :: "nat \<Rightarrow> gen_pool \<Rightarrow> gen_message \<Rightarrow> string option result" where
  "messageOptionsToInputPacketReader n pool m =
     bindF (collect (fieldOptionsToInputPacketReader n pool (gm_packet m) ''    dest'') (gm_fields m)) (\<lambda>body.
       Inr (Some (''bool struct_'' @ pk_name (gm_packet m) @ ''_to_'' @ gm_name m @ ''('' @
         gm_name m @ '' *dest'' @ '', '' @ ''struct '' @ pk_name (gm_packet m) @ '' *src'' @ '') {'' @ nl @
         body @ ''}'' @ nl)))"

subsection \<open>Tables\<close>

text \<open>The SQL types, by the protobuf library's name of a type and by some names of their own.\<close>

type_synonym type_map = "(string \<times> string) list"

definition apostrophe :: string where
  "apostrophe = [CHR 0x27]"

definition types_mysql :: type_map where
  "types_mysql =
     [(''primary'', ''int(20) NOT NULL PRIMARY KEY AUTO_INCREMENT''), (''id'', ''int(20)''),
      (''clause_set_charset'', ''SET CHARSET '' @ apostrophe @ ''utf8'' @ apostrophe @ '';''),
      (''int32'', ''int(11)''), (''int64'', ''int(20)''), (''uint32'', ''int(11)''), (''uint64'', ''int(20)''),
      (''double'', ''double''), (''float'', ''float''), (''bool'', ''tinyint(1)''), (''enum'', ''enum''),
      (''string'', ''text''), (''message'', [])]"

definition types_postgresql :: type_map where
  "types_postgresql =
     [(''primary'', ''SERIAL PRIMARY KEY''), (''id'', ''int(20)''),
      (''clause_set_charset'', ''SET NAMES '' @ apostrophe @ ''UTF8'' @ apostrophe @ '';''),
      (''int32'', ''integer''), (''int64'', ''bigint''), (''uint32'', ''numeric(11)''), (''uint64'', ''numeric(20)''),
      (''double'', ''double precision''), (''float'', ''real''), (''bool'', ''boolean''), (''enum'', ''enum''),
      (''string'', ''text''), (''message'', [])]"

definition quote_mysql :: string where "quote_mysql = ''`''"

definition quote_postgresql :: string where "quote_postgresql = [CHR 0x22]"

record generator =
  sqltypes :: type_map
  quote :: string

definition code_generator :: generator where
  "code_generator = \<lparr>sqltypes = types_postgresql, quote = quote_postgresql\<rparr>"

definition at_key :: "type_map \<Rightarrow> string \<Rightarrow> string result" where
  "at_key m k = (case map_of m k of None \<Rightarrow> Inl (Thrown ''out_of_range'') | Some v \<Rightarrow> Inr v)"

definition cpp_type_name :: "cpp_type \<Rightarrow> string" where
  "cpp_type_name t =
     (case t of
        CPPTYPE_INT32 \<Rightarrow> ''int32'' | CPPTYPE_INT64 \<Rightarrow> ''int64'' | CPPTYPE_UINT32 \<Rightarrow> ''uint32''
      | CPPTYPE_UINT64 \<Rightarrow> ''uint64'' | CPPTYPE_DOUBLE \<Rightarrow> ''double'' | CPPTYPE_FLOAT \<Rightarrow> ''float''
      | CPPTYPE_BOOL \<Rightarrow> ''bool'' | CPPTYPE_ENUM \<Rightarrow> ''enum'' | CPPTYPE_STRING \<Rightarrow> ''string''
      | CPPTYPE_MESSAGE \<Rightarrow> ''message'')"

text \<open>
  The messages in which a message is repeated, by its full name. A message type that is not
  among the top-level messages of the file is not found, and the end of the map is followed.
\<close>

type_synonym owners = "(string \<times> gen_message list) list"

definition add_owner :: "gen_message \<Rightarrow> gen_field \<Rightarrow> owners \<Rightarrow> owners result" where
  "add_owner m fd rm =
     (if \<not> fd_repeated fd \<or> fd_type fd \<noteq> CPPTYPE_MESSAGE then Inr rm
      else (case map_of rm (fd_message fd) of
              None \<Rightarrow> Inl OutOfBounds
            | Some ls \<Rightarrow> Inr (map (\<lambda>p. if fst p = fd_message fd then (fst p, snd p @ [m]) else p) rm)))"

fun add_owners :: "gen_message \<Rightarrow> gen_field list \<Rightarrow> owners \<Rightarrow> owners result" where
  "add_owners m [] rm = Inr rm"
| "add_owners m (fd # fds) rm = bindR (add_owner m fd rm) (add_owners m fds)"

fun all_owners :: "gen_message list \<Rightarrow> owners \<Rightarrow> owners result" where
  "all_owners [] rm = Inr rm"
| "all_owners (m # ms) rm = bindR (add_owners m (gm_fields m) rm) (all_owners ms)"

definition listOne2Many :: "gen_file \<Rightarrow> owners result" where
  "listOne2Many file = all_owners (fl_messages file) (map (\<lambda>m. (gm_full_name m, [])) (fl_messages file))"

definition quoted_text :: "string \<Rightarrow> string" where
  "quoted_text s = apostrophe @ s @ apostrophe"

definition default_text :: "float_texts \<Rightarrow> pb_value \<Rightarrow> string" where
  "default_text show v =
     (case v of
        PInt32 w \<Rightarrow> int_str (sint w)
      | PInt64 w \<Rightarrow> int_str (sint w)
      | PUInt32 w \<Rightarrow> dec_str (unat w)
      | PUInt64 w \<Rightarrow> dec_str (unat w)
      | PDouble w \<Rightarrow> fst show w
      | PFloat w \<Rightarrow> snd show w
      | PBool b \<Rightarrow> (if b then ''1'' else ''0'')
      | PEnum w \<Rightarrow> quoted_text (int_str (sint w))
      | PString s \<Rightarrow> quoted_text (text_of_bytes s)
      | PMessage m \<Rightarrow> ''0'')"

definition getSuffix :: "float_texts \<Rightarrow> gen_field \<Rightarrow> string" where
  "getSuffix show fd =
     (if gf_required fd then '' NOT NULL '' else []) @
     (case gf_default fd of None \<Rightarrow> [] | Some v \<Rightarrow> '' DEFAULT '' @ default_text show v)"

definition to_lower :: "char \<Rightarrow> char" where
  "to_lower c = (let n = of_char c :: nat in if 65 \<le> n \<and> n < 91 then char_of (n + 32) else c)"

definition lower :: "string \<Rightarrow> string" where
  "lower s = map to_lower s"

text \<open>The column and the key for a message in which this one is repeated.\<close>

definition owner_sql :: "generator \<Rightarrow> gen_message \<Rightarrow> gen_message \<Rightarrow> string result" where
  "owner_sql g m d =
     (let q = quote g; lcn = lower (gm_name d); lcmn = lower (gm_name m)
      in bindR (at_key (sqltypes g) ''id'') (\<lambda>id_type.
           Inr ('' '' @ q @ lcn @ ''id'' @ q @ '' '' @ id_type @ '' NOT NULL,'' @ nl @
                ''  KEY '' @ q @ ''key_'' @ lcmn @ ''_'' @ lcn @ ''id'' @ q @ '' ('' @
                q @ lcn @ ''id'' @ q @ ''),'' @ nl)))"

definition enum_list :: "int list \<Rightarrow> string" where
  "enum_list ns = concat (map (\<lambda>n. quoted_text (int_str n) @ '', '') (butlast ns)) @
     (if ns = [] then [] else quoted_text (int_str (last ns)))"

definition column_sql :: "generator \<Rightarrow> float_texts \<Rightarrow> gen_pool \<Rightarrow> gen_message \<Rightarrow> gen_field \<Rightarrow> string result" where
  "column_sql g show pool m fd =
     (let q = quote g; name = gf_lowercase fd; lcmn = lower (gm_name m)
      in if fd_type fd = CPPTYPE_MESSAGE
         then (if fd_repeated fd then Inr []
               else bindR (at_key (sqltypes g) ''id'') (\<lambda>id_type.
                 case pool (fd_message fd) of
                   None \<Rightarrow> Inl NullPointer
                 | Some mt \<Rightarrow>
                     Inr ('' '' @ q @ name @ ''id'' @ q @ '' '' @ id_type @ getSuffix show fd @ '', '' @ nl @
                          '' KEY '' @ q @ ''key_'' @ lcmn @ ''_'' @ name @ ''id'' @ q @
                          '' ('' @ q @ name @ ''id'' @ q @ ''), '' @ nl @
                          ''  CONSTRAINT '' @ q @ ''fk_'' @ lcmn @ ''_'' @ name @ ''id'' @ q @ '' FOREIGN KEY('' @
                          q @ name @ ''id'' @ q @ '') REFERENCES '' @ q @ gm_name mt @ q @
                          ''('' @ q @ ''id'' @ q @ '') ON DELETE CASCADE,'' @ nl)))
         else if fd_type fd = CPPTYPE_ENUM
         then bindR (at_key (sqltypes g) (cpp_type_name (fd_type fd))) (\<lambda>ty.
                Inr (''  '' @ q @ name @ q @ '' '' @ ty @ ''('' @ enum_list (gf_enum fd) @ '')'' @
                     getSuffix show fd @ '', '' @ nl))
         else bindR (at_key (sqltypes g) (cpp_type_name (fd_type fd))) (\<lambda>ty.
                Inr ('' '' @ q @ name @ q @ '' '' @ ty @ getSuffix show fd @ '', '' @ nl)))"

definition create_table :: "generator \<Rightarrow> float_texts \<Rightarrow> gen_pool \<Rightarrow> owners \<Rightarrow> gen_message \<Rightarrow> string result" where
  "create_table g show pool rm m =
     (let q = quote g
      in bindR (at_key (sqltypes g) ''primary'') (\<lambda>primary.
         case map_of rm (gm_full_name m) of
           None \<Rightarrow> Inl (Thrown ''out_of_range'')
         | Some fk \<Rightarrow>
             bindR (gather (owner_sql g m) fk) (\<lambda>keys.
             bindR (gather (column_sql g show pool m) (gm_fields m)) (\<lambda>columns.
               Inr (''CREATE TABLE IF NOT EXISTS '' @ q @ gm_name m @ q @ ''('' @ nl @
                    '' '' @ q @ ''id'' @ q @ '' '' @ primary @ '','' @ nl @ keys @ columns @
                    '' '' @ q @ ''tag'' @ q @ '' int(11)'' @ nl @ '');'' @ nl @ nl)))))"

definition drop_table :: "generator \<Rightarrow> gen_message \<Rightarrow> string" where
  "drop_table g m = ''DROP TABLE IF EXISTS '' @ quote g @ gm_name m @ quote g @ '';'' @ nl"

text \<open>
  The result, the error text if there is one, and the text given to the printer; \<open>failed\<close>
  tells whether the printer could not write it.
\<close>

definition generateSQL :: "generator \<Rightarrow> float_texts \<Rightarrow> gen_pool \<Rightarrow> gen_file \<Rightarrow> bool \<Rightarrow> string
    \<Rightarrow> (bool \<times> string \<times> string) result" where
  "generateSQL g show pool file failed error =
     bindR (listOne2Many file) (\<lambda>rm.
     bindR (at_key (sqltypes g) ''clause_set_charset'') (\<lambda>charset.
     bindR (gather (create_table g show pool rm) (fl_messages file)) (\<lambda>tables.
       let printed = charset @ nl @ nl @ ''/*'' @ nl @ concat (map (drop_table g) (fl_messages file)) @
             ''*/'' @ nl @ nl @ tables
       in Inr (if failed then (False, ''Pkt2CodeGenerator detected write error.'', printed)
               else (True, error, printed)))))"

subsection \<open>The generated files\<close>

definition options_head :: "string \<Rightarrow> gen_file \<Rightarrow> string" where
  "options_head now file =
     ''/*'' @ nl @ '' * This is an automatically generated file, do not edit.'' @ nl @
     '' * '' @ fl_name file @ ''.options, source file: '' @ fl_name file @ nl @
     '' * '' @ now @ nl @
     '' * '' @ dec_str (length (fl_dependencies file)) @ '' dependencies: '' @ nl @
     concat (map (\<lambda>d. '' *     '' @ d @ nl) (fl_dependencies file)) @
     '' * '' @ dec_str (length (fl_messages file)) @ '' messages: '' @ nl @
     concat (map (\<lambda>m. '' *     '' @ gm_name m @ nl) (fl_messages file)) @
     '' */'' @ nl @ nl"

definition message_options :: "nat \<Rightarrow> pair_sorter \<Rightarrow> gen_pool \<Rightarrow> gen_message \<Rightarrow> string option result" where
  "message_options n sorter pool m =
     bindR (messageOptionsToInputPacketStructDeclaration sorter m) (\<lambda>decl.
     bindF (messageOptionsToInputPacketReader n pool m) (\<lambda>reader. Inr (Some (decl @ reader))))"

definition generateOptions :: "nat \<Rightarrow> string \<Rightarrow> pair_sorter \<Rightarrow> gen_pool \<Rightarrow> gen_file \<Rightarrow> bool \<Rightarrow> string
    \<Rightarrow> (bool \<times> string \<times> string) option result" where
  "generateOptions n now sorter pool file failed error =
     bindR (listOne2Many file) (\<lambda>rm.
     bindF (collect (message_options n sorter pool) (fl_messages file)) (\<lambda>body.
       let printed = options_head now file @ body
       in Inr (Some (if failed then (False, ''Pkt2CodeGenerator generateOptions detected write error.'', printed)
                     else (True, error, printed)))))"

text \<open>Both files are written whatever the result of the first.\<close>

definition Generate :: "nat \<Rightarrow> generator \<Rightarrow> float_texts \<Rightarrow> string \<Rightarrow> pair_sorter \<Rightarrow> gen_pool \<Rightarrow> gen_file \<Rightarrow>
    bool \<Rightarrow> bool \<Rightarrow> string \<Rightarrow> (bool \<times> string \<times> string \<times> string) option result" where
  "Generate n g show now sorter pool file sql_failed options_failed error =
     bindR (generateSQL g show pool file sql_failed error) (\<lambda>(r, error1, sql).
     bindF (generateOptions n now sorter pool file options_failed error1) (\<lambda>(r', error2, options).
       Inr (Some (r \<and> r', error2, sql, options))))"

end
