(* ===== verification/GeneratorText.thy ===== *)
theory GeneratorText
  imports CodeGenerator "HOL-Library.Sublist" "HOL-Library.Multiset"
begin

section \<open>What the code generator writes\<close>

text \<open>
  The expressions after the replacement of packet fields, the order of the members of a
  structure, the messages a message is repeated in, and the columns of the tables.
\<close>

subsection \<open>Expressions\<close>

text \<open>Words that are separated by the characters at which a replacement ends.\<close>

definition join_words :: "(string \<times> char) list \<Rightarrow> string \<Rightarrow> string" where
  "join_words ps w = concat (map (\<lambda>p. fst p @ [snd p]) ps) @ w"

definition on_words :: "(string \<Rightarrow> string) \<Rightarrow> (string \<times> char) list \<Rightarrow> (string \<times> char) list" where
  "on_words h ps = map (\<lambda>p. (h (fst p), snd p)) ps"

lemma on_words_simps [simp]:
  "on_words h [] = []" "on_words h (p # ps) = (h (fst p), snd p) # on_words h ps"
  by (simp_all add: on_words_def)

lemma on_words_comp: "on_words h (on_words k ps) = on_words (\<lambda>w. h (k w)) ps"
  by (simp add: on_words_def)

lemma on_words_cong: "(\<And>p. p \<in> set ps \<Longrightarrow> h (fst p) = k (fst p)) \<Longrightarrow> on_words h ps = on_words k ps"
  by (simp add: on_words_def)

definition ident :: "string \<Rightarrow> bool" where
  "ident s = (s \<noteq> [] \<and> list_all is_word s)"

definition no_word :: "char option \<Rightarrow> bool" where
  "no_word prev = (case prev of None \<Rightarrow> True | Some c \<Rightarrow> \<not> is_word c)"

text \<open>The rest of the text after a word: nothing, or a separator and more.\<close>

definition ends_word :: "string \<Rightarrow> bool" where
  "ends_word s = (s = [] \<or> stops (hd s))"

lemma stops_no_word: "stops c \<Longrightarrow> \<not> is_word c"
  by (auto simp: stops_def is_word_def)

lemma replace_skip:
  assumes "\<not> (boundary prev (c # s) \<and> take (length search) (c # s) = search)"
  shows "replace_from search rep prev (c # s) = c # replace_from search rep (Some c) s"
  using assms by (subst replace_from.simps) auto

lemma replace_end: "ident g \<Longrightarrow> replace_from g rep prev [] = []"
  by (subst replace_from.simps) (auto simp: ident_def)

lemma replace_no_word:
  "ident g \<Longrightarrow> \<not> is_word c \<Longrightarrow> replace_from g rep prev (c # s) = c # replace_from g rep (Some c) s"
  by (rule replace_skip) (cases g; auto simp: ident_def)

lemma replace_inner:
  "list_all is_word w \<Longrightarrow> is_word p \<Longrightarrow>
   replace_from g rep (Some p) (w @ rest) = w @ replace_from g rep (Some (last (p # w))) rest"
  by (induction w arbitrary: p) (auto simp: replace_skip boundary_def)

lemma take_word:
  assumes "list_all is_word g" and "rest = [] \<or> \<not> is_word (hd rest)" and "take (length g) (w @ rest) = g"
  shows "prefix g w"
proof (cases "length g \<le> length w")
  case True
  then show ?thesis using assms(3) by (metis append_eq_conv_conj prefix_def take_append take_all_iff
        append_take_drop_id diff_is_0_eq' take0 append_Nil2)
next
  case False
  then obtain c r where r: "rest = c # r" using assms(3) by (cases rest) auto
  have "g ! length w = (w @ rest) ! length w" using False assms(3) nth_take [of "length w" "length g" "w @ rest"] by simp
  then have "g ! length w = c" by (simp add: r)
  moreover have "is_word (g ! length w)" using assms(1) False by (simp add: list_all_length)
  ultimately show ?thesis using assms(2) by (simp add: r)
qed

lemma replace_other_word:
  assumes "ident g" and "no_word prev" and "list_all is_word w" and "rest = [] \<or> \<not> is_word (hd rest)"
    and "\<not> prefix g w"
  shows "replace_from g rep prev (w @ rest) = w @ replace_from g rep (last_char prev w) rest"
proof (cases w)
  case (Cons c w')
  have "take (length g) (w @ rest) \<noteq> g"
    using take_word assms by (auto simp: ident_def)
  then have "replace_from g rep prev (w @ rest) = c # replace_from g rep (Some c) (w' @ rest)"
    by (simp add: Cons replace_skip)
  then show ?thesis using assms(3) by (simp add: Cons replace_inner last_char_def)
qed (simp add: last_char_def)

lemma replace_word:
  assumes "ident g" and "no_word prev" and "list_all is_word w" and "ends_word rest" and "prefix g w"
  shows "replace_from g rep prev (w @ rest) = rep @ replace_from g rep (Some (last w)) rest"
proof -
  obtain u where w: "w = g @ u" using assms(5) by (auto simp: prefix_def)
  have "takeWhile (\<lambda>c. \<not> stops c) (u @ rest) = u"
    using assms(3,4) stops_no_word by (cases rest) (auto simp: w ends_word_def list_all_iff takeWhile_append)
  moreover have "boundary prev (w @ rest)"
    using assms(1-3) by (cases g) (auto simp: w boundary_def no_word_def ident_def split: option.splits)
  moreover have "g \<noteq> []" using assms(1) by (simp add: ident_def)
  ultimately show ?thesis
    by (subst replace_from.simps) (simp add: w)
qed

lemma replace_src_word:
  assumes "ident g" and "no_word prev" and "list_all is_word v" and "ends_word rest"
    and "\<not> prefix g v" and "\<not> prefix g ''src''"
  shows "replace_from g rep prev (src_field v @ rest) = src_field v @ replace_from g rep (Some (last (src_field v))) rest"
proof -
  have src: "list_all is_word ''src''" by code_simp
  have dash: "\<not> is_word CHR ''-''" "\<not> is_word CHR ''>''" by code_simp+
  have "replace_from g rep prev (''src'' @ ''->'' @ v @ rest) =
      ''src'' @ replace_from g rep (last_char prev ''src'') (''->'' @ v @ rest)"
    by (rule replace_other_word [OF assms(1,2) src]) (use assms(6) dash in auto)
  also have "\<dots> = ''src->'' @ replace_from g rep (Some CHR ''>'') (v @ rest)"
    by (simp add: replace_no_word assms(1) dash)
  also have "replace_from g rep (Some CHR ''>'') (v @ rest) = v @ replace_from g rep (last_char (Some CHR ''>'') v) rest"
    by (rule replace_other_word) (use assms stops_no_word dash in \<open>auto simp: no_word_def ends_word_def\<close>)
  finally show ?thesis by (simp add: src_field_def last_char_def)
qed

text \<open>One field: what becomes of a word that is, or is not yet, read from the structure.\<close>

definition plain_for :: "string \<Rightarrow> string \<Rightarrow> bool" where
  "plain_for g w = (list_all is_word w \<or> (\<exists>v. w = src_field v \<and> list_all is_word v \<and> \<not> prefix g v))"

definition put_src :: "string \<Rightarrow> string \<Rightarrow> string" where
  "put_src g w = (if list_all is_word w \<and> prefix g w then src_field g else w)"

lemma src_field_no_word: "\<not> list_all is_word (src_field v)"
  by (simp add: src_field_def is_word_def)

lemma replace_chunk:
  assumes "ident g" and "\<not> prefix g ''src''" and "no_word prev" and "plain_for g w" and "ends_word rest"
  shows "\<exists>q. replace_from g (src_field g) prev (w @ rest) = put_src g w @ replace_from g (src_field g) q rest"
proof (cases "list_all is_word w")
  case True
  have "rest = [] \<or> \<not> is_word (hd rest)" using assms(5) stops_no_word by (auto simp: ends_word_def)
  then show ?thesis
    using True replace_word [OF assms(1,3) True assms(5)] replace_other_word [OF assms(1,3) True]
    by (auto simp: put_src_def)
next
  case False
  then obtain v where "w = src_field v" "list_all is_word v" "\<not> prefix g v"
    using assms(4) by (auto simp: plain_for_def)
  then show ?thesis
    using replace_src_word [OF assms(1,3) _ assms(5) _ assms(2)] src_field_no_word [of v]
    by (auto simp: put_src_def)
qed

lemma replace_join:
  assumes "ident g" and "\<not> prefix g ''src''" and "plain_for g w"
  shows "no_word prev \<Longrightarrow> list_all (\<lambda>p. plain_for g (fst p) \<and> stops (snd p)) ps \<Longrightarrow>
    replace_from g (src_field g) prev (join_words ps w) = join_words (on_words (put_src g) ps) (put_src g w)"
proof (induction ps arbitrary: prev)
  case Nil
  then show ?case
    using replace_chunk [OF assms(1,2) Nil(1) assms(3), of "[]"] replace_end [OF assms(1)]
    by (auto simp: join_words_def ends_word_def)
next
  case (Cons p ps)
  obtain u c where p: "p = (u, c)" by (cases p)
  have c: "stops c" "\<not> is_word c" using Cons.prems(2) stops_no_word by (auto simp: p)
  have "\<exists>q. replace_from g (src_field g) prev (u @ c # join_words ps w) =
      put_src g u @ replace_from g (src_field g) q (c # join_words ps w)"
    by (rule replace_chunk) (use assms Cons.prems c in \<open>auto simp: p ends_word_def\<close>)
  then show ?case
    using Cons.IH [of "Some c"] Cons.prems(2) c replace_no_word [OF assms(1) c(2)]
    by (auto simp: p join_words_def no_word_def)
qed

text \<open>All the fields, one after the other.\<close>

definition fields_clear :: "string list \<Rightarrow> string list \<Rightarrow> bool" where
  "fields_clear gs ws =
     (distinct gs \<and> list_all (\<lambda>g. ident g \<and> \<not> prefix g ''src'' \<and> list_all (\<lambda>w. prefix g w \<longrightarrow> g = w) (gs @ ws)) gs)"

definition from_src :: "string list \<Rightarrow> string \<Rightarrow> string" where
  "from_src gs w = (if w \<in> set gs then src_field w else w)"

lemma put_src_from_src:
  assumes "list_all is_word w" and "prefix g w \<longrightarrow> g = w"
  shows "put_src g (from_src done w) = from_src (done @ [g]) w"
  using assms src_field_no_word [of w] by (auto simp: put_src_def from_src_def)

lemma replace_all_fields:
  assumes "list_all (\<lambda>p. list_all is_word (fst p) \<and> stops (snd p)) ps" and "list_all is_word w"
    and "fields_clear (done @ map f_name fs) (w # map fst ps)"
  shows "foldl (\<lambda>s f. replaceWords s (f_name f) (src_field (f_name f)))
      (join_words (on_words (from_src done) ps) (from_src done w)) fs =
    join_words (on_words (from_src (done @ map f_name fs)) ps) (from_src (done @ map f_name fs) w)"
  using assms(3)
proof (induction fs arbitrary: "done")
  case (Cons f fs)
  let ?g = "f_name f"
  have "distinct (done @ map f_name (f # fs))" using Cons.prems unfolding fields_clear_def by blast
  then have new: "?g \<notin> set done" by simp
  have "?g \<in> set (done @ map f_name (f # fs))" by simp
  then have g: "ident ?g" "\<not> prefix ?g ''src''"
    and clear: "\<And>u. u \<in> set (done @ w # map fst ps) \<Longrightarrow> prefix ?g u \<Longrightarrow> ?g = u"
    using Cons.prems unfolding fields_clear_def list_all_iff set_append by blast+
  have plain: "plain_for ?g (from_src done u)" if "list_all is_word u" "u \<in> set (w # map fst ps)" for u
    unfolding from_src_def plain_for_def using that clear [of u] new by (cases "u \<in> set done") auto
  have put: "put_src ?g (from_src done u) = from_src (done @ [?g]) u"
    if "list_all is_word u" "u \<in> set (w # map fst ps)" for u
    by (rule put_src_from_src [OF that(1)]) (use that(2) clear [of u] in auto)
  have words: "list_all is_word (fst p) \<and> stops (snd p) \<and> fst p \<in> set (w # map fst ps)" if "p \<in> set ps" for p
    using assms(1) that by (simp add: list_all_iff)
  have one: "list_all (\<lambda>p. plain_for ?g (fst p) \<and> stops (snd p)) (on_words (from_src done) ps)"
    using plain words by (simp add: on_words_def list_all_iff)
  have all: "on_words (put_src ?g) (on_words (from_src done) ps) =
      on_words (from_src (done @ [?g])) ps"
    unfolding on_words_comp by (rule on_words_cong) (use put words in blast)
  have "replaceWords (join_words (on_words (from_src done) ps) (from_src done w)) ?g (src_field ?g) =
      join_words (on_words (from_src (done @ [?g])) ps) (from_src (done @ [?g]) w)"
    unfolding replaceWords_def
    using replace_join [OF g plain [OF assms(2)] _ one, of None] put [OF assms(2)]
    by (simp add: all no_word_def)
  then show ?case using Cons.IH [of "done @ [?g]"] Cons.prems by simp
qed simp

text \<open>
  In an expression of words that are separated by brackets, commas, dots and spaces,
  replacePacketFieldNames puts src-> before every word that is a field of the packet and
  leaves all other text as it is. No field name may be a beginning of another word of the
  expression, of another field or of src.
\<close>

theorem expression_reads_fields:
  assumes "list_all (\<lambda>p. list_all is_word (fst p) \<and> stops (snd p)) ps" and "list_all is_word w"
    and "fields_clear (map f_name (pk_fields packet)) (w # map fst ps)"
  shows "replacePacketFieldNames (join_words ps w) packet =
    join_words (on_words (from_src (map f_name (pk_fields packet))) ps)
      (from_src (map f_name (pk_fields packet)) w)"
proof -
  have "from_src [] = (\<lambda>u. u)" by (intro ext) (simp add: from_src_def)
  then show ?thesis
    using replace_all_fields [of ps w "[]" "pk_fields packet"] assms
    by (simp add: replacePacketFieldNames_def on_words_def)
qed

definition example_packet_decl :: "string list \<Rightarrow> packet_decl" where
  "example_packet_decl names =
     \<lparr>pk_name = ''p'', pk_id = 1,
      pk_fields = map (\<lambda>n. \<lparr>f_name = n, f_type = INPUT_UINT, f_endian = ENDIAN_NO_MATTER, f_offset = 0, f_size = 1, f_tag = 0\<rparr>) names,
      pd_short_name = [], pd_full_name = [], pd_source = [], pd_destination = []\<rparr>"

theorem expression_reads_fields_witness:
  "replacePacketFieldNames ''f(t, u)'' (example_packet_decl [''t'', ''u'', ''x'']) = ''f(src->t, src->u)''"
proof -
  define ps where "ps = [(''f'', CHR ''(''), (''t'', CHR '',''), ([], CHR '' ''), (''u'', CHR '')'')]"
  have "list_all (\<lambda>p. list_all is_word (fst p) \<and> stops (snd p)) ps" "list_all is_word []"
    "fields_clear (map f_name (pk_fields (example_packet_decl [''t'', ''u'', ''x'']))) ([] # map fst ps)"
    unfolding ps_def by code_simp+
  from expression_reads_fields [OF this] show ?thesis
    by (simp add: ps_def join_words_def on_words_def from_src_def src_field_def example_packet_decl_def)
qed

text \<open>
  Any other character after a field name is taken as part of the name: an operator and all
  that follows it up to the next bracket, comma, dot or space are lost. A field whose name
  begins another one takes its place.
\<close>

theorem operator_is_swallowed:
  "replacePacketFieldNames ''t+u'' (example_packet_decl [''t'', ''u'']) = ''src->t'' \<and>
   replacePacketFieldNames ''temp'' (example_packet_decl [''t'', ''temp'']) = ''src->t'' \<and>
   replacePacketFieldNames ''u'' (example_packet_decl [''u'', ''s'']) = ''src->s''"
  by code_simp

subsection \<open>The order of the members\<close>

text \<open>
  What std::sort documents: a permutation of the elements, in the order of the second
  components.
\<close>

definition sorts_pairs :: "pair_sorter \<Rightarrow> bool" where
  "sorts_pairs sorter = (\<forall>xs. mset (sorter xs) = mset xs \<and> sorted (map snd (sorter xs)))"

lemma gather_Inr_map: "(\<And>x. x \<in> set xs \<Longrightarrow> f x = Inr [g x]) \<Longrightarrow> gather f xs = Inr (map g xs)"
  using gather_map [of xs f "\<lambda>x. [g x]"] by simp

lemma zip_upt_nth: "p \<in> set (zip [0..<length xs] (map h xs)) \<Longrightarrow> fst p < length xs \<and> snd p = h (xs ! fst p)"
  by (auto simp: set_zip)

lemma map_nth_pairs: "map (\<lambda>p. xs ! fst p) (zip [0..<length xs] (map h xs)) = xs"
  by (rule nth_equalityI) auto

lemma fields_in_order_sorted:
  assumes "sorts_pairs sorter"
  obtains fs where "fields_in_order sorter packet = Inr fs" and "mset fs = mset (pk_fields packet)"
    and "sorted (map (\<lambda>f. sint (f_offset f)) fs)"
proof -
  let ?fs = "pk_fields packet"
  define pairs where "pairs = zip [0..<length ?fs] (map (\<lambda>f. sint (f_offset f)) ?fs)"
  have sorted: "mset (sorter pairs) = mset pairs" "sorted (map snd (sorter pairs))"
    using assms by (auto simp: sorts_pairs_def)
  then have len: "length (sorter pairs) = length ?fs"
    using mset_eq_length [OF sorted(1)] by (simp add: pairs_def)
  have elem: "fst p < length ?fs \<and> snd p = sint (f_offset (?fs ! fst p))" if "p \<in> set (sorter pairs)" for p
    using that zip_upt_nth [of p ?fs "\<lambda>f. sint (f_offset f)"] mset_eq_setD [OF sorted(1)] by (simp add: pairs_def)
  define fs where "fs = map (\<lambda>p. ?fs ! fst p) (sorter pairs)"
  have idx: "sortPacketFieldsIndex sorter ?fs = map fst (sorter pairs)"
    by (simp add: sortPacketFieldsIndex_def pairs_def)
  have "fields_in_order sorter packet = Inr (map (\<lambda>i. ?fs ! fst (sorter pairs ! i)) [0..<length ?fs])"
    unfolding fields_in_order_def idx
    by (rule gather_Inr_map) (use len elem in \<open>auto intro!: exI simp: elem_at_def\<close>)
  also have "map (\<lambda>i. ?fs ! fst (sorter pairs ! i)) [0..<length ?fs] = fs"
    using len by (intro nth_equalityI) (auto simp: fs_def)
  finally have "fields_in_order sorter packet = Inr fs" .
  moreover have "mset fs = mset ?fs"
  proof -
    have "mset fs = image_mset (\<lambda>p. ?fs ! fst p) (mset pairs)" by (simp add: fs_def sorted(1) [symmetric])
    also have "\<dots> = mset (map (\<lambda>p. ?fs ! fst p) pairs)" by simp
    finally show ?thesis unfolding pairs_def map_nth_pairs .
  qed
  moreover have "map (\<lambda>f. sint (f_offset f)) fs = map snd (sorter pairs)"
    unfolding fs_def map_map by (rule map_cong) (use elem in auto)
  ultimately show thesis using that sorted(2) by simp
qed

text \<open>
  The C structure of a packet has every field of the packet as a member, once, and the
  members are in the order of the offsets, in whatever order the fields were declared.
\<close>

theorem struct_members_in_order:
  assumes "sorts_pairs sorter"
  shows "\<exists>fs. messageOptionsToInputPacketStructDeclaration sorter m =
      Inr (packet_comment (gm_packet m) fs @ CLAUSE_INCLUDES @ nl @ nl @ struct_text (gm_packet m) fs @ nl) \<and>
    mset fs = mset (pk_fields (gm_packet m)) \<and> sorted (map (\<lambda>f. sint (f_offset f)) fs)"
  by (rule fields_in_order_sorted [OF assms, of "gm_packet m"])
     (auto simp: messageOptionsToInputPacketStructDeclaration_def)

definition two_fields :: gen_message where
  "two_fields =
     \<lparr>gm_full_name = ''p.m'', gm_name = ''m'',
      gm_packet = (example_packet_decl [])\<lparr>pk_fields :=
        [\<lparr>f_name = ''b'', f_type = INPUT_INT, f_endian = ENDIAN_NO_MATTER, f_offset = 2, f_size = 2, f_tag = 0\<rparr>,
         \<lparr>f_name = ''a'', f_type = INPUT_UINT, f_endian = ENDIAN_NO_MATTER, f_offset = 0, f_size = 2, f_tag = 0\<rparr>]\<rparr>,
      gm_fields = []\<rparr>"

theorem struct_members_in_order_witness:
  "\<exists>fs. messageOptionsToInputPacketStructDeclaration (sort_key snd) two_fields =
      Inr (packet_comment (gm_packet two_fields) fs @ CLAUSE_INCLUDES @ nl @ nl @
        struct_text (gm_packet two_fields) fs @ nl) \<and>
    mset fs = mset (pk_fields (gm_packet two_fields)) \<and> sorted (map (\<lambda>f. sint (f_offset f)) fs)"
  by (rule struct_members_in_order) (simp add: sorts_pairs_def)

end
