(* ===== verification/GeneratorTables.thy ===== *)
theory GeneratorTables
  imports CodeGenerator
begin

section \<open>The tables of the code generator\<close>

text \<open>
  The messages a message is repeated in, and the columns that the CREATE TABLE statements
  declare, read back from their text.
\<close>

subsection \<open>The owners of a message\<close>

definition owned :: "string \<Rightarrow> gen_field \<Rightarrow> bool" where
  "owned t fd = (fd_repeated fd \<and> fd_type fd = CPPTYPE_MESSAGE \<and> fd_message fd = t)"

definition owners_of :: "gen_message list \<Rightarrow> string \<Rightarrow> gen_message list" where
  "owners_of ms t = concat (map (\<lambda>m. map (\<lambda>_. m) (filter (owned t) (gm_fields m))) ms)"

text \<open>Every message type that a message of the file repeats is in the file.\<close>

definition repeats_local :: "string list \<Rightarrow> gen_field \<Rightarrow> bool" where
  "repeats_local keys fd = (fd_repeated fd \<and> fd_type fd = CPPTYPE_MESSAGE \<longrightarrow> fd_message fd \<in> set keys)"

definition owner_table :: "string list \<Rightarrow> (string \<Rightarrow> gen_message list) \<Rightarrow> owners" where
  "owner_table keys f = map (\<lambda>k. (k, f k)) keys"

lemma map_of_owner_table: "map_of (owner_table keys f) k = (if k \<in> set keys then Some (f k) else None)"
  unfolding owner_table_def by (induction keys) auto

lemma add_owner_table:
  assumes "repeats_local keys fd"
  shows "add_owner m fd (owner_table keys f) =
    Inr (owner_table keys (\<lambda>t. f t @ (if owned t fd then [m] else [])))"
  using assms
  by (auto simp: add_owner_def map_of_owner_table repeats_local_def owned_def)
     (auto simp: owner_table_def)

lemma add_owners_table:
  "list_all (repeats_local keys) fds \<Longrightarrow> add_owners m fds (owner_table keys f) =
    Inr (owner_table keys (\<lambda>t. f t @ map (\<lambda>_. m) (filter (owned t) fds)))"
proof (induction fds arbitrary: f)
  case (Cons fd fds)
  then show ?case
    by (simp add: add_owner_table) (rule arg_cong [where f = "owner_table keys"], auto simp: fun_eq_iff)
qed simp

lemma all_owners_table:
  "list_all (\<lambda>m. list_all (repeats_local keys) (gm_fields m)) ms \<Longrightarrow>
   all_owners ms (owner_table keys f) = Inr (owner_table keys (\<lambda>t. f t @ owners_of ms t))"
proof (induction ms arbitrary: f)
  case (Cons m ms)
  then show ?case by (simp add: add_owners_table owners_of_def)
qed (simp add: owners_of_def)

definition closed_file :: "gen_pool \<Rightarrow> gen_file \<Rightarrow> bool" where
  "closed_file pool file =
     (list_all (\<lambda>m. list_all (\<lambda>fd. repeats_local (map gm_full_name (fl_messages file)) fd \<and>
        (fd_type fd = CPPTYPE_MESSAGE \<longrightarrow> pool (fd_message fd) \<noteq> None)) (gm_fields m)) (fl_messages file))"

lemma listOne2Many_owners:
  assumes "closed_file pool file"
  shows "listOne2Many file = Inr (owner_table (map gm_full_name (fl_messages file)) (owners_of (fl_messages file)))"
proof -
  let ?keys = "map gm_full_name (fl_messages file)"
  have "map (\<lambda>m. (gm_full_name m, [])) (fl_messages file) = owner_table ?keys (\<lambda>t. [])"
    by (simp add: owner_table_def comp_def)
  then show ?thesis
    unfolding listOne2Many_def
    using all_owners_table [of ?keys "fl_messages file" "\<lambda>t. []"] assms
    by (simp add: closed_file_def list_all_iff)
qed

text \<open>A message of an imported file in a repeated field: the end of the map is followed.\<close>

lemma add_owner_imported:
  "fd_repeated fd \<Longrightarrow> fd_type fd = CPPTYPE_MESSAGE \<Longrightarrow> fd_message fd \<notin> fst ` set rm \<Longrightarrow>
   add_owner m fd rm = Inl OutOfBounds"
  by (simp add: add_owner_def map_of_eq_None_iff [symmetric])

subsection \<open>Reading the columns back\<close>

text \<open>A line that starts, after white space, with a quote declares the column in quotes.\<close>

definition column_of_line :: "string \<Rightarrow> string option" where
  "column_of_line line =
     (let s = dropWhile is_space line
      in if s \<noteq> [] \<and> hd s = CHR 0x22 then Some (takeWhile (\<lambda>c. c \<noteq> CHR 0x22) (tl s)) else None)"

definition columns_of :: "string \<Rightarrow> string list" where
  "columns_of s = List.map_filter column_of_line (split s CHR 0x0A)"

definition unlines :: "string list \<Rightarrow> string" where
  "unlines ls = concat (map (\<lambda>l. l @ nl) ls)"

lemma unlines_simps [simp]:
  "unlines [] = []" "unlines (l # ls) = l @ nl @ unlines ls" "unlines (ls @ ls') = unlines ls @ unlines ls'"
  by (simp_all add: unlines_def)

lemma split_unlines: "list_all (\<lambda>l. CHR 0x0A \<notin> set l) ls \<Longrightarrow> split (unlines ls) CHR 0x0A = ls"
  unfolding split_def by (induction ls) (simp_all add: nl_def split_from_field)

text \<open>Text without line feeds and quotes.\<close>

definition clean :: "string \<Rightarrow> bool" where
  "clean s = (CHR 0x0A \<notin> set s \<and> CHR 0x22 \<notin> set s)"

lemma clean_simps [simp]: "clean []" "clean (c # s) = (c \<noteq> CHR 0x0A \<and> c \<noteq> CHR 0x22 \<and> clean s)"
  "clean (s @ t) = (clean s \<and> clean t)"
  by (auto simp: clean_def)

lemma clean_line: "clean s \<Longrightarrow> CHR 0x0A \<notin> set s"
  by (simp add: clean_def)

lemma clean_lower: "clean (lower s) = clean s"
proof -
  have "to_lower c = CHR 0x0A \<longleftrightarrow> c = CHR 0x0A" "to_lower c = CHR 0x22 \<longleftrightarrow> c = CHR 0x22" for c
    by (auto simp: to_lower_def Let_def char_of_eq_iff take_bit_eq_mod)
  then show ?thesis by (induction s) (auto simp: lower_def)
qed

lemma clean_digits: "list_all is_digit s \<Longrightarrow> clean s"
  by (auto simp: clean_def list_all_iff is_digit_def)

lemma clean_int_str: "clean (int_str i)"
  using dec_str_digits by (auto simp: int_str_def list_all_iff intro!: clean_digits)

lemma clean_enum_list: "clean (enum_list ns)"
  by (induction ns) (auto simp: enum_list_def quoted_text_def apostrophe_def clean_int_str)

lemma column_of_quoted:
  "list_all is_space pre \<Longrightarrow> clean name \<Longrightarrow> column_of_line (pre @ CHR 0x22 # name @ CHR 0x22 # rest) = Some name"
  by (auto simp: column_of_line_def dropWhile_append1 list_all_iff is_space_def Let_def clean_def takeWhile_tail)

lemma column_of_start [simp]:
  "clean name \<Longrightarrow> column_of_line (CHR '' '' # CHR 0x22 # name @ CHR 0x22 # rest) = Some name"
  "clean name \<Longrightarrow> column_of_line (CHR '' '' # CHR '' '' # CHR 0x22 # name @ CHR 0x22 # rest) = Some name"
  using column_of_quoted [of "'' ''" name rest] column_of_quoted [of "''  ''" name rest]
  by (simp_all add: is_space_def)

lemma column_of_id [simp]:
  "clean name \<Longrightarrow> column_of_line (CHR '' '' # CHR 0x22 # name @ CHR ''i'' # CHR ''d'' # CHR 0x22 # rest) =
    Some (name @ ''id'')"
  using column_of_start(1) [of "name @ ''id''" rest] by simp

lemma column_of_other [simp]:
  "c \<noteq> CHR '' '' \<Longrightarrow> is_word c \<or> c = CHR '')'' \<Longrightarrow> column_of_line (c # rest) = None"
  "is_word c \<Longrightarrow> column_of_line (CHR '' '' # c # rest) = None"
  "is_word c \<Longrightarrow> column_of_line (CHR '' '' # CHR '' '' # c # rest) = None"
  by (auto simp: column_of_line_def is_space_def is_word_def)

lemma column_of_empty [simp]: "column_of_line [] = None"
  by (simp add: column_of_line_def)

lemma word_chars [simp]: "is_word CHR ''K''" "is_word CHR ''C''"
  by code_simp+

definition reads_as :: "string \<Rightarrow> string list \<Rightarrow> bool" where
  "reads_as s cols =
     (\<exists>ls. s = unlines ls \<and> list_all (\<lambda>l. CHR 0x0A \<notin> set l) ls \<and> List.map_filter column_of_line ls = cols)"

lemma reads_as_lines:
  "list_all (\<lambda>l. CHR 0x0A \<notin> set l) ls \<Longrightarrow> List.map_filter column_of_line ls = cols \<Longrightarrow> reads_as (unlines ls) cols"
  unfolding reads_as_def by blast

lemma reads_as_Nil: "reads_as [] []"
  using reads_as_lines [of "[]"] by (simp add: List.map_filter_def)

lemma reads_as_append: "reads_as s cols \<Longrightarrow> reads_as t cols' \<Longrightarrow> reads_as (s @ t) (cols @ cols')"
proof -
  assume "reads_as s cols" "reads_as t cols'"
  then obtain ls ls' where "s = unlines ls" "list_all (\<lambda>l. CHR 0x0A \<notin> set l) ls" "List.map_filter column_of_line ls = cols"
    "t = unlines ls'" "list_all (\<lambda>l. CHR 0x0A \<notin> set l) ls'" "List.map_filter column_of_line ls' = cols'"
    unfolding reads_as_def by blast
  then show ?thesis
    using reads_as_lines [of "ls @ ls'"] by (auto simp: List.map_filter_def)
qed

lemma reads_as_gather:
  "(\<And>x. x \<in> set xs \<Longrightarrow> \<exists>s. f x = Inr s \<and> reads_as s (g x)) \<Longrightarrow>
   \<exists>s. gather f xs = Inr s \<and> reads_as s (concat (map g xs))"
proof (induction xs)
  case Nil
  show ?case by (simp add: reads_as_Nil)
next
  case (Cons x xs)
  obtain s where "f x = Inr s" "reads_as s (g x)" using Cons.prems [of x] by auto
  moreover obtain t where "gather f xs = Inr t" "reads_as t (concat (map g xs))" using Cons.IH Cons.prems by auto
  ultimately show ?case by (auto intro: reads_as_append)
qed

lemma reads_as_columns: "reads_as s cols \<Longrightarrow> columns_of s = cols"
  by (auto simp: reads_as_def columns_of_def split_unlines)

text \<open>The columns of a field; names, defaults and type names without line feeds and quotes.\<close>

definition field_columns :: "gen_field \<Rightarrow> string list" where
  "field_columns fd =
     (if fd_type fd = CPPTYPE_MESSAGE then (if fd_repeated fd then [] else [gf_lowercase fd @ ''id''])
      else [gf_lowercase fd])"

definition clean_field :: "float_texts \<Rightarrow> gen_pool \<Rightarrow> gen_field \<Rightarrow> bool" where
  "clean_field show pool fd =
     (clean (gf_lowercase fd) \<and> CHR 0x0A \<notin> set (getSuffix show fd) \<and>
      (fd_type fd = CPPTYPE_MESSAGE \<longrightarrow>
         (case pool (fd_message fd) of None \<Rightarrow> False | Some mt \<Rightarrow> clean (gm_name mt))))"

lemma generator_types:
  "quote code_generator = [CHR 0x22]"
  "at_key (sqltypes code_generator) ''id'' = Inr ''int(20)''"
  "at_key (sqltypes code_generator) ''primary'' = Inr ''SERIAL PRIMARY KEY''"
  by (simp_all add: code_generator_def quote_postgresql_def types_postgresql_def at_key_def)

lemma generator_type: "\<exists>ty. at_key (sqltypes code_generator) (cpp_type_name t) = Inr ty \<and> CHR 0x0A \<notin> set ty"
  by (cases t) (simp_all add: code_generator_def types_postgresql_def at_key_def cpp_type_name_def)

lemma owner_sql_reads:
  assumes "clean (gm_name m)" and "clean (gm_name d)"
  shows "\<exists>s. owner_sql code_generator m d = Inr s \<and> reads_as s [lower (gm_name d) @ ''id'']"
proof -
  let ?q = "[CHR 0x22]" and ?d = "lower (gm_name d)" and ?m = "lower (gm_name m)"
  have "reads_as (unlines ['' '' @ ?q @ ?d @ ''id'' @ ?q @ '' '' @ ''int(20)'' @ '' NOT NULL,'',
      ''  KEY '' @ ?q @ ''key_'' @ ?m @ ''_'' @ ?d @ ''id'' @ ?q @ '' ('' @ ?q @ ?d @ ''id'' @ ?q @ ''),'']) [?d @ ''id'']"
    using assms clean_lower clean_line by (intro reads_as_lines) (auto simp: List.map_filter_def)
  then show ?thesis by (simp add: owner_sql_def generator_types Let_def)
qed

lemma column_sql_reads:
  assumes "clean (gm_name m)" and "clean_field show pool fd"
  shows "\<exists>s. column_sql code_generator show pool m fd = Inr s \<and> reads_as s (field_columns fd)"
proof (cases "fd_type fd = CPPTYPE_MESSAGE")
  case True
  let ?q = "[CHR 0x22]" and ?n = "gf_lowercase fd" and ?m = "lower (gm_name m)"
  obtain mt where mt: "pool (fd_message fd) = Some mt" "clean (gm_name mt)"
    using assms(2) True by (auto simp: clean_field_def split: option.splits)
  have "reads_as (unlines ['' '' @ ?q @ ?n @ ''id'' @ ?q @ '' '' @ ''int(20)'' @ getSuffix show fd @ '', '',
      '' KEY '' @ ?q @ ''key_'' @ ?m @ ''_'' @ ?n @ ''id'' @ ?q @ '' ('' @ ?q @ ?n @ ''id'' @ ?q @ ''), '',
      ''  CONSTRAINT '' @ ?q @ ''fk_'' @ ?m @ ''_'' @ ?n @ ''id'' @ ?q @ '' FOREIGN KEY('' @ ?q @ ?n @ ''id'' @ ?q @
        '') REFERENCES '' @ ?q @ gm_name mt @ ?q @ ''('' @ ?q @ ''id'' @ ?q @ '') ON DELETE CASCADE,'']) [?n @ ''id'']"
    using assms mt clean_lower clean_line by (intro reads_as_lines) (auto simp: List.map_filter_def clean_field_def)
  then show ?thesis
    using True mt reads_as_Nil by (simp add: column_sql_def generator_types field_columns_def Let_def)
next
  case False
  let ?q = "[CHR 0x22]" and ?n = "gf_lowercase fd"
  obtain ty where ty: "at_key (sqltypes code_generator) (cpp_type_name (fd_type fd)) = Inr ty" "CHR 0x0A \<notin> set ty"
    using generator_type by blast
  have "reads_as (unlines ['' '' @ ?q @ ?n @ ?q @ '' '' @ ty @ getSuffix show fd @ '', '']) [?n]"
    "reads_as (unlines [''  '' @ ?q @ ?n @ ?q @ '' '' @ ty @ ''('' @ enum_list (gf_enum fd) @ '')'' @ getSuffix show fd @ '', '']) [?n]"
    using assms ty clean_line clean_enum_list
    by (intro reads_as_lines; auto simp: List.map_filter_def clean_field_def)+
  then show ?thesis
    using False ty
    by (cases "fd_type fd = CPPTYPE_ENUM") (simp_all add: column_sql_def generator_types field_columns_def Let_def)
qed

definition clean_message :: "float_texts \<Rightarrow> gen_pool \<Rightarrow> gen_message \<Rightarrow> bool" where
  "clean_message show pool m = (clean (gm_name m) \<and> list_all (clean_field show pool) (gm_fields m))"

lemma create_table_reads:
  assumes "clean_message show pool m" and "map_of rm (gm_full_name m) = Some fk"
    and "list_all (\<lambda>d. clean (gm_name d)) fk"
  shows "\<exists>s. create_table code_generator show pool rm m = Inr s \<and>
    columns_of s = ''id'' # map (\<lambda>d. lower (gm_name d) @ ''id'') fk @ concat (map field_columns (gm_fields m)) @ [''tag'']"
proof -
  let ?q = "[CHR 0x22]"
  have m: "clean (gm_name m)" using assms(1) by (simp add: clean_message_def)
  obtain keys where keys: "gather (owner_sql code_generator m) fk = Inr keys"
    "reads_as keys (concat (map (\<lambda>d. [lower (gm_name d) @ ''id'']) fk))"
    using reads_as_gather [of fk "owner_sql code_generator m" "\<lambda>d. [lower (gm_name d) @ ''id'']"] owner_sql_reads [OF m] assms(3)
    by (auto simp: list_all_iff)
  obtain cols where cols: "gather (column_sql code_generator show pool m) (gm_fields m) = Inr cols"
    "reads_as cols (concat (map field_columns (gm_fields m)))"
    using reads_as_gather [of "gm_fields m" "column_sql code_generator show pool m" field_columns] column_sql_reads [OF m] assms(1)
    by (auto simp: list_all_iff clean_message_def)
  have head: "reads_as (unlines [''CREATE TABLE IF NOT EXISTS '' @ ?q @ gm_name m @ ?q @ ''('',
      '' '' @ ?q @ ''id'' @ ?q @ '' SERIAL PRIMARY KEY,'']) [''id'']"
    using m clean_line column_of_id [of "[]"] by (intro reads_as_lines) (auto simp: List.map_filter_def)
  have tail: "reads_as (unlines ['' '' @ ?q @ ''tag'' @ ?q @ '' int(11)'', '');'', []]) [''tag'']"
    using column_of_start(1) [of "''tag''"] by (intro reads_as_lines) (auto simp: List.map_filter_def)
  note all = reads_as_append [OF head reads_as_append [OF keys(2) reads_as_append [OF cols(2) tail]]]
  show ?thesis
    using reads_as_columns [OF all]
    by (simp add: create_table_def generator_types assms(2) keys(1) cols(1) Let_def concat_map_singleton)
qed

subsection \<open>Properties\<close>

lemma owners_of_subset: "set (owners_of ms t) \<subseteq> set ms"
  by (auto simp: owners_of_def)

lemma gather_each:
  "(\<And>x. x \<in> set xs \<Longrightarrow> \<exists>s. f x = Inr s \<and> P x s) \<Longrightarrow> \<exists>ss. gather f xs = Inr (concat ss) \<and> list_all2 P xs ss"
proof (induction xs)
  case (Cons x xs)
  obtain s where "f x = Inr s" "P x s" using Cons.prems [of x] by auto
  moreover obtain ss where "gather f xs = Inr (concat ss)" "list_all2 P xs ss" using Cons.IH Cons.prems by auto
  ultimately show ?case by (intro exI [of _ "s # ss"]) simp
qed simp

definition table_columns :: "gen_message list \<Rightarrow> gen_message \<Rightarrow> string list" where
  "table_columns ms m =
     ''id'' # map (\<lambda>d. lower (gm_name d) @ ''id'') (owners_of ms (gm_full_name m)) @
     concat (map field_columns (gm_fields m)) @ [''tag'']"

text \<open>
  C18: For a file that repeats only its own messages generateSQL writes one CREATE TABLE
  statement per message. The columns it declares are the key id, a reference to every
  message in which the message is repeated, once for each such field, the fields that are
  not repeated messages and tag, in this order.
\<close>

theorem tables_declare_columns:
  assumes "closed_file pool file" and "list_all (clean_message show pool) (fl_messages file)"
  shows "\<exists>head tables. generateSQL code_generator show pool file False err = Inr (True, err, head @ concat tables) \<and>
    list_all2 (\<lambda>m s. columns_of s = table_columns (fl_messages file) m)
      (fl_messages file) tables"
proof -
  let ?rm = "owner_table (map gm_full_name (fl_messages file)) (owners_of (fl_messages file))"
  have one: "\<exists>s. create_table code_generator show pool ?rm m = Inr s \<and> columns_of s = table_columns (fl_messages file) m" if "m \<in> set (fl_messages file)" for m
    unfolding table_columns_def
  proof (rule create_table_reads)
    show "clean_message show pool m" using assms(2) that by (simp add: list_all_iff)
    show "map_of ?rm (gm_full_name m) = Some (owners_of (fl_messages file) (gm_full_name m))"
      using that by (simp add: map_of_owner_table)
    show "list_all (\<lambda>d. clean (gm_name d)) (owners_of (fl_messages file) (gm_full_name m))"
      using assms(2) owners_of_subset [of "fl_messages file" "gm_full_name m"]
      by (auto simp: list_all_iff clean_message_def)
  qed
  obtain charset where "at_key (sqltypes code_generator) ''clause_set_charset'' = Inr charset"
    by (simp add: code_generator_def types_postgresql_def at_key_def)
  moreover obtain tables where "gather (create_table code_generator show pool ?rm) (fl_messages file) = Inr (concat tables)"
    "list_all2 (\<lambda>m s. columns_of s = table_columns (fl_messages file) m) (fl_messages file) tables"
    using gather_each [of "fl_messages file" "create_table code_generator show pool ?rm"
        "\<lambda>m s. columns_of s = table_columns (fl_messages file) m", OF one] by blast
  moreover define head where "head = charset @ nl @ nl @ ''/*'' @ nl @
      concat (map (drop_table code_generator) (fl_messages file)) @ ''*/'' @ nl @ nl"
  ultimately show ?thesis
    using listOne2Many_owners [OF assms(1)]
    by (intro exI [of _ head] exI [of _ tables]) (simp add: generateSQL_def Let_def)
qed

definition example_gen_field :: "string \<Rightarrow> cpp_type \<Rightarrow> string \<Rightarrow> bool \<Rightarrow> gen_field" where
  "example_gen_field name ty msg repeated =
     \<lparr>fd_name = name, fd_full_name = name, fd_number = 1, fd_type = ty, fd_bytes = False,
      fd_repeated = repeated, fd_message = msg, fd_variable = no_variable,
      gf_required = False, gf_default = None, gf_enum = [1, 2], gf_lowercase = lower name, gf_variable_name = name\<rparr>"

definition example_gen_message :: "string \<Rightarrow> gen_field list \<Rightarrow> gen_message" where
  "example_gen_message name fds =
     \<lparr>gm_full_name = ''p.'' @ name, gm_name = name,
      gm_packet = \<lparr>pk_name = ''p'', pk_id = 1, pk_fields = [], pd_short_name = [], pd_full_name = [],
        pd_source = [], pd_destination = []\<rparr>,
      gm_fields = fds\<rparr>"

definition example_gen_file :: gen_file where
  "example_gen_file =
     \<lparr>fl_name = ''p.proto'', fl_dependencies = [],
      fl_messages =
        [example_gen_message ''Log''
           [example_gen_field ''Kind'' CPPTYPE_ENUM [] False, example_gen_field ''items'' CPPTYPE_MESSAGE ''p.Item'' True],
         example_gen_message ''Item''
           [example_gen_field ''id'' CPPTYPE_INT32 [] False, example_gen_field ''log'' CPPTYPE_MESSAGE ''p.Log'' False]]\<rparr>"

definition example_gen_pool :: gen_pool where
  "example_gen_pool t = find (\<lambda>m. gm_full_name m = t) (fl_messages example_gen_file)"

text \<open>The table of Item declares the column id twice, and it has two references to Log.\<close>

theorem tables_declare_columns_witness:
  "\<exists>head log item. generateSQL code_generator (\<lambda>w. [], \<lambda>w. []) example_gen_pool example_gen_file False [] =
      Inr (True, [], head @ log @ item) \<and>
    columns_of log = [''id'', ''kind'', ''tag''] \<and>
    columns_of item = [''id'', ''logid'', ''id'', ''logid'', ''tag'']"
proof -
  let ?show = "(\<lambda>w :: u64. [], \<lambda>w :: u32. []) :: float_texts"
  have "closed_file example_gen_pool example_gen_file" by code_simp
  moreover have "list_all (clean_message ?show example_gen_pool) (fl_messages example_gen_file)" by code_simp
  ultimately obtain head tables where t:
    "generateSQL code_generator ?show example_gen_pool example_gen_file False [] = Inr (True, [], head @ concat tables)"
    "list_all2 (\<lambda>m s. columns_of s = table_columns (fl_messages example_gen_file) m)
      (fl_messages example_gen_file) tables"
    using tables_declare_columns [of example_gen_pool example_gen_file ?show "[]"] by blast
  have cols: "map (\<lambda>m. table_columns (fl_messages example_gen_file) m) (fl_messages example_gen_file) =
      [[''id'', ''kind'', ''tag''], [''id'', ''logid'', ''id'', ''logid'', ''tag'']]"
    by code_simp
  have "map columns_of tables = [[''id'', ''kind'', ''tag''], [''id'', ''logid'', ''id'', ''logid'', ''tag'']]"
    unfolding cols [symmetric] using t(2) by (auto simp: list_all2_conv_all_nth intro!: nth_equalityI)
  then obtain log item where "tables = [log, item]" "columns_of log = [''id'', ''kind'', ''tag'']"
    "columns_of item = [''id'', ''logid'', ''id'', ''logid'', ''tag'']"
    by (auto simp: map_eq_Cons_conv)
  then show ?thesis using t(1) by auto
qed

text \<open>A repeated message of an imported file makes the generator follow the end of a map.\<close>

theorem imported_repeated_faults:
  "listOne2Many (example_gen_file
     \<lparr>fl_messages := [example_gen_message ''Log'' [example_gen_field ''items'' CPPTYPE_MESSAGE ''q.Item'' True]]\<rparr>) =
   Inl OutOfBounds"
  by code_simp

end
