(* ===== verification/ArgTable.thy ===== *)
theory ArgTable
  imports TextNumber
begin

section \<open>Command lines\<close>

text \<open>
  The option tables of the programs and the way argtable3.c fills them from a command line:
  options with one letter, alone or in a cluster, options with a name that may be cut short,
  values that follow or are attached, and the count of the errors. The texts of the errors and
  of the help are left out.
\<close>

subsection \<open>Tables\<close>

datatype arg_kind = ArgLit | ArgStr | ArgInt | ArgFile

record arg_entry =
  entry_name :: string
  entry_kind :: arg_kind
  shortopt :: "char option"
  longopt :: "string option"
  mincount :: nat
  maxcount :: nat

definition arg_litn :: "string \<Rightarrow> char option \<Rightarrow> string option \<Rightarrow> nat \<Rightarrow> nat \<Rightarrow> arg_entry" where
  "arg_litn n s l mn mx = \<lparr>entry_name = n, entry_kind = ArgLit, shortopt = s, longopt = l,
     mincount = mn, maxcount = max mn mx\<rparr>"

definition arg_strn :: "string \<Rightarrow> char option \<Rightarrow> string option \<Rightarrow> nat \<Rightarrow> nat \<Rightarrow> arg_entry" where
  "arg_strn n s l mn mx = \<lparr>entry_name = n, entry_kind = ArgStr, shortopt = s, longopt = l,
     mincount = mn, maxcount = max mn mx\<rparr>"

definition arg_intn :: "string \<Rightarrow> char option \<Rightarrow> string option \<Rightarrow> nat \<Rightarrow> nat \<Rightarrow> arg_entry" where
  "arg_intn n s l mn mx = \<lparr>entry_name = n, entry_kind = ArgInt, shortopt = s, longopt = l,
     mincount = mn, maxcount = max mn mx\<rparr>"

definition arg_filen :: "string \<Rightarrow> char option \<Rightarrow> string option \<Rightarrow> nat \<Rightarrow> nat \<Rightarrow> arg_entry" where
  "arg_filen n s l mn mx = \<lparr>entry_name = n, entry_kind = ArgFile, shortopt = s, longopt = l,
     mincount = mn, maxcount = max mn mx\<rparr>"

definition arg_lit0 :: "string \<Rightarrow> char option \<Rightarrow> string option \<Rightarrow> arg_entry" where
  "arg_lit0 n s l = arg_litn n s l 0 1"

definition arg_str0 :: "string \<Rightarrow> char option \<Rightarrow> string option \<Rightarrow> arg_entry" where
  "arg_str0 n s l = arg_strn n s l 0 1"

definition arg_str1 :: "string \<Rightarrow> char option \<Rightarrow> string option \<Rightarrow> arg_entry" where
  "arg_str1 n s l = arg_strn n s l 1 1"

definition arg_int0 :: "string \<Rightarrow> char option \<Rightarrow> string option \<Rightarrow> arg_entry" where
  "arg_int0 n s l = arg_intn n s l 0 1"

definition arg_file0 :: "string \<Rightarrow> char option \<Rightarrow> string option \<Rightarrow> arg_entry" where
  "arg_file0 n s l = arg_filen n s l 0 1"

definition has_value :: "arg_entry \<Rightarrow> bool" where
  "has_value e = (entry_kind e \<noteq> ArgLit)"

definition tagged :: "arg_entry \<Rightarrow> bool" where
  "tagged e = (longopt e \<noteq> None \<or> shortopt e \<noteq> None)"

subsection \<open>Integers\<close>

definition char_upper :: "char \<Rightarrow> char" where
  "char_upper c =
     (let n = of_char c :: nat in if 97 \<le> n \<and> n \<le> 122 then char_of (n - 32) else c)"

definition digit_of :: "nat \<Rightarrow> char \<Rightarrow> nat option" where
  "digit_of base c =
     (let n = of_char (char_upper c) :: nat;
          d = (if 48 \<le> n \<and> n \<le> 57 then n - 48 else if 65 \<le> n \<and> n \<le> 90 then n - 55 else base)
      in if d < base then Some d else None)"

fun base_digits :: "nat \<Rightarrow> nat \<Rightarrow> string \<Rightarrow> nat \<times> string" where
  "base_digits base v [] = (v, [])"
| "base_digits base v (c # cs) =
     (case digit_of base c of
        None \<Rightarrow> (v, c # cs)
      | Some d \<Rightarrow> base_digits base (v * base + d) cs)"

definition LONG_MAX :: int where "LONG_MAX = 9223372036854775807"
definition INT_MAX :: int where "INT_MAX = 2147483647"
definition INT_MIN :: int where "INT_MIN = - 2147483648"

text \<open>
  strtol: white space, a sign, a prefix 0x with base 16, digits. Nothing is converted where the
  digits are missing; a value that is too large becomes the largest or smallest long.
\<close>

definition strtol :: "nat \<Rightarrow> string \<Rightarrow> (int \<times> string) option" where
  "strtol base s =
     (let (neg, r) = sign_of s;
          digits = (if base = 16 \<and> map char_upper (take 2 r) = ''0X'' \<and>
                       (case drop 2 r of [] \<Rightarrow> False | c # _ \<Rightarrow> digit_of 16 c \<noteq> None)
                    then drop 2 r else r);
          (v, rest) = base_digits base 0 digits
      in if length rest = length digits then None
         else Some (if neg then max (- LONG_MAX - 1) (- int v) else min LONG_MAX (int v), rest))"

definition strtol0X :: "char \<Rightarrow> nat \<Rightarrow> string \<Rightarrow> (int \<times> string) option" where
  "strtol0X X base s =
     (let (neg, r) = sign_of s
      in if map char_upper (take 2 r) = [CHR ''0'', X]
         then map_option (\<lambda>(v, rest). (if neg then - v else v, rest)) (strtol base (drop 2 r))
         else None)"

fun detectsuffix :: "string \<Rightarrow> string \<Rightarrow> bool" where
  "detectsuffix (c # s) (d # t) = (char_upper c = char_upper d \<and> detectsuffix s t)"
| "detectsuffix [] (d # t) = False"
| "detectsuffix s [] = list_all is_space s"

definition scaled :: "int \<Rightarrow> int \<Rightarrow> int option" where
  "scaled v k = (if INT_MAX div k < v \<or> v < - ((INT_MAX + 1) div k) then None else Some (v * k))"

definition arg_int_value :: "string \<Rightarrow> int option" where
  "arg_int_value s =
     (case (case strtol0X CHR ''X'' 16 s of Some r \<Rightarrow> Some r
            | None \<Rightarrow> (case strtol0X CHR ''O'' 8 s of Some r \<Rightarrow> Some r
            | None \<Rightarrow> (case strtol0X CHR ''B'' 2 s of Some r \<Rightarrow> Some r
            | None \<Rightarrow> strtol 10 s))) of
        None \<Rightarrow> None
      | Some (v, rest) \<Rightarrow>
          if INT_MAX < v \<or> v < INT_MIN then None
          else if detectsuffix rest ''KB'' then scaled v 1024
          else if detectsuffix rest ''MB'' then scaled v 1048576
          else if detectsuffix rest ''GB'' then scaled v 1073741824
          else if detectsuffix rest [] then Some v
          else None)"

subsection \<open>Parsing\<close>

datatype arg_value = Switch | TextArg string | IntArg int

text \<open>The values the entries have got, by their names, and the number of errors in the end entry.\<close>

record parsed =
  arg_vals :: "string \<Rightarrow> arg_value list"
  nerrors :: nat

definition register_error :: "parsed \<Rightarrow> parsed" where
  "register_error s = (if nerrors s < 20 then s\<lparr>nerrors := nerrors s + 1\<rparr> else s)"

definition push_value :: "arg_entry \<Rightarrow> arg_value \<Rightarrow> parsed \<Rightarrow> parsed" where
  "push_value e v s = s\<lparr>arg_vals := (arg_vals s)(entry_name e := arg_vals s (entry_name e) @ [v])\<rparr>"

text \<open>The scan functions of the entries; None is an error code.\<close>

definition scanfn :: "arg_entry \<Rightarrow> string \<Rightarrow> parsed \<Rightarrow> parsed option" where
  "scanfn e optarg s =
     (if maxcount e \<le> length (arg_vals s (entry_name e)) then None
      else case entry_kind e of
             ArgLit \<Rightarrow> Some (push_value e Switch s)
           | ArgStr \<Rightarrow> Some (push_value e (TextArg optarg) s)
           | ArgFile \<Rightarrow> Some (push_value e (TextArg optarg) s)
           | ArgInt \<Rightarrow> map_option (\<lambda>i. push_value e (IntArg i) s) (arg_int_value optarg))"

definition scan_value :: "arg_entry \<Rightarrow> string \<Rightarrow> parsed \<Rightarrow> parsed" where
  "scan_value e optarg s = (case scanfn e optarg s of None \<Rightarrow> register_error s | Some s' \<Rightarrow> s')"

fun find_short :: "arg_entry list \<Rightarrow> char \<Rightarrow> arg_entry option" where
  "find_short [] c = None"
| "find_short (e # es) c = (if shortopt e = Some c then Some e else find_short es c)"

text \<open>The result None is an ambiguous name, Some None an unknown one.\<close>

fun find_long :: "arg_entry list \<Rightarrow> string \<Rightarrow> arg_entry option \<Rightarrow> arg_entry option option" where
  "find_long [] name found = Some found"
| "find_long (e # es) name found =
     (case longopt e of
        None \<Rightarrow> find_long es name found
      | Some l \<Rightarrow>
          if take (length name) l \<noteq> name then find_long es name found
          else if l = name then Some (Some e)
          else if found = None then find_long es name (Some e)
          else None)"

definition parse_long_options ::
  "arg_entry list \<Rightarrow> string \<Rightarrow> string list \<Rightarrow> parsed \<Rightarrow> parsed \<times> string list" where
  "parse_long_options table place args s =
     (let name = takeWhile (\<lambda>c. c \<noteq> CHR ''='') place;
          has_equal = length name < length place;
          attached = drop (Suc (length name)) place
      in case find_long table name None of
           Some (Some e) \<Rightarrow>
             if \<not> has_value e
             then (if has_equal then register_error s else scan_value e [] s, args)
             else if has_equal
             then (scan_value e attached (if attached = [] then register_error s else s), args)
             else (case args of
                     [] \<Rightarrow> (register_error s, [])
                   | v # rest \<Rightarrow> (scan_value e v (if v = [] then register_error s else s), rest))
         | _ \<Rightarrow> (register_error s, args))"

text \<open>What is left of a cluster; a minus in it starts a name.\<close>

fun parse_cluster ::
  "arg_entry list \<Rightarrow> string \<Rightarrow> string list \<Rightarrow> parsed \<Rightarrow> parsed \<times> string list" where
  "parse_cluster table [] args s = (s, args)"
| "parse_cluster table (c # place) args s =
     (if c = CHR ''-'' then parse_long_options table place args s
      else case find_short table c of
             None \<Rightarrow> parse_cluster table place args (register_error s)
           | Some e \<Rightarrow>
               if has_value e
               then if place \<noteq> [] then (scan_value e place s, args)
                    else (case args of
                            [] \<Rightarrow> (register_error s, [])
                          | v # rest \<Rightarrow> (scan_value e v s, rest))
               else parse_cluster table place args (scan_value e [] s))"

lemma parse_long_options_shorter: "length (snd (parse_long_options table place args s)) \<le> length args"
  by (auto simp: parse_long_options_def Let_def split: option.splits list.splits)

lemma parse_cluster_shorter: "length (snd (parse_cluster table place args s)) \<le> length args"
  by (induction table place args s rule: parse_cluster.induct)
    (auto simp: parse_long_options_shorter split: option.splits list.splits)

lemma parse_cluster_length: "parse_cluster table place args s = (s', rest) \<Longrightarrow> length rest \<le> length args"
  using parse_cluster_shorter [of table place args s] by simp

definition is_option :: "string \<Rightarrow> bool" where
  "is_option a = (take 1 a = ''-'' \<and> a \<noteq> ''-'')"

text \<open>The arguments that are no options are kept in their order.\<close>

function arg_parse_tagged ::
  "arg_entry list \<Rightarrow> string list \<Rightarrow> parsed \<Rightarrow> string list \<Rightarrow> parsed \<times> string list" where
  "arg_parse_tagged table args s nonopts =
     (case args of
        [] \<Rightarrow> (s, nonopts)
      | a # rest \<Rightarrow>
          if \<not> is_option a then arg_parse_tagged table rest s (nonopts @ [a])
          else if a = ''--'' then (s, nonopts @ rest)
          else (case parse_cluster table (tl a) rest s of
                  (s', rest') \<Rightarrow> arg_parse_tagged table rest' s' nonopts))"
  by pat_completeness auto

termination
  by (relation "measure (\<lambda>(table, args, s, nonopts). length args)")
    (auto simp: less_Suc_eq_le dest!: sym [of "(_, _)"] dest: parse_cluster_length)

declare arg_parse_tagged.simps [simp del]

fun arg_parse_untagged :: "arg_entry list \<Rightarrow> string list \<Rightarrow> bool \<Rightarrow> parsed \<Rightarrow> parsed" where
  "arg_parse_untagged table [] errorlast s = s"
| "arg_parse_untagged [] (a # args) errorlast s = arg_parse_untagged [] args False (register_error s)"
| "arg_parse_untagged (e # es) (a # args) errorlast s =
     (if tagged e then arg_parse_untagged es (a # args) errorlast s
      else case scanfn e a s of
             Some s' \<Rightarrow> arg_parse_untagged (e # es) args False s'
           | None \<Rightarrow> arg_parse_untagged es (a # args) True s)"

text \<open>The counts are only checked where there is no error so far.\<close>

definition arg_parse_check :: "arg_entry list \<Rightarrow> parsed \<Rightarrow> parsed" where
  "arg_parse_check table s =
     fold (\<lambda>e s. if length (arg_vals s (entry_name e)) < mincount e then register_error s else s) table s"

text \<open>The first argument, the name of the program, is not among the arguments.\<close>

definition arg_parse :: "arg_entry list \<Rightarrow> string list \<Rightarrow> parsed" where
  "arg_parse table argv =
     (let (s, nonopts) = arg_parse_tagged table argv \<lparr>arg_vals = (\<lambda>n. []), nerrors = 0\<rparr> [];
          s' = arg_parse_untagged table nonopts False s
      in if nerrors s' = 0 then arg_parse_check table s' else s')"

subsection \<open>What the programs take from a table\<close>

definition arg_count :: "parsed \<Rightarrow> string \<Rightarrow> nat" where
  "arg_count p n = length (arg_vals p n)"

fun text_of_arg :: "arg_value \<Rightarrow> string" where
  "text_of_arg (TextArg t) = t"
| "text_of_arg v = []"

fun int_of_arg :: "arg_value \<Rightarrow> int" where
  "int_of_arg (IntArg i) = i"
| "int_of_arg v = 0"

definition strs :: "parsed \<Rightarrow> string \<Rightarrow> string list" where
  "strs p n = map text_of_arg (arg_vals p n)"

definition ints :: "parsed \<Rightarrow> string \<Rightarrow> int list" where
  "ints p n = map int_of_arg (arg_vals p n)"

definition str_or :: "parsed \<Rightarrow> string \<Rightarrow> string \<Rightarrow> string" where
  "str_or p n d = (case strs p n of [] \<Rightarrow> d | t # _ \<Rightarrow> t)"

definition int_or :: "parsed \<Rightarrow> string \<Rightarrow> int \<Rightarrow> int" where
  "int_or p n d = (case ints p n of [] \<Rightarrow> d | i # _ \<Rightarrow> i)"

text \<open>The help is shown where it is asked for and where there are errors.\<close>

definition usage_shown :: "parsed \<Rightarrow> bool" where
  "usage_shown p = (0 < arg_count p ''a_help'' \<or> nerrors p \<noteq> 0)"

text \<open>The lines name=value of the aliases; a line without the sign is passed over.\<close>

definition alias_map :: "string list \<Rightarrow> (string, string) smap" where
  "alias_map ls =
     fold (\<lambda>l m. let n = takeWhile (\<lambda>c. c \<noteq> CHR ''='') l
        in if length n < length l then smap_put n (drop (Suc (length n)) l) m else m) ls []"

text \<open>
  What the programs ask of the system: the real path of a name, the working directory. A
  setting that no statement has set has an indeterminate value.
\<close>

record cmd_env =
  realpath :: "string \<Rightarrow> string option"
  getcwd :: string
  indeterminate :: "string \<Rightarrow> int"

section \<open>Command lines that name their options one by one\<close>

text \<open>
  What a command line gives that consists of options with a value as the next argument and of
  switches: every option adds its value to its entry.
\<close>

definition given :: "(string \<times> arg_value) list \<Rightarrow> string \<Rightarrow> arg_value list" where
  "given kvs n = map snd (filter (\<lambda>kv. fst kv = n) kvs)"

definition with_given :: "parsed \<Rightarrow> (string \<times> arg_value) list \<Rightarrow> parsed" where
  "with_given s kvs = s\<lparr>arg_vals := (\<lambda>n. arg_vals s n @ given kvs n)\<rparr>"

definition room :: "arg_entry list \<Rightarrow> parsed \<Rightarrow> (string \<times> arg_value) list \<Rightarrow> bool" where
  "room table s kvs = (\<forall>e \<in> set table.
     length (arg_vals s (entry_name e)) + length (given kvs (entry_name e)) \<le> maxcount e)"

definition adds :: "arg_entry list \<Rightarrow> string list \<Rightarrow> (string \<times> arg_value) list \<Rightarrow> bool" where
  "adds table piece kvs =
     (\<forall>rest s nonopts. room table s kvs \<longrightarrow>
        arg_parse_tagged table (piece @ rest) s nonopts =
        arg_parse_tagged table rest (with_given s kvs) nonopts)"

lemma given_simps [simp]:
  "given [] n = []" "given (kvs @ lvs) n = given kvs n @ given lvs n"
  "given ((k, v) # kvs) n = (if k = n then [v] else []) @ given kvs n"
  by (simp_all add: given_def)

lemma given_map: "given (map (\<lambda>x. (k, f x)) xs) n = (if k = n then map f xs else [])"
  by (induction xs) simp_all

lemma with_given_simps [simp]:
  "with_given s [] = s" "with_given (with_given s kvs) lvs = with_given s (kvs @ lvs)"
  by (simp_all add: with_given_def)

lemma room_append:
  "room table s (kvs @ lvs) \<Longrightarrow> room table s kvs \<and> room table (with_given s kvs) lvs"
  by (fastforce simp: room_def with_given_def)

lemma adds_nil: "adds table [] []"
  by (simp add: adds_def)

lemma adds_append: "adds table p kvs \<Longrightarrow> adds table q lvs \<Longrightarrow> adds table (p @ q) (kvs @ lvs)"
  unfolding adds_def using room_append by fastforce

lemma adds_concat:
  "(\<And>x. x \<in> set xs \<Longrightarrow> adds table (f x) (g x)) \<Longrightarrow>
   adds table (concat (map f xs)) (concat (map g xs))"
  by (induction xs) (auto intro: adds_append adds_nil)

lemma check_done: "\<forall>e \<in> set table. mincount e \<le> length (arg_vals s (entry_name e)) \<Longrightarrow> arg_parse_check table s = s"
  unfolding arg_parse_check_def by (induction table) auto

lemma arg_parse_adds:
  assumes "adds table argv kvs"
    and "\<forall>e \<in> set table. mincount e \<le> length (given kvs (entry_name e)) \<and> length (given kvs (entry_name e)) \<le> maxcount e"
  shows "arg_parse table argv = \<lparr>arg_vals = given kvs, nerrors = 0\<rparr>"
proof -
  let ?s = "\<lparr>arg_vals = (\<lambda>n. []), nerrors = 0\<rparr>"
  have "room table ?s kvs" using assms(2) by (simp add: room_def)
  then have "arg_parse_tagged table (argv @ []) ?s [] = arg_parse_tagged table [] (with_given ?s kvs) []"
    using assms(1) unfolding adds_def by blast
  then show ?thesis using assms(2)
    by (simp add: arg_parse_def arg_parse_tagged.simps [of _ "[]"] with_given_def check_done)
qed

subsection \<open>Single options\<close>

lemma find_short_in: "find_short table c = Some e \<Longrightarrow> e \<in> set table"
  by (induction table) (auto split: if_splits)

lemma find_long_in: "find_long table n found = Some (Some e) \<Longrightarrow> e \<in> set table \<or> found = Some e"
  by (induction table arbitrary: found) (fastforce split: option.splits if_splits)+

definition arg_value_of :: "arg_entry \<Rightarrow> string \<Rightarrow> arg_value option" where
  "arg_value_of e v =
     (case entry_kind e of
        ArgLit \<Rightarrow> Some Switch | ArgInt \<Rightarrow> map_option IntArg (arg_int_value v) | _ \<Rightarrow> Some (TextArg v))"

lemma scan_value_adds:
  "e \<in> set table \<Longrightarrow> arg_value_of e v = Some x \<Longrightarrow> room table s [(entry_name e, x)] \<Longrightarrow>
   scan_value e v s = with_given s [(entry_name e, x)]"
  by (auto simp: scan_value_def scanfn_def arg_value_of_def push_value_def with_given_def room_def fun_eq_iff
      split: arg_kind.splits)

lemma adds_option:
  assumes "is_option a" "a \<noteq> ''--''"
    and "\<And>rest s. room table s kvs \<Longrightarrow>
      parse_cluster table (tl a) (q @ rest) s = (with_given s kvs, rest)"
  shows "adds table (a # q) kvs"
  unfolding adds_def
proof (intro allI impI)
  fix rest s nonopts assume "room table s kvs"
  from assms(3) [OF this] show "arg_parse_tagged table ((a # q) @ rest) s nonopts =
      arg_parse_tagged table rest (with_given s kvs) nonopts"
    using assms(1,2) by (subst arg_parse_tagged.simps) simp
qed

lemma adds_short:
  assumes "find_short table c = Some e" "c \<noteq> CHR ''-''" "has_value e" "arg_value_of e v = Some x"
  shows "adds table [[CHR ''-'', c], v] [(entry_name e, x)]"
  using assms find_short_in [OF assms(1)]
  by (intro adds_option) (simp_all add: is_option_def scan_value_adds)

lemma adds_long:
  assumes "find_long table l None = Some (Some e)" "CHR ''='' \<notin> set l" "l \<noteq> []" "has_value e" "v \<noteq> []"
    "arg_value_of e v = Some x"
  shows "adds table [CHR ''-'' # CHR ''-'' # l, v] [(entry_name e, x)]"
proof -
  have t: "takeWhile (\<lambda>c. c \<noteq> CHR ''='') l = l" using assms(2) by (auto simp: takeWhile_eq_all_conv)
  show ?thesis
    using assms find_long_in [OF assms(1)]
    by (intro adds_option) (simp_all add: is_option_def scan_value_adds parse_long_options_def t)
qed

lemma adds_switch:
  assumes "find_short table c = Some e" "c \<noteq> CHR ''-''" "entry_kind e = ArgLit"
  shows "adds table [[CHR ''-'', c]] [(entry_name e, Switch)]"
  using assms find_short_in [OF assms(1)]
  by (intro adds_option) (simp_all add: is_option_def has_value_def arg_value_of_def scan_value_adds [of _ _ _ Switch])

lemma cluster_switches:
  assumes "find_short table c = Some e" "c \<noteq> CHR ''-''" "entry_kind e = ArgLit"
  shows "room table s (replicate n (entry_name e, Switch)) \<Longrightarrow>
    parse_cluster table (replicate n c) args s = (with_given s (replicate n (entry_name e, Switch)), args)"
proof (induction n arbitrary: s)
  case (Suc n)
  have "room table s ([(entry_name e, Switch)] @ replicate n (entry_name e, Switch))" using Suc.prems by simp
  note r = room_append [OF this]
  have "scan_value e [] s = with_given s [(entry_name e, Switch)]"
    using assms(3) find_short_in [OF assms(1)] r by (intro scan_value_adds) (auto simp: arg_value_of_def)
  then show ?case using Suc.IH [of "with_given s [(entry_name e, Switch)]"] r assms
    by (simp add: has_value_def)
qed simp

lemma adds_switches:
  assumes "find_short table c = Some e" "c \<noteq> CHR ''-''" "entry_kind e = ArgLit" "0 < n"
  shows "adds table [CHR ''-'' # replicate n c] (replicate n (entry_name e, Switch))"
proof (intro adds_option)
  show "is_option (CHR ''-'' # replicate n c)" "CHR ''-'' # replicate n c \<noteq> ''--''"
    using assms(2,4) by (cases n; simp add: is_option_def)+
qed (simp add: cluster_switches [OF assms(1-3)])

subsection \<open>Printed integers\<close>

lemma char_upper_digit: "is_digit c \<Longrightarrow> char_upper c = c"
  by (simp add: char_upper_def is_digit_def Let_def)

lemma base_digits_fold:
  "list_all is_digit ds \<Longrightarrow> base_digits 10 v ds = (foldl (\<lambda>n c. 10 * n + digit_val c) v ds, [])"
proof (induction ds arbitrary: v)
  case (Cons c ds)
  then have "digit_of 10 c = Some (digit_val c)"
    by (auto simp: digit_of_def char_upper_digit is_digit_def digit_val_def Let_def)
  then show ?case using Cons by (simp add: mult.commute)
qed simp

lemma base_digits_dec_str: "base_digits 10 0 (dec_str n) = (n, [])"
  using base_digits_fold [of "dec_str n" 0] dec_str_digits [of n] digits_val_dec_str [of n]
  by (simp add: list_all_iff digits_val_def)

lemma strtol_int_str:
  "INT_MIN \<le> i \<Longrightarrow> i \<le> INT_MAX \<Longrightarrow> strtol 10 (int_str i) = Some (i, [])"
  by (simp add: strtol_def sign_of_int_str base_digits_dec_str INT_MIN_def INT_MAX_def LONG_MAX_def)

lemma no_prefix: "\<not> is_digit X \<Longrightarrow> strtol0X X b (int_str i) = None"
proof -
  assume X: "\<not> is_digit X"
  have "map char_upper (take 2 (dec_str n)) \<noteq> [CHR ''0'', X]" for n
  proof
    assume e: "map char_upper (take 2 (dec_str n)) = [CHR ''0'', X]"
    have "list_all is_digit (take 2 (dec_str n))"
      using dec_str_digits [of n] by (auto simp: list_all_iff dest: in_set_takeD)
    then have "list_all is_digit (map char_upper (take 2 (dec_str n)))"
      by (auto simp: list_all_iff char_upper_digit)
    with e X show False by simp
  qed
  then show ?thesis by (simp add: strtol0X_def sign_of_int_str)
qed

lemma arg_int_value_int_str:
  "INT_MIN \<le> i \<Longrightarrow> i \<le> INT_MAX \<Longrightarrow> arg_int_value (int_str i) = Some i"
  by (simp add: arg_int_value_def no_prefix is_digit_def strtol_int_str)

end
