(* ===== verification/ReceiverConfigs.thy ===== *)
theory ReceiverConfigs
  imports ArgTable
begin

section \<open>Settings of the receivers, emitters and gateways\<close>

text \<open>
  The option tables of the receivers (tcpreceiver, mqtt-receiver, freceiver, pkt2receiver,
  pkt2receiver-check), of the emitters, of the gateways and of the repeater, and the settings
  their parseCmd reads from a command line. The result Inl is the code the program ends with.
\<close>

subsection \<open>tcpreceiver\<close>

record tcpreceiver_config =
  tcpreceiver_intface :: string
  tcpreceiver_port :: u32
  tcpreceiver_message_url :: string
  tcpreceiver_buffer_size :: u64
  tcpreceiver_retries :: int
  tcpreceiver_retry_delay :: int
  tcpreceiver_compression_type :: int
  tcpreceiver_escape_code :: string
  tcpreceiver_eof_code :: string
  tcpreceiver_compression_offset :: int
  tcpreceiver_frequence_file :: string
  tcpreceiver_codemap_file :: string
  tcpreceiver_valid_sizes :: "u64 list"
  tcpreceiver_verbosity :: u32
  tcpreceiver_daemonize :: bool
  tcpreceiver_max_fd :: int
  tcpreceiver_path :: string

definition tcpreceiver_table :: "arg_entry list" where
  "tcpreceiver_table =
    [arg_str0 ''a_interface'' (Some CHR ''i'') (Some ''ipaddr''),
     arg_int0 ''a_port'' (Some CHR ''l'') (Some ''listen''),
     arg_str0 ''a_message_url'' (Some CHR ''o'') (Some ''output''),
     arg_int0 ''a_buffer_size'' (Some CHR ''b'') (Some ''buffer''),
     arg_int0 ''a_retries'' (Some CHR ''r'') (Some ''repeat''),
     arg_int0 ''a_retry_delay'' (Some CHR ''y'') (Some ''delay''),
     arg_int0 ''a_compression_type'' (Some CHR ''c'') (Some ''compression''),
     arg_str0 ''a_escape_code'' (Some CHR ''e'') (Some ''escapecode''),
     arg_str0 ''a_eof_code'' (Some CHR ''E'') (Some ''eofcode''),
     arg_int0 ''a_compression_offset'' (Some CHR ''s'') (Some ''start''),
     arg_file0 ''a_frequence_file'' (Some CHR ''f'') (Some ''freq''),
     arg_file0 ''a_codemap_file'' (Some CHR ''m'') (Some ''map''),
     arg_intn ''a_valid_sizes'' (Some CHR ''p'') (Some ''packetsize'') 0 256,
     arg_lit0 ''a_daemonize'' (Some CHR ''d'') (Some ''daemonize''),
     arg_int0 ''a_max_fd'' None (Some ''maxfd''),
     arg_litn ''a_verbosity'' (Some CHR ''v'') (Some ''verbosity'') 0 3,
     arg_lit0 ''a_help'' (Some CHR ''h'') (Some ''help'')]"

definition tcpreceiver_parseCmd :: "cmd_env \<Rightarrow> string list \<Rightarrow> int + tcpreceiver_config" where
  "tcpreceiver_parseCmd e argv =
    (let p = arg_parse tcpreceiver_table argv
     in if usage_shown p then Inl 1
      else Inr \<lparr>tcpreceiver_intface = str_or p ''a_interface'' ''0.0.0.0'',
          tcpreceiver_port = word_of_int (int_or p ''a_port'' 50052),
          tcpreceiver_message_url = str_or p ''a_message_url'' ''ipc:///tmp/packet.pkt2'',
          tcpreceiver_buffer_size = word_of_int (int_or p ''a_buffer_size'' 4096),
          tcpreceiver_retries = int_or p ''a_retries'' 0,
          tcpreceiver_retry_delay = int_or p ''a_retry_delay'' 60,
          tcpreceiver_compression_type = int_or p ''a_compression_type'' 0,
          tcpreceiver_escape_code = str_or p ''a_escape_code'' [],
          tcpreceiver_eof_code = str_or p ''a_eof_code'' [],
          tcpreceiver_compression_offset = int_or p ''a_compression_offset'' 0,
          tcpreceiver_frequence_file = str_or p ''a_frequence_file'' [],
          tcpreceiver_codemap_file = str_or p ''a_codemap_file'' [],
          tcpreceiver_valid_sizes = map word_of_int (ints p ''a_valid_sizes''),
          tcpreceiver_verbosity = word_of_int (int (arg_count p ''a_verbosity'')),
          tcpreceiver_daemonize = 0 < arg_count p ''a_daemonize'',
          tcpreceiver_max_fd = int_or p ''a_max_fd'' 0,
          tcpreceiver_path = getcwd e\<rparr>)"

subsection \<open>mqtt-receiver\<close>

record mqtt_receiver_config =
  mqtt_receiver_topics :: "string list"
  mqtt_receiver_broker_address :: string
  mqtt_receiver_broker_port :: u32
  mqtt_receiver_qos :: u32
  mqtt_receiver_client_id :: string
  mqtt_receiver_keep_alive_interval :: u32
  mqtt_receiver_reconnect_delay :: u32
  mqtt_receiver_message_url :: string
  mqtt_receiver_retries :: int
  mqtt_receiver_retry_delay :: int
  mqtt_receiver_verbosity :: u32
  mqtt_receiver_daemonize :: bool
  mqtt_receiver_max_fd :: int
  mqtt_receiver_path :: string

definition mqtt_receiver_table :: "arg_entry list" where
  "mqtt_receiver_table =
    [arg_strn ''a_topic'' (Some CHR ''t'') (Some ''topic'') 0 32,
     arg_str0 ''a_broker_address'' (Some CHR ''a'') (Some ''broker''),
     arg_int0 ''a_broker_port'' (Some CHR ''p'') (Some ''port''),
     arg_int0 ''a_qos'' (Some CHR ''q'') (Some ''qos''),
     arg_str0 ''a_client_id'' (Some CHR ''c'') (Some ''client''),
     arg_int0 ''a_keep_alive_interval'' (Some CHR ''k'') (Some ''keepalive''),
     arg_int0 ''a_reconnect_delay'' (Some CHR ''w'') (Some ''reconnect''),
     arg_str0 ''a_message_url'' (Some CHR ''o'') (Some ''output''),
     arg_int0 ''a_retries'' (Some CHR ''r'') (Some ''repeat''),
     arg_int0 ''a_retry_delay'' (Some CHR ''y'') (Some ''delay''),
     arg_lit0 ''a_daemonize'' (Some CHR ''d'') (Some ''daemonize''),
     arg_int0 ''a_max_fd'' None (Some ''maxfd''),
     arg_litn ''a_verbosity'' (Some CHR ''v'') (Some ''verbosity'') 0 3,
     arg_lit0 ''a_help'' (Some CHR ''h'') (Some ''help'')]"

definition mqtt_receiver_parseCmd :: "cmd_env \<Rightarrow> string list \<Rightarrow> int + mqtt_receiver_config" where
  "mqtt_receiver_parseCmd e argv =
    (let p = arg_parse mqtt_receiver_table argv
     in if usage_shown p then Inl 1
      else Inr \<lparr>mqtt_receiver_topics = (if arg_count p ''a_topic'' = 0 then [''pkt2''] else strs p ''a_topic''),
          mqtt_receiver_broker_address = str_or p ''a_broker_address'' ''tcp://127.0.0.1'',
          mqtt_receiver_broker_port = word_of_int (int_or p ''a_broker_port'' 1883),
          mqtt_receiver_qos = word_of_int (int_or p ''a_qos'' 1),
          mqtt_receiver_client_id = str_or p ''a_client_id'' ''mqtt-receiver'',
          mqtt_receiver_keep_alive_interval = word_of_int (int_or p ''a_keep_alive_interval'' 20),
          mqtt_receiver_reconnect_delay = word_of_int (int_or p ''a_reconnect_delay'' 5),
          mqtt_receiver_message_url = str_or p ''a_message_url'' ''ipc:///tmp/packet.pkt2'',
          mqtt_receiver_retries = int_or p ''a_retries'' 0,
          mqtt_receiver_retry_delay = int_or p ''a_retry_delay'' 60,
          mqtt_receiver_verbosity = word_of_int (int (arg_count p ''a_verbosity'')),
          mqtt_receiver_daemonize = 0 < arg_count p ''a_daemonize'',
          mqtt_receiver_max_fd = int_or p ''a_max_fd'' 0,
          mqtt_receiver_path = getcwd e\<rparr>)"

subsection \<open>freceiver\<close>

record freceiver_config =
  freceiver_file_mode :: int
  freceiver_filename_in :: string
  freceiver_packet_size :: int
  freceiver_message_url :: string
  freceiver_proto_path :: string
  freceiver_mode :: int
  freceiver_buffer_size :: u64
  freceiver_retries :: int
  freceiver_retry_delay :: int
  freceiver_sql_dialect :: int
  freceiver_tableAliases :: "(string, string) smap"
  freceiver_fieldAliases :: "(string, string) smap"
  freceiver_properties :: "(string, string) smap"
  freceiver_verbosity :: u32
  freceiver_daemonize :: bool
  freceiver_max_fd :: int
  freceiver_path :: string

definition freceiver_table :: "arg_entry list" where
  "freceiver_table =
    [arg_str0 ''a_cmd_text'' (Some CHR ''t'') (Some ''text''),
     arg_file0 ''a_filename_in'' (Some CHR ''i'') (Some ''input''),
     arg_int0 ''a_packet_size'' (Some CHR ''s'') (Some ''size''),
     arg_str0 ''a_message_url'' (Some CHR ''o'') (Some ''output''),
     arg_int0 ''a_print_mode'' (Some CHR ''m'') (Some ''print''),
     arg_str0 ''a_proto_path'' (Some CHR ''p'') (Some ''protos''),
     arg_int0 ''a_buffer_size'' (Some CHR ''b'') (Some ''buffer''),
     arg_int0 ''a_retries'' (Some CHR ''r'') (Some ''repeat''),
     arg_int0 ''a_retry_delay'' (Some CHR ''y'') (Some ''delay''),
     arg_lit0 ''a_daemonize'' (Some CHR ''d'') (Some ''daemonize''),
     arg_int0 ''a_max_fd'' None (Some ''maxfd''),
     arg_int0 ''a_sql_dialect'' None (Some ''sql-dialect''),
     arg_strn ''a_table_alias'' (Some CHR ''T'') (Some ''table-alias'') 0 100,
     arg_strn ''a_field_alias'' (Some CHR ''F'') (Some ''field-alias'') 0 100,
     arg_strn ''a_properties'' (Some CHR ''P'') (Some ''properties'') 0 100,
     arg_litn ''a_verbosity'' (Some CHR ''v'') (Some ''verbosity'') 0 3,
     arg_lit0 ''a_help'' (Some CHR ''h'') (Some ''help'')]"

definition file_mode_of :: "string list \<Rightarrow> int" where
  "file_mode_of texts =
    (case texts of [] \<Rightarrow> 0
     | t # _ \<Rightarrow> if t = ''2'' then 2 else if t = ''1'' then 1 else if t = ''int'' then 2
                else if t = ''hex'' then 1 else 0)"

definition freceiver_parseCmd :: "cmd_env \<Rightarrow> string list \<Rightarrow> int + freceiver_config" where
  "freceiver_parseCmd e argv =
    (let p = arg_parse freceiver_table argv
     in if usage_shown p then Inl 1
      else case realpath e (str_or p ''a_proto_path'' ''proto'') of
        None \<Rightarrow> Inl (- 65)
      | Some proto \<Rightarrow> Inr \<lparr>freceiver_file_mode = file_mode_of (strs p ''a_cmd_text''),
          freceiver_filename_in = str_or p ''a_filename_in'' [],
          freceiver_packet_size = int_or p ''a_packet_size'' 0,
          freceiver_message_url = str_or p ''a_message_url'' ''ipc:///tmp/packet.pkt2'',
          freceiver_proto_path = proto,
          freceiver_mode = int_or p ''a_print_mode'' (- 1),
          freceiver_buffer_size = word_of_int (int_or p ''a_buffer_size'' 4096),
          freceiver_retries = int_or p ''a_retries'' 0,
          freceiver_retry_delay = int_or p ''a_retry_delay'' 60,
          freceiver_sql_dialect = int_or p ''a_sql_dialect'' (indeterminate e ''sql_dialect''),
          freceiver_tableAliases = alias_map (strs p ''a_table_alias''),
          freceiver_fieldAliases = alias_map (strs p ''a_field_alias''),
          freceiver_properties = alias_map (strs p ''a_properties''),
          freceiver_verbosity = word_of_int (int (arg_count p ''a_verbosity'')),
          freceiver_daemonize = 0 < arg_count p ''a_daemonize'',
          freceiver_max_fd = int_or p ''a_max_fd'' 0,
          freceiver_path = getcwd e\<rparr>)"

subsection \<open>pkt2receiver\<close>

record pkt2receiver_config =
  pkt2receiver_in_url :: string
  pkt2receiver_out_url :: string
  pkt2receiver_control_url :: string
  pkt2receiver_dump_url :: string
  pkt2receiver_proto_path :: string
  pkt2receiver_force_message :: string
  pkt2receiver_buffer_size :: u64
  pkt2receiver_retries :: int
  pkt2receiver_retry_delay :: int
  pkt2receiver_allowed_packet_sizes :: "int list"
  pkt2receiver_verbosity :: u32
  pkt2receiver_daemonize :: bool
  pkt2receiver_max_fd :: int
  pkt2receiver_path :: string
  pkt2receiver_tableAliases :: "(string, string) smap"
  pkt2receiver_fieldAliases :: "(string, string) smap"
  pkt2receiver_properties :: "(string, string) smap"

definition pkt2receiver_table :: "arg_entry list" where
  "pkt2receiver_table =
    [arg_str0 ''a_in_url'' (Some CHR ''i'') (Some ''input''),
     arg_str0 ''a_out_url'' (Some CHR ''o'') (Some ''output''),
     arg_str0 ''a_control_url'' None (Some ''control''),
     arg_str0 ''a_dump_url'' None (Some ''dump''),
     arg_str0 ''a_proto_path'' (Some CHR ''p'') (Some ''protos''),
     arg_str0 ''a_force_message'' None (Some ''message''),
     arg_intn ''a_allowed_packet_sizes'' (Some CHR ''a'') (Some ''allow'') 0 128,
     arg_int0 ''a_buffer_size'' (Some CHR ''b'') (Some ''buffer''),
     arg_int0 ''a_retries'' (Some CHR ''r'') (Some ''repeat''),
     arg_int0 ''a_retry_delay'' (Some CHR ''y'') (Some ''delay''),
     arg_int0 ''a_max_fd'' None (Some ''maxfd''),
     arg_strn ''a_table_alias'' (Some CHR ''T'') (Some ''table-alias'') 0 100,
     arg_strn ''a_field_alias'' (Some CHR ''F'') (Some ''field-alias'') 0 100,
     arg_strn ''a_properties'' (Some CHR ''P'') (Some ''properties'') 0 100,
     arg_lit0 ''a_daemonize'' (Some CHR ''d'') (Some ''daemonize''),
     arg_litn ''a_verbosity'' (Some CHR ''v'') (Some ''verbosity'') 0 3,
     arg_lit0 ''a_help'' (Some CHR ''h'') (Some ''help'')]"

definition pkt2receiver_parseCmd :: "cmd_env \<Rightarrow> string list \<Rightarrow> int + pkt2receiver_config" where
  "pkt2receiver_parseCmd e argv =
    (let p = arg_parse pkt2receiver_table argv
     in if usage_shown p then Inl (- 1)
      else case realpath e (str_or p ''a_proto_path'' ''proto'') of
        None \<Rightarrow> Inl (- 65)
      | Some proto \<Rightarrow> Inr \<lparr>pkt2receiver_in_url = str_or p ''a_in_url'' ''ipc:///tmp/packet.pkt2'',
          pkt2receiver_out_url = str_or p ''a_out_url'' ''ipc:///tmp/message.pkt2'',
          pkt2receiver_control_url = str_or p ''a_control_url'' ''ipc:///tmp/control.pkt2'',
          pkt2receiver_dump_url = str_or p ''a_dump_url'' ''ipc:///tmp/dump.pkt2'',
          pkt2receiver_proto_path = proto,
          pkt2receiver_force_message = str_or p ''a_force_message'' [],
          pkt2receiver_buffer_size = word_of_int (int_or p ''a_buffer_size'' 4096),
          pkt2receiver_retries = int_or p ''a_retries'' 0,
          pkt2receiver_retry_delay = int_or p ''a_retry_delay'' 60,
          pkt2receiver_allowed_packet_sizes = ints p ''a_allowed_packet_sizes'',
          pkt2receiver_verbosity = word_of_int (int (arg_count p ''a_verbosity'')),
          pkt2receiver_daemonize = 0 < arg_count p ''a_daemonize'',
          pkt2receiver_max_fd = int_or p ''a_max_fd'' 0,
          pkt2receiver_path = getcwd e,
          pkt2receiver_tableAliases = alias_map (strs p ''a_table_alias''),
          pkt2receiver_fieldAliases = alias_map (strs p ''a_field_alias''),
          pkt2receiver_properties = alias_map (strs p ''a_properties'')\<rparr>)"

subsection \<open>pkt2receiver-check\<close>

record pkt2receiver_check_config =
  pkt2receiver_check_control_url :: string
  pkt2receiver_check_retries :: int
  pkt2receiver_check_retry_delay :: int
  pkt2receiver_check_verbosity :: int
  pkt2receiver_check_daemonize :: bool
  pkt2receiver_check_path :: string

definition pkt2receiver_check_table :: "arg_entry list" where
  "pkt2receiver_check_table =
    [arg_str0 ''a_control_url'' (Some CHR ''c'') (Some ''control''),
     arg_int0 ''a_retries'' (Some CHR ''r'') (Some ''repeat''),
     arg_int0 ''a_retry_delay'' (Some CHR ''y'') (Some ''delay''),
     arg_lit0 ''a_daemonize'' (Some CHR ''d'') (Some ''daemonize''),
     arg_litn ''a_verbosity'' (Some CHR ''v'') (Some ''verbosity'') 0 3,
     arg_lit0 ''a_help'' (Some CHR ''h'') (Some ''help'')]"

definition pkt2receiver_check_parseCmd :: "cmd_env \<Rightarrow> string list \<Rightarrow> int + pkt2receiver_check_config" where
  "pkt2receiver_check_parseCmd e argv =
    (let p = arg_parse pkt2receiver_check_table argv
     in if usage_shown p then Inl (- 2)
      else Inr \<lparr>pkt2receiver_check_control_url = str_or p ''a_control_url'' ''ipc:///tmp/control.pkt2'',
          pkt2receiver_check_retries = int_or p ''a_retries'' 0,
          pkt2receiver_check_retry_delay = int_or p ''a_retry_delay'' 60,
          pkt2receiver_check_verbosity = int (arg_count p ''a_verbosity''),
          pkt2receiver_check_daemonize = 0 < arg_count p ''a_daemonize'',
          pkt2receiver_check_path = getcwd e\<rparr>)"

definition pkt2receiver_check_Config :: "cmd_env \<Rightarrow> string list \<Rightarrow> int + pkt2receiver_check_config" where
  "pkt2receiver_check_Config e argv = map_sum (\<lambda>code. - 1) id (pkt2receiver_check_parseCmd e argv)"

subsection \<open>tcpemitter\<close>

record tcpemitter_config =
  tcpemitter_intface :: string
  tcpemitter_port :: int
  tcpemitter_proto_path :: string
  tcpemitter_file_name :: string
  tcpemitter_message_out_url :: string
  tcpemitter_verbosity :: int
  tcpemitter_daemonize :: bool
  tcpemitter_retries :: int
  tcpemitter_count :: int
  tcpemitter_delay :: int
  tcpemitter_retry_delay :: int
  tcpemitter_path :: string

definition tcpemitter_table :: "arg_entry list" where
  "tcpemitter_table =
    [arg_str0 ''a_interface'' (Some CHR ''i'') (Some ''ipaddr''),
     arg_int0 ''a_port'' (Some CHR ''l'') (Some ''listen''),
     arg_str0 ''a_proto_path'' (Some CHR ''p'') (Some ''protos''),
     arg_file0 ''a_input_file'' (Some CHR ''f'') (Some ''file''),
     arg_str0 ''a_message_out_url'' (Some CHR ''o'') (Some ''output''),
     arg_lit0 ''a_daemonize'' (Some CHR ''d'') (Some ''daemonize''),
     arg_int0 ''a_count'' (Some CHR ''n'') (Some ''count''),
     arg_int0 ''a_delay'' (Some CHR ''w'') (Some ''delay''),
     arg_int0 ''a_retries'' (Some CHR ''r'') (Some ''restart''),
     arg_int0 ''a_retry_delay'' (Some CHR ''y'') (Some ''restartdelay''),
     arg_litn ''a_verbosity'' (Some CHR ''v'') (Some ''verbosity'') 0 3,
     arg_lit0 ''a_help'' (Some CHR ''h'') (Some ''help'')]"

definition tcpemitter_parseCmd :: "cmd_env \<Rightarrow> string list \<Rightarrow> int + tcpemitter_config" where
  "tcpemitter_parseCmd e argv =
    (let p = arg_parse tcpemitter_table argv
     in if usage_shown p then Inl 1
      else case realpath e (str_or p ''a_proto_path'' ''proto'') of
        None \<Rightarrow> Inl (- 65)
      | Some proto \<Rightarrow> Inr \<lparr>tcpemitter_intface = str_or p ''a_interface'' ''0.0.0.0'',
          tcpemitter_port = int_or p ''a_port'' 50052,
          tcpemitter_proto_path = proto,
          tcpemitter_file_name = str_or p ''a_input_file'' [],
          tcpemitter_message_out_url = str_or p ''a_message_out_url'' ''ipc:///tmp/message.pkt2'',
          tcpemitter_verbosity = int (arg_count p ''a_verbosity''),
          tcpemitter_daemonize = 0 < arg_count p ''a_daemonize'',
          tcpemitter_retries = int_or p ''a_retries'' 0,
          tcpemitter_count = int_or p ''a_count'' 1,
          tcpemitter_delay = int_or p ''a_delay'' 0,
          tcpemitter_retry_delay = int_or p ''a_retry_delay'' 60,
          tcpemitter_path = getcwd e\<rparr>)"

subsection \<open>messageemitter\<close>

record messageemitter_config =
  messageemitter_intface :: string
  messageemitter_port :: int
  messageemitter_proto_path :: string
  messageemitter_file_name :: string
  messageemitter_message_out_url :: string
  messageemitter_verbosity :: int
  messageemitter_daemonize :: bool
  messageemitter_retries :: int
  messageemitter_retry_delay :: int

definition messageemitter_table :: "arg_entry list" where
  "messageemitter_table =
    [arg_str0 ''a_interface'' (Some CHR ''i'') (Some ''ipaddr''),
     arg_int0 ''a_port'' (Some CHR ''l'') (Some ''listen''),
     arg_str0 ''a_proto_path'' (Some CHR ''p'') (Some ''protos''),
     arg_file0 ''a_input_file'' (Some CHR ''f'') (Some ''file''),
     arg_str0 ''a_message_out_url'' (Some CHR ''o'') (Some ''output''),
     arg_lit0 ''a_daemonize'' (Some CHR ''d'') (Some ''daemonize''),
     arg_int0 ''a_retries'' (Some CHR ''r'') (Some ''repeat''),
     arg_int0 ''a_retry_delay'' (Some CHR ''y'') (Some ''delay''),
     arg_litn ''a_verbosity'' (Some CHR ''v'') (Some ''verbosity'') 0 3,
     arg_lit0 ''a_help'' (Some CHR ''h'') (Some ''help'')]"

definition messageemitter_parseCmd :: "cmd_env \<Rightarrow> string list \<Rightarrow> int + messageemitter_config" where
  "messageemitter_parseCmd e argv =
    (let p = arg_parse messageemitter_table argv
     in if usage_shown p then Inl 1
      else case realpath e (str_or p ''a_proto_path'' ''proto'') of
        None \<Rightarrow> Inl (- 65)
      | Some proto \<Rightarrow> Inr \<lparr>messageemitter_intface = str_or p ''a_interface'' ''0.0.0.0'',
          messageemitter_port = int_or p ''a_port'' 50052,
          messageemitter_proto_path = proto,
          messageemitter_file_name = str_or p ''a_input_file'' [],
          messageemitter_message_out_url = str_or p ''a_message_out_url'' ''ipc:///tmp/message.pkt2'',
          messageemitter_verbosity = int (arg_count p ''a_verbosity''),
          messageemitter_daemonize = 0 < arg_count p ''a_daemonize'',
          messageemitter_retries = int_or p ''a_retries'' 0,
          messageemitter_retry_delay = int_or p ''a_retry_delay'' 60\<rparr>)"

subsection \<open>message2gateway\<close>

record message2gateway_config =
  message2gateway_proto_path :: string
  message2gateway_file_name :: string
  message2gateway_from_stdin :: bool
  message2gateway_message_in_url :: string
  message2gateway_message_out_url :: string
  message2gateway_retries :: int
  message2gateway_retry_delay :: int
  message2gateway_force_message :: string
  message2gateway_verbosity :: int
  message2gateway_daemonize :: bool
  message2gateway_buffer_size :: u64
  message2gateway_path :: string

definition message2gateway_table :: "arg_entry list" where
  "message2gateway_table =
    [arg_str0 ''a_proto_path'' (Some CHR ''p'') (Some ''protos''),
     arg_str0 ''a_message_in_url'' (Some CHR ''i'') (Some ''input''),
     arg_file0 ''a_input_file'' (Some CHR ''f'') (Some ''file''),
     arg_lit0 ''a_stdin'' (Some CHR ''s'') (Some ''stdin''),
     arg_str0 ''a_message_out_url'' (Some CHR ''o'') (Some ''output''),
     arg_str0 ''a_force_message'' None (Some ''force''),
     arg_int0 ''a_buffer_size'' (Some CHR ''b'') (Some ''buffer''),
     arg_int0 ''a_retries'' (Some CHR ''r'') (Some ''repeat''),
     arg_int0 ''a_retry_delay'' (Some CHR ''y'') (Some ''delay''),
     arg_lit0 ''a_daemonize'' (Some CHR ''d'') (Some ''daemonize''),
     arg_litn ''a_verbosity'' (Some CHR ''v'') (Some ''verbosity'') 0 3,
     arg_lit0 ''a_help'' (Some CHR ''h'') (Some ''help'')]"

definition message2gateway_parseCmd :: "cmd_env \<Rightarrow> string list \<Rightarrow> int + message2gateway_config" where
  "message2gateway_parseCmd e argv =
    (let p = arg_parse message2gateway_table argv
     in if usage_shown p then Inl 1
      else case realpath e (str_or p ''a_proto_path'' ''proto'') of
        None \<Rightarrow> Inl (- 65)
      | Some proto \<Rightarrow> Inr \<lparr>message2gateway_proto_path = proto,
          message2gateway_file_name = str_or p ''a_input_file'' [],
          message2gateway_from_stdin = 0 < arg_count p ''a_stdin'',
          message2gateway_message_in_url = str_or p ''a_message_in_url'' ''ipc:///tmp/packet.pkt2'',
          message2gateway_message_out_url = str_or p ''a_message_out_url'' ''ipc:///tmp/message.pkt2'',
          message2gateway_retries = int_or p ''a_retries'' 0,
          message2gateway_retry_delay = int_or p ''a_retry_delay'' 60,
          message2gateway_force_message = str_or p ''a_force_message'' [],
          message2gateway_verbosity = int (arg_count p ''a_verbosity''),
          message2gateway_daemonize = 0 < arg_count p ''a_daemonize'',
          message2gateway_buffer_size = word_of_int (int_or p ''a_buffer_size'' 4096),
          message2gateway_path = getcwd e\<rparr>)"

text \<open>The constructor sets the size of the buffer after it has read the command line.\<close>

definition message2gateway_Config :: "cmd_env \<Rightarrow> string list \<Rightarrow> int + message2gateway_config" where
  "message2gateway_Config e argv = map_sum id (\<lambda>c. c\<lparr>message2gateway_buffer_size := 4096\<rparr>) (message2gateway_parseCmd e argv)"

subsection \<open>pkt2gateway\<close>

record pkt2gateway_config =
  pkt2gateway_proto_path :: string
  pkt2gateway_force_message :: string
  pkt2gateway_mode :: string
  pkt2gateway_packet :: string
  pkt2gateway_file_name :: string
  pkt2gateway_message_out_url :: string
  pkt2gateway_verbosity :: int
  pkt2gateway_retries :: int
  pkt2gateway_retry_delay :: int
  pkt2gateway_tableAliases :: "(string, string) smap"
  pkt2gateway_fieldAliases :: "(string, string) smap"
  pkt2gateway_properties :: "(string, string) smap"
  pkt2gateway_buffer_size :: u64

definition pkt2gateway_table :: "arg_entry list" where
  "pkt2gateway_table =
    [arg_str0 ''a_proto_path'' (Some CHR ''p'') (Some ''protos''),
     arg_str0 ''a_force_message'' None (Some ''message''),
     arg_str0 ''a_packet'' None None,
     arg_str0 ''a_mode'' (Some CHR ''m'') (Some ''mode''),
     arg_file0 ''a_input_file'' (Some CHR ''f'') (Some ''file''),
     arg_str0 ''a_message_out_url'' (Some CHR ''o'') (Some ''output''),
     arg_int0 ''a_retries'' (Some CHR ''r'') (Some ''repeat''),
     arg_int0 ''a_retry_delay'' (Some CHR ''y'') (Some ''delay''),
     arg_strn ''a_table_alias'' (Some CHR ''T'') (Some ''table-alias'') 0 100,
     arg_strn ''a_field_alias'' (Some CHR ''F'') (Some ''field-alias'') 0 100,
     arg_strn ''a_properties'' (Some CHR ''P'') (Some ''properties'') 0 100,
     arg_litn ''a_verbosity'' (Some CHR ''v'') (Some ''verbosity'') 0 3,
     arg_lit0 ''a_help'' (Some CHR ''h'') (Some ''help'')]"

definition pkt2gateway_parseCmd :: "cmd_env \<Rightarrow> string list \<Rightarrow> int + pkt2gateway_config" where
  "pkt2gateway_parseCmd e argv =
    (let p = arg_parse pkt2gateway_table argv
     in if usage_shown p then Inl 1
      else case realpath e (str_or p ''a_proto_path'' ''proto'') of
        None \<Rightarrow> Inl (- 65)
      | Some proto \<Rightarrow> Inr \<lparr>pkt2gateway_proto_path = proto,
          pkt2gateway_force_message = str_or p ''a_force_message'' [],
          pkt2gateway_mode = str_or p ''a_mode'' ''raw'',
          pkt2gateway_packet = str_or p ''a_packet'' [],
          pkt2gateway_file_name = str_or p ''a_input_file'' [],
          pkt2gateway_message_out_url = str_or p ''a_message_out_url'' ''ipc:///tmp/message.pkt2'',
          pkt2gateway_verbosity = int (arg_count p ''a_verbosity''),
          pkt2gateway_retries = int_or p ''a_retries'' 1,
          pkt2gateway_retry_delay = int_or p ''a_retry_delay'' 0,
          pkt2gateway_tableAliases = alias_map (strs p ''a_table_alias''),
          pkt2gateway_fieldAliases = alias_map (strs p ''a_field_alias''),
          pkt2gateway_properties = alias_map (strs p ''a_properties''),
          pkt2gateway_buffer_size = word_of_int (indeterminate e ''buffer_size'')\<rparr>)"

text \<open>The constructor sets the size of the buffer after it has read the command line.\<close>

definition pkt2gateway_Config :: "cmd_env \<Rightarrow> string list \<Rightarrow> int + pkt2gateway_config" where
  "pkt2gateway_Config e argv = map_sum id (\<lambda>c. c\<lparr>pkt2gateway_buffer_size := 4096\<rparr>) (pkt2gateway_parseCmd e argv)"

subsection \<open>repeator\<close>

record repeator_config =
  repeator_in_url :: string
  repeator_out_urls :: "string list"
  repeator_bind :: bool
  repeator_buffer_size :: int
  repeator_retries :: int
  repeator_retry_delay :: int
  repeator_verbosity :: int
  repeator_daemonize :: bool
  repeator_path :: string

definition repeator_table :: "arg_entry list" where
  "repeator_table =
    [arg_str0 ''a_in_url'' (Some CHR ''i'') (Some ''in''),
     arg_strn ''a_out_url'' (Some CHR ''o'') (Some ''out'') 0 100,
     arg_lit0 ''a_bind'' (Some CHR ''s'') (Some ''bind''),
     arg_int0 ''a_buffer_size'' (Some CHR ''b'') (Some ''buffer''),
     arg_int0 ''a_retries'' (Some CHR ''r'') (Some ''repeat''),
     arg_int0 ''a_retry_delay'' (Some CHR ''y'') (Some ''delay''),
     arg_lit0 ''a_daemonize'' (Some CHR ''d'') (Some ''daemonize''),
     arg_litn ''a_verbosity'' (Some CHR ''v'') (Some ''verbosity'') 0 3,
     arg_lit0 ''a_help'' (Some CHR ''h'') (Some ''help'')]"

definition repeator_parseCmd :: "cmd_env \<Rightarrow> string list \<Rightarrow> int + repeator_config" where
  "repeator_parseCmd e argv =
    (let p = arg_parse repeator_table argv
     in if usage_shown p then Inl (- 2)
      else Inr \<lparr>repeator_in_url = str_or p ''a_in_url'' ''ipc:///tmp/control.pkt2'',
          repeator_out_urls = (if arg_count p ''a_out_url'' = 0 then [''tcp://0.0.0.0:50000''] else strs p ''a_out_url''),
          repeator_bind = 0 < arg_count p ''a_bind'',
          repeator_buffer_size = int_or p ''a_buffer_size'' 4096,
          repeator_retries = int_or p ''a_retries'' 0,
          repeator_retry_delay = int_or p ''a_retry_delay'' 60,
          repeator_verbosity = int (arg_count p ''a_verbosity''),
          repeator_daemonize = 0 < arg_count p ''a_daemonize'',
          repeator_path = getcwd e\<rparr>)"

definition repeator_Config :: "cmd_env \<Rightarrow> string list \<Rightarrow> int + repeator_config" where
  "repeator_Config e argv = map_sum (\<lambda>code. - 1) id (repeator_parseCmd e argv)"

text \<open>The gateways read the option for the size of the buffer and forget it.\<close>

theorem gateway_buffer_is_fixed:
  "message2gateway_Config e argv = Inr c \<Longrightarrow> message2gateway_buffer_size c = 4096"
  "pkt2gateway_Config e argv = Inr d \<Longrightarrow> pkt2gateway_buffer_size d = 4096"
  by (auto simp: message2gateway_Config_def pkt2gateway_Config_def map_sum_def split: sum.splits)

end
