(* ===== verification/HandlerConfigs.thy ===== *)
theory HandlerConfigs
  imports ArgTable
begin

section \<open>Settings of the handlers and of the supervisor\<close>

text \<open>
  The option tables of the message handlers for lines, LMDB, PostgreSQL and FCM, of the two
  packet dumpers and of the supervisor pkt2, with the settings their parseCmd reads.
\<close>

record PGConfig =
  dbconn :: string
  dboptionsfile :: string
  dbname :: string
  dbuser :: string
  dbpassword :: string
  dbhost :: string
  dbport :: string
  dbsocket :: string
  dbcharset :: string
  dbclientflags :: int

text \<open>The programs that use PostgreSQL read its settings from the same options.\<close>

definition pgconnect_of :: "parsed \<Rightarrow> PGConfig" where
  "pgconnect_of p =
     \<lparr>dbconn = str_or p ''a_conninfo'' [],
      dboptionsfile = str_or p ''a_optionsfile'' [],
      dbname = str_or p ''a_database'' [],
      dbuser = str_or p ''a_user'' [],
      dbpassword = str_or p ''a_password'' [],
      dbhost = str_or p ''a_host'' ''localhost'',
      dbport = str_or p ''a_dbport'' ''5432'',
      dbsocket = str_or p ''a_dbsocket'' [],
      dbcharset = str_or p ''a_dbcharset'' ''utf8'',
      dbclientflags = int_or p ''a_dbclientflags'' 0\<rparr>"

definition FCM_KEY :: string where
  "FCM_KEY = ''AAAAITL4VBA:APA91bGQwuvaQTt8klgebh8QO1eSU7o5itF0QGnp7kCWJNgMwe8WM3bMh6eGDkeyMbvUAmE2MqtB1My3f0-mHM6MQE1gOjMB0eiAW1Xaqds0hYETRNzqAe0iRh5v-PcxmxrHQeJh6Nuj''"

subsection \<open>handlerline\<close>

record handlerline_config =
  handlerline_proto_path :: string
  handlerline_file_name :: string
  handlerline_message_url :: string
  handlerline_allowed_messages :: "string list"
  handlerline_retries :: int
  handlerline_retry_delay :: int
  handlerline_verbosity :: int
  handlerline_daemonize :: bool
  handlerline_mode :: int
  handlerline_format_number :: int
  handlerline_buffer_size :: int
  handlerline_sql_dialect :: int
  handlerline_path :: string
  handlerline_tableAliases :: "(string, string) smap"
  handlerline_fieldAliases :: "(string, string) smap"
  handlerline_properties :: "(string, string) smap"

definition handlerline_table :: "arg_entry list" where
  "handlerline_table =
    [arg_str0 ''a_proto_path'' (Some CHR ''p'') (Some ''protos''),
     arg_file0 ''a_file_name'' (Some CHR ''o'') (Some ''output''),
     arg_str0 ''a_message_url'' (Some CHR ''i'') (Some ''input''),
     arg_strn ''a_allowed_messages'' (Some CHR ''a'') (Some ''allow'') 0 128,
     arg_int0 ''a_retries'' (Some CHR ''r'') (Some ''repeat''),
     arg_int0 ''a_retry_delay'' (Some CHR ''y'') (Some ''delay''),
     arg_lit0 ''a_daemonize'' (Some CHR ''d'') (Some ''daemonize''),
     arg_litn ''a_verbosity'' (Some CHR ''v'') (Some ''verbosity'') 0 3,
     arg_int0 ''a_mode'' (Some CHR ''m'') (Some ''mode''),
     arg_int0 ''a_format_number'' None (Some ''format''),
     arg_int0 ''a_buffer_size'' (Some CHR ''b'') (Some ''buffer''),
     arg_int0 ''a_sql_dialect'' None (Some ''sql-dialect''),
     arg_strn ''a_table_alias'' (Some CHR ''T'') (Some ''table-alias'') 0 100,
     arg_strn ''a_field_alias'' (Some CHR ''F'') (Some ''field-alias'') 0 100,
     arg_strn ''a_properties'' (Some CHR ''P'') (Some ''properties'') 0 100,
     arg_lit0 ''a_help'' (Some CHR ''h'') (Some ''help'')]"

definition handlerline_parseCmd :: "cmd_env \<Rightarrow> string list \<Rightarrow> int + handlerline_config" where
  "handlerline_parseCmd e argv =
    (let p = arg_parse handlerline_table argv
     in if usage_shown p then Inl (- 2)
      else case realpath e (str_or p ''a_proto_path'' ''proto'') of
        None \<Rightarrow> Inl (- 65)
      | Some proto \<Rightarrow> Inr \<lparr>handlerline_proto_path = proto,
          handlerline_file_name = str_or p ''a_file_name'' [],
          handlerline_message_url = str_or p ''a_message_url'' ''ipc:///tmp/message.pkt2'',
          handlerline_allowed_messages = strs p ''a_allowed_messages'',
          handlerline_retries = int_or p ''a_retries'' 0,
          handlerline_retry_delay = int_or p ''a_retry_delay'' 60,
          handlerline_verbosity = int (arg_count p ''a_verbosity''),
          handlerline_daemonize = 0 < arg_count p ''a_daemonize'',
          handlerline_mode = int_or p ''a_mode'' 0,
          handlerline_format_number = int_or p ''a_format_number'' 0,
          handlerline_buffer_size = int_or p ''a_buffer_size'' 4096,
          handlerline_sql_dialect = int_or p ''a_sql_dialect'' (indeterminate e ''sql_dialect''),
          handlerline_path = getcwd e,
          handlerline_tableAliases = alias_map (strs p ''a_table_alias''),
          handlerline_fieldAliases = alias_map (strs p ''a_field_alias''),
          handlerline_properties = alias_map (strs p ''a_properties'')\<rparr>)"

subsection \<open>handlerlmdb\<close>

record handlerlmdb_config =
  handlerlmdb_proto_path :: string
  handlerlmdb_message_url :: string
  handlerlmdb_allowed_messages :: "string list"
  handlerlmdb_retries :: int
  handlerlmdb_retry_delay :: int
  handlerlmdb_verbosity :: int
  handlerlmdb_daemonize :: bool
  handlerlmdb_max_fd :: int
  handlerlmdb_path :: string
  handlerlmdb_mode :: int
  handlerlmdb_flags :: int
  handlerlmdb_buffer_size :: int

definition handlerlmdb_table :: "arg_entry list" where
  "handlerlmdb_table =
    [arg_str0 ''a_proto_path'' (Some CHR ''p'') (Some ''protos''),
     arg_str0 ''a_message_url'' (Some CHR ''i'') (Some ''input''),
     arg_strn ''a_allowed_messages'' (Some CHR ''a'') (Some ''allow'') 0 128,
     arg_int0 ''a_retries'' (Some CHR ''r'') (Some ''repeat''),
     arg_int0 ''a_retry_delay'' (Some CHR ''y'') (Some ''delay''),
     arg_lit0 ''a_daemonize'' (Some CHR ''d'') (Some ''daemonize''),
     arg_int0 ''a_max_fd'' None (Some ''maxfd''),
     arg_litn ''a_verbosity'' (Some CHR ''v'') (Some ''verbosity'') 0 3,
     arg_str0 ''a_db_path'' None (Some ''dbpath''),
     arg_int0 ''a_flags'' (Some CHR ''f'') (Some ''flags''),
     arg_int0 ''a_mode'' (Some CHR ''m'') (Some ''mode''),
     arg_int0 ''a_buffer_size'' (Some CHR ''b'') (Some ''buffer''),
     arg_lit0 ''a_help'' (Some CHR ''h'') (Some ''help'')]"

definition handlerlmdb_parseCmd :: "cmd_env \<Rightarrow> string list \<Rightarrow> int + handlerlmdb_config" where
  "handlerlmdb_parseCmd e argv =
    (let p = arg_parse handlerlmdb_table argv
     in if usage_shown p then Inl (- 2)
      else case realpath e (str_or p ''a_proto_path'' ''proto'') of
        None \<Rightarrow> Inl (- 65)
      | Some proto \<Rightarrow> (case realpath e (str_or p ''a_db_path'' ''db'') of
        None \<Rightarrow> Inl (- 64)
      | Some dir \<Rightarrow> Inr \<lparr>handlerlmdb_proto_path = proto,
          handlerlmdb_message_url = str_or p ''a_message_url'' ''ipc:///tmp/message.pkt2'',
          handlerlmdb_allowed_messages = strs p ''a_allowed_messages'',
          handlerlmdb_retries = int_or p ''a_retries'' 0,
          handlerlmdb_retry_delay = int_or p ''a_retry_delay'' 60,
          handlerlmdb_verbosity = int (arg_count p ''a_verbosity''),
          handlerlmdb_daemonize = 0 < arg_count p ''a_daemonize'',
          handlerlmdb_max_fd = int_or p ''a_max_fd'' 0,
          handlerlmdb_path = dir,
          handlerlmdb_mode = int_or p ''a_mode'' 436,
          handlerlmdb_flags = int_or p ''a_flags'' 0,
          handlerlmdb_buffer_size = int_or p ''a_buffer_size'' 4096\<rparr>))"

subsection \<open>handlerpq\<close>

record handlerpq_config =
  handlerpq_proto_path :: string
  handlerpq_message_url :: string
  handlerpq_allowed_messages :: "string list"
  handlerpq_retries :: int
  handlerpq_retry_delay :: int
  handlerpq_verbosity :: u32
  handlerpq_daemonize :: bool
  handlerpq_pgconnect :: PGConfig
  handlerpq_buffer_size :: int
  handlerpq_mode :: int
  handlerpq_format_number :: int
  handlerpq_path :: string
  handlerpq_sql_dialect :: int
  handlerpq_tableAliases :: "(string, string) smap"
  handlerpq_fieldAliases :: "(string, string) smap"
  handlerpq_properties :: "(string, string) smap"

definition handlerpq_table :: "arg_entry list" where
  "handlerpq_table =
    [arg_str0 ''a_proto_path'' (Some CHR ''p'') (Some ''protos''),
     arg_str0 ''a_message_url'' (Some CHR ''i'') (Some ''input''),
     arg_strn ''a_allowed_messages'' (Some CHR ''a'') (Some ''allow'') 0 128,
     arg_int0 ''a_retries'' (Some CHR ''r'') (Some ''repeat''),
     arg_int0 ''a_retry_delay'' (Some CHR ''y'') (Some ''delay''),
     arg_lit0 ''a_daemonize'' (Some CHR ''d'') (Some ''daemonize''),
     arg_litn ''a_verbosity'' (Some CHR ''v'') (Some ''verbosity'') 0 3,
     arg_str0 ''a_conninfo'' None (Some ''conninfo''),
     arg_str0 ''a_user'' None (Some ''user''),
     arg_str0 ''a_database'' None (Some ''database''),
     arg_str0 ''a_password'' None (Some ''password''),
     arg_str0 ''a_host'' None (Some ''host''),
     arg_str0 ''a_dbport'' None (Some ''port''),
     arg_file0 ''a_optionsfile'' None (Some ''options-file''),
     arg_str0 ''a_dbsocket'' None (Some ''dbsocket''),
     arg_str0 ''a_dbcharset'' None (Some ''dbcharset''),
     arg_int0 ''a_dbclientflags'' None (Some ''dbclientflags''),
     arg_int0 ''a_mode'' (Some CHR ''m'') (Some ''mode''),
     arg_int0 ''a_format_number'' None (Some ''format''),
     arg_int0 ''a_buffer_size'' (Some CHR ''b'') (Some ''buffer''),
     arg_int0 ''a_sql_dialect'' None (Some ''sql-dialect''),
     arg_strn ''a_table_alias'' (Some CHR ''T'') (Some ''table-alias'') 0 100,
     arg_strn ''a_field_alias'' (Some CHR ''F'') (Some ''field-alias'') 0 100,
     arg_strn ''a_properties'' (Some CHR ''P'') (Some ''properties'') 0 100,
     arg_lit0 ''a_help'' (Some CHR ''h'') (Some ''help'')]"

definition handlerpq_parseCmd :: "cmd_env \<Rightarrow> string list \<Rightarrow> int + handlerpq_config" where
  "handlerpq_parseCmd e argv =
    (let p = arg_parse handlerpq_table argv
     in if usage_shown p then Inl (- 2)
      else case realpath e (str_or p ''a_proto_path'' ''proto'') of
        None \<Rightarrow> Inl (- 65)
      | Some proto \<Rightarrow> Inr \<lparr>handlerpq_proto_path = proto,
          handlerpq_message_url = str_or p ''a_message_url'' ''ipc:///tmp/message.pkt2'',
          handlerpq_allowed_messages = strs p ''a_allowed_messages'',
          handlerpq_retries = int_or p ''a_retries'' 0,
          handlerpq_retry_delay = int_or p ''a_retry_delay'' 60,
          handlerpq_verbosity = word_of_int (int (arg_count p ''a_verbosity'')),
          handlerpq_daemonize = 0 < arg_count p ''a_daemonize'',
          handlerpq_pgconnect = pgconnect_of p,
          handlerpq_buffer_size = int_or p ''a_buffer_size'' 4096,
          handlerpq_mode = int_or p ''a_mode'' 4,
          handlerpq_format_number = int_or p ''a_format_number'' 0,
          handlerpq_path = getcwd e,
          handlerpq_sql_dialect = int_or p ''a_sql_dialect'' (indeterminate e ''sql_dialect''),
          handlerpq_tableAliases = alias_map (strs p ''a_table_alias''),
          handlerpq_fieldAliases = alias_map (strs p ''a_field_alias''),
          handlerpq_properties = alias_map (strs p ''a_properties'')\<rparr>)"

subsection \<open>handler-fcm\<close>

record handler_fcm_config =
  handler_fcm_proto_path :: string
  handler_fcm_message_url :: string
  handler_fcm_allowed_messages :: "string list"
  handler_fcm_retries :: int
  handler_fcm_retry_delay :: int
  handler_fcm_verbosity :: int
  handler_fcm_daemonize :: bool
  handler_fcm_server_key :: string
  handler_fcm_imei_field_name :: string
  handler_fcm_pgconnect :: PGConfig
  handler_fcm_buffer_size :: int
  handler_fcm_format_number :: int
  handler_fcm_path :: string
  handler_fcm_fburl :: string

definition handler_fcm_table :: "arg_entry list" where
  "handler_fcm_table =
    [arg_str0 ''a_proto_path'' (Some CHR ''p'') (Some ''protos''),
     arg_str0 ''a_message_url'' (Some CHR ''i'') (Some ''input''),
     arg_strn ''a_allowed_messages'' (Some CHR ''a'') (Some ''allow'') 0 128,
     arg_int0 ''a_retries'' (Some CHR ''r'') (Some ''repeat''),
     arg_int0 ''a_retry_delay'' (Some CHR ''y'') (Some ''delay''),
     arg_lit0 ''a_daemonize'' (Some CHR ''d'') (Some ''daemonize''),
     arg_litn ''a_verbosity'' (Some CHR ''v'') (Some ''verbosity'') 0 3,
     arg_str0 ''a_server_key'' (Some CHR ''k'') (Some ''key''),
     arg_str0 ''a_imei_field_name'' (Some CHR ''m'') (Some ''imei''),
     arg_str0 ''a_conninfo'' None (Some ''conninfo''),
     arg_str0 ''a_user'' None (Some ''user''),
     arg_str0 ''a_database'' None (Some ''database''),
     arg_str0 ''a_password'' None (Some ''password''),
     arg_str0 ''a_host'' None (Some ''host''),
     arg_str0 ''a_dbport'' None (Some ''port''),
     arg_file0 ''a_optionsfile'' None (Some ''options-file''),
     arg_str0 ''a_dbsocket'' None (Some ''dbsocket''),
     arg_str0 ''a_dbcharset'' None (Some ''dbcharset''),
     arg_int0 ''a_dbclientflags'' None (Some ''dbclientflags''),
     arg_int0 ''a_format_number'' None (Some ''format''),
     arg_int0 ''a_buffer_size'' (Some CHR ''b'') (Some ''buffer''),
     arg_lit0 ''a_help'' (Some CHR ''h'') (Some ''help'')]"

definition handler_fcm_parseCmd :: "cmd_env \<Rightarrow> string list \<Rightarrow> int + handler_fcm_config" where
  "handler_fcm_parseCmd e argv =
    (let p = arg_parse handler_fcm_table argv
     in if usage_shown p then Inl (- 2)
      else case realpath e (str_or p ''a_proto_path'' ''proto'') of
        None \<Rightarrow> Inl (- 65)
      | Some proto \<Rightarrow> Inr \<lparr>handler_fcm_proto_path = proto,
          handler_fcm_message_url = str_or p ''a_message_url'' ''ipc:///tmp/message.pkt2'',
          handler_fcm_allowed_messages = strs p ''a_allowed_messages'',
          handler_fcm_retries = int_or p ''a_retries'' 0,
          handler_fcm_retry_delay = int_or p ''a_retry_delay'' 60,
          handler_fcm_verbosity = int (arg_count p ''a_verbosity''),
          handler_fcm_daemonize = 0 < arg_count p ''a_daemonize'',
          handler_fcm_server_key = str_or p ''a_server_key'' FCM_KEY,
          handler_fcm_imei_field_name = str_or p ''a_imei_field_name'' ''imei'',
          handler_fcm_pgconnect = pgconnect_of p,
          handler_fcm_buffer_size = int_or p ''a_buffer_size'' 4096,
          handler_fcm_format_number = int_or p ''a_format_number'' 0,
          handler_fcm_path = getcwd e,
          handler_fcm_fburl = []\<rparr>)"

definition handler_fcm_Config :: "cmd_env \<Rightarrow> string list \<Rightarrow> int + handler_fcm_config" where
  "handler_fcm_Config e argv =
     map_sum id (\<lambda>c. c\<lparr>handler_fcm_fburl := ''https://fcm.googleapis.com/fcm/send''\<rparr>) (handler_fcm_parseCmd e argv)"

subsection \<open>pkt2dumppq\<close>

record pkt2dumppq_config =
  pkt2dumppq_packet_url :: string
  pkt2dumppq_retries :: int
  pkt2dumppq_retry_delay :: int
  pkt2dumppq_verbosity :: u32
  pkt2dumppq_create_table :: bool
  pkt2dumppq_daemonize :: bool
  pkt2dumppq_max_fd :: int
  pkt2dumppq_pgconnect :: PGConfig
  pkt2dumppq_buffer_size :: int
  pkt2dumppq_path :: string

definition pkt2dumppq_table :: "arg_entry list" where
  "pkt2dumppq_table =
    [arg_str0 ''a_packet_url'' (Some CHR ''i'') (Some ''input''),
     arg_int0 ''a_retries'' (Some CHR ''r'') (Some ''repeat''),
     arg_int0 ''a_retry_delay'' (Some CHR ''y'') (Some ''delay''),
     arg_lit0 ''a_daemonize'' (Some CHR ''d'') (Some ''daemonize''),
     arg_int0 ''a_max_fd'' None (Some ''maxfd''),
     arg_litn ''a_verbosity'' (Some CHR ''v'') (Some ''verbosity'') 0 3,
     arg_str0 ''a_conninfo'' None (Some ''conninfo''),
     arg_str0 ''a_user'' None (Some ''user''),
     arg_str0 ''a_database'' None (Some ''database''),
     arg_str0 ''a_password'' None (Some ''password''),
     arg_str0 ''a_host'' None (Some ''host''),
     arg_str0 ''a_dbport'' None (Some ''port''),
     arg_file0 ''a_optionsfile'' None (Some ''options-file''),
     arg_str0 ''a_dbsocket'' None (Some ''dbsocket''),
     arg_str0 ''a_dbcharset'' None (Some ''dbcharset''),
     arg_int0 ''a_dbclientflags'' None (Some ''dbclientflags''),
     arg_int0 ''a_buffer_size'' (Some CHR ''b'') (Some ''buffer''),
     arg_lit0 ''a_createtable'' None (Some ''createtable''),
     arg_lit0 ''a_help'' (Some CHR ''h'') (Some ''help'')]"

definition pkt2dumppq_parseCmd :: "cmd_env \<Rightarrow> string list \<Rightarrow> int + pkt2dumppq_config" where
  "pkt2dumppq_parseCmd e argv =
    (let p = arg_parse pkt2dumppq_table argv
     in if usage_shown p then Inl (- 2)
      else Inr \<lparr>pkt2dumppq_packet_url = str_or p ''a_packet_url'' ''ipc:///tmp/dump.pkt2'',
          pkt2dumppq_retries = int_or p ''a_retries'' 0,
          pkt2dumppq_retry_delay = int_or p ''a_retry_delay'' 60,
          pkt2dumppq_verbosity = word_of_int (int (arg_count p ''a_verbosity'')),
          pkt2dumppq_create_table = 0 < arg_count p ''a_createtable'',
          pkt2dumppq_daemonize = 0 < arg_count p ''a_daemonize'',
          pkt2dumppq_max_fd = int_or p ''a_max_fd'' 0,
          pkt2dumppq_pgconnect = pgconnect_of p,
          pkt2dumppq_buffer_size = int_or p ''a_buffer_size'' 4096,
          pkt2dumppq_path = getcwd e\<rparr>)"

subsection \<open>pkt2dumpfcm\<close>

record pkt2dumpfcm_config =
  pkt2dumpfcm_packet_url :: string
  pkt2dumpfcm_retries :: int
  pkt2dumpfcm_retry_delay :: int
  pkt2dumpfcm_verbosity :: u32
  pkt2dumpfcm_daemonize :: bool
  pkt2dumpfcm_max_fd :: int
  pkt2dumpfcm_server_key :: string
  pkt2dumpfcm_fburl :: string
  pkt2dumpfcm_imei_field_offset :: int
  pkt2dumpfcm_imei_field_size :: int
  pkt2dumpfcm_packet_size :: int
  pkt2dumpfcm_timezone :: int
  pkt2dumpfcm_test_data_hex :: string
  pkt2dumpfcm_pgconnect :: PGConfig
  pkt2dumpfcm_buffer_size :: int
  pkt2dumpfcm_path :: string

definition pkt2dumpfcm_table :: "arg_entry list" where
  "pkt2dumpfcm_table =
    [arg_str0 ''a_packet_url'' (Some CHR ''i'') (Some ''input''),
     arg_int0 ''a_retries'' (Some CHR ''r'') (Some ''repeat''),
     arg_int0 ''a_retry_delay'' (Some CHR ''y'') (Some ''delay''),
     arg_lit0 ''a_daemonize'' (Some CHR ''d'') (Some ''daemonize''),
     arg_int0 ''a_max_fd'' None (Some ''maxfd''),
     arg_litn ''a_verbosity'' (Some CHR ''v'') (Some ''verbosity'') 0 3,
     arg_str0 ''a_server_key'' (Some CHR ''k'') (Some ''key''),
     arg_int0 ''a_imei_field_offset'' None (Some ''imei-offset''),
     arg_int0 ''a_imei_field_size'' None (Some ''imei-size''),
     arg_int0 ''a_packet_size'' None (Some ''packet-size''),
     arg_int0 ''a_time_zone'' None (Some ''timezone''),
     arg_str0 ''a_test_data_hex'' (Some CHR ''x'') (Some ''hex''),
     arg_str0 ''a_conninfo'' None (Some ''conninfo''),
     arg_str0 ''a_user'' None (Some ''user''),
     arg_str0 ''a_database'' None (Some ''database''),
     arg_str0 ''a_password'' None (Some ''password''),
     arg_str0 ''a_host'' None (Some ''host''),
     arg_str0 ''a_dbport'' None (Some ''port''),
     arg_file0 ''a_optionsfile'' None (Some ''options-file''),
     arg_str0 ''a_dbsocket'' None (Some ''dbsocket''),
     arg_str0 ''a_dbcharset'' None (Some ''dbcharset''),
     arg_int0 ''a_dbclientflags'' None (Some ''dbclientflags''),
     arg_int0 ''a_buffer_size'' (Some CHR ''b'') (Some ''buffer''),
     arg_lit0 ''a_help'' (Some CHR ''h'') (Some ''help'')]"

definition pkt2dumpfcm_parseCmd :: "cmd_env \<Rightarrow> string list \<Rightarrow> int + pkt2dumpfcm_config" where
  "pkt2dumpfcm_parseCmd e argv =
    (let p = arg_parse pkt2dumpfcm_table argv
     in if usage_shown p then Inl (- 2)
      else Inr \<lparr>pkt2dumpfcm_packet_url = str_or p ''a_packet_url'' ''ipc:///tmp/dump.pkt2'',
          pkt2dumpfcm_retries = int_or p ''a_retries'' 0,
          pkt2dumpfcm_retry_delay = int_or p ''a_retry_delay'' 60,
          pkt2dumpfcm_verbosity = word_of_int (int (arg_count p ''a_verbosity'')),
          pkt2dumpfcm_daemonize = 0 < arg_count p ''a_daemonize'',
          pkt2dumpfcm_max_fd = int_or p ''a_max_fd'' 0,
          pkt2dumpfcm_server_key = str_or p ''a_server_key'' FCM_KEY,
          pkt2dumpfcm_fburl = ''https://fcm.googleapis.com/fcm/send'',
          pkt2dumpfcm_imei_field_offset = int_or p ''a_imei_field_offset'' 10,
          pkt2dumpfcm_imei_field_size = int_or p ''a_imei_field_size'' 15,
          pkt2dumpfcm_packet_size = int_or p ''a_packet_size'' 0,
          pkt2dumpfcm_timezone = int_or p ''a_time_zone'' 32400,
          pkt2dumpfcm_test_data_hex = str_or p ''a_test_data_hex'' [],
          pkt2dumpfcm_pgconnect = pgconnect_of p,
          pkt2dumpfcm_buffer_size = int_or p ''a_buffer_size'' 4096,
          pkt2dumpfcm_path = getcwd e\<rparr>)"

subsection \<open>pkt2\<close>

record pkt2_config =
  pkt2_file_name :: string
  pkt2_path :: string
  pkt2_mode_output :: bool
  pkt2_verbosity :: int
  pkt2_daemonize :: bool

definition pkt2_table :: "arg_entry list" where
  "pkt2_table =
    [arg_file0 ''a_input_file'' (Some CHR ''c'') (Some ''config''),
     arg_file0 ''a_path'' (Some CHR ''p'') (Some ''path''),
     arg_lit0 ''a_output'' (Some CHR ''o'') (Some ''output''),
     arg_lit0 ''a_daemonize'' (Some CHR ''d'') (Some ''daemonize''),
     arg_litn ''a_verbosity'' (Some CHR ''v'') (Some ''verbosity'') 0 3,
     arg_lit0 ''a_help'' (Some CHR ''h'') (Some ''help'')]"

definition pkt2_parseCmd :: "cmd_env \<Rightarrow> string list \<Rightarrow> (int + pkt2_config) option" where
  "pkt2_parseCmd e argv =
    (let p = arg_parse pkt2_table argv
     in if usage_shown p then Some (Inl 1)
      else case realpath e (str_or p ''a_input_file'' ''pkt2.js'') of
        None \<Rightarrow> Some (Inl (- 64))
      | Some file \<Rightarrow> (case realpath e (str_or p ''a_path'' (getcwd e)) of
        None \<Rightarrow> None
      | Some real \<Rightarrow> (case realpath e real of
        None \<Rightarrow> Some (Inl (- 64))
      | Some dir \<Rightarrow> Some (Inr
         \<lparr>pkt2_file_name = file,
          pkt2_path = dir,
          pkt2_mode_output = 0 < arg_count p ''a_output'',
          pkt2_verbosity = int (arg_count p ''a_verbosity''),
          pkt2_daemonize = 0 < arg_count p ''a_daemonize''\<rparr>))))"

end
