(* ===== verification/SheetText.thy ===== *)
theory SheetText
  imports PacketVar
begin

section \<open>Text of the spreadsheet client\<close>

text \<open>
  The parts of google-sheets.cpp that work on text: the base64url coding of tokens, the CSV
  reader, the names of cells and ranges.
\<close>

unbundle bit_operations_syntax

subsection \<open>base64url\<close>

definition b64 :: string where
  "b64 = ''ABCDEFGHIJKLMNOPQRSTUVWXYZabcdefghijklmnopqrstuvwxyz0123456789-_''"

definition url_digit :: "byte \<Rightarrow> char" where
  "url_digit i = b64 ! unat i"

text \<open>The characters that are written one after the other, three bytes at a time.\<close>

fun url_digits :: "bytes \<Rightarrow> string" where
  "url_digits (b0 # b1 # b2 # s) =
     [url_digit (drop_bit 2 b0),
      url_digit (push_bit 4 (0x3 AND b0) + drop_bit 4 b1),
      url_digit (push_bit 2 (0x0f AND b1) + drop_bit 6 b2),
      url_digit (0x3f AND b2)] @ url_digits s"
| "url_digits [b0] = [url_digit (drop_bit 2 b0), url_digit (push_bit 4 (0x3 AND b0))]"
| "url_digits [b0, b1] =
     [url_digit (drop_bit 2 b0),
      url_digit (push_bit 4 (0x3 AND b0) + drop_bit 4 b1),
      url_digit (push_bit 2 (0x0f AND b1))]"
| "url_digits [] = []"

definition url_pad :: "nat \<Rightarrow> nat" where
  "url_pad data_len =
     (let modulusLen = data_len mod 3
      in push_bit 1 (modulusLen AND 1) + drop_bit 1 (modulusLen AND 2))"

definition url_length :: "nat \<Rightarrow> nat" where
  "url_length data_len =
     (let pad = url_pad data_len; result_len = 4 * (data_len + pad) div 3
      in if pad = 2 then result_len - 2 else if pad = 1 then result_len - 1 else result_len)"

text \<open>The characters are stored into a string whose length is computed before.\<close>

definition base64url_encode :: "bytes \<Rightarrow> string result" where
  "base64url_encode data =
     (let result_len = url_length (length data); written = url_digits data
      in if result_len < length written then Inl OutOfBounds
         else Inr (written @ replicate (result_len - length written) CHR 0x00))"

subsection \<open>CSV\<close>

datatype csv_state = UnquotedField | QuotedField | QuotedQuote

definition push_char :: "char \<Rightarrow> string list \<Rightarrow> string list" where
  "push_char c fs = fs[length fs - 1 := fs ! (length fs - 1) @ [c]]"

fun csv_step :: "csv_state \<times> string list \<Rightarrow> char \<Rightarrow> csv_state \<times> string list" where
  "csv_step (UnquotedField, fs) c =
     (if c = CHR '','' then (UnquotedField, fs @ [[]])
      else if c = CHR 0x22 then (QuotedField, fs)
      else (UnquotedField, push_char c fs))"
| "csv_step (QuotedField, fs) c =
     (if c = CHR 0x22 then (QuotedQuote, fs) else (QuotedField, push_char c fs))"
| "csv_step (QuotedQuote, fs) c =
     (if c = CHR '','' then (UnquotedField, fs @ [[]])
      else if c = CHR 0x22 then (QuotedField, push_char CHR 0x22 fs)
      else (UnquotedField, fs))"

definition readCSVRow :: "string \<Rightarrow> string list" where
  "readCSVRow row = snd (foldl csv_step (UnquotedField, [[]]) row)"

text \<open>A line that the end of the stream ends, and not a line feed, is not stored.\<close>

function readCSV :: "string \<Rightarrow> string list list \<Rightarrow> string list list" where
  "readCSV s retval =
     (let row = takeWhile (\<lambda>c. c \<noteq> CHR 0x0A) s
      in if length row < length s then readCSV (drop (Suc (length row)) s) (retval @ [readCSVRow row]) else retval)"
  by pat_completeness auto

termination
  by (relation "measure (\<lambda>(s, retval). length s)") (auto simp: Let_def)

declare readCSV.simps [simp del]

subsection \<open>Names of cells\<close>

text \<open>An int is 32 bits wide and wraps around.\<close>

function column_loop :: "int \<Rightarrow> string \<Rightarrow> string" where
  "column_loop columnNumber columnString =
     (if 0 < columnNumber
      then let currentLetterNumber = (columnNumber - 1) mod 26;
               currentLetter = char_of (nat (currentLetterNumber + 65)) :: char
           in column_loop ((columnNumber - (currentLetterNumber + 1)) div 26) (currentLetter # columnString)
      else columnString)"
  by pat_completeness auto

termination
  by (relation "measure (\<lambda>(n, s). nat n)") (auto simp: Let_def)

declare column_loop.simps [simp del]

definition columnFromNumber :: "u32 \<Rightarrow> string" where
  "columnFromNumber column = column_loop (sint (column + 1)) []"

definition sheet_prefix :: "string \<Rightarrow> string" where
  "sheet_prefix sheet = (if sheet = [] then [] else sheet @ ''!'')"

definition A1 :: "string \<Rightarrow> u32 \<Rightarrow> u32 \<Rightarrow> string" where
  "A1 sheet col row = sheet_prefix sheet @ columnFromNumber col @ int_str (sint (row + 1))"

definition A1_range :: "string \<Rightarrow> u32 \<Rightarrow> u32 \<Rightarrow> u32 \<Rightarrow> u32 \<Rightarrow> string" where
  "A1_range sheet col0 row0 col1 row1 =
     sheet_prefix sheet @ columnFromNumber col0 @ int_str (sint (row0 + 1)) @ '':'' @
     columnFromNumber col1 @ int_str (sint (row1 + 1))"

subsection \<open>Lemmas\<close>

lemma push_char_last [simp]: "push_char c (fs @ [f]) = fs @ [f @ [c]]"
  by (simp add: push_char_def)

text \<open>A field as a CSV writer may print it: as it is, or in quotes with its quotes doubled.\<close>

definition csv_quoted :: "string \<Rightarrow> string" where
  "csv_quoted f = CHR 0x22 # concat (map (\<lambda>c. if c = CHR 0x22 then [c, c] else [c]) f) @ [CHR 0x22]"

definition csv_text :: "string \<Rightarrow> string \<Rightarrow> bool" where
  "csv_text f t = (t = f \<and> CHR '','' \<notin> set f \<and> CHR 0x22 \<notin> set f \<or> t = csv_quoted f)"

lemma read_plain:
  "CHR '','' \<notin> set f \<Longrightarrow> CHR 0x22 \<notin> set f \<Longrightarrow>
   foldl csv_step (UnquotedField, fs @ [g]) f = (UnquotedField, fs @ [g @ f])"
  by (induction f arbitrary: g) auto

lemma read_quoted:
  "foldl csv_step (QuotedField, fs @ [g]) (concat (map (\<lambda>c. if c = CHR 0x22 then [c, c] else [c]) f)) =
   (QuotedField, fs @ [g @ f])"
  by (induction f arbitrary: g) auto

lemma read_field:
  "csv_text f t \<Longrightarrow> \<exists>st. foldl csv_step (UnquotedField, fs @ [[]]) t = (st, fs @ [f]) \<and> st \<noteq> QuotedField"
  using read_plain [of f fs "[]"] read_quoted [of fs "[]" f]
  by (auto simp: csv_text_def csv_quoted_def)

lemma read_comma: "st \<noteq> QuotedField \<Longrightarrow> csv_step (st, fs) CHR '','' = (UnquotedField, fs @ [[]])"
  by (cases st) auto

lemma read_fields:
  "list_all2 csv_text fls ts \<Longrightarrow> ts \<noteq> [] \<Longrightarrow>
   snd (foldl csv_step (UnquotedField, fs @ [[]]) (join_with CHR '','' ts)) = fs @ fls"
proof (induction fls ts arbitrary: fs rule: list_all2_induct)
  case (Cons f fls t ts)
  obtain st where st: "foldl csv_step (UnquotedField, fs @ [[]]) t = (st, fs @ [f])" "st \<noteq> QuotedField"
    using read_field [OF Cons.hyps(1)] by blast
  show ?case
  proof (cases ts)
    case Nil
    then show ?thesis using Cons.hyps(2) st by simp
  next
    case (Cons t' ts')
    then show ?thesis
      using Cons.IH [of "fs @ [f]"] st read_comma [OF st(2), of "fs @ [f]"] by simp
  qed
qed simp

text \<open>
  A line of fields that are separated by commas, each either free of commas and quotes
  or in quotes with its own quotes doubled, is read as the list of the fields.
\<close>

theorem csv_row_read_back:
  assumes "list_all2 csv_text fls ts" and "ts \<noteq> []"
  shows "readCSVRow (join_with CHR '','' ts) = fls"
  using read_fields [OF assms, of "[]"] by (simp add: readCSVRow_def)

theorem csv_row_read_back_witness:
  "readCSVRow (''a,'' @ [CHR 0x22] @ ''b,'' @ [CHR 0x22, CHR 0x22] @ ''c'' @ [CHR 0x22] @ '','') =
     [''a'', ''b,'' @ [CHR 0x22] @ ''c'', []]"
proof -
  have "list_all2 csv_text [''a'', ''b,'' @ [CHR 0x22] @ ''c'', []] [''a'', csv_quoted (''b,'' @ [CHR 0x22] @ ''c''), []]"
    by (simp add: csv_text_def)
  from csv_row_read_back [OF this] show ?thesis by (simp add: csv_quoted_def)
qed

text \<open>Lines that end in a line feed are read one by one; what follows the last one is lost.\<close>

lemma line_end: "x \<notin> set l \<Longrightarrow> takeWhile (\<lambda>c. c \<noteq> x) l = l" "x \<notin> set l \<Longrightarrow> takeWhile (\<lambda>c. c \<noteq> x) (l @ x # rest) = l"
  by (auto simp: takeWhile_eq_all_conv takeWhile_tail)

lemma readCSV_line:
  "CHR 0x0A \<notin> set l \<Longrightarrow> readCSV (l @ CHR 0x0A # rest) retval = readCSV rest (retval @ [readCSVRow l])"
  by (subst readCSV.simps) (simp add: line_end Let_def)

lemma readCSV_rest: "CHR 0x0A \<notin> set l \<Longrightarrow> readCSV l retval = retval"
  by (subst readCSV.simps) (simp add: line_end Let_def)

theorem csv_last_line_lost:
  "list_all (\<lambda>l. CHR 0x0A \<notin> set l) (last_line # ls) \<Longrightarrow>
   readCSV (concat (map (\<lambda>l. l @ [CHR 0x0A]) ls) @ last_line) retval = retval @ map readCSVRow ls"
  by (induction ls arbitrary: retval) (simp_all add: readCSV_line readCSV_rest)

subsection \<open>base64url is base64\<close>

text \<open>The standard coding with the other two characters and without the padding.\<close>

definition url_char :: "char \<Rightarrow> char" where
  "url_char c = (if c = CHR ''+'' then CHR ''-'' else if c = CHR ''/'' then CHR ''_'' else c)"

lemma b64_url: "b64 = map url_char b64_chars"
  by code_simp

lemma length_b64_chars: "length b64_chars = 64"
  by code_simp

lemma unat_sixbits: "unat (sixbits n k) < 64"
  using take_bit_nat_less_exp [of 6 "unat (ucast (drop_bit k n) :: byte)"]
  by (simp add: sixbits_def and63 unsigned_take_bit_eq)

lemma url_digit_sixbits: "i = sixbits n k \<Longrightarrow> url_digit i = url_char (b64_char n k)"
  using unat_sixbits [of n k]
  by (simp add: url_digit_def b64_char_def b64_url length_b64_chars sixbits_def)

lemma url_add: "a AND b = 0 \<Longrightarrow> a + b = a OR b" for a b :: byte
  by (rule disjunctive_add_eq_or)

lemma and_low: "0x3 AND a = take_bit 2 a" "0x0f AND a = take_bit 4 a" "0x3f AND a = take_bit 6 a" for a :: byte
  by (simp_all add: take_bit_eq_mask mask_eq_exp_minus_1 and.commute)

lemma url_sums:
  "push_bit 4 (0x3 AND a) + drop_bit 4 b = push_bit 4 (0x3 AND a) OR drop_bit 4 b"
  "push_bit 2 (0x0f AND a) + drop_bit 6 b = push_bit 2 (0x0f AND a) OR drop_bit 6 b" for a b :: byte
  unfolding and_low by (rule url_add; rule bit_word_eqI; auto simp: bit_simps dest!: bit_imp_le_length)+

lemma sixbits_parts:
  fixes a b c :: byte
  defines "n \<equiv> push_bit 16 (ucast a) OR push_bit 8 (ucast b) OR ucast c :: u32"
  shows "drop_bit 2 a = sixbits n 18" "push_bit 4 (0x3 AND a) OR drop_bit 4 b = sixbits n 12"
    "push_bit 2 (0x0f AND b) OR drop_bit 6 c = sixbits n 6" "0x3f AND c = sixbits n 0"
  unfolding and_low n_def
  by (rule bit_word_eqI; auto simp: bit_sixbits bit_simps dest: bit_imp_le_length)+

lemma url_digit_parts:
  fixes a b c :: byte
  defines "n \<equiv> push_bit 16 (ucast a) OR push_bit 8 (ucast b) OR ucast c :: u32"
  shows "url_digit (drop_bit 2 a) = url_char (b64_char n 18)"
    "url_digit (push_bit 4 (0x3 AND a) + drop_bit 4 b) = url_char (b64_char n 12)"
    "url_digit (push_bit 2 (0x0f AND b) + drop_bit 6 c) = url_char (b64_char n 6)"
    "url_digit (0x3f AND c) = url_char (b64_char n 0)"
  unfolding url_sums sixbits_parts [where a = a and b = b and c = c, folded n_def] by (rule url_digit_sixbits, rule refl)+

lemma url_digits_b64: "url_digits data = map url_char (b64_groups data)"
proof (induction data rule: url_digits.induct)
  case (1 b0 b1 b2 s)
  then show ?case
    using url_digit_parts [where a = b0 and b = b1 and c = b2] by (simp add: Let_def)
next
  case (2 b0)
  then show ?case using url_digit_parts [where a = b0 and b = 0 and c = 0] by (simp add: Let_def)
next
  case (3 b0 b1)
  then show ?case using url_digit_parts [where a = b0 and b = b1 and c = 0] by (simp add: Let_def)
qed simp

lemma url_pads [simp]: "url_pad 0 = 0" "url_pad (Suc 0) = 2" "url_pad 2 = 1"
  by code_simp+

lemma url_pad_mod: "url_pad n = url_pad (n mod 3)"
  by (simp add: url_pad_def)

lemma url_length_groups: "r < 3 \<Longrightarrow> url_length (3 * q + r) = 4 * q + (if r = 0 then 0 else r + 1)"
proof -
  assume "r < 3"
  then consider "r = 0" | "r = 1" | "r = 2" by linarith
  then show ?thesis
  proof cases
    case 1
    then show ?thesis using url_pad_mod [of "3 * q"] by (simp add: url_length_def Let_def)
  next
    case 2
    have "4 * (3 * q + 1 + 2) div 3 = 4 * q + 4" by simp
    then show ?thesis using 2 url_pad_mod [of "3 * q + 1"] by (simp add: url_length_def Let_def)
  next
    case 3
    have "(3 * q + 2) mod 3 = 2" by presburger
    then have pad: "url_pad (3 * q + 2) = 1" using url_pad_mod [of "3 * q + 2"] by (simp only: url_pads)
    have "4 * (3 * q + 2 + 1) div 3 = 4 * q + 4" by simp
    then show ?thesis unfolding 3 url_length_def pad Let_def by simp
  qed
qed

lemma url_length_step: "url_length (n + 3) = url_length n + 4"
proof -
  define q r where "q = n div 3" and "r = n mod 3"
  have n: "n = 3 * q + r" "n + 3 = 3 * (q + 1) + r" "r < 3" by (simp_all add: q_def r_def)
  show ?thesis unfolding n(2) url_length_groups [OF n(3)] unfolding n(1) url_length_groups [OF n(3)] by simp
qed

lemma length_url_digits: "length (url_digits data) = url_length (length data)"
proof (induction data rule: url_digits.induct)
  case (1 b0 b1 b2 s)
  then show ?case using url_length_step [of "length s"] by (simp add: numeral_3_eq_3)
qed (use url_length_groups [of 0 0] url_length_groups [of 1 0] url_length_groups [of 2 0] in \<open>simp_all add: numeral_2_eq_2\<close>)

text \<open>
  C22: Base64url_encode writes exactly as many characters as the string it allocates has,
  and they are the characters of the standard coding with - and _ for + and / and without
  padding.
\<close>

theorem base64url_is_base64:
  "base64url_encode data = Inr (map url_char (filter (\<lambda>c. c \<noteq> CHR ''='') (b64_encode data)))"
proof -
  have "list_all (\<lambda>c. c \<noteq> CHR ''='') (b64_groups data)"
    using lookup_char(2) by (induction data rule: b64_groups.induct) (auto simp: Let_def)
  then have "filter (\<lambda>c. c \<noteq> CHR ''='') (b64_encode data) = b64_groups data"
    by (simp add: b64_encode_def list_all_iff)
  then show ?thesis
    using length_url_digits [of data] by (simp add: base64url_encode_def url_digits_b64 Let_def)
qed

subsection \<open>Cells\<close>

text \<open>The number a column name stands for.\<close>

definition column_value :: "string \<Rightarrow> int" where
  "column_value s = foldl (\<lambda>n c. 26 * n + (of_char c - 64)) 0 s"

definition is_capital :: "char \<Rightarrow> bool" where
  "is_capital c = (let n = of_char c :: nat in 65 \<le> n \<and> n \<le> 90)"

lemma foldl_column: "foldl (\<lambda>n c. 26 * n + (of_char c - 64)) a s = 26 ^ length s * a + column_value s" for a :: int
  unfolding column_value_def
proof (induction s arbitrary: a)
  case (Cons c s)
  show ?case
    unfolding foldl_Cons Cons.IH [of "26 * a + (of_char c - 64)"] Cons.IH [of "26 * 0 + (of_char c - 64)"]
    by (simp add: algebra_simps)
qed simp

lemma column_loop_step:
  assumes "0 < n"
  shows "column_loop n s = column_loop ((n - 1) div 26) (char_of (nat ((n - 1) mod 26 + 65)) # s)"
proof -
  have "(n - ((n - 1) mod 26 + 1)) div 26 = (n - 1) div 26"
    by (metis add.commute diff_diff_eq minus_mod_eq_mult_div nonzero_mult_div_cancel_left zero_neq_numeral)
  then show ?thesis using assms by (subst column_loop.simps) (simp add: Let_def)
qed

lemma column_loop_value:
  "0 \<le> n \<Longrightarrow> list_all is_capital s \<Longrightarrow>
   list_all is_capital (column_loop n s) \<and> column_value (column_loop n s) = 26 ^ length s * n + column_value s"
proof (induction n s rule: column_loop.induct)
  case (1 n s)
  show ?case
  proof (cases "0 < n")
    case True
    let ?r = "(n - 1) mod 26"
    let ?c = "char_of (nat (?r + 65)) :: char"
    have r: "0 \<le> ?r" "?r < 26" by simp_all
    then have code: "of_char ?c = nat (?r + 65)"
      by (simp add: of_char_of take_bit_eq_mod nat_less_iff)
    have c: "is_capital ?c" using r by (simp add: is_capital_def code Let_def nat_le_iff le_nat_iff)
    have "of_char ?c = int (nat (?r + 65))" using arg_cong [OF code, of int] by (simp only: of_nat_of_char)
    then have val: "of_char ?c = ?r + 65" using r by (simp only: int_nat_eq) simp
    have loop: "column_loop n s = column_loop ((n - 1) div 26) (?c # s)" by (rule column_loop_step [OF True])
    have div: "(n - ((n - 1) mod 26 + 1)) div 26 = (n - 1) div 26"
      by (metis add.commute diff_diff_eq minus_mod_eq_mult_div nonzero_mult_div_cancel_left zero_neq_numeral)
    have "list_all is_capital (column_loop ((n - 1) div 26) (?c # s)) \<and>
        column_value (column_loop ((n - 1) div 26) (?c # s)) = 26 ^ length (?c # s) * ((n - 1) div 26) + column_value (?c # s)"
      using "1.IH" [OF True refl refl] True c "1.prems" by (simp add: div)
    moreover have "column_value (?c # s) = 26 ^ length s * (?r + 1) + column_value s"
    proof -
      have first: "26 * 0 + (of_char ?c - 64) = ?r + 1" using val by simp
      show ?thesis
        unfolding column_value_def foldl_Cons first using foldl_column [of "?r + 1" s] unfolding column_value_def .
    qed
    moreover have "26 ^ length (?c # s) * ((n - 1) div 26) + 26 ^ length s * (?r + 1) = 26 ^ length s * n"
    proof -
      have n: "26 * ((n - 1) div 26) + (?r + 1) = n" by presburger
      have "26 ^ length (?c # s) * ((n - 1) div 26) = 26 ^ length s * (26 * ((n - 1) div 26))" by simp
      then show ?thesis by (simp only: distrib_left [symmetric] n)
    qed
    ultimately show ?thesis unfolding loop by linarith
  next
    case False
    then show ?thesis using 1 by (subst (1 2) column_loop.simps) simp
  qed
qed

text \<open>An index that can be counted from one without leaving the range of an int.\<close>

definition cell_index :: "u32 \<Rightarrow> bool" where
  "cell_index i = (0 \<le> sint i \<and> i \<noteq> 0x7fffffff)"

lemma cell_index_next:
  assumes "cell_index i"
  shows "sint (i + 1) = sint i + 1"
proof -
  have "sint i < 2 ^ 31" using sint_range_size [of i] by (simp add: word_size)
  moreover have "sint i \<noteq> 2 ^ 31 - 1"
  proof
    assume "sint i = 2 ^ 31 - 1"
    then have "word_of_int (sint i) = (word_of_int (2 ^ 31 - 1) :: u32)" by simp
    then have "i = 0x7fffffff" by simp
    then show False using assms by (simp add: cell_index_def)
  qed
  ultimately show ?thesis using assms by (simp add: cell_index_def sint_word_ariths signed_take_bit_int_eq_self_iff)
qed

lemma columnFromNumber_value:
  assumes "cell_index col"
  shows "list_all is_capital (columnFromNumber col)" and "column_value (columnFromNumber col) = sint col + 1"
  using column_loop_value [of "sint (col + 1)" "[]"] assms
  by (simp_all add: columnFromNumber_def cell_index_next column_value_def cell_index_def)

lemma digit_no_capital: "is_digit c \<Longrightarrow> \<not> is_capital c"
  by (auto simp: is_digit_def is_capital_def Let_def)

lemma split_letters:
  assumes "list_all is_capital s" and "list_all is_digit d" and "d \<noteq> []"
  shows "takeWhile is_capital (s @ d) = s"
  using assms digit_no_capital by (cases d) (auto simp: list_all_iff takeWhile_tail)

text \<open>
  The name A1 gives a cell names no other cell of the sheet, and its letters, read as a
  number with the digits A to Z for 1 to 26, are the column counted from one.
\<close>

theorem A1_names_one_cell:
  assumes "cell_index col" and "cell_index row" and "cell_index col'" and "cell_index row'"
  shows "column_value (columnFromNumber col) = sint col + 1 \<and>
    (A1 sheet col row = A1 sheet col' row' \<longrightarrow> col = col' \<and> row = row')"
proof (intro conjI impI)
  show "column_value (columnFromNumber col) = sint col + 1" using columnFromNumber_value [OF assms(1)] by blast
next
  assume eq: "A1 sheet col row = A1 sheet col' row'"
  have num: "int_str (sint (r + 1)) = dec_str (nat (sint r + 1))" if "cell_index r" for r
    using that by (simp add: cell_index_next int_str_def cell_index_def)
  have digits: "list_all is_digit (dec_str n)" for n using dec_str_digits by (simp add: list_all_iff)
  have same: "columnFromNumber col @ dec_str (nat (sint row + 1)) = columnFromNumber col' @ dec_str (nat (sint row' + 1))"
    using eq assms by (simp add: A1_def num)
  then have letters: "columnFromNumber col = columnFromNumber col'"
    using split_letters [OF columnFromNumber_value(1) digits dec_str_nonempty] assms(1,3) by metis
  then have "sint col = sint col'"
    using columnFromNumber_value(2) assms(1,3) by (metis add_right_cancel)
  moreover have "nat (sint row + 1) = nat (sint row' + 1)"
    using same letters by simp
  then have "sint row = sint row'" using assms(2,4) unfolding cell_index_def by linarith
  ultimately show "col = col'" "row = row'" by (simp_all add: signed_word_eqI)
qed

theorem A1_names_one_cell_witness:
  "A1 ''s'' 27 9 = ''s!AB10'' \<and> column_value (columnFromNumber 27) = 28"
proof -
  have "A1 ''s'' 27 9 = ''s!AB10''" by code_simp
  moreover have "cell_index 27" "cell_index 9" by code_simp+
  ultimately show ?thesis using A1_names_one_cell [of 27 9 27 9 "''s''"] by simp
qed

end
