(* ===== verification/JsonCpp.thy ===== *)
theory JsonCpp
  imports PacketVar
begin

section \<open>The JSON library\<close>

text \<open>
  The part of jsoncpp.cpp that the spreadsheet client uses: Json::Reader with its default
  features (comments are allowed, a value need not be an object or an array), Json::FastWriter
  and the accessors of Json::Value. Comments are read and not kept: the writer ignores them.
\<close>

unbundle bit_operations_syntax

subsection \<open>Values\<close>

text \<open>
  The types of json.h. An object is a std::map, that is a list sorted by name. A double is
  its 64 bits.
\<close>

datatype jcvalue =
    NullValue
  | IntValue int
  | UintValue nat
  | RealValue u64
  | StringValue string
  | BooleanValue bool
  | ArrayValue "jcvalue list"
  | ObjectValue "(string \<times> jcvalue) list"

text \<open>
  What the library takes from the C++ library: reading a double from a stream and printing it
  with seventeen digits, whether a double is an int, and the conversion to an int of one in its range.
\<close>

record double_text =
  scan_double :: "string \<Rightarrow> u64 option"
  print_double :: "u64 \<Rightarrow> string"
  integral_int32 :: "u64 \<Rightarrow> bool"
  trunc_int32 :: "u64 \<Rightarrow> int option"

definition find_member :: "string \<Rightarrow> jcvalue \<Rightarrow> jcvalue option result" where
  "find_member key v =
     (case v of
        NullValue \<Rightarrow> Inr None
      | ObjectValue ms \<Rightarrow> Inr (map_of ms key)
      | _ \<Rightarrow> Inl (Thrown ''in Json::Value::find(key, end, found): requires objectValue or nullValue''))"

definition isMember :: "string \<Rightarrow> jcvalue \<Rightarrow> bool result" where
  "isMember key v = bindR (find_member key v) (\<lambda>found. Inr (found \<noteq> None))"

definition get_member :: "string \<Rightarrow> jcvalue \<Rightarrow> jcvalue \<Rightarrow> jcvalue result" where
  "get_member key defaultValue v =
     bindR (find_member key v) (\<lambda>found. Inr (case found of None \<Rightarrow> defaultValue | Some w \<Rightarrow> w))"

text \<open>The subscript operator of a value that may be changed: it inserts what it does not find.\<close>

definition resolveReference :: "string \<Rightarrow> jcvalue \<Rightarrow> (jcvalue \<times> jcvalue) result" where
  "resolveReference key v =
     (case (case v of NullValue \<Rightarrow> ObjectValue [] | _ \<Rightarrow> v) of
        ObjectValue ms \<Rightarrow>
          Inr (case map_of ms key of
                 Some w \<Rightarrow> (w, ObjectValue ms)
               | None \<Rightarrow> (NullValue, ObjectValue (smap_put key NullValue ms)))
      | _ \<Rightarrow> Inl (Thrown ''in Json::Value::resolveReference(key, end): requires objectValue''))"

definition put_member :: "string \<Rightarrow> jcvalue \<Rightarrow> jcvalue \<Rightarrow> jcvalue result" where
  "put_member key w v =
     bindR (resolveReference key v)
       (\<lambda>(u, v'). case v' of ObjectValue ms \<Rightarrow> Inr (ObjectValue (smap_put key w ms)) | _ \<Rightarrow> Inr v')"

definition append_value :: "jcvalue \<Rightarrow> jcvalue \<Rightarrow> jcvalue result" where
  "append_value v w =
     (case v of
        NullValue \<Rightarrow> Inr (ArrayValue [w])
      | ArrayValue vs \<Rightarrow> Inr (ArrayValue (vs @ [w]))
      | _ \<Rightarrow> Inl (Thrown ''in Json::Value::operator[](ArrayIndex): requires arrayValue''))"

text \<open>What the iterators begin and end of a value visit.\<close>

fun elements :: "jcvalue \<Rightarrow> jcvalue list" where
  "elements (ArrayValue vs) = vs"
| "elements (ObjectValue ms) = map snd ms"
| "elements v = []"

fun asString :: "double_text \<Rightarrow> jcvalue \<Rightarrow> string result" where
  "asString dt NullValue = Inr []"
| "asString dt (StringValue s) = Inr s"
| "asString dt (BooleanValue b) = Inr (if b then ''true'' else ''false'')"
| "asString dt (IntValue i) = Inr (int_str i)"
| "asString dt (UintValue n) = Inr (dec_str n)"
| "asString dt (RealValue d) = Inr (print_double dt d)"
| "asString dt v = Inl (Thrown ''Type is not convertible to string'')"

definition int32 :: "int \<Rightarrow> bool" where
  "int32 i = (- 2147483648 \<le> i \<and> i \<le> 2147483647)"

fun isInt :: "double_text \<Rightarrow> jcvalue \<Rightarrow> bool" where
  "isInt dt (IntValue i) = int32 i"
| "isInt dt (UintValue n) = (n \<le> 2147483647)"
| "isInt dt (RealValue d) = integral_int32 dt d"
| "isInt dt v = False"

fun asInt :: "double_text \<Rightarrow> jcvalue \<Rightarrow> int result" where
  "asInt dt (IntValue i) = (if int32 i then Inr i else Inl (Thrown ''LargestInt out of Int range''))"
| "asInt dt (UintValue n) =
     (if n \<le> 2147483647 then Inr (int n) else Inl (Thrown ''LargestUInt out of Int range''))"
| "asInt dt (RealValue d) =
     (case trunc_int32 dt d of
        None \<Rightarrow> Inl (Thrown ''double out of Int range'')
      | Some i \<Rightarrow> Inr i)"
| "asInt dt NullValue = Inr 0"
| "asInt dt (BooleanValue b) = Inr (if b then 1 else 0)"
| "asInt dt v = Inl (Thrown ''Value is not convertible to Int.'')"

subsection \<open>Writing\<close>

definition json_special :: "char \<Rightarrow> bool" where
  "json_special c = (c \<in> {CHR 0x22, CHR 0x5C, CHR 0x08, CHR 0x0C, CHR 0x0A, CHR 0x0D, CHR 0x09})"

definition isControlCharacter :: "char \<Rightarrow> bool" where
  "isControlCharacter c = (0 < (of_char c :: nat) \<and> (of_char c :: nat) \<le> 0x1F)"

definition hex_upper :: "nat \<Rightarrow> char" where
  "hex_upper d = (if d < 10 then char_of (48 + d) else char_of (55 + d))"

definition u_escape :: "nat \<Rightarrow> string" where
  "u_escape n = [CHR 0x5C, CHR ''u'', hex_upper (n div 4096 mod 16), hex_upper (n div 256 mod 16),
     hex_upper (n div 16 mod 16), hex_upper (n mod 16)]"

definition escape_char :: "char \<Rightarrow> string" where
  "escape_char c =
     (if c = CHR 0x22 then [CHR 0x5C, CHR 0x22]
      else if c = CHR 0x5C then [CHR 0x5C, CHR 0x5C]
      else if c = CHR 0x08 then [CHR 0x5C, CHR ''b'']
      else if c = CHR 0x0C then [CHR 0x5C, CHR ''f'']
      else if c = CHR 0x0A then [CHR 0x5C, CHR ''n'']
      else if c = CHR 0x0D then [CHR 0x5C, CHR ''r'']
      else if c = CHR 0x09 then [CHR 0x5C, CHR ''t'']
      else if isControlCharacter c \<or> c = CHR 0x00 then u_escape (of_char c)
      else [c])"

text \<open>A text without special characters is appended as a C string.\<close>

definition valueToQuotedStringN :: "string \<Rightarrow> string" where
  "valueToQuotedStringN s =
     (if list_all (\<lambda>c. \<not> json_special c) s \<and>
         list_all (\<lambda>c. \<not> (isControlCharacter c \<or> c = CHR 0x00)) s
      then [CHR 0x22] @ takeWhile (\<lambda>c. c \<noteq> CHR 0x00) s @ [CHR 0x22]
      else [CHR 0x22] @ concat (map escape_char s) @ [CHR 0x22])"

fun writeValue :: "double_text \<Rightarrow> jcvalue \<Rightarrow> string"
  and write_elements :: "double_text \<Rightarrow> bool \<Rightarrow> jcvalue list \<Rightarrow> string"
  and write_members :: "double_text \<Rightarrow> bool \<Rightarrow> (string \<times> jcvalue) list \<Rightarrow> string" where
  "writeValue dt NullValue = ''null''"
| "writeValue dt (IntValue i) = int_str i"
| "writeValue dt (UintValue n) = dec_str n"
| "writeValue dt (RealValue d) = print_double dt d"
| "writeValue dt (StringValue s) = valueToQuotedStringN s"
| "writeValue dt (BooleanValue b) = (if b then ''true'' else ''false'')"
| "writeValue dt (ArrayValue vs) = ''['' @ write_elements dt True vs @ '']''"
| "writeValue dt (ObjectValue ms) = ''{'' @ write_members dt True ms @ ''}''"
| "write_elements dt fst_one [] = []"
| "write_elements dt fst_one (v # vs) =
     (if fst_one then [] else '','') @ writeValue dt v @ write_elements dt False vs"
| "write_members dt fst_one [] = []"
| "write_members dt fst_one ((name, v) # ms) =
     (if fst_one then [] else '','') @ valueToQuotedStringN name @ '':'' @ writeValue dt v @
     write_members dt False ms"

definition fast_write :: "double_text \<Rightarrow> jcvalue \<Rightarrow> string" where
  "fast_write dt v = writeValue dt v @ [CHR 0x0A]"

subsection \<open>Tokens\<close>

datatype token_type =
    TokenEndOfStream | TokenObjectBegin | TokenObjectEnd | TokenArrayBegin | TokenArrayEnd
  | TokenString | TokenNumber | TokenTrue | TokenFalse | TokenNull
  | TokenArraySeparator | TokenMemberSeparator | TokenComment | TokenError

text \<open>
  The place of the reader is what is left of the document. Reading at the end of the document
  gives a NUL and stays there.
\<close>

definition getNextChar :: "string \<Rightarrow> char \<times> string" where
  "getNextChar cs = (case cs of [] \<Rightarrow> (CHR 0x00, []) | c # r \<Rightarrow> (c, r))"

definition json_space :: "char \<Rightarrow> bool" where
  "json_space c = (c \<in> {CHR 0x20, CHR 0x09, CHR 0x0D, CHR 0x0A})"

definition skipSpaces :: "string \<Rightarrow> string" where
  "skipSpaces cs = dropWhile json_space cs"

definition match_word :: "string \<Rightarrow> string \<Rightarrow> bool \<times> string" where
  "match_word pattern cs =
     (if length cs < length pattern then (False, cs)
      else if take (length pattern) cs = pattern then (True, drop (length pattern) cs)
      else (False, cs))"

fun readCStyleComment :: "string \<Rightarrow> bool \<times> string" where
  "readCStyleComment [] = (False, [])"
| "readCStyleComment (c # r) =
     (if c = CHR ''*'' \<and> take 1 r = ''/'' then (True, tl r) else readCStyleComment r)"

fun readCppStyleComment :: "string \<Rightarrow> bool \<times> string" where
  "readCppStyleComment [] = (True, [])"
| "readCppStyleComment (c # r) =
     (if c = CHR 0x0A then (True, r)
      else if c = CHR 0x0D then (True, if take 1 r = [CHR 0x0A] then tl r else r)
      else readCppStyleComment r)"

definition readComment :: "string \<Rightarrow> bool \<times> string" where
  "readComment cs =
     (let (c, r) = getNextChar cs
      in if c = CHR ''*'' then readCStyleComment r
         else if c = CHR ''/'' then readCppStyleComment r
         else (False, r))"

definition exponent :: "string \<Rightarrow> string" where
  "exponent cs = dropWhile is_digit (if take 1 cs = ''+'' \<or> take 1 cs = ''-'' then tl cs else cs)"

text \<open>What is left after a number whose first character has been read.\<close>

definition readNumber :: "string \<Rightarrow> string" where
  "readNumber cs =
     (let r = dropWhile is_digit cs;
          r1 = (if take 1 r = ''.'' then dropWhile is_digit (tl r) else r)
      in if take 1 r1 = ''e'' \<or> take 1 r1 = ''E'' then exponent (tl r1) else r1)"

fun readString :: "string \<Rightarrow> bool \<times> string" where
  "readString [] = (False, [])"
| "readString (c # r) =
     (if c = CHR 0x5C then readString (tl r)
      else if c = CHR 0x22 then (True, r)
      else readString r)"

definition or_error :: "token_type \<Rightarrow> bool \<times> string \<Rightarrow> token_type \<times> string" where
  "or_error t ok_rest = (if fst ok_rest then t else TokenError, snd ok_rest)"

definition scan_token :: "char \<Rightarrow> string \<Rightarrow> token_type \<times> string" where
  "scan_token c r =
     (if c = CHR ''{'' then (TokenObjectBegin, r)
      else if c = CHR ''}'' then (TokenObjectEnd, r)
      else if c = CHR ''['' then (TokenArrayBegin, r)
      else if c = CHR '']'' then (TokenArrayEnd, r)
      else if c = CHR 0x22 then or_error TokenString (readString r)
      else if c = CHR ''/'' then or_error TokenComment (readComment r)
      else if is_digit c \<or> c = CHR ''-'' then (TokenNumber, readNumber r)
      else if c = CHR ''t'' then or_error TokenTrue (match_word ''rue'' r)
      else if c = CHR ''f'' then or_error TokenFalse (match_word ''alse'' r)
      else if c = CHR ''n'' then or_error TokenNull (match_word ''ull'' r)
      else if c = CHR '','' then (TokenArraySeparator, r)
      else if c = CHR '':'' then (TokenMemberSeparator, r)
      else if c = CHR 0x00 then (TokenEndOfStream, r)
      else (TokenError, r))"

text \<open>A token is its type, its text and what is left after it.\<close>

definition readToken :: "string \<Rightarrow> token_type \<times> string \<times> string" where
  "readToken cs =
     (let start = skipSpaces cs; (c, r) = getNextChar start; (t, rest) = scan_token c r
      in (t, take (length start - length rest) start, rest))"

text \<open>Every token but the end of the document takes characters from it.\<close>

lemma skipSpaces_shorter: "length (skipSpaces cs) \<le> length cs"
  by (simp add: skipSpaces_def length_dropWhile_le)

lemma readCStyleComment_shorter: "length (snd (readCStyleComment cs)) \<le> length cs"
  by (induction cs rule: readCStyleComment.induct) auto

lemma readCppStyleComment_shorter: "length (snd (readCppStyleComment cs)) \<le> length cs"
  by (induction cs rule: readCppStyleComment.induct) auto

lemma readComment_shorter: "length (snd (readComment cs)) \<le> length cs"
proof (cases cs)
  case (Cons c r)
  then show ?thesis
    using readCStyleComment_shorter [of r] readCppStyleComment_shorter [of r]
    by (simp add: readComment_def getNextChar_def le_SucI)
qed (simp add: readComment_def getNextChar_def)

lemma drop_tl_shorter: "length (dropWhile P (tl cs)) \<le> length cs"
  using length_dropWhile_le [of P "tl cs"] by simp

lemma exponent_shorter: "length (exponent cs) \<le> length cs"
  by (simp add: exponent_def length_dropWhile_le drop_tl_shorter)

lemma readNumber_shorter: "length (readNumber cs) \<le> length cs"
proof -
  let ?r = "dropWhile is_digit cs"
  let ?r1 = "if take 1 ?r = ''.'' then dropWhile is_digit (tl ?r) else ?r"
  have r1: "length ?r1 \<le> length cs"
    using length_dropWhile_le [of is_digit cs] drop_tl_shorter [of is_digit ?r] by simp
  have "length (exponent (tl ?r1)) \<le> length ?r1"
    using exponent_shorter [of "tl ?r1"] by simp
  with r1 show ?thesis by (simp add: readNumber_def Let_def)
qed

lemma readString_shorter: "length (snd (readString cs)) \<le> length cs"
  by (induction cs rule: readString.induct) auto

lemma match_word_shorter: "length (snd (match_word p cs)) \<le> length cs"
  by (simp add: match_word_def)

lemma scan_token_shorter: "length (snd (scan_token c r)) \<le> length r"
  by (simp add: scan_token_def or_error_def readString_shorter readComment_shorter readNumber_shorter
      match_word_shorter)

lemma scan_token_end: "fst (scan_token CHR 0x00 r) = TokenEndOfStream"
  by (simp add: scan_token_def is_digit_def)

lemma readToken_rest:
  "readToken cs = (t, txt, rest) \<Longrightarrow> skipSpaces cs = c # r \<Longrightarrow> scan_token c r = (t, rest)"
  by (auto simp: readToken_def getNextChar_def split: prod.splits)

lemma readToken_end: "skipSpaces cs = [] \<Longrightarrow> readToken cs = (TokenEndOfStream, [], [])"
  by (simp add: readToken_def getNextChar_def scan_token_def is_digit_def)

lemma readToken_less:
  assumes "readToken cs = (t, txt, rest)" "t \<noteq> TokenEndOfStream"
  shows "length rest < length cs"
proof (cases "skipSpaces cs")
  case Nil
  then show ?thesis using assms by (simp add: readToken_end)
next
  case (Cons c r)
  from readToken_rest [OF assms(1) Cons] have "rest = snd (scan_token c r)" by simp
  with scan_token_shorter [of c r] skipSpaces_shorter [of cs] show ?thesis by (simp add: Cons)
qed

lemma readToken_le: "readToken cs = (t, txt, rest) \<Longrightarrow> length rest \<le> length cs"
proof (cases "skipSpaces cs")
  case (Cons c r)
  assume "readToken cs = (t, txt, rest)"
  from readToken_rest [OF this Cons] have "rest = snd (scan_token c r)" by simp
  with scan_token_shorter [of c r] skipSpaces_shorter [of cs] show ?thesis by (simp add: Cons)
qed (simp add: readToken_end)

function skipCommentTokens :: "string \<Rightarrow> token_type \<times> string \<times> string" where
  "skipCommentTokens cs =
     (case readToken cs of (t, txt, rest) \<Rightarrow>
        if t = TokenComment then skipCommentTokens rest else (t, txt, rest))"
  by pat_completeness auto

termination
  by (relation "measure length") (auto dest: readToken_less [OF sym])

declare skipCommentTokens.simps [simp del]

subsection \<open>Numbers and texts\<close>

datatype json_error = StackLimit | Syntax string | Stuck

fun bindE :: "'e + 'a \<Rightarrow> ('a \<Rightarrow> 'e + 'b) \<Rightarrow> 'e + 'b" where
  "bindE (Inl e) f = Inl e"
| "bindE (Inr x) f = f x"

lemma bindE_Inr_iff [simp]: "bindE r f = Inr y \<longleftrightarrow> (\<exists>x. r = Inr x \<and> f x = Inr y)"
  by (cases r) auto

definition decodeDouble :: "double_text \<Rightarrow> string \<Rightarrow> json_error + jcvalue" where
  "decodeDouble dt t =
     (case scan_double dt t of
        None \<Rightarrow> Inl (Syntax ([CHR 0x27] @ t @ [CHR 0x27] @ '' is not a number.''))
      | Some d \<Rightarrow> Inr (RealValue d))"

text \<open>
  The digits of an integer. The value is a 64-bit unsigned integer; the test against the
  threshold keeps it below the limit, so it does not wrap around.
\<close>

fun decode_digits :: "nat \<Rightarrow> nat \<Rightarrow> string \<Rightarrow> nat option" where
  "decode_digits maxIntegerValue v [] = Some v"
| "decode_digits maxIntegerValue v (c # cs) =
     (let threshold = maxIntegerValue div 10; d = digit_val c
      in if \<not> is_digit c then None
         else if threshold \<le> v \<and> (threshold < v \<or> cs \<noteq> [] \<or> maxIntegerValue mod 10 < d) then None
         else decode_digits maxIntegerValue (v * 10 + d) cs)"

definition decodeNumber :: "double_text \<Rightarrow> string \<Rightarrow> json_error + jcvalue" where
  "decodeNumber dt t =
     (let isNegative = (take 1 t = ''-'');
          maxIntegerValue = (if isNegative then 9223372036854775808 else 18446744073709551615)
      in case decode_digits maxIntegerValue 0 (if isNegative then tl t else t) of
           None \<Rightarrow> decodeDouble dt t
         | Some v \<Rightarrow> Inr
             (if isNegative \<and> v = maxIntegerValue then IntValue (- 9223372036854775808)
              else if isNegative then IntValue (- int v)
              else if v \<le> 2147483647 then IntValue (int v)
              else UintValue v))"

definition hex_value :: "char \<Rightarrow> nat option" where
  "hex_value c =
     (let n = of_char c
      in if 48 \<le> n \<and> n \<le> 57 then Some (n - 48)
         else if 97 \<le> n \<and> n \<le> 102 then Some (n - 97 + 10)
         else if 65 \<le> n \<and> n \<le> 70 then Some (n - 65 + 10)
         else None)"

fun unicode_digits :: "nat \<Rightarrow> nat \<Rightarrow> string \<Rightarrow> (nat \<times> string) option" where
  "unicode_digits 0 unicode cs = Some (unicode, cs)"
| "unicode_digits (Suc n) unicode [] = None"
| "unicode_digits (Suc n) unicode (c # cs) =
     (case hex_value c of
        None \<Rightarrow> None
      | Some d \<Rightarrow> unicode_digits n (unicode * 16 + d) cs)"

definition decodeUnicodeEscapeSequence :: "string \<Rightarrow> json_error + nat \<times> string" where
  "decodeUnicodeEscapeSequence cs =
     (if length cs < 4
      then Inl (Syntax ''Bad unicode escape sequence in string: four digits expected.'')
      else case unicode_digits 4 0 cs of
             None \<Rightarrow>
               Inl (Syntax ''Bad unicode escape sequence in string: hexadecimal digit expected.'')
           | Some ur \<Rightarrow> Inr ur)"

text \<open>The second half of a pair may be any four digits.\<close>

definition decodeUnicodeCodePoint :: "string \<Rightarrow> json_error + nat \<times> string" where
  "decodeUnicodeCodePoint cs =
     bindE (decodeUnicodeEscapeSequence cs) (\<lambda>(unicode, r).
       if 0xD800 \<le> unicode \<and> unicode \<le> 0xDBFF
       then
         if length r < 6
         then Inl (Syntax ''additional six characters expected to parse unicode surrogate pair.'')
         else if take 2 r = [CHR 0x5C, CHR ''u'']
         then bindE (decodeUnicodeEscapeSequence (drop 2 r)) (\<lambda>(surrogatePair, r').
                Inr (0x10000 + push_bit 10 (unicode AND 0x3FF) + (surrogatePair AND 0x3FF), r'))
         else Inl (Syntax (''expecting another '' @ [CHR 0x5C] @
                ''u token to begin the second half of a unicode surrogate pair''))
       else Inr (unicode, r))"

definition codePointToUTF8 :: "nat \<Rightarrow> string" where
  "codePointToUTF8 cp =
     (if cp \<le> 0x7f then [char_of cp]
      else if cp \<le> 0x7FF
      then [char_of (0xC0 OR (0x1f AND drop_bit 6 cp)), char_of (0x80 OR (0x3f AND cp))]
      else if cp \<le> 0xFFFF
      then [char_of (0xE0 OR (0xf AND drop_bit 12 cp)), char_of (0x80 OR (0x3f AND drop_bit 6 cp)),
            char_of (0x80 OR (0x3f AND cp))]
      else if cp \<le> 0x10FFFF
      then [char_of (0xF0 OR (0x7 AND drop_bit 18 cp)), char_of (0x80 OR (0x3f AND drop_bit 12 cp)),
            char_of (0x80 OR (0x3f AND drop_bit 6 cp)), char_of (0x80 OR (0x3f AND cp))]
      else [])"

definition simple_escape :: "char \<Rightarrow> char option" where
  "simple_escape c =
     (if c = CHR 0x22 then Some CHR 0x22
      else if c = CHR ''/'' then Some CHR ''/''
      else if c = CHR 0x5C then Some CHR 0x5C
      else if c = CHR ''b'' then Some CHR 0x08
      else if c = CHR ''f'' then Some CHR 0x0C
      else if c = CHR ''n'' then Some CHR 0x0A
      else if c = CHR ''r'' then Some CHR 0x0D
      else if c = CHR ''t'' then Some CHR 0x09
      else None)"

lemma unicode_digits_shorter: "unicode_digits n u cs = Some (v, r) \<Longrightarrow> length r \<le> length cs"
  by (induction n u cs rule: unicode_digits.induct) (auto split: option.splits)

lemma decodeUnicodeEscapeSequence_shorter:
  "decodeUnicodeEscapeSequence cs = Inr (u, r) \<Longrightarrow> length r \<le> length cs"
  by (auto simp: decodeUnicodeEscapeSequence_def dest: unicode_digits_shorter split: if_splits option.splits)

lemma decodeUnicodeCodePoint_shorter:
  "decodeUnicodeCodePoint cs = Inr (u, r) \<Longrightarrow> length r \<le> length cs"
  by (fastforce simp: decodeUnicodeCodePoint_def split: if_splits
      dest: decodeUnicodeEscapeSequence_shorter)

function decode_chars :: "string \<Rightarrow> string \<Rightarrow> json_error + string" where
  "decode_chars cs decoded =
     (case cs of
        [] \<Rightarrow> Inr decoded
      | c # r \<Rightarrow>
          if c = CHR 0x22 then Inr decoded
          else if c = CHR 0x5C then
            (case r of
               [] \<Rightarrow> Inl (Syntax ''Empty escape sequence in string'')
             | e # r' \<Rightarrow>
                 if e = CHR ''u'' then
                   (case decodeUnicodeCodePoint r' of
                      Inl er \<Rightarrow> Inl er
                    | Inr (unicode, r'') \<Rightarrow> decode_chars r'' (decoded @ codePointToUTF8 unicode))
                 else
                   (case simple_escape e of
                      None \<Rightarrow> Inl (Syntax ''Bad escape sequence in string'')
                    | Some d \<Rightarrow> decode_chars r' (decoded @ [d])))
          else decode_chars r (decoded @ [c]))"
  by pat_completeness auto

termination
  by (relation "measure (\<lambda>(cs, decoded). length cs)") (auto dest: decodeUnicodeCodePoint_shorter)

declare decode_chars.simps [simp del]

text \<open>The text of a token is between its quotes.\<close>

definition decodeString :: "string \<Rightarrow> json_error + string" where
  "decodeString t = decode_chars (butlast (tl t)) []"

subsection \<open>Reading\<close>

text \<open>
  The depth of the reader is limited, so the model reads a value with the number of levels that
  are left. Every failure ends the whole reading: recovering from it only skips tokens.
\<close>

definition finalizeToken :: "token_type \<times> string \<times> string \<Rightarrow> token_type \<times> string \<times> string" where
  "finalizeToken token = (if fst token = TokenComment then skipCommentTokens (snd (snd token)) else token)"

function object_members ::
  "(string \<Rightarrow> json_error + jcvalue \<times> string) \<Rightarrow> string \<Rightarrow> (string \<times> jcvalue) list \<Rightarrow> string \<Rightarrow>
     json_error + jcvalue \<times> string" where
  "object_members rv name ms cs =
     (case skipCommentTokens cs of (t, txt, r) \<Rightarrow>
        if t = TokenObjectEnd \<and> name = [] then Inr (ObjectValue ms, r)
        else if t \<noteq> TokenString then Inl (Syntax ''Missing '}' or object member name'')
        else
          (case decodeString txt of
             Inl e \<Rightarrow> Inl e
           | Inr name' \<Rightarrow>
               (case readToken r of (colon, txt1, r1) \<Rightarrow>
                  if colon \<noteq> TokenMemberSeparator
                  then Inl (Syntax ''Missing ':' after object member name'')
                  else
                    (case rv r1 of
                       Inl e \<Rightarrow> Inl e
                     | Inr (v, r2) \<Rightarrow>
                         (case readToken r2 of (comma, txt3, r3) \<Rightarrow>
                            if comma \<notin> {TokenObjectEnd, TokenArraySeparator, TokenComment}
                            then Inl (Syntax ''Missing ',' or '}' in object declaration'')
                            else
                              (case finalizeToken (comma, txt3, r3) of (comma', txt4, r4) \<Rightarrow>
                                 if comma' = TokenObjectEnd
                                 then Inr (ObjectValue (smap_put name' v ms), r4)
                                 else if length r4 < length cs
                                 then object_members rv name' (smap_put name' v ms) r4
                                 else Inl Stuck))))))"
  by pat_completeness auto

termination
  by (relation "measure (\<lambda>(rv, name, ms, cs). length cs)") auto

declare object_members.simps [simp del]

function array_items ::
  "(string \<Rightarrow> json_error + jcvalue \<times> string) \<Rightarrow> jcvalue list \<Rightarrow> string \<Rightarrow>
     json_error + jcvalue \<times> string" where
  "array_items rv vs cs =
     (case rv cs of
        Inl e \<Rightarrow> Inl e
      | Inr (v, r) \<Rightarrow>
          (case skipCommentTokens r of (t, txt, r') \<Rightarrow>
             if t = TokenArrayEnd then Inr (ArrayValue (vs @ [v]), r')
             else if t \<noteq> TokenArraySeparator
             then Inl (Syntax ''Missing ',' or ']' in array declaration'')
             else if length r' < length cs then array_items rv (vs @ [v]) r'
             else Inl Stuck))"
  by pat_completeness auto

termination
  by (relation "measure (\<lambda>(rv, vs, cs). length cs)") auto

declare array_items.simps [simp del]

definition readArray ::
  "(string \<Rightarrow> json_error + jcvalue \<times> string) \<Rightarrow> string \<Rightarrow> json_error + jcvalue \<times> string" where
  "readArray rv cs =
     (let r = skipSpaces cs
      in if take 1 r = '']'' then Inr (ArrayValue [], tl r) else array_items rv [] r)"

fun readValue :: "double_text \<Rightarrow> nat \<Rightarrow> string \<Rightarrow> json_error + jcvalue \<times> string" where
  "readValue dt 0 cs = Inl StackLimit"
| "readValue dt (Suc n) cs =
     (case skipCommentTokens cs of (t, txt, r) \<Rightarrow>
        (case t of
           TokenObjectBegin \<Rightarrow> object_members (readValue dt n) [] [] r
         | TokenArrayBegin \<Rightarrow> readArray (readValue dt n) r
         | TokenNumber \<Rightarrow> bindE (decodeNumber dt txt) (\<lambda>v. Inr (v, r))
         | TokenString \<Rightarrow> bindE (decodeString txt) (\<lambda>s. Inr (StringValue s, r))
         | TokenTrue \<Rightarrow> Inr (BooleanValue True, r)
         | TokenFalse \<Rightarrow> Inr (BooleanValue False, r)
         | TokenNull \<Rightarrow> Inr (NullValue, r)
         | _ \<Rightarrow> Inl (Syntax ''Syntax error: value, object or array expected.'')))"

text \<open>
  What follows the first value is not looked at. The reader returns true and the value, returns
  false, or throws.
\<close>

definition json_parse :: "double_text \<Rightarrow> string \<Rightarrow> jcvalue option result" where
  "json_parse dt document =
     (case readValue dt 1000 document of
        Inl e \<Rightarrow>
          if e = StackLimit then Inl (Thrown ''Exceeded stackLimit in readValue().'') else Inr None
      | Inr (v, r) \<Rightarrow> Inr (Some v))"

section \<open>The reader returns\<close>

text \<open>
  Every value takes characters from the document, so the loops over members and elements end.
\<close>

lemma skipCommentTokens_less:
  "skipCommentTokens cs = (t, tx, r) \<Longrightarrow> t \<noteq> TokenEndOfStream \<Longrightarrow> length r < length cs"
proof (induction cs rule: skipCommentTokens.induct)
  case (1 cs)
  show ?case
  proof (cases "readToken cs")
    case (fields t1 txt1 r1)
    show ?thesis
    proof (cases "t1 = TokenComment")
      case True
      have "length r < length r1"
        using "1.IH" [OF fields [symmetric] refl True] "1.prems"
        by (simp add: skipCommentTokens.simps [of cs] fields True)
      then show ?thesis using readToken_less [OF fields] True by simp
    next
      case False
      then show ?thesis using "1.prems" readToken_less [OF fields]
        by (simp add: skipCommentTokens.simps [of cs] fields)
    qed
  qed
qed

definition progress :: "(string \<Rightarrow> json_error + 'a \<times> string) \<Rightarrow> bool" where
  "progress rv = (\<forall>cs. rv cs \<noteq> Inl Stuck \<and> (\<forall>v r. rv cs = Inr (v, r) \<longrightarrow> length r < length cs))"

lemma progressD:
  "progress rv \<Longrightarrow> rv cs \<noteq> Inl Stuck" "progress rv \<Longrightarrow> rv cs = Inr (v, r) \<Longrightarrow> length r < length cs"
  by (auto simp: progress_def)

lemma decode_chars_not_stuck: "decode_chars cs d \<noteq> Inl Stuck"
proof (induction cs d rule: decode_chars.induct)
  case (1 cs d)
  have "decodeUnicodeCodePoint r \<noteq> Inl Stuck" for r
    by (cases "decodeUnicodeEscapeSequence r"; cases "decodeUnicodeEscapeSequence (drop 2 (snd (projr (decodeUnicodeEscapeSequence r))))")
      (auto simp: decodeUnicodeCodePoint_def decodeUnicodeEscapeSequence_def split: if_splits option.splits)
  then show ?case using 1
    by (subst decode_chars.simps) (auto split: list.splits option.splits sum.splits if_splits)
qed

lemma skipCommentTokens_le: "skipCommentTokens cs = (t, tx, r) \<Longrightarrow> length r \<le> length cs"
proof (induction cs rule: skipCommentTokens.induct)
  case (1 cs)
  show ?case
  proof (cases "readToken cs")
    case (fields t1 txt1 r1)
    then show ?thesis
      using "1.IH" [OF fields [symmetric] refl] "1.prems" readToken_le [OF fields]
      by (cases "t1 = TokenComment") (auto simp: skipCommentTokens.simps [of cs])
  qed
qed

lemma decodeString_not_stuck: "decodeString t \<noteq> Inl Stuck"
  by (simp add: decodeString_def decode_chars_not_stuck)

lemma object_members_progress:
  assumes rv: "progress rv"
  shows "progress (object_members rv name ms)"
proof -
  have "object_members rv name ms cs \<noteq> Inl Stuck \<and>
    (\<forall>v r. object_members rv name ms cs = Inr (v, r) \<longrightarrow> length r < length cs)" for cs
  proof (induction "length cs" arbitrary: name ms cs rule: less_induct)
    case less
    obtain t tx r where a: "skipCommentTokens cs = (t, tx, r)" by (cases "skipCommentTokens cs")
    obtain colon txt1 r1 where b: "readToken r = (colon, txt1, r1)" by (cases "readToken r")
    show ?case
    proof (cases "t = TokenString \<and> colon = TokenMemberSeparator")
      case True
      with skipCommentTokens_less [OF a] readToken_less [OF b]
      have lens: "length r < length cs" "length r1 < length r" by simp_all
      show ?thesis
      proof (cases "rv r1")
        case (Inl e)
        then show ?thesis using True progressD(1) [OF rv, of r1] decodeString_not_stuck [of tx]
          by (subst (1 2) object_members.simps) (auto simp: a b split: sum.splits)
      next
        case (Inr vr)
        then obtain v r2 where vr: "rv r1 = Inr (v, r2)" by (cases vr) auto
        obtain comma txt3 r3 where c: "readToken r2 = (comma, txt3, r3)" by (cases "readToken r2")
        obtain comma' txt4 r4 where d: "finalizeToken (comma, txt3, r3) = (comma', txt4, r4)"
          by (cases "finalizeToken (comma, txt3, r3)")
        have "length r4 \<le> length r3"
          using d skipCommentTokens_le [of r3] by (auto simp: finalizeToken_def split: if_splits)
        with lens progressD(2) [OF rv vr] readToken_le [OF c] have len: "length r4 < length cs" by simp
        show ?thesis
          using True less [OF len] len decodeString_not_stuck [of tx]
          by (subst (1 2) object_members.simps)
            (auto simp: a b c d vr split: sum.splits intro: less_trans [OF _ len])
      qed
    next
      case False
      then show ?thesis using skipCommentTokens_less [OF a] decodeString_not_stuck [of tx]
        by (subst (1 2) object_members.simps) (auto simp: a b split: sum.splits)
    qed
  qed
  then show ?thesis by (auto simp: progress_def)
qed

lemma array_items_progress:
  assumes rv: "progress rv"
  shows "progress (array_items rv vs)"
proof -
  have "array_items rv vs cs \<noteq> Inl Stuck \<and>
    (\<forall>v r. array_items rv vs cs = Inr (v, r) \<longrightarrow> length r < length cs)" for cs
  proof (induction "length cs" arbitrary: vs cs rule: less_induct)
    case less
    show ?case
    proof (cases "rv cs")
      case (Inr vr)
      then obtain v r where vr: "rv cs = Inr (v, r)" by (cases vr) auto
      obtain t tx r' where a: "skipCommentTokens r = (t, tx, r')" by (cases "skipCommentTokens r")
      have len: "length r' < length cs"
        using skipCommentTokens_le [OF a] progressD(2) [OF rv vr] by simp
      show ?thesis using less [OF len] len
        by (subst (1 2) array_items.simps) (auto simp: vr a intro: less_trans [OF _ len])
    qed (use progressD(1) [OF rv, of cs] in \<open>subst (1 2) array_items.simps, auto\<close>)
  qed
  then show ?thesis by (auto simp: progress_def)
qed

lemma readArray_progress:
  assumes "progress rv"
  shows "progress (readArray rv)"
  unfolding progress_def
proof (intro allI conjI impI)
  note p = progressD [OF array_items_progress [OF assms, of "[]"]]
  fix cs
  show "readArray rv cs \<noteq> Inl Stuck" using p(1) by (simp add: readArray_def Let_def)
  fix v r
  assume "readArray rv cs = Inr (v, r)"
  then show "length r < length cs"
    using skipSpaces_shorter [of cs] p(2) [of "skipSpaces cs" v r]
    by (cases "skipSpaces cs") (auto simp: readArray_def Let_def split: if_splits)
qed

lemma decodeNumber_not_stuck: "decodeNumber dt t \<noteq> Inl Stuck"
  by (simp add: decodeNumber_def decodeDouble_def Let_def split: option.splits)

lemma readValue_progress: "progress (readValue dt n)"
proof (induction n)
  case (Suc n)
  show ?case unfolding progress_def
  proof (intro allI conjI impI)
    fix cs
    obtain t tx r where a: "skipCommentTokens cs = (t, tx, r)" by (cases "skipCommentTokens cs")
    have len: "t \<noteq> TokenEndOfStream \<Longrightarrow> length r < length cs" using skipCommentTokens_less [OF a] .
    note p = progressD [OF object_members_progress [OF Suc], of "[]" "[]" r]
      progressD [OF readArray_progress [OF Suc], of r] decodeNumber_not_stuck [of dt tx]
      decodeString_not_stuck [of tx]
    show "readValue dt (Suc n) cs \<noteq> Inl Stuck"
      using p by (cases t; cases "decodeNumber dt tx"; cases "decodeString tx") (simp_all add: a)
    show "length r' < length cs" if "readValue dt (Suc n) cs = Inr (v, r')" for v r'
      using that len p(2) [of v r'] p(4) [of v r'] by (cases t) (auto simp: a)
  qed
qed (simp add: progress_def)

text \<open>Reading a document always returns: with the reader's own limit on the depth, a
value, a syntax error or the error of the limit; the loops over members and elements never run
without taking characters from the document, and what is left of it is shorter after each value.\<close>

theorem json_reader_returns:
  "readValue dt n cs \<noteq> Inl Stuck \<and>
   (case readValue dt n cs of Inl e \<Rightarrow> True | Inr (v, r) \<Rightarrow> length r < length cs)"
  using progressD [OF readValue_progress] by (auto split: sum.splits)

section \<open>What is written is read back\<close>

text \<open>
  The values the reader can give back: the integers have the type the reader chooses for their
  size, and the names of an object are sorted. Doubles are left out: "%.17g" prints some of them
  as integers.
\<close>

fun canonical :: "jcvalue \<Rightarrow> bool" where
  "canonical (IntValue i) = (- 9223372036854775808 \<le> i \<and> i \<le> 2147483647)"
| "canonical (UintValue n) = (2147483647 < n \<and> n \<le> 18446744073709551615)"
| "canonical (RealValue d) = False"
| "canonical (ArrayValue vs) = list_all canonical vs"
| "canonical (ObjectValue ms) = (smap_ok ms \<and> list_all (\<lambda>p. canonical (snd p)) ms)"
| "canonical v = True"

fun levels :: "jcvalue \<Rightarrow> nat" where
  "levels (ArrayValue vs) = Suc (fold max (map levels vs) 0)"
| "levels (ObjectValue ms) = Suc (fold max (map (\<lambda>p. levels (snd p)) ms) 0)"
| "levels v = 1"

text \<open>The characters that the writer puts after a value.\<close>

definition ends_number :: "string \<Rightarrow> bool" where
  "ends_number r = (case r of [] \<Rightarrow> True | c # cs \<Rightarrow> c \<in> {CHR '','', CHR '']'', CHR ''}'', CHR 0x0A})"

lemma fold_max_le: "fold max xs (a :: nat) \<le> n \<longleftrightarrow> a \<le> n \<and> (\<forall>x \<in> set xs. x \<le> n)"
  by (induction xs arbitrary: a) auto

lemma ends_number_simps [simp]:
  "ends_number []" "ends_number (CHR '','' # r)" "ends_number (CHR '']'' # r)" "ends_number (CHR ''}'' # r)"
  "ends_number (CHR 0x0A # r)"
  by (simp_all add: ends_number_def)

subsection \<open>Delimiters and words\<close>

lemma readToken_delimiters [simp]:
  "readToken (CHR '','' # r) = (TokenArraySeparator, '','', r)"
  "readToken (CHR '':'' # r) = (TokenMemberSeparator, '':'', r)"
  "readToken (CHR ''['' # r) = (TokenArrayBegin, ''['', r)"
  "readToken (CHR '']'' # r) = (TokenArrayEnd, '']'', r)"
  "readToken (CHR ''{'' # r) = (TokenObjectBegin, ''{'', r)"
  "readToken (CHR ''}'' # r) = (TokenObjectEnd, ''}'', r)"
  by (simp_all add: readToken_def skipSpaces_def json_space_def getNextChar_def scan_token_def is_digit_def)

lemma readToken_words [simp]:
  "readToken (CHR ''t'' # CHR ''r'' # CHR ''u'' # CHR ''e'' # r) = (TokenTrue, ''true'', r)"
  "readToken (CHR ''f'' # CHR ''a'' # CHR ''l'' # CHR ''s'' # CHR ''e'' # r) = (TokenFalse, ''false'', r)"
  "readToken (CHR ''n'' # CHR ''u'' # CHR ''l'' # CHR ''l'' # r) = (TokenNull, ''null'', r)"
  by (simp_all add: readToken_def skipSpaces_def json_space_def getNextChar_def scan_token_def is_digit_def
      match_word_def or_error_def)

lemma skipCommentTokens_token:
  "readToken cs = (t, tx, r) \<Longrightarrow> t \<noteq> TokenComment \<Longrightarrow> skipCommentTokens cs = (t, tx, r)"
  by (simp add: skipCommentTokens.simps [of cs])

lemma finalizeToken_same [simp]: "t \<noteq> TokenComment \<Longrightarrow> finalizeToken (t, tx, r) = (t, tx, r)"
  by (simp add: finalizeToken_def)

subsection \<open>Texts\<close>

lemma control_code: "isControlCharacter c \<or> c = CHR 0x00 \<longleftrightarrow> (of_char c :: nat) \<le> 31"
proof -
  have "(of_char c :: nat) = 0 \<longleftrightarrow> c = CHR 0x00"
    using of_char_eq_iff [of c "CHR 0x00", where 'a = nat] by simp
  then show ?thesis by (auto simp: isControlCharacter_def)
qed

lemma valueToQuotedStringN_eq:
  "valueToQuotedStringN s = CHR 0x22 # concat (map escape_char s) @ [CHR 0x22]"
proof -
  have "takeWhile (\<lambda>c. c \<noteq> CHR 0x00) s = concat (map escape_char s)"
    if "list_all (\<lambda>c. \<not> json_special c) s" "list_all (\<lambda>c. \<not> (isControlCharacter c \<or> c = CHR 0x00)) s"
    using that by (induction s) (auto simp: escape_char_def json_special_def)
  then show ?thesis by (simp add: valueToQuotedStringN_def)
qed

lemma hex_value_upper: "d < 16 \<Longrightarrow> hex_value (hex_upper d) = Some d"
  by (simp add: hex_value_def hex_upper_def Let_def)

lemma hex_upper_plain: "hex_upper d \<noteq> CHR 0x5C \<and> hex_upper d \<noteq> CHR 0x22" if "d < 16"
proof -
  have "(of_char (hex_upper d) :: nat) \<in> {48..57} \<union> {65..70}" using that by (simp add: hex_upper_def)
  then show ?thesis by auto
qed

lemma unicode_digits_four:
  "a < 16 \<Longrightarrow> b < 16 \<Longrightarrow> c < 16 \<Longrightarrow> d < 16 \<Longrightarrow>
   unicode_digits 4 0 (hex_upper a # hex_upper b # hex_upper c # hex_upper d # x) =
     Some (((a * 16 + b) * 16 + c) * 16 + d, x)"
  by (simp only: numeral_eq_Suc pred_numeral_simps BitM.simps unicode_digits.simps hex_value_upper
      option.case mult_0 add_0 numeral_One One_nat_def)

lemma four_digits: "n < 65536 \<Longrightarrow> ((n div 4096 mod 16 * 16 + n div 256 mod 16) * 16 + n div 16 mod 16) * 16 + n mod 16 = n"
  for n :: nat
proof -
  assume "n < 65536"
  then have "n div 16 div 16 div 16 < 16" by (simp add: div_mult2_eq [symmetric] less_mult_imp_div_less)
  moreover have "n div 4096 = n div 16 div 16 div 16" "n div 256 = n div 16 div 16"
    by (simp_all add: div_mult2_eq [symmetric])
  ultimately show ?thesis
    using div_mult_mod_eq [of n 16] div_mult_mod_eq [of "n div 16" 16]
      div_mult_mod_eq [of "n div 16 div 16" 16]
    by simp
qed

lemma unicode_digits_u:
  assumes "n < 65536"
  shows "unicode_digits 4 0 (drop 2 (u_escape n) @ x) = Some (n, x)"
proof -
  have "drop 2 (u_escape n) @ x = hex_upper (n div 4096 mod 16) # hex_upper (n div 256 mod 16) #
      hex_upper (n div 16 mod 16) # hex_upper (n mod 16) # x"
    by (simp only: u_escape_def numeral_2_eq_2 drop_Suc_Cons drop0 append_Cons append_Nil)
  moreover have "k mod 16 < 16" for k :: nat by simp
  ultimately show ?thesis by (simp only: unicode_digits_four four_digits [OF assms])
qed

lemma readString_escape: "readString (escape_char c @ x) = readString x"
proof -
  have "readString (u_escape n @ x) = readString x" for n
    by (simp add: u_escape_def hex_upper_plain)
  then show ?thesis by (simp add: escape_char_def)
qed

lemma readString_escaped: "readString (concat (map escape_char s) @ CHR 0x22 # r) = (True, r)"
  by (induction s) (simp_all add: readString_escape)

lemma readToken_quoted [simp]:
  "readToken (valueToQuotedStringN s @ r) = (TokenString, valueToQuotedStringN s, r)"
  by (simp add: readToken_def skipSpaces_def json_space_def getNextChar_def scan_token_def or_error_def
      valueToQuotedStringN_eq readString_escaped is_digit_def)

lemma decode_escape: "decode_chars (escape_char c @ x) d = decode_chars x (d @ [c])"
proof (cases "isControlCharacter c \<or> c = CHR 0x00")
  case True
  then have n: "(of_char c :: nat) \<le> 31" by (simp add: control_code)
  have "decodeUnicodeCodePoint (drop 2 (u_escape (of_char c)) @ x) = Inr (of_char c, x)"
    using n unicode_digits_u [of "of_char c" x]
    by (simp add: decodeUnicodeCodePoint_def decodeUnicodeEscapeSequence_def u_escape_def)
  then have "decode_chars (u_escape (of_char c) @ x) d = decode_chars x (d @ [c])"
    using n by (subst decode_chars.simps) (simp add: u_escape_def codePointToUTF8_def)
  then show ?thesis using True
    by (simp add: escape_char_def) (intro conjI impI; subst decode_chars.simps; simp add: simple_escape_def)
next
  case False
  then show ?thesis
    by (subst decode_chars.simps) (auto simp: escape_char_def simple_escape_def)
qed

lemma decode_escaped: "decode_chars (concat (map escape_char s)) d = Inr (d @ s)"
proof (induction s arbitrary: d)
  case (Cons c s)
  then show ?case by (simp add: decode_escape)
qed (simp add: decode_chars.simps)

lemma decodeString_quoted [simp]: "decodeString (valueToQuotedStringN s) = Inr s"
  by (simp add: decodeString_def valueToQuotedStringN_eq decode_escaped butlast_append)

subsection \<open>Integers\<close>

lemma decode_digits_fold:
  assumes "10 \<le> m" "list_all is_digit ds" "foldl (\<lambda>n c. 10 * n + digit_val c) v ds \<le> m"
  shows "decode_digits m v ds = Some (foldl (\<lambda>n c. 10 * n + digit_val c) v ds)"
  using assms(2,3)
proof (induction ds arbitrary: v)
  case (Cons c ds)
  let ?w = "10 * v + digit_val c"
  have grows: "w \<le> foldl (\<lambda>n c. 10 * n + digit_val c) w es" for w es
    by (induction es arbitrary: w) (simp, fastforce intro: order_trans [rotated])
  have w: "?w \<le> m" using Cons.prems(2) grows [of ?w ds] by simp
  have more: "10 * ?w \<le> m" if "ds \<noteq> []"
  proof (cases ds)
    case (Cons e es)
    with Cons.prems(2) grows [of "10 * ?w + digit_val e" es] show ?thesis by simp
  qed (use that in simp)
  have "\<not> (m div 10 \<le> v \<and> (m div 10 < v \<or> ds \<noteq> [] \<or> m mod 10 < digit_val c))"
  proof
    assume h: "m div 10 \<le> v \<and> (m div 10 < v \<or> ds \<noteq> [] \<or> m mod 10 < digit_val c)"
    have "v \<le> m div 10" using w by (simp add: less_eq_div_iff_mult_less_eq)
    with h have v: "v = m div 10" by simp
    have "10 * v + m mod 10 = m" by (simp add: v)
    with w have "digit_val c \<le> m mod 10" by simp
    with h v more have "10 * ?w \<le> m" by auto
    then have "10 * (10 * v) \<le> m" by (simp add: distrib_left)
    moreover have "1 \<le> v" using assms(1) by (simp add: v less_eq_div_iff_mult_less_eq)
    moreover have "m < 10 * v + 10" using dividend_less_div_times [of 10 m] by (simp add: v)
    ultimately show False by linarith
  qed
  then show ?case using Cons by (auto simp: Let_def mult.commute)
qed simp

lemma decode_digits_dec_str: "10 \<le> m \<Longrightarrow> n \<le> m \<Longrightarrow> decode_digits m 0 (dec_str n) = Some n"
  using decode_digits_fold [of m "dec_str n" 0] dec_str_digits [of n] digits_val_dec_str [of n]
  by (simp add: list_all_iff digits_val_def)

lemma dec_str_first: "\<exists>c cs. dec_str n = c # cs \<and> is_digit c"
  using dec_str_digits [of n] dec_str_nonempty [of n] by (cases "dec_str n") auto

lemma minus_not_digit [simp]: "\<not> is_digit CHR ''-''"
  by (simp add: is_digit_def)

lemma decodeNumber_nat:
  assumes "n \<le> 18446744073709551615"
  shows "decodeNumber dt (dec_str n) =
    Inr (if n \<le> 2147483647 then IntValue (int n) else UintValue n)"
proof -
  have "take 1 (dec_str n) \<noteq> ''-''" using dec_str_first [of n] by auto
  then show ?thesis using assms decode_digits_dec_str [of 18446744073709551615 n]
    by (simp add: decodeNumber_def)
qed

lemma decodeNumber_int:
  "- 9223372036854775808 \<le> i \<Longrightarrow> i \<le> 2147483647 \<Longrightarrow> decodeNumber dt (int_str i) = Inr (IntValue i)"
proof (cases "i < 0")
  case True
  assume "- 9223372036854775808 \<le> i"
  then have "nat (- i) \<le> 9223372036854775808" by simp
  with True decode_digits_dec_str [of 9223372036854775808 "nat (- i)"]
  show ?thesis by (auto simp: decodeNumber_def int_str_def)
next
  case False
  assume "i \<le> 2147483647"
  with False show ?thesis using decodeNumber_nat [of "nat i" dt] by (simp add: int_str_def nat_le_iff)
qed

lemma dropWhile_digits: "list_all is_digit ds \<Longrightarrow> dropWhile is_digit (ds @ r) = dropWhile is_digit r"
  by (induction ds) auto

lemma readNumber_digits:
  assumes "list_all is_digit ds" "ends_number r"
  shows "readNumber (ds @ r) = r"
proof -
  have "dropWhile is_digit (ds @ r) = r"
  proof (cases r)
    case Nil
    then show ?thesis using assms(1) by (simp add: list_all_iff)
  next
    case (Cons c cs)
    then show ?thesis using assms by (auto simp: dropWhile_digits ends_number_def is_digit_def)
  qed
  then show ?thesis using assms(2)
    by (cases r) (auto simp: readNumber_def ends_number_def Let_def simp del: dropWhile_eq_Nil_conv append_Nil2)
qed

lemma readToken_number:
  assumes "is_digit c \<or> c = CHR ''-''" "list_all is_digit ds" "ends_number r"
  shows "readToken (c # ds @ r) = (TokenNumber, c # ds, r)"
proof -
  have "(of_char c :: nat) \<in> {45} \<union> {48..57}" using assms(1) by (auto simp: is_digit_def)
  then have "c \<notin> {CHR ''{'', CHR ''}'', CHR ''['', CHR '']'', CHR 0x22, CHR ''/'', CHR 0x20, CHR 0x09, CHR 0x0D, CHR 0x0A}"
    by auto
  then show ?thesis
    using assms(1) readNumber_digits [OF assms(2,3)]
    by (simp add: readToken_def skipSpaces_def json_space_def getNextChar_def scan_token_def)
qed

lemma readToken_dec_str: "ends_number r \<Longrightarrow> readToken (dec_str n @ r) = (TokenNumber, dec_str n, r)"
  using dec_str_first [of n] dec_str_digits [of n] readToken_number [of "hd (dec_str n)" "tl (dec_str n)" r]
  by (auto simp: list_all_iff)

lemma readToken_int_str: "ends_number r \<Longrightarrow> readToken (int_str i @ r) = (TokenNumber, int_str i, r)"
  using readToken_number [of "CHR ''-''" "dec_str (nat (- i))" r] dec_str_digits [of "nat (- i)"]
    readToken_dec_str [of r "nat i"]
  by (auto simp: int_str_def list_all_iff)

lemmas number_tokens = readToken_dec_str [THEN skipCommentTokens_token] readToken_int_str [THEN skipCommentTokens_token]
  decodeNumber_nat decodeNumber_int

subsection \<open>Arrays and objects\<close>

definition value_start :: "char \<Rightarrow> bool" where
  "value_start c = (c \<notin> {CHR '']'', CHR 0x20, CHR 0x09, CHR 0x0D, CHR 0x0A})"

lemma value_starts:
  "value_start CHR ''n''" "value_start CHR ''t''" "value_start CHR ''f''" "value_start CHR ''[''"
  "value_start CHR ''{''" "value_start CHR ''-''" "value_start CHR 0x22"
  by (simp_all add: value_start_def)

lemma dec_str_start: "\<exists>c. (\<exists>cs. dec_str n = c # cs) \<and> value_start c"
  using dec_str_first [of n] by (auto simp: is_digit_def value_start_def)

lemma write_value_first: "canonical v \<Longrightarrow> \<exists>c cs. writeValue dt v = c # cs \<and> value_start c"
  by (cases v) (auto simp: valueToQuotedStringN_eq int_str_def dec_str_start value_starts)

lemma write_elements_rest:
  "write_elements dt False (v # vs) = CHR '','' # write_elements dt True (v # vs)"
  "write_members dt False (m # ms) = CHR '','' # write_members dt True (m # ms)"
  by (simp, cases m, simp)

lemma array_items_written:
  assumes "\<And>v r. v \<in> set vs \<Longrightarrow> ends_number r \<Longrightarrow> rv (writeValue dt v @ r) = Inr (v, r)" "vs \<noteq> []"
  shows "array_items rv us (write_elements dt True vs @ CHR '']'' # r) = Inr (ArrayValue (us @ vs), r)"
  using assms
proof (induction vs arbitrary: us)
  case (Cons v vs)
  show ?case
  proof (cases vs)
    case Nil
    then show ?thesis using Cons.prems(1) [of v "CHR '']'' # r"]
      by (subst array_items.simps) (simp add: skipCommentTokens_token)
  next
    case (Cons w ws)
    then have "array_items rv (us @ [v]) (write_elements dt True vs @ CHR '']'' # r) =
        Inr (ArrayValue (us @ v # vs), r)"
      using Cons.IH [of "us @ [v]"] Cons.prems(1) by simp
    moreover have "write_elements dt False vs = CHR '','' # write_elements dt True vs"
      by (simp only: Cons write_elements_rest)
    ultimately show ?thesis
      using Cons.prems(1) [of v "CHR '','' # write_elements dt True vs @ CHR '']'' # r"]
      by (subst array_items.simps) (simp add: skipCommentTokens_token)
  qed
qed simp

lemma smap_put_last: "\<forall>k' \<in> fst ` set ms. k' < k \<Longrightarrow> smap_put k v ms = ms @ [(k, v)]"
  by (induction ms) force+

lemma object_members_written:
  assumes "\<And>v r. v \<in> snd ` set ms \<Longrightarrow> ends_number r \<Longrightarrow> rv (writeValue dt v @ r) = Inr (v, r)" "ms \<noteq> []"
    "smap_ok (us @ ms)"
  shows "object_members rv name us (write_members dt True ms @ CHR ''}'' # r) =
    Inr (ObjectValue (us @ ms), r)"
  using assms
proof (induction ms arbitrary: us name)
  case (Cons m ms)
  obtain k v where m: "m = (k, v)" by (cases m)
  have put: "smap_put k v us = us @ [(k, v)]"
    using Cons.prems(3) by (intro smap_put_last) (force simp: smap_ok_def sorted_wrt_append m)
  show ?case
  proof (cases ms)
    case Nil
    then show ?thesis using Cons.prems(1) [of v "CHR ''}'' # r"]
      by (subst object_members.simps) (simp add: skipCommentTokens_token m put)
  next
    case (Cons w ws)
    then have "object_members rv k (us @ [(k, v)]) (write_members dt True ms @ CHR ''}'' # r) =
        Inr (ObjectValue (us @ (k, v) # ms), r)"
      using Cons.IH [of "us @ [(k, v)]"] Cons.prems(1,3) by (simp add: m)
    moreover have "write_members dt False ms = CHR '','' # write_members dt True ms"
      by (simp only: Cons write_elements_rest)
    ultimately show ?thesis
      using Cons.prems(1) [of v "CHR '','' # write_members dt True ms @ CHR ''}'' # r"]
      by (subst object_members.simps) (simp add: skipCommentTokens_token m put)
  qed
qed simp

lemma readArray_written:
  assumes "\<And>v r. v \<in> set vs \<Longrightarrow> ends_number r \<Longrightarrow> rv (writeValue dt v @ r) = Inr (v, r)"
    "list_all canonical vs"
  shows "readArray rv (write_elements dt True vs @ CHR '']'' # r) = Inr (ArrayValue vs, r)"
proof (cases vs)
  case Nil
  then show ?thesis by (simp add: readArray_def skipSpaces_def json_space_def)
next
  case (Cons v ws)
  with assms(2) obtain c cs where "writeValue dt v = c # cs" "value_start c"
    using write_value_first [of v dt] by auto
  then show ?thesis
    using array_items_written [of vs rv dt "[]" r] assms(1)
    by (auto simp: readArray_def skipSpaces_def json_space_def value_start_def Cons Let_def)
qed

lemma readValue_written:
  "canonical v \<Longrightarrow> levels v \<le> n \<Longrightarrow> ends_number r \<Longrightarrow> readValue dt n (writeValue dt v @ r) = Inr (v, r)"
proof (induction n arbitrary: v r)
  case 0
  then show ?case by (cases v) auto
next
  case (Suc n)
  show ?case
  proof (cases v)
    case (ArrayValue vs)
    then have "readArray (readValue dt n) (write_elements dt True vs @ CHR '']'' # r) = Inr (ArrayValue vs, r)"
      using Suc by (intro readArray_written) (auto simp: list_all_iff fold_max_le)
    then show ?thesis by (simp add: ArrayValue skipCommentTokens_token)
  next
    case (ObjectValue ms)
    then have "object_members (readValue dt n) [] [] (write_members dt True ms @ CHR ''}'' # r) =
        Inr (ObjectValue ms, r)" if "ms \<noteq> []"
      using Suc that by (intro object_members_written [where us = "[]", simplified])
        (auto simp: list_all_iff fold_max_le)
    then show ?thesis
      by (cases ms) (simp_all add: ObjectValue skipCommentTokens_token object_members.simps [of _ _ _ "CHR ''}'' # r"])
  next
    case (StringValue s)
    then show ?thesis by (simp add: skipCommentTokens_token)
  qed (use Suc.prems in \<open>simp_all add: number_tokens skipCommentTokens_token\<close>)
qed

text \<open>C19: A JSON value that the library writes is read back by the library as the same value:
for every value of at most 1000 levels whose integers have the type the reader gives them and
whose names are sorted, as those of a std::map are; texts may hold any bytes.\<close>

theorem json_read_back:
  "canonical v \<Longrightarrow> levels v \<le> 1000 \<Longrightarrow> json_parse dt (fast_write dt v) = Inr (Some v)"
  by (simp add: json_parse_def fast_write_def readValue_written)

theorem json_read_back_witness:
  "json_parse \<lparr>scan_double = (\<lambda>s. None), print_double = (\<lambda>d. []), integral_int32 = (\<lambda>d. False),
       trunc_int32 = (\<lambda>d. None)\<rparr>
     (fast_write \<lparr>scan_double = (\<lambda>s. None), print_double = (\<lambda>d. []), integral_int32 = (\<lambda>d. False),
       trunc_int32 = (\<lambda>d. None)\<rparr>
       (ObjectValue [(''a'', ArrayValue [IntValue (- 5), UintValue 3000000000, NullValue]),
         (''b'', StringValue [CHR 0x0A, CHR 0x22, CHR 0x01])])) =
   Inr (Some (ObjectValue [(''a'', ArrayValue [IntValue (- 5), UintValue 3000000000, NullValue]),
         (''b'', StringValue [CHR 0x0A, CHR 0x22, CHR 0x01])]))"
  by (rule json_read_back) (simp add: smap_ok_def, simp)

end
