(* ===== verification/SheetSession.thy ===== *)
theory SheetSession
  imports SheetText JsonCpp JsValue
begin

section \<open>The spreadsheet client\<close>

text \<open>
  The class GoogleSheets of google-sheets.cpp, the value ranges it transfers and the signed
  token it asks for. The web server, the openssl functions and the clock are parameters; what
  is written to the log is left out.
\<close>

subsection \<open>Value ranges\<close>

record value_range =
  vr_range :: string
  major_dimension :: string
  vr_values :: "string list list"

definition empty_range :: value_range where
  "empty_range = \<lparr>vr_range = [], major_dimension = ''ROWS'', vr_values = []\<rparr>"

definition range_of_csv :: "string \<Rightarrow> string \<Rightarrow> value_range" where
  "range_of_csv rang stream =
     \<lparr>vr_range = rang, major_dimension = ''ROWS'', vr_values = readCSV stream []\<rparr>"

definition clear_range :: "value_range \<Rightarrow> value_range" where
  "clear_range vr = vr\<lparr>vr_range := [], vr_values := []\<rparr>"

definition parseCSV :: "string \<Rightarrow> value_range \<Rightarrow> value_range" where
  "parseCSV csv vr = vr\<lparr>vr_values := readCSV csv []\<rparr>"

definition range_to_string :: "value_range \<Rightarrow> string" where
  "range_to_string vr =
     vr_range vr @ '' '' @ major_dimension vr @ [CHR 0x0A] @
     concat (map (\<lambda>row. concat (map (\<lambda>c. c @ '' '') row) @ [CHR 0x0A]) (vr_values vr))"

fun strings_of :: "double_text \<Rightarrow> jcvalue list \<Rightarrow> string list result" where
  "strings_of dt [] = Inr []"
| "strings_of dt (v # vs) =
     bindR (asString dt v) (\<lambda>s. bindR (strings_of dt vs) (\<lambda>ss. Inr (s # ss)))"

fun rows_of :: "double_text \<Rightarrow> jcvalue list \<Rightarrow> string list list result" where
  "rows_of dt [] = Inr []"
| "rows_of dt (v # vs) =
     bindR (strings_of dt (elements v)) (\<lambda>r. bindR (rows_of dt vs) (\<lambda>rs. Inr (r # rs)))"

text \<open>The code of the result is 0, or -1 where the text is no JSON.\<close>

definition parseJSON :: "double_text \<Rightarrow> string \<Rightarrow> value_range \<Rightarrow> (int \<times> value_range) result" where
  "parseJSON dt json vr =
     bindR (json_parse dt json) (\<lambda>parsed.
       case parsed of
         None \<Rightarrow> Inr (- 1, clear_range vr)
       | Some v \<Rightarrow>
           bindR (resolveReference ''range'' v) (\<lambda>(range_value, v1).
           bindR (asString dt range_value) (\<lambda>rang.
           bindR (resolveReference ''majorDimension'' v1) (\<lambda>(dim_value, v2).
           bindR (asString dt dim_value) (\<lambda>dim.
           bindR (resolveReference ''values'' v2) (\<lambda>(rows, v3).
           bindR (rows_of dt (elements rows)) (\<lambda>rs.
             Inr (0, vr\<lparr>vr_range := rang, major_dimension := dim, vr_values := rs\<rparr>))))))))"

definition row_value :: "string list \<Rightarrow> jcvalue" where
  "row_value row = ArrayValue (map StringValue row)"

definition range_value :: "value_range \<Rightarrow> jcvalue" where
  "range_value vr =
     ObjectValue (smap_put ''values'' (ArrayValue (map row_value (vr_values vr)))
       (smap_put ''majorDimension'' (StringValue (major_dimension vr))
         (smap_put ''range'' (StringValue (vr_range vr)) [])))"

definition toJSON :: "double_text \<Rightarrow> value_range \<Rightarrow> string" where
  "toJSON dt vr = fast_write dt (range_value vr)"

subsection \<open>Signing a token\<close>

record openssl =
  sha256 :: "string \<Rightarrow> string"
  mem_buf :: "string \<Rightarrow> bool"
  key_context :: "string \<Rightarrow> bool"
  sign_init :: "string \<Rightarrow> int"
  rsa_padding :: "string \<Rightarrow> int"
  signature_md :: "string \<Rightarrow> int"
  sign_size :: "string \<Rightarrow> string \<Rightarrow> int"
  sig_alloc :: bool
  sign_hash :: "string \<Rightarrow> string \<Rightarrow> int \<times> string"
  peek_error :: u64
  error_string :: "u64 \<Rightarrow> string option"

definition jws_sign :: "openssl \<Rightarrow> string \<Rightarrow> string \<Rightarrow> int \<times> string" where
  "jws_sign ssl data pemkey =
     (let hash = sha256 ssl data;
          err = (ucast (peek_error ssl) :: u32);
          failed = (sint err, case error_string ssl (scast err) of Some r \<Rightarrow> r | None \<Rightarrow> ''Error'')
      in if \<not> mem_buf ssl pemkey then failed
         else if \<not> key_context ssl pemkey then failed
         else if sign_init ssl pemkey \<le> 0 then failed
         else if rsa_padding ssl pemkey \<le> 0 then failed
         else if signature_md ssl pemkey \<le> 0 then failed
         else if sign_size ssl pemkey hash \<le> 0 then failed
         else if \<not> sig_alloc ssl then failed
         else if fst (sign_hash ssl pemkey hash) \<le> 0 then failed
         else (0, snd (sign_hash ssl pemkey hash)))"

definition jwt_header :: jcvalue where
  "jwt_header =
     ObjectValue (smap_put ''typ'' (StringValue ''JWT'') (smap_put ''alg'' (StringValue ''RS256'') []))"

text \<open>The times are converted to 64-bit unsigned integers.\<close>

definition jwt_claim_set :: "string \<Rightarrow> string \<Rightarrow> string \<Rightarrow> string \<Rightarrow> u64 \<Rightarrow> u32 \<Rightarrow> jcvalue" where
  "jwt_claim_set service_account subject_email scop audience t expires =
     ObjectValue
       (smap_put ''exp'' (UintValue (unat (t + scast expires)))
       (smap_put ''iat'' (UintValue (unat t))
       (smap_put ''aud'' (StringValue audience)
       (smap_put ''scope'' (StringValue scop)
       (smap_put ''iss'' (StringValue service_account)
       (if subject_email = [] then [] else smap_put ''sub'' (StringValue subject_email) []))))))"

definition base64_url_text :: "string \<Rightarrow> string result" where
  "base64_url_text s = base64url_encode (bytes_of_text s)"

definition getJWT ::
  "double_text \<Rightarrow> openssl \<Rightarrow> u64 \<Rightarrow> string \<Rightarrow> string \<Rightarrow> string \<Rightarrow> string \<Rightarrow> string \<Rightarrow> u32 \<Rightarrow>
     (int \<times> string) result" where
  "getJWT dt ssl t service_account subject_email pemkey scop audience expires =
     bindR (base64_url_text (fast_write dt jwt_header)) (\<lambda>base64url_header.
     bindR (base64_url_text (fast_write dt
         (jwt_claim_set service_account subject_email scop audience t expires))) (\<lambda>base64url_claim_set.
       let retval = base64url_header @ ''.'' @ base64url_claim_set;
           (c, jwt_signature) = jws_sign ssl retval pemkey
       in if c \<noteq> 0 then Inr (c, jwt_signature)
          else bindR (base64_url_text jwt_signature) (\<lambda>sig. Inr (0, retval @ ''.'' @ sig))))"

subsection \<open>Requests\<close>

datatype http_method = HttpGet | HttpPut | HttpPost | TokenPost

record request =
  rq_method :: http_method
  rq_bearer :: string
  rq_url :: string
  rq_data :: string

text \<open>
  What a request meets: the library gives no handle, the transfer fails with an error code, or
  the server answers with a code and a body.
\<close>

datatype reply = NoHandle | CurlFailure nat | HttpReply int string

text \<open>
  The world of the client: the answer to the nth request, the text of an error code of the
  library, the signing functions, the clock.
\<close>

record web =
  server :: "nat \<Rightarrow> request \<Rightarrow> reply"
  curl_easy_strerror :: "int \<Rightarrow> string"
  ssl :: openssl
  clock :: u64
  doubles :: double_text

definition CURLE_FAILED_INIT :: int where "CURLE_FAILED_INIT = 2"

text \<open>
  The body of an answer is appended to the text the caller passes; the four functions differ in
  the codes of what fails.
\<close>

definition transfer :: "web \<Rightarrow> int \<Rightarrow> int \<Rightarrow> reply \<Rightarrow> string \<Rightarrow> int \<times> string" where
  "transfer w no_handle sign r retval =
     (case r of
        NoHandle \<Rightarrow> (no_handle, retval)
      | CurlFailure res \<Rightarrow> (sign * int res, curl_easy_strerror w (int res))
      | HttpReply http_code body \<Rightarrow> (http_code, retval @ body))"

definition curl_post0 :: "web \<Rightarrow> request list \<Rightarrow> string \<Rightarrow> string \<Rightarrow> string \<Rightarrow> (int \<times> string) \<times> request list" where
  "curl_post0 w sent url data retval =
     (let rq = \<lparr>rq_method = TokenPost, rq_bearer = [], rq_url = url, rq_data = data\<rparr>
      in (transfer w CURLE_FAILED_INIT (- 1) (server w (length sent) rq) retval, sent @ [rq]))"

definition curl_get :: "web \<Rightarrow> request list \<Rightarrow> string \<Rightarrow> string \<Rightarrow> string \<Rightarrow> (int \<times> string) \<times> request list" where
  "curl_get w sent token url retval =
     (let rq = \<lparr>rq_method = HttpGet, rq_bearer = token, rq_url = url, rq_data = []\<rparr>
      in (transfer w CURLE_FAILED_INIT 1 (server w (length sent) rq) retval, sent @ [rq]))"

definition curl_put ::
  "web \<Rightarrow> request list \<Rightarrow> string \<Rightarrow> string \<Rightarrow> string \<Rightarrow> string \<Rightarrow> (int \<times> string) \<times> request list" where
  "curl_put w sent token url data retval =
     (let rq = \<lparr>rq_method = HttpPut, rq_bearer = token, rq_url = url, rq_data = data\<rparr>
      in (transfer w (- CURLE_FAILED_INIT) (- 1) (server w (length sent) rq) retval, sent @ [rq]))"

definition curl_post ::
  "web \<Rightarrow> request list \<Rightarrow> string \<Rightarrow> string \<Rightarrow> string \<Rightarrow> string \<Rightarrow> (int \<times> string) \<times> request list" where
  "curl_post w sent token url data retval =
     (let rq = \<lparr>rq_method = HttpPost, rq_bearer = token, rq_url = url, rq_data = data\<rparr>
      in (transfer w CURLE_FAILED_INIT (- 1) (server w (length sent) rq) retval, sent @ [rq]))"

definition GOOGLE_TOKEN_URL :: string where
  "GOOGLE_TOKEN_URL = ''https://www.googleapis.com/oauth2/v4/token''"

definition API_SHEET :: string where
  "API_SHEET = ''https://sheets.googleapis.com/v4/spreadsheets/''"

definition loadGoogleToken ::
  "web \<Rightarrow> request list \<Rightarrow> string \<Rightarrow> string \<Rightarrow> string \<Rightarrow> string \<Rightarrow> string \<Rightarrow> u32 \<Rightarrow>
     ((int \<times> string) \<times> request list) result" where
  "loadGoogleToken w sent service_account subject_email pemkey scop audience expires =
     bindR (getJWT (doubles w) (ssl w) (clock w) service_account subject_email pemkey scop audience expires)
       (\<lambda>(r, jwt).
         if r \<noteq> 0 then Inr ((r, jwt), sent)
         else
           (let rq = ''grant_type=urn%3Aietf%3Aparams%3Aoauth%3Agrant-type%3Ajwt-bearer&assertion='' @ jwt;
                ((res, json), sent') = curl_post0 w sent GOOGLE_TOKEN_URL rq []
            in bindR (json_parse (doubles w) json) (\<lambda>parsed.
                 if res \<noteq> 200 then
                   (case parsed of
                      Some v \<Rightarrow>
                        bindR (get_member ''error_description'' (StringValue ''UTF-8'') v) (\<lambda>d.
                        bindR (asString (doubles w) d) (\<lambda>retval. Inr ((res, retval), sent')))
                    | None \<Rightarrow> Inr ((res, json), sent'))
                 else
                   (case parsed of
                      Some v \<Rightarrow>
                        bindR (get_member ''access_token'' (StringValue ''UTF-8'') v) (\<lambda>d.
                        bindR (asString (doubles w) d) (\<lambda>retval. Inr ((r, retval), sent')))
                    | None \<Rightarrow> Inr ((- 1, ''Parse error '' @ json), sent')))))"

text \<open>A backslash and an n in the private key stand for a line feed.\<close>

fun unescape_lf :: "string \<Rightarrow> string" where
  "unescape_lf (a # b # s) =
     (if a = CHR 0x5C \<and> b = CHR ''n'' then CHR 0x0A # unescape_lf s else a # unescape_lf (b # s))"
| "unescape_lf s = s"

definition readGoogleTokenJSON :: "double_text \<Rightarrow> string \<Rightarrow> (string \<times> string \<times> string) option result" where
  "readGoogleTokenJSON dt json =
     (if json = [] then Inr None
      else bindR (json_parse dt json) (\<lambda>parsed.
        case parsed of
          None \<Rightarrow> Inr None
        | Some v \<Rightarrow>
            bindR (resolveReference ''client_id'' v) (\<lambda>(a, v1).
            bindR (asString dt a) (\<lambda>service_account.
            bindR (resolveReference ''private_key'' v1) (\<lambda>(b, v2).
            bindR (asString dt b) (\<lambda>pemkey.
            bindR (resolveReference ''client_email'' v2) (\<lambda>(c, v3).
            bindR (asString dt c) (\<lambda>email.
              Inr (Some (service_account, unescape_lf pemkey, email))))))))))"

subsection \<open>The class GoogleSheets\<close>

text \<open>
  The state: the client's own data, the requests it has sent and the calls of the handler
  of new tokens, which may be absent.
\<close>

record sheets =
  sheet_id :: string
  token :: string
  genTokenParams :: "string list"
  ontokenbearer :: bool
  token_calls :: "(string \<times> int) list"
  sent :: "request list"

definition call_ontokenbearer :: "int \<Rightarrow> sheets \<Rightarrow> sheets" where
  "call_ontokenbearer status s =
     (if ontokenbearer s then s\<lparr>token_calls := token_calls s @ [(token s, status)]\<rparr> else s)"

definition genToken :: "web \<Rightarrow> sheets \<Rightarrow> (bool \<times> sheets) result" where
  "genToken w s =
     (if length (genTokenParams s) < 5 then Inr (False, call_ontokenbearer (- 1) s)
      else bindR (loadGoogleToken w (sent s) (genTokenParams s ! 0) (genTokenParams s ! 1)
          (genTokenParams s ! 2) (genTokenParams s ! 3) (genTokenParams s ! 4) 3600)
        (\<lambda>((r, retval), sent').
          let s1 = call_ontokenbearer r (s\<lparr>token := retval, sent := sent'\<rparr>)
          in Inr (True, if r \<noteq> 0 then s1\<lparr>token := []\<rparr> else s1)))"

definition new_sheets ::
  "web \<Rightarrow> string \<Rightarrow> string \<Rightarrow> string \<Rightarrow> string \<Rightarrow> string \<Rightarrow> string \<Rightarrow> string \<Rightarrow> bool \<Rightarrow> sheets result" where
  "new_sheets w spreadsheet tokenbearer service_account subject_email pemkey scop audience handler =
     (let s = \<lparr>sheet_id = spreadsheet, token = tokenbearer,
               genTokenParams = [service_account, subject_email, pemkey, scop, audience],
               ontokenbearer = handler, token_calls = [], sent = []\<rparr>
      in if token s = [] then bindR (genToken w s) (\<lambda>(ok, s'). Inr s') else Inr s)"

definition setOnTokenBearer :: "bool \<Rightarrow> sheets \<Rightarrow> sheets" where
  "setOnTokenBearer handler s = s\<lparr>ontokenbearer := handler\<rparr>"

definition checkJSONErrorCode :: "double_text \<Rightarrow> string \<Rightarrow> int result" where
  "checkJSONErrorCode dt response =
     (if response = [] then Inr 200
      else bindR (json_parse dt response) (\<lambda>parsed.
        case parsed of
          None \<Rightarrow> Inr 200
        | Some v \<Rightarrow>
            bindR (isMember ''error'' v) (\<lambda>found.
              if \<not> found then Inr 200
              else bindR (resolveReference ''error'' v) (\<lambda>(e, v1).
                   bindR (resolveReference ''code'' e) (\<lambda>(code, e1).
                     if isInt dt code
                     then bindR (resolveReference ''error'' e1) (\<lambda>(x, e2). asInt dt x)
                     else Inr 200)))))"

definition token_get :: "web \<Rightarrow> sheets \<Rightarrow> string \<Rightarrow> value_range \<Rightarrow> (bool \<times> sheets \<times> value_range) result" where
  "token_get w s url retval =
     (let ((r, response), sent1) = curl_get w (sent s) (token s) url []; s1 = s\<lparr>sent := sent1\<rparr>
      in bindR (checkJSONErrorCode (doubles w) response) (\<lambda>code.
         bindR (if code \<noteq> 200
                then bindR (genToken w s1) (\<lambda>(ok, s2).
                  let (r_response, sent2) = curl_get w (sent s2) (token s2) url response
                  in Inr (r_response, s2\<lparr>sent := sent2\<rparr>))
                else Inr ((r, response), s1)) (\<lambda>((r', response'), s').
           if r' = 200
           then bindR (parseJSON (doubles w) response' retval) (\<lambda>(c, vr). Inr (True, s', vr))
           else Inr (False, s', clear_range retval))))"

definition token_put :: "web \<Rightarrow> sheets \<Rightarrow> string \<Rightarrow> value_range \<Rightarrow> (bool \<times> sheets) result" where
  "token_put w s url vr =
     (let json = toJSON (doubles w) vr;
          ((r, response), sent1) = curl_put w (sent s) (token s) url json []
      in if r \<noteq> 200
         then bindR (genToken w (s\<lparr>sent := sent1\<rparr>)) (\<lambda>(ok, s2).
           let ((r', response'), sent2) = curl_put w (sent s2) (token s2) url json response
           in Inr (r' = 200, s2\<lparr>sent := sent2\<rparr>))
         else Inr (True, s\<lparr>sent := sent1\<rparr>))"

definition token_post :: "web \<Rightarrow> sheets \<Rightarrow> string \<Rightarrow> value_range \<Rightarrow> (bool \<times> sheets) result" where
  "token_post w s url vr =
     (let json = toJSON (doubles w) vr;
          ((r, response), sent1) = curl_post w (sent s) (token s) url json []
      in if r \<noteq> 200
         then bindR (genToken w (s\<lparr>sent := sent1\<rparr>)) (\<lambda>(ok, s2).
           let ((r', response'), sent2) = curl_post w (sent s2) (token s2) url json response
           in Inr (r' = 200, s2\<lparr>sent := sent2\<rparr>))
         else Inr (True, s\<lparr>sent := sent1\<rparr>))"

definition values_url :: "sheets \<Rightarrow> string \<Rightarrow> string" where
  "values_url s rang = API_SHEET @ sheet_id s @ ''/values/'' @ rang"

definition get_range :: "web \<Rightarrow> sheets \<Rightarrow> string \<Rightarrow> value_range \<Rightarrow> (bool \<times> sheets \<times> value_range) result" where
  "get_range w s rang response = token_get w s (values_url s rang) response"

definition get_cell ::
  "web \<Rightarrow> sheets \<Rightarrow> string \<Rightarrow> u32 \<Rightarrow> u32 \<Rightarrow> value_range \<Rightarrow> (bool \<times> sheets \<times> value_range) result" where
  "get_cell w s sheet col row retval = get_range w s (A1 sheet col row) retval"

definition put_range :: "web \<Rightarrow> sheets \<Rightarrow> value_range \<Rightarrow> (bool \<times> sheets) result" where
  "put_range w s vr = token_put w s (values_url s (vr_range vr) @ ''?valueInputOption=USER_ENTERED'') vr"

definition append_range :: "web \<Rightarrow> sheets \<Rightarrow> value_range \<Rightarrow> (bool \<times> sheets) result" where
  "append_range w s vr =
     token_post w s (values_url s (vr_range vr) @ '':append?valueInputOption=USER_ENTERED'') vr"

section \<open>What the client guarantees\<close>

subsection \<open>Value ranges as JSON\<close>

lemma ordered_names: "''majorDimension'' < (''range'' :: string)" "''range'' < (''values'' :: string)"
  "''majorDimension'' < (''values'' :: string)"
  by simp_all

lemma range_value_members:
  "range_value vr = ObjectValue [(''majorDimension'', StringValue (major_dimension vr)),
     (''range'', StringValue (vr_range vr)), (''values'', ArrayValue (map row_value (vr_values vr)))]"
  by (simp add: range_value_def)

lemma canonical_range: "canonical (range_value vr)"
  by (simp add: range_value_members smap_ok_def list_all_iff row_value_def)

lemma levels_range: "levels (range_value vr) \<le> 1000"
  by (simp add: range_value_members row_value_def fold_max_le)

lemma strings_of_texts: "strings_of dt (map StringValue ss) = Inr ss"
  by (induction ss) simp_all

lemma rows_of_texts: "rows_of dt (map row_value rows) = Inr rows"
  by (induction rows) (simp_all add: row_value_def strings_of_texts)

lemma parse_range: "json_parse dt (toJSON dt vr) = Inr (Some (range_value vr))"
  unfolding toJSON_def by (simp add: json_parse_def fast_write_def readValue_written canonical_range levels_range)

lemma resolve_found: "map_of ms key = Some v \<Longrightarrow> resolveReference key (ObjectValue ms) = Inr (v, ObjectValue ms)"
  by (simp add: resolveReference_def)

lemma parseJSON_toJSON:
  "parseJSON dt (toJSON dt vr) old =
   Inr (0, old\<lparr>vr_range := vr_range vr, major_dimension := major_dimension vr, vr_values := vr_values vr\<rparr>)"
  by (simp add: parseJSON_def parse_range range_value_members resolve_found rows_of_texts)

text \<open>The value range that toJSON writes is the one parseJSON reads: the range, the major
dimension and every cell of every row, whatever characters they hold and whatever the object
held before.\<close>

theorem value_range_read_back:
  "parseJSON dt (toJSON dt vr) old = Inr (0, vr)"
  by (simp add: parseJSON_toJSON)

subsection \<open>Requests\<close>

lemma transfer_200:
  "fst (transfer w n (- 1) r retval) = 200 \<longleftrightarrow> n = 200 \<and> r = NoHandle \<or> (\<exists>body. r = HttpReply 200 body)"
  by (cases r) (auto simp: transfer_def)

definition put_request :: "sheets \<Rightarrow> string \<Rightarrow> string \<Rightarrow> request" where
  "put_request s url data = \<lparr>rq_method = HttpPut, rq_bearer = token s, rq_url = url, rq_data = data\<rparr>"

definition answered :: "web \<Rightarrow> request list \<Rightarrow> bool" where
  "answered w rqs = (\<exists>body. server w (length rqs - 1) (last rqs) = HttpReply 200 body)"

lemma curl_put_outcome:
  "curl_put w rqs tok url data retval = ((r, response), rqs') \<Longrightarrow>
   rqs' = rqs @ [\<lparr>rq_method = HttpPut, rq_bearer = tok, rq_url = url, rq_data = data\<rparr>] \<and>
   (r = 200 \<longleftrightarrow> answered w rqs')"
  using transfer_200 [of w "- CURLE_FAILED_INIT"
      "server w (length rqs) \<lparr>rq_method = HttpPut, rq_bearer = tok, rq_url = url, rq_data = data\<rparr>" retval]
  by (auto simp: curl_put_def Let_def answered_def CURLE_FAILED_INIT_def)

lemma curl_post0_sent: "snd (curl_post0 w rqs url data retval) =
   rqs @ [\<lparr>rq_method = TokenPost, rq_bearer = [], rq_url = url, rq_data = data\<rparr>]"
  by (simp add: curl_post0_def Let_def)

lemma loadGoogleToken_sent:
  "loadGoogleToken w rqs a b c d e f = Inr (x, rqs') \<Longrightarrow>
   rqs' = rqs \<or> (\<exists>data. rqs' = rqs @ [\<lparr>rq_method = TokenPost, rq_bearer = [], rq_url = GOOGLE_TOKEN_URL, rq_data = data\<rparr>])"
  unfolding loadGoogleToken_def
  by (fastforce simp: Let_def curl_post0_def split: if_splits prod.splits option.splits)

lemma genToken_sent:
  assumes "genToken w s = Inr (ok, s')"
  shows "sheet_id s' = sheet_id s \<and> (sent s' = sent s \<or>
    (\<exists>data. sent s' = sent s @ [\<lparr>rq_method = TokenPost, rq_bearer = [], rq_url = GOOGLE_TOKEN_URL, rq_data = data\<rparr>]))"
  using assms loadGoogleToken_sent
  by (fastforce simp: genToken_def call_ontokenbearer_def Let_def split: if_splits)

text \<open>A server that answers every request with the same range, and a client with a token.\<close>

definition sample_range :: value_range where
  "sample_range = \<lparr>vr_range = ''A1'', major_dimension = ''ROWS'', vr_values = [[''1'', ''x'']]\<rparr>"

definition sample_web :: web where
  "sample_web =
     (let dt = \<lparr>scan_double = (\<lambda>s. None), print_double = (\<lambda>d. []), integral_int32 = (\<lambda>d. False),
                trunc_int32 = (\<lambda>d. None)\<rparr>
      in \<lparr>server = (\<lambda>n rq. HttpReply 200 (toJSON dt sample_range)),
          curl_easy_strerror = (\<lambda>e. ''Error''),
          ssl = \<lparr>sha256 = (\<lambda>s. s), mem_buf = (\<lambda>s. True), key_context = (\<lambda>s. True),
            sign_init = (\<lambda>s. 1), rsa_padding = (\<lambda>s. 1), signature_md = (\<lambda>s. 1),
            sign_size = (\<lambda>s h. 1), sig_alloc = True, sign_hash = (\<lambda>s h. (1, h)),
            peek_error = 0, error_string = (\<lambda>e. None)\<rparr>,
          clock = 0, doubles = dt\<rparr>)"

definition sample_sheets :: sheets where
  "sample_sheets = \<lparr>sheet_id = ''S'', token = ''T'', genTokenParams = [], ontokenbearer = False,
     token_calls = [], sent = []\<rparr>"

lemma sample_put:
  "put_range sample_web sample_sheets sample_range =
   Inr (True, sample_sheets\<lparr>sent := [put_request sample_sheets
     (values_url sample_sheets ''A1'' @ ''?valueInputOption=USER_ENTERED'')
     (toJSON (doubles sample_web) sample_range)]\<rparr>)"
  by (simp add: put_range_def token_put_def curl_put_def transfer_def sample_web_def sample_sheets_def
      sample_range_def put_request_def Let_def)

text \<open>C20: Writing a range reports exactly what the server said: it returns true if and only if
the last request sent was answered with the code 200, and that request is a PUT of the JSON text
of the range to the address of the range; what was sent before stays, at most three requests are
added, and the spreadsheet stays the same.\<close>

theorem put_reports_answer:
  assumes "put_range w s vr = Inr (ok, s')"
  shows "(ok \<longleftrightarrow> answered w (sent s')) \<and>
    rq_method (last (sent s')) = HttpPut \<and>
    rq_url (last (sent s')) = values_url s (vr_range vr) @ ''?valueInputOption=USER_ENTERED'' \<and>
    rq_data (last (sent s')) = toJSON (doubles w) vr \<and>
    take (length (sent s)) (sent s') = sent s \<and> length (sent s') \<le> length (sent s) + 3 \<and>
    sheet_id s' = sheet_id s"
proof -
  let ?url = "values_url s (vr_range vr) @ ''?valueInputOption=USER_ENTERED''"
  let ?json = "toJSON (doubles w) vr"
  obtain r response rqs where first: "curl_put w (sent s) (token s) ?url ?json [] = ((r, response), rqs)"
    by (metis surj_pair)
  note one = curl_put_outcome [OF first]
  show ?thesis
  proof (cases "r = 200")
    case True
    then have "ok \<and> s' = s\<lparr>sent := rqs\<rparr>" using assms by (simp add: put_range_def token_put_def first)
    then show ?thesis using one True by auto
  next
    case False
    with assms have step: "bindR (genToken w (s\<lparr>sent := rqs\<rparr>)) (\<lambda>(ok, s2).
        let ((r', response'), sent2) = curl_put w (sent s2) (token s2) ?url ?json response
        in Inr (r' = 200, s2\<lparr>sent := sent2\<rparr>)) = Inr (ok, s')"
      by (simp add: put_range_def token_put_def first)
    then obtain b s2 where gen: "genToken w (s\<lparr>sent := rqs\<rparr>) = Inr (b, s2)" by auto
    obtain r' response' rqs' where
      second: "curl_put w (sent s2) (token s2) ?url ?json response = ((r', response'), rqs')"
      by (metis surj_pair)
    have res: "ok \<longleftrightarrow> r' = 200" "s' = s2\<lparr>sent := rqs'\<rparr>"
      using step by (auto simp: gen second)
    show ?thesis
      using one curl_put_outcome [OF second] genToken_sent [OF gen] res by auto
  qed
qed

theorem put_reports_answer_witness:
  "let rq = put_request sample_sheets (values_url sample_sheets ''A1'' @ ''?valueInputOption=USER_ENTERED'')
       (toJSON (doubles sample_web) sample_range)
   in answered sample_web [rq] \<and> rq_method rq = HttpPut \<and>
      rq_data rq = toJSON (doubles sample_web) sample_range"
  using put_reports_answer [OF sample_put] by (simp add: Let_def)

text \<open>C21: What was written is what is read: if the server answers a request for a range with the
code 200 and the JSON text of a value range, get returns true and that value range, one request
is sent and no new token is asked for.\<close>

theorem get_reads_what_put_writes:
  assumes "server w (length (sent s)) \<lparr>rq_method = HttpGet, rq_bearer = token s,
      rq_url = values_url s rang, rq_data = []\<rparr> = HttpReply 200 (toJSON (doubles w) vr)"
  shows "get_range w s rang old =
    Inr (True, s\<lparr>sent := sent s @ [\<lparr>rq_method = HttpGet, rq_bearer = token s,
      rq_url = values_url s rang, rq_data = []\<rparr>]\<rparr>, vr)"
proof -
  have "checkJSONErrorCode (doubles w) (toJSON (doubles w) vr) = Inr 200"
    using parse_range [of "doubles w" vr]
    by (simp add: checkJSONErrorCode_def isMember_def find_member_def range_value_members)
  then show ?thesis
    by (simp add: get_range_def token_get_def curl_get_def assms transfer_def parseJSON_toJSON Let_def)
qed

theorem get_reads_what_put_writes_witness:
  "\<exists>s'. get_range sample_web sample_sheets ''A1'' empty_range = Inr (True, s', sample_range)"
proof -
  have "server sample_web (length (sent sample_sheets)) \<lparr>rq_method = HttpGet, rq_bearer = token sample_sheets,
      rq_url = values_url sample_sheets ''A1'', rq_data = []\<rparr> = HttpReply 200 (toJSON (doubles sample_web) sample_range)"
    by (simp add: sample_web_def Let_def)
  from get_reads_what_put_writes [OF this] show ?thesis by blast
qed

subsection \<open>Refused tokens\<close>

lemma json_parse_rest:
  "canonical v \<Longrightarrow> levels v \<le> 1000 \<Longrightarrow> json_parse dt (fast_write dt v @ junk) = Inr (Some v)"
  by (simp add: json_parse_def fast_write_def readValue_written)

definition refusal :: "int \<Rightarrow> jcvalue" where
  "refusal code = ObjectValue [(''error'', ObjectValue [(''code'', IntValue code)])]"

lemma refusal_read:
  "0 \<le> code \<Longrightarrow> code \<le> 999 \<Longrightarrow> json_parse dt (fast_write dt (refusal code) @ junk) = Inr (Some (refusal code))"
  by (rule json_parse_rest) (simp_all add: refusal_def smap_ok_def)

lemma refusal_code:
  "0 \<le> code \<Longrightarrow> code \<le> 999 \<Longrightarrow> checkJSONErrorCode dt (fast_write dt (refusal code)) = Inr 0"
  using refusal_read [of code dt "[]"]
  by (simp add: checkJSONErrorCode_def isMember_def find_member_def refusal_def resolveReference_def int32_def
      fast_write_def)

lemma refusal_empty:
  "0 \<le> code \<Longrightarrow> code \<le> 999 \<Longrightarrow> parseJSON dt (fast_write dt (refusal code) @ junk) vr =
    Inr (0, vr\<lparr>vr_range := [], major_dimension := [], vr_values := []\<rparr>)"
  using refusal_read [of code dt junk] by (simp add: parseJSON_def refusal_def resolveReference_def)

text \<open>
  A request for a range that is refused because of its token is sent again with a new token, but
  the second answer is appended to the first: the refusal is parsed again, and the result is an
  empty range whatever the second answer holds.
\<close>

theorem retried_get_is_empty:
  assumes "server w (length (sent s)) \<lparr>rq_method = HttpGet, rq_bearer = token s, rq_url = url, rq_data = []\<rparr> =
      HttpReply code (fast_write (doubles w) (refusal 401))"
    and "genToken w (s\<lparr>sent := sent s @ [\<lparr>rq_method = HttpGet, rq_bearer = token s, rq_url = url, rq_data = []\<rparr>]\<rparr>) =
      Inr (ok, s2)"
    and "server w (length (sent s2)) \<lparr>rq_method = HttpGet, rq_bearer = token s2, rq_url = url, rq_data = []\<rparr> =
      HttpReply 200 body"
  shows "\<exists>s'. token_get w s url old = Inr (True, s', \<lparr>vr_range = [], major_dimension = [], vr_values = []\<rparr>)"
proof -
  have "checkJSONErrorCode (doubles w) (fast_write (doubles w) (refusal 401)) = Inr 0"
    by (rule refusal_code) simp_all
  moreover have "parseJSON (doubles w) (fast_write (doubles w) (refusal 401) @ body) old =
      Inr (0, old\<lparr>vr_range := [], major_dimension := [], vr_values := []\<rparr>)"
    by (rule refusal_empty) simp_all
  ultimately show ?thesis using assms
    by (simp add: token_get_def curl_get_def transfer_def Let_def)
qed

text \<open>A server that answers with a JSON text that is no object makes get throw.\<close>

theorem answer_no_object_throws:
  assumes "server w (length (sent s)) \<lparr>rq_method = HttpGet, rq_bearer = token s, rq_url = url, rq_data = []\<rparr> =
      HttpReply code ''[]''"
  shows "\<exists>msg. token_get w s url old = Inl (Thrown msg)"
proof -
  have "readValue (doubles w) 1000 ''[]'' = Inr (ArrayValue [], [])"
    using readValue_written [of "ArrayValue []" 1000 "[]" "doubles w"] by simp
  then show ?thesis
    by (simp add: token_get_def curl_get_def transfer_def Let_def assms checkJSONErrorCode_def json_parse_def
        isMember_def find_member_def)
qed

text \<open>A token server whose answer has no token sets the token to the text UTF-8.\<close>

theorem missing_token_is_utf8:
  assumes "getJWT (doubles w) (ssl w) (clock w) a b c d e f = Inr (0, jwt)"
    and "curl_post0 w rqs GOOGLE_TOKEN_URL (''grant_type=urn%3Aietf%3Aparams%3Aoauth%3Agrant-type%3Ajwt-bearer&assertion='' @ jwt) [] =
      ((200, ''{}''), rqs')"
  shows "loadGoogleToken w rqs a b c d e f = Inr ((0, ''UTF-8''), rqs')"
proof -
  have "readValue (doubles w) 1000 ''{}'' = Inr (ObjectValue [], [])"
    using readValue_written [of "ObjectValue []" 1000 "[]" "doubles w"] by (simp add: smap_ok_def)
  then show ?thesis using assms
    by (simp add: loadGoogleToken_def json_parse_def get_member_def find_member_def)
qed

end
