(* ===== verification/SheetConfigs.thy ===== *)
theory SheetConfigs
  imports ArgTable SheetSession
begin

section \<open>Settings of the programs for sheets and files\<close>

text \<open>
  The option tables of pkt2js and of the programs that write Google sheets, the settings their
  parseCmd reads, and the constructors that open a session with the sheet.
\<close>

subsection \<open>pkt2js\<close>

record pkt2js_config =
  pkt2js_filenameInput :: string
  pkt2js_filenameOutput :: string
  pkt2js_proto_path :: string
  pkt2js_force_message :: string
  pkt2js_buffer_size :: u64
  pkt2js_retries :: int
  pkt2js_retry_delay :: int
  pkt2js_allowed_packet_sizes :: "int list"
  pkt2js_verbosity :: u32
  pkt2js_daemonize :: bool
  pkt2js_max_fd :: int
  pkt2js_tableAliases :: "(string, string) smap"
  pkt2js_fieldAliases :: "(string, string) smap"
  pkt2js_properties :: "(string, string) smap"
  pkt2js_path :: string
  pkt2js_input_mode :: int
  pkt2js_output_mode :: int

definition pkt2js_table :: "arg_entry list" where
  "pkt2js_table =
    [arg_str0 ''a_in_url'' (Some CHR ''i'') (Some ''input''),
     arg_str0 ''a_out_url'' (Some CHR ''o'') (Some ''output''),
     arg_str0 ''a_mode'' (Some CHR ''m'') (Some ''output_mode''),
     arg_str0 ''a_proto_path'' (Some CHR ''p'') (Some ''protos''),
     arg_str0 ''a_force_message'' (Some CHR ''f'') (Some ''message''),
     arg_intn ''a_allowed_packet_sizes'' (Some CHR ''a'') (Some ''allow'') 0 128,
     arg_lit0 ''a_input_hex'' (Some CHR ''x'') (Some ''hex''),
     arg_int0 ''a_buffer_size'' (Some CHR ''b'') (Some ''buffer''),
     arg_int0 ''a_retries'' (Some CHR ''r'') (Some ''repeat''),
     arg_int0 ''a_retry_delay'' (Some CHR ''y'') (Some ''delay''),
     arg_int0 ''a_max_fd'' None (Some ''maxfd''),
     arg_strn ''a_table_alias'' (Some CHR ''T'') (Some ''table-alias'') 0 100,
     arg_strn ''a_field_alias'' (Some CHR ''F'') (Some ''field-alias'') 0 100,
     arg_strn ''a_properties'' (Some CHR ''P'') (Some ''properties'') 0 100,
     arg_lit0 ''a_daemonize'' (Some CHR ''d'') (Some ''daemonize''),
     arg_litn ''a_verbosity'' (Some CHR ''v'') (Some ''verbosity'') 0 3,
     arg_lit0 ''a_help'' (Some CHR ''h'') (Some ''help'')]"

definition output_mode_of :: "string list \<Rightarrow> int" where
  "output_mode_of modes =
    (case modes of
       (m # _) # _ \<Rightarrow>
         (case map_of
            [(CHR ''j'', 0), (CHR ''c'', 1), (CHR ''t'', 2), (CHR ''C'', 11), (CHR ''T'', 12), (CHR ''s'', 3),
             (CHR ''S'', 4), (CHR ''p'', 5), (CHR ''d'', 6), (CHR ''h'', 7), (CHR ''b'', 8)] m of
            Some n \<Rightarrow> n | None \<Rightarrow> 0)
     | _ \<Rightarrow> 0)"

definition pkt2js_parseCmd :: "cmd_env \<Rightarrow> string list \<Rightarrow> int + pkt2js_config" where
  "pkt2js_parseCmd e argv =
    (let p = arg_parse pkt2js_table argv
     in if 0 < arg_count p ''a_help'' then Inl (- 62)
      else if nerrors p \<noteq> 0 then Inl (- 1)
      else case realpath e (str_or p ''a_proto_path'' ''proto'') of
        None \<Rightarrow> Inl (- 65)
      | Some proto \<Rightarrow> Inr \<lparr>pkt2js_filenameInput = str_or p ''a_in_url'' [],
          pkt2js_filenameOutput = str_or p ''a_out_url'' [],
          pkt2js_proto_path = proto,
          pkt2js_force_message = str_or p ''a_force_message'' [],
          pkt2js_buffer_size = word_of_int (int_or p ''a_buffer_size'' 4096),
          pkt2js_retries = int_or p ''a_retries'' 0,
          pkt2js_retry_delay = int_or p ''a_retry_delay'' 60,
          pkt2js_allowed_packet_sizes = ints p ''a_allowed_packet_sizes'',
          pkt2js_verbosity = word_of_int (int (arg_count p ''a_verbosity'')),
          pkt2js_daemonize = 0 < arg_count p ''a_daemonize'',
          pkt2js_max_fd = int_or p ''a_max_fd'' 0,
          pkt2js_tableAliases = alias_map (strs p ''a_table_alias''),
          pkt2js_fieldAliases = alias_map (strs p ''a_field_alias''),
          pkt2js_properties = alias_map (strs p ''a_properties''),
          pkt2js_path = getcwd e,
          pkt2js_input_mode = (if 0 < arg_count p ''a_input_hex'' then 1 else indeterminate e ''input_mode''),
          pkt2js_output_mode = output_mode_of (strs p ''a_mode'')\<rparr>)"

subsection \<open>handler-google-sheets\<close>

record handler_google_sheets_config =
  handler_google_sheets_proto_path :: string
  handler_google_sheets_message_url :: string
  handler_google_sheets_allowed_messages :: "string list"
  handler_google_sheets_retries :: int
  handler_google_sheets_retry_delay :: int
  handler_google_sheets_verbosity :: int
  handler_google_sheets_daemonize :: bool
  handler_google_sheets_mode :: int
  handler_google_sheets_format_number :: int
  handler_google_sheets_spreadsheet :: string
  handler_google_sheets_sheet :: string
  handler_google_sheets_buffer_size :: int
  handler_google_sheets_json :: string
  handler_google_sheets_token_file :: string
  handler_google_sheets_subject_email :: string
  handler_google_sheets_scope :: string
  handler_google_sheets_audience :: string
  handler_google_sheets_expires :: int
  handler_google_sheets_path :: string
  handler_google_sheets_tableAliases :: "(string, string) smap"
  handler_google_sheets_fieldAliases :: "(string, string) smap"
  handler_google_sheets_properties :: "(string, string) smap"

definition handler_google_sheets_table :: "arg_entry list" where
  "handler_google_sheets_table =
    [arg_str0 ''a_proto_path'' (Some CHR ''p'') (Some ''protos''),
     arg_str0 ''a_message_url'' (Some CHR ''i'') (Some ''input''),
     arg_strn ''a_allowed_messages'' (Some CHR ''a'') (Some ''allow'') 0 128,
     arg_int0 ''a_retries'' (Some CHR ''r'') (Some ''repeat''),
     arg_int0 ''a_retry_delay'' (Some CHR ''y'') (Some ''delay''),
     arg_file0 ''a_json'' (Some CHR ''g'') (Some ''google''),
     arg_file0 ''a_token_file'' (Some CHR ''B'') (Some ''bearer''),
     arg_str1 ''a_subject_email'' (Some CHR ''e'') (Some ''sub''),
     arg_str1 ''a_spreadsheet'' (Some CHR ''s'') (Some ''spreadsheet''),
     arg_str1 ''a_sheet'' (Some CHR ''t'') (Some ''sheet''),
     arg_int0 ''a_format_number'' None (Some ''format''),
     arg_lit0 ''a_daemonize'' (Some CHR ''d'') (Some ''daemonize''),
     arg_litn ''a_verbosity'' (Some CHR ''v'') (Some ''verbosity'') 0 3,
     arg_int0 ''a_mode'' (Some CHR ''m'') (Some ''mode''),
     arg_int0 ''a_buffer_size'' (Some CHR ''b'') (Some ''buffer''),
     arg_strn ''a_table_alias'' (Some CHR ''T'') (Some ''table-alias'') 0 100,
     arg_strn ''a_field_alias'' (Some CHR ''F'') (Some ''field-alias'') 0 100,
     arg_strn ''a_properties'' (Some CHR ''P'') (Some ''properties'') 0 100,
     arg_lit0 ''a_help'' (Some CHR ''h'') (Some ''help'')]"

definition handler_google_sheets_parseCmd :: "cmd_env \<Rightarrow> string list \<Rightarrow> int + handler_google_sheets_config" where
  "handler_google_sheets_parseCmd e argv =
    (let p = arg_parse handler_google_sheets_table argv
     in if usage_shown p then Inl (- 2)
      else case realpath e (str_or p ''a_proto_path'' ''proto'') of
        None \<Rightarrow> Inl (- 65)
      | Some proto \<Rightarrow> Inr \<lparr>handler_google_sheets_proto_path = proto,
          handler_google_sheets_message_url = str_or p ''a_message_url'' ''ipc:///tmp/message.pkt2'',
          handler_google_sheets_allowed_messages = strs p ''a_allowed_messages'',
          handler_google_sheets_retries = int_or p ''a_retries'' 0,
          handler_google_sheets_retry_delay = int_or p ''a_retry_delay'' 60,
          handler_google_sheets_verbosity = int (arg_count p ''a_verbosity''),
          handler_google_sheets_daemonize = 0 < arg_count p ''a_daemonize'',
          handler_google_sheets_mode = int_or p ''a_mode'' 0,
          handler_google_sheets_format_number = int_or p ''a_format_number'' 0,
          handler_google_sheets_spreadsheet = str_or p ''a_spreadsheet'' [],
          handler_google_sheets_sheet = str_or p ''a_sheet'' [],
          handler_google_sheets_buffer_size = int_or p ''a_buffer_size'' 4096,
          handler_google_sheets_json = str_or p ''a_json'' ''cert/pkt2-sheets.json'',
          handler_google_sheets_token_file = str_or p ''a_token_file'' ''.token-bearer.txt'',
          handler_google_sheets_subject_email = str_or p ''a_subject_email'' [],
          handler_google_sheets_scope = ''https://www.googleapis.com/auth/spreadsheets'',
          handler_google_sheets_audience = ''https://www.googleapis.com/oauth2/v4/token'',
          handler_google_sheets_expires = 3600,
          handler_google_sheets_path = getcwd e,
          handler_google_sheets_tableAliases = alias_map (strs p ''a_table_alias''),
          handler_google_sheets_fieldAliases = alias_map (strs p ''a_field_alias''),
          handler_google_sheets_properties = alias_map (strs p ''a_properties'')\<rparr>)"

subsection \<open>js2sheet\<close>

record js2sheet_config =
  js2sheet_filename_input :: string
  js2sheet_buffer_size :: u64
  js2sheet_retries :: int
  js2sheet_retry_delay :: int
  js2sheet_verbosity :: int
  js2sheet_daemonize :: bool
  js2sheet_format_number :: int
  js2sheet_spreadsheet :: string
  js2sheet_sheet :: string
  js2sheet_json :: string
  js2sheet_token_file :: string
  js2sheet_subject_email :: string
  js2sheet_scope :: string
  js2sheet_audience :: string
  js2sheet_expires :: int
  js2sheet_path :: string

definition js2sheet_table :: "arg_entry list" where
  "js2sheet_table =
    [arg_str0 ''a_proto_path'' (Some CHR ''p'') (Some ''protos''),
     arg_str0 ''a_filename_input'' (Some CHR ''i'') (Some ''input''),
     arg_int0 ''a_retries'' (Some CHR ''r'') (Some ''repeat''),
     arg_int0 ''a_retry_delay'' (Some CHR ''y'') (Some ''delay''),
     arg_file0 ''a_json'' (Some CHR ''g'') (Some ''google''),
     arg_file0 ''a_token_file'' (Some CHR ''B'') (Some ''bearer''),
     arg_str1 ''a_subject_email'' (Some CHR ''e'') (Some ''sub''),
     arg_str1 ''a_spreadsheet'' (Some CHR ''s'') (Some ''spreadsheet''),
     arg_str1 ''a_sheet'' (Some CHR ''t'') (Some ''sheet''),
     arg_int0 ''a_format_number'' None (Some ''format''),
     arg_lit0 ''a_daemonize'' (Some CHR ''d'') (Some ''daemonize''),
     arg_litn ''a_verbosity'' (Some CHR ''v'') (Some ''verbosity'') 0 3,
     arg_int0 ''a_buffer_size'' (Some CHR ''b'') (Some ''buffer''),
     arg_lit0 ''a_help'' (Some CHR ''h'') (Some ''help'')]"

definition js2sheet_parseCmd :: "cmd_env \<Rightarrow> string list \<Rightarrow> int + js2sheet_config" where
  "js2sheet_parseCmd e argv =
    (let p = arg_parse js2sheet_table argv
     in if 0 < arg_count p ''a_help'' then Inl (- 62)
      else if nerrors p \<noteq> 0 then Inl (- 2)
      else Inr \<lparr>js2sheet_filename_input = str_or p ''a_filename_input'' [],
          js2sheet_buffer_size = word_of_int (int_or p ''a_buffer_size'' 4096),
          js2sheet_retries = int_or p ''a_retries'' 0,
          js2sheet_retry_delay = int_or p ''a_retry_delay'' 60,
          js2sheet_verbosity = int (arg_count p ''a_verbosity''),
          js2sheet_daemonize = 0 < arg_count p ''a_daemonize'',
          js2sheet_format_number = int_or p ''a_format_number'' 0,
          js2sheet_spreadsheet = str_or p ''a_spreadsheet'' [],
          js2sheet_sheet = str_or p ''a_sheet'' [],
          js2sheet_json = str_or p ''a_json'' ''cert/pkt2-sheets.json'',
          js2sheet_token_file = str_or p ''a_token_file'' ''.token-bearer.txt'',
          js2sheet_subject_email = str_or p ''a_subject_email'' [],
          js2sheet_scope = ''https://www.googleapis.com/auth/spreadsheets'',
          js2sheet_audience = ''https://www.googleapis.com/oauth2/v4/token'',
          js2sheet_expires = 3600,
          js2sheet_path = getcwd e\<rparr>)"

subsection \<open>pkt2sheet\<close>

record pkt2sheet_config =
  pkt2sheet_proto_path :: string
  pkt2sheet_filename_input :: string
  pkt2sheet_force_message :: string
  pkt2sheet_allowed_messages :: "string list"
  pkt2sheet_retries :: int
  pkt2sheet_retry_delay :: int
  pkt2sheet_verbosity :: int
  pkt2sheet_daemonize :: bool
  pkt2sheet_format_number :: int
  pkt2sheet_spreadsheet :: string
  pkt2sheet_sheet :: string
  pkt2sheet_buffer_size :: int
  pkt2sheet_json :: string
  pkt2sheet_token_file :: string
  pkt2sheet_subject_email :: string
  pkt2sheet_allowed_packet_sizes :: "int list"
  pkt2sheet_tableAliases :: "(string, string) smap"
  pkt2sheet_fieldAliases :: "(string, string) smap"
  pkt2sheet_properties :: "(string, string) smap"
  pkt2sheet_scope :: string
  pkt2sheet_audience :: string
  pkt2sheet_expires :: int
  pkt2sheet_path :: string
  pkt2sheet_input_mode :: int

definition pkt2sheet_table :: "arg_entry list" where
  "pkt2sheet_table =
    [arg_str0 ''a_proto_path'' (Some CHR ''p'') (Some ''protos''),
     arg_str0 ''a_filename_input'' (Some CHR ''i'') (Some ''input''),
     arg_lit0 ''a_input_hex'' (Some CHR ''x'') (Some ''hex''),
     arg_str0 ''a_force_message'' (Some CHR ''f'') (Some ''message''),
     arg_strn ''a_allowed_messages'' (Some CHR ''a'') (Some ''allow'') 0 128,
     arg_intn ''a_allowed_packet_sizes'' (Some CHR ''A'') (Some ''allow-size'') 0 128,
     arg_int0 ''a_retries'' (Some CHR ''r'') (Some ''repeat''),
     arg_int0 ''a_retry_delay'' (Some CHR ''y'') (Some ''delay''),
     arg_file0 ''a_json'' (Some CHR ''g'') (Some ''google''),
     arg_file0 ''a_token_file'' (Some CHR ''B'') (Some ''bearer''),
     arg_str1 ''a_subject_email'' (Some CHR ''e'') (Some ''sub''),
     arg_str1 ''a_spreadsheet'' (Some CHR ''s'') (Some ''spreadsheet''),
     arg_str1 ''a_sheet'' (Some CHR ''t'') (Some ''sheet''),
     arg_int0 ''a_format_number'' None (Some ''format''),
     arg_strn ''a_table_alias'' (Some CHR ''T'') (Some ''table-alias'') 0 100,
     arg_strn ''a_field_alias'' (Some CHR ''F'') (Some ''field-alias'') 0 100,
     arg_strn ''a_properties'' (Some CHR ''P'') (Some ''properties'') 0 100,
     arg_lit0 ''a_daemonize'' (Some CHR ''d'') (Some ''daemonize''),
     arg_litn ''a_verbosity'' (Some CHR ''v'') (Some ''verbosity'') 0 3,
     arg_int0 ''a_buffer_size'' (Some CHR ''b'') (Some ''buffer''),
     arg_lit0 ''a_help'' (Some CHR ''h'') (Some ''help'')]"

definition pkt2sheet_parseCmd :: "cmd_env \<Rightarrow> string list \<Rightarrow> int + pkt2sheet_config" where
  "pkt2sheet_parseCmd e argv =
    (let p = arg_parse pkt2sheet_table argv
     in if 0 < arg_count p ''a_help'' then Inl (- 62)
      else if nerrors p \<noteq> 0 then Inl (- 2)
      else case realpath e (str_or p ''a_proto_path'' ''proto'') of
        None \<Rightarrow> Inl (- 65)
      | Some proto \<Rightarrow> Inr \<lparr>pkt2sheet_proto_path = proto,
          pkt2sheet_filename_input = str_or p ''a_filename_input'' [],
          pkt2sheet_force_message = str_or p ''a_force_message'' [],
          pkt2sheet_allowed_messages = strs p ''a_allowed_messages'',
          pkt2sheet_retries = int_or p ''a_retries'' 0,
          pkt2sheet_retry_delay = int_or p ''a_retry_delay'' 60,
          pkt2sheet_verbosity = int (arg_count p ''a_verbosity''),
          pkt2sheet_daemonize = 0 < arg_count p ''a_daemonize'',
          pkt2sheet_format_number = int_or p ''a_format_number'' 0,
          pkt2sheet_spreadsheet = str_or p ''a_spreadsheet'' [],
          pkt2sheet_sheet = str_or p ''a_sheet'' [],
          pkt2sheet_buffer_size = int_or p ''a_buffer_size'' 4096,
          pkt2sheet_json = str_or p ''a_json'' ''cert/pkt2-sheets.json'',
          pkt2sheet_token_file = str_or p ''a_token_file'' ''.token-bearer.txt'',
          pkt2sheet_subject_email = str_or p ''a_subject_email'' [],
          pkt2sheet_allowed_packet_sizes = ints p ''a_allowed_packet_sizes'',
          pkt2sheet_tableAliases = alias_map (strs p ''a_table_alias''),
          pkt2sheet_fieldAliases = alias_map (strs p ''a_field_alias''),
          pkt2sheet_properties = alias_map (strs p ''a_properties''),
          pkt2sheet_scope = ''https://www.googleapis.com/auth/spreadsheets'',
          pkt2sheet_audience = ''https://www.googleapis.com/oauth2/v4/token'',
          pkt2sheet_expires = 3600,
          pkt2sheet_path = getcwd e,
          pkt2sheet_input_mode = (if 0 < arg_count p ''a_input_hex'' then 1 else indeterminate e ''input_mode'')\<rparr>)"


subsection \<open>The constructors of the programs that write sheets\<close>

text \<open>
  The text of a file is a function of its name. The result Inl is the code the program ends
  with; a fault is an exception of the reader of the credentials or of the first request for a
  token. The subject of the credentials replaces a subject that is not given.
\<close>

definition open_sheets ::
  "web \<Rightarrow> (string \<Rightarrow> string) \<Rightarrow> string \<Rightarrow> string \<Rightarrow> string \<Rightarrow> string \<Rightarrow> string \<Rightarrow> string \<Rightarrow>
   (int + string \<times> sheets) result" where
  "open_sheets w file2string json token_file subject_email spreadsheet scop audience =
     bindR (readGoogleTokenJSON (doubles w) (file2string json)) (\<lambda>r.
       let (service_account, pemkey, pub_email) = (case r of None \<Rightarrow> ([], [], []) | Some x \<Rightarrow> x)
       in if pemkey = [] \<or> service_account = [] then Inr (Inl (- 54))
          else let subject = (if subject_email = [] then pub_email else subject_email)
               in bindR (new_sheets w spreadsheet (file2string token_file) service_account subject
                    pemkey scop audience True) (\<lambda>s. Inr (Inr (subject, s))))"

definition handler_google_sheets_Config ::
  "web \<Rightarrow> (string \<Rightarrow> string) \<Rightarrow> cmd_env \<Rightarrow> string list \<Rightarrow> (int + handler_google_sheets_config \<times> sheets) result" where
  "handler_google_sheets_Config w file2string e argv =
     (case handler_google_sheets_parseCmd e argv of
        Inl code \<Rightarrow> Inr (Inl (- 1))
      | Inr c \<Rightarrow>
          bindR (open_sheets w file2string (handler_google_sheets_json c) (handler_google_sheets_token_file c)
              (handler_google_sheets_subject_email c) (handler_google_sheets_spreadsheet c) (handler_google_sheets_scope c)
              (handler_google_sheets_audience c)) (\<lambda>r.
            Inr (map_sum id (\<lambda>(subject, s). (c\<lparr>handler_google_sheets_subject_email := subject\<rparr>, s)) r)))"

definition js2sheet_Config ::
  "web \<Rightarrow> (string \<Rightarrow> string) \<Rightarrow> cmd_env \<Rightarrow> string list \<Rightarrow> (int + js2sheet_config \<times> sheets) result" where
  "js2sheet_Config w file2string e argv =
     (case js2sheet_parseCmd e argv of
        Inl code \<Rightarrow> Inr (Inl (code))
      | Inr c \<Rightarrow>
          bindR (open_sheets w file2string (js2sheet_json c) (js2sheet_token_file c)
              (js2sheet_subject_email c) (js2sheet_spreadsheet c) (js2sheet_scope c)
              (js2sheet_audience c)) (\<lambda>r.
            Inr (map_sum id (\<lambda>(subject, s). (c\<lparr>js2sheet_subject_email := subject\<rparr>, s)) r)))"

definition pkt2sheet_Config ::
  "web \<Rightarrow> (string \<Rightarrow> string) \<Rightarrow> cmd_env \<Rightarrow> string list \<Rightarrow> (int + pkt2sheet_config \<times> sheets) result" where
  "pkt2sheet_Config w file2string e argv =
     (case pkt2sheet_parseCmd e argv of
        Inl code \<Rightarrow> Inr (Inl (code))
      | Inr c \<Rightarrow>
          bindR (open_sheets w file2string (pkt2sheet_json c) (pkt2sheet_token_file c)
              (pkt2sheet_subject_email c) (pkt2sheet_spreadsheet c) (pkt2sheet_scope c)
              (pkt2sheet_audience c)) (\<lambda>r.
            Inr (map_sum id (\<lambda>(subject, s). (c\<lparr>pkt2sheet_subject_email := subject\<rparr>, s)) r)))"

end
