(* ===== verification/ChildSettings.thy ===== *)
theory ChildSettings
  imports SupervisorConfig ReceiverConfigs HandlerConfigs SheetConfigs
begin

section \<open>What the programs make of the command lines of the supervisor\<close>

text \<open>
  The supervisor writes the settings of a program into a command line, and the program reads
  its own settings from it. For each kind of program: the options of the command line as names
  and values, the proof that argtable3 finds them, and the settings the program ends up with.
\<close>

subsection \<open>Pieces\<close>

definition kv_opt :: "bool \<Rightarrow> (string \<times> arg_value) list \<Rightarrow> (string \<times> arg_value) list" where
  "kv_opt b kvs = (if b then kvs else [])"

lemma given_kv_opt [simp]:
  "given (kv_opt b [(k, v)]) n = (if k = n then if b then [v] else [] else [])"
  "given (kv_opt b (map (\<lambda>x. (k, f x)) xs)) n = (if k = n then if b then map f xs else [] else [])"
  "kv_opt a (kv_opt b kvs) = kv_opt (a \<and> b) kvs"
  "given (map (\<lambda>x. (k, f x)) xs) n = (if k = n then map f xs else [])"
  by (simp_all add: kv_opt_def given_map)

lemma adds_opt: "(b \<Longrightarrow> adds table xs kvs) \<Longrightarrow> adds table (opt b xs) (kv_opt b kvs)"
  by (simp add: opt_def kv_opt_def adds_nil)

definition int_arg :: "int \<Rightarrow> bool" where
  "int_arg i = (INT_MIN \<le> i \<and> i \<le> INT_MAX)"

lemmas entry_defs = arg_lit0_def arg_str0_def arg_str1_def arg_int0_def arg_file0_def
  arg_litn_def arg_strn_def arg_intn_def arg_filen_def

text \<open>An option with one letter, or with a name, that stands for an entry of a kind.\<close>

definition short_entry :: "arg_entry list \<Rightarrow> char \<Rightarrow> arg_kind set \<Rightarrow> string \<Rightarrow> bool" where
  "short_entry table c ks n =
     (case find_short table c of None \<Rightarrow> False
      | Some e \<Rightarrow> c \<noteq> CHR ''-'' \<and> entry_kind e \<in> ks \<and> entry_name e = n)"

definition long_entry :: "arg_entry list \<Rightarrow> string \<Rightarrow> arg_kind set \<Rightarrow> string \<Rightarrow> bool" where
  "long_entry table l ks n =
     (case find_long table l None of Some (Some e) \<Rightarrow>
        CHR ''='' \<notin> set l \<and> l \<noteq> [] \<and> entry_kind e \<in> ks \<and> entry_name e = n
      | _ \<Rightarrow> False)"

lemma adds_arg_str:
  "short_entry table c {ArgStr, ArgFile} n \<Longrightarrow> adds table (arg_str [CHR ''-'', c] v) [(n, TextArg v)]"
  using adds_short [of table c _ v "TextArg v"]
  by (auto simp: short_entry_def arg_str_def has_value_def arg_value_of_def split: option.splits)

lemma adds_arg_num:
  "short_entry table c {ArgInt} n \<Longrightarrow> int_arg i \<Longrightarrow> adds table (arg_num [CHR ''-'', c] i) [(n, IntArg i)]"
  using adds_short [of table c _ "int_str i" "IntArg i"]
  by (auto simp: short_entry_def arg_num_def has_value_def arg_value_of_def int_arg_def
      arg_int_value_int_str split: option.splits)

lemma adds_long_str:
  "long_entry table l {ArgStr, ArgFile} n \<Longrightarrow> v \<noteq> [] \<Longrightarrow>
   adds table (arg_str (CHR ''-'' # CHR ''-'' # l) v) [(n, TextArg v)]"
  using adds_long [of table l _ v "TextArg v"]
  by (auto simp: long_entry_def arg_str_def has_value_def arg_value_of_def split: option.splits)

lemma int_str_not_Nil: "int_str i \<noteq> []"
  by (simp add: int_str_def)

lemma adds_long_num:
  "long_entry table l {ArgInt} n \<Longrightarrow> int_arg i \<Longrightarrow>
   adds table (arg_num (CHR ''-'' # CHR ''-'' # l) i) [(n, IntArg i)]"
  using adds_long [of table l _ "int_str i" "IntArg i"]
  by (auto simp: long_entry_def arg_num_def has_value_def arg_value_of_def int_arg_def
      arg_int_value_int_str int_str_not_Nil split: option.splits)

definition kv_verbosity :: "cfg_common \<Rightarrow> (string \<times> arg_value) list" where
  "kv_verbosity m = replicate (nat (cc_verbosity m)) (''a_verbosity'', Switch)"

lemma given_replicate: "given (replicate k (a, x)) n = (if a = n then replicate k x else [])"
  by (induction k) simp_all

lemma given_verbosity [simp]:
  "given (kv_verbosity m) n = (if ''a_verbosity'' = n then replicate (nat (cc_verbosity m)) Switch else [])"
  unfolding kv_verbosity_def by (rule given_replicate)

lemma adds_verbosity:
  assumes "short_entry table CHR ''v'' {ArgLit} ''a_verbosity''"
  shows "adds table (arg_verbosity m) (kv_verbosity m)"
proof (cases "0 < cc_verbosity m")
  case True
  then show ?thesis using assms adds_switches [of table "CHR ''v''" _ "nat (cc_verbosity m)"]
    by (auto simp: short_entry_def arg_verbosity_def kv_verbosity_def opt_def split: option.splits)
next
  case False
  then show ?thesis by (simp add: arg_verbosity_def kv_verbosity_def opt_def adds_nil)
qed

lemma adds_strs:
  "(\<And>v. adds table (f v) [(n, g v)]) \<Longrightarrow> adds table (concat (map f vs)) (map (\<lambda>v. (n, g v)) vs)"
  using adds_concat [of vs table f "\<lambda>v. [(n, g v)]"] by (simp add: concat_map_singleton)

lemma adds_nums:
  "(\<And>v. v \<in> set vs \<Longrightarrow> adds table (f v) [(n, g v)]) \<Longrightarrow>
   adds table (concat (map f vs)) (map (\<lambda>v. (n, g v)) vs)"
  using adds_concat [of vs table f "\<lambda>v. [(n, g v)]"] by (simp add: concat_map_singleton)

subsection \<open>A TCP listener\<close>

text \<open>The settings every program reads that has the option.\<close>

definition buffer_of :: "cfg_common \<Rightarrow> int" where
  "buffer_of m = (if cc_max_buffer_size m = 0 then 4096 else cc_max_buffer_size m)"

definition common_fits :: "cfg_common \<Rightarrow> bool" where
  "common_fits m = (int_arg (cc_max_file_descriptors m) \<and> int_arg (cc_max_buffer_size m) \<and> cc_verbosity m \<le> 3)"

definition tcp_given :: "cfg_common \<Rightarrow> cfg_tcp \<Rightarrow> (string \<times> arg_value) list" where
  "tcp_given m c =
     kv_opt (tcp_ip c \<noteq> ''0.0.0.0'') [(''a_interface'', TextArg (tcp_ip c))]
   @ kv_opt (tcp_port c \<noteq> 50052) [(''a_port'', IntArg (tcp_port c))]
   @ kv_opt (tcp_compression_type c \<noteq> 0) [(''a_compression_type'', IntArg (tcp_compression_type c))]
   @ kv_opt (tcp_escape_code c = []) [(''a_escape_code'', TextArg (tcp_escape_code c))]
   @ kv_opt (tcp_compression_offset c \<noteq> 0) [(''a_compression_offset'', IntArg (tcp_compression_offset c))]
   @ kv_opt (tcp_frequence_file c \<noteq> []) [(''a_frequence_file'', TextArg (tcp_frequence_file c))]
   @ kv_opt (tcp_codemap_file c \<noteq> []) [(''a_codemap_file'', TextArg (tcp_codemap_file c))]
   @ map (\<lambda>v. (''a_valid_sizes'', IntArg v)) (tcp_valid_sizes c)
   @ kv_verbosity m
   @ kv_opt (cc_bus_in m \<noteq> ''ipc:///tmp/packet.pkt2'') [(''a_message_url'', TextArg (cc_bus_in m))]
   @ kv_opt (cc_max_file_descriptors m \<noteq> 0) [(''a_max_fd'', IntArg (cc_max_file_descriptors m))]
   @ kv_opt (cc_max_buffer_size m \<noteq> 0)
       (kv_opt (cc_max_buffer_size m \<noteq> 4096) [(''a_buffer_size'', IntArg (cc_max_buffer_size m))])"

definition tcp_fits :: "cfg_tcp \<Rightarrow> bool" where
  "tcp_fits c = (int_arg (tcp_port c) \<and> int_arg (tcp_compression_type c) \<and>
     int_arg (tcp_compression_offset c) \<and> (\<forall>v \<in> set (tcp_valid_sizes c). int_arg v) \<and>
     length (tcp_valid_sizes c) \<le> 256)"

lemmas common_args = arg_bus_in_def arg_bus_out_def arg_maxfd_def arg_buffer_def arg_buffer_set_def
  arg_proto_def arg_proto_set_def

lemma tcp_adds:
  assumes "common_fits m" "tcp_fits c"
  shows "adds tcpreceiver_table (tcp_args (Some m) c) (tcp_given m c)"
  unfolding tcp_args_def tcp_given_def if_common_def option.case common_args
  by (intro adds_append adds_opt adds_strs adds_nums;
      rule adds_arg_str adds_arg_num adds_long_num adds_verbosity;
      use assms in \<open>simp add: tcpreceiver_table_def entry_defs common_fits_def tcp_fits_def short_entry_def long_entry_def\<close>)

lemma parsed_simps:
  "usage_shown \<lparr>arg_vals = vs, nerrors = k\<rparr> = (vs ''a_help'' \<noteq> [] \<or> k \<noteq> 0)"
  "arg_count \<lparr>arg_vals = vs, nerrors = k\<rparr> n = length (vs n)"
  "str_or \<lparr>arg_vals = vs, nerrors = k\<rparr> n d = (case vs n of [] \<Rightarrow> d | v # _ \<Rightarrow> text_of_arg v)"
  "int_or \<lparr>arg_vals = vs, nerrors = k\<rparr> n i = (case vs n of [] \<Rightarrow> i | v # _ \<Rightarrow> int_of_arg v)"
  "strs \<lparr>arg_vals = vs, nerrors = k\<rparr> n = map text_of_arg (vs n)"
  "ints \<lparr>arg_vals = vs, nerrors = k\<rparr> n = map int_of_arg (vs n)"
  by (simp_all add: usage_shown_def arg_count_def str_or_def int_or_def strs_def ints_def split: list.split)

lemma case_if_list:
  "(case (if b then x # xs else []) of [] \<Rightarrow> d | v # _ \<Rightarrow> f v) = (if b then f x else d)"
  "(case (if b then [] else x # xs) of [] \<Rightarrow> d | v # _ \<Rightarrow> f v) = (if b then d else f x)"
  by simp_all

lemma if_default: "(if x = d then d else x) = x" "(if d = x then d else x) = x" "(if x \<noteq> d then x else d) = x"
  by simp_all

lemma room_if: "length (if b then [v] else []) \<le> Suc 0"
  "length xs \<le> k \<Longrightarrow> length (if b then map f xs else []) \<le> k" "[] \<noteq> (if b then [v] else []) \<longleftrightarrow> b"
  by simp_all

lemma tcp_parse:
  assumes "common_fits m" "tcp_fits c"
  shows "arg_parse tcpreceiver_table (tcp_args (Some m) c) = \<lparr>arg_vals = given (tcp_given m c), nerrors = 0\<rparr>"
  using assms
  by (intro arg_parse_adds [OF tcp_adds])
    (simp_all add: tcpreceiver_table_def entry_defs tcp_given_def room_if common_fits_def tcp_fits_def
      nat_le_iff split del: if_split)

text \<open>
  C32: A TCP listener that the supervisor starts reads the settings of the supervisor from its
  command line, however argtable3 finds them: the address, the port, the sizes, the compression,
  the bus, the limits and the verbosity. Only the escape code is lost.
\<close>

theorem tcp_child_settings:
  assumes "common_fits m" "tcp_fits c"
  shows "tcpreceiver_parseCmd e (tcp_args (Some m) c) =
    Inr \<lparr>tcpreceiver_intface = tcp_ip c, tcpreceiver_port = word_of_int (tcp_port c),
         tcpreceiver_message_url = cc_bus_in m, tcpreceiver_buffer_size = word_of_int (buffer_of m),
         tcpreceiver_retries = 0, tcpreceiver_retry_delay = 60,
         tcpreceiver_compression_type = tcp_compression_type c, tcpreceiver_escape_code = [],
         tcpreceiver_eof_code = [], tcpreceiver_compression_offset = tcp_compression_offset c,
         tcpreceiver_frequence_file = tcp_frequence_file c, tcpreceiver_codemap_file = tcp_codemap_file c,
         tcpreceiver_valid_sizes = map word_of_int (tcp_valid_sizes c),
         tcpreceiver_verbosity = word_of_int (max 0 (cc_verbosity m)), tcpreceiver_daemonize = False,
         tcpreceiver_max_fd = cc_max_file_descriptors m, tcpreceiver_path = getcwd e\<rparr>"
  unfolding tcpreceiver_parseCmd_def tcp_parse [OF assms]
  by (simp add: parsed_simps tcp_given_def case_if_list if_default buffer_of_def Let_def comp_def
      split del: if_split)
    (simp add: max_def)

theorem tcp_child_settings_witness:
  "tcpreceiver_parseCmd \<lparr>realpath = Some, getcwd = ''/'', indeterminate = (\<lambda>n. 0)\<rparr>
     (tcp_args (Some (cfg_common_new\<lparr>cc_verbosity := 2\<rparr>)) (cfg_tcp_new\<lparr>tcp_port := 50055, tcp_valid_sizes := [10, 81]\<rparr>)) =
   Inr \<lparr>tcpreceiver_intface = ''0.0.0.0'', tcpreceiver_port = 50055,
        tcpreceiver_message_url = ''ipc:///tmp/packet.pkt2'', tcpreceiver_buffer_size = 4096,
        tcpreceiver_retries = 0, tcpreceiver_retry_delay = 60, tcpreceiver_compression_type = 0,
        tcpreceiver_escape_code = [], tcpreceiver_eof_code = [], tcpreceiver_compression_offset = 0,
        tcpreceiver_frequence_file = [], tcpreceiver_codemap_file = [], tcpreceiver_valid_sizes = [10, 81],
        tcpreceiver_verbosity = 2, tcpreceiver_daemonize = False, tcpreceiver_max_fd = 0,
        tcpreceiver_path = ''/''\<rparr>"
  by (subst tcp_child_settings)
    (simp_all add: cfg_common_new_def cfg_tcp_new_def common_fits_def tcp_fits_def int_arg_def
      INT_MIN_def INT_MAX_def buffer_of_def)

subsection \<open>More pieces\<close>

definition proto_of :: "cfg_common \<Rightarrow> string" where
  "proto_of m = (if cc_proto_path m = [] then ''proto'' else cc_proto_path m)"

text \<open>An entry of texts that gets a number, and a switch alone.\<close>

lemma adds_arg_dec:
  "short_entry table c {ArgStr, ArgFile} n \<Longrightarrow>
   adds table (arg_num [CHR ''-'', c] i) [(n, TextArg (int_str i))]"
  using adds_arg_str [of table c n "int_str i"] by (simp add: arg_num_def arg_str_def)

lemma adds_long_dec:
  "long_entry table l {ArgStr, ArgFile} n \<Longrightarrow>
   adds table (arg_num (CHR ''-'' # CHR ''-'' # l) i) [(n, TextArg (int_str i))]"
  using adds_long_str [of table l n "int_str i"] int_str_not_Nil by (simp add: arg_num_def arg_str_def)

lemma int_str_5432: "int_str 5432 = ''5432''"
  by (simp add: int_str_def dec_str.simps digit_def) code_simp

lemma adds_flag: "short_entry table c {ArgLit} n \<Longrightarrow> adds table [[CHR ''-'', c]] [(n, Switch)]"
  using adds_switch [of table c] by (auto simp: short_entry_def split: option.splits)

subsection \<open>An MQTT listener\<close>

definition mqtt_given :: "cfg_common \<Rightarrow> cfg_mqtt \<Rightarrow> (string \<times> arg_value) list" where
  "mqtt_given m c =
     [(''a_client_id'', TextArg (mqtt_client c))]
   @ [(''a_broker_address'', TextArg (mqtt_broker c))]
   @ [(''a_topic'', TextArg (mqtt_topic c))]
   @ [(''a_broker_port'', IntArg (mqtt_port c))]
   @ [(''a_qos'', IntArg (mqtt_qos c))]
   @ kv_verbosity m
   @ kv_opt (cc_bus_in m \<noteq> ''ipc:///tmp/packet.pkt2'') [(''a_message_url'', TextArg (cc_bus_in m))]
   @ kv_opt (cc_max_file_descriptors m \<noteq> 0) [(''a_max_fd'', IntArg (cc_max_file_descriptors m))]"

definition mqtt_fits :: "cfg_mqtt \<Rightarrow> bool" where
  "mqtt_fits c = (int_arg (mqtt_port c) \<and>
     int_arg (mqtt_qos c))"

lemma mqtt_adds:
  assumes "common_fits m" "mqtt_fits c"
  shows "adds mqtt_receiver_table (mqtt_args (Some m) c) (mqtt_given m c)"
  unfolding mqtt_args_def mqtt_given_def if_common_def option.case common_args
  by (intro adds_append adds_opt adds_strs adds_nums;
      rule adds_arg_str adds_arg_num adds_long_str adds_arg_dec adds_long_num adds_long_dec adds_verbosity adds_flag;
      use assms in \<open>simp add: mqtt_receiver_table_def entry_defs common_fits_def mqtt_fits_def short_entry_def long_entry_def\<close>)

lemma mqtt_parse:
  assumes "common_fits m" "mqtt_fits c"
  shows "arg_parse mqtt_receiver_table (mqtt_args (Some m) c) = \<lparr>arg_vals = given (mqtt_given m c), nerrors = 0\<rparr>"
  using assms
  by (intro arg_parse_adds [OF mqtt_adds])
    (simp_all add: mqtt_receiver_table_def entry_defs mqtt_given_def room_if common_fits_def mqtt_fits_def nat_le_iff split del: if_split)

theorem mqtt_child_settings:
  assumes "common_fits m" "mqtt_fits c"
  shows "mqtt_receiver_parseCmd e (mqtt_args (Some m) c) =
    Inr \<lparr>mqtt_receiver_topics = [mqtt_topic c],
         mqtt_receiver_broker_address = mqtt_broker c,
         mqtt_receiver_broker_port = word_of_int (mqtt_port c),
         mqtt_receiver_qos = word_of_int (mqtt_qos c),
         mqtt_receiver_client_id = mqtt_client c,
         mqtt_receiver_keep_alive_interval = 20,
         mqtt_receiver_reconnect_delay = 5,
         mqtt_receiver_message_url = cc_bus_in m,
         mqtt_receiver_retries = 0,
         mqtt_receiver_retry_delay = 60,
         mqtt_receiver_verbosity = word_of_int (max 0 (cc_verbosity m)),
         mqtt_receiver_daemonize = False,
         mqtt_receiver_max_fd = cc_max_file_descriptors m,
         mqtt_receiver_path = getcwd e\<rparr>"
  unfolding mqtt_receiver_parseCmd_def mqtt_parse [OF assms] Let_def
  by (simp add: parsed_simps mqtt_given_def case_if_list if_default buffer_of_def comp_def split del: if_split)
    (simp add: max_def alias_map_def)

subsection \<open>A listener on a file\<close>

definition file_given :: "cfg_common \<Rightarrow> cfg_file \<Rightarrow> (string \<times> arg_value) list" where
  "file_given m c =
     [(''a_filename_in'', TextArg (file_file c))]
   @ [(''a_cmd_text'', TextArg (int_str (cfg_file.file_mode c)))]
   @ kv_verbosity m
   @ kv_opt (cc_bus_in m \<noteq> ''ipc:///tmp/packet.pkt2'') [(''a_message_url'', TextArg (cc_bus_in m))]
   @ kv_opt (cc_max_file_descriptors m \<noteq> 0) [(''a_max_fd'', IntArg (cc_max_file_descriptors m))]"

lemma file_adds:
  assumes "common_fits m"
  shows "adds freceiver_table (file_args (Some m) c) (file_given m c)"
  unfolding file_args_def file_given_def if_common_def option.case common_args
  by (intro adds_append adds_opt adds_strs adds_nums;
      rule adds_arg_str adds_arg_num adds_long_str adds_arg_dec adds_long_num adds_long_dec adds_verbosity adds_flag;
      use assms in \<open>simp add: freceiver_table_def entry_defs common_fits_def short_entry_def long_entry_def\<close>)

lemma file_parse:
  assumes "common_fits m"
  shows "arg_parse freceiver_table (file_args (Some m) c) = \<lparr>arg_vals = given (file_given m c), nerrors = 0\<rparr>"
  using assms
  by (intro arg_parse_adds [OF file_adds])
    (simp_all add: freceiver_table_def entry_defs file_given_def room_if common_fits_def nat_le_iff split del: if_split)

theorem file_child_settings:
  assumes "common_fits m" "realpath e (''proto'') = Some proto"
  shows "freceiver_parseCmd e (file_args (Some m) c) =
    Inr \<lparr>freceiver_file_mode = file_mode_of [int_str (cfg_file.file_mode c)],
         freceiver_filename_in = file_file c,
         freceiver_packet_size = 0,
         freceiver_message_url = cc_bus_in m,
         freceiver_proto_path = proto,
         freceiver_mode = - 1,
         freceiver_buffer_size = 4096,
         freceiver_retries = 0,
         freceiver_retry_delay = 60,
         freceiver_sql_dialect = indeterminate e ''sql_dialect'',
         freceiver_tableAliases = [],
         freceiver_fieldAliases = [],
         freceiver_properties = [],
         freceiver_verbosity = word_of_int (max 0 (cc_verbosity m)),
         freceiver_daemonize = False,
         freceiver_max_fd = cc_max_file_descriptors m,
         freceiver_path = getcwd e\<rparr>"
proof -
  have p: "str_or \<lparr>arg_vals = given (file_given m c), nerrors = 0\<rparr> ''a_proto_path'' ''proto'' = ''proto''"
    by (simp add: parsed_simps file_given_def case_if_list if_default proto_of_def)
  show ?thesis
    unfolding freceiver_parseCmd_def file_parse [OF assms(1)] Let_def p assms(2) option.case
    by (simp add: parsed_simps file_given_def case_if_list if_default buffer_of_def comp_def split del: if_split)
      (simp add: max_def alias_map_def)
qed

subsection \<open>A packet parser\<close>

definition p2m_given :: "cfg_common \<Rightarrow> cfg_p2m \<Rightarrow> (string \<times> arg_value) list" where
  "p2m_given m c =
     kv_opt (p2m_force_message c \<noteq> []) [(''a_force_message'', TextArg (p2m_force_message c))]
   @ map (\<lambda>v. (''a_allowed_packet_sizes'', IntArg v)) (p2m_sizes c)
   @ kv_verbosity m
   @ kv_opt (cc_bus_in m \<noteq> ''ipc:///tmp/packet.pkt2'') [(''a_in_url'', TextArg (cc_bus_in m))]
   @ kv_opt (cc_bus_out m \<noteq> ''ipc:///tmp/message.pkt2'') [(''a_out_url'', TextArg (cc_bus_out m))]
   @ kv_opt (cc_proto_path m \<noteq> [])
       (kv_opt (cc_proto_path m \<noteq> ''proto'') [(''a_proto_path'', TextArg (cc_proto_path m))])
   @ kv_opt (cc_max_buffer_size m \<noteq> 0)
       (kv_opt (cc_max_buffer_size m \<noteq> 4096) [(''a_buffer_size'', IntArg (cc_max_buffer_size m))])
   @ kv_opt (cc_max_file_descriptors m \<noteq> 0) [(''a_max_fd'', IntArg (cc_max_file_descriptors m))]"

definition p2m_fits :: "cfg_p2m \<Rightarrow> bool" where
  "p2m_fits c = ((\<forall>v \<in> set (p2m_sizes c). int_arg v) \<and>
     length (p2m_sizes c) \<le> 128)"

lemma p2m_adds:
  assumes "common_fits m" "p2m_fits c"
  shows "adds pkt2receiver_table (p2m_args (Some m) c) (p2m_given m c)"
  unfolding p2m_args_def p2m_given_def if_common_def option.case common_args
  by (intro adds_append adds_opt adds_strs adds_nums;
      rule adds_arg_str adds_arg_num adds_long_str adds_arg_dec adds_long_num adds_long_dec adds_verbosity adds_flag;
      use assms in \<open>simp add: pkt2receiver_table_def entry_defs common_fits_def p2m_fits_def short_entry_def long_entry_def\<close>)

lemma p2m_parse:
  assumes "common_fits m" "p2m_fits c"
  shows "arg_parse pkt2receiver_table (p2m_args (Some m) c) = \<lparr>arg_vals = given (p2m_given m c), nerrors = 0\<rparr>"
  using assms
  by (intro arg_parse_adds [OF p2m_adds])
    (simp_all add: pkt2receiver_table_def entry_defs p2m_given_def room_if common_fits_def p2m_fits_def nat_le_iff split del: if_split)

theorem p2m_child_settings:
  assumes "common_fits m" "p2m_fits c" "realpath e (proto_of m) = Some proto"
  shows "pkt2receiver_parseCmd e (p2m_args (Some m) c) =
    Inr \<lparr>pkt2receiver_in_url = cc_bus_in m,
         pkt2receiver_out_url = cc_bus_out m,
         pkt2receiver_control_url = ''ipc:///tmp/control.pkt2'',
         pkt2receiver_dump_url = ''ipc:///tmp/dump.pkt2'',
         pkt2receiver_proto_path = proto,
         pkt2receiver_force_message = p2m_force_message c,
         pkt2receiver_buffer_size = word_of_int (buffer_of m),
         pkt2receiver_retries = 0,
         pkt2receiver_retry_delay = 60,
         pkt2receiver_allowed_packet_sizes = p2m_sizes c,
         pkt2receiver_verbosity = word_of_int (max 0 (cc_verbosity m)),
         pkt2receiver_daemonize = False,
         pkt2receiver_max_fd = cc_max_file_descriptors m,
         pkt2receiver_path = getcwd e,
         pkt2receiver_tableAliases = [],
         pkt2receiver_fieldAliases = [],
         pkt2receiver_properties = []\<rparr>"
proof -
  have p: "str_or \<lparr>arg_vals = given (p2m_given m c), nerrors = 0\<rparr> ''a_proto_path'' ''proto'' = proto_of m"
    by (simp add: parsed_simps p2m_given_def case_if_list if_default proto_of_def)
  show ?thesis
    unfolding pkt2receiver_parseCmd_def p2m_parse [OF assms(1,2)] Let_def p assms(3) option.case
    by (simp add: parsed_simps p2m_given_def case_if_list if_default buffer_of_def comp_def split del: if_split)
      (simp add: max_def alias_map_def)
qed

subsection \<open>A writer of text lines\<close>

definition wfile_given :: "cfg_common \<Rightarrow> cfg_wfile \<Rightarrow> (string \<times> arg_value) list" where
  "wfile_given m c =
     [(''a_file_name'', TextArg (wfile_file c))]
   @ [(''a_format_number'', IntArg (wfile_mode c))]
   @ map (\<lambda>v. (''a_allowed_messages'', TextArg v)) (wfile_messages c)
   @ kv_verbosity m
   @ kv_opt (cc_bus_out m \<noteq> ''ipc:///tmp/message.pkt2'') [(''a_message_url'', TextArg (cc_bus_out m))]
   @ kv_opt (cc_proto_path m \<noteq> ''proto'') [(''a_proto_path'', TextArg (cc_proto_path m))]"

definition wfile_fits :: "cfg_wfile \<Rightarrow> bool" where
  "wfile_fits c = (int_arg (wfile_mode c) \<and>
     length (wfile_messages c) \<le> 128)"

lemma wfile_adds:
  assumes "common_fits m" "wfile_fits c"
  shows "adds handlerline_table (wfile_args (Some m) c) (wfile_given m c)"
  unfolding wfile_args_def wfile_given_def if_common_def option.case common_args
  by (intro adds_append adds_opt adds_strs adds_nums;
      rule adds_arg_str adds_arg_num adds_long_str adds_arg_dec adds_long_num adds_long_dec adds_verbosity adds_flag;
      use assms in \<open>simp add: handlerline_table_def entry_defs common_fits_def wfile_fits_def short_entry_def long_entry_def\<close>)

lemma wfile_parse:
  assumes "common_fits m" "wfile_fits c"
  shows "arg_parse handlerline_table (wfile_args (Some m) c) = \<lparr>arg_vals = given (wfile_given m c), nerrors = 0\<rparr>"
  using assms
  by (intro arg_parse_adds [OF wfile_adds])
    (simp_all add: handlerline_table_def entry_defs wfile_given_def room_if common_fits_def wfile_fits_def nat_le_iff split del: if_split)

theorem wfile_child_settings:
  assumes "common_fits m" "wfile_fits c" "realpath e (cc_proto_path m) = Some proto"
  shows "handlerline_parseCmd e (wfile_args (Some m) c) =
    Inr \<lparr>handlerline_proto_path = proto,
         handlerline_file_name = wfile_file c,
         handlerline_message_url = cc_bus_out m,
         handlerline_allowed_messages = wfile_messages c,
         handlerline_retries = 0,
         handlerline_retry_delay = 60,
         handlerline_verbosity = max 0 (cc_verbosity m),
         handlerline_daemonize = False,
         handlerline_mode = 0,
         handlerline_format_number = wfile_mode c,
         handlerline_buffer_size = 4096,
         handlerline_sql_dialect = indeterminate e ''sql_dialect'',
         handlerline_path = getcwd e,
         handlerline_tableAliases = [],
         handlerline_fieldAliases = [],
         handlerline_properties = []\<rparr>"
proof -
  have p: "str_or \<lparr>arg_vals = given (wfile_given m c), nerrors = 0\<rparr> ''a_proto_path'' ''proto'' = cc_proto_path m"
    by (simp add: parsed_simps wfile_given_def case_if_list if_default proto_of_def)
  show ?thesis
    unfolding handlerline_parseCmd_def wfile_parse [OF assms(1,2)] Let_def p assms(3) option.case
    by (simp add: parsed_simps wfile_given_def case_if_list if_default buffer_of_def comp_def split del: if_split)
      (simp add: max_def alias_map_def)
qed

subsection \<open>A writer into LMDB\<close>

definition lmdb_given :: "cfg_common \<Rightarrow> cfg_lmdb \<Rightarrow> (string \<times> arg_value) list" where
  "lmdb_given m c =
     [(''a_db_path'', TextArg (lmdb_dbpath c))]
   @ map (\<lambda>v. (''a_allowed_messages'', TextArg v)) (lmdb_messages c)
   @ kv_verbosity m
   @ kv_opt (cc_bus_out m \<noteq> ''ipc:///tmp/message.pkt2'') [(''a_message_url'', TextArg (cc_bus_out m))]
   @ kv_opt (cc_proto_path m \<noteq> [])
       (kv_opt (cc_proto_path m \<noteq> ''proto'') [(''a_proto_path'', TextArg (cc_proto_path m))])
   @ kv_opt (cc_max_buffer_size m \<noteq> 4096) [(''a_buffer_size'', IntArg (cc_max_buffer_size m))]"

definition lmdb_fits :: "cfg_lmdb \<Rightarrow> bool" where
  "lmdb_fits c = (lmdb_dbpath c \<noteq> [] \<and>
     length (lmdb_messages c) \<le> 128)"

lemma lmdb_adds:
  assumes "common_fits m" "lmdb_fits c"
  shows "adds handlerlmdb_table (lmdb_args (Some m) c) (lmdb_given m c)"
  unfolding lmdb_args_def lmdb_given_def if_common_def option.case common_args
  by (intro adds_append adds_opt adds_strs adds_nums;
      rule adds_arg_str adds_arg_num adds_long_str adds_arg_dec adds_long_num adds_long_dec adds_verbosity adds_flag;
      use assms in \<open>simp add: handlerlmdb_table_def entry_defs common_fits_def lmdb_fits_def short_entry_def long_entry_def\<close>)

lemma lmdb_parse:
  assumes "common_fits m" "lmdb_fits c"
  shows "arg_parse handlerlmdb_table (lmdb_args (Some m) c) = \<lparr>arg_vals = given (lmdb_given m c), nerrors = 0\<rparr>"
  using assms
  by (intro arg_parse_adds [OF lmdb_adds])
    (simp_all add: handlerlmdb_table_def entry_defs lmdb_given_def room_if common_fits_def lmdb_fits_def nat_le_iff split del: if_split)

theorem lmdb_child_settings:
  assumes "common_fits m" "lmdb_fits c" "realpath e (proto_of m) = Some proto" "realpath e (lmdb_dbpath c) = Some dir"
  shows "handlerlmdb_parseCmd e (lmdb_args (Some m) c) =
    Inr \<lparr>handlerlmdb_proto_path = proto,
         handlerlmdb_message_url = cc_bus_out m,
         handlerlmdb_allowed_messages = lmdb_messages c,
         handlerlmdb_retries = 0,
         handlerlmdb_retry_delay = 60,
         handlerlmdb_verbosity = max 0 (cc_verbosity m),
         handlerlmdb_daemonize = False,
         handlerlmdb_max_fd = 0,
         handlerlmdb_path = dir,
         handlerlmdb_mode = 436,
         handlerlmdb_flags = 0,
         handlerlmdb_buffer_size = cc_max_buffer_size m\<rparr>"
proof -
  have p: "str_or \<lparr>arg_vals = given (lmdb_given m c), nerrors = 0\<rparr> ''a_proto_path'' ''proto'' = proto_of m"
    by (simp add: parsed_simps lmdb_given_def case_if_list if_default proto_of_def)
  have d: "str_or \<lparr>arg_vals = given (lmdb_given m c), nerrors = 0\<rparr> ''a_db_path'' ''db'' = lmdb_dbpath c"
    by (simp add: parsed_simps lmdb_given_def)
  show ?thesis
    unfolding handlerlmdb_parseCmd_def lmdb_parse [OF assms(1,2)] Let_def p assms(3) d assms(4) option.case
    by (simp add: parsed_simps lmdb_given_def case_if_list if_default buffer_of_def comp_def split del: if_split)
      (simp add: max_def alias_map_def)
qed

subsection \<open>A writer into PostgreSQL\<close>

definition pq_given :: "cfg_common \<Rightarrow> cfg_pq \<Rightarrow> (string \<times> arg_value) list" where
  "pq_given m c =
     [(''a_user'', TextArg (pq_user c))]
   @ [(''a_password'', TextArg (pq_password c))]
   @ [(''a_database'', TextArg (pq_scheme c))]
   @ [(''a_host'', TextArg (pq_host c))]
   @ kv_opt (pq_port c \<noteq> 5432) [(''a_dbport'', TextArg (int_str (pq_port c)))]
   @ map (\<lambda>v. (''a_allowed_messages'', TextArg v)) (pq_messages c)
   @ kv_verbosity m
   @ kv_opt (cc_bus_out m \<noteq> ''ipc:///tmp/message.pkt2'') [(''a_message_url'', TextArg (cc_bus_out m))]
   @ kv_opt (cc_proto_path m \<noteq> [])
       (kv_opt (cc_proto_path m \<noteq> ''proto'') [(''a_proto_path'', TextArg (cc_proto_path m))])
   @ kv_opt (cc_max_buffer_size m \<noteq> 4096) [(''a_buffer_size'', IntArg (cc_max_buffer_size m))]"

definition pq_fits :: "cfg_pq \<Rightarrow> bool" where
  "pq_fits c = (pq_user c \<noteq> [] \<and>
     pq_password c \<noteq> [] \<and>
     pq_scheme c \<noteq> [] \<and>
     pq_host c \<noteq> [] \<and>
     length (pq_messages c) \<le> 128)"

lemma pq_adds:
  assumes "common_fits m" "pq_fits c"
  shows "adds handlerpq_table (pq_args (Some m) c) (pq_given m c)"
  unfolding pq_args_def pq_given_def if_common_def option.case common_args
  by (intro adds_append adds_opt adds_strs adds_nums;
      rule adds_arg_str adds_arg_num adds_long_str adds_arg_dec adds_long_num adds_long_dec adds_verbosity adds_flag;
      use assms in \<open>simp add: handlerpq_table_def entry_defs common_fits_def pq_fits_def short_entry_def long_entry_def\<close>)

lemma pq_parse:
  assumes "common_fits m" "pq_fits c"
  shows "arg_parse handlerpq_table (pq_args (Some m) c) = \<lparr>arg_vals = given (pq_given m c), nerrors = 0\<rparr>"
  using assms
  by (intro arg_parse_adds [OF pq_adds])
    (simp_all add: handlerpq_table_def entry_defs pq_given_def room_if common_fits_def pq_fits_def nat_le_iff split del: if_split)

theorem pq_child_settings:
  assumes "common_fits m" "pq_fits c" "realpath e (proto_of m) = Some proto"
  shows "handlerpq_parseCmd e (pq_args (Some m) c) =
    Inr \<lparr>handlerpq_proto_path = proto,
         handlerpq_message_url = cc_bus_out m,
         handlerpq_allowed_messages = pq_messages c,
         handlerpq_retries = 0,
         handlerpq_retry_delay = 60,
         handlerpq_verbosity = word_of_int (max 0 (cc_verbosity m)),
         handlerpq_daemonize = False,
         handlerpq_pgconnect = \<lparr>dbconn = [], dboptionsfile = [], dbname = pq_scheme c, dbuser = pq_user c, dbpassword = pq_password c,
            dbhost = pq_host c, dbport = int_str (pq_port c), dbsocket = [], dbcharset = ''utf8'',
            dbclientflags = 0\<rparr>,
         handlerpq_buffer_size = cc_max_buffer_size m,
         handlerpq_mode = 4,
         handlerpq_format_number = 0,
         handlerpq_path = getcwd e,
         handlerpq_sql_dialect = indeterminate e ''sql_dialect'',
         handlerpq_tableAliases = [],
         handlerpq_fieldAliases = [],
         handlerpq_properties = []\<rparr>"
proof -
  have p: "str_or \<lparr>arg_vals = given (pq_given m c), nerrors = 0\<rparr> ''a_proto_path'' ''proto'' = proto_of m"
    by (simp add: parsed_simps pq_given_def case_if_list if_default proto_of_def)
  show ?thesis
    unfolding handlerpq_parseCmd_def pq_parse [OF assms(1,2)] Let_def p assms(3) option.case
    by (simp add: parsed_simps pq_given_def case_if_list if_default buffer_of_def comp_def pgconnect_of_def split del: if_split)
      (simp add: max_def alias_map_def int_str_5432)
qed

subsection \<open>A writer of sheets\<close>

definition sheets_given :: "cfg_common \<Rightarrow> cfg_sheets \<Rightarrow> (string \<times> arg_value) list" where
  "sheets_given m c =
     [(''a_json'', TextArg (sheets_json_service_file_name c))]
   @ [(''a_token_file'', TextArg (sheets_bearer_file_name c))]
   @ [(''a_subject_email'', TextArg (sheets_email c))]
   @ [(''a_spreadsheet'', TextArg (sheets_spreadsheet c))]
   @ [(''a_sheet'', TextArg (sheets_sheet c))]
   @ map (\<lambda>v. (''a_allowed_messages'', TextArg v)) (sheets_messages c)
   @ kv_verbosity m
   @ kv_opt (cc_bus_out m \<noteq> ''ipc:///tmp/message.pkt2'') [(''a_message_url'', TextArg (cc_bus_out m))]
   @ kv_opt (cc_proto_path m \<noteq> [])
       (kv_opt (cc_proto_path m \<noteq> ''proto'') [(''a_proto_path'', TextArg (cc_proto_path m))])
   @ kv_opt (cc_max_buffer_size m \<noteq> 4096) [(''a_buffer_size'', IntArg (cc_max_buffer_size m))]"

definition sheets_fits :: "cfg_sheets \<Rightarrow> bool" where
  "sheets_fits c = (length (sheets_messages c) \<le> 128)"

lemma sheets_adds:
  assumes "common_fits m" "sheets_fits c"
  shows "adds handler_google_sheets_table (sheets_args (Some m) c) (sheets_given m c)"
  unfolding sheets_args_def sheets_given_def if_common_def option.case common_args
  by (intro adds_append adds_opt adds_strs adds_nums;
      rule adds_arg_str adds_arg_num adds_long_str adds_arg_dec adds_long_num adds_long_dec adds_verbosity adds_flag;
      use assms in \<open>simp add: handler_google_sheets_table_def entry_defs common_fits_def sheets_fits_def short_entry_def long_entry_def\<close>)

lemma sheets_parse:
  assumes "common_fits m" "sheets_fits c"
  shows "arg_parse handler_google_sheets_table (sheets_args (Some m) c) = \<lparr>arg_vals = given (sheets_given m c), nerrors = 0\<rparr>"
  using assms
  by (intro arg_parse_adds [OF sheets_adds])
    (simp_all add: handler_google_sheets_table_def entry_defs sheets_given_def room_if common_fits_def sheets_fits_def nat_le_iff split del: if_split)

theorem sheets_child_settings:
  assumes "common_fits m" "sheets_fits c" "realpath e (proto_of m) = Some proto"
  shows "handler_google_sheets_parseCmd e (sheets_args (Some m) c) =
    Inr \<lparr>handler_google_sheets_proto_path = proto,
         handler_google_sheets_message_url = cc_bus_out m,
         handler_google_sheets_allowed_messages = sheets_messages c,
         handler_google_sheets_retries = 0,
         handler_google_sheets_retry_delay = 60,
         handler_google_sheets_verbosity = max 0 (cc_verbosity m),
         handler_google_sheets_daemonize = False,
         handler_google_sheets_mode = 0,
         handler_google_sheets_format_number = 0,
         handler_google_sheets_spreadsheet = sheets_spreadsheet c,
         handler_google_sheets_sheet = sheets_sheet c,
         handler_google_sheets_buffer_size = cc_max_buffer_size m,
         handler_google_sheets_json = sheets_json_service_file_name c,
         handler_google_sheets_token_file = sheets_bearer_file_name c,
         handler_google_sheets_subject_email = sheets_email c,
         handler_google_sheets_scope = ''https://www.googleapis.com/auth/spreadsheets'',
         handler_google_sheets_audience = ''https://www.googleapis.com/oauth2/v4/token'',
         handler_google_sheets_expires = 3600,
         handler_google_sheets_path = getcwd e,
         handler_google_sheets_tableAliases = [],
         handler_google_sheets_fieldAliases = [],
         handler_google_sheets_properties = []\<rparr>"
proof -
  have p: "str_or \<lparr>arg_vals = given (sheets_given m c), nerrors = 0\<rparr> ''a_proto_path'' ''proto'' = proto_of m"
    by (simp add: parsed_simps sheets_given_def case_if_list if_default proto_of_def)
  show ?thesis
    unfolding handler_google_sheets_parseCmd_def sheets_parse [OF assms(1,2)] Let_def p assms(3) option.case
    by (simp add: parsed_simps sheets_given_def case_if_list if_default buffer_of_def comp_def split del: if_split)
      (simp add: max_def alias_map_def)
qed

subsection \<open>A repeater\<close>

definition rep_given :: "cfg_common \<Rightarrow> cfg_rep \<Rightarrow> (string \<times> arg_value) list" where
  "rep_given m c =
     kv_opt (rep_url_in c \<noteq> ''ipc:///tmp/control.pkt2'') [(''a_in_url'', TextArg (rep_url_in c))]
   @ kv_opt (rep_bind c) [(''a_bind'', Switch)]
   @ kv_opt (rep_url_outs c \<noteq> [''tcp://0.0.0.0:50000''])
       (map (\<lambda>v. (''a_out_url'', TextArg v)) (rep_url_outs c))
   @ kv_verbosity m
   @ kv_opt (cc_max_buffer_size m \<noteq> 4096) [(''a_buffer_size'', IntArg (cc_max_buffer_size m))]"

definition rep_fits :: "cfg_rep \<Rightarrow> bool" where
  "rep_fits c = (length (rep_url_outs c) \<le> 100)"

lemma rep_adds:
  assumes "common_fits m" "rep_fits c"
  shows "adds repeator_table (rep_args (Some m) c) (rep_given m c)"
  unfolding rep_args_def rep_given_def if_common_def option.case common_args arg_outs_def
  by (intro adds_append adds_opt adds_strs adds_nums;
      rule adds_arg_str adds_arg_num adds_long_str adds_arg_dec adds_long_num adds_long_dec adds_verbosity adds_flag;
      use assms in \<open>simp add: repeator_table_def entry_defs common_fits_def rep_fits_def short_entry_def long_entry_def\<close>)

lemma rep_parse:
  assumes "common_fits m" "rep_fits c"
  shows "arg_parse repeator_table (rep_args (Some m) c) = \<lparr>arg_vals = given (rep_given m c), nerrors = 0\<rparr>"
  using assms
  by (intro arg_parse_adds [OF rep_adds])
    (simp_all add: repeator_table_def entry_defs rep_given_def room_if common_fits_def rep_fits_def nat_le_iff split del: if_split)

theorem rep_child_settings:
  assumes "common_fits m" "rep_fits c"
  shows "repeator_parseCmd e (rep_args (Some m) c) =
    Inr \<lparr>repeator_in_url = rep_url_in c,
         repeator_out_urls = (if rep_url_outs c = [] then [''tcp://0.0.0.0:50000''] else rep_url_outs c),
         repeator_bind = rep_bind c,
         repeator_buffer_size = cc_max_buffer_size m,
         repeator_retries = 0,
         repeator_retry_delay = 60,
         repeator_verbosity = max 0 (cc_verbosity m),
         repeator_daemonize = False,
         repeator_path = getcwd e\<rparr>"
  unfolding repeator_parseCmd_def rep_parse [OF assms] Let_def
  by (simp add: parsed_simps rep_given_def case_if_list if_default buffer_of_def comp_def split del: if_split)
    (simp add: max_def alias_map_def parsed_simps rep_given_def comp_def)

subsection \<open>Command lines that only show the usage\<close>

text \<open>An error stays, and an argument that is no option is an error where every entry is an option.\<close>

definition failed :: "parsed \<Rightarrow> bool" where
  "failed s = (0 < nerrors s)"

lemma failed_register [simp]: "failed (register_error s)"
  by (simp add: failed_def register_error_def)

lemma failed_push [simp]: "failed (push_value e v s) = failed s"
  by (simp add: failed_def push_value_def)

lemma failed_scanfn: "scanfn e v s = Some s' \<Longrightarrow> failed s' = failed s"
  by (auto simp: scanfn_def split: arg_kind.splits if_splits)

lemma failed_scan: "failed s \<Longrightarrow> failed (scan_value e v s)"
  by (auto simp: scan_value_def failed_scanfn split: option.splits)

lemma failed_long: "failed s \<Longrightarrow> failed (fst (parse_long_options table place args s))"
  by (auto simp: parse_long_options_def Let_def failed_scan split: option.split list.split)

lemma failed_cluster: "failed s \<Longrightarrow> failed (fst (parse_cluster table place args s))"
  by (induction table place args s rule: parse_cluster.induct)
    (auto simp: failed_long failed_scan split: option.split list.split)

lemma failed_tagged: "failed s \<Longrightarrow> failed (fst (arg_parse_tagged table args s nonopts))"
proof (induction table args s nonopts rule: arg_parse_tagged.induct)
  case (1 table args s nonopts)
  show ?case
  proof (cases args)
    case Nil
    then show ?thesis using "1.prems" by (subst arg_parse_tagged.simps) simp
  next
    case (Cons a rest)
    obtain s' rest' where p: "parse_cluster table (tl a) rest s = (s', rest')" by fastforce
    have "failed s'" using failed_cluster [OF "1.prems", of table "tl a" rest] p by simp
    then show ?thesis using Cons p "1.IH" "1.prems" by (subst arg_parse_tagged.simps) simp
  qed
qed

lemma nonopts_tagged: "length nonopts \<le> length (snd (arg_parse_tagged table args s nonopts))"
proof (induction table args s nonopts rule: arg_parse_tagged.induct)
  case (1 table args s nonopts)
  show ?case
  proof (cases args)
    case Nil
    then show ?thesis by (subst arg_parse_tagged.simps) simp
  next
    case (Cons a rest)
    obtain s' rest' where p: "parse_cluster table (tl a) rest s = (s', rest')" by fastforce
    then show ?thesis using Cons "1.IH" by (subst arg_parse_tagged.simps) (auto dest: Suc_leD)
  qed
qed

lemma failed_untagged: "failed s \<Longrightarrow> failed (arg_parse_untagged es args b s)"
  by (induction es args b s rule: arg_parse_untagged.induct)
    (auto simp: failed_scanfn split: option.splits)

lemma untagged_error:
  "list_all tagged es \<Longrightarrow> args \<noteq> [] \<Longrightarrow> failed (arg_parse_untagged es args b s)"
proof (induction es)
  case Nil
  then show ?case by (cases args) (auto simp: failed_untagged)
next
  case (Cons e es)
  then show ?case by (cases args) auto
qed

lemma usage_if_failed:
  assumes "arg_parse_tagged table argv \<lparr>arg_vals = (\<lambda>n. []), nerrors = 0\<rparr> [] = (s, nonopts)"
    "failed (arg_parse_untagged table nonopts False s)"
  shows "usage_shown (arg_parse table argv)"
  using assms by (simp add: arg_parse_def usage_shown_def failed_def)

lemma usage_if_positional:
  assumes "list_all tagged table" "\<not> is_option a"
  shows "usage_shown (arg_parse table (a # argv))"
proof -
  let ?s = "\<lparr>arg_vals = (\<lambda>n. []), nerrors = 0\<rparr>"
  obtain s n where p: "arg_parse_tagged table argv ?s [a] = (s, n)" by fastforce
  have "arg_parse_tagged table (a # argv) ?s [] = (s, n)"
    using assms(2) p by (subst arg_parse_tagged.simps) simp
  moreover have "n \<noteq> []" using nonopts_tagged [of "[a]" table argv ?s] p by auto
  ultimately show ?thesis by (rule usage_if_failed [OF _ untagged_error [OF assms(1)]])
qed

lemma usage_if_empty_value:
  assumes "find_long table l None = Some (Some e)" "has_value e" "CHR ''='' \<notin> set l" "l \<noteq> []"
  shows "usage_shown (arg_parse table ((CHR ''-'' # CHR ''-'' # l) # [] # argv))"
proof -
  let ?s = "\<lparr>arg_vals = (\<lambda>n. []), nerrors = 0\<rparr>"
  let ?s' = "scan_value e [] (register_error ?s)"
  obtain s n where p: "arg_parse_tagged table argv ?s' [] = (s, n)" by fastforce
  have t: "takeWhile (\<lambda>c. c \<noteq> CHR ''='') l = l" using assms(3) by (auto simp: takeWhile_eq_all_conv)
  have "arg_parse_tagged table ((CHR ''-'' # CHR ''-'' # l) # [] # argv) ?s [] = (s, n)"
    using assms p by (subst arg_parse_tagged.simps) (simp add: is_option_def parse_long_options_def t)
  moreover have "failed s" using failed_tagged [OF failed_scan [OF failed_register], of table argv e "[]" ?s "[]"] p
    by simp
  ultimately show ?thesis by (rule usage_if_failed [OF _ failed_untagged])
qed

theorem fcm_child_usage:
  assumes "fcm_key c = [] \<or> fcm_key c = DEF_SERVER_KEY"
  shows "handler_fcm_parseCmd e (fcm_args common c) = Inl (- 2)"
proof -
  obtain argv where a: "fcm_args common c = fcm_key c # argv" using assms by (auto simp: fcm_args_def opt_def)
  have "usage_shown (arg_parse handler_fcm_table (fcm_args common c))"
    unfolding a using assms
    by (intro usage_if_positional)
      (auto simp: handler_fcm_table_def entry_defs tagged_def is_option_def DEF_SERVER_KEY_def)
  then show ?thesis by (simp add: handler_fcm_parseCmd_def)
qed

theorem lmdb_child_usage:
  assumes "lmdb_dbpath c = []"
  shows "handlerlmdb_parseCmd e (lmdb_args common c) = Inl (- 2)"
proof -
  have "usage_shown (arg_parse handlerlmdb_table (lmdb_args common c))"
    unfolding lmdb_args_def arg_str_def assms append.simps
    by (rule usage_if_empty_value, simp add: handlerlmdb_table_def entry_defs, simp_all add: has_value_def)
  then show ?thesis by (simp add: handlerlmdb_parseCmd_def)
qed

theorem pq_child_usage:
  assumes "pq_user c = []"
  shows "handlerpq_parseCmd e (pq_args common c) = Inl (- 2)"
proof -
  have "usage_shown (arg_parse handlerpq_table (pq_args common c))"
    unfolding pq_args_def arg_str_def assms append.simps
    by (rule usage_if_empty_value, simp add: handlerpq_table_def entry_defs, simp_all add: has_value_def)
  then show ?thesis by (simp add: handlerpq_parseCmd_def)
qed

text \<open>
  C33: A supervised handler ends with the usage text when its settings are the defaults: a
  Firebase notifier whose key is missing or the default one gets the key without the name of
  its option, and a writer into LMDB without a path or into PostgreSQL without a user gets an
  option with an empty value, which argtable3 counts as an error.
\<close>

theorem default_settings_show_usage:
  assumes "fcm_key f = [] \<or> fcm_key f = DEF_SERVER_KEY" "lmdb_dbpath l = []" "pq_user q = []"
  shows "handler_fcm_parseCmd e (fcm_args common f) = Inl (- 2) \<and>
    handlerlmdb_parseCmd e (lmdb_args common l) = Inl (- 2) \<and>
    handlerpq_parseCmd e (pq_args common q) = Inl (- 2)"
  using assms by (simp add: fcm_child_usage lmdb_child_usage pq_child_usage)

theorem default_settings_show_usage_witness:
  "let e = \<lparr>realpath = Some, getcwd = ''/'', indeterminate = (\<lambda>n. 0)\<rparr>
   in handler_fcm_parseCmd e (fcm_args (Some cfg_common_new) cfg_fcm_new) = Inl (- 2) \<and>
      handlerlmdb_parseCmd e (lmdb_args (Some cfg_common_new) cfg_lmdb_new) = Inl (- 2) \<and>
      handlerpq_parseCmd e (pq_args (Some cfg_common_new) cfg_pq_new) = Inl (- 2)"
  unfolding Let_def
  by (rule default_settings_show_usage) (simp_all add: cfg_fcm_new_def cfg_lmdb_new_def cfg_pq_new_def)

text \<open>
  With the default common settings the writer of sheets gets a buffer of no bytes: the size 0
  of the supervisor is passed on because it is not the default size of the handler.
\<close>

theorem default_buffer_is_empty:
  assumes "realpath e ''proto'' = Some proto" "length (sheets_messages c) \<le> 128"
  shows "map_sum id handler_google_sheets_buffer_size
     (handler_google_sheets_parseCmd e (sheets_args (Some cfg_common_new) c)) = Inr 0"
  by (subst sheets_child_settings [where proto = proto])
    (use assms in \<open>simp_all add: cfg_common_new_def common_fits_def sheets_fits_def int_arg_def
      INT_MIN_def INT_MAX_def proto_of_def\<close>)

end
