(* ===== verification/Delimited.thy ===== *)
theory Delimited
  imports Compose
begin

section \<open>Messages on the bus\<close>

text \<open>
  utilprotobuf.cpp: a message on the bus is preceded by two socket addresses, the name of its
  type and its size. The coded streams of the protobuf library are a parameter: how a number of
  32 bits, a name and a message are written and read. Where the bytes end too early the values
  that are read are those of the library.
\<close>

record wire =
  w_write_varint :: "u32 \<Rightarrow> bytes"
  w_read_varint :: "bytes \<Rightarrow> u32 \<times> bytes"
  w_read_raw :: "nat \<Rightarrow> bytes \<Rightarrow> bytes \<Rightarrow> bytes \<times> bytes"
  w_read_string :: "int \<Rightarrow> bytes \<Rightarrow> bytes \<times> bytes"
  w_serialize :: "pb_message \<Rightarrow> bytes"
  w_parse :: "string \<Rightarrow> bytes \<Rightarrow> pb_message option"

definition SOCKADDR_SIZE :: nat where "SOCKADDR_SIZE = 16"

record type_address =
  ta_type :: string
  ta_src :: bytes
  ta_dst :: bytes
  ta_size :: u32

definition type_address_new :: "string \<Rightarrow> type_address" where
  "type_address_new t =
     \<lparr>ta_type = t, ta_src = replicate SOCKADDR_SIZE 0, ta_dst = replicate SOCKADDR_SIZE 0, ta_size = 0\<rparr>"

text \<open>The number that is returned does not count the addresses and the real size of the numbers.\<close>

definition writeDelimitedMessage :: "wire \<Rightarrow> type_address \<Rightarrow> pb_message \<Rightarrow> int \<times> bytes" where
  "writeDelimitedMessage w ta m =
     (let name = bytes_of_text (ta_type ta); body = w_serialize w m; sz = int (length body)
      in (4 + int (length name) + 4 + sz,
          ta_src ta @ ta_dst ta @ w_write_varint w (of_nat (length name)) @ name
          @ w_write_varint w (of_int sz) @ body))"

definition stringDelimitedMessage :: "wire \<Rightarrow> type_address \<Rightarrow> pb_message \<Rightarrow> bytes" where
  "stringDelimitedMessage w ta m = snd (writeDelimitedMessage w ta m)"

definition decode :: "wire \<Rightarrow> pool \<Rightarrow> string \<Rightarrow> bytes \<Rightarrow> pb_message option" where
  "decode w pool message_name stream =
     (case getMessageByName pool message_name of
        None \<Rightarrow> None
      | Some m \<Rightarrow> w_parse w message_name stream)"

text \<open>The message with the bytes that follow it, and the header.\<close>

definition readDelimitedMessage ::
  "wire \<Rightarrow> pool \<Rightarrow> bytes \<Rightarrow> type_address \<Rightarrow> (pb_message \<times> bytes) option \<times> type_address" where
  "readDelimitedMessage w pool input ta =
     (let (src, s1) = w_read_raw w SOCKADDR_SIZE (ta_src ta) input;
          (dst, s2) = w_read_raw w SOCKADDR_SIZE (ta_dst ta) s1;
          (message_type_size, s3) = w_read_varint w s2;
          (name, s4) = w_read_string w (sint message_type_size) s3;
          (message_size, s5) = w_read_varint w s4;
          t = text_of_bytes name
      in (map_option (\<lambda>m. (m, drop (unat message_size) s5)) (decode w pool t (take (unat message_size) s5)),
          \<lparr>ta_type = t, ta_src = src, ta_dst = dst, ta_size = message_size\<rparr>))"

text \<open>What the coded streams promise where there are bytes enough.\<close>

definition wire_ok :: "wire \<Rightarrow> bool" where
  "wire_ok w =
     ((\<forall>n r. w_read_varint w (w_write_varint w n @ r) = (n, r)) \<and>
      (\<forall>old bs r. w_read_raw w (length bs) old (bs @ r) = (bs, r)) \<and>
      (\<forall>bs r. w_read_string w (int (length bs)) (bs @ r) = (bs, r)))"

text \<open>A message that fits: the library reads it back and its sizes fit into the header.\<close>

definition message_fits :: "wire \<Rightarrow> pool \<Rightarrow> pb_message \<Rightarrow> bool" where
  "message_fits w pool m =
     (w_parse w (pm_type m) (w_serialize w m) = Some m \<and> pool (pm_type m) \<noteq> None \<and>
      length (pm_type m) < 2 ^ 31 \<and> length (w_serialize w m) < 2 ^ 32)"

lemma read_back:
  assumes "wire_ok w"
  shows "w_read_varint w (w_write_varint w n @ r) = (n, r)"
    "length bs = k \<Longrightarrow> w_read_raw w k old (bs @ r) = (bs, r)"
    "k = int (length bs) \<Longrightarrow> w_read_string w k (bs @ r) = (bs, r)"
  using assms by (auto simp: wire_ok_def)

theorem delimited_read_back:
  assumes "wire_ok w" "message_fits w pool m" "ta_type ta = pm_type m"
    "length (ta_src ta) = SOCKADDR_SIZE" "length (ta_dst ta) = SOCKADDR_SIZE"
  shows "readDelimitedMessage w pool (stringDelimitedMessage w ta m @ rest) old =
    (Some (m, rest), ta\<lparr>ta_size := of_nat (length (w_serialize w m))\<rparr>)"
proof -
  let ?name = "bytes_of_text (ta_type ta)"
  have n: "length ?name < 2 ^ 31" using assms(2,3) by (simp add: message_fits_def bytes_of_text_def)
  have "sint (of_nat (length ?name) :: u32) = wrap32 (int (length ?name))" by (simp add: wrap32_def)
  also have "\<dots> = int (length ?name)" using n by (intro wrap32_id) simp_all
  finally have "sint (of_nat (length ?name) :: u32) = int (length ?name)" .
  moreover have "unat (of_nat (length (w_serialize w m)) :: u32) = length (w_serialize w m)"
    using assms(2) by (simp add: message_fits_def unat_of_nat take_bit_nat_eq_self)
  moreover have "decode w pool (pm_type m) (w_serialize w m) = Some m"
    using assms(2) by (auto simp: message_fits_def decode_def getMessageByName_def)
  ultimately show ?thesis using assms
    by (simp add: readDelimitedMessage_def stringDelimitedMessage_def writeDelimitedMessage_def Let_def
        read_back [OF assms(1)])
qed

end
