(* ===== verification/Bus.thy ===== *)
theory Bus
  imports Delimited
begin

section \<open>The loops around the bus\<close>

text \<open>
  Every process of the system waits for messages of the nanomsg library in a loop that a stop
  request ends. What happens to the process is a list of arrivals: for each call of nn_recv the
  request a signal handler has stored meanwhile, if any, and what the call gives. A call that a
  signal interrupts fails with EINTR, other failures have another number.
\<close>

subsection \<open>Requests and arrivals\<close>

definition stop :: "int option \<Rightarrow> int \<times> int option" where
  "stop config = (case config of None \<Rightarrow> (- 27, None) | Some s \<Rightarrow> (0, Some 1))"

definition reload :: "int option \<Rightarrow> int \<times> int option" where
  "reload config = (case config of None \<Rightarrow> (- 27, None) | Some s \<Rightarrow> (0, Some 2))"

datatype signal = SigInt | SigHup

text \<open>The signal handler of a program: what it stores in stop_request.\<close>

definition writer_signalHandler :: "signal \<Rightarrow> int \<Rightarrow> int" where
  "writer_signalHandler sig request =
     (case (case sig of SigInt \<Rightarrow> stop (Some request) | SigHup \<Rightarrow> reload (Some request)) of
        (code, Some r) \<Rightarrow> r | (code, None) \<Rightarrow> request)"

datatype recv = Arrived bytes | Interrupted | RecvFailed

type_synonym arrival = "signal option \<times> recv"

definition after_signal :: "signal option \<Rightarrow> int \<Rightarrow> int" where
  "after_signal sig request = (case sig of None \<Rightarrow> request | Some g \<Rightarrow> writer_signalHandler g request)"

subsection \<open>The loop\<close>

text \<open>
  A step handles what one call of nn_recv gives; it may store a request itself, which then counts
  more than that of a signal. The result of a loop has the request that ended it, 0 where the
  process still waits, the arrivals that are left and the state.
\<close>

fun bus_loop ::
  "(recv \<Rightarrow> 's \<Rightarrow> (int \<times> 's) option result) \<Rightarrow> int \<Rightarrow> arrival list \<Rightarrow> 's \<Rightarrow> (int \<times> arrival list \<times> 's) option result" where
  "bus_loop step request [] s = Inr (Some (request, [], s))"
| "bus_loop step request ((sig, r) # as) s =
     (if request \<noteq> 0 then Inr (Some (request, (sig, r) # as, s))
      else bindF (step r s) (\<lambda>(q, s'). bus_loop step (if q \<noteq> 0 then q else after_signal sig request) as s'))"

text \<open>The loops that look at errno take EINTR for a request to stop.\<close>

definition recv_step :: "bool \<Rightarrow> (bytes \<Rightarrow> 's \<Rightarrow> 's option result) \<Rightarrow> recv \<Rightarrow> 's \<Rightarrow> (int \<times> 's) option result" where
  "recv_step checks_errno body r s =
     (case r of
        Arrived msg \<Rightarrow> bindF (body msg s) (\<lambda>s'. Inr (Some (0, s')))
      | Interrupted \<Rightarrow> Inr (Some (if checks_errno then 1 else 0, s))
      | RecvFailed \<Rightarrow> Inr (Some (0, s)))"

text \<open>
  A buffer of a fixed size: nn_recv cuts a longer message and returns its whole size, so the
  code that follows reads past the end of the buffer.
\<close>

definition in_buffer :: "int \<Rightarrow> (bytes \<Rightarrow> 's \<Rightarrow> 's option result) \<Rightarrow> bytes \<Rightarrow> 's \<Rightarrow> 's option result" where
  "in_buffer buffer_size body msg s = (if buffer_size < int (length msg) then Inl OutOfBounds else body msg s)"

subsection \<open>Sessions\<close>

text \<open>
  A run opens its sockets, which may fail with a code, loops, and closes them; where it ends
  with the request to reload it starts again, if the program does that.
\<close>

datatype 's outcome = Waiting 's | Returned int "arrival list" 's

lemma bus_loop_length:
  "bus_loop step request as s = Inr (Some (q, as', s')) \<Longrightarrow> length as' \<le> length as"
proof (induction as arbitrary: request s)
  case (Cons a as)
  show ?case using Cons.prems by (cases a) (auto split: if_splits intro: le_SucI dest!: Cons.IH)
qed simp

lemma bus_loop_shorter:
  "bus_loop step 0 as s = Inr (Some (q, as', s')) \<Longrightarrow> q \<noteq> 0 \<Longrightarrow> length as' < length as"
  by (cases as; cases "hd as")
    (auto simp: less_Suc_eq_le split: if_splits dest: bus_loop_length)

function run_sessions ::
  "bool \<Rightarrow> (nat \<Rightarrow> 's \<Rightarrow> (int + 's) option result) \<Rightarrow> (recv \<Rightarrow> 's \<Rightarrow> (int \<times> 's) option result)
   \<Rightarrow> (nat \<Rightarrow> 's \<Rightarrow> int \<times> 's) \<Rightarrow> nat \<Rightarrow> arrival list \<Rightarrow> 's \<Rightarrow> 's outcome option result" where
  "run_sessions restarts open_session step close_session k as s =
     (case open_session k s of
        Inl e \<Rightarrow> Inl e
      | Inr None \<Rightarrow> Inr None
      | Inr (Some (Inl code)) \<Rightarrow> Inr (Some (Returned code as s))
      | Inr (Some (Inr s1)) \<Rightarrow>
          (case bus_loop step 0 as s1 of
             Inl e \<Rightarrow> Inl e
           | Inr None \<Rightarrow> Inr None
           | Inr (Some (request, as', s2)) \<Rightarrow>
               if request = 0 then Inr (Some (Waiting s2))
               else let (r, s3) = close_session k s2
                    in if request = 2 \<and> restarts
                       then run_sessions restarts open_session step close_session (Suc k) as' s3
                       else Inr (Some (Returned r as' s3))))"
  by pat_completeness auto

termination
  by (relation "measure (\<lambda>(r, ops, step, cl, k, as, s). length as)") (auto dest: bus_loop_shorter)

declare run_sessions.simps [simp del]

text \<open>
  main: the run is repeated up to a number of times, until a signal stops it. A run that
  returns has left its request; between two runs nothing is read.
\<close>

function runner :: "(nat \<Rightarrow> int \<times> int) \<Rightarrow> int \<Rightarrow> nat \<Rightarrow> int" where
  "runner run retries n =
     (let (reslt, request) = run n
      in if retries \<le> int n \<or> request \<noteq> 0 then reslt else runner run retries (Suc n))"
  by pat_completeness auto

termination
  by (relation "measure (\<lambda>(run, retries, n). nat (retries - int n))") auto

declare runner.simps [simp del]

section \<open>What holds for every loop\<close>

text \<open>Messages that arrive without a signal are handled in their order, and the process waits again.\<close>

fun handle_all :: "(bytes \<Rightarrow> 's \<Rightarrow> 's option result) \<Rightarrow> bytes list \<Rightarrow> 's \<Rightarrow> 's option result" where
  "handle_all body [] s = Inr (Some s)"
| "handle_all body (m # ms) s = bindF (body m s) (handle_all body ms)"

definition arrived :: "bytes list \<Rightarrow> arrival list" where
  "arrived ms = map (\<lambda>m. (None, Arrived m)) ms"

lemma after_no_signal [simp]: "after_signal None q = q"
  by (simp add: after_signal_def)

lemma after_signals: "after_signal (Some SigInt) q = 1" "after_signal (Some SigHup) q = 2"
  by (simp_all add: after_signal_def writer_signalHandler_def stop_def reload_def)

lemma recv_step_simps [simp]:
  "recv_step c body (Arrived msg) s = bindF (body msg s) (\<lambda>s'. Inr (Some (0, s')))"
  "recv_step c body Interrupted s = Inr (Some (if c then 1 else 0, s))"
  "recv_step c body RecvFailed s = Inr (Some (0, s))"
  by (simp_all add: recv_step_def)

lemma loop_arrived:
  "bus_loop (recv_step c body) 0 (arrived ms @ as) s = bindF (handle_all body ms s) (bus_loop (recv_step c body) 0 as)"
proof (induction ms arbitrary: s)
  case (Cons m ms)
  then have "bus_loop (recv_step c body) 0 (arrived ms @ as) =
      (\<lambda>s. bindF (handle_all body ms s) (bus_loop (recv_step c body) 0 as))"
    by (rule ext)
  then show ?case by (simp add: arrived_def bindF_assoc)
qed (simp add: arrived_def)

lemma loop_waits:
  "handle_all body ms s = Inr (Some s') \<Longrightarrow> bus_loop (recv_step c body) 0 (arrived ms) s = Inr (Some (0, [], s'))"
  using loop_arrived [of c body ms "[]" s] by simp

lemma loop_stops: "q \<noteq> 0 \<Longrightarrow> bus_loop step q as s = Inr (Some (q, as, s))"
  by (cases as) auto

lemma loop_interrupted:
  "handle_all body ms s = Inr (Some s') \<Longrightarrow>
   bus_loop (recv_step True body) 0 (arrived ms @ (sig, Interrupted) # as) s = Inr (Some (1, as, s'))"
  by (simp add: loop_arrived loop_stops)

lemma loop_signalled:
  "handle_all body ms s = Inr (Some s') \<Longrightarrow>
   bus_loop (recv_step False body) 0 (arrived ms @ (Some g, Interrupted) # as) s =
   Inr (Some (after_signal (Some g) 0, as, s'))"
  by (cases g) (simp_all add: loop_arrived after_signals loop_stops)

text \<open>A run of a program with its three parts, and what the parts keep.\<close>

locale bus_sessions =
  fixes opens :: "nat \<Rightarrow> 's \<Rightarrow> (int + 's) option result"
    and step :: "recv \<Rightarrow> 's \<Rightarrow> (int \<times> 's) option result"
    and closes :: "nat \<Rightarrow> 's \<Rightarrow> int \<times> 's"
    and inv :: "'s \<Rightarrow> bool"
  assumes opens_inv: "opens k s = Inr (Some (Inr s')) \<Longrightarrow> inv s \<Longrightarrow> inv s'"
    and step_inv: "step r s = Inr (Some (q, s')) \<Longrightarrow> inv s \<Longrightarrow> inv s'"
    and closes_inv: "inv s \<Longrightarrow> inv (snd (closes k s))"
begin

lemma loop_inv:
  "bus_loop step q as s = Inr (Some (q', as', s')) \<Longrightarrow> inv s \<Longrightarrow> inv s'"
proof (induction as arbitrary: q s)
  case (Cons a as)
  show ?case using Cons.prems
    by (cases a) (auto split: if_splits dest: step_inv Cons.IH)
qed simp

lemma run_inv:
  "run_sessions r opens step closes k as s = Inr (Some out) \<Longrightarrow> inv s \<Longrightarrow>
   (case out of Waiting s' \<Rightarrow> inv s' | Returned code as' s' \<Rightarrow> inv s')"
proof (induction "length as" arbitrary: k as s rule: less_induct)
  case less
  show ?case
  proof (cases "opens k s")
    case (Inl e)
    then show ?thesis using less.prems by (auto simp: run_sessions.simps [of r opens])
  next
    case (Inr opened)
    show ?thesis
    proof (cases "\<exists>s1. opened = Some (Inr s1)")
      case False
      then show ?thesis using less.prems Inr
        by (auto simp: run_sessions.simps [of r opens] split: option.splits sum.splits)
    next
      case True
      then obtain s1 where open1: "opens k s = Inr (Some (Inr s1))" using Inr by auto
      then obtain q as' s2 where loop: "bus_loop step 0 as s1 = Inr (Some (q, as', s2))"
        using less.prems(1) by (auto simp: run_sessions.simps [of r opens] split: sum.splits option.splits)
      have i: "inv s2" using loop_inv [OF loop opens_inv [OF open1 less.prems(2)]] .
      obtain code s3 where cl: "closes k s2 = (code, s3)" by fastforce
      then have "inv s3" using closes_inv [OF i, of k] by simp
      then show ?thesis
        using less.prems(1) less.hyps [OF bus_loop_shorter [OF loop], of "Suc k" s3] open1 loop cl i
        by (auto simp: run_sessions.simps [of r opens step closes k] split: if_splits)
    qed
  qed
qed

end

text \<open>A program whose step only handles messages.\<close>

locale bus_client =
  fixes opens :: "nat \<Rightarrow> 's \<Rightarrow> (int + 's) option result"
    and body :: "bytes \<Rightarrow> 's \<Rightarrow> 's option result"
    and closes :: "nat \<Rightarrow> 's \<Rightarrow> int \<times> 's"
    and inv :: "'s \<Rightarrow> bool"
  assumes opens_inv: "opens k s = Inr (Some (Inr s')) \<Longrightarrow> inv s \<Longrightarrow> inv s'"
    and body_inv: "body msg s = Inr (Some s') \<Longrightarrow> inv s \<Longrightarrow> inv s'"
    and closes_inv: "inv s \<Longrightarrow> inv (snd (closes k s))"

sublocale bus_client \<subseteq> checks: bus_sessions opens "recv_step c body" closes inv for c
  by unfold_locales (auto simp: recv_step_def opens_inv closes_inv split: recv.splits if_splits dest: body_inv)

context bus_client
begin

text \<open>A session that is opened, handles messages and is interrupted.\<close>

lemma run_until_interrupted:
  assumes "opens k s = Inr (Some (Inr s1))" "handle_all body ms s1 = Inr (Some s2)" "closes k s2 = (code, s3)"
  shows "run_sessions r opens (recv_step True body) closes k (arrived ms @ (sig, Interrupted) # as) s =
    Inr (Some (Returned code as s3))"
  using assms by (subst run_sessions.simps) (simp add: loop_interrupted [OF assms(2)])

lemma run_waiting:
  assumes "opens k s = Inr (Some (Inr s1))" "handle_all body ms s1 = Inr (Some s2)"
  shows "run_sessions r opens (recv_step c body) closes k (arrived ms) s = Inr (Some (Waiting s2))"
  using assms by (subst run_sessions.simps) (simp add: loop_waits [OF assms(2)])

lemma run_reloads:
  assumes "opens k s = Inr (Some (Inr s1))" "handle_all body ms s1 = Inr (Some s2)" "closes k s2 = (code, s3)"
  shows "run_sessions True opens (recv_step False body) closes k (arrived ms @ (Some SigHup, Interrupted) # as) s =
    run_sessions True opens (recv_step False body) closes (Suc k) as s3"
  using assms by (subst run_sessions.simps) (simp add: loop_signalled [OF assms(2)] after_signals)

end

section \<open>What a run has consumed\<close>

text \<open>
  A relation between two states and the calls that lie between them: nothing happens without a
  call where a session is opened or closed, a step is one call, and runs of calls can be joined.
  It then holds for the calls that a run has consumed, over all its sessions.
\<close>

locale bus_trace =
  fixes opens :: "nat \<Rightarrow> 's \<Rightarrow> (int + 's) option result"
    and step :: "recv \<Rightarrow> 's \<Rightarrow> (int \<times> 's) option result"
    and closes :: "nat \<Rightarrow> 's \<Rightarrow> int \<times> 's"
    and rel :: "'s \<Rightarrow> recv list \<Rightarrow> 's \<Rightarrow> bool"
  assumes rel_start: "rel s [] s"
    and rel_opens: "opens k s = Inr (Some (Inr s')) \<Longrightarrow> rel s [] s'"
    and rel_step: "step r s = Inr (Some (q, s')) \<Longrightarrow> rel s [r] s'"
    and rel_closes: "rel s [] (snd (closes k s))"
    and rel_join: "rel s xs s' \<Longrightarrow> rel s' ys s'' \<Longrightarrow> rel s (xs @ ys) s''"
begin

lemma loop_trace:
  "bus_loop step request as s = Inr (Some (q, as', s')) \<Longrightarrow>
   \<exists>gone. as = gone @ as' \<and> rel s (map snd gone) s' \<and> (q = 0 \<longrightarrow> as' = [])"
proof (induction as arbitrary: request s)
  case (Cons a as)
  obtain sig r where a: "a = (sig, r)" by fastforce
  show ?case
  proof (cases "request = 0")
    case True
    then obtain q1 s1 where st: "step r s = Inr (Some (q1, s1))"
      and rest: "bus_loop step (if q1 \<noteq> 0 then q1 else after_signal sig request) as s1 = Inr (Some (q, as', s'))"
      using Cons.prems a by auto
    from Cons.IH [OF rest] obtain gone where g: "as = gone @ as'" "rel s1 (map snd gone) s'" "q = 0 \<longrightarrow> as' = []"
      by blast
    from rel_join [OF rel_step [OF st] g(2)] g(1,3) a show ?thesis by (intro exI [of _ "a # gone"]) simp
  next
    case False
    then show ?thesis using Cons.prems a rel_start by (intro exI [of _ "[]"]) auto
  qed
qed (auto simp: rel_start)

lemma run_trace:
  "run_sessions r opens step closes k as s = Inr (Some out) \<Longrightarrow>
   \<exists>gone. case out of Waiting s' \<Rightarrow> as = gone \<and> rel s (map snd gone) s'
     | Returned code as' s' \<Rightarrow> as = gone @ as' \<and> rel s (map snd gone) s'"
proof (induction "length as" arbitrary: k as s rule: less_induct)
  case less
  show ?case
  proof (cases "\<exists>s1. opens k s = Inr (Some (Inr s1))")
    case False
    then show ?thesis using less.prems rel_start
      by (auto simp: run_sessions.simps [of r opens] split: sum.splits option.splits)
  next
    case True
    then obtain s1 where open1: "opens k s = Inr (Some (Inr s1))" by blast
    then obtain q as' s2 where loop: "bus_loop step 0 as s1 = Inr (Some (q, as', s2))"
      using less.prems by (auto simp: run_sessions.simps [of r opens] split: sum.splits option.splits)
    from loop_trace [OF loop] obtain gone where g: "as = gone @ as'" "rel s1 (map snd gone) s2" "q = 0 \<longrightarrow> as' = []"
      by blast
    have r2: "rel s (map snd gone) s2" using rel_join [OF rel_opens [OF open1] g(2)] by simp
    obtain code s3 where cl: "closes k s2 = (code, s3)" by fastforce
    have r3: "rel s (map snd gone) s3" using rel_join [OF r2, of "[]"] rel_closes [of s2 k] cl by simp
    show ?thesis
    proof (cases "q \<noteq> 0 \<and> q = 2 \<and> r")
      case True
      then have again: "run_sessions r opens step closes (Suc k) as' s3 = Inr (Some out)"
        using less.prems by (subst (asm) run_sessions.simps) (simp add: open1 loop cl)
      have "length as' < length as" using bus_loop_shorter [OF loop] True by simp
      from less.hyps [OF this again] obtain gone2 where
        "case out of Waiting s' \<Rightarrow> as' = gone2 \<and> rel s3 (map snd gone2) s'
         | Returned code as'' s' \<Rightarrow> as' = gone2 @ as'' \<and> rel s3 (map snd gone2) s'" by blast
      then show ?thesis using g(1) rel_join [OF r3]
        by (intro exI [of _ "gone @ gone2"]) (auto split: outcome.splits)
    next
      case False
      have "out = (if q = 0 then Waiting s2 else Returned code as' s3)"
        using less.prems False by (subst (asm) run_sessions.simps) (auto simp: open1 loop cl split: if_splits)
      then show ?thesis using g(1,3) r2 r3 by (intro exI [of _ gone]) auto
    qed
  qed
qed

end

end
