(* ===== verification/LineWriter.thy ===== *)
theory LineWriter
  imports Bus MessageFormat HandlerConfigs
begin

section \<open>The writer of text lines\<close>

text \<open>
  linewriter.cpp: the messages that arrive on the bus are decoded and printed into a stream,
  which is a file opened for appending or the standard output. A session begins with what the
  sockets, the declarations and malloc give.
\<close>

subsection \<open>Sessions\<close>

record bus_setup =
  su_socket :: bool
  su_connect :: bool
  su_malloc :: bool
  su_shutdown :: int

text \<open>What all writers have: the coded streams, the settings of the decomposer, the types.\<close>

record 'e writer_env =
  we_wire :: wire
  we_settings :: "'e settings"
  we_declarations :: declarations
  we_setup :: "nat \<Rightarrow> bus_setup"

definition open_cache :: "'e writer_env \<Rightarrow> cache option result" where
  "open_cache env =
     cache_new (st_fuel (we_settings env)) (st_hash (we_settings env)) (we_declarations env)"

lemma open_cache_declarations: "open_cache env = Inr (Some c) \<Longrightarrow> oc_declarations c = we_declarations env"
  by (auto simp: open_cache_def cache_new_def addDeclarations_def)

text \<open>The start of a run up to the loop; the second argument is the code of a missing socket.\<close>

definition open_writer :: "'e writer_env \<Rightarrow> int \<Rightarrow> nat \<Rightarrow> (int + cache) option result" where
  "open_writer env socket_code k =
     (let su = we_setup env k
      in if \<not> su_socket su then Inr (Some (Inl socket_code))
         else if \<not> su_connect su then Inr (Some (Inl (- 17)))
         else if we_declarations env = [] then Inr (Some (Inl (- 28)))
         else bindF (open_cache env) (\<lambda>c.
           if \<not> su_malloc su then Inr (Some (Inl (- 29))) else Inr (Some (Inr c))))"

definition close_writer :: "'e writer_env \<Rightarrow> nat \<Rightarrow> int" where
  "close_writer env k = (if su_shutdown (we_setup env k) \<noteq> 0 then - 20 else 0)"

definition allowed :: "string list \<Rightarrow> pb_message \<Rightarrow> bool" where
  "allowed allowed_messages m = (allowed_messages = [] \<or> pm_type m \<in> set allowed_messages)"

text \<open>The body of the loops: decode, look whether the type is allowed, and put the message.\<close>

definition writer_body ::
  "'e writer_env \<Rightarrow> string list \<Rightarrow> (bytes \<Rightarrow> string \<Rightarrow> pb_message \<Rightarrow> 's \<Rightarrow> 's option result) \<Rightarrow> bytes \<Rightarrow> 's
   \<Rightarrow> 's option result" where
  "writer_body env allowed_messages put msg s =
     (case readDelimitedMessage (we_wire env) (st_pool (we_settings env)) msg (type_address_new []) of
        (None, ta) \<Rightarrow> Inr (Some s)
      | (Some (m, rest), ta) \<Rightarrow>
          if allowed allowed_messages m then put msg (ta_type ta) m s else Inr (Some s))"

subsection \<open>Printing\<close>

text \<open>The output modes; DebugString of the library is a parameter.\<close>

definition put_message ::
  "'e settings \<Rightarrow> wire \<Rightarrow> (pb_message \<Rightarrow> string) \<Rightarrow> int \<Rightarrow> int \<Rightarrow> names option \<Rightarrow> names option \<Rightarrow> names option
   \<Rightarrow> cache \<Rightarrow> string \<Rightarrow> pb_message \<Rightarrow> (int \<times> string \<times> cache) option result" where
  "put_message st w DebugString mode sql_dialect tableAliases fieldAliases properties c t m =
     (if mode = 0 then put_json st c t m tableAliases fieldAliases properties
      else if mode = 1 then put_csv st c t m tableAliases fieldAliases properties
      else if mode = 2 then put_tab st c t m tableAliases fieldAliases properties
      else if mode = 3 then put_sql st c t m tableAliases fieldAliases properties sql_dialect
      else if mode = 4 then put_sql2 st c t m tableAliases fieldAliases properties sql_dialect
      else let (r, text) = (if mode = 5 then put_protobuf_text (\<lambda>m. text_of_bytes (w_serialize w m)) m
                            else put_debug DebugString m)
           in Inr (Some (r, text, c)))"

record line_state =
  ls_stream :: string
  ls_cache :: cache

definition line_open :: "'e writer_env \<Rightarrow> nat \<Rightarrow> line_state \<Rightarrow> (int + line_state) option result" where
  "line_open env k s =
     bindF (open_writer env (- 16) k) (\<lambda>r. Inr (Some (map_sum id (\<lambda>c. s\<lparr>ls_cache := c\<rparr>) r)))"

definition line_put ::
  "'e writer_env \<Rightarrow> (pb_message \<Rightarrow> string) \<Rightarrow> handlerline_config \<Rightarrow> bytes \<Rightarrow> string \<Rightarrow> pb_message
   \<Rightarrow> line_state \<Rightarrow> line_state option result" where
  "line_put env DebugString cfg msg t m s =
     bindF (put_message (we_settings env) (we_wire env) DebugString (handlerline_mode cfg)
         (handlerline_sql_dialect cfg) (Some (handlerline_tableAliases cfg))
         (Some (handlerline_fieldAliases cfg)) (Some (handlerline_properties cfg)) (ls_cache s) t m)
       (\<lambda>(r, text, c). Inr (Some (s\<lparr>ls_stream := ls_stream s @ text, ls_cache := c\<rparr>)))"

definition line_body ::
  "'e writer_env \<Rightarrow> (pb_message \<Rightarrow> string) \<Rightarrow> handlerline_config \<Rightarrow> bytes \<Rightarrow> line_state \<Rightarrow> line_state option result" where
  "line_body env DebugString cfg =
     in_buffer (handlerline_buffer_size cfg)
       (writer_body env (handlerline_allowed_messages cfg) (line_put env DebugString cfg))"

text \<open>The format number of the configuration is in force for the whole run.\<close>

definition line_env :: "'e writer_env \<Rightarrow> handlerline_config \<Rightarrow> 'e writer_env" where
  "line_env env cfg =
     env\<lparr>we_settings := (we_settings env)\<lparr>st_format_number :=
       set_format_number (handlerline_format_number cfg) (st_format_number (we_settings env))\<rparr>\<rparr>"

definition line_run ::
  "'e writer_env \<Rightarrow> (pb_message \<Rightarrow> string) \<Rightarrow> handlerline_config \<Rightarrow> arrival list \<Rightarrow> line_state
   \<Rightarrow> line_state outcome option result" where
  "line_run env DebugString cfg as s =
     (let e = line_env env cfg
      in run_sessions True (line_open e) (recv_step True (line_body e DebugString cfg))
           (\<lambda>k s. (close_writer e k, s)) 0 as s)"

section \<open>What the writer of lines guarantees\<close>

text \<open>A writer gets a message that was sent: it puts the message itself.\<close>

lemma writer_body_sent:
  assumes "wire_ok (we_wire env)" "message_fits (we_wire env) (st_pool (we_settings env)) m"
    "ta_type ta = pm_type m" "length (ta_src ta) = SOCKADDR_SIZE" "length (ta_dst ta) = SOCKADDR_SIZE"
  shows "writer_body env al put (stringDelimitedMessage (we_wire env) ta m) s =
    (if allowed al m then put (stringDelimitedMessage (we_wire env) ta m) (pm_type m) m s else Inr (Some s))"
  using delimited_read_back [OF assms, of "[]" "type_address_new []"] assms(3)
  by (simp add: writer_body_def)

lemma type_address_new_simps [simp]:
  "ta_type (type_address_new t) = t" "length (ta_src (type_address_new t)) = SOCKADDR_SIZE"
  "length (ta_dst (type_address_new t)) = SOCKADDR_SIZE"
  by (simp_all add: type_address_new_def)

text \<open>How the receiver of packets sends a message.\<close>

definition sent_message :: "wire \<Rightarrow> pb_message \<Rightarrow> bytes" where
  "sent_message w m = stringDelimitedMessage w (type_address_new (pm_type m)) m"

fun print_all :: "'e writer_env \<Rightarrow> (pb_message \<Rightarrow> string) \<Rightarrow> handlerline_config \<Rightarrow> pb_message list \<Rightarrow> line_state
    \<Rightarrow> line_state option result" where
  "print_all env DebugString cfg [] s = Inr (Some s)"
| "print_all env DebugString cfg (m # ms) s =
     bindF (line_put env DebugString cfg (sent_message (we_wire env) m) (pm_type m) m s)
       (print_all env DebugString cfg ms)"

definition deliverable :: "'e writer_env \<Rightarrow> int \<Rightarrow> pb_message \<Rightarrow> bool" where
  "deliverable env buffer_size m =
     (message_fits (we_wire env) (st_pool (we_settings env)) m \<and>
      int (length (sent_message (we_wire env) m)) \<le> buffer_size)"

lemma line_handle_all:
  assumes "wire_ok (we_wire env)" "\<forall>m \<in> set ms. deliverable env (handlerline_buffer_size cfg) m"
  shows "handle_all (line_body env DebugString cfg) (map (sent_message (we_wire env)) ms) s =
    print_all env DebugString cfg (filter (allowed (handlerline_allowed_messages cfg)) ms) s"
  using assms(2)
proof (induction ms arbitrary: s)
  case (Cons m ms)
  then have IH: "handle_all (line_body env DebugString cfg) (map (sent_message (we_wire env)) ms) =
      print_all env DebugString cfg (filter (allowed (handlerline_allowed_messages cfg)) ms)"
    by (intro ext) simp
  have "line_body env DebugString cfg (sent_message (we_wire env) m) s =
      (if allowed (handlerline_allowed_messages cfg) m
       then line_put env DebugString cfg (sent_message (we_wire env) m) (pm_type m) m s else Inr (Some s))"
    using Cons.prems assms(1)
    by (simp add: line_body_def in_buffer_def deliverable_def sent_message_def writer_body_sent)
  then show ?case using IH by simp
qed simp

lemma take_append_prefix: "take (length xs) ys = xs \<Longrightarrow> take (length xs) (ys @ zs) = xs"
  by (metis append_assoc append_take_drop_id append_eq_conv_conj)

lemma map_sum_Inr: "map_sum id f r = Inr y \<longleftrightarrow> (\<exists>x. r = Inr x \<and> y = f x)"
  by (cases r) auto

interpretation line_client: bus_client "line_open env" "line_body env DebugString cfg"
    "\<lambda>k s. (close_writer env k, s)" "\<lambda>s. take (length old) (ls_stream s) = old"
  for env DebugString cfg old
proof
  show "take (length old) (ls_stream s') = old"
    if "line_open env k s = Inr (Some (Inr s'))" "take (length old) (ls_stream s) = old" for k s s'
    using that by (auto simp: line_open_def map_sum_Inr)
  show "take (length old) (ls_stream s') = old"
    if "line_body env DebugString cfg msg s = Inr (Some s')" "take (length old) (ls_stream s) = old" for msg s s'
    using that take_append_prefix [of old "ls_stream s"]
    by (auto simp: line_body_def in_buffer_def writer_body_def line_put_def split: if_splits option.splits prod.splits)
qed simp

text \<open>
  C6: The writer of lines prints every message that was sent to it and whose type is allowed,
  in the order of their arrival, and nothing else; a signal that interrupts the wait ends it
  with the code of the shutdown, also where the signal asks to reload.
\<close>

theorem line_writer_prints_sent:
  assumes e: "e = line_env env cfg"
    and "wire_ok (we_wire env)" "\<forall>m \<in> set ms. deliverable e (handlerline_buffer_size cfg) m"
    and "line_open e 0 s = Inr (Some (Inr s1))"
    and "print_all e DebugString cfg (filter (allowed (handlerline_allowed_messages cfg)) ms) s1 = Inr (Some s2)"
  shows "line_run env DebugString cfg
      (arrived (map (sent_message (we_wire env)) ms) @ (Some g, Interrupted) # as) s =
    Inr (Some (Returned (close_writer e 0) as s2)) \<and> take (length (ls_stream s)) (ls_stream s2) = ls_stream s"
proof -
  have w: "we_wire e = we_wire env" by (simp add: e line_env_def)
  have h: "handle_all (line_body e DebugString cfg) (map (sent_message (we_wire env)) ms) s1 = Inr (Some s2)"
    using line_handle_all [of e ms cfg DebugString s1] assms(2,3,5) w by simp
  let ?as = "arrived (map (sent_message (we_wire env)) ms) @ (Some g, Interrupted) # as"
  have r: "run_sessions True (line_open e) (recv_step True (line_body e DebugString cfg)) (\<lambda>k s. (close_writer e k, s)) 0 ?as s =
      Inr (Some (Returned (close_writer e 0) as s2))"
    by (rule line_client.run_until_interrupted [OF assms(4) h]) simp
  have "take (length (ls_stream s)) (ls_stream s2) = ls_stream s"
    using line_client.checks.run_inv [where old = "ls_stream s", OF r] by simp
  with r show ?thesis by (simp add: line_run_def e)
qed

subsection \<open>An example of the library\<close>

text \<open>Coded streams that write a number as so many ones, and know one message.\<close>

definition example_wire :: "pb_message \<Rightarrow> wire" where
  "example_wire m =
     \<lparr>w_write_varint = (\<lambda>n. replicate (unat n) 1 @ [0]),
      w_read_varint = (\<lambda>bs. let k = length (takeWhile (\<lambda>b. b = 1) bs) in (of_nat k, drop (Suc k) bs)),
      w_read_raw = (\<lambda>n old bs. (take n bs, drop n bs)),
      w_read_string = (\<lambda>n bs. (take (nat n) bs, drop (nat n) bs)),
      w_serialize = (\<lambda>m. [7]), w_parse = (\<lambda>t bs. if bs = [7] then Some m else None)\<rparr>"

lemma example_wire_ok: "wire_ok (example_wire m)"
proof -
  have "takeWhile (\<lambda>b. b = 1) (replicate k (1 :: byte) @ 0 # r) = replicate k 1" for k r
    by (induction k) auto
  then show ?thesis by (auto simp: wire_ok_def example_wire_def Let_def)
qed

definition example_line_config :: handlerline_config where
  "example_line_config =
     \<lparr>handlerline_proto_path = [], handlerline_file_name = [], handlerline_message_url = [],
      handlerline_allowed_messages = [''t''], handlerline_retries = 0, handlerline_retry_delay = 60,
      handlerline_verbosity = 0, handlerline_daemonize = False, handlerline_mode = 6,
      handlerline_format_number = 0, handlerline_buffer_size = 4096, handlerline_sql_dialect = 0,
      handlerline_path = [], handlerline_tableAliases = [], handlerline_fieldAliases = [],
      handlerline_properties = []\<rparr>"

definition example_writer :: "((string \<times> jsval) list) writer_env" where
  "example_writer =
     \<lparr>we_wire = example_wire example_message, we_settings = example_settings,
      we_declarations = example_declarations,
      we_setup = (\<lambda>k. \<lparr>su_socket = True, su_connect = True, su_malloc = True, su_shutdown = 0\<rparr>)\<rparr>"

lemma example_fits: "message_fits (example_wire example_message) example_pool example_message"
  by (simp add: message_fits_def example_wire_def example_message_def example_pool_def
      getMessageDescriptor_def example_declarations_def)

lemma example_sent_length: "length (sent_message (example_wire example_message) example_message) = 38"
  by (simp add: sent_message_def stringDelimitedMessage_def writeDelimitedMessage_def example_wire_def
      type_address_new_def SOCKADDR_SIZE_def Let_def bytes_of_text_def example_message_def)

lemma example_cache_new: "cache_new 9 (\<lambda>s. 7) example_declarations = Inr (Some example_cache_value)"
proof -
  obtain c where "cache_new 9 (\<lambda>s. 7) example_declarations = Inr (Some c)" using example_cache by blast
  then show ?thesis by (simp add: example_cache_value_def)
qed

lemma example_deliverable: "deliverable (line_env example_writer cfg) 4096 example_message"
  using example_fits example_sent_length
  by (simp add: deliverable_def example_writer_def line_env_def example_settings_def)

lemma example_declared: "example_declarations \<noteq> []"
  by (simp add: example_declarations_def)

lemma example_open:
  "line_open (line_env example_writer cfg) 0 s = Inr (Some (Inr (s\<lparr>ls_cache := example_cache_value\<rparr>)))"
  by (simp add: line_open_def open_writer_def open_cache_def line_env_def example_writer_def
      example_settings_def example_cache_new Let_def example_declared)

theorem line_writer_prints_sent_witness:
  "\<exists>s2. line_run example_writer (\<lambda>m. ''message'') example_line_config
      (arrived [sent_message (example_wire example_message) example_message] @ [(Some SigHup, Interrupted)])
      \<lparr>ls_stream = ''> '', ls_cache = no_cache\<rparr> = Inr (Some (Returned 0 [] s2)) \<and>
    ls_stream s2 = ''> message'' @ endl"
proof -
  let ?s1 = "\<lparr>ls_stream = ''> '', ls_cache = example_cache_value\<rparr>"
  let ?s2 = "\<lparr>ls_stream = ''> message'' @ endl, ls_cache = example_cache_value\<rparr>"
  let ?e = "line_env example_writer example_line_config"
  have a: "filter (allowed (handlerline_allowed_messages example_line_config)) [example_message] = [example_message]"
    by (simp add: allowed_def example_line_config_def example_message_def)
  have p: "print_all ?e (\<lambda>m. ''message'') example_line_config
      (filter (allowed (handlerline_allowed_messages example_line_config)) [example_message]) ?s1 = Inr (Some ?s2)"
    unfolding a by (simp add: line_put_def put_message_def example_line_config_def put_debug_def)
  have h: "\<forall>m \<in> set [example_message]. deliverable ?e (handlerline_buffer_size example_line_config) m"
    using example_deliverable [of example_line_config] by (simp add: example_line_config_def)
  have o: "line_open ?e 0 \<lparr>ls_stream = ''> '', ls_cache = no_cache\<rparr> = Inr (Some (Inr ?s1))"
    by (simp add: example_open)
  have w: "we_wire example_writer = example_wire example_message" by (simp add: example_writer_def)
  have c: "close_writer ?e 0 = 0" by (simp add: close_writer_def example_writer_def line_env_def)
  show ?thesis
    using line_writer_prints_sent [OF refl example_wire_ok [of example_message, folded w] h o p, of SigHup "[]"]
    unfolding w c by fastforce
qed

end
