(* ===== verification/LmdbWriter.thy ===== *)
theory LmdbWriter
  imports LineWriter
begin

section \<open>The writer into LMDB\<close>

text \<open>
  lmdbwriter.cpp: a message is stored under the key that the options of its type make from its
  fields; the value is the message as it came over the bus. The library LMDB is a parameter: its
  calls change a database and return a code.
\<close>

record 'd lmdb =
  mdb_env_create :: "'d \<Rightarrow> int \<times> 'd"
  mdb_env_set_mapsize :: "nat \<Rightarrow> 'd \<Rightarrow> int \<times> 'd"
  mdb_env_open :: "'d \<Rightarrow> int \<times> 'd"
  mdb_env_info :: "'d \<Rightarrow> int \<times> nat"
  mdb_env_close :: "'d \<Rightarrow> 'd"
  mdb_open :: "'d \<Rightarrow> int \<times> 'd"
  mdb_close :: "'d \<Rightarrow> 'd"
  mdb_txn_begin :: "'d \<Rightarrow> int \<times> 'd"
  mdb_txn_commit :: "'d \<Rightarrow> int \<times> 'd"
  mdb_txn_abort :: "'d \<Rightarrow> 'd"
  mdb_put :: "bytes \<Rightarrow> bytes \<Rightarrow> 'd \<Rightarrow> int \<times> 'd"

definition MDB_MAP_FULL :: int where "MDB_MAP_FULL = - 30792"

subsection \<open>The database\<close>

definition close_lmdb :: "'d lmdb \<Rightarrow> 'd \<Rightarrow> bool \<times> 'd" where
  "close_lmdb lib d = (True, mdb_env_close lib (mdb_close lib d))"

text \<open>
  A transaction is freed when it is aborted or committed, also where the commit fails. A call with
  a transaction that is freed has no meaning; it counts as one with a null pointer. Opening the
  database tells whether it leaves a transaction behind that is not freed.
\<close>

definition txn_abort :: "'d lmdb \<Rightarrow> bool \<Rightarrow> 'd \<Rightarrow> 'd result" where
  "txn_abort lib live d = (if live then Inr (mdb_txn_abort lib d) else Inl NullPointer)"

definition open_lmdb :: "'d lmdb \<Rightarrow> 'd \<Rightarrow> bool \<times> bool \<times> 'd" where
  "open_lmdb lib d =
     (let (rc, d1) = mdb_env_create lib d
      in if rc \<noteq> 0 then (False, False, d1)
         else let (rc, d2) = mdb_env_open lib d1
              in if rc \<noteq> 0 then (False, False, d2)
                 else let (rc, d3) = mdb_txn_begin lib d2
                      in if rc \<noteq> 0 then (False, False, d3)
                         else let (rc, d4) = mdb_open lib d3
                              in if rc \<noteq> 0 then (False, True, d4)
                                 else let (rc, d5) = mdb_txn_commit lib d4 in (rc = 0, False, d5))"

text \<open>
  The map is opened with twice its size, closed, opened again, and a transaction is begun. The
  result is a code and whether there is a transaction.
\<close>

definition processMapFull :: "'d lmdb \<Rightarrow> bool \<Rightarrow> 'd \<Rightarrow> (int \<times> bool \<times> 'd) result" where
  "processMapFull lib txn d =
     bindR (txn_abort lib txn d) (\<lambda>d1.
       let (r, mapsize) = mdb_env_info lib d1
       in if r \<noteq> 0 then Inr (r, False, d1)
          else let (closed, d2) = close_lmdb lib d1
               in if \<not> closed then Inr (- 13, False, d2)
                  else let new_size = mapsize * 2; (r, d3) = mdb_env_create lib d2
                       in if r \<noteq> 0 then Inr (- 12, False, d3)
                          else let (r, d4) = mdb_env_set_mapsize lib new_size d3;
                                   (r, d5) = mdb_env_open lib d4;
                                   d6 = mdb_env_close lib d5;
                                   (opened, live, d7) = open_lmdb lib d6
                               in if \<not> opened then Inr (r, live, d7)
                                  else let (r, d8) = mdb_txn_begin lib d7 in Inr (r, r = 0, d8))"

subsection \<open>Storing a message\<close>

definition reflected_value :: "pb_value \<Rightarrow> field_value" where
  "reflected_value v =
     (case v of
        PDouble w \<Rightarrow> V_double w | PFloat w \<Rightarrow> V_float w | PInt64 w \<Rightarrow> V_int64 w | PUInt64 w \<Rightarrow> V_uint64 w
      | PInt32 w \<Rightarrow> V_int32 w | PUInt32 w \<Rightarrow> V_uint32 w | PBool b \<Rightarrow> V_bool b | PString s \<Rightarrow> V_string s
      | PEnum w \<Rightarrow> V_enum w | PMessage m \<Rightarrow> V_message)"

definition message_fields :: "pool \<Rightarrow> pb_message \<Rightarrow> field_desc list" where
  "message_fields pool m = (case pool (pm_type m) of None \<Rightarrow> [] | Some md \<Rightarrow> md_fields md)"

definition message_value :: "pool \<Rightarrow> pb_message \<Rightarrow> nat \<Rightarrow> field_value" where
  "message_value pool m i =
     reflected_value (get_value pool (message_fields pool m ! i) (pm_slots m ! i))"

text \<open>
  A put that finds the map full is tried once more when the map has grown. The commit has freed the
  transaction, so a commit that finds the map full ends in a call with a freed one.
\<close>

definition put_again :: "'d lmdb \<Rightarrow> bytes \<Rightarrow> bytes \<Rightarrow> 'd \<Rightarrow> (int \<times> bool \<times> 'd) result" where
  "put_again lib key buffer d =
     bindR (processMapFull lib True d) (\<lambda>(r, live, d').
       if r \<noteq> 0 then Inr (r, live, d')
       else if \<not> live then Inl NullPointer
       else let (r, d'') = mdb_put lib key buffer d' in Inr (r, True, d''))"

definition put_db ::
  "'d lmdb \<Rightarrow> pool \<Rightarrow> bytes \<Rightarrow> string \<Rightarrow> pb_message \<Rightarrow> 'd \<times> cache \<Rightarrow> (int \<times> 'd \<times> cache) result" where
  "put_db lib pool buffer t m s =
     (case s of (d, c) \<Rightarrow>
        bindR (getKey c t (replicate 2048 0) (message_fields pool m) (message_value pool m)) (\<lambda>(n, keybuffer, c').
          if n = 0 then Inr (0, d, c')
          else let key = take n keybuffer; (r, d1) = mdb_txn_begin lib d
               in if r \<noteq> 0 then Inr (- 10, d1, c')
                  else let (r, d2) = mdb_put lib key buffer d1
                       in bindR (if r = MDB_MAP_FULL then put_again lib key buffer d2 else Inr (r, True, d2)) (\<lambda>(r, live, d3).
                            if r \<noteq> 0 then bindR (txn_abort lib live d3) (\<lambda>d4. Inr (- 14, d4, c'))
                            else let (r, d4) = mdb_txn_commit lib d3
                                 in bindR (if r = MDB_MAP_FULL then processMapFull lib False d4 else Inr (r, False, d4)) (\<lambda>(r, live, d5).
                                      Inr (if r \<noteq> 0 then - 11 else r, d5, c')))))"

subsection \<open>The run\<close>

definition lmdb_open ::
  "'d lmdb \<Rightarrow> 'e writer_env \<Rightarrow> handlerlmdb_config \<Rightarrow> nat \<Rightarrow> 'd \<times> cache \<Rightarrow> (int + 'd \<times> cache) option result" where
  "lmdb_open lib env cfg k s =
     (let su = we_setup env k
      in if \<not> su_socket su then Inr (Some (Inl (- 19)))
         else if \<not> su_connect su then Inr (Some (Inl (- 17)))
         else let (opened, live, d) = open_lmdb lib (fst s)
              in if \<not> opened then Inr (Some (Inl (- 12)))
                 else if we_declarations env = [] then Inr (Some (Inl (- 28)))
                 else bindF (open_cache env) (\<lambda>c.
                   if 0 < handlerlmdb_buffer_size cfg \<and> \<not> su_malloc su then Inr (Some (Inl (- 29)))
                   else Inr (Some (Inr (d, c)))))"

definition lmdb_put ::
  "'d lmdb \<Rightarrow> 'e writer_env \<Rightarrow> bytes \<Rightarrow> string \<Rightarrow> pb_message \<Rightarrow> 'd \<times> cache \<Rightarrow> ('d \<times> cache) option result" where
  "lmdb_put lib env msg t m s =
     bindR (put_db lib (st_pool (we_settings env)) msg t m s) (\<lambda>(r, s'). Inr (Some s'))"

text \<open>Without a size of the buffer nn_recv gives a buffer that holds the message.\<close>

definition lmdb_body ::
  "'d lmdb \<Rightarrow> 'e writer_env \<Rightarrow> handlerlmdb_config \<Rightarrow> bytes \<Rightarrow> 'd \<times> cache \<Rightarrow> ('d \<times> cache) option result" where
  "lmdb_body lib env cfg =
     (let body = writer_body env (handlerlmdb_allowed_messages cfg) (lmdb_put lib env)
      in if 0 < handlerlmdb_buffer_size cfg then in_buffer (handlerlmdb_buffer_size cfg) body else body)"

definition lmdb_close :: "'d lmdb \<Rightarrow> 'e writer_env \<Rightarrow> nat \<Rightarrow> 'd \<times> cache \<Rightarrow> int \<times> 'd \<times> cache" where
  "lmdb_close lib env k s =
     (case s of (d, c) \<Rightarrow>
        let (closed, d') = close_lmdb lib d in (close_writer env k, d', c))"

text \<open>This run does not begin again when it is asked to reload.\<close>

definition lmdb_run ::
  "'d lmdb \<Rightarrow> 'e writer_env \<Rightarrow> handlerlmdb_config \<Rightarrow> arrival list \<Rightarrow> 'd \<times> cache \<Rightarrow> ('d \<times> cache) outcome option result" where
  "lmdb_run lib env cfg as s =
     run_sessions False (lmdb_open lib env cfg) (recv_step True (lmdb_body lib env cfg)) (lmdb_close lib env) 0 as s"

section \<open>What the database keeps\<close>

text \<open>
  What LMDB promises of every call, whether it succeeds or not: a transaction that begins has what
  the disk has, a put that succeeds is in the transaction, a commit that succeeds brings the
  transaction to the disk, and nothing else changes the disk. Which calls succeed is left open: a
  key may be longer than the limit of 511 bytes, and the map or the disk may be full.
\<close>

definition lmdb_keeps :: "'d lmdb \<Rightarrow> ('d \<Rightarrow> bytes \<Rightarrow> bytes option) \<Rightarrow> ('d \<Rightarrow> bytes \<Rightarrow> bytes option) \<Rightarrow> bool" where
  "lmdb_keeps lib disk pending =
     (\<forall>d. disk (snd (mdb_env_create lib d)) = disk d \<and> (\<forall>n. disk (snd (mdb_env_set_mapsize lib n d)) = disk d) \<and>
          disk (snd (mdb_env_open lib d)) = disk d \<and>
          disk (mdb_env_close lib d) = disk d \<and> disk (mdb_close lib d) = disk d \<and> disk (mdb_txn_abort lib d) = disk d \<and>
          disk (snd (mdb_open lib d)) = disk d \<and> pending (snd (mdb_open lib d)) = pending d \<and>
          disk (snd (mdb_txn_begin lib d)) = disk d \<and>
          (fst (mdb_txn_begin lib d) = 0 \<longrightarrow> pending (snd (mdb_txn_begin lib d)) = disk d) \<and>
          (\<forall>k v. disk (snd (mdb_put lib k v d)) = disk d \<and>
             (fst (mdb_put lib k v d) = 0 \<longrightarrow> pending (snd (mdb_put lib k v d)) = (pending d)(k \<mapsto> v))) \<and>
          disk (snd (mdb_txn_commit lib d)) = (if fst (mdb_txn_commit lib d) = 0 then pending d else disk d))"

lemma lmdb_calls:
  assumes "lmdb_keeps lib disk pending"
  shows "mdb_env_create lib d = (r, d') \<Longrightarrow> disk d' = disk d" "mdb_env_set_mapsize lib n d = (r, d') \<Longrightarrow> disk d' = disk d"
    "mdb_env_open lib d = (r, d') \<Longrightarrow> disk d' = disk d"
    "disk (mdb_env_close lib d) = disk d" "disk (mdb_close lib d) = disk d" "disk (mdb_txn_abort lib d) = disk d"
    "mdb_open lib d = (r, d') \<Longrightarrow> disk d' = disk d \<and> pending d' = pending d"
    "mdb_txn_begin lib d = (r, d') \<Longrightarrow> disk d' = disk d \<and> (r = 0 \<longrightarrow> pending d' = disk d)"
    "mdb_put lib k v d = (r, d') \<Longrightarrow> disk d' = disk d \<and> (r = 0 \<longrightarrow> pending d' = (pending d)(k \<mapsto> v))"
    "mdb_txn_commit lib d = (r, d') \<Longrightarrow> disk d' = (if r = 0 then pending d else disk d)"
  using assms unfolding lmdb_keeps_def by (metis fst_conv snd_conv)+

lemma open_lmdb_disk:
  assumes "lmdb_keeps lib disk pending" "open_lmdb lib d = (ok, live, d')"
  shows "disk d' = disk d \<and> (live \<longrightarrow> pending d' = disk d)"
proof -
  note w = lmdb_calls [OF assms(1)]
  obtain r1 d1 where 1: "mdb_env_create lib d = (r1, d1)" by fastforce
  obtain r2 d2 where 2: "mdb_env_open lib d1 = (r2, d2)" by fastforce
  obtain r3 d3 where 3: "mdb_txn_begin lib d2 = (r3, d3)" by fastforce
  obtain r4 d4 where 4: "mdb_open lib d3 = (r4, d4)" by fastforce
  obtain r5 d5 where 5: "mdb_txn_commit lib d4 = (r5, d5)" by fastforce
  show ?thesis
    using w(1) [OF 1] w(3) [OF 2] w(8) [OF 3] w(7) [OF 4] w(10) [OF 5] assms(2)
    by (auto simp: open_lmdb_def 1 2 3 4 5 split: if_splits)
qed

lemma processMapFull_disk:
  assumes "lmdb_keeps lib disk pending" "processMapFull lib txn d = Inr (r, live, d')"
  shows "txn \<and> disk d' = disk d \<and> (live \<longrightarrow> pending d' = disk d)"
proof (cases txn)
  case True
  note w = lmdb_calls [OF assms(1)]
  obtain ri size where info: "mdb_env_info lib (mdb_txn_abort lib d) = (ri, size)" by fastforce
  obtain d2 where cl: "close_lmdb lib (mdb_txn_abort lib d) = (True, d2)" "disk d2 = disk d"
    by (simp add: close_lmdb_def w(4-6))
  obtain r3 d3 where 3: "mdb_env_create lib d2 = (r3, d3)" by fastforce
  obtain r4 d4 where 4: "mdb_env_set_mapsize lib (size * 2) d3 = (r4, d4)" by fastforce
  obtain r5 d5 where 5: "mdb_env_open lib d4 = (r5, d5)" by fastforce
  obtain ok l7 d7 where 7: "open_lmdb lib (mdb_env_close lib d5) = (ok, l7, d7)" by (metis prod_cases3)
  obtain r8 d8 where 8: "mdb_txn_begin lib d7 = (r8, d8)" by fastforce
  note k = w(1) [OF 3] w(2) [OF 4] w(3) [OF 5] open_lmdb_disk [OF assms(1) 7] w(8) [OF 8] w(4) [of d5] w(6) [of d] cl(2)
  show ?thesis using assms(2) k True
    by (auto simp: processMapFull_def txn_abort_def info cl(1) 3 4 5 7 8 Let_def split: if_splits)
qed (use assms(2) in \<open>simp add: processMapFull_def txn_abort_def\<close>)

lemma put_again_disk:
  assumes "lmdb_keeps lib disk pending" "put_again lib key buffer d = Inr (r, live, d')"
  shows "disk d' = disk d \<and> (r = 0 \<longrightarrow> pending d' = (disk d)(key \<mapsto> buffer))"
proof -
  obtain r1 l1 d1 where 1: "processMapFull lib True d = Inr (r1, l1, d1)"
    using assms(2) by (cases "processMapFull lib True d") (auto simp: put_again_def)
  obtain r2 d2 where 2: "mdb_put lib key buffer d1 = (r2, d2)" by fastforce
  show ?thesis using processMapFull_disk [OF assms(1) 1] lmdb_calls(9) [OF assms(1) 2] assms(2)
    by (auto simp: put_again_def 1 2 split: if_splits)
qed

text \<open>
  A message is stored under a key when its transaction begins, the put succeeds, at once or in the
  map that has grown, and the commit succeeds.
\<close>

definition lmdb_stores :: "'d lmdb \<Rightarrow> bytes \<Rightarrow> bytes \<Rightarrow> 'd \<Rightarrow> bool" where
  "lmdb_stores lib key buffer d =
     (case mdb_txn_begin lib d of (begun, d1) \<Rightarrow>
      case mdb_put lib key buffer d1 of (first, d2) \<Rightarrow>
        begun = 0 \<and>
        (first = 0 \<and> fst (mdb_txn_commit lib d2) = 0 \<or>
         first = MDB_MAP_FULL \<and>
           (case put_again lib key buffer d2 of
              Inr (again, live, d3) \<Rightarrow> again = 0 \<and> fst (mdb_txn_commit lib d3) = 0
            | Inl e \<Rightarrow> False)))"

lemma put_db_disk:
  assumes "lmdb_keeps lib disk pending" "put_db lib pool buffer t m (d, c) = Inr (r, d', c')"
    and "getKey c t (replicate 2048 0) (message_fields pool m) (message_value pool m) = Inr (n, kb, c'')"
  shows "disk d' = (if n \<noteq> 0 \<and> lmdb_stores lib (take n kb) buffer d then (disk d)(take n kb \<mapsto> buffer) else disk d)"
    and "n \<noteq> 0 \<Longrightarrow> r = 0 \<longleftrightarrow> lmdb_stores lib (take n kb) buffer d"
proof -
  note w = lmdb_calls [OF assms(1)]
  let ?key = "take n kb"
  obtain r1 d1 where 1: "mdb_txn_begin lib d = (r1, d1)" by fastforce
  obtain r2 d2 where 2: "mdb_put lib ?key buffer d1 = (r2, d2)" by fastforce
  define again where "again = (if r2 = MDB_MAP_FULL then put_again lib ?key buffer d2 else Inr (r2, True, d2))"
  have full: "MDB_MAP_FULL \<noteq> 0" by (simp add: MDB_MAP_FULL_def)
  have put: "n \<noteq> 0 \<Longrightarrow> r1 = 0 \<Longrightarrow> bindR again (\<lambda>(r, live, d3).
      if r \<noteq> 0 then bindR (txn_abort lib live d3) (\<lambda>d4. Inr (- 14, d4, c''))
      else let (r, d4) = mdb_txn_commit lib d3
           in bindR (if r = MDB_MAP_FULL then processMapFull lib False d4 else Inr (r, False, d4)) (\<lambda>(r, live, d5).
                Inr (if r \<noteq> 0 then - 11 else r, d5, c''))) = Inr (r, d', c')"
    and none: "n = 0 \<Longrightarrow> r = 0 \<and> d' = d" and fails: "n \<noteq> 0 \<Longrightarrow> r1 \<noteq> 0 \<Longrightarrow> r = - 10 \<and> d' = d1"
    using assms(2) by (simp_all add: put_db_def assms(3) 1 2 again_def Let_def split: if_splits)
  have "disk d' = (if n \<noteq> 0 \<and> lmdb_stores lib ?key buffer d then (disk d)(?key \<mapsto> buffer) else disk d) \<and>
    (n \<noteq> 0 \<longrightarrow> (r = 0 \<longleftrightarrow> lmdb_stores lib ?key buffer d))"
  proof (cases "n = 0 \<or> r1 \<noteq> 0")
    case True
    then show ?thesis using none fails w(8) [OF 1] by (auto simp: lmdb_stores_def 1)
  next
    case False
    then obtain r3 live d3 where 3: "again = Inr (r3, live, d3)"
      using put by (cases again) auto
    note put = put [unfolded 3, simplified]
    have s3: "lmdb_stores lib ?key buffer d \<longleftrightarrow> r3 = 0 \<and> fst (mdb_txn_commit lib d3) = 0"
      using 3 False full by (auto simp: lmdb_stores_def 1 2 again_def split: if_splits)
    have d3: "disk d3 = disk d \<and> (r3 = 0 \<longrightarrow> pending d3 = (disk d)(?key \<mapsto> buffer))"
      using 3 w(8) [OF 1] w(9) [OF 2] put_again_disk [OF assms(1), of ?key buffer d2] False
      by (auto simp: again_def split: if_splits)
    obtain r4 d4 where 4: "mdb_txn_commit lib d3 = (r4, d4)" by fastforce
    show ?thesis
    proof (cases "r3 = 0")
      case True
      then have "r4 \<noteq> MDB_MAP_FULL"
        using put 3 False by (auto simp: 4 processMapFull_def txn_abort_def)
      then have "d' = d4" "r = (if r4 \<noteq> 0 then - 11 else 0)" using put 3 False True by (auto simp: 4 split: if_splits)
      then show ?thesis using s3 d3 True w(10) [OF 4] False by (simp add: 4)
    next
      case False': False
      then have "d' = mdb_txn_abort lib d3" "r = - 14"
        using put 3 False by (auto simp: txn_abort_def split: if_splits)
      then show ?thesis using s3 d3 False' w(6) [of d3] False by simp
    qed
  qed
  then show "disk d' = (if n \<noteq> 0 \<and> lmdb_stores lib ?key buffer d then (disk d)(?key \<mapsto> buffer) else disk d)"
    "n \<noteq> 0 \<Longrightarrow> r = 0 \<longleftrightarrow> lmdb_stores lib ?key buffer d" by auto
qed

text \<open>
  What a list of messages leaves in the map of the keys, each judged by the answers of the
  database to its own calls, which begin where those of the message before ended.
\<close>

fun lmdb_kept :: "'d lmdb \<Rightarrow> 'e writer_env \<Rightarrow> pb_message list \<Rightarrow> 'd \<times> cache \<Rightarrow> (bytes \<Rightarrow> bytes option)
    \<Rightarrow> (bytes \<Rightarrow> bytes option) result" where
  "lmdb_kept lib env [] s db = Inr db"
| "lmdb_kept lib env (m # ms) s db =
     (let pool = st_pool (we_settings env); buffer = sent_message (we_wire env) m
      in bindR (getKey (snd s) (pm_type m) (replicate 2048 0) (message_fields pool m) (message_value pool m)) (\<lambda>(n, kb, c).
         bindR (put_db lib pool buffer (pm_type m) m s) (\<lambda>(r, s').
           lmdb_kept lib env ms s'
             (if n \<noteq> 0 \<and> lmdb_stores lib (take n kb) buffer (fst s) then db(take n kb \<mapsto> buffer) else db))))"

lemma lmdb_body_sent:
  assumes "wire_ok (we_wire env)"
    and "message_fits (we_wire env) (st_pool (we_settings env)) m"
    and "0 < handlerlmdb_buffer_size cfg \<longrightarrow>
         int (length (sent_message (we_wire env) m)) \<le> handlerlmdb_buffer_size cfg"
  shows "lmdb_body lib env cfg (sent_message (we_wire env) m) s =
    (if allowed (handlerlmdb_allowed_messages cfg) m
     then lmdb_put lib env (sent_message (we_wire env) m) (pm_type m) m s else Inr (Some s))"
  using assms
  by (cases "0 < handlerlmdb_buffer_size cfg")
     (simp_all add: lmdb_body_def in_buffer_def Let_def sent_message_def writer_body_sent)

lemma lmdb_handle_all:
  assumes "lmdb_keeps lib disk pending" "wire_ok (we_wire env)"
    and "\<forall>m \<in> set ms. message_fits (we_wire env) (st_pool (we_settings env)) m \<and>
      (0 < handlerlmdb_buffer_size cfg \<longrightarrow>
       int (length (sent_message (we_wire env) m)) \<le> handlerlmdb_buffer_size cfg)"
  shows "case handle_all (lmdb_body lib env cfg) (map (sent_message (we_wire env)) ms) s of
      Inl e \<Rightarrow> lmdb_kept lib env (filter (allowed (handlerlmdb_allowed_messages cfg)) ms) s (disk (fst s)) = Inl e
    | Inr r \<Rightarrow> \<exists>s'. r = Some s' \<and>
        lmdb_kept lib env (filter (allowed (handlerlmdb_allowed_messages cfg)) ms) s (disk (fst s)) = Inr (disk (fst s'))"
  using assms(3)
proof (induction ms arbitrary: s)
  case (Cons m ms)
  let ?pool = "st_pool (we_settings env)" and ?b = "sent_message (we_wire env) m"
  have body: "lmdb_body lib env cfg ?b s =
      (if allowed (handlerlmdb_allowed_messages cfg) m then lmdb_put lib env ?b (pm_type m) m s else Inr (Some s))"
    using Cons.prems by (intro lmdb_body_sent assms(2)) auto
  obtain d c where s: "s = (d, c)" by fastforce
  show ?case
  proof (cases "allowed (handlerlmdb_allowed_messages cfg) m")
    case True
    show ?thesis
    proof (cases "put_db lib ?pool ?b (pm_type m) m s")
      case (Inl e)
      then show ?thesis using True body
        by (auto simp: lmdb_put_def Let_def s put_db_def bindR_Inl_iff split: prod.splits)
    next
      case (Inr p)
      obtain r d1 c1 where p: "p = (r, d1, c1)" by (metis prod_cases3)
      obtain n kb c2 where key: "getKey c (pm_type m) (replicate 2048 0) (message_fields ?pool m) (message_value ?pool m) =
          Inr (n, kb, c2)"
        using Inr by (cases "getKey c (pm_type m) (replicate 2048 0) (message_fields ?pool m) (message_value ?pool m)")
          (auto simp: s put_db_def)
      have "disk d1 = (if n \<noteq> 0 \<and> lmdb_stores lib (take n kb) ?b d then (disk d)(take n kb \<mapsto> ?b) else disk d)"
        using put_db_disk(1) [OF assms(1) Inr [unfolded s p] key] .
      then show ?thesis using Cons.IH [of "(d1, c1)"] Cons.prems True body Inr key
        by (cases "handle_all (lmdb_body lib env cfg) (map (sent_message (we_wire env)) ms) (d1, c1)")
          (simp_all add: lmdb_put_def s p Let_def)
    qed
  next
    case False
    then show ?thesis using Cons.IH [of s] Cons.prems body
      by (cases "handle_all (lmdb_body lib env cfg) (map (sent_message (we_wire env)) ms) s") simp_all
  qed
qed simp

lemma lmdb_open_disk:
  assumes "lmdb_keeps lib disk pending" "lmdb_open lib env cfg k (d, c) = Inr (Some (Inr (d1, c1)))"
  shows "disk d1 = disk d"
proof -
  obtain ok live d2 where o: "open_lmdb lib d = (ok, live, d2)" by (metis prod_cases3)
  show ?thesis using open_lmdb_disk [OF assms(1) o] assms(2)
    by (auto simp: lmdb_open_def o Let_def split: if_splits)
qed

lemma lmdb_close_disk:
  assumes "lmdb_keeps lib disk pending"
  shows "\<exists>d'. lmdb_close lib env k (d, c) = (close_writer env k, d', c) \<and> disk d' = disk d"
  using lmdb_calls(4,5) [OF assms] by (simp add: lmdb_close_def close_lmdb_def)

lemma lmdb_loop_fails:
  "handle_all body ms s = Inl e \<Longrightarrow> bus_loop (recv_step c body) 0 (arrived ms @ as) s = Inl e"
proof (induction ms arbitrary: s)
  case (Cons msg ms)
  show ?case
  proof (cases "body msg s")
    case (Inr b)
    with Cons show ?thesis by (cases b) (auto simp: arrived_def)
  qed (use Cons in \<open>simp add: arrived_def\<close>)
qed simp

text \<open>The types the cache knows are those of its session.\<close>

lemma getKey_declarations:
  "getKey c t buffer fds message = Inr (n, kb, c') \<Longrightarrow> oc_declarations c' = oc_declarations c"
  by (auto simp: getKey_def split: prod.splits list.splits)

lemma put_db_declarations:
  "put_db lib pool buffer t m (d, c) = Inr (r, d', c') \<Longrightarrow> oc_declarations c' = oc_declarations c"
proof -
  assume put: "put_db lib pool buffer t m (d, c) = Inr (r, d', c')"
  then obtain n kb c1 where "getKey c t (replicate 2048 0) (message_fields pool m) (message_value pool m) = Inr (n, kb, c1)"
    by (auto simp: put_db_def split: prod.splits)
  moreover from this have "c' = c1" using put by (auto simp: put_db_def Let_def split: if_splits prod.splits)
  ultimately show ?thesis by (simp add: getKey_declarations)
qed

interpretation lmdb_client: bus_client "lmdb_open lib env cfg" "lmdb_body lib env cfg" "lmdb_close lib env"
    "\<lambda>s. oc_declarations (snd s) \<in> {pd, we_declarations env}"
  for lib env cfg pd
proof
  show "oc_declarations (snd s') \<in> {pd, we_declarations env}"
    if "lmdb_open lib env cfg k s = Inr (Some (Inr s'))" for k s s'
    using that by (auto simp: lmdb_open_def Let_def open_cache_declarations split: if_splits prod.splits)
  show "oc_declarations (snd s') \<in> {pd, we_declarations env}"
    if "lmdb_body lib env cfg msg s = Inr (Some s')" "oc_declarations (snd s) \<in> {pd, we_declarations env}" for msg s s'
    using that put_db_declarations [of lib "st_pool (we_settings env)" msg]
    by (cases s)
       (auto simp: lmdb_body_def in_buffer_def writer_body_def lmdb_put_def Let_def split: if_splits option.splits prod.splits)
  show "oc_declarations (snd (snd (lmdb_close lib env k s))) \<in> {pd, we_declarations env}"
    if "oc_declarations (snd s) \<in> {pd, we_declarations env}" for k s
    using that by (cases s) (simp add: lmdb_close_def close_lmdb_def)
qed

text \<open>
  C7: Whatever calls of the database fail, the LMDB file has, when the run ends, what it had and
  under every key the last message with this key that was stored: of an allowed type, with a
  transaction that began, a put that succeeded, at once or after the map has grown, and a commit
  that succeeded. Every other message leaves it as it was. The run has no defined result only where
  storing one of the messages has none, and then for the same reason (a transaction used after it
  is freed, see below, or a key that is not made in its buffer).
\<close>

theorem lmdb_keeps_last_of_key:
  assumes "lmdb_keeps lib disk pending" "wire_ok (we_wire env)"
    and "\<forall>m \<in> set ms. message_fits (we_wire env) (st_pool (we_settings env)) m \<and>
      (0 < handlerlmdb_buffer_size cfg \<longrightarrow>
       int (length (sent_message (we_wire env) m)) \<le> handlerlmdb_buffer_size cfg)"
    and "lmdb_open lib env cfg 0 (d, c) = Inr (Some (Inr (d1, c1)))"
  shows "case lmdb_run lib env cfg (arrived (map (sent_message (we_wire env)) ms) @ (sig, Interrupted) # as) (d, c) of
      Inl e \<Rightarrow> lmdb_kept lib env (filter (allowed (handlerlmdb_allowed_messages cfg)) ms) (d1, c1) (disk d) = Inl e
    | Inr r \<Rightarrow> \<exists>d2 c2. r = Some (Returned (close_writer env 0) as (d2, c2)) \<and>
        lmdb_kept lib env (filter (allowed (handlerlmdb_allowed_messages cfg)) ms) (d1, c1) (disk d) = Inr (disk d2)"
proof -
  let ?h = "handle_all (lmdb_body lib env cfg) (map (sent_message (we_wire env)) ms) (d1, c1)"
  have d: "disk d1 = disk d" using lmdb_open_disk [OF assms(1,4)] .
  note h = lmdb_handle_all [OF assms(1-3), of "(d1, c1)", simplified, unfolded d]
  show ?thesis
  proof (cases ?h)
    case (Inl e)
    then show ?thesis using h d assms(4) lmdb_loop_fails [OF Inl]
      by (simp add: lmdb_run_def run_sessions.simps [of False])
  next
    case (Inr r)
    then obtain d2 c2 where s2: "?h = Inr (Some (d2, c2))" "lmdb_kept lib env (filter (allowed (handlerlmdb_allowed_messages cfg)) ms) (d1, c1)
        (disk d) = Inr (disk d2)" using h d by auto
    obtain d3 where "lmdb_close lib env 0 (d2, c2) = (close_writer env 0, d3, c2)" "disk d3 = disk d2"
      using lmdb_close_disk [OF assms(1)] by blast
    with lmdb_client.run_until_interrupted [OF assms(4) s2(1)] s2(2) show ?thesis by (simp add: lmdb_run_def)
  qed
qed

text \<open>A put gives 0 exactly where the message is stored.\<close>

theorem put_db_tells:
  assumes "lmdb_keeps lib disk pending" "put_db lib pool buffer t m (d, c) = Inr (r, d', c')"
    and "getKey c t (replicate 2048 0) (message_fields pool m) (message_value pool m) = Inr (n, kb, c'')" "0 < n"
  shows "r = 0 \<longleftrightarrow> disk d' = (disk d)(take n kb \<mapsto> buffer) \<and> lmdb_stores lib (take n kb) buffer d"
  using put_db_disk [OF assms(1-3)] assms(4) by auto

text \<open>A commit that finds the map full ends in the abort of the transaction that it has freed.\<close>

theorem full_commit_aborts_freed:
  assumes "getKey c t (replicate 2048 0) (message_fields pool m) (message_value pool m) = Inr (n, kb, c')" "0 < n"
    and "mdb_txn_begin lib d = (0, d1)" "mdb_put lib (take n kb) buffer d1 = (0, d2)"
    and "mdb_txn_commit lib d2 = (MDB_MAP_FULL, d3)"
  shows "put_db lib pool buffer t m (d, c) = Inl NullPointer"
  using assms by (simp add: put_db_def MDB_MAP_FULL_def processMapFull_def txn_abort_def)

subsection \<open>An example of a database\<close>

text \<open>
  A database in memory: what the disk has, what the transaction has, and the size of the map, which
  a put that needs more finds full. Keys are of 1 to 511 bytes.
\<close>

type_synonym example_db = "(bytes \<Rightarrow> bytes option) \<times> (bytes \<Rightarrow> bytes option) \<times> nat"

definition example_lmdb :: "example_db lmdb" where
  "example_lmdb =
     \<lparr>mdb_env_create = (\<lambda>d. (0, d)), mdb_env_set_mapsize = (\<lambda>n (db, p, k). (0, db, p, n)), mdb_env_open = (\<lambda>d. (0, d)),
      mdb_env_info = (\<lambda>(db, p, k). (0, k)), mdb_env_close = (\<lambda>d. d), mdb_open = (\<lambda>d. (0, d)), mdb_close = (\<lambda>d. d),
      mdb_txn_begin = (\<lambda>(db, p, k). (0, db, db, k)), mdb_txn_commit = (\<lambda>(db, p, k). (0, p, p, k)),
      mdb_txn_abort = (\<lambda>(db, p, k). (db, db, k)),
      mdb_put = (\<lambda>key v (db, p, k).
        if key = [] \<or> 511 < length key then (- 30781, db, p, k)
        else if k < length key + length v then (MDB_MAP_FULL, db, p, k)
        else (0, db, p(key \<mapsto> v), k))\<rparr>"

lemma example_lmdb_keeps: "lmdb_keeps example_lmdb fst (\<lambda>d. fst (snd d))"
  by (simp add: lmdb_keeps_def example_lmdb_def MDB_MAP_FULL_def split: prod.splits)

definition example_lmdb_config :: handlerlmdb_config where
  "example_lmdb_config =
     \<lparr>handlerlmdb_proto_path = [], handlerlmdb_message_url = [],
      handlerlmdb_allowed_messages = [], handlerlmdb_retries = 0, handlerlmdb_retry_delay = 60,
      handlerlmdb_verbosity = 0, handlerlmdb_daemonize = False, handlerlmdb_max_fd = 0, handlerlmdb_path = [],
      handlerlmdb_mode = 0, handlerlmdb_flags = 0, handlerlmdb_buffer_size = 0\<rparr>"

lemma example_keys:
  "case getKey example_cache_value ''t'' (replicate 2048 0) (message_fields example_pool example_message)
      (message_value example_pool example_message) of
     Inr (n, kb, c') \<Rightarrow> n = 8 \<and> take n kb = replicate 8 0 \<and>
       (case getKey c' ''t'' (replicate 2048 0) (message_fields example_pool example_message)
          (message_value example_pool example_message) of
          Inr (n, kb, c'') \<Rightarrow> n = 8 \<and> take n kb = replicate 8 0 | Inl e \<Rightarrow> False)
   | Inl e \<Rightarrow> False"
  by code_simp

lemma example_put:
  assumes "getKey c t (replicate 2048 0) (message_fields pool m) (message_value pool m) = Inr (8, kb, c')"
    and "take 8 kb = replicate 8 0" "length buffer = 38" "k = 30 \<or> k = 60"
  shows "put_db example_lmdb pool buffer t m ((db, db, k), c) =
      Inr (0, (db(replicate 8 0 \<mapsto> buffer), db(replicate 8 0 \<mapsto> buffer), 60), c')"
    "lmdb_stores example_lmdb (replicate 8 0) buffer (db, db, k)"
proof -
  have "kb \<noteq> []" using assms(2) by auto
  then show "put_db example_lmdb pool buffer t m ((db, db, k), c) =
      Inr (0, (db(replicate 8 0 \<mapsto> buffer), db(replicate 8 0 \<mapsto> buffer), 60), c')"
    "lmdb_stores example_lmdb (replicate 8 0) buffer (db, db, k)"
    using assms(3,4) unfolding put_db_def lmdb_stores_def
    by (auto simp: assms(1,2) example_lmdb_def put_again_def processMapFull_def txn_abort_def close_lmdb_def
        open_lmdb_def MDB_MAP_FULL_def Let_def)
qed

text \<open>
  The map is too small for the message at first; it is stored in the map that has grown, and then
  once more.
\<close>

theorem lmdb_keeps_last_of_key_witness:
  "\<exists>d2 c2. lmdb_run example_lmdb example_writer example_lmdb_config
      (arrived (map (sent_message (example_wire example_message)) [example_message, example_message]) @ [(None, Interrupted)])
      ((Map.empty, Map.empty, 30), no_cache) = Inr (Some (Returned 0 [] (d2, c2))) \<and>
    fst d2 = [replicate 8 0 \<mapsto> sent_message (example_wire example_message) example_message]"
proof -
  let ?d = "(Map.empty, Map.empty, 30) :: example_db" and ?d1 = "(Map.empty, Map.empty, 30) :: example_db"
  let ?b = "sent_message (example_wire example_message) example_message"
  let ?ms = "[example_message, example_message]"
  have w: "we_wire example_writer = example_wire example_message"
    and p: "st_pool (we_settings example_writer) = example_pool"
    by (simp_all add: example_writer_def example_settings_def)
  have a: "filter (allowed (handlerlmdb_allowed_messages example_lmdb_config)) ?ms = ?ms"
    by (simp add: allowed_def example_lmdb_config_def)
  have f: "\<forall>m \<in> set ?ms. message_fits (we_wire example_writer) (st_pool (we_settings example_writer)) m \<and>
      (0 < handlerlmdb_buffer_size example_lmdb_config \<longrightarrow>
       int (length (sent_message (we_wire example_writer) m)) \<le> handlerlmdb_buffer_size example_lmdb_config)"
    using example_fits by (simp add: w p example_lmdb_config_def)
  have o: "lmdb_open example_lmdb example_writer example_lmdb_config 0 (?d, no_cache) =
      Inr (Some (Inr (?d1, example_cache_value)))"
    by (simp add: lmdb_open_def open_lmdb_def example_lmdb_def open_cache_def example_writer_def
        example_settings_def example_cache_new example_lmdb_config_def Let_def example_declared)
  have c: "close_writer example_writer 0 = 0" by (simp add: close_writer_def example_writer_def)
  have t: "pm_type example_message = ''t''" by (simp add: example_message_def)
  have len: "length ?b = 38" by code_simp
  obtain kb c1 kb1 c2 where
    k1: "getKey example_cache_value ''t'' (replicate 2048 0) (message_fields example_pool example_message)
      (message_value example_pool example_message) = Inr (8, kb, c1)" "take 8 kb = replicate 8 0" and
    k2: "getKey c1 ''t'' (replicate 2048 0) (message_fields example_pool example_message)
      (message_value example_pool example_message) = Inr (8, kb1, c2)" "take 8 kb1 = replicate 8 0"
  proof (cases "getKey example_cache_value ''t'' (replicate 2048 0) (message_fields example_pool example_message)
      (message_value example_pool example_message)")
    case (Inr p)
    moreover obtain n kb c1 where "p = (n, kb, c1)" by (metis prod_cases3)
    ultimately show ?thesis using example_keys that
      by (cases "getKey c1 ''t'' (replicate 2048 0) (message_fields example_pool example_message)
        (message_value example_pool example_message)") auto
  qed (use example_keys in simp)
  have kept: "lmdb_kept example_lmdb example_writer ?ms (?d1, example_cache_value) (fst ?d) = Inr [replicate 8 0 \<mapsto> ?b]"
    by (simp add: w p t k1 k2 example_put [OF k1 len] example_put [OF k2 len])
  show ?thesis
    using lmdb_keeps_last_of_key [where sig = None and as = "[]", OF example_lmdb_keeps
        example_wire_ok [of example_message, folded w] f o]
    unfolding a kept c w by (fastforce split: sum.splits)
qed

end
