(* ===== verification/PqWriter.thy ===== *)
theory PqWriter
  imports LineWriter "HOL-Library.Sublist"
begin

section \<open>The writer into PostgreSQL\<close>

text \<open>
  pqwriter.cpp and pg-connect.cpp: the statements of a message are executed in one transaction of
  a connection of their own. The library libpq is a parameter: its calls change what they work
  on, a connection and the server behind it.
\<close>

datatype pg_result = PGRES_COMMAND_OK | PGRES_TUPLES_OK "string list list" | PGRES_FATAL_ERROR

record 'd pg =
  PQconnectdb :: "string \<Rightarrow> 'd \<Rightarrow> bool \<times> 'd"
  PQsetdbLogin :: "string list \<Rightarrow> 'd \<Rightarrow> bool \<times> 'd"
  PQexec :: "string \<Rightarrow> 'd \<Rightarrow> pg_result \<times> 'd"
  PQfinish :: "'d \<Rightarrow> 'd"

definition dbconnect :: "'d pg \<Rightarrow> PGConfig \<Rightarrow> 'd \<Rightarrow> bool \<times> 'd" where
  "dbconnect lib config d =
     (if dbconn config \<noteq> [] then PQconnectdb lib (dbconn config) d
      else PQsetdbLogin lib [dbhost config, dbport config, dboptionsfile config, dbname config,
             dbuser config, dbpassword config] d)"

text \<open>CHECK_STMT: the statement is a command that succeeded.\<close>

definition checked_exec :: "'d pg \<Rightarrow> string \<Rightarrow> 'd \<Rightarrow> bool \<times> 'd" where
  "checked_exec lib stmt d = (let (res, d') = PQexec lib stmt d in (res = PGRES_COMMAND_OK, d'))"

fun exec_all :: "'d pg \<Rightarrow> string list \<Rightarrow> 'd \<Rightarrow> int \<times> 'd" where
  "exec_all lib [] d = (0, PQfinish lib d)"
| "exec_all lib (stmt # stmts) d =
     (let (ok, d') = checked_exec lib stmt d
      in if \<not> ok then (- 40, PQfinish lib d') else exec_all lib stmts d')"

text \<open>A connection that fails is not finished.\<close>

definition execSQL :: "'d pg \<Rightarrow> PGConfig \<Rightarrow> string list \<Rightarrow> 'd \<Rightarrow> int \<times> 'd" where
  "execSQL lib config stmts d =
     (let (ok, d') = dbconnect lib config d
      in if \<not> ok then (- 39, d') else exec_all lib (''BEGIN'' # stmts @ [''END'']) d')"

subsection \<open>The statements of a message\<close>

text \<open>The values of the fields that are marked as texts of SQL keep the mark.\<close>

definition addSQLFieldValueString :: "'e runtime \<Rightarrow> cache \<Rightarrow> int \<Rightarrow> event \<Rightarrow> index_strings \<times> 'e \<Rightarrow> (index_strings \<times> 'e) result" where
  "addSQLFieldValueString rt c format_number ev =
     (\<lambda>(vals, e). bindR (toString rt c ev format_number e) (\<lambda>(s, e').
        Inr (is_add (ev_field ev) s (ev_index ev) True vals, e')))"

fun add_sql_events :: "'e runtime \<Rightarrow> cache \<Rightarrow> int \<Rightarrow> event list \<Rightarrow> index_strings \<times> 'e \<Rightarrow> (index_strings \<times> 'e) result" where
  "add_sql_events rt c format_number [] ve = Inr ve"
| "add_sql_events rt c format_number (ev # evs) ve =
     bindR (addSQLFieldValueString rt c format_number ev ve) (add_sql_events rt c format_number evs)"

definition message_statements ::
  "'e settings \<Rightarrow> handlerpq_config \<Rightarrow> cache \<Rightarrow> string \<Rightarrow> pb_message \<Rightarrow> (string list \<times> cache) option result" where
  "message_statements st cfg c t m =
     (case index_strings_new c t of (vals, c') \<Rightarrow>
        bindF (decomposer_of_type (st_fuel st) (st_hash st) (st_runtime st) (st_time st) t c' (st_pool st) True m)
          (\<lambda>(e, r, evs). bindR (add_sql_events (st_runtime st) c' (st_format_number st) evs (vals, e)) (\<lambda>(vals', e').
             let aliases = Some (handlerpq_tableAliases cfg); fields = Some (handlerpq_fieldAliases cfg);
                 properties = Some (handlerpq_properties cfg)
             in if handlerpq_mode cfg = 3
                then Inr (Some (toStringInsert vals' aliases fields properties (handlerpq_sql_dialect cfg) [], c'))
                else if handlerpq_mode cfg = 4
                then bindR (toStringInsert2 vals' aliases fields properties (handlerpq_sql_dialect cfg) [])
                       (\<lambda>stmts. Inr (Some (stmts, c')))
                else Inr (Some ([], c')))))"

subsection \<open>The run\<close>

definition pq_open :: "'e writer_env \<Rightarrow> nat \<Rightarrow> 'd \<times> cache \<Rightarrow> (int + 'd \<times> cache) option result" where
  "pq_open env k s = bindF (open_writer env (- 19) k) (\<lambda>r. Inr (Some (map_sum id (\<lambda>c. (fst s, c)) r)))"

definition pq_put ::
  "'d pg \<Rightarrow> 'e writer_env \<Rightarrow> handlerpq_config \<Rightarrow> bytes \<Rightarrow> string \<Rightarrow> pb_message \<Rightarrow> 'd \<times> cache \<Rightarrow> ('d \<times> cache) option result" where
  "pq_put lib env cfg msg t m s =
     (case s of (d, c) \<Rightarrow>
        bindF (message_statements (we_settings env) cfg c t m) (\<lambda>(stmts, c').
          let (r, d') = execSQL lib (handlerpq_pgconnect cfg) stmts d in Inr (Some (d', c'))))"

definition pq_body ::
  "'d pg \<Rightarrow> 'e writer_env \<Rightarrow> handlerpq_config \<Rightarrow> bytes \<Rightarrow> 'd \<times> cache \<Rightarrow> ('d \<times> cache) option result" where
  "pq_body lib env cfg =
     in_buffer (handlerpq_buffer_size cfg)
       (writer_body env (handlerpq_allowed_messages cfg) (pq_put lib env cfg))"

definition pq_env :: "'e writer_env \<Rightarrow> handlerpq_config \<Rightarrow> 'e writer_env" where
  "pq_env env cfg =
     env\<lparr>we_settings := (we_settings env)\<lparr>st_format_number := handlerpq_format_number cfg\<rparr>\<rparr>"

definition pq_run ::
  "'d pg \<Rightarrow> 'e writer_env \<Rightarrow> handlerpq_config \<Rightarrow> arrival list \<Rightarrow> 'd \<times> cache \<Rightarrow> ('d \<times> cache) outcome option result" where
  "pq_run lib env cfg as s =
     (let e = pq_env env cfg
      in run_sessions True (pq_open e) (recv_step True (pq_body lib e cfg)) (\<lambda>k s. (close_writer e k, s)) 0 as s)"

section \<open>What the database has afterwards\<close>

text \<open>
  What the server promises: a transaction that is begun collects the plain statements that
  succeed, its end brings them into the database, and an end that fails, a statement that fails
  and a connection that is finished bring nothing. A plain statement is a single one that is no
  command about transactions; a text with several commands may be anything.
\<close>

definition pg_works :: "'d pg \<Rightarrow> (string \<Rightarrow> bool) \<Rightarrow> ('d \<Rightarrow> string list) \<Rightarrow> ('d \<Rightarrow> string list) \<Rightarrow> bool" where
  "pg_works lib plain executed pending =
     (\<forall>d. (\<forall>s. executed (snd (PQconnectdb lib s d)) = executed d) \<and>
          (\<forall>l. executed (snd (PQsetdbLogin lib l d)) = executed d) \<and>
          executed (PQfinish lib d) = executed d \<and>
          executed (snd (checked_exec lib ''BEGIN'' d)) = executed d \<and>
          (fst (checked_exec lib ''BEGIN'' d) \<longrightarrow> pending (snd (checked_exec lib ''BEGIN'' d)) = []) \<and>
          (\<forall>s. plain s \<longrightarrow> executed (snd (checked_exec lib s d)) = executed d) \<and>
          (\<forall>s. plain s \<and> fst (checked_exec lib s d) \<longrightarrow> pending (snd (checked_exec lib s d)) = pending d @ [s]) \<and>
          executed (snd (checked_exec lib ''END'' d)) =
            (if fst (checked_exec lib ''END'' d) then executed d @ pending d else executed d))"

lemma pg_calls:
  assumes "pg_works lib plain executed pending"
  shows "executed (PQfinish lib d) = executed d"
    and "dbconnect lib config d = (ok, d') \<Longrightarrow> executed d' = executed d"
    and "checked_exec lib ''BEGIN'' d = (ok, d') \<Longrightarrow> executed d' = executed d \<and> (ok \<longrightarrow> pending d' = [])"
    and "checked_exec lib s d = (ok, d') \<Longrightarrow> plain s \<Longrightarrow> executed d' = executed d \<and> (ok \<longrightarrow> pending d' = pending d @ [s])"
    and "checked_exec lib ''END'' d = (ok, d') \<Longrightarrow> executed d' = (if ok then executed d @ pending d else executed d)"
proof -
  note w = assms [unfolded pg_works_def, THEN spec [of _ d]]
  note w1 = w [THEN conjunct1] and r1 = w [THEN conjunct2]
  note w2 = r1 [THEN conjunct1] and r2 = r1 [THEN conjunct2]
  note f = r2 [THEN conjunct1] and r3 = r2 [THEN conjunct2]
  note b1 = r3 [THEN conjunct1] and r4 = r3 [THEN conjunct2]
  note b2 = r4 [THEN conjunct1] and r5 = r4 [THEN conjunct2]
  note p1 = r5 [THEN conjunct1, THEN spec, of s] and r6 = r5 [THEN conjunct2]
  note p2 = r6 [THEN conjunct1, THEN spec, of s] and e = r6 [THEN conjunct2]
  show "executed (PQfinish lib d) = executed d" by (rule f)
  show "dbconnect lib config d = (ok, d') \<Longrightarrow> executed d' = executed d"
    using w1 [THEN spec, of "dbconn config"] w2 [THEN spec]
    by (cases "dbconn config = []") (simp_all add: dbconnect_def, metis snd_conv)
  show "checked_exec lib ''BEGIN'' d = (ok, d') \<Longrightarrow> executed d' = executed d \<and> (ok \<longrightarrow> pending d' = [])"
    using b1 b2 by simp
  show "checked_exec lib s d = (ok, d') \<Longrightarrow> plain s \<Longrightarrow> executed d' = executed d \<and> (ok \<longrightarrow> pending d' = pending d @ [s])"
    using p1 p2 by simp
  show "checked_exec lib ''END'' d = (ok, d') \<Longrightarrow> executed d' = (if ok then executed d @ pending d else executed d)"
    using e by simp
qed

text \<open>The rest of a transaction, from what it has collected.\<close>

lemma exec_rest:
  assumes "pg_works lib plain executed pending" "list_all plain stmts"
  shows "exec_all lib (stmts @ [''END'']) d = (r, d') \<Longrightarrow>
    (r = 0 \<and> executed d' = executed d @ pending d @ stmts) \<or> (r = - 40 \<and> executed d' = executed d)"
  using assms(2)
proof (induction stmts arbitrary: d)
  case Nil
  obtain ok d1 where e: "checked_exec lib ''END'' d = (ok, d1)" by fastforce
  note call = pg_calls(5) [OF assms(1) e] pg_calls(1) [OF assms(1), of d1]
  show ?case using Nil.prems(1) e call by (cases ok) auto
next
  case (Cons s ss)
  obtain ok d1 where e: "checked_exec lib s d = (ok, d1)" by fastforce
  note call = pg_calls(4) [OF assms(1) e] pg_calls(1) [OF assms(1), of d1]
  show ?case using Cons.IH [of d1] Cons.prems e call by (cases ok) auto
qed

text \<open>
  The statements of a message are executed all or none: the result is 0 and the database has
  all of them behind what it had, or the result is the code of the connection or of a statement
  and the database is as it was.
\<close>

theorem statements_all_or_none:
  assumes "pg_works lib plain executed pending" "list_all plain stmts" "execSQL lib config stmts d = (r, d')"
  shows "(r = 0 \<and> executed d' = executed d @ stmts) \<or> (r \<in> {- 39, - 40} \<and> executed d' = executed d)"
proof -
  obtain ok d1 where c: "dbconnect lib config d = (ok, d1)" by fastforce
  obtain b d2 where e: "checked_exec lib ''BEGIN'' d1 = (b, d2)" by fastforce
  note call = pg_calls(2) [OF assms(1) c] pg_calls(3) [OF assms(1) e] pg_calls(1) [OF assms(1), of d2]
    exec_rest [OF assms(1,2), of d2 r d']
  show ?thesis using assms(3) c e call by (cases ok; cases b) (auto simp: execSQL_def)
qed

text \<open>A server that takes everything.\<close>

definition pg_never_fails :: "'d pg \<Rightarrow> PGConfig \<Rightarrow> bool" where
  "pg_never_fails lib config =
     (\<forall>d. fst (dbconnect lib config d) \<and> (\<forall>s. fst (checked_exec lib s d)))"

lemma exec_all_succeeds: "pg_never_fails lib config \<Longrightarrow> fst (exec_all lib stmts d) = 0"
proof (induction stmts arbitrary: d)
  case (Cons s ss)
  have "fst (checked_exec lib s d)" using Cons.prems by (simp add: pg_never_fails_def)
  then show ?case using Cons by (simp add: split_beta Let_def)
qed simp

lemma execSQL_succeeds: "pg_never_fails lib config \<Longrightarrow> fst (execSQL lib config stmts d) = 0"
proof -
  assume n: "pg_never_fails lib config"
  then have "fst (dbconnect lib config d)" by (simp add: pg_never_fails_def)
  then show ?thesis using exec_all_succeeds [OF n] unfolding execSQL_def by (simp add: split_beta Let_def del: exec_all.simps)
qed

subsection \<open>The run of the writer\<close>

fun message_batches ::
  "'e writer_env \<Rightarrow> handlerpq_config \<Rightarrow> pb_message list \<Rightarrow> cache \<Rightarrow> (string list list \<times> cache) option result" where
  "message_batches env cfg [] c = Inr (Some ([], c))"
| "message_batches env cfg (m # ms) c =
     bindF (message_statements (we_settings env) cfg c (pm_type m) m) (\<lambda>(stmts, c1).
     bindF (message_batches env cfg ms c1) (\<lambda>(batches, c2). Inr (Some (stmts # batches, c2))))"

lemma pq_put_keeps:
  assumes "pg_works lib plain executed pending"
    and "message_statements (we_settings env) cfg c t m = Inr (Some (stmts, c'))" "list_all plain stmts"
  shows "\<exists>d' kept. pq_put lib env cfg msg t m (d, c) = Inr (Some (d', c')) \<and> subseq kept [stmts] \<and>
    executed d' = executed d @ concat kept \<and> (pg_never_fails lib (handlerpq_pgconnect cfg) \<longrightarrow> kept = [stmts])"
proof -
  obtain r d' where e: "execSQL lib (handlerpq_pgconnect cfg) stmts d = (r, d')" by fastforce
  have p: "pq_put lib env cfg msg t m (d, c) = Inr (Some (d', c'))" by (simp add: pq_put_def assms(2) e)
  have n: "pg_never_fails lib (handlerpq_pgconnect cfg) \<longrightarrow> r = 0"
    using execSQL_succeeds [of lib "handlerpq_pgconnect cfg" stmts d] e by simp
  from statements_all_or_none [OF assms(1,3) e] show ?thesis
  proof
    assume "r = 0 \<and> executed d' = executed d @ stmts"
    then show ?thesis using p by (intro exI [of _ d'] exI [of _ "[stmts]"]) simp
  next
    assume "r \<in> {- 39, - 40} \<and> executed d' = executed d"
    then show ?thesis using p n by (intro exI [of _ d'] exI [of _ "[]"]) auto
  qed
qed

lemma pq_body_sent:
  assumes "wire_ok (we_wire env)" "deliverable env (handlerpq_buffer_size cfg) m"
  shows "pq_body lib env cfg (sent_message (we_wire env) m) s =
    (if allowed (handlerpq_allowed_messages cfg) m
     then pq_put lib env cfg (sent_message (we_wire env) m) (pm_type m) m s else Inr (Some s))"
  using assms by (simp add: pq_body_def in_buffer_def deliverable_def sent_message_def writer_body_sent)

lemma pq_handle_all:
  assumes "pg_works lib plain executed pending" "wire_ok (we_wire env)"
    and "\<forall>m \<in> set ms. deliverable env (handlerpq_buffer_size cfg) m"
    and "message_batches env cfg (filter (allowed (handlerpq_allowed_messages cfg)) ms) c = Inr (Some (batches, c'))"
    and "list_all (list_all plain) batches"
  shows "\<exists>d' kept. handle_all (pq_body lib env cfg) (map (sent_message (we_wire env)) ms) (d, c) = Inr (Some (d', c')) \<and>
    subseq kept batches \<and> executed d' = executed d @ concat kept \<and>
    (pg_never_fails lib (handlerpq_pgconnect cfg) \<longrightarrow> kept = batches)"
  using assms(3,4,5)
proof (induction ms arbitrary: d c batches)
  case (Cons m ms)
  note body = pq_body_sent [OF assms(2), of cfg m lib]
  show ?case
  proof (cases "allowed (handlerpq_allowed_messages cfg) m")
    case True
    obtain stmts c1 bs where m: "message_statements (we_settings env) cfg c (pm_type m) m = Inr (Some (stmts, c1))"
      and rest: "message_batches env cfg (filter (allowed (handlerpq_allowed_messages cfg)) ms) c1 = Inr (Some (bs, c'))"
      and bs: "batches = stmts # bs"
      using Cons.prems(2) True by auto
    have p: "list_all plain stmts" using Cons.prems(3) bs by simp
    obtain d1 k1 where 1: "pq_put lib env cfg (sent_message (we_wire env) m) (pm_type m) m (d, c) = Inr (Some (d1, c1))"
      "subseq k1 [stmts]" "executed d1 = executed d @ concat k1"
      "pg_never_fails lib (handlerpq_pgconnect cfg) \<longrightarrow> k1 = [stmts]"
      using pq_put_keeps [OF assms(1) m] p by blast
    obtain d2 k2 where 2: "handle_all (pq_body lib env cfg) (map (sent_message (we_wire env)) ms) (d1, c1) = Inr (Some (d2, c'))"
      "subseq k2 bs" "executed d2 = executed d1 @ concat k2"
      "pg_never_fails lib (handlerpq_pgconnect cfg) \<longrightarrow> k2 = bs"
      using Cons.IH [OF _ rest, of d1] Cons.prems(1,3) bs by auto
    have "subseq (k1 @ k2) ([stmts] @ bs)" using 1(2) 2(2) by (rule list_emb_append_mono)
    then show ?thesis using 1 2 True body Cons.prems(1) bs
      by (intro exI [of _ d2] exI [of _ "k1 @ k2"]) simp
  next
    case False
    then show ?thesis using Cons.IH [of c batches d] Cons.prems body by simp
  qed
qed (auto intro: exI [of _ "[]"])

text \<open>The types the cache knows are those of its session.\<close>

lemma index_strings_new_declarations:
  "index_strings_new c t = (vals, c') \<Longrightarrow> oc_declarations c' = oc_declarations c"
  by (auto simp: index_strings_new_def getMessageId_def Let_def split: prod.splits)

interpretation pq_client: bus_client "pq_open env" "pq_body lib env cfg" "\<lambda>k s. (close_writer env k, s)"
    "\<lambda>s. oc_declarations (snd s) \<in> {pd, we_declarations env}"
  for env lib cfg pd
proof
  show "oc_declarations (snd s') \<in> {pd, we_declarations env}"
    if "pq_open env k s = Inr (Some (Inr s'))" for k s s'
    using that by (auto simp: pq_open_def open_writer_def Let_def map_sum_Inr open_cache_declarations split: if_splits)
  show "oc_declarations (snd s') \<in> {pd, we_declarations env}"
    if "pq_body lib env cfg msg s = Inr (Some s')" "oc_declarations (snd s) \<in> {pd, we_declarations env}" for msg s s'
    using that
    by (cases s) (auto simp: pq_body_def in_buffer_def writer_body_def pq_put_def message_statements_def Let_def
        split: if_splits option.splits prod.splits dest!: index_strings_new_declarations)
qed simp

text \<open>
  C8: After a run the database has, behind what it had, the statements of some of the messages
  that were sent and are allowed, in the order of the messages and the statements of each of
  them complete; where no call fails it has those of all of them.
\<close>

theorem database_has_whole_messages:
  assumes "e = pq_env env cfg" "pg_works lib plain executed pending"
    and "wire_ok (we_wire env)" "\<forall>m \<in> set ms. deliverable e (handlerpq_buffer_size cfg) m"
    and "pq_open e 0 (d, c) = Inr (Some (Inr (d1, c1)))"
    and "message_batches e cfg (filter (allowed (handlerpq_allowed_messages cfg)) ms) c1 = Inr (Some (batches, c2))"
    and "list_all (list_all plain) batches"
  shows "\<exists>d2 kept. pq_run lib env cfg (arrived (map (sent_message (we_wire env)) ms) @ (sig, Interrupted) # as) (d, c) =
      Inr (Some (Returned (close_writer e 0) as (d2, c2))) \<and>
    subseq kept batches \<and> executed d2 = executed d @ concat kept \<and>
    (pg_never_fails lib (handlerpq_pgconnect cfg) \<longrightarrow> kept = batches)"
proof -
  have w: "we_wire e = we_wire env" by (simp add: assms(1) pq_env_def)
  have d1: "d1 = d" using assms(5) by (auto simp: pq_open_def map_sum_Inr)
  obtain d2 kept where h: "handle_all (pq_body lib e cfg) (map (sent_message (we_wire env)) ms) (d1, c1) = Inr (Some (d2, c2))"
    "subseq kept batches" "executed d2 = executed d1 @ concat kept"
    "pg_never_fails lib (handlerpq_pgconnect cfg) \<longrightarrow> kept = batches"
    using pq_handle_all [OF assms(2) _ assms(4,6,7), of d1] assms(3) w by auto
  show ?thesis
    using pq_client.run_until_interrupted [OF assms(5) h(1) refl] h(2,3,4) d1
    by (simp add: pq_run_def assms(1)) blast
qed

subsection \<open>An example of a server\<close>

text \<open>A server that takes every statement; it remembers what is executed and what is pending.\<close>

definition example_pg :: "(string list \<times> string list) pg" where
  "example_pg =
     \<lparr>PQconnectdb = (\<lambda>s d. (True, d)), PQsetdbLogin = (\<lambda>l d. (True, d)),
      PQexec = (\<lambda>s d. (PGRES_COMMAND_OK, if s = ''BEGIN'' then (fst d, [])
                              else if s = ''END'' then (fst d @ snd d, []) else (fst d, snd d @ [s]))),
      PQfinish = (\<lambda>d. d)\<rparr>"

definition example_plain :: "string \<Rightarrow> bool" where
  "example_plain s = (take 6 s = ''INSERT'')"

lemma example_pg_works: "pg_works example_pg example_plain fst snd"
  by (auto simp: pg_works_def example_pg_def example_plain_def checked_exec_def)

definition example_pq_config :: handlerpq_config where
  "example_pq_config =
     \<lparr>handlerpq_proto_path = [], handlerpq_message_url = [], handlerpq_allowed_messages = [],
      handlerpq_retries = 0, handlerpq_retry_delay = 60, handlerpq_verbosity = 0, handlerpq_daemonize = False,
      handlerpq_pgconnect = \<lparr>dbconn = [], dboptionsfile = [], dbname = [], dbuser = [], dbpassword = [],
        dbhost = [], dbport = [], dbsocket = [], dbcharset = [], dbclientflags = 0\<rparr>,
      handlerpq_buffer_size = 4096, handlerpq_mode = 3, handlerpq_format_number = - 1, handlerpq_path = [],
      handlerpq_sql_dialect = 3, handlerpq_tableAliases = [], handlerpq_fieldAliases = [],
      handlerpq_properties = [(''place'', ''roof'')]\<rparr>"

lemma example_statements:
  "case message_statements example_settings example_pq_config example_cache_value ''t'' example_message of
     Inr (Some (stmts, c')) \<Rightarrow> length stmts = 1 \<and> list_all example_plain stmts | _ \<Rightarrow> False"
  by code_simp

theorem database_has_whole_messages_witness:
  "\<exists>d2 c2 stmts. pq_run example_pg example_writer example_pq_config
      (arrived [sent_message (example_wire example_message) example_message] @ [(None, Interrupted)])
      (([], []), no_cache) = Inr (Some (Returned 0 [] (d2, c2))) \<and>
    fst d2 = stmts \<and> length stmts = 1"
proof -
  let ?e = "pq_env example_writer example_pq_config"
  have e: "we_wire ?e = example_wire example_message" "we_wire example_writer = example_wire example_message"
    "st_pool (we_settings ?e) = example_pool" "we_settings ?e = example_settings" "we_declarations ?e = example_declarations"
    "st_pool example_settings = example_pool"
    by (simp_all add: example_writer_def example_settings_def pq_env_def example_pq_config_def)
  obtain stmts c2 where st: "message_statements example_settings example_pq_config example_cache_value ''t'' example_message =
      Inr (Some (stmts, c2))" and p: "length stmts = 1" "list_all example_plain stmts"
    using example_statements by (auto split: sum.splits option.splits)
  have a: "filter (allowed (handlerpq_allowed_messages example_pq_config)) [example_message] = [example_message]"
    by (simp add: allowed_def example_pq_config_def)
  have t: "pm_type example_message = ''t''" by (simp add: example_message_def)
  have b: "message_batches ?e example_pq_config (filter (allowed (handlerpq_allowed_messages example_pq_config))
      [example_message]) example_cache_value = Inr (Some ([stmts], c2))"
    unfolding a by (simp add: e t st)
  have o: "pq_open ?e 0 (([], []), no_cache) = Inr (Some (Inr (([], []), example_cache_value)))"
    by (simp add: pq_open_def open_writer_def open_cache_def pq_env_def example_writer_def example_pq_config_def
        example_settings_def example_cache_new Let_def example_declared)
  have d: "\<forall>m \<in> set [example_message]. deliverable ?e (handlerpq_buffer_size example_pq_config) m"
    using example_fits example_sent_length by (simp add: deliverable_def e) (simp add: example_pq_config_def)
  have n: "pg_never_fails example_pg (handlerpq_pgconnect example_pq_config)"
    by (simp add: pg_never_fails_def dbconnect_def example_pg_def checked_exec_def)
  have c: "close_writer ?e 0 = 0" by (simp add: close_writer_def example_writer_def pq_env_def)
  show ?thesis
    using database_has_whole_messages [OF refl example_pg_works example_wire_ok [of example_message, folded e(2)] d o b, of None "[]"]
      p n unfolding c e(2) by fastforce
qed

end
