(* ===== verification/SheetsWriter.thy ===== *)
theory SheetsWriter
  imports LineWriter SheetSession SheetConfigs
begin

section \<open>The writer into a spreadsheet\<close>

text \<open>
  google-sheets-writer.cpp: the values of a message are printed as a line and appended to the
  spreadsheet as a row.
\<close>

record sheets_state =
  ss_stream :: string
  ss_cache :: cache
  ss_sheets :: sheets

text \<open>The range has one row from the first column, and the values of the message in it.\<close>

definition message_row :: "handler_google_sheets_config \<Rightarrow> index_strings \<Rightarrow> value_range" where
  "message_row cfg vals =
     empty_range\<lparr>vr_range := A1_range (handler_google_sheets_sheet cfg) 0 0 (of_int (int (length (is_values vals)) - 1)) 0,
       vr_values := [map nv_value (is_values vals)]\<rparr>"

text \<open>A range that is not appended is only reported.\<close>

definition sheets_put ::
  "'e settings \<Rightarrow> web \<Rightarrow> handler_google_sheets_config \<Rightarrow> string \<Rightarrow> pb_message \<Rightarrow> sheets_state
   \<Rightarrow> sheets_state option result" where
  "sheets_put st w cfg t m s =
     (case index_strings_new (ss_cache s) t of (vals, c) \<Rightarrow>
        bindF (fill_values st c t m vals) (\<lambda>vals'.
          let line = toStringTab vals' (Some (handler_google_sheets_tableAliases cfg))
                (Some (handler_google_sheets_fieldAliases cfg)) (Some (handler_google_sheets_properties cfg))
          in bindR (append_range w (ss_sheets s) (message_row cfg vals')) (\<lambda>(ok, sheets).
               Inr (Some \<lparr>ss_stream = ss_stream s @ line, ss_cache = c, ss_sheets = sheets\<rparr>))))"

definition sheets_open :: "'e writer_env \<Rightarrow> nat \<Rightarrow> sheets_state \<Rightarrow> (int + sheets_state) option result" where
  "sheets_open env k s =
     bindF (open_writer env (- 19) k) (\<lambda>r. Inr (Some (map_sum id (\<lambda>c. s\<lparr>ss_cache := c\<rparr>) r)))"

definition sheets_body ::
  "'e writer_env \<Rightarrow> web \<Rightarrow> handler_google_sheets_config \<Rightarrow> bytes \<Rightarrow> sheets_state \<Rightarrow> sheets_state option result" where
  "sheets_body env w cfg =
     in_buffer (handler_google_sheets_buffer_size cfg)
       (writer_body env (handler_google_sheets_allowed_messages cfg)
         (\<lambda>msg t m s. if handler_google_sheets_mode cfg = 0
                      then sheets_put (we_settings env) w cfg t m s else Inr (Some s)))"

definition sheets_env :: "'e writer_env \<Rightarrow> handler_google_sheets_config \<Rightarrow> 'e writer_env" where
  "sheets_env env cfg =
     env\<lparr>we_settings := (we_settings env)\<lparr>st_format_number := handler_google_sheets_format_number cfg\<rparr>\<rparr>"

definition sheets_run ::
  "'e writer_env \<Rightarrow> web \<Rightarrow> handler_google_sheets_config \<Rightarrow> arrival list \<Rightarrow> sheets_state
   \<Rightarrow> sheets_state outcome option result" where
  "sheets_run env w cfg as s =
     (let e = sheets_env env cfg
      in run_sessions True (sheets_open e) (recv_step True (sheets_body e w cfg)) (\<lambda>k s. (close_writer e k, s)) 0 as s)"

section \<open>What is appended\<close>

text \<open>What was printed stays printed.\<close>

interpretation sheets_client: bus_client "sheets_open env" "sheets_body env w cfg" "\<lambda>k s. (close_writer env k, s)"
    "\<lambda>s. take (length old) (ss_stream s) = old"
  for env w cfg old
proof
  show "take (length old) (ss_stream s') = old"
    if "sheets_open env k s = Inr (Some (Inr s'))" "take (length old) (ss_stream s) = old" for k s s'
    using that by (auto simp: sheets_open_def map_sum_Inr)
  show "take (length old) (ss_stream s') = old"
    if "sheets_body env w cfg msg s = Inr (Some s')" "take (length old) (ss_stream s) = old" for msg s s'
    using that
    by (auto simp: sheets_body_def in_buffer_def writer_body_def sheets_put_def Let_def intro: take_append_prefix
        simp del: take_append split: if_splits option.splits prod.splits)
qed simp

definition row_url :: "sheets \<Rightarrow> value_range \<Rightarrow> string" where
  "row_url s vr = values_url s (vr_range vr) @ '':append?valueInputOption=USER_ENTERED''"

lemma append_accepted:
  assumes "server w (length (sent s)) \<lparr>rq_method = HttpPost, rq_bearer = token s, rq_url = row_url s vr,
      rq_data = toJSON (doubles w) vr\<rparr> = HttpReply 200 body"
  shows "append_range w s vr = Inr (True, s\<lparr>sent := sent s @
    [\<lparr>rq_method = HttpPost, rq_bearer = token s, rq_url = row_url s vr, rq_data = toJSON (doubles w) vr\<rparr>]\<rparr>)"
  using assms by (simp add: append_range_def token_post_def curl_post_def transfer_def row_url_def Let_def)

text \<open>
  C12: A message that arrives is appended as one row: the writer sends one request, whose text
  reads back as a range with one row, the texts of the values of the message in the order of
  its walk.
\<close>

theorem message_becomes_row:
  assumes "wire_ok (we_wire env)" "deliverable env (handler_google_sheets_buffer_size cfg) m"
    and "allowed (handler_google_sheets_allowed_messages cfg) m" "handler_google_sheets_mode cfg = 0"
    and "st_format_number (we_settings env) < 0" "index_strings_new (ss_cache s) (pm_type m) = (vals, c)"
    and "decomposer_of_type (st_fuel (we_settings env)) (st_hash (we_settings env)) (st_runtime (we_settings env))
      (st_time (we_settings env)) (pm_type m) c (st_pool (we_settings env)) True m = Inr (Some (e, r, evs))"
    and "\<forall>n rq. \<exists>body. server w n rq = HttpReply 200 body"
  shows "\<exists>s' rq. sheets_body env w cfg (sent_message (we_wire env) m) s = Inr (Some s') \<and>
    sent (ss_sheets s') = sent (ss_sheets s) @ [rq] \<and> rq_method rq = HttpPost \<and>
    parseJSON (doubles w) (rq_data rq) empty_range =
      Inr (0, \<lparr>vr_range = A1_range (handler_google_sheets_sheet cfg) 0 0 (of_int (int (length evs) - 1)) 0,
        major_dimension = ''ROWS'',
        vr_values = [map (\<lambda>ev. plain_text (st_runtime (we_settings env)) (ev_value ev)) evs]\<rparr>)"
proof -
  let ?st = "we_settings env"
  let ?vals = "add_all_values (map (event_text (st_runtime ?st)) evs) vals"
  let ?row = "message_row cfg ?vals"
  have new: "is_values vals = []" using assms(6) by (auto simp: index_strings_new_def split: prod.splits)
  have row: "?row = \<lparr>vr_range = A1_range (handler_google_sheets_sheet cfg) 0 0 (of_int (int (length evs) - 1)) 0,
      major_dimension = ''ROWS'', vr_values = [map (\<lambda>ev. plain_text (st_runtime ?st) (ev_value ev)) evs]\<rparr>"
    by (simp add: message_row_def empty_range_def add_all_values_values new event_text_def name_value_new_def)
  obtain body where b: "server w (length (sent (ss_sheets s))) \<lparr>rq_method = HttpPost, rq_bearer = token (ss_sheets s),
      rq_url = row_url (ss_sheets s) ?row, rq_data = toJSON (doubles w) ?row\<rparr> = HttpReply 200 body"
    using assms(8) by blast
  note post = append_accepted [OF b]
  have "sheets_put ?st w cfg (pm_type m) m s = Inr (Some
      \<lparr>ss_stream = ss_stream s @ toStringTab ?vals (Some (handler_google_sheets_tableAliases cfg))
         (Some (handler_google_sheets_fieldAliases cfg)) (Some (handler_google_sheets_properties cfg)),
       ss_cache = c, ss_sheets = (ss_sheets s)\<lparr>sent := sent (ss_sheets s) @
         [\<lparr>rq_method = HttpPost, rq_bearer = token (ss_sheets s), rq_url = row_url (ss_sheets s) ?row,
           rq_data = toJSON (doubles w) ?row\<rparr>]\<rparr>\<rparr>)"
    using fill_values_plain [OF assms(5,7)] by (simp add: sheets_put_def assms(6) post)
  then show ?thesis using assms(1-4) row
    by (simp add: sheets_body_def in_buffer_def deliverable_def sent_message_def writer_body_sent parseJSON_toJSON)
qed

definition example_sheets_config :: handler_google_sheets_config where
  "example_sheets_config =
     \<lparr>handler_google_sheets_proto_path = [], handler_google_sheets_message_url = [],
      handler_google_sheets_allowed_messages = [], handler_google_sheets_retries = 0,
      handler_google_sheets_retry_delay = 60, handler_google_sheets_verbosity = 0,
      handler_google_sheets_daemonize = False, handler_google_sheets_mode = 0,
      handler_google_sheets_format_number = 0, handler_google_sheets_spreadsheet = ''S'',
      handler_google_sheets_sheet = ''data'', handler_google_sheets_buffer_size = 4096,
      handler_google_sheets_json = [], handler_google_sheets_token_file = [],
      handler_google_sheets_subject_email = [], handler_google_sheets_scope = [],
      handler_google_sheets_audience = [], handler_google_sheets_expires = 3600, handler_google_sheets_path = [],
      handler_google_sheets_tableAliases = [], handler_google_sheets_fieldAliases = [],
      handler_google_sheets_properties = []\<rparr>"

theorem message_becomes_row_witness:
  "\<exists>s' rq. sheets_body example_writer sample_web example_sheets_config
      (sent_message (example_wire example_message) example_message)
      \<lparr>ss_stream = [], ss_cache = example_cache_value, ss_sheets = sample_sheets\<rparr> = Inr (Some s') \<and>
    sent (ss_sheets s') = [rq] \<and>
    (\<exists>vr. parseJSON (doubles sample_web) (rq_data rq) empty_range = Inr (0, vr) \<and>
      vr_values vr = [[''-5'', ''7'', ''AB'', []]])"
proof -
  let ?s = "\<lparr>ss_stream = [], ss_cache = example_cache_value, ss_sheets = sample_sheets\<rparr>"
  obtain vals c where new: "index_strings_new example_cache_value ''t'' = (vals, c)" by fastforce
  obtain e r evs where run: "example_walk = Inr (Some (e, r, evs))"
    and texts: "map (\<lambda>ev. plain_text path_runtime (ev_value ev)) evs = [''-5'', ''7'', ''AB'', []]"
    using example_walk_events by (auto split: sum.splits option.splits)
  have t: "pm_type example_message = ''t''" by (simp add: example_message_def)
  have w: "we_wire example_writer = example_wire example_message" "we_settings example_writer = example_settings"
    by (simp_all add: example_writer_def)
  have walk: "decomposer_of_type (st_fuel (we_settings example_writer)) (st_hash (we_settings example_writer))
      (st_runtime (we_settings example_writer)) (st_time (we_settings example_writer)) (pm_type example_message) c
      (st_pool (we_settings example_writer)) True example_message = Inr (Some (e, r, evs))"
    using run by (simp add: w t example_settings_def example_walk_def new)
  have d: "deliverable example_writer (handler_google_sheets_buffer_size example_sheets_config) example_message"
    using example_fits example_sent_length by (simp add: deliverable_def w example_sheets_config_def example_settings_def)
  have a: "allowed (handler_google_sheets_allowed_messages example_sheets_config) example_message"
    "handler_google_sheets_mode example_sheets_config = 0" "st_format_number (we_settings example_writer) < 0"
    by (simp_all add: allowed_def example_sheets_config_def w example_settings_def)
  have i: "index_strings_new (ss_cache ?s) (pm_type example_message) = (vals, c)" using new t by simp
  have ok: "\<forall>n rq. \<exists>body. server sample_web n rq = HttpReply 200 body" by (simp add: sample_web_def Let_def)
  have sent: "sent (ss_sheets ?s) = []" by (simp add: sample_sheets_def)
  have rt: "st_runtime (we_settings example_writer) = path_runtime" by (simp add: w example_settings_def)
  show ?thesis
    using message_becomes_row [OF example_wire_ok [of example_message, folded w(1)] d a i walk ok]
    unfolding w(1) sent rt texts by fastforce
qed

end
