(* ===== verification/ReceiverNano.thy ===== *)
theory ReceiverNano
  imports LineWriter NanoPacket ReceiverConfigs Pipeline "HOL-Library.Sublist"
begin

section \<open>The receiver of packets\<close>

text \<open>
  pkt2receivernano.cpp: the receiver takes packets from one bus, parses them and sends the
  messages to another; a third bus gets the packets as they are, and a fourth a line of text for
  every step. The counters of the configuration live in the state.
\<close>

subsection \<open>State\<close>

record nano_state =
  ns_session :: u64
  ns_in :: u64
  ns_out :: u64
  ns_cache :: cache
  ns_control :: "string list"
  ns_dump :: "bytes list"
  ns_sent :: "bytes list"

text \<open>
  What the receiver works with, beside what all writers have: the calls that may fail when the
  sockets are opened, with a code each; whether the nth message can be sent; whether errno is
  still EINTR when a packet is too short; how the operating system reads a socket address, and
  the memory behind a packet; and how the rapidjson library writes.
\<close>

record 'e nano_env = "'e writer_env" +
  ne_calls :: "nat \<Rightarrow> bool list"
  ne_send :: "nat \<Rightarrow> bool"
  ne_stale_eintr :: "u64 \<Rightarrow> bool"
  ne_address :: "bytes \<Rightarrow> sockaddr"
  ne_beyond :: bytes
  ne_json :: "pb_message \<Rightarrow> string result"

definition tab :: string where "tab = [CHR 0x09]"

definition control_line :: "nano_state \<Rightarrow> int \<Rightarrow> int \<Rightarrow> string \<Rightarrow> string \<Rightarrow> string" where
  "control_line s typ sz msg data =
     dec_str (unat (ns_session s)) @ tab @ dec_str (unat (ns_in s)) @ tab @ dec_str (unat (ns_out s)) @ tab
     @ int_str typ @ tab @ int_str sz @ tab @ msg @ tab @ data @ endl"

definition control_message :: "int \<Rightarrow> int \<Rightarrow> string \<Rightarrow> string \<Rightarrow> nano_state \<Rightarrow> nano_state" where
  "control_message typ sz msg data s =
     s\<lparr>ns_control := ns_control s @ [control_line s typ sz msg data]\<rparr>"

definition dump_message :: "bytes \<Rightarrow> int \<Rightarrow> nano_state \<Rightarrow> nano_state" where
  "dump_message data sz s = (if 0 < sz then s\<lparr>ns_dump := ns_dump s @ [data]\<rparr> else s)"

definition CONTROL_TYP_RECEIVED :: string where "CONTROL_TYP_RECEIVED = ''packet received''"
definition CONTROL_TYP_ERROR :: string where "CONTROL_TYP_ERROR = ''message not sent''"
definition CONTROL_TYP_MSG_SENT :: string where "CONTROL_TYP_MSG_SENT = ''message sent''"
definition CONTROL_TYP_EMPTY :: string where "CONTROL_TYP_EMPTY = ''packet is empty''"
definition ERR_NN_RECV :: string where "ERR_NN_RECV = ''Receive nanomsg error ''"

subsection \<open>From a packet to a message\<close>

text \<open>The address at an offset of the packet, which may be behind its end.\<close>

definition address_at :: "'e nano_env \<Rightarrow> bytes \<Rightarrow> nat \<Rightarrow> sockaddr result" where
  "address_at env buf offset =
     (let memory = buf @ ne_beyond env
      in if length memory < offset + sockaddr_size then Inl OutOfBounds
         else Inr (ne_address env (drop offset memory)))"

text \<open>
  The environment of a packet: the data, and the memory of the packet with its addresses, which
  are only looked at when the type of the packet is found.
\<close>

definition environment_of ::
  "'e nano_env \<Rightarrow> string \<Rightarrow> names option \<times> names option \<times> names option \<Rightarrow> bytes \<Rightarrow> bytes \<Rightarrow> cache
   \<Rightarrow> 'e parse_env option result" where
  "environment_of env force_message aliases memory packet c =
     (let st = we_settings env;
          make = (\<lambda>src dst. parse_env_new (st_fuel st) (st_runtime st) (st_time st) src dst packet c force_message
            (fst aliases) (fst (snd aliases)) (snd (snd aliases)))
      in bindF (make None None) (\<lambda>e.
           if pe_root e = None then Inr (Some e)
           else bindR (address_at env memory socket_addr_src) (\<lambda>src.
                bindR (address_at env memory socket_addr_dst) (\<lambda>dst. make (Some src) (Some dst)))))"

definition message_of ::
  "'e nano_env \<Rightarrow> string \<Rightarrow> names option \<times> names option \<times> names option \<Rightarrow> bytes \<Rightarrow> bytes \<Rightarrow> cache
   \<Rightarrow> (pb_message option \<times> cache) option result" where
  "message_of env force_message aliases memory packet c =
     (let st = we_settings env
      in bindF (environment_of env force_message aliases memory packet c) (\<lambda>e.
         bindF (parsePacket (st_fuel st) (st_runtime st) (Some (pe_options_cache e)) (st_pool st) e) (\<lambda>(m, e').
           Inr (Some (m, pe_options_cache e')))))"

definition packet_message ::
  "'e nano_env \<Rightarrow> pkt2receiver_config \<Rightarrow> cache \<Rightarrow> bytes \<Rightarrow> (pb_message option \<times> cache) option result" where
  "packet_message env cfg c buf =
     message_of env (pkt2receiver_force_message cfg)
       (Some (pkt2receiver_tableAliases cfg), Some (pkt2receiver_fieldAliases cfg), Some (pkt2receiver_properties cfg))
       buf (payload (packet_wrap buf)) c"

subsection \<open>A step\<close>

definition send_message :: "'e nano_env \<Rightarrow> pkt2receiver_config \<Rightarrow> pb_message \<Rightarrow> nano_state \<Rightarrow> nano_state result" where
  "send_message env cfg m s =
     (let outstr = sent_message (we_wire env) m; ok = ne_send env (length (ns_sent s))
      in if \<not> ok then Inr (control_message 2 0 CONTROL_TYP_ERROR [] s)
         else let s' = s\<lparr>ns_sent := ns_sent s @ [outstr], ns_out := ns_out s + 1\<rparr>;
                  sz = wrap32 (int (length outstr))
              in if 1 \<le> pkt2receiver_verbosity cfg
                 then bindR (ne_json env m) (\<lambda>js. Inr (control_message 3 sz CONTROL_TYP_MSG_SENT js s'))
                 else Inr (control_message 3 sz CONTROL_TYP_MSG_SENT [] s'))"

definition handle_packet ::
  "'e nano_env \<Rightarrow> pkt2receiver_config \<Rightarrow> bytes \<Rightarrow> int \<Rightarrow> nano_state \<Rightarrow> nano_state option result" where
  "handle_packet env cfg buf payload_size s =
     (if payload_size = 0
      then Inr (Some (control_message 4 payload_size CONTROL_TYP_EMPTY [] (s\<lparr>ns_out := ns_out s + 1\<rparr>)))
      else if pkt2receiver_allowed_packet_sizes cfg \<noteq> [] \<and> payload_size \<notin> set (pkt2receiver_allowed_packet_sizes cfg)
      then Inr (Some (control_message 2 payload_size CONTROL_TYP_ERROR [] s))
      else bindF (packet_message env cfg (ns_cache s) buf) (\<lambda>(m, c).
             case m of
               None \<Rightarrow> Inr (Some (control_message 2 0 CONTROL_TYP_ERROR [] (s\<lparr>ns_cache := c\<rparr>)))
             | Some m \<Rightarrow> bindR (send_message env cfg m (s\<lparr>ns_cache := c\<rparr>)) (\<lambda>s'. Inr (Some s'))))"

text \<open>The line about the packet is sent and the packet is dumped before it is counted.\<close>

definition received :: "bytes \<Rightarrow> int \<Rightarrow> int \<Rightarrow> nano_state \<Rightarrow> nano_state" where
  "received buf bytes payload_size s =
     (let s1 = s\<lparr>ns_session := ns_session s + 1\<rparr>;
          s2 = control_message 1 payload_size CONTROL_TYP_RECEIVED [] s1;
          s3 = dump_message buf bytes s2
      in s3\<lparr>ns_in := ns_in s3 + 1\<rparr>)"

definition nano_step :: "'e nano_env \<Rightarrow> pkt2receiver_config \<Rightarrow> recv \<Rightarrow> nano_state \<Rightarrow> (int \<times> nano_state) option result" where
  "nano_step env cfg r s =
     (let (buf, bytes) = (case r of Arrived msg \<Rightarrow> (msg, wrap32 (int (length msg))) | _ \<Rightarrow> ([], - 1));
          payload_size = getPayloadSize bytes;
          s' = received buf bytes payload_size s
      in if payload_size < 0
         then let eintr = (case r of Interrupted \<Rightarrow> True | RecvFailed \<Rightarrow> False
                                   | Arrived msg \<Rightarrow> ne_stale_eintr env (ns_session s'))
              in Inr (Some (if eintr then 1 else 0, control_message 2 payload_size CONTROL_TYP_ERROR ERR_NN_RECV s'))
         else bindF (handle_packet env cfg buf payload_size s') (\<lambda>s''. Inr (Some (0, s''))))"

subsection \<open>Sessions\<close>

fun first_failure :: "(bool \<times> int) list \<Rightarrow> int option" where
  "first_failure [] = None"
| "first_failure ((ok, code) # rest) = (if ok then first_failure rest else Some code)"

text \<open>Control, dump, input and output: a socket each, which is bound.\<close>

definition nano_codes :: "int list" where
  "nano_codes = [- 16, - 18, - 16, - 18, - 16, - 18, - 16, - 18]"

definition nano_open :: "'e nano_env \<Rightarrow> nat \<Rightarrow> nano_state \<Rightarrow> (int + nano_state) option result" where
  "nano_open env k s =
     (case first_failure (zip (ne_calls env k) nano_codes) of
        Some code \<Rightarrow> Inr (Some (Inl code))
      | None \<Rightarrow> bindF (open_cache (writer_env.truncate env)) (\<lambda>c. Inr (Some (Inr (s\<lparr>ns_cache := c\<rparr>)))))"

text \<open>The result is that of the last of the four shutdowns.\<close>

definition nano_run ::
  "'e nano_env \<Rightarrow> pkt2receiver_config \<Rightarrow> arrival list \<Rightarrow> nano_state \<Rightarrow> nano_state outcome option result" where
  "nano_run env cfg as s =
     run_sessions True (nano_open env) (nano_step env cfg)
       (\<lambda>k s. (if su_shutdown (we_setup env k) \<noteq> 0 then - 20 else 0, s)) 0 as
       (s\<lparr>ns_session := 0, ns_in := 0, ns_out := 0\<rparr>)"

section \<open>What the receiver guarantees\<close>

subsection \<open>Every packet is reported twice\<close>

lemma control_message_simps [simp]:
  "ns_session (control_message typ sz msg data s) = ns_session s"
  "ns_in (control_message typ sz msg data s) = ns_in s"
  "ns_out (control_message typ sz msg data s) = ns_out s"
  "ns_cache (control_message typ sz msg data s) = ns_cache s"
  "ns_dump (control_message typ sz msg data s) = ns_dump s"
  "ns_sent (control_message typ sz msg data s) = ns_sent s"
  "length (ns_control (control_message typ sz msg data s)) = Suc (length (ns_control s))"
  by (simp_all add: control_message_def)

lemma received_simps [simp]:
  "ns_session (received buf n p s) = ns_session s + 1" "ns_in (received buf n p s) = ns_in s + 1"
  "ns_out (received buf n p s) = ns_out s" "ns_cache (received buf n p s) = ns_cache s"
  "ns_sent (received buf n p s) = ns_sent s"
  "length (ns_control (received buf n p s)) = Suc (length (ns_control s))"
  "ns_dump (received buf n p s) = (if 0 < n then ns_dump s @ [buf] else ns_dump s)"
  by (simp_all add: received_def dump_message_def Let_def)

text \<open>
  Handling a packet ends with one more line, which has the number of the session and the count of
  the packets that came in.
\<close>

definition line_start :: "u64 \<Rightarrow> u64 \<Rightarrow> string" where
  "line_start session count_in = dec_str (unat session) @ tab @ dec_str (unat count_in) @ tab"

lemma control_message_line:
  "\<exists>l. ns_control (control_message typ sz msg data s) = ns_control s @ [l] \<and> prefix (line_start (ns_session s) (ns_in s)) l"
  by (simp add: control_message_def control_line_def line_start_def)

definition one_line :: "nano_state \<Rightarrow> nano_state \<Rightarrow> bool" where
  "one_line s s' \<longleftrightarrow> ns_session s' = ns_session s \<and> ns_in s' = ns_in s \<and> ns_dump s' = ns_dump s \<and>
     (\<exists>l. ns_control s' = ns_control s @ [l] \<and> prefix (line_start (ns_session s) (ns_in s)) l)"

lemma one_lineI:
  "ns_session s0 = ns_session s \<Longrightarrow> ns_in s0 = ns_in s \<Longrightarrow> ns_dump s0 = ns_dump s \<Longrightarrow> ns_control s0 = ns_control s \<Longrightarrow>
   one_line s (control_message typ sz msg data s0)"
  using control_message_line [where s = s0] by (simp add: one_line_def)

lemma send_message_line: "send_message env cfg m s = Inr s' \<Longrightarrow> one_line s s'"
  by (auto simp: send_message_def Let_def split: if_splits intro!: one_lineI)

lemma handle_packet_line:
  assumes "handle_packet env cfg buf n s = Inr (Some s')"
  shows "one_line s s'"
proof -
  have "one_line s s1" if "send_message env cfg m (s\<lparr>ns_cache := c\<rparr>) = Inr s1" for m c s1
    using send_message_line [OF that] by (simp add: one_line_def)
  then show ?thesis using assms
    by (auto simp: handle_packet_def split: if_splits option.splits intro!: one_lineI)
qed

text \<open>What a call of nn_recv gives: the buffer and the size of the payload, -1 less the header where it fails.\<close>

definition recv_bytes :: "recv \<Rightarrow> bytes" where
  "recv_bytes r = (case r of Arrived msg \<Rightarrow> msg | _ \<Rightarrow> [])"

definition recv_size :: "recv \<Rightarrow> int" where
  "recv_size r = (case r of Arrived msg \<Rightarrow> wrap32 (int (length msg)) | _ \<Rightarrow> - 1)"

definition received_end :: "recv \<Rightarrow> string" where
  "received_end r =
     tab @ ''1'' @ tab @ int_str (getPayloadSize (recv_size r)) @ tab @ CONTROL_TYP_RECEIVED @ tab @ endl"

text \<open>
  The lines that the calls leave on the control bus, two for each: that something was received,
  with its size and the count before it, and what became of it, with the count that includes it.
\<close>

fun reports :: "u64 \<Rightarrow> recv list \<Rightarrow> string list \<Rightarrow> bool" where
  "reports n [] lines = (lines = [])"
| "reports n (r # rs) lines =
     (case lines of
        a # b # rest \<Rightarrow> prefix (line_start (n + 1) n) a \<and> suffix (received_end r) a \<and>
          prefix (line_start (n + 1) (n + 1)) b \<and> reports (n + 1) rs rest
      | _ \<Rightarrow> False)"

definition dumped :: "recv list \<Rightarrow> bytes list" where
  "dumped rs = map recv_bytes (filter (\<lambda>r. 0 < recv_size r) rs)"

lemma reports_append:
  "reports n rs lines \<Longrightarrow> reports (n + of_nat (length rs)) rs' lines' \<Longrightarrow> reports n (rs @ rs') (lines @ lines')"
  by (induction rs arbitrary: n lines) (auto split: list.splits simp: algebra_simps)

lemma reports_length: "reports n rs lines \<Longrightarrow> length lines = 2 * length rs"
  by (induction rs arbitrary: n lines) (auto split: list.splits)

definition counted :: "nano_state \<Rightarrow> recv list \<Rightarrow> nano_state \<Rightarrow> bool" where
  "counted s rs s' \<longleftrightarrow> (ns_session s = ns_in s \<longrightarrow>
     ns_session s' = ns_in s' \<and> ns_in s' = ns_in s + of_nat (length rs) \<and> ns_dump s' = ns_dump s @ dumped rs \<and>
     (\<exists>lines. ns_control s' = ns_control s @ lines \<and> reports (ns_in s) rs lines))"

lemma nano_step_counted:
  assumes "nano_step env cfg r s = Inr (Some (q, s'))"
  shows "counted s [r] s'"
proof -
  let ?r = "received (recv_bytes r) (recv_size r) (getPayloadSize (recv_size r)) s"
  let ?a = "control_line (s\<lparr>ns_session := ns_session s + 1\<rparr>) 1 (getPayloadSize (recv_size r)) CONTROL_TYP_RECEIVED []"
  have a: "ns_control ?r = ns_control s @ [?a]" "ns_session ?r = ns_session s + 1" "ns_in ?r = ns_in s + 1"
    by (simp_all add: received_def dump_message_def control_message_def Let_def)
  have one: "int_str 1 = ''1''" by code_simp
  have l: "prefix (line_start (ns_session s + 1) (ns_in s)) ?a"
    by (simp add: control_line_def line_start_def)
  have "?a = (dec_str (unat (ns_session s + 1)) @ tab @ dec_str (unat (ns_in s)) @ tab @ dec_str (unat (ns_out s))) @ received_end r"
    by (simp add: control_line_def received_end_def one)
  then have l2: "suffix (received_end r) ?a" by (simp only: suffixI)
  have "one_line ?r s'"
    using assms handle_packet_line
    by (fastforce simp: nano_step_def recv_bytes_def recv_size_def Let_def split: if_splits recv.splits intro!: one_lineI)
  with a l l2 show ?thesis
    by (auto simp: counted_def one_line_def dumped_def)
qed

interpretation nano_trace: bus_trace "nano_open env" "nano_step env cfg"
    "\<lambda>k s. (if su_shutdown (we_setup env k) \<noteq> 0 then - 20 else 0, s)" counted
  for env cfg
proof
  show "counted s [] s" for s by (simp add: counted_def dumped_def)
  then show "counted s [] s'" if "nano_open env k s = Inr (Some (Inr s'))" for k s s'
    using that by (auto simp: nano_open_def counted_def dumped_def split: option.splits)
  show "counted s [] (snd (if su_shutdown (we_setup env k) \<noteq> 0 then - 20 else 0, s))" for s k
    by (simp add: counted_def dumped_def)
  show "counted s (xs @ ys) s''" if "counted s xs s'" "counted s' ys s''" for s xs s' ys s''
    using that reports_append [of "ns_in s" xs _ ys]
    by (auto simp: counted_def dumped_def)
qed (rule nano_step_counted)

text \<open>
  C10: Every call of nn_recv that a run has made is counted and reported, also over reloads and
  whatever failed: the counter of the packets is the number of the calls, the control bus has two
  lines for each of them in their order, the first with the size that arrived and the count before
  it, the second with the count that includes it, and the dump bus has every buffer that is not
  empty. What is not counted is left to arrive.
\<close>

theorem two_lines_for_every_packet:
  assumes "nano_run env cfg as s = Inr (Some out)"
  shows "\<exists>gone left s'. as = gone @ left \<and>
    (out = Waiting s' \<and> left = [] \<or> (\<exists>code. out = Returned code left s')) \<and>
    ns_in s' = of_nat (length gone) \<and> ns_session s' = ns_in s' \<and>
    ns_dump s' = ns_dump s @ dumped (map snd gone) \<and>
    (\<exists>lines. ns_control s' = ns_control s @ lines \<and> length lines = 2 * length gone \<and> reports 0 (map snd gone) lines)"
proof -
  from nano_trace.run_trace [OF assms [unfolded nano_run_def]] show ?thesis
    by (cases out) (fastforce simp: counted_def dest: reports_length)+
qed

subsection \<open>A packet becomes a message on the bus\<close>

lemma nano_step_sends:
  assumes "packet_message env cfg (ns_cache s) buf = Inr (Some (Some m, c))"
    and "257 < length buf" "length buf < 2 ^ 31"
    and "pkt2receiver_allowed_packet_sizes cfg = [] \<or>
      int (length buf) - 257 \<in> set (pkt2receiver_allowed_packet_sizes cfg)"
    and "ne_send env (length (ns_sent s))" "1 \<le> pkt2receiver_verbosity cfg \<longrightarrow> isOk (ne_json env m)"
  shows "\<exists>s'. nano_step env cfg (Arrived buf) s = Inr (Some (0, s')) \<and>
    ns_sent s' = ns_sent s @ [sent_message (we_wire env) m] \<and> ns_dump s' = ns_dump s @ [buf] \<and>
    ns_in s' = ns_in s + 1 \<and> ns_out s' = ns_out s + 1 \<and> ns_cache s' = c"
proof -
  have w: "wrap32 (int (length buf)) = int (length buf)" using assms(3) by (intro wrap32_id) simp_all
  have p: "getPayloadSize (int (length buf)) = int (length buf) - 257" using assms(2,3) by (intro payload_size_of) simp_all
  have nonempty: "buf \<noteq> []" using assms(2) by auto
  let ?s = "(received buf (int (length buf)) (int (length buf) - 257) s)\<lparr>ns_cache := c\<rparr>"
  obtain s' where send: "send_message env cfg m ?s = Inr s'"
    and s': "ns_sent s' = ns_sent s @ [sent_message (we_wire env) m]" "ns_out s' = ns_out s + 1"
      "ns_dump s' = ns_dump s @ [buf]" "ns_in s' = ns_in s + 1" "ns_cache s' = c"
  proof (cases "1 \<le> pkt2receiver_verbosity cfg")
    case True
    then obtain js where "ne_json env m = Inr js" using assms(6) by (auto simp: isOk_iff)
    then show thesis using that nonempty True assms(5) by (simp add: send_message_def Let_def)
  next
    case False
    then show thesis using that nonempty assms(5) by (simp add: send_message_def Let_def)
  qed
  have "nano_step env cfg (Arrived buf) s = Inr (Some (0, s'))"
    using assms(1,2,4) w p send
    by (cases "pkt2receiver_allowed_packet_sizes cfg = []") (simp_all add: nano_step_def handle_packet_def Let_def)
  with s' show ?thesis by blast
qed

text \<open>The memory behind a packet is long enough for the address that is read there.\<close>

definition destination_readable :: "'e nano_env \<Rightarrow> bytes \<Rightarrow> bool" where
  "destination_readable env buf = (socket_addr_dst + sockaddr_size \<le> length (buf @ ne_beyond env))"

text \<open>A packet of a known type whose destination address cannot be read ends the receiver.\<close>

lemma packet_message_faults:
  assumes "parse_env_new (st_fuel (we_settings env)) (st_runtime (we_settings env)) (st_time (we_settings env)) None None
      (payload (packet_wrap buf)) c (pkt2receiver_force_message cfg) (Some (pkt2receiver_tableAliases cfg))
      (Some (pkt2receiver_fieldAliases cfg)) (Some (pkt2receiver_properties cfg)) = Inr (Some e)"
    and "pe_root e \<noteq> None" "\<not> destination_readable env buf"
  shows "packet_message env cfg c buf = Inl OutOfBounds"
  using assms
  by (auto simp: packet_message_def message_of_def environment_of_def address_at_def destination_readable_def Let_def
      not_le layout)

text \<open>With memory behind it, a packet of numbers becomes the message of its numbers.\<close>

lemma packet_message_numbers:
  assumes "reads_fields (st_runtime (we_settings env))" and "declarations_ok pd"
    and "cache_new fuel hash pd = Inr (Some c)" and "getMessageDescriptor pd t = Some md" and "t \<noteq> []"
    and "map_of (oc_variables c) t = Some pv"
    and "list_all (number_field (length buf - 257)) (pk_fields (pv_packet pv))"
    and "distinct (map f_name (pk_fields (pv_packet pv)))"
    and "list_all (takes_number (pk_fields (pv_packet pv))) (md_fields md)"
    and "st_fuel (we_settings env) = Suc n" and "st_pool (we_settings env) = getMessageDescriptor pd"
    and "pkt2receiver_force_message cfg = t" and "destination_readable env buf"
    and "m = PbMessage t (map (\<lambda>fd. [number_value (drop 257 buf) (pk_fields (pv_packet pv)) fd]) (md_fields md))"
  shows "packet_message env cfg c buf = Inr (Some (Some m, c))"
proof -
  let ?st = "we_settings env"
  have fields: "list_all (number_field (length (drop 257 buf))) (pk_fields (pv_packet pv))" using assms(7) by simp
  note parsed = numbers_parsed(1) [OF assms(1-6) fields assms(8,9,14), of n "st_time ?st" _ _
      "(Some (pkt2receiver_tableAliases cfg), Some (pkt2receiver_fieldAliases cfg), Some (pkt2receiver_properties cfg))" n]
  have "socket_addr_src + sockaddr_size \<le> length (buf @ ne_beyond env)"
    using assms(13) by (simp add: destination_readable_def layout)
  then obtain src dst where "address_at env buf socket_addr_src = Inr src" "address_at env buf socket_addr_dst = Inr dst"
    using assms(13) by (simp add: address_at_def destination_readable_def Let_def not_less)
  moreover obtain e1 where "parse_env_new (Suc n) (st_runtime ?st) (st_time ?st) None None (drop 257 buf) c t
      (Some (pkt2receiver_tableAliases cfg)) (Some (pkt2receiver_fieldAliases cfg)) (Some (pkt2receiver_properties cfg)) =
      Inr (Some e1)" "pe_root e1 = Some pv"
    using parsed [of None None] by auto
  moreover obtain e2 where "parse_env_new (Suc n) (st_runtime ?st) (st_time ?st) (Some src) (Some dst) (drop 257 buf) c t
      (Some (pkt2receiver_tableAliases cfg)) (Some (pkt2receiver_fieldAliases cfg)) (Some (pkt2receiver_properties cfg)) =
      Inr (Some e2)" "pe_options_cache e2 = c"
    "parsePacket (Suc n) (st_runtime ?st) (Some c) (getMessageDescriptor pd) e2 = Inr (Some (Some m, e2))"
    using parsed [of "Some src" "Some dst"] by auto
  ultimately show ?thesis
    by (simp add: packet_message_def message_of_def environment_of_def payload_wrap Let_def assms(10-12))
qed

text \<open>
  C2: A packet of a type of numbers that comes to the receiver becomes one message on its
  output bus, which has the numbers of the packet; a writer of lines that gets these bytes, fits
  them into its buffer and allows the type, prints that message. The receiver reads a destination
  address at byte 16512, mostly behind the packet: the property is for memory that can be read there
  (\<open>destination_readable\<close>), and \<open>packet_message_faults\<close> shows what happens where it cannot.
\<close>

theorem packet_is_printed:
  assumes "reads_fields (st_runtime (we_settings env))" and "declarations_ok pd"
    and "cache_new fuel hash pd = Inr (Some (ns_cache s))" and "getMessageDescriptor pd t = Some md" and "t \<noteq> []"
    and "map_of (oc_variables (ns_cache s)) t = Some pv"
    and "list_all (number_field (length buf - 257)) (pk_fields (pv_packet pv))"
    and "distinct (map f_name (pk_fields (pv_packet pv)))"
    and "list_all (takes_number (pk_fields (pv_packet pv))) (md_fields md)"
    and "st_fuel (we_settings env) = Suc n" and "st_pool (we_settings env) = getMessageDescriptor pd"
    and "pkt2receiver_force_message cfg = t" and "destination_readable env buf"
    and "257 < length buf" "length buf < 2 ^ 31" "pkt2receiver_allowed_packet_sizes cfg = []"
    and "pkt2receiver_verbosity cfg = 0" "ne_send env (length (ns_sent s))"
    and "wire_ok (we_wire env)" "we_wire wenv = we_wire env"
  shows "\<exists>m s'. nano_step env cfg (Arrived buf) s = Inr (Some (0, s')) \<and>
    ns_sent s' = ns_sent s @ [sent_message (we_wire env) m] \<and> pm_type m = t \<and>
    list_all2 (\<lambda>fd slot. \<exists>v. extractFieldUInt (drop 257 buf) (source_field (pk_fields (pv_packet pv)) fd) = Inr v \<and>
        slot = [PUInt32 (ucast v)]) (md_fields md) (pm_slots m) \<and>
    (deliverable wenv (handlerline_buffer_size lcfg) m \<and> allowed (handlerline_allowed_messages lcfg) m \<longrightarrow>
     line_body wenv DebugString lcfg (last (ns_sent s')) ls =
       line_put wenv DebugString lcfg (last (ns_sent s')) t m ls)"
proof -
  let ?fs = "pk_fields (pv_packet pv)"
  define m where "m = PbMessage t (map (\<lambda>fd. [number_value (drop 257 buf) ?fs fd]) (md_fields md))"
  have fields: "list_all (number_field (length (drop 257 buf))) ?fs" using assms(7) by simp
  have "packet_message env cfg (ns_cache s) buf = Inr (Some (Some m, ns_cache s))"
    by (rule packet_message_numbers [OF assms(1-13) m_def])
  from nano_step_sends [OF this assms(14,15) _ assms(18)] assms(16,17)
  obtain s' where s': "nano_step env cfg (Arrived buf) s = Inr (Some (0, s'))"
    "ns_sent s' = ns_sent s @ [sent_message (we_wire env) m]" by auto
  have t: "pm_type m = t" by (simp add: m_def)
  have "line_body wenv DebugString lcfg (sent_message (we_wire env) m) ls =
      line_put wenv DebugString lcfg (sent_message (we_wire env) m) t m ls"
    if "deliverable wenv (handlerline_buffer_size lcfg) m" "allowed (handlerline_allowed_messages lcfg) m"
    using that assms(19,20) writer_body_sent [of wenv m "type_address_new (pm_type m)"
        "handlerline_allowed_messages lcfg" "line_put wenv DebugString lcfg" ls]
    by (simp add: line_body_def in_buffer_def deliverable_def sent_message_def t)
  then show ?thesis using s' t numbers_parsed(2) [OF assms(1-6) fields assms(8,9) m_def]
    by (intro exI [of _ m] exI [of _ s']) simp
qed

subsection \<open>An example\<close>

definition sensor_message :: pb_message where
  "sensor_message = PbMessage ''s'' [[PUInt32 3], [PUInt32 258]]"

definition sensor_buffer :: bytes where
  "sensor_buffer = replicate 257 0 @ [1, 2, 3]"

definition sensor_nano :: "((string \<times> jsval) list) nano_env" where
  "sensor_nano =
     \<lparr>we_wire = example_wire sensor_message,
      we_settings = \<lparr>st_fuel = 1, st_hash = \<lambda>s. 7, st_runtime = path_runtime, st_time = 0, st_format_number = - 1,
        st_pool = getMessageDescriptor sensor_declarations\<rparr>,
      we_declarations = sensor_declarations,
      we_setup = (\<lambda>k. \<lparr>su_socket = True, su_connect = True, su_malloc = True, su_shutdown = 0\<rparr>),
      ne_calls = (\<lambda>k. []), ne_send = (\<lambda>n. True), ne_stale_eintr = (\<lambda>n. False),
      ne_address = (\<lambda>bs. SockaddrOther), ne_beyond = replicate 16600 0, ne_json = (\<lambda>m. Inr [])\<rparr>"

definition sensor_receiver_config :: pkt2receiver_config where
  "sensor_receiver_config =
     \<lparr>pkt2receiver_in_url = [], pkt2receiver_out_url = [], pkt2receiver_control_url = [], pkt2receiver_dump_url = [],
      pkt2receiver_proto_path = [], pkt2receiver_force_message = ''s'', pkt2receiver_buffer_size = 4096,
      pkt2receiver_retries = 0, pkt2receiver_retry_delay = 60, pkt2receiver_allowed_packet_sizes = [],
      pkt2receiver_verbosity = 0, pkt2receiver_daemonize = False, pkt2receiver_max_fd = 0, pkt2receiver_path = [],
      pkt2receiver_tableAliases = [], pkt2receiver_fieldAliases = [], pkt2receiver_properties = []\<rparr>"

lemma sensor_packet_fields:
  "list_all (number_field 3) sensor_fields" "distinct (map f_name sensor_fields)"
  "list_all (takes_number sensor_fields) (md_fields sensor_md)"
proof -
  show "list_all (number_field 3) sensor_fields" "distinct (map f_name sensor_fields)"
    by (simp_all add: sensor_fields_def number_field_def in_packet_def plain_name_def is_letter_def is_digit_def less_eq_char_def)
  show "list_all (takes_number sensor_fields) (md_fields sensor_md)" by code_simp
qed

lemma sensor_cache:
  obtains c pv where "cache_new 9 (\<lambda>s. 7) sensor_declarations = Inr (Some c)" "map_of (oc_variables c) ''s'' = Some pv"
    "pk_fields (pv_packet pv) = sensor_fields"
proof -
  have "case cache_new 9 (\<lambda>s. 7) sensor_declarations of
      Inr (Some c) \<Rightarrow> (case map_of (oc_variables c) ''s'' of
        Some pv \<Rightarrow> pk_fields (pv_packet pv) = sensor_fields
      | None \<Rightarrow> False)
    | _ \<Rightarrow> False"
    by code_simp
  with that show thesis by (auto split: sum.splits option.splits)
qed

lemma sensor_md_fields: "md_fields sensor_md = [sensor_field 2 ''b'', sensor_field 1 ''a'']"
  by (simp add: sensor_md_def sensor_declarations_def)

lemma sensor_values:
  "extractFieldUInt [1, 2, 3] (source_field sensor_fields (sensor_field 2 ''b'')) = Inr 3"
  "extractFieldUInt [1, 2, 3] (source_field sensor_fields (sensor_field 1 ''a'')) = Inr 258"
  by code_simp+

lemma no_types_cache: "\<exists>c. open_cache (writer_env.truncate (sensor_nano\<lparr>we_declarations := []\<rparr>)) = Inr (Some c)"
  by (simp add: open_cache_def writer_env.truncate_def cache_new_def addDeclarations_def)

theorem two_lines_for_every_packet_witness:
  "\<exists>s'. nano_run (sensor_nano\<lparr>we_declarations := []\<rparr>) sensor_receiver_config
      [(None, RecvFailed), (None, Arrived (replicate 257 0)), (None, Interrupted), (None, Arrived [1])]
      \<lparr>ns_session = 0, ns_in = 0, ns_out = 0, ns_cache = no_cache, ns_control = [], ns_dump = [], ns_sent = []\<rparr> =
    Inr (Some (Returned 0 [(None, Arrived [1])] s')) \<and> ns_in s' = 3 \<and> length (ns_control s') = 6 \<and>
    ns_dump s' = [replicate 257 0]"
proof -
  let ?env = "sensor_nano\<lparr>we_declarations := []\<rparr>"
  let ?as = "[(None, RecvFailed), (None, Arrived (replicate 257 0)), (None, Interrupted), (None, Arrived [1])] :: arrival list"
  let ?s = "\<lparr>ns_session = 0, ns_in = 0, ns_out = 0, ns_cache = no_cache, ns_control = [], ns_dump = [], ns_sent = []\<rparr>"
  obtain c where c: "open_cache (writer_env.truncate ?env) = Inr (Some c)" using no_types_cache by blast
  have e: "ne_calls ?env = (\<lambda>k. [])" "su_shutdown (we_setup sensor_nano k) = 0" for k by (simp_all add: sensor_nano_def)
  have p: "getPayloadSize (- 1) < 0" "getPayloadSize 257 = 0" by code_simp+
  have w: "wrap32 257 = 257" by code_simp
  have "\<exists>s'. nano_run ?env sensor_receiver_config ?as ?s = Inr (Some (Returned 0 [(None, Arrived [1])] s'))"
    by (simp add: nano_run_def run_sessions.simps [of True] nano_open_def nano_step_def handle_packet_def c e p w Let_def)
  then obtain s' where r: "nano_run ?env sensor_receiver_config ?as ?s = Inr (Some (Returned 0 [(None, Arrived [1])] s'))"
    by blast
  from two_lines_for_every_packet [OF r] obtain gone where "?as = gone @ [(None, Arrived [1])]"
    and g: "ns_in s' = of_nat (length gone)" "ns_dump s' = dumped (map snd gone)" "length (ns_control s') = 2 * length gone"
    by auto
  then have "gone = butlast ?as" by (metis butlast_snoc)
  then have gone: "gone = [(None, RecvFailed), (None, Arrived (replicate 257 0)), (None, Interrupted)]" by simp
  show ?thesis using r g unfolding gone by (simp add: dumped_def recv_size_def recv_bytes_def w)
qed

theorem packet_is_printed_witness:
  "\<exists>c s' ls'. nano_step sensor_nano sensor_receiver_config (Arrived sensor_buffer)
      \<lparr>ns_session = 0, ns_in = 0, ns_out = 0, ns_cache = c, ns_control = [], ns_dump = [], ns_sent = []\<rparr> = Inr (Some (0, s')) \<and>
    ns_sent s' = [sent_message (example_wire sensor_message) sensor_message] \<and>
    line_body (writer_env.truncate sensor_nano) (\<lambda>m. ''message'') (example_line_config\<lparr>handlerline_allowed_messages := []\<rparr>)
      (last (ns_sent s')) \<lparr>ls_stream = [], ls_cache = c\<rparr> = Inr (Some ls') \<and> ls_stream ls' = ''message'' @ endl"
proof -
  obtain c pv where c: "cache_new 9 (\<lambda>s. 7) sensor_declarations = Inr (Some c)"
    "map_of (oc_variables c) ''s'' = Some pv" and fs: "pk_fields (pv_packet pv) = sensor_fields"
    by (rule sensor_cache)
  let ?s = "\<lparr>ns_session = 0, ns_in = 0, ns_out = 0, ns_cache = c, ns_control = [], ns_dump = [], ns_sent = []\<rparr>"
  let ?w = "writer_env.truncate sensor_nano" and ?l = "example_line_config\<lparr>handlerline_allowed_messages := []\<rparr>"
  have len: "length sensor_buffer - 257 = 3" "drop 257 sensor_buffer = [1, 2, 3]" "257 < length sensor_buffer"
    "length sensor_buffer < 2 ^ 31"
    by (simp_all add: sensor_buffer_def)
  have f: "list_all (number_field (length sensor_buffer - 257)) (pk_fields (pv_packet pv))"
    "distinct (map f_name (pk_fields (pv_packet pv)))"
    "list_all (takes_number (pk_fields (pv_packet pv))) (md_fields sensor_md)"
    unfolding len fs by (rule sensor_packet_fields)+
  have ok: "declarations_ok sensor_declarations"
    by (simp add: declarations_ok_def sensor_declarations_def sensor_field_def example_field_desc_def)
  have md: "getMessageDescriptor sensor_declarations ''s'' = Some sensor_md"
    by (simp add: getMessageDescriptor_def sensor_declarations_def sensor_md_def)
  have n: "reads_fields (st_runtime (we_settings sensor_nano))" "st_fuel (we_settings sensor_nano) = Suc 0"
    "st_pool (we_settings sensor_nano) = getMessageDescriptor sensor_declarations"
    "we_wire sensor_nano = example_wire sensor_message" "ne_send sensor_nano k"
    "destination_readable sensor_nano sensor_buffer" "we_wire ?w = we_wire sensor_nano" for k
    using path_reads_fields
    by (simp_all add: sensor_nano_def destination_readable_def sensor_buffer_def layout writer_env.truncate_def)
  have cfg: "pkt2receiver_force_message sensor_receiver_config = ''s''"
    "pkt2receiver_allowed_packet_sizes sensor_receiver_config = []" "pkt2receiver_verbosity sensor_receiver_config = 0"
    by (simp_all add: sensor_receiver_config_def)
  obtain m s' where m: "nano_step sensor_nano sensor_receiver_config (Arrived sensor_buffer) ?s = Inr (Some (0, s'))"
      "ns_sent s' = ns_sent ?s @ [sent_message (we_wire sensor_nano) m]" "pm_type m = ''s''"
      "list_all2 (\<lambda>fd slot. \<exists>v. extractFieldUInt (drop 257 sensor_buffer) (source_field (pk_fields (pv_packet pv)) fd) = Inr v \<and>
        slot = [PUInt32 (ucast v)]) (md_fields sensor_md) (pm_slots m)"
    and p: "deliverable ?w (handlerline_buffer_size ?l) m \<and> allowed (handlerline_allowed_messages ?l) m \<longrightarrow>
     line_body ?w (\<lambda>m. ''message'') ?l (last (ns_sent s')) \<lparr>ls_stream = [], ls_cache = c\<rparr> =
       line_put ?w (\<lambda>m. ''message'') ?l (last (ns_sent s')) ''s'' m \<lparr>ls_stream = [], ls_cache = c\<rparr>"
    using packet_is_printed [of sensor_nano sensor_declarations 9 "\<lambda>s. 7" ?s "''s''" sensor_md pv sensor_buffer 0
        sensor_receiver_config ?w ?l "\<lambda>m. ''message''" "\<lparr>ls_stream = [], ls_cache = c\<rparr>"]
      n ok c md f cfg len example_wire_ok by auto
  have "m = sensor_message" using m(3,4) sensor_values
    by (cases m) (auto simp: sensor_message_def len fs sensor_md_fields list_all2_Cons1)
  have d: "deliverable ?w (handlerline_buffer_size ?l) sensor_message"
    by (simp add: deliverable_def message_fits_def n sent_message_def stringDelimitedMessage_def writeDelimitedMessage_def
        type_address_new_def SOCKADDR_SIZE_def Let_def bytes_of_text_def sensor_message_def example_wire_def
        writer_env.truncate_def sensor_nano_def md example_line_config_def)
  have a: "allowed (handlerline_allowed_messages ?l) sensor_message" by (simp add: allowed_def)
  from p d a \<open>m = sensor_message\<close> have "line_body ?w (\<lambda>m. ''message'') ?l (last (ns_sent s')) \<lparr>ls_stream = [], ls_cache = c\<rparr> =
      Inr (Some \<lparr>ls_stream = ''message'' @ endl, ls_cache = c\<rparr>)"
    by (simp add: line_put_def put_message_def put_debug_def example_line_config_def)
  with m(1,2) n(4) \<open>m = sensor_message\<close> show ?thesis
    by (intro exI [of _ c] exI [of _ s'] exI [of _ "\<lparr>ls_stream = ''message'' @ endl, ls_cache = c\<rparr>"]) simp
qed

end
