(* ===== verification/Gateway.thy ===== *)
theory Gateway
  imports ReceiverNano
begin

section \<open>Forwarding, repeating and watching\<close>

text \<open>
  message2gateway-impl.cpp sends messages from a file or a bus to another bus, repeator.cpp
  copies whatever comes to its outputs, and pkt2receiver-check.cpp prints the counters of the
  receiver.
\<close>

subsection \<open>The repeater\<close>

text \<open>The outputs with what was sent to them, and the number of packets.\<close>

record repeat_state =
  rp_out :: "bytes list list"
  rp_count :: nat

text \<open>Whether the nth packet can be sent to the ith output.\<close>

definition repeat_body :: "(nat \<Rightarrow> nat \<Rightarrow> bool) \<Rightarrow> bytes \<Rightarrow> repeat_state \<Rightarrow> repeat_state option result" where
  "repeat_body ok msg s =
     Inr (Some \<lparr>rp_out = map (\<lambda>(i, out). if ok i (rp_count s) then out @ [msg] else out) (enumerate 0 (rp_out s)),
                rp_count = rp_count s + 1\<rparr>)"

record repeat_setup =
  rs_in_socket :: bool
  rs_in_connect :: bool
  rs_malloc :: bool
  rs_socket :: "nat \<Rightarrow> bool"
  rs_option :: "nat \<Rightarrow> bool"
  rs_attach :: "nat \<Rightarrow> bool"
  rs_shutdown :: int

definition repeat_open ::
  "(nat \<Rightarrow> repeat_setup) \<Rightarrow> repeator_config \<Rightarrow> nat \<Rightarrow> repeat_state \<Rightarrow> (int + repeat_state) option result" where
  "repeat_open setup cfg k s =
     (let su = setup k;
          outputs = concat (map (\<lambda>i. if repeator_bind cfg then [(rs_socket su i, - 16), (rs_attach su i, - 18)]
                                     else [(rs_socket su i, - 16), (rs_option su i, - 23), (rs_attach su i, - 17)])
                      [0..<length (repeator_out_urls cfg)])
      in case first_failure ([(rs_in_socket su, - 16), (rs_in_connect su, - 17), (rs_malloc su, - 29)] @ outputs) of
           Some code \<Rightarrow> Inr (Some (Inl code))
         | None \<Rightarrow> Inr (Some (Inr s)))"

text \<open>The shutdown of an output does not change the result.\<close>

definition repeat_run ::
  "(nat \<Rightarrow> repeat_setup) \<Rightarrow> (nat \<Rightarrow> nat \<Rightarrow> bool) \<Rightarrow> repeator_config \<Rightarrow> arrival list \<Rightarrow> repeat_state
   \<Rightarrow> repeat_state outcome option result" where
  "repeat_run setup ok cfg as s =
     run_sessions True (repeat_open setup cfg) (recv_step True (in_buffer (repeator_buffer_size cfg) (repeat_body ok)))
       (\<lambda>k s. (if rs_shutdown (setup k) \<noteq> 0 then - 20 else 0, s)) 0 as s"

subsection \<open>Messages from a bus\<close>

record gateway_state =
  gw_sent :: "bytes list"
  gw_read :: u64

definition sendMessage :: "wire \<Rightarrow> bool \<Rightarrow> type_address \<Rightarrow> pb_message \<Rightarrow> gateway_state \<Rightarrow> gateway_state" where
  "sendMessage w ok ta m s =
     (if ok then s\<lparr>gw_sent := gw_sent s @ [stringDelimitedMessage w ta m]\<rparr> else s)"

definition gateway_body :: "'e writer_env \<Rightarrow> (nat \<Rightarrow> bool) \<Rightarrow> bytes \<Rightarrow> gateway_state \<Rightarrow> gateway_state option result" where
  "gateway_body env ok msg s =
     (if msg = [] then Inr (Some s)
      else case readDelimitedMessage (we_wire env) (st_pool (we_settings env)) msg (type_address_new []) of
             (None, ta) \<Rightarrow> Inr (Some s)
           | (Some (m, rest), ta) \<Rightarrow> Inr (Some (sendMessage (we_wire env) (ok (length (gw_sent s))) ta m s)))"

definition gateway_open :: "'e nano_env \<Rightarrow> nat \<Rightarrow> gateway_state \<Rightarrow> (int + gateway_state) option result" where
  "gateway_open env k s =
     (case first_failure (zip (ne_calls env k) [- 17, - 17]) of
        Some code \<Rightarrow> Inr (Some (Inl code))
      | None \<Rightarrow>
          if we_declarations env = [] then Inr (Some (Inl (- 28)))
          else if \<not> su_malloc (we_setup env k) then Inr (Some (Inl (- 29)))
          else Inr (Some (Inr s)))"

definition gateway_run_socket ::
  "'e nano_env \<Rightarrow> message2gateway_config \<Rightarrow> arrival list \<Rightarrow> gateway_state \<Rightarrow> gateway_state outcome option result" where
  "gateway_run_socket env cfg as s =
     run_sessions True (gateway_open env)
       (recv_step False (in_buffer (int (unat (message2gateway_buffer_size cfg)))
          (gateway_body (writer_env.truncate env) (ne_send env))))
       (\<lambda>k s. (close_writer (writer_env.truncate env) k, s)) 0 as s"

subsection \<open>Messages from a file\<close>

text \<open>
  Every message of the stream is sent as often as the program is to be repeated. The loop ends
  where no message can be read or, before the nth message, where a stop is requested; None is a
  loop that has not ended with this fuel.
\<close>

fun stream_loop ::
  "nat \<Rightarrow> 'e nano_env \<Rightarrow> int \<Rightarrow> (nat \<Rightarrow> bool) \<Rightarrow> bytes \<Rightarrow> gateway_state \<Rightarrow> gateway_state option" where
  "stream_loop 0 env retries stops input s = None"
| "stream_loop (Suc n) env retries stops input s =
     (if stops (unat (gw_read s)) then Some s
      else case readDelimitedMessage (we_wire env) (st_pool (we_settings env)) input (type_address_new []) of
             (None, ta) \<Rightarrow> Some s
           | (Some (m, rest), ta) \<Rightarrow>
               let s' = fold (\<lambda>i s. sendMessage (we_wire env) (ne_send env (length (gw_sent s))) ta m s)
                          [0..<nat retries] s
               in stream_loop n env retries stops rest (s'\<lparr>gw_read := gw_read s' + 1\<rparr>))"

definition gateway_run_stream ::
  "nat \<Rightarrow> 'e nano_env \<Rightarrow> message2gateway_config \<Rightarrow> (nat \<Rightarrow> bool) \<Rightarrow> bytes \<Rightarrow> gateway_state
   \<Rightarrow> (int \<times> gateway_state) option" where
  "gateway_run_stream n env cfg stops input s =
     (if ne_calls env 0 \<noteq> [] \<and> \<not> hd (ne_calls env 0) then Some (- 17, s)
      else if we_declarations env = [] then Some (- 28, s)
      else map_option (\<lambda>s'. (close_writer (writer_env.truncate env) 0, s'))
             (stream_loop n env (message2gateway_retries cfg) stops input s))"

definition reads_stream :: "message2gateway_config \<Rightarrow> bool" where
  "reads_stream cfg =
     (message2gateway_from_stdin cfg \<or> message2gateway_file_name cfg \<noteq> [] \<or> message2gateway_message_in_url cfg = [])"

subsection \<open>The watcher of the control bus\<close>

definition atoll :: "string \<Rightarrow> int" where
  "atoll s = (case strtol 10 s of None \<Rightarrow> 0 | Some (v, rest) \<Rightarrow> v)"

text \<open>Seven fields are read where five are enough.\<close>

definition check_body :: "bytes \<Rightarrow> string \<Rightarrow> string option result" where
  "check_body buffer out =
     (let r = split (text_of_bytes buffer) (CHR 0x09)
      in if length r < 5 then Inr (Some out)
         else bindR (elem_at r 5) (\<lambda>msg. bindR (elem_at r 6) (\<lambda>data.
                Inr (Some (out @ dec_str (unat (of_int (atoll (r ! 1)) :: u64)) @ ''/''
                  @ dec_str (unat (of_int (atoll (r ! 2)) :: u64)) @ endl)))))"

definition check_open :: "(nat \<Rightarrow> bus_setup) \<Rightarrow> nat \<Rightarrow> string \<Rightarrow> (int + string) option result" where
  "check_open setup k out =
     (case first_failure [(su_socket (setup k), - 16), (su_connect (setup k), - 17), (su_malloc (setup k), - 29)] of
        Some code \<Rightarrow> Inr (Some (Inl code))
      | None \<Rightarrow> Inr (Some (Inr out)))"

definition check_run :: "(nat \<Rightarrow> bus_setup) \<Rightarrow> arrival list \<Rightarrow> string \<Rightarrow> string outcome option result" where
  "check_run setup as out =
     run_sessions True (check_open setup) (recv_step True (in_buffer 4096 check_body))
       (\<lambda>k s. (if su_shutdown (setup k) \<noteq> 0 then - 20 else 0, s)) 0 as out"

section \<open>What is forwarded\<close>

subsection \<open>The repeater\<close>

definition repeated :: "(nat \<Rightarrow> nat \<Rightarrow> bool) \<Rightarrow> nat \<Rightarrow> bytes list \<Rightarrow> nat \<Rightarrow> bytes list" where
  "repeated ok n ms i = map snd (filter (\<lambda>(k, m). ok i k) (enumerate n ms))"

lemma repeat_body_length: "repeat_body ok msg s = Inr (Some s') \<Longrightarrow> length (rp_out s') = length (rp_out s)"
  by (auto simp: repeat_body_def)

interpretation repeater: bus_client "repeat_open su cfg" "in_buffer n (repeat_body ok)"
    "\<lambda>k s. (if rs_shutdown (su k) \<noteq> 0 then - 20 else 0, s)" "\<lambda>s. length (rp_out s) = outputs"
  for su cfg n ok outputs
proof
  show "length (rp_out s') = outputs"
    if "repeat_open su cfg k s = Inr (Some (Inr s'))" "length (rp_out s) = outputs" for k s s'
    using that by (auto simp: repeat_open_def Let_def split: option.splits)
  show "length (rp_out s') = outputs"
    if "in_buffer n (repeat_body ok) msg s = Inr (Some s')" "length (rp_out s) = outputs" for msg s s'
    using that repeat_body_length by (auto simp: in_buffer_def split: if_splits)
qed simp

lemma enumerate_map_snd: "enumerate a (map (\<lambda>(i, x). f i x) (enumerate a xs)) = map (\<lambda>(i, x). (i, f i x)) (enumerate a xs)"
  by (induction xs arbitrary: a) auto

lemma enumerate_second: "map (\<lambda>(i, x). x) (enumerate n xs) = xs"
  by (induction xs arbitrary: n) auto

lemma repeat_handle_all:
  assumes "\<forall>m \<in> set ms. int (length m) \<le> n"
  shows "handle_all (in_buffer n (repeat_body ok)) ms s =
    Inr (Some \<lparr>rp_out = map (\<lambda>(i, out). out @ repeated ok (rp_count s) ms i) (enumerate 0 (rp_out s)),
               rp_count = rp_count s + length ms\<rparr>)"
  using assms
proof (induction ms arbitrary: s)
  case Nil
  show ?case by (cases s) (simp add: repeated_def enumerate_second)
next
  case (Cons m ms)
  then show ?case
    by (auto simp: in_buffer_def repeat_body_def repeated_def enumerate_map_snd)
qed

text \<open>
  Until it is interrupted the repeater sends every message to every output, in the order of
  arrival; a message that cannot be sent to an output is missing there and nowhere else.
\<close>

theorem repeats_to_every_output:
  assumes "repeat_open setup cfg 0 s = Inr (Some (Inr s))" "\<forall>m \<in> set ms. int (length m) \<le> repeator_buffer_size cfg"
  shows "\<exists>s'. repeat_run setup ok cfg (arrived ms @ (sig, Interrupted) # as) s =
      Inr (Some (Returned (if rs_shutdown (setup 0) \<noteq> 0 then - 20 else 0) as s')) \<and>
    rp_out s' = map (\<lambda>(i, out). out @ map snd (filter (\<lambda>(k, m). ok i k) (enumerate (rp_count s) ms)))
      (enumerate 0 (rp_out s))"
  using repeater.run_until_interrupted [OF assms(1) repeat_handle_all [OF assms(2)] refl]
  by (simp add: repeat_run_def repeated_def)

definition example_repeat_setup :: repeat_setup where
  "example_repeat_setup =
     \<lparr>rs_in_socket = True, rs_in_connect = True, rs_malloc = True, rs_socket = (\<lambda>i. True),
      rs_option = (\<lambda>i. True), rs_attach = (\<lambda>i. True), rs_shutdown = 0\<rparr>"

definition example_repeat_config :: repeator_config where
  "example_repeat_config =
     \<lparr>repeator_in_url = ''in'', repeator_out_urls = [''a'', ''b''], repeator_bind = True, repeator_buffer_size = 4096,
      repeator_retries = 0, repeator_retry_delay = 60, repeator_verbosity = 0, repeator_daemonize = False,
      repeator_path = []\<rparr>"

theorem repeats_to_every_output_witness:
  "\<exists>s'. repeat_run (\<lambda>k. example_repeat_setup) (\<lambda>i n. i = 0 \<or> n \<noteq> 1) example_repeat_config
      (arrived [[1], [2], [3]] @ [(None, Interrupted)]) \<lparr>rp_out = [[], []], rp_count = 0\<rparr> = Inr (Some (Returned 0 [] s')) \<and>
    rp_out s' = [[[1], [2], [3]], [[1], [3]]]"
proof -
  have o: "repeat_open (\<lambda>k. example_repeat_setup) example_repeat_config 0 \<lparr>rp_out = [[], []], rp_count = 0\<rparr> =
      Inr (Some (Inr \<lparr>rp_out = [[], []], rp_count = 0\<rparr>))"
    by (simp add: repeat_open_def example_repeat_setup_def example_repeat_config_def)
  have m: "\<forall>m \<in> set [[1 :: byte], [2], [3]]. int (length m) \<le> repeator_buffer_size example_repeat_config"
    by (simp add: example_repeat_config_def)
  show ?thesis using repeats_to_every_output [OF o m, of "\<lambda>i n. i = 0 \<or> n \<noteq> 1" None "[]"]
    by (simp add: example_repeat_setup_def)
qed

subsection \<open>The gateway\<close>

definition sent_by :: "'e writer_env \<Rightarrow> type_address \<times> pb_message \<Rightarrow> bool" where
  "sent_by env p =
     (message_fits (we_wire env) (st_pool (we_settings env)) (snd p) \<and> ta_type (fst p) = pm_type (snd p) \<and>
      length (ta_src (fst p)) = SOCKADDR_SIZE \<and> length (ta_dst (fst p)) = SOCKADDR_SIZE)"

lemma string_of_size: "stringDelimitedMessage w (ta\<lparr>ta_size := n\<rparr>) m = stringDelimitedMessage w ta m"
  by (simp add: stringDelimitedMessage_def writeDelimitedMessage_def Let_def)

lemma string_nonempty: "length (ta_src ta) = SOCKADDR_SIZE \<Longrightarrow> stringDelimitedMessage w ta m \<noteq> []"
  by (auto simp: stringDelimitedMessage_def writeDelimitedMessage_def Let_def SOCKADDR_SIZE_def)

lemma gateway_body_sent:
  assumes "wire_ok (we_wire env)" "sent_by env (ta, m)" "ok (length (gw_sent s))"
  shows "gateway_body env ok (stringDelimitedMessage (we_wire env) ta m) s =
    Inr (Some (s\<lparr>gw_sent := gw_sent s @ [stringDelimitedMessage (we_wire env) ta m]\<rparr>))"
  using delimited_read_back [OF assms(1), of "st_pool (we_settings env)" m ta "[]" "type_address_new []"] assms(2,3)
    string_nonempty [of ta "we_wire env" m]
  by (simp add: gateway_body_def sent_by_def sendMessage_def string_of_size)

lemma gateway_handle_all:
  assumes "wire_ok (we_wire env)" "\<forall>p \<in> set ps. sent_by env p" "\<forall>k. ok k"
    and "\<forall>p \<in> set ps. int (length (stringDelimitedMessage (we_wire env) (fst p) (snd p))) \<le> n"
  shows "handle_all (in_buffer n (gateway_body env ok))
      (map (\<lambda>(ta, m). stringDelimitedMessage (we_wire env) ta m) ps) s =
    Inr (Some (s\<lparr>gw_sent := gw_sent s @ map (\<lambda>(ta, m). stringDelimitedMessage (we_wire env) ta m) ps\<rparr>))"
  using assms(2,4)
proof (induction ps arbitrary: s)
  case (Cons p ps)
  have "in_buffer n (gateway_body env ok) (stringDelimitedMessage (we_wire env) (fst p) (snd p)) s =
      Inr (Some (s\<lparr>gw_sent := gw_sent s @ [stringDelimitedMessage (we_wire env) (fst p) (snd p)]\<rparr>))"
    using gateway_body_sent [OF assms(1), of "fst p" "snd p" ok s] Cons.prems assms(3) by (simp add: in_buffer_def)
  then show ?case using Cons by (simp add: split_beta)
qed simp

interpretation gateway: bus_client "gateway_open env" "in_buffer n (gateway_body (writer_env.truncate env) (ne_send env))"
    "\<lambda>k s. (close_writer (writer_env.truncate env) k, s)" "\<lambda>s. take (length old) (gw_sent s) = old"
  for env n old
proof
  show "take (length old) (gw_sent s') = old"
    if "gateway_open env k s = Inr (Some (Inr s'))" "take (length old) (gw_sent s) = old" for k s s'
    using that by (auto simp: gateway_open_def split: option.splits if_splits)
  show "take (length old) (gw_sent s') = old"
    if "in_buffer n (gateway_body (writer_env.truncate env) (ne_send env)) msg s = Inr (Some s')"
      "take (length old) (gw_sent s) = old" for msg s s'
    using that
    by (auto simp: in_buffer_def gateway_body_def sendMessage_def intro: take_append_prefix simp del: take_append
        split: if_splits option.splits prod.splits)
qed simp

text \<open>
  C13: The gateway between two buses forwards every message of a known type byte for byte and in
  the order of arrival, also those that come after a request to reload.
\<close>

theorem gateway_forwards_bytes:
  assumes "wire_ok (we_wire env)" "\<forall>p \<in> set (ps @ qs). sent_by (writer_env.truncate env) p" "\<forall>k. ne_send env k"
    and "\<forall>p \<in> set (ps @ qs). int (length (stringDelimitedMessage (we_wire env) (fst p) (snd p)))
      \<le> int (unat (message2gateway_buffer_size cfg))"
    and "\<forall>k s. gateway_open env k s = Inr (Some (Inr s))"
    and "before = map (\<lambda>(ta, m). stringDelimitedMessage (we_wire env) ta m) ps"
    and "after = map (\<lambda>(ta, m). stringDelimitedMessage (we_wire env) ta m) qs"
  shows "gateway_run_socket env cfg (arrived before @ (Some SigHup, Interrupted) # arrived after) s =
    Inr (Some (Waiting (s\<lparr>gw_sent := gw_sent s @ before @ after\<rparr>)))"
proof -
  let ?env = "writer_env.truncate env" and ?n = "int (unat (message2gateway_buffer_size cfg))"
  have w: "we_wire ?env = we_wire env" by (simp add: writer_env.truncate_def)
  have all: "handle_all (in_buffer ?n (gateway_body ?env (ne_send env)))
      (map (\<lambda>(ta, m). stringDelimitedMessage (we_wire env) ta m) l) s =
      Inr (Some (s\<lparr>gw_sent := gw_sent s @ map (\<lambda>(ta, m). stringDelimitedMessage (we_wire env) ta m) l\<rparr>))"
    if "set l \<subseteq> set (ps @ qs)" for l s
    using gateway_handle_all [of ?env l "ne_send env" ?n s] assms(1-4) that unfolding w by blast
  let ?s1 = "s\<lparr>gw_sent := gw_sent s @ before\<rparr>"
  have b: "handle_all (in_buffer ?n (gateway_body ?env (ne_send env))) before s = Inr (Some ?s1)"
    and c: "handle_all (in_buffer ?n (gateway_body ?env (ne_send env))) after ?s1 =
      Inr (Some (?s1\<lparr>gw_sent := gw_sent ?s1 @ after\<rparr>))"
    unfolding assms(6,7) by (rule all, simp)+
  have o: "gateway_open env k s = Inr (Some (Inr s))" for k s using assms(5) by simp
  show ?thesis
    using gateway.run_reloads [OF o b refl] gateway.run_waiting [OF o c] by (simp add: gateway_run_socket_def)
qed

definition example_gateway :: "((string \<times> jsval) list) nano_env" where
  "example_gateway =
     \<lparr>we_wire = example_wire example_message, we_settings = example_settings, we_declarations = example_declarations,
      we_setup = (\<lambda>k. \<lparr>su_socket = True, su_connect = True, su_malloc = True, su_shutdown = 0\<rparr>),
      ne_calls = (\<lambda>k. [True, True]), ne_send = (\<lambda>n. True), ne_stale_eintr = (\<lambda>n. False),
      ne_address = (\<lambda>bs. SockaddrOther), ne_beyond = [], ne_json = (\<lambda>m. Inr [])\<rparr>"

definition example_gateway_config :: message2gateway_config where
  "example_gateway_config =
     \<lparr>message2gateway_proto_path = [], message2gateway_file_name = [], message2gateway_from_stdin = False,
      message2gateway_message_in_url = ''in'', message2gateway_message_out_url = ''out'', message2gateway_retries = 2,
      message2gateway_retry_delay = 0, message2gateway_force_message = [], message2gateway_verbosity = 0,
      message2gateway_daemonize = False, message2gateway_buffer_size = 4096, message2gateway_path = []\<rparr>"

lemma example_sent_by:
  "sent_by (writer_env.truncate example_gateway) (type_address_new ''t'', example_message)"
  using example_fits
  by (simp add: sent_by_def example_gateway_def writer_env.truncate_def example_settings_def) (simp add: example_message_def)

theorem gateway_forwards_bytes_witness:
  "gateway_run_socket example_gateway example_gateway_config
      (arrived [sent_message (example_wire example_message) example_message] @ (Some SigHup, Interrupted) #
       arrived [sent_message (example_wire example_message) example_message]) \<lparr>gw_sent = [], gw_read = 0\<rparr> =
    Inr (Some (Waiting \<lparr>gw_sent = replicate 2 (sent_message (example_wire example_message) example_message), gw_read = 0\<rparr>))"
proof -
  let ?p = "(type_address_new ''t'', example_message)" and ?b = "sent_message (example_wire example_message) example_message"
  have w: "we_wire example_gateway = example_wire example_message" by (simp add: example_gateway_def)
  have b: "[?b] = map (\<lambda>(ta, m). stringDelimitedMessage (we_wire example_gateway) ta m) [?p]"
    by (simp add: w sent_message_def) (simp add: example_message_def)
  have fits: "\<forall>p \<in> set ([?p] @ [?p]). int (length (stringDelimitedMessage (we_wire example_gateway) (fst p) (snd p)))
      \<le> int (unat (message2gateway_buffer_size example_gateway_config))"
    using example_sent_length b by (simp add: example_gateway_config_def)
  have sent: "\<forall>p \<in> set ([?p] @ [?p]). sent_by (writer_env.truncate example_gateway) p" using example_sent_by by simp
  have open_ok: "\<forall>k s. gateway_open example_gateway k s = Inr (Some (Inr s))"
    by (simp add: gateway_open_def example_gateway_def example_declared)
  have send: "\<forall>k. ne_send example_gateway k" by (simp add: example_gateway_def)
  show ?thesis
    using gateway_forwards_bytes [OF example_wire_ok [of example_message, folded w] sent send fits open_ok b b,
        of "\<lparr>gw_sent = [], gw_read = 0\<rparr>"] by (simp add: numeral_2_eq_2)
qed

subsection \<open>Messages from a file\<close>

lemma send_repeatedly:
  assumes "\<forall>k. ok k"
  shows "fold (\<lambda>i s. sendMessage w (ok (length (gw_sent s))) ta m s) [0..<k] s =
    s\<lparr>gw_sent := gw_sent s @ replicate k (stringDelimitedMessage w ta m)\<rparr>"
proof (induction k)
  case (Suc k)
  then show ?case using assms by (simp add: sendMessage_def replicate_app_Cons_same)
qed simp

text \<open>
  A stream of messages is read to its end, and every message is sent as often as the run
  is to be repeated; with the default of no repetition nothing is sent at all.
\<close>

theorem stream_sends_every_message:
  assumes "wire_ok (we_wire env)" "\<forall>p \<in> set ps. sent_by (writer_env.truncate env) p" "\<forall>k. ne_send env k"
    and "fst (readDelimitedMessage (we_wire env) (st_pool (we_settings env)) [] (type_address_new [])) = None"
    and "\<forall>k. \<not> stops k" "length ps < n"
  shows "stream_loop n env retries stops (concat (map (\<lambda>(ta, m). stringDelimitedMessage (we_wire env) ta m) ps)) s =
    Some \<lparr>gw_sent = gw_sent s @
        concat (map (\<lambda>(ta, m). replicate (nat retries) (stringDelimitedMessage (we_wire env) ta m)) ps),
      gw_read = gw_read s + of_nat (length ps)\<rparr>"
  using assms(2,6)
proof (induction ps arbitrary: n s)
  case Nil
  then show ?case using assms(4,5) by (cases n) (auto split: prod.splits)
next
  case (Cons p ps)
  obtain ta m k where p: "p = (ta, m)" "n = Suc k" using Cons.prems(2) by (cases p; cases n) auto
  have "sent_by (writer_env.truncate env) (ta, m)" using Cons.prems(1) p by simp
  then have "readDelimitedMessage (we_wire env) (st_pool (we_settings env))
      (stringDelimitedMessage (we_wire env) ta m @ concat (map (\<lambda>(ta, m). stringDelimitedMessage (we_wire env) ta m) ps))
      (type_address_new []) =
    (Some (m, concat (map (\<lambda>(ta, m). stringDelimitedMessage (we_wire env) ta m) ps)),
     ta\<lparr>ta_size := of_nat (length (w_serialize (we_wire env) m))\<rparr>)"
    using delimited_read_back [OF assms(1)] by (simp add: sent_by_def writer_env.truncate_def)
  then show ?case using Cons p assms(5)
    by (simp add: send_repeatedly [OF assms(3)] string_of_size)
qed

theorem stream_sends_every_message_witness:
  "stream_loop 3 example_gateway 2 (\<lambda>k. False)
      (concat (replicate 2 (sent_message (example_wire example_message) example_message))) \<lparr>gw_sent = [], gw_read = 0\<rparr> =
    Some \<lparr>gw_sent = replicate 4 (sent_message (example_wire example_message) example_message), gw_read = 2\<rparr>"
proof -
  let ?p = "(type_address_new ''t'', example_message)"
  have w: "we_wire example_gateway = example_wire example_message" by (simp add: example_gateway_def)
  have st: "stringDelimitedMessage (we_wire example_gateway) (type_address_new ''t'') example_message =
      sent_message (example_wire example_message) example_message"
    by (simp add: w sent_message_def) (simp add: example_message_def)
  have e: "fst (readDelimitedMessage (we_wire example_gateway) (st_pool (we_settings example_gateway)) [] (type_address_new [])) = None"
    by (simp add: readDelimitedMessage_def decode_def w example_wire_def Let_def split_beta
        getMessageByName_def example_gateway_def example_settings_def example_pool_def getMessageDescriptor_def
        example_declarations_def text_of_bytes_def)
  have sent: "\<forall>p \<in> set [?p, ?p]. sent_by (writer_env.truncate example_gateway) p" using example_sent_by by simp
  have send: "\<forall>k. ne_send example_gateway k" by (simp add: example_gateway_def)
  show ?thesis
    using stream_sends_every_message [OF example_wire_ok [of example_message, folded w] sent send e, of "\<lambda>k. False" 3 2
        "\<lparr>gw_sent = [], gw_read = 0\<rparr>"] by (simp add: st numeral_eq_Suc)
qed

subsection \<open>The watcher\<close>

lemma split_from_nonempty: "item \<noteq> [] \<or> cs \<noteq> [] \<Longrightarrow> split_from d item cs \<noteq> []"
  by (induction d item cs rule: split_from.induct) auto

lemma split_from_two: "ys \<noteq> [] \<Longrightarrow> 2 \<le> length (split_from d item (xs @ d # ys))"
proof (induction xs arbitrary: item)
  case Nil
  then show ?case using split_from_nonempty [of "[]" ys d] by (cases "split_from d [] ys") auto
next
  case (Cons x xs)
  have "1 \<le> length (split_from d [] (xs @ d # ys))" using Cons.IH [of "[]"] Cons.prems by simp
  then show ?case using Cons by simp
qed

lemma atoll_dec_str: "int n \<le> LONG_MAX \<Longrightarrow> atoll (dec_str n) = int n"
  using sign_of_int_str [of "int n"] base_digits_dec_str [of n]
  by (simp add: atoll_def strtol_def int_str_def)

lemma no_tab: "CHR 0x09 \<notin> set (dec_str n)"
  using dec_str_digits [of n] by (auto simp: list_all_iff is_digit_def)

lemma no_tab_int: "CHR 0x09 \<notin> set (int_str i)"
  using no_tab by (simp add: int_str_def)

lemma split_control_line:
  "\<exists>rest. split (control_line st typ sz msg data) (CHR 0x09) =
      [dec_str (unat (ns_session st)), dec_str (unat (ns_in st)), dec_str (unat (ns_out st)), int_str typ, int_str sz] @ rest \<and>
    2 \<le> length rest"
proof -
  let ?rest = "split_from (CHR 0x09) [] (msg @ CHR 0x09 # data @ endl)"
  have "split (control_line st typ sz msg data) (CHR 0x09) =
      [dec_str (unat (ns_session st)), dec_str (unat (ns_in st)), dec_str (unat (ns_out st)), int_str typ, int_str sz] @ ?rest"
    by (simp add: split_def control_line_def tab_def split_from_field no_tab no_tab_int)
  moreover have "2 \<le> length ?rest" by (rule split_from_two) (simp add: endl_def)
  ultimately show ?thesis by blast
qed

text \<open>
  For every line of the receiver the watcher prints the two counters of the receiver,
  whatever the text and the data behind them hold.
\<close>

theorem watcher_prints_counters:
  assumes "int (unat (ns_in st)) \<le> LONG_MAX" "int (unat (ns_out st)) \<le> LONG_MAX"
  shows "check_body (bytes_of_text (control_line st typ sz msg data)) out =
    Inr (Some (out @ dec_str (unat (ns_in st)) @ ''/'' @ dec_str (unat (ns_out st)) @ endl))"
proof -
  obtain rest where r: "split (control_line st typ sz msg data) (CHR 0x09) =
      [dec_str (unat (ns_session st)), dec_str (unat (ns_in st)), dec_str (unat (ns_out st)), int_str typ, int_str sz] @ rest"
    and "2 \<le> length rest" using split_control_line by blast
  then obtain a b rest' where rest: "rest = a # b # rest'" by (cases rest; cases "tl rest") auto
  show ?thesis using assms
    by (simp add: check_body_def r rest elem_at_def atoll_dec_str Let_def)
qed

theorem watcher_prints_counters_witness:
  "check_body (bytes_of_text (control_line \<lparr>ns_session = 4, ns_in = 3, ns_out = 2, ns_cache = no_cache, ns_control = [],
      ns_dump = [], ns_sent = []\<rparr> 2 (- 1) CONTROL_TYP_ERROR [])) [] = Inr (Some (''3/2'' @ endl))"
proof -
  have "dec_str 3 = ''3''" "dec_str 2 = ''2''" by code_simp+
  then show ?thesis
    using watcher_prints_counters [of "\<lparr>ns_session = 4, ns_in = 3, ns_out = 2, ns_cache = no_cache, ns_control = [],
      ns_dump = [], ns_sent = []\<rparr>" 2 "- 1" CONTROL_TYP_ERROR "[]" "[]"] by (simp add: LONG_MAX_def)
qed

interpretation watcher: bus_client "check_open su" "in_buffer 4096 check_body"
    "\<lambda>k s. (if su_shutdown (su k) \<noteq> 0 then - 20 else 0, s)" "\<lambda>out. take (length old) out = old"
  for su old
proof
  show "take (length old) s' = old" if "check_open su k s = Inr (Some (Inr s'))" "take (length old) s = old" for k s s'
    using that by (auto simp: check_open_def split: option.splits)
  show "take (length old) s' = old"
    if "in_buffer 4096 check_body msg s = Inr (Some s')" "take (length old) s = old" for msg s s'
    using that by (auto simp: in_buffer_def check_body_def Let_def intro: take_append_prefix simp del: take_append split: if_splits)
qed simp

end
