(* ===== verification/FcmWriter.thy ===== *)
theory FcmWriter
  imports PqWriter PbJson SheetSession ArgTable
begin

section \<open>Notifications of mobile devices\<close>

text \<open>
  fcm-writer.cpp and helper_fcm.cpp: a message is pushed to the devices that are registered for
  the IMEI in one of its fields. The server of the notifications answers every request; what is
  sent is remembered.
\<close>

subsection \<open>Pushing\<close>

record push_request =
  pr_url :: string
  pr_serverkey :: string
  pr_body :: string

type_synonym push_server = "nat \<Rightarrow> push_request \<Rightarrow> reply"

definition request_body :: "string \<Rightarrow> string \<Rightarrow> int \<Rightarrow> string \<Rightarrow> string" where
  "request_body client_token name tz data =
     ''{'' @ dquote @ ''to'' @ dquote @ '': '' @ dquote @ client_token @ dquote @ '','' @ dquote @ ''data'' @ dquote @ '':{''
     @ dquote @ ''hex'' @ dquote @ '': '' @ dquote @ data
     @ dquote @ ''tz'' @ dquote @ '': '' @ int_str tz
     @ '', '' @ dquote @ ''name'' @ dquote @ '':'' @ dquote @ name @ dquote @ ''}}''"

definition push2instance ::
  "push_server \<Rightarrow> (int \<Rightarrow> string) \<Rightarrow> string \<Rightarrow> string \<Rightarrow> string \<Rightarrow> string \<Rightarrow> string \<Rightarrow> int \<Rightarrow> string
   \<Rightarrow> push_request list \<Rightarrow> (int \<times> string) \<times> push_request list" where
  "push2instance srv strerror retval url serverkey client_token name tz data pushes =
     (let rq = \<lparr>pr_url = url, pr_serverkey = serverkey, pr_body = request_body client_token name tz data\<rparr>
      in ((case srv (length pushes) rq of
             NoHandle \<Rightarrow> (CURLE_FAILED_INIT, retval)
           | CurlFailure res \<Rightarrow> (- int res, strerror (int res))
           | HttpReply http_code body \<Rightarrow> (http_code, retval @ body)),
          (if srv (length pushes) rq = NoHandle then pushes else pushes @ [rq])))"

text \<open>The loops over the tokens end with the first answer that is no success.\<close>

definition pushed :: "int \<Rightarrow> bool" where
  "pushed c = (200 \<le> c \<and> c \<le> 299)"

subsection \<open>The database of devices\<close>

definition strtoull10 :: "string \<Rightarrow> u64" where
  "strtoull10 s =
     (let (neg, r) = sign_of s; v = fst (base_digits 10 0 r)
      in if 2 ^ 64 \<le> v then - 1 else if neg then - of_nat v else of_nat v)"

text \<open>A time zone in hours, minutes or seconds.\<close>

definition time_zone_secs :: "string \<Rightarrow> int" where
  "time_zone_secs v =
     (let t = sint (strtoull10 v)
      in if \<bar>t\<bar> < 23 then t * 3600 else if \<bar>t\<bar> < 1400 then t * 60 else t)"

definition cell :: "string list \<Rightarrow> nat \<Rightarrow> string" where
  "cell row i = (if i < length row then row ! i else [])"

text \<open>A statement that fails gives its error code for the time zone.\<close>

definition getDeviceTimeZone :: "'d pg \<Rightarrow> PGConfig \<Rightarrow> string \<Rightarrow> int \<Rightarrow> 'd \<Rightarrow> int \<times> 'd" where
  "getDeviceTimeZone lib config imei defaultTimeZoneSecs d =
     (if imei = [] then (defaultTimeZoneSecs, d)
      else let (ok, d1) = dbconnect lib config d
           in if \<not> ok then (defaultTimeZoneSecs, d1)
              else let (ok, d2) = checked_exec lib ''BEGIN'' d1
                   in if \<not> ok then (- 40, PQfinish lib d2)
                      else let (res, d3) = PQexec lib (''SELECT tz FROM device WHERE d_imei = '' @ squote @ imei @ squote) d2
                           in (case res of
                                 PGRES_TUPLES_OK rows \<Rightarrow>
                                   (let t = (case rows of [] \<Rightarrow> defaultTimeZoneSecs | row # _ \<Rightarrow> time_zone_secs (cell row 0));
                                        (ok, d4) = checked_exec lib ''END'' d3
                                    in (if ok then wrap32 t else - 40, PQfinish lib d4))
                               | _ \<Rightarrow> (defaultTimeZoneSecs, PQfinish lib d3)))"

definition subscribers_query :: "string \<Rightarrow> string" where
  "subscribers_query imei =
     ''SELECT dev.instance, device_description.device_name FROM device_description, dev WHERE dev.userid = device_description.owner ''
     @ [CHR 0x09] @ ''AND device_description.current = '' @ squote @ ''t'' @ squote
     @ '' AND device_description.imei = '' @ squote @ imei @ squote"

text \<open>The tokens and names of the devices that get the messages of an IMEI.\<close>

definition read_subscribers :: "'d pg \<Rightarrow> PGConfig \<Rightarrow> string \<Rightarrow> 'd \<Rightarrow> int \<times> (string \<times> string) list \<times> 'd" where
  "read_subscribers lib config imei d =
     (let (ok, d1) = dbconnect lib config d
      in if \<not> ok then (- 39, [], d1)
         else let (ok, d2) = checked_exec lib ''BEGIN'' d1
              in if \<not> ok then (- 40, [], PQfinish lib d2)
                 else let (res, d3) = PQexec lib (subscribers_query imei) d2
                      in (case res of
                            PGRES_TUPLES_OK rows \<Rightarrow>
                              (let tokens = map (\<lambda>row. (cell row 0, cell row 1)) rows;
                                   (ok, d4) = checked_exec lib ''END'' d3
                               in (if ok then 0 else - 40, tokens, PQfinish lib d4))
                          | _ \<Rightarrow> (- 40, [], PQfinish lib d3)))"

definition getTokenNNameList ::
  "'e settings \<Rightarrow> 'd pg \<Rightarrow> handler_fcm_config \<Rightarrow> cache \<Rightarrow> string \<Rightarrow> pb_message \<Rightarrow> 'd
   \<Rightarrow> (int \<times> (string \<times> string) list \<times> 'd \<times> cache) option result" where
  "getTokenNNameList st lib cfg c t m d =
     (case index_strings_quoted c t dquote dquote of (vals, c') \<Rightarrow>
        bindF (fill_values st c' t m vals) (\<lambda>vals'.
        bindR (findByLastName vals' (handler_fcm_imei_field_name cfg)) (\<lambda>imei.
          if imei = [] then Inr (Some (0, [], d, c'))
          else let (r, tokens, d') = read_subscribers lib (handler_fcm_pgconnect cfg) imei d
               in Inr (Some (r, tokens, d', c')))))"

subsection \<open>Pushing a message\<close>

definition DEF_TIME_ZONE_SECS :: int where "DEF_TIME_ZONE_SECS = 9 * 3600"

record push_env =
  pe_server :: push_server
  pe_strerror :: "int \<Rightarrow> string"
  pe_json :: json_library
  pe_writer :: "json \<Rightarrow> string"

text \<open>The time zone is asked for with the token of the device, where an IMEI is expected.\<close>

fun push_all ::
  "push_env \<Rightarrow> 'd pg \<Rightarrow> handler_fcm_config \<Rightarrow> string \<Rightarrow> (string \<times> string) list \<Rightarrow> int \<Rightarrow> 'd \<Rightarrow> push_request list
   \<Rightarrow> int \<times> 'd \<times> push_request list" where
  "push_all pe lib cfg s [] c d pushes = (c, d, pushes)"
| "push_all pe lib cfg s ((token_of, name) # tokens) c d pushes =
     (let (tz, d') = getDeviceTimeZone lib (handler_fcm_pgconnect cfg) token_of DEF_TIME_ZONE_SECS d;
          ((c', r), pushes') = push2instance (pe_server pe) (pe_strerror pe) [] (handler_fcm_fburl cfg)
            (handler_fcm_server_key cfg) token_of name tz s pushes
      in if pushed c' then push_all pe lib cfg s tokens c' d' pushes' else (c', d', pushes'))"

record 'd fcm_state =
  fs_db :: 'd
  fs_pushes :: "push_request list"
  fs_cache :: cache

definition fcm_put ::
  "push_env \<Rightarrow> 'd pg \<Rightarrow> 'e writer_env \<Rightarrow> handler_fcm_config \<Rightarrow> string \<Rightarrow> pb_message \<Rightarrow> 'd fcm_state
   \<Rightarrow> (int \<times> 'd fcm_state) option result" where
  "fcm_put pe lib env cfg t m s =
     bindF (getTokenNNameList (we_settings env) lib cfg (fs_cache s) t m (fs_db s)) (\<lambda>(r, tokens, d, c).
       if r \<noteq> 0 then Inr (Some (- 60, s\<lparr>fs_db := d, fs_cache := c\<rparr>))
       else bindR (pb2json (pe_json pe) (pe_writer pe) (st_pool (we_settings env)) m []) (\<lambda>text.
         let (code, d', pushes) = push_all pe lib cfg text tokens 200 d (fs_pushes s)
         in Inr (Some (if pushed code then 0 else - 61, \<lparr>fs_db = d', fs_pushes = pushes, fs_cache = c\<rparr>))))"

subsection \<open>The run\<close>

definition fcm_open :: "'e writer_env \<Rightarrow> nat \<Rightarrow> 'd fcm_state \<Rightarrow> (int + 'd fcm_state) option result" where
  "fcm_open env k s =
     bindF (open_writer env (- 19) k) (\<lambda>r. Inr (Some (map_sum id (\<lambda>c. s\<lparr>fs_cache := c\<rparr>) r)))"

definition fcm_body ::
  "push_env \<Rightarrow> 'd pg \<Rightarrow> 'e writer_env \<Rightarrow> handler_fcm_config \<Rightarrow> bytes \<Rightarrow> 'd fcm_state \<Rightarrow> 'd fcm_state option result" where
  "fcm_body pe lib env cfg =
     in_buffer (handler_fcm_buffer_size cfg)
       (writer_body env (handler_fcm_allowed_messages cfg)
         (\<lambda>msg t m s. bindF (fcm_put pe lib env cfg t m s) (\<lambda>(r, s'). Inr (Some s'))))"

text \<open>The format number of the configuration is not used: the one of the formats stays.\<close>

definition fcm_env :: "'e writer_env \<Rightarrow> 'e writer_env" where
  "fcm_env env = env\<lparr>we_settings := (we_settings env)\<lparr>st_format_number := format_number_initial\<rparr>\<rparr>"

definition fcm_run ::
  "push_env \<Rightarrow> 'd pg \<Rightarrow> 'e writer_env \<Rightarrow> handler_fcm_config \<Rightarrow> arrival list \<Rightarrow> 'd fcm_state
   \<Rightarrow> 'd fcm_state outcome option result" where
  "fcm_run pe lib env cfg as s =
     (let e = fcm_env env
      in run_sessions True (fcm_open e) (recv_step True (fcm_body pe lib e cfg)) (\<lambda>k s. (close_writer e k, s)) 0 as s)"

section \<open>What is pushed\<close>

definition push_of :: "handler_fcm_config \<Rightarrow> string \<Rightarrow> (string \<times> string) \<times> int \<Rightarrow> push_request" where
  "push_of cfg s p =
     \<lparr>pr_url = handler_fcm_fburl cfg, pr_serverkey = handler_fcm_server_key cfg,
      pr_body = request_body (fst (fst p)) (snd (fst p)) (snd p) s\<rparr>"

text \<open>
  A server accepts a request with an answer between 200 and 299. Requests that are made one after
  the other until one is not accepted: the first \<open>k\<close> are accepted, the next is not; what is sent
  are those and the one that was refused, which never leaves the program where curl gives no handle.
\<close>

definition accepts :: "push_server \<Rightarrow> nat \<Rightarrow> push_request \<Rightarrow> bool" where
  "accepts srv n rq = (case srv n rq of HttpReply http_code body \<Rightarrow> pushed http_code | _ \<Rightarrow> False)"

definition until_refused :: "push_server \<Rightarrow> nat \<Rightarrow> push_request list \<Rightarrow> nat \<Rightarrow> push_request list \<Rightarrow> bool" where
  "until_refused srv n rqs k out =
     (k \<le> length rqs \<and> (\<forall>i<k. accepts srv (n + i) (rqs ! i)) \<and>
      (if k < length rqs
       then \<not> accepts srv (n + k) (rqs ! k) \<and> out = take (if srv (n + k) (rqs ! k) = NoHandle then k else Suc k) rqs
       else out = rqs))"

lemma until_refused_Nil: "until_refused srv n [] 0 []"
  by (simp add: until_refused_def)

lemma until_refused_next:
  "accepts srv n rq \<Longrightarrow> until_refused srv (Suc n) rqs k out \<Longrightarrow> until_refused srv n (rq # rqs) (Suc k) (rq # out)"
  by (auto simp: until_refused_def less_Suc_eq_0_disj split: if_splits)

lemma until_refused_last:
  "\<not> accepts srv n rq \<Longrightarrow> until_refused srv n (rq # rqs) 0 (if srv n rq = NoHandle then [] else [rq])"
  by (simp add: until_refused_def)

lemma push2instance_answer:
  assumes "push2instance srv strerror retval url key tok name tz data pushes = ((c, r), pushes')"
    and "rq = \<lparr>pr_url = url, pr_serverkey = key, pr_body = request_body tok name tz data\<rparr>"
  shows "pushed c \<longleftrightarrow> accepts srv (length pushes) rq"
    and "pushes' = pushes @ (if srv (length pushes) rq = NoHandle then [] else [rq])"
  using assms
  by (auto simp: push2instance_def accepts_def pushed_def CURLE_FAILED_INIT_def Let_def split: reply.splits if_splits)

lemma push_all_pushes:
  "push_all pe lib cfg s tokens c d pushes = (c', d', pushes') \<Longrightarrow> pushed c \<Longrightarrow>
   \<exists>tzs k out. length tzs = length tokens \<and> pushes' = pushes @ out \<and> (pushed c' \<longleftrightarrow> k = length tokens) \<and>
     until_refused (pe_server pe) (length pushes) (map (push_of cfg s) (zip tokens tzs)) k out"
proof (induction tokens arbitrary: c d pushes)
  case Nil
  then show ?case using until_refused_Nil by auto
next
  case (Cons p tokens)
  obtain tok name where p: "p = (tok, name)" by fastforce
  obtain tz d1 where tz: "getDeviceTimeZone lib (handler_fcm_pgconnect cfg) tok DEF_TIME_ZONE_SECS d = (tz, d1)" by fastforce
  obtain c1 r pushes1 where push: "push2instance (pe_server pe) (pe_strerror pe) [] (handler_fcm_fburl cfg)
      (handler_fcm_server_key cfg) tok name tz s pushes = ((c1, r), pushes1)" by (metis prod.collapse)
  let ?rq = "push_of cfg s (p, tz)"
  have "?rq = \<lparr>pr_url = handler_fcm_fburl cfg, pr_serverkey = handler_fcm_server_key cfg, pr_body = request_body tok name tz s\<rparr>"
    by (simp add: push_of_def p)
  note a = push2instance_answer [OF push this]
  show ?case
  proof (cases "pushed c1")
    case True
    then have ok: "accepts (pe_server pe) (length pushes) ?rq" "pushes1 = pushes @ [?rq]"
      using a by (auto simp: accepts_def split: if_splits)
    have "push_all pe lib cfg s tokens c1 d1 pushes1 = (c', d', pushes')"
      using Cons.prems(1) tz push p True by simp
    from Cons.IH [OF this True] obtain tzs k out where
      "length tzs = length tokens" "pushes' = pushes1 @ out" "pushed c' \<longleftrightarrow> k = length tokens"
      "until_refused (pe_server pe) (length pushes1) (map (push_of cfg s) (zip tokens tzs)) k out" by blast
    then show ?thesis using ok until_refused_next [OF ok(1)]
      by (intro exI [of _ "tz # tzs"] exI [of _ "Suc k"] exI [of _ "?rq # out"]) simp
  next
    case False
    then have "pushes' = pushes1" "c' = c1" using Cons.prems(1) tz push p by simp_all
    then show ?thesis using a False until_refused_last [of "pe_server pe" "length pushes" ?rq]
      by (intro exI [of _ "tz # replicate (length tokens) 0"] exI [of _ 0]
          exI [of _ "if pe_server pe (length pushes) ?rq = NoHandle then [] else [?rq]"]) simp
  qed
qed

lemma fcm_put_pushes:
  assumes "fcm_put pe lib env cfg t m s = Inr (Some (code, s'))"
  shows "\<exists>new. fs_pushes s' = fs_pushes s @ new"
proof -
  have "fs_pushes s' = fs_pushes s \<or>
      (\<exists>text tokens d. fs_pushes s' = snd (snd (push_all pe lib cfg text tokens 200 d (fs_pushes s))))"
    using assms by (auto simp: fcm_put_def Let_def split_beta split: if_splits) fastforce+
  moreover have "\<exists>new. snd (snd (push_all pe lib cfg js tokens 200 d (fs_pushes s))) = fs_pushes s @ new" for js tokens d
    using push_all_pushes [of pe lib cfg js tokens 200 d "fs_pushes s"]
    by (cases "push_all pe lib cfg js tokens 200 d (fs_pushes s)") (auto simp: pushed_def)
  ultimately show ?thesis by auto
qed

text \<open>What was pushed stays pushed.\<close>

interpretation fcm_client: bus_client "fcm_open env" "fcm_body pe lib env cfg" "\<lambda>k s. (close_writer env k, s)"
    "\<lambda>s. take (length old) (fs_pushes s) = old"
  for env pe lib cfg old
proof
  show "take (length old) (fs_pushes s') = old"
    if "fcm_open env k s = Inr (Some (Inr s'))" "take (length old) (fs_pushes s) = old" for k s s'
    using that by (auto simp: fcm_open_def map_sum_Inr)
  show "take (length old) (fs_pushes s') = old"
    if b: "fcm_body pe lib env cfg msg s = Inr (Some s')" and i: "take (length old) (fs_pushes s) = old" for msg s s'
  proof -
    have "s' = s \<or> (\<exists>t m r. fcm_put pe lib env cfg t m s = Inr (Some (r, s')))"
      using b by (auto simp: fcm_body_def in_buffer_def writer_body_def split: if_splits option.splits prod.splits)
    then have "\<exists>new. fs_pushes s' = fs_pushes s @ new" using fcm_put_pushes by fastforce
    then show ?thesis using i take_append_prefix [of old "fs_pushes s"] by auto
  qed
qed simp

text \<open>
  C11: A message whose IMEI has devices is pushed to them in the order of the rows, each request
  with the token and the name of its row and with the JSON text of the message, until the server
  answers a request with something else than 200 to 299: that request is the last, and the result
  is -61; it is 0 if and only if the server accepted a request for every row.
\<close>

theorem message_is_pushed_to_devices:
  assumes "getTokenNNameList (we_settings env) lib cfg (fs_cache s) t m (fs_db s) = Inr (Some (0, tokens, d, c))"
    and "pb2json (pe_json pe) (pe_writer pe) (st_pool (we_settings env)) m [] = Inr text"
  shows "\<exists>s' tzs k out. fcm_put pe lib env cfg t m s = Inr (Some (if k = length tokens then 0 else - 61, s')) \<and>
    length tzs = length tokens \<and> fs_pushes s' = fs_pushes s @ out \<and>
    until_refused (pe_server pe) (length (fs_pushes s)) (map (push_of cfg text) (zip tokens tzs)) k out"
proof -
  obtain c' d' pushes' where p: "push_all pe lib cfg text tokens 200 d (fs_pushes s) = (c', d', pushes')"
    by (metis prod.collapse)
  have "pushed 200" by (simp add: pushed_def)
  from push_all_pushes [OF p this] obtain tzs k out where "length tzs = length tokens" "pushes' = fs_pushes s @ out"
    "pushed c' \<longleftrightarrow> k = length tokens"
    "until_refused (pe_server pe) (length (fs_pushes s)) (map (push_of cfg text) (zip tokens tzs)) k out" by blast
  then show ?thesis using assms p
    by (intro exI [of _ "\<lparr>fs_db = d', fs_pushes = pushes', fs_cache = c\<rparr>"] exI [of _ tzs] exI [of _ k] exI [of _ out])
       (simp add: fcm_put_def)
qed

text \<open>The body of a request is no JSON: a quote and a comma are missing after the data.\<close>

lemma request_body_is_no_json:
  "json_parse dt (request_body ''t'' ''n'' 1 ''0f'') = Inr None"
  by code_simp

subsection \<open>An example\<close>

definition example_devices :: "unit pg" where
  "example_devices =
     \<lparr>PQconnectdb = (\<lambda>s d. (True, d)), PQsetdbLogin = (\<lambda>l d. (True, d)),
      PQexec = (\<lambda>s d. (if s = ''BEGIN'' \<or> s = ''END'' then PGRES_COMMAND_OK
                       else PGRES_TUPLES_OK [[''1'', ''roof'']], d)),
      PQfinish = (\<lambda>d. d)\<rparr>"

definition example_fcm_config :: handler_fcm_config where
  "example_fcm_config =
     \<lparr>handler_fcm_proto_path = [], handler_fcm_message_url = [], handler_fcm_allowed_messages = [],
      handler_fcm_retries = 0, handler_fcm_retry_delay = 60, handler_fcm_verbosity = 0,
      handler_fcm_daemonize = False, handler_fcm_server_key = ''key'', handler_fcm_imei_field_name = ''t.'',
      handler_fcm_pgconnect = handlerpq_pgconnect example_pq_config, handler_fcm_buffer_size = 4096,
      handler_fcm_format_number = 0, handler_fcm_path = [], handler_fcm_fburl = ''url''\<rparr>"

lemma example_tokens:
  "case getTokenNNameList example_settings example_devices example_fcm_config example_cache_value ''t'' example_message () of
     Inr (Some (r, tokens, d, c)) \<Rightarrow> r = 0 \<and> tokens = [(''1'', ''roof'')] | _ \<Rightarrow> False"
  by code_simp

definition example_push_env :: push_env where
  "example_push_env =
     \<lparr>pe_server = (\<lambda>n rq. HttpReply 200 ''ok''), pe_strerror = (\<lambda>n. ''error''),
      pe_json = \<lparr>enum_number = (\<lambda>fd w. True), enum_name = (\<lambda>fd s. None), widen = (\<lambda>w. ucast w),
        narrow = (\<lambda>w. ucast w), double_of_int = (\<lambda>i. of_int i)\<rparr>,
      pe_writer = (\<lambda>j. ''json'')\<rparr>"

lemma example_json:
  "case pb2json (pe_json example_push_env) (pe_writer example_push_env) example_pool example_message [] of
     Inr js \<Rightarrow> js = ''json'' | Inl e \<Rightarrow> False"
  by code_simp

text \<open>A house with three devices, and a server that refuses the second request.\<close>

definition example_house :: "unit pg" where
  "example_house = example_devices\<lparr>PQexec := (\<lambda>s d. (if s = ''BEGIN'' \<or> s = ''END'' then PGRES_COMMAND_OK
     else PGRES_TUPLES_OK [[''1'', ''roof''], [''2'', ''hall''], [''3'', ''cellar'']], d))\<rparr>"

definition example_refusing :: push_env where
  "example_refusing = example_push_env\<lparr>pe_server := (\<lambda>n rq. HttpReply (if n = 1 then 404 else 200) [])\<rparr>"

lemma house_tokens:
  "case getTokenNNameList example_settings example_house example_fcm_config example_cache_value ''t'' example_message () of
     Inr (Some (r, tokens, d, c)) \<Rightarrow> r = 0 \<and> tokens = [(''1'', ''roof''), (''2'', ''hall''), (''3'', ''cellar'')] | _ \<Rightarrow> False"
  by code_simp

theorem message_is_pushed_to_devices_witness:
  "\<exists>s' tz1 tz2. fcm_put example_refusing example_house example_writer example_fcm_config ''t'' example_message
      \<lparr>fs_db = (), fs_pushes = [], fs_cache = example_cache_value\<rparr> = Inr (Some (- 61, s')) \<and>
    fs_pushes s' =
      [\<lparr>pr_url = ''url'', pr_serverkey = ''key'', pr_body = request_body ''1'' ''roof'' tz1 ''json''\<rparr>,
       \<lparr>pr_url = ''url'', pr_serverkey = ''key'', pr_body = request_body ''2'' ''hall'' tz2 ''json''\<rparr>]"
proof -
  let ?s = "\<lparr>fs_db = (), fs_pushes = [], fs_cache = example_cache_value\<rparr>"
  let ?ts = "[(''1'', ''roof''), (''2'', ''hall''), (''3'', ''cellar'')]"
  let ?rqs = "\<lambda>tzs. map (push_of example_fcm_config ''json'') (zip ?ts tzs)"
  obtain c where "getTokenNNameList example_settings example_house example_fcm_config example_cache_value
      ''t'' example_message () = Inr (Some (0, ?ts, (), c))"
    using house_tokens by (auto split: sum.splits option.splits prod.splits)
  then have tok: "getTokenNNameList (we_settings example_writer) example_house example_fcm_config (fs_cache ?s)
      ''t'' example_message (fs_db ?s) = Inr (Some (0, ?ts, (), c))"
    by (simp add: example_writer_def)
  have js: "pb2json (pe_json example_refusing) (pe_writer example_refusing) (st_pool (we_settings example_writer))
      example_message [] = Inr ''json''"
    using example_json by (auto simp: example_writer_def example_settings_def example_refusing_def split: sum.splits)
  obtain s' tzs k out where r: "fcm_put example_refusing example_house example_writer example_fcm_config ''t''
      example_message ?s = Inr (Some (if k = length ?ts then 0 else - 61, s'))"
    and n: "length tzs = length ?ts" and p: "fs_pushes s' = out" and u: "until_refused (pe_server example_refusing) 0 (?rqs tzs) k out"
    using message_is_pushed_to_devices [OF tok js] by auto
  have acc: "accepts (pe_server example_refusing) i rq \<longleftrightarrow> i \<noteq> 1" "pe_server example_refusing i rq \<noteq> NoHandle" for i rq
    by (simp_all add: accepts_def example_refusing_def pushed_def)
  have "k = 1"
    using u n by (auto simp: until_refused_def acc split: if_splits)
  moreover obtain tz1 tz2 tz3 where "tzs = [tz1, tz2, tz3]" using n by (auto simp: length_Suc_conv)
  ultimately have "out = take 2 (?rqs [tz1, tz2, tz3])" "k = 1" using u by (simp_all add: until_refused_def acc numeral_2_eq_2)
  then show ?thesis using r p
    by (intro exI [of _ s'] exI [of _ tz1] exI [of _ tz2]) (simp add: push_of_def example_fcm_config_def)
qed

end
