(* ===== verification/Dumpers.thy ===== *)
theory Dumpers
  imports FcmWriter NanoPacket
begin

section \<open>Dumping packets\<close>

text \<open>
  pqdumper.cpp writes every packet of the dump bus into a table, fcmdumper.cpp pushes it to the
  devices that are registered for the IMEI in it. Both keep the buffer of the bus: with a size it
  is the same for all packets, without one it is the packet.
\<close>

record 'd dump_state =
  ds_db :: 'd
  ds_buffer :: bytes
  ds_pushes :: "push_request list"

definition fill_buffer :: "int \<Rightarrow> bytes \<Rightarrow> 'd dump_state \<Rightarrow> 'd dump_state" where
  "fill_buffer buffer_size msg s =
     s\<lparr>ds_buffer := (if 0 < buffer_size then take (nat buffer_size) msg @ drop (length msg) (ds_buffer s) else msg)\<rparr>"

text \<open>
  The body of both loops: a packet that is too short is skipped, one that is longer than the
  buffer is read past its end.
\<close>

definition dump_body ::
  "int \<Rightarrow> (nat \<Rightarrow> 'd dump_state \<Rightarrow> 'd dump_state option result) \<Rightarrow> bytes \<Rightarrow> 'd dump_state \<Rightarrow> 'd dump_state option result" where
  "dump_body buffer_size handle msg s =
     (let s' = fill_buffer buffer_size msg s
      in if getPayloadSize (wrap32 (int (length msg))) < 0 then Inr (Some s')
         else if 0 < buffer_size \<and> buffer_size < int (length msg) then Inl OutOfBounds
         else handle (length msg) s')"

definition packet_data :: "nat \<Rightarrow> bytes \<Rightarrow> bytes" where
  "packet_data n buffer = take (n - data_offset) (drop data_offset buffer)"

definition dump_open :: "(nat \<Rightarrow> bus_setup) \<Rightarrow> int \<Rightarrow> (nat \<Rightarrow> bytes) \<Rightarrow> nat \<Rightarrow> 'd dump_state \<Rightarrow> (int + 'd dump_state) option result" where
  "dump_open su buffer_size memory k s =
     (if \<not> su_socket (su k) then Inr (Some (Inl (- 19)))
      else if \<not> su_connect (su k) then Inr (Some (Inl (- 17)))
      else if 0 < buffer_size
      then if \<not> su_malloc (su k) then Inr (Some (Inl (- 29)))
           else Inr (Some (Inr (s\<lparr>ds_buffer := take (nat buffer_size) (memory k @ replicate (nat buffer_size) 0)\<rparr>)))
      else Inr (Some (Inr s)))"

subsection \<open>Into a table\<close>

definition SQL_POSTGRESQL_CREATE :: string where
  "SQL_POSTGRESQL_CREATE =
     ''CREATE TABLE packet (id BIGSERIAL PRIMARY KEY, tag INTEGER NOT NULL, '' @ [CHR 0x09]
     @ ''time TIMESTAMP WITH TIME ZONE NOT NULL, value TEXT NOT NULL, '' @ [CHR 0x09]
     @ ''src VARCHAR(16), srcport INTEGER, dst VARCHAR(16), dstport INTEGER);''"

definition SQL_POSTGRESQL_INSERT_PREFIX :: string where
  "SQL_POSTGRESQL_INSERT_PREFIX =
     ''INSERT INTO '' @ dquote @ ''packet'' @ dquote @ '' (tag, time, '' @ [CHR 0x09]
     @ ''value, src, srcport, dst, dstport) VALUES(0, now(), ''"

text \<open>A statement without a transaction.\<close>

definition exec_statement :: "'d pg \<Rightarrow> PGConfig \<Rightarrow> string \<Rightarrow> 'd \<Rightarrow> int \<times> 'd" where
  "exec_statement lib config stmt d =
     (let (ok, d') = dbconnect lib config d
      in if \<not> ok then (- 39, d')
         else let (ok, d'') = checked_exec lib stmt d' in (if ok then 0 else - 40, PQfinish lib d''))"

definition inet_ntoa :: "bytes \<Rightarrow> string" where
  "inet_ntoa a = join_with (CHR ''.'') (map (\<lambda>b. dec_str (unat b)) a)"

text \<open>The address and the port of a sockaddr_in at an offset of the buffer.\<close>

definition sockaddr_in_at :: "bytes \<Rightarrow> nat \<Rightarrow> (string \<times> nat) result" where
  "sockaddr_in_at buffer offset =
     (if length buffer < offset + 8 then Inl OutOfBounds
      else Inr (inet_ntoa (take 4 (drop (offset + 4) buffer)),
                256 * unat (buffer ! (offset + 2)) + unat (buffer ! (offset + 3))))"

definition dump_statement :: "nat \<Rightarrow> bytes \<Rightarrow> string result" where
  "dump_statement n buffer =
     bindR (sockaddr_in_at buffer socket_addr_src) (\<lambda>(src, srcport).
     bindR (sockaddr_in_at buffer socket_addr_dst) (\<lambda>(dst, dstport).
       Inr (SQL_POSTGRESQL_INSERT_PREFIX @ squote @ hexString (packet_data n buffer) @ squote @ '', '' @ squote
            @ src @ squote @ '', '' @ dec_str srcport @ '', '' @ squote @ dst @ squote @ '', '' @ dec_str dstport @ '');'')))"

definition pq_dump :: "'d pg \<Rightarrow> pkt2dumppq_config \<Rightarrow> nat \<Rightarrow> 'd dump_state \<Rightarrow> 'd dump_state option result" where
  "pq_dump lib cfg n s =
     bindR (dump_statement n (ds_buffer s)) (\<lambda>stmt.
       let (r, d) = exec_statement lib (pkt2dumppq_pgconnect cfg) stmt (ds_db s) in Inr (Some (s\<lparr>ds_db := d\<rparr>)))"

definition pq_dump_run ::
  "(nat \<Rightarrow> bus_setup) \<Rightarrow> (nat \<Rightarrow> bytes) \<Rightarrow> 'd pg \<Rightarrow> pkt2dumppq_config \<Rightarrow> arrival list \<Rightarrow> 'd dump_state
   \<Rightarrow> 'd dump_state outcome option result" where
  "pq_dump_run su memory lib cfg as s =
     (if pkt2dumppq_create_table cfg
      then let (r, d) = exec_statement lib (pkt2dumppq_pgconnect cfg) SQL_POSTGRESQL_CREATE (ds_db s)
           in Inr (Some (Returned 0 as (s\<lparr>ds_db := d\<rparr>)))
      else run_sessions True (dump_open su (pkt2dumppq_buffer_size cfg) memory)
             (recv_step False (dump_body (pkt2dumppq_buffer_size cfg) (pq_dump lib cfg)))
             (\<lambda>k s. (if su_shutdown (su k) \<noteq> 0 then - 20 else 0, s)) 0 as s)"

subsection \<open>To the devices\<close>

definition name_query :: "string \<Rightarrow> string" where
  "name_query imei =
     ''SELECT device_description.device_name '' @ [CHR 0x09, CHR 0x09] @ ''FROM device_description, devices ''
     @ [CHR 0x09, CHR 0x09] @ ''WHERE device_description.imei = devices.id '' @ [CHR 0x09, CHR 0x09]
     @ ''AND device_description.current = '' @ squote @ ''t'' @ squote @ '' AND devices.imei = '' @ squote @ imei @ squote"

definition root_query :: string where
  "root_query = ''SELECT dev.instance FROM dev where dev.userid = 1''"

definition owner_query :: "string \<Rightarrow> string" where
  "owner_query imei =
     ''SELECT dev.instance '' @ [CHR 0x09, CHR 0x09] @ ''FROM device_description, dev, devices '' @ [CHR 0x09, CHR 0x09]
     @ ''WHERE dev.userid = device_description.owner '' @ [CHR 0x09, CHR 0x09]
     @ ''AND device_description.imei = devices.id '' @ [CHR 0x09, CHR 0x09]
     @ ''AND device_description.current = '' @ squote @ ''t'' @ squote @ '' AND devices.imei = '' @ squote @ imei @ squote"

definition rows_of_result :: "pg_result \<Rightarrow> string list list" where
  "rows_of_result res = (case res of PGRES_TUPLES_OK rows \<Rightarrow> rows | _ \<Rightarrow> [])"

definition packet_subscribers ::
  "'d pg \<Rightarrow> pkt2dumpfcm_config \<Rightarrow> string \<Rightarrow> nat \<Rightarrow> 'd \<Rightarrow> int \<times> (string \<times> string) list \<times> 'd" where
  "packet_subscribers lib cfg imei n d =
     (if 0 < pkt2dumpfcm_packet_size cfg \<and> n < size_t (pkt2dumpfcm_packet_size cfg) then (- 35, [], d)
      else if n \<le> size_t (pkt2dumpfcm_imei_field_offset cfg + pkt2dumpfcm_imei_field_size cfg) then (- 35, [], d)
      else let (ok, d1) = dbconnect lib (pkt2dumpfcm_pgconnect cfg) d
           in if \<not> ok then (- 39, [], d1)
              else let (ok, d2) = checked_exec lib ''BEGIN'' d1
                   in if \<not> ok then (- 40, [], PQfinish lib d2)
                      else let (res, d3) = PQexec lib (name_query imei) d2
                           in (case rows_of_result res of
                                 [] \<Rightarrow> (- 40, [], PQfinish lib d3)
                               | row # rest \<Rightarrow>
                                   (let name = cell row 0;
                                        (res1, d4) = PQexec lib root_query d3;
                                        (res2, d5) = PQexec lib (owner_query imei) d4;
                                        tokens = map (\<lambda>row. (cell row 0, name)) (rows_of_result res1 @ rows_of_result res2);
                                        (ok, d6) = checked_exec lib ''END'' d5
                                    in (if ok then 0 else - 40, tokens, PQfinish lib d6))))"

fun notify_all ::
  "push_env \<Rightarrow> pkt2dumpfcm_config \<Rightarrow> string \<Rightarrow> (string \<times> string) list \<Rightarrow> int \<Rightarrow> push_request list
   \<Rightarrow> int \<times> push_request list" where
  "notify_all pe cfg data [] c pushes = (c, pushes)"
| "notify_all pe cfg data ((token_of, name) # tokens) c pushes =
     (let ((c', r), pushes') = push2instance (pe_server pe) (pe_strerror pe) [] (pkt2dumpfcm_fburl cfg)
            (pkt2dumpfcm_server_key cfg) token_of name (pkt2dumpfcm_timezone cfg) data pushes
      in if pushed c' then notify_all pe cfg data tokens c' pushes' else (c', pushes'))"

text \<open>
  The packet is \<open>n\<close> bytes of the memory from \<open>base\<close> on; the IMEI is cut out of the memory
  before the sizes are checked against the database. A short packet gives the code of a success
  of the server.
\<close>

definition memory_text :: "bytes \<Rightarrow> int \<Rightarrow> int \<Rightarrow> string result" where
  "memory_text memory offset n =
     (if n < 0 then Inl (Thrown ''length_error'')
      else if offset < 0 \<or> int (length memory) < offset + n then Inl OutOfBounds
      else Inr (text_of_bytes (take (nat n) (drop (nat offset) memory))))"

definition sendNotifications ::
  "push_env \<Rightarrow> 'd pg \<Rightarrow> pkt2dumpfcm_config \<Rightarrow> bytes \<Rightarrow> nat \<Rightarrow> nat \<Rightarrow> 'd \<Rightarrow> push_request list
   \<Rightarrow> (int \<times> 'd \<times> push_request list) result" where
  "sendNotifications pe lib cfg memory base n d pushes =
     (if n \<le> size_t (pkt2dumpfcm_imei_field_offset cfg + pkt2dumpfcm_imei_field_size cfg) then Inr (200, d, pushes)
      else bindR (memory_text memory (int base + pkt2dumpfcm_imei_field_offset cfg) (pkt2dumpfcm_imei_field_size cfg)) (\<lambda>imei.
             let (r, tokens, d') = packet_subscribers lib cfg imei n d;
                 (c, pushes') = notify_all pe cfg (hexString (take n (drop base memory))) tokens 200 pushes
             in Inr (if pushed c then 0 else - 61, d', pushes')))"

definition sendNotificationsHex ::
  "push_env \<Rightarrow> 'd pg \<Rightarrow> pkt2dumpfcm_config \<Rightarrow> string \<Rightarrow> 'd \<Rightarrow> push_request list
   \<Rightarrow> (int \<times> 'd \<times> push_request list) result" where
  "sendNotificationsHex pe lib cfg hex d pushes =
     bindR (stringFromHex hex) (\<lambda>bin. sendNotifications pe lib cfg bin 0 (length bin) d pushes)"

definition fcm_dump :: "push_env \<Rightarrow> 'd pg \<Rightarrow> pkt2dumpfcm_config \<Rightarrow> nat \<Rightarrow> 'd dump_state \<Rightarrow> 'd dump_state option result" where
  "fcm_dump pe lib cfg n s =
     bindR (sendNotifications pe lib cfg (ds_buffer s) data_offset (n - data_offset) (ds_db s) (ds_pushes s))
       (\<lambda>(r, d, pushes). Inr (Some (s\<lparr>ds_db := d, ds_pushes := pushes\<rparr>)))"

definition fcm_dump_run ::
  "(nat \<Rightarrow> bus_setup) \<Rightarrow> (nat \<Rightarrow> bytes) \<Rightarrow> push_env \<Rightarrow> 'd pg \<Rightarrow> pkt2dumpfcm_config \<Rightarrow> arrival list \<Rightarrow> 'd dump_state
   \<Rightarrow> 'd dump_state outcome option result" where
  "fcm_dump_run su memory pe lib cfg as s =
     run_sessions True (dump_open su (pkt2dumpfcm_buffer_size cfg) memory)
       (recv_step False (dump_body (pkt2dumpfcm_buffer_size cfg) (fcm_dump pe lib cfg)))
       (\<lambda>k s. (if su_shutdown (su k) \<noteq> 0 then - 20 else 0, s)) 0 as s"

section \<open>What is dumped\<close>

text \<open>The buffer keeps its size.\<close>

definition buffer_kept :: "int \<Rightarrow> 'd dump_state \<Rightarrow> bool" where
  "buffer_kept n s = (0 < n \<longrightarrow> length (ds_buffer s) = nat n)"

lemma dump_body_buffer:
  assumes "dump_body n handle msg s = Inr (Some s')" "buffer_kept n s"
    and "\<And>k s s'. handle k s = Inr (Some s') \<Longrightarrow> ds_buffer s' = ds_buffer s"
  shows "buffer_kept n s'"
  using assms(1,2) assms(3) [of "length msg" "fill_buffer n msg s" s']
  by (auto simp: dump_body_def buffer_kept_def fill_buffer_def Let_def split: if_splits)

lemma dump_open_buffer: "dump_open su n memory k s = Inr (Some (Inr s')) \<Longrightarrow> buffer_kept n s \<Longrightarrow> buffer_kept n s'"
  by (auto simp: dump_open_def buffer_kept_def split: if_splits)

interpretation pq_dumper: bus_client "dump_open su n memory" "dump_body n (pq_dump lib cfg)"
    "\<lambda>k s. (if su_shutdown (su k) \<noteq> 0 then - 20 else 0, s)" "buffer_kept n"
  for su n memory lib cfg
proof
  show "buffer_kept n s'" if "dump_body n (pq_dump lib cfg) msg s = Inr (Some s')" "buffer_kept n s" for msg s s'
    by (rule dump_body_buffer [OF that]) (auto simp: pq_dump_def Let_def split_beta)
qed (auto dest: dump_open_buffer)

interpretation fcm_dumper: bus_client "dump_open su n memory" "dump_body n (fcm_dump pe lib cfg)"
    "\<lambda>k s. (if su_shutdown (su k) \<noteq> 0 then - 20 else 0, s)" "buffer_kept n"
  for su n memory pe lib cfg
proof
  show "buffer_kept n s'" if "dump_body n (fcm_dump pe lib cfg) msg s = Inr (Some s')" "buffer_kept n s" for msg s s'
    by (rule dump_body_buffer [OF that]) (auto simp: fcm_dump_def)
qed (auto dest: dump_open_buffer)

lemma filled:
  assumes "0 < n" "length msg \<le> nat n" "buffer_kept n s"
  shows "length (ds_buffer (fill_buffer n msg s)) = nat n"
    and "packet_data (length msg) (ds_buffer (fill_buffer n msg s)) = drop data_offset msg"
  using assms by (auto simp: fill_buffer_def buffer_kept_def packet_data_def)

text \<open>
  C14: The dumper needs a buffer of 16520 bytes. With a smaller one every packet makes it read
  past the end, because of the place of the destination address; with a larger one every packet
  is inserted, and its bytes can be read back from the statement.
\<close>

theorem dump_needs_large_buffer:
  assumes "257 \<le> length msg" "length msg < 2 ^ 31" "int (length msg) \<le> n" "buffer_kept n s"
  shows "if n < 16520 then dump_body n (pq_dump lib cfg) msg s = Inl OutOfBounds
    else \<exists>h tail. dump_body n (pq_dump lib cfg) msg s =
        Inr (Some ((fill_buffer n msg s)\<lparr>ds_db := snd (exec_statement lib (pkt2dumppq_pgconnect cfg)
          (SQL_POSTGRESQL_INSERT_PREFIX @ squote @ h @ squote @ tail) (ds_db s))\<rparr>)) \<and>
      hex2string h = drop 257 msg"
proof -
  let ?s = "fill_buffer n msg s"
  have n: "0 < n" "length msg \<le> nat n" using assms(1,3) by linarith+
  note f = filled [OF n assms(4)]
  have w: "wrap32 (int (length msg)) = int (length msg)" using assms(2) by (intro wrap32_id) simp_all
  have p: "getPayloadSize (int (length msg)) = int (length msg) - 257" by (rule payload_size_of [OF assms(1,2)])
  have body: "dump_body n (pq_dump lib cfg) msg s = pq_dump lib cfg (length msg) ?s"
    using assms(1,3) by (simp add: dump_body_def w p Let_def)
  have src: "\<exists>a. sockaddr_in_at (ds_buffer ?s) socket_addr_src = Inr a"
    using f(1) n(2) assms(1) by (simp add: sockaddr_in_at_def layout)
  show ?thesis
  proof (cases "n < 16520")
    case True
    then have "sockaddr_in_at (ds_buffer ?s) socket_addr_dst = Inl OutOfBounds"
      using f(1) n(1) by (simp add: sockaddr_in_at_def layout)
    then show ?thesis using True body src by (auto simp: pq_dump_def dump_statement_def)
  next
    case False
    then have "\<exists>a. sockaddr_in_at (ds_buffer ?s) socket_addr_dst = Inr a"
      using f(1) by (simp add: sockaddr_in_at_def layout)
    with src obtain src sp dst dp where a: "sockaddr_in_at (ds_buffer ?s) socket_addr_src = Inr (src, sp)"
      "sockaddr_in_at (ds_buffer ?s) socket_addr_dst = Inr (dst, dp)" by (metis surj_pair)
    have d: "drop data_offset msg = drop 257 msg" by (simp add: data_offset_def layout)
    have "ds_db ?s = ds_db s" by (simp add: fill_buffer_def)
    then show ?thesis using False body a f(2) d
      by (simp add: pq_dump_def dump_statement_def split_beta Let_def hex2string_def)
        (metis readHex_hexString)
  qed
qed

theorem dump_needs_large_buffer_witness:
  "\<forall>cfg. dump_body 4096 (pq_dump example_devices cfg) (replicate 300 1)
      \<lparr>ds_db = (), ds_buffer = replicate 4096 0, ds_pushes = []\<rparr> = Inl OutOfBounds \<and>
   (\<exists>h s. dump_body 20000 (pq_dump example_devices cfg) (replicate 300 1)
        \<lparr>ds_db = (), ds_buffer = replicate 20000 0, ds_pushes = []\<rparr> = Inr (Some s) \<and> hex2string h = replicate 43 1)"
proof
  fix cfg :: pkt2dumppq_config
  have len: "257 \<le> length (replicate 300 (1 :: byte))" "length (replicate 300 (1 :: byte)) < 2 ^ 31"
    "int (length (replicate 300 (1 :: byte))) \<le> 4096" "int (length (replicate 300 (1 :: byte))) \<le> 20000"
    by simp_all
  have k: "buffer_kept 4096 \<lparr>ds_db = (), ds_buffer = replicate 4096 0, ds_pushes = []\<rparr>"
    "buffer_kept 20000 \<lparr>ds_db = (), ds_buffer = replicate 20000 0, ds_pushes = []\<rparr>"
    by (simp_all add: buffer_kept_def)
  show "dump_body 4096 (pq_dump example_devices cfg) (replicate 300 1)
      \<lparr>ds_db = (), ds_buffer = replicate 4096 0, ds_pushes = []\<rparr> = Inl OutOfBounds \<and>
   (\<exists>h s. dump_body 20000 (pq_dump example_devices cfg) (replicate 300 1)
        \<lparr>ds_db = (), ds_buffer = replicate 20000 0, ds_pushes = []\<rparr> = Inr (Some s) \<and> hex2string h = replicate 43 1)"
    using dump_needs_large_buffer [OF len(1,2,3) k(1), of example_devices cfg]
      dump_needs_large_buffer [OF len(1,2,4) k(2), of example_devices cfg] by auto
qed

subsection \<open>Notifications of packets\<close>

definition notice :: "pkt2dumpfcm_config \<Rightarrow> string \<Rightarrow> string \<times> string \<Rightarrow> push_request" where
  "notice cfg data p =
     \<lparr>pr_url = pkt2dumpfcm_fburl cfg, pr_serverkey = pkt2dumpfcm_server_key cfg,
      pr_body = request_body (fst p) (snd p) (pkt2dumpfcm_timezone cfg) data\<rparr>"

lemma notify_all_pushes:
  "notify_all pe cfg data tokens c pushes = (c', pushes') \<Longrightarrow> pushed c \<Longrightarrow>
   \<exists>k out. pushes' = pushes @ out \<and> (pushed c' \<longleftrightarrow> k = length tokens) \<and>
     until_refused (pe_server pe) (length pushes) (map (notice cfg data) tokens) k out"
proof (induction tokens arbitrary: c pushes)
  case Nil
  then show ?case using until_refused_Nil by auto
next
  case (Cons p tokens)
  obtain tok name where p: "p = (tok, name)" by fastforce
  obtain c1 r pushes1 where push: "push2instance (pe_server pe) (pe_strerror pe) [] (pkt2dumpfcm_fburl cfg)
      (pkt2dumpfcm_server_key cfg) tok name (pkt2dumpfcm_timezone cfg) data pushes = ((c1, r), pushes1)" by (metis prod.collapse)
  let ?rq = "notice cfg data p"
  have "?rq = \<lparr>pr_url = pkt2dumpfcm_fburl cfg, pr_serverkey = pkt2dumpfcm_server_key cfg,
      pr_body = request_body tok name (pkt2dumpfcm_timezone cfg) data\<rparr>"
    by (simp add: notice_def p)
  note a = push2instance_answer [OF push this]
  show ?case
  proof (cases "pushed c1")
    case True
    then have ok: "accepts (pe_server pe) (length pushes) ?rq" "pushes1 = pushes @ [?rq]"
      using a by (auto simp: accepts_def split: if_splits)
    have "notify_all pe cfg data tokens c1 pushes1 = (c', pushes')" using Cons.prems(1) push p True by simp
    from Cons.IH [OF this True] obtain k out where "pushes' = pushes1 @ out" "pushed c' \<longleftrightarrow> k = length tokens"
      "until_refused (pe_server pe) (length pushes1) (map (notice cfg data) tokens) k out" by blast
    then show ?thesis using ok until_refused_next [OF ok(1)]
      by (intro exI [of _ "Suc k"] exI [of _ "?rq # out"]) simp
  next
    case False
    then have "pushes' = pushes1" "c' = c1" using Cons.prems(1) push p by simp_all
    then show ?thesis using a False until_refused_last [of "pe_server pe" "length pushes" ?rq]
      by (intro exI [of _ 0] exI [of _ "if pe_server pe (length pushes) ?rq = NoHandle then [] else [?rq]"]) simp
  qed
qed

text \<open>
  A packet with an IMEI is pushed to the devices that the database names for it, in their
  order and with the bytes of the packet as hexadecimal digits, until a request is refused; the
  result is 0 if and only if none was.
\<close>

theorem packet_is_pushed_to_devices:
  assumes "size_t (pkt2dumpfcm_imei_field_offset cfg + pkt2dumpfcm_imei_field_size cfg) < n"
    and "memory_text memory (int base + pkt2dumpfcm_imei_field_offset cfg) (pkt2dumpfcm_imei_field_size cfg) = Inr imei"
    and "packet_subscribers lib cfg imei n d = (r, tokens, d')"
  shows "\<exists>out k data. sendNotifications pe lib cfg memory base n d pushes =
      Inr (if k = length tokens then 0 else - 61, d', pushes @ out) \<and>
    until_refused (pe_server pe) (length pushes) (map (notice cfg data) tokens) k out \<and>
    hex2string data = take n (drop base memory)"
proof -
  let ?data = "hexString (take n (drop base memory))"
  obtain c' pushes' where p: "notify_all pe cfg ?data tokens 200 pushes = (c', pushes')" by fastforce
  have "pushed 200" by (simp add: pushed_def)
  from notify_all_pushes [OF p this] obtain k out where "pushes' = pushes @ out" "pushed c' \<longleftrightarrow> k = length tokens"
    "until_refused (pe_server pe) (length pushes) (map (notice cfg ?data) tokens) k out" by blast
  moreover have "sendNotifications pe lib cfg memory base n d pushes = Inr (if pushed c' then 0 else - 61, d', pushes')"
    using assms p by (simp add: sendNotifications_def)
  ultimately show ?thesis
    by (intro exI [of _ out] exI [of _ k] exI [of _ ?data]) (simp add: hex2string_def readHex_hexString)
qed

definition example_dumpfcm_config :: pkt2dumpfcm_config where
  "example_dumpfcm_config =
     \<lparr>pkt2dumpfcm_packet_url = [], pkt2dumpfcm_retries = 0, pkt2dumpfcm_retry_delay = 60, pkt2dumpfcm_verbosity = 0,
      pkt2dumpfcm_daemonize = False, pkt2dumpfcm_max_fd = 0, pkt2dumpfcm_server_key = ''key'', pkt2dumpfcm_fburl = ''url'',
      pkt2dumpfcm_imei_field_offset = 0, pkt2dumpfcm_imei_field_size = 2, pkt2dumpfcm_packet_size = 3,
      pkt2dumpfcm_timezone = 0, pkt2dumpfcm_test_data_hex = [], pkt2dumpfcm_pgconnect = handlerpq_pgconnect example_pq_config,
      pkt2dumpfcm_buffer_size = 4096, pkt2dumpfcm_path = []\<rparr>"

theorem packet_is_pushed_to_devices_witness:
  "\<exists>data. sendNotifications example_refusing example_devices example_dumpfcm_config [49, 50, 51] 0 3 () [] =
      Inr (- 61, (), map (notice example_dumpfcm_config data) [(''1'', ''1''), (''1'', ''1'')]) \<and>
    hex2string data = [49, 50, 51]"
proof -
  let ?ts = "[(''1'', ''1''), (''1'', ''1'')]"
  have "size_t (pkt2dumpfcm_imei_field_offset example_dumpfcm_config + pkt2dumpfcm_imei_field_size example_dumpfcm_config) < 3"
    by (simp add: size_t_def example_dumpfcm_config_def)
  moreover have "memory_text [49, 50, 51] (int 0 + pkt2dumpfcm_imei_field_offset example_dumpfcm_config)
      (pkt2dumpfcm_imei_field_size example_dumpfcm_config) = Inr ''12''"
    by code_simp
  moreover have "packet_subscribers example_devices example_dumpfcm_config ''12'' 3 () = (0, ?ts, ())"
    by code_simp
  ultimately obtain out k data where
    r: "sendNotifications example_refusing example_devices example_dumpfcm_config [49, 50, 51] 0 3 () [] =
      Inr (if k = length ?ts then 0 else - 61, (), out)"
    and u: "until_refused (pe_server example_refusing) 0 (map (notice example_dumpfcm_config data) ?ts) k out"
    and h: "hex2string data = [49, 50, 51]"
    using packet_is_pushed_to_devices [of example_dumpfcm_config 3 "[49, 50, 51]" 0 "''12''" example_devices "()" 0
        ?ts "()" example_refusing "[]"] by fastforce
  have acc: "accepts (pe_server example_refusing) i rq \<longleftrightarrow> i \<noteq> 1" "pe_server example_refusing i rq \<noteq> NoHandle" for i rq
    by (simp_all add: accepts_def example_refusing_def pushed_def)
  have "k = 1" using u by (auto simp: until_refused_def acc split: if_splits)
  with u have "out = map (notice example_dumpfcm_config data) ?ts" by (simp add: until_refused_def acc)
  with r h \<open>k = 1\<close> show ?thesis by (intro exI [of _ data]) simp
qed

end
