(* ===== verification/PacketSource.thy ===== *)
theory PacketSource
  imports Bus NanoPacket
begin

section \<open>Sending packets\<close>

text \<open>
  The receivers from files, from MQTT and from TCP keep a packet, put data into it and send it
  to the bus. Whether the nth packet can be sent is a parameter.
\<close>

text \<open>memcpy of data into the packet, whose length is set before.\<close>

definition fill_packet :: "bytes \<Rightarrow> input_packet \<Rightarrow> input_packet result" where
  "fill_packet bs p =
     (let p' = setLength (wrap32 (int (length bs))) p
      in bindR (poke (ip_buffer p') data_offset bs) (\<lambda>b. Inr (p'\<lparr>ip_buffer := b\<rparr>)))"

definition send_packet :: "(nat \<Rightarrow> bool) \<Rightarrow> input_packet \<Rightarrow> bytes list \<Rightarrow> bytes list result" where
  "send_packet ok p out =
     (if length (ip_buffer p) < unat (ip_size p) then Inl OutOfBounds
      else Inr (if ok (length out) then out @ [take (unat (ip_size p)) (ip_buffer p)] else out))"

subsection \<open>What is sent\<close>

lemma length_fits_size:
  assumes "n < 2 ^ 31"
  shows "unat (of_int (int n) + of_nat header_size + 2 * of_nat storage_size :: u64) = n + 257"
proof -
  have "(of_int (int n) + of_nat header_size + 2 * of_nat storage_size :: u64) = of_nat (n + 257)"
    by (simp add: layout)
  then show ?thesis using assms by (simp only: unat_of_nat) (simp add: take_bit_nat_eq_self)
qed

lemma fill_packet_fits:
  assumes "length bs + 257 \<le> length (ip_buffer p)" "length bs < 2 ^ 31"
  shows "\<exists>p'. fill_packet bs p = Inr p' \<and> length (ip_buffer p') = length (ip_buffer p) \<and>
    unat (ip_size p') = length bs + 257 \<and> ip_length p' = int (length bs) \<and>
    take (length bs + 257) (ip_buffer p') = take 257 (ip_buffer p) @ bs"
proof -
  have w: "wrap32 (int (length bs)) = int (length bs)" using assms(2) by (intro wrap32_id) simp_all
  let ?b = "take 257 (ip_buffer p) @ bs @ drop (257 + length bs) (ip_buffer p)"
  let ?p = "(setLength (int (length bs)) p)\<lparr>ip_buffer := ?b\<rparr>"
  have "fill_packet bs p = Inr ?p"
    using assms(1) by (simp add: fill_packet_def w poke_def data_offset_def layout setLength_def Let_def)
  moreover have "unat (ip_size ?p) = length bs + 257"
    using length_fits_size [OF assms(2)] by (simp add: setLength_def)
  moreover have "length ?b = length (ip_buffer p)" "ip_length ?p = int (length bs)"
    using assms(1) by (simp_all add: setLength_def)
  moreover have "take (length bs + 257) ?b = take 257 (ip_buffer p) @ bs" using assms(1) by simp
  ultimately show ?thesis by (intro exI [of _ ?p]) simp
qed

lemma send_filled:
  assumes "length (ip_buffer p) = n" "unat (ip_size p) \<le> n"
  shows "send_packet (\<lambda>k. True) p out = Inr (out @ [take (unat (ip_size p)) (ip_buffer p)])"
  using assms by (simp add: send_packet_def)

subsection \<open>The contract of a source\<close>

text \<open>
  A source delivers data that fit as packets with a header of 257 bytes, as long as the bus
  takes them. The receiver of packets then finds the data behind the header.
\<close>

locale packet_source =
  fixes deliver :: "bytes \<Rightarrow> 's \<Rightarrow> 's option result"
    and out :: "'s \<Rightarrow> bytes list"
    and ready :: "'s \<Rightarrow> bool"
    and cap :: nat
  assumes delivers: "ready s \<Longrightarrow> bs \<noteq> [] \<Longrightarrow> length bs \<le> cap \<Longrightarrow> length bs + 257 < 2 ^ 31 \<Longrightarrow>
      \<exists>s' h. deliver bs s = Inr (Some s') \<and> ready s' \<and> out s' = out s @ [h @ bs] \<and> length h = 257"
begin

lemma delivers_all:
  assumes "ready s" "\<forall>bs \<in> set bss. bs \<noteq> [] \<and> length bs \<le> cap \<and> length bs + 257 < 2 ^ 31"
  shows "\<exists>s' ps. handle_all deliver bss s = Inr (Some s') \<and> ready s' \<and> out s' = out s @ ps \<and>
    map (drop 257) ps = bss \<and> (\<forall>p \<in> set ps. 257 < length p \<and> length p < 2 ^ 31)"
  using assms
proof (induction bss arbitrary: s)
  case (Cons bs bss)
  have bs: "bs \<noteq> []" "length bs \<le> cap" "length bs + 257 < 2 ^ 31"
    and bss: "\<forall>bs \<in> set bss. bs \<noteq> [] \<and> length bs \<le> cap \<and> length bs + 257 < 2 ^ 31"
    using Cons.prems(2) by simp_all
  obtain s1 h where 1: "deliver bs s = Inr (Some s1)" "ready s1" "out s1 = out s @ [h @ bs]" "length h = 257"
    using delivers [OF Cons.prems(1) bs] by blast
  obtain s2 ps where 2: "handle_all deliver bss s1 = Inr (Some s2)" "ready s2" "out s2 = out s1 @ ps"
    "map (drop 257) ps = bss" "\<forall>p \<in> set ps. 257 < length p \<and> length p < 2 ^ 31"
    using Cons.IH [OF 1(2) bss] by blast
  have "257 < length (h @ bs)" "length (h @ bs) < 2 ^ 31" using bs(1,3) 1(4) by simp_all
  then show ?case using 1 2 by (intro exI [of _ s2] exI [of _ "(h @ bs) # ps"]) simp
qed (auto intro: exI [of _ "[]"])

text \<open>The sizes and the payloads that the receiver sees.\<close>

lemma received_payloads:
  assumes "ready s" "\<forall>bs \<in> set bss. bs \<noteq> [] \<and> length bs \<le> cap \<and> length bs + 257 < 2 ^ 31"
  shows "\<exists>s' ps. handle_all deliver bss s = Inr (Some s') \<and> ready s' \<and> out s' = out s @ ps \<and>
    map (\<lambda>p. payload (packet_wrap p)) ps = bss \<and>
    map (\<lambda>p. getPayloadSize (wrap32 (int (length p)))) ps = map (\<lambda>bs. int (length bs)) bss"
proof -
  obtain s' ps where d: "handle_all deliver bss s = Inr (Some s')" "ready s'" "out s' = out s @ ps"
    "map (drop 257) ps = bss" "\<forall>p \<in> set ps. 257 < length p \<and> length p < 2 ^ 31"
    using delivers_all [OF assms] by blast
  have "getPayloadSize (wrap32 (int (length p))) = int (length (drop 257 p))" if "p \<in> set ps" for p
  proof -
    have l: "257 < length p" "length p < 2 ^ 31" using d(5) that by auto
    then have "wrap32 (int (length p)) = int (length p)" by (intro wrap32_id) simp_all
    then show ?thesis using payload_size_of [of "length p"] l by simp
  qed
  then have "map (\<lambda>p. getPayloadSize (wrap32 (int (length p)))) ps = map (\<lambda>p. int (length (drop 257 p))) ps"
    by (rule map_cong [OF refl])
  also have "\<dots> = map (\<lambda>bs. int (length bs)) bss" unfolding d(4) [symmetric] by simp
  finally show ?thesis using d payload_wrap by (intro exI [of _ s'] exI [of _ ps]) (simp add: payload_wrap)
qed

end

end
