(* ===== verification/FileReceiver.thy ===== *)
theory FileReceiver
  imports PacketSource Gateway
begin

section \<open>Packets from files\<close>

text \<open>
  freceiver-impl.cpp reads packets from a file or the standard input: bytes, lines of
  hexadecimal digits, or decimal numbers line by line. It sends them to the bus, or parses and
  prints them itself. A stream is what is left to read, a stream that cannot be opened is empty.
\<close>

subsection \<open>Reading\<close>

definition char2int :: "char \<Rightarrow> int" where
  "char2int c =
     (if CHR ''0'' \<le> c \<and> c \<le> CHR ''9'' then int (of_char c) - 48
      else if CHR ''A'' \<le> c \<and> c \<le> CHR ''F'' then int (of_char c) - 65 + 10
      else if CHR ''a'' \<le> c \<and> c \<le> CHR ''f'' then int (of_char c) - 97 + 10
      else 0)"

text \<open>std::getline: the line and the rest; it fails where nothing is left.\<close>

definition getline :: "string \<Rightarrow> (string \<times> string) option" where
  "getline s =
     (if s = [] then None
      else Some (takeWhile (\<lambda>c. c \<noteq> CHR 0x0A) s, drop 1 (dropWhile (\<lambda>c. c \<noteq> CHR 0x0A) s)))"

fun hex_pairs :: "nat \<Rightarrow> string \<Rightarrow> bytes" where
  "hex_pairs (Suc n) (c0 # c1 # cs) = of_int (char2int c0 * 16 + char2int c1) # hex_pairs n cs"
| "hex_pairs n cs = []"

lemma getline_shorter: "getline s = Some (line, rest) \<Longrightarrow> length rest < length s"
proof -
  assume "getline s = Some (line, rest)"
  then have "s \<noteq> []" "rest = drop 1 (dropWhile (\<lambda>c. c \<noteq> CHR 0x0A) s)" by (simp_all add: getline_def split: if_splits)
  moreover have "length (dropWhile (\<lambda>c. c \<noteq> CHR 0x0A) s) \<le> length s" by (rule length_dropWhile_le)
  ultimately show ?thesis by (cases s) (simp_all only: length_drop, simp_all)
qed

text \<open>
  Decimal numbers: the last byte of each is written. The line that is one too many has been read
  when the loop ends, and it is counted.
\<close>

function read_numbers :: "int \<Rightarrow> int \<Rightarrow> string \<Rightarrow> bytes \<Rightarrow> int \<times> bytes \<times> string" where
  "read_numbers packet_size r s ostrm =
     (case getline s of
        None \<Rightarrow> (r, ostrm, s)
      | Some (line, rest) \<Rightarrow>
          (let v = atoll line
           in if 0 < packet_size \<and> packet_size < r + 1 then (r + 1, ostrm, rest)
              else read_numbers packet_size (r + 1) rest (ostrm @ [of_int v])))"
  by pat_completeness auto

termination
  by (relation "measure (\<lambda>(packet_size, r, s, ostrm). length s)") (auto dest: getline_shorter)

declare read_numbers.simps [simp del]

definition readData :: "int \<Rightarrow> int \<Rightarrow> string \<Rightarrow> int \<times> bytes \<times> string" where
  "readData cmd packet_size istrm =
     (if cmd = 1
      then (case getline istrm of
              None \<Rightarrow> (0, [], istrm)
            | Some (line, rest) \<Rightarrow>
                (let n = length line div 2;
                     r = (if 0 < packet_size \<and> packet_size < int n then nat packet_size else n)
                 in (int r, hex_pairs r line, rest)))
      else if cmd = 2 then read_numbers packet_size 0 istrm []
      else (let n = (if 0 < packet_size then nat packet_size else length istrm)
            in (int (length (take n istrm)), bytes_of_text (take n istrm), drop n istrm)))"

subsection \<open>The loop over a file\<close>

text \<open>
  Every look at stop_request takes the request that is pending then. A packet that is handled
  may end the loop; a loop that ends at the end of the file looks once more afterwards.
\<close>

definition next_request :: "int list \<Rightarrow> int \<times> int list" where
  "next_request requests = (case requests of [] \<Rightarrow> (0, []) | q # qs \<Rightarrow> (q, qs))"

lemma read_numbers_grows: "read_numbers n r s o1 = (r', o2, rest) \<Longrightarrow> r \<le> r' \<and> length rest \<le> length s \<and> (r < r' \<longrightarrow> length rest < length s)"
proof (induction n r s o1 rule: read_numbers.induct)
  case (1 n r s o1)
  show ?case
  proof (cases "getline s")
    case None
    then show ?thesis using 1(2) by (simp add: read_numbers.simps)
  next
    case (Some p)
    obtain line rest1 where p: "p = (line, rest1)" by fastforce
    show ?thesis
    proof (cases "0 < n \<and> n < r + 1")
      case True
      then show ?thesis using 1(2) Some p getline_shorter [of s line rest1]
        by (subst (asm) read_numbers.simps) auto
    next
      case False
      have "read_numbers n (r + 1) rest1 (o1 @ [of_int (atoll line)]) = (r', o2, rest)"
        using 1(2) Some p False by (subst (asm) read_numbers.simps) (auto simp: Let_def)
      from 1(1) [OF Some p [symmetric] refl False this] getline_shorter [of s line rest1] Some p show ?thesis by auto
    qed
  qed
qed

lemma readData_shorter: "readData cmd n f = (r, bs, rest) \<Longrightarrow> r \<noteq> 0 \<Longrightarrow> length rest < length f"
  by (auto simp: readData_def Let_def split: if_splits option.splits
      dest: getline_shorter read_numbers_grows)

function file_loop ::
  "(bytes \<Rightarrow> 's \<Rightarrow> (bool \<times> 's) option result) \<Rightarrow> int \<Rightarrow> int \<Rightarrow> int list \<Rightarrow> string \<Rightarrow> 's
   \<Rightarrow> (int \<times> int list \<times> string \<times> 's) option result" where
  "file_loop body cmd packet_size requests f s =
     (let (request, requests') = next_request requests
      in if request \<noteq> 0 then Inr (Some (request, requests', f, s))
         else let (r, bs, rest) = readData cmd packet_size f
              in if r = 0
                 then let (request, requests'') = next_request requests' in Inr (Some (request, requests'', rest, s))
                 else (case body bs s of
                         Inl e \<Rightarrow> Inl e
                       | Inr None \<Rightarrow> Inr None
                       | Inr (Some (goes_on, s')) \<Rightarrow>
                           if goes_on then file_loop body cmd packet_size requests' rest s'
                           else let (request, requests'') = next_request requests'
                                in Inr (Some (request, requests'', rest, s'))))"
  by pat_completeness auto

termination
  by (relation "measure (\<lambda>(body, cmd, packet_size, requests, f, s). length f)") (auto dest!: readData_shorter [OF sym])

declare file_loop.simps [simp del]

lemma next_request_shorter: "next_request requests = (q, qs) \<Longrightarrow> length qs \<le> length requests \<and> (q \<noteq> 0 \<longrightarrow> length qs < length requests)"
  by (auto simp: next_request_def split: list.splits)

lemma file_loop_shorter:
  "file_loop body cmd n requests f s = Inr (Some (q, qs, rest, s')) \<Longrightarrow>
   length qs \<le> length requests \<and> (q \<noteq> 0 \<longrightarrow> length qs < length requests)"
proof (induction body cmd n requests f s rule: file_loop.induct)
  case (1 body cmd n requests f s)
  obtain q1 qs1 where n1: "next_request requests = (q1, qs1)" by fastforce
  obtain r bs rest1 where rd: "readData cmd n f = (r, bs, rest1)" by (metis prod.collapse)
  obtain q2 qs2 where n2: "next_request qs1 = (q2, qs2)" by fastforce
  note l = next_request_shorter [OF n1] next_request_shorter [OF n2]
  show ?case
  proof (cases "q1 = 0 \<and> r \<noteq> 0 \<and> (\<exists>s1. body bs s = Inr (Some (True, s1)))")
    case True
    then obtain s1 where b: "body bs s = Inr (Some (True, s1))" by blast
    then have "file_loop body cmd n qs1 rest1 s1 = Inr (Some (q, qs, rest, s'))"
      using "1.prems" n1 rd True by (subst (asm) file_loop.simps) simp
    from "1.IH" [OF refl n1 [symmetric] _ refl rd [symmetric] refl _ b refl refl _ this] b l True show ?thesis by fastforce
  next
    case False
    then show ?thesis using "1.prems" n1 n2 rd l
      by (subst (asm) file_loop.simps) (auto simp: Let_def split: if_splits sum.splits option.splits prod.splits)
  qed
qed

subsection \<open>Sending the packets\<close>

record file_state =
  fl_packet :: input_packet
  fl_sent :: "bytes list"

definition send_data :: "(nat \<Rightarrow> bool) \<Rightarrow> bytes \<Rightarrow> file_state \<Rightarrow> file_state option result" where
  "send_data ok bs s =
     bindR (fill_packet bs (fl_packet s)) (\<lambda>p.
       if ip_length p \<le> 0 then Inr (Some (s\<lparr>fl_packet := p\<rparr>))
       else bindR (send_packet ok p (fl_sent s)) (\<lambda>out. Inr (Some \<lparr>fl_packet = p, fl_sent = out\<rparr>)))"

definition going_on :: "(bytes \<Rightarrow> 's \<Rightarrow> 's option result) \<Rightarrow> bytes \<Rightarrow> 's \<Rightarrow> (bool \<times> 's) option result" where
  "going_on deliver bs s = bindF (deliver bs s) (\<lambda>s'. Inr (Some (True, s')))"

record file_setup =
  fe_malloc :: bool
  fe_option :: bool
  fe_connect :: bool
  fe_shutdown :: int

definition file_session ::
  "file_setup \<Rightarrow> (nat \<Rightarrow> bool) \<Rightarrow> freceiver_config \<Rightarrow> int list \<Rightarrow> string \<Rightarrow> bytes list
   \<Rightarrow> (int + int \<times> int list \<times> string \<times> bytes list) option result" where
  "file_session su ok cfg requests f out =
     bindR (packet_alloc (fe_malloc su) 84 (freceiver_buffer_size cfg)) (\<lambda>p.
       if \<not> fe_option su then Inr (Some (Inl (- 23)))
       else if \<not> fe_connect su then Inr (Some (Inl (- 17)))
       else bindF (file_loop (going_on (send_data ok)) (freceiver_file_mode cfg)
              (freceiver_packet_size cfg) requests f \<lparr>fl_packet = p, fl_sent = out\<rparr>)
              (\<lambda>(request, requests', rest, s). Inr (Some (Inr (request, requests', rest, fl_sent s)))))"

lemma file_session_shorter:
  "file_session su ok cfg requests f out = Inr (Some (Inr (q, qs, rest, out'))) \<Longrightarrow> q \<noteq> 0 \<Longrightarrow> length qs < length requests"
  by (auto simp: file_session_def split: if_splits dest: file_loop_shorter)

text \<open>
  A run that is asked to reload reads a file again from its beginning, and goes on with the
  standard input.
\<close>

function fileReceieve ::
  "(nat \<Rightarrow> file_setup) \<Rightarrow> (nat \<Rightarrow> bool) \<Rightarrow> freceiver_config \<Rightarrow> string \<Rightarrow> nat \<Rightarrow> int list \<Rightarrow> string \<Rightarrow> bytes list
   \<Rightarrow> (int \<times> bytes list) option result" where
  "fileReceieve su ok cfg contents k requests f out =
     (case file_session (su k) ok cfg requests f out of
        Inl e \<Rightarrow> Inl e
      | Inr None \<Rightarrow> Inr None
      | Inr (Some (Inl code)) \<Rightarrow> Inr (Some (code, out))
      | Inr (Some (Inr (request, requests', rest, out'))) \<Rightarrow>
          if request = 2
          then fileReceieve su ok cfg contents (Suc k) requests'
                 (if freceiver_filename_in cfg = [] then rest else contents) out'
          else Inr (Some (if fe_shutdown (su k) < 0 then - 20 else 0, out')))"
  by pat_completeness auto

termination
  by (relation "measure (\<lambda>(su, ok, cfg, contents, k, requests, f, out). length requests)")
    (auto dest!: file_session_shorter)

declare fileReceieve.simps [simp del]

subsection \<open>Printing the messages\<close>

record printed_file =
  pt_packet :: input_packet
  pt_cache :: cache
  pt_stream :: string

definition file_aliases :: "freceiver_config \<Rightarrow> names option \<times> names option \<times> names option" where
  "file_aliases cfg =
     (Some (freceiver_tableAliases cfg), Some (freceiver_fieldAliases cfg), Some (freceiver_properties cfg))"

definition print_data ::
  "'e nano_env \<Rightarrow> (pb_message \<Rightarrow> string) \<Rightarrow> freceiver_config \<Rightarrow> bytes \<Rightarrow> printed_file \<Rightarrow> (bool \<times> printed_file) option result" where
  "print_data env DebugString cfg bs s =
     (if length bs < size_t (freceiver_packet_size cfg) then Inr (Some (False, s))
      else if unat (freceiver_buffer_size cfg) < length bs then Inr (Some (True, s))
      else bindR (fill_packet bs (pt_packet s)) (\<lambda>p.
             if ip_length p \<le> 0 then Inr (Some (True, s\<lparr>pt_packet := p\<rparr>))
             else bindF (message_of env [] (file_aliases cfg) (ip_buffer p) (take (nat (ip_length p)) (payload p)) (pt_cache s)) (\<lambda>(m, c).
                    case m of
                      None \<Rightarrow> Inr (Some (True, s\<lparr>pt_packet := p, pt_cache := c\<rparr>))
                    | Some m \<Rightarrow>
                        bindF (put_message (we_settings env) (we_wire env) DebugString (freceiver_mode cfg)
                            (freceiver_sql_dialect cfg) (Some (freceiver_tableAliases cfg)) (Some (freceiver_fieldAliases cfg))
                            (Some (freceiver_properties cfg)) c (pm_type m) m) (\<lambda>(r, out, c').
                          Inr (Some (True, \<lparr>pt_packet = p, pt_cache = c', pt_stream = pt_stream s @ out\<rparr>))))))"

definition filePrint ::
  "'e nano_env \<Rightarrow> (pb_message \<Rightarrow> string) \<Rightarrow> bool \<Rightarrow> freceiver_config \<Rightarrow> int list \<Rightarrow> string \<Rightarrow> (int \<times> string) option result" where
  "filePrint env DebugString malloc_ok cfg requests f =
     bindF (open_cache (writer_env.truncate env)) (\<lambda>c.
     bindR (packet_alloc malloc_ok 84 (freceiver_buffer_size cfg)) (\<lambda>p.
       bindF (file_loop (print_data env DebugString cfg) (freceiver_file_mode cfg) (freceiver_packet_size cfg) requests f
         \<lparr>pt_packet = p, pt_cache = c, pt_stream = []\<rparr>)
         (\<lambda>(request, requests', rest, s). Inr (Some (0, pt_stream s)))))"

text \<open>What the program does: it prints, or it sends.\<close>

definition file_receiever ::
  "'e nano_env \<Rightarrow> (pb_message \<Rightarrow> string) \<Rightarrow> (nat \<Rightarrow> file_setup) \<Rightarrow> freceiver_config \<Rightarrow> int list \<Rightarrow> string
   \<Rightarrow> (int \<times> string \<times> bytes list) option result" where
  "file_receiever env DebugString su cfg requests contents =
     (if 0 \<le> freceiver_mode cfg
      then bindF (filePrint env DebugString (fe_malloc (su 0)) cfg requests contents) (\<lambda>(r, out). Inr (Some (r, out, [])))
      else bindF (fileReceieve su (ne_send env) cfg contents 0 requests contents []) (\<lambda>(r, sent). Inr (Some (r, [], sent))))"

section \<open>What a file becomes\<close>

subsection \<open>The data of a file\<close>

text \<open>What the loop reads until the end of the file, where nobody interrupts it.\<close>

function all_data :: "int \<Rightarrow> int \<Rightarrow> string \<Rightarrow> bytes list" where
  "all_data cmd n f =
     (let (r, bs, rest) = readData cmd n f in if r = 0 then [] else bs # all_data cmd n rest)"
  by pat_completeness auto

termination
  by (relation "measure (\<lambda>(cmd, n, f). length f)") (auto dest!: readData_shorter [OF sym])

declare all_data.simps [simp del]

lemma file_loop_delivers:
  "handle_all deliver (all_data cmd n f) s = Inr (Some s') \<Longrightarrow>
   \<exists>rest. file_loop (going_on deliver) cmd n [] f s = Inr (Some (0, [], rest, s'))"
proof (induction cmd n f arbitrary: s rule: all_data.induct)
  case (1 cmd n f)
  obtain r bs rest1 where rd: "readData cmd n f = (r, bs, rest1)" by (metis prod.collapse)
  show ?case
  proof (cases "r = 0")
    case True
    then show ?thesis using "1.prems" rd
      by (subst file_loop.simps) (simp add: all_data.simps [of cmd n f] next_request_def)
  next
    case False
    then have "handle_all deliver (bs # all_data cmd n rest1) s = Inr (Some s')"
      using "1.prems" rd by (simp add: all_data.simps [of cmd n f])
    then obtain s1 where d: "deliver bs s = Inr (Some s1)" and "handle_all deliver (all_data cmd n rest1) s1 = Inr (Some s')"
      by (auto split: option.splits)
    moreover have "going_on deliver bs s = Inr (Some (True, s1))" using d by (simp add: going_on_def)
    ultimately show ?thesis using "1.IH" [OF refl rd [symmetric] refl False] False rd
      by (subst file_loop.simps) (simp add: next_request_def)
  qed
qed

lemma send_data_ready:
  assumes "length (ip_buffer (fl_packet s)) = 257 + cap" "bs \<noteq> []" "length bs \<le> cap" "length bs + 257 < 2 ^ 31"
  shows "\<exists>s' h. send_data (\<lambda>k. True) bs s = Inr (Some s') \<and> length (ip_buffer (fl_packet s')) = 257 + cap \<and>
    fl_sent s' = fl_sent s @ [h @ bs] \<and> length h = 257"
proof -
  have "length bs + 257 \<le> length (ip_buffer (fl_packet s))" "length bs < 2 ^ 31" using assms by simp_all
  from fill_packet_fits [OF this] obtain p where p: "fill_packet bs (fl_packet s) = Inr p"
    "length (ip_buffer p) = length (ip_buffer (fl_packet s))" "unat (ip_size p) = length bs + 257"
    "ip_length p = int (length bs)" "take (length bs + 257) (ip_buffer p) = take 257 (ip_buffer (fl_packet s)) @ bs"
    by blast
  show ?thesis using p assms(1-3)
    by (intro exI [of _ "\<lparr>fl_packet = p, fl_sent = fl_sent s @ [take 257 (ip_buffer (fl_packet s)) @ bs]\<rparr>"]
        exI [of _ "take 257 (ip_buffer (fl_packet s))"]) (simp add: send_data_def send_packet_def)
qed

interpretation file_source: packet_source "send_data (\<lambda>k. True)" fl_sent
    "\<lambda>s. length (ip_buffer (fl_packet s)) = 257 + cap" cap
  for cap
  by unfold_locales (rule send_data_ready)

lemma data_is_sent:
  assumes "unat (freceiver_buffer_size cfg) < 2 ^ 31" "fe_malloc (su 0)" "fe_option (su 0)" "fe_connect (su 0)"
    and "\<forall>bs \<in> set bss. bs \<noteq> [] \<and> length bs \<le> unat (freceiver_buffer_size cfg) \<and> length bs + 257 < 2 ^ 31"
    and "all_data (freceiver_file_mode cfg) (freceiver_packet_size cfg) f = bss"
  shows "\<exists>ps. fileReceieve su (\<lambda>k. True) cfg contents 0 [] f [] =
      Inr (Some (if fe_shutdown (su 0) < 0 then - 20 else 0, ps)) \<and>
    map (\<lambda>p. payload (packet_wrap p)) ps = bss \<and>
    map (\<lambda>p. getPayloadSize (wrap32 (int (length p)))) ps = map (\<lambda>bs. int (length bs)) bss"
proof -
  obtain p where p: "packet_alloc True 84 (freceiver_buffer_size cfg) = Inr p"
    and "length (ip_buffer p) = 257 + unat (freceiver_buffer_size cfg)"
    using packet_alloc_ok [OF assms(1)] .
  then obtain s' ps where d: "handle_all (send_data (\<lambda>k. True)) bss \<lparr>fl_packet = p, fl_sent = []\<rparr> = Inr (Some s')"
    "fl_sent s' = ps" "map (\<lambda>p. payload (packet_wrap p)) ps = bss"
    "map (\<lambda>p. getPayloadSize (wrap32 (int (length p)))) ps = map (\<lambda>bs. int (length bs)) bss"
    using file_source.received_payloads [OF _ assms(5), of "\<lparr>fl_packet = p, fl_sent = []\<rparr>"] by auto
  from file_loop_delivers [of "send_data (\<lambda>k. True)" "freceiver_file_mode cfg" "freceiver_packet_size cfg" f
      "\<lparr>fl_packet = p, fl_sent = []\<rparr>" s'] d(1) assms(6)
  obtain rest where "file_loop (going_on (send_data (\<lambda>k. True))) (freceiver_file_mode cfg) (freceiver_packet_size cfg) [] f \<lparr>fl_packet = p, fl_sent = []\<rparr> =
    Inr (Some (0, [], rest, s'))" by auto
  then have "fileReceieve su (\<lambda>k. True) cfg contents 0 [] f [] =
      Inr (Some (if fe_shutdown (su 0) < 0 then - 20 else 0, ps))"
    using assms(2-4) p d(2) by (subst fileReceieve.simps) (simp add: file_session_def)
  then show ?thesis using d(3,4) by blast
qed

subsection \<open>Lines of hexadecimal digits\<close>

definition hex_digit_read :: "nat \<Rightarrow> bool" where
  "hex_digit_read d = (char2int (hex_digit d) = int d \<and> hex_digit d \<noteq> CHR 0x0A)"

lemma hex_digit_reads: "d < 16 \<Longrightarrow> hex_digit_read d"
proof -
  have "list_all hex_digit_read [0..<16]" by code_simp
  then show "d < 16 \<Longrightarrow> hex_digit_read d" by (auto simp: list_all_iff)
qed

lemma hexString_Cons: "hexString (b # bs) = hex_digit (unat b div 16) # hex_digit (unat b mod 16) # hexString bs" for b :: byte
proof -
  have "unat b < 256" using unsigned_less [of b, where 'a = nat] by simp
  then show ?thesis using hex_two [of "unat b"] by (simp add: hexString_def)
qed

lemma byte_hex:
  fixes b :: byte
  shows "char2int (hex_digit (unat b div 16)) = int (unat b div 16)" "char2int (hex_digit (unat b mod 16)) = int (unat b mod 16)"
    "hex_digit (unat b div 16) \<noteq> CHR 0x0A" "hex_digit (unat b mod 16) \<noteq> CHR 0x0A"
proof -
  have "unat b div 16 < 16" using unsigned_less [of b, where 'a = nat] by (simp add: less_mult_imp_div_less)
  then have "hex_digit_read (unat b div 16)" "hex_digit_read (unat b mod 16)" by (auto intro: hex_digit_reads)
  then show "char2int (hex_digit (unat b div 16)) = int (unat b div 16)" "char2int (hex_digit (unat b mod 16)) = int (unat b mod 16)"
    "hex_digit (unat b div 16) \<noteq> CHR 0x0A" "hex_digit (unat b mod 16) \<noteq> CHR 0x0A"
    unfolding hex_digit_read_def by blast+
qed

lemma hexString_Nil: "hexString [] = []"
  by (simp add: hexString_def)

lemma hexString_line: "CHR 0x0A \<notin> set (hexString bs)"
  by (induction bs) (simp_all add: hexString_Nil hexString_Cons byte_hex(3,4) [symmetric])

lemma length_hexString: "length (hexString bs) = 2 * length bs"
  by (induction bs) (simp_all add: hexString_Cons hexString_Nil)

lemma hex_pairs_hexString: "hex_pairs (length bs) (hexString bs) = bs"
proof (induction bs)
  case (Cons b bs)
  have "unat b div 16 * 16 + unat b mod 16 = unat b" by simp
  then have "int (unat b div 16) * 16 + int (unat b mod 16) = int (unat b)"
    by (metis of_nat_add of_nat_mult of_nat_numeral)
  then have "(of_int (int (unat b div 16) * 16 + int (unat b mod 16)) :: byte) = b" by simp
  then show ?case using Cons by (simp only: hexString_Cons length_Cons hex_pairs.simps byte_hex(1,2))
qed (simp add: hexString_Nil)

lemma getline_line: "CHR 0x0A \<notin> set l \<Longrightarrow> getline (l @ endl @ s) = Some (l, s)"
proof -
  assume "CHR 0x0A \<notin> set l"
  then have "takeWhile (\<lambda>c. c \<noteq> CHR 0x0A) (l @ endl @ s) = l"
    "dropWhile (\<lambda>c. c \<noteq> CHR 0x0A) (l @ endl @ s) = CHR 0x0A # s"
    by (induction l) (auto simp: endl_def)
  then show ?thesis by (simp add: getline_def endl_def)
qed

lemma all_data_hex:
  assumes "n \<le> 0" "\<forall>bs \<in> set bss. bs \<noteq> []"
  shows "all_data 1 n (concat (map (\<lambda>bs. hexString bs @ endl) bss)) = bss"
  using assms(2)
proof (induction bss)
  case Nil
  show ?case by (subst all_data.simps) (simp add: readData_def getline_def)
next
  case (Cons bs bss)
  then show ?case using assms(1) hex_pairs_hexString [of bs] getline_line [OF hexString_line [of bs]]
    by (subst all_data.simps) (simp add: readData_def length_hexString Let_def)
qed

text \<open>
  A file with a line of hexadecimal digits for every packet is sent packet by packet: what the
  receiver finds in each packet are the bytes of its line, and its size is theirs.
\<close>

theorem hex_file_is_sent:
  assumes "freceiver_file_mode cfg = 1" "freceiver_packet_size cfg \<le> 0"
    and "unat (freceiver_buffer_size cfg) < 2 ^ 31" "fe_malloc (su 0)" "fe_option (su 0)" "fe_connect (su 0)"
    and "\<forall>bs \<in> set bss. bs \<noteq> [] \<and> length bs \<le> unat (freceiver_buffer_size cfg) \<and> length bs + 257 < 2 ^ 31"
    and "f = concat (map (\<lambda>bs. hexString bs @ endl) bss)"
  shows "\<exists>ps. fileReceieve su (\<lambda>k. True) cfg f 0 [] f [] =
      Inr (Some (if fe_shutdown (su 0) < 0 then - 20 else 0, ps)) \<and>
    map (\<lambda>p. payload (packet_wrap p)) ps = bss \<and>
    map (\<lambda>p. getPayloadSize (wrap32 (int (length p)))) ps = map (\<lambda>bs. int (length bs)) bss"
proof -
  have "all_data (freceiver_file_mode cfg) (freceiver_packet_size cfg) f = bss"
    unfolding assms(1,8) using assms(2,7) by (intro all_data_hex) auto
  from data_is_sent [where bss = bss and contents = f and f = f and su = su, OF assms(3-7) this] show ?thesis .
qed

definition example_file_setup :: file_setup where
  "example_file_setup = \<lparr>fe_malloc = True, fe_option = True, fe_connect = True, fe_shutdown = 0\<rparr>"

definition example_file_config :: freceiver_config where
  "example_file_config =
     \<lparr>freceiver_file_mode = 1, freceiver_filename_in = ''f'', freceiver_packet_size = 0, freceiver_message_url = [],
      freceiver_proto_path = [], freceiver_mode = - 1, freceiver_buffer_size = 4096, freceiver_retries = 0,
      freceiver_retry_delay = 60, freceiver_sql_dialect = 0, freceiver_tableAliases = [], freceiver_fieldAliases = [],
      freceiver_properties = [], freceiver_verbosity = 0, freceiver_daemonize = False, freceiver_max_fd = 0,
      freceiver_path = []\<rparr>"

theorem hex_file_is_sent_witness:
  "\<exists>ps. fileReceieve (\<lambda>k. example_file_setup) (\<lambda>k. True) example_file_config (''0102'' @ endl @ ''ff'' @ endl) 0 []
      (''0102'' @ endl @ ''ff'' @ endl) [] = Inr (Some (0, ps)) \<and>
    map (\<lambda>p. payload (packet_wrap p)) ps = [[1, 2], [255]]"
proof -
  have c: "freceiver_file_mode example_file_config = 1" "freceiver_packet_size example_file_config \<le> 0"
    "unat (freceiver_buffer_size example_file_config) = 4096" by (simp_all add: example_file_config_def)
  have s: "fe_malloc example_file_setup" "fe_option example_file_setup" "fe_connect example_file_setup"
    "fe_shutdown example_file_setup = 0" by (simp_all add: example_file_setup_def)
  have f: "''0102'' @ endl @ ''ff'' @ endl = concat (map (\<lambda>bs. hexString bs @ endl) [[1, 2], [255]])" by code_simp
  have "unat (freceiver_buffer_size example_file_config) < 2 ^ 31" by (simp add: c)
  moreover have "\<forall>bs \<in> set [[1 :: byte, 2], [255]]. bs \<noteq> [] \<and>
      length bs \<le> unat (freceiver_buffer_size example_file_config) \<and> length bs + 257 < 2 ^ 31" by (simp add: c)
  ultimately show ?thesis
    using hex_file_is_sent [of example_file_config "\<lambda>k. example_file_setup" "[[1, 2], [255]]", OF c(1,2) _ s(1-3) _ f] s(4)
    by auto
qed

subsection \<open>Bytes and numbers\<close>

text \<open>Bytes are cut into packets of the size that is asked for; only the last one is shorter.\<close>

fun chunks :: "nat \<Rightarrow> nat \<Rightarrow> bytes \<Rightarrow> bytes list" where
  "chunks 0 n bs = []"
| "chunks (Suc k) n bs = (if bs = [] then [] else take n bs # chunks k n (drop n bs))"

lemma all_data_binary:
  assumes "cmd \<notin> {1, 2}" "0 < n" "length f \<le> k"
  shows "all_data cmd n f = chunks k (nat n) (bytes_of_text f)"
  using assms(3)
proof (induction k arbitrary: f)
  case 0
  then show ?case using assms(1) by (subst all_data.simps) (simp add: readData_def)
next
  case (Suc k)
  show ?case
  proof (cases "f = []")
    case True
    then show ?thesis using assms(1) by (subst all_data.simps) (simp add: readData_def bytes_of_text_def)
  next
    case False
    then have "length (drop (nat n) f) \<le> k" using Suc.prems assms(2) by (cases f) auto
    from Suc.IH [OF this] show ?thesis using False assms(1,2)
      by (subst all_data.simps) (simp add: readData_def bytes_of_text_def take_map drop_map Let_def)
  qed
qed

lemma chunks_concat: "0 < n \<Longrightarrow> length bs \<le> k \<Longrightarrow> concat (chunks k n bs) = bs"
proof (induction k arbitrary: bs)
  case (Suc k)
  then show ?case by (cases bs) auto
qed simp

lemma chunks_sizes: "bs' \<in> set (chunks k n bs) \<Longrightarrow> 0 < n \<Longrightarrow> bs' \<noteq> [] \<and> length bs' \<le> n"
proof (induction k arbitrary: bs)
  case (Suc k)
  then show ?case by (cases bs) (auto split: if_splits)
qed simp

text \<open>
  A binary file that is read with a packet size is sent as it is: the payloads of the packets
  are its bytes in their order, in pieces that are no longer than the packet size.
\<close>

theorem binary_file_is_cut:
  assumes "freceiver_file_mode cfg = 0" "0 < freceiver_packet_size cfg"
    and "freceiver_packet_size cfg \<le> int (unat (freceiver_buffer_size cfg))" "unat (freceiver_buffer_size cfg) + 257 < 2 ^ 31"
    and "fe_malloc (su 0)" "fe_option (su 0)" "fe_connect (su 0)"
  shows "\<exists>ps. fileReceieve su (\<lambda>k. True) cfg f 0 [] f [] =
      Inr (Some (if fe_shutdown (su 0) < 0 then - 20 else 0, ps)) \<and>
    concat (map (\<lambda>p. payload (packet_wrap p)) ps) = bytes_of_text f \<and>
    (\<forall>p \<in> set ps. 0 < getPayloadSize (wrap32 (int (length p))) \<and>
       getPayloadSize (wrap32 (int (length p))) \<le> freceiver_packet_size cfg)"
proof -
  let ?n = "nat (freceiver_packet_size cfg)"
  let ?bss = "chunks (length f) ?n (bytes_of_text f)"
  have n: "0 < ?n" "?n \<le> unat (freceiver_buffer_size cfg)" using assms(2,3) by (simp, linarith)
  have d: "all_data (freceiver_file_mode cfg) (freceiver_packet_size cfg) f = ?bss"
    using assms(1,2) by (intro all_data_binary) simp_all
  have sizes: "bs \<noteq> [] \<and> length bs \<le> ?n" if "bs \<in> set ?bss" for bs using chunks_sizes [OF that n(1)] .
  then have fits: "\<forall>bs \<in> set ?bss. bs \<noteq> [] \<and> length bs \<le> unat (freceiver_buffer_size cfg) \<and> length bs + 257 < 2 ^ 31"
    using n(2) assms(4) by fastforce
  have b: "unat (freceiver_buffer_size cfg) < 2 ^ 31" using assms(4) by simp
  from data_is_sent [where bss = ?bss and contents = f and f = f and su = su, OF b assms(5-7) fits d]
  obtain ps where ps: "fileReceieve su (\<lambda>k. True) cfg f 0 [] f [] =
      Inr (Some (if fe_shutdown (su 0) < 0 then - 20 else 0, ps))"
    "map (\<lambda>p. payload (packet_wrap p)) ps = ?bss"
    "map (\<lambda>p. getPayloadSize (wrap32 (int (length p)))) ps = map (\<lambda>bs. int (length bs)) ?bss" by blast
  have "0 < getPayloadSize (wrap32 (int (length p))) \<and> getPayloadSize (wrap32 (int (length p))) \<le> freceiver_packet_size cfg"
    if "p \<in> set ps" for p
  proof -
    have "getPayloadSize (wrap32 (int (length p))) \<in> set (map (\<lambda>bs. int (length bs)) ?bss)"
      unfolding ps(3) [symmetric] using that by auto
    then obtain bs where "bs \<in> set ?bss" "getPayloadSize (wrap32 (int (length p))) = int (length bs)" by auto
    then show ?thesis using sizes [of bs] assms(2) by auto
  qed
  moreover have "concat ?bss = bytes_of_text f" using n(1) by (intro chunks_concat) (simp_all add: bytes_of_text_def)
  ultimately show ?thesis using ps(1,2) by auto
qed

theorem binary_file_is_cut_witness:
  "\<exists>ps. fileReceieve (\<lambda>k. example_file_setup) (\<lambda>k. True)
      (example_file_config\<lparr>freceiver_file_mode := 0, freceiver_packet_size := 2\<rparr>) ''abc'' 0 [] ''abc'' [] = Inr (Some (0, ps)) \<and>
    concat (map (\<lambda>p. payload (packet_wrap p)) ps) = [97, 98, 99]"
proof -
  let ?cfg = "example_file_config\<lparr>freceiver_file_mode := 0, freceiver_packet_size := 2\<rparr>"
  have c: "freceiver_file_mode ?cfg = 0" "0 < freceiver_packet_size ?cfg"
    "freceiver_packet_size ?cfg \<le> int (unat (freceiver_buffer_size ?cfg))" "unat (freceiver_buffer_size ?cfg) + 257 < 2 ^ 31"
    by (simp_all add: example_file_config_def)
  have s: "fe_malloc example_file_setup" "fe_option example_file_setup" "fe_connect example_file_setup"
    "fe_shutdown example_file_setup = 0" by (simp_all add: example_file_setup_def)
  have "bytes_of_text ''abc'' = [97, 98, 99]" by code_simp
  then show ?thesis using binary_file_is_cut [of ?cfg "\<lambda>k. example_file_setup" "''abc''", OF c s(1-3)] s(4) by auto
qed

text \<open>
  Numbers: with a packet size the number that follows a full packet is lost, and the count of
  the packet is one too large.
\<close>

lemma number_after_packet_is_lost:
  "readData 2 2 (''1'' @ endl @ ''2'' @ endl @ ''3'' @ endl @ ''4'' @ endl) = (3, [1, 2], ''4'' @ endl)"
  by code_simp

end
