(* ===== verification/MqttReceiver.thy ===== *)
theory MqttReceiver
  imports PacketSource ReceiverConfigs
begin

section \<open>Packets from a message broker\<close>

text \<open>
  mqtt-receivernano.cpp: the MQTT library calls back for every message and when the connection
  is lost; the main thread looks at stop_request once a second. What happens is a list of
  events, the looks of the main thread among them.
\<close>

subsection \<open>State and callbacks\<close>

record mqtt_state =
  mq_request :: int
  mq_subscribed :: "(string \<times> u32) list"
  mq_sent :: "bytes list"

text \<open>The subscriptions; the result is not looked at by the caller.\<close>

definition do_connect :: "bool \<Rightarrow> mqtt_receiver_config \<Rightarrow> mqtt_state \<Rightarrow> int \<times> mqtt_state" where
  "do_connect connects cfg s =
     (if \<not> connects then (- 56, s)
      else (0, s\<lparr>mq_subscribed := map (\<lambda>t. (t, mqtt_receiver_qos cfg)) (mqtt_receiver_topics cfg)\<rparr>))"

definition cb_message_arrived :: "bool \<Rightarrow> (nat \<Rightarrow> bool) \<Rightarrow> bytes \<Rightarrow> mqtt_state \<Rightarrow> mqtt_state option result" where
  "cb_message_arrived malloc_ok ok message s =
     bindR (packet_alloc malloc_ok 84 (of_int (int (length message)))) (\<lambda>p.
     bindR (fill_packet message p) (\<lambda>p'.
     bindR (send_packet ok p' (mq_sent s)) (\<lambda>out. Inr (Some (s\<lparr>mq_sent := out\<rparr>)))))"

definition cb_connection_lost :: "mqtt_state \<Rightarrow> mqtt_state" where
  "cb_connection_lost s = s\<lparr>mq_request := 2\<rparr>"

subsection \<open>The run\<close>

record mqtt_setup =
  ms_option :: bool
  ms_connect :: bool
  ms_broker :: bool
  ms_malloc :: bool
  ms_shutdown :: int

datatype mqtt_event = MessageArrived bytes | ConnectionLost | SignalCaught signal | Slept

definition mqtt_open :: "mqtt_setup \<Rightarrow> mqtt_receiver_config \<Rightarrow> mqtt_state \<Rightarrow> int + mqtt_state" where
  "mqtt_open su cfg s =
     (if \<not> ms_option su then Inl (- 23)
      else if \<not> ms_connect su then Inl (- 17)
      else Inr (snd (do_connect (ms_broker su) cfg (s\<lparr>mq_request := 0, mq_subscribed := []\<rparr>))))"

definition mqtt_callback :: "mqtt_setup \<Rightarrow> (nat \<Rightarrow> bool) \<Rightarrow> mqtt_event \<Rightarrow> mqtt_state \<Rightarrow> mqtt_state option result" where
  "mqtt_callback su ok ev s =
     (case ev of
        MessageArrived message \<Rightarrow> cb_message_arrived (ms_malloc su) ok message s
      | ConnectionLost \<Rightarrow> Inr (Some (cb_connection_lost s))
      | SignalCaught g \<Rightarrow> Inr (Some (s\<lparr>mq_request := writer_signalHandler g (mq_request s)\<rparr>))
      | Slept \<Rightarrow> Inr (Some s))"

text \<open>The result of a run that has ended is its code.\<close>

fun mqtt_loop ::
  "(nat \<Rightarrow> mqtt_setup) \<Rightarrow> (nat \<Rightarrow> bool) \<Rightarrow> mqtt_receiver_config \<Rightarrow> nat \<Rightarrow> mqtt_event list \<Rightarrow> mqtt_state
   \<Rightarrow> (int option \<times> mqtt_state) option result" where
  "mqtt_loop su ok cfg k [] s = Inr (Some (None, s))"
| "mqtt_loop su ok cfg k (ev # evs) s =
     (if ev = Slept \<and> mq_request s \<noteq> 0
      then (if mq_request s = 2
            then (case mqtt_open (su (Suc k)) cfg s of
                    Inl code \<Rightarrow> Inr (Some (Some code, s))
                  | Inr s' \<Rightarrow> mqtt_loop su ok cfg (Suc k) evs s')
            else Inr (Some (Some (if ms_shutdown (su k) < 0 then - 20 else 0), s)))
      else bindF (mqtt_callback (su k) ok ev s) (mqtt_loop su ok cfg k evs))"

definition mqtt_receiever_nano ::
  "(nat \<Rightarrow> mqtt_setup) \<Rightarrow> (nat \<Rightarrow> bool) \<Rightarrow> mqtt_receiver_config \<Rightarrow> mqtt_event list \<Rightarrow> mqtt_state
   \<Rightarrow> (int option \<times> mqtt_state) option result" where
  "mqtt_receiever_nano su ok cfg evs s =
     (case mqtt_open (su 0) cfg s of
        Inl code \<Rightarrow> Inr (Some (Some code, s))
      | Inr s' \<Rightarrow> mqtt_loop su ok cfg 0 evs s')"

section \<open>What the receiver guarantees\<close>

lemma message_is_delivered:
  assumes "length bs + 257 < 2 ^ 31"
  shows "\<exists>h. cb_message_arrived True (\<lambda>k. True) bs s = Inr (Some (s\<lparr>mq_sent := mq_sent s @ [h @ bs]\<rparr>)) \<and> length h = 257"
proof -
  have u: "unat (of_int (int (length bs)) :: u64) = length bs"
    using assms by (simp add: unat_of_nat take_bit_nat_eq_self)
  then have "unat (of_int (int (length bs)) :: u64) < 2 ^ 31" using assms by linarith
  from packet_alloc_ok [OF this] obtain p where p: "packet_alloc True 84 (of_int (int (length bs))) = Inr p"
    "length (ip_buffer p) = 257 + length bs" unfolding u by blast
  then obtain p' where "fill_packet bs p = Inr p'" "length (ip_buffer p') = 257 + length bs"
    "unat (ip_size p') = length bs + 257" "take (length bs + 257) (ip_buffer p') = take 257 (ip_buffer p) @ bs"
    using fill_packet_fits [of bs p] assms by auto
  then show ?thesis using p
    by (intro exI [of _ "take 257 (ip_buffer p)"]) (simp add: cb_message_arrived_def send_packet_def)
qed

interpretation mqtt_source: packet_source "cb_message_arrived True (\<lambda>k. True)" mq_sent
    "\<lambda>s. mq_request s = q \<and> mq_subscribed s = subs" cap
  for q subs cap
proof
  fix s :: mqtt_state and bs :: bytes assume "mq_request s = q \<and> mq_subscribed s = subs" "length bs + 257 < 2 ^ 31"
  then show "\<exists>s' h. cb_message_arrived True (\<lambda>k. True) bs s = Inr (Some s') \<and>
      (mq_request s' = q \<and> mq_subscribed s' = subs) \<and> mq_sent s' = mq_sent s @ [h @ bs] \<and> length h = 257"
    using message_is_delivered [of bs s] by force
qed

lemma loop_messages:
  assumes "ms_malloc (su k)"
  shows "mqtt_loop su ok cfg k (map MessageArrived ms @ evs) s =
    bindF (handle_all (cb_message_arrived True ok) ms s) (mqtt_loop su ok cfg k evs)"
proof (induction ms arbitrary: s)
  case (Cons m ms)
  then have "mqtt_loop su ok cfg k (map MessageArrived ms @ evs) =
      (\<lambda>s. bindF (handle_all (cb_message_arrived True ok) ms s) (mqtt_loop su ok cfg k evs))" by (rule ext)
  then show ?case using assms by (simp add: mqtt_callback_def bindF_assoc)
qed simp

text \<open>
  C35: A connection that is lost costs no message that arrives: the receiver connects again at the
  next look of the main thread, with the same subscriptions, and the packets on the bus are the
  messages before and after in their order.
\<close>

theorem lost_connection_is_opened_again:
  assumes "\<forall>k. ms_option (su k) \<and> ms_connect (su k) \<and> ms_broker (su k) \<and> ms_malloc (su k)"
    and "\<forall>m \<in> set (before @ after). m \<noteq> [] \<and> length m + 257 < 2 ^ 31"
  shows "\<exists>s' ps. mqtt_receiever_nano su (\<lambda>k. True) cfg
      (map MessageArrived before @ [ConnectionLost, Slept] @ map MessageArrived after) s = Inr (Some (None, s')) \<and>
    mq_request s' = 0 \<and> mq_subscribed s' = map (\<lambda>t. (t, mqtt_receiver_qos cfg)) (mqtt_receiver_topics cfg) \<and>
    mq_sent s' = mq_sent s @ ps \<and> map (\<lambda>p. payload (packet_wrap p)) ps = before @ after"
proof -
  let ?subs = "map (\<lambda>t. (t, mqtt_receiver_qos cfg)) (mqtt_receiver_topics cfg)"
  let ?cap = "2 ^ 31 :: nat"
  have m: "ms_malloc (su k)" for k using assms(1) by blast
  have op: "mqtt_open (su k) cfg s = Inr (s\<lparr>mq_request := 0, mq_subscribed := ?subs\<rparr>)" for k s
    using assms(1) by (simp add: mqtt_open_def do_connect_def)
  have small: "\<forall>m \<in> set before. m \<noteq> [] \<and> length m + 257 < 2 ^ 31" "\<forall>m \<in> set after. m \<noteq> [] \<and> length m + 257 < 2 ^ 31"
    using assms(2) by simp_all
  have fits: "\<forall>bs \<in> set before. bs \<noteq> [] \<and> length bs \<le> ?cap \<and> length bs + 257 < 2 ^ 31"
    "\<forall>bs \<in> set after. bs \<noteq> [] \<and> length bs \<le> ?cap \<and> length bs + 257 < 2 ^ 31"
    using small by (meson add_leD1 less_imp_le)+
  let ?s0 = "s\<lparr>mq_request := 0, mq_subscribed := ?subs\<rparr>"
  have "mq_request ?s0 = 0 \<and> mq_subscribed ?s0 = ?subs" by simp
  from mqtt_source.received_payloads [OF this fits(1)] obtain s1 ps1
    where 1: "handle_all (cb_message_arrived True (\<lambda>k. True)) before ?s0 = Inr (Some s1)"
      "mq_request s1 = 0 \<and> mq_subscribed s1 = ?subs" "mq_sent s1 = mq_sent ?s0 @ ps1"
      "map (\<lambda>p. payload (packet_wrap p)) ps1 = before" by blast
  let ?s2 = "s1\<lparr>mq_request := 0, mq_subscribed := ?subs\<rparr>"
  have "mq_request ?s2 = 0 \<and> mq_subscribed ?s2 = ?subs" by simp
  from mqtt_source.received_payloads [OF this fits(2)] obtain s3 ps2
    where 3: "handle_all (cb_message_arrived True (\<lambda>k. True)) after ?s2 = Inr (Some s3)"
      "mq_request s3 = 0 \<and> mq_subscribed s3 = ?subs" "mq_sent s3 = mq_sent ?s2 @ ps2"
      "map (\<lambda>p. payload (packet_wrap p)) ps2 = after" by blast
  have "mqtt_loop su (\<lambda>k. True) cfg (Suc 0) (map MessageArrived after @ []) ?s2 = Inr (Some (None, s3))"
    unfolding loop_messages [of su "Suc 0", OF m] using 3(1) by simp
  then have "mqtt_receiever_nano su (\<lambda>k. True) cfg
      (map MessageArrived before @ [ConnectionLost, Slept] @ map MessageArrived after) s = Inr (Some (None, s3))"
    using 1(1) by (simp add: mqtt_receiever_nano_def op loop_messages [of su 0, OF m] mqtt_callback_def cb_connection_lost_def)
  then show ?thesis using 1 3 by (intro exI [of _ s3] exI [of _ "ps1 @ ps2"]) simp
qed

definition example_mqtt_setup :: mqtt_setup where
  "example_mqtt_setup = \<lparr>ms_option = True, ms_connect = True, ms_broker = True, ms_malloc = True, ms_shutdown = 0\<rparr>"

definition example_mqtt_config :: mqtt_receiver_config where
  "example_mqtt_config =
     \<lparr>mqtt_receiver_topics = [''pkt2''], mqtt_receiver_broker_address = [], mqtt_receiver_broker_port = 1883,
      mqtt_receiver_qos = 1, mqtt_receiver_client_id = [], mqtt_receiver_keep_alive_interval = 20,
      mqtt_receiver_reconnect_delay = 5, mqtt_receiver_message_url = [], mqtt_receiver_retries = 0,
      mqtt_receiver_retry_delay = 60, mqtt_receiver_verbosity = 0, mqtt_receiver_daemonize = False,
      mqtt_receiver_max_fd = 0, mqtt_receiver_path = []\<rparr>"

theorem lost_connection_is_opened_again_witness:
  "\<exists>s' ps. mqtt_receiever_nano (\<lambda>k. example_mqtt_setup) (\<lambda>k. True) example_mqtt_config
      (map MessageArrived [[1, 2]] @ [ConnectionLost, Slept] @ map MessageArrived [[3]])
      \<lparr>mq_request = 0, mq_subscribed = [], mq_sent = []\<rparr> = Inr (Some (None, s')) \<and>
    mq_sent s' = ps \<and> map (\<lambda>p. payload (packet_wrap p)) ps = [[1, 2], [3]]"
proof -
  have su: "\<forall>k :: nat. ms_option example_mqtt_setup \<and> ms_connect example_mqtt_setup \<and> ms_broker example_mqtt_setup \<and>
      ms_malloc example_mqtt_setup" by (simp add: example_mqtt_setup_def)
  have "\<forall>m \<in> set ([[1 :: byte, 2]] @ [[3]]). m \<noteq> [] \<and> length m + 257 < 2 ^ 31" by simp
  from lost_connection_is_opened_again [where su = "\<lambda>k. example_mqtt_setup", OF su this] show ?thesis by fastforce
qed

text \<open>
  A request to stop that comes before the connection is lost, and before the main thread looks
  again, is overwritten: the receiver connects again and goes on.
\<close>

theorem lost_connection_overrides_stop:
  assumes "mqtt_open (su (Suc k)) cfg (s\<lparr>mq_request := 2\<rparr>) = Inr s'"
  shows "mqtt_loop su ok cfg k ([SignalCaught SigInt, ConnectionLost, Slept] @ evs) s = mqtt_loop su ok cfg (Suc k) evs s'"
  using assms
  by (simp add: mqtt_callback_def cb_connection_lost_def writer_signalHandler_def stop_def)

lemma stop_ends_receiver:
  "mqtt_loop su ok cfg k ([ConnectionLost, SignalCaught SigInt, Slept] @ evs) s =
   Inr (Some (Some (if ms_shutdown (su k) < 0 then - 20 else 0), s\<lparr>mq_request := 1\<rparr>))"
  by (simp add: mqtt_callback_def cb_connection_lost_def writer_signalHandler_def stop_def)

end
