(* ===== verification/TcpReceiver.thy ===== *)
theory TcpReceiver
  imports PacketSource HuffClasses ReceiverConfigs
begin

section \<open>Packets from TCP connections\<close>

text \<open>
  tcpreceivernano.cpp: every connection brings one packet, which is decompressed in place and
  sent to the bus. What arrives are the bytes of a connection that is accepted; a call of accept
  that fails is repeated.
\<close>

subsection \<open>State and surroundings\<close>

record tcp_state =
  tc_packet :: input_packet
  tc_decoder :: decoder
  tc_count :: nat
  tc_sent :: "bytes list"

text \<open>
  What the calls of the kth session give: the address that is listened on, the calls of
  listen_port and those of nanomsg; the address of the nth connection, whether it can be read, and
  how many bytes behind the first have come in when it is; whether a packet can be sent; the files;
  and what the decoder reads without having set it.
\<close>

record tcp_env =
  te_addrinfo :: "nat \<Rightarrow> bytes option"
  te_malloc :: "nat \<Rightarrow> bool"
  te_listen :: "nat \<Rightarrow> bool list"
  te_option :: "nat \<Rightarrow> bool"
  te_connect :: "nat \<Rightarrow> bool"
  te_shutdown :: "nat \<Rightarrow> int"
  te_source :: "nat \<Rightarrow> bytes"
  te_read :: "nat \<Rightarrow> bool"
  te_ready :: "nat \<Rightarrow> nat"
  te_send :: "nat \<Rightarrow> bool"
  te_file :: "string \<Rightarrow> string"
  te_strtod :: "string \<Rightarrow> u64"
  te_garbage :: "u64 list"
  te_fuel :: nat
  te_ret :: bool
  te_junk :: byte

definition tcp_decoder :: "tcp_env \<Rightarrow> tcpreceiver_config \<Rightarrow> decoder" where
  "tcp_decoder env cfg =
     (let d = d_setMode (tcpreceiver_compression_type cfg) (decoder_new (te_garbage env));
          d = (if tcpreceiver_frequence_file cfg \<noteq> []
               then d_setTreeFromFrequenciesStream (te_file env (tcpreceiver_frequence_file cfg)) d
               else if tcpreceiver_codemap_file cfg \<noteq> []
               then d_setTreeFromCodesStream (te_strtod env) (te_file env (tcpreceiver_codemap_file cfg)) d
               else d);
          d = d_setEscapeCode (tcpreceiver_escape_code cfg) 8 d;
          d = (if tcpreceiver_eof_code cfg \<noteq> [] then d_setEOFCode (tcpreceiver_eof_code cfg) d else d)
      in d_setValidPacketSizes (map unat (tcpreceiver_valid_sizes cfg)) d)"

definition listen_port :: "bool list \<Rightarrow> int option" where
  "listen_port calls =
     (case map fst (filter (\<lambda>(code, ok). \<not> ok) (zip [- 42, - 43, - 44, - 46] calls)) of
        [] \<Rightarrow> None
      | code # _ \<Rightarrow> Some code)"

definition tcp_open :: "tcp_env \<Rightarrow> tcpreceiver_config \<Rightarrow> nat \<Rightarrow> tcp_state \<Rightarrow> (int + tcp_state) option result" where
  "tcp_open env cfg k s =
     (case te_addrinfo env k of
        None \<Rightarrow> Inr (Some (Inl (- 41)))
      | Some addr \<Rightarrow>
          bindR (packet_alloc (te_malloc env k) 84 (tcpreceiver_buffer_size cfg)) (\<lambda>p.
          bindR (set_socket_addr_dst addr p) (\<lambda>p'.
            if listen_port (te_listen env k) \<noteq> None then Inr (Some (Inl (- 46)))
            else if \<not> te_option env k then Inr (Some (Inl (- 23)))
            else if \<not> te_connect env k then Inr (Some (Inl (- 17)))
            else Inr (Some (Inr (s\<lparr>tc_packet := p', tc_decoder := tcp_decoder env cfg\<rparr>))))))"

subsection \<open>A connection\<close>

text \<open>
  accept writes the address of the sender. There is one call of read: it waits for a byte and takes
  what has come in by then and fits, so what comes later is lost; where it fails the size is -1.
\<close>

definition tcp_read :: "tcp_env \<Rightarrow> nat \<Rightarrow> bytes \<Rightarrow> input_packet \<Rightarrow> (nat \<times> input_packet) result" where
  "tcp_read env n bs p =
     bindR (poke (ip_buffer p) socket_addr_src (te_source env n)) (\<lambda>b.
       if \<not> te_read env n then Inr (size_t (- 1), p\<lparr>ip_buffer := b\<rparr>)
       else let got = take (size_t (ip_max_data_size p)) (take (Suc (te_ready env n)) bs)
            in bindR (poke b data_offset got) (\<lambda>b'. Inr (length got, p\<lparr>ip_buffer := b'\<rparr>)))"

definition tcp_body :: "tcp_env \<Rightarrow> tcpreceiver_config \<Rightarrow> bytes \<Rightarrow> tcp_state \<Rightarrow> tcp_state option result" where
  "tcp_body env cfg bs s =
     bindR (tcp_read env (tc_count s) bs (tc_packet s)) (\<lambda>(sz, p).
     bindF (decode_buffer2buffer (te_fuel env) (te_ret env) (te_junk env) (tc_decoder s) (Some (payload p))
         (size_t (ip_max_data_size p)) (Some (payload p)) sz (size_t (tcpreceiver_compression_offset cfg))) (\<lambda>(sz', area, d).
       let p' = setLength (wrap32 (int sz')) (p\<lparr>ip_buffer := take data_offset (ip_buffer p) @ case_option [] id area\<rparr>);
           s' = s\<lparr>tc_packet := p', tc_decoder := d, tc_count := tc_count s + 1\<rparr>
       in if ip_length p' \<le> 0 then Inr (Some s')
          else bindR (send_packet (te_send env) p' (tc_sent s)) (\<lambda>out. Inr (Some (s'\<lparr>tc_sent := out\<rparr>)))))"

definition tcp_receiever_nano ::
  "tcp_env \<Rightarrow> tcpreceiver_config \<Rightarrow> arrival list \<Rightarrow> tcp_state \<Rightarrow> tcp_state outcome option result" where
  "tcp_receiever_nano env cfg as s =
     run_sessions True (tcp_open env cfg) (recv_step False (tcp_body env cfg))
       (\<lambda>k s. (if te_shutdown env k < 0 then - 20 else 0, s)) 0 as s"

section \<open>What the receiver guarantees\<close>

lemma send_packet_extends: "send_packet ok p out = Inr out' \<Longrightarrow> out' = out \<or> (\<exists>x. out' = out @ [x])"
  by (auto simp: send_packet_def split: if_splits)

interpretation tcp_client: bus_client "tcp_open env cfg" "tcp_body env cfg"
    "\<lambda>k s. (if te_shutdown env k < 0 then - 20 else 0, s)" "\<lambda>s. take (length old) (tc_sent s) = old"
  for env cfg old
proof
  show "take (length old) (tc_sent s') = old"
    if "tcp_open env cfg k s = Inr (Some (Inr s'))" "take (length old) (tc_sent s) = old" for k s s'
    using that by (auto simp: tcp_open_def split: option.splits if_splits)
  show "take (length old) (tc_sent s') = old"
    if b: "tcp_body env cfg bs s = Inr (Some s')" and i: "take (length old) (tc_sent s) = old" for bs s s'
  proof -
    have "tc_sent s' = tc_sent s \<or> (\<exists>x. tc_sent s' = tc_sent s @ [x])"
      using b by (auto simp: tcp_body_def Let_def split: if_splits prod.splits dest!: send_packet_extends)
    moreover have "length old \<le> length (tc_sent s)" using i by (metis length_take min.cobounded1)
    ultimately show ?thesis using i by auto
  qed
qed simp

subsection \<open>Without compression\<close>

lemma slice_after: "257 \<le> length b \<Longrightarrow> take (length bs) (drop 257 (take 257 b @ bs @ r)) = bs"
  by simp

lemma tcp_read_ok:
  assumes "te_read env n" "length (te_source env n) = 16" "length (ip_buffer p) = 257 + cap"
    and "ip_max_data_size p = int cap" "length bs \<le> cap" "cap < 2 ^ 31" "length bs \<le> Suc (te_ready env n)"
  shows "\<exists>p'. tcp_read env n bs p = Inr (length bs, p') \<and> length (ip_buffer p') = 257 + cap \<and>
    ip_max_data_size p' = int cap \<and> take (length bs) (drop 257 (ip_buffer p')) = bs"
proof -
  have c: "size_t (int cap) = cap" using assms(6) by (simp add: size_t_def unat_of_nat take_bit_nat_eq_self)
  obtain b where b: "poke (ip_buffer p) socket_addr_src (te_source env n) = Inr b" "length b = 257 + cap"
    using assms(2,3) by (simp add: poke_def layout)
  obtain b' where b': "poke b data_offset bs = Inr b'" "b' = take 257 b @ bs @ drop (257 + length bs) b"
    using assms(5) b(2) by (simp add: poke_def layout)
  have l: "length b' = 257 + cap" using b'(2) b(2) assms(5) by simp
  have "take (length bs) (drop 257 b') = bs" unfolding b'(2) using b(2) by (intro slice_after) linarith
  moreover have "tcp_read env n bs p = Inr (length bs, p\<lparr>ip_buffer := b'\<rparr>)"
    using assms(1,5,7) b(1) b'(1) by (simp add: tcp_read_def assms(4) c Let_def)
  ultimately show ?thesis using l assms(4) by (intro exI [of _ "p\<lparr>ip_buffer := b'\<rparr>"]) simp
qed

definition plain_ready :: "tcp_env \<Rightarrow> nat \<Rightarrow> tcp_state \<Rightarrow> bool" where
  "plain_ready env cap s =
     (length (ip_buffer (tc_packet s)) = 257 + cap \<and> ip_max_data_size (tc_packet s) = int cap \<and> cap < 2 ^ 31 \<and>
      d_mode (tc_decoder s) = 0 \<and>
      (\<forall>n. length (te_source env n) = 16 \<and> te_read env n \<and> te_send env n \<and> cap \<le> Suc (te_ready env n)))"

lemma plain_delivers:
  assumes "plain_ready env cap s" "bs \<noteq> []" "length bs \<le> cap" "length bs + 257 < 2 ^ 31"
  shows "\<exists>s' h. tcp_body env cfg bs s = Inr (Some s') \<and> plain_ready env cap s' \<and>
    tc_sent s' = tc_sent s @ [h @ bs] \<and> length h = 257"
proof -
  have r: "length (ip_buffer (tc_packet s)) = 257 + cap" "ip_max_data_size (tc_packet s) = int cap" "cap < 2 ^ 31"
    "d_mode (tc_decoder s) = 0" "\<And>n. length (te_source env n) = 16" "\<And>n. te_read env n" "\<And>n. te_send env n"
    "\<And>n. cap \<le> Suc (te_ready env n)"
    using assms(1) by (simp_all add: plain_ready_def)
  obtain p where p: "tcp_read env (tc_count s) bs (tc_packet s) = Inr (length bs, p)" "length (ip_buffer p) = 257 + cap"
    "ip_max_data_size p = int cap" "take (length bs) (drop 257 (ip_buffer p)) = bs"
    using tcp_read_ok [OF r(6,5,1,2) assms(3) r(3) le_trans [OF assms(3) r(8)]] by blast
  have w: "wrap32 (int (length bs)) = int (length bs)" using assms(4) by (intro wrap32_id) simp_all
  have u: "unat (of_int (int (length bs)) + of_nat header_size + 2 * of_nat storage_size :: u64) = length bs + 257"
    using assms(4) by (intro length_fits_size) simp
  have area: "take data_offset (ip_buffer p) @ payload p = ip_buffer p"
    by (simp add: payload_def)
  let ?p = "setLength (int (length bs)) p"
  have dec: "decode_buffer2buffer (te_fuel env) (te_ret env) (te_junk env) (tc_decoder s) (Some (payload p))
      (size_t (ip_max_data_size p)) (Some (payload p)) (length bs) k = Inr (Some (length bs, Some (payload p), tc_decoder s))" for k
    by (simp add: decode_buffer2buffer_def r(4))
  have size: "unat (ip_size ?p) = length bs + 257" "ip_length ?p = int (length bs)" "ip_buffer ?p = ip_buffer p"
    "ip_max_data_size ?p = int cap"
    using u p(3) by (simp_all add: setLength_def)
  have send: "send_packet (te_send env) ?p (tc_sent s) = Inr (tc_sent s @ [take (length bs + 257) (ip_buffer p)])"
    using size r(7) p(2) assms(3) by (simp add: send_packet_def)
  have cut: "take (length bs + 257) (ip_buffer p) = take 257 (ip_buffer p) @ bs"
    using take_add [of 257 "length bs" "ip_buffer p"] p(4) by (simp only: add.commute)
  let ?s = "s\<lparr>tc_packet := ?p, tc_decoder := tc_decoder s, tc_count := tc_count s + 1,
      tc_sent := tc_sent s @ [take 257 (ip_buffer p) @ bs]\<rparr>"
  have "tcp_body env cfg bs s = Inr (Some ?s)"
    using assms(2) send cut size(2) by (simp add: tcp_body_def p(1) dec area w Let_def setLength_def)
  moreover have "plain_ready env cap ?s" using size(3,4) p(2) r by (simp add: plain_ready_def)
  ultimately show ?thesis using p(2) by (intro exI [of _ ?s] exI [of _ "take 257 (ip_buffer p)"]) simp
qed

interpretation tcp_source: packet_source "tcp_body env cfg" tc_sent "plain_ready env cap" cap
  for env cfg cap
  by unfold_locales (rule plain_delivers)

lemma tcp_open_outcome:
  assumes "te_addrinfo env k = Some a" "length a = sockaddr_size" "te_malloc env k"
    and "unat (tcpreceiver_buffer_size cfg) < 2 ^ 31"
  shows "if unat (tcpreceiver_buffer_size cfg) < 16271 then tcp_open env cfg k s = Inl OutOfBounds
    else \<exists>p. length (ip_buffer p) = 257 + unat (tcpreceiver_buffer_size cfg) \<and>
      ip_max_data_size p = int (unat (tcpreceiver_buffer_size cfg)) \<and>
      (listen_port (te_listen env k) = None \<and> te_option env k \<and> te_connect env k \<longrightarrow>
       tcp_open env cfg k s = Inr (Some (Inr (s\<lparr>tc_packet := p, tc_decoder := tcp_decoder env cfg\<rparr>))))"
proof -
  obtain p where p: "packet_alloc True 84 (tcpreceiver_buffer_size cfg) = Inr p"
    "length (ip_buffer p) = 257 + unat (tcpreceiver_buffer_size cfg)"
    using packet_alloc_ok [OF assms(4)] .
  have m: "ip_max_data_size p = int (unat (tcpreceiver_buffer_size cfg))"
    using p(1) sint_small [OF assms(4)] by (auto simp: packet_alloc_def Let_def split: if_splits)
  show ?thesis
  proof (cases "unat (tcpreceiver_buffer_size cfg) < 16271")
    case True
    then have "set_socket_addr_dst a p = Inl OutOfBounds" using set_dst [OF assms(2), of p] p(2) by simp
    then show ?thesis using True assms(1,3) p(1) by (simp add: tcp_open_def)
  next
    case False
    let ?b = "take socket_addr_dst (ip_buffer p) @ a @ drop (socket_addr_dst + 16) (ip_buffer p)"
    have d: "set_socket_addr_dst a p = Inr (p\<lparr>ip_buffer := ?b\<rparr>)"
      using False p(2) assms(2) by (simp add: set_socket_addr_dst_def poke_def layout)
    have "length ?b = 257 + unat (tcpreceiver_buffer_size cfg)" using False p(2) assms(2) by (simp add: layout)
    then show ?thesis using False assms(1,3) p(1) d m
      by (simp add: tcp_open_def exI [of _ "p\<lparr>ip_buffer := ?b\<rparr>"])
  qed
qed

lemma decoder_setup:
  "d_mode (tcp_decoder env cfg) = tcpreceiver_compression_type cfg" "d_force_size (tcp_decoder env cfg) = None"
  by (simp_all add: tcp_decoder_def decoder_new_def d_setMode_def d_setEscapeCode_def d_setEOFCode_def
      d_setValidPacketSizes_def d_setTreeFromFrequenciesStream_def d_setTreeFromCodesStream_def Let_def)

text \<open>What is left of the bytes of some connections where each gives a part of them only.\<close>

fun parts :: "(nat \<Rightarrow> nat) \<Rightarrow> nat \<Rightarrow> bytes list \<Rightarrow> bytes list" where
  "parts ready n [] = []"
| "parts ready n (bs # bss) = take (Suc (ready n)) bs # parts ready (Suc n) bss"

lemma parts_all: "\<forall>bs \<in> set bss. \<forall>k. length bs \<le> Suc (ready k) \<Longrightarrow> parts ready n bss = bss"
  by (induction bss arbitrary: n) auto

lemma parts_in: "bs \<in> set (parts ready n bss) \<Longrightarrow> \<exists>bs' \<in> set bss. (bs' \<noteq> [] \<longrightarrow> bs \<noteq> []) \<and> length bs \<le> length bs'"
  by (induction bss arbitrary: n) force+

text \<open>A short read is a whole read of the part that has come in.\<close>

lemma short_read:
  assumes "length bs \<le> Suc cap"
  shows "tcp_body env cfg bs s = tcp_body (env\<lparr>te_ready := \<lambda>n. cap\<rparr>) cfg (take (Suc (te_ready env (tc_count s))) bs) s"
proof -
  let ?env = "env\<lparr>te_ready := \<lambda>n. cap\<rparr>" and ?n = "tc_count s"
  have "tcp_read env ?n bs p = tcp_read ?env ?n (take (Suc (te_ready env ?n)) bs) p" for p
  proof -
    have "take (Suc cap) (take k bs) = take k bs" for k using assms by (intro take_all) simp
    then show ?thesis by (cases "te_read env ?n") (simp_all add: tcp_read_def Let_def del: take_take)
  qed
  then show ?thesis by (simp add: tcp_body_def Let_def cong: if_cong)
qed

lemma tcp_body_counts: "tcp_body env cfg bs s = Inr (Some s') \<Longrightarrow> tc_count s' = tc_count s + 1"
  by (auto simp: tcp_body_def Let_def split: if_splits prod.splits)

lemma short_reads:
  assumes "\<forall>bs \<in> set bss. length bs \<le> Suc cap"
  shows "handle_all (tcp_body env cfg) bss s =
    handle_all (tcp_body (env\<lparr>te_ready := \<lambda>n. cap\<rparr>) cfg) (parts (te_ready env) (tc_count s) bss) s"
  using assms
proof (induction bss arbitrary: s)
  case (Cons bs bss)
  let ?env = "env\<lparr>te_ready := \<lambda>n. cap\<rparr>"
  have b: "tcp_body env cfg bs s = tcp_body ?env cfg (take (Suc (te_ready env (tc_count s))) bs) s"
    using Cons.prems by (intro short_read) simp
  show ?case
  proof (cases "tcp_body ?env cfg (take (Suc (te_ready env (tc_count s))) bs) s")
    case (Inr r)
    then show ?thesis using b Cons.IH Cons.prems tcp_body_counts [of ?env cfg] by (cases r) simp_all
  qed (simp add: b)
qed simp

lemma tcp_delivers:
  assumes "te_addrinfo env 0 = Some a" "length a = sockaddr_size" "te_malloc env 0"
    and "listen_port (te_listen env 0) = None" "te_option env 0" "te_connect env 0"
    and "unat (tcpreceiver_buffer_size cfg) < 2 ^ 31" "tcpreceiver_compression_type cfg = 0"
    and "\<forall>n. length (te_source env n) = 16 \<and> te_read env n \<and> te_send env n"
    and "\<forall>bs \<in> set bss. bs \<noteq> [] \<and> length bs \<le> unat (tcpreceiver_buffer_size cfg) \<and> length bs + 257 < 2 ^ 31"
    and large: "16271 \<le> unat (tcpreceiver_buffer_size cfg)"
  shows "\<exists>s' ps. tcp_receiever_nano env cfg (arrived bss) s = Inr (Some (Waiting s')) \<and> tc_sent s' = tc_sent s @ ps \<and>
    map (\<lambda>p. payload (packet_wrap p)) ps = parts (te_ready env) (tc_count s) bss"
proof -
  let ?n = "unat (tcpreceiver_buffer_size cfg)"
  let ?env = "env\<lparr>te_ready := \<lambda>n. ?n\<rparr>"
  obtain p where p: "length (ip_buffer p) = 257 + ?n" "ip_max_data_size p = int ?n"
    and op: "tcp_open env cfg 0 s = Inr (Some (Inr (s\<lparr>tc_packet := p, tc_decoder := tcp_decoder env cfg\<rparr>)))"
    using large tcp_open_outcome [OF assms(1-3,7), of s] assms(4-6) by auto
  let ?s = "s\<lparr>tc_packet := p, tc_decoder := tcp_decoder env cfg\<rparr>"
  have "plain_ready ?env ?n ?s" using p assms(7-9) by (simp add: plain_ready_def decoder_setup)
  moreover have "\<forall>bs \<in> set (parts (te_ready env) (tc_count s) bss). bs \<noteq> [] \<and> length bs \<le> ?n \<and> length bs + 257 < 2 ^ 31"
    using parts_in assms(10) by fastforce
  ultimately obtain s' ps
    where d: "handle_all (tcp_body ?env cfg) (parts (te_ready env) (tc_count s) bss) ?s = Inr (Some s')" "tc_sent s' = tc_sent ?s @ ps"
      "map (\<lambda>p. payload (packet_wrap p)) ps = parts (te_ready env) (tc_count s) bss"
    using tcp_source.received_payloads [of ?env ?n ?s] by blast
  have "\<forall>bs \<in> set bss. length bs \<le> Suc ?n" using assms(10) by auto
  from short_reads [OF this, of env cfg ?s] d(1) have "handle_all (tcp_body env cfg) bss ?s = Inr (Some s')" by simp
  from tcp_client.run_waiting [OF op this] d(2,3) show ?thesis by (auto simp: tcp_receiever_nano_def)
qed

text \<open>
  C40: A listener with a buffer of less than 16271 bytes, as the default is, writes the address it
  listens on past the end of its packet before it accepts anything. With a larger buffer and no
  compression there is a packet on the bus for every connection, in their order, and it has the
  bytes that had come in when the connection was read: all bytes of the connection where all of them
  had come in by then.
\<close>

theorem tcp_needs_large_buffer:
  assumes "te_addrinfo env 0 = Some a" "length a = sockaddr_size" "te_malloc env 0"
    and "listen_port (te_listen env 0) = None" "te_option env 0" "te_connect env 0"
    and "unat (tcpreceiver_buffer_size cfg) < 2 ^ 31" "tcpreceiver_compression_type cfg = 0"
    and "\<forall>n. length (te_source env n) = 16 \<and> te_read env n \<and> te_send env n"
    and "\<forall>bs \<in> set bss. bs \<noteq> [] \<and> length bs \<le> unat (tcpreceiver_buffer_size cfg) \<and> length bs + 257 < 2 ^ 31"
  shows "if unat (tcpreceiver_buffer_size cfg) < 16271
    then tcp_receiever_nano env cfg (arrived bss) s = Inl OutOfBounds
    else \<exists>s' ps. tcp_receiever_nano env cfg (arrived bss) s = Inr (Some (Waiting s')) \<and> tc_sent s' = tc_sent s @ ps \<and>
      map (\<lambda>p. payload (packet_wrap p)) ps = parts (te_ready env) (tc_count s) bss \<and>
      ((\<forall>bs \<in> set bss. \<forall>k. length bs \<le> Suc (te_ready env k)) \<longrightarrow> map (\<lambda>p. payload (packet_wrap p)) ps = bss)"
proof (cases "unat (tcpreceiver_buffer_size cfg) < 16271")
  case True
  then have "tcp_open env cfg 0 s = Inl OutOfBounds" using tcp_open_outcome [OF assms(1-3,7), of s] by simp
  then show ?thesis using True by (simp add: tcp_receiever_nano_def run_sessions.simps)
next
  case False
  then have "16271 \<le> unat (tcpreceiver_buffer_size cfg)" by simp
  from tcp_delivers [OF assms this, of s] parts_all [of bss "te_ready env" "tc_count s"] False show ?thesis by auto
qed

definition example_tcp_env :: tcp_env where
  "example_tcp_env =
     \<lparr>te_addrinfo = (\<lambda>k. Some (replicate 16 7)), te_malloc = (\<lambda>k. True), te_listen = (\<lambda>k. []),
      te_option = (\<lambda>k. True), te_connect = (\<lambda>k. True), te_shutdown = (\<lambda>k. 0), te_source = (\<lambda>n. replicate 16 9),
      te_read = (\<lambda>n. True), te_ready = (\<lambda>n. 4095), te_send = (\<lambda>n. True), te_file = (\<lambda>f. []), te_strtod = (\<lambda>t. 0),
      te_garbage = [], te_fuel = 100, te_ret = True, te_junk = 0\<rparr>"

definition example_tcp_config :: "u64 \<Rightarrow> tcpreceiver_config" where
  "example_tcp_config n =
     \<lparr>tcpreceiver_intface = ''0.0.0.0'', tcpreceiver_port = 50052, tcpreceiver_message_url = [],
      tcpreceiver_buffer_size = n, tcpreceiver_retries = 0, tcpreceiver_retry_delay = 60,
      tcpreceiver_compression_type = 0, tcpreceiver_escape_code = [], tcpreceiver_eof_code = [],
      tcpreceiver_compression_offset = 0, tcpreceiver_frequence_file = [], tcpreceiver_codemap_file = [],
      tcpreceiver_valid_sizes = [], tcpreceiver_verbosity = 0, tcpreceiver_daemonize = False,
      tcpreceiver_max_fd = 0, tcpreceiver_path = []\<rparr>"

theorem tcp_needs_large_buffer_witness:
  "\<forall>s. tcp_receiever_nano example_tcp_env (example_tcp_config 4096) (arrived [[1, 2], [3]]) s = Inl OutOfBounds \<and>
   (\<exists>s' ps. tcp_receiever_nano example_tcp_env (example_tcp_config 20000) (arrived [[1, 2], [3]]) s = Inr (Some (Waiting s')) \<and>
      tc_sent s' = tc_sent s @ ps \<and> map (\<lambda>p. payload (packet_wrap p)) ps = [[1, 2], [3]])"
proof -
  have e: "te_addrinfo example_tcp_env 0 = Some (replicate 16 7)" "length (replicate 16 (7 :: byte)) = sockaddr_size"
    "te_malloc example_tcp_env 0" "listen_port (te_listen example_tcp_env 0) = None" "te_option example_tcp_env 0"
    "te_connect example_tcp_env 0"
    "\<forall>n. length (te_source example_tcp_env n) = 16 \<and> te_read example_tcp_env n \<and> te_send example_tcp_env n"
    by (simp_all add: example_tcp_env_def sockaddr_size_def listen_port_def)
  have c: "unat (tcpreceiver_buffer_size (example_tcp_config 4096)) = 4096"
    "unat (tcpreceiver_buffer_size (example_tcp_config 20000)) = 20000"
    "tcpreceiver_compression_type (example_tcp_config n) = 0" for n
    by (simp_all add: example_tcp_config_def)
  have r: "te_ready example_tcp_env = (\<lambda>n. 4095)" by (simp add: example_tcp_env_def)
  show ?thesis
  proof
    fix s :: tcp_state
    note t = tcp_needs_large_buffer [OF e(1-6) _ c(3) e(7), of _ "[[1, 2], [3]]" s]
    show "tcp_receiever_nano example_tcp_env (example_tcp_config 4096) (arrived [[1, 2], [3]]) s = Inl OutOfBounds \<and>
     (\<exists>s' ps. tcp_receiever_nano example_tcp_env (example_tcp_config 20000) (arrived [[1, 2], [3]]) s = Inr (Some (Waiting s')) \<and>
        tc_sent s' = tc_sent s @ ps \<and> map (\<lambda>p. payload (packet_wrap p)) ps = [[1, 2], [3]])"
      using t [of 4096] t [of 20000] by (fastforce simp: c r)
  qed
qed

subsection \<open>With compression\<close>

text \<open>
  With compression every connection ends in the use of a value that was never set: the size of a
  packet that the decoder is to force, which nothing but setForceSize sets.
\<close>

theorem compression_reads_uninitialised:
  assumes "tcpreceiver_compression_type cfg \<noteq> 0" "tc_decoder s = tcp_decoder env cfg"
    and "length (ip_buffer (tc_packet s)) = 257 + cap" "ip_max_data_size (tc_packet s) = int cap" "cap < 2 ^ 31"
    and "length (te_source env (tc_count s)) = 16" "te_read env (tc_count s)"
    and "length bs \<le> cap" "size_t (tcpreceiver_compression_offset cfg) \<le> length bs"
    and "length bs \<le> Suc (te_ready env (tc_count s))"
  shows "tcp_body env cfg bs s = Inl Uninitialised"
proof -
  obtain p where p: "tcp_read env (tc_count s) bs (tc_packet s) = Inr (length bs, p)" "length (ip_buffer p) = 257 + cap"
    using tcp_read_ok [OF assms(7,6,3,4,8,5,10)] by blast
  have "length bs \<le> length (payload p)" using p(2) assms(8) by (simp add: payload_def layout)
  then have "decode_buffer2buffer (te_fuel env) (te_ret env) (te_junk env) (tcp_decoder env cfg) (Some (payload p))
      (size_t (ip_max_data_size p)) (Some (payload p)) (length bs) (size_t (tcpreceiver_compression_offset cfg)) = Inl Uninitialised"
    using assms(1,9) by (simp add: decode_buffer2buffer_def unpack_def decoder_setup not_less split: option.split)
  then show ?thesis by (simp add: tcp_body_def p(1) assms(2))
qed

end
