(* ===== verification/NumberLines.thy ===== *)
theory NumberLines
  imports LineWriter Pipeline
begin

section \<open>Messages of numbers as lines\<close>

text \<open>
  What the writer of lines prints for a message whose fields are numbers from a packet: in the
  modes that separate the values by position, the name of the table and the numbers in decimals.
\<close>

subsection \<open>The line of a packet\<close>

definition line_separator :: "int \<Rightarrow> string" where
  "line_separator mode = (if mode = 1 then '', '' else [CHR 0x09])"

text \<open>The decimal text of the number that a packet has for a field of the message.\<close>

definition printed_number :: "packet_variable \<Rightarrow> bytes \<Rightarrow> field_desc \<Rightarrow> string" where
  "printed_number pv bs fd =
     (case extractFieldUInt bs (source_field (pk_fields (pv_packet pv)) fd) of
        Inr v \<Rightarrow> dec_str (unat (ucast v :: u32)) | Inl e \<Rightarrow> [])"

definition number_line :: "handlerline_config \<Rightarrow> string \<Rightarrow> descriptor \<Rightarrow> packet_variable \<Rightarrow> bytes \<Rightarrow> string" where
  "number_line cfg t md pv bs =
     sep_by (line_separator (handlerline_mode cfg))
       (quoted dquote (findAlias (Some (handlerline_tableAliases cfg)) t)
         # map (printed_number pv bs) (md_fields md) @ map snd (handlerline_properties cfg)) @ endl"

lemma number_value_printed:
  assumes "number_field (length bs) (source_field (pk_fields (pv_packet pv)) fd)"
    and "f_type (source_field (pk_fields (pv_packet pv)) fd) = INPUT_UINT"
  shows "plain_text rt (number_value bs (pk_fields (pv_packet pv)) fd) = printed_number pv bs fd"
  using number_value_extracted [OF assms] by (auto simp: plain_text_def printed_number_def)

subsection \<open>The walk over a message of numbers\<close>

lemma collect_single: "(\<And>x. x \<in> set xs \<Longrightarrow> f x = Inr (Some [g x])) \<Longrightarrow> collect f xs = Inr (Some (map g xs))"
  by (induction xs) simp_all

lemma decompose_numbers:
  assumes "pool t = Some md" "list_all (\<lambda>fd. \<not> fd_repeated fd) (md_fields md)" "indexes_ok (Some c)"
  shows "\<exists>evs. decompose (Suc n) (Some c) pool True (PbMessage t (map (\<lambda>fd. [PUInt32 (val fd)]) (md_fields md))) =
      Inr (Some (0, evs)) \<and> map ev_value evs = map (\<lambda>fd. PUInt32 (val fd)) (md_fields md)"
proof -
  let ?again = "decomposeMessage n (Some c) pool"
  define idx where "idx fd = (case key_index (Some c) (md_full_name md) fd of Inr i \<Rightarrow> i | Inl e \<Rightarrow> 0)" for fd
  define ev where "ev p = (case p of (fd, slot) \<Rightarrow>
    \<lparr>ev_message = md_full_name md, ev_field = fd, ev_value = PUInt32 (val fd), ev_index = idx fd\<rparr>)"
    for p :: "field_desc \<times> pb_value list"
  let ?fss = "zip (md_fields md) (map (\<lambda>fd. [PUInt32 (val fd)]) (md_fields md))"
  have fss: "?fss = map (\<lambda>fd. (fd, [PUInt32 (val fd)])) (md_fields md)" by (simp add: zip_map2 zip_same_conv_map)
  have one: "(case p of (fd, slot) \<Rightarrow> decomposeField ?again (Some c) pool md fd slot) = Inr (Some [ev p])"
    if p: "p \<in> set ?fss" for p
  proof -
    obtain fd where fd: "p = (fd, [PUInt32 (val fd)])" "\<not> fd_repeated fd"
      using p assms(2) by (auto simp: fss list_all_iff)
    obtain i where "key_index (Some c) (md_full_name md) fd = Inr i" using key_index_ok [OF assms(3)] by blast
    then show ?thesis
      using fd by (simp add: decomposeField_def field_values_def get_value_def decompose_value_def passed_def ev_def idx_def)
  qed
  have "collect (\<lambda>(fd, slot). decomposeField ?again (Some c) pool md fd slot) ?fss = Inr (Some (map ev ?fss))"
    using collect_single [of ?fss _ ev] one by blast
  then show ?thesis using assms(1)
    by (intro exI [of _ "map ev ?fss"]) (simp add: decompose_def fss ev_def)
qed

lemma addJavascriptMessage_numbers:
  assumes "pool t = Some md" "list_all (\<lambda>fd. \<not> fd_repeated fd) (md_fields md)"
  shows "\<exists>v. addJavascriptMessage (Suc n) f2d pool (PbMessage t (map (\<lambda>fd. [PUInt32 (val fd)]) (md_fields md))) =
    Inr (Some v)"
proof -
  have "\<exists>obj'. js_fields again f2d pool (map (\<lambda>fd. (fd, [PUInt32 (val fd)])) fds) obj = Inr (Some obj')"
    if "list_all (\<lambda>fd. \<not> fd_repeated fd) fds" for again obj fds
    using that
    by (induction fds arbitrary: obj) (simp_all add: addJavascriptFieldDefault_def addJavascriptField_def get_value_def)
  from this [OF assms(2)] show ?thesis using assms(1) by (auto simp: zip_map2 zip_same_conv_map comp_def)
qed

text \<open>A type whose messages the writer can print: an empty packet of the type has its fields.\<close>

definition number_printer :: "'e settings \<Rightarrow> declarations \<Rightarrow> cache \<Rightarrow> string \<Rightarrow> descriptor \<Rightarrow> packet_variable \<Rightarrow> bool" where
  "number_printer st pd c t md pv =
     (0 < st_fuel st \<and> st_format_number st < 0 \<and> st_pool st = getMessageDescriptor pd \<and> declarations_ok pd \<and>
      cache_new (st_fuel st) (st_hash st) pd = Inr (Some c) \<and> getMessageDescriptor pd t = Some md \<and>
      map_of (oc_variables c) t = Some pv \<and> md_fields md \<noteq> [] \<and>
      list_all (takes_number (pk_fields (pv_packet pv))) (md_fields md) \<and>
      (case getEmptyPacket pv of
         Inr packet \<Rightarrow> list_all (number_field (length packet)) (pk_fields (pv_packet pv)) | Inl e \<Rightarrow> False))"

lemma number_printer_context:
  assumes "number_printer st pd c t md pv"
  obtains e packet where "packet_variable_new (st_fuel st) (st_hash st) (oc_declarations c) t = Inr (Some pv)"
    "getEmptyPacket pv = Inr packet" "js_context_packet (st_fuel st) rt now c pv packet = Inr (Some e)"
proof -
  let ?fs = "pk_fields (pv_packet pv)"
  have c: "cache_new (st_fuel st) (st_hash st) pd = Inr (Some c)" "getMessageDescriptor pd t = Some md"
    "map_of (oc_variables c) t = Some pv" using assms by (simp_all add: number_printer_def)
  obtain packet where packet: "getEmptyPacket pv = Inr packet" "list_all (number_field (length packet)) ?fs"
    using assms by (auto simp: number_printer_def split: sum.splits)
  have "isOk (field_js (float_to_double rt) packet f)" if "f \<in> set ?fs" for f
    using field_number_js [of packet f] that packet(2) by (auto simp: list_all_iff isOk_iff)
  from push_fields_ok [OF this] obtain obj where obj: "push_fields (float_to_double rt) packet ?fs [] = Inr obj" by blast
  obtain n where "st_fuel st = Suc n" using assms by (auto simp: number_printer_def gr0_conv_Suc)
  moreover have "list_all (\<lambda>fd. fd_type fd \<noteq> CPPTYPE_MESSAGE) (md_fields md)"
    using assms by (auto simp: number_printer_def list_all_iff takes_number_def)
  ultimately obtain e where "js_context_packet (st_fuel st) rt now c pv packet = Inr (Some e)"
    using cached_type [OF c] c(2) by (simp add: js_context_packet_def obj push_nested_all_none)
  then show thesis using cached_type(1,3) [OF c] packet(1) that by simp
qed

lemma number_message_walk:
  assumes "number_printer st pd c t md pv"
    and "m = PbMessage t (map (\<lambda>fd. [number_value bs (pk_fields (pv_packet pv)) fd]) (md_fields md))"
  shows "\<exists>e evs. decomposer_of_type (st_fuel st) (st_hash st) (st_runtime st) (st_time st) t c (st_pool st) True m =
      Inr (Some (e, 0, evs)) \<and>
    map ev_value evs = map (number_value bs (pk_fields (pv_packet pv))) (md_fields md)"
proof -
  have pool: "st_pool st t = Some md" using assms(1) by (simp add: number_printer_def)
  have single: "list_all (\<lambda>fd. \<not> fd_repeated fd) (md_fields md)"
    using assms(1) by (auto simp: number_printer_def list_all_iff takes_number_def)
  have c: "cache_new (st_fuel st) (st_hash st) pd = Inr (Some c)" "declarations_ok pd"
    using assms(1) by (simp_all add: number_printer_def)
  have ok: "indexes_ok (Some c)"
    by (rule cache_new_indexes_ok [OF c(1)]) (use declarations_okD [OF c(2)] in blast)
  let ?val = "\<lambda>fd. ucast (field_number bs (source_field (pk_fields (pv_packet pv)) fd))"
  obtain n where n: "st_fuel st = Suc n" using assms(1) by (auto simp: number_printer_def gr0_conv_Suc)
  obtain e packet where made: "packet_variable_new (st_fuel st) (st_hash st) (oc_declarations c) t = Inr (Some pv)"
    "getEmptyPacket pv = Inr packet" "js_context_packet (st_fuel st) (st_runtime st) (st_time st) c pv packet = Inr (Some e)"
    by (rule number_printer_context [OF assms(1)])
  obtain v where v: "addJavascriptMessage (st_fuel st) (float_to_double (st_runtime st)) (st_pool st) m = Inr (Some v)"
    using addJavascriptMessage_numbers [where val = ?val and n = n and pool = "st_pool st" and t = t and md = md, OF pool single] by (auto simp: n assms(2) number_value_def)
  obtain evs where evs: "decompose (st_fuel st) (Some c) (st_pool st) True m = Inr (Some (0, evs))"
    "map ev_value evs = map (number_value bs (pk_fields (pv_packet pv))) (md_fields md)"
    using decompose_numbers [where val = ?val and n = n and pool = "st_pool st" and t = t and md = md, OF pool single ok]
    by (auto simp: n assms(2) number_value_def [abs_def])
  show ?thesis
    by (intro exI [of _ "put_global (st_runtime st) ''value'' v e"] exI [of _ evs] conjI evs(2))
       (simp add: decomposer_of_type_def made v evs(1))
qed

subsection \<open>Printing\<close>

lemma index_strings_cached:
  assumes "map_of (oc_variables c) t = Some pv"
  shows "\<exists>vals. index_strings_quoted c t a q = (vals, c) \<and> is_table vals = t \<and> is_quote vals = q \<and> is_values vals = []"
    "index_strings_new c t = index_strings_quoted c t squote dquote"
  using assms
  by (auto simp: index_strings_new_def index_strings_quoted_def getMessageId_def smap_subscript_def split: prod.splits)

lemma add_all_values_quote: "is_quote (add_all_values vs s) = is_quote s"
  by (induction vs arbitrary: s) (auto simp: add_all_values_def is_add_sizes split: prod.splits)

lemma put_number_line:
  assumes "number_printer st pd c t md pv" "list_all (number_field (length bs)) (pk_fields (pv_packet pv))"
    and "findAlias (Some (handlerline_tableAliases cfg)) t \<noteq> []" "handlerline_mode cfg = 1 \<or> handlerline_mode cfg = 2"
    and "m = PbMessage t (map (\<lambda>fd. [number_value bs (pk_fields (pv_packet pv)) fd]) (md_fields md))"
  shows "put_message st w DebugString (handlerline_mode cfg) d (Some (handlerline_tableAliases cfg)) fieldAliases
      (Some (handlerline_properties cfg)) c t m = Inr (Some (0, number_line cfg t md pv bs, c))"
proof -
  let ?fs = "pk_fields (pv_packet pv)"
  obtain e evs where walk: "decomposer_of_type (st_fuel st) (st_hash st) (st_runtime st) (st_time st) t c (st_pool st) True m =
      Inr (Some (e, 0, evs))" and vs: "map ev_value evs = map (number_value bs ?fs) (md_fields md)"
    using number_message_walk [OF assms(1,5)] by blast
  have texts: "map (\<lambda>ev. plain_text (st_runtime st) (ev_value ev)) evs = map (printed_number pv bs) (md_fields md)"
  proof -
    have "plain_text (st_runtime st) (number_value bs ?fs fd) = printed_number pv bs fd" if "fd \<in> set (md_fields md)" for fd
    proof (rule number_value_printed)
      have "takes_number ?fs fd" using that assms(1) by (auto simp: number_printer_def list_all_iff)
      from source_field_props [OF this] assms(2)
      show "number_field (length bs) (source_field ?fs fd)" "f_type (source_field ?fs fd) = INPUT_UINT"
        by (auto simp: list_all_iff)
    qed
    then show ?thesis using arg_cong [OF vs, of "map (plain_text (st_runtime st))"] by (simp add: comp_def)
  qed
  have pv: "map_of (oc_variables c) t = Some pv" and f: "st_format_number st < 0" and ne: "md_fields md \<noteq> []"
    using assms(1) by (simp_all add: number_printer_def)
  have line: "put_values st (vals, c) t m (\<lambda>vals. Inr (line_text sep vals (Some (handlerline_tableAliases cfg))
      (Some (handlerline_properties cfg)))) =
      Inr (Some (0, sep_by sep (quoted dquote (findAlias (Some (handlerline_tableAliases cfg)) t)
        # map (printed_number pv bs) (md_fields md) @ map snd (handlerline_properties cfg)) @ endl, c))"
    if vals: "is_table vals = t" "is_quote vals = dquote" "is_values vals = []" for vals sep
  proof -
    define s where "s = add_all_values (map (event_text (st_runtime st)) evs) vals"
    have s: "is_table s = t" "is_quote s = dquote"
      using vals(1,2) add_all_values_keeps [of "map (event_text (st_runtime st)) evs" vals]
      by (simp_all add: s_def add_all_values_quote)
    have "map nv_value (is_values s) = map (printed_number pv bs) (md_fields md)"
      using texts by (simp add: s_def add_all_values_values vals(3) event_text_def name_value_new_def comp_def)
    then have cells: "line_values s (Some (handlerline_properties cfg)) =
        map (printed_number pv bs) (md_fields md) @ map snd (handlerline_properties cfg)"
      by (simp add: line_values_def prop_list_def)
    have "fill_values st c t m vals = Inr (Some s)"
      using fill_values_plain [OF f walk] by (simp add: s_def)
    then show ?thesis
      using line_text_eq [of "Some (handlerline_tableAliases cfg)" s "Some (handlerline_properties cfg)" sep] assms(3) ne
      by (simp add: put_values_def s cells)
  qed
  obtain v1 v2 where "index_strings_quoted c t squote dquote = (v1, c)" "index_strings_quoted c t dquote dquote = (v2, c)"
    "is_table v1 = t \<and> is_quote v1 = dquote \<and> is_values v1 = []" "is_table v2 = t \<and> is_quote v2 = dquote \<and> is_values v2 = []"
    using index_strings_cached(1) [OF pv, of squote dquote] index_strings_cached(1) [OF pv, of dquote dquote] by blast
  then show ?thesis
    using assms(4) line [of v1] line [of v2] index_strings_cached(2) [OF pv]
    by (auto simp: put_message_def put_csv_def put_tab_def toStringCSV_def toStringTab_def number_line_def line_separator_def)
qed

lemma print_number_lines:
  assumes "number_printer (we_settings e) pd c t md pv"
    and "\<forall>bs \<in> set bss. list_all (number_field (length bs)) (pk_fields (pv_packet pv))"
    and "findAlias (Some (handlerline_tableAliases cfg)) t \<noteq> []" "handlerline_mode cfg = 1 \<or> handlerline_mode cfg = 2"
    and "message = (\<lambda>bs. PbMessage t (map (\<lambda>fd. [number_value bs (pk_fields (pv_packet pv)) fd]) (md_fields md)))"
    and "ls_cache s = c"
  shows "print_all e DebugString cfg (map message bss) s =
    Inr (Some (s\<lparr>ls_stream := ls_stream s @ concat (map (number_line cfg t md pv) bss)\<rparr>))"
  using assms(2,6)
proof (induction bss arbitrary: s)
  case (Cons bs bss)
  have "put_message (we_settings e) (we_wire e) DebugString (handlerline_mode cfg) (handlerline_sql_dialect cfg)
      (Some (handlerline_tableAliases cfg)) (Some (handlerline_fieldAliases cfg)) (Some (handlerline_properties cfg))
      c t (message bs) = Inr (Some (0, number_line cfg t md pv bs, c))"
    using Cons.prems(1) by (intro put_number_line [OF assms(1) _ assms(3,4)]) (simp_all add: assms(5))
  moreover have "pm_type (message bs) = t" by (simp add: assms(5))
  ultimately show ?case
    using Cons.IH [of "s\<lparr>ls_stream := ls_stream s @ number_line cfg t md pv bs\<rparr>"] Cons.prems
    by (cases s) (simp add: line_put_def)
qed simp

end
