(* ===== verification/EndToEnd.thy ===== *)
theory EndToEnd
  imports FileReceiver NumberLines
begin

section \<open>From a file to printed lines\<close>

text \<open>
  The receiver of files, the receiver of packets and the writer of lines are three processes. What
  one of them has sent arrives at the next: the packets of a file become messages, and the
  messages are printed.
\<close>

subsection \<open>Types of numbers\<close>

text \<open>
  A type whose packets have numbers in fields of their own, and whose message has a number for
  each of its fields; the script engine reads the fields of a packet.
\<close>

definition number_type :: "'e nano_env \<Rightarrow> cache \<Rightarrow> string \<Rightarrow> descriptor \<Rightarrow> packet_variable \<Rightarrow> bool" where
  "number_type env c t md pv =
     (reads_fields (st_runtime (we_settings env)) \<and> declarations_ok (we_declarations env) \<and>
      cache_new (st_fuel (we_settings env)) (st_hash (we_settings env)) (we_declarations env) = Inr (Some c) \<and>
      getMessageDescriptor (we_declarations env) t = Some md \<and> t \<noteq> [] \<and> map_of (oc_variables c) t = Some pv \<and>
      distinct (map f_name (pk_fields (pv_packet pv))) \<and>
      list_all (takes_number (pk_fields (pv_packet pv))) (md_fields md) \<and>
      0 < st_fuel (we_settings env) \<and> st_pool (we_settings env) = getMessageDescriptor (we_declarations env))"

definition number_packet :: "packet_variable \<Rightarrow> bytes \<Rightarrow> bool" where
  "number_packet pv bs = list_all (number_field (length bs)) (pk_fields (pv_packet pv))"

definition number_message :: "string \<Rightarrow> descriptor \<Rightarrow> packet_variable \<Rightarrow> bytes \<Rightarrow> pb_message" where
  "number_message t md pv bs =
     PbMessage t (map (\<lambda>fd. [number_value bs (pk_fields (pv_packet pv)) fd]) (md_fields md))"

text \<open>The slots of the message are the numbers that the accessors read from the packet.\<close>

lemma number_message_slots:
  assumes "number_type env c t md pv" "number_packet pv bs"
  shows "list_all2 (\<lambda>fd slot. \<exists>v. extractFieldUInt bs (source_field (pk_fields (pv_packet pv)) fd) = Inr v \<and>
    slot = [PUInt32 (ucast v)]) (md_fields md) (pm_slots (number_message t md pv bs))"
  using assms unfolding number_type_def number_packet_def
  by (intro numbers_parsed(2) [OF _ _ _ _ _ _ _ _ _ number_message_def]) blast+

lemma number_packet_message:
  assumes "number_type env c t md pv" "number_packet pv (drop 257 buf)"
    and "pkt2receiver_force_message cfg = t" "destination_readable env buf"
  shows "packet_message env cfg c buf = Inr (Some (Some (number_message t md pv (drop 257 buf)), c))"
proof -
  obtain n where "st_fuel (we_settings env) = Suc n" using assms(1) by (auto simp: number_type_def gr0_conv_Suc)
  then show ?thesis using assms unfolding number_type_def number_packet_def length_drop
    by (intro packet_message_numbers [OF _ _ _ _ _ _ _ _ _ _ _ _ _ number_message_def]) blast+
qed

subsection \<open>The receiver of packets over a list of packets\<close>

lemma receiver_sends_all:
  assumes "\<forall>p \<in> set ps. packet_message env cfg c p = Inr (Some (Some (f p), c)) \<and> 257 < length p \<and> length p < 2 ^ 31"
    and "pkt2receiver_allowed_packet_sizes cfg = []" "pkt2receiver_verbosity cfg = 0" "\<forall>n. ne_send env n"
    and "ns_cache s = c"
  shows "\<exists>s'. bus_loop (nano_step env cfg) 0 (arrived ps @ [(sig, Interrupted)]) s = Inr (Some (1, [], s')) \<and>
    ns_sent s' = ns_sent s @ map (\<lambda>p. sent_message (we_wire env) (f p)) ps"
  using assms(1,5)
proof (induction ps arbitrary: s)
  case Nil
  have "getPayloadSize (- 1) < 0" by code_simp
  then show ?case by (simp add: arrived_def nano_step_def Let_def)
next
  case (Cons p ps)
  have m: "packet_message env cfg (ns_cache s) p = Inr (Some (Some (f p), c))" "257 < length p" "length p < 2 ^ 31"
    using Cons.prems by simp_all
  have v: "1 \<le> pkt2receiver_verbosity cfg \<longrightarrow> isOk (ne_json env (f p))" using assms(3) by simp
  from nano_step_sends [OF m disjI1 [OF assms(2)] _ v] assms(4) obtain s1
    where s1: "nano_step env cfg (Arrived p) s = Inr (Some (0, s1))"
      "ns_sent s1 = ns_sent s @ [sent_message (we_wire env) (f p)]" "ns_cache s1 = c" by blast
  from Cons.IH [OF _ s1(3)] Cons.prems(1) s1 show ?case by (auto simp: arrived_def)
qed

lemma receiver_run_sends_all:
  assumes "number_type env c t md pv" "pkt2receiver_force_message cfg = t"
    and "\<forall>p \<in> set ps. number_packet pv (drop 257 p) \<and> destination_readable env p \<and> 257 < length p \<and> length p < 2 ^ 31"
    and "pkt2receiver_allowed_packet_sizes cfg = []" "pkt2receiver_verbosity cfg = 0" "\<forall>n. ne_send env n"
    and "ne_calls env 0 = []"
  shows "\<exists>s'. nano_run env cfg (arrived ps @ [(sig, Interrupted)]) s =
      Inr (Some (Returned (if su_shutdown (we_setup env 0) \<noteq> 0 then - 20 else 0) [] s')) \<and>
    ns_sent s' = ns_sent s @ map (\<lambda>p. sent_message (we_wire env) (number_message t md pv (drop 257 p))) ps"
proof -
  let ?s = "s\<lparr>ns_session := 0, ns_in := 0, ns_out := 0, ns_cache := c\<rparr>"
  have "open_cache (writer_env.truncate env) = Inr (Some c)"
    using assms(1) by (simp add: open_cache_def writer_env.truncate_def number_type_def)
  then have op: "nano_open env 0 (s\<lparr>ns_session := 0, ns_in := 0, ns_out := 0\<rparr>) = Inr (Some (Inr ?s))"
    using assms(7) by (simp add: nano_open_def)
  have "\<forall>p \<in> set ps. packet_message env cfg c p = Inr (Some (Some (number_message t md pv (drop 257 p)), c)) \<and>
      257 < length p \<and> length p < 2 ^ 31"
    using number_packet_message [OF assms(1) _ assms(2)] assms(3) by blast
  from receiver_sends_all [OF this assms(4-6), of ?s sig] obtain s' where
    "bus_loop (nano_step env cfg) 0 (arrived ps @ [(sig, Interrupted)]) ?s = Inr (Some (1, [], s'))"
    "ns_sent s' = ns_sent s @ map (\<lambda>p. sent_message (we_wire env) (number_message t md pv (drop 257 p))) ps"
    by auto
  with op show ?thesis by (auto simp: nano_run_def run_sessions.simps [of True] Let_def)
qed

section \<open>The file is printed\<close>

text \<open>The writer of lines opens its stream and prints the messages of the packets that it gets.\<close>

lemma numbers_are_printed:
  assumes "e = line_env wenv cfg" "number_printer (we_settings e) (we_declarations wenv) c t md pv"
    and "\<forall>bs \<in> set bss. number_packet pv bs"
    and "findAlias (Some (handlerline_tableAliases cfg)) t \<noteq> []" "handlerline_mode cfg = 1 \<or> handlerline_mode cfg = 2"
    and "handlerline_allowed_messages cfg = [] \<or> t \<in> set (handlerline_allowed_messages cfg)"
    and "su_socket (we_setup wenv 0)" "su_connect (we_setup wenv 0)" "su_malloc (we_setup wenv 0)"
    and "wire_ok (we_wire wenv)" "\<forall>bs \<in> set bss. deliverable e (handlerline_buffer_size cfg) (number_message t md pv bs)"
  shows "\<exists>ls2. line_run wenv DebugString cfg
      (arrived (map (\<lambda>bs. sent_message (we_wire wenv) (number_message t md pv bs)) bss) @ [(Some g, Interrupted)]) ls =
      Inr (Some (Returned (close_writer wenv 0) [] ls2)) \<and>
    ls_stream ls2 = ls_stream ls @ concat (map (number_line cfg t md pv) bss)"
proof -
  let ?ms = "map (number_message t md pv) bss" and ?ls1 = "ls\<lparr>ls_cache := c\<rparr>"
  have w: "we_wire e = we_wire wenv" "we_setup e = we_setup wenv" "we_declarations e = we_declarations wenv"
    by (simp_all add: assms(1) line_env_def)
  have "getMessageDescriptor (we_declarations wenv) t = Some md"
    "cache_new (st_fuel (we_settings e)) (st_hash (we_settings e)) (we_declarations wenv) = Inr (Some c)"
    using assms(2) by (simp_all add: number_printer_def)
  then have op: "line_open e 0 ls = Inr (Some (Inr ?ls1))"
    using assms(7-9)
    by (cases "we_declarations wenv = []")
       (simp_all add: line_open_def open_writer_def open_cache_def w Let_def getMessageDescriptor_def)
  have "filter (allowed (handlerline_allowed_messages cfg)) ?ms = ?ms"
    using assms(6) by (auto simp: filter_id_conv allowed_def number_message_def)
  moreover have "print_all e DebugString cfg ?ms ?ls1 =
      Inr (Some (?ls1\<lparr>ls_stream := ls_stream ?ls1 @ concat (map (number_line cfg t md pv) bss)\<rparr>))"
    using assms(3) unfolding number_packet_def
    by (intro print_number_lines [OF assms(2) _ assms(4,5)]) (auto simp: number_message_def [abs_def])
  ultimately have "print_all e DebugString cfg (filter (allowed (handlerline_allowed_messages cfg)) ?ms) ?ls1 =
      Inr (Some (?ls1\<lparr>ls_stream := ls_stream ls @ concat (map (number_line cfg t md pv) bss)\<rparr>))" by simp
  moreover have "\<forall>m \<in> set ?ms. deliverable e (handlerline_buffer_size cfg) m" using assms(11) by simp
  ultimately have "handle_all (line_body e DebugString cfg) (map (sent_message (we_wire wenv)) ?ms) ?ls1 =
      Inr (Some (?ls1\<lparr>ls_stream := ls_stream ls @ concat (map (number_line cfg t md pv) bss)\<rparr>))"
    using line_handle_all [of e ?ms cfg DebugString ?ls1] assms(10) by (simp only: w)
  from line_client.run_until_interrupted [OF op this, of "close_writer e 0" _ True "Some g" "[]"]
  have "line_run wenv DebugString cfg
      (arrived (map (\<lambda>bs. sent_message (we_wire wenv) (number_message t md pv bs)) bss) @ [(Some g, Interrupted)]) ls =
      Inr (Some (Returned (close_writer e 0) [] (?ls1\<lparr>ls_stream := ls_stream ls @ concat (map (number_line cfg t md pv) bss)\<rparr>)))"
    by (simp add: line_run_def comp_def assms(1) [symmetric])
  moreover have "close_writer e 0 = close_writer wenv 0" by (simp add: close_writer_def w)
  ultimately show ?thesis by auto
qed

text \<open>
  C1: A file has a line of hexadecimal digits for every packet of a type of numbers. The receiver of
  files sends a packet for every line, the receiver of packets sends the message of each of these
  packets, and the writer of lines, in a mode that separates values by commas or tabs, appends to
  its stream exactly one line for every line of the file, in their order: the name of the table,
  and for every field of the message the number that the accessor reads from the packet in decimals
  (\<open>number_line\<close>). The receiver of packets reads a destination address at byte 16512, behind every
  packet; this holds where the memory there can be read, which is a condition on the environment.
  Where it cannot, the receiver has no defined result (\<open>packet_message_faults\<close>).
\<close>

theorem file_is_printed:
  assumes "freceiver_file_mode fcfg = 1" "freceiver_packet_size fcfg \<le> 0"
    and "unat (freceiver_buffer_size fcfg) < 2 ^ 31" "fe_malloc (su 0)" "fe_option (su 0)" "fe_connect (su 0)"
    and "\<forall>bs \<in> set bss. bs \<noteq> [] \<and> length bs \<le> unat (freceiver_buffer_size fcfg) \<and> length bs + 257 < 2 ^ 31 \<and>
      number_packet pv bs"
    and "f = concat (map (\<lambda>bs. hexString bs @ endl) bss)"
    and "number_type env c t md pv" "pkt2receiver_force_message rcfg = t"
    and "pkt2receiver_allowed_packet_sizes rcfg = []" "pkt2receiver_verbosity rcfg = 0"
    and "\<forall>n. ne_send env n" "ne_calls env 0 = []" "socket_addr_dst + sockaddr_size \<le> length (ne_beyond env)"
    and "e = line_env wenv lcfg" "number_printer (we_settings e) (we_declarations wenv) c t md pv"
    and "findAlias (Some (handlerline_tableAliases lcfg)) t \<noteq> []" "handlerline_mode lcfg = 1 \<or> handlerline_mode lcfg = 2"
    and "handlerline_allowed_messages lcfg = [] \<or> t \<in> set (handlerline_allowed_messages lcfg)"
    and "su_socket (we_setup wenv 0)" "su_connect (we_setup wenv 0)" "su_malloc (we_setup wenv 0)"
    and "wire_ok (we_wire wenv)" "we_wire wenv = we_wire env"
    and "\<forall>bs \<in> set bss. deliverable e (handlerline_buffer_size lcfg) (number_message t md pv bs)"
    and "ns_sent s = []"
  shows "\<exists>ps s' ls2. fileReceieve su (\<lambda>k. True) fcfg f 0 [] f [] =
      Inr (Some (if fe_shutdown (su 0) < 0 then - 20 else 0, ps)) \<and>
    nano_run env rcfg (arrived ps @ [(Some g, Interrupted)]) s =
      Inr (Some (Returned (if su_shutdown (we_setup env 0) \<noteq> 0 then - 20 else 0) [] s')) \<and>
    line_run wenv DebugString lcfg (arrived (ns_sent s') @ [(Some g, Interrupted)]) ls =
      Inr (Some (Returned (close_writer wenv 0) [] ls2)) \<and>
    ls_stream ls2 = ls_stream ls @ concat (map (number_line lcfg t md pv) bss)"
proof -
  have bss: "\<forall>bs \<in> set bss. bs \<noteq> [] \<and> length bs \<le> unat (freceiver_buffer_size fcfg) \<and> length bs + 257 < 2 ^ 31"
    and packets: "\<forall>bs \<in> set bss. number_packet pv bs"
    using assms(7) by blast+
  have "all_data (freceiver_file_mode fcfg) (freceiver_packet_size fcfg) f = bss"
    unfolding assms(1,8) using assms(2) bss by (intro all_data_hex) auto
  from data_is_sent [where bss = bss and contents = f and f = f and su = su, OF assms(3-6) bss this] obtain ps
    where read: "fileReceieve su (\<lambda>k. True) fcfg f 0 [] f [] =
      Inr (Some (if fe_shutdown (su 0) < 0 then - 20 else 0, ps))"
      and ps: "map (drop 257) ps = bss" by (auto simp: payload_wrap)
  have "number_packet pv (drop 257 p) \<and> destination_readable env p \<and> 257 < length p \<and> length p < 2 ^ 31" if "p \<in> set ps" for p
  proof -
    have "drop 257 p \<in> set bss" using that ps by auto
    then have "number_packet pv (drop 257 p)" "drop 257 p \<noteq> []" "length p - 257 + 257 < 2 ^ 31" using assms(7) by auto
    then show ?thesis using assms(15) by (simp add: destination_readable_def)
  qed
  then have "\<forall>p \<in> set ps. number_packet pv (drop 257 p) \<and> destination_readable env p \<and> 257 < length p \<and> length p < 2 ^ 31"
    by blast
  from receiver_run_sends_all [where s = s and sig = "Some g", OF assms(9,10) this assms(11-14)] assms(27) obtain s'
    where nano: "nano_run env rcfg (arrived ps @ [(Some g, Interrupted)]) s =
      Inr (Some (Returned (if su_shutdown (we_setup env 0) \<noteq> 0 then - 20 else 0) [] s'))"
      and sent: "ns_sent s' = map (\<lambda>p. sent_message (we_wire env) (number_message t md pv (drop 257 p))) ps" by auto
  have "ns_sent s' = map (\<lambda>bs. sent_message (we_wire wenv) (number_message t md pv bs)) bss"
    using sent ps [symmetric] assms(25) by (simp add: comp_def)
  with numbers_are_printed [OF assms(16,17) packets assms(18-24,26), of DebugString g ls] read nano
  show ?thesis by auto
qed

subsection \<open>An example\<close>

lemma sensor_number_type:
  obtains c pv where "number_type sensor_nano c ''s'' sensor_md pv" "pk_fields (pv_packet pv) = sensor_fields"
proof -
  have "case cache_new 1 (\<lambda>s. 7) sensor_declarations of
      Inr (Some c) \<Rightarrow> (case map_of (oc_variables c) ''s'' of
        Some pv \<Rightarrow> pk_fields (pv_packet pv) = sensor_fields
      | None \<Rightarrow> False)
    | _ \<Rightarrow> False"
    by code_simp
  then obtain c pv where c: "cache_new 1 (\<lambda>s. 7) sensor_declarations = Inr (Some c)" "map_of (oc_variables c) ''s'' = Some pv"
    and fs: "pk_fields (pv_packet pv) = sensor_fields" by (auto split: sum.splits option.splits)
  have "declarations_ok sensor_declarations"
    by (simp add: declarations_ok_def sensor_declarations_def sensor_field_def example_field_desc_def)
  moreover have "getMessageDescriptor sensor_declarations ''s'' = Some sensor_md"
    by (simp add: getMessageDescriptor_def sensor_declarations_def sensor_md_def)
  ultimately have "number_type sensor_nano c ''s'' sensor_md pv"
    using c path_reads_fields sensor_packet_fields(2,3) by (simp add: number_type_def sensor_nano_def fs)
  then show thesis using that fs by blast
qed

lemma sensor_number_message:
  assumes "number_type sensor_nano c ''s'' sensor_md pv" "pk_fields (pv_packet pv) = sensor_fields"
  shows "number_packet pv [1, 2, 3]" "number_message ''s'' sensor_md pv [1, 2, 3] = sensor_message"
proof -
  have "length [1, 2, 3 :: byte] = 3" by simp
  then show n: "number_packet pv [1, 2, 3]"
    using sensor_packet_fields(1) unfolding number_packet_def assms(2) by (simp only:)
  from number_message_slots [OF assms(1) n] show "number_message ''s'' sensor_md pv [1, 2, 3] = sensor_message"
    using sensor_values
    by (auto simp: number_message_def sensor_message_def assms(2) sensor_md_fields list_all2_Cons1)
qed

text \<open>The writer of lines in the mode of tabs, which prints the values without format expressions.\<close>

definition tab_line_config :: handlerline_config where
  "tab_line_config =
     example_line_config\<lparr>handlerline_allowed_messages := [], handlerline_mode := 2, handlerline_format_number := - 1\<rparr>"

lemma sensor_number_printer:
  assumes "number_type sensor_nano c ''s'' sensor_md pv" "pk_fields (pv_packet pv) = sensor_fields"
  shows "number_printer (we_settings (line_env (writer_env.truncate sensor_nano) tab_line_config))
    (we_declarations (writer_env.truncate sensor_nano)) c ''s'' sensor_md pv"
proof -
  have c: "cache_new 1 (\<lambda>s. 7) sensor_declarations = Inr (Some c)" "map_of (oc_variables c) ''s'' = Some pv"
    using assms(1) by (simp_all add: number_type_def sensor_nano_def)
  have "case cache_new 1 (\<lambda>s. 7) sensor_declarations of
      Inr (Some c) \<Rightarrow> (case map_of (oc_variables c) ''s'' of Some pv \<Rightarrow> getEmptyPacket pv = Inr [0, 0, 0] | None \<Rightarrow> False)
    | _ \<Rightarrow> False"
    by code_simp
  then have empty: "getEmptyPacket pv = Inr [0, 0, 0]" by (simp only: c sum.case option.case)
  have "length [0, 0, 0 :: byte] = 3" by simp
  then have "list_all (number_field (length [0, 0, 0 :: byte])) (pk_fields (pv_packet pv))"
    using sensor_packet_fields(1) unfolding assms(2) by (simp only:)
  moreover have "md_fields sensor_md \<noteq> []" by (simp add: sensor_md_fields)
  ultimately show ?thesis
    using assms(1) unfolding number_printer_def empty number_type_def
    by (simp add: line_env_def tab_line_config_def writer_env.truncate_def set_format_number_def sensor_nano_def)
qed

lemma sensor_line:
  assumes "pk_fields (pv_packet pv) = sensor_fields"
  shows "number_line tab_line_config ''s'' sensor_md pv [1, 2, 3] = dquote @ ''s'' @ dquote @ tab @ ''3'' @ tab @ ''258'' @ endl"
proof -
  have "map (printed_number pv [1, 2, 3]) (md_fields sensor_md) = [''3'', ''258'']"
    unfolding printed_number_def assms by code_simp
  then show ?thesis
    by (simp add: number_line_def tab_line_config_def example_line_config_def findAlias_def quoted_def tab_def line_separator_def)
qed

text \<open>A packet of the bytes 1, 2 and 3: the first field of the message is the last byte, the second one the first two.\<close>

theorem file_is_printed_witness:
  "\<exists>ps s' ls2. fileReceieve (\<lambda>k. example_file_setup) (\<lambda>k. True) example_file_config (''010203'' @ endl) 0 []
      (''010203'' @ endl) [] = Inr (Some (0, ps)) \<and>
    nano_run sensor_nano sensor_receiver_config (arrived ps @ [(Some SigInt, Interrupted)])
      \<lparr>ns_session = 0, ns_in = 0, ns_out = 0, ns_cache = no_cache, ns_control = [], ns_dump = [], ns_sent = []\<rparr> =
      Inr (Some (Returned 0 [] s')) \<and>
    line_run (writer_env.truncate sensor_nano) (\<lambda>m. ''message'') tab_line_config
      (arrived (ns_sent s') @ [(Some SigInt, Interrupted)]) \<lparr>ls_stream = [], ls_cache = no_cache\<rparr> =
      Inr (Some (Returned 0 [] ls2)) \<and>
    ls_stream ls2 = dquote @ ''s'' @ dquote @ tab @ ''3'' @ tab @ ''258'' @ endl"
proof -
  obtain c pv where t: "number_type sensor_nano c ''s'' sensor_md pv" and fs: "pk_fields (pv_packet pv) = sensor_fields"
    by (rule sensor_number_type)
  note m = sensor_number_message [OF t fs]
  let ?w = "writer_env.truncate sensor_nano"
  let ?e = "line_env ?w tab_line_config"
  have fcfg: "freceiver_file_mode example_file_config = 1" "freceiver_packet_size example_file_config \<le> 0"
    "unat (freceiver_buffer_size example_file_config) = 4096" by (simp_all add: example_file_config_def)
  have su: "fe_malloc example_file_setup" "fe_option example_file_setup" "fe_connect example_file_setup"
    "fe_shutdown example_file_setup = 0" by (simp_all add: example_file_setup_def)
  have f: "''010203'' @ endl = concat (map (\<lambda>bs. hexString bs @ endl) [[1, 2, 3]])" by code_simp
  have env: "\<forall>n. ne_send sensor_nano n" "ne_calls sensor_nano 0 = []"
    "socket_addr_dst + sockaddr_size \<le> length (ne_beyond sensor_nano)" "wire_ok (we_wire ?w)"
    "we_wire ?w = we_wire sensor_nano" "su_shutdown (we_setup sensor_nano 0) = 0" "close_writer ?w 0 = 0"
    "su_socket (we_setup ?w 0)" "su_connect (we_setup ?w 0)" "su_malloc (we_setup ?w 0)"
    using example_wire_ok
    by (simp_all add: sensor_nano_def layout writer_env.truncate_def close_writer_def)
  have rcfg: "pkt2receiver_force_message sensor_receiver_config = ''s''"
    "pkt2receiver_allowed_packet_sizes sensor_receiver_config = []" "pkt2receiver_verbosity sensor_receiver_config = 0"
    by (simp_all add: sensor_receiver_config_def)
  have lcfg: "findAlias (Some (handlerline_tableAliases tab_line_config)) ''s'' \<noteq> []"
    "handlerline_mode tab_line_config = 1 \<or> handlerline_mode tab_line_config = 2"
    "handlerline_allowed_messages tab_line_config = [] \<or> ''s'' \<in> set (handlerline_allowed_messages tab_line_config)"
    by (simp_all add: tab_line_config_def example_line_config_def findAlias_def)
  have md: "getMessageDescriptor sensor_declarations ''s'' = Some sensor_md"
    by (simp add: getMessageDescriptor_def sensor_declarations_def sensor_md_def)
  have "deliverable ?e (handlerline_buffer_size tab_line_config) sensor_message"
    by (simp add: deliverable_def message_fits_def sent_message_def stringDelimitedMessage_def writeDelimitedMessage_def
        type_address_new_def SOCKADDR_SIZE_def Let_def bytes_of_text_def sensor_message_def example_wire_def
        writer_env.truncate_def sensor_nano_def md tab_line_config_def example_line_config_def line_env_def)
  then have d: "\<forall>bs \<in> set [[1, 2, 3]]. deliverable ?e (handlerline_buffer_size tab_line_config) (number_message ''s'' sensor_md pv bs)"
    using m(2) by simp
  have bss: "\<forall>bs \<in> set [[1, 2, 3]]. bs \<noteq> [] \<and> length bs \<le> unat (freceiver_buffer_size example_file_config) \<and>
      length bs + 257 < 2 ^ 31 \<and> number_packet pv bs" using m(1) by (simp add: fcfg)
  have big: "unat (freceiver_buffer_size example_file_config) < 2 ^ 31" by (simp add: fcfg)
  from file_is_printed [where su = "\<lambda>k. example_file_setup" and g = SigInt and DebugString = "\<lambda>m. ''message''" and
      s = "\<lparr>ns_session = 0, ns_in = 0, ns_out = 0, ns_cache = no_cache, ns_control = [], ns_dump = [], ns_sent = []\<rparr>"
      and ls = "\<lparr>ls_stream = [], ls_cache = no_cache\<rparr>",
      OF fcfg(1,2) big su(1-3) bss f t rcfg env(1-3) refl sensor_number_printer [OF t fs] lcfg env(8-10) env(4,5) d]
    su(4) env(6,7) sensor_line [OF fs]
  show ?thesis by (fastforce simp: fs)
qed

end
