(* ===== verification/PacketLibrary.thy ===== *)
theory PacketLibrary
  imports EndToEnd SheetsWriter
begin

section \<open>Parsing packets for other programs\<close>

text \<open>
  str-pkt2.cpp and packet-protobuf-message.cpp are the library that parses a packet and returns
  text; env-pkt2.cpp is what it keeps, of which the cache changes. pkt2gateway.cpp sends one
  packet as a message, pkt2js-impl.cpp prints the packets of a file.
\<close>

subsection \<open>The library\<close>

definition initPkt2 :: "'e nano_env \<Rightarrow> cache option result" where
  "initPkt2 env = open_cache (writer_env.truncate env)"

text \<open>A packet with the two addresses that are given, or none.\<close>

definition parse_with ::
  "'e nano_env \<Rightarrow> sockaddr option \<Rightarrow> string \<Rightarrow> names option \<times> names option \<times> names option \<Rightarrow> bytes \<Rightarrow> cache
   \<Rightarrow> (pb_message option \<times> cache) option result" where
  "parse_with env socket force_message aliases packet c =
     (let st = we_settings env
      in bindF (parse_env_new (st_fuel st) (st_runtime st) (st_time st) socket socket packet c force_message
           (fst aliases) (fst (snd aliases)) (snd (snd aliases))) (\<lambda>e.
         bindF (parsePacket (st_fuel st) (st_runtime st) (Some (pe_options_cache e)) (st_pool st) e) (\<lambda>(m, e').
           Inr (Some (m, pe_options_cache e')))))"

text \<open>The addresses are set to zero; the data are bytes, or hexadecimal digits.\<close>

definition parsePacket2Message ::
  "'e nano_env \<Rightarrow> int \<Rightarrow> string \<Rightarrow> string \<Rightarrow> names option \<times> names option \<times> names option \<Rightarrow> cache
   \<Rightarrow> (pb_message option \<times> cache) option result" where
  "parsePacket2Message env inputFormat packet forceMessage aliases c =
     (let data = (if inputFormat = 1 \<and> packet \<noteq> [] then hex2string packet else bytes_of_text packet)
      in parse_with env (Some (ne_address env (replicate SOCKADDR_SIZE 0))) forceMessage aliases data c)"

definition headerFields :: "cache \<Rightarrow> string \<Rightarrow> string \<Rightarrow> string result" where
  "headerFields c message_type delimiter =
     bindR (getFieldNames c message_type []) (\<lambda>(t, fldnames).
       Inr (t @ concat (map (\<lambda>n. delimiter @ n) fldnames)))"

definition output_text ::
  "'e nano_env \<Rightarrow> (pb_message \<Rightarrow> string) \<Rightarrow> int \<Rightarrow> int \<Rightarrow> names option \<times> names option \<times> names option \<Rightarrow> cache
   \<Rightarrow> pb_message \<Rightarrow> (string \<times> cache) option result" where
  "output_text env DebugString outputFormat sqlDialect aliases c m =
     (let t = pm_type m;
          put = (\<lambda>mode. bindF (put_message (we_settings env) (we_wire env) DebugString mode sqlDialect
                   (fst aliases) (fst (snd aliases)) (snd (snd aliases)) c t m) (\<lambda>(r, text, c'). Inr (Some (text, c'))));
          with_header = (\<lambda>delimiter mode. bindR (headerFields c t delimiter) (\<lambda>h.
                   bindF (put mode) (\<lambda>(text, c'). Inr (Some (h @ endl @ text, c')))))
      in if outputFormat \<in> {0, 1, 2, 3, 4, 5, 6} then put outputFormat
         else if outputFormat = 7 then Inr (Some (hexString (sent_message (we_wire env) m), c))
         else if outputFormat = 8 then Inr (Some (text_of_bytes (sent_message (we_wire env) m), c))
         else if outputFormat = 11 then with_header '', '' 1
         else if outputFormat = 12 then with_header tab 2
         else Inr (Some ([], c)))"

definition str_parsePacket ::
  "'e nano_env \<Rightarrow> (pb_message \<Rightarrow> string) \<Rightarrow> int \<Rightarrow> int \<Rightarrow> int \<Rightarrow> string \<Rightarrow> string
   \<Rightarrow> names option \<times> names option \<times> names option \<Rightarrow> cache \<Rightarrow> (string \<times> cache) option result" where
  "str_parsePacket env DebugString inputFormat outputFormat sqlDialect packet forceMessage aliases c =
     bindF (parsePacket2Message env inputFormat packet forceMessage aliases c) (\<lambda>(m, c').
       case m of
         None \<Rightarrow> Inr (Some ([], c'))
       | Some m \<Rightarrow> output_text env DebugString outputFormat sqlDialect aliases c' m)"

definition createTableSQLClause ::
  "'e nano_env \<Rightarrow> string \<Rightarrow> int \<Rightarrow> int \<Rightarrow> names option \<times> names option \<times> names option \<Rightarrow> cache
   \<Rightarrow> (string \<times> cache) option result" where
  "createTableSQLClause env messageName outputFormat sqlDialect aliases c =
     (let (ta, fa, pa) = aliases
      in if outputFormat = 3
         then bindF (create_sql (we_settings env) c messageName sqlDialect ta fa pa) (\<lambda>(r, text, c'). Inr (Some (text, c')))
         else if outputFormat = 4
         then (case create_sql2 c messageName sqlDialect ta fa pa of (r, text, c') \<Rightarrow> Inr (Some (text, c')))
         else Inr (Some ([], c)))"

subsection \<open>One packet as a message\<close>

text \<open>The file is read by a parameter; what the standard input gives is a text.\<close>

definition readPacket :: "(string \<Rightarrow> string) \<Rightarrow> string \<Rightarrow> pkt2gateway_config \<Rightarrow> string" where
  "readPacket file2string std_in cfg =
     (let packet = (if pkt2gateway_packet cfg = []
                    then (if pkt2gateway_file_name cfg = [] then std_in else file2string (pkt2gateway_file_name cfg))
                    else pkt2gateway_packet cfg)
      in if pkt2gateway_mode cfg = ''hex'' then text_of_bytes (hex2string packet) else packet)"

text \<open>
  The loop of main. Whether the program has been interrupted before the dth look is a parameter,
  and so is whether the message of the dth turn can be sent.
\<close>

fun send_times :: "(nat \<Rightarrow> bool) \<Rightarrow> (nat \<Rightarrow> bool) \<Rightarrow> bytes \<Rightarrow> nat \<Rightarrow> nat \<Rightarrow> bytes list" where
  "send_times interrupted ok outstr d 0 = []"
| "send_times interrupted ok outstr d (Suc n) =
     (if interrupted d then []
      else (if ok d then [outstr] else []) @ send_times interrupted ok outstr (Suc d) n)"

text \<open>Where main returns at its end, its result is 0 whatever the shutdown gave.\<close>

definition pkt2gateway_main ::
  "'e nano_env \<Rightarrow> (string \<Rightarrow> string) \<Rightarrow> bool \<Rightarrow> (nat \<Rightarrow> bool) \<Rightarrow> string \<Rightarrow> pkt2gateway_config \<Rightarrow> (int \<times> bytes list) option result" where
  "pkt2gateway_main env file2string bind_ok interrupted std_in cfg =
     (let packet = readPacket file2string std_in cfg
      in if packet = [] then Inr (Some (- 1, []))
         else if \<not> bind_ok then Inr (Some (- 17, []))
         else bindF (initPkt2 env) (\<lambda>c.
              bindF (parse_with env None (pkt2gateway_force_message cfg)
                  (Some (pkt2gateway_tableAliases cfg), Some (pkt2gateway_fieldAliases cfg),
                   Some (pkt2gateway_properties cfg)) (bytes_of_text packet) c) (\<lambda>(m, c').
                case m of
                  None \<Rightarrow> Inr (Some (- 50, []))
                | Some m \<Rightarrow> Inr (Some (0, send_times interrupted (ne_send env) (sent_message (we_wire env) m) 0
                              (nat (pkt2gateway_retries cfg)))))))"

subsection \<open>Reading from a descriptor\<close>

text \<open>
  What the calls of read meet: some bytes that are ready, or a failure. A call takes at most the
  size of the buffer; no more bytes are the end of the file.
\<close>

definition read_fd :: "nat \<Rightarrow> bytes option list \<Rightarrow> bytes option \<times> bytes option list" where
  "read_fd cap reads =
     (case reads of
        [] \<Rightarrow> (Some [], [])
      | None # rs \<Rightarrow> (None, rs)
      | Some b # rs \<Rightarrow> (Some (take cap b), if length b \<le> cap then rs else Some (drop cap b) # rs))"

text \<open>
  The loops of the programs that read a descriptor: a look at stop_request, what is counted, a
  call of read, and the body. The requests are those that the looks find, as in the loop over a file.
\<close>

definition read_size :: "bytes option \<Rightarrow> nat" where
  "read_size r = (case r of None \<Rightarrow> 1 | Some b \<Rightarrow> Suc (length b))"

lemma read_fd_smaller:
  "read_fd cap reads = (r, rs) \<Longrightarrow> r \<noteq> Some [] \<Longrightarrow> sum_list (map read_size rs) < sum_list (map read_size reads)"
  by (cases reads; cases "hd reads") (auto simp: read_fd_def read_size_def split: if_splits)

function read_loop ::
  "('s \<Rightarrow> 's) \<Rightarrow> (bytes option \<Rightarrow> 's \<Rightarrow> 's option result) \<Rightarrow> nat \<Rightarrow> int list \<Rightarrow> bytes option list \<Rightarrow> 's
   \<Rightarrow> (int \<times> int list \<times> bytes option list \<times> 's) option result" where
  "read_loop counts body cap requests reads s =
     (let (q, requests') = next_request requests
      in if q \<noteq> 0 then Inr (Some (q, requests', reads, s))
         else let (r, rest) = read_fd cap reads
              in if r = Some []
                 then let (q', requests'') = next_request requests' in Inr (Some (q', requests'', rest, counts s))
                 else (case body r (counts s) of
                         Inl e \<Rightarrow> Inl e
                       | Inr None \<Rightarrow> Inr None
                       | Inr (Some s') \<Rightarrow> read_loop counts body cap requests' rest s'))"
  by pat_completeness auto

termination
  by (relation "measure (\<lambda>(counts, body, cap, requests, reads, s). sum_list (map read_size reads))")
    (auto dest!: read_fd_smaller [OF sym])

declare read_loop.simps [simp del]

lemma read_loop_shorter:
  "read_loop counts body cap requests reads s = Inr (Some (q, qs, rest, s')) \<Longrightarrow>
   length qs \<le> length requests \<and> (q \<noteq> 0 \<longrightarrow> length qs < length requests)"
proof (induction counts body cap requests reads s rule: read_loop.induct)
  case (1 counts body cap requests reads s)
  obtain q1 qs1 where n1: "next_request requests = (q1, qs1)" by fastforce
  obtain r rest1 where rd: "read_fd cap reads = (r, rest1)" by fastforce
  obtain q2 qs2 where n2: "next_request qs1 = (q2, qs2)" by fastforce
  note l = next_request_shorter [OF n1] next_request_shorter [OF n2]
  show ?case
  proof (cases "q1 = 0 \<and> r \<noteq> Some [] \<and> (\<exists>s1. body r (counts s) = Inr (Some s1))")
    case True
    then obtain s1 where b: "body r (counts s) = Inr (Some s1)" by blast
    then have "read_loop counts body cap qs1 rest1 s1 = Inr (Some (q, qs, rest, s'))"
      using "1.prems" n1 rd True by (subst (asm) read_loop.simps) simp
    from "1.IH" [OF refl n1 [symmetric] _ refl rd [symmetric] _ b refl this] b l True show ?thesis by fastforce
  next
    case False
    then show ?thesis using "1.prems" n1 n2 rd l
      by (subst (asm) read_loop.simps) (auto simp: Let_def split: if_splits sum.splits option.splits prod.splits)
  qed
qed

subsection \<open>The packets of a file\<close>

text \<open>
  A stream is the standard output or a file that was opened with a mode; whether a file can be
  opened is a parameter. A call of write takes some bytes, possibly not all, or fails; it fails
  where the mode does not allow to write.
\<close>

datatype out_stream = StandardOutput | OpenedFile string string

definition fopen :: "(string \<Rightarrow> string \<Rightarrow> bool) \<Rightarrow> string \<Rightarrow> string \<Rightarrow> out_stream option" where
  "fopen opens file mode = (if opens file mode then Some (OpenedFile file mode) else None)"

definition mode_writes :: "string \<Rightarrow> bool" where
  "mode_writes mode = (take 1 mode \<noteq> ''r'' \<or> CHR ''+'' \<in> set mode)"

definition stream_writes :: "out_stream \<Rightarrow> bool" where
  "stream_writes out = (case out of StandardOutput \<Rightarrow> True | OpenedFile file mode \<Rightarrow> mode_writes mode)"

definition write_stream :: "(out_stream \<Rightarrow> string \<Rightarrow> nat option) \<Rightarrow> out_stream \<Rightarrow> string \<Rightarrow> int" where
  "write_stream writes out buffer =
     (if stream_writes out
      then (case writes out buffer of Some n \<Rightarrow> int (min n (length buffer)) | None \<Rightarrow> - 1)
      else - 1)"

record js_state =
  js_session :: u64
  js_in :: u64
  js_out :: u64
  js_cache :: cache
  js_written :: "(out_stream \<times> string) list"

definition js_aliases :: "pkt2js_config \<Rightarrow> names option \<times> names option \<times> names option" where
  "js_aliases cfg =
     (Some (pkt2js_tableAliases cfg), Some (pkt2js_fieldAliases cfg), Some (pkt2js_properties cfg))"

text \<open>The length is a size_t: the -1 of a read that fails becomes the greatest of them.\<close>

definition packet_length :: "bytes option \<Rightarrow> u64" where
  "packet_length r = (case r of None \<Rightarrow> - 1 | Some b \<Rightarrow> of_nat (length b))"

definition rejected :: "int list \<Rightarrow> bytes option \<Rightarrow> bool" where
  "rejected allowed_packet_sizes r =
     (allowed_packet_sizes \<noteq> [] \<and> packet_length r \<notin> set (map of_int allowed_packet_sizes))"

text \<open>A packet of the program; its text may be empty, and then nothing is written.\<close>

definition js_body ::
  "'e nano_env \<Rightarrow> (pb_message \<Rightarrow> string) \<Rightarrow> (out_stream \<Rightarrow> string \<Rightarrow> nat option) \<Rightarrow> out_stream \<Rightarrow> pkt2js_config
   \<Rightarrow> bytes option \<Rightarrow> js_state \<Rightarrow> js_state option result" where
  "js_body env DebugString writes fout cfg r s =
     (let s1 = s\<lparr>js_in := js_in s + 1\<rparr>
      in if rejected (pkt2js_allowed_packet_sizes cfg) r then Inr (Some s1)
         else (case r of
                 None \<Rightarrow> Inl (Thrown ''length_error'')
               | Some b \<Rightarrow>
                   bindF (str_parsePacket env DebugString (pkt2js_input_mode cfg) (pkt2js_output_mode cfg) 0
                       (text_of_bytes b) (pkt2js_force_message cfg) (js_aliases cfg) (js_cache s1)) (\<lambda>(outstr, c).
                     let s2 = s1\<lparr>js_cache := c\<rparr>
                     in Inr (Some (if outstr = [] then s2
                          else let sent = write_stream writes fout outstr
                               in if sent < 0 then s2
                                  else s2\<lparr>js_written := js_written s2 @ [(fout, take (nat sent) outstr)],
                                          js_out := js_out s2 + 1\<rparr>)))))"

definition js_counts :: "js_state \<Rightarrow> js_state" where
  "js_counts s = s\<lparr>js_session := js_session s + 1\<rparr>"

text \<open>
  The standard streams are used where no file is named. For the output the name of the input is
  opened, and for reading.
\<close>

definition js_output :: "(string \<Rightarrow> string \<Rightarrow> bool) \<Rightarrow> pkt2js_config \<Rightarrow> out_stream option" where
  "js_output opens cfg =
     (if pkt2js_filenameOutput cfg = [] then Some StandardOutput
      else fopen opens (pkt2js_filenameInput cfg) ''r'')"

definition js_session_run ::
  "'e nano_env \<Rightarrow> (pb_message \<Rightarrow> string) \<Rightarrow> (string \<Rightarrow> string \<Rightarrow> bool) \<Rightarrow> (out_stream \<Rightarrow> string \<Rightarrow> nat option)
   \<Rightarrow> pkt2js_config \<Rightarrow> int list \<Rightarrow> bytes option list
   \<Rightarrow> js_state \<Rightarrow> (int + int \<times> int list \<times> bytes option list \<times> js_state) option result" where
  "js_session_run env DebugString opens writes cfg requests reads s =
     (if pkt2js_filenameInput cfg \<noteq> [] \<and> fopen opens (pkt2js_filenameInput cfg) ''r'' = None
      then Inr (Some (Inl (- 18)))
      else case js_output opens cfg of
             None \<Rightarrow> Inr (Some (Inl (- 18)))
           | Some fout \<Rightarrow>
               bindF (initPkt2 env) (\<lambda>c.
               bindF (read_loop js_counts (js_body env DebugString writes fout cfg) (unat (pkt2js_buffer_size cfg)) requests reads
                   (s\<lparr>js_cache := c\<rparr>)) (\<lambda>x. Inr (Some (Inr x)))))"

lemma js_session_shorter:
  "js_session_run env D ex wr cfg requests reads s = Inr (Some (Inr (q, qs, rest, s'))) \<Longrightarrow> q \<noteq> 0 \<Longrightarrow>
   length qs < length requests"
  by (auto simp: js_session_run_def split: if_splits option.splits dest: read_loop_shorter)

text \<open>
  A run that is asked to reload reads its file again, or goes on with the standard input, which
  is not closed. The standard output has been closed then and is used all the same.
\<close>

function pkt2js_loop ::
  "'e nano_env \<Rightarrow> (pb_message \<Rightarrow> string) \<Rightarrow> (string \<Rightarrow> string \<Rightarrow> bool)
   \<Rightarrow> (out_stream \<Rightarrow> string \<Rightarrow> nat option) \<Rightarrow> pkt2js_config \<Rightarrow> bytes option list \<Rightarrow> int list
   \<Rightarrow> bytes option list \<Rightarrow> js_state \<Rightarrow> (int \<times> js_state) option result" where
  "pkt2js_loop env DebugString opens writes cfg contents requests reads s =
     (case js_session_run env DebugString opens writes cfg requests reads s of
        Inl e \<Rightarrow> Inl e
      | Inr None \<Rightarrow> Inr None
      | Inr (Some (Inl code)) \<Rightarrow> Inr (Some (code, s))
      | Inr (Some (Inr (q, requests', rest, s'))) \<Rightarrow>
          if q \<noteq> 2 then Inr (Some (0, s'))
          else if pkt2js_filenameOutput cfg = [] then Inl NullPointer
          else pkt2js_loop env DebugString opens writes cfg contents requests'
                 (if pkt2js_filenameInput cfg = [] then rest else contents) s')"
  by pat_completeness auto

termination
  by (relation "measure (\<lambda>(env, D, ex, wr, cfg, contents, requests, reads, s). length requests)")
    (auto dest!: js_session_shorter)

declare pkt2js_loop.simps [simp del]

definition pkt2js ::
  "'e nano_env \<Rightarrow> (pb_message \<Rightarrow> string) \<Rightarrow> (string \<Rightarrow> string \<Rightarrow> bool)
   \<Rightarrow> (out_stream \<Rightarrow> string \<Rightarrow> nat option) \<Rightarrow> pkt2js_config \<Rightarrow> int list \<Rightarrow> bytes option list
   \<Rightarrow> js_state \<Rightarrow> (int \<times> js_state) option result" where
  "pkt2js env DebugString opens writes cfg requests reads s =
     pkt2js_loop env DebugString opens writes cfg reads requests reads (s\<lparr>js_session := 0, js_in := 0, js_out := 0\<rparr>)"

section \<open>What the programs guarantee\<close>

subsection \<open>The forms of a packet\<close>

text \<open>
  The hexadecimal text of a packet is parsed as the packet itself, in every output format and
  whatever comes of it.
\<close>

theorem hexadecimal_is_parsed_as_bytes:
  "str_parsePacket env DebugString 1 outputFormat sqlDialect (hexString bs) forceMessage aliases c =
   str_parsePacket env DebugString 0 outputFormat sqlDialect (text_of_bytes bs) forceMessage aliases c"
proof -
  have "hexString bs \<noteq> []" if "bs \<noteq> []" using that length_hexString [of bs] by auto
  moreover have "bytes_of_text (text_of_bytes bs) = bs"
    by (rule bytes_of_text_of_bytes)
  moreover have "hex2string (hexString bs) = bs" by (simp add: hex2string_def readHex_hexString)
  ultimately show ?thesis
    by (cases "bs = []") (simp_all add: str_parsePacket_def parsePacket2Message_def hexString_Nil text_of_bytes_def)
qed

subsection \<open>One packet as a message\<close>

lemma send_times_all:
  "\<forall>d. \<not> interrupted d \<and> ok d \<Longrightarrow> send_times interrupted ok outstr d n = replicate n outstr"
  by (induction n arbitrary: d) auto

text \<open>
  C38: A packet that is given to pkt2gateway and has a known type is sent as a message as often as the
  number of retries says, whose default is 1; where it is 0 or less, nothing is sent and the program
  still returns 0. A writer that reads the bus puts the message as often as it was sent.
\<close>

theorem packet_is_sent_retries_times:
  assumes "wire_ok (we_wire env)" "readPacket file2string std_in cfg \<noteq> []" "initPkt2 env = Inr (Some c)"
    and "parse_with env None (pkt2gateway_force_message cfg) (Some (pkt2gateway_tableAliases cfg),
      Some (pkt2gateway_fieldAliases cfg), Some (pkt2gateway_properties cfg))
      (bytes_of_text (readPacket file2string std_in cfg)) c = Inr (Some (Some m, c'))"
    and "message_fits (we_wire env) (st_pool (we_settings env)) m" "\<forall>d. \<not> interrupted d \<and> ne_send env d"
  shows "\<exists>out. pkt2gateway_main env file2string True interrupted std_in cfg = Inr (Some (0, out)) \<and>
    length out = nat (pkt2gateway_retries cfg) \<and>
    handle_all (writer_body (writer_env.truncate env) [] put) out s = handle_all (\<lambda>msg. put msg (pm_type m) m) out s"
proof -
  let ?x = "sent_message (we_wire env) m" and ?n = "nat (pkt2gateway_retries cfg)"
  have body: "writer_body (writer_env.truncate env) [] put ?x s = put ?x (pm_type m) m s" for s
    using writer_body_sent [of "writer_env.truncate env" m "type_address_new (pm_type m)" "[]" put s] assms(1,5)
    by (simp add: sent_message_def allowed_def writer_env.truncate_def)
  have "pkt2gateway_main env file2string True interrupted std_in cfg = Inr (Some (0, replicate ?n ?x))"
    using assms(2-4) send_times_all [OF assms(6)] by (simp add: pkt2gateway_main_def Let_def)
  moreover have "handle_all (writer_body (writer_env.truncate env) [] put) (replicate n ?x) s =
      handle_all (\<lambda>msg. put msg (pm_type m) m) (replicate n ?x) s" for n s
  proof (induction n arbitrary: s)
    case (Suc n)
    then have "handle_all (writer_body (writer_env.truncate env) [] put) (replicate n ?x) =
        handle_all (\<lambda>msg. put msg (pm_type m) m) (replicate n ?x)" by (rule ext)
    then show ?case by (simp add: body)
  qed simp
  ultimately show ?thesis by (intro exI [of _ "replicate ?n ?x"]) simp
qed

lemma parse_with_numbers:
  assumes "number_type env c t md pv" "number_packet pv bs"
  shows "parse_with env socket t aliases bs c = Inr (Some (Some (number_message t md pv bs), c))"
proof -
  note n = assms(1) [unfolded number_type_def]
  obtain k where k: "st_fuel (we_settings env) = Suc k" using n by (auto simp: gr0_conv_Suc)
  have "list_all (number_field (length bs)) (pk_fields (pv_packet pv))" using assms(2) by (simp add: number_packet_def)
  from numbers_parsed(1) [OF _ _ _ _ _ _ this _ _ number_message_def, of "st_runtime (we_settings env)"
      "we_declarations env" "st_fuel (we_settings env)" "st_hash (we_settings env)" c t md k
      "st_time (we_settings env)" socket socket aliases k] n
  show ?thesis by (auto simp: parse_with_def Let_def k)
qed

definition example_gateway_config :: pkt2gateway_config where
  "example_gateway_config =
     \<lparr>pkt2gateway_proto_path = [], pkt2gateway_force_message = ''s'', pkt2gateway_mode = ''hex'',
      pkt2gateway_packet = ''010203'', pkt2gateway_file_name = [], pkt2gateway_message_out_url = [],
      pkt2gateway_verbosity = 0, pkt2gateway_retries = 2, pkt2gateway_retry_delay = 60,
      pkt2gateway_tableAliases = [], pkt2gateway_fieldAliases = [], pkt2gateway_properties = [],
      pkt2gateway_buffer_size = 4096\<rparr>"

theorem packet_is_sent_retries_times_witness:
  "\<exists>out. pkt2gateway_main sensor_nano (\<lambda>f. []) True (\<lambda>d. False) [] example_gateway_config = Inr (Some (0, out)) \<and>
    length out = 2 \<and>
    handle_all (writer_body (writer_env.truncate sensor_nano) [] (\<lambda>msg t m s. Inr (Some (s @ [t])))) out [''start''] =
      Inr (Some [''start'', ''s'', ''s''])"
proof -
  obtain c pv where t: "number_type sensor_nano c ''s'' sensor_md pv" and fs: "pk_fields (pv_packet pv) = sensor_fields"
    by (rule sensor_number_type)
  note m = sensor_number_message [OF t fs]
  have p: "readPacket (\<lambda>f. []) [] example_gateway_config = text_of_bytes [1, 2, 3]" by code_simp
  have i: "initPkt2 sensor_nano = Inr (Some c)"
    using t by (simp add: initPkt2_def open_cache_def number_type_def writer_env.truncate_def)
  have r: "nat (pkt2gateway_retries example_gateway_config) = 2" "pkt2gateway_force_message example_gateway_config = ''s''"
    by (simp_all add: example_gateway_config_def)
  have w: "wire_ok (we_wire sensor_nano)" "\<forall>d. \<not> False \<and> ne_send sensor_nano d"
    using example_wire_ok by (simp_all add: sensor_nano_def)
  have md: "getMessageDescriptor sensor_declarations ''s'' = Some sensor_md"
    by (simp add: getMessageDescriptor_def sensor_declarations_def sensor_md_def)
  have f: "message_fits (we_wire sensor_nano) (st_pool (we_settings sensor_nano)) sensor_message"
    by (simp add: message_fits_def example_wire_def sensor_nano_def sensor_message_def md)
  have ne: "readPacket (\<lambda>f. []) [] example_gateway_config \<noteq> []" unfolding p by (simp add: text_of_bytes_def)
  have "parse_with sensor_nano None (pkt2gateway_force_message example_gateway_config)
      (Some (pkt2gateway_tableAliases example_gateway_config), Some (pkt2gateway_fieldAliases example_gateway_config),
       Some (pkt2gateway_properties example_gateway_config))
      (bytes_of_text (readPacket (\<lambda>f. []) [] example_gateway_config)) c = Inr (Some (Some sensor_message, c))"
    unfolding p r(2) using parse_with_numbers [OF t m(1)] m(2) by simp
  from packet_is_sent_retries_times [OF w(1) ne i this f w(2), of "\<lambda>msg t m s. Inr (Some (s @ [t]))" "[''start'']"]
  obtain out where out: "pkt2gateway_main sensor_nano (\<lambda>f. []) True (\<lambda>d. False) [] example_gateway_config = Inr (Some (0, out))"
    "length out = 2"
    "handle_all (writer_body (writer_env.truncate sensor_nano) [] (\<lambda>msg t m s. Inr (Some (s @ [t])))) out [''start''] =
      handle_all (\<lambda>msg s. Inr (Some (s @ [pm_type sensor_message]))) out [''start'']" unfolding r by blast
  have "\<exists>x y. out = [x, y]" using out(2) by (auto simp: length_Suc_conv numeral_2_eq_2)
  then obtain x y where "out = [x, y]" by blast
  then show ?thesis using out by (intro exI [of _ out]) (simp add: sensor_message_def)
qed

subsection \<open>The output of a file\<close>

lemma read_loop_relates:
  assumes "read_loop counts body cap requests reads s = Inr (Some (q, qs, rest, s'))" "rel s t"
    and "\<forall>s t. rel s t \<longrightarrow> rel (counts s) (counts t)"
    and "\<forall>r s t s'. rel s t \<longrightarrow> body r s = Inr (Some s') \<longrightarrow> (\<exists>t'. other r t = Inr (Some t') \<and> rel s' t')"
  shows "\<exists>t'. read_loop counts other cap requests reads t = Inr (Some (q, qs, rest, t')) \<and> rel s' t'"
  using assms
proof (induction counts body cap requests reads s arbitrary: t rule: read_loop.induct)
  case (1 counts body cap requests reads s)
  obtain q1 qs1 where n1: "next_request requests = (q1, qs1)" by fastforce
  obtain r rest1 where rd: "read_fd cap reads = (r, rest1)" by fastforce
  have c: "rel (counts s) (counts t)" using "1.prems"(2,3) by blast
  show ?case
  proof (cases "q1 = 0 \<and> r \<noteq> Some [] \<and> (\<exists>s1. body r (counts s) = Inr (Some s1))")
    case True
    then obtain s1 where b: "body r (counts s) = Inr (Some s1)" by blast
    then obtain t1 where t1: "other r (counts t) = Inr (Some t1)" "rel s1 t1" using "1.prems"(4) c by blast
    have "read_loop counts body cap qs1 rest1 s1 = Inr (Some (q, qs, rest, s'))"
      using "1.prems"(1) n1 rd True b by (subst (asm) read_loop.simps) simp
    from "1.IH" [OF refl n1 [symmetric] _ refl rd [symmetric] _ b refl this t1(2) "1.prems"(3,4)] True
    show ?thesis using n1 rd t1(1) by (subst read_loop.simps) simp
  next
    case False
    then have "rel s' t \<and> read_loop counts other cap requests reads t = Inr (Some (q, qs, rest, t)) \<or>
        rel s' (counts t) \<and> read_loop counts other cap requests reads t = Inr (Some (q, qs, rest, counts t))"
      using "1.prems"(1,2) n1 rd c
      by (subst (asm) read_loop.simps, subst (1 2) read_loop.simps)
        (auto simp: Let_def split: if_splits sum.splits option.splits prod.splits)
    then show ?thesis by blast
  qed
qed

lemma pkt2js_loop_step:
  "js_session_run env D ex wr cfg requests reads s = Inr (Some (Inl code)) \<Longrightarrow>
   pkt2js_loop env D ex wr cfg contents requests reads s = Inr (Some (code, s))"
  "js_session_run env D ex wr cfg requests reads s = Inr None \<Longrightarrow>
   pkt2js_loop env D ex wr cfg contents requests reads s = Inr None"
  "js_session_run env D ex wr cfg requests reads s = Inl e \<Longrightarrow>
   pkt2js_loop env D ex wr cfg contents requests reads s = Inl e"
  "js_session_run env D ex wr cfg requests reads s = Inr (Some (Inr (q, qs, rest, s1))) \<Longrightarrow>
   pkt2js_loop env D ex wr cfg contents requests reads s =
     (if q \<noteq> 2 then Inr (Some (0, s1)) else if pkt2js_filenameOutput cfg = [] then Inl NullPointer
      else pkt2js_loop env D ex wr cfg contents qs (if pkt2js_filenameInput cfg = [] then rest else contents) s1)"
  by (subst pkt2js_loop.simps, simp)+

text \<open>Two states of the run that differ in what has been written only, where the second has written nothing.\<close>

definition nothing_written :: "js_state \<Rightarrow> js_state \<Rightarrow> js_state \<Rightarrow> bool" where
  "nothing_written s0 s t \<longleftrightarrow> js_session t = js_session s \<and> js_in t = js_in s \<and> js_cache t = js_cache s \<and>
     js_written t = js_written s0 \<and> js_out t = 0"

lemma body_writes_nothing:
  assumes "nothing_written s0 s t" "\<not> stream_writes fout" "js_body env D writes out cfg r s = Inr (Some s')"
  shows "\<exists>t'. js_body env D writes fout (cfg\<lparr>pkt2js_filenameOutput := name\<rparr>) r t = Inr (Some t') \<and> nothing_written s0 s' t'"
proof (cases "rejected (pkt2js_allowed_packet_sizes cfg) r")
  case True
  then show ?thesis using assms by (auto simp: js_body_def nothing_written_def)
next
  case False
  then obtain b outstr c where b: "r = Some b" and
    p: "str_parsePacket env D (pkt2js_input_mode cfg) (pkt2js_output_mode cfg) 0 (text_of_bytes b) (pkt2js_force_message cfg)
      (js_aliases cfg) (js_cache s) = Inr (Some (outstr, c))"
    using assms(3) by (cases r) (auto simp: js_body_def Let_def)
  have "s' = s\<lparr>js_in := js_in s + 1, js_cache := c, js_written := js_written s', js_out := js_out s'\<rparr>"
    using assms(3) False b p by (cases s) (auto simp: js_body_def Let_def split: if_splits)
  moreover have "js_body env D writes fout (cfg\<lparr>pkt2js_filenameOutput := name\<rparr>) r t =
      Inr (Some (t\<lparr>js_in := js_in t + 1, js_cache := c\<rparr>))"
    using assms(1,2) False b p by (simp add: js_body_def Let_def nothing_written_def js_aliases_def write_stream_def)
  ultimately show ?thesis
    using assms(1) by (cases s'; cases t) (auto simp: nothing_written_def)
qed

text \<open>
  C39: With a file for its output pkt2js loses everything it is to write. Take a run that would
  read the packets up to the end or a request to stop and write their texts to the standard output.
  With a file for the output the run reads the same packets, and neither a file nor the standard
  output gets anything, because the output is the input file once more, opened for reading; the
  count of the texts that went out is 0 and the program still returns 0. Where the packets come
  from the standard input there is no such file, and the run ends with -18 before the first packet.
\<close>

theorem output_file_is_lost:
  assumes "pkt2js env DebugString opens writes (cfg\<lparr>pkt2js_filenameOutput := []\<rparr>) requests reads s = Inr (Some (0, s1))"
    and "pkt2js_filenameOutput cfg \<noteq> []"
  shows "\<exists>s2. js_written s2 = js_written s \<and> js_out s2 = 0 \<and>
    (if opens (pkt2js_filenameInput cfg) ''r''
     then pkt2js env DebugString opens writes cfg requests reads s = Inr (Some (0, s2)) \<and>
       js_in s2 = js_in s1 \<and> js_session s2 = js_session s1
     else pkt2js env DebugString opens writes cfg requests reads s = Inr (Some (- 18, s2)) \<and> js_in s2 = 0)"
proof -
  let ?cfg = "cfg\<lparr>pkt2js_filenameOutput := []\<rparr>" and ?s = "s\<lparr>js_session := 0, js_in := 0, js_out := 0\<rparr>"
  let ?file = "OpenedFile (pkt2js_filenameInput cfg) ''r''"
  show ?thesis
  proof (cases "opens (pkt2js_filenameInput cfg) ''r''")
    case False
    then have "pkt2js env DebugString opens writes cfg requests reads s = Inr (Some (- 18, ?s))"
      unfolding pkt2js_def using assms(2)
      by (subst pkt2js_loop.simps) (cases "pkt2js_filenameInput cfg = []"; simp add: js_session_run_def js_output_def fopen_def)
    then show ?thesis using False by (intro exI [of _ ?s]) simp
  next
    case True
    have run: "pkt2js_loop env DebugString opens writes ?cfg reads requests reads ?s = Inr (Some (0, s1))"
      using assms(1) by (simp add: pkt2js_def)
    obtain q qs rest where session: "js_session_run env DebugString opens writes ?cfg requests reads ?s =
        Inr (Some (Inr (q, qs, rest, s1)))" "q \<noteq> 2"
      using run True
      by (subst (asm) pkt2js_loop.simps)
        (auto simp: js_session_run_def js_output_def fopen_def split: sum.splits option.splits if_splits)
    then obtain c where c: "initPkt2 env = Inr (Some c)" and
      loop: "read_loop js_counts (js_body env DebugString writes StandardOutput ?cfg) (unat (pkt2js_buffer_size cfg)) requests reads
        (?s\<lparr>js_cache := c\<rparr>) = Inr (Some (q, qs, rest, s1))"
      using True by (auto simp: js_session_run_def js_output_def fopen_def)
    have start: "nothing_written s (?s\<lparr>js_cache := c\<rparr>) (?s\<lparr>js_cache := c\<rparr>)" by (simp add: nothing_written_def)
    have counts: "\<forall>s1 t. nothing_written s s1 t \<longrightarrow> nothing_written s (js_counts s1) (js_counts t)"
      by (simp add: nothing_written_def js_counts_def)
    have "\<not> stream_writes ?file" by (simp add: stream_writes_def mode_writes_def)
    from body_writes_nothing [OF _ this, where name = "pkt2js_filenameOutput cfg" and cfg = "?cfg"]
    have body: "\<forall>r s1 t s'. nothing_written s s1 t \<longrightarrow> js_body env DebugString writes StandardOutput ?cfg r s1 = Inr (Some s') \<longrightarrow>
        (\<exists>t'. js_body env DebugString writes ?file cfg r t = Inr (Some t') \<and> nothing_written s s' t')"
      by (intro allI impI) simp
    obtain s2 where s2: "read_loop js_counts (js_body env DebugString writes ?file cfg) (unat (pkt2js_buffer_size cfg)) requests reads
        (?s\<lparr>js_cache := c\<rparr>) = Inr (Some (q, qs, rest, s2))" "nothing_written s s1 s2"
      using read_loop_relates [where rel = "nothing_written s", OF loop start counts body] by (elim exE conjE)
    then have "pkt2js env DebugString opens writes cfg requests reads s = Inr (Some (0, s2))"
      using assms(2) True session(2) c
      by (simp add: pkt2js_def pkt2js_loop_step(4) js_session_run_def js_output_def fopen_def)
    then show ?thesis using True s2(2) by (intro exI [of _ s2]) (simp add: nothing_written_def)
  qed
qed

definition example_js_config :: pkt2js_config where
  "example_js_config =
     \<lparr>pkt2js_filenameInput = ''in'', pkt2js_filenameOutput = ''out'', pkt2js_proto_path = [], pkt2js_force_message = ''s'',
      pkt2js_buffer_size = 4096, pkt2js_retries = 0, pkt2js_retry_delay = 60, pkt2js_allowed_packet_sizes = [],
      pkt2js_verbosity = 0, pkt2js_daemonize = False, pkt2js_max_fd = 0, pkt2js_tableAliases = [],
      pkt2js_fieldAliases = [], pkt2js_properties = [], pkt2js_path = [], pkt2js_input_mode = 0,
      pkt2js_output_mode = 2\<rparr>"

text \<open>A packet is printed as a line of numbers to the standard output, and lost with a file.\<close>

lemma sensor_text:
  assumes "number_type sensor_nano c ''s'' sensor_md pv" "pk_fields (pv_packet pv) = sensor_fields"
  shows "str_parsePacket sensor_nano D 0 2 0 (text_of_bytes [1, 2, 3]) ''s'' (js_aliases example_js_config) c =
    Inr (Some (dquote @ ''s'' @ dquote @ tab @ ''3'' @ tab @ ''258'' @ endl, c))"
proof -
  note m = sensor_number_message [OF assms]
  have st: "we_settings (line_env (writer_env.truncate sensor_nano) tab_line_config) = we_settings sensor_nano"
    "we_declarations (writer_env.truncate sensor_nano) = we_declarations sensor_nano"
    by (simp_all add: line_env_def writer_env.truncate_def tab_line_config_def set_format_number_def sensor_nano_def)
  have cfg: "findAlias (Some (handlerline_tableAliases tab_line_config)) ''s'' \<noteq> []" "handlerline_mode tab_line_config = 1 \<or> handlerline_mode tab_line_config = 2"
    "handlerline_mode tab_line_config = 2" "handlerline_tableAliases tab_line_config = []" "handlerline_properties tab_line_config = []"
    "js_aliases example_js_config = (Some [], Some [], Some [])"
    by (simp_all add: tab_line_config_def example_line_config_def findAlias_def js_aliases_def example_js_config_def)
  have bs: "list_all (number_field (length [1, 2, 3 :: byte])) (pk_fields (pv_packet pv))"
    using m(1) unfolding number_packet_def .
  have put: "put_message (we_settings sensor_nano) (we_wire sensor_nano) D 2 0 (Some []) (Some []) (Some []) c ''s''
      (number_message ''s'' sensor_md pv [1, 2, 3]) = Inr (Some (0, dquote @ ''s'' @ dquote @ tab @ ''3'' @ tab @ ''258'' @ endl, c))"
    using put_number_line [OF sensor_number_printer [OF assms, unfolded st] bs cfg(1,2) number_message_def, where w = "we_wire sensor_nano"
        and DebugString = D and d = 0 and fieldAliases = "Some []"]
    unfolding cfg(3-5) sensor_line [OF assms(2)] .
  have "pm_type (number_message ''s'' sensor_md pv [1, 2, 3]) = ''s''" by (simp add: number_message_def)
  then show ?thesis
    by (simp add: str_parsePacket_def parsePacket2Message_def bytes_of_text_of_bytes parse_with_numbers [OF assms(1) m(1)]
        output_text_def Let_def cfg(6) put)
qed

theorem output_file_is_lost_witness:
  "\<exists>s1 s2. pkt2js sensor_nano (\<lambda>m. []) (\<lambda>file mode. True) (\<lambda>out text. Some (length text))
      (example_js_config\<lparr>pkt2js_filenameOutput := []\<rparr>) [] [Some [1, 2, 3]]
      \<lparr>js_session = 0, js_in = 0, js_out = 0, js_cache = no_cache, js_written = []\<rparr> = Inr (Some (0, s1)) \<and>
    js_written s1 = [(StandardOutput, dquote @ ''s'' @ dquote @ tab @ ''3'' @ tab @ ''258'' @ endl)] \<and>
    pkt2js sensor_nano (\<lambda>m. []) (\<lambda>file mode. True) (\<lambda>out text. Some (length text)) example_js_config [] [Some [1, 2, 3]]
      \<lparr>js_session = 0, js_in = 0, js_out = 0, js_cache = no_cache, js_written = []\<rparr> = Inr (Some (0, s2)) \<and>
    js_in s2 = 1 \<and> js_written s2 = [] \<and> js_out s2 = 0"
proof -
  obtain c pv where t: "number_type sensor_nano c ''s'' sensor_md pv" and fs: "pk_fields (pv_packet pv) = sensor_fields"
    by (rule sensor_number_type)
  have i: "initPkt2 sensor_nano = Inr (Some c)"
    using t by (simp add: initPkt2_def open_cache_def number_type_def writer_env.truncate_def)
  let ?s = "\<lparr>js_session = 0, js_in = 0, js_out = 0, js_cache = no_cache, js_written = []\<rparr>"
  let ?cfg = "example_js_config\<lparr>pkt2js_filenameOutput := []\<rparr>" and ?w = "\<lambda>out text. Some (length text)"
  have cfg: "js_aliases ?cfg = js_aliases example_js_config" "pkt2js_allowed_packet_sizes example_js_config = []"
    "pkt2js_input_mode example_js_config = 0" "pkt2js_output_mode example_js_config = 2"
    "pkt2js_force_message example_js_config = ''s''" "unat (pkt2js_buffer_size example_js_config) = 4096"
    by (simp_all add: js_aliases_def example_js_config_def)
  have "\<exists>s1. pkt2js sensor_nano (\<lambda>m. []) (\<lambda>file mode. True) ?w ?cfg [] [Some [1, 2, 3]] ?s = Inr (Some (0, s1)) \<and>
      js_in s1 = 1 \<and> js_written s1 = [(StandardOutput, dquote @ ''s'' @ dquote @ tab @ ''3'' @ tab @ ''258'' @ endl)]"
    by (simp add: pkt2js_def pkt2js_loop.simps js_session_run_def js_output_def fopen_def i read_loop.simps read_fd_def
        next_request_def js_counts_def js_body_def rejected_def cfg sensor_text [OF t fs] Let_def write_stream_def
        stream_writes_def endl_def)
  then obtain s1 where s1: "pkt2js sensor_nano (\<lambda>m. []) (\<lambda>file mode. True) ?w ?cfg [] [Some [1, 2, 3]] ?s = Inr (Some (0, s1))"
    "js_in s1 = 1" "js_written s1 = [(StandardOutput, dquote @ ''s'' @ dquote @ tab @ ''3'' @ tab @ ''258'' @ endl)]" by blast
  have "pkt2js_filenameOutput example_js_config \<noteq> []" by (simp add: example_js_config_def)
  from output_file_is_lost [OF s1(1) this] s1(2) obtain s2 where
    "pkt2js sensor_nano (\<lambda>m. []) (\<lambda>file mode. True) ?w example_js_config [] [Some [1, 2, 3]] ?s = Inr (Some (0, s2))"
    "js_in s2 = 1" "js_written s2 = []" "js_out s2 = 0" by auto
  then show ?thesis using s1(1,3) by blast
qed

end
