(* ===== verification/SheetTools.thy ===== *)
theory SheetTools
  imports PacketLibrary
begin

section \<open>Rows from files\<close>

text \<open>
  google-sheets-writer-from-file.cpp appends the packets of a file to a spreadsheet,
  google-sheets-writer-from-js.cpp the JSON values of a file. The parser of rapidjson is a
  parameter: it calls the handler for every value, or fails.
\<close>

subsection \<open>What is appended\<close>

definition row_range :: "string \<Rightarrow> string list \<Rightarrow> value_range" where
  "row_range sheet row =
     empty_range\<lparr>vr_range := A1_range sheet 0 0 (of_int (int (length row) - 1)) 0, vr_values := [row]\<rparr>"

text \<open>The global format number of the writer is 0: the option of the command line sets another variable.\<close>

definition put_packet ::
  "'e settings \<Rightarrow> web \<Rightarrow> pkt2sheet_config \<Rightarrow> string \<Rightarrow> pb_message \<Rightarrow> sheets_state \<Rightarrow> (int \<times> sheets_state) option result" where
  "put_packet st w cfg t m s =
     (case index_strings_new (ss_cache s) t of (vals, c) \<Rightarrow>
        bindF (fill_values (st\<lparr>st_format_number := 0\<rparr>) c t m vals) (\<lambda>vals'.
          let line = (if 1 < pkt2sheet_verbosity cfg
                then toStringTab vals' (Some (pkt2sheet_tableAliases cfg)) (Some (pkt2sheet_fieldAliases cfg))
                       (Some (pkt2sheet_properties cfg)) else [])
          in bindR (append_range w (ss_sheets s) (row_range (pkt2sheet_sheet cfg) (map nv_value (is_values vals')))) (\<lambda>(ok, sh).
               Inr (Some (if ok then 0 else - 63,
                 \<lparr>ss_stream = ss_stream s @ line, ss_cache = c, ss_sheets = sh\<rparr>)))))"

text \<open>What the handler of rapidjson is called with.\<close>

datatype json_event =
    JsonNull
  | JsonBool bool
  | JsonInt int
  | JsonUint int
  | JsonInt64 int
  | JsonUint64 int
  | JsonDouble u64
  | JsonString string
  | JsonStartObject
  | JsonKey string
  | JsonEndObject nat
  | JsonStartArray
  | JsonEndArray nat

fun json_handler :: "(u64 \<Rightarrow> string) \<Rightarrow> json_event \<Rightarrow> string list \<times> string list \<Rightarrow> string list \<times> string list" where
  "json_handler shown JsonNull (row, keys) = (row @ [[]], keys)"
| "json_handler shown (JsonBool b) (row, keys) = (row @ [if b then ''true'' else ''false''], keys)"
| "json_handler shown (JsonInt i) (row, keys) = (row @ [int_str i], keys)"
| "json_handler shown (JsonUint i) (row, keys) = (row @ [int_str i], keys)"
| "json_handler shown (JsonInt64 i) (row, keys) = (row @ [int_str i], keys)"
| "json_handler shown (JsonUint64 i) (row, keys) = (row @ [int_str i], keys)"
| "json_handler shown (JsonDouble d) (row, keys) = (row @ [shown d], keys)"
| "json_handler shown (JsonString t) (row, keys) = (row @ [t], keys)"
| "json_handler shown JsonStartObject (row, keys) = (row, keys)"
| "json_handler shown (JsonKey t) (row, keys) = (row, keys @ [t])"
| "json_handler shown (JsonEndObject n) (row, keys) = (row, keys)"
| "json_handler shown JsonStartArray (row, keys) = (row, keys)"
| "json_handler shown (JsonEndArray n) (row, keys) = (row, keys)"

text \<open>The parser reads a C string. An error that it finds late leaves no trace.\<close>

definition put_json_text ::
  "(string \<Rightarrow> json_event list option) \<Rightarrow> (u64 \<Rightarrow> string) \<Rightarrow> web \<Rightarrow> js2sheet_config \<Rightarrow> string \<Rightarrow> sheets_state \<Rightarrow> (int \<times> sheets_state) result" where
  "put_json_text sax shown w cfg value s =
     (let s' = (if 1 < js2sheet_verbosity cfg then s\<lparr>ss_stream := ss_stream s @ value\<rparr> else s)
      in case sax (c_string value) of
           None \<Rightarrow> Inr (- 25, s')
         | Some events \<Rightarrow>
             (let (row, keys) = fold (json_handler shown) events ([], []);
                  s'' = (if js2sheet_verbosity cfg \<noteq> 0
                         then s'\<lparr>ss_stream := ss_stream s' @ concat (map (\<lambda>k. k @ '' '') keys)\<rparr> else s')
              in bindR (append_range w (ss_sheets s'') (row_range (js2sheet_sheet cfg) row)) (\<lambda>(ok, sh).
                   Inr (if ok then 0 else - 63, s''\<lparr>ss_sheets := sh\<rparr>))))"

subsection \<open>The runs\<close>

text \<open>
  stop_request is not set to 0 when a run starts again, so a request to reload is still there.
  Between two looks another request can replace it.
\<close>

definition tool_session ::
  "(bytes option \<Rightarrow> 's \<Rightarrow> 's option result) \<Rightarrow> nat \<Rightarrow> int \<Rightarrow> int list \<Rightarrow> bytes option list \<Rightarrow> 's
   \<Rightarrow> (int \<times> int list \<times> bytes option list \<times> 's) option result" where
  "tool_session body cap pending requests reads s =
     (let (r, requests') = next_request requests; q = (if r \<noteq> 0 then r else pending)
      in if q \<noteq> 0 then Inr (Some (q, requests', reads, s)) else read_loop id body cap requests reads s)"

text \<open>The fuel is the number of runs; a file is read from its beginning in each of them.\<close>

fun tool_runs ::
  "nat \<Rightarrow> ('s \<Rightarrow> 's option result) \<Rightarrow> (bytes option \<Rightarrow> 's \<Rightarrow> 's option result) \<Rightarrow> nat \<Rightarrow> bytes option list option
   \<Rightarrow> int \<Rightarrow> int list \<Rightarrow> bytes option list \<Rightarrow> 's \<Rightarrow> (int \<times> 's) option result" where
  "tool_runs 0 opens body cap file pending requests reads s = Inr None"
| "tool_runs (Suc n) opens body cap file pending requests reads s =
     bindF (opens s) (\<lambda>s0.
     bindF (tool_session body cap pending requests (case file of None \<Rightarrow> reads | Some contents \<Rightarrow> contents) s0)
       (\<lambda>(q, requests', rest, s').
         if q = 2 then tool_runs n opens body cap file q requests' rest s' else Inr (Some (0, s'))))"

text \<open>A packet of pkt2sheet; a message that is not allowed is not appended.\<close>

definition sheet_body ::
  "'e nano_env \<Rightarrow> web \<Rightarrow> pkt2sheet_config \<Rightarrow> bytes option \<Rightarrow> sheets_state \<Rightarrow> sheets_state option result" where
  "sheet_body env w cfg r s =
     (if rejected (pkt2sheet_allowed_packet_sizes cfg) r then Inr (Some s)
      else (case r of
              None \<Rightarrow> Inl (Thrown ''length_error'')
            | Some b \<Rightarrow>
                bindF (parsePacket2Message env (pkt2sheet_input_mode cfg) (text_of_bytes b) (pkt2sheet_force_message cfg)
                    (Some (pkt2sheet_tableAliases cfg), Some (pkt2sheet_fieldAliases cfg), Some (pkt2sheet_properties cfg))
                    (ss_cache s)) (\<lambda>(m, c).
                  let s' = s\<lparr>ss_cache := c\<rparr>
                  in case m of
                       None \<Rightarrow> Inr (Some s')
                     | Some m \<Rightarrow>
                         if allowed (pkt2sheet_allowed_messages cfg) m
                         then bindF (put_packet (we_settings env) w cfg (pm_type m) m s') (\<lambda>(code, s''). Inr (Some s''))
                         else Inr (Some s'))))"

text \<open>A file that cannot be opened is replaced by the standard input, whose descriptor is 0.\<close>

definition pkt2sheet_run ::
  "nat \<Rightarrow> 'e nano_env \<Rightarrow> web \<Rightarrow> pkt2sheet_config \<Rightarrow> (string \<Rightarrow> bytes option list option) \<Rightarrow> int list
   \<Rightarrow> bytes option list \<Rightarrow> sheets_state \<Rightarrow> (int \<times> sheets_state) option result" where
  "pkt2sheet_run n env w cfg files requests std_in s =
     (let file = (if pkt2sheet_filename_input cfg = [] then None else files (pkt2sheet_filename_input cfg))
      in tool_runs n (\<lambda>s. bindF (initPkt2 env) (\<lambda>c. Inr (Some (s\<lparr>ss_cache := c\<rparr>)))) (sheet_body env w cfg)
           (size_t (pkt2sheet_buffer_size cfg)) file 0 requests std_in s)"

definition js2sheet_run ::
  "nat \<Rightarrow> (string \<Rightarrow> json_event list option) \<Rightarrow> (u64 \<Rightarrow> string) \<Rightarrow> web \<Rightarrow> js2sheet_config
   \<Rightarrow> (string \<Rightarrow> bytes option list option) \<Rightarrow> int list \<Rightarrow> bytes option list \<Rightarrow> sheets_state
   \<Rightarrow> (int \<times> sheets_state) option result" where
  "js2sheet_run n sax shown w cfg files requests std_in s =
     (let name = js2sheet_filename_input cfg;
          body = (\<lambda>r s. case r of
             None \<Rightarrow> Inl (Thrown ''length_error'')
           | Some b \<Rightarrow> bindR (put_json_text sax shown w cfg (text_of_bytes b) s) (\<lambda>(code, s'). Inr (Some s')))
      in if name \<noteq> [] \<and> files name = None then Inr (Some (- 18, s))
         else tool_runs n (\<lambda>s. Inr (Some s)) body (unat (js2sheet_buffer_size cfg))
                (if name = [] then None else files name) 0 requests std_in s)"

section \<open>What the tools guarantee\<close>

subsection \<open>Reloading\<close>

lemma tool_runs_for_ever:
  assumes "\<forall>s. \<exists>s'. opens s = Inr (Some s')"
  shows "tool_runs n opens body cap file 2 [] reads s = Inr None"
proof (induction n arbitrary: reads s)
  case (Suc n)
  obtain s' where "opens s = Inr (Some s')" using assms by blast
  then show ?case using Suc.IH by (simp add: tool_session_def next_request_def)
qed simp

text \<open>
  C37: A request to reload never lets pkt2sheet go again: where it reads the standard input, a run
  that ends with this request (2), and that nobody interrupts afterwards, is followed by runs that
  see the same request at once, for ever. Nothing is said of a run that ends with no request or with
  one to stop.
\<close>

theorem reload_spins_for_ever:
  assumes "initPkt2 env = Inr (Some c)" "pkt2sheet_filename_input cfg = []"
    and "tool_session (sheet_body env w cfg) (size_t (pkt2sheet_buffer_size cfg)) 0 requests std_in (s\<lparr>ss_cache := c\<rparr>) =
      Inr (Some (2, [], rest, s'))"
  shows "pkt2sheet_run n env w cfg files requests std_in s = Inr None"
proof (cases n)
  case (Suc k)
  have "\<forall>s. \<exists>s'. bindF (initPkt2 env) (\<lambda>c. Inr (Some (s\<lparr>ss_cache := c\<rparr>))) = Inr (Some s')" using assms(1) by simp
  from tool_runs_for_ever [OF this] show ?thesis using assms Suc by (simp add: pkt2sheet_run_def)
qed (simp add: pkt2sheet_run_def)

definition example_sheet_tool :: pkt2sheet_config where
  "example_sheet_tool =
     \<lparr>pkt2sheet_proto_path = [], pkt2sheet_filename_input = [], pkt2sheet_force_message = [],
      pkt2sheet_allowed_messages = [], pkt2sheet_retries = 0, pkt2sheet_retry_delay = 60, pkt2sheet_verbosity = 0,
      pkt2sheet_daemonize = False, pkt2sheet_format_number = 0, pkt2sheet_spreadsheet = ''S'', pkt2sheet_sheet = ''data'',
      pkt2sheet_buffer_size = 4096, pkt2sheet_json = [], pkt2sheet_token_file = [], pkt2sheet_subject_email = [],
      pkt2sheet_allowed_packet_sizes = [5], pkt2sheet_tableAliases = [], pkt2sheet_fieldAliases = [],
      pkt2sheet_properties = [], pkt2sheet_scope = [], pkt2sheet_audience = [], pkt2sheet_expires = 3600,
      pkt2sheet_path = [], pkt2sheet_input_mode = 0\<rparr>"

text \<open>The request comes while the first packet is handled, which is of no allowed size.\<close>

theorem reload_spins_for_ever_witness:
  "\<forall>n. pkt2sheet_run n (sensor_nano\<lparr>we_declarations := []\<rparr>) sample_web example_sheet_tool (\<lambda>f. None) [0, 2]
      [Some [1, 2, 3], Some [4, 5]] \<lparr>ss_stream = [], ss_cache = no_cache, ss_sheets = sample_sheets\<rparr> = Inr None"
proof
  fix n
  let ?env = "sensor_nano\<lparr>we_declarations := []\<rparr>"
  let ?s = "\<lparr>ss_stream = [], ss_cache = no_cache, ss_sheets = sample_sheets\<rparr>"
  obtain c where c: "initPkt2 ?env = Inr (Some c)" unfolding initPkt2_def using no_types_cache by blast
  have r: "rejected [5] (Some [1, 2, 3])" by code_simp
  have z: "size_t 4096 = 4096" by (simp add: size_t_def)
  have f: "pkt2sheet_filename_input example_sheet_tool = []" by (simp add: example_sheet_tool_def)
  have "tool_session (sheet_body ?env sample_web example_sheet_tool) (size_t (pkt2sheet_buffer_size example_sheet_tool)) 0 [0, 2]
      [Some [1, 2, 3], Some [4, 5]] (?s\<lparr>ss_cache := c\<rparr>) = Inr (Some (2, [], [Some [4, 5]], ?s\<lparr>ss_cache := c\<rparr>))"
    by (simp add: tool_session_def next_request_def read_loop.simps read_fd_def sheet_body_def r z example_sheet_tool_def)
  from reload_spins_for_ever [OF c f this] show
    "pkt2sheet_run n ?env sample_web example_sheet_tool (\<lambda>f. None) [0, 2] [Some [1, 2, 3], Some [4, 5]] ?s = Inr None" .
qed

subsection \<open>Rows from JSON\<close>

text \<open>What a value gives to the row: the keys of objects and the brackets give nothing.\<close>

fun row_texts :: "(u64 \<Rightarrow> string) \<Rightarrow> json_event \<Rightarrow> string list" where
  "row_texts shown JsonNull = [[]]"
| "row_texts shown (JsonBool b) = [if b then ''true'' else ''false'']"
| "row_texts shown (JsonInt i) = [int_str i]"
| "row_texts shown (JsonUint i) = [int_str i]"
| "row_texts shown (JsonInt64 i) = [int_str i]"
| "row_texts shown (JsonUint64 i) = [int_str i]"
| "row_texts shown (JsonDouble d) = [shown d]"
| "row_texts shown (JsonString t) = [t]"
| "row_texts shown ev = []"

lemma json_handler_row: "fst (fold (json_handler shown) events (row, keys)) = row @ concat (map (row_texts shown) events)"
proof (induction events arbitrary: row keys)
  case (Cons ev events)
  show ?case by (cases ev) (simp_all add: Cons.IH)
qed simp

text \<open>
  A JSON value that the parser takes becomes one row: js2sheet sends one request, whose text
  reads back as a range with one row that has the texts of the values in their order, however they
  are nested. A text that the parser does not take leaves the spreadsheet alone.
\<close>

theorem json_value_becomes_row:
  assumes "\<forall>n rq. \<exists>body. server w n rq = HttpReply 200 body" "js2sheet_verbosity cfg = 0"
  shows "case sax (c_string line) of
      None \<Rightarrow> put_json_text sax shown w cfg line s = Inr (- 25, s)
    | Some events \<Rightarrow> \<exists>s' rq. put_json_text sax shown w cfg line s = Inr (0, s') \<and>
        sent (ss_sheets s') = sent (ss_sheets s) @ [rq] \<and> rq_method rq = HttpPost \<and>
        (let row = concat (map (row_texts shown) events)
         in parseJSON (doubles w) (rq_data rq) empty_range =
           Inr (0, \<lparr>vr_range = A1_range (js2sheet_sheet cfg) 0 0 (of_int (int (length row) - 1)) 0,
             major_dimension = ''ROWS'', vr_values = [row]\<rparr>))"
proof (cases "sax (c_string line)")
  case None
  then show ?thesis using assms(2) by (simp add: put_json_text_def)
next
  case (Some events)
  obtain row keys where fold: "fold (json_handler shown) events ([], []) = (row, keys)" by fastforce
  then have row: "row = concat (map (row_texts shown) events)" using json_handler_row [of shown events "[]" "[]"] by simp
  let ?row = "row_range (js2sheet_sheet cfg) row"
  obtain body where "server w (length (sent (ss_sheets s))) \<lparr>rq_method = HttpPost, rq_bearer = token (ss_sheets s),
      rq_url = row_url (ss_sheets s) ?row, rq_data = toJSON (doubles w) ?row\<rparr> = HttpReply 200 body"
    using assms(1) by blast
  note post = append_accepted [OF this]
  have "?row = \<lparr>vr_range = A1_range (js2sheet_sheet cfg) 0 0 (of_int (int (length row) - 1)) 0,
      major_dimension = ''ROWS'', vr_values = [row]\<rparr>" by (simp add: row_range_def empty_range_def)
  then show ?thesis using Some fold post assms(2)
    by (simp add: put_json_text_def row [symmetric] parseJSON_toJSON Let_def)
qed

definition example_json_tool :: js2sheet_config where
  "example_json_tool =
     \<lparr>js2sheet_filename_input = [], js2sheet_buffer_size = 4096, js2sheet_retries = 0, js2sheet_retry_delay = 60,
      js2sheet_verbosity = 0, js2sheet_daemonize = False, js2sheet_format_number = 0, js2sheet_spreadsheet = ''S'',
      js2sheet_sheet = ''data'', js2sheet_json = [], js2sheet_token_file = [], js2sheet_subject_email = [],
      js2sheet_scope = [], js2sheet_audience = [], js2sheet_expires = 3600, js2sheet_path = []\<rparr>"

theorem json_value_becomes_row_witness:
  "\<exists>s' rq. put_json_text (\<lambda>t. Some [JsonStartObject, JsonKey ''a'', JsonInt 5, JsonKey ''b'', JsonStartArray, JsonBool True,
        JsonNull, JsonEndArray 2, JsonEndObject 2]) (\<lambda>d. []) sample_web example_json_tool ''{}''
      \<lparr>ss_stream = [], ss_cache = no_cache, ss_sheets = sample_sheets\<rparr> = Inr (0, s') \<and>
    sent (ss_sheets s') = [rq] \<and>
    (\<exists>vr. parseJSON (doubles sample_web) (rq_data rq) empty_range = Inr (0, vr) \<and> vr_values vr = [[''5'', ''true'', []]])"
proof -
  let ?events = "[JsonStartObject, JsonKey ''a'', JsonInt 5, JsonKey ''b'', JsonStartArray, JsonBool True,
        JsonNull, JsonEndArray 2, JsonEndObject 2]"
  have ok: "\<forall>n rq. \<exists>body. server sample_web n rq = HttpReply 200 body" by (simp add: sample_web_def Let_def)
  have v: "js2sheet_verbosity example_json_tool = 0" by (simp add: example_json_tool_def)
  have t: "concat (map (row_texts (\<lambda>d. [])) ?events) = [''5'', ''true'', []]" by code_simp
  have sent: "sent sample_sheets = []" by (simp add: sample_sheets_def)
  show ?thesis
    using json_value_becomes_row [where sax = "\<lambda>t. Some ?events" and line = "''{}''" and shown = "\<lambda>d. []" and
        s = "\<lparr>ss_stream = [], ss_cache = no_cache, ss_sheets = sample_sheets\<rparr>", OF ok v] sent
    unfolding option.case t Let_def by fastforce
qed

end
