(* ===== verification/Emitters.thy ===== *)
theory Emitters
  imports TcpReceiver PacketLibrary PbJson
begin

section \<open>Programs that emit packets\<close>

text \<open>
  tcpemitterline.cpp sends the hexadecimal words of a file over TCP, messageemitterline.cpp is to
  send messages given as JSON, and tcpemitter-iridium.cpp sends packets of the Iridium kind, as
  mqtt-emitter-iridium.cpp does with a copy of the same functions.
\<close>

subsection \<open>Words of a stream\<close>

text \<open>
  The extraction of a word: white space is skipped; where the text ends during that or in the
  word, the stream is at its end. A stream that could not be opened gives nothing and is never at
  its end.
\<close>

definition extract_word :: "string \<Rightarrow> string \<times> string \<times> bool" where
  "extract_word s =
     (let s' = dropWhile is_space s; rest = dropWhile (\<lambda>c. \<not> is_space c) s'
      in (takeWhile (\<lambda>c. \<not> is_space c) s', rest, rest = []))"

definition next_word :: "string option \<Rightarrow> string \<times> string option \<times> bool" where
  "next_word strm =
     (case strm of
        None \<Rightarrow> ([], None, False)
      | Some s \<Rightarrow> (let (w, rest, eof) = extract_word s in (w, Some rest, eof)))"

subsection \<open>Lines over TCP\<close>

text \<open>
  What a connection is like: no socket, no connection, or one that is written to once. The write
  fails, or it takes a number of bytes, which may be less than there are; what is left is not
  written again. The state counts the connections and has the bytes that went through each of those
  that were made.
\<close>

datatype connection = NoSocket | Refused | Accepted "nat option"

definition write_socket :: "nat option \<Rightarrow> bytes \<Rightarrow> bytes" where
  "write_socket taken line = (case taken of None \<Rightarrow> [] | Some k \<Rightarrow> take k line)"

record emitter_state =
  em_count :: nat
  em_sent :: "bytes list"

text \<open>A look at stop_request finds a new request, or the one that was there.\<close>

definition look :: "int \<Rightarrow> int list \<Rightarrow> int \<times> int list" where
  "look pending requests = (let (r, rs) = next_request requests in (if r \<noteq> 0 then r else pending, rs))"

text \<open>The result of sending a line as often as is asked for: a code, or the pending request.\<close>

fun send_line ::
  "(nat \<Rightarrow> connection) \<Rightarrow> bytes \<Rightarrow> nat \<Rightarrow> int \<Rightarrow> int list \<Rightarrow> emitter_state \<Rightarrow> (int + int \<times> int list) \<times> emitter_state" where
  "send_line net line 0 q requests s = (Inr (q, requests), s)"
| "send_line net line (Suc c) q requests s =
     (let s1 = s\<lparr>em_count := em_count s + 1\<rparr>
      in case net (em_count s) of
           NoSocket \<Rightarrow> (Inl (- 42), s1)
         | Refused \<Rightarrow> (Inl (- 45), s1)
         | Accepted taken \<Rightarrow>
             (let s2 = s1\<lparr>em_sent := em_sent s1 @ [write_socket taken line]\<rparr>; (q', requests') = look q requests
              in if q' \<noteq> 0 then (Inr (q', requests'), s2) else send_line net line c q' requests' s2))"

text \<open>The loop over the words; the fuel is the number of turns.\<close>

fun emit_words ::
  "nat \<Rightarrow> (nat \<Rightarrow> connection) \<Rightarrow> int \<Rightarrow> bool \<Rightarrow> string option \<Rightarrow> int \<Rightarrow> int list \<Rightarrow> emitter_state
   \<Rightarrow> ((int + int \<times> int list \<times> string option \<times> bool) \<times> emitter_state) option" where
  "emit_words 0 net repeats eof strm q requests s = None"
| "emit_words (Suc n) net repeats eof strm q requests s =
     (let (q', requests') = look q requests
      in if q' \<noteq> 0 \<or> eof then Some (Inr (q', requests', strm, eof), s)
         else let (word, strm', eof') = next_word strm; line = hex2string word
              in if line = [] then emit_words n net repeats eof' strm' q' requests' s
                 else (case send_line net line (nat repeats) q' requests' s of
                         (Inl code, s') \<Rightarrow> Some (Inl code, s')
                       | (Inr (q'', requests''), s') \<Rightarrow> emit_words n net repeats eof' strm' q'' requests'' s'))"

text \<open>A run that is asked to reload opens its file again; the standard input stays where it is.\<close>

fun tcp_emitter_line ::
  "nat \<Rightarrow> bool \<Rightarrow> (nat \<Rightarrow> connection) \<Rightarrow> tcpemitter_config \<Rightarrow> string option \<Rightarrow> bool \<Rightarrow> string option \<Rightarrow> int list
   \<Rightarrow> emitter_state \<Rightarrow> (int \<times> emitter_state) option" where
  "tcp_emitter_line 0 host net cfg file eof strm requests s = None"
| "tcp_emitter_line (Suc n) host net cfg file eof strm requests s =
     (if \<not> host then Some (- 41, s)
      else let from_file = (tcpemitter_file_name cfg \<noteq> []);
               strm = (if from_file then file else strm); eof = (if from_file then False else eof)
           in case emit_words n net (tcpemitter_count cfg) eof strm 0 requests s of
                None \<Rightarrow> None
              | Some (Inl code, s') \<Rightarrow> Some (code, s')
              | Some (Inr (q, requests', strm', eof'), s') \<Rightarrow>
                  if q = 2 then tcp_emitter_line n host net cfg file eof' strm' requests' s' else Some (0, s'))"

subsection \<open>Messages over TCP\<close>

text \<open>The encoder of ProtobufDeclarations returns 0 and does nothing.\<close>

definition encode :: "pb_message \<Rightarrow> nat" where
  "encode m = 0"

text \<open>The JSON text begins with the colon that separates it from the type.\<close>

definition parse_line ::
  "json_library \<Rightarrow> (string \<Rightarrow> string + json) \<Rightarrow> pool \<Rightarrow> string \<Rightarrow> nat result" where
  "parse_line lib parser pool line =
     (case str_find '':'' line of
        None \<Rightarrow> Inr 0
      | Some start_pos \<Rightarrow>
          bindR (decode_json lib parser pool (take start_pos line) (drop start_pos line)) (\<lambda>m.
            Inr (case m of None \<Rightarrow> 0 | Some m \<Rightarrow> encode m)))"

subsection \<open>Packets of the Iridium kind\<close>

text \<open>
  The structures of iridium.h without padding, as bytes in the order of the network where the
  emitter converts them. Bit fields start at the least significant bit.
\<close>

definition htons :: "u16 \<Rightarrow> bytes" where
  "htons w = [ucast (drop_bit 8 w), ucast w]"

definition htonl :: "u32 \<Rightarrow> bytes" where
  "htonl w = [ucast (drop_bit 24 w), ucast (drop_bit 16 w), ucast (drop_bit 8 w), ucast w]"

definition host16 :: "u16 \<Rightarrow> bytes" where
  "host16 w = [ucast w, ucast (drop_bit 8 w)]"

definition iridium_header :: "byte \<Rightarrow> u16 \<Rightarrow> bytes" where
  "iridium_header i n = i # htons n"

definition imei :: bytes where
  "imei = map (\<lambda>d. 0x30 + d) [3, 0, 0, 2, 3, 4, 0, 6, 0, 2, 3, 5, 3, 4, 0]"

text \<open>The identifier, the status, the numbers of what was sent and received, and the time.\<close>

definition ieio_header :: "int \<Rightarrow> u32 \<Rightarrow> bytes" where
  "ieio_header idx t = htonl 1364432488 @ imei @ [0] @ htons (of_int idx) @ htons 0 @ htonl t"

definition ie_location :: bytes where
  "ie_location = [0, 62] @ htons 4 @ [129] @ htons 74 @ htonl 9"

definition gpscoord_yak :: bytes where
  "gpscoord_yak =
     [62, 2] @ host16 0 @ host16 0 @ [0x4E, 129, 43] @ host16 0 @ host16 0 @ [0x45, 9, 10]"

text \<open>localtime is a parameter; years count from 1900, months from 0.\<close>

record tm =
  tm_year :: int
  tm_mon :: int
  tm_mday :: int
  tm_hour :: int
  tm_min :: int
  tm_sec :: int

definition time5_date :: "tm \<Rightarrow> u16" where
  "time5_date tm =
     (of_int (tm_mday tm) AND 31) OR push_bit 5 (of_int (tm_mon tm + 1) AND 15) OR push_bit 9 (of_int (tm_year tm - 100) AND 127)"

definition fill_time5 :: "tm \<Rightarrow> bytes" where
  "fill_time5 tm = htons (time5_date tm) @ [of_int (tm_hour tm), of_int (tm_min tm), of_int (tm_sec tm)]"

definition packet8 :: "tm \<Rightarrow> bytes" where
  "packet8 tm = [0x08, 0, 5] @ gpscoord_yak @ [32, 25, 0, 0] @ htons 256 @ fill_time5 tm"

definition fill_random_packet :: "int \<Rightarrow> u32 \<Rightarrow> tm \<Rightarrow> bytes" where
  "fill_random_packet idx t tm =
     iridium_header 1 78 @ iridium_header 1 28 @ ieio_header idx t @ iridium_header 3 11 @ ie_location
     @ iridium_header 2 30 @ packet8 tm"

section \<open>What the emitters guarantee\<close>

subsection \<open>Words of hexadecimal digits\<close>

lemma hexString_no_space: "\<forall>c \<in> set (hexString bs). \<not> is_space c"
proof -
  have "list_all (\<lambda>d. \<not> is_space (hex_digit d)) [0..<16]" by code_simp
  then have d: "\<not> is_space (hex_digit d)" if "d < 16" for d using that by (auto simp: list_all_iff)
  show ?thesis
  proof (induction bs)
    case (Cons b bs)
    have "unat b < 256" using unsigned_less [of b, where 'a = nat] by simp
    then have "unat b div 16 < 16" "unat b mod 16 < 16" by simp_all
    then show ?case using Cons d by (simp add: hexString_Cons)
  qed (simp add: hexString_Nil)
qed

lemma extract_word_plain:
  assumes "w \<noteq> []" "\<forall>c \<in> set w. \<not> is_space c" "\<forall>c \<in> set sp. is_space c" "is_space e"
  shows "extract_word (sp @ w @ e # s) = (w, e # s, False)"
proof -
  have "dropWhile is_space (sp @ w @ e # s) = w @ e # s"
    using assms(1-3) by (induction sp) (cases w; auto)+
  moreover have "takeWhile (\<lambda>c. \<not> is_space c) (w @ e # s) = w" "dropWhile (\<lambda>c. \<not> is_space c) (w @ e # s) = e # s"
    using assms(2,4) by (induction w) auto
  ultimately show ?thesis using assms(4) by (auto simp: extract_word_def Let_def)
qed

lemma extract_word_blank: "\<forall>c \<in> set sp. is_space c \<Longrightarrow> extract_word sp = ([], [], True)"
  by (simp add: extract_word_def dropWhile_eq_Nil_conv [THEN iffD2])

text \<open>A network on which every connection is made and every write takes at least a byte.\<close>

definition writing :: "(nat \<Rightarrow> nat) \<Rightarrow> nat \<Rightarrow> connection" where
  "writing w k = Accepted (Some (Suc (w k)))"

lemma send_line_all:
  "send_line (writing w) line c 0 [] s =
   (Inr (0, []), s\<lparr>em_count := em_count s + c, em_sent := em_sent s @ parts w (em_count s) (replicate c line)\<rparr>)"
  by (induction c arbitrary: s) (simp_all add: look_def next_request_def writing_def write_socket_def)

lemma parts_append: "parts w n (xs @ ys) = parts w n xs @ parts w (n + length xs) ys"
  by (induction xs arbitrary: n) simp_all

lemma hexString_ne: "bs \<noteq> [] \<Longrightarrow> hexString bs \<noteq> []"
  using length_hexString [of bs] by auto

lemma emit_words_hex:
  assumes "\<forall>bs \<in> set bss. bs \<noteq> []" "\<forall>c \<in> set sp. is_space c" "length bss + 2 \<le> n"
  shows "\<exists>strm eof. emit_words n (writing w) repeats False
      (Some (sp @ concat (map (\<lambda>bs. hexString bs @ endl) bss))) 0 [] s =
    Some (Inr (0, [], strm, eof), s\<lparr>em_count := em_count s + nat repeats * length bss,
      em_sent := em_sent s @ parts w (em_count s) (concat (map (replicate (nat repeats)) bss))\<rparr>)"
  using assms
proof (induction bss arbitrary: sp n s)
  case Nil
  then obtain m where n: "n = Suc (Suc m)" by (cases n; cases "n - 1") auto
  show ?case using extract_word_blank [OF Nil(2)] by (auto simp: n look_def next_request_def next_word_def hex2string_def)
next
  case (Cons bs bss)
  then obtain m where n: "n = Suc m" by (cases n) auto
  have bs: "hexString bs \<noteq> []" "hex2string (hexString bs) = bs"
    using Cons.prems(1) hexString_ne by (simp_all add: hex2string_def readHex_hexString)
  have e: "endl = [CHR 0x0A]" "is_space (CHR 0x0A)" by (simp_all add: endl_def is_space_def)
  let ?rest = "concat (map (\<lambda>bs. hexString bs @ endl) bss)"
  let ?s = "s\<lparr>em_count := em_count s + nat repeats, em_sent := em_sent s @ parts w (em_count s) (replicate (nat repeats) bs)\<rparr>"
  have word: "extract_word (sp @ hexString bs @ CHR 0x0A # ?rest) = (hexString bs, CHR 0x0A # ?rest, False)"
    by (rule extract_word_plain [OF bs(1) hexString_no_space Cons.prems(2) e(2)])
  have "emit_words n (writing w) repeats False (Some (sp @ concat (map (\<lambda>bs. hexString bs @ endl) (bs # bss)))) 0 [] s =
      emit_words m (writing w) repeats False (Some ([CHR 0x0A] @ ?rest)) 0 [] ?s"
    using Cons.prems(1) word bs(2) by (simp add: n look_def next_request_def next_word_def e(1) send_line_all)
  with Cons.IH [of "[CHR 0x0A]" m ?s] Cons.prems(1,3) e(2) n show ?case by (auto simp: algebra_simps parts_append)
qed

text \<open>
  C36: What is emitted is received: the hexadecimal lines of a file go over TCP connections, as often
  as is asked for, and the TCP receiver sends a packet for each of them in their order. A connection
  has one write and one read, and both may be short: the packet has the first bytes of the line that
  were written and that had come in when the receiver read them, and the whole line where every write
  and every read was whole. This is for a receiver without compression and with a buffer of at least
  16271 bytes; with its default of 4096 it writes past the end of its packet at the start (C40).
\<close>

theorem emitted_lines_are_received:
  assumes "tcpemitter_file_name ecfg \<noteq> []" "length bss + 3 \<le> n"
    and "f = concat (map (\<lambda>bs. hexString bs @ endl) bss)"
    and "te_addrinfo env 0 = Some a" "length a = sockaddr_size" "te_malloc env 0"
    and "listen_port (te_listen env 0) = None" "te_option env 0" "te_connect env 0"
    and "unat (tcpreceiver_buffer_size cfg) < 2 ^ 31" "tcpreceiver_compression_type cfg = 0"
    and "\<forall>k. length (te_source env k) = 16 \<and> te_read env k \<and> te_send env k"
    and "\<forall>bs \<in> set bss. bs \<noteq> [] \<and> length bs \<le> unat (tcpreceiver_buffer_size cfg) \<and> length bs + 257 < 2 ^ 31"
    and "16271 \<le> unat (tcpreceiver_buffer_size cfg)"
    and "lines = concat (map (replicate (nat (tcpemitter_count ecfg))) bss)"
  shows "\<exists>es s' ps. tcp_emitter_line n True (writing w) ecfg (Some f) False None [] \<lparr>em_count = 0, em_sent = []\<rparr> = Some (0, es) \<and>
    tcp_receiever_nano env cfg (arrived (em_sent es)) s = Inr (Some (Waiting s')) \<and> tc_sent s' = tc_sent s @ ps \<and>
    map (\<lambda>p. payload (packet_wrap p)) ps = parts (te_ready env) (tc_count s) (parts w 0 lines) \<and>
    ((\<forall>bs \<in> set bss. \<forall>k. length bs \<le> Suc (w k) \<and> length bs \<le> Suc (te_ready env k)) \<longrightarrow>
     map (\<lambda>p. payload (packet_wrap p)) ps = lines)"
proof -
  let ?es = "\<lparr>em_count = nat (tcpemitter_count ecfg) * length bss, em_sent = parts w 0 lines\<rparr>"
  obtain m where n: "n = Suc m" using assms(2) by (cases n) auto
  have ne: "\<forall>bs \<in> set bss. bs \<noteq> []" using assms(13) by blast
  from emit_words_hex [OF ne, of "[]" m w "tcpemitter_count ecfg" "\<lparr>em_count = 0, em_sent = []\<rparr>"] assms(2,15) n
  obtain strm eof where words: "emit_words m (writing w) (tcpemitter_count ecfg) False (Some f) 0 []
      \<lparr>em_count = 0, em_sent = []\<rparr> = Some (Inr (0, [], strm, eof), ?es)"
    using assms(3) by auto
  have emitted: "tcp_emitter_line n True (writing w) ecfg (Some f) False None [] \<lparr>em_count = 0, em_sent = []\<rparr> = Some (0, ?es)"
    using assms(1) words unfolding n by (simp del: emit_words.simps)
  have lines: "\<forall>bs \<in> set lines. bs \<in> set bss" by (auto simp: assms(15))
  have "\<forall>bs \<in> set (parts w 0 lines). bs \<noteq> [] \<and> length bs \<le> unat (tcpreceiver_buffer_size cfg) \<and> length bs + 257 < 2 ^ 31"
    using parts_in lines assms(13) by fastforce
  from tcp_delivers [OF assms(4-12) this assms(14), of s] obtain s' ps where
    received: "tcp_receiever_nano env cfg (arrived (em_sent ?es)) s = Inr (Some (Waiting s'))" "tc_sent s' = tc_sent s @ ps"
      "map (\<lambda>p. payload (packet_wrap p)) ps = parts (te_ready env) (tc_count s) (parts w 0 lines)" by auto
  have "parts (te_ready env) (tc_count s) (parts w 0 lines) = lines"
    if "\<forall>bs \<in> set bss. \<forall>k. length bs \<le> Suc (w k) \<and> length bs \<le> Suc (te_ready env k)"
    using that lines parts_all [of lines w 0] parts_all [of lines "te_ready env" "tc_count s"] by auto
  then show ?thesis using emitted received by metis
qed

definition example_emitter_config :: tcpemitter_config where
  "example_emitter_config =
     \<lparr>tcpemitter_intface = ''0.0.0.0'', tcpemitter_port = 50052, tcpemitter_proto_path = [], tcpemitter_file_name = ''f'',
      tcpemitter_message_out_url = [], tcpemitter_verbosity = 0, tcpemitter_daemonize = False, tcpemitter_retries = 0,
      tcpemitter_count = 2, tcpemitter_delay = 1, tcpemitter_retry_delay = 60, tcpemitter_path = []\<rparr>"

text \<open>Of the first connection the network takes one byte only.\<close>

theorem emitted_lines_are_received_witness:
  "\<forall>s. \<exists>es s' ps. tcp_emitter_line 5 True (writing (\<lambda>k. if k = 0 then 0 else 99)) example_emitter_config
      (Some (''0102'' @ endl @ ''ff'' @ endl)) False None [] \<lparr>em_count = 0, em_sent = []\<rparr> = Some (0, es) \<and>
    tcp_receiever_nano example_tcp_env (example_tcp_config 20000) (arrived (em_sent es)) s = Inr (Some (Waiting s')) \<and>
    tc_sent s' = tc_sent s @ ps \<and> map (\<lambda>p. payload (packet_wrap p)) ps = [[1], [1, 2], [255], [255]]"
proof
  fix s :: tcp_state
  have e: "te_addrinfo example_tcp_env 0 = Some (replicate 16 7)" "length (replicate 16 (7 :: byte)) = sockaddr_size"
    "te_malloc example_tcp_env 0" "listen_port (te_listen example_tcp_env 0) = None" "te_option example_tcp_env 0"
    "te_connect example_tcp_env 0"
    "\<forall>n. length (te_source example_tcp_env n) = 16 \<and> te_read example_tcp_env n \<and> te_send example_tcp_env n"
    by (simp_all add: example_tcp_env_def sockaddr_size_def listen_port_def)
  have c: "unat (tcpreceiver_buffer_size (example_tcp_config 20000)) = 20000"
    "tcpreceiver_compression_type (example_tcp_config 20000) = 0" by (simp_all add: example_tcp_config_def)
  have f: "''0102'' @ endl @ ''ff'' @ endl = concat (map (\<lambda>bs. hexString bs @ endl) [[1, 2], [255]])" by code_simp
  have ec: "tcpemitter_file_name example_emitter_config \<noteq> []" "tcpemitter_count example_emitter_config = 2"
    by (simp_all add: example_emitter_config_def)
  have cat: "concat (map (replicate (nat (tcpemitter_count example_emitter_config))) [[1 :: byte, 2], [255]]) =
      [[1, 2], [1, 2], [255], [255]]" by (simp add: ec(2) numeral_2_eq_2)
  have len: "length [[1 :: byte, 2], [255]] + 3 \<le> 5" by simp
  have small: "unat (tcpreceiver_buffer_size (example_tcp_config 20000)) < 2 ^ 31"
    "\<forall>bs \<in> set [[1 :: byte, 2], [255]]. bs \<noteq> [] \<and> length bs \<le> unat (tcpreceiver_buffer_size (example_tcp_config 20000)) \<and>
      length bs + 257 < 2 ^ 31" "16271 \<le> unat (tcpreceiver_buffer_size (example_tcp_config 20000))" by (simp_all add: c)
  have r: "te_ready example_tcp_env = (\<lambda>n. 4095)" by (simp add: example_tcp_env_def)
  have p: "parts (\<lambda>n. 4095) m (parts (\<lambda>k. if k = 0 then 0 else 99) 0 [[1, 2], [1, 2], [255], [255]]) =
    [[1], [1, 2], [255], [255 :: byte]]" for m by simp
  show "\<exists>es s' ps. tcp_emitter_line 5 True (writing (\<lambda>k. if k = 0 then 0 else 99)) example_emitter_config
      (Some (''0102'' @ endl @ ''ff'' @ endl)) False None [] \<lparr>em_count = 0, em_sent = []\<rparr> = Some (0, es) \<and>
    tcp_receiever_nano example_tcp_env (example_tcp_config 20000) (arrived (em_sent es)) s = Inr (Some (Waiting s')) \<and>
    tc_sent s' = tc_sent s @ ps \<and> map (\<lambda>p. payload (packet_wrap p)) ps = [[1], [1, 2], [255], [255]]"
    using emitted_lines_are_received [OF ec(1) len f e(1-6) small(1) c(2) e(7) small(2,3) cat [symmetric],
        of "\<lambda>k. if k = 0 then 0 else 99" s] unfolding r p
    by (elim exE conjE) (intro exI conjI; assumption)
qed

subsection \<open>Files that cannot be opened\<close>

lemma no_words_without_file: "emit_words n net repeats False None 0 [] s = None"
  by (induction n) (simp_all add: look_def next_request_def next_word_def hex2string_def)

text \<open>
  A file that cannot be opened is never at its end, so the emitter takes empty words from it for
  ever, whatever the fuel.
\<close>

theorem missing_file_never_ends:
  assumes "tcpemitter_file_name cfg \<noteq> []"
  shows "tcp_emitter_line n True net cfg None eof strm [] s = None"
  using assms by (cases n) (simp_all add: no_words_without_file)

subsection \<open>Messages are never sent\<close>

lemma parse_line_gives_nothing: "parse_line lib parser pool line = Inr n \<Longrightarrow> n = 0"
  by (auto simp: parse_line_def encode_def split: option.splits)

subsection \<open>The layout of the Iridium packet\<close>

lemma iridium_lengths:
  "length (ieio_header idx t) = 28" "length ie_location = 11" "length (packet8 tm) = 30" "length (iridium_header i n) = 3"
  by (simp_all add: ieio_header_def ie_location_def packet8_def iridium_header_def htonl_def htons_def imei_def
      gpscoord_yak_def host16_def fill_time5_def)

text \<open>
  The packet of the Iridium emitters has 81 bytes, and every size in it is that of what follows:
  the whole packet is a header over three parts, each with a header of its own.
\<close>

theorem iridium_sizes_are_right:
  "let body = concat (map (\<lambda>(i, part). iridium_header i (of_nat (length part)) @ part)
      [(1, ieio_header idx t), (3, ie_location), (2, packet8 tm)])
   in fill_random_packet idx t tm = iridium_header 1 (of_nat (length body)) @ body \<and>
      length (fill_random_packet idx t tm) = 81"
  by (simp add: fill_random_packet_def iridium_lengths Let_def)

end
