(* ===== verification/Declarations.thy ===== *)
theory Declarations
  imports PacketVar Delimited
begin

section \<open>Reading the declarations\<close>

text \<open>
  The part of protobuf-declarations.cpp that reads .proto files. The importer and the parser of
  the protobuf library and the files are parameters: what the importer gives for a name, whether
  the parser accepts the file, the file in the pool of the importer, and which paths can be opened.
\<close>

record file_descriptor =
  fd_package :: string
  fd_messages :: "(string \<times> descriptor) list"

record importer =
  im_import :: "string \<Rightarrow> bool"
  im_parse :: "string \<Rightarrow> bool"
  im_find :: "string \<Rightarrow> file_descriptor option"
  im_fopen :: "string \<Rightarrow> bool"
  im_files :: "string \<Rightarrow> string list"

text \<open>What the class keeps; the number of files that stay open is kept as well.\<close>

record proto_declarations =
  pd_internalMessages :: declarations
  pd_parsed_files :: "string list"
  pd_paths :: "string list"
  pd_open_files :: nat

definition proto_declarations_new :: proto_declarations where
  "proto_declarations_new = \<lparr>pd_internalMessages = [], pd_parsed_files = [], pd_paths = [], pd_open_files = 0\<rparr>"

definition addPath :: "string \<Rightarrow> proto_declarations \<Rightarrow> proto_declarations" where
  "addPath path pd = pd\<lparr>pd_paths := pd_paths pd @ [path]\<rparr>"

text \<open>The file as it is named, or the first of the paths that has it.\<close>

definition openProto :: "importer \<Rightarrow> string \<Rightarrow> proto_declarations \<Rightarrow> string option" where
  "openProto im fn pd =
     (if im_fopen im fn then Some fn
      else find (im_fopen im) (map (\<lambda>p. p @ ''/'' @ fn) (pd_paths pd)))"

text \<open>A file that the parser does not accept stays open.\<close>

definition parseProtoFile :: "importer \<Rightarrow> string \<Rightarrow> proto_declarations \<Rightarrow> bool \<times> proto_declarations" where
  "parseProtoFile im fn pd =
     (if \<not> im_import im fn then (False, pd)
      else let pd1 = pd\<lparr>pd_parsed_files := pd_parsed_files pd @ [fn]\<rparr>
           in case openProto im fn pd1 of
                None \<Rightarrow> (False, pd1)
              | Some f \<Rightarrow>
                  if \<not> im_parse im f then (False, pd1\<lparr>pd_open_files := pd_open_files pd1 + 1\<rparr>)
                  else (case im_find im fn of
                          None \<Rightarrow> (False, pd1)
                        | Some fd \<Rightarrow>
                            (True, pd1\<lparr>pd_internalMessages :=
                               file_messages (fd_package fd) (fd_messages fd) (pd_internalMessages pd1)\<rparr>)))"

fun parseProtoFiles :: "importer \<Rightarrow> string list \<Rightarrow> proto_declarations \<Rightarrow> nat \<times> proto_declarations" where
  "parseProtoFiles im [] pd = (0, pd)"
| "parseProtoFiles im (fn # fns) pd =
     (let (ok, pd1) = parseProtoFile im fn pd; (r, pd2) = parseProtoFiles im fns pd1
      in (if ok then r + 1 else r, pd2))"

definition parseProtoPath :: "importer \<Rightarrow> string \<Rightarrow> proto_declarations \<Rightarrow> nat \<times> proto_declarations" where
  "parseProtoPath im path pd = parseProtoFiles im (im_files im path) pd"

definition protobufDeclarations_new :: "importer \<Rightarrow> string \<Rightarrow> proto_declarations" where
  "protobufDeclarations_new im path = snd (parseProtoPath im path (addPath path proto_declarations_new))"

text \<open>A new message of a type, in an arena or not, and the decoders of it.\<close>

definition getMessage :: "pool \<Rightarrow> string \<Rightarrow> pb_message option" where
  "getMessage pool message_name = (if pool message_name = None then None else Some (new_message pool message_name))"

definition decode_stream :: "(pb_message \<Rightarrow> pb_message option) \<Rightarrow> pool \<Rightarrow> string \<Rightarrow> pb_message option" where
  "decode_stream parses pool message_name =
     (case getMessage pool message_name of None \<Rightarrow> None | Some m \<Rightarrow> parses m)"

section \<open>What is declared\<close>

lemma file_messages_declares:
  "map_of (file_messages package ms pd) = map_of pd ++ map_of (rev (map (\<lambda>(n, md). (package @ ''.'' @ n, md)) ms))"
proof (induction package ms pd rule: file_messages.induct)
  case (2 package name md ms pd)
  let ?X = "map_of (rev (map (\<lambda>(n, md). (package @ ''.'' @ n, md)) ms))" and ?k = "package @ ''.'' @ name"
  have "map_of (file_messages package ((name, md) # ms) pd) = (map_of pd)(?k \<mapsto> md) ++ ?X"
    using "2.IH" by (simp only: file_messages.simps map_of_smap_put)
  also have "\<dots> = map_of pd ++ ([?k \<mapsto> md] ++ ?X)"
    by (simp only: map_add_upd [symmetric] map_add_empty map_add_assoc)
      (metis map_add_assoc map_add_empty map_add_upd)
  finally show ?case by simp
qed simp

text \<open>The good files of a list.\<close>

definition good_file :: "importer \<Rightarrow> proto_declarations \<Rightarrow> string \<Rightarrow> bool" where
  "good_file im pd fn =
     (im_import im fn \<and> (case openProto im fn pd of None \<Rightarrow> False | Some f \<Rightarrow> im_parse im f) \<and> im_find im fn \<noteq> None)"

lemma parseProtoFile_keeps: "pd_paths (snd (parseProtoFile im fn pd)) = pd_paths pd"
  by (simp add: parseProtoFile_def Let_def split: option.splits)

lemma good_file_paths: "pd_paths pd = pd_paths pd' \<Longrightarrow> good_file im pd fn = good_file im pd' fn"
  by (simp add: good_file_def openProto_def)

lemma openProto_parsed [simp]: "openProto im fn (pd\<lparr>pd_parsed_files := x\<rparr>) = openProto im fn pd"
  by (simp add: openProto_def)

lemma parseProtoFile_good: "fst (parseProtoFile im fn pd) = good_file im pd fn"
  by (auto simp: parseProtoFile_def good_file_def Let_def split: option.splits)

text \<open>The result is the number of the files that could be read, as the comment says.\<close>

theorem parseProtoFiles_counts:
  "fst (parseProtoFiles im fns pd) = length (filter (good_file im pd) fns)"
proof (induction fns arbitrary: pd)
  case (Cons fn fns)
  obtain ok pd1 where p: "parseProtoFile im fn pd = (ok, pd1)" by fastforce
  have same: "good_file im pd1 = good_file im pd"
    using parseProtoFile_keeps [of im fn pd] p by (intro ext good_file_paths) simp
  have "ok = good_file im pd fn" using parseProtoFile_good [of im fn pd] p by simp
  then show ?case using Cons.IH [of pd1] p same by (simp add: split_beta Let_def)
qed simp

text \<open>
  A message that the last good file of a list declares is found by its package and its name.
\<close>

theorem last_file_declares:
  assumes "good_file im pd fn" "im_find im fn = Some fd" "fd_messages fd = before @ (n, md) # after"
    and "\<forall>m \<in> set after. fst m \<noteq> n"
  shows "getMessageDescriptor (pd_internalMessages (snd (parseProtoFiles im (fns @ [fn]) pd))) (fd_package fd @ ''.'' @ n) = Some md"
proof -
  have "snd (parseProtoFiles im (fns @ [fn]) pd) = snd (parseProtoFile im fn (snd (parseProtoFiles im fns pd)))" for pd
    by (induction fns arbitrary: pd) (simp_all add: split_beta Let_def)
  moreover have paths: "pd_paths (snd (parseProtoFiles im fns pd)) = pd_paths pd" for pd
    using parseProtoFile_keeps by (induction fns arbitrary: pd) (simp_all add: split_beta Let_def)
  let ?pd = "snd (parseProtoFiles im fns pd)"
  have "good_file im ?pd fn" using assms(1) good_file_paths [OF paths] by blast
  then have "pd_internalMessages (snd (parseProtoFile im fn ?pd)) =
      file_messages (fd_package fd) (fd_messages fd) (pd_internalMessages ?pd)"
    using assms(2) by (auto simp: good_file_def parseProtoFile_def Let_def split: option.splits)
  moreover have none: "map_of (rev (map (\<lambda>(n, md). (fd_package fd @ ''.'' @ n, md)) after)) (fd_package fd @ ''.'' @ n) = None"
    unfolding map_of_eq_None_iff using assms(4) by force
  moreover have "map_of (rev (map (\<lambda>(n, md). (fd_package fd @ ''.'' @ n, md)) (fd_messages fd))) (fd_package fd @ ''.'' @ n) = Some md"
    using assms(3) none by (simp add: map_add_def)
  ultimately show ?thesis
    by (simp add: getMessageDescriptor_def file_messages_declares)
qed

text \<open>An example: a file on a path, whose second message hides the first.\<close>

definition example_importer :: importer where
  "example_importer =
     \<lparr>im_import = (\<lambda>fn. fn = ''a.proto''), im_parse = (\<lambda>fn. True),
      im_find = (\<lambda>fn. Some \<lparr>fd_package = ''p'', fd_messages = [(''M'', \<lparr>md_full_name = ''p.M'', md_packet = None, md_fields = []\<rparr>)]\<rparr>),
      im_fopen = (\<lambda>fn. fn = ''proto/a.proto''), im_files = (\<lambda>p. [''b.proto'', ''a.proto''])\<rparr>"

theorem last_file_declares_witness:
  "map_option md_full_name (getMessageDescriptor
     (pd_internalMessages (protobufDeclarations_new example_importer ''proto'')) ''p.M'') = Some ''p.M''"
proof -
  let ?pd = "addPath ''proto'' proto_declarations_new"
  let ?md = "\<lparr>md_full_name = ''p.M'', md_packet = None, md_fields = []\<rparr>"
  have good: "good_file example_importer ?pd ''a.proto''" by code_simp
  have find: "im_find example_importer ''a.proto'' = Some \<lparr>fd_package = ''p'', fd_messages = [(''M'', ?md)]\<rparr>"
    by (simp add: example_importer_def)
  have files: "im_files example_importer ''proto'' = [''b.proto''] @ [''a.proto'']" by (simp add: example_importer_def)
  show ?thesis
    using last_file_declares [OF good find, of "[]" "''M''" ?md "[]" "[''b.proto'']"]
    unfolding protobufDeclarations_new_def parseProtoPath_def files by simp
qed

end
