(* ===== verification/DatabaseConfig.thy ===== *)
theory DatabaseConfig
  imports SupervisorConfig SqlText
begin

section \<open>Configuration of databases\<close>

text \<open>
  database-config.cpp reads the databases of the packet library from the global array databases
  of a script, with the accessors of the engine that the supervisor uses as well, and prints them.
\<close>

subsection \<open>Loading\<close>

record config_database =
  db_id :: int
  db_name :: string
  db_type :: string
  db_active :: bool
  db_connectionString :: string
  db_login :: string
  db_password :: string
  db_db :: string
  db_port :: int
  db_tableAliases :: "(string, string) smap"
  db_fieldAliases :: "(string, string) smap"
  db_properties :: "(string, string) smap"

definition config_database_new :: config_database where
  "config_database_new =
     \<lparr>db_id = 0, db_name = [], db_type = [], db_active = True, db_connectionString = [], db_login = [],
      db_password = [], db_db = [], db_port = 0, db_tableAliases = [], db_fieldAliases = [], db_properties = []\<rparr>"

text \<open>
  A list of pairs of names. Where the first of a pair is missing, the value that stands for it is
  not taken off the stack of the engine, and reading the second from it throws; where the second
  is missing, the rest of the script is read from a stack that is out of step, which is a fault here.
\<close>

fun load_pairs :: "jsval option list \<Rightarrow> (string, string) smap \<Rightarrow> (string, string) smap result" where
  "load_pairs [] m = Inr m"
| "load_pairs (Some (JArr (a # b # rest)) # xs) m =
     (case a of
        None \<Rightarrow> Inl (Thrown ''TypeError'')
      | Some a \<Rightarrow> bindR (get_string a) (\<lambda>n.
          case b of
            None \<Rightarrow> Inl (Thrown ''stack'')
          | Some b \<Rightarrow> bindR (get_string b) (\<lambda>v. load_pairs xs (smap_put n v m))))"
| "load_pairs (x # xs) m = load_pairs xs m"

definition load_names :: "jsval \<Rightarrow> string \<Rightarrow> (string, string) smap result" where
  "load_names v k =
     bindR (get_prop v k) (\<lambda>p. case p of Some (JArr xs) \<Rightarrow> load_pairs xs [] | _ \<Rightarrow> Inr [])"

definition load_database :: "jsval \<Rightarrow> config_database result" where
  "load_database v =
     (let c = config_database_new
      in bindR (load_prop get_int v ''id'' (db_id c)) (\<lambda>id.
         bindR (load_prop get_string v ''name'' (db_name c)) (\<lambda>name.
         bindR (load_prop get_string v ''type'' (db_type c)) (\<lambda>ty.
         bindR (load_prop get_boolean v ''active'' (db_active c)) (\<lambda>active.
         bindR (load_prop get_string v ''connection'' (db_connectionString c)) (\<lambda>connection.
         bindR (load_prop get_string v ''login'' (db_login c)) (\<lambda>login.
         bindR (load_prop get_string v ''password'' (db_password c)) (\<lambda>password.
         bindR (load_prop get_string v ''db'' (db_db c)) (\<lambda>db.
         bindR (load_names v ''table_aliases'') (\<lambda>tableAliases.
         bindR (load_names v ''field_aliases'') (\<lambda>fieldAliases.
         bindR (load_names v ''properties'') (\<lambda>properties.
           Inr (c\<lparr>db_id := id, db_name := name, db_type := ty, db_active := active, db_connectionString := connection,
                 db_login := login, db_password := password, db_db := db, db_tableAliases := tableAliases,
                 db_fieldAliases := fieldAliases, db_properties := properties\<rparr>)))))))))))))"

text \<open>The databases are added to those of before. A script that fails gives 1, whatever its error.\<close>

definition load_databases :: "jsval option \<Rightarrow> config_database list \<Rightarrow> (int \<times> config_database list) result" where
  "load_databases script dbs =
     (case script of
        None \<Rightarrow> Inr (1, dbs)
      | Some g \<Rightarrow> bindR (load_array load_database config_database_new g ''databases'') (\<lambda>cs. Inr (0, dbs @ cs)))"

definition configDatabases_new :: "(string \<Rightarrow> string) \<Rightarrow> (string \<Rightarrow> jsval option) \<Rightarrow> string \<Rightarrow> config_database list result" where
  "configDatabases_new file2string script filename =
     bindR (load_databases (script (file2string filename)) []) (\<lambda>(r, dbs). Inr dbs)"

subsection \<open>Access\<close>

definition db_at :: "config_database list \<Rightarrow> int \<Rightarrow> config_database result" where
  "db_at dbs index = (if 0 \<le> index \<and> nat index < length dbs then Inr (dbs ! nat index) else Inl (Thrown ''out_of_range''))"

definition getDialect :: "config_database list \<Rightarrow> int \<Rightarrow> int result" where
  "getDialect dbs index =
     bindR (db_at dbs index) (\<lambda>db.
       Inr (if db_type db = ''postgresql'' then 0 else if db_type db = ''mysql'' then 1
            else if db_type db = ''firebird'' then 2 else if db_type db = ''sqlite3'' then 3 else 3))"

definition findByName :: "config_database list \<Rightarrow> string \<Rightarrow> config_database option" where
  "findByName dbs name = find (\<lambda>db. db_name db = name) dbs"

text \<open>Only the values that the properties list are copied, under their other names.\<close>

definition copy_property :: "(string, string) smap \<Rightarrow> string \<times> string \<Rightarrow> (string, string) smap \<Rightarrow> (string, string) smap" where
  "copy_property values p retval =
     (case map_of values (fst p) of
        None \<Rightarrow> retval
      | Some f \<Rightarrow> if snd p \<noteq> [] then smap_put (snd p) f retval else retval)"

definition setProperties :: "config_database list \<Rightarrow> (string, string) smap \<Rightarrow> (string, string) smap \<Rightarrow> int
    \<Rightarrow> (string, string) smap result" where
  "setProperties dbs retval values index =
     bindR (db_at dbs index) (\<lambda>db. Inr (fold (copy_property values) (db_properties db) retval))"

subsection \<open>Printing\<close>

definition pair_text :: "string \<times> string \<Rightarrow> string" where
  "pair_text p = ''['' @ quoted dquote (fst p) @ '', '' @ quoted dquote (snd p) @ '']''"

definition pairs_text :: "string \<Rightarrow> (string, string) smap \<Rightarrow> string" where
  "pairs_text name m =
     (if m = [] then [] else '', '' @ quoted dquote name @ '': ['' @ sep_by '', '' (map pair_text m) @ '']'')"

definition database_toString :: "config_database list \<Rightarrow> int \<Rightarrow> string result" where
  "database_toString dbs index =
     bindR (db_at dbs index) (\<lambda>db.
       Inr (''{'' @ quoted dquote ''id'' @ '': '' @ int_str (db_id db) @ '', '' @
         concat (map (\<lambda>(k, v). quoted dquote k @ '': '' @ v @ '', '')
           [(''name'', quoted dquote (db_name db)), (''type'', quoted dquote (db_type db)),
            (''active'', if db_active db then ''true'' else ''false''),
            (''connection'', quoted dquote (db_connectionString db)), (''login'', quoted dquote (db_login db)),
            (''password'', quoted dquote (db_password db))]) @
         quoted dquote ''db'' @ '': '' @ quoted dquote (db_db db) @
         pairs_text ''table_aliases'' (db_tableAliases db) @ pairs_text ''field_aliases'' (db_fieldAliases db) @
         pairs_text ''properties'' (db_properties db) @ ''}''))"

fun databases_lines :: "config_database list \<Rightarrow> nat list \<Rightarrow> bool \<Rightarrow> string result" where
  "databases_lines dbs [] next_one = Inr []"
| "databases_lines dbs (i # is) next_one =
     bindR (database_toString dbs (int i)) (\<lambda>t. bindR (databases_lines dbs is True) (\<lambda>ts.
       Inr ((if next_one then '', '' else []) @ t @ endl @ ts)))"

definition databases_toString :: "config_database list \<Rightarrow> string result" where
  "databases_toString dbs = bindR (databases_lines dbs [0..<length dbs] False) (\<lambda>t. Inr (''['' @ t @ '']''))"

section \<open>What holds for the databases\<close>

subsection \<open>A script that assigns the databases\<close>

definition js_pairs :: "(string, string) smap \<Rightarrow> jsval" where
  "js_pairs m = JArr (map (\<lambda>p. Some (JArr [Some (JStr (fst p)), Some (JStr (snd p))])) m)"

definition js_database :: "config_database \<Rightarrow> jsval" where
  "js_database c =
     JObj [(''id'', js_num (db_id c)), (''name'', JStr (db_name c)), (''type'', JStr (db_type c)),
           (''active'', JBool (db_active c)), (''connection'', JStr (db_connectionString c)),
           (''login'', JStr (db_login c)), (''password'', JStr (db_password c)), (''db'', JStr (db_db c)),
           (''table_aliases'', js_pairs (db_tableAliases c)), (''field_aliases'', js_pairs (db_fieldAliases c)),
           (''properties'', js_pairs (db_properties c))]"

definition pairs_ok :: "(string, string) smap \<Rightarrow> bool" where
  "pairs_ok m = (smap_ok m \<and> list_all (\<lambda>p. text_ok (fst p) \<and> text_ok (snd p)) m)"

text \<open>The port is never read.\<close>

definition database_ok :: "config_database \<Rightarrow> bool" where
  "database_ok c =
     (int_ok (db_id c) \<and> db_port c = 0 \<and> list_all text_ok [db_name c, db_type c, db_connectionString c, db_login c,
        db_password c, db_db c] \<and> pairs_ok (db_tableAliases c) \<and> pairs_ok (db_fieldAliases c) \<and> pairs_ok (db_properties c))"

lemma smap_put_at_end: "\<forall>a \<in> set (map fst m). a < k \<Longrightarrow> smap_put k v m = m @ [(k, v)]"
  by (induction k v m rule: smap_put.induct) auto

lemma load_pairs_js:
  assumes "sorted_wrt (<) (map fst (acc @ m))" "list_all (\<lambda>p. text_ok (fst p) \<and> text_ok (snd p)) m"
  shows "load_pairs (map (\<lambda>p. Some (JArr [Some (JStr (fst p)), Some (JStr (snd p))])) m) acc = Inr (acc @ m)"
  using assms
proof (induction m arbitrary: acc)
  case (Cons p m)
  have "smap_put (fst p) (snd p) acc = acc @ [p]"
    using Cons.prems(1) smap_put_at_end [of acc "fst p" "snd p"] by (auto simp: sorted_wrt_append)
  with Cons.IH [of "acc @ [p]"] Cons.prems show ?case by (simp add: get_string_ok)
qed simp

lemma load_names_js:
  assumes "map_of m k = Some (js_pairs ps)" "pairs_ok ps"
  shows "load_names (JObj m) k = Inr ps"
  using assms load_pairs_js [of "[]" ps] by (simp add: load_names_def get_prop_def js_pairs_def pairs_ok_def smap_ok_def)

lemma load_js_database: "database_ok c \<Longrightarrow> load_database (js_database c) = Inr c"
  by (simp add: load_database_def js_database_def database_ok_def load_ok load_names_js config_database_new_def)

text \<open>
  A script that assigns every setting of a list of databases has exactly these databases loaded,
  behind those that were there; only the port has no key.
\<close>

theorem databases_read_back:
  assumes "map_of g ''databases'' = Some (JArr (map (\<lambda>c. Some (js_database c)) cs))" "list_all database_ok cs"
  shows "load_databases (Some (JObj g)) dbs = Inr (0, dbs @ cs)"
proof -
  have "load_array load_database config_database_new (JObj g) ''databases'' = Inr cs"
    using assms by (intro load_array_ok [where good = database_ok and enc = js_database]) (simp_all add: load_js_database)
  then show ?thesis by (simp add: load_databases_def)
qed

theorem databases_read_back_witness:
  "load_databases (Some (JObj [(''databases'', JArr [Some (js_database (config_database_new\<lparr>db_name := ''a'', db_type := ''mysql'',
      db_tableAliases := [(''p.M'', ''t'')]\<rparr>))])])) [] =
    Inr (0, [config_database_new\<lparr>db_name := ''a'', db_type := ''mysql'', db_tableAliases := [(''p.M'', ''t'')]\<rparr>])"
proof -
  let ?c = "config_database_new\<lparr>db_name := ''a'', db_type := ''mysql'', db_tableAliases := [(''p.M'', ''t'')]\<rparr>"
  have "list_all database_ok [?c]" by code_simp
  then show ?thesis
    using databases_read_back [of "[(''databases'', JArr [Some (js_database ?c)])]" "[?c]" "[]"] by simp
qed

subsection \<open>Properties\<close>

lemma copied_property:
  assumes "distinct (map snd ps)" "(k, a) \<in> set ps" "a \<noteq> []" "map_of values k = Some v"
  shows "map_of (fold (copy_property values) ps retval) a = Some v"
proof -
  have keep: "map_of (fold (copy_property values) qs m) a = map_of m a" if "a \<notin> set (map snd qs)" for qs m
    using that by (induction qs arbitrary: m) (auto simp: copy_property_def map_of_smap_put split: option.splits)
  show ?thesis using assms(1,2)
  proof (induction ps arbitrary: retval)
    case (Cons p ps)
    show ?case
    proof (cases "p = (k, a)")
      case True
      then have "map_of (fold (copy_property values) ps (copy_property values p retval)) a = map_of (copy_property values p retval) a"
        using Cons.prems(1) by (intro keep) auto
      moreover have "copy_property values p retval = smap_put a v retval" using True assms(3,4) by (simp add: copy_property_def)
      ultimately show ?thesis by (simp add: map_of_smap_put)
    next
      case False
      then show ?thesis using Cons by simp
    qed
  qed simp
qed

text \<open>Every value that the properties of a database list is found under its other name.\<close>

theorem setProperties_copies:
  assumes "db_at dbs index = Inr db" "distinct (map snd (db_properties db))" "(k, a) \<in> set (db_properties db)" "a \<noteq> []"
    and "map_of values k = Some v"
  shows "\<exists>m. setProperties dbs retval values index = Inr m \<and> map_of m a = Some v"
  using assms(1) copied_property [OF assms(2-5)] by (simp add: setProperties_def)

end
