(* ===== verification/Spec2Isabelle.thy ===== *)
theory Spec2Isabelle
  imports HuffClasses BitStream NanoPacket Supervisor Pipeline PbJsonRound GeneratorText GeneratorTables ChildSettings
    LmdbWriter PqWriter SheetsWriter Gateway Dumpers FileReceiver MqttReceiver TcpReceiver EndToEnd PacketLibrary SheetTools Emitters
    Declarations DatabaseConfig
begin

text \<open>
  A verification development for pkt2, a system that receives packets of telemetry from
  devices, decompresses them, finds the type of a packet among the messages declared in
  protobuf files, extracts the fields of the packet into a message and hands the message
  to writers for files, databases and cloud services. Each of these steps is a process;
  a supervisor starts, watches and stops them, and they talk over buses of nanomsg.

  \<^bold>\<open>Theories and the code they model\<close>

  Foundations and codings:

  \<^item> \<open>Prelude\<close>: machine types, the result type of code that can fail (\<open>Inl\<close> is an
    execution without a defined meaning or a thrown exception), std::map as a sorted
    association list, decimal and hexadecimal printing. \<open>ordered_map\<close> states what the
    clients of std::map rely on, and \<open>smap\<close> proves it for the list.
  \<^item> \<open>Varint\<close>, \<open>BitStream\<close>: third_party/bitstream. Length descriptors of up to ten bytes
    and streams of bits, with the local buffer of four bytes, the shifts of an int and the
    state of both stream classes.
  \<^item> \<open>HuffTree\<close>, \<open>HuffText\<close>, \<open>HuffCodec\<close>, \<open>HuffClasses\<close>: huff/huffcode.cpp,
    huff/devdecoder.cpp and the encoder and decoder classes. A tree is built from
    frequencies or from a list of codes, gives each symbol a code, and packets are
    compressed to the codes of their bytes; bytes without a code follow an escape code.
    The end of a packet is an end symbol or a length descriptor.
  \<^item> \<open>Ascii\<close>: bin2ascii.h and utilstring.cpp, the hexadecimal and base64 codings and the
    text helpers. \<open>byte_codec\<close> is the contract of a coding of bytes as text.
  \<^item> \<open>TextNumber\<close>: the parsers and printers of numbers and times in utilstring.cpp.

  Packets and messages:

  \<^item> \<open>PacketField\<close>: the accessors of utilprotobuf.cpp for the fields of a packet.
    \<open>field_store\<close> is the contract of a setter and its getter.
  \<^item> \<open>PacketVar\<close>: pkt2packetvariable.cpp and pkt2optionscache.cpp: the metadata of a
    message type, the tags that identify its packets, and its keys.
  \<^item> \<open>Declarations\<close>: protobuf-declarations.cpp: the files of a directory are imported and
    their messages collected by name, with the errors that are counted on the way.
  \<^item> \<open>JsValue\<close>, \<open>Message\<close>: the values a script sees, and messages of protobuf as trees of
    fields with the checks and setters of its reflection.
  \<^item> \<open>Decompose\<close>, \<open>Compose\<close>: messagedecomposer.cpp walks a message with callbacks;
    messagecomposer.cpp and packet2message.cpp fill a message field by field. \<open>Pipeline\<close>
    joins them to packets.
  \<^item> \<open>JsContext\<close>, \<open>JsMessage\<close>, \<open>FieldsBack\<close>: javascript-context.cpp and the part of
    packet2message.cpp that calls it: the objects for the fields of a packet and for a message, and
    the packet that is rebuilt from the object of its fields.
  \<^item> \<open>MessageFormat\<close>, \<open>SqlText\<close>: messageformat.cpp and fieldnamevalueindexstrings.cpp: a
    message as CSV, tab separated text, JSON and SQL in its dialects.
  \<^item> \<open>JsonCpp\<close>, \<open>PbJson\<close>, \<open>PbJsonRound\<close>: jsoncpp.cpp with its values, its fast writer and
    its reader, and pbjson.cpp: messages to JSON and back.

  The code generator:

  \<^item> \<open>CodeGenerator\<close>, \<open>GeneratorText\<close>, \<open>GeneratorTables\<close>: pkt2_code_generator.cpp: the
    order of the fields, the structures and tables that are written.

  Processes on the bus:

  \<^item> \<open>NanoPacket\<close>: input-packet.cpp, the layout of a packet between the processes.
  \<^item> \<open>Delimited\<close>: utilprotobuf.cpp, the text of a message on the bus with its type and its
    addresses.
  \<^item> \<open>Bus\<close>: the loop over nn_recv, stop and reload requests and the main loop that all
    programs copy. \<open>bus_sessions\<close> and \<open>bus_client\<close> are the contracts of a handler.
  \<^item> \<open>ReceiverNano\<close>: pkt2receivernano.cpp turns packets into messages, and reports every
    step on a control bus.
  \<^item> \<open>PacketSource\<close>, \<open>FileReceiver\<close>, \<open>MqttReceiver\<close>, \<open>TcpReceiver\<close>: freceiver-impl.cpp,
    mqtt-receivernano.cpp and tcpreceivernano.cpp. \<open>packet_source\<close> is their contract: data
    become packets whose payload is found again.
  \<^item> \<open>LineWriter\<close>, \<open>LmdbWriter\<close>, \<open>PqWriter\<close>, \<open>FcmWriter\<close>, \<open>SheetsWriter\<close>: the writers into
    a stream, LMDB, PostgreSQL, notifications and a spreadsheet, each as a whole run.
  \<^item> \<open>SheetText\<close>, \<open>SheetSession\<close>: google-sheets.cpp, the spreadsheet client with its tokens,
    ranges and requests.
  \<^item> \<open>Gateway\<close>, \<open>Dumpers\<close>: message2gateway-impl.cpp, repeator.cpp,
    pkt2receiver-check.cpp, pqdumper.cpp and fcmdumper.cpp.
  \<^item> \<open>EndToEnd\<close>: the receiver of files, the receiver of packets and the writer of lines as
    one chain, where what one has sent arrives at the next; \<open>NumberLines\<close> is the line that
    the writer prints for a message of numbers.

  Programs beside the bus:

  \<^item> \<open>PacketLibrary\<close>: str-pkt2.cpp and packet-protobuf-message.cpp, the library that parses a
    packet for other programs; pkt2gateway.cpp and pkt2js-impl.cpp, which send and print packets.
  \<^item> \<open>SheetTools\<close>: google-sheets-writer-from-file.cpp and google-sheets-writer-from-js.cpp.
  \<^item> \<open>Emitters\<close>: tcpemitterline.cpp, messageemitterline.cpp and the Iridium packets of
    tcpemitter-iridium.cpp and mqtt-emitter-iridium.cpp.

  Configuration and supervision:

  \<^item> \<open>ArgTable\<close>: the part of argtable3 and getopt the programs use.
    \<open>ReceiverConfigs\<close>, \<open>HandlerConfigs\<close>, \<open>SheetConfigs\<close>: the Config class of every program.
  \<^item> \<open>SupervisorConfig\<close>, \<open>Supervisor\<close>: pkt2-impl.cpp and pkt2.cpp: the configuration
    read from the global object of a script, the command line of each process, and the
    supervisor as a machine whose main thread takes one step of pkt2() at a time,
    interleaved with signals and the end of children. \<open>ChildSettings\<close> joins the command
    lines of the supervisor to the parsers of the programs. \<open>DatabaseConfig\<close> is
    database-config.cpp: the databases of the packet library, read from a script.

  \<^bold>\<open>What the lemmas show\<close>

  The codings are inverse to each other where the code makes them so, from the bit stream
  and the length descriptor through the Huffman codec up to the encoder and decoder
  classes; codes form a prefix code and the tree has exactly the symbols that occur. Fields
  of a packet that lie apart do not disturb each other, the empty packet of a type carries
  its tags, and the key indexes follow the declared order. Parsing a packet gives a message
  of the declared types whose numbers are those of the packet; a message comes back from
  JSON, and the statements of SQL read back as its values. Each process does with every
  message of its bus what it is for: lines are printed, keys updated, statements committed
  as a whole, rows appended, notifications sent, packets dumped, messages forwarded; a
  packet that is received ends up as a printed message, and the packets of a file as exactly one
  printed line each, with their numbers. Where calls of the surroundings can fail or do a part of
  their work only, the theorems say what is left then: the keys of LMDB whichever of its calls
  fail, notifications up to the first one that is refused, and the bytes that one write and one
  read of a TCP connection let through. The supervisor signals only its
  own children, restarts exactly the dead ones and obeys a stop request in its loop. Where
  the code falls short of that, the theorem states what it does instead: which values
  overflow a buffer, which loops do not end, which settings are lost, which request is
  ignored.

  \<^bold>\<open>Fuel and bounds\<close>

  decompress_stream loops until it meets the end of its packet, and does not end in every
  case; its model takes fuel and yields \<open>None\<close> when that is used up. The round trips give a
  fuel that suffices, and decompress_returns_early_or_never bounds the useful fuel by the
  bits of the packet. The loop over the key indexes of a message and the recursion over
  nested messages take fuel for the same reason, and the theorems about them give a fuel
  from the depth of the type or name it as a premise that the depth meets. The loops of
  the processes are recursion over the list of what arrives, so they need none. The tools of
  \<open>SheetTools\<close> and \<open>Emitters\<close> run again as long as a flag is set, so their fuel counts the runs,
  and the words of a run; \<open>None\<close> for every fuel is a program that spins. Sizes,
  counters and indexes keep the width they have in the code wherever their overflow can be
  seen: \<open>u64\<close> and \<open>u32\<close> are machine words, \<open>wrap32\<close> is the value stored into an int.

  \<^bold>\<open>What is a parameter\<close>

  The descriptors of the protobuf library are records with the attributes the code reads.
  Its coded streams and text formats, std::hash, the conversion between double and float,
  the engine that runs a script and the global object a configuration script leaves
  behind are arguments of the definitions that use them; so are the results of fork, exec
  and the process table, of the calls of nanomsg, sockets, MQTT, LMDB, libpq and curl.
  What arrives on a bus or a socket is a list of events, with interruptions among them. A
  value that a function reads without having set it is an argument too (the result of
  read_buffer, the memory behind a packet that the receiver of packets reads), or a fault.
  The round trips of the Huffman codec are for the value true of that missing result.

  \<^bold>\<open>What is not modelled\<close>

  The parser of .proto files and of the JSON of the spreadsheet tool, which are libraries and
  parameters; the wrappers of the operating system (daemonize.cpp, sslhelper.cpp, utilfile.cpp)
  and NanoMessage.cpp, which no program uses; the sensors and clocks the emitters read; the main
  functions, which are copies of the one whose signals and retries are in \<open>Bus\<close>; and
  vendored or generated code but for the parts of argtable3 and jsoncpp the programs use.
  Log messages and debug output of trees and tables are left out, and so are an output file of
  the writer of lines that cannot be opened, a stream of the file receiver that goes bad, and the
  static buffer behind the text of an address.
\<close>

end
